(* ===== verification/Prelude.thy ===== *)
theory Prelude
  imports Main "HOL-Library.Word"
begin

text \<open>
  The shared vocabulary of the development.

  Machine integers are words of the width the Go source gives them, a Go byte slice is a list of
  8-bit words, and a Go function that returns \<open>(value, error)\<close> returns a sum: \<open>Inl\<close> an error,
  \<open>Inr\<close> the value.  Errors are the sentinel values the source declares with \<open>errors.New\<close>; the
  text that \<open>fmt.Errorf\<close> wraps around a sentinel is not modelled.

  The little-endian accessors of \<open>encoding/binary\<close> are \<open>le_bytes\<close> and \<open>le_word\<close>, generic in the
  width; the lemmas below are the round trips every wire format of the repository rests on.
\<close>

unbundle bit_operations_syntax

named_theorems codec_simps \<open>encoders and decoders of fixed-width fields\<close>
named_theorems vm_simps \<open>evaluation of the interpreter on symbolic states\<close>

type_synonym u8 = "8 word"
type_synonym u16 = "16 word"
type_synonym u32 = "32 word"
type_synonym u64 = "64 word"
type_synonym bytes = "u8 list"

section \<open>Errors as values\<close>

definition and_then :: "'e + 'a \<Rightarrow> ('a \<Rightarrow> 'e + 'b) \<Rightarrow> 'e + 'b" where
  "and_then r f = (case r of Inl e \<Rightarrow> Inl e | Inr x \<Rightarrow> f x)"

lemma and_then_simps [simp]:
  "and_then (Inl e) f = Inl e"
  "and_then (Inr x) f = f x"
  by (simp_all add: and_then_def)

lemma and_then_Inr_conv:
  "and_then r f = Inr y \<longleftrightarrow> (\<exists>x. r = Inr x \<and> f x = Inr y)"
  by (cases r) auto

lemma and_then_Inl_conv:
  "and_then r f = Inl e \<longleftrightarrow> r = Inl e \<or> (\<exists>x. r = Inr x \<and> f x = Inl e)"
  by (cases r) auto

lemma and_then_assoc: "and_then (and_then r f) g = and_then r (\<lambda>x. and_then (f x) g)"
  by (cases r) auto

lemma and_then_cong [fundef_cong]:
  assumes "r = r'" and "\<And>x. r' = Inr x \<Longrightarrow> f x = g x"
  shows "and_then r f = and_then r' g"
  using assms by (cases r') auto

text \<open>Checks: \<open>None\<close> is a nil error.  Of several checks the first failure counts.\<close>

definition ensure :: "bool \<Rightarrow> 'e \<Rightarrow> 'e option" where
  "ensure ok e = (if ok then None else Some e)"

definition also_check :: "'e option \<Rightarrow> 'e option \<Rightarrow> 'e option" where
  "also_check a b = (case a of Some e \<Rightarrow> Some e | None \<Rightarrow> b)"

fun check_each :: "(nat \<Rightarrow> 'a \<Rightarrow> 'e option) \<Rightarrow> nat \<Rightarrow> 'a list \<Rightarrow> 'e option" where
  "check_each c index [] = None"
| "check_each c index (x # xs) = also_check (c index x) (check_each c (Suc index) xs)"

lemma ensure_None [simp]: "ensure ok e = None \<longleftrightarrow> ok"
  by (simp add: ensure_def)

lemma also_check_None [simp]: "also_check a b = None \<longleftrightarrow> a = None \<and> b = None"
  by (auto simp: also_check_def split: option.splits)

lemma check_each_None:
  "check_each c index xs = None \<longleftrightarrow> (\<forall>i < length xs. c (index + i) (xs ! i) = None)"
proof (induction xs arbitrary: index)
  case (Cons x xs)
  then show ?case by (auto simp: less_Suc_eq_0_disj)
qed simp

section \<open>Little-endian byte order\<close>

definition le_bytes :: "nat \<Rightarrow> 'a::len word \<Rightarrow> bytes" where
  "le_bytes n w = map (\<lambda>i. ucast (drop_bit (8 * i) w)) [0..<n]"

fun le_word :: "bytes \<Rightarrow> 'a::len word" where
  "le_word [] = 0"
| "le_word (b # bs) = ucast b OR push_bit 8 (le_word bs)"

lemma length_le_bytes [simp]: "length (le_bytes n w) = n"
  by (simp add: le_bytes_def)

lemma le_bytes_nth [simp]: "i < n \<Longrightarrow> le_bytes n w ! i = ucast (drop_bit (8 * i) w)"
  by (simp add: le_bytes_def)

lemma bit_le_word:
  "bit (le_word bs :: 'a::len word) i \<longleftrightarrow>
     i < LENGTH('a) \<and> i div 8 < length bs \<and> bit (bs ! (i div 8)) (i mod 8)"
proof (induction bs arbitrary: i)
  case Nil
  then show ?case by simp
next
  case (Cons b bs)
  have b8: "bit b j \<Longrightarrow> j < 8" for j
    using bit_imp_le_length [of b j] by simp
  show ?case
  proof (cases "i < 8")
    case True
    then show ?thesis
      by (auto simp: bit_simps)
  next
    case False
    then obtain j where j: "i = j + 8" by (metis add.commute le_Suc_ex not_less)
    have "bit (ucast b :: 'a word) (j + 8) = False"
      using b8 [of "j + 8"] by (auto simp: bit_simps)
    moreover have "(j + 8) div 8 = Suc (j div 8)" by simp
    ultimately show ?thesis
      using Cons.IH [of j] unfolding j
      by (auto simp: bit_or_iff bit_push_bit_iff dest: bit_imp_le_length)
  qed
qed

lemma le_word_le_bytes:
  "le_word (le_bytes n (w :: 'a::len word)) = (take_bit (8 * n) w :: 'a word)"
proof (rule bit_word_eqI)
  fix i assume i: "i < LENGTH('a)"
  have "i div 8 < n \<longleftrightarrow> i < 8 * n"
    by (simp add: div_less_iff_less_mult mult.commute)
  moreover have "8 * (i div 8) + i mod 8 = i" by simp
  ultimately show "bit (le_word (le_bytes n w) :: 'a word) i \<longleftrightarrow> bit (take_bit (8 * n) w) i"
    using i by (auto simp: bit_le_word bit_simps)
qed

lemma le_word_le_bytes_full [codec_simps]:
  "LENGTH('a) \<le> 8 * n \<Longrightarrow> le_word (le_bytes n (w :: 'a::len word)) = w"
  by (simp add: le_word_le_bytes take_bit_word_eq_self)

lemma le_bytes_le_word [codec_simps]:
  assumes "length bs = n" and "8 * n \<le> LENGTH('a)"
  shows "le_bytes n (le_word bs :: 'a::len word) = bs"
proof (rule nth_equalityI)
  show "length (le_bytes n (le_word bs :: 'a word)) = length bs"
    using assms by simp
next
  fix i assume "i < length (le_bytes n (le_word bs :: 'a word))"
  then have i: "i < n" by simp
  show "le_bytes n (le_word bs :: 'a word) ! i = bs ! i"
  proof (rule bit_word_eqI)
    fix j :: nat assume "j < LENGTH(8)"
    then have j: "j < 8" by simp
    have "8 * i + j < LENGTH('a)" using i j assms(2) by linarith
    moreover have "(8 * i + j) div 8 = i" "(8 * i + j) mod 8 = j" using j by simp_all
    ultimately show "bit (le_bytes n (le_word bs :: 'a word) ! i) j \<longleftrightarrow> bit (bs ! i) j"
      using i j assms(1)
      by (simp only: le_bytes_nth bit_ucast_iff bit_drop_bit_eq bit_le_word comp_def) simp
  qed
qed

lemma le_word_append_zeros:
  "le_word (bs @ replicate k 0) = le_word bs"
proof (induction bs)
  case Nil
  then show ?case by (induction k) simp_all
next
  case (Cons b bs)
  then show ?case by simp
qed

lemma le_bytes_inj:
  assumes "LENGTH('a) \<le> 8 * n" and "le_bytes n (v :: 'a::len word) = le_bytes n w"
  shows "v = w"
  by (metis assms le_word_le_bytes_full)

section \<open>Lists\<close>

lemma take_append_exact [simp]: "length xs = n \<Longrightarrow> take n (xs @ ys) = xs"
  by simp

lemma drop_append_exact [simp]: "length xs = n \<Longrightarrow> drop n (xs @ ys) = ys"
  by simp

text \<open>Overwriting a slice in place, as \<open>copy\<close> into a sub-slice does.\<close>

definition put_slice :: "nat \<Rightarrow> 'a list \<Rightarrow> 'a list \<Rightarrow> 'a list" where
  "put_slice off vs xs = take off xs @ vs @ drop (off + length vs) xs"

definition get_slice :: "nat \<Rightarrow> nat \<Rightarrow> 'a list \<Rightarrow> 'a list" where
  "get_slice off n xs = take n (drop off xs)"

lemma length_put_slice [simp]:
  "off + length vs \<le> length xs \<Longrightarrow> length (put_slice off vs xs) = length xs"
  by (simp add: put_slice_def)

lemma length_get_slice [simp]:
  "off + n \<le> length xs \<Longrightarrow> length (get_slice off n xs) = n"
  by (simp add: get_slice_def)

lemma get_put_slice_same [simp]:
  "off + length vs \<le> length xs \<Longrightarrow> n = length vs \<Longrightarrow> get_slice off n (put_slice off vs xs) = vs"
  by (simp add: get_slice_def put_slice_def)

lemma put_slice_nth:
  assumes "off + length vs \<le> length xs" and "i < length xs"
  shows "put_slice off vs xs ! i =
    (if off \<le> i \<and> i < off + length vs then vs ! (i - off) else xs ! i)"
  using assms by (auto simp: put_slice_def nth_append min_def)

lemma get_slice_nth [simp]:
  "off + n \<le> length xs \<Longrightarrow> i < n \<Longrightarrow> get_slice off n xs ! i = xs ! (off + i)"
  by (simp add: get_slice_def)

lemma get_put_slice_disjoint:
  assumes "off + length vs \<le> length xs" and "o2 + n \<le> length xs"
    and "o2 + n \<le> off \<or> off + length vs \<le> o2"
  shows "get_slice o2 n (put_slice off vs xs) = get_slice o2 n xs"
proof (rule nth_equalityI)
  show "length (get_slice o2 n (put_slice off vs xs)) = length (get_slice o2 n xs)"
    using assms(1,2) by simp
next
  fix i assume "i < length (get_slice o2 n (put_slice off vs xs))"
  then have i: "i < n" using assms(1,2) by simp
  have "\<not> (off \<le> o2 + i \<and> o2 + i < off + length vs)" using assms(3) i by auto
  then show "get_slice o2 n (put_slice off vs xs) ! i = get_slice o2 n xs ! i"
    using assms(1,2) i by (auto simp: put_slice_nth)
qed

end
