(* ===== verification/SbpfOpcode.thy ===== *)
theory SbpfOpcode
  imports Prelude
begin

text \<open>
  \<open>src/sbpf/opcode.go\<close>: the one-byte operation codes of the sBPF v3 subset.  \<open>Opcode\<close> is a Go
  \<open>uint8\<close>, so an opcode is an 8-bit word and every byte is a value of the type, known or not;
  each constant of the source is an abbreviation for its encoding.  \<open>opcodeNames\<close> is the name
  table (which also decides validity), and the class predicates are the source's \<open>switch\<close>es.
\<close>

type_synonym opcode = u8

section \<open>Encodings\<close>

abbreviation (input) LD_DW_IMM :: opcode where "LD_DW_IMM \<equiv> 0x18"
abbreviation (input) LD_B_REG :: opcode where "LD_B_REG \<equiv> 0x71"
abbreviation (input) LD_H_REG :: opcode where "LD_H_REG \<equiv> 0x69"
abbreviation (input) LD_W_REG :: opcode where "LD_W_REG \<equiv> 0x61"
abbreviation (input) LD_DW_REG :: opcode where "LD_DW_REG \<equiv> 0x79"
abbreviation (input) ST_B_REG :: opcode where "ST_B_REG \<equiv> 0x73"
abbreviation (input) ST_H_REG :: opcode where "ST_H_REG \<equiv> 0x6b"
abbreviation (input) ST_W_REG :: opcode where "ST_W_REG \<equiv> 0x63"
abbreviation (input) ST_DW_REG :: opcode where "ST_DW_REG \<equiv> 0x7b"
abbreviation (input) ADD32_IMM :: opcode where "ADD32_IMM \<equiv> 0x04"
abbreviation (input) ADD32_REG :: opcode where "ADD32_REG \<equiv> 0x0c"
abbreviation (input) SUB32_IMM :: opcode where "SUB32_IMM \<equiv> 0x14"
abbreviation (input) SUB32_REG :: opcode where "SUB32_REG \<equiv> 0x1c"
abbreviation (input) MUL32_IMM :: opcode where "MUL32_IMM \<equiv> 0x24"
abbreviation (input) MUL32_REG :: opcode where "MUL32_REG \<equiv> 0x2c"
abbreviation (input) DIV32_IMM :: opcode where "DIV32_IMM \<equiv> 0x34"
abbreviation (input) DIV32_REG :: opcode where "DIV32_REG \<equiv> 0x3c"
abbreviation (input) LSH32_IMM :: opcode where "LSH32_IMM \<equiv> 0x64"
abbreviation (input) LSH32_REG :: opcode where "LSH32_REG \<equiv> 0x6c"
abbreviation (input) RSH32_IMM :: opcode where "RSH32_IMM \<equiv> 0x74"
abbreviation (input) RSH32_REG :: opcode where "RSH32_REG \<equiv> 0x7c"
abbreviation (input) NEG32 :: opcode where "NEG32 \<equiv> 0x84"
abbreviation (input) MOD32_IMM :: opcode where "MOD32_IMM \<equiv> 0x94"
abbreviation (input) MOD32_REG :: opcode where "MOD32_REG \<equiv> 0x9c"
abbreviation (input) XOR32_IMM :: opcode where "XOR32_IMM \<equiv> 0xa4"
abbreviation (input) XOR32_REG :: opcode where "XOR32_REG \<equiv> 0xac"
abbreviation (input) MOV32_IMM :: opcode where "MOV32_IMM \<equiv> 0xb4"
abbreviation (input) MOV32_REG :: opcode where "MOV32_REG \<equiv> 0xbc"
abbreviation (input) ARSH32_IMM :: opcode where "ARSH32_IMM \<equiv> 0xc4"
abbreviation (input) ARSH32_REG :: opcode where "ARSH32_REG \<equiv> 0xcc"
abbreviation (input) ADD64_IMM :: opcode where "ADD64_IMM \<equiv> 0x07"
abbreviation (input) ADD64_REG :: opcode where "ADD64_REG \<equiv> 0x0f"
abbreviation (input) SUB64_IMM :: opcode where "SUB64_IMM \<equiv> 0x17"
abbreviation (input) SUB64_REG :: opcode where "SUB64_REG \<equiv> 0x1f"
abbreviation (input) MUL64_IMM :: opcode where "MUL64_IMM \<equiv> 0x27"
abbreviation (input) MUL64_REG :: opcode where "MUL64_REG \<equiv> 0x2f"
abbreviation (input) DIV64_IMM :: opcode where "DIV64_IMM \<equiv> 0x37"
abbreviation (input) DIV64_REG :: opcode where "DIV64_REG \<equiv> 0x3f"
abbreviation (input) LSH64_IMM :: opcode where "LSH64_IMM \<equiv> 0x67"
abbreviation (input) LSH64_REG :: opcode where "LSH64_REG \<equiv> 0x6f"
abbreviation (input) RSH64_IMM :: opcode where "RSH64_IMM \<equiv> 0x77"
abbreviation (input) RSH64_REG :: opcode where "RSH64_REG \<equiv> 0x7f"
abbreviation (input) NEG64 :: opcode where "NEG64 \<equiv> 0x87"
abbreviation (input) MOD64_IMM :: opcode where "MOD64_IMM \<equiv> 0x97"
abbreviation (input) MOD64_REG :: opcode where "MOD64_REG \<equiv> 0x9f"
abbreviation (input) XOR64_IMM :: opcode where "XOR64_IMM \<equiv> 0xa7"
abbreviation (input) XOR64_REG :: opcode where "XOR64_REG \<equiv> 0xaf"
abbreviation (input) MOV64_IMM :: opcode where "MOV64_IMM \<equiv> 0xb7"
abbreviation (input) MOV64_REG :: opcode where "MOV64_REG \<equiv> 0xbf"
abbreviation (input) ARSH64_IMM :: opcode where "ARSH64_IMM \<equiv> 0xc7"
abbreviation (input) ARSH64_REG :: opcode where "ARSH64_REG \<equiv> 0xcf"
abbreviation (input) JEQ32_IMM :: opcode where "JEQ32_IMM \<equiv> 0x16"
abbreviation (input) JEQ32_REG :: opcode where "JEQ32_REG \<equiv> 0x1e"
abbreviation (input) JGT32_IMM :: opcode where "JGT32_IMM \<equiv> 0x26"
abbreviation (input) JGT32_REG :: opcode where "JGT32_REG \<equiv> 0x2e"
abbreviation (input) JGE32_IMM :: opcode where "JGE32_IMM \<equiv> 0x36"
abbreviation (input) JGE32_REG :: opcode where "JGE32_REG \<equiv> 0x3e"
abbreviation (input) JNE32_IMM :: opcode where "JNE32_IMM \<equiv> 0x56"
abbreviation (input) JNE32_REG :: opcode where "JNE32_REG \<equiv> 0x5e"
abbreviation (input) JSGT32_IMM :: opcode where "JSGT32_IMM \<equiv> 0x66"
abbreviation (input) JSGT32_REG :: opcode where "JSGT32_REG \<equiv> 0x6e"
abbreviation (input) JSGE32_IMM :: opcode where "JSGE32_IMM \<equiv> 0x76"
abbreviation (input) JSGE32_REG :: opcode where "JSGE32_REG \<equiv> 0x7e"
abbreviation (input) JLT32_IMM :: opcode where "JLT32_IMM \<equiv> 0xa6"
abbreviation (input) JLT32_REG :: opcode where "JLT32_REG \<equiv> 0xae"
abbreviation (input) JLE32_IMM :: opcode where "JLE32_IMM \<equiv> 0xb6"
abbreviation (input) JLE32_REG :: opcode where "JLE32_REG \<equiv> 0xbe"
abbreviation (input) JSLT32_IMM :: opcode where "JSLT32_IMM \<equiv> 0xc6"
abbreviation (input) JSLT32_REG :: opcode where "JSLT32_REG \<equiv> 0xce"
abbreviation (input) JSLE32_IMM :: opcode where "JSLE32_IMM \<equiv> 0xd6"
abbreviation (input) JSLE32_REG :: opcode where "JSLE32_REG \<equiv> 0xde"
abbreviation (input) JA :: opcode where "JA \<equiv> 0x05"
abbreviation (input) JEQ64_IMM :: opcode where "JEQ64_IMM \<equiv> 0x15"
abbreviation (input) JEQ64_REG :: opcode where "JEQ64_REG \<equiv> 0x1d"
abbreviation (input) JGT64_IMM :: opcode where "JGT64_IMM \<equiv> 0x25"
abbreviation (input) JGT64_REG :: opcode where "JGT64_REG \<equiv> 0x2d"
abbreviation (input) JGE64_IMM :: opcode where "JGE64_IMM \<equiv> 0x35"
abbreviation (input) JGE64_REG :: opcode where "JGE64_REG \<equiv> 0x3d"
abbreviation (input) JNE64_IMM :: opcode where "JNE64_IMM \<equiv> 0x55"
abbreviation (input) JNE64_REG :: opcode where "JNE64_REG \<equiv> 0x5d"
abbreviation (input) JSGT64_IMM :: opcode where "JSGT64_IMM \<equiv> 0x65"
abbreviation (input) JSGT64_REG :: opcode where "JSGT64_REG \<equiv> 0x6d"
abbreviation (input) JSGE64_IMM :: opcode where "JSGE64_IMM \<equiv> 0x75"
abbreviation (input) JSGE64_REG :: opcode where "JSGE64_REG \<equiv> 0x7d"
abbreviation (input) CALL_IMM :: opcode where "CALL_IMM \<equiv> 0x85"
abbreviation (input) EXIT :: opcode where "EXIT \<equiv> 0x95"
abbreviation (input) JLT64_IMM :: opcode where "JLT64_IMM \<equiv> 0xa5"
abbreviation (input) JLT64_REG :: opcode where "JLT64_REG \<equiv> 0xad"
abbreviation (input) JLE64_IMM :: opcode where "JLE64_IMM \<equiv> 0xb5"
abbreviation (input) JLE64_REG :: opcode where "JLE64_REG \<equiv> 0xbd"
abbreviation (input) JSLT64_IMM :: opcode where "JSLT64_IMM \<equiv> 0xc5"
abbreviation (input) JSLT64_REG :: opcode where "JSLT64_REG \<equiv> 0xcd"
abbreviation (input) JSLE64_IMM :: opcode where "JSLE64_IMM \<equiv> 0xd5"
abbreviation (input) JSLE64_REG :: opcode where "JSLE64_REG \<equiv> 0xdd"

section \<open>Names and validity\<close>

definition opcodeNames :: "(opcode \<times> string) list" where
  "opcodeNames = [
     (LD_DW_IMM, ''LD_DW_IMM''),
     (LD_B_REG, ''LD_B_REG''),
     (LD_H_REG, ''LD_H_REG''),
     (LD_W_REG, ''LD_W_REG''),
     (LD_DW_REG, ''LD_DW_REG''),
     (ST_B_REG, ''ST_B_REG''),
     (ST_H_REG, ''ST_H_REG''),
     (ST_W_REG, ''ST_W_REG''),
     (ST_DW_REG, ''ST_DW_REG''),
     (ADD32_IMM, ''ADD32_IMM''),
     (ADD32_REG, ''ADD32_REG''),
     (SUB32_IMM, ''SUB32_IMM''),
     (SUB32_REG, ''SUB32_REG''),
     (MUL32_IMM, ''MUL32_IMM''),
     (MUL32_REG, ''MUL32_REG''),
     (DIV32_IMM, ''DIV32_IMM''),
     (DIV32_REG, ''DIV32_REG''),
     (LSH32_IMM, ''LSH32_IMM''),
     (LSH32_REG, ''LSH32_REG''),
     (RSH32_IMM, ''RSH32_IMM''),
     (RSH32_REG, ''RSH32_REG''),
     (NEG32, ''NEG32''),
     (MOD32_IMM, ''MOD32_IMM''),
     (MOD32_REG, ''MOD32_REG''),
     (XOR32_IMM, ''XOR32_IMM''),
     (XOR32_REG, ''XOR32_REG''),
     (MOV32_IMM, ''MOV32_IMM''),
     (MOV32_REG, ''MOV32_REG''),
     (ARSH32_IMM, ''ARSH32_IMM''),
     (ARSH32_REG, ''ARSH32_REG''),
     (ADD64_IMM, ''ADD64_IMM''),
     (ADD64_REG, ''ADD64_REG''),
     (SUB64_IMM, ''SUB64_IMM''),
     (SUB64_REG, ''SUB64_REG''),
     (MUL64_IMM, ''MUL64_IMM''),
     (MUL64_REG, ''MUL64_REG''),
     (DIV64_IMM, ''DIV64_IMM''),
     (DIV64_REG, ''DIV64_REG''),
     (LSH64_IMM, ''LSH64_IMM''),
     (LSH64_REG, ''LSH64_REG''),
     (RSH64_IMM, ''RSH64_IMM''),
     (RSH64_REG, ''RSH64_REG''),
     (NEG64, ''NEG64''),
     (MOD64_IMM, ''MOD64_IMM''),
     (MOD64_REG, ''MOD64_REG''),
     (XOR64_IMM, ''XOR64_IMM''),
     (XOR64_REG, ''XOR64_REG''),
     (MOV64_IMM, ''MOV64_IMM''),
     (MOV64_REG, ''MOV64_REG''),
     (ARSH64_IMM, ''ARSH64_IMM''),
     (ARSH64_REG, ''ARSH64_REG''),
     (JEQ32_IMM, ''JEQ32_IMM''),
     (JEQ32_REG, ''JEQ32_REG''),
     (JGT32_IMM, ''JGT32_IMM''),
     (JGT32_REG, ''JGT32_REG''),
     (JGE32_IMM, ''JGE32_IMM''),
     (JGE32_REG, ''JGE32_REG''),
     (JNE32_IMM, ''JNE32_IMM''),
     (JNE32_REG, ''JNE32_REG''),
     (JSGT32_IMM, ''JSGT32_IMM''),
     (JSGT32_REG, ''JSGT32_REG''),
     (JSGE32_IMM, ''JSGE32_IMM''),
     (JSGE32_REG, ''JSGE32_REG''),
     (JLT32_IMM, ''JLT32_IMM''),
     (JLT32_REG, ''JLT32_REG''),
     (JLE32_IMM, ''JLE32_IMM''),
     (JLE32_REG, ''JLE32_REG''),
     (JSLT32_IMM, ''JSLT32_IMM''),
     (JSLT32_REG, ''JSLT32_REG''),
     (JSLE32_IMM, ''JSLE32_IMM''),
     (JSLE32_REG, ''JSLE32_REG''),
     (JA, ''JA''),
     (JEQ64_IMM, ''JEQ64_IMM''),
     (JEQ64_REG, ''JEQ64_REG''),
     (JGT64_IMM, ''JGT64_IMM''),
     (JGT64_REG, ''JGT64_REG''),
     (JGE64_IMM, ''JGE64_IMM''),
     (JGE64_REG, ''JGE64_REG''),
     (JNE64_IMM, ''JNE64_IMM''),
     (JNE64_REG, ''JNE64_REG''),
     (JSGT64_IMM, ''JSGT64_IMM''),
     (JSGT64_REG, ''JSGT64_REG''),
     (JSGE64_IMM, ''JSGE64_IMM''),
     (JSGE64_REG, ''JSGE64_REG''),
     (CALL_IMM, ''CALL_IMM''),
     (EXIT, ''EXIT''),
     (JLT64_IMM, ''JLT64_IMM''),
     (JLT64_REG, ''JLT64_REG''),
     (JLE64_IMM, ''JLE64_IMM''),
     (JLE64_REG, ''JLE64_REG''),
     (JSLT64_IMM, ''JSLT64_IMM''),
     (JSLT64_REG, ''JSLT64_REG''),
     (JSLE64_IMM, ''JSLE64_IMM''),
     (JSLE64_REG, ''JSLE64_REG'')]"

definition Opcode_String :: "opcode \<Rightarrow> string" where
  "Opcode_String op =
     (case map_of opcodeNames op of Some name \<Rightarrow> name | None \<Rightarrow> ''UNKNOWN'')"

definition Opcode_valid :: "opcode \<Rightarrow> bool" where
  "Opcode_valid op = (map_of opcodeNames op \<noteq> None)"

section \<open>Classes\<close>

definition isALUImmediate :: "opcode \<Rightarrow> bool" where
  "isALUImmediate op = (op \<in>
      {ADD32_IMM, SUB32_IMM, MUL32_IMM, DIV32_IMM, LSH32_IMM, RSH32_IMM,
       MOD32_IMM, XOR32_IMM, MOV32_IMM, ARSH32_IMM, ADD64_IMM, SUB64_IMM,
       MUL64_IMM, DIV64_IMM, LSH64_IMM, RSH64_IMM, MOD64_IMM, XOR64_IMM,
       MOV64_IMM, ARSH64_IMM})"

definition isALURegister :: "opcode \<Rightarrow> bool" where
  "isALURegister op = (op \<in>
      {ADD32_REG, SUB32_REG, MUL32_REG, DIV32_REG, LSH32_REG, RSH32_REG,
       MOD32_REG, XOR32_REG, MOV32_REG, ARSH32_REG, ADD64_REG, SUB64_REG,
       MUL64_REG, DIV64_REG, LSH64_REG, RSH64_REG, MOD64_REG, XOR64_REG,
       MOV64_REG, ARSH64_REG})"

definition isJumpImmediate :: "opcode \<Rightarrow> bool" where
  "isJumpImmediate op = (op \<in>
      {JEQ32_IMM, JGT32_IMM, JGE32_IMM, JNE32_IMM, JSGT32_IMM, JSGE32_IMM,
       JLT32_IMM, JLE32_IMM, JSLT32_IMM, JSLE32_IMM, JEQ64_IMM, JGT64_IMM,
       JGE64_IMM, JNE64_IMM, JSGT64_IMM, JSGE64_IMM, JLT64_IMM, JLE64_IMM,
       JSLT64_IMM, JSLE64_IMM})"

definition isJumpRegister :: "opcode \<Rightarrow> bool" where
  "isJumpRegister op = (op \<in>
      {JEQ32_REG, JGT32_REG, JGE32_REG, JNE32_REG, JSGT32_REG, JSGE32_REG,
       JLT32_REG, JLE32_REG, JSLT32_REG, JSLE32_REG, JEQ64_REG, JGT64_REG,
       JGE64_REG, JNE64_REG, JSGT64_REG, JSGE64_REG, JLT64_REG, JLE64_REG,
       JSLT64_REG, JSLE64_REG})"

definition isMemoryLoad :: "opcode \<Rightarrow> bool" where
  "isMemoryLoad op \<longleftrightarrow>
     op = LD_B_REG \<or> op = LD_H_REG \<or> op = LD_W_REG \<or> op = LD_DW_REG"

definition isMemoryStore :: "opcode \<Rightarrow> bool" where
  "isMemoryStore op \<longleftrightarrow>
     op = ST_B_REG \<or> op = ST_H_REG \<or> op = ST_W_REG \<or> op = ST_DW_REG"

definition is32BitALU :: "opcode \<Rightarrow> bool" where
  "is32BitALU op = (op \<in>
      {ADD32_IMM, ADD32_REG, SUB32_IMM, SUB32_REG, MUL32_IMM, MUL32_REG,
       DIV32_IMM, DIV32_REG, LSH32_IMM, LSH32_REG, RSH32_IMM, RSH32_REG,
       NEG32, MOD32_IMM, MOD32_REG, XOR32_IMM, XOR32_REG, MOV32_IMM,
       MOV32_REG, ARSH32_IMM, ARSH32_REG})"

definition isJump :: "opcode \<Rightarrow> bool" where
  "isJump op \<longleftrightarrow> op = JA \<or> isJumpImmediate op \<or> isJumpRegister op"

section \<open>Classification\<close>

lemmas opcode_class_defs =
  isALUImmediate_def isALURegister_def isJumpImmediate_def isJumpRegister_def
  isMemoryLoad_def isMemoryStore_def is32BitALU_def isJump_def

lemma Opcode_valid_set: "Opcode_valid op \<longleftrightarrow> op \<in> set (map fst opcodeNames)"
  by (auto simp: Opcode_valid_def map_of_eq_None_iff image_iff)

text \<open>The table has no duplicate key, so every opcode has one name, and no two share one.\<close>

lemma distinct_opcodes: "distinct (map fst opcodeNames)"
  by (simp add: opcodeNames_def)

lemma distinct_opcode_names: "distinct (map snd opcodeNames)"
  by (simp add: opcodeNames_def)

text \<open>
  The classes and the five single opcodes cover exactly the valid opcodes, and do not overlap:
  the \<open>switch\<close> of \<open>ValidateInstruction\<close> and that of the interpreter see every valid opcode once.
\<close>

lemma Opcode_valid_classes:
  "Opcode_valid op \<longleftrightarrow>
     op = LD_DW_IMM \<or> isMemoryLoad op \<or> isMemoryStore op \<or> isALUImmediate op \<or>
     isALURegister op \<or> op = NEG32 \<or> op = NEG64 \<or> op = JA \<or> isJumpImmediate op \<or>
     isJumpRegister op \<or> op = CALL_IMM \<or> op = EXIT"
proof -
  have "set (map fst opcodeNames) = {op. op = LD_DW_IMM \<or> isMemoryLoad op \<or> isMemoryStore op \<or>
     isALUImmediate op \<or> isALURegister op \<or> op = NEG32 \<or> op = NEG64 \<or> op = JA \<or>
     isJumpImmediate op \<or> isJumpRegister op \<or> op = CALL_IMM \<or> op = EXIT}"
    unfolding opcode_class_defs opcodeNames_def by auto
  then show ?thesis by (auto simp: Opcode_valid_set)
qed

end
