(* ===== verification/SbpfInstruction.thy ===== *)
theory SbpfInstruction
  imports SbpfOpcode
begin

text \<open>
  \<open>src/sbpf/instruction.go\<close>: decoded instructions, their constructors, physical program counters
  and the structural verifier.

  \<open>Register\<close> is a Go \<open>uint8\<close>; \<open>Offset\<close> and \<open>Immediate\<close> are the two's-complement bit patterns of
  \<open>int16\<close> and \<open>int64\<close> and are read with \<open>sint\<close>.  Program counters are Go \<open>int\<close>s: a program has at
  most 65536 slots when it is accepted, far from the width of \<open>int\<close>, so they are integers.  A Go
  \<open>error\<close> result is an option, \<open>None\<close> for \<open>nil\<close>.
\<close>

section \<open>Constants and errors\<close>

abbreviation (input) InstructionSize :: nat where "InstructionSize \<equiv> 8"
abbreviation (input) MaxProgramInstructions :: int where "MaxProgramInstructions \<equiv> 65536"
abbreviation (input) RegisterCount :: u8 where "RegisterCount \<equiv> 11"

abbreviation (input) MMRegionSize :: u64 where "MMRegionSize \<equiv> 0x100000000"
abbreviation (input) MMRODataStart :: u64 where "MMRODataStart \<equiv> 0"
abbreviation (input) MMBytecodeStart :: u64 where "MMBytecodeStart \<equiv> 0x100000000"
abbreviation (input) MMStackStart :: u64 where "MMStackStart \<equiv> 0x200000000"
abbreviation (input) MMHeapStart :: u64 where "MMHeapStart \<equiv> 0x300000000"
abbreviation (input) MMInputStart :: u64 where "MMInputStart \<equiv> 0x400000000"

datatype sbpf_error =
    ErrMalformedBytecode
  | ErrInvalidOpcode
  | ErrInvalidRegister
  | ErrInvalidJump
  | ErrDivisionByZero
  | ErrProgramTooLarge
  | ErrEmptyProgram

type_synonym register = u8

abbreviation (input) R0 :: register where "R0 \<equiv> 0"
abbreviation (input) R1 :: register where "R1 \<equiv> 1"
abbreviation (input) R2 :: register where "R2 \<equiv> 2"
abbreviation (input) R3 :: register where "R3 \<equiv> 3"
abbreviation (input) R4 :: register where "R4 \<equiv> 4"
abbreviation (input) R5 :: register where "R5 \<equiv> 5"
abbreviation (input) R6 :: register where "R6 \<equiv> 6"
abbreviation (input) R7 :: register where "R7 \<equiv> 7"
abbreviation (input) R8 :: register where "R8 \<equiv> 8"
abbreviation (input) R9 :: register where "R9 \<equiv> 9"
abbreviation (input) R10 :: register where "R10 \<equiv> 10"
abbreviation (input) FramePointer :: register where "FramePointer \<equiv> R10"

definition Register_valid :: "register \<Rightarrow> bool" where
  "Register_valid r \<longleftrightarrow> r < RegisterCount"

section \<open>Instructions\<close>

record instruction =
  Op :: opcode
  Dst :: register
  Src :: register
  Offset :: u16
  Immediate :: u64

datatype memory_type =
    MemoryInvalid | MemoryByte | MemoryHalf | MemoryWord | MemoryDoubleWord

fun MemoryType_Bytes :: "memory_type \<Rightarrow> u64" where
  "MemoryType_Bytes MemoryByte = 1"
| "MemoryType_Bytes MemoryHalf = 2"
| "MemoryType_Bytes MemoryWord = 4"
| "MemoryType_Bytes MemoryDoubleWord = 8"
| "MemoryType_Bytes MemoryInvalid = 0"

abbreviation plain :: "opcode \<Rightarrow> register \<Rightarrow> register \<Rightarrow> u16 \<Rightarrow> u64 \<Rightarrow> instruction" where
  "plain op dst src off imm \<equiv>
     \<lparr>Op = op, Dst = dst, Src = src, Offset = off, Immediate = imm\<rparr>"

fun LoadMemory :: "memory_type \<Rightarrow> register \<Rightarrow> register \<Rightarrow> u16 \<Rightarrow> sbpf_error + instruction" where
  "LoadMemory MemoryByte dst base off = Inr (plain LD_B_REG dst base off 0)"
| "LoadMemory MemoryHalf dst base off = Inr (plain LD_H_REG dst base off 0)"
| "LoadMemory MemoryWord dst base off = Inr (plain LD_W_REG dst base off 0)"
| "LoadMemory MemoryDoubleWord dst base off = Inr (plain LD_DW_REG dst base off 0)"
| "LoadMemory MemoryInvalid dst base off = Inl ErrMalformedBytecode"

fun StoreMemory :: "memory_type \<Rightarrow> register \<Rightarrow> register \<Rightarrow> u16 \<Rightarrow> sbpf_error + instruction" where
  "StoreMemory MemoryByte base src off = Inr (plain ST_B_REG base src off 0)"
| "StoreMemory MemoryHalf base src off = Inr (plain ST_H_REG base src off 0)"
| "StoreMemory MemoryWord base src off = Inr (plain ST_W_REG base src off 0)"
| "StoreMemory MemoryDoubleWord base src off = Inr (plain ST_DW_REG base src off 0)"
| "StoreMemory MemoryInvalid base src off = Inl ErrMalformedBytecode"

definition Instruction_MemoryType :: "instruction \<Rightarrow> memory_type" where
  "Instruction_MemoryType ins =
     (if Op ins = LD_B_REG \<or> Op ins = ST_B_REG then MemoryByte
      else if Op ins = LD_H_REG \<or> Op ins = ST_H_REG then MemoryHalf
      else if Op ins = LD_W_REG \<or> Op ins = ST_W_REG then MemoryWord
      else if Op ins = LD_DW_REG \<or> Op ins = ST_DW_REG then MemoryDoubleWord
      else MemoryInvalid)"

definition Slots :: "instruction \<Rightarrow> int" where
  "Slots ins = (if Op ins = LD_DW_IMM then 2 else 1)"

definition LoadImm64 :: "register \<Rightarrow> u64 \<Rightarrow> instruction" where
  "LoadImm64 dst v = plain LD_DW_IMM dst 0 0 v"

definition ALUReg :: "opcode \<Rightarrow> register \<Rightarrow> register \<Rightarrow> instruction" where
  "ALUReg op dst src = plain op dst src 0 0"

definition ALUImm :: "opcode \<Rightarrow> register \<Rightarrow> u32 \<Rightarrow> instruction" where
  "ALUImm op dst imm = plain op dst 0 0 (scast imm)"

definition JumpReg :: "opcode \<Rightarrow> register \<Rightarrow> register \<Rightarrow> u16 \<Rightarrow> instruction" where
  "JumpReg op dst src off = plain op dst src off 0"

definition JumpImm :: "opcode \<Rightarrow> register \<Rightarrow> u32 \<Rightarrow> u16 \<Rightarrow> instruction" where
  "JumpImm op dst imm off = plain op dst 0 off (scast imm)"

definition Jump :: "u16 \<Rightarrow> instruction" where
  "Jump off = plain JA 0 0 off 0"

definition CallRelative :: "u32 \<Rightarrow> instruction" where
  "CallRelative off = plain CALL_IMM 0 1 0 (scast off)"

definition Return :: instruction where
  "Return = plain EXIT 0 0 0 0"

section \<open>Physical program counters\<close>

fun pcs_from :: "int \<Rightarrow> instruction list \<Rightarrow> int list \<times> int" where
  "pcs_from pc [] = ([], pc)"
| "pcs_from pc (ins # rest) =
     (let (pcs, total) = pcs_from (pc + Slots ins) rest in (pc # pcs, total))"

definition PhysicalPCs :: "instruction list \<Rightarrow> int list \<times> int" where
  "PhysicalPCs p = pcs_from 0 p"

definition RelativeOffset :: "int \<Rightarrow> int \<Rightarrow> sbpf_error + u32" where
  "RelativeOffset sourcePC targetPC =
     (let off = targetPC - sourcePC - 1 in
      if off < - (2 ^ 31) \<or> off > 2 ^ 31 - 1 then Inl ErrInvalidJump else Inr (word_of_int off))"

section \<open>The verifier\<close>

definition fits_i32 :: "u64 \<Rightarrow> bool" where
  "fits_i32 imm \<longleftrightarrow> \<not> (sint imm < - (2 ^ 31) \<or> sint imm > 2 ^ 31 - 1)"

definition operands_ok :: "instruction \<Rightarrow> sbpf_error option" where
  "operands_ok ins =
    (let op = Op ins; dst = Dst ins; src = Src ins; off = Offset ins; imm = Immediate ins in
     if op = LD_DW_IMM then
       (if src \<noteq> 0 \<or> off \<noteq> 0 then Some ErrMalformedBytecode else None)
     else if isMemoryLoad op then
       (if imm \<noteq> 0 then Some ErrMalformedBytecode else None)
     else if isMemoryStore op then
       (if imm \<noteq> 0 then Some ErrMalformedBytecode else None)
     else if isALUImmediate op then
       (if src \<noteq> 0 \<or> off \<noteq> 0 then Some ErrMalformedBytecode
        else if (op = DIV32_IMM \<or> op = MOD32_IMM \<or> op = DIV64_IMM \<or> op = MOD64_IMM) \<and> imm = 0
          then Some ErrDivisionByZero
        else if (op = LSH32_IMM \<or> op = RSH32_IMM \<or> op = ARSH32_IMM) \<and>
                (sint imm < 0 \<or> sint imm \<ge> 32) then Some ErrMalformedBytecode
        else if (op = LSH64_IMM \<or> op = RSH64_IMM \<or> op = ARSH64_IMM) \<and>
                (sint imm < 0 \<or> sint imm \<ge> 64) then Some ErrMalformedBytecode
        else None)
     else if isALURegister op then
       (if off \<noteq> 0 \<or> imm \<noteq> 0 then Some ErrMalformedBytecode else None)
     else if op = NEG32 \<or> op = NEG64 then
       (if src \<noteq> 0 \<or> off \<noteq> 0 \<or> imm \<noteq> 0 then Some ErrMalformedBytecode else None)
     else if op = JA then
       (if dst \<noteq> 0 \<or> src \<noteq> 0 \<or> imm \<noteq> 0 then Some ErrMalformedBytecode else None)
     else if isJumpImmediate op then
       (if src \<noteq> 0 then Some ErrMalformedBytecode else None)
     else if isJumpRegister op then
       (if imm \<noteq> 0 then Some ErrMalformedBytecode else None)
     else if op = CALL_IMM then
       (if dst \<noteq> 0 \<or> off \<noteq> 0 \<or> (src \<noteq> 0 \<and> src \<noteq> 1) then Some ErrMalformedBytecode else None)
     else if op = EXIT then
       (if dst \<noteq> 0 \<or> src \<noteq> 0 \<or> off \<noteq> 0 \<or> imm \<noteq> 0 then Some ErrMalformedBytecode else None)
     else None)"

definition ValidateInstruction :: "instruction \<Rightarrow> sbpf_error option" where
  "ValidateInstruction ins =
    (if \<not> Opcode_valid (Op ins) then Some ErrInvalidOpcode
     else if \<not> Register_valid (Dst ins) then Some ErrInvalidRegister
     else if \<not> Register_valid (Src ins) then Some ErrInvalidRegister
     else if Dst ins = FramePointer \<and> \<not> isMemoryStore (Op ins) then Some ErrInvalidRegister
     else if Op ins \<noteq> LD_DW_IMM \<and> \<not> fits_i32 (Immediate ins) then Some ErrMalformedBytecode
     else operands_ok ins)"

text \<open>
  \<open>is_relative\<close> is the guard of the branch-target check (a jump, or an internal call) and
  \<open>relative_target\<close> the slot such an instruction transfers to.
\<close>

definition is_relative :: "instruction \<Rightarrow> bool" where
  "is_relative ins \<longleftrightarrow> isJump (Op ins) \<or> (Op ins = CALL_IMM \<and> Src ins = 1)"

definition relative_target :: "int \<Rightarrow> instruction \<Rightarrow> int" where
  "relative_target pc ins =
     pc + 1 + (if isJump (Op ins) then sint (Offset ins) else sint (Immediate ins))"

fun validate_from :: "int list \<Rightarrow> int \<Rightarrow> (int \<times> instruction) list \<Rightarrow> sbpf_error option" where
  "validate_from starts slotCount [] = None"
| "validate_from starts slotCount ((pc, ins) # rest) =
     (case ValidateInstruction ins of
        Some e \<Rightarrow> Some e
      | None \<Rightarrow>
         if \<not> is_relative ins then validate_from starts slotCount rest
         else
           (let target = relative_target pc ins in
            if target < 0 \<or> target \<ge> slotCount then Some ErrInvalidJump
            else if target \<notin> set starts then Some ErrInvalidJump
            else validate_from starts slotCount rest))"

definition ValidateProgram :: "instruction list \<Rightarrow> sbpf_error option" where
  "ValidateProgram p =
     (if p = [] then Some ErrEmptyProgram
      else let (pcs, slotCount) = PhysicalPCs p in
        if slotCount > MaxProgramInstructions then Some ErrProgramTooLarge
        else validate_from pcs slotCount (zip pcs p))"

section \<open>Program counters are the prefix sums of the slot counts\<close>

lemma Slots_pos: "Slots ins \<ge> 1" "Slots ins \<le> 2"
  by (simp_all add: Slots_def)

definition slot_sum :: "instruction list \<Rightarrow> int" where
  "slot_sum p = sum_list (map Slots p)"

lemma slot_sum_simps [simp]:
  "slot_sum [] = 0"
  "slot_sum (ins # p) = Slots ins + slot_sum p"
  "slot_sum (p @ q) = slot_sum p + slot_sum q"
  by (simp_all add: slot_sum_def)

lemma slot_sum_ge_length: "slot_sum p \<ge> int (length p)"
proof (induction p)
  case Nil
  then show ?case by simp
next
  case (Cons ins p)
  then show ?case using Slots_pos(1) [of ins] by simp
qed

lemma pcs_from_total: "snd (pcs_from pc p) = pc + slot_sum p"
  by (induction p arbitrary: pc) (simp_all add: Let_def split_beta)

lemma pcs_from_length [simp]: "length (fst (pcs_from pc p)) = length p"
  by (induction p arbitrary: pc) (simp_all add: Let_def split_beta)

lemma pcs_from_nth: "i < length p \<Longrightarrow> fst (pcs_from pc p) ! i = pc + slot_sum (take i p)"
proof (induction p arbitrary: pc i)
  case Nil
  then show ?case by simp
next
  case (Cons ins p)
  then show ?case
    by (cases i) (simp_all add: Let_def split_beta)
qed

lemma pcs_from_append:
  "pcs_from pc (p @ q) =
     (fst (pcs_from pc p) @ fst (pcs_from (pc + slot_sum p) q), pc + slot_sum p + slot_sum q)"
proof (induction p arbitrary: pc)
  case Nil
  then show ?case using pcs_from_total [of pc q] by (cases "pcs_from pc q") simp
next
  case (Cons ins p)
  then show ?case by (simp add: Let_def split_beta algebra_simps)
qed

lemma slot_sum_take_mono: "i \<le> j \<Longrightarrow> slot_sum (take i p) \<le> slot_sum (take j p)"
proof -
  assume "i \<le> j"
  then have "take j p = take i p @ take (j - i) (drop i p)"
    by (metis add_diff_cancel_left' le_Suc_ex take_add)
  then show ?thesis using slot_sum_ge_length [of "take (j - i) (drop i p)"] by simp
qed

lemma slot_sum_take_Suc: "i < length p \<Longrightarrow> slot_sum (take (Suc i) p) = slot_sum (take i p) + Slots (p ! i)"
  by (simp add: take_Suc_conv_app_nth)

lemma slot_sum_take_strict: "i < j \<Longrightarrow> j \<le> length p \<Longrightarrow> slot_sum (take i p) < slot_sum (take j p)"
  using slot_sum_take_mono [of "Suc i" j p] slot_sum_take_Suc [of i p] Slots_pos(1) [of "p ! i"]
  by simp

lemma slot_sum_take_inj:
  assumes "i \<le> length p" and "j \<le> length p" and "slot_sum (take i p) = slot_sum (take j p)"
  shows "i = j"
  using assms slot_sum_take_strict [of i j p] slot_sum_take_strict [of j i p]
  by (cases i j rule: linorder_cases) auto

lemma PhysicalPCs_fst_nth: "i < length p \<Longrightarrow> fst (PhysicalPCs p) ! i = slot_sum (take i p)"
  by (simp add: PhysicalPCs_def pcs_from_nth)

lemma PhysicalPCs_length [simp]: "length (fst (PhysicalPCs p)) = length p"
  by (simp add: PhysicalPCs_def)

lemma PhysicalPCs_total: "snd (PhysicalPCs p) = slot_sum p"
  by (simp add: PhysicalPCs_def pcs_from_total)

lemma PhysicalPCs_distinct: "distinct (fst (PhysicalPCs p))"
  by (auto simp: distinct_conv_nth PhysicalPCs_fst_nth dest!: slot_sum_take_inj [rotated 2])

lemma PhysicalPCs_set:
  "pc \<in> set (fst (PhysicalPCs p)) \<longleftrightarrow> (\<exists>i < length p. pc = slot_sum (take i p))"
  by (auto simp: in_set_conv_nth PhysicalPCs_fst_nth)

lemma PhysicalPCs_range:
  assumes "pc \<in> set (fst (PhysicalPCs p))"
  shows "0 \<le> pc \<and> pc < snd (PhysicalPCs p)"
proof -
  from assms obtain i where i: "i < length p" and pc: "pc = slot_sum (take i p)"
    by (auto simp: PhysicalPCs_set)
  show ?thesis
    using slot_sum_ge_length [of "take i p"] slot_sum_take_strict [of i "length p" p] i
    by (simp add: pc PhysicalPCs_total)
qed

section \<open>What acceptance means\<close>

lemma validate_from_None:
  "validate_from starts n xs = None \<longleftrightarrow>
     (\<forall>(pc, ins) \<in> set xs. ValidateInstruction ins = None \<and>
        (is_relative ins \<longrightarrow> 0 \<le> relative_target pc ins \<and> relative_target pc ins < n \<and>
           relative_target pc ins \<in> set starts))"
proof (induction xs)
  case Nil
  then show ?case by simp
next
  case (Cons x xs)
  obtain pc ins where x: "x = (pc, ins)" by (cases x)
  show ?case
    using Cons.IH
    by (cases "ValidateInstruction ins"; cases "is_relative ins") (auto simp: x Let_def)
qed

definition program_ok :: "instruction list \<Rightarrow> bool" where
  "program_ok p \<longleftrightarrow>
     p \<noteq> [] \<and> slot_sum p \<le> MaxProgramInstructions \<and>
     (\<forall>i < length p. ValidateInstruction (p ! i) = None \<and>
        (is_relative (p ! i) \<longrightarrow>
           (\<exists>j < length p. relative_target (slot_sum (take i p)) (p ! i) = slot_sum (take j p))))"

lemma ValidateProgram_iff: "ValidateProgram p = None \<longleftrightarrow> program_ok p"
proof -
  obtain pcs n where pn: "PhysicalPCs p = (pcs, n)" by (cases "PhysicalPCs p")
  have len: "length pcs = length p" and n: "n = slot_sum p"
    and nth: "\<And>i. i < length p \<Longrightarrow> pcs ! i = slot_sum (take i p)"
    and range: "\<And>pc. pc \<in> set pcs \<Longrightarrow> 0 \<le> pc \<and> pc < n"
    and mem: "\<And>pc. pc \<in> set pcs \<longleftrightarrow> (\<exists>i < length p. pc = slot_sum (take i p))"
    using PhysicalPCs_length [of p] PhysicalPCs_total [of p] PhysicalPCs_fst_nth [of _ p]
      PhysicalPCs_range [of _ p] PhysicalPCs_set [of _ p]
    by (simp_all add: pn)
  have zip: "set (zip pcs p) = {(slot_sum (take i p), p ! i) | i. i < length p}"
    using nth unfolding set_zip len by (auto, metis)
  have "validate_from pcs n (zip pcs p) = None \<longleftrightarrow>
     (\<forall>i < length p. ValidateInstruction (p ! i) = None \<and>
        (is_relative (p ! i) \<longrightarrow> relative_target (slot_sum (take i p)) (p ! i) \<in> set pcs))"
    unfolding validate_from_None zip by (auto dest: range)
  then show ?thesis
    by (auto simp: ValidateProgram_def pn program_ok_def n mem)
qed

lemma program_okD:
  assumes "program_ok p" and "i < length p"
  shows "ValidateInstruction (p ! i) = None"
    and "is_relative (p ! i) \<Longrightarrow>
      \<exists>j < length p. relative_target (slot_sum (take i p)) (p ! i) = slot_sum (take j p)"
  using assms by (auto simp: program_ok_def)

lemma ValidateInstruction_NoneD:
  assumes "ValidateInstruction ins = None"
  shows "Opcode_valid (Op ins)" and "Dst ins < RegisterCount" and "Src ins < RegisterCount"
    and "Dst ins = FramePointer \<Longrightarrow> isMemoryStore (Op ins)"
    and "Op ins \<noteq> LD_DW_IMM \<Longrightarrow> fits_i32 (Immediate ins)"
    and "operands_ok ins = None"
  using assms by (auto simp: ValidateInstruction_def Register_valid_def split: if_splits)

end
