(* ===== verification/SbpfSyscall.thy ===== *)
theory SbpfSyscall
  imports SbpfInstruction "HOL-Library.Char_ord"
begin

text \<open>
  \<open>src/sbpf/syscall.go\<close>: the Murmur3 (x86, 32 bit, seed 0) hash that names a static syscall, and
  the call instruction that carries it.  The loop over 4-byte blocks is a recursion that hands the
  zero to three remaining bytes to \<open>hash_tail\<close>, the source's falling-through \<open>switch\<close>.
\<close>

definition rotate32 :: "nat \<Rightarrow> u32 \<Rightarrow> u32" where
  "rotate32 n w = push_bit n w OR drop_bit (32 - n) w"

definition hash_value :: "u32 \<Rightarrow> u32" where
  "hash_value v = rotate32 15 (v * 0xcc9e2d51) * 0x1b873593"

fun hash_blocks :: "u32 \<Rightarrow> bytes \<Rightarrow> u32 \<times> bytes" where
  "hash_blocks h (a # b # c # d # rest) =
     hash_blocks (rotate32 13 (h XOR hash_value (le_word [a, b, c, d])) * 5 + 0xe6546b64) rest"
| "hash_blocks h tail = (h, tail)"

fun hash_tail :: "u32 \<Rightarrow> bytes \<Rightarrow> u32" where
  "hash_tail h [] = h"
| "hash_tail h (a # rest) = h XOR hash_value
     ((case rest of [] \<Rightarrow> 0 | b # rest' \<Rightarrow>
        (case rest' of [] \<Rightarrow> 0 | c # _ \<Rightarrow> push_bit 16 (ucast c)) XOR push_bit 8 (ucast b))
      XOR ucast a)"

definition hash_final :: "u32 \<Rightarrow> nat \<Rightarrow> u32" where
  "hash_final h len =
     (let h = h XOR of_nat len;
          h = h XOR drop_bit 16 h;
          h = h * 0x85ebca6b;
          h = h XOR drop_bit 13 h;
          h = h * 0xc2b2ae35
      in h XOR drop_bit 16 h)"

definition string_bytes :: "string \<Rightarrow> bytes" where
  "string_bytes s = map of_char s"

definition HashBytes :: "bytes \<Rightarrow> u32" where
  "HashBytes data =
     (let (h, tail) = hash_blocks 0 data in hash_final (hash_tail h tail) (length data))"

definition HashSymbolName :: "string \<Rightarrow> u32" where
  "HashSymbolName name = HashBytes (string_bytes name)"

definition StaticSyscall :: "u32 \<Rightarrow> instruction" where
  "StaticSyscall key = plain CALL_IMM 0 0 0 (scast key)"

section \<open>Facts\<close>

lemma StaticSyscall_valid: "ValidateInstruction (StaticSyscall key) = None"
proof -
  have "sint (scast key :: u64) = sint key" by (rule sint_up_scast) (simp add: is_up)
  then have "fits_i32 (scast key)"
    using sint_lt [of key] sint_ge [of key] by (simp add: fits_i32_def)
  then show ?thesis
    by (simp add: ValidateInstruction_def StaticSyscall_def operands_ok_def Opcode_valid_classes
        opcode_class_defs Register_valid_def)
qed

text \<open>The key read back from the instruction, as the interpreter and the validator do.\<close>

lemma StaticSyscall_key: "ucast (Immediate (StaticSyscall key)) = key"
  by (simp add: StaticSyscall_def) (rule bit_word_eqI, auto simp: bit_simps)

lemma StaticSyscall_inj: "StaticSyscall k = StaticSyscall k' \<Longrightarrow> k = k'"
  by (metis StaticSyscall_key)

text \<open>The finaliser loses no information: different hash states stay different.\<close>

lemma xorshift_inj:
  fixes v w :: "'a::len word"
  assumes "0 < n" and "v XOR drop_bit n v = w XOR drop_bit n w"
  shows "v = w"
proof (rule bit_word_eqI)
  have "bit v i = bit w i" for i
  proof (induction "LENGTH('a) - i" arbitrary: i rule: less_induct)
    case less
    show ?case
    proof (cases "i < LENGTH('a)")
      case False
      then show ?thesis by (auto dest: bit_imp_le_length)
    next
      case True
      then have "LENGTH('a) - (n + i) < LENGTH('a) - i" using assms(1) by linarith
      then have "bit v (n + i) = bit w (n + i)" by (rule less.hyps) 
      moreover have "(bit v i \<noteq> bit v (n + i)) = (bit w i \<noteq> bit w (n + i))"
        using arg_cong [OF assms(2), of "\<lambda>x. bit x i"] by (simp add: bit_xor_iff bit_drop_bit_eq)
      ultimately show ?thesis by blast
    qed
  qed
  then show "bit v i = bit w i" for i by blast
qed

lemma mult_odd_inj:
  fixes a b :: "'a::len word"
  assumes "a * b = 1" and "v * a = w * a"
  shows "v = w"
proof -
  have "v = (v * a) * b" by (simp add: mult.assoc assms(1))
  also have "\<dots> = (w * a) * b" by (simp only: assms(2))
  also have "\<dots> = w" by (simp add: mult.assoc assms(1))
  finally show ?thesis .
qed

lemma hash_final_inj: "hash_final h n = hash_final h' n \<Longrightarrow> h = h'"
proof -
  assume eq: "hash_final h n = hash_final h' n"
  define x where "x h = (h XOR of_nat n) XOR drop_bit 16 (h XOR of_nat n)" for h :: u32
  define y where "y h = x h * 0x85ebca6b" for h
  define z where "z h = (y h XOR drop_bit 13 (y h)) * 0xc2b2ae35" for h
  from eq have "z h XOR drop_bit 16 (z h) = z h' XOR drop_bit 16 (z h')"
    by (simp only: hash_final_def Let_def x_def y_def z_def)
  then have "z h = z h'" by (rule xorshift_inj [rotated]) simp
  then have "y h XOR drop_bit 13 (y h) = y h' XOR drop_bit 13 (y h')"
    unfolding z_def by (rule mult_odd_inj [where b = "0x7ed1b41d", rotated]) simp
  then have "y h = y h'" by (rule xorshift_inj [rotated]) simp
  then have "x h = x h'"
    unfolding y_def by (rule mult_odd_inj [where b = "0xa5cb9243", rotated]) simp
  then have "h XOR of_nat n = h' XOR of_nat n"
    unfolding x_def by (rule xorshift_inj [rotated]) simp
  then have "(h XOR of_nat n) XOR of_nat n = (h' XOR of_nat n) XOR of_nat n" by (rule arg_cong)
  then show "h = h'" by (simp add: xor.assoc)
qed

lemma known_hashes:
  "HashSymbolName ''sol_invoke_signed_c'' = 2720767109" "HashSymbolName ''sol_log_'' = 544561597"
  "HashSymbolName ''sol_memcpy_'' = 1904002211" "HashSymbolName ''sol_memmove_'' = 1128493560"
  "HashSymbolName ''sol_memset_'' = 930151202" "HashSymbolName ''sol_memcmp_'' = 1608310321"
  "HashSymbolName ''sol_create_program_address'' = 2474062396"
  "HashSymbolName ''sol_try_find_program_address'' = 1213221432"
  by code_simp+

text \<open>
  The names of the syscalls the compiler and the runtime use hash to the keys of the Solana
  ABI (the values \<open>src/sbpf/syscall_test.go\<close> and \<open>src/runtime\<close> state).
\<close>

lemma HashSymbolName_known:
  "map HashSymbolName
     [''sol_invoke_signed_c'', ''sol_log_'', ''sol_memcpy_'', ''sol_memmove_'', ''sol_memset_'',
      ''sol_memcmp_'', ''sol_create_program_address'', ''sol_try_find_program_address''] =
   [2720767109, 544561597, 1904002211, 1128493560, 930151202,
    1608310321, 2474062396, 1213221432]"
  by (simp only: list.map known_hashes)

text \<open>A static call instruction is valid and carries its key exactly.\<close>

lemma StaticSyscall_faithful:
  "ValidateInstruction (StaticSyscall key) = None \<and> ucast (Immediate (StaticSyscall key)) = key \<and>
   (StaticSyscall key = StaticSyscall key' \<longleftrightarrow> key = key')"
  using StaticSyscall_valid StaticSyscall_key StaticSyscall_inj by blast

end
