(* ===== verification/SdkPubkey.thy ===== *)
theory SdkPubkey
  imports SbpfSyscall
begin

text \<open>
  \<open>src/sdk/pubkey.go\<close>: addresses, their base58 text and derived addresses; \<open>src/sdk/instruction.go\<close>:
  instructions and account metas.

  A Go string is a list of bytes, a \<open>Pubkey\<close> a list of 32 bytes.
\<close>

type_synonym pubkey = bytes

abbreviation (input) PubkeySize :: nat where "PubkeySize \<equiv> 32"
abbreviation (input) MaxSeedLength :: nat where "MaxSeedLength \<equiv> 32"
abbreviation (input) MaxSeeds :: nat where "MaxSeeds \<equiv> 16"

datatype sdk_error =
    ErrInvalidPubkey | ErrMaxSeedLength | ErrTooManySeeds | ErrInvalidSeeds | ErrInvalidSeed
  | ErrNoProgramAddress | ErrIllegalOwner

definition zero_pubkey :: pubkey where
  "zero_pubkey = replicate PubkeySize 0"

definition PubkeyFromBytes :: "bytes \<Rightarrow> sdk_error + pubkey" where
  "PubkeyFromBytes src = (if length src \<noteq> PubkeySize then Inl ErrInvalidPubkey else Inr src)"

section \<open>Base58\<close>

definition base58Alphabet :: bytes where
  "base58Alphabet = string_bytes ''123456789ABCDEFGHJKLMNPQRSTUVWXYZabcdefghijkmnopqrstuvwxyz''"

definition makeBase58Indexes :: "u8 \<Rightarrow> int" where
  "makeBase58Indexes = fold (\<lambda>i indexes. indexes(base58Alphabet ! i := int i)) [0..<length base58Alphabet] (\<lambda>_. - 1)"

text \<open>
  Both conversions multiply a little-endian digit list by one radix and add a carry in the other,
  then append what is left of the carry.
\<close>

fun mul_add :: "nat \<Rightarrow> nat \<Rightarrow> nat \<Rightarrow> bytes \<Rightarrow> bytes \<times> nat" where
  "mul_add m base carry [] = ([], carry)"
| "mul_add m base carry (d # ds) =
     (let v = unat d * m + carry; (ds', carry') = mul_add m base (v div base) ds in
      (of_nat (v mod base) # ds', carry'))"

fun carry_digits :: "nat \<Rightarrow> nat \<Rightarrow> bytes" where
  "carry_digits base carry =
     (if carry = 0 \<or> base < 2 then [] else of_nat (carry mod base) # carry_digits base (carry div base))"

declare carry_digits.simps [simp del]

definition add_digit :: "nat \<Rightarrow> nat \<Rightarrow> nat \<Rightarrow> bytes \<Rightarrow> bytes" where
  "add_digit m base d ds = (let (ds', carry) = mul_add m base d ds in ds' @ carry_digits base carry)"

fun decode_digits :: "bytes \<Rightarrow> bytes \<Rightarrow> bytes option" where
  "decode_digits decodedLE [] = Some decodedLE"
| "decode_digits decodedLE (c # rest) =
     (if makeBase58Indexes c < 0 then None
      else decode_digits (add_digit 58 256 (nat (makeBase58Indexes c)) decodedLE) rest)"

definition ParsePubkey :: "bytes \<Rightarrow> sdk_error + pubkey" where
  "ParsePubkey text =
     (if length text = 0 \<or> length text > 44 then Inl ErrInvalidPubkey
      else
        let leadingZeroes = length (takeWhile (\<lambda>c. c = of_char (CHR ''1'')) text) in
        (case decode_digits [] (drop leadingZeroes text) of
           None \<Rightarrow> Inl ErrInvalidPubkey
         | Some decodedLE \<Rightarrow>
             if leadingZeroes + length decodedLE \<noteq> PubkeySize then Inl ErrInvalidPubkey
             else Inr (replicate leadingZeroes 0 @ rev decodedLE)))"

definition Pubkey_String :: "pubkey \<Rightarrow> bytes" where
  "Pubkey_String p =
     (let leadingZeroes = length (takeWhile (\<lambda>b. b = 0) p);
          digitsLE = fold (\<lambda>b digits. add_digit 256 58 (unat b) digits) (drop leadingZeroes p) [] in
      replicate leadingZeroes (of_char (CHR ''1'')) @ rev (map (\<lambda>d. base58Alphabet ! unat d) digitsLE))"

text \<open>\<open>UnmarshalText\<close> returns the key it leaves in its receiver, \<open>None\<close> for the nil receiver.\<close>

definition UnmarshalText :: "pubkey option \<Rightarrow> bytes \<Rightarrow> sdk_error option \<times> pubkey option" where
  "UnmarshalText p text =
     (case p of None \<Rightarrow> (Some ErrInvalidPubkey, None)
      | Some old \<Rightarrow> (case ParsePubkey text of Inl e \<Rightarrow> (Some e, Some old) | Inr key \<Rightarrow> (None, Some key)))"

section \<open>Digit lists as numbers\<close>

fun le_value :: "nat \<Rightarrow> bytes \<Rightarrow> nat" where
  "le_value base [] = 0"
| "le_value base (d # ds) = unat d + base * le_value base ds"

text \<open>Digits of the radix, without a zero in front.\<close>

definition digits_ok :: "nat \<Rightarrow> bytes \<Rightarrow> bool" where
  "digits_ok base ds \<longleftrightarrow> (\<forall>d \<in> set ds. unat d < base) \<and> (ds \<noteq> [] \<longrightarrow> last ds \<noteq> 0)"

lemma unat_digit:
  assumes "base \<le> 256" and "0 < base"
  shows "unat (of_nat (v mod base) :: u8) = v mod base"
proof -
  have "v mod base < 256" using mod_less_divisor [OF assms(2), of v] assms(1) by linarith
  then show ?thesis by (simp add: unat_of_nat)
qed

lemma mul_add_value:
  assumes "base \<le> 256" and "0 < base"
  shows "mul_add m base c ds = (ds', c') \<Longrightarrow>
    le_value base ds' + c' * base ^ length ds = le_value base ds * m + c \<and> length ds' = length ds"
proof (induction ds arbitrary: c ds' c')
  case Nil
  then show ?case by simp
next
  case (Cons d ds)
  let ?v = "unat d * m + c"
  obtain es where es: "mul_add m base (?v div base) ds = (es, c')" and ds': "ds' = of_nat (?v mod base) # es"
    using Cons.prems by (auto simp: Let_def split: prod.splits)
  note IH = Cons.IH [OF es]
  have "le_value base ds' + c' * base ^ length (d # ds) =
      ?v mod base + base * (le_value base es + c' * base ^ length ds)"
    using unat_digit [OF assms, of ?v] by (simp add: ds' distrib_left mult.left_commute)
  also have "\<dots> = ?v mod base + base * (le_value base ds * m + ?v div base)"
    by (simp only: conjunct1 [OF IH])
  also have "\<dots> = (?v mod base + base * (?v div base)) + base * (le_value base ds * m)"
    by (simp only: distrib_left add.assoc add.commute)
  also have "\<dots> = ?v + base * (le_value base ds * m)" by (simp only: mod_mult_div_eq)
  also have "\<dots> = le_value base (d # ds) * m + c" by (simp add: distrib_right)
  finally show ?case using IH by (simp add: ds')
qed

lemma mul_add_digits:
  assumes "base \<le> 256" and "0 < base"
  shows "mul_add m base c ds = (ds', c') \<Longrightarrow> \<forall>d \<in> set ds'. unat d < base"
proof (induction ds arbitrary: c ds' c')
  case (Cons d ds)
  then show ?case
    using unat_digit [OF assms, of "unat d * m + c"] assms(2) by (auto simp: Let_def split: prod.splits)
qed simp

text \<open>A carry out of a list whose top digit is not zero, or a top digit that is not zero.\<close>

lemma mul_add_top:
  assumes "base \<le> 256" and "0 < base" and "0 < m"
  shows "mul_add m base c ds = (ds', c') \<Longrightarrow> ds \<noteq> [] \<Longrightarrow> last ds \<noteq> 0 \<Longrightarrow> c' = 0 \<Longrightarrow> last ds' \<noteq> 0"
proof (induction ds arbitrary: c ds' c')
  case (Cons d ds)
  let ?v = "unat d * m + c"
  obtain es where es: "mul_add m base (?v div base) ds = (es, c')" and ds': "ds' = of_nat (?v mod base) # es"
    using Cons.prems by (auto simp: Let_def split: prod.splits)
  show ?case
  proof (cases "ds = []")
    case True
    then have z: "?v div base = 0" "es = []" using es Cons.prems(4) by simp_all
    have "unat d \<noteq> 0" using Cons.prems(3) True by (simp add: unat_eq_0)
    then have "0 < ?v" using assms(3) by simp
    moreover have "?v mod base = ?v" using z(1) assms(2) by (simp add: div_eq_0_iff)
    ultimately have "unat (of_nat (?v mod base) :: u8) \<noteq> 0" using unat_digit [OF assms(1,2), of ?v] by simp
    then show ?thesis by (auto simp: ds' z)
  next
    case False
    then have "es \<noteq> []" using mul_add_value [OF assms(1,2) es] by auto
    then show ?thesis using Cons.IH [OF es False] Cons.prems False by (simp add: ds')
  qed
qed simp

lemma carry_digits_ok:
  assumes "base \<le> 256" and "2 \<le> base"
  shows "le_value base (carry_digits base c) = c \<and> digits_ok base (carry_digits base c) \<and>
    (carry_digits base c = [] \<longleftrightarrow> c = 0)"
proof (induction c rule: less_induct)
  case (less c)
  show ?case
  proof (cases "c = 0")
    case True
    then show ?thesis by (simp add: carry_digits.simps [of base 0] digits_ok_def)
  next
    case False
    have unfold: "carry_digits base c = of_nat (c mod base) # carry_digits base (c div base)"
      using False assms by (simp add: carry_digits.simps [of base c])
    have u: "unat (of_nat (c mod base) :: u8) = c mod base" using unat_digit assms by simp
    have IH: "le_value base (carry_digits base (c div base)) = c div base"
      "digits_ok base (carry_digits base (c div base))" "carry_digits base (c div base) = [] \<longleftrightarrow> c div base = 0"
      using less [of "c div base"] False assms by (simp_all add: div_less_dividend)
    have "le_value base (carry_digits base c) = c"
      by (simp only: unfold le_value.simps u IH(1) mod_mult_div_eq)
    moreover have "digits_ok base (carry_digits base c)"
    proof -
      have "(of_nat (c mod base) :: u8) \<noteq> 0" if "c div base = 0"
      proof -
        have "c mod base = c" using that assms by (simp add: div_eq_0_iff)
        then have "unat (of_nat (c mod base) :: u8) \<noteq> 0" using u False by simp
        then show ?thesis by auto
      qed
      then show ?thesis using IH(2,3) u assms by (auto simp: unfold digits_ok_def)
    qed
    ultimately show ?thesis using False by (simp add: unfold)
  qed
qed

lemma le_value_append: "le_value base (xs @ ys) = le_value base xs + base ^ length xs * le_value base ys"
  by (induction xs) (simp_all add: algebra_simps)

lemma add_digit_value:
  assumes "base \<le> 256" and "2 \<le> base"
  shows "le_value base (add_digit m base c ds) = le_value base ds * m + c"
proof -
  obtain es c' where e: "mul_add m base c ds = (es, c')" by (cases "mul_add m base c ds")
  have "le_value base es + c' * base ^ length ds = le_value base ds * m + c" "length es = length ds"
    using mul_add_value [OF assms(1) _ e] assms(2) by simp_all
  then show ?thesis
    using carry_digits_ok [OF assms, of c'] by (simp add: add_digit_def e le_value_append mult.commute)
qed

lemma add_digit_ok:
  assumes "base \<le> 256" and "2 \<le> base" and "0 < m" and ds: "digits_ok base ds"
  shows "digits_ok base (add_digit m base c ds)"
proof -
  obtain es c' where e: "mul_add m base c ds = (es, c')" by (cases "mul_add m base c ds")
  have base: "0 < base" using assms(2) by simp
  have len: "length es = length ds" using mul_add_value [OF assms(1) base e] by simp
  have small: "\<forall>d \<in> set es. unat d < base" by (rule mul_add_digits [OF assms(1) base e])
  note carry = carry_digits_ok [OF assms(1,2), of c']
  show ?thesis
  proof (cases "c' = 0")
    case True
    then have "add_digit m base c ds = es" using carry by (simp add: add_digit_def e)
    moreover have "es \<noteq> [] \<Longrightarrow> last es \<noteq> 0"
      using mul_add_top [OF assms(1) base assms(3) e _ _ True] ds len by (cases ds) (auto simp: digits_ok_def)
    ultimately show ?thesis using small by (simp add: digits_ok_def)
  next
    case False
    then show ?thesis using carry small by (auto simp: add_digit_def e digits_ok_def)
  qed
qed

lemma digits_ok_Cons: "digits_ok base (d # ds) \<Longrightarrow> digits_ok base ds"
  by (auto simp: digits_ok_def split: if_splits)

lemma le_value_zero: "digits_ok base ds \<Longrightarrow> 0 < base \<Longrightarrow> le_value base ds = 0 \<Longrightarrow> ds = []"
proof (induction ds)
  case (Cons d ds)
  then have "ds = []" using digits_ok_Cons by auto
  then show ?case using Cons.prems by (auto simp: digits_ok_def unat_eq_0)
qed simp

lemma digits_unique:
  "digits_ok base xs \<Longrightarrow> digits_ok base ys \<Longrightarrow> 0 < base \<Longrightarrow> le_value base xs = le_value base ys \<Longrightarrow> xs = ys"
proof (induction xs arbitrary: ys)
  case Nil
  then show ?case using le_value_zero [of base ys] by simp
next
  case (Cons x xs)
  then have "ys \<noteq> []" using le_value_zero [of base "x # xs"] by auto
  then obtain y zs where ys: "ys = y # zs" by (cases ys) auto
  have lt: "unat x < base" "unat y < base" using Cons.prems by (auto simp: digits_ok_def ys)
  have eq: "unat x + base * le_value base xs = unat y + base * le_value base zs" using Cons.prems(4) by (simp add: ys)
  then have "(unat x + base * le_value base xs) mod base = (unat y + base * le_value base zs) mod base" by simp
  then have x: "unat x = unat y" using lt by simp
  then have "le_value base xs = le_value base zs" using eq Cons.prems(3) by simp
  then have "xs = zs"
    using Cons.IH [of zs] digits_ok_Cons [OF Cons.prems(1)] digits_ok_Cons [of base y zs] Cons.prems(2,3) ys by simp
  then show ?case using x ys by (simp add: word_unat_eq_iff)
qed

text \<open>Reading a big-endian list of digits of radix \<open>m\<close> into digits of radix \<open>base\<close>.\<close>

lemma fold_add_digit:
  assumes "base \<le> 256" and "2 \<le> base" and "0 < m" and "m \<le> 256"
  shows "digits_ok base ds \<Longrightarrow> \<forall>x \<in> set xs. f x < m \<Longrightarrow>
    digits_ok base (fold (\<lambda>x. add_digit m base (f x)) xs ds) \<and>
    le_value base (fold (\<lambda>x. add_digit m base (f x)) xs ds) =
      le_value base ds * m ^ length xs + le_value m (rev (map (\<lambda>x. of_nat (f x)) xs))"
proof (induction xs arbitrary: ds)
  case (Cons x xs)
  have "unat (of_nat (f x) :: u8) = f x" using Cons.prems(2) assms(4) by (simp add: unat_of_nat)
  then show ?case
    using Cons.IH [OF add_digit_ok [OF assms(1-3) Cons.prems(1)], of "f x"] Cons.prems(2)
      add_digit_value [OF assms(1,2), of m "f x" ds]
    by (simp add: le_value_append algebra_simps)
qed simp

section \<open>The alphabet\<close>

lemma alphabet: "length base58Alphabet = 58" "distinct base58Alphabet" "base58Alphabet ! 0 = of_char (CHR ''1'')"
  by code_simp+

lemma fold_indexes:
  "fold (\<lambda>i indexes. indexes(xs ! i := int i)) [0..<n] f c =
     (if \<exists>i < n. xs ! i = c then int (GREATEST i. i < n \<and> xs ! i = c) else f c)"
proof (induction n)
  case (Suc n)
  have "(GREATEST i. i < Suc n \<and> xs ! i = c) = n" if "xs ! n = c"
    by (rule Greatest_equality) (use that in auto)
  moreover have "(GREATEST i. i < Suc n \<and> xs ! i = c) = (GREATEST i. i < n \<and> xs ! i = c)" if "xs ! n \<noteq> c"
    using that by (intro arg_cong [where f = Greatest]) (auto simp: less_Suc_eq)
  ultimately show ?case using Suc by (auto simp: less_Suc_eq)
qed simp

lemma makeBase58Indexes_nth: "i < 58 \<Longrightarrow> makeBase58Indexes (base58Alphabet ! i) = int i"
proof -
  assume i: "i < 58"
  have "(GREATEST j. j < 58 \<and> base58Alphabet ! j = base58Alphabet ! i) = i"
    by (rule Greatest_equality) (use i alphabet in \<open>auto simp: nth_eq_iff_index_eq\<close>)
  then show ?thesis using i by (auto simp: makeBase58Indexes_def fold_indexes alphabet(1))
qed

lemma makeBase58Indexes_known:
  "\<not> makeBase58Indexes c < 0 \<Longrightarrow> nat (makeBase58Indexes c) < 58 \<and> base58Alphabet ! nat (makeBase58Indexes c) = c"
proof -
  assume "\<not> makeBase58Indexes c < 0"
  then obtain i where "i < 58" "base58Alphabet ! i = c"
    by (auto simp: makeBase58Indexes_def fold_indexes alphabet(1) split: if_splits)
  then show ?thesis using makeBase58Indexes_nth by force
qed

lemma decode_digits_iff:
  "decode_digits ds cs = Some r \<longleftrightarrow> (\<forall>c \<in> set cs. \<not> makeBase58Indexes c < 0) \<and>
     r = fold (\<lambda>c. add_digit 58 256 (nat (makeBase58Indexes c))) cs ds"
  by (induction cs arbitrary: ds) auto

section \<open>Text and key determine each other\<close>

abbreviation one_char :: u8 where "one_char \<equiv> of_char (CHR ''1'')"

lemma takeWhile_replicate:
  "(\<forall>x. ys \<noteq> [] \<longrightarrow> hd ys \<noteq> a) \<Longrightarrow> takeWhile (\<lambda>x. x = a) (replicate n a @ ys) = replicate n a"
  by (induction n) (cases ys; simp)+

lemma leading_split:
  "xs = replicate (length (takeWhile (\<lambda>x. x = a) xs)) a @ drop (length (takeWhile (\<lambda>x. x = a) xs)) xs"
  by (induction xs) auto

lemma leading_rest:
  "drop (length (takeWhile (\<lambda>x. x = a) xs)) xs \<noteq> [] \<Longrightarrow> hd (drop (length (takeWhile (\<lambda>x. x = a) xs)) xs) \<noteq> a"
  by (induction xs) auto

lemma unat_u8_less: "unat (b :: u8) < 256"
  using unsigned_less [of b, where ?'a = nat] by simp

text \<open>The digits of a key without leading zero bytes, and of a text without leading ones.\<close>

definition key_digits :: "bytes \<Rightarrow> bytes" where
  "key_digits body = fold (\<lambda>b. add_digit 256 58 (unat b)) body []"

definition letters :: "bytes \<Rightarrow> bytes" where
  "letters digits = rev (map (\<lambda>d. base58Alphabet ! unat d) digits)"

lemma Pubkey_String_eq:
  "Pubkey_String p =
     (let z = length (takeWhile (\<lambda>b. b = 0) p) in replicate z one_char @ letters (key_digits (drop z p)))"
  by (simp add: Pubkey_String_def key_digits_def letters_def Let_def)

lemma key_digits_props:
  "digits_ok 58 (key_digits body) \<and> le_value 58 (key_digits body) = le_value 256 (rev body)"
proof -
  have "digits_ok 58 []" by (simp add: digits_ok_def)
  moreover have "\<forall>b \<in> set body. unat b < 256" by (auto simp: unat_u8_less)
  ultimately show ?thesis
    using fold_add_digit [of 58 256 "[]" body unat] by (simp add: key_digits_def)
qed

lemma rev_body_ok: "(body \<noteq> [] \<Longrightarrow> hd body \<noteq> 0) \<Longrightarrow> digits_ok 256 (rev body)"
  by (auto simp: digits_ok_def last_rev unat_u8_less)

lemma decode_letters:
  assumes "digits_ok 58 ds"
  shows "decode_digits [] (letters ds) = Some r \<longleftrightarrow> digits_ok 256 r \<and> le_value 256 r = le_value 58 ds"
proof -
  have lt: "unat d < 58" if "d \<in> set ds" for d using assms that by (simp add: digits_ok_def)
  have idx: "makeBase58Indexes (base58Alphabet ! unat d) = int (unat d)" if "d \<in> set ds" for d
    by (rule makeBase58Indexes_nth [OF lt [OF that]])
  have known: "\<forall>c \<in> set (letters ds). \<not> makeBase58Indexes c < 0"
    using idx by (auto simp: letters_def)
  have small: "\<forall>c \<in> set (letters ds). nat (makeBase58Indexes c) < 58"
    using makeBase58Indexes_known known by blast
  have again: "rev (map (\<lambda>c. of_nat (nat (makeBase58Indexes c))) (letters ds)) = ds"
    using idx by (simp add: letters_def rev_map map_idI)
  let ?r = "fold (\<lambda>c. add_digit 58 256 (nat (makeBase58Indexes c))) (letters ds) []"
  have r: "digits_ok 256 ?r" "le_value 256 ?r = le_value 58 ds"
    using fold_add_digit [of 256 58 "[]" "letters ds" "\<lambda>c. nat (makeBase58Indexes c)"] small again
    by (simp_all add: digits_ok_def)
  show ?thesis using known r digits_unique [of 256 r ?r] by (auto simp: decode_digits_iff)
qed

lemma letters_head:
  assumes "digits_ok 58 ds" and "ds \<noteq> []"
  shows "letters ds \<noteq> [] \<and> hd (letters ds) \<noteq> one_char"
proof -
  have d: "last ds \<noteq> 0" "unat (last ds) < 58" using assms by (auto simp: digits_ok_def)
  have "hd (letters ds) = base58Alphabet ! unat (last ds)"
    using assms(2) by (simp add: letters_def hd_rev last_map)
  moreover have "base58Alphabet ! unat (last ds) \<noteq> base58Alphabet ! 0"
    using nth_eq_iff_index_eq [OF alphabet(2), of "unat (last ds)" 0] d alphabet(1) by (simp add: unat_eq_0)
  ultimately show ?thesis using assms(2) alphabet(3) by (simp add: letters_def)
qed

lemma length_digits_bound:
  assumes "digits_ok 58 ds" and "le_value 58 ds < 256 ^ k" and "k \<le> 32"
  shows "length ds \<le> 12 + k"
proof (rule ccontr)
  assume long: "\<not> length ds \<le> 12 + k"
  then have ne: "ds \<noteq> []" by auto
  have "58 ^ (length ds - 1) \<le> le_value 58 ds"
  proof -
    obtain es d where ds: "ds = es @ [d]" using ne by (metis rev_exhaust)
    then have "unat d \<noteq> 0" using assms(1) by (auto simp: digits_ok_def unat_eq_0)
    then have "(1 :: nat) * 58 ^ length es \<le> unat d * 58 ^ length es" by (intro mult_le_mono1) simp
    then have "58 ^ length es \<le> le_value 58 es + unat d * 58 ^ length es" by (intro trans_le_add2) simp
    then show ?thesis by (simp add: ds le_value_append mult.commute)
  qed
  moreover have "(58 :: nat) ^ (12 + k) \<le> 58 ^ (length ds - 1)" using long by (intro power_increasing) simp_all
  ultimately have lt: "(58 :: nat) ^ (12 + k) < 256 ^ k" using assms(2) by (meson le_trans le_less_trans)
  have "(58 :: nat) ^ (12 + k) * 58 ^ (32 - k) < 256 ^ k * 256 ^ (32 - k)"
    using lt by (intro mult_less_le_imp_less power_mono) simp_all
  then have "(58 :: nat) ^ (12 + k + (32 - k)) < 256 ^ (k + (32 - k))" by (simp only: power_add)
  then show False using assms(3) by simp
qed

lemma le_value_less: "\<forall>d \<in> set ds. unat d < base \<Longrightarrow> le_value base ds < base ^ length ds"
proof (induction ds)
  case (Cons d ds)
  then have "le_value base ds + 1 \<le> base ^ length ds" "unat d < base" by simp_all
  then have "base * (le_value base ds + 1) \<le> base * base ^ length ds" by (intro mult_le_mono2)
  then show ?case using \<open>unat d < base\<close> by simp
qed simp

lemma parse_of_string:
  assumes "length p = 32"
  shows "ParsePubkey (Pubkey_String p) = Inr p"
proof -
  define z where "z = length (takeWhile (\<lambda>b. b = 0) p)"
  define body where "body = drop z p"
  define ds where "ds = key_digits body"
  have p: "p = replicate z 0 @ body" unfolding z_def body_def by (rule leading_split)
  have head: "body \<noteq> [] \<Longrightarrow> hd body \<noteq> 0" unfolding z_def body_def by (rule leading_rest)
  have len: "z + length body = 32" using assms p by (metis length_append length_replicate)
  have string: "Pubkey_String p = replicate z one_char @ letters ds"
    by (simp add: Pubkey_String_eq Let_def z_def body_def ds_def)
  note ds = key_digits_props [of body, folded ds_def]
  have zeros: "length (takeWhile (\<lambda>c. c = one_char) (Pubkey_String p)) = z"
  proof -
    have "\<forall>x. letters ds \<noteq> [] \<longrightarrow> hd (letters ds) \<noteq> one_char"
      using letters_head [of ds] ds by (cases "ds = []") (auto simp: letters_def)
    then show ?thesis unfolding string by (subst takeWhile_replicate) simp_all
  qed
  have decoded: "decode_digits [] (drop z (Pubkey_String p)) = Some (rev body)"
    unfolding string using decode_letters [of ds "rev body"] ds rev_body_ok [OF head] by simp
  have "le_value 58 ds < 256 ^ length body"
    using le_value_less [of "rev body" 256] ds by (simp add: unat_u8_less)
  then have "length ds \<le> 12 + length body" using length_digits_bound ds len by simp
  then have short: "length (Pubkey_String p) \<le> 44" using len by (simp add: string letters_def)
  have "Pubkey_String p \<noteq> []"
  proof (cases "body = []")
    case True
    then show ?thesis using len by (auto simp: string)
  next
    case False
    then have "0 < le_value 256 (rev body)"
      using le_value_zero [OF rev_body_ok [OF head]] by fastforce
    then have "ds \<noteq> []" using ds by auto
    then show ?thesis by (simp add: string letters_def)
  qed
  then show ?thesis using short zeros decoded len p by (simp add: ParsePubkey_def Let_def)
qed

lemma string_of_parse:
  assumes "ParsePubkey txt' = Inr p"
  shows "length p = 32 \<and> Pubkey_String p = txt'"
proof -
  define z where "z = length (takeWhile (\<lambda>c. c = one_char) txt')"
  define rest where "rest = drop z txt'"
  have t: "txt' = replicate z one_char @ rest" unfolding z_def rest_def by (rule leading_split)
  have head: "rest \<noteq> [] \<Longrightarrow> hd rest \<noteq> one_char" unfolding z_def rest_def by (rule leading_rest)
  obtain r where r: "decode_digits [] rest = Some r" and len: "z + length r = 32" and p: "p = replicate z 0 @ rev r"
    using assms by (auto simp: ParsePubkey_def Let_def z_def rest_def split: if_splits option.splits)
  define ds :: bytes where "ds = rev (map (\<lambda>c. of_nat (nat (makeBase58Indexes c))) rest)"
  have known: "\<not> makeBase58Indexes c < 0" if "c \<in> set rest" for c using r that by (simp add: decode_digits_iff)
  have char: "base58Alphabet ! unat (of_nat (nat (makeBase58Indexes c)) :: u8) = c" if "c \<in> set rest" for c
    using makeBase58Indexes_known [OF known [OF that]] by (simp add: unat_of_nat)
  have letters: "letters ds = rest"
    using char by (simp add: letters_def ds_def rev_map [symmetric] map_idI)
  have ok: "digits_ok 58 ds"
  proof -
    have small: "unat (of_nat (nat (makeBase58Indexes c)) :: u8) < 58" if "c \<in> set rest" for c
      using makeBase58Indexes_known [OF known [OF that]] by (simp add: unat_of_nat)
    have "last ds \<noteq> 0" if "ds \<noteq> []"
    proof
      assume "last ds = 0"
      have ne: "rest \<noteq> []" using that by (auto simp: ds_def)
      then have "of_nat (nat (makeBase58Indexes (hd rest))) = (0 :: u8)"
        using \<open>last ds = 0\<close> by (simp add: ds_def last_rev hd_map)
      moreover have k: "nat (makeBase58Indexes (hd rest)) < 58" "base58Alphabet ! nat (makeBase58Indexes (hd rest)) = hd rest"
        using makeBase58Indexes_known known ne by simp_all
      ultimately have "unat (of_nat (nat (makeBase58Indexes (hd rest))) :: u8) = 0" by simp
      then have "nat (makeBase58Indexes (hd rest)) = 0" using k(1) by (simp add: unat_of_nat)
      then have "hd rest = one_char" using k(2) alphabet(3) by metis
      then show False using head ne by blast
    qed
    then show ?thesis using small by (auto simp: digits_ok_def ds_def)
  qed
  have rv: "digits_ok 256 r" "le_value 256 r = le_value 58 ds"
    using decode_letters [OF ok, of r] r letters by simp_all
  have zeros: "length (takeWhile (\<lambda>b. b = 0) p) = z"
  proof -
    have "\<forall>x. rev r \<noteq> [] \<longrightarrow> hd (rev r) \<noteq> 0" using rv(1) by (auto simp: digits_ok_def hd_rev)
    then show ?thesis unfolding p by (subst takeWhile_replicate) simp_all
  qed
  have "key_digits (rev r) = ds"
    using key_digits_props [of "rev r"] rv ok by (intro digits_unique [of 58]) simp_all
  then have "Pubkey_String p = replicate z one_char @ letters ds"
    unfolding Pubkey_String_eq Let_def zeros using p by simp
  then show ?thesis using len p t letters by simp
qed

end
