(* ===== verification/SdkAddress.thy ===== *)
theory SdkAddress
  imports SdkPubkey
begin

text \<open>
  \<open>src/sdk/pubkey.go\<close>: program-derived addresses, and \<open>src/sdk/instruction.go\<close>.

  The hash of \<open>crypto/sha256\<close> and the checks of \<open>unicode/utf8\<close> and \<open>math/big\<close> the code relies on are
  modelled first.  \<open>ModInverse\<close> and \<open>ModSqrt\<close> are decided by exponentiation, as their modulus is prime.
\<close>

section \<open>SHA-256\<close>

definition sha_constants :: "u32 list" where
  "sha_constants =
    [1116352408, 1899447441, 3049323471, 3921009573, 961987163, 1508970993, 2453635748, 2870763221,
     3624381080, 310598401, 607225278, 1426881987, 1925078388, 2162078206, 2614888103, 3248222580,
     3835390401, 4022224774, 264347078, 604807628, 770255983, 1249150122, 1555081692, 1996064986,
     2554220882, 2821834349, 2952996808, 3210313671, 3336571891, 3584528711, 113926993, 338241895,
     666307205, 773529912, 1294757372, 1396182291, 1695183700, 1986661051, 2177026350, 2456956037,
     2730485921, 2820302411, 3259730800, 3345764771, 3516065817, 3600352804, 4094571909, 275423344,
     430227734, 506948616, 659060556, 883997877, 958139571, 1322822218, 1537002063, 1747873779,
     1955562222, 2024104815, 2227730452, 2361852424, 2428436474, 2756734187, 3204031479, 3329325298]"

definition sha_initial :: "u32 list" where
  "sha_initial =
    [1779033703, 3144134277, 1013904242, 2773480762, 1359893119, 2600822924, 528734635, 1541459225]"

definition rotr32 :: "nat \<Rightarrow> u32 \<Rightarrow> u32" where
  "rotr32 n w = drop_bit n w OR push_bit (32 - n) w"

text \<open>The schedule grows at its front.\<close>

fun sha_schedule :: "nat \<Rightarrow> u32 list \<Rightarrow> u32 list" where
  "sha_schedule 0 ws = ws"
| "sha_schedule (Suc n) ws =
     (let s0 = rotr32 7 (ws ! 14) XOR rotr32 18 (ws ! 14) XOR drop_bit 3 (ws ! 14);
          s1 = rotr32 17 (ws ! 1) XOR rotr32 19 (ws ! 1) XOR drop_bit 10 (ws ! 1) in
      sha_schedule n ((s1 + ws ! 6 + s0 + ws ! 15) # ws))"

fun sha_round :: "u32 \<times> u32 \<Rightarrow> u32 list \<Rightarrow> u32 list" where
  "sha_round (k, w) [a, b, c, d, e, f, g, h] =
     (let t1 = h + (rotr32 6 e XOR rotr32 11 e XOR rotr32 25 e) + ((e AND f) XOR (NOT e AND g)) + k + w;
          t2 = (rotr32 2 a XOR rotr32 13 a XOR rotr32 22 a) + ((a AND b) XOR (a AND c) XOR (b AND c)) in
      [t1 + t2, a, b, c, d + t1, e, f, g])"
| "sha_round kw st = st"

definition sha_block :: "bytes \<Rightarrow> u32 list \<Rightarrow> u32 list" where
  "sha_block block st =
     (let ws = map (\<lambda>i. le_word (rev (get_slice (4 * i) 4 block))) [0..<16];
          schedule = rev (sha_schedule 48 (rev ws)) in
      map2 (+) st (fold sha_round (zip sha_constants schedule) st))"

fun sha_blocks :: "bytes \<Rightarrow> u32 list \<Rightarrow> u32 list" where
  "sha_blocks data st =
     (if length data < 64 then st else sha_blocks (drop 64 data) (sha_block (take 64 data) st))"

declare sha_blocks.simps [simp del]

definition sha_pad :: "bytes \<Rightarrow> bytes" where
  "sha_pad data =
     data @ [0x80] @ replicate ((119 - length data mod 64) mod 64) 0 @ rev (le_bytes 8 (of_nat (8 * length data) :: u64))"

definition Sum256 :: "bytes \<Rightarrow> bytes" where
  "Sum256 data = concat (map (\<lambda>w. rev (le_bytes 4 w)) (sha_blocks (sha_pad data) sha_initial))"

lemma length_sha_round: "length (sha_round kw st) = length st"
  by (induction kw st rule: sha_round.induct) (simp_all add: Let_def)

lemma length_sha_rounds: "length (fold sha_round kws st) = length st"
  by (induction kws arbitrary: st) (simp_all add: length_sha_round)

lemma length_sha_blocks: "length (sha_blocks data st) = length st"
proof (induction data st rule: sha_blocks.induct)
  case (1 data st)
  then show ?case
    by (subst sha_blocks.simps) (simp add: sha_block_def length_sha_rounds Let_def)
qed

lemma length_Sum256 [simp]: "length (Sum256 data) = 32"
proof -
  have "length (concat (map (\<lambda>w. rev (le_bytes 4 w)) ws)) = 4 * length ws" for ws :: "u32 list"
    by (induction ws) simp_all
  then show ?thesis by (simp add: Sum256_def length_sha_blocks sha_initial_def)
qed

section \<open>UTF-8\<close>

definition continuation :: "u8 \<Rightarrow> bool" where
  "continuation b \<longleftrightarrow> 0x80 \<le> b \<and> b \<le> 0xbf"

fun ValidString :: "bytes \<Rightarrow> bool" where
  "ValidString [] \<longleftrightarrow> True"
| "ValidString (a # s) \<longleftrightarrow>
     (if a < 0x80 then ValidString s
      else case s of
        [] \<Rightarrow> False
      | b # s' \<Rightarrow>
          if 0xc2 \<le> a \<and> a \<le> 0xdf then continuation b \<and> ValidString s'
          else case s' of
            [] \<Rightarrow> False
          | c # s'' \<Rightarrow>
              if 0xe0 \<le> a \<and> a \<le> 0xef then
                continuation b \<and> (a = 0xe0 \<longrightarrow> 0xa0 \<le> b) \<and> (a = 0xed \<longrightarrow> b \<le> 0x9f) \<and>
                continuation c \<and> ValidString s''
              else case s'' of
                [] \<Rightarrow> False
              | d # s''' \<Rightarrow>
                  0xf0 \<le> a \<and> a \<le> 0xf4 \<and> continuation b \<and> (a = 0xf0 \<longrightarrow> 0x90 \<le> b) \<and> (a = 0xf4 \<longrightarrow> b \<le> 0x8f) \<and>
                  continuation c \<and> continuation d \<and> ValidString s''')"

section \<open>The curve\<close>

definition edwardsPrime :: int where
  "edwardsPrime = 57896044618658097711785492504343953926634992332820282019728792003956564819949"

definition edwardsD :: int where
  "edwardsD = 37095705934669439343138083508754565189542113879843219016388785533085940283555"

fun mod_power :: "int \<Rightarrow> int \<Rightarrow> nat \<Rightarrow> int" where
  "mod_power p b e =
     (if e = 0 then 1 mod p
      else let h = mod_power p (b * b mod p) (e div 2) in if odd e then b * h mod p else h)"

declare mod_power.simps [simp del]

definition ModInverse :: "int \<Rightarrow> int \<Rightarrow> int option" where
  "ModInverse v p = (if v mod p = 0 then None else Some (mod_power p (v mod p) (nat (p - 2))))"

text \<open>Whether \<open>ModSqrt\<close> finds a root, and whether the root is not zero.\<close>

definition ModSqrt_nonzero :: "int \<Rightarrow> int \<Rightarrow> bool option" where
  "ModSqrt_nonzero x p =
     (if x mod p = 0 then Some False
      else if mod_power p (x mod p) (nat ((p - 1) div 2)) = 1 then Some True else None)"

fun le_int :: "bytes \<Rightarrow> int" where
  "le_int [] = 0"
| "le_int (b # bs) = uint b + 256 * le_int bs"

definition compressedEdwardsYIsOnCurve :: "pubkey \<Rightarrow> bool" where
  "compressedEdwardsYIsOnCurve compressed =
     (let sign = compressed ! 31 AND 0x80 \<noteq> 0;
          y = le_int (compressed[31 := compressed ! 31 AND 0x7f]);
          y2 = y * y mod edwardsPrime;
          u = (y2 - 1) mod edwardsPrime;
          v = (edwardsD * y2 + 1) mod edwardsPrime in
      (case ModInverse v edwardsPrime of
         None \<Rightarrow> False
       | Some vInverse \<Rightarrow>
           let x2 = u * vInverse mod edwardsPrime in
           (case ModSqrt_nonzero x2 edwardsPrime of
              None \<Rightarrow> False
            | Some x_nonzero \<Rightarrow> x_nonzero \<or> \<not> sign)))"

definition IsOnCurve :: "pubkey \<Rightarrow> bool" where
  "IsOnCurve p = compressedEdwardsYIsOnCurve p"

section \<open>Derived addresses\<close>

definition pdaMarker :: bytes where
  "pdaMarker = string_bytes ''ProgramDerivedAddress''"

fun hash_seeds :: "bytes \<Rightarrow> bytes list \<Rightarrow> sdk_error + bytes" where
  "hash_seeds h [] = Inr h"
| "hash_seeds h (seed # seeds) =
     (if length seed > MaxSeedLength then Inl ErrMaxSeedLength else hash_seeds (h @ seed) seeds)"

definition CreateProgramAddress :: "bytes list \<Rightarrow> pubkey \<Rightarrow> sdk_error + pubkey" where
  "CreateProgramAddress seeds programID =
     (if length seeds > MaxSeeds then Inl ErrTooManySeeds
      else
        and_then (hash_seeds [] seeds) (\<lambda>h.
        and_then (PubkeyFromBytes (Sum256 (h @ programID @ pdaMarker))) (\<lambda>key.
          if IsOnCurve key then Inl ErrInvalidSeeds else Inr key)))"

fun find_bump :: "bytes list \<Rightarrow> pubkey \<Rightarrow> nat \<Rightarrow> sdk_error + (pubkey \<times> u8)" where
  "find_bump seeds programID 0 = Inl ErrNoProgramAddress"
| "find_bump seeds programID (Suc bump) =
     (case CreateProgramAddress (seeds @ [[of_nat bump]]) programID of
        Inr address \<Rightarrow> Inr (address, of_nat bump)
      | Inl err \<Rightarrow> if err \<noteq> ErrInvalidSeeds then Inl err else find_bump seeds programID bump)"

definition FindProgramAddress :: "bytes list \<Rightarrow> pubkey \<Rightarrow> sdk_error + (pubkey \<times> u8)" where
  "FindProgramAddress seeds programID =
     (if length seeds \<ge> MaxSeeds then Inl ErrTooManySeeds
      else if \<exists>seed \<in> set seeds. length seed > MaxSeedLength then Inl ErrMaxSeedLength
      else find_bump seeds programID 256)"

definition CreateWithSeed :: "pubkey \<Rightarrow> bytes \<Rightarrow> pubkey \<Rightarrow> sdk_error + pubkey" where
  "CreateWithSeed base seed owner =
     (if \<not> ValidString seed then Inl ErrInvalidSeed
      else if length seed > MaxSeedLength then Inl ErrMaxSeedLength
      else if length owner \<ge> length pdaMarker \<and> drop (length owner - length pdaMarker) owner = pdaMarker
        then Inl ErrIllegalOwner
      else PubkeyFromBytes (Sum256 (base @ seed @ owner)))"

section \<open>Instructions\<close>

record AccountMeta =
  Pubkey :: pubkey
  IsSigner :: bool
  IsWritable :: bool

definition Writable :: "pubkey \<Rightarrow> bool \<Rightarrow> AccountMeta" where
  "Writable key signer = \<lparr>Pubkey = key, IsSigner = signer, IsWritable = True\<rparr>"

definition Readonly :: "pubkey \<Rightarrow> bool \<Rightarrow> AccountMeta" where
  "Readonly key signer = \<lparr>Pubkey = key, IsSigner = signer, IsWritable = False\<rparr>"

record Instruction =
  ProgramID :: pubkey
  Accounts :: "AccountMeta list"
  Data :: bytes

end
