(* ===== verification/RtErrors.thy ===== *)
theory RtErrors
  imports Prelude
begin

text \<open>
  \<open>src/runtime/errors.go\<close>, program errors and the status codes an entrypoint returns.

  A kind is a number of 32 bits, as in the source, so a value that is none of the named kinds is a
  \<open>ProgramError\<close> too; the zero value \<open>ProgramError{}\<close> is one of those.
\<close>

type_synonym ProgramErrorKind = u32

abbreviation (input) ProgramErrorCustomZero :: ProgramErrorKind where "ProgramErrorCustomZero \<equiv> 1"
abbreviation (input) ProgramErrorInvalidArgument :: ProgramErrorKind where "ProgramErrorInvalidArgument \<equiv> 2"
abbreviation (input) ProgramErrorInvalidAccountData :: ProgramErrorKind where "ProgramErrorInvalidAccountData \<equiv> 4"
abbreviation (input) ProgramErrorAccountDataTooSmall :: ProgramErrorKind where "ProgramErrorAccountDataTooSmall \<equiv> 5"
abbreviation (input) ProgramErrorInsufficientFunds :: ProgramErrorKind where "ProgramErrorInsufficientFunds \<equiv> 6"
abbreviation (input) ProgramErrorIncorrectProgramID :: ProgramErrorKind where "ProgramErrorIncorrectProgramID \<equiv> 7"
abbreviation (input) ProgramErrorMissingRequiredSignature :: ProgramErrorKind
  where "ProgramErrorMissingRequiredSignature \<equiv> 8"
abbreviation (input) ProgramErrorNotEnoughAccountKeys :: ProgramErrorKind where "ProgramErrorNotEnoughAccountKeys \<equiv> 11"
abbreviation (input) ProgramErrorMaxSeedLengthExceeded :: ProgramErrorKind where "ProgramErrorMaxSeedLengthExceeded \<equiv> 13"
abbreviation (input) ProgramErrorInvalidSeeds :: ProgramErrorKind where "ProgramErrorInvalidSeeds \<equiv> 14"
abbreviation (input) ProgramErrorIllegalOwner :: ProgramErrorKind where "ProgramErrorIllegalOwner \<equiv> 18"
abbreviation (input) ProgramErrorInvalidRealloc :: ProgramErrorKind where "ProgramErrorInvalidRealloc \<equiv> 20"
abbreviation (input) ProgramErrorArithmeticOverflow :: ProgramErrorKind where "ProgramErrorArithmeticOverflow \<equiv> 24"
abbreviation (input) ProgramErrorIncorrectAuthority :: ProgramErrorKind where "ProgramErrorIncorrectAuthority \<equiv> 26"

abbreviation (input) programErrorBuiltinShift :: nat where "programErrorBuiltinShift \<equiv> 32"
abbreviation (input) ProgramSuccess :: u64 where "ProgramSuccess \<equiv> 0"

record ProgramError =
  Kind :: ProgramErrorKind
  CustomCode :: u32
  Custom :: bool

definition CustomProgramError :: "u32 \<Rightarrow> ProgramError" where
  "CustomProgramError code = \<lparr>Kind = 0, CustomCode = code, Custom = True\<rparr>"

definition BuiltinProgramError :: "ProgramErrorKind \<Rightarrow> ProgramError" where
  "BuiltinProgramError kind = \<lparr>Kind = kind, CustomCode = 0, Custom = False\<rparr>"

text \<open>The kinds with an entry in the table of names, \<open>iota + 1\<close> for each of the 26 constants.\<close>

definition programErrorNames :: "ProgramErrorKind list" where
  "programErrorNames = map of_nat [1..<27]"

definition ReturnCode :: "ProgramError \<Rightarrow> u64" where
  "ReturnCode e =
     (if Custom e then
        (if CustomCode e = 0 then push_bit programErrorBuiltinShift (ucast ProgramErrorCustomZero)
         else ucast (CustomCode e))
      else push_bit programErrorBuiltinShift (ucast (Kind e)))"

text \<open>The second result of \<open>ProgramErrorFromReturnCode\<close> tells whether there was an error at all.\<close>

definition ProgramErrorFromReturnCode :: "u64 \<Rightarrow> ProgramError option" where
  "ProgramErrorFromReturnCode code =
     (if code = ProgramSuccess then None
      else if code = push_bit programErrorBuiltinShift (ucast ProgramErrorCustomZero) then Some (CustomProgramError 0)
      else
        let kind = (ucast (drop_bit programErrorBuiltinShift code) :: ProgramErrorKind) in
        if code AND 0xffffffff = 0 \<and> kind \<in> set programErrorNames \<and> kind \<noteq> ProgramErrorCustomZero
        then Some (BuiltinProgramError kind)
        else Some (CustomProgramError (ucast code)))"

section \<open>Facts\<close>

text \<open>An error that the source's constructors build: a custom one, or one of a named kind other than the zero alias.\<close>

definition proper_error :: "ProgramError \<Rightarrow> bool" where
  "proper_error e \<longleftrightarrow> (\<exists>code. e = CustomProgramError code) \<or>
     (\<exists>kind \<in> set programErrorNames. kind \<noteq> ProgramErrorCustomZero \<and> e = BuiltinProgramError kind)"

lemma shifted_kind:
  fixes kind :: u32
  shows "ucast (drop_bit 32 (push_bit 32 (ucast kind :: u64))) = kind"
    and "push_bit 32 (ucast kind :: u64) AND 0xffffffff = 0"
    and "push_bit 32 (ucast kind :: u64) = 0 \<longleftrightarrow> kind = 0"
    and "(ucast (push_bit 32 (ucast kind :: u64)) :: u32) = 0"
proof -
  show k: "ucast (drop_bit 32 (push_bit 32 (ucast kind :: u64))) = kind"
    by (rule bit_word_eqI) (auto simp: bit_simps)
  have m: "(0xffffffff :: u64) = mask 32" by (simp add: mask_eq_exp_minus_1)
  show "push_bit 32 (ucast kind :: u64) AND 0xffffffff = 0"
    unfolding m by (intro bit_word_eqI) (auto simp: bit_simps)
  show "push_bit 32 (ucast kind :: u64) = 0 \<longleftrightarrow> kind = 0" using k by auto
  show "(ucast (push_bit 32 (ucast kind :: u64)) :: u32) = 0" by (rule bit_word_eqI) (auto simp: bit_simps)
qed

lemma low_code:
  fixes code :: u32
  shows "ucast (ucast code :: u64) = code" and "(ucast code :: u64) = 0 \<longleftrightarrow> code = 0"
    and "(ucast code :: u64) AND 0xffffffff = ucast code"
proof -
  show c: "ucast (ucast code :: u64) = code" by (rule bit_word_eqI) (auto simp: bit_simps)
  show "(ucast code :: u64) = 0 \<longleftrightarrow> code = 0" using c by auto
  have m: "(0xffffffff :: u64) = mask 32" by (simp add: mask_eq_exp_minus_1)
  show "(ucast code :: u64) AND 0xffffffff = ucast code"
    unfolding m by (intro bit_word_eqI) (auto simp: bit_simps dest: bit_imp_le_length)
qed

lemma names_nonzero: "kind \<in> set programErrorNames \<Longrightarrow> kind \<noteq> 0"
  by (auto simp: programErrorNames_def word_unat_eq_iff unat_of_nat)

lemma builtin_code:
  assumes "kind \<in> set programErrorNames" and "kind \<noteq> ProgramErrorCustomZero"
  shows "ProgramErrorFromReturnCode (ReturnCode (BuiltinProgramError kind)) = Some (BuiltinProgramError kind)"
proof -
  have "push_bit 32 (ucast kind :: u64) \<noteq> push_bit 32 1"
    using assms(2) shifted_kind(1) [of kind] shifted_kind(1) [of 1] by auto
  then show ?thesis
    using assms names_nonzero [OF assms(1)]
    by (simp add: ReturnCode_def ProgramErrorFromReturnCode_def BuiltinProgramError_def shifted_kind Let_def)
qed

lemma custom_code: "ProgramErrorFromReturnCode (ReturnCode (CustomProgramError code)) = Some (CustomProgramError code)"
proof (cases "code = 0")
  case True
  then show ?thesis by (simp add: ReturnCode_def ProgramErrorFromReturnCode_def CustomProgramError_def)
next
  case False
  have "(ucast code :: u64) \<noteq> push_bit 32 1"
    using low_code(3) [of code] low_code(2) [of code] shifted_kind(2) [of 1] False by auto
  then show ?thesis
    using False by (simp add: ReturnCode_def ProgramErrorFromReturnCode_def CustomProgramError_def low_code Let_def)
qed

text \<open>
  Status codes of programs are lossless for the errors the constructors of this package build: the code of
  such an error is not the success code, and reading it back gives that error, the custom error 0 and its alias
  \<open>CUSTOM_ZERO\<close> included.
\<close>

theorem ReturnCode_roundtrip:
  assumes "proper_error e"
  shows "ReturnCode e \<noteq> ProgramSuccess \<and> ProgramErrorFromReturnCode (ReturnCode e) = Some e"
proof -
  have "ProgramErrorFromReturnCode (ReturnCode e) = Some e"
    using assms builtin_code custom_code unfolding proper_error_def by blast
  then show ?thesis by (auto simp: ProgramErrorFromReturnCode_def)
qed

theorem ReturnCode_roundtrip_witness:
  "ReturnCode (CustomProgramError 0) \<noteq> 0 \<and> ReturnCode (BuiltinProgramError 24) \<noteq> 0"
proof -
  have "proper_error (BuiltinProgramError 24)" by (simp add: proper_error_def programErrorNames_def upt_rec)
  moreover have "proper_error (CustomProgramError 0)" by (auto simp: proper_error_def)
  ultimately show ?thesis using ReturnCode_roundtrip by blast
qed

text \<open>
  C27.  What becomes of every built-in kind.  The zero value \<open>ProgramError{}\<close>, kind 0 and not custom, has the
  code of success, so a failing program is read as one that succeeded; a kind with no name reads back as
  the custom error 0; only the named ones survive, \<open>CUSTOM_ZERO\<close> as its alias.
\<close>

theorem ReturnCode_of_kinds:
  "ProgramErrorFromReturnCode (ReturnCode (BuiltinProgramError kind)) =
     (if kind = 0 then None
      else if kind \<in> set programErrorNames \<and> kind \<noteq> ProgramErrorCustomZero then Some (BuiltinProgramError kind)
      else Some (CustomProgramError 0))"
proof (cases "kind \<in> set programErrorNames \<and> kind \<noteq> ProgramErrorCustomZero")
  case True
  then show ?thesis using builtin_code names_nonzero by auto
next
  case False
  then show ?thesis
    by (auto simp: ReturnCode_def ProgramErrorFromReturnCode_def BuiltinProgramError_def shifted_kind Let_def)
qed

end
