(* ===== verification/Slices.thy ===== *)
theory Slices
  imports Prelude
begin

text \<open>
  Buffers that are written field by field: overwriting and reading slices of appended parts, and
  lengths as 64-bit words.
\<close>

section \<open>Slices of appended parts\<close>

lemma put_slice_left:
  "off + length vs \<le> length xs \<Longrightarrow> put_slice off vs (xs @ ys) = put_slice off vs xs @ ys"
  by (simp add: put_slice_def)

lemma put_slice_right:
  "length xs \<le> off \<Longrightarrow> put_slice off vs (xs @ ys) = xs @ put_slice (off - length xs) vs ys"
  by (simp add: put_slice_def)

lemma put_slice_Cons: "0 < off \<Longrightarrow> put_slice off vs (x # xs) = x # put_slice (off - 1) vs xs"
  by (cases off) (simp_all add: put_slice_def)

lemma put_slice_all: "length vs = length xs \<Longrightarrow> put_slice 0 vs xs = vs"
  by (simp add: put_slice_def)

lemma get_slice_left: "off + n \<le> length xs \<Longrightarrow> get_slice off n (xs @ ys) = get_slice off n xs"
  by (simp add: get_slice_def)

lemma get_slice_right: "length xs \<le> off \<Longrightarrow> get_slice off n (xs @ ys) = get_slice (off - length xs) n ys"
  by (simp add: get_slice_def)

lemma get_slice_all: "length xs = n \<Longrightarrow> get_slice 0 n xs = xs"
  by (simp add: get_slice_def)

lemma put_head: "length vs = length xs \<Longrightarrow> put_slice 0 vs (xs @ ys) = vs @ ys"
  by (simp add: put_slice_def)

section \<open>Lengths as words\<close>

lemma of_nat_u64:
  assumes "a < 2 ^ 64" and "b < 2 ^ 64"
  shows "(of_nat a :: u64) \<le> of_nat b \<longleftrightarrow> a \<le> b" "(of_nat a :: u64) < of_nat b \<longleftrightarrow> a < b"
    "(of_nat a :: u64) = of_nat b \<longleftrightarrow> a = b" "(of_nat a :: u64) mod of_nat b = of_nat (a mod b)"
    "(of_nat a :: u64) div of_nat b = of_nat (a div b)" "unat (of_nat a :: u64) = a"
proof -
  have u: "unat (of_nat a :: u64) = a" "unat (of_nat b :: u64) = b"
    using assms by (simp_all add: unat_of_nat)
  show "(of_nat a :: u64) \<le> of_nat b \<longleftrightarrow> a \<le> b" "(of_nat a :: u64) < of_nat b \<longleftrightarrow> a < b"
    using u by (simp_all add: word_le_nat_alt word_less_nat_alt)
  show "(of_nat a :: u64) = of_nat b \<longleftrightarrow> a = b" using u by (metis)
  show "(of_nat a :: u64) mod of_nat b = of_nat (a mod b)" using u by (simp add: word_arith_nat_mod)
  show "(of_nat a :: u64) div of_nat b = of_nat (a div b)" using u by (simp add: word_arith_nat_div)
  show "unat (of_nat a :: u64) = a" by (rule u)
qed

lemma sint_small:
  fixes w :: u64
  assumes "unat w < 2 ^ 63"
  shows "sint w = uint w"
proof -
  have "int (unat w) < 2 ^ 63" using assms by (metis of_nat_less_iff of_nat_numeral of_nat_power)
  then have "uint w < 2 ^ 63" by simp
  moreover have "- (2 ^ 63) \<le> uint w" by (rule order_trans [OF _ uint_ge_0]) simp
  ultimately have "signed_take_bit 63 (uint w) = uint w" by (intro signed_take_bit_int_eq_self)
  then show ?thesis by (simp add: sint_uint)
qed

end
