(* ===== verification/RtHeap.thy ===== *)
theory RtHeap
  imports SdkAddress RtErrors Slices SbpfInstruction
begin

text \<open>
  The objects of \<open>src/runtime\<close> and the store they live in.

  Account views share memory: an owner is kept in a field of the view and in 32 bytes of the program
  input, two slots of an invocation may be one view, and the guest reaches the same bytes through a memory
  map.  So byte arrays, memory maps and views live in an explicit heap; a Go slice is a window of an array, a
  pointer an index, and nil is \<open>None\<close> (a nil slice is an empty window).
\<close>

section \<open>Slices\<close>

record slice =
  sl_Array :: nat
  sl_Off :: nat
  sl_Len :: nat
  sl_Cap :: nat

definition nil_slice :: slice where
  "nil_slice = \<lparr>sl_Array = 0, sl_Off = 0, sl_Len = 0, sl_Cap = 0\<rparr>"

text \<open>\<open>s[lo:hi]\<close>, which may extend into the capacity.\<close>

definition reslice :: "slice \<Rightarrow> nat \<Rightarrow> nat \<Rightarrow> slice" where
  "reslice s lo hi = \<lparr>sl_Array = sl_Array s, sl_Off = sl_Off s + lo, sl_Len = hi - lo, sl_Cap = sl_Cap s - lo\<rparr>"

section \<open>Errors of the package\<close>

text \<open>
  A sentinel wrapped with \<open>fmt.Errorf\<close> is the sentinel: only its identity is ever asked for.  A program error that is
  wrapped is \<open>Wrapped\<close>, because a type switch no longer sees a \<open>ProgramError\<close> in it.  \<open>ProgramFailurePtr\<close> is a
  \<open>*ProgramError\<close>; \<open>OtherError\<close> any error of the embedding program.
\<close>

datatype rt_error =
  ErrInvalidMemoryRegion | ErrMemoryOverlap | ErrAccessViolation | ErrUnalignedPointer | ErrInvalidLength
  | ErrReadonlyAccountModified | ErrExternalAccountDataModified | ErrExternalLamportSpend | ErrUnbalancedLamports
  | ErrInvalidABI | ErrTooManyAccounts | ErrInstructionTooLarge | ErrInvalidDuplicate
  | ErrPrivilegeEscalation | ErrMissingCPIAccount | ErrMissingCPIProgram | ErrInvalidAccountPointer
  | ErrCPIExecutorUnavailable | ErrCPIPolicyUnavailable | ErrCPIProgramNotAllowed | ErrTooManyCPISigners
  | ErrNegativeMinimum
  | ProgramFailure ProgramError | ProgramFailurePtr "ProgramError option" | Wrapped rt_error | OtherError nat

section \<open>Objects\<close>

text \<open>The names of memory regions only appear in error texts and are left out.\<close>

record RuntimeMemoryRegion =
  mr_VMStart :: u64
  mr_Data :: slice
  mr_Writable :: bool
  mr_ReservedLength :: u64
  mr_Growable :: bool

type_synonym MemoryMap = "RuntimeMemoryRegion list"

record Account =
  ac_Key :: pubkey
  ac_Owner :: pubkey
  ac_Lamports :: u64
  ac_Data :: bytes
  ac_IsSigner :: bool
  ac_IsWritable :: bool
  ac_Executable :: bool

text \<open>Offsets into \<open>raw\<close> are \<open>None\<close> where the source has -1.\<close>

record AccountView =
  av_key :: pubkey
  av_owner :: pubkey
  av_lamports :: u64
  av_data :: slice
  av_dataLen :: nat
  av_originalLen :: nat
  av_isSigner :: bool
  av_isWritable :: bool
  av_executable :: bool
  av_baselineOwner :: pubkey
  av_baselineLamports :: u64
  av_baselineDataLen :: nat
  av_baselineDataHash :: bytes
  av_raw :: slice
  av_ownerOffset :: "nat option"
  av_lamportsOffset :: "nat option"
  av_dataLenOffset :: "nat option"
  av_ownerStorage :: slice
  av_lamportsStorage :: slice
  av_dataLenStorage :: slice
  av_memory :: "nat option"
  av_dataAddress :: u64

section \<open>The heap\<close>

record heap =
  Arrays :: "bytes list"
  Maps :: "MemoryMap list"
  Views :: "AccountView list"

definition read_slice :: "heap \<Rightarrow> slice \<Rightarrow> bytes" where
  "read_slice h s = get_slice (sl_Off s) (sl_Len s) (Arrays h ! sl_Array s)"

text \<open>Overwrite the bytes of a slice from its start on; the bytes fit into the slice.\<close>

definition write_slice :: "heap \<Rightarrow> slice \<Rightarrow> bytes \<Rightarrow> heap" where
  "write_slice h s bs = h\<lparr>Arrays := (Arrays h)[sl_Array s := put_slice (sl_Off s) bs (Arrays h ! sl_Array s)]\<rparr>"

text \<open>\<open>copy(dst, src)\<close>\<close>

definition copy_to :: "heap \<Rightarrow> slice \<Rightarrow> bytes \<Rightarrow> heap" where
  "copy_to h s bs = write_slice h s (take (sl_Len s) bs)"

definition clear_slice :: "heap \<Rightarrow> slice \<Rightarrow> heap" where
  "clear_slice h s = write_slice h s (replicate (sl_Len s) 0)"

definition new_array :: "heap \<Rightarrow> bytes \<Rightarrow> heap \<times> slice" where
  "new_array h bs = (h\<lparr>Arrays := Arrays h @ [bs]\<rparr>,
     \<lparr>sl_Array = length (Arrays h), sl_Off = 0, sl_Len = length bs, sl_Cap = length bs\<rparr>)"

definition new_map :: "heap \<Rightarrow> MemoryMap \<Rightarrow> heap \<times> nat" where
  "new_map h m = (h\<lparr>Maps := Maps h @ [m]\<rparr>, length (Maps h))"

definition new_view :: "heap \<Rightarrow> AccountView \<Rightarrow> heap \<times> nat" where
  "new_view h v = (h\<lparr>Views := Views h @ [v]\<rparr>, length (Views h))"

definition put_view :: "heap \<Rightarrow> nat \<Rightarrow> AccountView \<Rightarrow> heap" where
  "put_view h p v = h\<lparr>Views := (Views h)[p := v]\<rparr>"

definition put_map :: "heap \<Rightarrow> nat \<Rightarrow> MemoryMap \<Rightarrow> heap" where
  "put_map h p m = h\<lparr>Maps := (Maps h)[p := m]\<rparr>"

section \<open>Operations that may fail\<close>

text \<open>
  An operation on the heap returns the heap it leaves, also when it fails, and an error or a value.
\<close>

definition then_h :: "heap \<times> ('e + 'a) \<Rightarrow> (heap \<Rightarrow> 'a \<Rightarrow> heap \<times> ('e + 'b)) \<Rightarrow> heap \<times> ('e + 'b)" where
  "then_h r f = (case r of (h, Inl e) \<Rightarrow> (h, Inl e) | (h, Inr x) \<Rightarrow> f h x)"

definition no_failure :: "heap \<Rightarrow> heap \<times> (rt_error + unit)" where
  "no_failure h = (h, Inr ())"

definition fails :: "heap \<Rightarrow> ProgramErrorKind \<Rightarrow> heap \<times> (rt_error + 'a)" where
  "fails h kind = (h, Inl (ProgramFailure (BuiltinProgramError kind)))"

lemma then_h_simps [simp]:
  "then_h (h, Inl e) f = (h, Inl e)"
  "then_h (h, Inr x) f = f h x"
  by (simp_all add: then_h_def)

lemma then_h_Inr_conv:
  "then_h r f = (h', Inr y) \<longleftrightarrow> (\<exists>h x. r = (h, Inr x) \<and> f h x = (h', Inr y))"
  by (auto simp: then_h_def split: prod.splits sum.splits)

lemma then_h_Inl_conv:
  "then_h r f = (h', Inl e) \<longleftrightarrow> r = (h', Inl e) \<or> (\<exists>h x. r = (h, Inr x) \<and> f h x = (h', Inl e))"
  by (auto simp: then_h_def split: prod.splits sum.splits)

end
