(* ===== verification/MemoryInterface.thy ===== *)
theory MemoryInterface
  imports Prelude
begin

text \<open>
  The contract of a guest memory, as its clients use it: typed loads and stores at 64-bit
  addresses.  Two components of the repository provide it, the interpreter (\<open>src/vm\<close>, accesses of
  1, 2, 4 and 8 bytes) and the runtime's \<open>MemoryMap\<close> (\<open>src/runtime/memory.go\<close>, aligned 64-bit
  words).  What holds of a sequence of stores is proved once, from the contract.
\<close>

text \<open>Two address ranges are apart when neither starts inside the other.\<close>

definition apart :: "u64 \<Rightarrow> nat \<Rightarrow> u64 \<Rightarrow> nat \<Rightarrow> bool" where
  "apart a n b m \<longleftrightarrow> unat a + n \<le> unat b \<or> unat b + m \<le> unat a"

lemma apart_sym: "apart a n b m \<longleftrightarrow> apart b m a n"
  by (auto simp: apart_def)

fun store_all ::
  "('s \<Rightarrow> u64 \<Rightarrow> u64 \<Rightarrow> 'k \<Rightarrow> 'e + 's) \<Rightarrow> 's \<Rightarrow> (u64 \<times> u64 \<times> 'k) list \<Rightarrow> 'e + 's" where
  "store_all store s [] = Inr s"
| "store_all store s ((a, v, k) # rest) =
     and_then (store s a v k) (\<lambda>s'. store_all store s' rest)"

locale guest_memory =
  fixes load :: "'s \<Rightarrow> u64 \<Rightarrow> 'k \<Rightarrow> 'e + u64"
    and store :: "'s \<Rightarrow> u64 \<Rightarrow> u64 \<Rightarrow> 'k \<Rightarrow> 'e + 's"
    and width :: "'k \<Rightarrow> nat"
    and keep :: "'k \<Rightarrow> u64 \<Rightarrow> u64"
    and accepts :: "'s \<Rightarrow> u64 \<Rightarrow> 'k \<Rightarrow> bool"
  assumes load_stored: "store s a v k = Inr s' \<Longrightarrow> load s' a k = Inr (keep k v)"
    and load_apart:
      "store s a v k = Inr s' \<Longrightarrow> apart a (width k) b (width k') \<Longrightarrow> load s' b k' = load s b k'"
    and store_accepts: "(\<exists>s'. store s a v k = Inr s') \<longleftrightarrow> accepts s a k"
    and accepts_stable: "store s a v k = Inr s' \<Longrightarrow> accepts s' b k' = accepts s b k'"
begin

abbreviation all_apart :: "(u64 \<times> u64 \<times> 'k) list \<Rightarrow> bool" where
  "all_apart \<equiv> sorted_wrt (\<lambda>(a, v, k) (b, w, j). apart a (width k) b (width j))"

lemma store_all_accepts:
  "(\<exists>s'. store_all store s xs = Inr s') \<longleftrightarrow> (\<forall>(a, v, k) \<in> set xs. accepts s a k)"
proof (induction xs arbitrary: s)
  case Nil
  then show ?case by simp
next
  case (Cons x xs)
  obtain a v k where x: "x = (a, v, k)" by (cases x) auto
  show ?case
  proof (cases "accepts s a k")
    case False
    then have "\<nexists>s'. store s a v k = Inr s'" by (simp add: store_accepts)
    with False show ?thesis by (auto simp: x and_then_Inr_conv)
  next
    case True
    then obtain t where t: "store s a v k = Inr t" using store_accepts by blast
    show ?thesis
      using Cons.IH [of t] True by (simp add: x t accepts_stable [OF t])
  qed
qed

lemma store_all_other:
  assumes "store_all store s xs = Inr s'"
    and "\<forall>(a, v, k) \<in> set xs. apart a (width k) b (width j)"
  shows "load s' b j = load s b j"
  using assms
proof (induction xs arbitrary: s)
  case Nil
  then show ?case by simp
next
  case (Cons x xs)
  obtain a v k where x: "x = (a, v, k)" by (cases x) auto
  from Cons.prems(1) obtain t where t: "store s a v k = Inr t" and r: "store_all store t xs = Inr s'"
    by (auto simp: x and_then_Inr_conv)
  have "load s' b j = load t b j" using r Cons.prems(2) by (intro Cons.IH) auto
  also have "\<dots> = load s b j" using t Cons.prems(2) by (auto simp: x intro: load_apart)
  finally show ?case .
qed

lemma store_all_reads:
  assumes "store_all store s xs = Inr s'" and "all_apart xs" and "(a, v, k) \<in> set xs"
  shows "load s' a k = Inr (keep k v)"
  using assms
proof (induction xs arbitrary: s)
  case Nil
  then show ?case by simp
next
  case (Cons x xs)
  obtain b w j where x: "x = (b, w, j)" by (cases x) auto
  from Cons.prems(1) obtain t where t: "store s b w j = Inr t" and r: "store_all store t xs = Inr s'"
    by (auto simp: x and_then_Inr_conv)
  show ?case
  proof (cases "(a, v, k) \<in> set xs")
    case True
    then show ?thesis using r Cons.prems(2) by (intro Cons.IH [OF r]) auto
  next
    case False
    then have eq: "a = b" "v = w" "k = j" using Cons.prems(3) by (auto simp: x)
    have "load s' a k = load t a k"
      using Cons.prems(2) by (intro store_all_other [OF r]) (auto simp: x eq apart_sym)
    then show ?thesis using load_stored [OF t] by (simp add: eq)
  qed
qed

end

end
