(* ===== verification/RtMemory.thy ===== *)
theory RtMemory
  imports RtHeap MemoryInterface
begin

text \<open>
  \<open>src/runtime/memory.go\<close>: the map from guest addresses to host bytes.

  \<open>sort.Search\<close> on the sorted table is the number of leading entries that do not satisfy the
  predicate; \<open>sort.Slice\<close> is \<open>sort_key\<close>, which decides nothing here because two regions with the same start
  overlap and are refused.  Lengths of Go slices are below \<open>2^63\<close>.
\<close>

type_synonym AccessType = u8

abbreviation (input) AccessRead :: AccessType where "AccessRead \<equiv> 0"
abbreviation (input) AccessWrite :: AccessType where "AccessWrite \<equiv> 1"

definition region_len :: "RuntimeMemoryRegion \<Rightarrow> u64" where
  "region_len r = of_nat (sl_Len (mr_Data r))"

definition region_limit :: "RuntimeMemoryRegion \<Rightarrow> u64 option" where
  "region_limit r = (if region_len r > - 1 - mr_VMStart r then None else Some (mr_VMStart r + region_len r))"

definition reservationLength :: "RuntimeMemoryRegion \<Rightarrow> u64" where
  "reservationLength r = (if mr_ReservedLength r = 0 then region_len r else mr_ReservedLength r)"

definition reservedEnd :: "RuntimeMemoryRegion \<Rightarrow> u64 option" where
  "reservedEnd r =
     (let len = reservationLength r in if len > - 1 - mr_VMStart r then None else Some (mr_VMStart r + len))"

definition end_or_zero :: "u64 option \<Rightarrow> u64" where
  "end_or_zero e = (case e of None \<Rightarrow> 0 | Some x \<Rightarrow> x)"

definition check_reservation :: "RuntimeMemoryRegion \<Rightarrow> rt_error + RuntimeMemoryRegion" where
  "check_reservation r =
     (let reserved = reservationLength r in
      if reserved = 0 then Inl ErrInvalidMemoryRegion
      else if reserved < region_len r then Inl ErrInvalidMemoryRegion
      else if mr_Growable r \<and> (\<not> mr_Writable r \<or> reserved > of_nat (sl_Cap (mr_Data r)))
        then Inl ErrInvalidMemoryRegion
      else
        case reservedEnd r of
          None \<Rightarrow> Inl ErrInvalidMemoryRegion
        | Some e \<Rightarrow>
            if mr_VMStart r div MMRegionSize \<noteq> (e - 1) div MMRegionSize then Inl ErrInvalidMemoryRegion
            else Inr (r\<lparr>mr_ReservedLength := reserved\<rparr>))"

fun check_reservations :: "MemoryMap \<Rightarrow> rt_error + MemoryMap" where
  "check_reservations [] = Inr []"
| "check_reservations (r # rs) =
     and_then (check_reservation r) (\<lambda>r'. and_then (check_reservations rs) (\<lambda>rs'. Inr (r' # rs')))"

fun check_neighbours :: "MemoryMap \<Rightarrow> rt_error option" where
  "check_neighbours (a # b # rs) =
     (if mr_VMStart b < end_or_zero (reservedEnd a) then Some ErrMemoryOverlap else check_neighbours (b # rs))"
| "check_neighbours _ = None"

definition region_table :: "MemoryMap \<Rightarrow> rt_error + MemoryMap" where
  "region_table regions =
     and_then (check_reservations regions) (\<lambda>checked.
       let sorted = sort_key mr_VMStart checked in
       case check_neighbours sorted of Some e \<Rightarrow> Inl e | None \<Rightarrow> Inr sorted)"

definition NewMemoryMap :: "heap \<Rightarrow> MemoryMap \<Rightarrow> rt_error + heap \<times> nat" where
  "NewMemoryMap h regions = and_then (region_table regions) (\<lambda>sorted. Inr (new_map h sorted))"

definition search :: "('a \<Rightarrow> bool) \<Rightarrow> 'a list \<Rightarrow> nat" where
  "search p xs = length (takeWhile (\<lambda>x. \<not> p x) xs)"

definition region_at :: "MemoryMap \<Rightarrow> u64 \<Rightarrow> nat option" where
  "region_at m address =
     (let index = search (\<lambda>r. mr_VMStart r \<ge> address) m in
      if index \<ge> length m \<or> mr_VMStart (m ! index) \<noteq> address then None else Some index)"

definition ResizeRegion :: "heap \<Rightarrow> nat option \<Rightarrow> u64 \<Rightarrow> u64 \<Rightarrow> heap \<times> (rt_error + unit)" where
  "ResizeRegion h m address newLength =
     (case m of None \<Rightarrow> (h, Inl ErrAccessViolation)
      | Some p \<Rightarrow>
        (case region_at (Maps h ! p) address of None \<Rightarrow> (h, Inl ErrAccessViolation)
         | Some index \<Rightarrow>
           let region = Maps h ! p ! index; d = mr_Data region in
           if \<not> mr_Growable region \<or> \<not> mr_Writable region \<or> newLength > mr_ReservedLength region \<or>
             newLength > of_nat (sl_Cap d) \<or> newLength > 0x7fffffffffffffff
           then (h, Inl ErrAccessViolation)
           else
             let old = sl_Len d; new = unat newLength; d' = reslice d 0 new;
                 h = (if new > old then clear_slice h (reslice d old new)
                      else if new < old then clear_slice h (reslice d new old) else h)
             in (put_map h p ((Maps h ! p)[index := region\<lparr>mr_Data := d'\<rparr>]), Inr ())))"

definition growableStorage :: "heap \<Rightarrow> nat option \<Rightarrow> u64 \<Rightarrow> u64 \<Rightarrow> slice option" where
  "growableStorage h m address currentLength =
     (case m of None \<Rightarrow> None
      | Some p \<Rightarrow>
        (case region_at (Maps h ! p) address of None \<Rightarrow> None
         | Some index \<Rightarrow>
           let region = Maps h ! p ! index in
           if \<not> mr_Growable region \<or> region_len region \<noteq> currentLength \<or>
             mr_ReservedLength region > of_nat (sl_Cap (mr_Data region)) \<or> mr_ReservedLength region > 0x7fffffffffffffff
           then None
           else Some (reslice (mr_Data region) 0 (unat (mr_ReservedLength region)))))"

definition map_Regions :: "heap \<Rightarrow> nat option \<Rightarrow> MemoryMap" where
  "map_Regions h m = (case m of None \<Rightarrow> [] | Some p \<Rightarrow> Maps h ! p)"

definition translate_in :: "MemoryMap \<Rightarrow> u64 \<Rightarrow> u64 \<Rightarrow> AccessType \<Rightarrow> u64 \<Rightarrow> rt_error + slice" where
  "translate_in m address len access alignment =
     (if access \<noteq> AccessRead \<and> access \<noteq> AccessWrite then Inl ErrAccessViolation
      else if alignment > 1 \<and> (alignment AND (alignment - 1) \<noteq> 0 \<or> address mod alignment \<noteq> 0)
        then Inl ErrUnalignedPointer
      else if len > - 1 - address then Inl ErrInvalidLength
      else
        let last = address + len; next = search (\<lambda>r. mr_VMStart r > address) m in
        if next = 0 then Inl ErrAccessViolation
        else
          let region = m ! (next - 1); regionEnd = end_or_zero (region_limit region) in
          if address < mr_VMStart region \<or> last > regionEnd \<or> (len > 0 \<and> address = regionEnd)
            then Inl ErrAccessViolation
          else if access = AccessWrite \<and> \<not> mr_Writable region then Inl ErrAccessViolation
          else
            let offset = address - mr_VMStart region
            in Inr (reslice (mr_Data region) (unat offset) (unat (offset + len))))"

definition Translate ::
  "heap \<Rightarrow> nat option \<Rightarrow> u64 \<Rightarrow> u64 \<Rightarrow> AccessType \<Rightarrow> u64 \<Rightarrow> rt_error + slice" where
  "Translate h m address len access alignment =
     (case m of None \<Rightarrow> Inl ErrAccessViolation
      | Some p \<Rightarrow> translate_in (Maps h ! p) address len access alignment)"

definition ReadUint64 :: "heap \<Rightarrow> nat option \<Rightarrow> u64 \<Rightarrow> rt_error + u64" where
  "ReadUint64 h m address =
     and_then (Translate h m address 8 AccessRead 8) (\<lambda>s. Inr (le_word (read_slice h s)))"

definition WriteUint64 :: "heap \<Rightarrow> nat option \<Rightarrow> u64 \<Rightarrow> u64 \<Rightarrow> rt_error + heap" where
  "WriteUint64 h m address value =
     and_then (Translate h m address 8 AccessWrite 8) (\<lambda>s. Inr (write_slice h s (le_bytes 8 value)))"

end
