(* ===== verification/RtAccount.thy ===== *)
theory RtAccount
  imports RtMemory
begin

text \<open>
  \<open>src/runtime/account.go\<close>: views of the accounts of an invocation and the invocation's context.

  A method of \<open>*AccountView\<close> takes the pointer, \<open>None\<close> for nil.  Reading the owner or the balance refreshes the
  view's cached field from its storage, so these methods return a heap as well.  An \<open>int\<close> that counts bytes is a
  natural number; a parameter that the code compares with 0 is an integer.
\<close>

abbreviation (input) MaxPermittedDataIncrease :: nat where "MaxPermittedDataIncrease \<equiv> 10240"
abbreviation (input) MaxPermittedDataLength :: nat where "MaxPermittedDataLength \<equiv> 10485760"

section \<open>Accounts of a caller\<close>

record InputAccount =
  in_Account :: "Account option"
  in_DuplicateOf :: "u8 option"

definition UniqueInputAccount :: "Account \<Rightarrow> InputAccount" where
  "UniqueInputAccount account = \<lparr>in_Account = Some account, in_DuplicateOf = None\<rparr>"

definition DuplicateInputAccount :: "u8 \<Rightarrow> InputAccount" where
  "DuplicateInputAccount index = \<lparr>in_Account = None, in_DuplicateOf = Some index\<rparr>"

section \<open>Views\<close>

definition view_bytes :: "heap \<Rightarrow> AccountView \<Rightarrow> bytes" where
  "view_bytes h v = read_slice h (reslice (av_data v) 0 (av_dataLen v))"

definition acceptBaseline :: "heap \<Rightarrow> nat option \<Rightarrow> heap" where
  "acceptBaseline h a =
     (case a of None \<Rightarrow> h
      | Some p \<Rightarrow>
        let v = Views h ! p in
        put_view h p (v\<lparr>av_baselineOwner := av_owner v, av_baselineLamports := av_lamports v,
          av_baselineDataLen := av_dataLen v, av_baselineDataHash := Sum256 (view_bytes h v)\<rparr>))"

definition newAccountView :: "heap \<Rightarrow> Account \<Rightarrow> heap \<times> nat" where
  "newAccountView h account =
     (let capacity = length (ac_Data account) + MaxPermittedDataIncrease;
          (h, data) = new_array h (ac_Data account @ replicate (capacity - length (ac_Data account)) 0);
          (h, p) = new_view h
            \<lparr>av_key = ac_Key account, av_owner = ac_Owner account, av_lamports = ac_Lamports account,
             av_data = data, av_dataLen = length (ac_Data account), av_originalLen = length (ac_Data account),
             av_isSigner = ac_IsSigner account, av_isWritable = ac_IsWritable account,
             av_executable = ac_Executable account,
             av_baselineOwner = zero_pubkey, av_baselineLamports = 0, av_baselineDataLen = 0,
             av_baselineDataHash = replicate 32 0, av_raw = nil_slice,
             av_ownerOffset = None, av_lamportsOffset = None, av_dataLenOffset = None,
             av_ownerStorage = nil_slice, av_lamportsStorage = nil_slice, av_dataLenStorage = nil_slice,
             av_memory = None, av_dataAddress = 0\<rparr>
      in (acceptBaseline h (Some p), p))"

definition View_Key :: "heap \<Rightarrow> nat option \<Rightarrow> pubkey" where
  "View_Key h a = (case a of None \<Rightarrow> zero_pubkey | Some p \<Rightarrow> av_key (Views h ! p))"

text \<open>The bytes of a field's storage: its own slice, or the place at its offset in the raw input, if it has either.\<close>

definition field_storage :: "AccountView \<Rightarrow> slice \<Rightarrow> nat option \<Rightarrow> nat \<Rightarrow> slice option" where
  "field_storage v storage offset n =
     (if sl_Len storage = n then Some storage
      else case offset of Some off \<Rightarrow> Some (reslice (av_raw v) off (off + n)) | None \<Rightarrow> None)"

definition owner_storage :: "AccountView \<Rightarrow> slice option" where
  "owner_storage v = field_storage v (av_ownerStorage v) (av_ownerOffset v) 32"

definition lamports_storage :: "AccountView \<Rightarrow> slice option" where
  "lamports_storage v = field_storage v (av_lamportsStorage v) (av_lamportsOffset v) 8"

definition dataLen_storage :: "AccountView \<Rightarrow> slice option" where
  "dataLen_storage v = field_storage v (av_dataLenStorage v) (av_dataLenOffset v) 8"

definition stored_owner :: "heap \<Rightarrow> AccountView \<Rightarrow> pubkey" where
  "stored_owner h v = (case owner_storage v of Some s \<Rightarrow> read_slice h s | None \<Rightarrow> av_owner v)"

definition stored_lamports :: "heap \<Rightarrow> AccountView \<Rightarrow> u64" where
  "stored_lamports h v = (case lamports_storage v of Some s \<Rightarrow> le_word (read_slice h s) | None \<Rightarrow> av_lamports v)"

definition View_Owner :: "heap \<Rightarrow> nat option \<Rightarrow> heap \<times> pubkey" where
  "View_Owner h a =
     (case a of None \<Rightarrow> (h, zero_pubkey)
      | Some p \<Rightarrow>
        let v = Views h ! p; owner = stored_owner h v in (put_view h p (v\<lparr>av_owner := owner\<rparr>), owner))"

definition View_Lamports :: "heap \<Rightarrow> nat option \<Rightarrow> heap \<times> u64" where
  "View_Lamports h a =
     (case a of None \<Rightarrow> (h, 0)
      | Some p \<Rightarrow>
        let v = Views h ! p; lamports = stored_lamports h v
        in (put_view h p (v\<lparr>av_lamports := lamports\<rparr>), lamports))"

definition View_IsSigner :: "heap \<Rightarrow> nat option \<Rightarrow> bool" where
  "View_IsSigner h a = (case a of None \<Rightarrow> False | Some p \<Rightarrow> av_isSigner (Views h ! p))"

definition View_IsWritable :: "heap \<Rightarrow> nat option \<Rightarrow> bool" where
  "View_IsWritable h a = (case a of None \<Rightarrow> False | Some p \<Rightarrow> av_isWritable (Views h ! p))"

definition View_Executable :: "heap \<Rightarrow> nat option \<Rightarrow> bool" where
  "View_Executable h a = (case a of None \<Rightarrow> False | Some p \<Rightarrow> av_executable (Views h ! p))"

definition View_OriginalDataLen :: "heap \<Rightarrow> nat option \<Rightarrow> nat" where
  "View_OriginalDataLen h a = (case a of None \<Rightarrow> 0 | Some p \<Rightarrow> av_originalLen (Views h ! p))"

definition View_DataLen :: "heap \<Rightarrow> nat option \<Rightarrow> nat" where
  "View_DataLen h a = (case a of None \<Rightarrow> 0 | Some p \<Rightarrow> av_dataLen (Views h ! p))"

definition Sync :: "heap \<Rightarrow> nat option \<Rightarrow> heap \<times> (rt_error + unit)" where
  "Sync h a =
     (case a of None \<Rightarrow> (h, Inl ErrInvalidABI)
      | Some p \<Rightarrow>
        let v = (Views h ! p)\<lparr>av_owner := stored_owner h (Views h ! p), av_lamports := stored_lamports h (Views h ! p)\<rparr>;
            h = put_view h p v in
        case dataLen_storage v of None \<Rightarrow> no_failure h
        | Some s \<Rightarrow>
            let len = (le_word (read_slice h s) :: u64) in
            if len > of_nat (sl_Len (av_data v)) \<or> len > of_nat MaxPermittedDataLength \<or>
              len > of_nat (av_originalLen v + MaxPermittedDataIncrease)
            then fails h ProgramErrorInvalidRealloc
            else
              let (h, resized) = (if av_memory v \<noteq> None \<and> len \<noteq> of_nat (av_dataLen v)
                    then ResizeRegion h (av_memory v) (av_dataAddress v) len else no_failure h) in
              case resized of Inl _ \<Rightarrow> fails h ProgramErrorInvalidRealloc
              | Inr _ \<Rightarrow> no_failure (put_view h p (v\<lparr>av_dataLen := unat len\<rparr>)))"

definition View_Data :: "heap \<Rightarrow> nat option \<Rightarrow> bytes" where
  "View_Data h a = (case a of None \<Rightarrow> [] | Some p \<Rightarrow> view_bytes h (Views h ! p))"

definition Snapshot :: "heap \<Rightarrow> nat option \<Rightarrow> heap \<times> (rt_error + Account)" where
  "Snapshot h a =
     then_h (Sync h a) (\<lambda>h _.
       case a of None \<Rightarrow> (h, Inl ErrInvalidABI)
       | Some p \<Rightarrow>
         let v = Views h ! p in
         (h, Inr \<lparr>ac_Key = av_key v, ac_Owner = av_owner v, ac_Lamports = av_lamports v, ac_Data = view_bytes h v,
            ac_IsSigner = av_isSigner v, ac_IsWritable = av_isWritable v, ac_Executable = av_executable v\<rparr>))"

definition RequireSigner :: "heap \<Rightarrow> nat option \<Rightarrow> heap \<times> (rt_error + unit)" where
  "RequireSigner h a =
     (if a = None \<or> \<not> View_IsSigner h a then fails h ProgramErrorMissingRequiredSignature else no_failure h)"

definition RequireWritable :: "heap \<Rightarrow> nat option \<Rightarrow> heap \<times> (rt_error + unit)" where
  "RequireWritable h a =
     (if a = None \<or> \<not> View_IsWritable h a \<or> View_Executable h a then fails h ProgramErrorInvalidArgument
      else no_failure h)"

definition RequireOwner :: "heap \<Rightarrow> nat option \<Rightarrow> pubkey \<Rightarrow> heap \<times> (rt_error + unit)" where
  "RequireOwner h a owner =
     (if a = None then fails h ProgramErrorIncorrectProgramID
      else let (h, o') = View_Owner h a in
        if o' \<noteq> owner then fails h ProgramErrorIncorrectProgramID else no_failure h)"

definition WritableData :: "heap \<Rightarrow> nat option \<Rightarrow> pubkey \<Rightarrow> heap \<times> (rt_error + slice)" where
  "WritableData h a programID =
     then_h (RequireWritable h a) (\<lambda>h _.
     then_h (RequireOwner h a programID) (\<lambda>h _.
       case a of None \<Rightarrow> (h, Inl ErrInvalidABI)
       | Some p \<Rightarrow> let v = Views h ! p in (h, Inr (reslice (av_data v) 0 (av_dataLen v)))))"

text \<open>Writing a field back: into the view and into its storage.\<close>

definition write_field :: "heap \<Rightarrow> slice option \<Rightarrow> bytes \<Rightarrow> heap" where
  "write_field h s bs = (case s of Some s \<Rightarrow> write_slice h s bs | None \<Rightarrow> h)"

definition setLamports :: "heap \<Rightarrow> nat \<Rightarrow> u64 \<Rightarrow> heap" where
  "setLamports h p amount =
     (let v = (Views h ! p)\<lparr>av_lamports := amount\<rparr> in
      write_field (put_view h p v) (lamports_storage v) (le_bytes 8 amount))"

definition setOwner :: "heap \<Rightarrow> nat \<Rightarrow> pubkey \<Rightarrow> heap" where
  "setOwner h p owner =
     (let v = (Views h ! p)\<lparr>av_owner := owner\<rparr> in write_field (put_view h p v) (owner_storage v) owner)"

definition ResizeData :: "heap \<Rightarrow> nat option \<Rightarrow> pubkey \<Rightarrow> int \<Rightarrow> heap \<times> (rt_error + unit)" where
  "ResizeData h a programID newLength =
     then_h (Sync h a) (\<lambda>h _.
     then_h (RequireWritable h a) (\<lambda>h _.
     then_h (RequireOwner h a programID) (\<lambda>h _.
       case a of None \<Rightarrow> (h, Inl ErrInvalidABI)
       | Some p \<Rightarrow>
         let v = Views h ! p in
         if newLength < 0 \<or> newLength > int MaxPermittedDataLength \<or>
           newLength > int (av_originalLen v + MaxPermittedDataIncrease) \<or> newLength > int (sl_Len (av_data v))
         then fails h ProgramErrorInvalidRealloc
         else
           let new = nat newLength; old = av_dataLen v;
               (h, resized) = (if av_memory v \<noteq> None
                 then ResizeRegion h (av_memory v) (av_dataAddress v) (of_nat new) else no_failure h) in
           case resized of Inl _ \<Rightarrow> fails h ProgramErrorInvalidRealloc
           | Inr _ \<Rightarrow>
               let h = (if new \<noteq> old
                     then clear_slice h (if new > old then reslice (av_data v) old new else reslice (av_data v) new old)
                     else h);
                   h = put_view h p (v\<lparr>av_dataLen := new\<rparr>)
               in no_failure (write_field h (dataLen_storage v) (le_bytes 8 (of_nat new :: u64))))))"

end
