(* ===== verification/RtContext.thy ===== *)
theory RtContext
  imports RtAccount
begin

text \<open>
  \<open>src/runtime/account.go\<close>, second part: the context of an invocation, the operations a program performs
  through it and the check of what a program has changed.

  Duplicate slots hold the same pointer.  The sets of pointers the source keeps while it walks the slots are lists here.
  The context is a value: nothing in this file changes it after it is built, and the operations that do return the new one.
\<close>

section \<open>The context\<close>

record AccountRegion =
  rg_VMAddress :: u64
  rg_KeyAddress :: u64
  rg_OwnerAddress :: u64
  rg_LamportsAddress :: u64
  rg_DataAddress :: u64
  rg_OriginalDataLen :: nat
  rg_DuplicateOf :: int
  rg_RecordByteOffset :: int

datatype InputMemoryRegionKind = InputRegionMetadata | InputRegionAccountData

record mappedRegionSource =
  ms_VMStart :: u64
  ms_data :: slice
  ms_account :: "nat option"
  ms_writable :: bool
  ms_reservedLength :: u64
  ms_growable :: bool
  ms_kind :: InputMemoryRegionKind
  ms_accountIndex :: int

record Context =
  cx_ProgramID :: pubkey
  cx_Accounts :: "nat option list"
  cx_InstructionData :: bytes
  cx_programID :: pubkey
  cx_accountSlots :: "nat option list"
  cx_regions :: "AccountRegion list"
  cx_raw :: slice
  cx_mappedSources :: "mappedRegionSource list"
  cx_memory :: "nat option"

fun newAccountViews :: "heap \<Rightarrow> Account list \<Rightarrow> heap \<times> nat list" where
  "newAccountViews h [] = (h, [])"
| "newAccountViews h (a # as) =
     (let (h, p) = newAccountView h a; (h, ps) = newAccountViews h as in (h, p # ps))"

definition NewContext :: "heap \<Rightarrow> pubkey \<Rightarrow> Account list \<Rightarrow> bytes \<Rightarrow> heap \<times> Context" where
  "NewContext h programID accounts instructionData =
     (let (h, views) = newAccountViews h accounts in
      (h, \<lparr>cx_ProgramID = programID, cx_Accounts = map Some views, cx_InstructionData = instructionData,
           cx_programID = programID, cx_accountSlots = map Some views, cx_regions = [], cx_raw = nil_slice,
           cx_mappedSources = [], cx_memory = None\<rparr>))"

definition ProgramAddress :: "Context option \<Rightarrow> pubkey" where
  "ProgramAddress c = (case c of None \<Rightarrow> zero_pubkey | Some c \<Rightarrow> cx_programID c)"

definition AccountCount :: "Context option \<Rightarrow> nat" where
  "AccountCount c = (case c of None \<Rightarrow> 0 | Some c \<Rightarrow> length (cx_accountSlots c))"

definition AccountAt :: "Context option \<Rightarrow> int \<Rightarrow> rt_error + nat" where
  "AccountAt c index =
     (case c of None \<Rightarrow> Inl (ProgramFailure (BuiltinProgramError ProgramErrorNotEnoughAccountKeys))
      | Some c \<Rightarrow>
        if index < 0 \<or> index \<ge> int (length (cx_accountSlots c))
        then Inl (ProgramFailure (BuiltinProgramError ProgramErrorNotEnoughAccountKeys))
        else case cx_accountSlots c ! nat index of
          None \<Rightarrow> Inl (ProgramFailure (BuiltinProgramError ProgramErrorNotEnoughAccountKeys))
        | Some p \<Rightarrow> Inr p)"

record AccountRequirement =
  rq_Signer :: bool
  rq_Writable :: bool
  rq_Owner :: "pubkey option"
  rq_MinDataLen :: int

definition RequireAccount ::
  "heap \<Rightarrow> Context option \<Rightarrow> int \<Rightarrow> AccountRequirement \<Rightarrow> heap \<times> (rt_error + nat)" where
  "RequireAccount h c index requirement =
     then_h (h, AccountAt c index) (\<lambda>h p.
     then_h (Sync h (Some p)) (\<lambda>h _.
     then_h (if rq_Signer requirement then RequireSigner h (Some p) else no_failure h) (\<lambda>h _.
     then_h (if rq_Writable requirement then RequireWritable h (Some p) else no_failure h) (\<lambda>h _.
     then_h (case rq_Owner requirement of Some owner \<Rightarrow> RequireOwner h (Some p) owner | None \<Rightarrow> no_failure h) (\<lambda>h _.
       if rq_MinDataLen requirement < 0 then (h, Inl ErrNegativeMinimum)
       else if int (av_dataLen (Views h ! p)) < rq_MinDataLen requirement then fails h ProgramErrorAccountDataTooSmall
       else (h, Inr p))))))"

definition writable_only :: AccountRequirement where
  "writable_only = \<lparr>rq_Signer = False, rq_Writable = True, rq_Owner = None, rq_MinDataLen = 0\<rparr>"

definition TransferLamports :: "heap \<Rightarrow> Context \<Rightarrow> int \<Rightarrow> int \<Rightarrow> u64 \<Rightarrow> heap \<times> (rt_error + unit)" where
  "TransferLamports h c source destination amount =
     then_h (RequireAccount h (Some c) source writable_only) (\<lambda>h p.
     then_h (RequireAccount h (Some c) destination writable_only) (\<lambda>h q.
       let (h, owner) = View_Owner h (Some p) in
       if owner \<noteq> cx_programID c then fails h ProgramErrorIllegalOwner
       else
         let (h, have) = View_Lamports h (Some p) in
         if have < amount then fails h ProgramErrorInsufficientFunds
         else
           let (h, held) = View_Lamports h (Some q) in
           if held > - 1 - amount then fails h ProgramErrorArithmeticOverflow
           else
             let (h, have) = View_Lamports h (Some p);
                 h = setLamports h p (have - amount);
                 (h, held) = View_Lamports h (Some q)
             in no_failure (setLamports h q (held + amount))))"

definition AssignOwner :: "heap \<Rightarrow> Context \<Rightarrow> int \<Rightarrow> pubkey \<Rightarrow> heap \<times> (rt_error + unit)" where
  "AssignOwner h c index owner =
     then_h (RequireAccount h (Some c) index
       \<lparr>rq_Signer = False, rq_Writable = True, rq_Owner = Some (cx_programID c), rq_MinDataLen = 0\<rparr>) (\<lambda>h p.
       if \<exists>b \<in> set (view_bytes h (Views h ! p)). b \<noteq> 0 then fails h ProgramErrorInvalidAccountData
       else no_failure (setOwner h p owner))"

definition RawInput :: "heap \<Rightarrow> Context option \<Rightarrow> bytes" where
  "RawInput h c = (case c of None \<Rightarrow> [] | Some c \<Rightarrow> read_slice h (cx_raw c))"

definition AccountRegions :: "Context option \<Rightarrow> AccountRegion list" where
  "AccountRegions c = (case c of None \<Rightarrow> [] | Some c \<Rightarrow> cx_regions c)"

section \<open>Mapped accounts\<close>

fun attach_slots ::
  "heap \<Rightarrow> nat \<Rightarrow> AccountRegion list \<Rightarrow> nat list \<Rightarrow> nat \<Rightarrow> nat option list \<Rightarrow> heap" where
  "attach_slots h memory regions seen index [] = h"
| "attach_slots h memory regions seen index (None # slots) = attach_slots h memory regions seen (Suc index) slots"
| "attach_slots h memory regions seen index (Some p # slots) =
     (if index \<ge> length regions \<or> p \<in> set seen then attach_slots h memory regions seen (Suc index) slots
      else
        let v = Views h ! p; address = rg_DataAddress (regions ! index);
            h = (case growableStorage h (Some memory) address (of_nat (av_dataLen v)) of
                   Some _ \<Rightarrow> put_view h p (v\<lparr>av_memory := Some memory, av_dataAddress := address\<rparr>)
                 | None \<Rightarrow> h)
        in attach_slots h memory regions (p # seen) (Suc index) slots)"

definition attachMappedAccounts :: "heap \<Rightarrow> Context option \<Rightarrow> nat option \<Rightarrow> heap" where
  "attachMappedAccounts h c memory =
     (case (c, memory) of
        (Some c, Some m) \<Rightarrow> attach_slots h m (cx_regions c) [] 0 (cx_accountSlots c)
      | _ \<Rightarrow> h)"

section \<open>What a program has changed\<close>

fun sync_slots :: "heap \<Rightarrow> nat list \<Rightarrow> nat option list \<Rightarrow> heap \<times> (rt_error + unit)" where
  "sync_slots h seen [] = no_failure h"
| "sync_slots h seen (None # slots) = (h, Inl ErrInvalidABI)"
| "sync_slots h seen (Some p # slots) =
     (if p \<in> set seen then sync_slots h seen slots
      else then_h (Sync h (Some p)) (\<lambda>h _. sync_slots h (p # seen) slots))"

definition SyncAccounts :: "heap \<Rightarrow> Context option \<Rightarrow> heap \<times> (rt_error + unit)" where
  "SyncAccounts h c =
     (case c of None \<Rightarrow> (h, Inl ErrInvalidABI) | Some c \<Rightarrow> sync_slots h [] (cx_accountSlots c))"

text \<open>\<open>bits.Add64\<close>\<close>

definition Add64 :: "u64 \<Rightarrow> u64 \<Rightarrow> u64 \<Rightarrow> u64 \<times> u64" where
  "Add64 x y carry = (x + y + carry, if unat x + unat y + unat carry < 2 ^ 64 then 0 else 1)"

record lamport_sums =
  baselineLow :: u64
  baselineHigh :: u64
  currentLow :: u64
  currentHigh :: u64

definition add_lamports :: "lamport_sums \<Rightarrow> AccountView \<Rightarrow> lamport_sums" where
  "add_lamports s v =
     (let (low, carry) = Add64 (baselineLow s) (av_baselineLamports v) 0;
          (high, _) = Add64 (baselineHigh s) 0 carry;
          (low', carry) = Add64 (currentLow s) (av_lamports v) 0;
          (high', _) = Add64 (currentHigh s) 0 carry
      in \<lparr>baselineLow = low, baselineHigh = high, currentLow = low', currentHigh = high'\<rparr>)"

definition change_error :: "heap \<Rightarrow> pubkey \<Rightarrow> AccountView \<Rightarrow> rt_error option" where
  "change_error h programID v =
     (let currentHash = Sum256 (view_bytes h v);
          ownerChanged = (av_owner v \<noteq> av_baselineOwner v);
          dataChanged = (av_dataLen v \<noteq> av_baselineDataLen v \<or> currentHash \<noteq> av_baselineDataHash v);
          lamportsChanged = (av_lamports v \<noteq> av_baselineLamports v)
      in
        if (\<not> av_isWritable v \<or> av_executable v) \<and> (ownerChanged \<or> dataChanged \<or> lamportsChanged)
          then Some ErrReadonlyAccountModified
        else if av_baselineOwner v \<noteq> programID then
          (if ownerChanged \<or> dataChanged then Some ErrExternalAccountDataModified
           else if av_lamports v < av_baselineLamports v then Some ErrExternalLamportSpend
           else None)
        else if ownerChanged \<and> (\<exists>b \<in> set (view_bytes h v). b \<noteq> 0)
          then Some (ProgramFailure (BuiltinProgramError ProgramErrorInvalidAccountData))
        else None)"

fun validate_slots ::
  "heap \<Rightarrow> pubkey \<Rightarrow> nat list \<Rightarrow> lamport_sums \<Rightarrow> nat option list \<Rightarrow> rt_error + lamport_sums" where
  "validate_slots h programID seen sums [] = Inr sums"
| "validate_slots h programID seen sums (None # slots) = validate_slots h programID seen sums slots"
| "validate_slots h programID seen sums (Some p # slots) =
     (if p \<in> set seen then validate_slots h programID seen sums slots
      else case change_error h programID (Views h ! p) of
        Some e \<Rightarrow> Inl e
      | None \<Rightarrow> validate_slots h programID (p # seen) (add_lamports sums (Views h ! p)) slots)"

definition no_lamports :: lamport_sums where
  "no_lamports = \<lparr>baselineLow = 0, baselineHigh = 0, currentLow = 0, currentHigh = 0\<rparr>"

definition ValidateProgramChanges :: "heap \<Rightarrow> Context \<Rightarrow> heap \<times> (rt_error + unit)" where
  "ValidateProgramChanges h c =
     then_h (SyncAccounts h (Some c)) (\<lambda>h _.
       case validate_slots h (cx_programID c) [] no_lamports (cx_accountSlots c) of
         Inl e \<Rightarrow> (h, Inl e)
       | Inr s \<Rightarrow>
           if baselineLow s \<noteq> currentLow s \<or> baselineHigh s \<noteq> currentHigh s then (h, Inl ErrUnbalancedLamports)
           else no_failure h)"

fun accept_slots :: "heap \<Rightarrow> nat list \<Rightarrow> nat option list \<Rightarrow> heap" where
  "accept_slots h seen [] = h"
| "accept_slots h seen (None # slots) = accept_slots h seen slots"
| "accept_slots h seen (Some p # slots) =
     (if p \<in> set seen then accept_slots h seen slots else accept_slots (acceptBaseline h (Some p)) (p # seen) slots)"

definition acceptAccountBaselines :: "heap \<Rightarrow> Context \<Rightarrow> heap \<times> (rt_error + unit)" where
  "acceptAccountBaselines h c =
     then_h (SyncAccounts h (Some c)) (\<lambda>h _. no_failure (accept_slots h [] (cx_accountSlots c)))"

section \<open>Snapshots\<close>

record accountSnapshot =
  sn_account :: nat
  sn_owner :: pubkey
  sn_lamports :: u64
  sn_data :: bytes
  sn_dataLen :: nat

fun snapshot_slots :: "heap \<Rightarrow> nat list \<Rightarrow> nat option list \<Rightarrow> accountSnapshot list" where
  "snapshot_slots h seen [] = []"
| "snapshot_slots h seen (None # slots) = snapshot_slots h seen slots"
| "snapshot_slots h seen (Some p # slots) =
     (if p \<in> set seen then snapshot_slots h seen slots
      else
        let v = Views h ! p in
        \<lparr>sn_account = p, sn_owner = av_owner v, sn_lamports = av_lamports v, sn_data = read_slice h (av_data v),
         sn_dataLen = av_dataLen v\<rparr> # snapshot_slots h (p # seen) slots)"

definition snapshotAccounts :: "heap \<Rightarrow> nat option list \<Rightarrow> accountSnapshot list" where
  "snapshotAccounts h slots = snapshot_slots h [] slots"

definition putAccountDataLength :: "heap \<Rightarrow> nat \<Rightarrow> nat \<Rightarrow> heap" where
  "putAccountDataLength h p len = write_field h (dataLen_storage (Views h ! p)) (le_bytes 8 (of_nat len :: u64))"

definition restore_snapshot :: "accountSnapshot \<Rightarrow> heap \<Rightarrow> heap" where
  "restore_snapshot s h =
     (let p = sn_account s;
          h = setOwner h p (sn_owner s);
          h = setLamports h p (sn_lamports s);
          h = copy_to h (av_data (Views h ! p)) (sn_data s);
          h = put_view h p ((Views h ! p)\<lparr>av_dataLen := sn_dataLen s\<rparr>);
          v = Views h ! p;
          h = (if av_memory v \<noteq> None
               then copy_to (fst (ResizeRegion h (av_memory v) (av_dataAddress v) (of_nat (sn_dataLen s)))) (av_data v) (sn_data s)
               else h)
      in putAccountDataLength h p (sn_dataLen s))"

definition restoreAccountSnapshots :: "heap \<Rightarrow> accountSnapshot list \<Rightarrow> heap" where
  "restoreAccountSnapshots h snapshots = fold restore_snapshot snapshots h"

end
