(* ===== verification/RtLayout.thy ===== *)
theory RtLayout
  imports RtContext
begin

text \<open>
  \<open>src/runtime/c_layout.go\<close>: the C and Rust structures a program hands to the invoke system calls, and their
  translation from guest memory.
\<close>

abbreviation (input) CInstructionSize :: nat where "CInstructionSize \<equiv> 40"
abbreviation (input) CAccountMetaSize :: nat where "CAccountMetaSize \<equiv> 16"
abbreviation (input) CAccountInfoSize :: nat where "CAccountInfoSize \<equiv> 56"
abbreviation (input) CSignerSeedSize :: nat where "CSignerSeedSize \<equiv> 16"
abbreviation (input) CSignerSeedsSize :: nat where "CSignerSeedsSize \<equiv> 16"
abbreviation (input) RustInstructionSize :: nat where "RustInstructionSize \<equiv> 80"
abbreviation (input) RustAccountMetaSize :: nat where "RustAccountMetaSize \<equiv> 34"
abbreviation (input) MaxCPISigners :: nat where "MaxCPISigners \<equiv> 16"
abbreviation (input) MaxCPIAccountInfos :: nat where "MaxCPIAccountInfos \<equiv> 255"
abbreviation (input) MaxAccountsPerInstruction :: nat where "MaxAccountsPerInstruction \<equiv> 255"
abbreviation (input) MaxInstructionDataLen :: nat where "MaxInstructionDataLen \<equiv> 10240"

record CInstruction =
  ci_ProgramIDAddress :: u64
  ci_AccountsAddress :: u64
  ci_AccountsLength :: u64
  ci_DataAddress :: u64
  ci_DataLength :: u64

record CAccountMeta =
  cm_PubkeyAddress :: u64
  cm_IsWritable :: u8
  cm_IsSigner :: u8
  cm_Padding :: bytes

record CAccountInfo =
  ca_KeyAddress :: u64
  ca_LamportsAddress :: u64
  ca_DataLength :: u64
  ca_DataAddress :: u64
  ca_OwnerAddress :: u64
  ca_RentEpoch :: u64
  ca_IsSigner :: u8
  ca_IsWritable :: u8
  ca_Executable :: u8
  ca_Padding :: bytes

record RustStableVec =
  rv_Address :: u64
  rv_Capacity :: u64
  rv_Length :: u64

record RustStableInstruction =
  ri_Accounts :: RustStableVec
  ri_Data :: RustStableVec
  ri_ProgramID :: pubkey

record CAccountInfoView =
  ci_info :: CAccountInfo
  ci_Key :: pubkey
  ci_Owner :: pubkey
  ci_Lamports :: u64
  ci_Data :: slice
  ci_IsSigner :: bool
  ci_IsWritable :: bool
  ci_Executable :: bool

section \<open>Emission\<close>

definition appendLayoutU64 :: "bytes \<Rightarrow> u64 \<Rightarrow> bytes" where
  "appendLayoutU64 dst value = put_slice (length dst) (le_bytes 8 value) (dst @ replicate 8 0)"

definition AppendCInstruction :: "bytes \<Rightarrow> CInstruction \<Rightarrow> bytes" where
  "AppendCInstruction dst value =
     fold (\<lambda>w dst. appendLayoutU64 dst w)
       [ci_ProgramIDAddress value, ci_AccountsAddress value, ci_AccountsLength value, ci_DataAddress value, ci_DataLength value]
       dst"

definition AppendCAccountMeta :: "bytes \<Rightarrow> CAccountMeta \<Rightarrow> bytes" where
  "AppendCAccountMeta dst value =
     appendLayoutU64 dst (cm_PubkeyAddress value) @ [cm_IsWritable value, cm_IsSigner value] @ cm_Padding value"

definition AppendCAccountInfo :: "bytes \<Rightarrow> CAccountInfo \<Rightarrow> bytes" where
  "AppendCAccountInfo dst value =
     fold (\<lambda>w dst. appendLayoutU64 dst w)
       [ca_KeyAddress value, ca_LamportsAddress value, ca_DataLength value, ca_DataAddress value, ca_OwnerAddress value,
        ca_RentEpoch value] dst @
     [ca_IsSigner value, ca_IsWritable value, ca_Executable value] @ ca_Padding value"

definition AppendCSignerSeed :: "bytes \<Rightarrow> u64 \<Rightarrow> u64 \<Rightarrow> bytes" where
  "AppendCSignerSeed dst address len = appendLayoutU64 (appendLayoutU64 dst address) len"

definition appendRustStableVec :: "bytes \<Rightarrow> RustStableVec \<Rightarrow> bytes" where
  "appendRustStableVec dst value =
     appendLayoutU64 (appendLayoutU64 (appendLayoutU64 dst (rv_Address value)) (rv_Capacity value)) (rv_Length value)"

definition AppendRustStableInstruction :: "bytes \<Rightarrow> RustStableInstruction \<Rightarrow> bytes" where
  "AppendRustStableInstruction dst value =
     appendRustStableVec (appendRustStableVec dst (ri_Accounts value)) (ri_Data value) @ ri_ProgramID value"

section \<open>Translation\<close>

definition u64_at :: "nat \<Rightarrow> bytes \<Rightarrow> u64" where
  "u64_at off bs = le_word (get_slice off 8 bs)"

definition translateArray ::
  "heap \<Rightarrow> nat option \<Rightarrow> u64 \<Rightarrow> u64 \<Rightarrow> nat \<Rightarrow> u64 \<Rightarrow> rt_error + slice" where
  "translateArray h m address count elementSize alignment =
     (if count > - 1 div of_nat elementSize then Inl ErrInvalidLength
      else if count = 0 then Inr nil_slice
      else Translate h m address (count * of_nat elementSize) AccessRead alignment)"

definition translateBytes :: "heap \<Rightarrow> nat option \<Rightarrow> u64 \<Rightarrow> u64 \<Rightarrow> AccessType \<Rightarrow> rt_error + slice" where
  "translateBytes h m address len access =
     (if len = 0 then Inr nil_slice else Translate h m address len access 1)"

definition read_at :: "heap \<Rightarrow> nat option \<Rightarrow> u64 \<Rightarrow> u64 \<Rightarrow> u64 \<Rightarrow> rt_error + bytes" where
  "read_at h m address len alignment =
     and_then (Translate h m address len AccessRead alignment) (\<lambda>s. Inr (read_slice h s))"

text \<open>Apply a fallible function to each element, with its index, up to the first error.\<close>

fun each :: "(nat \<Rightarrow> 'e + 'a) \<Rightarrow> nat list \<Rightarrow> 'e + 'a list" where
  "each f [] = Inr []"
| "each f (i # rest) = and_then (f i) (\<lambda>x. and_then (each f rest) (\<lambda>xs. Inr (x # xs)))"

definition decodeCInstruction :: "bytes \<Rightarrow> CInstruction" where
  "decodeCInstruction header =
     \<lparr>ci_ProgramIDAddress = u64_at 0 header, ci_AccountsAddress = u64_at 8 header, ci_AccountsLength = u64_at 16 header,
      ci_DataAddress = u64_at 24 header, ci_DataLength = u64_at 32 header\<rparr>"

definition meta_at :: "heap \<Rightarrow> nat option \<Rightarrow> bytes \<Rightarrow> nat \<Rightarrow> rt_error + AccountMeta" where
  "meta_at h m metaBytes index =
     (let offset = index * CAccountMetaSize; writable = metaBytes ! (offset + 8); signer = metaBytes ! (offset + 9) in
      if writable > 1 \<or> signer > 1 then Inl ErrInvalidABI
      else and_then (read_at h m (u64_at offset metaBytes) 32 1) (\<lambda>key.
        Inr \<lparr>Pubkey = key, IsSigner = (signer = 1), IsWritable = (writable = 1)\<rparr>))"

definition TranslateCInstruction :: "heap \<Rightarrow> nat option \<Rightarrow> u64 \<Rightarrow> rt_error + Instruction" where
  "TranslateCInstruction h m address =
     and_then (read_at h m address (of_nat CInstructionSize) 8) (\<lambda>header.
       let parsed = decodeCInstruction header in
       if ci_AccountsLength parsed > of_nat MaxAccountsPerInstruction then Inl ErrTooManyAccounts
       else if ci_DataLength parsed > of_nat MaxInstructionDataLen then Inl ErrInstructionTooLarge
       else
         and_then (read_at h m (ci_ProgramIDAddress parsed) 32 1) (\<lambda>programID.
         and_then (translateArray h m (ci_AccountsAddress parsed) (ci_AccountsLength parsed) CAccountMetaSize 8) (\<lambda>metas.
         and_then (each (meta_at h m (read_slice h metas)) [0..<unat (ci_AccountsLength parsed)]) (\<lambda>accounts.
         and_then (translateBytes h m (ci_DataAddress parsed) (ci_DataLength parsed) AccessRead) (\<lambda>data.
           Inr \<lparr>ProgramID = programID, Accounts = accounts, Data = read_slice h data\<rparr>)))))"

definition decodeRustStableVec :: "bytes \<Rightarrow> RustStableVec" where
  "decodeRustStableVec data = \<lparr>rv_Address = u64_at 0 data, rv_Capacity = u64_at 8 data, rv_Length = u64_at 16 data\<rparr>"

definition rust_meta_at :: "bytes \<Rightarrow> nat \<Rightarrow> rt_error + AccountMeta" where
  "rust_meta_at metaBytes index =
     (let offset = index * RustAccountMetaSize; signer = metaBytes ! (offset + 32); writable = metaBytes ! (offset + 33) in
      if signer > 1 \<or> writable > 1 then Inl ErrInvalidABI
      else Inr \<lparr>Pubkey = get_slice offset 32 metaBytes, IsSigner = (signer = 1), IsWritable = (writable = 1)\<rparr>)"

definition TranslateRustInstruction :: "heap \<Rightarrow> nat option \<Rightarrow> u64 \<Rightarrow> rt_error + Instruction" where
  "TranslateRustInstruction h m address =
     and_then (read_at h m address (of_nat RustInstructionSize) 8) (\<lambda>header.
       let accountsVec = decodeRustStableVec (get_slice 0 24 header);
           dataVec = decodeRustStableVec (get_slice 24 24 header)
       in
         if rv_Length accountsVec > rv_Capacity accountsVec \<or> rv_Length dataVec > rv_Capacity dataVec
           then Inl ErrInvalidABI
         else if rv_Length accountsVec > of_nat MaxAccountsPerInstruction then Inl ErrTooManyAccounts
         else if rv_Length dataVec > of_nat MaxInstructionDataLen then Inl ErrInstructionTooLarge
         else
           and_then (translateArray h m (rv_Address accountsVec) (rv_Length accountsVec) RustAccountMetaSize 1) (\<lambda>metas.
           and_then (each (rust_meta_at (read_slice h metas)) [0..<unat (rv_Length accountsVec)]) (\<lambda>accounts.
           and_then (translateBytes h m (rv_Address dataVec) (rv_Length dataVec) AccessRead) (\<lambda>data.
             Inr \<lparr>ProgramID = get_slice 48 32 header, Accounts = accounts, Data = read_slice h data\<rparr>))))"

definition decodeCAccountInfo :: "bytes \<Rightarrow> CAccountInfo" where
  "decodeCAccountInfo bs =
     \<lparr>ca_KeyAddress = u64_at 0 bs, ca_LamportsAddress = u64_at 8 bs, ca_DataLength = u64_at 16 bs,
      ca_DataAddress = u64_at 24 bs, ca_OwnerAddress = u64_at 32 bs, ca_RentEpoch = u64_at 40 bs,
      ca_IsSigner = bs ! 48, ca_IsWritable = bs ! 49, ca_Executable = bs ! 50, ca_Padding = replicate 5 0\<rparr>"

definition info_at :: "heap \<Rightarrow> nat option \<Rightarrow> bytes \<Rightarrow> nat \<Rightarrow> rt_error + CAccountInfoView" where
  "info_at h m encoded index =
     (let info = decodeCAccountInfo (get_slice (index * CAccountInfoSize) CAccountInfoSize encoded) in
      if ca_IsSigner info > 1 \<or> ca_IsWritable info > 1 \<or> ca_Executable info > 1 then Inl ErrInvalidABI
      else
        and_then (read_at h m (ca_KeyAddress info) 32 1) (\<lambda>key.
        and_then (read_at h m (ca_OwnerAddress info) 32 1) (\<lambda>owner.
        and_then (read_at h m (ca_LamportsAddress info) 8 8) (\<lambda>lamports.
        and_then (translateBytes h m (ca_DataAddress info) (ca_DataLength info) AccessRead) (\<lambda>data.
          Inr \<lparr>ci_info = info, ci_Key = key, ci_Owner = owner, ci_Lamports = le_word lamports, ci_Data = data,
            ci_IsSigner = (ca_IsSigner info = 1), ci_IsWritable = (ca_IsWritable info = 1),
            ci_Executable = (ca_Executable info = 1)\<rparr>)))))"

definition TranslateCAccountInfos :: "heap \<Rightarrow> nat option \<Rightarrow> u64 \<Rightarrow> u64 \<Rightarrow> rt_error + CAccountInfoView list" where
  "TranslateCAccountInfos h m address len =
     (if len > of_nat MaxCPIAccountInfos then Inl ErrTooManyAccounts
      else
        and_then (translateArray h m address len CAccountInfoSize 8) (\<lambda>encoded.
          each (info_at h m (read_slice h encoded)) [0..<unat len]))"

definition seed_at :: "heap \<Rightarrow> nat option \<Rightarrow> bytes \<Rightarrow> nat \<Rightarrow> rt_error + bytes" where
  "seed_at h m headers seedIndex =
     (let offset = seedIndex * CSignerSeedSize; address = u64_at offset headers; len = u64_at (offset + 8) headers in
      if len > of_nat MaxSeedLength
      then Inl (Wrapped (ProgramFailure (BuiltinProgramError ProgramErrorMaxSeedLengthExceeded)))
      else read_at h m address len 1)"

definition signer_at :: "heap \<Rightarrow> nat option \<Rightarrow> bytes \<Rightarrow> nat \<Rightarrow> rt_error + bytes list" where
  "signer_at h m outer signerIndex =
     (let offset = signerIndex * CSignerSeedsSize; address = u64_at offset outer; len = u64_at (offset + 8) outer in
      if len > of_nat MaxSeeds
      then Inl (Wrapped (ProgramFailure (BuiltinProgramError ProgramErrorMaxSeedLengthExceeded)))
      else
        and_then (translateArray h m address len CSignerSeedSize 8) (\<lambda>headers.
          each (seed_at h m (read_slice h headers)) [0..<unat len]))"

definition TranslateCSignerSeeds :: "heap \<Rightarrow> nat option \<Rightarrow> u64 \<Rightarrow> u64 \<Rightarrow> rt_error + bytes list list" where
  "TranslateCSignerSeeds h m address len =
     (if len > of_nat MaxCPISigners then Inl ErrTooManyCPISigners
      else
        and_then (translateArray h m address len CSignerSeedsSize 8) (\<lambda>outer.
          each (signer_at h m (read_slice h outer)) [0..<unat len]))"

end
