(* ===== verification/RtCpi.thy ===== *)
theory RtCpi
  imports RtLayout
begin

text \<open>
  \<open>src/runtime/cpi.go\<close>: cross-program invocation.

  The executor of an inner instruction and the policy that allows a program are interfaces the embedding
  program provides: parameters here.  An executor may change the heap, also when it fails.  Where the source ranges over a map of
  requested keys, \<open>order\<close> is the order in which this execution visits them.
\<close>

record CPIRequest =
  rq_CallerProgramID :: pubkey
  rq_Instruction :: Instruction
  rq_Accounts :: "nat option list"
  rq_SignerPubkeys :: "pubkey list"

type_synonym CPIExecutor = "CPIRequest \<Rightarrow> heap \<Rightarrow> heap \<times> (rt_error + unit)"
type_synonym CPIProgramPolicy = "pubkey \<Rightarrow> bytes \<Rightarrow> rt_error + unit"

record CPIInvoker =
  iv_Executor :: "CPIExecutor option"
  iv_Policy :: "CPIProgramPolicy option"

record accountPrivileges =
  pr_signer :: bool
  pr_writable :: bool

definition no_privileges :: accountPrivileges where
  "no_privileges = \<lparr>pr_signer = False, pr_writable = False\<rparr>"

definition privileges_of :: "(pubkey \<Rightarrow> accountPrivileges option) \<Rightarrow> pubkey \<Rightarrow> accountPrivileges" where
  "privileges_of m key = (case m key of Some p \<Rightarrow> p | None \<Rightarrow> no_privileges)"

definition raise_privileges ::
  "(pubkey \<Rightarrow> accountPrivileges option) \<Rightarrow> pubkey \<Rightarrow> bool \<Rightarrow> bool \<Rightarrow> (pubkey \<Rightarrow> accountPrivileges option)" where
  "raise_privileges m key signer writable =
     m(key \<mapsto> \<lparr>pr_signer = (pr_signer (privileges_of m key) \<or> signer),
                pr_writable = (pr_writable (privileges_of m key) \<or> writable)\<rparr>)"

section \<open>Checks\<close>

definition signer_address :: "pubkey \<Rightarrow> bytes list \<Rightarrow> rt_error + pubkey" where
  "signer_address programID seeds =
     (case CreateProgramAddress seeds programID of
        Inr address \<Rightarrow> Inr address
      | Inl e \<Rightarrow>
          if e = ErrMaxSeedLength \<or> e = ErrTooManySeeds
          then Inl (Wrapped (ProgramFailure (BuiltinProgramError ProgramErrorMaxSeedLengthExceeded)))
          else Inl (Wrapped (ProgramFailure (BuiltinProgramError ProgramErrorInvalidSeeds))))"

record callers =
  cl_ByKey :: "pubkey \<Rightarrow> nat option"
  cl_Privileges :: "pubkey \<Rightarrow> accountPrivileges option"
  cl_programExecutable :: bool

fun collect_callers :: "heap \<Rightarrow> pubkey \<Rightarrow> callers \<Rightarrow> nat option list \<Rightarrow> rt_error + callers" where
  "collect_callers h program c [] = Inr c"
| "collect_callers h program c (None # slots) = collect_callers h program c slots"
| "collect_callers h program c (Some p # slots) =
     (let key = View_Key h (Some p) in
      if (case cl_ByKey c key of Some q \<Rightarrow> q \<noteq> p | None \<Rightarrow> False) then Inl ErrInvalidABI
      else collect_callers h program
        \<lparr>cl_ByKey = (cl_ByKey c)(key \<mapsto> p),
         cl_Privileges = raise_privileges (cl_Privileges c) key (View_IsSigner h (Some p)) (View_IsWritable h (Some p)),
         cl_programExecutable = (cl_programExecutable c \<or> (key = program \<and> View_Executable h (Some p)))\<rparr> slots)"

definition no_callers :: callers where
  "no_callers = \<lparr>cl_ByKey = (\<lambda>_. None), cl_Privileges = (\<lambda>_. None), cl_programExecutable = False\<rparr>"

fun collect_provided ::
  "heap \<Rightarrow> (pubkey \<Rightarrow> nat option) \<Rightarrow> pubkey set \<Rightarrow> nat option list \<Rightarrow> rt_error + pubkey set" where
  "collect_provided h callerByKey provided [] = Inr provided"
| "collect_provided h callerByKey provided (None # infos) = Inl ErrMissingCPIAccount"
| "collect_provided h callerByKey provided (Some p # infos) =
     (let key = View_Key h (Some p) in
      case callerByKey key of None \<Rightarrow> Inl ErrMissingCPIAccount
      | Some caller \<Rightarrow>
          if caller \<noteq> p then Inl ErrInvalidAccountPointer
          else collect_provided h callerByKey (insert key provided) infos)"

fun requested_privileges ::
  "(pubkey \<Rightarrow> accountPrivileges option) \<Rightarrow> AccountMeta list \<Rightarrow> (pubkey \<Rightarrow> accountPrivileges option)" where
  "requested_privileges m [] = m"
| "requested_privileges m (meta # metas) =
     requested_privileges (raise_privileges m (Pubkey meta) (IsSigner meta) (IsWritable meta)) metas"

definition containsPubkey :: "pubkey list \<Rightarrow> pubkey \<Rightarrow> bool" where
  "containsPubkey keys wanted \<longleftrightarrow> wanted \<in> set keys"

definition key_error ::
  "heap \<Rightarrow> callers \<Rightarrow> pubkey set \<Rightarrow> pubkey list \<Rightarrow> (pubkey \<Rightarrow> accountPrivileges option) \<Rightarrow> pubkey \<Rightarrow> rt_error option" where
  "key_error h c provided signers requested key =
     (case cl_ByKey c key of None \<Rightarrow> Some ErrMissingCPIAccount
      | Some caller \<Rightarrow>
        if key \<notin> provided \<and> \<not> View_Executable h (Some caller) then Some ErrMissingCPIAccount
        else
          let granted = privileges_of (cl_Privileges c) key; wanted = privileges_of requested key in
          if pr_writable wanted \<and> \<not> pr_writable granted then Some ErrPrivilegeEscalation
          else if pr_signer wanted \<and> \<not> (pr_signer granted \<or> containsPubkey signers key) then Some ErrPrivilegeEscalation
          else None)"

fun check_keys :: "(pubkey \<Rightarrow> rt_error option) \<Rightarrow> pubkey list \<Rightarrow> rt_error + unit" where
  "check_keys f [] = Inr ()"
| "check_keys f (key # keys) = (case f key of Some e \<Rightarrow> Inl e | None \<Rightarrow> check_keys f keys)"

definition meta_keys :: "Instruction \<Rightarrow> pubkey list" where
  "meta_keys instruction = remdups (map Pubkey (Accounts instruction))"

definition Clone :: "Instruction \<Rightarrow> Instruction" where
  "Clone i = \<lparr>ProgramID = ProgramID i, Accounts = Accounts i, Data = Data i\<rparr>"

section \<open>Invoke\<close>

text \<open>The checks between the synchronisation of the accounts and the call of the executor.\<close>

definition cpi_request ::
  "heap \<Rightarrow> (pubkey list \<Rightarrow> pubkey list) \<Rightarrow> CPIInvoker option \<Rightarrow> Context \<Rightarrow> Instruction \<Rightarrow> nat option list \<Rightarrow>
    bytes list list \<Rightarrow> rt_error + CPIExecutor \<times> CPIRequest" where
  "cpi_request h order invoker c instruction accountInfos signerSeeds =
     (if length (Accounts instruction) > MaxAccountsPerInstruction then Inl ErrTooManyAccounts
      else if length (Data instruction) > MaxInstructionDataLen then Inl ErrInstructionTooLarge
      else if length accountInfos > MaxCPIAccountInfos then Inl ErrTooManyAccounts
      else if length signerSeeds > MaxCPISigners then Inl ErrTooManyCPISigners
      else
        case invoker of None \<Rightarrow> Inl ErrCPIExecutorUnavailable
        | Some invoker \<Rightarrow>
          case iv_Executor invoker of None \<Rightarrow> Inl ErrCPIExecutorUnavailable
          | Some executor \<Rightarrow>
            case iv_Policy invoker of None \<Rightarrow> Inl ErrCPIPolicyUnavailable
            | Some policy \<Rightarrow>
              case policy (ProgramID instruction) (Data instruction) of Inl _ \<Rightarrow> Inl ErrCPIProgramNotAllowed
              | Inr _ \<Rightarrow>
                and_then (each (\<lambda>i. signer_address (cx_programID c) (signerSeeds ! i)) [0..<length signerSeeds]) (\<lambda>signers.
                and_then (collect_callers h (ProgramID instruction) no_callers (cx_accountSlots c)) (\<lambda>cs.
                  if \<not> cl_programExecutable cs then Inl ErrMissingCPIProgram
                  else
                    and_then (collect_provided h (cl_ByKey cs) {} accountInfos) (\<lambda>provided.
                    and_then (check_keys
                        (key_error h cs provided signers (requested_privileges (\<lambda>_. None) (Accounts instruction)))
                        (order (meta_keys instruction))) (\<lambda>_.
                      Inr (executor,
                        \<lparr>rq_CallerProgramID = cx_programID c, rq_Instruction = Clone instruction,
                         rq_Accounts = map (\<lambda>meta. cl_ByKey cs (Pubkey meta)) (Accounts instruction),
                         rq_SignerPubkeys = signers\<rparr>))))))"

definition deliver :: "heap \<Rightarrow> Context \<Rightarrow> CPIExecutor \<Rightarrow> CPIRequest \<Rightarrow> heap \<times> (rt_error + unit)" where
  "deliver h c executor request =
     (let snapshots = snapshotAccounts h (cx_accountSlots c);
          (h, result) = executor request h
      in
        case result of Inl e \<Rightarrow> (restoreAccountSnapshots h snapshots, Inl e)
        | Inr _ \<Rightarrow>
          let (h, accepted) = acceptAccountBaselines h c in
          case accepted of Inl e \<Rightarrow> (restoreAccountSnapshots h snapshots, Inl e)
          | Inr _ \<Rightarrow> no_failure h)"

definition Invoke ::
  "heap \<Rightarrow> (pubkey list \<Rightarrow> pubkey list) \<Rightarrow> CPIInvoker option \<Rightarrow> Context option \<Rightarrow> Instruction \<Rightarrow> nat option list \<Rightarrow>
    bytes list list \<Rightarrow> heap \<times> (rt_error + unit)" where
  "Invoke h order invoker c instruction accountInfos signerSeeds =
     (case c of None \<Rightarrow> (h, Inl ErrMissingCPIAccount)
      | Some c \<Rightarrow>
        then_h (SyncAccounts h (Some c)) (\<lambda>h _.
        then_h (ValidateProgramChanges h c) (\<lambda>h _.
        then_h (h, cpi_request h order invoker c instruction accountInfos signerSeeds) (\<lambda>h (executor, request).
          deliver h c executor request))))"

section \<open>InvokeSignedC\<close>

fun region_accounts ::
  "heap \<Rightarrow> AccountRegion list \<Rightarrow> nat \<Rightarrow> (pubkey \<Rightarrow> (AccountRegion \<times> nat) option) \<Rightarrow> nat option list \<Rightarrow>
    (pubkey \<Rightarrow> (AccountRegion \<times> nat) option)" where
  "region_accounts h regions index m [] = m"
| "region_accounts h regions index m (None # slots) = region_accounts h regions (Suc index) m slots"
| "region_accounts h regions index m (Some p # slots) =
     (let key = View_Key h (Some p) in
      if index \<ge> length regions \<or> m key \<noteq> None then region_accounts h regions (Suc index) m slots
      else region_accounts h regions (Suc index) (m(key \<mapsto> (regions ! index, p))) slots)"

definition matching_account ::
  "heap \<Rightarrow> (pubkey \<Rightarrow> (AccountRegion \<times> nat) option) \<Rightarrow> CAccountInfoView \<Rightarrow> rt_error + nat" where
  "matching_account h byKey info =
     (case byKey (ci_Key info) of None \<Rightarrow> Inl ErrMissingCPIAccount
      | Some (region, p) \<Rightarrow>
        let c = ci_info info; a = Some p in
        if ca_KeyAddress c \<noteq> rg_KeyAddress region \<or> ca_OwnerAddress c \<noteq> rg_OwnerAddress region \<or>
          ca_LamportsAddress c \<noteq> rg_LamportsAddress region \<or> ca_DataAddress c \<noteq> rg_DataAddress region
          then Inl ErrInvalidAccountPointer
        else if ca_DataLength c \<noteq> of_nat (View_DataLen h a) \<or> ci_IsSigner info \<noteq> View_IsSigner h a \<or>
          ci_IsWritable info \<noteq> View_IsWritable h a \<or> ci_Executable info \<noteq> View_Executable h a
          then Inl ErrInvalidABI
        else Inr p)"

definition info_length_address :: "u64 \<Rightarrow> nat \<Rightarrow> u64" where
  "info_length_address accountInfosAddress index = accountInfosAddress + of_nat index * of_nat CAccountInfoSize + 16"

fun write_lengths :: "heap \<Rightarrow> nat option \<Rightarrow> u64 \<Rightarrow> nat \<Rightarrow> nat list \<Rightarrow> heap \<times> (rt_error + unit)" where
  "write_lengths h m address index [] = no_failure h"
| "write_lengths h m address index (p # ps) =
     (case Translate h m (info_length_address address index) 8 AccessWrite 8 of
        Inl e \<Rightarrow> (h, Inl e)
      | Inr s \<Rightarrow>
          write_lengths (write_slice h s (le_bytes 8 (of_nat (View_DataLen h (Some p)) :: u64))) m address (Suc index) ps)"

definition InvokeSignedC ::
  "heap \<Rightarrow> (pubkey list \<Rightarrow> pubkey list) \<Rightarrow> CPIInvoker option \<Rightarrow> Context option \<Rightarrow> nat option \<Rightarrow> u64 \<Rightarrow> u64 \<Rightarrow> u64 \<Rightarrow>
    u64 \<Rightarrow> u64 \<Rightarrow> heap \<times> (rt_error + unit)" where
  "InvokeSignedC h order invoker c memory instructionAddress accountInfosAddress accountInfosLength signerSeedsAddress
     signerSeedsLength =
     (case c of None \<Rightarrow> (h, Inl ErrMissingCPIAccount)
      | Some cx \<Rightarrow>
        then_h (SyncAccounts h c) (\<lambda>h _.
          let infosEnd = accountInfosAddress + accountInfosLength * of_nat CAccountInfoSize in
          if accountInfosLength > of_nat MaxCPIAccountInfos then (h, Inl ErrTooManyAccounts)
          else if accountInfosLength > - 1 div of_nat CAccountInfoSize then (h, Inl ErrInvalidAccountPointer)
          else if infosEnd < accountInfosAddress \<or> infosEnd \<ge> MMInputStart then (h, Inl ErrInvalidAccountPointer)
          else
            then_h (h, each (\<lambda>i. Translate h memory (info_length_address accountInfosAddress i) 8 AccessWrite 8)
                [0..<unat accountInfosLength]) (\<lambda>h _.
            then_h (h, TranslateCInstruction h memory instructionAddress) (\<lambda>h instruction.
            then_h (h, TranslateCAccountInfos h memory accountInfosAddress accountInfosLength) (\<lambda>h infos.
            then_h (h, TranslateCSignerSeeds h memory signerSeedsAddress signerSeedsLength) (\<lambda>h seeds.
            then_h (h, each (\<lambda>i. matching_account h
                  (region_accounts h (cx_regions cx) 0 (\<lambda>_. None) (cx_accountSlots cx)) (infos ! i))
                [0..<length infos]) (\<lambda>h accounts.
            then_h (Invoke h order invoker c instruction (map Some accounts) seeds) (\<lambda>h _.
              write_lengths h memory accountInfosAddress 0 accounts))))))))"

section \<open>The memory map of a context\<close>

definition snapshot_region :: "heap \<Rightarrow> mappedRegionSource \<Rightarrow> RuntimeMemoryRegion" where
  "snapshot_region h source =
     \<lparr>mr_VMStart = ms_VMStart source,
      mr_Data = (case ms_account source of Some p \<Rightarrow> reslice (av_data (Views h ! p)) 0 (av_dataLen (Views h ! p))
                 | None \<Rightarrow> ms_data source),
      mr_Writable = ms_writable source, mr_ReservedLength = ms_reservedLength source, mr_Growable = ms_growable source\<rparr>"

definition Context_MemoryMap :: "heap \<Rightarrow> Context option \<Rightarrow> heap \<times> Context option \<times> (rt_error + nat)" where
  "Context_MemoryMap h c =
     (case c of None \<Rightarrow> (h, c, Inl ErrInvalidMemoryRegion)
      | Some cx \<Rightarrow>
        (case cx_memory cx of Some m \<Rightarrow> (h, c, Inr m)
         | None \<Rightarrow>
           if cx_mappedSources cx \<noteq> [] then
             (case NewMemoryMap h (map (snapshot_region h) (cx_mappedSources cx)) of
                Inl e \<Rightarrow> (h, c, Inl e)
              | Inr (h, m) \<Rightarrow>
                  let cx = cx\<lparr>cx_memory := Some m\<rparr> in (attachMappedAccounts h (Some cx) (Some m), Some cx, Inr m))
           else if sl_Len (cx_raw cx) = 0 then (h, c, Inl ErrInvalidMemoryRegion)
           else
             (case NewMemoryMap h [\<lparr>mr_VMStart = MMInputStart, mr_Data = cx_raw cx, mr_Writable = True,
                 mr_ReservedLength = 0, mr_Growable = False\<rparr>] of
                Inl e \<Rightarrow> (h, c, Inl e)
              | Inr (h, m) \<Rightarrow> (h, c, Inr m))))"

end
