(* ===== verification/RtAbi.thy ===== *)
theory RtAbi
  imports RtCpi
begin

text \<open>
  \<open>src/runtime/abi.go\<close>: the input of a program, serialised by the loader and parsed by the entrypoint.

  The parser keeps slices of the input for the owner, the balance and the data of every account and writes each
  account's original length into the input, so it works on the heap; \<open>off\<close> is the cursor's offset.
\<close>

abbreviation (input) NonDuplicateMarker :: u8 where "NonDuplicateMarker \<equiv> 0xff"
abbreviation (input) BPFAlignOfU128 :: nat where "BPFAlignOfU128 \<equiv> 8"
abbreviation (input) MaxInt :: nat where "MaxInt \<equiv> 0x7fffffffffffffff"

record SerializeOptions =
  so_DirectAccountPointers :: bool
  so_AccountDataDirectMapping :: bool

record SerializedInput =
  si_Buffer :: slice
  si_AccountRegions :: "AccountRegion list"
  si_InstructionDataOffset :: nat
  si_DirectAccountPointersOffset :: int
  si_InstructionDataAddress :: u64
  si_directMapping :: bool
  si_mappedSources :: "mappedRegionSource list"
  si_context :: "Context option"
  si_memory :: "nat option"

record InputMemoryRegion =
  ir_VMStart :: u64
  ir_Data :: slice
  ir_Writable :: bool
  ir_ReservedLength :: u64
  ir_Growable :: bool
  ir_Kind :: InputMemoryRegionKind
  ir_AccountIndex :: int

definition source_region :: "heap \<Rightarrow> mappedRegionSource \<Rightarrow> InputMemoryRegion" where
  "source_region h source =
     \<lparr>ir_VMStart = ms_VMStart source,
      ir_Data = (case ms_account source of Some p \<Rightarrow> reslice (av_data (Views h ! p)) 0 (av_dataLen (Views h ! p))
                 | None \<Rightarrow> ms_data source),
      ir_Writable = ms_writable source, ir_ReservedLength = ms_reservedLength source, ir_Growable = ms_growable source,
      ir_Kind = ms_kind source, ir_AccountIndex = ms_accountIndex source\<rparr>"

definition MemoryRegions :: "heap \<Rightarrow> SerializedInput option \<Rightarrow> InputMemoryRegion list" where
  "MemoryRegions h input = (case input of None \<Rightarrow> [] | Some i \<Rightarrow> map (source_region h) (si_mappedSources i))"

definition MappedContext :: "SerializedInput option \<Rightarrow> rt_error + Context" where
  "MappedContext input =
     (case input of None \<Rightarrow> Inl ErrInvalidABI
      | Some i \<Rightarrow>
        (case si_context i of
           Some c \<Rightarrow> if si_directMapping i then Inr c else Inl ErrInvalidABI
         | None \<Rightarrow> Inl ErrInvalidABI))"

section \<open>Serialisation\<close>

definition alignmentPadding :: "nat \<Rightarrow> nat" where
  "alignmentPadding offset = (BPFAlignOfU128 - offset mod BPFAlignOfU128) mod BPFAlignOfU128"

definition checkedAddInt :: "nat \<Rightarrow> nat \<Rightarrow> nat option" where
  "checkedAddInt one two = (if one + two > MaxInt then None else Some (one + two))"

definition checkedMulInt :: "nat \<Rightarrow> nat \<Rightarrow> nat option" where
  "checkedMulInt one two = (if one \<noteq> 0 \<and> two > MaxInt div one then None else Some (one * two))"

definition or_invalid :: "'a option \<Rightarrow> rt_error + 'a" where
  "or_invalid x = (case x of None \<Rightarrow> Inl ErrInvalidABI | Some y \<Rightarrow> Inr y)"

definition boolByte :: "bool \<Rightarrow> u8" where
  "boolByte v = (if v then 1 else 0)"

text \<open>\<open>appendU64\<close> is \<open>AppendCInstruction\<close>'s helper under another name.\<close>

definition appendU64 :: "bytes \<Rightarrow> u64 \<Rightarrow> bytes" where
  "appendU64 buffer v = put_slice (length buffer) (le_bytes 8 v) (buffer @ replicate 8 0)"

text \<open>What is wrong with a duplicate slot or with an account.\<close>

definition slot_error :: "nat \<Rightarrow> InputAccount \<Rightarrow> rt_error option" where
  "slot_error index input =
     (case in_DuplicateOf input of
        Some d \<Rightarrow> if in_Account input \<noteq> None \<or> unat d \<ge> index then Some ErrInvalidDuplicate else None
      | None \<Rightarrow>
        (case in_Account input of None \<Rightarrow> Some ErrInvalidABI
         | Some account \<Rightarrow> if length (ac_Data account) > MaxPermittedDataLength then Some ErrInvalidABI else None))"

fun slots_size :: "nat \<Rightarrow> nat \<Rightarrow> InputAccount list \<Rightarrow> rt_error + nat" where
  "slots_size index amount [] = Inr amount"
| "slots_size index amount (input # inputs) =
     (case slot_error index input of Some e \<Rightarrow> Inl e
      | None \<Rightarrow>
        (case in_Account input of
           None \<Rightarrow> slots_size (Suc index) (case checkedAddInt amount 8 of Some s \<Rightarrow> s | None \<Rightarrow> 0) inputs
         | Some account \<Rightarrow>
             let len = length (ac_Data account) in
             and_then (or_invalid (checkedAddInt 96 len)) (\<lambda>accountSize.
             and_then (or_invalid (checkedAddInt accountSize (MaxPermittedDataIncrease + alignmentPadding len))) (\<lambda>accountSize.
             and_then (or_invalid (checkedAddInt amount accountSize)) (\<lambda>amount. slots_size (Suc index) amount inputs)))))"

definition duplicate_slot :: "u8 \<Rightarrow> bytes \<times> AccountRegion list \<Rightarrow> bytes \<times> AccountRegion list" where
  "duplicate_slot d st =
     (let (buffer, regions) = st in
      (buffer @ [d] @ replicate 7 0,
       regions @ [(regions ! unat d)\<lparr>rg_DuplicateOf := int (unat d), rg_RecordByteOffset := int (length buffer)\<rparr>]))"

definition account_slot :: "Account \<Rightarrow> bytes \<times> AccountRegion list \<Rightarrow> bytes \<times> AccountRegion list" where
  "account_slot account st =
     (let (buffer, regions) = st; recordOffset = length buffer;
          address = (\<lambda>buffer :: bytes. MMInputStart + of_nat (length buffer) :: u64);
          record_address = MMInputStart + of_nat recordOffset;
          buffer = buffer @ [NonDuplicateMarker, boolByte (ac_IsSigner account), boolByte (ac_IsWritable account),
             boolByte (ac_Executable account)] @ [0, 0, 0, 0];
          key_address = address buffer;
          buffer = buffer @ ac_Key account;
          owner_address = address buffer;
          buffer = buffer @ ac_Owner account;
          lamports_address = address buffer;
          buffer = appendU64 buffer (ac_Lamports account);
          buffer = appendU64 buffer (of_nat (length (ac_Data account)));
          data_address = address buffer;
          buffer = buffer @ ac_Data account;
          buffer = buffer @ replicate (MaxPermittedDataIncrease + alignmentPadding (length (ac_Data account))) 0;
          buffer = appendU64 buffer (- 1)
      in (buffer, regions @ [\<lparr>rg_VMAddress = record_address, rg_KeyAddress = key_address, rg_OwnerAddress = owner_address,
            rg_LamportsAddress = lamports_address, rg_DataAddress = data_address,
            rg_OriginalDataLen = length (ac_Data account), rg_DuplicateOf = - 1,
            rg_RecordByteOffset = int recordOffset\<rparr>]))"

definition serialize_slot :: "InputAccount \<Rightarrow> bytes \<times> AccountRegion list \<Rightarrow> bytes \<times> AccountRegion list" where
  "serialize_slot input st =
     (case in_DuplicateOf input of Some d \<Rightarrow> duplicate_slot d st
      | None \<Rightarrow> (case in_Account input of Some account \<Rightarrow> account_slot account st | None \<Rightarrow> st))"

definition pointer_bytes :: "bool \<Rightarrow> nat \<Rightarrow> nat \<Rightarrow> rt_error + nat \<times> nat" where
  "pointer_bytes direct amount accounts =
     (if direct then
        (let padding = alignmentPadding amount in
         and_then (or_invalid (checkedMulInt accounts 8)) (\<lambda>bytes.
         and_then (or_invalid (checkedAddInt amount (padding + bytes))) (\<lambda>amount. Inr (amount, padding))))
      else Inr (amount, 0))"

definition serialize_contiguous ::
  "heap \<Rightarrow> pubkey \<Rightarrow> InputAccount list \<Rightarrow> bytes \<Rightarrow> bool \<Rightarrow> rt_error + heap \<times> SerializedInput" where
  "serialize_contiguous h programID accounts instructionData direct =
     (if length accounts > MaxAccountsPerInstruction then Inl ErrTooManyAccounts
      else if length instructionData > MaxInstructionDataLen then Inl ErrInstructionTooLarge
      else
        and_then (slots_size 0 8 accounts) (\<lambda>amount.
        and_then (or_invalid (checkedAddInt amount (8 + length instructionData + 32))) (\<lambda>amount.
        and_then (pointer_bytes direct amount (length accounts)) (\<lambda>(amount, pointerPadding).
          let (buffer, regions) = fold serialize_slot accounts (appendU64 [] (of_nat (length accounts)), []);
              buffer = appendU64 buffer (of_nat (length instructionData));
              instructionOffset = length buffer;
              buffer = buffer @ instructionData;
              buffer = buffer @ programID;
              padded = buffer @ replicate pointerPadding 0;
              pointersOffset = (if direct then int (length padded) else - 1);
              buffer = (if direct then fold (\<lambda>region buffer. appendU64 buffer (rg_VMAddress region)) regions padded
                        else buffer)
          in
            if length buffer \<noteq> amount then Inl ErrInvalidABI
            else
              let (h, s) = new_array h buffer in
              Inr (h, \<lparr>si_Buffer = s, si_AccountRegions = regions, si_InstructionDataOffset = instructionOffset,
                 si_DirectAccountPointersOffset = pointersOffset,
                 si_InstructionDataAddress = MMInputStart + of_nat instructionOffset, si_directMapping = False,
                 si_mappedSources = [], si_context = None, si_memory = None\<rparr>)))))"

section \<open>Parsing\<close>

record ParseOptions =
  po_DirectAccountPointers :: bool
  po_RejectNonCanonicalBools :: bool

definition take_at :: "slice \<Rightarrow> nat \<Rightarrow> nat \<Rightarrow> rt_error + nat \<times> slice" where
  "take_at input off n =
     (if off > sl_Len input \<or> n > sl_Len input - off then Inl ErrInvalidABI
      else Inr (off + n, reslice input off (off + n)))"

definition u8_at :: "heap \<Rightarrow> slice \<Rightarrow> nat \<Rightarrow> rt_error + nat \<times> u8" where
  "u8_at h input off = and_then (take_at input off 1) (\<lambda>(off, s). Inr (off, read_slice h s ! 0))"

definition boolean_at :: "heap \<Rightarrow> slice \<Rightarrow> bool \<Rightarrow> nat \<Rightarrow> rt_error + nat \<times> bool" where
  "boolean_at h input strict off =
     and_then (u8_at h input off) (\<lambda>(off, v). if strict \<and> v > 1 then Inl ErrInvalidABI else Inr (off, v \<noteq> 0))"

definition word_at :: "heap \<Rightarrow> slice \<Rightarrow> nat \<Rightarrow> rt_error + nat \<times> u64" where
  "word_at h input off = and_then (take_at input off 8) (\<lambda>(off, s). Inr (off, le_word (read_slice h s)))"

record parse_state =
  ps_off :: nat
  ps_accounts :: "nat list"
  ps_regions :: "AccountRegion list"

definition parse_duplicate :: "slice \<Rightarrow> parse_state \<Rightarrow> nat \<Rightarrow> u8 \<Rightarrow> rt_error + parse_state" where
  "parse_duplicate input st off marker =
     (if unat marker \<ge> length (ps_accounts st) then Inl ErrInvalidDuplicate
      else
        and_then (take_at input off 7) (\<lambda>(off, _).
          Inr \<lparr>ps_off = off, ps_accounts = ps_accounts st @ [ps_accounts st ! unat marker],
            ps_regions = ps_regions st @ [(ps_regions st ! unat marker)\<lparr>rg_DuplicateOf := int (unat marker),
              rg_RecordByteOffset := int (ps_off st)\<rparr>]\<rparr>))"

definition parsed_view ::
  "heap \<Rightarrow> slice \<Rightarrow> bool \<times> bool \<times> bool \<Rightarrow> slice \<times> slice \<Rightarrow> nat \<times> nat \<times> nat \<Rightarrow> u64 \<Rightarrow> slice \<Rightarrow> nat \<Rightarrow> AccountView" where
  "parsed_view h input flags keys offsets lamports data dataLen =
     (let (isSigner, isWritable, executable) = flags; (keyBytes, ownerBytes) = keys;
          (ownerOffset, lamportsOffset, dataLenOffset) = offsets
      in \<lparr>av_key = read_slice h keyBytes, av_owner = read_slice h ownerBytes, av_lamports = lamports, av_data = data,
          av_dataLen = dataLen, av_originalLen = dataLen, av_isSigner = isSigner, av_isWritable = isWritable,
          av_executable = executable, av_baselineOwner = zero_pubkey, av_baselineLamports = 0,
          av_baselineDataLen = 0, av_baselineDataHash = replicate 32 0, av_raw = input,
          av_ownerOffset = Some ownerOffset, av_lamportsOffset = Some lamportsOffset,
          av_dataLenOffset = Some dataLenOffset,
          av_ownerStorage = reslice input ownerOffset (ownerOffset + 32),
          av_lamportsStorage = reslice input lamportsOffset (lamportsOffset + 8),
          av_dataLenStorage = reslice input dataLenOffset (dataLenOffset + 8),
          av_memory = None, av_dataAddress = 0\<rparr>)"

definition parse_account ::
  "heap \<Rightarrow> slice \<Rightarrow> bool \<Rightarrow> parse_state \<Rightarrow> nat \<Rightarrow> heap \<times> (rt_error + parse_state)" where
  "parse_account h input strict st off =
     then_h (h, boolean_at h input strict off) (\<lambda>h (off, isSigner).
     then_h (h, boolean_at h input strict off) (\<lambda>h (off, isWritable).
     then_h (h, boolean_at h input strict off) (\<lambda>h (off, executable).
     let originalLenOffset = off in
     then_h (h, take_at input off 4) (\<lambda>h (off, _).
     let keyOffset = off in
     then_h (h, take_at input off 32) (\<lambda>h (off, keyBytes).
     let ownerOffset = off in
     then_h (h, take_at input off 32) (\<lambda>h (off, ownerBytes).
     let lamportsOffset = off in
     then_h (h, word_at h input off) (\<lambda>h (off, lamports).
     let dataLenOffset = off in
     then_h (h, word_at h input off) (\<lambda>h (off, dataLen64).
       if dataLen64 > of_nat MaxPermittedDataLength \<or> dataLen64 > 0xffffffff then (h, Inl ErrInvalidABI)
       else
         let dataLen = unat dataLen64;
             h = write_slice h (reslice input originalLenOffset (originalLenOffset + 4)) (le_bytes 4 (of_nat dataLen :: u32));
             dataOffset = off
         in
         then_h (h, or_invalid (checkedAddInt dataLen MaxPermittedDataIncrease)) (\<lambda>h dataCapacity.
         then_h (h, take_at input off dataCapacity) (\<lambda>h (off, data).
         then_h (h, take_at input off (alignmentPadding dataLen)) (\<lambda>h (off, _).
         then_h (h, word_at h input off) (\<lambda>h (off, _).
           let (h, p) = new_view h (parsed_view h input (isSigner, isWritable, executable) (keyBytes, ownerBytes)
                 (ownerOffset, lamportsOffset, dataLenOffset) lamports data dataLen);
               h = acceptBaseline h (Some p);
               address = (\<lambda>n. MMInputStart + of_nat n :: u64)
           in (h, Inr \<lparr>ps_off = off, ps_accounts = ps_accounts st @ [p],
                 ps_regions = ps_regions st @ [\<lparr>rg_VMAddress = address (ps_off st), rg_KeyAddress = address keyOffset,
                   rg_OwnerAddress = address ownerOffset, rg_LamportsAddress = address lamportsOffset,
                   rg_DataAddress = address dataOffset, rg_OriginalDataLen = dataLen, rg_DuplicateOf = - 1,
                   rg_RecordByteOffset = int (ps_off st)\<rparr>]\<rparr>)))))))))))))"

definition parse_slot :: "heap \<Rightarrow> slice \<Rightarrow> bool \<Rightarrow> parse_state \<Rightarrow> heap \<times> (rt_error + parse_state)" where
  "parse_slot h input strict st =
     then_h (h, u8_at h input (ps_off st)) (\<lambda>h (off, marker).
       if marker \<noteq> NonDuplicateMarker then (h, parse_duplicate input st off marker)
       else parse_account h input strict st off)"

primrec parse_slots :: "heap \<Rightarrow> slice \<Rightarrow> bool \<Rightarrow> nat \<Rightarrow> parse_state \<Rightarrow> heap \<times> (rt_error + parse_state)" where
  "parse_slots h input strict 0 st = (h, Inr st)"
| "parse_slots h input strict (Suc n) st =
     then_h (parse_slots h input strict n st) (\<lambda>h st. parse_slot h input strict st)"

fun check_pointers :: "heap \<Rightarrow> slice \<Rightarrow> nat \<Rightarrow> AccountRegion list \<Rightarrow> rt_error + nat" where
  "check_pointers h input off [] = Inr off"
| "check_pointers h input off (region # regions) =
     and_then (word_at h input off) (\<lambda>(off, pointer).
       if pointer \<noteq> rg_VMAddress region then Inl ErrInvalidABI else check_pointers h input off regions)"

definition ParseInputV1WithOptions :: "heap \<Rightarrow> slice \<Rightarrow> ParseOptions \<Rightarrow> heap \<times> (rt_error + Context)" where
  "ParseInputV1WithOptions h input options =
     then_h (h, word_at h input 0) (\<lambda>h (off, numAccounts).
       if numAccounts > of_nat MaxAccountsPerInstruction then (h, Inl ErrTooManyAccounts)
       else
         then_h (parse_slots h input (po_RejectNonCanonicalBools options) (unat numAccounts)
             \<lparr>ps_off = off, ps_accounts = [], ps_regions = []\<rparr>) (\<lambda>h st.
         then_h (h, word_at h input (ps_off st)) (\<lambda>h (off, instructionLen).
           if instructionLen > of_nat MaxInstructionDataLen then (h, Inl ErrInstructionTooLarge)
           else
             then_h (h, take_at input off (unat instructionLen)) (\<lambda>h (off, instructionData).
             then_h (h, take_at input off 32) (\<lambda>h (off, programBytes).
             then_h (h, if po_DirectAccountPointers options
                 then and_then (take_at input off (alignmentPadding off)) (\<lambda>(off, _). check_pointers h input off (ps_regions st))
                 else Inr off) (\<lambda>h off.
               if off \<noteq> sl_Len input then (h, Inl ErrInvalidABI)
               else (h, Inr \<lparr>cx_ProgramID = read_slice h programBytes, cx_Accounts = map Some (ps_accounts st),
                 cx_InstructionData = read_slice h instructionData, cx_programID = read_slice h programBytes,
                 cx_accountSlots = map Some (ps_accounts st), cx_regions = ps_regions st, cx_raw = input,
                 cx_mappedSources = [], cx_memory = None\<rparr>)))))))"

definition ParseInputV1 :: "heap \<Rightarrow> slice \<Rightarrow> heap \<times> (rt_error + Context)" where
  "ParseInputV1 h input =
     ParseInputV1WithOptions h input \<lparr>po_DirectAccountPointers = False, po_RejectNonCanonicalBools = False\<rparr>"

end
