(* ===== verification/RtAbiMapped.thy ===== *)
theory RtAbiMapped
  imports RtAbi
begin

text \<open>
  \<open>src/runtime/abi_direct.go\<close> and \<open>src/runtime/abi_memory.go\<close>: program input whose account data is mapped into
  regions of its own, and the parser that reads it through guest addresses.

  The serialiser's buffer has its final capacity from the start, so slices of it stay valid while it grows; here its
  array is reserved first and filled at the end.
\<close>

section \<open>Split serialisation\<close>

record directABISerializer =
  ds_buffer :: bytes
  ds_sources :: "mappedRegionSource list"
  ds_vaddr :: u64
  ds_regionStart :: nat

definition currentAddress :: "directABISerializer \<Rightarrow> u64" where
  "currentAddress s = ds_vaddr s + of_nat (length (ds_buffer s) - ds_regionStart s)"

definition writeBytes :: "bytes \<Rightarrow> directABISerializer \<Rightarrow> directABISerializer" where
  "writeBytes bs s = s\<lparr>ds_buffer := ds_buffer s @ bs\<rparr>"

definition writeByte :: "u8 \<Rightarrow> directABISerializer \<Rightarrow> directABISerializer" where
  "writeByte b s = s\<lparr>ds_buffer := ds_buffer s @ [b]\<rparr>"

definition writeZeros :: "nat \<Rightarrow> directABISerializer \<Rightarrow> directABISerializer" where
  "writeZeros n s = s\<lparr>ds_buffer := ds_buffer s @ replicate n 0\<rparr>"

definition writeU64 :: "u64 \<Rightarrow> directABISerializer \<Rightarrow> directABISerializer" where
  "writeU64 v s =
     (let start = length (ds_buffer s); s = writeZeros 8 s in
      s\<lparr>ds_buffer := put_slice start (le_bytes 8 v) (ds_buffer s)\<rparr>)"

text \<open>A slice of the buffer, whose array is \<open>arr\<close> and whose capacity is \<open>capacity\<close>.\<close>

definition buffer_slice :: "nat \<Rightarrow> nat \<Rightarrow> nat \<Rightarrow> nat \<Rightarrow> slice" where
  "buffer_slice arr capacity lo hi = reslice \<lparr>sl_Array = arr, sl_Off = 0, sl_Len = hi, sl_Cap = capacity\<rparr> lo hi"

definition pushMetadataRegion :: "nat \<Rightarrow> nat \<Rightarrow> directABISerializer \<Rightarrow> directABISerializer" where
  "pushMetadataRegion arr capacity s =
     (let n = length (ds_buffer s) in
      if ds_regionStart s \<ge> n then s\<lparr>ds_regionStart := n\<rparr>
      else
        let data = buffer_slice arr capacity (ds_regionStart s) n; len = of_nat (n - ds_regionStart s) in
        s\<lparr>ds_sources := ds_sources s @ [\<lparr>ms_VMStart = ds_vaddr s, ms_data = data, ms_account = None, ms_writable = True,
             ms_reservedLength = len, ms_growable = False, ms_kind = InputRegionMetadata, ms_accountIndex = - 1\<rparr>],
          ds_vaddr := ds_vaddr s + len, ds_regionStart := n\<rparr>)"

fun mapped_sizes :: "nat \<Rightarrow> nat \<Rightarrow> u64 \<Rightarrow> InputAccount list \<Rightarrow> rt_error + nat \<times> u64" where
  "mapped_sizes index hostSize virtualSize [] = Inr (hostSize, virtualSize)"
| "mapped_sizes index hostSize virtualSize (input # inputs) =
     (case slot_error index input of Some e \<Rightarrow> Inl e
      | None \<Rightarrow>
        (case in_Account input of
           None \<Rightarrow> mapped_sizes (Suc index) (hostSize + 8) (virtualSize + 8) inputs
         | Some account \<Rightarrow>
             let len = length (ac_Data account) in
             and_then (or_invalid (checkedAddInt hostSize 104)) (\<lambda>hostSize.
               let reserved = (of_nat (len + MaxPermittedDataIncrease) :: u64);
                   addition = (of_nat (96 + alignmentPadding len) :: u64)
               in
                 if reserved > - 1 - addition \<or> virtualSize > - 1 - (reserved + addition) then Inl ErrInvalidABI
                 else mapped_sizes (Suc index) hostSize (virtualSize + (reserved + addition)) inputs)))"

record mapped_state =
  mp_serializer :: directABISerializer
  mp_regions :: "AccountRegion list"
  mp_views :: "nat list"

definition mapped_duplicate :: "u8 \<Rightarrow> mapped_state \<Rightarrow> mapped_state" where
  "mapped_duplicate d st =
     (let s = writeZeros 7 (writeByte d (mp_serializer st)) in
      \<lparr>mp_serializer = s,
       mp_regions = mp_regions st @ [(mp_regions st ! unat d)\<lparr>rg_DuplicateOf := int (unat d),
         rg_RecordByteOffset := int (length (ds_buffer s)) - 8\<rparr>],
       mp_views = mp_views st @ [mp_views st ! unat d]\<rparr>)"

definition mapped_account ::
  "nat \<Rightarrow> nat \<Rightarrow> pubkey \<Rightarrow> nat \<Rightarrow> Account \<Rightarrow> heap \<times> mapped_state \<Rightarrow> heap \<times> mapped_state" where
  "mapped_account arr capacity programID index account hst =
     (let (h, st) = hst; s = mp_serializer st;
          (h, p) = newAccountView h account;
          recordOffset = length (ds_buffer s);
          record_address = currentAddress s;
          s = writeByte NonDuplicateMarker s;
          s = writeByte (boolByte (ac_IsSigner account)) s;
          s = writeByte (boolByte (ac_IsWritable account)) s;
          s = writeByte (boolByte (ac_Executable account)) s;
          s = writeZeros 4 s;
          key_address = currentAddress s;
          s = writeBytes (ac_Key account) s;
          ownerOffset = length (ds_buffer s);
          owner_address = currentAddress s;
          s = writeBytes (ac_Owner account) s;
          lamportsOffset = length (ds_buffer s);
          lamports_address = currentAddress s;
          s = writeU64 (ac_Lamports account) s;
          dataLenOffset = length (ds_buffer s);
          s = writeU64 (of_nat (length (ac_Data account))) s;
          s = pushMetadataRegion arr capacity s;
          data_address = ds_vaddr s;
          reserved = of_nat (length (ac_Data account) + MaxPermittedDataIncrease);
          own = (ac_IsWritable account \<and> \<not> ac_Executable account \<and> ac_Owner account = programID);
          s = s\<lparr>ds_sources := ds_sources s @ [\<lparr>ms_VMStart = ds_vaddr s, ms_data = nil_slice, ms_account = Some p,
                ms_writable = own, ms_reservedLength = reserved, ms_growable = own, ms_kind = InputRegionAccountData,
                ms_accountIndex = int index\<rparr>]\<rparr>;
          s = s\<lparr>ds_vaddr := ds_vaddr s + reserved\<rparr>;
          padding = alignmentPadding (length (ac_Data account));
          s = writeZeros BPFAlignOfU128 s;
          s = s\<lparr>ds_regionStart := ds_regionStart s + (BPFAlignOfU128 - padding)\<rparr>;
          s = writeU64 (- 1) s;
          piece = (\<lambda>off n. buffer_slice arr capacity off (off + n));
          h = put_view h p ((Views h ! p)\<lparr>av_raw := buffer_slice arr capacity 0 (length (ds_buffer s)),
                av_ownerOffset := Some ownerOffset, av_lamportsOffset := Some lamportsOffset,
                av_dataLenOffset := Some dataLenOffset, av_ownerStorage := piece ownerOffset 32,
                av_lamportsStorage := piece lamportsOffset 8, av_dataLenStorage := piece dataLenOffset 8\<rparr>)
      in (h, \<lparr>mp_serializer = s,
           mp_regions = mp_regions st @ [\<lparr>rg_VMAddress = record_address, rg_KeyAddress = key_address,
             rg_OwnerAddress = owner_address, rg_LamportsAddress = lamports_address, rg_DataAddress = data_address,
             rg_OriginalDataLen = length (ac_Data account), rg_DuplicateOf = - 1,
             rg_RecordByteOffset = int recordOffset\<rparr>],
           mp_views = mp_views st @ [p]\<rparr>))"

fun mapped_slots ::
  "nat \<Rightarrow> nat \<Rightarrow> pubkey \<Rightarrow> nat \<Rightarrow> InputAccount list \<Rightarrow> heap \<times> mapped_state \<Rightarrow> heap \<times> mapped_state" where
  "mapped_slots arr capacity programID index [] hst = hst"
| "mapped_slots arr capacity programID index (input # inputs) hst =
     mapped_slots arr capacity programID (Suc index) inputs
       (case in_DuplicateOf input of
          Some d \<Rightarrow> (fst hst, mapped_duplicate d (snd hst))
        | None \<Rightarrow>
          (case in_Account input of
             Some account \<Rightarrow> mapped_account arr capacity programID index account hst
           | None \<Rightarrow> hst))"

definition serializeInputV1DirectMapping ::
  "heap \<Rightarrow> pubkey \<Rightarrow> InputAccount list \<Rightarrow> bytes \<Rightarrow> bool \<Rightarrow> rt_error + heap \<times> SerializedInput" where
  "serializeInputV1DirectMapping h programID accounts instructionData direct =
     (if length accounts > MaxAccountsPerInstruction then Inl ErrTooManyAccounts
      else if length instructionData > MaxInstructionDataLen then Inl ErrInstructionTooLarge
      else
        and_then (mapped_sizes 0 8 8 accounts) (\<lambda>(hostSize, virtualSize).
        and_then (or_invalid (checkedAddInt hostSize (8 + length instructionData + 32))) (\<lambda>hostSize.
          let virtualTail = (of_nat (8 + length instructionData + 32) :: u64) in
          if virtualSize > - 1 - virtualTail then Inl ErrInvalidABI
          else
            let virtualSize = virtualSize + virtualTail in
            and_then (pointer_bytes direct hostSize (length accounts)) (\<lambda>(hostSize', pointerPadding).
              let virtualSize = (if direct then virtualSize + of_nat (hostSize' - hostSize) else virtualSize) in
              if virtualSize > MMRegionSize then Inl ErrInvalidABI
              else
                let (h, reserved) = new_array h []; arr = sl_Array reserved;
                    s = writeU64 (of_nat (length accounts))
                      \<lparr>ds_buffer = [], ds_sources = [], ds_vaddr = MMInputStart, ds_regionStart = 0\<rparr>;
                    (h, st) = mapped_slots arr hostSize' programID 0 accounts
                      (h, \<lparr>mp_serializer = s, mp_regions = [], mp_views = []\<rparr>);
                    s = writeU64 (of_nat (length instructionData)) (mp_serializer st);
                    instructionOffset = length (ds_buffer s);
                    instructionAddress = currentAddress s;
                    s = writeBytes programID (writeBytes instructionData s);
                    padded = writeZeros pointerPadding s;
                    pointersOffset = (if direct then int (length (ds_buffer padded)) else - 1);
                    s = (if direct then fold (\<lambda>region s. writeU64 (rg_VMAddress region) s) (mp_regions st) padded else s);
                    s = pushMetadataRegion arr hostSize' s
                in
                  if length (ds_buffer s) \<noteq> hostSize' then Inl ErrInvalidABI
                  else
                    let h = h\<lparr>Arrays := (Arrays h)[arr := ds_buffer s]\<rparr>;
                        raw = buffer_slice arr hostSize' 0 (length (ds_buffer s));
                        context = \<lparr>cx_ProgramID = programID, cx_Accounts = map Some (mp_views st),
                          cx_InstructionData = instructionData, cx_programID = programID,
                          cx_accountSlots = map Some (mp_views st), cx_regions = mp_regions st, cx_raw = raw,
                          cx_mappedSources = ds_sources s, cx_memory = None\<rparr>
                    in Inr (h, \<lparr>si_Buffer = raw, si_AccountRegions = mp_regions st,
                         si_InstructionDataOffset = instructionOffset, si_DirectAccountPointersOffset = pointersOffset,
                         si_InstructionDataAddress = instructionAddress, si_directMapping = True,
                         si_mappedSources = ds_sources s, si_context = Some context, si_memory = None\<rparr>)))))"

definition SerializeInputV1WithOptions ::
  "heap \<Rightarrow> pubkey \<Rightarrow> InputAccount list \<Rightarrow> bytes \<Rightarrow> SerializeOptions \<Rightarrow> rt_error + heap \<times> SerializedInput" where
  "SerializeInputV1WithOptions h programID accounts instructionData options =
     (if so_AccountDataDirectMapping options
      then serializeInputV1DirectMapping h programID accounts instructionData (so_DirectAccountPointers options)
      else serialize_contiguous h programID accounts instructionData (so_DirectAccountPointers options))"

definition SerializeInputV1 ::
  "heap \<Rightarrow> pubkey \<Rightarrow> InputAccount list \<Rightarrow> bytes \<Rightarrow> rt_error + heap \<times> SerializedInput" where
  "SerializeInputV1 h programID accounts instructionData =
     SerializeInputV1WithOptions h programID accounts instructionData
       \<lparr>so_DirectAccountPointers = False, so_AccountDataDirectMapping = False\<rparr>"

section \<open>Parsing through guest memory\<close>

definition SerializedInput_MemoryMap ::
  "heap \<Rightarrow> SerializedInput option \<Rightarrow> heap \<times> SerializedInput option \<times> (rt_error + nat)" where
  "SerializedInput_MemoryMap h input =
     (case input of None \<Rightarrow> (h, input, Inl ErrInvalidMemoryRegion)
      | Some i \<Rightarrow>
        if \<not> si_directMapping i then (h, input, Inl ErrInvalidMemoryRegion)
        else
          (case si_memory i of Some m \<Rightarrow> (h, input, Inr m)
           | None \<Rightarrow>
             (case NewMemoryMap h (map (snapshot_region h) (si_mappedSources i)) of
                Inl e \<Rightarrow> (h, input, Inl e)
              | Inr (h, m) \<Rightarrow>
                  let c = map_option (\<lambda>c. c\<lparr>cx_memory := Some m\<rparr>) (si_context i);
                      h = attachMappedAccounts h c (Some m)
                  in (h, Some (i\<lparr>si_memory := Some m, si_context := c\<rparr>), Inr m))))"

definition vm_skip :: "u64 \<Rightarrow> u64 \<Rightarrow> rt_error + u64" where
  "vm_skip address len =
     (if len > - 1 - address then Inl ErrInvalidLength
      else
        let address = address + len in
        if address < MMInputStart \<or> address - MMInputStart > 0x100000000 then Inl ErrAccessViolation else Inr address)"

definition vm_take :: "heap \<Rightarrow> nat option \<Rightarrow> u64 \<Rightarrow> u64 \<Rightarrow> AccessType \<Rightarrow> u64 \<Rightarrow> rt_error + u64 \<times> slice" where
  "vm_take h m address len access alignment =
     and_then (translateBytes h m address len access) (\<lambda>s.
       if alignment > 1 \<and> address mod alignment \<noteq> 0 then Inl ErrUnalignedPointer
       else and_then (vm_skip address len) (\<lambda>address. Inr (address, s)))"

definition vm_u8 :: "heap \<Rightarrow> nat option \<Rightarrow> u64 \<Rightarrow> rt_error + u64 \<times> u8" where
  "vm_u8 h m address =
     and_then (vm_take h m address 1 AccessRead 1) (\<lambda>(address, s). Inr (address, read_slice h s ! 0))"

definition vm_boolean :: "heap \<Rightarrow> nat option \<Rightarrow> bool \<Rightarrow> u64 \<Rightarrow> rt_error + u64 \<times> bool" where
  "vm_boolean h m strict address =
     and_then (vm_u8 h m address) (\<lambda>(address, v). if strict \<and> v > 1 then Inl ErrInvalidABI else Inr (address, v \<noteq> 0))"

definition vm_u64 :: "heap \<Rightarrow> nat option \<Rightarrow> u64 \<Rightarrow> rt_error + u64 \<times> u64" where
  "vm_u64 h m address =
     and_then (vm_take h m address 8 AccessRead 8) (\<lambda>(address, s). Inr (address, le_word (read_slice h s)))"

record vm_parse_state =
  vp_address :: u64
  vp_accounts :: "nat list"
  vp_regions :: "AccountRegion list"

definition vm_duplicate :: "heap \<Rightarrow> nat option \<Rightarrow> vm_parse_state \<Rightarrow> u64 \<Rightarrow> u8 \<Rightarrow> rt_error + vm_parse_state" where
  "vm_duplicate h m st address marker =
     (if unat marker \<ge> length (vp_accounts st) then Inl ErrInvalidDuplicate
      else
        and_then (vm_take h m address 7 AccessRead 1) (\<lambda>(address, _).
          Inr \<lparr>vp_address = address, vp_accounts = vp_accounts st @ [vp_accounts st ! unat marker],
            vp_regions = vp_regions st @ [(vp_regions st ! unat marker)\<lparr>rg_DuplicateOf := int (unat marker),
              rg_RecordByteOffset := - 1\<rparr>]\<rparr>))"

definition vm_account ::
  "heap \<Rightarrow> nat option \<Rightarrow> bool \<Rightarrow> vm_parse_state \<Rightarrow> u64 \<Rightarrow> heap \<times> (rt_error + vm_parse_state)" where
  "vm_account h m strict st address =
     then_h (h, vm_boolean h m strict address) (\<lambda>h (address, isSigner).
     then_h (h, vm_boolean h m strict address) (\<lambda>h (address, isWritable).
     then_h (h, vm_boolean h m strict address) (\<lambda>h (address, executable).
     let originalLenAddress = address in
     then_h (h, vm_take h m address 4 AccessRead 1) (\<lambda>h (address, _).
     let keyAddress = address in
     then_h (h, vm_take h m address 32 AccessRead 1) (\<lambda>h (address, keyBytes).
     let ownerAddress = address in
     then_h (h, vm_take h m address 32 AccessRead 1) (\<lambda>h (address, ownerBytes).
     let lamportsAddress = address in
     then_h (h, vm_take h m address 8 AccessRead 8) (\<lambda>h (address, lamportsBytes).
     then_h (h, vm_take h m address 8 AccessRead 8) (\<lambda>h (address, dataLenBytes).
       let dataLen64 = (le_word (read_slice h dataLenBytes) :: u64) in
       if dataLen64 > of_nat MaxPermittedDataLength \<or> dataLen64 > 0xffffffff then (h, Inl ErrInvalidABI)
       else
         then_h (h, Translate h m originalLenAddress 4 AccessWrite 1) (\<lambda>h originalLenBytes.
         let h = write_slice h originalLenBytes (le_bytes 4 (ucast dataLen64 :: u32)); dataAddress = address in
         then_h (h, vm_take h m address dataLen64 AccessRead 1) (\<lambda>h (address, data).
         then_h (h, vm_skip address (of_nat MaxPermittedDataIncrease + of_nat (alignmentPadding (unat dataLen64)))) (\<lambda>h address.
         then_h (h, vm_u64 h m address) (\<lambda>h (address, _).
           let dataLen = unat dataLen64;
               storage = growableStorage h m dataAddress dataLen64;
               v = \<lparr>av_key = read_slice h keyBytes, av_owner = read_slice h ownerBytes,
                 av_lamports = le_word (read_slice h lamportsBytes),
                 av_data = (case storage of Some s \<Rightarrow> s | None \<Rightarrow> data), av_dataLen = dataLen, av_originalLen = dataLen,
                 av_isSigner = isSigner, av_isWritable = isWritable, av_executable = executable,
                 av_baselineOwner = zero_pubkey, av_baselineLamports = 0, av_baselineDataLen = 0,
                 av_baselineDataHash = replicate 32 0, av_raw = nil_slice, av_ownerOffset = None,
                 av_lamportsOffset = None, av_dataLenOffset = None, av_ownerStorage = ownerBytes,
                 av_lamportsStorage = lamportsBytes, av_dataLenStorage = dataLenBytes,
                 av_memory = (if storage = None then None else m),
                 av_dataAddress = (if storage = None then 0 else dataAddress)\<rparr>;
               (h, p) = new_view h v;
               h = acceptBaseline h (Some p)
           in (h, Inr \<lparr>vp_address = address, vp_accounts = vp_accounts st @ [p],
                 vp_regions = vp_regions st @ [\<lparr>rg_VMAddress = vp_address st, rg_KeyAddress = keyAddress,
                   rg_OwnerAddress = ownerAddress, rg_LamportsAddress = lamportsAddress, rg_DataAddress = dataAddress,
                   rg_OriginalDataLen = dataLen, rg_DuplicateOf = - 1, rg_RecordByteOffset = - 1\<rparr>]\<rparr>)))))))))))))"

definition vm_slot :: "heap \<Rightarrow> nat option \<Rightarrow> bool \<Rightarrow> vm_parse_state \<Rightarrow> heap \<times> (rt_error + vm_parse_state)" where
  "vm_slot h m strict st =
     then_h (h, vm_u8 h m (vp_address st)) (\<lambda>h (address, marker).
       if marker \<noteq> NonDuplicateMarker then (h, vm_duplicate h m st address marker)
       else vm_account h m strict st address)"

primrec vm_slots :: "heap \<Rightarrow> nat option \<Rightarrow> bool \<Rightarrow> nat \<Rightarrow> vm_parse_state \<Rightarrow> heap \<times> (rt_error + vm_parse_state)" where
  "vm_slots h m strict 0 st = (h, Inr st)"
| "vm_slots h m strict (Suc n) st = then_h (vm_slots h m strict n st) (\<lambda>h st. vm_slot h m strict st)"

fun vm_pointers :: "heap \<Rightarrow> nat option \<Rightarrow> u64 \<Rightarrow> AccountRegion list \<Rightarrow> rt_error + u64" where
  "vm_pointers h m address [] = Inr address"
| "vm_pointers h m address (region # regions) =
     and_then (vm_u64 h m address) (\<lambda>(address, pointer).
       if pointer \<noteq> rg_VMAddress region then Inl ErrInvalidABI else vm_pointers h m address regions)"

definition ParseInputV1Memory :: "heap \<Rightarrow> nat option \<Rightarrow> ParseOptions \<Rightarrow> heap \<times> (rt_error + Context)" where
  "ParseInputV1Memory h m options =
     then_h (h, vm_u64 h m MMInputStart) (\<lambda>h (address, numAccounts).
       if numAccounts > of_nat MaxAccountsPerInstruction then (h, Inl ErrTooManyAccounts)
       else
         then_h (vm_slots h m (po_RejectNonCanonicalBools options) (unat numAccounts)
             \<lparr>vp_address = address, vp_accounts = [], vp_regions = []\<rparr>) (\<lambda>h st.
         then_h (h, vm_u64 h m (vp_address st)) (\<lambda>h (address, instructionLen).
           if instructionLen > of_nat MaxInstructionDataLen then (h, Inl ErrInstructionTooLarge)
           else
             then_h (h, vm_take h m address instructionLen AccessRead 1) (\<lambda>h (address, instructionData).
             then_h (h, vm_take h m address 32 AccessRead 1) (\<lambda>h (address, programBytes).
             then_h (h, if po_DirectAccountPointers options
                 then and_then (vm_take h m address (of_nat (alignmentPadding (unat (address mod of_nat BPFAlignOfU128)))) AccessRead 1)
                   (\<lambda>(address, _). vm_pointers h m address (vp_regions st))
                 else Inr address) (\<lambda>h _.
               (h, Inr \<lparr>cx_ProgramID = read_slice h programBytes, cx_Accounts = map Some (vp_accounts st),
                 cx_InstructionData = read_slice h instructionData, cx_programID = read_slice h programBytes,
                 cx_accountSlots = map Some (vp_accounts st), cx_regions = vp_regions st, cx_raw = nil_slice,
                 cx_mappedSources = [], cx_memory = m\<rparr>)))))))"

definition rebind_source :: "Context \<Rightarrow> mappedRegionSource \<Rightarrow> mappedRegionSource" where
  "rebind_source c source =
     (if ms_kind source = InputRegionAccountData \<and> ms_accountIndex source \<ge> 0 \<and>
        ms_accountIndex source < int (length (cx_accountSlots c))
      then source\<lparr>ms_account := cx_accountSlots c ! nat (ms_accountIndex source)\<rparr>
      else source)"

definition ParseMappedInputV1 ::
  "heap \<Rightarrow> SerializedInput option \<Rightarrow> ParseOptions \<Rightarrow> heap \<times> SerializedInput option \<times> (rt_error + Context)" where
  "ParseMappedInputV1 h input options =
     (case SerializedInput_MemoryMap h input of
        (h, input, Inl e) \<Rightarrow> (h, input, Inl e)
      | (h, input, Inr m) \<Rightarrow>
        (case ParseInputV1Memory h (Some m) options of
           (h, Inl e) \<Rightarrow> (h, input, Inl e)
         | (h, Inr c) \<Rightarrow>
           (case input of None \<Rightarrow> (h, input, Inl ErrInvalidMemoryRegion)
            | Some i \<Rightarrow>
              let sources = map (rebind_source c) (si_mappedSources i);
                  c = c\<lparr>cx_raw := si_Buffer i, cx_mappedSources := sources\<rparr>
              in (h, Some (i\<lparr>si_mappedSources := sources, si_context := Some c\<rparr>), Inr c))))"

end
