(* ===== verification/RtEntry.thy ===== *)
theory RtEntry
  imports RtAbiMapped
begin

text \<open>
  \<open>src/runtime/errors.go\<close>, the entrypoint: parse the input, run the program, report its status.  The program is a parameter; it
  works on the heap through the context it is given.
\<close>

type_synonym Processor = "Context \<Rightarrow> heap \<Rightarrow> heap \<times> (rt_error + unit)"

definition processor_status :: "rt_error \<Rightarrow> u64" where
  "processor_status e =
     (case e of
        ProgramFailure typed \<Rightarrow> ReturnCode typed
      | ProgramFailurePtr (Some typed) \<Rightarrow> ReturnCode typed
      | _ \<Rightarrow> ReturnCode (BuiltinProgramError ProgramErrorInvalidArgument))"

definition validation_status :: "rt_error \<Rightarrow> u64" where
  "validation_status e =
     (case e of
        ProgramFailure typed \<Rightarrow> ReturnCode typed
      | _ \<Rightarrow> ReturnCode (BuiltinProgramError ProgramErrorInvalidArgument))"

definition ExecuteEntrypointWithOptions :: "heap \<Rightarrow> slice \<Rightarrow> Processor option \<Rightarrow> ParseOptions \<Rightarrow> heap \<times> u64" where
  "ExecuteEntrypointWithOptions h input processor options =
     (case processor of None \<Rightarrow> (h, ReturnCode (BuiltinProgramError ProgramErrorInvalidArgument))
      | Some run \<Rightarrow>
        (case ParseInputV1WithOptions h input options of
           (h, Inl _) \<Rightarrow> (h, ReturnCode (BuiltinProgramError ProgramErrorInvalidArgument))
         | (h, Inr c) \<Rightarrow>
           let snapshots = snapshotAccounts h (cx_accountSlots c) in
           (case run c h of
              (h, Inl e) \<Rightarrow> (restoreAccountSnapshots h snapshots, processor_status e)
            | (h, Inr _) \<Rightarrow>
              (case ValidateProgramChanges h c of
                 (h, Inl e) \<Rightarrow> (restoreAccountSnapshots h snapshots, validation_status e)
               | (h, Inr _) \<Rightarrow> (h, ProgramSuccess)))))"

definition ExecuteEntrypoint :: "heap \<Rightarrow> slice \<Rightarrow> Processor option \<Rightarrow> heap \<times> u64" where
  "ExecuteEntrypoint h input processor =
     ExecuteEntrypointWithOptions h input processor
       \<lparr>po_DirectAccountPointers = False, po_RejectNonCanonicalBools = False\<rparr>"

definition NewEntrypointWithOptions :: "Processor option \<Rightarrow> ParseOptions \<Rightarrow> heap \<Rightarrow> slice \<Rightarrow> heap \<times> u64" where
  "NewEntrypointWithOptions processor options h input = ExecuteEntrypointWithOptions h input processor options"

definition NewEntrypoint :: "Processor option \<Rightarrow> heap \<Rightarrow> slice \<Rightarrow> heap \<times> u64" where
  "NewEntrypoint processor =
     NewEntrypointWithOptions processor \<lparr>po_DirectAccountPointers = False, po_RejectNonCanonicalBools = False\<rparr>"

end
