(* ===== verification/RtHeapFacts.thy ===== *)
theory RtHeapFacts
  imports RtEntry
begin

text \<open>
  Windows of arrays: what reading a slice gives after another slice has been written.
\<close>

section \<open>Windows\<close>

definition in_bounds_slice :: "heap \<Rightarrow> slice \<Rightarrow> bool" where
  "in_bounds_slice h s \<longleftrightarrow> sl_Array s < length (Arrays h) \<and> sl_Off s + sl_Len s \<le> length (Arrays h ! sl_Array s)"

definition apart_slices :: "slice \<Rightarrow> slice \<Rightarrow> bool" where
  "apart_slices s t \<longleftrightarrow>
     sl_Array s \<noteq> sl_Array t \<or> sl_Off s + sl_Len s \<le> sl_Off t \<or> sl_Off t + sl_Len t \<le> sl_Off s"

text \<open>The same arrays with possibly other contents.\<close>

definition same_shape :: "heap \<Rightarrow> heap \<Rightarrow> bool" where
  "same_shape h h' \<longleftrightarrow> map length (Arrays h') = map length (Arrays h)"

lemma same_shape_refl [simp]: "same_shape h h"
  by (simp add: same_shape_def)

lemma same_shape_trans: "same_shape h h' \<Longrightarrow> same_shape h' h'' \<Longrightarrow> same_shape h h''"
  by (simp add: same_shape_def)

lemma same_shape_length: "same_shape h h' \<Longrightarrow> length (Arrays h') = length (Arrays h)"
  unfolding same_shape_def by (metis length_map)

lemma same_shape_bounds: "same_shape h h' \<Longrightarrow> in_bounds_slice h' s \<longleftrightarrow> in_bounds_slice h s"
proof -
  assume s: "same_shape h h'"
  have "length (Arrays h' ! i) = length (Arrays h ! i)" if "i < length (Arrays h)" for i
    using s same_shape_length [OF s] that unfolding same_shape_def by (metis nth_map)
  then show ?thesis using same_shape_length [OF s] by (auto simp: in_bounds_slice_def)
qed

lemma put_fields [simp]:
  "Arrays (put_view h p v) = Arrays h" "Maps (put_view h p v) = Maps h" "Views (put_view h p v) = (Views h)[p := v]"
  "Arrays (put_map h p m) = Arrays h" "Maps (put_map h p m) = (Maps h)[p := m]" "Views (put_map h p m) = Views h"
  "Maps (write_slice h s bs) = Maps h" "Views (write_slice h s bs) = Views h"
  by (simp_all add: put_view_def put_map_def write_slice_def)

lemma read_put [simp]: "read_slice (put_view h p v) s = read_slice h s" "read_slice (put_map h p m) s = read_slice h s"
  by (simp_all add: read_slice_def)

lemma bounds_put [simp]:
  "in_bounds_slice (put_view h p v) s = in_bounds_slice h s" "in_bounds_slice (put_map h p m) s = in_bounds_slice h s"
  by (simp_all add: in_bounds_slice_def)

lemma shape_put [simp]: "same_shape h (put_view h' p v) = same_shape h h'" "same_shape h (put_map h' p m) = same_shape h h'"
  by (simp_all add: same_shape_def)

lemma shape_write:
  assumes "in_bounds_slice h s" and "length bs \<le> sl_Len s"
  shows "same_shape h (write_slice h s bs)"
  using assms by (simp add: same_shape_def write_slice_def in_bounds_slice_def map_update list_update_same_conv)

lemma length_read: "in_bounds_slice h s \<Longrightarrow> length (read_slice h s) = sl_Len s"
  by (simp add: in_bounds_slice_def read_slice_def)

lemma nth_put_outside:
  assumes "off + length bs \<le> length xs" and "i < off \<or> off + length bs \<le> i" and "i < length xs"
  shows "put_slice off bs xs ! i = xs ! i"
proof (cases "i < off")
  case True
  then show ?thesis using assms by (simp add: put_slice_def nth_append)
next
  case False
  then obtain k where k: "i = off + length bs + k" using assms(2) le_Suc_ex by blast
  then show ?thesis using assms by (simp add: put_slice_def nth_append)
qed

lemma get_put_apart:
  assumes "off + length bs \<le> length xs" and "off + length bs \<le> off' \<or> off' + n \<le> off"
  shows "get_slice off' n (put_slice off bs xs) = get_slice off' n xs"
proof (rule nth_equalityI)
  show "length (get_slice off' n (put_slice off bs xs)) = length (get_slice off' n xs)"
    using assms(1) by (simp add: get_slice_def)
  fix i assume "i < length (get_slice off' n (put_slice off bs xs))"
  then have i: "i < n" "off' + i < length xs" using assms(1) by (auto simp: get_slice_def)
  then show "get_slice off' n (put_slice off bs xs) ! i = get_slice off' n xs ! i"
    using assms by (subst get_slice_def, subst get_slice_def) (auto simp: nth_put_outside)
qed

lemma read_slice_same:
  assumes "in_bounds_slice h s" and "length bs = sl_Len s"
  shows "read_slice (write_slice h s bs) s = bs"
  using assms by (simp add: read_slice_def write_slice_def in_bounds_slice_def get_slice_def put_slice_def)

lemma read_slice_apart:
  assumes "in_bounds_slice h s" and "length bs \<le> sl_Len s" and "apart_slices s t"
  shows "read_slice (write_slice h s bs) t = read_slice h t"
  using assms
  by (cases "sl_Array s = sl_Array t")
    (auto simp: read_slice_def write_slice_def in_bounds_slice_def apart_slices_def get_put_apart)

lemma apart_sym_slices: "apart_slices s t \<longleftrightarrow> apart_slices t s"
  by (auto simp: apart_slices_def)

lemma reslice_fields [simp]:
  "sl_Array (reslice s lo hi) = sl_Array s" "sl_Off (reslice s lo hi) = sl_Off s + lo" "sl_Len (reslice s lo hi) = hi - lo"
  "sl_Cap (reslice s lo hi) = sl_Cap s - lo"
  by (simp_all add: reslice_def)

lemma bounds_reslice: "in_bounds_slice h s \<Longrightarrow> lo \<le> hi \<Longrightarrow> hi \<le> sl_Len s \<Longrightarrow> in_bounds_slice h (reslice s lo hi)"
  by (simp add: in_bounds_slice_def)

lemma read_reslice: "lo \<le> hi \<Longrightarrow> hi \<le> sl_Len s \<Longrightarrow> read_slice h (reslice s lo hi) = get_slice lo (hi - lo) (read_slice h s)"
  by (simp add: read_slice_def get_slice_def min_def take_drop ac_simps)

lemma apart_reslice: "apart_slices s t \<Longrightarrow> lo \<le> hi \<Longrightarrow> hi \<le> sl_Len s \<Longrightarrow> apart_slices (reslice s lo hi) t"
  by (auto simp: apart_slices_def)

end
