(* ===== verification/RtChanges.thy ===== *)
theory RtChanges
  imports RtHeapFacts
begin

text \<open>
  What \<open>ValidateProgramChanges\<close> lets a program change, stated on the accounts of an invocation instead of on the
  loop over its slots and its two-word sums.
\<close>

section \<open>Slots without repetition\<close>

definition pointers :: "nat option list \<Rightarrow> nat set" where
  "pointers slots = {p. Some p \<in> set slots}"

fun fresh :: "nat list \<Rightarrow> nat option list \<Rightarrow> nat list" where
  "fresh seen [] = []"
| "fresh seen (None # slots) = fresh seen slots"
| "fresh seen (Some p # slots) = (if p \<in> set seen then fresh seen slots else p # fresh (p # seen) slots)"

lemma pointers_simps [simp]:
  "pointers [] = {}" "pointers (None # slots) = pointers slots" "pointers (Some p # slots) = insert p (pointers slots)"
  by (auto simp: pointers_def)

lemma set_fresh: "set (fresh seen slots) = pointers slots - set seen"
  by (induction seen slots rule: fresh.induct) auto

lemma distinct_fresh: "distinct (fresh seen slots)"
  by (induction seen slots rule: fresh.induct) (auto simp: set_fresh)

lemma length_fresh: "length (fresh seen slots) \<le> length slots"
  by (induction seen slots rule: fresh.induct) auto

section \<open>Sums of two words\<close>

lemma unat_bound: "unat (w :: u64) < 2 ^ 64"
  using unsigned_less [of w] by simp

definition two_words :: "u64 \<Rightarrow> u64 \<Rightarrow> nat" where
  "two_words low high = unat high * 2 ^ 64 + unat low"

lemma two_words_inject: "two_words l h = two_words l' h' \<longleftrightarrow> l = l' \<and> h = h'"
proof
  assume eq: "two_words l h = two_words l' h'"
  have u: "unat l < 2 ^ 64" "unat l' < 2 ^ 64" using unat_bound [of l] unat_bound [of l'] by simp_all
  have "unat h = two_words l h div 2 ^ 64" "unat h' = two_words l' h' div 2 ^ 64"
    using u by (simp_all add: two_words_def)
  moreover have "unat l = two_words l h mod 2 ^ 64" "unat l' = two_words l' h' mod 2 ^ 64"
    using u by (simp_all add: two_words_def)
  ultimately show "l = l' \<and> h = h'" using eq by (simp add: word_unat_eq_iff)
qed simp

lemma add_two_words:
  assumes room: "two_words low high + unat x < 2 ^ 128"
  shows "two_words (low + x) (fst (Add64 high 0 (snd (Add64 low x 0)))) = two_words low high + unat x"
proof -
  have u: "unat low < 2 ^ 64" "unat x < 2 ^ 64" using unat_bound [of low] unat_bound [of x] by simp_all
  show ?thesis
  proof (cases "unat low + unat x < 2 ^ 64")
    case True
    then have "unat (low + x) = unat low + unat x" by (simp add: unat_word_ariths)
    with True show ?thesis by (simp add: two_words_def Add64_def)
  next
    case False
    then have low: "unat (low + x) = unat low + unat x - 2 ^ 64"
      using u by (simp add: unat_word_ariths mod_if)
    have "unat high + 1 < 2 ^ 64"
    proof (rule ccontr)
      assume "\<not> unat high + 1 < 2 ^ 64"
      then have "(2 ^ 64 - 1) * 2 ^ 64 \<le> unat high * 2 ^ 64" by (intro mult_right_mono) simp_all
      then show False using room False by (simp add: two_words_def)
    qed
    then have "unat (high + 1) = unat high + 1" by (simp add: unat_word_ariths)
    then show ?thesis using False u low by (simp add: two_words_def Add64_def)
  qed
qed

definition baseline_sum :: "lamport_sums \<Rightarrow> nat" where
  "baseline_sum s = two_words (baselineLow s) (baselineHigh s)"

definition current_sum :: "lamport_sums \<Rightarrow> nat" where
  "current_sum s = two_words (currentLow s) (currentHigh s)"

lemma add_lamports_sums:
  assumes "baseline_sum s + unat (av_baselineLamports v) < 2 ^ 128" and "current_sum s + unat (av_lamports v) < 2 ^ 128"
  shows "baseline_sum (add_lamports s v) = baseline_sum s + unat (av_baselineLamports v)"
    and "current_sum (add_lamports s v) = current_sum s + unat (av_lamports v)"
  using add_two_words [of "baselineLow s" "baselineHigh s" "av_baselineLamports v"] assms
    add_two_words [of "currentLow s" "currentHigh s" "av_lamports v"]
  by (simp_all add: baseline_sum_def current_sum_def add_lamports_def Add64_def)

lemma fold_add_lamports:
  assumes "baseline_sum s + length vs * 2 ^ 64 \<le> 2 ^ 128" and "current_sum s + length vs * 2 ^ 64 \<le> 2 ^ 128"
  shows "baseline_sum (fold (\<lambda>v s. add_lamports s v) vs s) = baseline_sum s + (\<Sum>v \<leftarrow> vs. unat (av_baselineLamports v)) \<and>
    current_sum (fold (\<lambda>v s. add_lamports s v) vs s) = current_sum s + (\<Sum>v \<leftarrow> vs. unat (av_lamports v))"
  using assms
proof (induction vs arbitrary: s)
  case (Cons v vs)
  have u: "unat (av_baselineLamports v) < 2 ^ 64" "unat (av_lamports v) < 2 ^ 64"
    using unat_bound [of "av_baselineLamports v"] unat_bound [of "av_lamports v"] by simp_all
  have step: "baseline_sum (add_lamports s v) = baseline_sum s + unat (av_baselineLamports v)"
    "current_sum (add_lamports s v) = current_sum s + unat (av_lamports v)"
    using add_lamports_sums [of s v] Cons.prems u by simp_all
  show ?case using Cons.IH [of "add_lamports s v"] Cons.prems u by (simp add: step)
qed simp

section \<open>The check\<close>

lemma validate_slots_iff:
  "validate_slots h programID seen s slots = Inr s' \<longleftrightarrow>
     (\<forall>p \<in> pointers slots - set seen. change_error h programID (Views h ! p) = None) \<and>
     s' = fold (\<lambda>v s. add_lamports s v) (map (\<lambda>p. Views h ! p) (fresh seen slots)) s"
  by (induction h programID seen s slots rule: validate_slots.induct) (auto split: option.splits)

text \<open>Whether an account kept what it must keep.\<close>

definition kept :: "heap \<Rightarrow> AccountView \<Rightarrow> bool" where
  "kept h v \<longleftrightarrow> av_dataLen v = av_baselineDataLen v \<and> Sum256 (view_bytes h v) = av_baselineDataHash v"

definition allowed_change :: "heap \<Rightarrow> pubkey \<Rightarrow> AccountView \<Rightarrow> bool" where
  "allowed_change h programID v \<longleftrightarrow>
     (av_isWritable v \<and> \<not> av_executable v \<or>
        av_owner v = av_baselineOwner v \<and> kept h v \<and> av_lamports v = av_baselineLamports v) \<and>
     (av_baselineOwner v = programID \<or>
        av_owner v = av_baselineOwner v \<and> kept h v \<and> av_baselineLamports v \<le> av_lamports v) \<and>
     (av_owner v = av_baselineOwner v \<or> set (view_bytes h v) \<subseteq> {0})"

lemma change_error_iff: "change_error h programID v = None \<longleftrightarrow> allowed_change h programID v"
  by (auto simp: change_error_def allowed_change_def kept_def Let_def split: if_splits)

lemma sums_balanced:
  assumes "length slots < 2 ^ 64"
  shows "(let s = fold (\<lambda>v s. add_lamports s v) (map (\<lambda>p. Views h ! p) (fresh [] slots)) no_lamports in
      baselineLow s = currentLow s \<and> baselineHigh s = currentHigh s) \<longleftrightarrow>
    (\<Sum>p \<in> pointers slots. unat (av_baselineLamports (Views h ! p))) = (\<Sum>p \<in> pointers slots. unat (av_lamports (Views h ! p)))"
proof -
  let ?vs = "map (\<lambda>p. Views h ! p) (fresh [] slots)"
  define s where "s = fold (\<lambda>v s. add_lamports s v) ?vs no_lamports"
  have zero: "baseline_sum no_lamports = 0" "current_sum no_lamports = 0"
    by (simp_all add: baseline_sum_def current_sum_def two_words_def no_lamports_def)
  have "length ?vs * 2 ^ 64 \<le> 2 ^ 64 * 2 ^ 64"
    using length_fresh [of "[]" slots] assms(1) by (intro mult_right_mono) simp_all
  then have "baseline_sum s = (\<Sum>v \<leftarrow> ?vs. unat (av_baselineLamports v)) \<and> current_sum s = (\<Sum>v \<leftarrow> ?vs. unat (av_lamports v))"
    using fold_add_lamports [of no_lamports ?vs] zero unfolding s_def by simp
  moreover have "(\<Sum>v \<leftarrow> ?vs. f v) = (\<Sum>p \<in> pointers slots. f (Views h ! p))" for f :: "AccountView \<Rightarrow> nat"
    using sum_list_distinct_conv_sum_set [OF distinct_fresh, of "\<lambda>p. f (Views h ! p)" "[]" slots]
    by (simp add: set_fresh comp_def)
  ultimately show ?thesis
    using two_words_inject [of "baselineLow s" "baselineHigh s" "currentLow s" "currentHigh s"]
    by (simp add: baseline_sum_def current_sum_def Let_def flip: s_def)
qed

lemma ValidateProgramChanges_eq:
  "ValidateProgramChanges h c = (h', Inr ()) \<longleftrightarrow> SyncAccounts h (Some c) = (h', Inr ()) \<and>
     (\<forall>p \<in> pointers (cx_accountSlots c). change_error h' (cx_programID c) (Views h' ! p) = None) \<and>
     (let s = fold (\<lambda>v s. add_lamports s v) (map (\<lambda>p. Views h' ! p) (fresh [] (cx_accountSlots c))) no_lamports in
       baselineLow s = currentLow s \<and> baselineHigh s = currentHigh s)"
proof -
  have cases: "ValidateProgramChanges h c = (h', Inr ()) \<longleftrightarrow> SyncAccounts h (Some c) = (h', Inr ()) \<and>
    (\<exists>s. validate_slots h' (cx_programID c) [] no_lamports (cx_accountSlots c) = Inr s \<and>
      baselineLow s = currentLow s \<and> baselineHigh s = currentHigh s)"
  proof (cases "SyncAccounts h (Some c)")
    case (Pair h1 r)
    then show ?thesis
      by (cases r; cases "validate_slots h1 (cx_programID c) [] no_lamports (cx_accountSlots c)")
        (auto simp: ValidateProgramChanges_def no_failure_def)
  qed
  show ?thesis unfolding cases validate_slots_iff by (auto simp: Let_def)
qed

text \<open>
  C31.  \<open>ValidateProgramChanges\<close> accepts an invocation exactly when the accounts can be synchronised with what the
  guest wrote and every account, counted once, has only changed as its privileges allow: an account that is not writable or is
  executable not at all, a foreign account only by gaining lamports, an account of the program in owner only if its data is
  zero; and when the lamports of all of them add up to what they added up to before, as natural numbers, although the
  code adds 64-bit words with a carry.
\<close>

theorem ValidateProgramChanges_iff:
  assumes "length (cx_accountSlots c) < 2 ^ 64"
  shows "ValidateProgramChanges h c = (h', Inr ()) \<longleftrightarrow> SyncAccounts h (Some c) = (h', Inr ()) \<and>
    (\<forall>p \<in> pointers (cx_accountSlots c). allowed_change h' (cx_programID c) (Views h' ! p)) \<and>
    (\<Sum>p \<in> pointers (cx_accountSlots c). unat (av_baselineLamports (Views h' ! p))) =
    (\<Sum>p \<in> pointers (cx_accountSlots c). unat (av_lamports (Views h' ! p)))"
  unfolding ValidateProgramChanges_eq change_error_iff sums_balanced [OF assms] ..

definition two_accounts :: "heap \<times> Context" where
  "two_accounts = NewContext \<lparr>Arrays = [], Maps = [], Views = []\<rparr> (replicate 32 1)
     [\<lparr>ac_Key = replicate 32 2, ac_Owner = replicate 32 1, ac_Lamports = 5, ac_Data = [], ac_IsSigner = False,
       ac_IsWritable = True, ac_Executable = False\<rparr>,
      \<lparr>ac_Key = replicate 32 3, ac_Owner = replicate 32 9, ac_Lamports = 2 ^ 64 - 1, ac_Data = [], ac_IsSigner = False,
       ac_IsWritable = False, ac_Executable = False\<rparr>] []"

theorem ValidateProgramChanges_iff_witness:
  "ValidateProgramChanges (fst two_accounts) (snd two_accounts) = ((fst (SyncAccounts (fst two_accounts) (Some (snd two_accounts)))), Inr ()) \<longleftrightarrow>
    SyncAccounts (fst two_accounts) (Some (snd two_accounts)) = ((fst (SyncAccounts (fst two_accounts) (Some (snd two_accounts)))), Inr ()) \<and>
    (\<forall>p \<in> pointers (cx_accountSlots (snd two_accounts)).
      allowed_change (fst (SyncAccounts (fst two_accounts) (Some (snd two_accounts)))) (cx_programID (snd two_accounts)) (Views (fst (SyncAccounts (fst two_accounts) (Some (snd two_accounts)))) ! p)) \<and>
    (\<Sum>p \<in> pointers (cx_accountSlots (snd two_accounts)). unat (av_baselineLamports (Views (fst (SyncAccounts (fst two_accounts) (Some (snd two_accounts)))) ! p))) =
    (\<Sum>p \<in> pointers (cx_accountSlots (snd two_accounts)). unat (av_lamports (Views (fst (SyncAccounts (fst two_accounts) (Some (snd two_accounts)))) ! p)))"
  by (rule ValidateProgramChanges_iff)
    (simp add: two_accounts_def NewContext_def newAccountView_def Let_def split: prod.splits)

end
