(* ===== verification/RtInvoke.thy ===== *)
theory RtInvoke
  imports RtChanges
begin

text \<open>
  Cross-program invocation gives a callee no privilege that the caller does not have.
\<close>

lemma raise_privileges_of:
  "pr_signer (privileges_of (raise_privileges m key s w) k) \<longleftrightarrow> pr_signer (privileges_of m k) \<or> (k = key \<and> s)"
  "pr_writable (privileges_of (raise_privileges m key s w) k) \<longleftrightarrow> pr_writable (privileges_of m k) \<or> (k = key \<and> w)"
  by (auto simp: raise_privileges_def privileges_of_def)

lemma no_privileges_of [simp]:
  "\<not> pr_signer (privileges_of (\<lambda>_. None) k)" "\<not> pr_writable (privileges_of (\<lambda>_. None) k)"
  by (simp_all add: privileges_of_def no_privileges_def)

lemma requested_privileges_of:
  "pr_signer (privileges_of (requested_privileges m metas) k) \<longleftrightarrow>
     pr_signer (privileges_of m k) \<or> (\<exists>meta \<in> set metas. Pubkey meta = k \<and> IsSigner meta)"
  "pr_writable (privileges_of (requested_privileges m metas) k) \<longleftrightarrow>
     pr_writable (privileges_of m k) \<or> (\<exists>meta \<in> set metas. Pubkey meta = k \<and> IsWritable meta)"
  by (induction m metas rule: requested_privileges.induct) (auto simp: raise_privileges_of)

lemma check_keys_iff: "check_keys f keys = Inr u \<longleftrightarrow> (\<forall>key \<in> set keys. f key = None)"
  by (induction f keys rule: check_keys.induct) (auto split: option.splits)

lemma each_member: "each f is = Inr ys \<Longrightarrow> y \<in> set ys \<Longrightarrow> \<exists>i \<in> set is. f i = Inr y"
proof (induction "is" arbitrary: ys)
  case (Cons i rest)
  then obtain x xs where "f i = Inr x" "each f rest = Inr xs" "ys = x # xs" by (auto simp: and_then_Inr_conv)
  with Cons show ?case by auto
qed simp

lemma collect_callers_sound:
  assumes "collect_callers h program c slots = Inr cs"
  shows "(cl_ByKey cs k = Some p \<longrightarrow> cl_ByKey c k = Some p \<or> (p \<in> pointers slots \<and> av_key (Views h ! p) = k)) \<and>
    (pr_signer (privileges_of (cl_Privileges cs) k) \<longrightarrow> pr_signer (privileges_of (cl_Privileges c) k) \<or>
      (\<exists>q \<in> pointers slots. av_key (Views h ! q) = k \<and> av_isSigner (Views h ! q))) \<and>
    (pr_writable (privileges_of (cl_Privileges cs) k) \<longrightarrow> pr_writable (privileges_of (cl_Privileges c) k) \<or>
      (\<exists>q \<in> pointers slots. av_key (Views h ! q) = k \<and> av_isWritable (Views h ! q))) \<and>
    (cl_programExecutable cs \<longrightarrow> cl_programExecutable c \<or>
      (\<exists>q \<in> pointers slots. av_key (Views h ! q) = program \<and> av_executable (Views h ! q)))"
  using assms
proof (induction h program c slots rule: collect_callers.induct)
  case (3 h program c p' slots)
  let ?key = "View_Key h (Some p')"
  let ?c = "\<lparr>cl_ByKey = (cl_ByKey c)(?key \<mapsto> p'),
    cl_Privileges = raise_privileges (cl_Privileges c) ?key (View_IsSigner h (Some p')) (View_IsWritable h (Some p')),
    cl_programExecutable = (cl_programExecutable c \<or> (?key = program \<and> View_Executable h (Some p')))\<rparr>"
  have ok: "\<not> (case cl_ByKey c ?key of None \<Rightarrow> False | Some q \<Rightarrow> q \<noteq> p')" "collect_callers h program ?c slots = Inr cs"
    using "3.prems" by (simp_all add: Let_def split: if_splits)
  have key: "?key = av_key (Views h ! p')" by (simp add: View_Key_def)
  have flags: "View_IsSigner h (Some p') = av_isSigner (Views h ! p')" "View_IsWritable h (Some p') = av_isWritable (Views h ! p')"
    "View_Executable h (Some p') = av_executable (Views h ! p')"
    by (simp_all add: View_IsSigner_def View_IsWritable_def View_Executable_def)
  note IH = "3.IH" [OF refl ok(1) ok(2)]
  show ?case using IH unfolding key flags by (auto simp: raise_privileges_of split: if_splits)
qed simp_all

text \<open>
  A request that a caller may make: it names the caller; every account it passes is one of the caller's, under
  the key the instruction asks for; an account is asked to be writable only if the caller holds it writable, to be
  a signer only if it signed for the caller or is an address derived from the caller's program with the given seeds;
  and the program is one of the caller's accounts and executable.
\<close>

definition derived :: "pubkey \<Rightarrow> bytes list list \<Rightarrow> pubkey set" where
  "derived programID signerSeeds = {a. \<exists>seeds \<in> set signerSeeds. CreateProgramAddress seeds programID = Inr a}"

definition held :: "heap \<Rightarrow> Context \<Rightarrow> pubkey \<Rightarrow> (AccountView \<Rightarrow> bool) \<Rightarrow> bool" where
  "held h c key P \<longleftrightarrow> (\<exists>p \<in> pointers (cx_accountSlots c). av_key (Views h ! p) = key \<and> P (Views h ! p))"

definition admissible :: "Context \<Rightarrow> bytes list list \<Rightarrow> heap \<Rightarrow> CPIRequest \<Rightarrow> bool" where
  "admissible c signerSeeds h r \<longleftrightarrow>
     (let i = rq_Instruction r in
      rq_CallerProgramID r = cx_programID c \<and> length (Accounts i) \<le> 255 \<and> length (Data i) \<le> 10240 \<and>
      held h c (ProgramID i) av_executable \<and>
      list_all2 (\<lambda>meta a. \<exists>p \<in> pointers (cx_accountSlots c). a = Some p \<and> av_key (Views h ! p) = Pubkey meta)
        (Accounts i) (rq_Accounts r) \<and>
      (\<forall>meta \<in> set (Accounts i).
        (IsWritable meta \<longrightarrow> held h c (Pubkey meta) av_isWritable) \<and>
        (IsSigner meta \<longrightarrow> held h c (Pubkey meta) av_isSigner \<or> Pubkey meta \<in> derived (cx_programID c) signerSeeds)))"

lemma signers_derived:
  assumes "each (\<lambda>i. signer_address programID (signerSeeds ! i)) [0..<length signerSeeds] = Inr signers"
  shows "set signers \<subseteq> derived programID signerSeeds"
proof
  fix a assume "a \<in> set signers"
  from each_member [OF assms this]
  obtain i where "i < length signerSeeds" "signer_address programID (signerSeeds ! i) = Inr a" by auto
  then show "a \<in> derived programID signerSeeds"
    unfolding derived_def signer_address_def by (auto split: sum.splits if_splits intro!: bexI [of _ "signerSeeds ! i"])
qed

lemma cpi_request_admissible:
  assumes ok: "cpi_request h order (Some invoker) c i accountInfos signerSeeds = Inr (executor, request)"
    and order: "\<forall>ks. set (order ks) = set ks"
  shows "admissible c signerSeeds h request"
proof -
  obtain cs provided signers where
    sizes: "length (Accounts i) \<le> 255" "length (Data i) \<le> 10240" and
    signers: "each (\<lambda>k. signer_address (cx_programID c) (signerSeeds ! k)) [0..<length signerSeeds] = Inr signers" and
    cs: "collect_callers h (ProgramID i) no_callers (cx_accountSlots c) = Inr cs" "cl_programExecutable cs" and
    keys: "check_keys (key_error h cs provided signers (requested_privileges (\<lambda>_. None) (Accounts i))) (order (meta_keys i)) = Inr ()" and
    request: "request = \<lparr>rq_CallerProgramID = cx_programID c, rq_Instruction = Clone i,
      rq_Accounts = map (\<lambda>meta. cl_ByKey cs (Pubkey meta)) (Accounts i), rq_SignerPubkeys = signers\<rparr>"
    using ok unfolding cpi_request_def by (auto simp: and_then_Inr_conv split: if_splits option.splits sum.splits)
  have clone: "Clone i = i" by (simp add: Clone_def)
  note sound = collect_callers_sound [OF cs(1)]
  have fine: "key_error h cs provided signers (requested_privileges (\<lambda>_. None) (Accounts i)) (Pubkey meta) = None"
    if "meta \<in> set (Accounts i)" for meta
    using keys that order by (auto simp: check_keys_iff meta_keys_def)
  have program: "held h c (ProgramID i) av_executable"
    using sound [of "ProgramID i"] cs(2) by (auto simp: held_def no_callers_def)
  have account: "\<exists>p \<in> pointers (cx_accountSlots c). cl_ByKey cs (Pubkey meta) = Some p \<and> av_key (Views h ! p) = Pubkey meta"
    if "meta \<in> set (Accounts i)" for meta
    using fine [OF that] sound [of "Pubkey meta"] by (auto simp: key_error_def no_callers_def split: option.splits)
  have accounts: "list_all2 (\<lambda>meta a. \<exists>p \<in> pointers (cx_accountSlots c). a = Some p \<and> av_key (Views h ! p) = Pubkey meta)
      (Accounts i) (map (\<lambda>meta. cl_ByKey cs (Pubkey meta)) (Accounts i))"
    using account by (auto simp: list_all2_map2 list_all2_same)
  have privileges: "(IsWritable meta \<longrightarrow> held h c (Pubkey meta) av_isWritable) \<and>
      (IsSigner meta \<longrightarrow> held h c (Pubkey meta) av_isSigner \<or> Pubkey meta \<in> derived (cx_programID c) signerSeeds)"
    if m: "meta \<in> set (Accounts i)" for meta
  proof -
    have "pr_writable (privileges_of (cl_Privileges cs) (Pubkey meta))" if "IsWritable meta"
      using fine [OF m] m that
      by (auto simp: key_error_def Let_def requested_privileges_of split: option.splits if_splits)
    moreover have "pr_signer (privileges_of (cl_Privileges cs) (Pubkey meta)) \<or> Pubkey meta \<in> set signers" if "IsSigner meta"
      using fine [OF m] m that
      by (auto simp: key_error_def Let_def requested_privileges_of containsPubkey_def split: option.splits if_splits)
    ultimately show ?thesis
      using sound [of "Pubkey meta"] signers_derived [OF signers] by (auto simp: held_def no_callers_def)
  qed
  show ?thesis
    unfolding admissible_def request Let_def using sizes program accounts privileges by (simp add: clone)
qed

text \<open>An executor that refuses every request that is not admissible.\<close>

definition guarded :: "Context \<Rightarrow> bytes list list \<Rightarrow> CPIExecutor \<Rightarrow> CPIExecutor" where
  "guarded c signerSeeds executor request h =
     (if admissible c signerSeeds h request then executor request h else (h, Inl ErrPrivilegeEscalation))"

lemma cpi_request_guarded:
  "cpi_request h order (Some (invoker\<lparr>iv_Executor := map_option g (iv_Executor invoker)\<rparr>)) c i infos seeds =
     map_sum id (map_prod g id) (cpi_request h order (Some invoker) c i infos seeds)"
  by (auto simp: cpi_request_def and_then_def split: option.splits sum.splits)

text \<open>
  C32.  No cross-program invocation escalates privileges: replacing the executor by one that
  refuses every inadmissible request never changes what \<open>Invoke\<close> does, so an executor is only ever called with
  admissible ones, whatever instruction, account list and seeds the program passes and in whatever order the
  map of requested keys is walked.
\<close>

theorem Invoke_never_escalates:
  assumes "\<forall>ks. set (order ks) = set ks"
  shows "Invoke h order (Some (invoker\<lparr>iv_Executor := map_option (guarded c seeds) (iv_Executor invoker)\<rparr>)) (Some c) i infos seeds =
    Invoke h order (Some invoker) (Some c) i infos seeds"
proof -
  have same: "then_h (h', map_sum id (map_prod (guarded c seeds) id) (cpi_request h' order (Some invoker) c i infos seeds))
      (\<lambda>h (executor, request). deliver h c executor request) =
    then_h (h', cpi_request h' order (Some invoker) c i infos seeds) (\<lambda>h (executor, request). deliver h c executor request)" for h'
  proof (cases "cpi_request h' order (Some invoker) c i infos seeds")
    case (Inr r)
    obtain executor request where r: "r = (executor, request)" by (cases r)
    have "admissible c seeds h' request" using cpi_request_admissible [OF Inr [unfolded r] assms] .
    then have "guarded c seeds executor request h' = executor request h'" by (simp add: guarded_def)
    then have "deliver h' c (guarded c seeds executor) request = deliver h' c executor request"
      by (simp add: deliver_def)
    then show ?thesis by (simp add: Inr r)
  qed simp
  show ?thesis unfolding Invoke_def cpi_request_guarded option.case same ..
qed

theorem Invoke_never_escalates_witness:
  "Invoke (fst two_accounts) id (Some (\<lparr>iv_Executor = Some (\<lambda>_ h. (h, Inr ())), iv_Policy = Some (\<lambda>_ _. Inr ())\<rparr>
      \<lparr>iv_Executor := map_option (guarded (snd two_accounts) []) (Some (\<lambda>_ h. (h, Inr ())))\<rparr>))
      (Some (snd two_accounts)) \<lparr>ProgramID = replicate 32 3, Accounts = [], Data = []\<rparr> [] [] =
    Invoke (fst two_accounts) id (Some \<lparr>iv_Executor = Some (\<lambda>_ h. (h, Inr ())), iv_Policy = Some (\<lambda>_ _. Inr ())\<rparr>)
      (Some (snd two_accounts)) \<lparr>ProgramID = replicate 32 3, Accounts = [], Data = []\<rparr> [] []"
  using Invoke_never_escalates [of id, where h = "fst two_accounts" and c = "snd two_accounts" and
      invoker = "\<lparr>iv_Executor = Some (\<lambda>_ h. (h, Inr ())), iv_Policy = Some (\<lambda>_ _. Inr ())\<rparr>"]
  by simp

end
