(* ===== verification/RtOwnership.thy ===== *)
theory RtOwnership
  imports RtChanges
begin

text \<open>
  Separation: the bytes that belong to one account are apart from those of the others, so operations on one account leave the
  others alone.  The views of one invocation are separate when the windows of all of them (data, owner, lamports and
  length) are in bounds and pairwise apart.
\<close>

section \<open>Windows of a view\<close>

definition of_option :: "'a option \<Rightarrow> 'a list" where
  "of_option x = (case x of None \<Rightarrow> [] | Some y \<Rightarrow> [y])"

lemma set_of_option [simp]: "set (of_option x) = set_option x"
  by (cases x) (simp_all add: of_option_def)

definition view_windows :: "AccountView \<Rightarrow> slice list" where
  "view_windows v = av_data v # of_option (owner_storage v) @ of_option (lamports_storage v) @ of_option (dataLen_storage v)"

text \<open>The part of a view that no operation changes.\<close>

definition fixed :: "AccountView \<Rightarrow> AccountView" where
  "fixed v = v\<lparr>av_owner := [], av_lamports := 0, av_dataLen := 0, av_baselineOwner := [], av_baselineLamports := 0,
     av_baselineDataLen := 0, av_baselineDataHash := []\<rparr>"

lemma fixed_fields:
  "av_memory (fixed v) = av_memory v" "av_isWritable (fixed v) = av_isWritable v" "av_executable (fixed v) = av_executable v"
  "av_isSigner (fixed v) = av_isSigner v" "av_key (fixed v) = av_key v" "av_originalLen (fixed v) = av_originalLen v"
  "av_data (fixed v) = av_data v" "av_raw (fixed v) = av_raw v"
  "av_ownerStorage (fixed v) = av_ownerStorage v" "av_ownerOffset (fixed v) = av_ownerOffset v"
  "av_lamportsStorage (fixed v) = av_lamportsStorage v" "av_lamportsOffset (fixed v) = av_lamportsOffset v"
  "av_dataLenStorage (fixed v) = av_dataLenStorage v" "av_dataLenOffset (fixed v) = av_dataLenOffset v"
  by (simp_all add: fixed_def)

lemma storage_fixed:
  "owner_storage (fixed v) = owner_storage v" "lamports_storage (fixed v) = lamports_storage v"
  "dataLen_storage (fixed v) = dataLen_storage v"
  unfolding owner_storage_def lamports_storage_def dataLen_storage_def field_storage_def fixed_fields by (rule refl)+

lemma windows_fixed: "view_windows (fixed v) = view_windows v"
  unfolding view_windows_def storage_fixed fixed_fields ..

lemma of_fixed:
  assumes "fixed v' = fixed v" and "\<And>w. f (fixed w) = f w"
  shows "f v' = f v"
  using arg_cong [OF assms(1), of f] unfolding assms(2) .

lemma same_fixed:
  assumes "fixed v' = fixed v"
  shows "view_windows v' = view_windows v" "owner_storage v' = owner_storage v" "lamports_storage v' = lamports_storage v"
    "dataLen_storage v' = dataLen_storage v" "av_data v' = av_data v"
    "av_memory v' = av_memory v" "av_isWritable v' = av_isWritable v" "av_executable v' = av_executable v"
    "av_isSigner v' = av_isSigner v" "av_key v' = av_key v" "av_originalLen v' = av_originalLen v"
  by (rule of_fixed [OF assms], rule windows_fixed storage_fixed fixed_fields)+

lemma fixed_updates [simp]:
  "fixed (v\<lparr>av_owner := o'\<rparr>) = fixed v" "fixed (v\<lparr>av_lamports := x\<rparr>) = fixed v" "fixed (v\<lparr>av_dataLen := n\<rparr>) = fixed v"
  "fixed (v\<lparr>av_baselineOwner := o'\<rparr>) = fixed v" "fixed (v\<lparr>av_baselineLamports := x\<rparr>) = fixed v"
  "fixed (v\<lparr>av_baselineDataLen := n\<rparr>) = fixed v" "fixed (v\<lparr>av_baselineDataHash := bs\<rparr>) = fixed v"
  by (simp_all add: fixed_def)

lemma storage_lengths:
  "owner_storage v = Some s \<Longrightarrow> sl_Len s = 32" "lamports_storage v = Some s \<Longrightarrow> sl_Len s = 8"
  "dataLen_storage v = Some s \<Longrightarrow> sl_Len s = 8"
  by (auto simp: owner_storage_def lamports_storage_def dataLen_storage_def field_storage_def split: if_splits option.splits)

section \<open>Separation\<close>

definition separate :: "heap \<Rightarrow> nat set \<Rightarrow> bool" where
  "separate h P \<longleftrightarrow>
     (\<forall>p \<in> P. p < length (Views h) \<and> (\<forall>s \<in> set (view_windows (Views h ! p)). in_bounds_slice h s) \<and>
        sorted_wrt apart_slices (view_windows (Views h ! p)) \<and> av_memory (Views h ! p) = None) \<and>
     (\<forall>p \<in> P. \<forall>q \<in> P. p \<noteq> q \<longrightarrow>
        (\<forall>s \<in> set (view_windows (Views h ! p)). \<forall>t \<in> set (view_windows (Views h ! q)). apart_slices s t))"

lemma separateD:
  assumes "separate h P" and "p \<in> P"
  shows "p < length (Views h)" "s \<in> set (view_windows (Views h ! p)) \<Longrightarrow> in_bounds_slice h s"
    "sorted_wrt apart_slices (view_windows (Views h ! p))" "av_memory (Views h ! p) = None"
    "q \<in> P \<Longrightarrow> p \<noteq> q \<Longrightarrow> s \<in> set (view_windows (Views h ! p)) \<Longrightarrow> t \<in> set (view_windows (Views h ! q)) \<Longrightarrow> apart_slices s t"
  using assms unfolding separate_def by blast+

lemma windows_members:
  "av_data v \<in> set (view_windows v)" "owner_storage v = Some s \<Longrightarrow> s \<in> set (view_windows v)"
  "lamports_storage v = Some s \<Longrightarrow> s \<in> set (view_windows v)" "dataLen_storage v = Some s \<Longrightarrow> s \<in> set (view_windows v)"
  by (simp_all add: view_windows_def)

lemma windows_apart:
  assumes "sorted_wrt apart_slices (view_windows v)"
  shows "owner_storage v = Some s \<Longrightarrow> apart_slices (av_data v) s" "lamports_storage v = Some s \<Longrightarrow> apart_slices (av_data v) s"
    "dataLen_storage v = Some s \<Longrightarrow> apart_slices (av_data v) s"
    "owner_storage v = Some s \<Longrightarrow> lamports_storage v = Some t \<Longrightarrow> apart_slices s t"
    "owner_storage v = Some s \<Longrightarrow> dataLen_storage v = Some t \<Longrightarrow> apart_slices s t"
    "lamports_storage v = Some s \<Longrightarrow> dataLen_storage v = Some t \<Longrightarrow> apart_slices s t"
  using assms by (simp_all add: view_windows_def of_option_def sorted_wrt_append)

text \<open>A later heap with the same windows; arrays and views may have been added.\<close>

definition evolves_to :: "heap \<Rightarrow> heap \<Rightarrow> bool" where
  "evolves_to h h' \<longleftrightarrow>
     length (Arrays h) \<le> length (Arrays h') \<and> (\<forall>i < length (Arrays h). length (Arrays h' ! i) = length (Arrays h ! i)) \<and>
     length (Views h) \<le> length (Views h') \<and> (\<forall>p < length (Views h). fixed (Views h' ! p) = fixed (Views h ! p))"

lemma evolves_to_refl [simp]: "evolves_to h h"
  by (simp add: evolves_to_def)

lemma evolves_to_trans:
  assumes "evolves_to h h'" and "evolves_to h' h''"
  shows "evolves_to h h''"
  unfolding evolves_to_def
proof (intro conjI allI impI)
  show "length (Arrays h) \<le> length (Arrays h'')" "length (Views h) \<le> length (Views h'')"
    using assms by (simp_all add: evolves_to_def)
  show "length (Arrays h'' ! i) = length (Arrays h ! i)" if "i < length (Arrays h)" for i
    using assms that by (simp add: evolves_to_def)
  show "fixed (Views h'' ! p) = fixed (Views h ! p)" if "p < length (Views h)" for p
    using assms that by (simp add: evolves_to_def)
qed

lemma evolves_bounds: "evolves_to h h' \<Longrightarrow> in_bounds_slice h s \<Longrightarrow> in_bounds_slice h' s"
  by (simp add: evolves_to_def in_bounds_slice_def)

lemma evolves_fixed: "evolves_to h h' \<Longrightarrow> p < length (Views h) \<Longrightarrow> fixed (Views h' ! p) = fixed (Views h ! p)"
  by (simp add: evolves_to_def)

lemma separate_evolves:
  assumes sep: "separate h P" and ev: "evolves_to h h'"
  shows "separate h' P"
proof -
  have w: "view_windows (Views h' ! p) = view_windows (Views h ! p)" "av_memory (Views h' ! p) = av_memory (Views h ! p)"
    if "p \<in> P" for p
    using same_fixed(1,6) [OF evolves_fixed [OF ev separateD(1) [OF sep that]]] .
  show ?thesis
    unfolding separate_def
  proof (intro conjI ballI impI)
    fix p assume p: "p \<in> P"
    show "p < length (Views h')" using separateD(1) [OF sep p] ev by (simp add: evolves_to_def)
    show "sorted_wrt apart_slices (view_windows (Views h' ! p))" "av_memory (Views h' ! p) = None"
      unfolding w [OF p] by (rule separateD [OF sep p])+
    show "in_bounds_slice h' s" if "s \<in> set (view_windows (Views h' ! p))" for s
      using that separateD(2) [OF sep p] evolves_bounds [OF ev] unfolding w [OF p] by blast
    show "apart_slices s t" if "q \<in> P" "p \<noteq> q" "s \<in> set (view_windows (Views h' ! p))" "t \<in> set (view_windows (Views h' ! q))" for q s t
      using separateD(5) [OF sep p] that unfolding w [OF p] w [OF that(1)] by blast
  qed
qed

lemma update_keeps: "f y = f (xs ! p) \<Longrightarrow> f (xs[p := y] ! i) = f (xs ! i)"
  by (cases "i = p"; cases "p < length xs") (simp_all add: list_update_beyond)

lemma evolves_put_view:
  assumes "fixed v = fixed (Views h ! p)"
  shows "evolves_to h (put_view h p v)"
  using assms by (simp add: evolves_to_def update_keeps)

lemma evolves_write:
  assumes "in_bounds_slice h s" and "length bs \<le> sl_Len s"
  shows "evolves_to h (write_slice h s bs)"
proof -
  have "length (put_slice (sl_Off s) bs (Arrays h ! sl_Array s)) = length (Arrays h ! sl_Array s)"
    using assms by (simp add: in_bounds_slice_def)
  then show ?thesis by (simp add: evolves_to_def write_slice_def update_keeps [where f = length])
qed

section \<open>What is observed of an account\<close>

definition owner_of :: "heap \<Rightarrow> nat \<Rightarrow> pubkey" where
  "owner_of h p = stored_owner h (Views h ! p)"

definition lamports_of :: "heap \<Rightarrow> nat \<Rightarrow> u64" where
  "lamports_of h p = stored_lamports h (Views h ! p)"

definition data_of :: "heap \<Rightarrow> nat \<Rightarrow> bytes" where
  "data_of h p = read_slice h (av_data (Views h ! p))"

definition length_of :: "heap \<Rightarrow> nat \<Rightarrow> u64" where
  "length_of h p = (case dataLen_storage (Views h ! p) of Some s \<Rightarrow> le_word (read_slice h s)
     | None \<Rightarrow> of_nat (av_dataLen (Views h ! p)))"

lemmas observers = owner_of_def lamports_of_def data_of_def length_of_def stored_owner_def stored_lamports_def

definition same_account :: "heap \<Rightarrow> heap \<Rightarrow> nat \<Rightarrow> bool" where
  "same_account h h' p \<longleftrightarrow>
     owner_of h' p = owner_of h p \<and> lamports_of h' p = lamports_of h p \<and> data_of h' p = data_of h p \<and>
     length_of h' p = length_of h p"

lemma same_account_refl [simp]: "same_account h h p"
  by (simp add: same_account_def)

lemma same_account_trans: "same_account h h' p \<Longrightarrow> same_account h' h'' p \<Longrightarrow> same_account h h'' p"
  by (simp add: same_account_def)

section \<open>Reading through a view\<close>

text \<open>Operations that only refresh cached fields: the bytes stay, and so does what is observed of every account.\<close>

definition refreshes :: "heap \<Rightarrow> heap \<Rightarrow> bool" where
  "refreshes h h' \<longleftrightarrow>
     Arrays h' = Arrays h \<and> length (Views h') = length (Views h) \<and>
     (\<forall>p < length (Views h). fixed (Views h' ! p) = fixed (Views h ! p) \<and> same_account h h' p)"

lemma refreshes_refl [simp]: "refreshes h h"
  by (simp add: refreshes_def)

lemma refreshes_trans:
  assumes "refreshes h h'" and "refreshes h' h''"
  shows "refreshes h h''"
  using assms unfolding refreshes_def by (metis same_account_trans)

lemma refreshes_evolves: "refreshes h h' \<Longrightarrow> evolves_to h h'"
  by (simp add: refreshes_def evolves_to_def)

lemma refreshes_same: "refreshes h h' \<Longrightarrow> p < length (Views h) \<Longrightarrow> same_account h h' p"
  by (simp add: refreshes_def)

text \<open>Putting a view whose cached fields agree with the storage.\<close>

lemma refreshes_put_view:
  assumes f: "fixed v = fixed (Views h ! p)" and o': "av_owner v = av_owner (Views h ! p) \<or> av_owner v = owner_of h p"
    and l: "av_lamports v = av_lamports (Views h ! p) \<or> av_lamports v = lamports_of h p"
    and n: "dataLen_storage v = None \<longrightarrow> av_dataLen v = av_dataLen (Views h ! p)"
  shows "refreshes h (put_view h p v)"
proof -
  note s = same_fixed [OF f]
  have "same_account h (put_view h p v) q" for q
  proof (cases "q = p \<and> p < length (Views h)")
    case True
    then have v: "Views (put_view h p v) ! q = v" "q = p" by simp_all
    have "owner_of (put_view h p v) p = owner_of h p"
      using o' unfolding observers v(1) [unfolded v(2)] s by (cases "owner_storage (Views h ! p)") auto
    moreover have "lamports_of (put_view h p v) p = lamports_of h p"
      using l unfolding observers v(1) [unfolded v(2)] s by (cases "lamports_storage (Views h ! p)") auto
    moreover have "length_of (put_view h p v) p = length_of h p"
      using n unfolding observers v(1) [unfolded v(2)] s by (cases "dataLen_storage (Views h ! p)") auto
    moreover have "data_of (put_view h p v) p = data_of h p"
      unfolding observers v(1) [unfolded v(2)] s by simp
    ultimately show ?thesis unfolding same_account_def v(2) by blast
  next
    case False
    then have v: "Views (put_view h p v) ! q = Views h ! q" by (cases "q = p") (simp_all add: list_update_beyond)
    show ?thesis unfolding same_account_def observers v read_put by simp
  qed
  then show ?thesis using f by (simp add: refreshes_def update_keeps)
qed

lemma View_Owner_refreshes: "View_Owner h (Some p) = (put_view h p ((Views h ! p)\<lparr>av_owner := owner_of h p\<rparr>), owner_of h p)"
  "refreshes h (put_view h p ((Views h ! p)\<lparr>av_owner := owner_of h p\<rparr>))"
proof -
  show "View_Owner h (Some p) = (put_view h p ((Views h ! p)\<lparr>av_owner := owner_of h p\<rparr>), owner_of h p)"
    by (simp add: View_Owner_def owner_of_def Let_def)
  show "refreshes h (put_view h p ((Views h ! p)\<lparr>av_owner := owner_of h p\<rparr>))"
    by (rule refreshes_put_view) simp_all
qed

lemma View_Lamports_refreshes:
  "View_Lamports h (Some p) = (put_view h p ((Views h ! p)\<lparr>av_lamports := lamports_of h p\<rparr>), lamports_of h p)"
  "refreshes h (put_view h p ((Views h ! p)\<lparr>av_lamports := lamports_of h p\<rparr>))"
proof -
  show "View_Lamports h (Some p) = (put_view h p ((Views h ! p)\<lparr>av_lamports := lamports_of h p\<rparr>), lamports_of h p)"
    by (simp add: View_Lamports_def lamports_of_def Let_def)
  show "refreshes h (put_view h p ((Views h ! p)\<lparr>av_lamports := lamports_of h p\<rparr>))"
    by (rule refreshes_put_view) simp_all
qed

text \<open>The cached fields agree with the storage.\<close>

definition synced :: "heap \<Rightarrow> nat \<Rightarrow> bool" where
  "synced h p \<longleftrightarrow> av_owner (Views h ! p) = owner_of h p \<and> av_lamports (Views h ! p) = lamports_of h p \<and>
     of_nat (av_dataLen (Views h ! p)) = length_of h p"

lemma put_view_twice: "put_view (put_view h p v) p w = put_view h p w"
  by (simp add: put_view_def)

lemma synced_put_view:
  assumes f: "fixed v = fixed (Views h ! p)" and p: "p < length (Views h)" and c: "av_owner v = owner_of h p"
    "av_lamports v = lamports_of h p" "of_nat (av_dataLen v) = length_of h p"
  shows "synced (put_view h p v) p"
proof -
  have v: "Views (put_view h p v) ! p = v" using p by simp
  note s = same_fixed [OF f]
  show ?thesis
    using c unfolding synced_def observers v s read_put
    by (cases "owner_storage (Views h ! p)"; cases "lamports_storage (Views h ! p)"; cases "dataLen_storage (Views h ! p)")
      simp_all
qed

lemma Sync_unmapped:
  assumes m: "av_memory (Views h ! p) = None"
  obtains v where "fst (Sync h (Some p)) = put_view h p v" "refreshes h (put_view h p v)"
    "snd (Sync h (Some p)) = Inr () \<and> p < length (Views h) \<longrightarrow> synced (put_view h p v) p"
proof -
  let ?v = "(Views h ! p)\<lparr>av_owner := stored_owner h (Views h ! p), av_lamports := stored_lamports h (Views h ! p)\<rparr>"
  have f: "fixed ?v = fixed (Views h ! p)" by simp
  note s = same_fixed [OF f]
  have plain: "refreshes h (put_view h p ?v)"
    by (rule refreshes_put_view) (simp_all add: owner_of_def lamports_of_def)
  show thesis
  proof (cases "dataLen_storage (Views h ! p)")
    case None
    have "Sync h (Some p) = (put_view h p ?v, Inr ())"
      unfolding Sync_def option.case Let_def s None by (simp add: no_failure_def)
    moreover have "synced (put_view h p ?v) p" if "p < length (Views h)"
      by (rule synced_put_view [OF f that]) (simp_all add: owner_of_def lamports_of_def length_of_def None)
    ultimately show thesis using that [of ?v] plain by simp
  next
    case (Some t)
    define len :: u64 where "len = le_word (read_slice h t)"
    define w where "w = ?v\<lparr>av_dataLen := unat len\<rparr>"
    have f': "fixed w = fixed (Views h ! p)" by (simp add: w_def)
    note s' = same_fixed [OF f']
    have ref: "refreshes h (put_view h p w)"
      by (rule refreshes_put_view) (simp_all add: f' s' Some, simp_all add: w_def owner_of_def lamports_of_def)
    show thesis
    proof (cases "len > of_nat (sl_Len (av_data ?v)) \<or> len > of_nat MaxPermittedDataLength \<or>
              len > of_nat (av_originalLen ?v + MaxPermittedDataIncrease)")
      case True
      have "Sync h (Some p) = fails (put_view h p ?v) ProgramErrorInvalidRealloc"
        unfolding Sync_def option.case Let_def s Some read_put len_def [symmetric]
        using True unfolding s by (simp only: if_True)
      then show thesis using that [of ?v] plain by (simp add: fails_def)
    next
      case False
      have "Sync h (Some p) = (put_view h p w, Inr ())"
        unfolding Sync_def option.case Let_def s Some read_put len_def [symmetric] m
        using False unfolding s
        by (simp only: if_False simp_thms no_failure_def prod.case sum.case put_view_twice w_def)
      moreover have "synced (put_view h p w) p" if "p < length (Views h)"
        by (rule synced_put_view [OF f' that])
          (simp_all add: w_def owner_of_def lamports_of_def length_of_def Some len_def)
      ultimately show thesis using that [of w] ref by simp
    qed
  qed
qed

section \<open>Guards\<close>

lemma refreshes_then:
  assumes "refreshes h (fst r)" and "\<And>h' x. r = (h', Inr x) \<Longrightarrow> refreshes h' (fst (f h' x))"
  shows "refreshes h (fst (then_h r f))"
proof (cases r)
  case (Pair h' y)
  then show ?thesis using assms by (cases y) (auto intro: refreshes_trans)
qed

lemma Sync_refreshes: "av_memory (Views h ! p) = None \<Longrightarrow> refreshes h (fst (Sync h (Some p)))"
  by (rule Sync_unmapped [of h p]) simp_all

lemma guards_keep_heap [simp]:
  "fst (RequireSigner h a) = h" "fst (RequireWritable h a) = h" "fst (no_failure h) = h" "fst (fails h k) = h"
  by (simp_all add: RequireSigner_def RequireWritable_def no_failure_def fails_def)

lemma RequireOwner_refreshes: "refreshes h (fst (RequireOwner h (Some p) owner))"
  using View_Owner_refreshes(2) [of h p] by (auto simp: RequireOwner_def View_Owner_refreshes(1) Let_def)

lemma RequireAccount_refreshes:
  assumes "\<forall>p. AccountAt c i = Inr p \<longrightarrow> av_memory (Views h ! p) = None"
  shows "refreshes h (fst (RequireAccount h c i requirement))"
  unfolding RequireAccount_def
  by (intro refreshes_then)
    (auto simp: assms intro!: Sync_refreshes RequireOwner_refreshes split: option.splits)

lemma then_hE:
  assumes "then_h r f = (h', Inr y)"
  obtains h x where "r = (h, Inr x)" and "f h x = (h', Inr y)"
  using assms unfolding then_h_Inr_conv by blast

lemma RequireAccount_success:
  assumes r: "RequireAccount h c i requirement = (h', Inr p)" 
    and m: "\<forall>p. AccountAt c i = Inr p \<longrightarrow> av_memory (Views h ! p) = None"
  shows "AccountAt c i = Inr p" "refreshes h h'"
    "p < length (Views h) \<Longrightarrow> rq_Writable requirement \<Longrightarrow> av_isWritable (Views h ! p) \<and> \<not> av_executable (Views h ! p)"
    "p < length (Views h) \<Longrightarrow> rq_Owner requirement = Some owner \<Longrightarrow> owner_of h p = owner"
proof -
  show ref: "refreshes h h'" using RequireAccount_refreshes [of c i h requirement, OF m] r by simp
  obtain p' h1 h2 h3 h4 where a': "AccountAt c i = Inr p'" and s': "Sync h (Some p') = (h1, Inr ())"
    and g': "(if rq_Signer requirement then RequireSigner h1 (Some p') else no_failure h1) = (h2, Inr ())"
    and w': "(if rq_Writable requirement then RequireWritable h2 (Some p') else no_failure h2) = (h3, Inr ())"
    and o'': "(case rq_Owner requirement of Some owner \<Rightarrow> RequireOwner h3 (Some p') owner | None \<Rightarrow> no_failure h3) = (h4, Inr ())"
    and e: "(if rq_MinDataLen requirement < 0 then (h4, Inl ErrNegativeMinimum)
       else if int (av_dataLen (Views h4 ! p')) < rq_MinDataLen requirement then fails h4 ProgramErrorAccountDataTooSmall
       else (h4, Inr p')) = (h', Inr p)"
    using r unfolding RequireAccount_def by (elim then_hE) (simp only: prod.inject sum.inject unit_eq)
  have p': "p' = p" using e by (simp add: fails_def split: if_splits)
  note a = a' [unfolded p'] and s = s' [unfolded p'] and g = g' [unfolded p'] and w = w' [unfolded p'] and o' = o'' [unfolded p']
  show "AccountAt c i = Inr p" by (rule a)
  have h2: "h2 = h1" using g guards_keep_heap by (metis fst_conv)
  have h3: "h3 = h2" using w guards_keep_heap by (metis fst_conv)
  have ref1: "refreshes h h1" using Sync_refreshes m a s by (metis fst_conv)
  show "av_isWritable (Views h ! p) \<and> \<not> av_executable (Views h ! p)" if "p < length (Views h)" "rq_Writable requirement"
  proof -
    have "fixed (Views h1 ! p) = fixed (Views h ! p)" using ref1 that(1) by (simp add: refreshes_def)
    then show ?thesis
      using w that(2) same_fixed(7,8) [of "Views h1 ! p" "Views h ! p"] h2
      by (simp add: RequireWritable_def View_IsWritable_def View_Executable_def fails_def no_failure_def split: if_splits)
  qed
  show "owner_of h p = owner" if "p < length (Views h)" "rq_Owner requirement = Some owner"
  proof -
    have "owner_of h1 p = owner"
      using o' that(2) h2 h3
      by (simp add: RequireOwner_def View_Owner_refreshes Let_def fails_def no_failure_def split: if_splits)
    then show ?thesis using refreshes_same [OF ref1 that(1)] by (simp add: same_account_def)
  qed
qed

section \<open>Writing through a view\<close>

text \<open>Operations that write one account: its view and its windows.\<close>

definition touches :: "nat \<Rightarrow> heap \<Rightarrow> heap \<Rightarrow> bool" where
  "touches p h h' \<longleftrightarrow>
     evolves_to h h' \<and> (\<forall>q. q \<noteq> p \<longrightarrow> Views h' ! q = Views h ! q) \<and>
     (\<forall>t. (\<forall>s \<in> set (view_windows (Views h ! p)). apart_slices s t) \<longrightarrow> read_slice h' t = read_slice h t)"

lemma touches_refl [simp]: "touches p h h"
  by (simp add: touches_def)

lemma touches_trans:
  assumes t: "touches p h h'" "touches p h' h''" and p: "p < length (Views h)"
  shows "touches p h h''"
proof -
  have "view_windows (Views h' ! p) = view_windows (Views h ! p)"
    using t(1) evolves_fixed [OF _ p] same_fixed(1) unfolding touches_def by blast
  then show ?thesis
    using t unfolding touches_def by (intro conjI allI impI) (blast intro: evolves_to_trans, simp_all)
qed

lemma touches_others:
  assumes t: "touches p h h'" and sep: "separate h P" and q: "q \<in> P" "p \<in> P" "q \<noteq> p"
  shows "same_account h h' q" "Views h' ! q = Views h ! q"
proof -
  show v: "Views h' ! q = Views h ! q" using t q(3) by (simp add: touches_def)
  have r: "read_slice h' t = read_slice h t" if "t \<in> set (view_windows (Views h ! q))" for t
    using t separateD(5) [OF sep q(2) q(1)] q(3) that unfolding touches_def by blast
  note m = windows_members [of "Views h ! q"]
  show "same_account h h' q"
    unfolding same_account_def observers v
    using r [OF m(1)] r [OF m(2)] r [OF m(3)] r [OF m(4)]
    by (cases "owner_storage (Views h ! q)"; cases "lamports_storage (Views h ! q)"; cases "dataLen_storage (Views h ! q)")
      simp_all
qed

lemma touches_put_view:
  assumes "fixed v = fixed (Views h ! p)"
  shows "touches p h (put_view h p v)"
  using evolves_put_view [OF assms] by (simp add: touches_def)

lemma touches_write:
  assumes "in_bounds_slice h s" and "length bs \<le> sl_Len s" and "s \<in> set (view_windows (Views h ! p))"
  shows "touches p h (write_slice h s bs)"
  using evolves_write [OF assms(1,2)] read_slice_apart [OF assms(1,2)] assms(3) by (simp add: touches_def)

text \<open>Writing one field: the view is replaced by one with the same windows and the field's storage, if it has one, is written.\<close>

lemma write_field_touches:
  assumes sep: "separate h P" and p: "p \<in> P" and f: "fixed v = fixed (Views h ! p)"
    and w: "\<forall>s. storage = Some s \<longrightarrow> s \<in> set (view_windows (Views h ! p)) \<and> length bs = sl_Len s"
  shows "touches p h (write_field (put_view h p v) storage bs)" "Views (write_field (put_view h p v) storage bs) ! p = v"
    "\<And>s. storage = Some s \<Longrightarrow> read_slice (write_field (put_view h p v) storage bs) s = bs"
    "\<And>t. (\<And>s. storage = Some s \<Longrightarrow> apart_slices s t) \<Longrightarrow>
       read_slice (write_field (put_view h p v) storage bs) t = read_slice h t"
proof -
  note lt = separateD(1) [OF sep p]
  have b: "in_bounds_slice (put_view h p v) s" "length bs \<le> sl_Len s" "s \<in> set (view_windows (Views (put_view h p v) ! p))"
    "length bs = sl_Len s" if "storage = Some s" for s
    using w that separateD(2) [OF sep p] lt same_fixed(1) [OF f] by simp_all
  note put = touches_put_view [OF f]
  show "touches p h (write_field (put_view h p v) storage bs)"
  proof (cases storage)
    case (Some s)
    show ?thesis using touches_trans [OF put touches_write [OF b(1-3) [OF Some]] lt] Some by (simp add: write_field_def)
  qed (simp add: write_field_def put)
  show "Views (write_field (put_view h p v) storage bs) ! p = v"
    using lt by (cases storage) (simp_all add: write_field_def)
  show "read_slice (write_field (put_view h p v) storage bs) s = bs" if "storage = Some s" for s
    using read_slice_same [OF b(1,4) [OF that]] that by (simp add: write_field_def)
  show "read_slice (write_field (put_view h p v) storage bs) t = read_slice h t"
    if "\<And>s. storage = Some s \<Longrightarrow> apart_slices s t" for t
    using that read_slice_apart [OF b(1,2)] by (cases storage) (simp_all add: write_field_def)
qed

lemma setLamports_spec:
  assumes sep: "separate h P" and p: "p \<in> P"
  shows "touches p h (setLamports h p x)" "lamports_of (setLamports h p x) p = x"
    "owner_of (setLamports h p x) p = owner_of h p" "data_of (setLamports h p x) p = data_of h p"
    "length_of (setLamports h p x) p = length_of h p"
proof -
  define v where "v = (Views h ! p)\<lparr>av_lamports := x\<rparr>"
  have f: "fixed v = fixed (Views h ! p)" by (simp add: v_def)
  note s = same_fixed [OF f] and a = windows_apart [OF separateD(3) [OF sep p]]
  have e: "setLamports h p x = write_field (put_view h p v) (lamports_storage (Views h ! p)) (le_bytes 8 x)"
    unfolding setLamports_def Let_def v_def [symmetric] s ..
  have w: "\<forall>s. lamports_storage (Views h ! p) = Some s \<longrightarrow>
      s \<in> set (view_windows (Views h ! p)) \<and> length (le_bytes 8 x) = sl_Len s"
    using windows_members(3) storage_lengths(2) by fastforce
  note n = write_field_touches [OF sep p f w, folded e]
  show "touches p h (setLamports h p x)" by (rule n(1))
  show "lamports_of (setLamports h p x) p = x"
    using n(3) by (cases "lamports_storage (Views h ! p)") (simp_all add: observers n(2) s, simp_all add: v_def le_word_le_bytes_full)
  show "owner_of (setLamports h p x) p = owner_of h p"
    unfolding observers n(2) s using n(4) a(4) apart_sym_slices
    by (cases "owner_storage (Views h ! p)") (auto simp: v_def)
  show "data_of (setLamports h p x) p = data_of h p"
    unfolding observers n(2) s using n(4) a(2) apart_sym_slices by auto
  show "length_of (setLamports h p x) p = length_of h p"
    unfolding observers n(2) s using n(4) a(6) by (cases "dataLen_storage (Views h ! p)") (auto simp: v_def)
qed

lemma setOwner_spec:
  assumes sep: "separate h P" and p: "p \<in> P" and l: "owner_storage (Views h ! p) = None \<or> length owner = 32"
  shows "touches p h (setOwner h p owner)" "owner_of (setOwner h p owner) p = owner"
    "lamports_of (setOwner h p owner) p = lamports_of h p" "data_of (setOwner h p owner) p = data_of h p"
    "length_of (setOwner h p owner) p = length_of h p"
proof -
  define v where "v = (Views h ! p)\<lparr>av_owner := owner\<rparr>"
  have f: "fixed v = fixed (Views h ! p)" by (simp add: v_def)
  note s = same_fixed [OF f] and a = windows_apart [OF separateD(3) [OF sep p]]
  have e: "setOwner h p owner = write_field (put_view h p v) (owner_storage (Views h ! p)) owner"
    unfolding setOwner_def Let_def v_def [symmetric] s ..
  have w: "\<forall>s. owner_storage (Views h ! p) = Some s \<longrightarrow>
      s \<in> set (view_windows (Views h ! p)) \<and> length (owner) = sl_Len s"
    using windows_members(2) storage_lengths(1) l by fastforce
  note n = write_field_touches [OF sep p f w, folded e]
  show "touches p h (setOwner h p owner)" by (rule n(1))
  show "owner_of (setOwner h p owner) p = owner"
    using n(3) by (cases "owner_storage (Views h ! p)") (simp_all add: observers n(2) s, simp_all add: v_def)
  show "lamports_of (setOwner h p owner) p = lamports_of h p"
    unfolding observers n(2) s using n(4) a(4) by (cases "lamports_storage (Views h ! p)") (auto simp: v_def)
  show "data_of (setOwner h p owner) p = data_of h p"
    unfolding observers n(2) s using n(4) a(1) apart_sym_slices by auto
  show "length_of (setOwner h p owner) p = length_of h p"
    unfolding observers n(2) s using n(4) a(5) by (cases "dataLen_storage (Views h ! p)") (auto simp: v_def)
qed

lemma copy_data_spec:
  assumes sep: "separate h P" and p: "p \<in> P" and l: "length bs = sl_Len (av_data (Views h ! p))"
  defines "h' \<equiv> copy_to h (av_data (Views h ! p)) bs"
  shows "touches p h h'" "Views h' = Views h" "data_of h' p = bs" "owner_of h' p = owner_of h p"
    "lamports_of h' p = lamports_of h p" "length_of h' p = length_of h p"
proof -
  note a = windows_apart [OF separateD(3) [OF sep p]] and b = separateD(2) [OF sep p windows_members(1)]
  have e: "h' = write_slice h (av_data (Views h ! p)) bs" using l by (simp add: h'_def copy_to_def)
  show v: "Views h' = Views h" by (simp add: e)
  show "touches p h h'" unfolding e by (rule touches_write [OF b _ windows_members(1)]) (simp add: l)
  show "data_of h' p = bs" unfolding data_of_def v unfolding e by (rule read_slice_same [OF b l])
  have r: "read_slice h' t = read_slice h t" if "apart_slices (av_data (Views h ! p)) t" for t
    unfolding e by (rule read_slice_apart [OF b _ that]) (simp add: l)
  show "owner_of h' p = owner_of h p" unfolding observers v using r a(1) by (cases "owner_storage (Views h ! p)") auto
  show "lamports_of h' p = lamports_of h p" unfolding observers v using r a(2) by (cases "lamports_storage (Views h ! p)") auto
  show "length_of h' p = length_of h p" unfolding observers v using r a(3) by (cases "dataLen_storage (Views h ! p)") auto
qed

lemma set_length_spec:
  assumes sep: "separate h P" and p: "p \<in> P"
    and h'_def: "h' = putAccountDataLength (put_view h p ((Views h ! p)\<lparr>av_dataLen := n\<rparr>)) p n"
  shows "touches p h h'" "av_dataLen (Views h' ! p) = n" "length_of h' p = of_nat n" "owner_of h' p = owner_of h p"
    "lamports_of h' p = lamports_of h p" "data_of h' p = data_of h p"
proof -
  define v where "v = (Views h ! p)\<lparr>av_dataLen := n\<rparr>"
  have f: "fixed v = fixed (Views h ! p)" by (simp add: v_def)
  note s = same_fixed [OF f] and a = windows_apart [OF separateD(3) [OF sep p]]
  have w: "\<forall>s. dataLen_storage (Views h ! p) = Some s \<longrightarrow>
      s \<in> set (view_windows (Views h ! p)) \<and> length (le_bytes 8 (of_nat n :: u64)) = sl_Len s"
    using windows_members(4) storage_lengths(3) by fastforce
  have "Views (put_view h p v) ! p = v" using separateD(1) [OF sep p] by simp
  then have e: "h' = write_field (put_view h p v) (dataLen_storage (Views h ! p)) (le_bytes 8 (of_nat n :: u64))"
    unfolding h'_def v_def [symmetric] putAccountDataLength_def by (simp add: s)
  note n = write_field_touches [OF sep p f w, folded e]
  show "touches p h h'" by (rule n(1))
  show "av_dataLen (Views h' ! p) = n" by (simp add: n(2)) (simp add: v_def)
  show "length_of h' p = of_nat n"
    using n(3) by (cases "dataLen_storage (Views h ! p)") (simp_all add: observers n(2) s, simp_all add: v_def le_word_le_bytes_full)
  show "owner_of h' p = owner_of h p"
    unfolding observers n(2) s using n(4) a(5) apart_sym_slices by (cases "owner_storage (Views h ! p)") (auto simp: v_def)
  show "lamports_of h' p = lamports_of h p"
    unfolding observers n(2) s using n(4) a(6) apart_sym_slices by (cases "lamports_storage (Views h ! p)") (auto simp: v_def)
  show "data_of h' p = data_of h p"
    unfolding observers n(2) s using n(4) a(3) apart_sym_slices by auto
qed

section \<open>Restoring a snapshot\<close>

definition snapshot_fits :: "heap \<Rightarrow> accountSnapshot \<Rightarrow> bool" where
  "snapshot_fits h s \<longleftrightarrow>
     (owner_storage (Views h ! sn_account s) = None \<or> length (sn_owner s) = 32) \<and>
     length (sn_data s) = sl_Len (av_data (Views h ! sn_account s))"

definition restored :: "heap \<Rightarrow> accountSnapshot \<Rightarrow> bool" where
  "restored h s \<longleftrightarrow>
     owner_of h (sn_account s) = sn_owner s \<and> lamports_of h (sn_account s) = sn_lamports s \<and>
     data_of h (sn_account s) = sn_data s \<and> length_of h (sn_account s) = of_nat (sn_dataLen s) \<and>
     av_dataLen (Views h ! sn_account s) = sn_dataLen s"

lemma touches_view:
  assumes "touches p h h'" and "p < length (Views h)"
  shows "av_data (Views h' ! p) = av_data (Views h ! p)" "owner_storage (Views h' ! p) = owner_storage (Views h ! p)"
    "av_memory (Views h' ! p) = av_memory (Views h ! p)"
  using same_fixed(5,2,6) [OF evolves_fixed [OF _ assms(2)]] assms(1) unfolding touches_def by blast+

lemma restore_snapshot_spec:
  assumes sep: "separate h P" and p: "sn_account s \<in> P" and fits: "snapshot_fits h s"
  shows "touches (sn_account s) h (restore_snapshot s h)" "restored (restore_snapshot s h) s"
proof -
  define p where "p = sn_account s"
  define h1 where "h1 = setOwner h p (sn_owner s)"
  define h2 where "h2 = setLamports h1 p (sn_lamports s)"
  define h3 where "h3 = copy_to h2 (av_data (Views h2 ! p)) (sn_data s)"
  define h4 where "h4 = putAccountDataLength (put_view h3 p ((Views h3 ! p)\<lparr>av_dataLen := sn_dataLen s\<rparr>)) p (sn_dataLen s)"
  have pP: "p \<in> P" using p by (simp add: p_def)
  have lt: "p < length (Views h)" by (rule separateD(1) [OF sep pP])
  have o': "owner_storage (Views h ! p) = None \<or> length (sn_owner s) = 32" using fits by (simp add: snapshot_fits_def p_def)
  note s1 = setOwner_spec [OF sep pP o', folded h1_def]
  have ev1: "evolves_to h h1" using s1(1) by (simp add: touches_def)
  have sep1: "separate h1 P" by (rule separate_evolves [OF sep ev1])
  note s2 = setLamports_spec [OF sep1 pP, of "sn_lamports s", folded h2_def]
  have t2: "touches p h h2" by (rule touches_trans [OF s1(1) s2(1) lt])
  have sep2: "separate h2 P" using t2 separate_evolves [OF sep] by (simp add: touches_def)
  have l: "length (sn_data s) = sl_Len (av_data (Views h2 ! p))"
    using fits touches_view(1) [OF t2 lt] by (simp add: snapshot_fits_def p_def)
  note s3 = copy_data_spec [OF sep2 pP l, folded h3_def]
  have t3: "touches p h h3" by (rule touches_trans [OF t2 s3(1) lt])
  have sep3: "separate h3 P" using t3 separate_evolves [OF sep] by (simp add: touches_def)
  note s4 = set_length_spec [OF sep3 pP h4_def]
  have t4: "touches p h h4" by (rule touches_trans [OF t3 s4(1) lt])
  have m: "av_memory (Views h3 ! p) = None" by (rule separateD(4) [OF sep3 pP])
  have lt3: "p < length (Views h3)" by (rule separateD(1) [OF sep3 pP])
  have e: "restore_snapshot s h = h4"
    unfolding restore_snapshot_def Let_def p_def [symmetric] h1_def [symmetric] h2_def [symmetric] h3_def [symmetric] h4_def
    using m lt3 by simp
  show "touches (sn_account s) h (restore_snapshot s h)" using t4 unfolding e p_def .
  show "restored (restore_snapshot s h) s"
    unfolding restored_def e p_def [symmetric] using s4 s3 s2 s1 by simp
qed

end
