(* ===== verification/RtTransfer.thy ===== *)
theory RtTransfer
  imports RtOwnership
begin

text \<open>
  Moving lamports: \<open>TransferLamports\<close> of \<open>src/runtime/account.go\<close> on accounts whose bytes are apart.
\<close>

lemma AccountAt_pointer:
  assumes "AccountAt (Some c) i = Inr p"
  shows "p \<in> pointers (cx_accountSlots c)"
proof -
  have i: "nat i < length (cx_accountSlots c)" "cx_accountSlots c ! nat i = Some p"
    using assms by (auto simp: AccountAt_def split: if_splits option.splits)
  then show ?thesis using nth_mem [OF i(1)] by (simp add: pointers_def)
qed

lemma put_refreshes:
  assumes "refreshes h h1"
  shows "refreshes h (put_view h1 p ((Views h1 ! p)\<lparr>av_owner := owner_of h1 p\<rparr>))"
    "refreshes h (put_view h1 p ((Views h1 ! p)\<lparr>av_lamports := lamports_of h1 p\<rparr>))"
  using refreshes_trans [OF assms] View_Owner_refreshes(2) View_Lamports_refreshes(2) by blast+

lemma refreshed:
  assumes "refreshes h h'" and "separate h P"
  shows "separate h' P" "r \<in> P \<Longrightarrow> same_account h h' r" "r \<in> P \<Longrightarrow> lamports_of h' r = lamports_of h r"
    "r \<in> P \<Longrightarrow> owner_of h' r = owner_of h r"
proof -
  show "separate h' P" by (rule separate_evolves [OF assms(2) refreshes_evolves [OF assms(1)]])
  show "same_account h h' r" if "r \<in> P" by (rule refreshes_same [OF assms(1) separateD(1) [OF assms(2) that]])
  then show "lamports_of h' r = lamports_of h r" "owner_of h' r = owner_of h r" if "r \<in> P"
    using that by (simp_all add: same_account_def)
qed

text \<open>The last two steps: take \<open>amount\<close> from one account and give it to another, perhaps the same.\<close>

lemma move_lamports:
  assumes sep: "separate h P" and p: "p \<in> P" and q: "q \<in> P" and enough: "amount \<le> lamports_of h p"
    and room: "lamports_of h q \<le> - 1 - amount" and r: "r \<in> P"
  defines "h1 \<equiv> setLamports h p (lamports_of h p - amount)"
  defines "h2 \<equiv> put_view h1 q ((Views h1 ! q)\<lparr>av_lamports := lamports_of h1 q\<rparr>)"
  defines "h3 \<equiv> setLamports h2 q (lamports_of h1 q + amount)"
  shows "owner_of h3 r = owner_of h r" "data_of h3 r = data_of h r" "length_of h3 r = length_of h r"
    "unat (lamports_of h3 r) + (if r = p then unat amount else 0) = unat (lamports_of h r) + (if r = q then unat amount else 0)"
    "evolves_to h h3"
proof -
  note s1 = setLamports_spec [OF sep p, of "lamports_of h p - amount", folded h1_def]
  have ev1: "evolves_to h h1" using s1(1) by (simp add: touches_def)
  have sep1: "separate h1 P" by (rule separate_evolves [OF sep ev1])
  have ref: "refreshes h1 h2" unfolding h2_def by (rule View_Lamports_refreshes(2))
  note g = refreshed [OF ref sep1]
  note s3 = setLamports_spec [OF g(1) q, of "lamports_of h1 q + amount", folded h3_def]
  show "evolves_to h h3"
    using evolves_to_trans [OF ev1 evolves_to_trans [OF refreshes_evolves [OF ref]]] s3(1) by (simp add: touches_def)
  have a: "owner_of h1 r = owner_of h r" "data_of h1 r = data_of h r" "length_of h1 r = length_of h r"
    "lamports_of h1 r = (if r = p then lamports_of h p - amount else lamports_of h r)"
    using s1 touches_others(1) [OF s1(1) sep r p] by (cases "r = p"; simp add: same_account_def)+
  have b: "owner_of h2 r = owner_of h1 r" "data_of h2 r = data_of h1 r" "length_of h2 r = length_of h1 r"
    "lamports_of h2 r = lamports_of h1 r"
    using g(2) [OF r] by (simp_all add: same_account_def)
  have c: "owner_of h3 r = owner_of h2 r" "data_of h3 r = data_of h2 r" "length_of h3 r = length_of h2 r"
    "lamports_of h3 r = (if r = q then lamports_of h1 q + amount else lamports_of h2 r)"
    using s3 touches_others(1) [OF s3(1) g(1) r q] by (cases "r = q"; simp add: same_account_def)+
  show "owner_of h3 r = owner_of h r" "data_of h3 r = data_of h r" "length_of h3 r = length_of h r"
    using a b c by simp_all
  have sub: "unat (lamports_of h p - amount) = unat (lamports_of h p) - unat amount" by (rule unat_sub [OF enough])
  have le: "unat amount \<le> unat (lamports_of h p)" using enough by (simp add: word_le_nat_alt)
  have add: "unat (lamports_of h q + amount) = unat (lamports_of h q) + unat amount"
  proof -
    have "unat (- 1 - amount) = unat (- 1 :: u64) - unat amount" by (rule unat_sub) simp
    then have "unat (- 1 - amount) = 2 ^ 64 - 1 - unat amount"
      by (simp add: unsigned_minus_1_eq_mask mask_eq_exp_minus_1)
    then have "unat (lamports_of h q) \<le> 2 ^ 64 - 1 - unat amount" using room by (simp add: word_le_nat_alt)
    then have "unat (lamports_of h q) + unat amount < 2 ^ 64" using unat_bound [of amount] by linarith
    then show ?thesis by (simp add: unat_word_ariths)
  qed
  have self: "lamports_of h q - amount + amount = lamports_of h q" by simp
  show "unat (lamports_of h3 r) + (if r = p then unat amount else 0) = unat (lamports_of h r) + (if r = q then unat amount else 0)"
    unfolding c(4) b(4) a(4)
    using sub add le self s1(2) touches_others(1) [OF s1(1) sep q p]
    by (cases "r = p"; cases "r = q"; cases "p = q") (auto simp: same_account_def)
qed

text \<open>The whole operation.\<close>

definition permitted_transfer :: "heap \<Rightarrow> Context \<Rightarrow> nat \<Rightarrow> nat \<Rightarrow> u64 \<Rightarrow> bool" where
  "permitted_transfer h c p q amount \<longleftrightarrow>
     av_isWritable (Views h ! p) \<and> \<not> av_executable (Views h ! p) \<and> av_isWritable (Views h ! q) \<and>
     \<not> av_executable (Views h ! q) \<and> owner_of h p = cx_programID c \<and> amount \<le> lamports_of h p"

definition moved :: "heap \<Rightarrow> heap \<Rightarrow> nat \<Rightarrow> nat \<Rightarrow> u64 \<Rightarrow> nat \<Rightarrow> bool" where
  "moved h h' p q amount r \<longleftrightarrow>
     owner_of h' r = owner_of h r \<and> data_of h' r = data_of h r \<and> length_of h' r = length_of h r \<and>
     unat (lamports_of h' r) + (if r = p then unat amount else 0) = unat (lamports_of h r) + (if r = q then unat amount else 0)"

lemma TransferLamports_cases:
  assumes sep: "separate h P" and P: "pointers (cx_accountSlots c) \<subseteq> P"
  obtains (failed) h' e where "TransferLamports h c source destination amount = (h', Inl e)" "refreshes h h'"
  | (success) h' p q where "TransferLamports h c source destination amount = (h', Inr ())" "AccountAt (Some c) source = Inr p"
      "AccountAt (Some c) destination = Inr q" "permitted_transfer h c p q amount" "\<And>r. r \<in> P \<Longrightarrow> moved h h' p q amount r"
      "evolves_to h h'"
proof (cases "RequireAccount h (Some c) source writable_only")
  case (Pair h1 r1)
  have unmapped: "\<forall>p. AccountAt (Some c) i = Inr p \<longrightarrow> av_memory (Views h' ! p) = None" if "separate h' P" for h' i
    using separateD(4) [OF that] AccountAt_pointer P by blast
  have ref1: "refreshes h h1"
    using RequireAccount_refreshes [of "Some c" source h writable_only] unmapped [OF sep] Pair by simp
  note sep1 = refreshed(1) [OF ref1 sep]
  show thesis
  proof (cases r1)
    case (Inl e)
    then show thesis using failed [of h1 e] ref1 Pair by (simp add: TransferLamports_def)
  next
    case (Inr p)
    note req1 = RequireAccount_success [OF Pair [unfolded Inr] unmapped [OF sep]]
    have p: "p \<in> P" using AccountAt_pointer [OF req1(1)] P by blast
    show thesis
    proof (cases "RequireAccount h1 (Some c) destination writable_only")
      case second: (Pair h2 r2)
      have "refreshes h1 h2"
        using RequireAccount_refreshes [of "Some c" destination h1 writable_only] unmapped [OF sep1] second by simp
      then have ref2: "refreshes h h2" by (rule refreshes_trans [OF ref1])
      note sep2 = refreshed(1) [OF ref2 sep]
      show thesis
      proof (cases r2)
        case (Inl e)
        then show thesis using failed [of h2 e] ref2 Pair Inr second by (simp add: TransferLamports_def)
      next
        case InrQ: (Inr q)
        note req2 = RequireAccount_success [OF second [unfolded InrQ] unmapped [OF sep1]]
        have q: "q \<in> P" using AccountAt_pointer [OF req2(1)] P by blast
        define h3 where "h3 = put_view h2 p ((Views h2 ! p)\<lparr>av_owner := owner_of h2 p\<rparr>)"
        define h4 where "h4 = put_view h3 p ((Views h3 ! p)\<lparr>av_lamports := lamports_of h3 p\<rparr>)"
        define h5 where "h5 = put_view h4 q ((Views h4 ! q)\<lparr>av_lamports := lamports_of h4 q\<rparr>)"
        define h6 where "h6 = put_view h5 p ((Views h5 ! p)\<lparr>av_lamports := lamports_of h5 p\<rparr>)"
        define h7 where "h7 = setLamports h6 p (lamports_of h5 p - amount)"
        define h8 where "h8 = put_view h7 q ((Views h7 ! q)\<lparr>av_lamports := lamports_of h7 q\<rparr>)"
        define h9 where "h9 = setLamports h8 q (lamports_of h7 q + amount)"
        have e: "TransferLamports h c source destination amount =
          (if owner_of h2 p \<noteq> cx_programID c then fails h3 ProgramErrorIllegalOwner
           else if lamports_of h3 p < amount then fails h4 ProgramErrorInsufficientFunds
           else if lamports_of h4 q > - 1 - amount then fails h5 ProgramErrorArithmeticOverflow
           else no_failure h9)"
          unfolding TransferLamports_def Pair Inr then_h_simps second InrQ View_Owner_refreshes(1) View_Lamports_refreshes(1)
            Let_def prod.case h9_def h8_def h7_def h6_def h5_def h4_def h3_def ..
        have ref3: "refreshes h h3" unfolding h3_def by (rule put_refreshes(1) [OF ref2])
        have ref4: "refreshes h h4" unfolding h4_def by (rule put_refreshes(2) [OF ref3])
        have ref5: "refreshes h h5" unfolding h5_def by (rule put_refreshes(2) [OF ref4])
        have ref6: "refreshes h h6" unfolding h6_def by (rule put_refreshes(2) [OF ref5])
        note sep6 = refreshed(1) [OF ref6 sep]
        have lam: "lamports_of h3 p = lamports_of h p" "lamports_of h4 q = lamports_of h q"
          "lamports_of h5 p = lamports_of h6 p" "owner_of h2 p = owner_of h p"
          "lamports_of h6 p = lamports_of h p" "lamports_of h6 q = lamports_of h q"
          using refreshed(3) [OF ref3 sep p] refreshed(3) [OF ref4 sep q] refreshed(3) [OF ref5 sep p]
            refreshed(3) [OF ref6 sep p] refreshed(3) [OF ref6 sep q] refreshed(4) [OF ref2 sep p] by simp_all
        show thesis
        proof (cases "owner_of h p \<noteq> cx_programID c \<or> lamports_of h p < amount \<or> lamports_of h q > - 1 - amount")
          case True
          then obtain h' e' where "TransferLamports h c source destination amount = (h', Inl e')" "refreshes h h'"
            unfolding e lam fails_def using ref3 ref4 ref5 by metis
          then show thesis by (rule failed)
        next
          case False
          then have done_e: "TransferLamports h c source destination amount = (h9, Inr ())"
            unfolding e lam by (simp add: no_failure_def)
          have "amount \<le> lamports_of h6 p" "lamports_of h6 q \<le> - 1 - amount"
            unfolding lam(5,6) using False by (simp_all add: not_less)
          note mv = move_lamports [OF sep6 p q this, folded lam(3), folded h7_def, folded h8_def, folded h9_def]
          have "permitted_transfer h c p q amount"
            unfolding permitted_transfer_def
            using req1(3) req2(3) False separateD(1) [OF sep p] separateD(1) [OF sep1 q] separateD(1) [OF sep q]
              same_fixed(7,8) [of "Views h1 ! q" "Views h ! q"] ref1
            by (simp add: writable_only_def refreshes_def not_less)
          moreover have "moved h h9 p q amount r" if r: "r \<in> P" for r
            unfolding moved_def using mv(1-4) [OF r] refreshed(2) [OF ref6 sep r] by (simp add: same_account_def)
          moreover have "evolves_to h h9"
            by (rule evolves_to_trans [OF refreshes_evolves [OF ref6] mv(5) [OF p]])
          ultimately show thesis using success [OF done_e req1(1) req2(1)] by blast
        qed
      qed
    qed
  qed
qed

section \<open>Native contexts\<close>

definition native_view :: "nat \<Rightarrow> AccountView \<Rightarrow> bytes \<Rightarrow> bool" where
  "native_view k v bs \<longleftrightarrow>
     av_memory v = None \<and> view_windows v = [\<lparr>sl_Array = k, sl_Off = 0, sl_Len = length bs, sl_Cap = length bs\<rparr>]"

lemma newAccountView_adds:
  obtains v bs where "newAccountView h a = (h\<lparr>Arrays := Arrays h @ [bs], Views := Views h @ [v]\<rparr>, length (Views h))"
    "native_view (length (Arrays h)) v bs"
proof -
  let ?bs = "ac_Data a @ replicate MaxPermittedDataIncrease 0"
  define h1 where "h1 = fst (newAccountView h a)"
  have "newAccountView h a = (h\<lparr>Arrays := Arrays h @ [?bs], Views := Views h @ [Views h1 ! length (Views h)]\<rparr>, length (Views h))"
    unfolding h1_def newAccountView_def
    by (simp add: Let_def new_array_def new_view_def acceptBaseline_def put_view_def)
  moreover have "native_view (length (Arrays h)) (Views h1 ! length (Views h)) ?bs"
    unfolding h1_def newAccountView_def
    by (simp add: Let_def new_array_def new_view_def acceptBaseline_def put_view_def native_view_def view_windows_def
        of_option_def owner_storage_def lamports_storage_def dataLen_storage_def field_storage_def nil_slice_def)
  ultimately show thesis by (rule that)
qed

lemma newAccountViews_adds:
  "\<exists>xs vs. newAccountViews h as = (h\<lparr>Arrays := Arrays h @ xs, Views := Views h @ vs\<rparr>,
      [length (Views h)..<length (Views h) + length as]) \<and> length xs = length as \<and> length vs = length as \<and>
      (\<forall>i < length as. native_view (length (Arrays h) + i) (vs ! i) (xs ! i))"
proof (induction as arbitrary: h)
  case Nil
  show ?case by simp
next
  case (Cons a as)
  obtain v bs where one: "newAccountView h a = (h\<lparr>Arrays := Arrays h @ [bs], Views := Views h @ [v]\<rparr>, length (Views h))"
    "native_view (length (Arrays h)) v bs"
    by (rule newAccountView_adds)
  obtain xs vs where rest: "newAccountViews (h\<lparr>Arrays := Arrays h @ [bs], Views := Views h @ [v]\<rparr>) as =
      (h\<lparr>Arrays := Arrays h @ bs # xs, Views := Views h @ v # vs\<rparr>,
       [Suc (length (Views h))..<Suc (length (Views h)) + length as])"
    "length xs = length as" "length vs = length as"
    "\<forall>i < length as. native_view (Suc (length (Arrays h)) + i) (vs ! i) (xs ! i)"
    using Cons.IH [of "h\<lparr>Arrays := Arrays h @ [bs], Views := Views h @ [v]\<rparr>"] by auto
  have "native_view (length (Arrays h) + i) ((v # vs) ! i) ((bs # xs) ! i)" if "i < length (a # as)" for i
    using one(2) rest(4) that by (cases i) simp_all
  moreover have "newAccountViews h (a # as) = (h\<lparr>Arrays := Arrays h @ bs # xs, Views := Views h @ v # vs\<rparr>,
      [length (Views h)..<length (Views h) + length (a # as)])"
    by (simp add: one(1) rest(1) upt_rec [of "length (Views h)"] del: upt_Suc)
  ultimately show ?case using rest(2,3) by (intro exI [of _ "bs # xs"] exI [of _ "v # vs"]) simp
qed

lemma NewContext_separate:
  assumes c: "NewContext h programID accounts instructionData = (h', c)"
  shows "pointers (cx_accountSlots c) = {length (Views h)..<length (Views h) + length accounts}"
    "separate h' (pointers (cx_accountSlots c))"
proof -
  obtain xs vs where e: "newAccountViews h accounts = (h\<lparr>Arrays := Arrays h @ xs, Views := Views h @ vs\<rparr>,
      [length (Views h)..<length (Views h) + length accounts])" and l: "length xs = length accounts" "length vs = length accounts"
    and n: "\<forall>i < length accounts. native_view (length (Arrays h) + i) (vs ! i) (xs ! i)"
    using newAccountViews_adds by blast
  have h': "h' = h\<lparr>Arrays := Arrays h @ xs, Views := Views h @ vs\<rparr>"
    and s: "cx_accountSlots c = map Some [length (Views h)..<length (Views h) + length accounts]"
    using c unfolding NewContext_def e by auto
  show P: "pointers (cx_accountSlots c) = {length (Views h)..<length (Views h) + length accounts}"
    unfolding s pointers_def by auto
  have v: "av_memory (Views h' ! p) = None"
      "view_windows (Views h' ! p) = [\<lparr>sl_Array = length (Arrays h) + (p - length (Views h)), sl_Off = 0,
         sl_Len = length (xs ! (p - length (Views h))), sl_Cap = length (xs ! (p - length (Views h)))\<rparr>]"
      "p - length (Views h) < length accounts" "length (Views h) \<le> p"
    if "p \<in> {length (Views h)..<length (Views h) + length accounts}" for p
  proof -
    have i: "p - length (Views h) < length accounts" "length (Views h) \<le> p" using that by auto
    then show "p - length (Views h) < length accounts" "length (Views h) \<le> p" .
    have "Views h' ! p = vs ! (p - length (Views h))" using i by (simp add: h' nth_append)
    then show "av_memory (Views h' ! p) = None"
      "view_windows (Views h' ! p) = [\<lparr>sl_Array = length (Arrays h) + (p - length (Views h)), sl_Off = 0,
         sl_Len = length (xs ! (p - length (Views h))), sl_Cap = length (xs ! (p - length (Views h)))\<rparr>]"
      using n i(1) by (simp_all add: native_view_def)
  qed
  show "separate h' (pointers (cx_accountSlots c))"
    unfolding separate_def P
  proof (intro conjI ballI impI)
    fix p assume p: "p \<in> {length (Views h)..<length (Views h) + length accounts}"
    note w = v [OF p]
    show "p < length (Views h')" using p l by (simp add: h')
    show "sorted_wrt apart_slices (view_windows (Views h' ! p))" "av_memory (Views h' ! p) = None"
      by (simp_all add: w(1,2))
    show "in_bounds_slice h' s" if "s \<in> set (view_windows (Views h' ! p))" for s
      using that [unfolded w(2)] l w(3) by (simp add: in_bounds_slice_def h' nth_append)
    fix q assume q: "q \<in> {length (Views h)..<length (Views h) + length accounts}" and pq: "p \<noteq> q"
    show "apart_slices s t" if "s \<in> set (view_windows (Views h' ! p))" "t \<in> set (view_windows (Views h' ! q))" for s t
      using that [unfolded w(2) v(2) [OF q]] w(4) v(4) [OF q] pq by (simp add: apart_slices_def) arith
  qed
qed

section \<open>Properties\<close>

text \<open>
  C33.  A transfer of lamports between accounts whose bytes are apart either fails, and then no balance, owner, length or
  byte of an account has changed, or it moves exactly the amount from a writable account the program owns to a writable
  account, and the sum of all balances is what it was.
\<close>

theorem TransferLamports_moves:
  assumes "separate h P" and "pointers (cx_accountSlots c) \<subseteq> P"
  shows "case TransferLamports h c source destination amount of
      (h', Inl e) \<Rightarrow> \<forall>r \<in> P. same_account h h' r
    | (h', Inr _) \<Rightarrow> separate h' P \<and> (\<Sum>r \<in> P. unat (lamports_of h' r)) = (\<Sum>r \<in> P. unat (lamports_of h r)) \<and>
        (\<exists>p q. AccountAt (Some c) source = Inr p \<and> AccountAt (Some c) destination = Inr q \<and>
          permitted_transfer h c p q amount \<and> (\<forall>r \<in> P. moved h h' p q amount r))"
proof (cases rule: TransferLamports_cases [OF assms, of source destination amount, case_names failed success])
  case (failed h' e)
  then show ?thesis using refreshed(2) [OF failed(2) assms(1)] by simp
next
  case (success h' p q)
  have mem: "p \<in> P" "q \<in> P" using success(2,3) AccountAt_pointer assms(2) by blast+
  have fin: "finite P" by (rule finite_subset [of _ "{..<length (Views h)}"]) (use separateD(1) [OF assms(1)] in auto)
  have "(\<Sum>r \<in> P. unat (lamports_of h' r) + (if r = p then unat amount else 0)) =
      (\<Sum>r \<in> P. unat (lamports_of h r) + (if r = q then unat amount else 0))"
    by (rule sum.cong) (use success(5) in \<open>simp_all add: moved_def\<close>)
  then have "(\<Sum>r \<in> P. unat (lamports_of h' r)) = (\<Sum>r \<in> P. unat (lamports_of h r))"
    using mem fin by (simp add: sum.distrib)
  then show ?thesis using success separate_evolves [OF assms(1) success(6)] by auto
qed

definition two_writable :: "heap \<times> Context" where
  "two_writable = NewContext \<lparr>Arrays = [], Maps = [], Views = []\<rparr> (replicate 32 1)
     [\<lparr>ac_Key = replicate 32 2, ac_Owner = replicate 32 1, ac_Lamports = 5, ac_Data = [7], ac_IsSigner = False,
       ac_IsWritable = True, ac_Executable = False\<rparr>,
      \<lparr>ac_Key = replicate 32 3, ac_Owner = replicate 32 9, ac_Lamports = 1, ac_Data = [], ac_IsSigner = False,
       ac_IsWritable = True, ac_Executable = False\<rparr>] []"

lemma two_writable_separate: "separate (fst two_writable) {0..<2}" "pointers (cx_accountSlots (snd two_writable)) \<subseteq> {0..<2}"
proof -
  have sep: "separate (fst two_writable) (pointers (cx_accountSlots (snd two_writable)))"
    unfolding two_writable_def by (rule NewContext_separate(2) [OF prod.collapse [symmetric]])
  have "pointers (cx_accountSlots (snd two_writable)) = {0..<2}"
    unfolding two_writable_def by (subst NewContext_separate(1) [OF prod.collapse [symmetric]]) (simp add: numeral_2_eq_2)
  then show "separate (fst two_writable) {0..<2}" "pointers (cx_accountSlots (snd two_writable)) \<subseteq> {0..<2}"
    using sep by simp_all
qed

theorem TransferLamports_moves_witness:
  "case TransferLamports (fst two_writable) (snd two_writable) 0 1 2 of
      (h', Inl e) \<Rightarrow> \<forall>r \<in> {0..<2}. same_account (fst two_writable) h' r
    | (h', Inr _) \<Rightarrow> separate h' {0..<2} \<and>
        (\<Sum>r \<in> {0..<2}. unat (lamports_of h' r)) = (\<Sum>r \<in> {0..<2}. unat (lamports_of (fst two_writable) r)) \<and>
        (\<exists>p q. AccountAt (Some (snd two_writable)) 0 = Inr p \<and> AccountAt (Some (snd two_writable)) 1 = Inr q \<and>
          permitted_transfer (fst two_writable) (snd two_writable) p q 2 \<and> (\<forall>r \<in> {0..<2}. moved (fst two_writable) h' p q 2 r))"
  by (rule TransferLamports_moves [OF two_writable_separate])

end
