(* ===== verification/RtAtomic.thy ===== *)
theory RtAtomic
  imports RtTransfer
begin

text \<open>
  Failed invocations change nothing: \<open>Invoke\<close> of \<open>src/runtime/cpi.go\<close> restores every account of the caller from the
  snapshots it takes before the executor runs.
\<close>

section \<open>Synchronising all accounts\<close>

lemma synced_refreshes_one:
  assumes "q \<noteq> p" and "synced h q"
  shows "synced (put_view h p v) q"
  using assms by (simp add: synced_def observers read_slice_def cong: option.case_cong)

lemma sync_slots_unmapped:
  assumes "\<forall>p \<in> pointers slots. p < length (Views h) \<and> av_memory (Views h ! p) = None"
    and "\<forall>p \<in> set seen. synced h p"
  shows "refreshes h (fst (sync_slots h seen slots)) \<and>
    (snd (sync_slots h seen slots) = Inr () \<longrightarrow> (\<forall>p \<in> pointers slots \<union> set seen. synced (fst (sync_slots h seen slots)) p))"
  using assms
proof (induction h seen slots rule: sync_slots.induct)
  case (1 h seen)
  then show ?case by (simp add: no_failure_def)
next
  case (2 h seen slots)
  then show ?case by simp
next
  case (3 h seen p slots)
  show ?case
  proof (cases "p \<in> set seen")
    case True
    then show ?thesis using 3 by (simp add: insert_absorb)
  next
    case False
    have p: "p < length (Views h)" "av_memory (Views h ! p) = None" using "3.prems"(1) by simp_all
    obtain v where v: "fst (Sync h (Some p)) = put_view h p v" "refreshes h (put_view h p v)"
      "snd (Sync h (Some p)) = Inr () \<and> p < length (Views h) \<longrightarrow> synced (put_view h p v) p"
      by (rule Sync_unmapped [OF p(2)])
    show ?thesis
    proof (cases "snd (Sync h (Some p))")
      case (Inl e)
      then have "Sync h (Some p) = (put_view h p v, Inl e)" using v(1) by (simp add: prod_eq_iff)
      then show ?thesis using v(2) False by simp
    next
      case (Inr u)
      then have s: "Sync h (Some p) = (put_view h p v, Inr ())" using v(1) by (simp add: prod_eq_iff)
      have "\<forall>q \<in> pointers slots. q < length (Views (put_view h p v)) \<and> av_memory (Views (put_view h p v) ! q) = None"
      proof
        fix q assume "q \<in> pointers slots"
        then have q: "q < length (Views h)" "av_memory (Views h ! q) = None" using "3.prems"(1) by simp_all
        have "fixed (Views (put_view h p v) ! q) = fixed (Views h ! q)" using v(2) q(1) by (simp add: refreshes_def)
        from same_fixed(6) [OF this] show "q < length (Views (put_view h p v)) \<and> av_memory (Views (put_view h p v) ! q) = None"
          using q by simp
      qed
      moreover have "\<forall>q \<in> set (p # seen). synced (put_view h p v) q"
      proof
        fix q assume q: "q \<in> set (p # seen)"
        show "synced (put_view h p v) q"
        proof (cases "q = p")
          case True
          then show ?thesis using v(3) s p(1) by simp
        next
          case False
          then show ?thesis using synced_refreshes_one "3.prems"(2) q by simp
        qed
      qed
      ultimately have "refreshes (put_view h p v) (fst (sync_slots (put_view h p v) (p # seen) slots)) \<and>
        (snd (sync_slots (put_view h p v) (p # seen) slots) = Inr () \<longrightarrow>
          (\<forall>q \<in> pointers slots \<union> set (p # seen). synced (fst (sync_slots (put_view h p v) (p # seen) slots)) q))"
        using "3.IH"(2) [OF False, of "put_view h p v"] by blast
      then show ?thesis using refreshes_trans [OF v(2)] False s by simp
    qed
  qed
qed

lemma SyncAccounts_unmapped:
  assumes sep: "separate h P" and P: "pointers (cx_accountSlots c) \<subseteq> P"
  shows "refreshes h (fst (SyncAccounts h (Some c)))"
    "SyncAccounts h (Some c) = (h', Inr ()) \<Longrightarrow> p \<in> pointers (cx_accountSlots c) \<Longrightarrow> synced h' p"
proof -
  have "\<forall>p \<in> pointers (cx_accountSlots c). p < length (Views h) \<and> av_memory (Views h ! p) = None"
    using separateD(1,4) [OF sep] P by blast
  from sync_slots_unmapped [where seen = "[]", OF this]
  show "refreshes h (fst (SyncAccounts h (Some c)))"
    "SyncAccounts h (Some c) = (h', Inr ()) \<Longrightarrow> p \<in> pointers (cx_accountSlots c) \<Longrightarrow> synced h' p"
    by (simp_all add: SyncAccounts_def)
qed

lemma ValidateProgramChanges_heap: "fst (ValidateProgramChanges h c) = fst (SyncAccounts h (Some c))"
proof (cases "SyncAccounts h (Some c)")
  case (Pair h' r)
  then show ?thesis by (cases r) (simp_all add: ValidateProgramChanges_def no_failure_def split: sum.splits)
qed

lemma ValidateProgramChanges_syncs:
  assumes "ValidateProgramChanges h c = (h', Inr ())"
  shows "SyncAccounts h (Some c) = (h', Inr ())"
proof (cases "SyncAccounts h (Some c)")
  case (Pair h1 r)
  then show ?thesis
    using assms ValidateProgramChanges_heap [of h c] by (cases r) (simp_all add: ValidateProgramChanges_def)
qed

section \<open>Snapshots\<close>

definition snap :: "heap \<Rightarrow> nat \<Rightarrow> accountSnapshot" where
  "snap h p = \<lparr>sn_account = p, sn_owner = av_owner (Views h ! p), sn_lamports = av_lamports (Views h ! p),
     sn_data = read_slice h (av_data (Views h ! p)), sn_dataLen = av_dataLen (Views h ! p)\<rparr>"

lemma snapshotAccounts_fresh: "snapshotAccounts h slots = map (snap h) (fresh [] slots)"
proof -
  have "snapshot_slots h seen slots = map (snap h) (fresh seen slots)" for seen
    by (induction h seen slots rule: snapshot_slots.induct) (simp_all add: snap_def Let_def)
  then show ?thesis by (simp add: snapshotAccounts_def)
qed

lemma snap_fits:
  assumes sep: "separate h P" and p: "p \<in> P" and s: "synced h p" and ev: "evolves_to h h'"
  shows "snapshot_fits h' (snap h p)"
proof -
  note f = same_fixed(2,5) [OF evolves_fixed [OF ev separateD(1) [OF sep p]]]
  have "length (av_owner (Views h ! p)) = 32" if "owner_storage (Views h ! p) = Some t" for t
    using s length_read [OF separateD(2) [OF sep p windows_members(2) [OF that]]] storage_lengths(1) [OF that] that
    by (simp add: synced_def observers)
  moreover have "length (read_slice h (av_data (Views h ! p))) = sl_Len (av_data (Views h ! p))"
    by (rule length_read [OF separateD(2) [OF sep p windows_members(1)]])
  ultimately show ?thesis by (cases "owner_storage (Views h ! p)") (simp_all add: snapshot_fits_def snap_def f)
qed

lemma restored_snap:
  assumes "restored h' (snap h p)" and "synced h p"
  shows "same_account h h' p"
  using assms by (simp add: restored_def snap_def synced_def same_account_def data_of_def)

text \<open>Restoring the snapshots of distinct accounts.\<close>

lemma restore_all:
  assumes "separate h P" and "\<forall>s \<in> set ss. sn_account s \<in> P \<and> snapshot_fits h s" and "distinct (map sn_account ss)"
  shows "(\<forall>s \<in> set ss. restored (restoreAccountSnapshots h ss) s) \<and>
    (\<forall>q \<in> P - sn_account ` set ss. same_account h (restoreAccountSnapshots h ss) q \<and>
       Views (restoreAccountSnapshots h ss) ! q = Views h ! q) \<and> evolves_to h (restoreAccountSnapshots h ss)"
  using assms
proof (induction ss arbitrary: h)
  case Nil
  then show ?case by (simp add: restoreAccountSnapshots_def)
next
  case (Cons s ss)
  define h1 where "h1 = restore_snapshot s h"
  have p: "sn_account s \<in> P" "snapshot_fits h s" using Cons.prems(2) by simp_all
  note r = restore_snapshot_spec [OF Cons.prems(1) p, folded h1_def]
  have ev: "evolves_to h h1" using r(1) by (simp add: touches_def)
  have e: "restoreAccountSnapshots h (s # ss) = restoreAccountSnapshots h1 ss"
    by (simp add: restoreAccountSnapshots_def h1_def)
  have fits: "snapshot_fits h1 t" if "snapshot_fits h t" "sn_account t \<in> P" for t
    using that same_fixed(2,5) [OF evolves_fixed [OF ev separateD(1) [OF Cons.prems(1) that(2)]]]
    by (simp add: snapshot_fits_def)
  have IH: "(\<forall>s \<in> set ss. restored (restoreAccountSnapshots h1 ss) s) \<and>
    (\<forall>q \<in> P - sn_account ` set ss. same_account h1 (restoreAccountSnapshots h1 ss) q \<and>
       Views (restoreAccountSnapshots h1 ss) ! q = Views h1 ! q) \<and> evolves_to h1 (restoreAccountSnapshots h1 ss)"
    by (rule Cons.IH) (use Cons.prems fits separate_evolves [OF Cons.prems(1) ev] in auto)
  have "sn_account s \<in> P - sn_account ` set ss" using Cons.prems(3) p by auto
  then have "same_account h1 (restoreAccountSnapshots h1 ss) (sn_account s)"
    "Views (restoreAccountSnapshots h1 ss) ! sn_account s = Views h1 ! sn_account s"
    using IH by blast+
  then have here: "restored (restoreAccountSnapshots h1 ss) s"
    using r(2) by (simp add: restored_def same_account_def)
  have "same_account h (restoreAccountSnapshots h1 ss) q \<and> Views (restoreAccountSnapshots h1 ss) ! q = Views h ! q"
    if "q \<in> P - sn_account ` set (s # ss)" for q
    using that IH touches_others [OF r(1) Cons.prems(1) _ p(1), of q] same_account_trans by fastforce
  then show ?case unfolding e using here IH evolves_to_trans [OF ev] by auto
qed

section \<open>A failed invocation\<close>

text \<open>What an executor may do: change the bytes and the cached fields of views, add arrays and views; not move a window.\<close>

definition keeps_windows :: "CPIExecutor \<Rightarrow> bool" where
  "keeps_windows executor \<longleftrightarrow> (\<forall>request h. evolves_to h (fst (executor request h)))"

lemma rollback:
  assumes sep: "separate h P" and P: "P = pointers (cx_accountSlots c)" and s: "\<forall>p \<in> P. synced h p" and ev: "evolves_to h h1"
    and p: "p \<in> P"
  shows "same_account h (restoreAccountSnapshots h1 (snapshotAccounts h (cx_accountSlots c))) p"
proof -
  let ?ss = "map (snap h) (fresh [] (cx_accountSlots c))"
  have acc: "sn_account (snap h q) = q" for q by (simp add: snap_def)
  have "\<forall>t \<in> set ?ss. sn_account t \<in> P \<and> snapshot_fits h1 t"
    using snap_fits [OF sep _ _ ev] s by (auto simp: set_fresh P acc)
  moreover have "distinct (map sn_account ?ss)" using distinct_fresh by (simp add: comp_def acc)
  ultimately have "restored (restoreAccountSnapshots h1 ?ss) (snap h p)"
    using restore_all [OF separate_evolves [OF sep ev]] p by (auto simp: set_fresh P)
  then show ?thesis using restored_snap s p by (simp add: snapshotAccounts_fresh)
qed

lemma deliver_failure:
  assumes sep: "separate h P" and P: "P = pointers (cx_accountSlots c)" and s: "\<forall>p \<in> P. synced h p"
    and k: "keeps_windows executor" and d: "deliver h c executor request = (h', Inl e)" and p: "p \<in> P"
  shows "same_account h h' p"
proof (cases "executor request h")
  case (Pair h1 r)
  have ev: "evolves_to h h1" using k Pair unfolding keeps_windows_def by (metis fst_conv)
  show ?thesis
  proof (cases r)
    case (Inl e')
    then show ?thesis using d Pair rollback [OF sep P s ev p] by (simp add: deliver_def)
  next
    case (Inr u)
    obtain h2 r2 where a: "acceptAccountBaselines h1 c = (h2, r2)" by (cases "acceptAccountBaselines h1 c")
    have sep1: "separate h1 P" by (rule separate_evolves [OF sep ev])
    from d Pair Inr a obtain e' where r2: "r2 = Inl e'" and h': "h' = restoreAccountSnapshots h2 (snapshotAccounts h (cx_accountSlots c))"
      by (cases r2) (simp_all add: deliver_def no_failure_def)
    have "fst (SyncAccounts h1 (Some c)) = h2"
      using a r2 by (cases "SyncAccounts h1 (Some c)"; cases "snd (SyncAccounts h1 (Some c))")
        (simp_all add: acceptAccountBaselines_def no_failure_def)
    then have "evolves_to h h2"
      using evolves_to_trans [OF ev refreshes_evolves] SyncAccounts_unmapped(1) [OF sep1, of c] P by auto
    then show ?thesis unfolding h' using rollback [OF sep P s _ p] by simp
  qed
qed

lemma Invoke_failure:
  assumes sep: "separate h P" and P: "P = pointers (cx_accountSlots c)"
    and k: "\<forall>iv executor. invoker = Some iv \<longrightarrow> iv_Executor iv = Some executor \<longrightarrow> keeps_windows executor"
    and i: "Invoke h order invoker (Some c) instruction infos seeds = (h', Inl e)" and p: "p \<in> P"
  shows "same_account h h' p"
proof -
  have lt: "p < length (Views h)" by (rule separateD(1) [OF sep p])
  obtain h1 r1 where s1: "SyncAccounts h (Some c) = (h1, r1)" by (cases "SyncAccounts h (Some c)")
  have ref1: "refreshes h h1" using SyncAccounts_unmapped(1) [OF sep, of c] P s1 by simp
  note sep1 = refreshed(1) [OF ref1 sep]
  obtain h2 r2 where s2: "ValidateProgramChanges h1 c = (h2, r2)" by (cases "ValidateProgramChanges h1 c")
  have ref2: "refreshes h1 h2"
    using SyncAccounts_unmapped(1) [OF sep1, of c] P s2 ValidateProgramChanges_heap [of h1 c] by simp
  note sep2 = refreshed(1) [OF ref2 sep1]
  have same1: "same_account h h1 p" and same2: "same_account h h2 p"
    using refreshed(2) [OF ref1 sep p] refreshed(2) [OF ref2 sep1 p] same_account_trans by blast+
  show ?thesis
  proof (cases r1)
    case (Inl e')
    then show ?thesis using i s1 same1 by (simp add: Invoke_def)
  next
    case r1: (Inr u)
    show ?thesis
    proof (cases r2)
      case (Inl e')
      then show ?thesis using i s1 s2 r1 same2 by (simp add: Invoke_def)
    next
      case r2: (Inr u)
      show ?thesis
      proof (cases "cpi_request h2 order invoker c instruction infos seeds")
        case (Inl e')
        then show ?thesis using i s1 s2 r1 r2 same2 by (simp add: Invoke_def)
      next
        case (Inr er)
        obtain executor request where er: "er = (executor, request)" by (cases er)
        have d: "deliver h2 c executor request = (h', Inl e)"
          using i s1 s2 r1 r2 Inr er by (simp add: Invoke_def)
        have "\<exists>iv. invoker = Some iv \<and> iv_Executor iv = Some executor"
          using Inr er by (auto simp: cpi_request_def and_then_Inr_conv split: if_splits option.splits sum.splits)
        then have "keeps_windows executor" using k by blast
        moreover have "\<forall>q \<in> P. synced h2 q"
          using SyncAccounts_unmapped(2) [OF sep1, of c h2] ValidateProgramChanges_syncs [of h1 c h2] s2 r2 P by simp
        ultimately have "same_account h2 h' p" using deliver_failure [OF sep2 P _ _ d p] by blast
        then show ?thesis using same2 same_account_trans by blast
      qed
    qed
  qed
qed


definition failing_executor :: CPIExecutor where
  "failing_executor request h = (put_view h 0 ((Views h ! 0)\<lparr>av_owner := [], av_lamports := 0, av_dataLen := 7\<rparr>), Inl (OtherError 1))"


end
