(* ===== verification/RtParse.thy ===== *)
theory RtParse
  imports RtAtomic
begin

text \<open>
  What the parser of \<open>src/runtime/abi.go\<close> accepts, with every offset written out, and the state of the accounts it
  builds.
\<close>

section \<open>Steps of the cursor\<close>

lemma then_h_value: "then_h (h, r) f = (h', Inr y) \<longleftrightarrow> (\<exists>x. r = Inr x \<and> f h x = (h', Inr y))"
  by (cases r) simp_all

lemma take_at_Inr:
  "take_at input off n = Inr x \<longleftrightarrow> off + n \<le> sl_Len input \<and> x = (off + n, reslice input off (off + n))"
  by (auto simp: take_at_def)

lemma u8_at_Inr:
  "u8_at h input off = Inr x \<longleftrightarrow> off + 1 \<le> sl_Len input \<and> x = (off + 1, read_slice h (reslice input off (off + 1)) ! 0)"
  by (auto simp: u8_at_def and_then_Inr_conv take_at_Inr)

lemma word_at_Inr:
  "word_at h input off = Inr x \<longleftrightarrow> off + 8 \<le> sl_Len input \<and> x = (off + 8, le_word (read_slice h (reslice input off (off + 8))))"
  by (auto simp: word_at_def and_then_Inr_conv take_at_Inr)

definition flag_ok :: "heap \<Rightarrow> slice \<Rightarrow> bool \<Rightarrow> nat \<Rightarrow> bool" where
  "flag_ok h input strict off \<longleftrightarrow> strict \<longrightarrow> read_slice h (reslice input off (off + 1)) ! 0 \<le> 1"

definition flag_at :: "heap \<Rightarrow> slice \<Rightarrow> nat \<Rightarrow> bool" where
  "flag_at h input off \<longleftrightarrow> read_slice h (reslice input off (off + 1)) ! 0 \<noteq> 0"

lemma boolean_at_Inr:
  "boolean_at h input strict off = Inr x \<longleftrightarrow>
     off + 1 \<le> sl_Len input \<and> flag_ok h input strict off \<and> x = (off + 1, flag_at h input off)"
  by (auto simp: boolean_at_def and_then_Inr_conv u8_at_Inr flag_ok_def flag_at_def not_less)

section \<open>One account\<close>

text \<open>The end of an account record whose data starts at \<open>off\<close>.\<close>

definition record_end :: "nat \<Rightarrow> nat \<Rightarrow> nat" where
  "record_end off n = off + (n + MaxPermittedDataIncrease) + alignmentPadding n + 8"

definition record_region :: "nat \<Rightarrow> nat \<Rightarrow> AccountRegion" where
  "record_region off n =
     \<lparr>rg_VMAddress = MMInputStart + of_nat (off - 1), rg_KeyAddress = MMInputStart + of_nat (off + 7),
      rg_OwnerAddress = MMInputStart + of_nat (off + 39), rg_LamportsAddress = MMInputStart + of_nat (off + 71),
      rg_DataAddress = MMInputStart + of_nat (off + 87), rg_OriginalDataLen = n, rg_DuplicateOf = - 1,
      rg_RecordByteOffset = int (off - 1)\<rparr>"

definition mark_length :: "heap \<Rightarrow> slice \<Rightarrow> nat \<Rightarrow> nat \<Rightarrow> heap" where
  "mark_length h input off n = write_slice h (reslice input (off + 3) (off + 7)) (le_bytes 4 (of_nat n :: u32))"

definition record_view :: "heap \<Rightarrow> slice \<Rightarrow> nat \<Rightarrow> nat \<Rightarrow> AccountView" where
  "record_view h input off n =
     parsed_view (mark_length h input off n) input (flag_at h input off, flag_at h input (off + 1), flag_at h input (off + 2))
       (reslice input (off + 7) (off + 39), reslice input (off + 39) (off + 71)) (off + 39, off + 71, off + 79)
       (le_word (read_slice h (reslice input (off + 71) (off + 79)))) (reslice input (off + 87) (off + 87 + (n + MaxPermittedDataIncrease))) n"

lemma capacity_Inr: "or_invalid (checkedAddInt n m) = Inr x \<longleftrightarrow> n + m \<le> MaxInt \<and> x = n + m"
  by (auto simp: or_invalid_def checkedAddInt_def)

lemma parse_account_Inr:
  assumes "ps_off st + 1 = off"
  shows "parse_account h input strict st off = (h', Inr st') \<longleftrightarrow>
    (let dataLen = le_word (read_slice h (reslice input (off + 79) (off + 87))) :: u64; n = unat dataLen in
     flag_ok h input strict off \<and> flag_ok h input strict (off + 1) \<and> flag_ok h input strict (off + 2) \<and>
     dataLen \<le> of_nat MaxPermittedDataLength \<and> record_end (off + 87) n \<le> sl_Len input \<and>
     h' = acceptBaseline (fst (new_view (mark_length h input off n) (record_view h input off n))) (Some (length (Views h))) \<and>
     st' = \<lparr>ps_off = record_end (off + 87) n, ps_accounts = ps_accounts st @ [length (Views h)],
       ps_regions = ps_regions st @ [record_region off n]\<rparr>)"
proof -
  have comm: "79 + off = off + 79" "87 + off = off + 87" "7 + off = off + 7" "39 + off = off + 39" "71 + off = off + 71"
    "Suc (Suc (Suc off)) = off + 3"
    by simp_all
  define L where "L = (le_word (read_slice h (reslice input (off + 79) (off + 87))) :: u64)"
  have bound: "\<not> 4294967295 < L" "unat L + 10240 \<le> MaxInt" "\<not> 10485760 < L" if "L \<le> 10485760"
    using that by (simp_all add: word_less_nat_alt word_le_nat_alt)
  have off: "ps_off st = off - Suc 0" using assms by simp
  show ?thesis
    unfolding parse_account_def Let_def then_h_value boolean_at_Inr take_at_Inr word_at_Inr
    using bound
    by (auto simp: then_h_value take_at_Inr word_at_Inr boolean_at_Inr capacity_Inr new_view_def Let_def
      mark_length_def record_view_def record_region_def record_end_def not_less comm L_def [symmetric] off)
qed

section \<open>The accounts of a parsed input\<close>

definition within :: "slice \<Rightarrow> nat \<Rightarrow> slice \<Rightarrow> bool" where
  "within input n s \<longleftrightarrow>
     sl_Array s = sl_Array input \<and> sl_Off input \<le> sl_Off s \<and> sl_Off s + sl_Len s \<le> sl_Off input + n"

lemma within_mono: "within input n s \<Longrightarrow> n \<le> m \<Longrightarrow> within input m s"
  by (simp add: within_def)

lemma within_apart: "within input n s \<Longrightarrow> n \<le> lo \<Longrightarrow> apart_slices s (reslice input lo hi)"
  by (simp add: within_def apart_slices_def)

definition parsed :: "heap \<Rightarrow> slice \<Rightarrow> parse_state \<Rightarrow> bool" where
  "parsed h input st \<longleftrightarrow>
     in_bounds_slice h input \<and> ps_off st \<le> sl_Len input \<and> separate h (set (ps_accounts st)) \<and>
     (\<forall>p \<in> set (ps_accounts st). synced h p \<and> (\<forall>s \<in> set (view_windows (Views h ! p)). within input (ps_off st) s))"

lemma parsed_duplicate:
  assumes "parsed h input st" and "parse_duplicate input st (ps_off st + 1) marker = Inr st'"
  shows "parsed h input st'"
proof -
  from assms(2) have m: "unat marker < length (ps_accounts st)"
    and st': "ps_off st' = ps_off st + 8" "set (ps_accounts st') = set (ps_accounts st)" "ps_off st + 8 \<le> sl_Len input"
    by (auto simp: parse_duplicate_def and_then_Inr_conv take_at_Inr not_le insert_absorb split: if_splits)
  have "within input (ps_off st + 8) s" if "within input (ps_off st) s" for s using that by (simp add: within_def)
  then show ?thesis using assms(1) st' by (simp add: parsed_def)
qed

lemma record_windows:
  assumes "fixed v = fixed (record_view h input off n)"
  shows "owner_storage v = Some (reslice input (off + 39) (off + 71))" "lamports_storage v = Some (reslice input (off + 71) (off + 79))"
    "dataLen_storage v = Some (reslice input (off + 79) (off + 87))" "av_memory v = None"
    "av_data v = reslice input (off + 87) (off + 87 + (n + MaxPermittedDataIncrease))"
proof -
  have "owner_storage (record_view h input off n) = Some (reslice input (off + 39) (off + 71))"
    "lamports_storage (record_view h input off n) = Some (reslice input (off + 71) (off + 79))"
    "dataLen_storage (record_view h input off n) = Some (reslice input (off + 79) (off + 87))"
    "av_memory (record_view h input off n) = None"
    "av_data (record_view h input off n) = reslice input (off + 87) (off + 87 + (n + MaxPermittedDataIncrease))"
    by (simp_all add: record_view_def parsed_view_def owner_storage_def lamports_storage_def dataLen_storage_def field_storage_def)
  then show "owner_storage v = Some (reslice input (off + 39) (off + 71))"
    "lamports_storage v = Some (reslice input (off + 71) (off + 79))"
    "dataLen_storage v = Some (reslice input (off + 79) (off + 87))" "av_memory v = None"
    "av_data v = reslice input (off + 87) (off + 87 + (n + MaxPermittedDataIncrease))"
    by (simp_all only: same_fixed [OF assms])
qed

text \<open>The heap after one more account: the last view is new, the arrays are those with the length marked.\<close>

definition with_record :: "heap \<Rightarrow> slice \<Rightarrow> nat \<Rightarrow> nat \<Rightarrow> heap" where
  "with_record h input off n =
     acceptBaseline (fst (new_view (mark_length h input off n) (record_view h input off n))) (Some (length (Views h)))"

lemma with_record_fields:
  "Arrays (with_record h input off n) = Arrays (mark_length h input off n)"
  "length (Views (with_record h input off n)) = Suc (length (Views h))"
  "p < length (Views h) \<Longrightarrow> Views (with_record h input off n) ! p = Views h ! p"
  "fixed (Views (with_record h input off n) ! length (Views h)) = fixed (record_view h input off n)"
  "av_owner (Views (with_record h input off n) ! length (Views h)) = av_owner (record_view h input off n)"
  "av_lamports (Views (with_record h input off n) ! length (Views h)) = av_lamports (record_view h input off n)"
  "av_dataLen (Views (with_record h input off n) ! length (Views h)) = av_dataLen (record_view h input off n)"
  by (simp_all add: with_record_def acceptBaseline_def new_view_def mark_length_def Let_def nth_append)

lemma read_arrays: "Arrays h' = Arrays h \<Longrightarrow> read_slice h' s = read_slice h s"
  by (simp add: read_slice_def)

lemma parsed_record:
  assumes inv: "parsed h input st" and off: "ps_off st + 1 = off"
    and n: "n = unat (le_word (read_slice h (reslice input (off + 79) (off + 87))) :: u64)"
    and fits: "record_end (off + 87) n \<le> sl_Len input"
    and st': "ps_off st' = record_end (off + 87) n" "ps_accounts st' = ps_accounts st @ [length (Views h)]"
  shows "parsed (with_record h input off n) input st'"
proof -
  let ?h = "with_record h input off n" and ?q = "length (Views h)"
  have bnd: "in_bounds_slice h input" and sep: "separate h (set (ps_accounts st))"
    and old: "\<And>p. p \<in> set (ps_accounts st) \<Longrightarrow> synced h p"
      "\<And>p s. p \<in> set (ps_accounts st) \<Longrightarrow> s \<in> set (view_windows (Views h ! p)) \<Longrightarrow> within input (ps_off st) s"
    using inv by (simp_all add: parsed_def)
  have room: "off + 87 + (n + MaxPermittedDataIncrease) \<le> sl_Len input" using fits by (simp add: record_end_def)
  have mb: "in_bounds_slice h (reslice input (off + 3) (off + 7))" by (rule bounds_reslice [OF bnd]) (use room in auto)
  have ml: "length (le_bytes 4 (of_nat n :: u32)) \<le> sl_Len (reslice input (off + 3) (off + 7))" by simp
  have read: "read_slice ?h s = read_slice h s" if "apart_slices (reslice input (off + 3) (off + 7)) s" for s
    using read_slice_apart [OF mb ml that] unfolding mark_length_def [symmetric]
    by (simp add: read_arrays [OF with_record_fields(1)])
  have len: "length (Arrays (mark_length h input off n) ! i) = length (Arrays h ! i)" if "i < length (Arrays h)" for i
    using evolves_write [OF mb ml] that by (simp add: evolves_to_def mark_length_def)
  have bounds: "in_bounds_slice ?h s" if "in_bounds_slice h s" for s
    using that len evolves_bounds [OF evolves_write [OF mb ml] that]
    by (simp add: in_bounds_slice_def with_record_fields(1) mark_length_def)
  note w = record_windows [OF with_record_fields(4) [of h input off n]]
  have windows: "view_windows (Views ?h ! ?q) =
    [reslice input (off + 87) (off + 87 + (n + MaxPermittedDataIncrease)), reslice input (off + 39) (off + 71),
     reslice input (off + 71) (off + 79), reslice input (off + 79) (off + 87)]"
    by (simp add: view_windows_def w of_option_def)
  have oldv: "p < ?q" "Views ?h ! p = Views h ! p" if "p \<in> set (ps_accounts st)" for p
    using separateD(1) [OF sep that] with_record_fields(3) by blast+
  have apart_new: "apart_slices s t"
    if "p \<in> set (ps_accounts st)" "s \<in> set (view_windows (Views h ! p))" "t \<in> set (view_windows (Views ?h ! ?q))" for p s t
    using that(3) within_apart [OF old(2) [OF that(1,2)]] off unfolding windows by auto
  have syn_old: "synced ?h p" if p: "p \<in> set (ps_accounts st)" for p
  proof -
    have r: "read_slice ?h s = read_slice h s" if "s \<in> set (view_windows (Views h ! p))" for s
      by (rule read) (use within_apart [OF old(2) [OF p that], of "off + 3" "off + 7"] off apart_sym_slices in auto)
    note m = windows_members [of "Views h ! p"]
    show ?thesis
      using old(1) [OF p] r [OF m(2)] r [OF m(3)] r [OF m(4)] unfolding synced_def observers oldv(2) [OF p]
      by (cases "owner_storage (Views h ! p)"; cases "lamports_storage (Views h ! p)"; cases "dataLen_storage (Views h ! p)") simp_all
  qed
  have syn_new: "synced ?h ?q"
    unfolding synced_def observers w option.case with_record_fields(5-7)
    using read [of "reslice input (off + 71) (off + 79)"] read [of "reslice input (off + 79) (off + 87)"]
    by (simp add: record_view_def parsed_view_def apart_slices_def n read_arrays [OF with_record_fields(1)])
  have "separate ?h (insert ?q (set (ps_accounts st)))"
    unfolding separate_def
  proof (intro conjI ballI impI)
    fix p assume p: "p \<in> insert ?q (set (ps_accounts st))"
    show "p < length (Views ?h)" using p oldv(1) by (auto simp: with_record_fields(2) less_Suc_eq)
    show "av_memory (Views ?h ! p) = None" using p w(4) separateD(4) [OF sep] oldv(2) by auto
    show "sorted_wrt apart_slices (view_windows (Views ?h ! p))"
      using p separateD(3) [OF sep] oldv(2) windows by (auto simp: apart_slices_def)
    show "in_bounds_slice ?h s" if "s \<in> set (view_windows (Views ?h ! p))" for s
      using p that separateD(2) [OF sep] oldv(2) bounds bounds_reslice [OF bnd] room unfolding windows by (auto simp: windows)
    fix q assume q: "q \<in> insert ?q (set (ps_accounts st))" and pq: "p \<noteq> q"
    show "apart_slices s t" if "s \<in> set (view_windows (Views ?h ! p))" "t \<in> set (view_windows (Views ?h ! q))" for s t
    proof (cases "p = ?q")
      case True
      then have "q \<in> set (ps_accounts st)" using q pq by simp
      then show ?thesis using that True apart_new oldv(2) apart_sym_slices by metis
    next
      case False
      then have p': "p \<in> set (ps_accounts st)" using p by simp
      show ?thesis
      proof (cases "q = ?q")
        case True
        then show ?thesis using that p' apart_new oldv(2) by metis
      next
        case False
        then have "q \<in> set (ps_accounts st)" using q by simp
        then show ?thesis using that p' separateD(5) [OF sep p'] pq oldv(2) by metis
      qed
    qed
  qed
  moreover have "within input (record_end (off + 87) n) s" if "s \<in> set (view_windows (Views ?h ! ?q))" for s
    using that unfolding windows by (auto simp: within_def record_end_def)
  moreover have "within input (record_end (off + 87) n) s" if "p \<in> set (ps_accounts st)" "s \<in> set (view_windows (Views ?h ! p))" for p s
    by (rule within_mono [OF old(2) [OF that(1)]])
      (use that oldv(2) off in \<open>simp_all add: record_end_def\<close>)
  moreover have accounts: "set (ps_accounts st') = insert ?q (set (ps_accounts st))" by (simp add: st')
  ultimately show ?thesis
    unfolding parsed_def st'(1) accounts using syn_old syn_new bounds [OF bnd] fits by blast
qed

lemma parsed_slot:
  assumes inv: "parsed h input st" and s: "parse_slot h input strict st = (h', Inr st')"
  shows "parsed h' input st'"
proof -
  from s obtain marker where e: "(if marker \<noteq> NonDuplicateMarker then (h, parse_duplicate input st (ps_off st + 1) marker)
      else parse_account h input strict st (ps_off st + 1)) = (h', Inr st')"
    unfolding parse_slot_def then_h_value u8_at_Inr by (elim exE conjE, hypsubst, unfold case_prod_conv, blast)
  show ?thesis
  proof (cases "marker = NonDuplicateMarker")
    case False
    then show ?thesis using e parsed_duplicate [OF inv, of marker st'] by simp
  next
    case True
    then have "parse_account h input strict st (ps_off st + 1) = (h', Inr st')" using e by simp
    then show ?thesis
      unfolding parse_account_Inr [OF refl] Let_def with_record_def [symmetric]
      using parsed_record [OF inv refl refl, of st'] by auto
  qed
qed

lemma parsed_slots:
  assumes "parsed h input st" and "parse_slots h input strict k st = (h', Inr st')"
  shows "parsed h' input st'"
  using assms by (induction k arbitrary: h' st') (auto simp: then_h_Inr_conv intro: parsed_slot)

lemma parse_separates:
  assumes bnd: "in_bounds_slice h input" and p: "ParseInputV1WithOptions h input options = (h', Inr c)"
  shows "separate h' (pointers (cx_accountSlots c))" "p \<in> pointers (cx_accountSlots c) \<Longrightarrow> synced h' p"
proof -
  have start: "parsed h input \<lparr>ps_off = 8, ps_accounts = [], ps_regions = []\<rparr>" if "8 \<le> sl_Len input"
    using bnd that by (simp add: parsed_def separate_def)
  from p obtain k st where off: "8 \<le> sl_Len input"
    and s: "parse_slots h input (po_RejectNonCanonicalBools options) k \<lparr>ps_off = 8, ps_accounts = [], ps_regions = []\<rparr> = (h', Inr st)"
    and c: "cx_accountSlots c = map Some (ps_accounts st)"
    unfolding ParseInputV1WithOptions_def then_h_value word_at_Inr
    by (auto simp: then_h_Inr_conv split: if_splits)
  have "pointers (cx_accountSlots c) = set (ps_accounts st)" unfolding c pointers_def by auto
  then show "separate h' (pointers (cx_accountSlots c))" "p \<in> pointers (cx_accountSlots c) \<Longrightarrow> synced h' p"
    using parsed_slots [OF start [OF off] s] by (simp_all add: parsed_def)
qed

section \<open>A failed entrypoint\<close>


text \<open>An input without accounts and instruction data.\<close>

definition empty_input :: "heap \<times> slice" where
  "empty_input = new_array \<lparr>Arrays = [], Maps = [], Views = []\<rparr> (replicate 48 0)"


end
