(* ===== verification/RtRoundTrip.thy ===== *)
theory RtRoundTrip
  imports RtParse
begin

text \<open>
  The parser undoes the serialiser of \<open>src/runtime/abi.go\<close>: for every input the serialiser accepts, the parser accepts its
  buffer and gives back the accounts, the instruction data, the program and the address of every field.
\<close>

section \<open>The bytes of a slot\<close>

definition record_bytes :: "Account \<Rightarrow> bytes" where
  "record_bytes a =
     [NonDuplicateMarker, boolByte (ac_IsSigner a), boolByte (ac_IsWritable a), boolByte (ac_Executable a), 0, 0, 0, 0] @
     ac_Key a @ ac_Owner a @ le_bytes 8 (ac_Lamports a) @ le_bytes 8 (of_nat (length (ac_Data a)) :: u64) @ ac_Data a @
     replicate (MaxPermittedDataIncrease + alignmentPadding (length (ac_Data a))) 0 @ le_bytes 8 (- 1 :: u64)"

definition slot_bytes :: "InputAccount \<Rightarrow> bytes" where
  "slot_bytes input =
     (case in_DuplicateOf input of Some d \<Rightarrow> d # replicate 7 0
      | None \<Rightarrow> (case in_Account input of Some a \<Rightarrow> record_bytes a | None \<Rightarrow> []))"

definition slot_region :: "nat \<Rightarrow> AccountRegion list \<Rightarrow> InputAccount \<Rightarrow> AccountRegion list" where
  "slot_region off regions input =
     (case in_DuplicateOf input of
        Some d \<Rightarrow> [(regions ! unat d)\<lparr>rg_DuplicateOf := int (unat d), rg_RecordByteOffset := int off\<rparr>]
      | None \<Rightarrow> (case in_Account input of Some a \<Rightarrow> [record_region (off + 1) (length (ac_Data a))] | None \<Rightarrow> []))"

definition keys_ok :: "InputAccount list \<Rightarrow> bool" where
  "keys_ok accounts \<longleftrightarrow> (\<forall>input \<in> set accounts. \<forall>a. in_Account input = Some a \<longrightarrow> length (ac_Key a) = 32 \<and> length (ac_Owner a) = 32)"

lemma appendU64_bytes: "appendU64 buffer w = buffer @ le_bytes 8 w"
  by (simp add: appendU64_def put_slice_def)

lemma serialize_slot_bytes:
  assumes "\<forall>a. in_Account input = Some a \<longrightarrow> length (ac_Key a) = 32 \<and> length (ac_Owner a) = 32"
  shows "serialize_slot input (buffer, regions) =
    (buffer @ slot_bytes input, regions @ slot_region (length buffer) regions input)"
proof (cases "in_DuplicateOf input")
  case (Some d)
  then show ?thesis by (simp add: serialize_slot_def duplicate_slot_def slot_bytes_def slot_region_def)
next
  case None
  show ?thesis
  proof (cases "in_Account input")
    case (Some a)
    have l: "length (ac_Key a) = 32" "length (ac_Owner a) = 32" using assms Some by simp_all
    show ?thesis
      by (simp add: None Some serialize_slot_def account_slot_def slot_bytes_def slot_region_def record_bytes_def
          record_region_def Let_def appendU64_bytes l)
  qed (simp add: None serialize_slot_def slot_bytes_def slot_region_def)
qed

text \<open>The state of the serialiser after the first slots.\<close>

definition written :: "InputAccount list \<Rightarrow> bytes \<times> AccountRegion list" where
  "written accounts = fold serialize_slot accounts (appendU64 [] (of_nat (length accounts)), [])"

definition written_upto :: "InputAccount list \<Rightarrow> nat \<Rightarrow> bytes \<times> AccountRegion list" where
  "written_upto accounts n = fold serialize_slot (take n accounts) (appendU64 [] (of_nat (length accounts)), [])"

lemma written_upto_0: "written_upto accounts 0 = (le_bytes 8 (of_nat (length accounts) :: u64), [])"
  by (simp add: written_upto_def appendU64_bytes)

lemma written_upto_Suc:
  assumes "keys_ok accounts" and "n < length accounts"
  shows "written_upto accounts (Suc n) =
    (fst (written_upto accounts n) @ slot_bytes (accounts ! n),
     snd (written_upto accounts n) @ slot_region (length (fst (written_upto accounts n))) (snd (written_upto accounts n)) (accounts ! n))"
proof -
  have "\<forall>a. in_Account (accounts ! n) = Some a \<longrightarrow> length (ac_Key a) = 32 \<and> length (ac_Owner a) = 32"
    using assms nth_mem unfolding keys_ok_def by blast
  from serialize_slot_bytes [OF this, of "fst (written_upto accounts n)" "snd (written_upto accounts n)"]
  show ?thesis using assms(2) by (simp add: written_upto_def take_Suc_conv_app_nth)
qed

lemma written_prefix:
  assumes "keys_ok accounts" and "n \<le> m" and "m \<le> length accounts"
  shows "\<exists>rest. fst (written_upto accounts m) = fst (written_upto accounts n) @ rest"
  using assms(2,3)
proof (induction m rule: dec_induct)
  case base
  show ?case by simp
next
  case (step m)
  then show ?case using written_upto_Suc [OF assms(1), of m] by auto
qed

lemma slots_size_ok:
  "slots_size k s accounts = Inr s' \<Longrightarrow> i < length accounts \<Longrightarrow> slot_error (k + i) (accounts ! i) = None"
proof (induction accounts arbitrary: k s i)
  case Nil
  then show ?case by simp
next
  case (Cons input inputs)
  from Cons.prems(1) have e: "slot_error k input = None" by (simp split: option.splits)
  show ?case
  proof (cases i)
    case 0
    then show ?thesis using e by simp
  next
    case (Suc j)
    obtain s'' where "slots_size (Suc k) s'' inputs = Inr s'"
      using Cons.prems(1) e by (cases "in_Account input") (auto simp: Let_def and_then_Inr_conv)
    from Cons.IH [OF this, of j] show ?thesis using Cons.prems(2) Suc by simp
  qed
qed

section \<open>Reading the rest of the input\<close>

text \<open>The part of the input the parser has still to read.\<close>

definition remaining :: "heap \<Rightarrow> slice \<Rightarrow> nat \<Rightarrow> bytes" where
  "remaining h input off = read_slice h (reslice input off (sl_Len input))"

lemma length_remaining: "in_bounds_slice h input \<Longrightarrow> off \<le> sl_Len input \<Longrightarrow> length (remaining h input off) = sl_Len input - off"
  unfolding remaining_def by (subst length_read) (auto intro: bounds_reslice)

lemma read_remaining:
  assumes "off + j \<le> sl_Len input" and "i \<le> j"
  shows "read_slice h (reslice input (off + i) (off + j)) = get_slice i (j - i) (remaining h input off)"
proof -
  have "reslice input (off + i) (off + j) = reslice (reslice input off (sl_Len input)) i j" by (simp add: reslice_def)
  then show ?thesis unfolding remaining_def using assms by (simp only: read_reslice reslice_fields le_diff_conv2)
qed

lemma remaining_drop:
  assumes "in_bounds_slice h input" and "off + i \<le> sl_Len input"
  shows "remaining h input (off + i) = drop i (remaining h input off)"
proof -
  have "remaining h input (off + i) = get_slice i (sl_Len input - off - i) (remaining h input off)"
    using read_remaining [of off "sl_Len input - off" input i h] assms(2) by (simp add: remaining_def)
  then show ?thesis using length_remaining [OF assms(1), of off] assms(2) by (simp add: get_slice_def)
qed

lemma get_slice_skip: "length xs = m \<Longrightarrow> m \<le> i \<Longrightarrow> get_slice i n (xs @ ys) = get_slice (i - m) n ys"
  by (simp add: get_slice_def)

lemma get_slice_here: "length xs = n \<Longrightarrow> get_slice 0 n (xs @ ys) = xs"
  by (simp add: get_slice_def)

lemma boolByte_bit: "boolByte b \<le> 1" "boolByte b \<noteq> 0 \<longleftrightarrow> b"
  by (simp_all add: boolByte_def)

lemma record_reads:
  assumes k: "length (ac_Key a) = 32" and o': "length (ac_Owner a) = 32"
  shows "get_slice 0 1 (record_bytes a @ trail) = [NonDuplicateMarker]"
    "get_slice 1 1 (record_bytes a @ trail) = [boolByte (ac_IsSigner a)]"
    "get_slice 2 1 (record_bytes a @ trail) = [boolByte (ac_IsWritable a)]"
    "get_slice 3 1 (record_bytes a @ trail) = [boolByte (ac_Executable a)]"
    "get_slice 8 32 (record_bytes a @ trail) = ac_Key a"
    "get_slice 40 32 (record_bytes a @ trail) = ac_Owner a"
    "get_slice 72 8 (record_bytes a @ trail) = le_bytes 8 (ac_Lamports a)"
    "get_slice 80 8 (record_bytes a @ trail) = le_bytes 8 (of_nat (length (ac_Data a)) :: u64)"
    "get_slice 88 (length (ac_Data a)) (record_bytes a @ trail) = ac_Data a"
proof -
  let ?head = "[NonDuplicateMarker, boolByte (ac_IsSigner a), boolByte (ac_IsWritable a), boolByte (ac_Executable a), 0, 0, 0, 0]"
  have e: "record_bytes a @ trail = ?head @ ac_Key a @ ac_Owner a @ le_bytes 8 (ac_Lamports a) @
      le_bytes 8 (of_nat (length (ac_Data a)) :: u64) @ ac_Data a @
      (replicate (MaxPermittedDataIncrease + alignmentPadding (length (ac_Data a))) 0 @ le_bytes 8 (- 1 :: u64) @ trail)"
    by (simp add: record_bytes_def)
  have h: "length ?head = 8" by simp
  show "get_slice 0 1 (record_bytes a @ trail) = [NonDuplicateMarker]"
    "get_slice 1 1 (record_bytes a @ trail) = [boolByte (ac_IsSigner a)]"
    "get_slice 2 1 (record_bytes a @ trail) = [boolByte (ac_IsWritable a)]"
    "get_slice 3 1 (record_bytes a @ trail) = [boolByte (ac_Executable a)]"
    by (simp_all add: record_bytes_def get_slice_def)
  show "get_slice 8 32 (record_bytes a @ trail) = ac_Key a"
    unfolding e using k by (simp only: get_slice_skip [OF h] get_slice_here order.refl diff_self_eq_0)
  show "get_slice 40 32 (record_bytes a @ trail) = ac_Owner a"
    unfolding e by (subst get_slice_skip [OF h], simp, subst get_slice_skip [OF k], simp, simp add: get_slice_here [OF o'])
  show "get_slice 72 8 (record_bytes a @ trail) = le_bytes 8 (ac_Lamports a)"
    unfolding e by (subst get_slice_skip [OF h], simp, subst get_slice_skip [OF k], simp, subst get_slice_skip [OF o'], simp,
      simp add: get_slice_here)
  show "get_slice 80 8 (record_bytes a @ trail) = le_bytes 8 (of_nat (length (ac_Data a)) :: u64)"
    unfolding e by (subst get_slice_skip [OF h], simp, subst get_slice_skip [OF k], simp, subst get_slice_skip [OF o'], simp,
      subst get_slice_skip [of _ 8], simp, simp, simp add: get_slice_here)
  show "get_slice 88 (length (ac_Data a)) (record_bytes a @ trail) = ac_Data a"
    unfolding e by (subst get_slice_skip [OF h], simp, subst get_slice_skip [OF k], simp, subst get_slice_skip [OF o'], simp,
      subst get_slice_skip [of _ 8], simp, simp, subst get_slice_skip [of _ 8], simp, simp, simp add: get_slice_here)
qed

lemma length_record_bytes:
  assumes "length (ac_Key a) = 32" and "length (ac_Owner a) = 32"
  shows "length (record_bytes a) = record_end 88 (length (ac_Data a))"
  using assms by (simp add: record_bytes_def record_end_def)

section \<open>One slot\<close>

text \<open>The account a view stands for, as \<open>Snapshot\<close> returns it.\<close>

definition account_in :: "heap \<Rightarrow> nat \<Rightarrow> Account" where
  "account_in h p =
     (let v = Views h ! p in
      \<lparr>ac_Key = av_key v, ac_Owner = av_owner v, ac_Lamports = av_lamports v, ac_Data = view_bytes h v,
       ac_IsSigner = av_isSigner v, ac_IsWritable = av_isWritable v, ac_Executable = av_executable v\<rparr>)"

lemma record_field:
  assumes "remaining h input off = record_bytes a @ trail" and "off + j \<le> sl_Len input" and "i \<le> j"
    and "lo = off + i" and "hi = off + j"
  shows "read_slice h (reslice input lo hi) = get_slice i (j - i) (record_bytes a @ trail)"
  unfolding assms(4,5) read_remaining [OF assms(2,3)] assms(1) ..

lemma marked_read:
  assumes "in_bounds_slice h input" and "off + 7 \<le> sl_Len input" and "apart_slices (reslice input (off + 3) (off + 7)) s"
  shows "read_slice (mark_length h input off n) s = read_slice h s" "read_slice (with_record h input off n) s = read_slice h s"
proof -
  show e: "read_slice (mark_length h input off n) s = read_slice h s"
    unfolding mark_length_def
    by (rule read_slice_apart [OF bounds_reslice [OF assms(1)] _ assms(3)]) (use assms(2) in simp_all)
  then show "read_slice (with_record h input off n) s = read_slice h s"
    by (simp add: read_arrays [OF with_record_fields(1)])
qed

lemma view_bytes_slice: "view_bytes h v = read_slice h (reslice (av_data v) 0 (av_dataLen v))"
  by (simp add: view_bytes_def)

lemma parse_slot_record:
  assumes inv: "parsed h input st" and rest: "remaining h input (ps_off st) = record_bytes a @ trail"
    and keys: "length (ac_Key a) = 32" "length (ac_Owner a) = 32" and small: "length (ac_Data a) \<le> MaxPermittedDataLength"
  defines "n \<equiv> length (ac_Data a)" and "h' \<equiv> with_record h input (ps_off st + 1) (length (ac_Data a))"
  shows "parse_slot h input strict st = (h', Inr \<lparr>ps_off = ps_off st + length (record_bytes a),
      ps_accounts = ps_accounts st @ [length (Views h)], ps_regions = ps_regions st @ [record_region (ps_off st + 1) n]\<rparr>)"
    "remaining h' input (ps_off st + length (record_bytes a)) = trail"
    "account_in h' (length (Views h)) = a"
    "av_dataLen (Views h' ! length (Views h)) \<le> sl_Len (av_data (Views h' ! length (Views h)))"
    "p \<in> set (ps_accounts st) \<Longrightarrow> av_dataLen (Views h ! p) \<le> sl_Len (av_data (Views h ! p)) \<Longrightarrow>
      account_in h' p = account_in h p \<and> Views h' ! p = Views h ! p"
proof -
  let ?o = "ps_off st"
  have bnd: "in_bounds_slice h input" and le: "?o \<le> sl_Len input" using inv by (simp_all add: parsed_def)
  have len: "length (record_bytes a) = record_end 88 n" unfolding n_def by (rule length_record_bytes [OF keys])
  have room: "?o + record_end 88 n + length trail = sl_Len input"
    using length_remaining [OF bnd le] le unfolding rest by (simp add: len)
  have fits: "?o + 88 + n \<le> sl_Len input" "?o + 88 \<le> sl_Len input" "?o + 8 \<le> sl_Len input"
    using room by (simp_all add: record_end_def)
  note field = record_field [OF rest]
  have marker: "read_slice h (reslice input ?o (?o + 1)) = [NonDuplicateMarker]"
    using field [of 1 0 ?o "?o + 1"] fits record_reads(1) [OF keys] by simp
  have flag: "read_slice h (reslice input (?o + 1) (?o + 1 + 1)) = [boolByte (ac_IsSigner a)]"
    "read_slice h (reslice input (?o + 1 + 1) (?o + 1 + 1 + 1)) = [boolByte (ac_IsWritable a)]"
    "read_slice h (reslice input (?o + 1 + 2) (?o + 1 + 2 + 1)) = [boolByte (ac_Executable a)]"
    using field [of 2 1 "?o + 1" "?o + 1 + 1"] field [of 3 2 "?o + 1 + 1" "?o + 1 + 1 + 1"] field [of 4 3 "?o + 1 + 2" "?o + 1 + 2 + 1"]
      fits record_reads(2-4) [OF keys] by simp_all
  have key: "read_slice h (reslice input (?o + 1 + 7) (?o + 1 + 39)) = ac_Key a"
    using field [of 40 8 "?o + 1 + 7" "?o + 1 + 39"] fits record_reads(5) [OF keys] by simp
  have owner: "read_slice h (reslice input (?o + 1 + 39) (?o + 1 + 71)) = ac_Owner a"
    using field [of 72 40 "?o + 1 + 39" "?o + 1 + 71"] fits record_reads(6) [OF keys] by simp
  have lamports: "read_slice h (reslice input (?o + 1 + 71) (?o + 1 + 79)) = le_bytes 8 (ac_Lamports a)"
    using field [of 80 72 "?o + 1 + 71" "?o + 1 + 79"] fits record_reads(7) [OF keys] by simp
  have count: "read_slice h (reslice input (?o + 1 + 79) (?o + 1 + 87)) = le_bytes 8 (of_nat n :: u64)"
    using field [of 88 80 "?o + 1 + 79" "?o + 1 + 87"] fits record_reads(8) [OF keys] by (simp add: n_def)
  have data: "read_slice h (reslice input (?o + 1 + 87) (?o + 1 + 87 + n)) = ac_Data a"
    using field [of "88 + n" 88 "?o + 1 + 87" "?o + 1 + 87 + n"] fits record_reads(9) [OF keys] by (simp add: n_def ac_simps)
  have un: "unat (of_nat n :: u64) = n" using small by (simp add: n_def unsigned_of_nat take_bit_nat_eq_self)
  have flags: "flag_ok h input strict (?o + 1)" "flag_ok h input strict (?o + 1 + 1)" "flag_ok h input strict (?o + 1 + 2)"
    "flag_at h input (?o + 1) = ac_IsSigner a" "flag_at h input (?o + 1 + 1) = ac_IsWritable a" "flag_at h input (?o + 1 + 2) = ac_Executable a"
    unfolding flag_ok_def flag_at_def flag by (simp_all add: boolByte_bit)
  have big: "(of_nat n :: u64) \<le> of_nat MaxPermittedDataLength"
    using small un by (simp add: word_le_nat_alt n_def)
  have ends: "record_end (?o + 1 + 87) n = ?o + record_end 88 n" by (simp add: record_end_def)
  have word: "le_word (le_bytes 8 (of_nat n :: u64)) = (of_nat n :: u64)" by (simp add: le_word_le_bytes_full)
  have "parse_account h input strict st (?o + 1) = (h', Inr \<lparr>ps_off = ?o + length (record_bytes a),
      ps_accounts = ps_accounts st @ [length (Views h)], ps_regions = ps_regions st @ [record_region (?o + 1) n]\<rparr>)"
    unfolding parse_account_Inr [OF refl] Let_def count word un len ends h'_def n_def [symmetric] with_record_def
    using flags(1-3) big room by simp
  then show "parse_slot h input strict st = (h', Inr \<lparr>ps_off = ps_off st + length (record_bytes a),
      ps_accounts = ps_accounts st @ [length (Views h)], ps_regions = ps_regions st @ [record_region (ps_off st + 1) n]\<rparr>)"
    unfolding parse_slot_def u8_at_def take_at_def using fits marker by (simp add: and_then_def)
  have m7: "?o + 1 + 7 \<le> sl_Len input" using fits by simp
  note same = marked_read [OF bnd m7]
  have "remaining h' input (?o + record_end 88 n) = remaining h input (?o + record_end 88 n)"
    unfolding remaining_def h'_def n_def [symmetric]
    by (rule same(2)) (use room in \<open>simp add: apart_slices_def record_end_def\<close>)
  also have "\<dots> = trail" using remaining_drop [OF bnd, of ?o "record_end 88 n"] room unfolding rest by (simp add: len [symmetric])
  finally show "remaining h' input (ps_off st + length (record_bytes a)) = trail" unfolding len .
  have dat: "av_data (Views h' ! length (Views h)) = reslice input (?o + 1 + 87) (?o + 1 + 87 + (n + MaxPermittedDataIncrease))"
    "av_dataLen (Views h' ! length (Views h)) = n"
    unfolding h'_def using record_windows(5) [OF with_record_fields(4)] with_record_fields(7)
    by (simp_all add: n_def record_view_def parsed_view_def)
  then show "av_dataLen (Views h' ! length (Views h)) \<le> sl_Len (av_data (Views h' ! length (Views h)))" by simp
  have vb: "view_bytes h' (Views h' ! length (Views h)) = ac_Data a"
  proof -
    have "view_bytes h' (Views h' ! length (Views h)) = read_slice h' (reslice input (?o + 1 + 87) (?o + 1 + 87 + n))"
      unfolding view_bytes_slice dat by (simp add: reslice_def)
    also have "\<dots> = ac_Data a"
      unfolding h'_def n_def [symmetric] data [symmetric]
      by (rule same(2)) (simp add: apart_slices_def)
    finally show ?thesis .
  qed
  have f: "fixed (Views h' ! length (Views h)) = fixed (record_view h input (?o + 1) n)"
    unfolding h'_def n_def by (rule with_record_fields(4))
  have ap: "apart_slices (reslice input (?o + 1 + 3) (?o + 1 + 7)) (reslice input (?o + 1 + 7) (?o + 1 + 39))"
    "apart_slices (reslice input (?o + 1 + 3) (?o + 1 + 7)) (reslice input (?o + 1 + 39) (?o + 1 + 71))"
    by (simp_all add: apart_slices_def)
  have lam: "le_word (le_bytes 8 (ac_Lamports a)) = ac_Lamports a" by (simp add: le_word_le_bytes_full)
  have "av_key (record_view h input (?o + 1) n) = ac_Key a" "av_owner (record_view h input (?o + 1) n) = ac_Owner a"
    "av_lamports (record_view h input (?o + 1) n) = ac_Lamports a" "av_isSigner (record_view h input (?o + 1) n) = ac_IsSigner a"
    "av_isWritable (record_view h input (?o + 1) n) = ac_IsWritable a" "av_executable (record_view h input (?o + 1) n) = ac_Executable a"
    unfolding record_view_def parsed_view_def Let_def case_prod_conv
    by (simp_all only: AccountView.simps same(1) [OF ap(1)] same(1) [OF ap(2)] key owner lamports flags lam)
  then show "account_in h' (length (Views h)) = a"
    unfolding account_in_def Let_def vb same_fixed(7-10) [OF f]
    using with_record_fields(5,6) [of h input "?o + 1" n] by (simp add: h'_def n_def [symmetric])
  show "account_in h' p = account_in h p \<and> Views h' ! p = Views h ! p"
    if p: "p \<in> set (ps_accounts st)" and l: "av_dataLen (Views h ! p) \<le> sl_Len (av_data (Views h ! p))"
  proof -
    have "p < length (Views h)" using inv p separateD(1) unfolding parsed_def by blast
    then have v: "Views h' ! p = Views h ! p" unfolding h'_def by (rule with_record_fields(3))
    have "within input ?o (av_data (Views h ! p))" using inv p windows_members(1) unfolding parsed_def by blast
    then have "read_slice h' (reslice (av_data (Views h ! p)) 0 (av_dataLen (Views h ! p))) =
        read_slice h (reslice (av_data (Views h ! p)) 0 (av_dataLen (Views h ! p)))"
      unfolding h'_def by (intro same(2)) (use l in \<open>simp add: within_def apart_slices_def\<close>)
    then show ?thesis unfolding account_in_def Let_def v view_bytes_slice by simp
  qed
qed

lemma parse_slot_duplicate:
  assumes inv: "parsed h input st" and rest: "remaining h input (ps_off st) = (d # replicate 7 0) @ trail"
    and d: "d \<noteq> NonDuplicateMarker" "unat d < length (ps_accounts st)"
  shows "parse_slot h input strict st = (h, Inr \<lparr>ps_off = ps_off st + 8,
      ps_accounts = ps_accounts st @ [ps_accounts st ! unat d],
      ps_regions = ps_regions st @ [(ps_regions st ! unat d)\<lparr>rg_DuplicateOf := int (unat d), rg_RecordByteOffset := int (ps_off st)\<rparr>]\<rparr>)"
    "remaining h input (ps_off st + 8) = trail"
proof -
  have bnd: "in_bounds_slice h input" and le: "ps_off st \<le> sl_Len input" using inv by (simp_all add: parsed_def)
  have room: "ps_off st + 8 + length trail = sl_Len input"
    using length_remaining [OF bnd le] le unfolding rest by simp
  have "read_slice h (reslice input (ps_off st) (ps_off st + 1)) = [d]"
    using read_remaining [of "ps_off st" 1 input 0 h] room unfolding rest by (simp add: get_slice_def)
  then show "parse_slot h input strict st = (h, Inr \<lparr>ps_off = ps_off st + 8,
      ps_accounts = ps_accounts st @ [ps_accounts st ! unat d],
      ps_regions = ps_regions st @ [(ps_regions st ! unat d)\<lparr>rg_DuplicateOf := int (unat d), rg_RecordByteOffset := int (ps_off st)\<rparr>]\<rparr>)"
    using room d by (simp add: parse_slot_def u8_at_def take_at_def parse_duplicate_def and_then_def)
  show "remaining h input (ps_off st + 8) = trail" using remaining_drop [OF bnd, of "ps_off st" 8] room unfolding rest by simp
qed

section \<open>All slots\<close>

text \<open>What the slots mean: for each slot the slot that holds its account, and the account.\<close>

definition resolve_slot :: "(nat \<times> Account) list \<Rightarrow> InputAccount \<Rightarrow> nat \<times> Account" where
  "resolve_slot known input =
     (case in_DuplicateOf input of Some d \<Rightarrow> known ! unat d | None \<Rightarrow> (length known, the (in_Account input)))"

definition resolve :: "InputAccount list \<Rightarrow> (nat \<times> Account) list" where
  "resolve accounts = fold (\<lambda>input known. known @ [resolve_slot known input]) accounts []"

lemma resolve_snoc: "resolve (accounts @ [input]) = resolve accounts @ [resolve_slot (resolve accounts) input]"
  by (simp add: resolve_def)

lemma length_resolve [simp]: "length (resolve accounts) = length accounts"
  by (induction accounts rule: rev_induct) (simp_all add: resolve_snoc, simp add: resolve_def)

text \<open>The pointers of the parsed slots hold these accounts, and two slots share a pointer exactly when they share the account.\<close>

definition represents :: "heap \<Rightarrow> nat list \<Rightarrow> (nat \<times> Account) list \<Rightarrow> bool" where
  "represents h ps known \<longleftrightarrow>
     length ps = length known \<and> (\<forall>i < length known. account_in h (ps ! i) = snd (known ! i)) \<and>
     (\<forall>i < length known. \<forall>j < length known. ps ! i = ps ! j \<longleftrightarrow> fst (known ! i) = fst (known ! j))"

definition parsed_as :: "heap \<Rightarrow> slice \<Rightarrow> parse_state \<Rightarrow> (nat \<times> Account) list \<Rightarrow> bool" where
  "parsed_as h input st known \<longleftrightarrow>
     parsed h input st \<and> represents h (ps_accounts st) known \<and> (\<forall>i < length known. fst (known ! i) < length known) \<and>
     (\<forall>p \<in> set (ps_accounts st). av_dataLen (Views h ! p) \<le> sl_Len (av_data (Views h ! p)))"

lemma represents_duplicate:
  assumes "represents h ps known" and "i < length known"
  shows "represents h (ps @ [ps ! i]) (known @ [known ! i])"
  using assms by (auto simp: represents_def nth_append less_Suc_eq)

lemma represents_record:
  assumes r: "represents h ps known" and same: "\<And>p. p \<in> set ps \<Longrightarrow> account_in h' p = account_in h p"
    and new: "account_in h' q = a" "q \<notin> set ps" and roots: "\<forall>i < length known. fst (known ! i) < length known"
  shows "represents h' (ps @ [q]) (known @ [(length known, a)])"
proof -
  have l: "length ps = length known" using r by (simp add: represents_def)
  have ne: "ps ! i \<noteq> q" "q \<noteq> ps ! i" if "i < length known" for i using new(2) that l nth_mem [of i ps] by auto
  have "fst (known ! i) \<noteq> length known" "length known \<noteq> fst (known ! i)" if "i < length known" for i using roots that by auto
  then show ?thesis
    using r same new(1) ne nth_mem [of _ ps] by (auto simp: represents_def nth_append less_Suc_eq l)
qed

lemma parse_slots_written:
  assumes keys: "keys_ok accounts" and ok: "\<forall>i < length accounts. slot_error i (accounts ! i) = None"
    and few: "length accounts \<le> 255" and whole: "fst (written_upto accounts (length accounts)) @ tail = read_slice h input"
    and bnd: "in_bounds_slice h input" and n: "n \<le> length accounts"
  shows "\<exists>h' st. parse_slots h input strict n \<lparr>ps_off = 8, ps_accounts = [], ps_regions = []\<rparr> = (h', Inr st) \<and>
    ps_off st = length (fst (written_upto accounts n)) \<and> ps_regions st = snd (written_upto accounts n) \<and>
    parsed_as h' input st (resolve (take n accounts)) \<and>
    fst (written_upto accounts n) @ remaining h' input (ps_off st) = read_slice h input"
  using n
proof (induction n)
  case 0
  have "8 \<le> sl_Len input"
    using written_prefix [OF keys le0 order.refl] length_read [OF bnd] unfolding whole [symmetric]
    by (auto simp: written_upto_0)
  moreover have "le_bytes 8 (of_nat (length accounts) :: u64) @ remaining h input 8 = read_slice h input"
  proof -
    obtain rest where "read_slice h input = le_bytes 8 (of_nat (length accounts) :: u64) @ rest"
      using written_prefix [OF keys le0 order.refl] unfolding whole [symmetric] by (auto simp: written_upto_0)
    moreover have "remaining h input 0 = read_slice h input" by (simp add: remaining_def reslice_def read_slice_def)
    ultimately show ?thesis using remaining_drop [OF bnd, of 0 8] \<open>8 \<le> sl_Len input\<close> by simp
  qed
  ultimately show ?case
    using bnd by (simp add: written_upto_0 parsed_as_def parsed_def separate_def represents_def resolve_def)
next
  case (Suc n)
  then have n: "n < length accounts" by simp
  obtain h1 st where s: "parse_slots h input strict n \<lparr>ps_off = 8, ps_accounts = [], ps_regions = []\<rparr> = (h1, Inr st)"
    and off: "ps_off st = length (fst (written_upto accounts n))" and reg: "ps_regions st = snd (written_upto accounts n)"
    and as: "parsed_as h1 input st (resolve (take n accounts))"
    and rem: "fst (written_upto accounts n) @ remaining h1 input (ps_off st) = read_slice h input"
    using Suc by auto
  have inv: "parsed h1 input st" and rep: "represents h1 (ps_accounts st) (resolve (take n accounts))"
    and roots: "\<forall>i < n. fst (resolve (take n accounts) ! i) < n"
    and caps: "\<And>p. p \<in> set (ps_accounts st) \<Longrightarrow> av_dataLen (Views h1 ! p) \<le> sl_Len (av_data (Views h1 ! p))"
    using as n by (simp_all add: parsed_as_def)
  have len: "length (ps_accounts st) = n" using rep n by (simp add: represents_def)
  note W = written_upto_Suc [OF keys n]
  obtain trail where t: "read_slice h input = fst (written_upto accounts (Suc n)) @ trail"
    using written_prefix [OF keys, of "Suc n" "length accounts"] n unfolding whole [symmetric] by auto
  have rest: "remaining h1 input (ps_off st) = slot_bytes (accounts ! n) @ trail"
    using rem t unfolding W by simp
  have e: "slot_error n (accounts ! n) = None" using ok n by blast
  have take: "take (Suc n) accounts = take n accounts @ [accounts ! n]" using n by (simp add: take_Suc_conv_app_nth)
  have step: "parse_slots h input strict (Suc n) \<lparr>ps_off = 8, ps_accounts = [], ps_regions = []\<rparr> = parse_slot h1 input strict st"
    by (simp add: s)
  show ?case
  proof (cases "in_DuplicateOf (accounts ! n)")
    case (Some d)
    have d: "unat d < n" "d \<noteq> NonDuplicateMarker"
    proof -
      show "unat d < n" using e Some by (auto simp: slot_error_def split: if_splits)
      then show "d \<noteq> NonDuplicateMarker" using n few by auto
    qed
    have bytes: "slot_bytes (accounts ! n) = d # replicate 7 0" by (simp add: slot_bytes_def Some)
    note P = parse_slot_duplicate [OF inv rest [unfolded bytes] d(2)]
    have "resolve (take (Suc n) accounts) = resolve (take n accounts) @ [resolve (take n accounts) ! unat d]"
      unfolding take resolve_snoc by (simp add: resolve_slot_def Some)
    moreover have "represents h1 (ps_accounts st @ [ps_accounts st ! unat d])
        (resolve (take n accounts) @ [resolve (take n accounts) ! unat d])"
      by (rule represents_duplicate [OF rep]) (use d n in simp)
    moreover have "parsed h1 input \<lparr>ps_off = ps_off st + 8, ps_accounts = ps_accounts st @ [ps_accounts st ! unat d],
      ps_regions = ps_regions st @ [(ps_regions st ! unat d)\<lparr>rg_DuplicateOf := int (unat d), rg_RecordByteOffset := int (ps_off st)\<rparr>]\<rparr>"
      by (rule parsed_slot [OF inv P(1)]) (use d len in simp)
    ultimately show ?thesis
      unfolding step using P d len roots caps n t off reg W
      by (auto simp: parsed_as_def slot_region_def Some bytes nth_append less_Suc_eq)
  next
    case None
    obtain a where acc: "in_Account (accounts ! n) = Some a" and small: "length (ac_Data a) \<le> MaxPermittedDataLength"
      using e None by (auto simp: slot_error_def split: option.splits if_splits)
    have k: "length (ac_Key a) = 32" "length (ac_Owner a) = 32"
      using keys n acc nth_mem unfolding keys_ok_def by blast+
    have bytes: "slot_bytes (accounts ! n) = record_bytes a" by (simp add: slot_bytes_def None acc)
    define h2 where "h2 = with_record h1 input (ps_off st + 1) (length (ac_Data a))"
    define st2 where "st2 = \<lparr>ps_off = ps_off st + length (record_bytes a), ps_accounts = ps_accounts st @ [length (Views h1)],
      ps_regions = ps_regions st @ [record_region (ps_off st + 1) (length (ac_Data a))]\<rparr>"
    note P = parse_slot_record [OF inv rest [unfolded bytes] k small, folded h2_def, folded st2_def]
    have R: "resolve (take (Suc n) accounts) = resolve (take n accounts) @ [(n, a)]"
      unfolding take resolve_snoc using n by (simp add: resolve_slot_def None acc)
    have fresh_view: "length (Views h1) \<notin> set (ps_accounts st)"
      using inv separateD(1) unfolding parsed_def by blast
    have "represents h2 (ps_accounts st @ [length (Views h1)]) (resolve (take n accounts) @ [(length (resolve (take n accounts)), a)])"
      by (rule represents_record [OF rep _ P(3) fresh_view]) (use P(5) caps roots n in auto)
    moreover have "parsed h2 input st2" by (rule parsed_slot [OF inv P(1)])
    moreover have "av_dataLen (Views h2 ! p) \<le> sl_Len (av_data (Views h2 ! p))" if "p \<in> set (ps_accounts st2)" for p
    proof (cases "p = length (Views h1)")
      case True
      then show ?thesis using P(4) by simp
    next
      case False
      then have "p \<in> set (ps_accounts st)" using that by (simp add: st2_def)
      then show ?thesis using P(5) caps by simp
    qed
    ultimately have "parsed_as h2 input st2 (resolve (take (Suc n) accounts))"
      unfolding R parsed_as_def using n roots by (auto simp: st2_def nth_append less_Suc_eq)
    then show ?thesis
      unfolding step using P(1,2) t off reg W
      by (auto simp: slot_region_def None acc bytes st2_def)
  qed
qed

section \<open>The whole input\<close>

lemma take_remaining:
  assumes bnd: "in_bounds_slice h input" and le: "off \<le> sl_Len input" and rest: "remaining h input off = xs @ trail"
  shows "take_at input off (length xs) = Inr (off + length xs, reslice input off (off + length xs))"
    "read_slice h (reslice input off (off + length xs)) = xs" "remaining h input (off + length xs) = trail"
    "off + length xs \<le> sl_Len input"
proof -
  have room: "off + length xs + length trail = sl_Len input" using length_remaining [OF bnd le] le unfolding rest by simp
  then show le': "off + length xs \<le> sl_Len input" by simp
  then show "take_at input off (length xs) = Inr (off + length xs, reslice input off (off + length xs))"
    by (simp add: take_at_def)
  show "read_slice h (reslice input off (off + length xs)) = xs"
    using read_remaining [of off "length xs" input 0 h] le' unfolding rest by (simp add: get_slice_def)
  show "remaining h input (off + length xs) = trail" using remaining_drop [OF bnd le'] unfolding rest by simp
qed

lemma word_remaining:
  assumes "in_bounds_slice h input" and "off \<le> sl_Len input" and "remaining h input off = le_bytes 8 (w :: u64) @ trail"
  shows "word_at h input off = Inr (off + 8, w)" "remaining h input (off + 8) = trail" "off + 8 \<le> sl_Len input"
  using take_remaining [OF assms] by (simp_all add: word_at_def and_then_def le_word_le_bytes_full)

definition pointer_list :: "AccountRegion list \<Rightarrow> bytes" where
  "pointer_list regions = concat (map (\<lambda>r. le_bytes 8 (rg_VMAddress r)) regions)"

lemma length_pointer_list: "length (pointer_list regions) = 8 * length regions"
  by (induction regions) (simp_all add: pointer_list_def)

lemma fold_pointers: "fold (\<lambda>region buffer. appendU64 buffer (rg_VMAddress region)) regions buffer = buffer @ pointer_list regions"
  by (induction regions arbitrary: buffer) (simp_all add: pointer_list_def appendU64_bytes)

lemma check_pointers_remaining:
  assumes "in_bounds_slice h input" and "off \<le> sl_Len input" and "remaining h input off = pointer_list regions @ trail"
  shows "check_pointers h input off regions = Inr (off + length (pointer_list regions))"
  using assms(2,3)
proof (induction regions arbitrary: off)
  case Nil
  then show ?case by (simp add: pointer_list_def)
next
  case (Cons r rs)
  have "remaining h input off = le_bytes 8 (rg_VMAddress r) @ pointer_list rs @ trail"
    using Cons.prems(2) by (simp add: pointer_list_def)
  note w = word_remaining [OF assms(1) Cons.prems(1) this]
  show ?case using Cons.IH [OF w(3,2)] by (simp add: w(1) and_then_def length_pointer_list)
qed

text \<open>The buffer of an accepted input.\<close>

definition buffer_tail :: "nat \<Rightarrow> bool \<Rightarrow> AccountRegion list \<Rightarrow> bytes \<Rightarrow> pubkey \<Rightarrow> bytes" where
  "buffer_tail off direct regions instructionData programID =
     le_bytes 8 (of_nat (length instructionData) :: u64) @ instructionData @ programID @
     (if direct then replicate (alignmentPadding (off + 8 + length instructionData + length programID)) 0 @ pointer_list regions else [])"

lemma length_regions: "keys_ok accounts \<Longrightarrow> \<forall>i < length accounts. slot_error i (accounts ! i) = None \<Longrightarrow> n \<le> length accounts \<Longrightarrow>
  length (snd (written_upto accounts n)) = n"
proof (induction n)
  case (Suc n)
  then have e: "slot_error n (accounts ! n) = None" by simp
  have "length (slot_region off regions (accounts ! n)) = 1" for off regions
    using e by (auto simp: slot_region_def slot_error_def split: option.splits)
  then show ?case using Suc.IH Suc.prems written_upto_Suc [OF Suc.prems(1), of n] by simp
qed (simp add: written_upto_0)

lemma serialize_contiguous_buffer:
  assumes s: "serialize_contiguous h programID accounts instructionData direct = Inr (h1, si)" and keys: "keys_ok accounts"
  defines "W \<equiv> written_upto accounts (length accounts)"
  shows "length accounts \<le> 255" "length instructionData \<le> MaxInstructionDataLen"
    "\<forall>i < length accounts. slot_error i (accounts ! i) = None" "si_AccountRegions si = snd W"
    "in_bounds_slice h1 (si_Buffer si)"
    "read_slice h1 (si_Buffer si) = fst W @ buffer_tail (length (fst W)) direct (snd W) instructionData programID"
proof -
  let ?core = "appendU64 (fst W) (of_nat (length instructionData)) @ instructionData @ programID"
  have "W = fold serialize_slot accounts (appendU64 [] (of_nat (length accounts)), [])"
    by (simp add: W_def written_upto_def)
  note fold_W = this [symmetric]
  from s obtain amount1 amount2 amount3 padding where few: "length accounts \<le> 255" and small: "length instructionData \<le> MaxInstructionDataLen"
    and sizes: "slots_size 0 8 accounts = Inr amount1" "or_invalid (checkedAddInt amount1 (8 + length instructionData + 32)) = Inr amount2"
    "pointer_bytes direct amount2 (length accounts) = Inr (amount3, padding)"
    and rest: "(let (buffer, regions) = W; buffer = appendU64 buffer (of_nat (length instructionData)); instructionOffset = length buffer;
              buffer = buffer @ instructionData; buffer = buffer @ programID;
              padded = buffer @ replicate padding 0;
              pointersOffset = (if direct then int (length padded) else - 1);
              buffer = (if direct then fold (\<lambda>region buffer. appendU64 buffer (rg_VMAddress region)) regions padded else buffer)
          in
            if length buffer \<noteq> amount3 then Inl ErrInvalidABI
            else
              let (h, s) = new_array h buffer in
              Inr (h, \<lparr>si_Buffer = s, si_AccountRegions = regions, si_InstructionDataOffset = instructionOffset,
                 si_DirectAccountPointersOffset = pointersOffset,
                 si_InstructionDataAddress = MMInputStart + of_nat instructionOffset, si_directMapping = False,
                 si_mappedSources = [], si_context = None, si_memory = None\<rparr>)) = Inr (h1, si)"
    unfolding serialize_contiguous_def fold_W by (auto simp: and_then_Inr_conv not_less split: if_splits)
  show "length accounts \<le> 255" "length instructionData \<le> MaxInstructionDataLen" by (rule few small)+
  show ok: "\<forall>i < length accounts. slot_error i (accounts ! i) = None"
    using slots_size_ok [OF sizes(1)] by simp
  define B where "B = (if direct then (?core @ replicate padding 0) @ pointer_list (snd W) else ?core)"
  have len: "length B = amount3" and h1: "h1 = h\<lparr>Arrays := Arrays h @ [B]\<rparr>"
    and si: "si_AccountRegions si = snd W"
      "si_Buffer si = \<lparr>sl_Array = length (Arrays h), sl_Off = 0, sl_Len = length B, sl_Cap = length B\<rparr>"
    using rest unfolding B_def fold_pointers [symmetric]
    by (auto simp: Let_def new_array_def split: prod.splits if_splits)
  show "si_AccountRegions si = snd W" by (rule si(1))
  show "in_bounds_slice h1 (si_Buffer si)" unfolding si(2) h1 by (simp add: in_bounds_slice_def)
  have "read_slice h1 (si_Buffer si) = B" unfolding si(2) h1 by (simp add: read_slice_def get_slice_def)
  moreover have "padding = alignmentPadding (length (fst W) + 8 + length instructionData + length programID)" if direct
  proof -
    from sizes(3) that have p: "padding = alignmentPadding amount2" "amount3 = amount2 + (padding + length accounts * 8)"
      by (auto simp: pointer_bytes_def Let_def and_then_Inr_conv or_invalid_def checkedMulInt_def checkedAddInt_def split: if_splits option.splits)
    have "length (snd W) = length accounts" unfolding W_def by (rule length_regions [OF keys ok order.refl])
    then have "amount2 = length (fst W) + 8 + length instructionData + length programID"
      using len p(2) that by (simp add: B_def length_pointer_list appendU64_bytes)
    then show ?thesis using p(1) by simp
  qed
  ultimately show "read_slice h1 (si_Buffer si) = fst W @ buffer_tail (length (fst W)) direct (snd W) instructionData programID"
    by (simp add: B_def buffer_tail_def appendU64_bytes)
qed

lemma parse_buffer:
  assumes keys: "keys_ok accounts" and pid: "length programID = 32" and few: "length accounts \<le> 255"
    and small: "length instructionData \<le> MaxInstructionDataLen" and ok: "\<forall>i < length accounts. slot_error i (accounts ! i) = None"
    and bnd: "in_bounds_slice h input" and direct: "po_DirectAccountPointers options = direct"
  defines "W \<equiv> written_upto accounts (length accounts)"
  assumes whole: "read_slice h input = fst W @ buffer_tail (length (fst W)) direct (snd W) instructionData programID"
  shows "\<exists>h' c ps. ParseInputV1WithOptions h input options = (h', Inr c) \<and> cx_programID c = programID \<and>
    cx_InstructionData c = instructionData \<and> cx_regions c = snd W \<and> cx_accountSlots c = map Some ps \<and>
    represents h' ps (resolve accounts)"
proof -
  let ?N = "length accounts"
  obtain h' st where s: "parse_slots h input (po_RejectNonCanonicalBools options) ?N \<lparr>ps_off = 8, ps_accounts = [], ps_regions = []\<rparr> = (h', Inr st)"
    and off: "ps_off st = length (fst W)" and reg: "ps_regions st = snd W" and as: "parsed_as h' input st (resolve accounts)"
    and rem: "fst W @ remaining h' input (ps_off st) = read_slice h input"
    using parse_slots_written [OF keys ok few whole [symmetric, unfolded W_def] bnd order.refl, of "po_RejectNonCanonicalBools options"]
    unfolding W_def by auto
  have inv: "parsed h' input st" and rep: "represents h' (ps_accounts st) (resolve accounts)" using as by (simp_all add: parsed_as_def)
  have bnd': "in_bounds_slice h' input" and le: "ps_off st \<le> sl_Len input" using inv by (simp_all add: parsed_def)
  have tail: "remaining h' input (ps_off st) = buffer_tail (ps_off st) direct (snd W) instructionData programID"
    using rem whole off by simp
  note w = word_remaining [OF bnd' le tail [unfolded buffer_tail_def]]
  note d = take_remaining [OF bnd' w(3,2)]
  note p = take_remaining [OF bnd' d(4,3)]
  have un: "unat (of_nat (length instructionData) :: u64) = length instructionData"
    using small by (simp add: unsigned_of_nat take_bit_nat_eq_self)
  have small': "\<not> 10240 < (of_nat (length instructionData) :: u64)"
    using small un by (simp add: word_less_nat_alt)
  have N: "unat (of_nat ?N :: u64) = ?N" "\<not> 255 < (of_nat ?N :: u64)"
    using few by (simp_all add: unsigned_of_nat take_bit_nat_eq_self word_less_nat_alt)
  have first: "word_at h input 0 = Inr (8, of_nat ?N)"
  proof -
    have z: "remaining h input 0 = read_slice h input" by (simp add: remaining_def reslice_def read_slice_def)
    obtain rest where "fst W = le_bytes 8 (of_nat ?N :: u64) @ rest"
      using written_prefix [OF keys le0 order.refl] by (auto simp: written_upto_0 W_def)
    then show ?thesis using word_remaining(1) [OF bnd le0, of "of_nat ?N"] whole z by simp
  qed
  let ?e = "ps_off st + 8 + length instructionData + length programID"
  define ends where "ends = (if po_DirectAccountPointers options
      then and_then (take_at input ?e (alignmentPadding ?e)) (\<lambda>(off, _). check_pointers h' input off (ps_regions st)) else Inr ?e)"
  have "ends = Inr (sl_Len input)"
  proof (cases direct)
    case True
    have "remaining h' input ?e = replicate (alignmentPadding ?e) 0 @ pointer_list (snd W) @ []"
      using p(3) True by simp
    note q = take_remaining [OF bnd' p(4) this]
    have "check_pointers h' input (?e + alignmentPadding ?e) (snd W) = Inr (?e + alignmentPadding ?e + length (pointer_list (snd W)))"
      by (rule check_pointers_remaining [OF bnd' _ ]) (use q(3,4) in simp_all)
    moreover have "?e + alignmentPadding ?e + length (pointer_list (snd W)) = sl_Len input"
      using length_remaining [OF bnd', of "?e + alignmentPadding ?e"] q(3,4) by simp
    ultimately show ?thesis using q(1) True by (simp add: ends_def direct reg and_then_def)
  next
    case False
    then have "remaining h' input ?e = []" using p(3) by simp
    then show ?thesis using length_remaining [OF bnd' p(4)] p(4) False by (simp add: ends_def direct)
  qed
  then have "ParseInputV1WithOptions h input options = (h', Inr \<lparr>cx_ProgramID = programID, cx_Accounts = map Some (ps_accounts st),
       cx_InstructionData = instructionData, cx_programID = programID, cx_accountSlots = map Some (ps_accounts st),
       cx_regions = snd W, cx_raw = input, cx_mappedSources = [], cx_memory = None\<rparr>)"
    unfolding ParseInputV1WithOptions_def
    by (simp add: first N s w(1) un small' d(1,2) p(1,2) pid [symmetric] ends_def [symmetric] reg)
  then show ?thesis using rep by (intro exI [of _ h'] exI exI [of _ "ps_accounts st"]) auto
qed

section \<open>Property\<close>


text \<open>An account, a duplicate of it and a second account.\<close>

definition three_slots :: "InputAccount list" where
  "three_slots =
     [UniqueInputAccount \<lparr>ac_Key = replicate 32 2, ac_Owner = replicate 32 1, ac_Lamports = 5, ac_Data = [7], ac_IsSigner = True,
        ac_IsWritable = True, ac_Executable = False\<rparr>,
      DuplicateInputAccount 0,
      UniqueInputAccount \<lparr>ac_Key = replicate 32 3, ac_Owner = replicate 32 9, ac_Lamports = 1, ac_Data = [], ac_IsSigner = False,
        ac_IsWritable = False, ac_Executable = True\<rparr>]"

definition three_serialized :: "rt_error + heap \<times> SerializedInput" where
  "three_serialized = SerializeInputV1WithOptions \<lparr>Arrays = [], Maps = [], Views = []\<rparr> (replicate 32 1) three_slots [1, 2]
     \<lparr>so_DirectAccountPointers = False, so_AccountDataDirectMapping = False\<rparr>"

lemma three_serialized_accepted: "\<exists>h1 input. three_serialized = Inr (h1, input)"
  by (simp add: three_serialized_def three_slots_def SerializeInputV1WithOptions_def serialize_contiguous_def UniqueInputAccount_def
      DuplicateInputAccount_def slot_error_def alignmentPadding_def checkedAddInt_def or_invalid_def pointer_bytes_def Let_def
      and_then_def serialize_slot_def account_slot_def duplicate_slot_def appendU64_bytes new_array_def)


end
