(* ===== verification/RtMemoryFacts.thy ===== *)
theory RtMemoryFacts
  imports RtChanges
begin

text \<open>
  What \<open>Translate\<close> of \<open>src/runtime/memory.go\<close> answers on a map that \<open>NewMemoryMap\<close> has accepted, and the runtime's memory as
  a provider of the guest-memory contract.
\<close>

section \<open>Accepted tables\<close>

definition start_of :: "RuntimeMemoryRegion \<Rightarrow> nat" where
  "start_of r = unat (mr_VMStart r)"

text \<open>Go slices are shorter than \<open>2^63\<close>.\<close>

definition real_slices :: "MemoryMap \<Rightarrow> bool" where
  "real_slices m \<longleftrightarrow> (\<forall>r \<in> set m. sl_Len (mr_Data r) < 2 ^ 63)"

definition reserved_ok :: "RuntimeMemoryRegion \<Rightarrow> bool" where
  "reserved_ok r \<longleftrightarrow>
     0 < unat (mr_ReservedLength r) \<and> sl_Len (mr_Data r) \<le> unat (mr_ReservedLength r) \<and>
     start_of r + unat (mr_ReservedLength r) < 2 ^ 64"

definition before :: "RuntimeMemoryRegion \<Rightarrow> RuntimeMemoryRegion \<Rightarrow> bool" where
  "before r s \<longleftrightarrow> start_of r + unat (mr_ReservedLength r) \<le> start_of s"

definition table_ok :: "MemoryMap \<Rightarrow> bool" where
  "table_ok m \<longleftrightarrow> (\<forall>r \<in> set m. reserved_ok r) \<and> sorted_wrt before m"

lemma complement_less: "len > - 1 - w \<longleftrightarrow> 2 ^ 64 \<le> unat w + unat (len :: u64)"
proof -
  have "unat (- 1 - w) = unat (- 1 :: u64) - unat w" by (rule unat_sub) simp
  then have "unat (- 1 - w) = 2 ^ 64 - 1 - unat w" by (simp add: unsigned_minus_1_eq_mask mask_eq_exp_minus_1)
  then show ?thesis using unat_bound [of w] by (simp add: word_less_nat_alt) linarith
qed

lemma region_len_nat: "sl_Len (mr_Data r) < 2 ^ 63 \<Longrightarrow> unat (region_len r) = sl_Len (mr_Data r)"
  by (simp add: region_len_def unsigned_of_nat take_bit_nat_eq_self)

definition filled :: "RuntimeMemoryRegion \<Rightarrow> RuntimeMemoryRegion" where
  "filled r = r\<lparr>mr_ReservedLength := reservationLength r\<rparr>"

lemma filled_fields [simp]:
  "mr_VMStart (filled r) = mr_VMStart r" "mr_Data (filled r) = mr_Data r" "mr_Writable (filled r) = mr_Writable r"
  "mr_Growable (filled r) = mr_Growable r" "start_of (filled r) = start_of r"
  by (simp_all add: filled_def start_of_def)

lemma check_reservation_Inr:
  assumes "check_reservation r = Inr r'" and "sl_Len (mr_Data r) < 2 ^ 63"
  shows "r' = filled r" "reserved_ok r'"
proof -
  show r': "r' = filled r" using assms(1)
    by (auto simp: check_reservation_def filled_def Let_def split: if_splits option.splits)
  have R: "reservationLength r \<noteq> 0" "\<not> reservationLength r < region_len r" "reservedEnd r \<noteq> None"
    using assms(1) by (auto simp: check_reservation_def Let_def split: if_splits option.splits)
  have "mr_ReservedLength r' = reservationLength r" by (simp add: r' filled_def)
  moreover have "\<not> reservationLength r > - 1 - mr_VMStart r" using R(3) by (auto simp: reservedEnd_def Let_def split: if_splits)
  ultimately show "reserved_ok r'"
    using R(1,2) region_len_nat [OF assms(2)] unfolding complement_less
    by (simp add: reserved_ok_def r' start_of_def word_less_nat_alt unat_gt_0 not_less)
qed

lemma check_reservations_Inr:
  "check_reservations rs = Inr rs' \<Longrightarrow> real_slices rs \<Longrightarrow> rs' = map filled rs \<and> (\<forall>r \<in> set rs'. reserved_ok r)"
proof (induction rs arbitrary: rs')
  case (Cons r rs)
  then show ?case using check_reservation_Inr by (auto simp: and_then_Inr_conv real_slices_def)
qed simp

lemma reservedEnd_ok: "reserved_ok r \<Longrightarrow> unat (end_or_zero (reservedEnd r)) = start_of r + unat (mr_ReservedLength r)"
  by (auto simp: reserved_ok_def reservedEnd_def reservationLength_def end_or_zero_def start_of_def complement_less Let_def unat_word_ariths)

lemma neighbours_sorted:
  "check_neighbours m = None \<Longrightarrow> \<forall>r \<in> set m. reserved_ok r \<Longrightarrow> sorted_wrt before m"
proof (induction m rule: check_neighbours.induct)
  case (1 a b rs)
  have n: "\<not> mr_VMStart b < end_or_zero (reservedEnd a)" and t: "check_neighbours (b # rs) = None"
    using "1.prems"(1) by (auto split: if_splits)
  have ab: "before a b" using n reservedEnd_ok [of a] "1.prems"(2) by (simp add: before_def word_less_nat_alt start_of_def)
  have s: "sorted_wrt before (b # rs)" using "1.IH" n t "1.prems"(2) by simp
  have "before a c" if "c \<in> set rs" for c using s ab that by (auto simp: before_def)
  then show ?case using s ab by simp
qed simp_all

lemma region_table_ok:
  assumes "region_table regions = Inr m" and "real_slices regions"
  shows "table_ok m" "set m = filled ` set regions"
proof -
  from assms(1) obtain checked where c: "check_reservations regions = Inr checked" and m: "m = sort_key mr_VMStart checked"
    "check_neighbours m = None"
    by (auto simp: region_table_def and_then_Inr_conv Let_def split: option.splits)
  note r = check_reservations_Inr [OF c assms(2)]
  show "set m = filled ` set regions" using r by (simp add: m(1))
  have "\<forall>x \<in> set m. reserved_ok x" using r by (simp add: m(1))
  then show "table_ok m" using neighbours_sorted [OF m(2)] by (simp add: table_ok_def)
qed

section \<open>Translation\<close>

definition covers :: "RuntimeMemoryRegion \<Rightarrow> u64 \<Rightarrow> u64 \<Rightarrow> bool" where
  "covers r address len \<longleftrightarrow> mr_VMStart r \<le> address \<and> unat address + unat len \<le> start_of r + sl_Len (mr_Data r)"

definition window_of :: "RuntimeMemoryRegion \<Rightarrow> u64 \<Rightarrow> u64 \<Rightarrow> slice" where
  "window_of r address len =
     (let offset = unat address - start_of r in reslice (mr_Data r) offset (offset + unat len))"

text \<open>The last region that starts at or below an address.\<close>

definition last_below :: "RuntimeMemoryRegion set \<Rightarrow> u64 \<Rightarrow> RuntimeMemoryRegion \<Rightarrow> bool" where
  "last_below R address r \<longleftrightarrow> mr_VMStart r \<le> address \<and> (\<forall>s \<in> R. mr_VMStart s \<le> address \<longrightarrow> mr_VMStart s \<le> mr_VMStart r)"

lemma sorted_starts:
  assumes "table_ok m" and "i < j" and "j < length m"
  shows "mr_VMStart (m ! i) < mr_VMStart (m ! j)"
proof -
  have "before (m ! i) (m ! j)" using assms sorted_wrt_nth_less [of before m i j] by (simp add: table_ok_def)
  moreover have "reserved_ok (m ! i)" using assms by (simp add: table_ok_def)
  ultimately show ?thesis by (simp add: before_def reserved_ok_def start_of_def word_less_nat_alt)
qed

lemma search_last:
  fixes address :: u64
  assumes t: "table_ok m"
  defines "next \<equiv> search (\<lambda>r. mr_VMStart r > address) m"
  shows "next \<noteq> 0 \<Longrightarrow> m ! (next - 1) \<in> set m \<and> last_below (set m) address (m ! (next - 1))"
    "r \<in> set m \<Longrightarrow> last_below (set m) address r \<Longrightarrow> next \<noteq> 0 \<and> m ! (next - 1) = r"
proof -
  have le: "next \<le> length m" unfolding next_def search_def by (rule length_takeWhile_le)
  have pre: "mr_VMStart (m ! i) \<le> address" if "i < next" for i
    using that nth_mem [of i "takeWhile (\<lambda>x. \<not> address < mr_VMStart x) m"] set_takeWhileD
    by (fastforce simp: next_def search_def takeWhile_nth not_less)
  have post: "address < mr_VMStart (m ! i)" if i: "next \<le> i" "i < length m" for i
  proof -
    have "address < mr_VMStart (m ! next)"
      using nth_length_takeWhile [of "\<lambda>x. \<not> address < mr_VMStart x" m] i by (simp add: next_def search_def)
    then show ?thesis using sorted_starts [OF t, of "next" i] i by (cases "i = next") (auto intro: less_trans)
  qed
  have below: "mr_VMStart (m ! i) \<le> mr_VMStart (m ! (next - 1))" if "next \<noteq> 0" "i < length m" "mr_VMStart (m ! i) \<le> address" for i
  proof -
    have "i < next" using post [of i] that by (meson leD not_le)
    then show ?thesis using sorted_starts [OF t, of i "next - 1"] le by (cases "i = next - 1") (auto intro: less_imp_le)
  qed
  show "m ! (next - 1) \<in> set m \<and> last_below (set m) address (m ! (next - 1))" if n: "next \<noteq> 0"
  proof
    show "m ! (next - 1) \<in> set m" using n le by (intro nth_mem) linarith
    show "last_below (set m) address (m ! (next - 1))"
      using pre [of "next - 1"] below [OF n] n by (auto simp: last_below_def in_set_conv_nth)
  qed
  show "next \<noteq> 0 \<and> m ! (next - 1) = r" if r: "r \<in> set m" "last_below (set m) address r"
  proof -
    obtain i where i: "i < length m" "m ! i = r" using r(1) by (auto simp: in_set_conv_nth)
    have lt: "i < next" using post [of i] i r(2) by (meson last_below_def leD not_le)
    then have "mr_VMStart (m ! (next - 1)) \<le> mr_VMStart r"
      using r(2) pre [of "next - 1"] le by (simp add: last_below_def)
    moreover have "next - 1 < length m" using lt le by linarith
    ultimately have "\<not> i < next - 1" using sorted_starts [OF t, of i "next - 1"] i by auto
    then show ?thesis using lt i by (cases "i = next - 1") auto
  qed
qed

lemma translate_in_iff:
  assumes t: "table_ok m" and real: "real_slices m"
  shows "translate_in m address len access alignment = Inr s \<longleftrightarrow>
    (access = AccessRead \<or> access = AccessWrite) \<and>
    (alignment \<le> 1 \<or> alignment AND (alignment - 1) = 0 \<and> address mod alignment = 0) \<and>
    (\<exists>r \<in> set m. last_below (set m) address r \<and> covers r address len \<and> (access = AccessWrite \<longrightarrow> mr_Writable r) \<and>
       s = window_of r address len)"
proof -
  have region_end: "region_limit r = Some (mr_VMStart r + region_len r)" "unat (mr_VMStart r + region_len r) = start_of r + sl_Len (mr_Data r)"
    if "r \<in> set m" for r
  proof -
    have l: "unat (region_len r) = sl_Len (mr_Data r)" using region_len_nat real that by (simp add: real_slices_def)
    have "start_of r + sl_Len (mr_Data r) < 2 ^ 64" using t that by (auto simp: table_ok_def reserved_ok_def)
    then show "region_limit r = Some (mr_VMStart r + region_len r)" "unat (mr_VMStart r + region_len r) = start_of r + sl_Len (mr_Data r)"
      using l by (simp_all add: region_limit_def complement_less start_of_def unat_word_ariths)
  qed
  have within_region: "address < mr_VMStart r \<or> address + len > end_or_zero (region_limit r) \<or> (len > 0 \<and> address = end_or_zero (region_limit r))
      \<longleftrightarrow> \<not> covers r address len" if r: "r \<in> set m" and f: "\<not> len > - 1 - address" for r
  proof -
    have sum: "unat (address + len) = unat address + unat len" using f unfolding complement_less by (simp add: unat_word_ariths)
    have e: "unat (end_or_zero (region_limit r)) = start_of r + sl_Len (mr_Data r)"
      using region_end [OF r] by (simp add: end_or_zero_def)
    show ?thesis
      unfolding covers_def word_less_nat_alt word_le_nat_alt sum e
      using e by (auto simp: not_le not_less start_of_def unat_gt_0)
  qed
  have window: "reslice (mr_Data r) (unat (address - mr_VMStart r)) (unat (address - mr_VMStart r + len)) = window_of r address len"
    if r: "r \<in> set m" and c: "covers r address len" for r
  proof -
    have off: "unat (address - mr_VMStart r) = unat address - start_of r"
      using c unfolding covers_def start_of_def by (intro unat_sub) simp
    have "sl_Len (mr_Data r) < 2 ^ 63" using real r by (simp add: real_slices_def)
    moreover have "unat address - start_of r + unat len \<le> sl_Len (mr_Data r)"
      using c unfolding covers_def start_of_def word_le_nat_alt by linarith
    ultimately have "unat (address - mr_VMStart r + len) = unat address - start_of r + unat len"
      using off by (simp add: unat_word_ariths)
    then show ?thesis by (simp add: window_of_def Let_def off)
  qed
  have no_wrap: "\<not> len > - 1 - address" if "r \<in> set m" "covers r address len" for r
    using t that unfolding complement_less by (auto simp: table_ok_def reserved_ok_def covers_def)
  define k where "k = search (\<lambda>r. mr_VMStart r > address) m"
  note last = search_last [OF t, where address = address, folded k_def]
  show ?thesis
  proof
    assume "translate_in m address len access alignment = Inr s"
    then have p: "access = AccessRead \<or> access = AccessWrite"
      "alignment \<le> 1 \<or> alignment AND (alignment - 1) = 0 \<and> address mod alignment = 0" "\<not> len > - 1 - address" "k \<noteq> 0"
      and g: "\<not> (address < mr_VMStart (m ! (k - 1)) \<or> address + len > end_or_zero (region_limit (m ! (k - 1))) \<or>
          (len > 0 \<and> address = end_or_zero (region_limit (m ! (k - 1)))))"
      and w: "access = AccessWrite \<longrightarrow> mr_Writable (m ! (k - 1))"
      and s: "s = reslice (mr_Data (m ! (k - 1))) (unat (address - mr_VMStart (m ! (k - 1)))) (unat (address - mr_VMStart (m ! (k - 1)) + len))"
      unfolding translate_in_def k_def [symmetric] Let_def by (simp_all add: not_less split: if_split_asm)
    note r = last(1) [OF p(4)]
    have c: "covers (m ! (k - 1)) address len" using g within_region [OF conjunct1 [OF r] p(3)] by blast
    show "(access = AccessRead \<or> access = AccessWrite) \<and>
      (alignment \<le> 1 \<or> alignment AND (alignment - 1) = 0 \<and> address mod alignment = 0) \<and>
      (\<exists>r \<in> set m. last_below (set m) address r \<and> covers r address len \<and> (access = AccessWrite \<longrightarrow> mr_Writable r) \<and>
         s = window_of r address len)"
      using p(1,2) r c w window [OF conjunct1 [OF r] c] s by blast
  next
    assume p: "(access = AccessRead \<or> access = AccessWrite) \<and>
      (alignment \<le> 1 \<or> alignment AND (alignment - 1) = 0 \<and> address mod alignment = 0) \<and>
      (\<exists>r \<in> set m. last_below (set m) address r \<and> covers r address len \<and> (access = AccessWrite \<longrightarrow> mr_Writable r) \<and>
         s = window_of r address len)"
    then obtain r where r: "r \<in> set m" "last_below (set m) address r" "covers r address len" "access = AccessWrite \<longrightarrow> mr_Writable r"
      "s = window_of r address len" by blast
    note n = last(2) [OF r(1,2)] and f = no_wrap [OF r(1,3)]
    have g: "\<not> (address < mr_VMStart r \<or> address + len > end_or_zero (region_limit r) \<or> (len > 0 \<and> address = end_or_zero (region_limit r)))"
      using within_region [OF r(1) f] r(3) by blast
    have al: "\<not> (alignment > 1 \<and> (alignment AND (alignment - 1) \<noteq> 0 \<or> address mod alignment \<noteq> 0))" using p by (auto simp: not_less)
    have ac: "\<not> (access \<noteq> AccessRead \<and> access \<noteq> AccessWrite)" using p by blast
    have wr: "\<not> (access = AccessWrite \<and> \<not> mr_Writable r)" using r(4) by blast
    have rr: "m ! (k - 1) = r" and nz: "k \<noteq> 0" using n by blast+
    show "translate_in m address len access alignment = Inr s"
      unfolding translate_in_def k_def [symmetric] Let_def rr window [OF r(1,3)] r(5)
      using f g al ac wr nz by (simp only: if_False simp_thms)
  qed
qed

section \<open>A guest memory\<close>

text \<open>
  A heap with a map whose table is accepted and whose regions are separate parts of their arrays: the situation the serialiser
  creates.  Its aligned 64-bit loads and stores keep it and meet the contract of guest memories.
\<close>

definition mapped_regions :: "heap \<Rightarrow> nat \<Rightarrow> bool" where
  "mapped_regions h p \<longleftrightarrow> p < length (Maps h) \<and> table_ok (Maps h ! p) \<and> real_slices (Maps h ! p) \<and>
     (\<forall>r \<in> set (Maps h ! p). in_bounds_slice h (mr_Data r)) \<and>
     (\<forall>r \<in> set (Maps h ! p). \<forall>s \<in> set (Maps h ! p). r \<noteq> s \<longrightarrow> apart_slices (mr_Data r) (mr_Data s))"

lemma covers_window:
  assumes "covers r a len"
  shows "unat a - start_of r + unat len \<le> sl_Len (mr_Data r)" "start_of r \<le> unat a"
  using assms unfolding covers_def start_of_def word_le_nat_alt by linarith+

lemma translated_region:
  assumes m: "mapped_regions h p" and t: "Translate h (Some p) a len access al = Inr s"
  obtains r where "r \<in> set (Maps h ! p)" "covers r a len" "s = window_of r a len"
proof -
  have "table_ok (Maps h ! p)" "real_slices (Maps h ! p)" using m by (simp_all add: mapped_regions_def)
  from translate_in_iff [OF this, of a len access al s] t that show thesis unfolding Translate_def option.case by blast
qed

lemma translated_window:
  assumes m: "mapped_regions h p" and t: "Translate h (Some p) a len access al = Inr s"
  shows "in_bounds_slice h s" "sl_Len s = unat len"
proof -
  obtain r where r: "r \<in> set (Maps h ! p)" "covers r a len" "s = window_of r a len" by (rule translated_region [OF m t])
  note w = covers_window [OF r(2)]
  have "in_bounds_slice h (mr_Data r)" using m r(1) by (auto simp: mapped_regions_def)
  from bounds_reslice [OF this le_add1 w(1)] show "in_bounds_slice h s" by (simp add: r(3) window_of_def Let_def)
  show "sl_Len s = unat len" by (simp add: r(3) window_of_def Let_def)
qed

lemma translated_apart:
  assumes m: "mapped_regions h p"
    and s: "Translate h (Some p) a len access al = Inr s" and t: "Translate h (Some p) b len' access' al' = Inr t"
    and ab: "apart a (unat len) b (unat len')"
  shows "apart_slices s t"
proof -
  obtain r where r: "r \<in> set (Maps h ! p)" "covers r a len" "s = window_of r a len" by (rule translated_region [OF m s])
  obtain q where q: "q \<in> set (Maps h ! p)" "covers q b len'" "t = window_of q b len'" by (rule translated_region [OF m t])
  note w = covers_window [OF r(2)] covers_window [OF q(2)]
  show ?thesis
  proof (cases "r = q")
    case True
    then show ?thesis using ab w by (auto simp: r(3) q(3) window_of_def Let_def apart_slices_def apart_def)
  next
    case False
    then have "apart_slices (mr_Data r) (mr_Data q)" using m r(1) q(1) by (auto simp: mapped_regions_def)
    then have "apart_slices s (mr_Data q)" using w by (simp add: r(3) window_of_def Let_def apart_reslice)
    then have "apart_slices (mr_Data q) s" by (simp only: apart_sym_slices)
    then have "apart_slices t s" using w by (simp add: q(3) window_of_def Let_def apart_reslice)
    then show ?thesis by (simp only: apart_sym_slices)
  qed
qed

lemma written_regions:
  assumes m: "mapped_regions h p" and w: "WriteUint64 h (Some p) a v = Inr h'"
  shows "mapped_regions h' p" "Maps h' = Maps h"
    "Translate h' (Some p) b len access al = Translate h (Some p) b len access al"
proof -
  obtain s where s: "Translate h (Some p) a 8 AccessWrite 8 = Inr s" "h' = write_slice h s (le_bytes 8 v)"
    using w by (auto simp: WriteUint64_def and_then_Inr_conv)
  show maps: "Maps h' = Maps h" by (simp add: s(2))
  have "same_shape h h'" using translated_window [OF m s(1)] unfolding s(2) by (intro shape_write) simp_all
  then show "mapped_regions h' p" using m by (simp add: mapped_regions_def maps same_shape_bounds)
  show "Translate h' (Some p) b len access al = Translate h (Some p) b len access al" by (simp add: Translate_def maps)
qed

lemma write_then_read:
  assumes m: "mapped_regions h p" and w: "WriteUint64 h (Some p) a v = Inr h'"
  shows "ReadUint64 h' (Some p) a = Inr v"
    "apart a 8 b 8 \<Longrightarrow> ReadUint64 h' (Some p) b = ReadUint64 h (Some p) b"
proof -
  obtain s where s: "Translate h (Some p) a 8 AccessWrite 8 = Inr s" "h' = write_slice h s (le_bytes 8 v)"
    using w by (auto simp: WriteUint64_def and_then_Inr_conv)
  note win = translated_window [OF m s(1)]
  have "Translate h (Some p) a 8 AccessRead 8 = Inr s"
    using s(1) by (simp add: Translate_def translate_in_def Let_def split: if_split_asm)
  then have "Translate h' (Some p) a 8 AccessRead 8 = Inr s" by (simp add: Translate_def s(2))
  then show "ReadUint64 h' (Some p) a = Inr v"
    using win by (simp add: ReadUint64_def s(2) read_slice_same codec_simps)
  show "ReadUint64 h' (Some p) b = ReadUint64 h (Some p) b" if "apart a 8 b 8"
  proof (cases "Translate h (Some p) b 8 AccessRead 8")
    case (Inr t)
    have "apart_slices s t" using translated_apart [OF m s(1) Inr] that by simp
    then show ?thesis using win Inr
      by (simp add: ReadUint64_def written_regions(3) [OF m w]) (simp add: s(2) read_slice_apart)
  qed (simp add: ReadUint64_def written_regions(3) [OF m w])
qed

typedef runtime_memory = "{(h, p). mapped_regions h p}"
  by (rule exI [of _ "(\<lparr>Arrays = [], Maps = [[]], Views = []\<rparr>, 0)"]) (simp add: mapped_regions_def table_ok_def real_slices_def)

setup_lifting type_definition_runtime_memory

lift_definition guest_load :: "runtime_memory \<Rightarrow> u64 \<Rightarrow> unit \<Rightarrow> rt_error + u64" is
  "\<lambda>(h, p) a _. ReadUint64 h (Some p) a" .

lift_definition guest_store :: "runtime_memory \<Rightarrow> u64 \<Rightarrow> u64 \<Rightarrow> unit \<Rightarrow> rt_error + runtime_memory" is
  "\<lambda>(h, p) a v _. and_then (WriteUint64 h (Some p) a v) (\<lambda>h'. Inr (h', p))"
  by (auto simp: written_regions(1) and_then_def split: sum.splits)

lift_definition guest_accepts :: "runtime_memory \<Rightarrow> u64 \<Rightarrow> unit \<Rightarrow> bool" is
  "\<lambda>(h, p) a _. \<exists>s. Translate h (Some p) a 8 AccessWrite 8 = Inr s" .

lemma store_lifted: "guest_store s a v u = Inr s' \<Longrightarrow>
    (\<exists>h h' p. Rep_runtime_memory s = (h, p) \<and> Rep_runtime_memory s' = (h', p) \<and> mapped_regions h p \<and> WriteUint64 h (Some p) a v = Inr h')"
  by transfer (auto simp: and_then_Inr_conv)

lemma store_refused: "guest_store s a v u = Inl e \<Longrightarrow>
    (\<exists>h p. Rep_runtime_memory s = (h, p) \<and> WriteUint64 h (Some p) a v = Inl e)"
  by transfer (auto simp: and_then_Inl_conv)

interpretation rt_mem: guest_memory guest_load guest_store "\<lambda>_. 8" "\<lambda>_ v. v" guest_accepts
proof unfold_locales
  fix s s' :: runtime_memory and a b v :: u64 and k k' :: unit
  assume "guest_store s a v k = Inr s'"
  then obtain h h' p where r: "Rep_runtime_memory s = (h, p)" "Rep_runtime_memory s' = (h', p)" and m: "mapped_regions h p"
    and w: "WriteUint64 h (Some p) a v = Inr h'"
    using store_lifted by blast
  show "guest_load s' a k = Inr v" using write_then_read(1) [OF m w] by (simp add: guest_load.rep_eq r)
  show "apart a 8 b 8 \<Longrightarrow> guest_load s' b k' = guest_load s b k'"
    using write_then_read(2) [OF m w, of b] by (simp add: guest_load.rep_eq r)
  show "guest_accepts s' b k' = guest_accepts s b k'"
    using written_regions(3) [OF m w] by (simp add: guest_accepts.rep_eq r)
next
  fix s :: runtime_memory and a v :: u64 and k :: unit
  show "(\<exists>s'. guest_store s a v k = Inr s') = guest_accepts s a k"
  proof (cases "guest_store s a v k")
    case (Inl e)
    from store_refused [OF this] Inl show ?thesis
      by (auto simp: guest_accepts.rep_eq WriteUint64_def and_then_Inl_conv)
  next
    case (Inr s')
    from store_lifted [OF this] Inr show ?thesis
      by (auto simp: guest_accepts.rep_eq WriteUint64_def and_then_Inr_conv)
  qed
qed

text \<open>A run of stores to separate words of the runtime's memory leaves every word with what was stored in it.\<close>

lemmas runtime_stores_read = rt_mem.store_all_reads
lemmas runtime_stores_accepted = rt_mem.store_all_accepts

section \<open>Property\<close>

text \<open>
  C37.  On a map that was accepted a translation succeeds exactly when the access is a read or a write, the address is aligned to a power
  of two, and the whole range lies in the mapped bytes of the last region that starts at or below the address, which must be
  writable for a write; it gives that range of the region's bytes.
\<close>

theorem Translate_iff:
  assumes "NewMemoryMap h regions = Inr (h', p)" and "real_slices regions"
  shows "Translate h' (Some p) address len access alignment = Inr s \<longleftrightarrow>
    (access = AccessRead \<or> access = AccessWrite) \<and>
    (alignment \<le> 1 \<or> alignment AND (alignment - 1) = 0 \<and> address mod alignment = 0) \<and>
    (\<exists>r \<in> set regions. last_below (set regions) address r \<and> covers r address len \<and> (access = AccessWrite \<longrightarrow> mr_Writable r) \<and>
       s = window_of r address len)"
proof -
  from assms(1) obtain m where m: "region_table regions = Inr m" and h': "Maps h' ! p = m"
    by (auto simp: NewMemoryMap_def and_then_Inr_conv new_map_def)
  note ok = region_table_ok [OF m assms(2)]
  have "real_slices m" using assms(2) ok(2) by (auto simp: real_slices_def)
  from translate_in_iff [OF ok(1) this, of address len access alignment s]
  show ?thesis
    unfolding Translate_def option.case h' ok(2)
    by (simp add: last_below_def covers_def window_of_def)
qed

definition two_regions :: MemoryMap where
  "two_regions =
     [\<lparr>mr_VMStart = 0x400000010, mr_Data = \<lparr>sl_Array = 0, sl_Off = 8, sl_Len = 4, sl_Cap = 8\<rparr>, mr_Writable = True,
       mr_ReservedLength = 8, mr_Growable = True\<rparr>,
      \<lparr>mr_VMStart = 0x400000000, mr_Data = \<lparr>sl_Array = 0, sl_Off = 0, sl_Len = 8, sl_Cap = 8\<rparr>, mr_Writable = False,
       mr_ReservedLength = 0, mr_Growable = False\<rparr>]"

theorem Translate_iff_witness:
  "\<exists>h' p. NewMemoryMap \<lparr>Arrays = [replicate 16 0], Maps = [], Views = []\<rparr> two_regions = Inr (h', p) \<and>
    Translate h' (Some p) 0x400000012 2 AccessWrite 2 = Inr \<lparr>sl_Array = 0, sl_Off = 10, sl_Len = 2, sl_Cap = 6\<rparr> \<and>
    (\<forall>s. Translate h' (Some p) 0x400000000 2 AccessWrite 1 \<noteq> Inr s)"
proof -
  obtain h' p where n: "NewMemoryMap \<lparr>Arrays = [replicate 16 0], Maps = [], Views = []\<rparr> two_regions = Inr (h', p)"
    by (simp add: NewMemoryMap_def two_regions_def region_table_def check_reservation_def reservationLength_def reservedEnd_def
        region_len_def and_then_def Let_def new_map_def end_or_zero_def)
  have real: "real_slices two_regions" by (simp add: real_slices_def two_regions_def)
  note iff = Translate_iff [OF n real]
  show ?thesis
  proof (intro exI conjI allI)
    show "NewMemoryMap \<lparr>Arrays = [replicate 16 0], Maps = [], Views = []\<rparr> two_regions = Inr (h', p)" by (rule n)
    show "Translate h' (Some p) 0x400000012 2 AccessWrite 2 = Inr \<lparr>sl_Array = 0, sl_Off = 10, sl_Len = 2, sl_Cap = 6\<rparr>"
      unfolding iff by (simp add: two_regions_def last_below_def covers_def window_of_def start_of_def reslice_def)
    show "Translate h' (Some p) 0x400000000 2 AccessWrite 1 \<noteq> Inr s" for s
      unfolding iff by (simp add: two_regions_def last_below_def covers_def)
  qed
qed

end
