(* ===== verification/Numerals.thy ===== *)
theory Numerals
  imports Prelude
begin

text \<open>
  Numbers as text, as \<open>fmt\<close> prints them: digits in a radix up to 16, zero padding, signs.  Different numbers have different texts,
  and texts with a separator between their parts determine the parts.
\<close>

section \<open>Printing\<close>

definition digit_char :: "nat \<Rightarrow> char" where
  "digit_char d = (if d < 10 then char_of (d + 48) else char_of (d + 87))"

fun digits :: "nat \<Rightarrow> nat \<Rightarrow> string" where
  "digits radix n =
     (if n < radix \<or> radix < 2 then [digit_char n] else digits radix (n div radix) @ [digit_char (n mod radix)])"

declare digits.simps [simp del]

definition decimal :: "nat \<Rightarrow> string" where
  "decimal n = digits 10 n"

definition pad_zeros :: "nat \<Rightarrow> string \<Rightarrow> string" where
  "pad_zeros width s = replicate (width - length s) (CHR ''0'') @ s"

text \<open>\<open>%d\<close>, \<open>%+d\<close>, \<open>%0wd\<close> and \<open>%0wx\<close>.\<close>

definition signed_decimal :: "int \<Rightarrow> string" where
  "signed_decimal v = (if v < 0 then CHR ''-'' # decimal (nat (- v)) else decimal (nat v))"

definition plus_decimal :: "int \<Rightarrow> string" where
  "plus_decimal v = (if v < 0 then CHR ''-'' # decimal (nat (- v)) else CHR ''+'' # decimal (nat v))"

definition padded_decimal :: "nat \<Rightarrow> int \<Rightarrow> string" where
  "padded_decimal width v =
     (if v < 0 then CHR ''-'' # pad_zeros (width - 1) (decimal (nat (- v))) else pad_zeros width (decimal (nat v)))"

definition padded_hex :: "nat \<Rightarrow> nat \<Rightarrow> string" where
  "padded_hex width n = pad_zeros width (digits 16 n)"

section \<open>Reading\<close>

definition char_digit :: "char \<Rightarrow> nat" where
  "char_digit c = (let n = of_char c in if n < 58 then n - 48 else n - 87)"

definition text_value :: "nat \<Rightarrow> string \<Rightarrow> nat" where
  "text_value radix s = foldl (\<lambda>v c. v * radix + char_digit c) 0 s"

text \<open>\<open>0\<close> to \<open>9\<close> and \<open>a\<close> to \<open>f\<close>, by their codes.\<close>

definition is_digit :: "char \<Rightarrow> bool" where
  "is_digit c \<longleftrightarrow> (let n = of_char c :: nat in 48 \<le> n \<and> n < 58 \<or> 97 \<le> n \<and> n < 103)"

lemma is_digit_char: "d < 16 \<Longrightarrow> is_digit (digit_char d)"
  by (auto simp: is_digit_def digit_char_def)

lemma no_digits: "\<not> is_digit (CHR ''-'')" "\<not> is_digit (CHR ''+'')" "\<not> is_digit (CHR '' '')" "\<not> is_digit (CHR '','')"
  "\<not> is_digit (CHR ''('')" "\<not> is_digit (CHR '')'')" "\<not> is_digit (CHR '':'')" "\<not> is_digit (CHR ''['')" "\<not> is_digit (CHR '']'')"
  "\<not> is_digit (CHR ''>'')" "\<not> is_digit (CHR 0x0A)" "is_digit (CHR ''0'')"
  by (simp_all add: is_digit_def)

lemma char_digit_char: "d < 16 \<Longrightarrow> char_digit (digit_char d) = d"
  by (auto simp: char_digit_def digit_char_def Let_def)

lemma text_value_digits: "2 \<le> radix \<Longrightarrow> radix \<le> 16 \<Longrightarrow> text_value radix (digits radix n) = n"
proof (induction n rule: less_induct)
  case (less n)
  show ?case
  proof (cases "n < radix")
    case True
    then show ?thesis using less.prems by (simp add: digits.simps [of radix n] text_value_def char_digit_char)
  next
    case False
    have m: "n mod radix < 16" using less.prems mod_less_divisor [of radix n] by linarith
    have "n div radix < n" using False less.prems by (intro div_less_dividend) auto
    then have "text_value radix (digits radix (n div radix)) = n div radix" using less by simp
    then show ?thesis
      using False less.prems m by (simp add: digits.simps [of radix n] text_value_def char_digit_char)
  qed
qed

lemma digits_inj: "2 \<le> radix \<Longrightarrow> radix \<le> 16 \<Longrightarrow> digits radix m = digits radix n \<longleftrightarrow> m = n"
  using text_value_digits by metis

lemma decimal_inj [simp]: "decimal m = decimal n \<longleftrightarrow> m = n"
  by (simp add: decimal_def digits_inj)

lemma text_value_pad: "text_value radix (pad_zeros width s) = text_value radix s"
proof -
  have "foldl (\<lambda>v c. v * radix + char_digit c) 0 (replicate k (CHR ''0'') @ s) = foldl (\<lambda>v c. v * radix + char_digit c) 0 s" for k
    by (induction k) (simp_all add: char_digit_def)
  then show ?thesis by (simp add: text_value_def pad_zeros_def)
qed

lemma padded_hex_inj [simp]: "padded_hex width m = padded_hex width n \<longleftrightarrow> m = n"
proof
  assume "padded_hex width m = padded_hex width n"
  then have "text_value 16 (padded_hex width m) = text_value 16 (padded_hex width n)" by simp
  then show "m = n" by (simp add: padded_hex_def text_value_pad text_value_digits)
qed simp

lemma digits_chars: "2 \<le> radix \<Longrightarrow> radix \<le> 16 \<Longrightarrow> list_all is_digit (digits radix n)"
proof (induction n rule: less_induct)
  case (less n)
  show ?case
  proof (cases "n < radix")
    case True
    then show ?thesis using less.prems by (simp add: digits.simps [of radix n] is_digit_char)
  next
    case False
    have "n mod radix < 16" using less.prems mod_less_divisor [of radix n] by linarith
    moreover have "n div radix < n" using False less.prems by (intro div_less_dividend) auto
    ultimately show ?thesis using less False by (simp add: digits.simps [of radix n] is_digit_char)
  qed
qed

lemma digits_nonempty [simp]: "digits radix n \<noteq> []"
  by (subst digits.simps) simp

lemma pad_zeros_digits: "list_all is_digit s \<Longrightarrow> list_all is_digit (pad_zeros width s)"
  by (auto simp: pad_zeros_def list_all_iff no_digits)

lemma number_texts: "list_all is_digit (decimal n)" "list_all is_digit (padded_hex w n)"
  by (simp_all add: decimal_def padded_hex_def digits_chars pad_zeros_digits)

lemma decimal_nonempty [simp]: "decimal n \<noteq> []"
  by (simp add: decimal_def)

lemma signed_decimal_inj [simp]: "signed_decimal v = signed_decimal w \<longleftrightarrow> v = w"
proof -
  have m: "CHR ''-'' # s \<noteq> decimal n" for s n using number_texts(1) [of n] no_digits(1) by (metis list.pred_inject(2))
  show ?thesis using m m [symmetric] by (auto simp: signed_decimal_def)
qed

lemma plus_decimal_inj [simp]: "plus_decimal v = plus_decimal w \<longleftrightarrow> v = w"
  by (auto simp: plus_decimal_def)

section \<open>Parts of texts\<close>

lemma separated:
  assumes "c \<notin> set xs" and "c \<notin> set ys"
  shows "xs @ c # us = ys @ c # vs \<longleftrightarrow> xs = ys \<and> us = vs"
proof
  assume e: "xs @ c # us = ys @ c # vs"
  have t: "takeWhile (\<lambda>x. x \<noteq> c) (zs @ c # ws) = zs" if "c \<notin> set zs" for zs ws
    using that by (induction zs) auto
  have "xs = ys" using t [OF assms(1), of us] t [OF assms(2), of vs] e by metis
  then show "xs = ys \<and> us = vs" using e by simp
qed simp

end
