(* ===== verification/CompilerTypes.thy ===== *)
theory CompilerTypes
  imports Numerals
begin

text \<open>
  The types of the compiler's intermediate representation (\<open>Type\<close> in \<open>src/compiler/ir.go\<close>): a
  32-bit word holding a scalar kind, or a flag, a length and an element kind.  The switches over
  type constants are conditionals in source order.
\<close>

type_synonym ir_type = u32

abbreviation (input) TypeInvalid :: ir_type where "TypeInvalid \<equiv> 0"
abbreviation (input) TypeVoid :: ir_type where "TypeVoid \<equiv> 1"
abbreviation (input) TypeUint64 :: ir_type where "TypeUint64 \<equiv> 2"
abbreviation (input) TypeInt64 :: ir_type where "TypeInt64 \<equiv> 3"
abbreviation (input) TypeBool :: ir_type where "TypeBool \<equiv> 4"
abbreviation (input) TypeUint32 :: ir_type where "TypeUint32 \<equiv> 5"
abbreviation (input) TypeInt32 :: ir_type where "TypeInt32 \<equiv> 6"
abbreviation (input) TypeUint8 :: ir_type where "TypeUint8 \<equiv> 7"

abbreviation (input) typePointerFlag :: ir_type where "typePointerFlag \<equiv> 0x10000000"
abbreviation (input) typeArrayFlag :: ir_type where "typeArrayFlag \<equiv> 0x20000000"
abbreviation (input) typeKindMask :: ir_type where "typeKindMask \<equiv> 0xf0000000"
abbreviation (input) typeElementMask :: ir_type where "typeElementMask \<equiv> 0xff"

definition memoryScalar :: "ir_type \<Rightarrow> bool" where
  "memoryScalar t \<longleftrightarrow> t = TypeUint64 \<or> t = TypeInt64 \<or> t = TypeUint32 \<or> t = TypeInt32 \<or>
     t = TypeUint8 \<or> t = TypeBool"

definition PointerTo :: "ir_type \<Rightarrow> ir_type" where
  "PointerTo element = (if \<not> memoryScalar element then TypeInvalid else typePointerFlag OR element)"

definition ArrayOf :: "ir_type \<Rightarrow> u32 \<Rightarrow> ir_type" where
  "ArrayOf element len =
     (if \<not> memoryScalar element \<or> len = 0 \<or> len > 0x000fffff then TypeInvalid
      else typeArrayFlag OR push_bit 8 len OR element)"

definition PointerElement :: "ir_type \<Rightarrow> ir_type \<times> bool" where
  "PointerElement t =
     (if t AND typeKindMask \<noteq> typePointerFlag then (TypeInvalid, False)
      else let element = t AND typeElementMask in (element, memoryScalar element))"

definition ArrayElement :: "ir_type \<Rightarrow> ir_type \<times> u32 \<times> bool" where
  "ArrayElement t =
     (if t AND typeKindMask \<noteq> typeArrayFlag then (TypeInvalid, 0, False)
      else
        let element = t AND typeElementMask;
            len = drop_bit 8 (t AND NOT (typeKindMask OR typeElementMask))
        in (element, len, memoryScalar element \<and> len \<noteq> 0))"

definition is_pointer :: "ir_type \<Rightarrow> bool" where
  "is_pointer t \<longleftrightarrow> snd (PointerElement t)"

text \<open>\<open>String\<close> recurses into the element, which is a scalar kind, so one level is enough.\<close>

definition scalar_name :: "ir_type \<Rightarrow> string option" where
  "scalar_name t =
     (if t = TypeVoid then Some ''void'' else if t = TypeUint64 then Some ''uint64''
      else if t = TypeInt64 then Some ''int64'' else if t = TypeBool then Some ''bool''
      else if t = TypeUint32 then Some ''uint32'' else if t = TypeInt32 then Some ''int32''
      else if t = TypeUint8 then Some ''uint8'' else None)"

definition element_name :: "ir_type \<Rightarrow> string" where
  "element_name t = (case scalar_name t of Some s \<Rightarrow> s | None \<Rightarrow> ''invalid'')"

definition Type_String :: "ir_type \<Rightarrow> string" where
  "Type_String t =
     (case scalar_name t of
        Some s \<Rightarrow> s
      | None \<Rightarrow>
          if snd (PointerElement t) then ''*'' @ element_name (fst (PointerElement t))
          else (case ArrayElement t of (element, len, ok) \<Rightarrow>
            if ok then ''['' @ decimal (unat len) @ '']'' @ element_name element else ''invalid''))"

definition integer :: "ir_type \<Rightarrow> bool" where
  "integer t \<longleftrightarrow> t = TypeUint64 \<or> t = TypeInt64 \<or> t = TypeUint32 \<or> t = TypeInt32 \<or> t = TypeUint8"

definition scalar :: "ir_type \<Rightarrow> bool" where
  "scalar t \<longleftrightarrow> t = TypeUint64 \<or> t = TypeInt64 \<or> t = TypeUint32 \<or> t = TypeInt32 \<or>
     t = TypeUint8 \<or> t = TypeBool \<or> snd (PointerElement t)"

definition signed_type :: "ir_type \<Rightarrow> bool" where
  "signed_type t \<longleftrightarrow> t = TypeInt64 \<or> t = TypeInt32"

definition type_bits :: "ir_type \<Rightarrow> nat" where
  "type_bits t =
     (if t = TypeUint8 then 8
      else if t = TypeUint32 \<or> t = TypeInt32 then 32
      else if t = TypeUint64 \<or> t = TypeInt64 then 64 else 0)"

definition memoryBytes :: "ir_type \<Rightarrow> u32" where
  "memoryBytes t =
     (if t = TypeBool \<or> t = TypeUint8 then 1
      else if t = TypeUint32 \<or> t = TypeInt32 then 4
      else if t = TypeUint64 \<or> t = TypeInt64 then 8 else 0)"

section \<open>Facts\<close>

lemma memoryScalar_cases:
  assumes "memoryScalar t"
  obtains "t = TypeUint64" | "t = TypeInt64" | "t = TypeUint32" | "t = TypeInt32" | "t = TypeUint8"
    | "t = TypeBool"
  using assms by (auto simp: memoryScalar_def)

lemma memoryScalar_bits:
  assumes "memoryScalar t" and "bit t i"
  shows "i < 3"
proof -
  have "take_bit 3 t = t" using assms(1) by (cases rule: memoryScalar_cases) simp_all
  with assms(2) show ?thesis by (metis bit_take_bit_iff)
qed

lemma type_masks:
  "typeKindMask = push_bit 28 (mask 4)" "typeElementMask = mask 8"
  "typePointerFlag = push_bit 28 1" "typeArrayFlag = push_bit 29 1"
  by (simp_all add: mask_eq_exp_minus_1)

lemma array_flag_bit: "bit (0x20000000 :: u32) i \<longleftrightarrow> i = 29"
proof -
  have "bit (push_bit 29 1 :: u32) i \<longleftrightarrow> i = 29"
    unfolding bit_push_bit_iff bit_1_iff by auto
  then show ?thesis by simp
qed

lemma length_bits:
  assumes "len \<le> 0x000fffff" and "bit (len :: u32) i"
  shows "i < 20"
proof -
  have "unat len < 2 ^ 20" using assms(1) by (simp add: word_le_nat_alt)
  then have "take_bit 20 (unat len) = unat len" by (simp add: take_bit_nat_eq_self)
  then have "take_bit 20 len = len"
    by (simp add: word_eq_iff_unsigned [where ?'a = nat] unsigned_take_bit_eq)
  with assms(2) show ?thesis by (metis bit_take_bit_iff)
qed

lemma PointerElement_PointerTo:
  "memoryScalar e \<Longrightarrow> PointerElement (PointerTo e) = (e, True)"
  by (erule memoryScalar_cases)
    (simp_all add: PointerElement_def PointerTo_def memoryScalar_def Let_def)

lemma PointerElement_plain: "memoryScalar e \<Longrightarrow> PointerElement e = (TypeInvalid, False)"
  by (erule memoryScalar_cases) (simp_all add: PointerElement_def)

lemma ArrayElement_ArrayOf:
  assumes e: "memoryScalar e" and n: "len \<noteq> 0" "len \<le> 0x000fffff"
  shows "ArrayElement (ArrayOf e len) = (e, len, True)"
proof -
  note small = memoryScalar_bits [OF e] length_bits [OF n(2)]
  let ?t = "typeArrayFlag OR push_bit 8 len OR e"
  have "bit (?t AND typeKindMask) i \<longleftrightarrow> bit (typeArrayFlag :: u32) i" if "i < LENGTH(32)" for i
    using that unfolding type_masks(1) bit_and_iff bit_or_iff array_flag_bit
    by (auto simp: bit_simps dest: small)
  then have "?t AND typeKindMask = typeArrayFlag" by (rule bit_word_eqI)
  moreover have "bit (?t AND typeElementMask) i \<longleftrightarrow> bit e i" for i
    unfolding type_masks(2) bit_and_iff bit_or_iff array_flag_bit
    by (auto simp: bit_simps dest: small)
  then have "?t AND typeElementMask = e" by (simp add: bit_eq_iff)
  moreover have "bit (drop_bit 8 (?t AND NOT (typeKindMask OR typeElementMask))) i \<longleftrightarrow> bit len i" for i
    unfolding type_masks(1,2) bit_drop_bit_eq comp_def bit_and_iff bit_or_iff bit_not_iff array_flag_bit
    by (auto simp: bit_simps dest: small)
  then have "drop_bit 8 (?t AND NOT (typeKindMask OR typeElementMask)) = len" by (simp add: bit_eq_iff)
  ultimately show ?thesis
    using e n by (simp add: ArrayElement_def ArrayOf_def not_less)
qed

lemma ArrayElement_True:
  assumes "ArrayElement t = (e, len, True)"
  shows "memoryScalar e" and "len \<noteq> 0" and "len \<le> 0x000fffff" and "ArrayOf e len = t"
proof -
  from assms have k: "t AND typeKindMask = typeArrayFlag" and e: "e = t AND typeElementMask"
    and n: "len = drop_bit 8 (t AND NOT (typeKindMask OR typeElementMask))"
    and ok: "memoryScalar e" "len \<noteq> 0"
    by (auto simp: ArrayElement_def Let_def split: if_splits)
  show "memoryScalar e" "len \<noteq> 0" using ok by simp_all
  have "take_bit 20 len = len"
    unfolding n type_masks by (rule bit_word_eqI) (auto simp: bit_simps)
  then have "unat len = unat len mod 2 ^ 20"
    by (metis unsigned_take_bit_eq take_bit_eq_mod)
  then have "unat len < 2 ^ 20" by (metis mod_less_divisor zero_less_numeral zero_less_power)
  then show le: "len \<le> 0x000fffff" by (simp add: word_le_nat_alt)
  have "typeArrayFlag OR push_bit 8 len OR e = t"
  proof (rule bit_word_eqI)
    fix i assume i: "i < LENGTH(32)"
    have "bit (t AND typeKindMask) i = bit typeArrayFlag i" by (simp only: k)
    then show "bit (typeArrayFlag OR push_bit 8 len OR e) i = bit t i"
      using i unfolding e n type_masks by (auto simp: bit_simps)
  qed
  then show "ArrayOf e len = t" using ok le by (auto simp: ArrayOf_def not_less)
qed

text \<open>
  C16. The packed representation of types loses nothing: pointer and array types give their element
  and length back, an invalid element or length gives the invalid type, and a word that reads as an
  array type is the one \<open>ArrayOf\<close> builds.
\<close>

theorem Type_packing:
  "PointerElement (PointerTo e) = (if memoryScalar e then (e, True) else (TypeInvalid, False)) \<and>
   ArrayElement (ArrayOf e len) =
     (if memoryScalar e \<and> len \<noteq> 0 \<and> len \<le> 0x000fffff then (e, len, True)
      else (TypeInvalid, 0, False)) \<and>
   (ArrayElement t = (e, len, True) \<longleftrightarrow> t = ArrayOf e len \<and> t \<noteq> TypeInvalid)"
proof (intro conjI)
  show "PointerElement (PointerTo e) = (if memoryScalar e then (e, True) else (TypeInvalid, False))"
    by (cases "memoryScalar e")
      (simp_all add: PointerElement_PointerTo, simp add: PointerTo_def PointerElement_def)
  show a: "ArrayElement (ArrayOf e len) =
     (if memoryScalar e \<and> len \<noteq> 0 \<and> len \<le> 0x000fffff then (e, len, True)
      else (TypeInvalid, 0, False))"
    by (cases "memoryScalar e \<and> len \<noteq> 0 \<and> len \<le> 0x000fffff")
      (simp add: ArrayElement_ArrayOf, auto simp: ArrayOf_def ArrayElement_def not_less)
  have "ArrayElement TypeInvalid = (TypeInvalid, 0, False)" by (simp add: ArrayElement_def)
  then show "ArrayElement t = (e, len, True) \<longleftrightarrow> t = ArrayOf e len \<and> t \<noteq> TypeInvalid"
    using a ArrayElement_True(4) [of t e len] by (auto simp: ArrayOf_def split: if_splits)
qed

end
