(* ===== verification/CompilerIr.thy ===== *)
theory CompilerIr
  imports CompilerTypes SbpfSyscall
begin

text \<open>
  The intermediate representation of \<open>src/compiler/ir.go\<close> and the registry of Solana syscalls of
  \<open>src/compiler/syscalls.go\<close>.

  Identifiers are 32-bit words (\<open>NoValue\<close> is all ones), tables are lists.  Enumerations are
  datatypes: a Go byte outside the enumeration behaves as the \<open>Invalid\<close> constructor in every switch
  of the package.  A nil \<open>*Program\<close>, \<open>*Function\<close> or \<open>*BasicBlock\<close> has no counterpart: \<open>Validate\<close>
  refuses each before anything else looks at it.
\<close>

section \<open>Identifiers and values\<close>

type_synonym value_id = u32
type_synonym block_id = u32
type_synonym object_id = u32

abbreviation (input) NoValue :: value_id where "NoValue \<equiv> 0xffffffff"
abbreviation (input) NoBlock :: block_id where "NoBlock \<equiv> 0xffffffff"
abbreviation (input) NoMemoryObject :: object_id where "NoMemoryObject \<equiv> 0xffffffff"

record SourcePosition =
  Filename :: string
  Line :: int
  Column :: int

datatype value_kind = ValueInvalid | ValueParameter | ValueLocal | ValueTemporary

record ir_value =
  value_ID :: value_id
  value_Name :: string
  value_Type :: ir_type
  value_Kind :: value_kind

section \<open>Operations\<close>

datatype ir_op =
    OpInvalid | OpConst | OpMove | OpAdd | OpSub | OpMul | OpDiv | OpMod
  | OpEqual | OpNotEqual | OpLess | OpLessEqual | OpGreater | OpGreaterEqual
  | OpCall | OpSyscall | OpAddress | OpPointerAddress | OpLoad | OpStore | OpPointerAdd
  | OpBoundsCheck | OpZeroMemory | OpCopyMemory

fun Op_String :: "ir_op \<Rightarrow> string" where
  "Op_String OpConst = ''const''"
| "Op_String OpMove = ''mov''"
| "Op_String OpAdd = ''add''"
| "Op_String OpSub = ''sub''"
| "Op_String OpMul = ''mul''"
| "Op_String OpDiv = ''div''"
| "Op_String OpMod = ''mod''"
| "Op_String OpEqual = ''eq''"
| "Op_String OpNotEqual = ''ne''"
| "Op_String OpLess = ''lt''"
| "Op_String OpLessEqual = ''le''"
| "Op_String OpGreater = ''gt''"
| "Op_String OpGreaterEqual = ''ge''"
| "Op_String OpCall = ''call''"
| "Op_String OpSyscall = ''syscall''"
| "Op_String OpAddress = ''address''"
| "Op_String OpPointerAddress = ''ptraddress''"
| "Op_String OpLoad = ''load''"
| "Op_String OpStore = ''store''"
| "Op_String OpPointerAdd = ''ptradd''"
| "Op_String OpBoundsCheck = ''bounds''"
| "Op_String OpZeroMemory = ''zero''"
| "Op_String OpCopyMemory = ''copy''"
| "Op_String OpInvalid = ''invalid''"

datatype ir_memory =
    IrMemInvalid | IrMemBool | IrMemUint32 | IrMemInt32 | IrMemUint64 | IrMemInt64
  | IrMemUint8 | IrMemUint16 | IrMemByte

definition memoryTypeFor :: "ir_type \<Rightarrow> ir_memory" where
  "memoryTypeFor t =
     (if t = TypeBool then IrMemBool else if t = TypeUint32 then IrMemUint32
      else if t = TypeInt32 then IrMemInt32 else if t = TypeUint64 then IrMemUint64
      else if t = TypeInt64 then IrMemInt64 else if t = TypeUint8 then IrMemByte
      else IrMemInvalid)"

fun ValueType :: "ir_memory \<Rightarrow> ir_type" where
  "ValueType IrMemBool = TypeBool"
| "ValueType IrMemUint32 = TypeUint32"
| "ValueType IrMemInt32 = TypeInt32"
| "ValueType IrMemUint64 = TypeUint64"
| "ValueType IrMemInt64 = TypeInt64"
| "ValueType IrMemByte = TypeUint8"
| "ValueType IrMemUint8 = TypeUint32"
| "ValueType IrMemUint16 = TypeUint32"
| "ValueType IrMemInvalid = TypeInvalid"

definition IrMemory_Bytes :: "ir_memory \<Rightarrow> u32" where
  "IrMemory_Bytes memory =
     (if memory = IrMemUint8 \<or> memory = IrMemBool \<or> memory = IrMemByte then 1
      else if memory = IrMemUint16 then 2 else memoryBytes (ValueType memory))"

record ir_instruction =
  ins_Op :: ir_op
  ins_Dest :: value_id
  ins_X :: value_id
  ins_Y :: value_id
  ins_Imm :: u64
  ins_Callee :: string
  ins_Args :: "value_id list"
  ins_SyscallID :: u32
  ins_Object :: object_id
  ins_SourceObject :: object_id
  ins_Memory :: ir_memory
  ins_Scale :: u32
  ins_Pos :: SourcePosition

section \<open>Functions and programs\<close>

record memory_object =
  object_ID :: object_id
  object_Name :: string
  object_Element :: ir_type
  object_Length :: u32

text \<open>The product is a Go \<open>uint32\<close> and wraps.\<close>

definition object_Size :: "memory_object \<Rightarrow> u32" where
  "object_Size object = memoryBytes (object_Element object) * object_Length object"

datatype terminator_kind = TermInvalid | TermJump | TermBranch | TermReturn

record terminator =
  term_Kind :: terminator_kind
  term_Target :: block_id
  term_True :: block_id
  term_False :: block_id
  term_Cond :: value_id
  term_Result :: value_id
  term_Pos :: SourcePosition

record basic_block =
  block_ID :: block_id
  block_Name :: string
  block_Instructions :: "ir_instruction list"
  block_Terminator :: terminator

record ir_function =
  fn_Name :: string
  fn_Params :: "value_id list"
  fn_Result :: ir_type
  fn_Values :: "ir_value list"
  fn_Memory :: "memory_object list"
  fn_Blocks :: "basic_block list"
  fn_Entry :: block_id

record ir_program =
  prog_Package :: string
  prog_Functions :: "ir_function list"

text \<open>
  Table lookups.  The Go methods return the element and whether it is the one asked for; callers
  that ignore the second component get the zero value for an index outside the table.
\<close>

definition zero_value :: ir_value where
  "zero_value = \<lparr>value_ID = 0, value_Name = '''', value_Type = TypeInvalid, value_Kind = ValueInvalid\<rparr>"

definition Function_Value :: "ir_function \<Rightarrow> value_id \<Rightarrow> ir_value \<times> bool" where
  "Function_Value f i =
     (if unat i \<ge> length (fn_Values f) then (zero_value, False)
      else let v = fn_Values f ! unat i in (v, value_ID v = i))"

definition Function_Block :: "ir_function \<Rightarrow> block_id \<Rightarrow> basic_block option" where
  "Function_Block f i =
     (if unat i \<ge> length (fn_Blocks f) then None
      else let b = fn_Blocks f ! unat i in if block_ID b = i then Some b else None)"

definition Function_MemoryObject :: "ir_function \<Rightarrow> object_id \<Rightarrow> memory_object option" where
  "Function_MemoryObject f i =
     (if unat i \<ge> length (fn_Memory f) then None
      else let m = fn_Memory f ! unat i in if object_ID m = i then Some m else None)"

fun find_function :: "ir_function list \<Rightarrow> string \<Rightarrow> ir_function option" where
  "find_function [] name = None"
| "find_function (f # fs) name = (if fn_Name f = name then Some f else find_function fs name)"

definition Program_Function :: "ir_program \<Rightarrow> string \<Rightarrow> ir_function option" where
  "Program_Function p name = find_function (prog_Functions p) name"

section \<open>The syscall registry\<close>

record syscall_intrinsic =
  sys_Symbol :: string
  sys_ID :: u32
  sys_Parameters :: "ir_type list"
  sys_ParamCount :: nat
  sys_Result :: ir_type

text \<open>\<open>None\<close> is the panic on more than five parameters.  The parameter array has five entries.\<close>

definition newSyscallIntrinsic :: "string \<Rightarrow> ir_type \<Rightarrow> ir_type list \<Rightarrow> syscall_intrinsic option" where
  "newSyscallIntrinsic symbol result parameters =
     (if length parameters > 5 then None
      else Some \<lparr>sys_Symbol = symbol, sys_ID = HashSymbolName symbol,
             sys_Parameters = parameters @ replicate (5 - length parameters) TypeInvalid,
             sys_ParamCount = length parameters, sys_Result = result\<rparr>)"

definition syscall_table :: "(string \<times> syscall_intrinsic option) list" where
  "syscall_table =
    [(''InvokeSignedC'', newSyscallIntrinsic ''sol_invoke_signed_c'' TypeUint64
       [TypeUint64, TypeUint64, TypeUint64, TypeUint64, TypeUint64]),
     (''Log'', newSyscallIntrinsic ''sol_log_'' TypeVoid [TypeUint64, TypeUint64]),
     (''Memcpy'', newSyscallIntrinsic ''sol_memcpy_'' TypeVoid [TypeUint64, TypeUint64, TypeUint64]),
     (''Memmove'', newSyscallIntrinsic ''sol_memmove_'' TypeVoid [TypeUint64, TypeUint64, TypeUint64]),
     (''Memset'', newSyscallIntrinsic ''sol_memset_'' TypeVoid [TypeUint64, TypeUint8, TypeUint64]),
     (''Memcmp'', newSyscallIntrinsic ''sol_memcmp_'' TypeVoid
       [TypeUint64, TypeUint64, TypeUint64, TypeUint64]),
     (''CreateProgramAddress'', newSyscallIntrinsic ''sol_create_program_address'' TypeUint64
       [TypeUint64, TypeUint64, TypeUint64, TypeUint64]),
     (''TryFindProgramAddress'', newSyscallIntrinsic ''sol_try_find_program_address'' TypeUint64
       [TypeUint64, TypeUint64, TypeUint64, TypeUint64, TypeUint64])]"

definition syscallIntrinsics :: "(string \<times> syscall_intrinsic) list" where
  "syscallIntrinsics = List.map_filter (\<lambda>(name, i). map_option (Pair name) i) syscall_table"

fun lookup_symbol :: "(string \<times> syscall_intrinsic) list \<Rightarrow> string \<Rightarrow> syscall_intrinsic option" where
  "lookup_symbol [] symbol = None"
| "lookup_symbol ((name, i) # rest) symbol =
     (if sys_Symbol i = symbol then Some i else lookup_symbol rest symbol)"

definition lookupSyscallBySymbol :: "string \<Rightarrow> syscall_intrinsic option" where
  "lookupSyscallBySymbol symbol = lookup_symbol syscallIntrinsics symbol"

datatype registry_error = RegistryInvalid string | RegistrySymbol string | RegistryCollision u32

fun check_intrinsics ::
  "string list \<Rightarrow> u32 list \<Rightarrow> (string \<times> syscall_intrinsic) list \<Rightarrow> registry_error option" where
  "check_intrinsics bySymbol byID [] = None"
| "check_intrinsics bySymbol byID ((name, i) # rest) =
     (if sys_Symbol i = '''' \<or> sys_ID i \<noteq> HashSymbolName (sys_Symbol i) then Some (RegistryInvalid name)
      else if sys_Symbol i \<in> set bySymbol then Some (RegistrySymbol (sys_Symbol i))
      else if sys_ID i \<in> set byID then Some (RegistryCollision (sys_ID i))
      else check_intrinsics (sys_Symbol i # bySymbol) (sys_ID i # byID) rest)"

definition validateSyscallIntrinsicSet ::
  "(string \<times> syscall_intrinsic) list \<Rightarrow> registry_error option" where
  "validateSyscallIntrinsicSet intrinsics = check_intrinsics [] [] intrinsics"

definition validateSyscallIntrinsics :: "registry_error option" where
  "validateSyscallIntrinsics = validateSyscallIntrinsicSet syscallIntrinsics"

definition parameterTypes :: "syscall_intrinsic \<Rightarrow> ir_type list" where
  "parameterTypes i = take (sys_ParamCount i) (sys_Parameters i)"

section \<open>Facts\<close>

lemma Function_Value_True:
  "snd (Function_Value f i) \<longleftrightarrow> unat i < length (fn_Values f) \<and> value_ID (fn_Values f ! unat i) = i"
  by (auto simp: Function_Value_def Let_def)

lemma find_function_Some:
  assumes "find_function fs name = Some f"
  shows "f \<in> set fs" and "fn_Name f = name"
  using assms by (induction fs) (auto split: if_splits)

lemma find_function_member:
  "distinct (map fn_Name fs) \<Longrightarrow> f \<in> set fs \<Longrightarrow> find_function fs (fn_Name f) = Some f"
  by (induction fs) auto

text \<open>The registry of a set of intrinsics without repeated symbols does not depend on map order.\<close>

lemma lookup_symbol_Some:
  "lookup_symbol t symbol = Some i \<Longrightarrow> i \<in> snd ` set t \<and> sys_Symbol i = symbol"
  by (induction t) (auto split: if_splits)

lemma lookup_symbol_complete:
  "distinct (map (sys_Symbol \<circ> snd) t) \<Longrightarrow> i \<in> snd ` set t \<Longrightarrow>
     lookup_symbol t (sys_Symbol i) = Some i"
  by (induction t) (force split: if_splits)+

lemma check_intrinsics_None:
  "check_intrinsics ss ns t = None \<longleftrightarrow>
     (\<forall>(name, i) \<in> set t. sys_Symbol i \<noteq> '''' \<and> sys_ID i = HashSymbolName (sys_Symbol i)) \<and>
     distinct (map (sys_Symbol \<circ> snd) t) \<and> distinct (map (sys_ID \<circ> snd) t) \<and>
     set ss \<inter> (sys_Symbol \<circ> snd) ` set t = {} \<and> set ns \<inter> (sys_ID \<circ> snd) ` set t = {}"
  by (induction ss ns t rule: check_intrinsics.induct) (auto simp: image_iff)

lemma syscallIntrinsics_eq:
  "syscallIntrinsics = map (\<lambda>(name, symbol, key, result, ps).
     (name, \<lparr>sys_Symbol = symbol, sys_ID = key,
        sys_Parameters = ps @ replicate (5 - length ps) TypeInvalid,
        sys_ParamCount = length ps, sys_Result = result\<rparr>))
    [(''InvokeSignedC'', ''sol_invoke_signed_c'', 2720767109, TypeUint64,
        [TypeUint64, TypeUint64, TypeUint64, TypeUint64, TypeUint64]),
     (''Log'', ''sol_log_'', 544561597, TypeVoid, [TypeUint64, TypeUint64]),
     (''Memcpy'', ''sol_memcpy_'', 1904002211, TypeVoid, [TypeUint64, TypeUint64, TypeUint64]),
     (''Memmove'', ''sol_memmove_'', 1128493560, TypeVoid, [TypeUint64, TypeUint64, TypeUint64]),
     (''Memset'', ''sol_memset_'', 930151202, TypeVoid, [TypeUint64, TypeUint8, TypeUint64]),
     (''Memcmp'', ''sol_memcmp_'', 1608310321, TypeVoid,
        [TypeUint64, TypeUint64, TypeUint64, TypeUint64]),
     (''CreateProgramAddress'', ''sol_create_program_address'', 2474062396, TypeUint64,
        [TypeUint64, TypeUint64, TypeUint64, TypeUint64]),
     (''TryFindProgramAddress'', ''sol_try_find_program_address'', 1213221432, TypeUint64,
        [TypeUint64, TypeUint64, TypeUint64, TypeUint64, TypeUint64])]"
  unfolding syscallIntrinsics_def syscall_table_def newSyscallIntrinsic_def known_hashes
  by (simp add: List.map_filter_def)

lemma registry_checks: "validateSyscallIntrinsics = None"
  unfolding validateSyscallIntrinsics_def validateSyscallIntrinsicSet_def check_intrinsics_None
    syscallIntrinsics_eq
  by (simp add: known_hashes)

text \<open>
  The syscall registry is built without a panic and passes the check the package runs at start; \<open>lookupSyscallBySymbol\<close>
  does not depend on the order the map is walked in.
\<close>

lemma syscall_registry_sound:
  assumes "distinct order" and "set order = set syscallIntrinsics"
  shows "validateSyscallIntrinsics = None \<and> length syscallIntrinsics = length syscall_table \<and>
    lookup_symbol order symbol = lookupSyscallBySymbol symbol \<and>
    (lookupSyscallBySymbol symbol = Some i \<longleftrightarrow>
       i \<in> snd ` set syscallIntrinsics \<and> sys_Symbol i = symbol)"
proof -
  note v = registry_checks
  have len: "length syscallIntrinsics = length syscall_table"
    by (simp add: syscallIntrinsics_eq syscall_table_def)
  have dist: "distinct (map (sys_Symbol \<circ> snd) syscallIntrinsics)"
    using v by (simp add: validateSyscallIntrinsics_def validateSyscallIntrinsicSet_def
        check_intrinsics_None)
  have inj: "inj_on (sys_Symbol \<circ> snd) (set syscallIntrinsics)"
    using dist by (simp add: distinct_map)
  then have dist': "distinct (map (sys_Symbol \<circ> snd) order)"
    using assms by (simp add: distinct_map)
  have iff: "lookup_symbol t symbol = Some i \<longleftrightarrow> i \<in> snd ` set t \<and> sys_Symbol i = symbol"
    if "distinct (map (sys_Symbol \<circ> snd) t)" for t i
    using lookup_symbol_Some [of t symbol i] lookup_symbol_complete [OF that, of i] by blast
  have "lookup_symbol order symbol = lookupSyscallBySymbol symbol"
    using iff [OF dist] iff [OF dist'] assms(2)
    by (cases "lookup_symbol order symbol"; cases "lookup_symbol syscallIntrinsics symbol")
      (auto simp: lookupSyscallBySymbol_def)
  with v len iff [OF dist] show ?thesis by (simp add: lookupSyscallBySymbol_def)
qed

lemma syscall_registry_sound_instance:
  "map_option sys_ID (lookupSyscallBySymbol ''sol_memcpy_'') = Some 1904002211 \<and>
   lookup_symbol (rev syscallIntrinsics) ''sol_memcpy_'' = lookupSyscallBySymbol ''sol_memcpy_''"
proof -
  have "distinct (rev syscallIntrinsics)" by (simp add: syscallIntrinsics_eq)
  from syscall_registry_sound [OF this, of "''sol_memcpy_''"]
  have "lookup_symbol (rev syscallIntrinsics) ''sol_memcpy_'' = lookupSyscallBySymbol ''sol_memcpy_''"
    by simp
  moreover have "map_option sys_ID (lookupSyscallBySymbol ''sol_memcpy_'') = Some 1904002211"
    by (simp add: lookupSyscallBySymbol_def syscallIntrinsics_eq)
  ultimately show ?thesis by simp
qed

end
