(* ===== verification/RtSyscall.thy ===== *)
theory RtSyscall
  imports CompilerIr
begin

text \<open>
  \<open>src/runtime/syscalls.go\<close>: the registry of Agave system calls, selected by feature gates, and its symbol hash.

  Errors carry no text.  A Go map is a function to \<open>option\<close>; the registry is only built by inserting into empty maps.
\<close>

section \<open>Features and declarations\<close>

type_synonym SBPFVersion = u8

abbreviation (input) SBPFV0 :: SBPFVersion where "SBPFV0 \<equiv> 0"
abbreviation (input) SBPFV3 :: SBPFVersion where "SBPFV3 \<equiv> 3"

type_synonym SyscallFeature = string

abbreviation (input) FeatureBlake3 :: SyscallFeature where "FeatureBlake3 \<equiv> ''blake3_syscall_enabled''"
abbreviation (input) FeatureSHA512 :: SyscallFeature where "FeatureSHA512 \<equiv> ''enable_sha512_syscall''"
abbreviation (input) FeatureCurve25519 :: SyscallFeature where "FeatureCurve25519 \<equiv> ''curve25519_syscall_enabled''"
abbreviation (input) FeatureBLS12381 :: SyscallFeature where "FeatureBLS12381 \<equiv> ''enable_bls12_381_syscall''"
abbreviation (input) FeatureDisableFeesSysvar :: SyscallFeature where "FeatureDisableFeesSysvar \<equiv> ''disable_fees_sysvar''"
abbreviation (input) FeatureLastRestartSlot :: SyscallFeature where "FeatureLastRestartSlot \<equiv> ''last_restart_slot_sysvar''"
abbreviation (input) FeaturePoseidon :: SyscallFeature where "FeaturePoseidon \<equiv> ''enable_poseidon_syscall''"
abbreviation (input) FeatureRemainingComputeUnits :: SyscallFeature where "FeatureRemainingComputeUnits \<equiv> ''remaining_compute_units_syscall_enabled''"
abbreviation (input) FeatureGetSysvar :: SyscallFeature where "FeatureGetSysvar \<equiv> ''get_sysvar_syscall_enabled''"
abbreviation (input) FeatureGetEpochStake :: SyscallFeature where "FeatureGetEpochStake \<equiv> ''enable_get_epoch_stake_syscall''"
abbreviation (input) FeatureAltBN128 :: SyscallFeature where "FeatureAltBN128 \<equiv> ''enable_alt_bn128_syscall''"
abbreviation (input) FeatureBigModExp :: SyscallFeature where "FeatureBigModExp \<equiv> ''enable_big_mod_exp_syscall''"
abbreviation (input) FeatureAltBN128Compression :: SyscallFeature where "FeatureAltBN128Compression \<equiv> ''enable_alt_bn128_compression_syscall''"
abbreviation (input) FeatureLegacyAllocFree :: SyscallFeature where "FeatureLegacyAllocFree \<equiv> ''legacy_alloc_free''"

record AgaveFeatureSet =
  FtBlake3 :: bool
  FtSHA512 :: bool
  FtCurve25519 :: bool
  FtBLS12381 :: bool
  FtDisableFeesSysvar :: bool
  FtLastRestartSlot :: bool
  FtPoseidon :: bool
  FtRemainingComputeUnits :: bool
  FtGetSysvar :: bool
  FtGetEpochStake :: bool
  FtAltBN128 :: bool
  FtBigModExp :: bool
  FtAltBN128Compression :: bool
  FtLegacyAllocFree :: bool
  DisableSBPFV0Execution :: bool
  ReenableSBPFV0Execution :: bool

definition enabled :: "AgaveFeatureSet \<Rightarrow> SyscallFeature \<Rightarrow> bool" where
  "enabled f feature =
     (if feature = '''' then True
      else if feature = FeatureBlake3 then FtBlake3 f
      else if feature = FeatureSHA512 then FtSHA512 f
      else if feature = FeatureCurve25519 then FtCurve25519 f
      else if feature = FeatureBLS12381 then FtBLS12381 f
      else if feature = FeatureDisableFeesSysvar then FtDisableFeesSysvar f
      else if feature = FeatureLastRestartSlot then FtLastRestartSlot f
      else if feature = FeaturePoseidon then FtPoseidon f
      else if feature = FeatureRemainingComputeUnits then FtRemainingComputeUnits f
      else if feature = FeatureGetSysvar then FtGetSysvar f
      else if feature = FeatureGetEpochStake then FtGetEpochStake f
      else if feature = FeatureAltBN128 then FtAltBN128 f
      else if feature = FeatureBigModExp then FtBigModExp f
      else if feature = FeatureAltBN128Compression then FtAltBN128Compression f
      else if feature = FeatureLegacyAllocFree then FtLegacyAllocFree f
      else False)"

datatype syscallDeclaration =
  Declare (declName: string) (declFeature: SyscallFeature) (declDisabledBy: SyscallFeature)

definition agaveSyscalls :: "syscallDeclaration list" where
  "agaveSyscalls =
    [Declare ''abort'' [] [],
     Declare ''sol_panic_'' [] [],
     Declare ''sol_log_'' [] [],
     Declare ''sol_log_64_'' [] [],
     Declare ''sol_log_pubkey'' [] [],
     Declare ''sol_log_compute_units_'' [] [],
     Declare ''sol_create_program_address'' [] [],
     Declare ''sol_try_find_program_address'' [] [],
     Declare ''sol_sha256'' [] [],
     Declare ''sol_keccak256'' [] [],
     Declare ''sol_secp256k1_recover'' [] [],
     Declare ''sol_blake3'' FeatureBlake3 [],
     Declare ''sol_sha512'' FeatureSHA512 [],
     Declare ''sol_curve_validate_point'' FeatureCurve25519 [],
     Declare ''sol_curve_group_op'' FeatureCurve25519 [],
     Declare ''sol_curve_multiscalar_mul'' FeatureCurve25519 [],
     Declare ''sol_curve_decompress'' FeatureBLS12381 [],
     Declare ''sol_curve_pairing_map'' FeatureBLS12381 [],
     Declare ''sol_get_clock_sysvar'' [] [],
     Declare ''sol_get_epoch_schedule_sysvar'' [] [],
     Declare ''sol_get_fees_sysvar'' [] FeatureDisableFeesSysvar,
     Declare ''sol_get_rent_sysvar'' [] [],
     Declare ''sol_get_last_restart_slot'' FeatureLastRestartSlot [],
     Declare ''sol_get_epoch_rewards_sysvar'' [] [],
     Declare ''sol_memcpy_'' [] [],
     Declare ''sol_memmove_'' [] [],
     Declare ''sol_memset_'' [] [],
     Declare ''sol_memcmp_'' [] [],
     Declare ''sol_get_processed_sibling_instruction'' [] [],
     Declare ''sol_get_stack_height'' [] [],
     Declare ''sol_set_return_data'' [] [],
     Declare ''sol_get_return_data'' [] [],
     Declare ''sol_invoke_signed_c'' [] [],
     Declare ''sol_invoke_signed_rust'' [] [],
     Declare ''sol_alloc_free_'' FeatureLegacyAllocFree [],
     Declare ''sol_alt_bn128_group_op'' FeatureAltBN128 [],
     Declare ''sol_big_mod_exp'' FeatureBigModExp [],
     Declare ''sol_poseidon'' FeaturePoseidon [],
     Declare ''sol_remaining_compute_units'' FeatureRemainingComputeUnits [],
     Declare ''sol_alt_bn128_compression'' FeatureAltBN128Compression [],
     Declare ''sol_get_sysvar'' FeatureGetSysvar [],
     Declare ''sol_get_epoch_stake'' FeatureGetEpochStake [],
     Declare ''sol_log_data'' [] []]"

section \<open>Symbol hash\<close>

text \<open>The hash of a name as this package computes it, block by block and then byte by byte at its end.\<close>

definition hash_mix :: "u32 \<Rightarrow> u32" where
  "hash_mix value =
     (let value = value * 0xcc9e2d51;
          value = push_bit 15 value OR drop_bit 17 value
      in value * 0x1b873593)"

definition hash_step :: "u32 \<Rightarrow> u32 \<Rightarrow> u32" where
  "hash_step hash value =
     (let hash = hash XOR hash_mix value;
          hash = push_bit 13 hash OR drop_bit 19 hash
      in hash * 5 + 0xe6546b64)"

primrec hash_loop :: "bytes \<Rightarrow> nat \<Rightarrow> u32" where
  "hash_loop data 0 = 0"
| "hash_loop data (Suc block) = hash_step (hash_loop data block) (le_word (get_slice (block * 4) 4 data))"

definition tail_bytes :: "bytes \<Rightarrow> nat \<Rightarrow> nat \<Rightarrow> u32" where
  "tail_bytes data blocks n =
     (let tail = 0;
          tail = (if n = 3 then tail XOR push_bit 16 (ucast (data ! (blocks * 4 + 2))) else tail);
          tail = (if n \<ge> 2 then tail XOR push_bit 8 (ucast (data ! (blocks * 4 + 1))) else tail)
      in tail XOR ucast (data ! (blocks * 4)))"

definition HashSyscallName :: "string \<Rightarrow> u32" where
  "HashSyscallName name =
     (let data = string_bytes name;
          blocks = length data div 4;
          hash = hash_loop data blocks;
          n = length data mod 4;
          hash = (if n \<ge> 1 then hash XOR hash_mix (tail_bytes data blocks n) else hash);
          hash = hash XOR of_nat (length data);
          hash = hash XOR drop_bit 16 hash;
          hash = hash * 0x85ebca6b;
          hash = hash XOR drop_bit 13 hash;
          hash = hash * 0xc2b2ae35
      in hash XOR drop_bit 16 hash)"

section \<open>Registry\<close>

datatype syscall_error = ErrUnknownSyscall | ErrSyscallCollision

record SyscallDescriptor =
  Name :: string
  ID :: u32
  Feature :: SyscallFeature
  DisabledBy :: SyscallFeature
  MinVersion :: SBPFVersion
  MaxVersion :: SBPFVersion

record SyscallRegistry =
  features :: AgaveFeatureSet
  byName :: "string \<Rightarrow> SyscallDescriptor option"
  byID :: "u32 \<Rightarrow> SyscallDescriptor option"

definition declared :: "AgaveFeatureSet \<Rightarrow> syscallDeclaration \<Rightarrow> bool" where
  "declared f d \<longleftrightarrow>
     \<not> (\<not> enabled f (declFeature d) \<or> (declDisabledBy d \<noteq> '''' \<and> enabled f (declDisabledBy d)))"

definition descriptor :: "SBPFVersion \<Rightarrow> syscallDeclaration \<Rightarrow> SyscallDescriptor" where
  "descriptor minVersion d =
     \<lparr>Name = declName d, ID = HashSyscallName (declName d), Feature = declFeature d, DisabledBy = declDisabledBy d,
      MinVersion = minVersion, MaxVersion = SBPFV3\<rparr>"

fun register_all :: "SBPFVersion \<Rightarrow> SyscallRegistry \<Rightarrow> syscallDeclaration list \<Rightarrow> syscall_error + SyscallRegistry" where
  "register_all minVersion r [] = Inr r"
| "register_all minVersion r (d # rest) =
     (if \<not> declared (features r) d then register_all minVersion r rest
      else
        let x = descriptor minVersion d in
        if byID r (ID x) \<noteq> None then Inl ErrSyscallCollision
        else register_all minVersion (r\<lparr>byName := (byName r)(Name x \<mapsto> x), byID := (byID r)(ID x \<mapsto> x)\<rparr>) rest)"

definition min_version :: "AgaveFeatureSet \<Rightarrow> SBPFVersion" where
  "min_version f = (if DisableSBPFV0Execution f \<and> \<not> ReenableSBPFV0Execution f then SBPFV3 else SBPFV0)"

definition NewAgaveSyscallRegistry :: "AgaveFeatureSet \<Rightarrow> syscall_error + SyscallRegistry" where
  "NewAgaveSyscallRegistry f =
     register_all (min_version f) \<lparr>features = f, byName = (\<lambda>_. None), byID = (\<lambda>_. None)\<rparr> agaveSyscalls"

definition version_ok :: "SBPFVersion \<Rightarrow> SyscallDescriptor \<Rightarrow> bool" where
  "version_ok version d \<longleftrightarrow> \<not> (version < MinVersion d \<or> version > MaxVersion d)"

text \<open>The receiver is a pointer; \<open>None\<close> is nil.\<close>

definition LookupName :: "SyscallRegistry option \<Rightarrow> string \<Rightarrow> SBPFVersion \<Rightarrow> syscall_error + SyscallDescriptor" where
  "LookupName r name version =
     (case r of None \<Rightarrow> Inl ErrUnknownSyscall
      | Some r \<Rightarrow>
        (case byName r name of
           Some d \<Rightarrow> if version_ok version d then Inr d else Inl ErrUnknownSyscall
         | None \<Rightarrow> Inl ErrUnknownSyscall))"

definition LookupID :: "SyscallRegistry option \<Rightarrow> u32 \<Rightarrow> SBPFVersion \<Rightarrow> syscall_error + SyscallDescriptor" where
  "LookupID r i version =
     (case r of None \<Rightarrow> Inl ErrUnknownSyscall
      | Some r \<Rightarrow>
        (case byID r i of
           Some d \<Rightarrow> if version_ok version d then Inr d else Inl ErrUnknownSyscall
         | None \<Rightarrow> Inl ErrUnknownSyscall))"

definition Entries :: "SyscallRegistry option \<Rightarrow> SyscallDescriptor list" where
  "Entries r = (case r of None \<Rightarrow> [] | Some r \<Rightarrow> List.map_filter (\<lambda>d. byName r (declName d)) agaveSyscalls)"

section \<open>The two hashes\<close>

lemma hash_mix_value: "hash_mix v = hash_value v"
  by (simp add: hash_mix_def hash_value_def rotate32_def Let_def)

primrec hash_from :: "u32 \<Rightarrow> bytes \<Rightarrow> nat \<Rightarrow> u32" where
  "hash_from h data 0 = h"
| "hash_from h data (Suc n) = hash_step (hash_from h data n) (le_word (get_slice (n * 4) 4 data))"

lemma drop_block: "drop (Suc n * 4) (a # b # c # d # rest) = drop (n * 4) rest"
proof -
  have "Suc n * 4 = Suc (Suc (Suc (Suc (n * 4))))" by simp
  then show ?thesis by (simp only: drop_Suc_Cons)
qed

lemma hash_from_Cons:
  "hash_from h (a # b # c # d # rest) (Suc n) = hash_from (hash_step h (le_word [a, b, c, d])) rest n"
proof (induction n)
  case 0
  then show ?case by (simp add: get_slice_def)
next
  case (Suc n)
  have "get_slice (Suc n * 4) 4 (a # b # c # d # rest) = get_slice (n * 4) 4 rest" by (simp only: get_slice_def drop_block)
  then show ?case using Suc by simp
qed

lemma step_eq: "rotate32 13 (h XOR hash_value v) * 5 + 0xe6546b64 = hash_step h v"
  by (simp only: hash_step_def hash_mix_value rotate32_def Let_def) simp

lemma short_list_cases:
  assumes "length xs < 4"
  obtains "xs = []" | a where "xs = [a]" | a b where "xs = [a, b]" | a b c where "xs = [a, b, c]"
proof (cases xs)
  case (Cons a ys)
  then show thesis
  proof (cases ys)
    case Cons2: (Cons b zs)
    then show thesis using Cons assms that by (cases zs) (auto simp: numeral_eq_Suc)
  qed (use that in simp)
qed (use that in simp)

lemma hash_blocks_from:
  "hash_blocks h data = (hash_from h data (length data div 4), drop (length data div 4 * 4) data)"
proof (induction h data rule: hash_blocks.induct)
  case (1 h a b c d rest)
  have "length (a # b # c # d # rest) div 4 = Suc (length rest div 4)" by simp
  moreover have "hash_blocks h (a # b # c # d # rest) = hash_blocks (hash_step h (le_word [a, b, c, d])) rest"
    by (simp only: hash_blocks.simps step_eq)
  moreover have "drop (Suc (length rest div 4) * 4) (a # b # c # d # rest) = drop (length rest div 4 * 4) rest"
    by (rule drop_block)
  ultimately show ?case using 1 [unfolded step_eq] by (simp only: hash_from_Cons)
qed simp_all

lemma hash_loop_from: "hash_loop data n = hash_from 0 data n"
  by (induction n) simp_all

lemma hashes_equal: "HashSyscallName name = HashSymbolName name"
proof -
  let ?data = "string_bytes name"
  define blocks where "blocks = length ?data div 4"
  define tail where "tail = drop (blocks * 4) ?data"
  have n: "length ?data mod 4 = length tail" by (simp add: tail_def blocks_def minus_div_mult_eq_mod [symmetric])
  have small: "length tail < 4" unfolding n [symmetric] by simp
  have at: "?data ! (blocks * 4 + i) = tail ! i" if "i < length tail" for i
    using that by (simp add: tail_def)
  have tails: "(if length tail \<ge> 1 then h XOR hash_mix (tail_bytes ?data blocks (length tail)) else h) = hash_tail h tail" for h
  proof -
    consider "tail = []" | a where "tail = [a]" | a b where "tail = [a, b]" | a b c where "tail = [a, b, c]"
      using small by (rule short_list_cases)
    then show ?thesis
    proof cases
      case 2
      then show ?thesis using at [of 0] by (simp add: tail_bytes_def hash_mix_value)
    next
      case 3
      then show ?thesis using at [of 0] at [of 1] by (simp add: tail_bytes_def hash_mix_value)
    next
      case 4
      then show ?thesis using at [of 0] at [of 1] at [of 2]
        by (simp add: tail_bytes_def hash_mix_value)
    qed simp
  qed
  show ?thesis
    unfolding HashSyscallName_def HashSymbolName_def HashBytes_def hash_final_def hash_blocks_from Let_def
      blocks_def [symmetric] tail_def [symmetric] n tails hash_loop_from
    by simp
qed

text \<open>
  C28.  The two packages hash a symbol alike: the loops over indexes of the runtime compute the hash that the
  compiler puts into its calls, so a static call is linked to the system call it names.
\<close>

theorem HashSyscallName_equals_HashSymbolName: "HashSyscallName name = HashSymbolName name"
  by (rule hashes_equal)

section \<open>The registry\<close>

lemma hashes_1:
  "HashSymbolName ''abort'' = 3069975057"
  "HashSymbolName ''sol_secp256k1_recover'' = 400819024"
  "HashSymbolName ''sol_curve_pairing_map'' = 4044465278"
  "HashSymbolName ''sol_get_processed_sibling_instruction'' = 2914578376"
  "HashSymbolName ''sol_big_mod_exp'' = 2014202901"
  by code_simp+

lemma hashes_2:
  "HashSymbolName ''sol_panic_'' = 1751159739"
  "HashSymbolName ''sol_blake3'' = 390877474"
  "HashSymbolName ''sol_get_clock_sysvar'' = 3580583913"
  "HashSymbolName ''sol_get_stack_height'' = 2236820884"
  "HashSymbolName ''sol_poseidon'' = 3298065441"
  by code_simp+

lemma hashes_3:
  "HashSymbolName ''sol_log_64_'' = 1546269048"
  "HashSymbolName ''sol_sha512'' = 2452213196"
  "HashSymbolName ''sol_get_epoch_schedule_sysvar'' = 597858913"
  "HashSymbolName ''sol_set_return_data'' = 2720453611"
  "HashSymbolName ''sol_remaining_compute_units'' = 3991886574"
  by code_simp+

lemma hashes_4:
  "HashSymbolName ''sol_log_pubkey'' = 2129692874"
  "HashSymbolName ''sol_curve_validate_point'' = 2854619082"
  "HashSymbolName ''sol_get_fees_sysvar'' = 999798588"
  "HashSymbolName ''sol_get_return_data'' = 1562527204"
  "HashSymbolName ''sol_alt_bn128_compression'' = 860870125"
  by code_simp+

lemma hashes_5:
  "HashSymbolName ''sol_log_compute_units_'' = 1387942038"
  "HashSymbolName ''sol_curve_group_op'' = 3709616550"
  "HashSymbolName ''sol_get_rent_sysvar'' = 3211888886"
  "HashSymbolName ''sol_invoke_signed_rust'' = 3611594898"
  "HashSymbolName ''sol_get_sysvar'' = 331461893"
  by code_simp+

lemma hashes_6:
  "HashSymbolName ''sol_sha256'' = 301243782"
  "HashSymbolName ''sol_curve_multiscalar_mul'' = 1621362816"
  "HashSymbolName ''sol_get_last_restart_slot'' = 411697201"
  "HashSymbolName ''sol_alloc_free_'' = 2213547663"
  "HashSymbolName ''sol_get_epoch_stake'' = 1542008650"
  by code_simp+

lemma hashes_7:
  "HashSymbolName ''sol_keccak256'' = 3615046331"
  "HashSymbolName ''sol_curve_decompress'' = 135043248"
  "HashSymbolName ''sol_get_epoch_rewards_sysvar'' = 4256836411"
  "HashSymbolName ''sol_alt_bn128_group_op'' = 2920034699"
  "HashSymbolName ''sol_log_data'' = 1930933300"
  by code_simp+

lemmas declared_hashes = known_hashes hashes_1 hashes_2 hashes_3 hashes_4 hashes_5 hashes_6 hashes_7

lemma registry_hashes:
  "map (\<lambda>d. HashSymbolName (declName d)) agaveSyscalls =
    [3069975057, 1751159739, 544561597, 1546269048, 2129692874, 1387942038, 2474062396,
     1213221432, 301243782, 3615046331, 400819024, 390877474, 2452213196, 2854619082,
     3709616550, 1621362816, 135043248, 4044465278, 3580583913, 597858913, 999798588,
     3211888886, 411697201, 4256836411, 1904002211, 1128493560, 930151202, 1608310321,
     2914578376, 2236820884, 2720453611, 1562527204, 2720767109, 3611594898, 2213547663,
     2920034699, 2014202901, 3298065441, 3991886574, 860870125, 331461893, 1542008650,
     1930933300]"
  unfolding agaveSyscalls_def by (simp only: list.map syscallDeclaration.sel declared_hashes)

lemma registry_names: "distinct (map declName agaveSyscalls)"
  by code_simp

definition registered :: "AgaveFeatureSet \<Rightarrow> syscallDeclaration list \<Rightarrow> SyscallDescriptor list" where
  "registered f ds = map (descriptor (min_version f)) (filter (declared f) ds)"

lemma register_all_ok:
  assumes "distinct (map ID (registered (features r) ds))" and "ID ` set (registered (features r) ds) \<inter> dom (byID r) = {}"
  shows "register_all (min_version (features r)) r ds = Inr (r\<lparr>
      byName := byName r ++ map_of (rev (map (\<lambda>d. (Name d, d)) (registered (features r) ds))),
      byID := byID r ++ map_of (rev (map (\<lambda>d. (ID d, d)) (registered (features r) ds)))\<rparr>)"
  using assms
proof (induction ds arbitrary: r)
  case (Cons d ds)
  show ?case
  proof (cases "declared (features r) d")
    case True
    let ?x = "descriptor (min_version (features r)) d"
    let ?r = "r\<lparr>byName := (byName r)(Name ?x \<mapsto> ?x), byID := (byID r)(ID ?x \<mapsto> ?x)\<rparr>"
    have "byID r (ID ?x) = None" using Cons.prems(2) True by (auto simp: registered_def)
    moreover have "register_all (min_version (features ?r)) ?r ds = Inr (?r\<lparr>
        byName := byName ?r ++ map_of (rev (map (\<lambda>d. (Name d, d)) (registered (features ?r) ds))),
        byID := byID ?r ++ map_of (rev (map (\<lambda>d. (ID d, d)) (registered (features ?r) ds)))\<rparr>)"
    proof (rule Cons.IH)
      show "distinct (map ID (registered (features ?r) ds))" using Cons.prems(1) True by (simp add: registered_def)
      have "ID ?x \<notin> ID ` set (registered (features r) ds)" and "ID ` set (registered (features r) ds) \<inter> dom (byID r) = {}"
        using Cons.prems True by (auto simp: registered_def)
      then show "ID ` set (registered (features ?r) ds) \<inter> dom (byID ?r) = {}" by simp
    qed
    ultimately show ?thesis using True by (simp add: registered_def Let_def)
  qed (use Cons in \<open>simp add: registered_def\<close>)
qed (simp add: registered_def)

lemma registered_distinct:
  "distinct (map ID (registered f agaveSyscalls))" "distinct (map Name (registered f agaveSyscalls))"
proof -
  have "distinct (map (\<lambda>d. HashSymbolName (declName d)) agaveSyscalls)"
    unfolding registry_hashes by simp
  then show "distinct (map ID (registered f agaveSyscalls))"
    by (simp add: registered_def descriptor_def hashes_equal comp_def distinct_map_filter)
  show "distinct (map Name (registered f agaveSyscalls))"
    using registry_names by (simp add: registered_def descriptor_def comp_def distinct_map_filter)
qed

lemma map_of_keyed:
  assumes "distinct (map key xs)"
  shows "map_of (rev (map (\<lambda>d. (key d, d)) xs)) k = Some d \<longleftrightarrow> d \<in> set xs \<and> key d = k"
proof -
  have "distinct (map fst (rev (map (\<lambda>d. (key d, d)) xs)))"
    using assms by (simp add: comp_def rev_map [symmetric])
  then have "map_of (rev (map (\<lambda>d. (key d, d)) xs)) k = Some d \<longleftrightarrow> (k, d) \<in> set (rev (map (\<lambda>d. (key d, d)) xs))"
    by (rule map_of_eq_Some_iff)
  then show ?thesis by auto
qed

lemma registry_built:
  obtains r where "NewAgaveSyscallRegistry f = Inr r"
    and "\<And>name d. byName r name = Some d \<longleftrightarrow> d \<in> set (registered f agaveSyscalls) \<and> Name d = name"
    and "\<And>i d. byID r i = Some d \<longleftrightarrow> d \<in> set (registered f agaveSyscalls) \<and> ID d = i"
proof -
  let ?e = "\<lparr>features = f, byName = (\<lambda>_. None), byID = (\<lambda>_. None)\<rparr>"
  let ?r = "?e\<lparr>byName := map_of (rev (map (\<lambda>d. (Name d, d)) (registered f agaveSyscalls))),
    byID := map_of (rev (map (\<lambda>d. (ID d, d)) (registered f agaveSyscalls)))\<rparr>"
  have "NewAgaveSyscallRegistry f = Inr ?r"
    using register_all_ok [of ?e agaveSyscalls] registered_distinct(1) by (simp add: NewAgaveSyscallRegistry_def)
  then show thesis by (rule that) (simp_all add: map_of_keyed registered_distinct)
qed

lemma lookups:
  "LookupName (Some r) name version = Inr d \<longleftrightarrow> byName r name = Some d \<and> version_ok version d"
  "LookupID (Some r) i version = Inr d \<longleftrightarrow> byID r i = Some d \<and> version_ok version d"
  by (auto simp: LookupName_def LookupID_def split: option.splits if_splits)

text \<open>
  C29.  No choice of feature gates makes the registry fail: the hashes of the 43 declared system calls are
  distinct.  Its two lookups agree: by name and by number they find exactly the declarations the features
  enable, each under the name it was declared with, its hash and the sBPF versions it is valid for.
\<close>

theorem registry_lookup:
  "\<exists>r. NewAgaveSyscallRegistry f = Inr r \<and>
     {(name, i). \<exists>d. LookupName (Some r) name version = Inr d \<and> ID d = i} =
     {(name, i). \<exists>d. LookupID (Some r) i version = Inr d \<and> Name d = name} \<and>
     {d. LookupName (Some r) name version = Inr d} =
     {d \<in> descriptor (min_version f) ` {x \<in> set agaveSyscalls. declared f x}. Name d = name \<and> version_ok version d}"
proof -
  obtain r where r: "NewAgaveSyscallRegistry f = Inr r"
      "\<And>name d. byName r name = Some d \<longleftrightarrow> d \<in> set (registered f agaveSyscalls) \<and> Name d = name"
      "\<And>i d. byID r i = Some d \<longleftrightarrow> d \<in> set (registered f agaveSyscalls) \<and> ID d = i"
    by (rule registry_built [of f]) blast
  then show ?thesis by (auto simp: lookups registered_def)
qed

lemma compiled_calls_declared:
  "list_all (\<lambda>(name, i). Declare (sys_Symbol i) [] [] \<in> set agaveSyscalls \<and> sys_ID i = HashSymbolName (sys_Symbol i))
     syscallIntrinsics"
  unfolding syscallIntrinsics_eq by (simp add: known_hashes agaveSyscalls_def)

text \<open>
  C30.  Every system call the compiler can emit is linked by sBPF v3 whatever features the cluster has: the
  number the compiler puts into the instruction is found, and it names the symbol the compiler meant.
\<close>

theorem compiled_calls_link:
  "list_all (\<lambda>(name, i). case NewAgaveSyscallRegistry f of
       Inr r \<Rightarrow> map_sum id Name (LookupID (Some r) (sys_ID i) SBPFV3) = Inr (sys_Symbol i)
     | Inl _ \<Rightarrow> False) syscallIntrinsics"
proof -
  obtain r where r: "NewAgaveSyscallRegistry f = Inr r"
      "\<And>i d. byID r i = Some d \<longleftrightarrow> d \<in> set (registered f agaveSyscalls) \<and> ID d = i"
    by (rule registry_built [of f]) blast
  have "LookupID (Some r) (HashSymbolName s) SBPFV3 = Inr (descriptor (min_version f) (Declare s [] []))"
    if "Declare s [] [] \<in> set agaveSyscalls" for s
  proof -
    let ?d = "descriptor (min_version f) (Declare s [] [])"
    have "declared f (Declare s [] [])" by (simp add: declared_def enabled_def)
    then have "?d \<in> set (registered f agaveSyscalls)"
      unfolding registered_def set_map set_filter by (intro imageI CollectI conjI that)
    moreover have "ID ?d = HashSymbolName s" by (simp add: descriptor_def hashes_equal)
    moreover have "version_ok SBPFV3 ?d" by (simp add: version_ok_def descriptor_def min_version_def)
    ultimately show ?thesis unfolding lookups(2) r(2) by simp
  qed
  moreover have "Name (descriptor v (Declare s a b)) = s" for v s a b by (simp add: descriptor_def)
  ultimately show ?thesis
    using compiled_calls_declared unfolding list_all_iff r(1) by (simp split: prod.splits)
qed

end
