(* ===== verification/SdkSystem.thy ===== *)
theory SdkSystem
  imports SdkAddress Slices
begin

text \<open>
  \<open>src/sdk/system\<close>: the instructions of the System Program, their data layout in both directions,
  and the state of a nonce account.

  A buffer is allocated with its full length and written field by field, as in the code.  The empty
  key stands for the zero value \<open>sdk.Pubkey{}\<close> only where a field is not decoded.
\<close>

datatype system_error = ErrInvalidInstruction | ErrInvalidNonceState | ErrSdk sdk_error

text \<open>\<open>MustParsePubkey\<close> panics on a malformed text: \<open>None\<close>.\<close>

definition MustParsePubkey :: "bytes \<Rightarrow> pubkey option" where
  "MustParsePubkey text = (case ParsePubkey text of Inl e \<Rightarrow> None | Inr key \<Rightarrow> Some key)"

definition SystemProgramID :: pubkey where
  "SystemProgramID = the (MustParsePubkey (string_bytes ''11111111111111111111111111111111''))"

definition RecentBlockhashesSysvar :: pubkey where
  "RecentBlockhashesSysvar = the (MustParsePubkey (string_bytes ''SysvarRecentB1ockHashes11111111111111111111''))"

definition RentSysvar :: pubkey where
  "RentSysvar = the (MustParsePubkey (string_bytes ''SysvarRent111111111111111111111111111111111''))"

type_synonym InstructionKind = u32

abbreviation (input) CreateAccountKind :: InstructionKind where "CreateAccountKind \<equiv> 0"
abbreviation (input) AssignKind :: InstructionKind where "AssignKind \<equiv> 1"
abbreviation (input) TransferKind :: InstructionKind where "TransferKind \<equiv> 2"
abbreviation (input) CreateAccountWithSeedKind :: InstructionKind where "CreateAccountWithSeedKind \<equiv> 3"
abbreviation (input) AdvanceNonceAccountKind :: InstructionKind where "AdvanceNonceAccountKind \<equiv> 4"
abbreviation (input) WithdrawNonceAccountKind :: InstructionKind where "WithdrawNonceAccountKind \<equiv> 5"
abbreviation (input) InitializeNonceAccountKind :: InstructionKind where "InitializeNonceAccountKind \<equiv> 6"
abbreviation (input) AuthorizeNonceAccountKind :: InstructionKind where "AuthorizeNonceAccountKind \<equiv> 7"
abbreviation (input) AllocateKind :: InstructionKind where "AllocateKind \<equiv> 8"
abbreviation (input) AllocateWithSeedKind :: InstructionKind where "AllocateWithSeedKind \<equiv> 9"
abbreviation (input) AssignWithSeedKind :: InstructionKind where "AssignWithSeedKind \<equiv> 10"
abbreviation (input) TransferWithSeedKind :: InstructionKind where "TransferWithSeedKind \<equiv> 11"
abbreviation (input) UpgradeNonceAccountKind :: InstructionKind where "UpgradeNonceAccountKind \<equiv> 12"
abbreviation (input) CreateAccountAllowPrefundKind :: InstructionKind where "CreateAccountAllowPrefundKind \<equiv> 13"

record DecodedInstruction =
  Kind :: InstructionKind
  Lamports :: u64
  Space :: u64
  Owner :: pubkey
  Base :: pubkey
  Seed :: bytes
  NewAuthority :: pubkey

section \<open>Writing instruction data\<close>

definition putKind :: "InstructionKind \<Rightarrow> bytes \<Rightarrow> bytes" where
  "putKind kind data = put_slice 0 (le_bytes 4 kind) data"

definition put_u64 :: "nat \<Rightarrow> u64 \<Rightarrow> bytes \<Rightarrow> bytes" where
  "put_u64 off v data = put_slice off (le_bytes 8 v) data"

definition kindData :: "InstructionKind \<Rightarrow> bytes" where
  "kindData kind = putKind kind (replicate 4 0)"

definition amountData :: "InstructionKind \<Rightarrow> u64 \<Rightarrow> bytes" where
  "amountData kind amount = put_u64 4 amount (putKind kind (replicate 12 0))"

text \<open>The buffer and the offset behind the string.\<close>

definition putString :: "nat \<Rightarrow> bytes \<Rightarrow> bytes \<Rightarrow> bytes \<times> nat" where
  "putString off v data =
     (put_slice (off + 8) v (put_u64 off (of_nat (length v)) data), off + 8 + length v)"

definition seededData :: "InstructionKind \<Rightarrow> pubkey \<Rightarrow> bytes \<Rightarrow> u64 option \<Rightarrow> pubkey \<Rightarrow> system_error + bytes" where
  "seededData kind base seed space owner =
     (if \<not> ValidString seed then Inl (ErrSdk ErrInvalidSeed)
      else if length seed > MaxSeedLength then Inl (ErrSdk ErrMaxSeedLength)
      else
        let extra = (if space \<noteq> None then 8 else 0);
            data = replicate (4 + 32 + 8 + length seed + extra + 32) 0;
            data = putKind kind data;
            data = put_slice 4 base data;
            (data, off) = putString 36 seed data;
            (data, off) = (case space of Some v \<Rightarrow> (put_u64 off v data, off + 8) | None \<Rightarrow> (data, off)) in
        Inr (put_slice off owner data))"

definition system_instruction :: "bytes \<Rightarrow> AccountMeta list \<Rightarrow> Instruction" where
  "system_instruction data accounts = \<lparr>ProgramID = SystemProgramID, Accounts = accounts, Data = data\<rparr>"

section \<open>The instructions\<close>

definition create_data :: "InstructionKind \<Rightarrow> u64 \<Rightarrow> u64 \<Rightarrow> pubkey \<Rightarrow> bytes" where
  "create_data kind lamports space owner =
     put_slice 20 owner (put_u64 12 space (put_u64 4 lamports (putKind kind (replicate (4 + 8 + 8 + 32) 0))))"

definition key_data :: "InstructionKind \<Rightarrow> pubkey \<Rightarrow> bytes" where
  "key_data kind key = put_slice 4 key (putKind kind (replicate (4 + 32) 0))"

definition CreateAccount :: "pubkey \<Rightarrow> pubkey \<Rightarrow> u64 \<Rightarrow> u64 \<Rightarrow> pubkey \<Rightarrow> Instruction" where
  "CreateAccount payer newAccount lamports space owner =
     system_instruction (create_data CreateAccountKind lamports space owner) [Writable payer True, Writable newAccount True]"

definition Assign :: "pubkey \<Rightarrow> pubkey \<Rightarrow> Instruction" where
  "Assign account owner = system_instruction (key_data AssignKind owner) [Writable account True]"

definition Transfer :: "pubkey \<Rightarrow> pubkey \<Rightarrow> u64 \<Rightarrow> Instruction" where
  "Transfer source destination lamports =
     system_instruction (amountData TransferKind lamports) [Writable source True, Writable destination False]"

definition CreateAccountWithSeed ::
  "pubkey \<Rightarrow> pubkey \<Rightarrow> pubkey \<Rightarrow> bytes \<Rightarrow> u64 \<Rightarrow> u64 \<Rightarrow> pubkey \<Rightarrow> system_error + Instruction" where
  "CreateAccountWithSeed payer newAccount base seed lamports space owner =
     (if \<not> ValidString seed then Inl (ErrSdk ErrInvalidSeed)
      else if length seed > MaxSeedLength then Inl (ErrSdk ErrMaxSeedLength)
      else
        let data = replicate (4 + 32 + 8 + length seed + 8 + 8 + 32) 0;
            data = putKind CreateAccountWithSeedKind data;
            data = put_slice 4 base data;
            (data, off) = putString 36 seed data;
            data = put_u64 off lamports data;
            data = put_u64 (off + 8) space data;
            data = put_slice (off + 16) owner data in
        Inr (system_instruction data
          ([Writable payer True, Writable newAccount False] @ (if base \<noteq> payer then [Readonly base True] else []))))"

definition AdvanceNonceAccount :: "pubkey \<Rightarrow> pubkey \<Rightarrow> Instruction" where
  "AdvanceNonceAccount nonceAccount nonceAuthority =
     system_instruction (kindData AdvanceNonceAccountKind)
       [Writable nonceAccount False, Readonly RecentBlockhashesSysvar False, Readonly nonceAuthority True]"

definition WithdrawNonceAccount :: "pubkey \<Rightarrow> pubkey \<Rightarrow> pubkey \<Rightarrow> u64 \<Rightarrow> Instruction" where
  "WithdrawNonceAccount nonceAccount recipient nonceAuthority lamports =
     system_instruction (amountData WithdrawNonceAccountKind lamports)
       [Writable nonceAccount False, Writable recipient False, Readonly RecentBlockhashesSysvar False,
        Readonly RentSysvar False, Readonly nonceAuthority True]"

definition InitializeNonceAccount :: "pubkey \<Rightarrow> pubkey \<Rightarrow> Instruction" where
  "InitializeNonceAccount nonceAccount nonceAuthority =
     system_instruction (key_data InitializeNonceAccountKind nonceAuthority)
       [Writable nonceAccount False, Readonly RecentBlockhashesSysvar False, Readonly RentSysvar False]"

definition AuthorizeNonceAccount :: "pubkey \<Rightarrow> pubkey \<Rightarrow> pubkey \<Rightarrow> Instruction" where
  "AuthorizeNonceAccount nonceAccount nonceAuthority newAuthority =
     system_instruction (key_data AuthorizeNonceAccountKind newAuthority)
       [Writable nonceAccount False, Readonly nonceAuthority True]"

definition Allocate :: "pubkey \<Rightarrow> u64 \<Rightarrow> Instruction" where
  "Allocate account space = system_instruction (amountData AllocateKind space) [Writable account True]"

definition AllocateWithSeed :: "pubkey \<Rightarrow> pubkey \<Rightarrow> bytes \<Rightarrow> u64 \<Rightarrow> pubkey \<Rightarrow> system_error + Instruction" where
  "AllocateWithSeed account base seed space owner =
     and_then (seededData AllocateWithSeedKind base seed (Some space) owner) (\<lambda>data.
       Inr (system_instruction data [Writable account False, Readonly base True]))"

definition AssignWithSeed :: "pubkey \<Rightarrow> pubkey \<Rightarrow> bytes \<Rightarrow> pubkey \<Rightarrow> system_error + Instruction" where
  "AssignWithSeed account base seed owner =
     and_then (seededData AssignWithSeedKind base seed None owner) (\<lambda>data.
       Inr (system_instruction data [Writable account False, Readonly base True]))"

definition TransferWithSeed ::
  "pubkey \<Rightarrow> pubkey \<Rightarrow> pubkey \<Rightarrow> bytes \<Rightarrow> pubkey \<Rightarrow> u64 \<Rightarrow> system_error + Instruction" where
  "TransferWithSeed source base destination fromSeed fromOwner lamports =
     (if \<not> ValidString fromSeed then Inl (ErrSdk ErrInvalidSeed)
      else if length fromSeed > MaxSeedLength then Inl (ErrSdk ErrMaxSeedLength)
      else
        let data = replicate (4 + 8 + 8 + length fromSeed + 32) 0;
            data = putKind TransferWithSeedKind data;
            data = put_u64 4 lamports data;
            (data, off) = putString 12 fromSeed data;
            data = put_slice off fromOwner data in
        Inr (system_instruction data [Writable source False, Readonly base True, Writable destination False]))"

definition UpgradeNonceAccount :: "pubkey \<Rightarrow> Instruction" where
  "UpgradeNonceAccount nonceAccount = system_instruction (kindData UpgradeNonceAccountKind) [Writable nonceAccount False]"

definition CreateAccountAllowPrefund :: "pubkey \<Rightarrow> pubkey option \<Rightarrow> u64 \<Rightarrow> u64 \<Rightarrow> pubkey \<Rightarrow> Instruction" where
  "CreateAccountAllowPrefund newAccount payer lamports space owner =
     system_instruction (create_data CreateAccountAllowPrefundKind lamports space owner)
       ([Writable newAccount True] @ (case payer of Some p \<Rightarrow> [Writable p True] | None \<Rightarrow> []))"

section \<open>Reading instruction data\<close>

definition readString :: "bytes \<Rightarrow> system_error + (bytes \<times> bytes)" where
  "readString data =
     (if length data < 8 then Inl ErrInvalidInstruction
      else
        let len = (le_word (take 8 data) :: u64) in
        if unat len > MaxSeedLength \<or> len > 0x7fffffffffffffff \<or> length data - 8 < unat len
          then Inl ErrInvalidInstruction
        else
          let seed = take (unat len) (drop 8 data) in
          if \<not> ValidString seed then Inl ErrInvalidInstruction else Inr (seed, drop (8 + unat len) data))"

definition readBaseSeed :: "bytes \<Rightarrow> system_error + (pubkey \<times> bytes \<times> bytes)" where
  "readBaseSeed data =
     (if length data < 32 then Inl ErrInvalidInstruction
      else and_then (readString (drop 32 data)) (\<lambda>(seed, rest). Inr (take 32 data, seed, rest)))"

definition decoded_zero :: "InstructionKind \<Rightarrow> DecodedInstruction" where
  "decoded_zero kind =
     \<lparr>Kind = kind, Lamports = 0, Space = 0, Owner = zero_pubkey, Base = zero_pubkey, Seed = [], NewAuthority = zero_pubkey\<rparr>"

definition DecodeInstructionData :: "bytes \<Rightarrow> system_error + DecodedInstruction" where
  "DecodeInstructionData data =
     (if length data < 4 then Inl ErrInvalidInstruction
      else
        let kind = le_word (take 4 data); rest = drop 4 data; decoded = decoded_zero kind in
        if kind = CreateAccountKind \<or> kind = CreateAccountAllowPrefundKind then
          (if length rest \<noteq> 48 then Inl ErrInvalidInstruction
           else Inr (decoded\<lparr>Lamports := le_word (take 8 rest), Space := le_word (get_slice 8 8 rest),
             Owner := get_slice 16 32 rest\<rparr>))
        else if kind = AssignKind then
          (if length rest \<noteq> 32 then Inl ErrInvalidInstruction else Inr (decoded\<lparr>Owner := rest\<rparr>))
        else if kind = TransferKind \<or> kind = WithdrawNonceAccountKind then
          (if length rest \<noteq> 8 then Inl ErrInvalidInstruction else Inr (decoded\<lparr>Lamports := le_word rest\<rparr>))
        else if kind = CreateAccountWithSeedKind then
          (case readBaseSeed rest of
             Inl e \<Rightarrow> Inl ErrInvalidInstruction
           | Inr (base, seed, rest) \<Rightarrow>
               if length rest \<noteq> 48 then Inl ErrInvalidInstruction
               else Inr (decoded\<lparr>Base := base, Seed := seed, Lamports := le_word (take 8 rest),
                 Space := le_word (get_slice 8 8 rest), Owner := drop 16 rest\<rparr>))
        else if kind = AdvanceNonceAccountKind \<or> kind = UpgradeNonceAccountKind then
          (if length rest \<noteq> 0 then Inl ErrInvalidInstruction else Inr decoded)
        else if kind = InitializeNonceAccountKind \<or> kind = AuthorizeNonceAccountKind then
          (if length rest \<noteq> 32 then Inl ErrInvalidInstruction else Inr (decoded\<lparr>NewAuthority := rest\<rparr>))
        else if kind = AllocateKind then
          (if length rest \<noteq> 8 then Inl ErrInvalidInstruction else Inr (decoded\<lparr>Space := le_word rest\<rparr>))
        else if kind = AllocateWithSeedKind \<or> kind = AssignWithSeedKind then
          (case readBaseSeed rest of
             Inl e \<Rightarrow> Inl ErrInvalidInstruction
           | Inr (base, seed, rest) \<Rightarrow>
               if kind = AllocateWithSeedKind then
                 (if length rest \<noteq> 40 then Inl ErrInvalidInstruction
                  else Inr (decoded\<lparr>Base := base, Seed := seed, Space := le_word (take 8 rest), Owner := drop 8 rest\<rparr>))
               else if length rest \<noteq> 32 then Inl ErrInvalidInstruction
               else Inr (decoded\<lparr>Base := base, Seed := seed, Owner := rest\<rparr>))
        else if kind = TransferWithSeedKind then
          (if length rest < 8 then Inl ErrInvalidInstruction
           else
             case readString (drop 8 rest) of
               Inl e \<Rightarrow> Inl ErrInvalidInstruction
             | Inr (seed, rest') \<Rightarrow>
                 if length rest' \<noteq> 32 then Inl ErrInvalidInstruction
                 else Inr (decoded\<lparr>Lamports := le_word (take 8 rest), Seed := seed, Owner := rest'\<rparr>))
        else Inl ErrInvalidInstruction)"

section \<open>Nonce accounts\<close>

abbreviation (input) NonceStateSize :: nat where "NonceStateSize \<equiv> 80"
abbreviation (input) NonceVersionCurrent :: u32 where "NonceVersionCurrent \<equiv> 1"
abbreviation (input) NonceInitialized :: u32 where "NonceInitialized \<equiv> 1"

record NonceState =
  NonceVersion :: u32
  NonceStatus :: u32
  Authority :: pubkey
  Blockhash :: pubkey
  LamportsPerSignature :: u64

definition DecodeNonceState :: "bytes \<Rightarrow> system_error + NonceState" where
  "DecodeNonceState data =
     (if length data \<noteq> NonceStateSize then Inl ErrInvalidNonceState
      else
        let version = le_word (get_slice 0 4 data); status = le_word (get_slice 4 4 data) in
        if version > NonceVersionCurrent \<or> status > NonceInitialized then Inl ErrInvalidNonceState
        else Inr \<lparr>NonceVersion = version, NonceStatus = status, Authority = get_slice 8 32 data,
          Blockhash = get_slice 40 32 data, LamportsPerSignature = le_word (get_slice 72 8 data)\<rparr>)"

definition EncodeNonceState :: "NonceState \<Rightarrow> system_error + bytes" where
  "EncodeNonceState state =
     (if NonceVersion state > NonceVersionCurrent \<or> NonceStatus state > NonceInitialized then Inl ErrInvalidNonceState
      else
        let data = replicate NonceStateSize 0;
            data = put_slice 0 (le_bytes 4 (NonceVersion state)) data;
            data = put_slice 4 (le_bytes 4 (NonceStatus state)) data;
            data = put_slice 8 (Authority state) data;
            data = put_slice 40 (Blockhash state) data in
        Inr (put_u64 72 (LamportsPerSignature state) data))"

end
