(* ===== verification/SdkSystemFacts.thy ===== *)
theory SdkSystemFacts
  imports SdkSystem
begin

text \<open>
  The byte layout of the System Program's instructions, and that the builders and the decoder of
  \<open>src/sdk/system/instruction.go\<close> both implement it.
\<close>

section \<open>The layout\<close>

definition counted_string :: "bytes \<Rightarrow> bytes" where
  "counted_string s = le_bytes 8 (of_nat (length s) :: u64) @ s"

definition system_layout :: "DecodedInstruction \<Rightarrow> bytes" where
  "system_layout d =
     (let k = Kind d in
      le_bytes 4 k @
      (if k = 0 \<or> k = 13 then le_bytes 8 (Lamports d) @ le_bytes 8 (Space d) @ Owner d
       else if k = 1 then Owner d
       else if k = 2 \<or> k = 5 then le_bytes 8 (Lamports d)
       else if k = 3 then Base d @ counted_string (Seed d) @ le_bytes 8 (Lamports d) @ le_bytes 8 (Space d) @ Owner d
       else if k = 6 \<or> k = 7 then NewAuthority d
       else if k = 8 then le_bytes 8 (Space d)
       else if k = 9 then Base d @ counted_string (Seed d) @ le_bytes 8 (Space d) @ Owner d
       else if k = 10 then Base d @ counted_string (Seed d) @ Owner d
       else if k = 11 then le_bytes 8 (Lamports d) @ counted_string (Seed d) @ Owner d
       else []))"

text \<open>The fields a kind does not have are zero.\<close>

definition system_fields :: "DecodedInstruction \<Rightarrow> bool" where
  "system_fields d \<longleftrightarrow>
     (let k = Kind d; z = decoded_zero k in
      k \<le> 13 \<and> length (Owner d) = 32 \<and> length (Base d) = 32 \<and> length (NewAuthority d) = 32 \<and>
      ValidString (Seed d) \<and> length (Seed d) \<le> 32 \<and>
      d = (if k = 0 \<or> k = 13 then z\<lparr>Lamports := Lamports d, Space := Space d, Owner := Owner d\<rparr>
           else if k = 1 then z\<lparr>Owner := Owner d\<rparr>
           else if k = 2 \<or> k = 5 then z\<lparr>Lamports := Lamports d\<rparr>
           else if k = 3 then z\<lparr>Base := Base d, Seed := Seed d, Lamports := Lamports d, Space := Space d, Owner := Owner d\<rparr>
           else if k = 6 \<or> k = 7 then z\<lparr>NewAuthority := NewAuthority d\<rparr>
           else if k = 8 then z\<lparr>Space := Space d\<rparr>
           else if k = 9 then z\<lparr>Base := Base d, Seed := Seed d, Space := Space d, Owner := Owner d\<rparr>
           else if k = 10 then z\<lparr>Base := Base d, Seed := Seed d, Owner := Owner d\<rparr>
           else if k = 11 then z\<lparr>Lamports := Lamports d, Seed := Seed d, Owner := Owner d\<rparr>
           else z))"

lemma decoded_zero_fields [simp]:
  "Kind (decoded_zero k) = k" "Lamports (decoded_zero k) = 0" "Space (decoded_zero k) = 0"
  "Owner (decoded_zero k) = zero_pubkey" "Base (decoded_zero k) = zero_pubkey" "Seed (decoded_zero k) = []"
  "NewAuthority (decoded_zero k) = zero_pubkey"
  by (simp_all add: decoded_zero_def)

lemma length_zero_pubkey [simp]: "length zero_pubkey = 32"
  by (simp add: zero_pubkey_def)

section \<open>Strings\<close>

lemma readString_counted:
  assumes "ValidString s" and "length s \<le> 32"
  shows "readString (counted_string s @ rest) = Inr (s, rest)"
proof -
  have u: "unat (of_nat (length s) :: u64) = length s" using assms(2) by (simp add: unat_of_nat)
  then have "\<not> (of_nat (length s) :: u64) > 0x7fffffffffffffff" using assms(2) by (simp add: word_less_nat_alt)
  then show ?thesis
    using assms u by (simp add: readString_def counted_string_def Let_def codec_simps)
qed

lemma readString_InrD:
  assumes "readString data = Inr (s, rest)"
  shows "data = counted_string s @ rest \<and> ValidString s \<and> length s \<le> 32"
proof -
  define n :: u64 where "n = le_word (take 8 data)"
  have len: "8 \<le> length data" "unat n \<le> 32" "unat n \<le> length data - 8"
    and s: "s = take (unat n) (drop 8 data)" "ValidString s" and rest: "rest = drop (8 + unat n) data"
    using assms by (auto simp: readString_def Let_def n_def split: if_splits)
  have "length s = unat n" using len by (simp add: s)
  then have n: "of_nat (length s) = n" by simp
  have "le_bytes 8 n = take 8 data" using len by (simp add: n_def codec_simps)
  then have "counted_string s @ rest = take 8 data @ take (unat n) (drop 8 data) @ drop (8 + unat n) data"
    by (simp add: counted_string_def n) (simp add: s rest)
  also have "\<dots> = data" by (metis append_take_drop_id drop_drop add.commute)
  finally show ?thesis using s len \<open>length s = unat n\<close> by simp
qed

lemma readBaseSeed_counted:
  "length base = 32 \<Longrightarrow> ValidString s \<Longrightarrow> length s \<le> 32 \<Longrightarrow>
     readBaseSeed (base @ counted_string s @ rest) = Inr (base, s, rest)"
  by (simp add: readBaseSeed_def readString_counted)

lemma readBaseSeed_InrD:
  assumes "readBaseSeed data = Inr (base, s, rest)"
  shows "data = base @ counted_string s @ rest \<and> length base = 32 \<and> ValidString s \<and> length s \<le> 32"
proof -
  have len: "32 \<le> length data" and r: "readString (drop 32 data) = Inr (s, rest)" and base: "base = take 32 data"
    using assms by (auto simp: readBaseSeed_def and_then_Inr_conv split: if_splits)
  have "data = take 32 data @ drop 32 data" by simp
  then show ?thesis using readString_InrD [OF r] len base by simp
qed

section \<open>The decoder\<close>

lemma small_kind:
  "(k :: u32) \<le> 13 \<Longrightarrow> k = 0 \<or> k = 1 \<or> k = 2 \<or> k = 3 \<or> k = 4 \<or> k = 5 \<or> k = 6 \<or> k = 7 \<or> k = 8 \<or>
     k = 9 \<or> k = 10 \<or> k = 11 \<or> k = 12 \<or> k = 13"
proof -
  assume "k \<le> 13"
  then have "unat k \<le> 13" by (simp add: word_le_nat_alt)
  then have "unat k = 0 \<or> unat k = 1 \<or> unat k = 2 \<or> unat k = 3 \<or> unat k = 4 \<or> unat k = 5 \<or> unat k = 6 \<or>
    unat k = 7 \<or> unat k = 8 \<or> unat k = 9 \<or> unat k = 10 \<or> unat k = 11 \<or> unat k = 12 \<or> unat k = 13"
    by presburger
  then show ?thesis by (simp add: word_unat_eq_iff)
qed

lemma length_counted_string [simp]: "length (counted_string s) = 8 + length s"
  by (simp add: counted_string_def)

lemmas slice_simps = get_slice_left get_slice_right get_slice_all codec_simps

lemma decode_kind_bytes:
  "length (le_bytes 4 (k :: u32) @ body) \<ge> 4" "le_word (take 4 (le_bytes 4 k @ body)) = k" "drop 4 (le_bytes 4 k @ body) = body"
  by (simp_all add: codec_simps)

lemma decode_layout: "system_fields d \<Longrightarrow> DecodeInstructionData (system_layout d) = Inr d"
proof -
  assume f: "system_fields d"
  have len: "length (Owner d) = 32" "length (Base d) = 32" "length (NewAuthority d) = 32"
    and seed: "ValidString (Seed d)" "length (Seed d) \<le> 32"
    using f by (simp_all add: system_fields_def Let_def)
  have "Kind d \<le> 13" using f by (simp add: system_fields_def Let_def)
  note k = small_kind [OF this]
  have d: "d = (let k = Kind d; z = decoded_zero k in
      if k = 0 \<or> k = 13 then z\<lparr>Lamports := Lamports d, Space := Space d, Owner := Owner d\<rparr>
           else if k = 1 then z\<lparr>Owner := Owner d\<rparr>
           else if k = 2 \<or> k = 5 then z\<lparr>Lamports := Lamports d\<rparr>
           else if k = 3 then z\<lparr>Base := Base d, Seed := Seed d, Lamports := Lamports d, Space := Space d, Owner := Owner d\<rparr>
           else if k = 6 \<or> k = 7 then z\<lparr>NewAuthority := NewAuthority d\<rparr>
           else if k = 8 then z\<lparr>Space := Space d\<rparr>
           else if k = 9 then z\<lparr>Base := Base d, Seed := Seed d, Space := Space d, Owner := Owner d\<rparr>
           else if k = 10 then z\<lparr>Base := Base d, Seed := Seed d, Owner := Owner d\<rparr>
           else if k = 11 then z\<lparr>Lamports := Lamports d, Seed := Seed d, Owner := Owner d\<rparr>
           else z)"
    using f unfolding system_fields_def Let_def by blast
  show ?thesis
    unfolding DecodeInstructionData_def system_layout_def Let_def decode_kind_bytes
    using k len seed
    by (elim disjE)
      (simp add: readBaseSeed_counted readString_counted slice_simps, (rule trans [OF _ d [symmetric]], simp add: Let_def)?)+
qed

lemma split_slices: "take 8 data @ get_slice 8 8 data @ drop 16 data = data"
proof -
  have "drop 8 data = take 8 (drop 8 data) @ drop 16 data" using append_take_drop_id [of 8 "drop 8 data"] by simp
  then show ?thesis using append_take_drop_id [of 8 data] by (simp add: get_slice_def)
qed

lemma split_slices_32: "length data = 48 \<Longrightarrow> take 8 data @ get_slice 8 8 data @ get_slice 16 32 data = data"
  using split_slices [of data] by (simp add: get_slice_def)

lemma le_bytes_pieces:
  "8 \<le> length data \<Longrightarrow> le_bytes 8 (le_word (take 8 data) :: u64) = take 8 data"
  "16 \<le> length data \<Longrightarrow> le_bytes 8 (le_word (get_slice 8 8 data) :: u64) = get_slice 8 8 data"
  "length data = 8 \<Longrightarrow> le_bytes 8 (le_word data :: u64) = data"
  by (simp_all add: codec_simps)

lemma layout_decode:
  assumes "DecodeInstructionData data = Inr d"
  shows "system_fields d \<and> system_layout d = data"
proof -
  define k :: u32 where "k = le_word (take 4 data)"
  define rest where "rest = drop 4 data"
  have len: "4 \<le> length data" using assms by (simp add: DecodeInstructionData_def split: if_splits)
  have "take 4 data = le_bytes 4 k" using len by (simp add: k_def codec_simps)
  then have data: "data = le_bytes 4 k @ rest" unfolding rest_def by (metis append_take_drop_id)
  note dec = assms [unfolded data DecodeInstructionData_def Let_def decode_kind_bytes]
  have finish: "system_fields d \<and> system_layout d = data" if "system_fields d" "system_layout d = le_bytes 4 k @ rest"
    using that data by simp
  consider (create) "k = 0 \<or> k = 13" | (assign) "k = 1" | (transfer) "k = 2 \<or> k = 5" | (seeded) "k = 3"
    | (plain) "k = 4 \<or> k = 12" | (authority) "k = 6 \<or> k = 7" | (allocate) "k = 8" | (allocate_seed) "k = 9"
    | (assign_seed) "k = 10" | (transfer_seed) "k = 11"
  proof -
    have "\<not> (k = 0 \<or> k = 13 \<or> k = 1 \<or> k = 2 \<or> k = 5 \<or> k = 3 \<or> k = 4 \<or> k = 12 \<or> k = 6 \<or> k = 7 \<or> k = 8 \<or>
        k = 9 \<or> k = 10 \<or> k = 11) \<Longrightarrow> False"
      using dec by simp
    then show thesis using that by blast
  qed
  then show ?thesis
  proof cases
    case create
    then have l: "length rest = 48" and d: "d = decoded_zero k\<lparr>Lamports := le_word (take 8 rest),
        Space := le_word (get_slice 8 8 rest), Owner := get_slice 16 32 rest\<rparr>"
      using dec by (elim disjE; simp split: if_split_asm)+
    show ?thesis using create l
      by (intro finish) (elim disjE; simp add: d system_fields_def system_layout_def Let_def le_bytes_pieces split_slices_32)+
  next
    case assign
    then have l: "length rest = 32" and d: "d = decoded_zero k\<lparr>Owner := rest\<rparr>"
      using dec by (simp_all split: if_split_asm)
    show ?thesis using assign l by (intro finish) (simp_all add: d system_fields_def system_layout_def Let_def)
  next
    case transfer
    then have l: "length rest = 8" and d: "d = decoded_zero k\<lparr>Lamports := le_word rest\<rparr>"
      using dec by (elim disjE; simp split: if_split_asm)+
    show ?thesis using transfer l
      by (intro finish) (elim disjE; simp add: d system_fields_def system_layout_def Let_def le_bytes_pieces)+
  next
    case seeded
    then obtain base seed r where b: "readBaseSeed rest = Inr (base, seed, r)" and l: "length r = 48"
      and d: "d = decoded_zero k\<lparr>Base := base, Seed := seed, Lamports := le_word (take 8 r),
        Space := le_word (get_slice 8 8 r), Owner := drop 16 r\<rparr>"
      using dec by (simp split: if_split_asm sum.split_asm prod.split_asm)
    show ?thesis using seeded l readBaseSeed_InrD [OF b]
      by (intro finish) (simp_all add: d system_fields_def system_layout_def Let_def le_bytes_pieces split_slices)
  next
    case plain
    then have l: "rest = []" and d: "d = decoded_zero k"
      using dec by (elim disjE; simp split: if_split_asm)+
    show ?thesis using plain l by (intro finish) (elim disjE; simp add: d system_fields_def system_layout_def Let_def)+
  next
    case authority
    then have l: "length rest = 32" and d: "d = decoded_zero k\<lparr>NewAuthority := rest\<rparr>"
      using dec by (elim disjE; simp split: if_split_asm)+
    show ?thesis using authority l by (intro finish) (elim disjE; simp add: d system_fields_def system_layout_def Let_def)+
  next
    case allocate
    then have l: "length rest = 8" and d: "d = decoded_zero k\<lparr>Space := le_word rest\<rparr>"
      using dec by (simp_all split: if_split_asm)
    show ?thesis using allocate l
      by (intro finish) (simp_all add: d system_fields_def system_layout_def Let_def le_bytes_pieces)
  next
    case allocate_seed
    then obtain base seed r where b: "readBaseSeed rest = Inr (base, seed, r)" and l: "length r = 40"
      and d: "d = decoded_zero k\<lparr>Base := base, Seed := seed, Space := le_word (take 8 r), Owner := drop 8 r\<rparr>"
      using dec by (simp split: if_split_asm sum.split_asm prod.split_asm)
    show ?thesis using allocate_seed l readBaseSeed_InrD [OF b]
      by (intro finish) (simp_all add: d system_fields_def system_layout_def Let_def le_bytes_pieces)
  next
    case assign_seed
    then obtain base seed r where b: "readBaseSeed rest = Inr (base, seed, r)" and l: "length r = 32"
      and d: "d = decoded_zero k\<lparr>Base := base, Seed := seed, Owner := r\<rparr>"
      using dec by (simp split: if_split_asm sum.split_asm prod.split_asm)
    show ?thesis using assign_seed l readBaseSeed_InrD [OF b]
      by (intro finish) (simp_all add: d system_fields_def system_layout_def Let_def)
  next
    case transfer_seed
    then obtain seed r where b: "readString (drop 8 rest) = Inr (seed, r)" and l: "8 \<le> length rest" "length r = 32"
      and d: "d = decoded_zero k\<lparr>Lamports := le_word (take 8 rest), Seed := seed, Owner := r\<rparr>"
      using dec by (simp split: if_split_asm sum.split_asm prod.split_asm)
    have "rest = take 8 rest @ counted_string seed @ r" using readString_InrD [OF b] by (metis append_take_drop_id)
    then show ?thesis using transfer_seed l readString_InrD [OF b]
      by (intro finish) (simp_all add: d system_fields_def system_layout_def Let_def le_bytes_pieces)
  qed
qed

section \<open>The builders\<close>

lemmas fill_simps = put_head put_slice_right put_slice_all

lemma create_data_eq:
  "length owner = 32 \<Longrightarrow> create_data k lamports space owner = le_bytes 4 k @ le_bytes 8 lamports @ le_bytes 8 space @ owner"
  unfolding create_data_def replicate_add append_assoc putKind_def put_u64_def by (simp add: fill_simps)

lemma key_data_eq: "length key = 32 \<Longrightarrow> key_data k key = le_bytes 4 k @ key"
  unfolding key_data_def replicate_add putKind_def by (simp add: fill_simps)

lemma kindData_eq: "kindData k = le_bytes 4 k"
  by (simp add: kindData_def putKind_def put_slice_all)

lemma amountData_eq: "amountData k v = le_bytes 4 k @ le_bytes 8 v"
proof -
  have "replicate 12 (0 :: u8) = replicate 4 0 @ replicate 8 0" by (simp flip: replicate_add)
  then show ?thesis by (simp add: amountData_def putKind_def put_u64_def fill_simps)
qed

lemma putString_eq:
  assumes "off = length pre"
  shows "putString off s (pre @ replicate 8 0 @ replicate (length s) 0 @ post) = (pre @ counted_string s @ post, length pre + 8 + length s)"
  by (simp add: putString_def put_u64_def assms fill_simps counted_string_def)

lemma putString_36:
  assumes "length base = 32"
  shows "putString 36 s (le_bytes 4 (k :: u32) @ base @ replicate 8 0 @ replicate (length s) 0 @ post) =
    (le_bytes 4 k @ base @ counted_string s @ post, 44 + length s)"
  using putString_eq [of 36 "le_bytes 4 k @ base" s post] assms by simp

lemma seededData_eq:
  assumes "length base = 32" and "length owner = 32"
  shows "seededData k base seed space owner =
    (if \<not> ValidString seed then Inl (ErrSdk ErrInvalidSeed)
     else if length seed > 32 then Inl (ErrSdk ErrMaxSeedLength)
     else Inr (le_bytes 4 k @ base @ counted_string seed @ (case space of Some v \<Rightarrow> le_bytes 8 v | None \<Rightarrow> []) @ owner))"
proof (cases space)
  case None
  have "replicate (4 + 32 + 8 + length seed + 0 + 32) (0 :: u8) =
      replicate 4 0 @ replicate 32 0 @ replicate 8 0 @ replicate (length seed) 0 @ replicate 32 0"
    unfolding replicate_add append_assoc by simp
  then show ?thesis
    using assms None
    by (simp add: seededData_def Let_def putKind_def fill_simps putString_36)
next
  case (Some v)
  have "replicate (4 + 32 + 8 + length seed + 8 + 32) (0 :: u8) =
      replicate 4 0 @ replicate 32 0 @ replicate 8 0 @ replicate (length seed) 0 @ replicate 8 0 @ replicate 32 0"
    unfolding replicate_add append_assoc by simp
  then show ?thesis
    using assms Some
    by (simp add: seededData_def Let_def putKind_def fill_simps putString_36 put_u64_def)
qed

lemma CreateAccountWithSeed_eq:
  assumes "length base = 32" and "length owner = 32"
  shows "CreateAccountWithSeed payer newAccount base seed lamports space owner =
    (if \<not> ValidString seed then Inl (ErrSdk ErrInvalidSeed)
     else if length seed > 32 then Inl (ErrSdk ErrMaxSeedLength)
     else Inr (system_instruction
       (le_bytes 4 CreateAccountWithSeedKind @ base @ counted_string seed @ le_bytes 8 lamports @ le_bytes 8 space @ owner)
       ([Writable payer True, Writable newAccount False] @ (if base \<noteq> payer then [Readonly base True] else []))))"
proof -
  have "replicate (4 + 32 + 8 + length seed + 8 + 8 + 32) (0 :: u8) =
      replicate 4 0 @ replicate 32 0 @ replicate 8 0 @ replicate (length seed) 0 @ replicate 8 0 @ replicate 8 0 @ replicate 32 0"
    unfolding replicate_add append_assoc by simp
  then show ?thesis
    using assms by (simp add: CreateAccountWithSeed_def Let_def putKind_def fill_simps putString_36 put_u64_def)
qed

lemma TransferWithSeed_eq:
  assumes "length owner = 32"
  shows "TransferWithSeed source base destination seed owner lamports =
    (if \<not> ValidString seed then Inl (ErrSdk ErrInvalidSeed)
     else if length seed > 32 then Inl (ErrSdk ErrMaxSeedLength)
     else Inr (system_instruction
       (le_bytes 4 TransferWithSeedKind @ le_bytes 8 lamports @ counted_string seed @ owner)
       [Writable source False, Readonly base True, Writable destination False]))"
proof -
  have "replicate (4 + 8 + 8 + length seed + 32) (0 :: u8) =
      replicate 4 0 @ replicate 8 0 @ replicate 8 0 @ replicate (length seed) 0 @ replicate 32 0"
    unfolding replicate_add append_assoc by simp
  moreover have "putString 12 seed (le_bytes 4 TransferWithSeedKind @ le_bytes 8 lamports @ replicate 8 0 @ replicate (length seed) 0 @ post) =
      (le_bytes 4 TransferWithSeedKind @ le_bytes 8 lamports @ counted_string seed @ post, 20 + length seed)" for post
    using putString_eq [of 12 "le_bytes 4 TransferWithSeedKind @ le_bytes 8 lamports" seed post] by simp
  ultimately show ?thesis
    using assms by (simp add: TransferWithSeed_def Let_def putKind_def fill_simps put_u64_def)
qed

text \<open>What an instruction's data decodes to; \<open>None\<close> where the builder reports an error.\<close>

definition decodes_to :: "Instruction \<Rightarrow> DecodedInstruction \<Rightarrow> bool" where
  "decodes_to i d \<longleftrightarrow> DecodeInstructionData (Data i) = Inr d"

definition seeded_result :: "bytes \<Rightarrow> system_error + Instruction \<Rightarrow> DecodedInstruction \<Rightarrow> bool" where
  "seeded_result seed r d \<longleftrightarrow>
     (case r of
        Inr i \<Rightarrow> ValidString seed \<and> length seed \<le> 32 \<and> decodes_to i d
      | Inl e \<Rightarrow> e = (if ValidString seed then ErrSdk ErrMaxSeedLength else ErrSdk ErrInvalidSeed) \<and>
          (ValidString seed \<longrightarrow> length seed > 32))"

lemma decodes_toI: "Data i = system_layout d \<Longrightarrow> system_fields d \<Longrightarrow> decodes_to i d"
  by (simp add: decodes_to_def decode_layout)

lemma data_system_instruction [simp]: "Data (system_instruction data accounts) = data"
  by (simp add: system_instruction_def)

lemmas layout_simps = system_layout_def system_fields_def Let_def

lemma plain_builders:
  assumes owner: "length owner = 32"
  shows "decodes_to (CreateAccount a b lamports space owner)
      (decoded_zero 0\<lparr>Lamports := lamports, Space := space, Owner := owner\<rparr>)"
    "decodes_to (Assign a owner) (decoded_zero 1\<lparr>Owner := owner\<rparr>)"
    "decodes_to (Transfer a b lamports) (decoded_zero 2\<lparr>Lamports := lamports\<rparr>)"
    "decodes_to (AdvanceNonceAccount a b) (decoded_zero 4)"
    "decodes_to (WithdrawNonceAccount a b c lamports) (decoded_zero 5\<lparr>Lamports := lamports\<rparr>)"
    "decodes_to (InitializeNonceAccount a owner) (decoded_zero 6\<lparr>NewAuthority := owner\<rparr>)"
    "decodes_to (AuthorizeNonceAccount a b owner) (decoded_zero 7\<lparr>NewAuthority := owner\<rparr>)"
    "decodes_to (Allocate a space) (decoded_zero 8\<lparr>Space := space\<rparr>)"
    "decodes_to (UpgradeNonceAccount a) (decoded_zero 12)"
    "decodes_to (CreateAccountAllowPrefund a payer lamports space owner)
      (decoded_zero 13\<lparr>Lamports := lamports, Space := space, Owner := owner\<rparr>)"
  using owner
  by (auto intro!: decodes_toI simp: CreateAccount_def create_data_eq Assign_def key_data_eq Transfer_def amountData_eq
      AdvanceNonceAccount_def kindData_eq WithdrawNonceAccount_def InitializeNonceAccount_def AuthorizeNonceAccount_def
      Allocate_def UpgradeNonceAccount_def CreateAccountAllowPrefund_def layout_simps)

lemma seeded_builders:
  assumes owner: "length owner = 32" and base: "length base = 32"
  shows "seeded_result seed (CreateAccountWithSeed a b base seed lamports space owner)
      (decoded_zero 3\<lparr>Base := base, Seed := seed, Lamports := lamports, Space := space, Owner := owner\<rparr>)"
    "seeded_result seed (AllocateWithSeed a base seed space owner)
      (decoded_zero 9\<lparr>Base := base, Seed := seed, Space := space, Owner := owner\<rparr>)"
    "seeded_result seed (AssignWithSeed a base seed owner) (decoded_zero 10\<lparr>Base := base, Seed := seed, Owner := owner\<rparr>)"
    "seeded_result seed (TransferWithSeed a b c seed owner lamports)
      (decoded_zero 11\<lparr>Lamports := lamports, Seed := seed, Owner := owner\<rparr>)"
  using owner base
  by (auto intro!: decodes_toI simp: seeded_result_def CreateAccountWithSeed_eq AllocateWithSeed_def AssignWithSeed_def
      seededData_eq TransferWithSeed_eq layout_simps)

section \<open>Nonce accounts\<close>

lemma EncodeNonceState_eq:
  assumes "length (Authority s) = 32" and "length (Blockhash s) = 32"
    and "\<not> (NonceVersion s > 1 \<or> NonceStatus s > 1)"
  shows "EncodeNonceState s = Inr (le_bytes 4 (NonceVersion s) @ le_bytes 4 (NonceStatus s) @ Authority s @ Blockhash s @
    le_bytes 8 (LamportsPerSignature s))"
proof -
  have "replicate 80 (0 :: u8) = replicate 4 0 @ replicate 4 0 @ replicate 32 0 @ replicate 32 0 @ replicate 8 0"
    by (simp flip: replicate_add)
  then show ?thesis using assms by (simp add: EncodeNonceState_def Let_def fill_simps put_u64_def)
qed

lemma nonce_pieces:
  "length data = 80 \<Longrightarrow>
     get_slice 0 4 data @ get_slice 4 4 data @ get_slice 8 32 data @ get_slice 40 32 data @ get_slice 72 8 data = data"
proof -
  assume l: "length data = 80"
  have "drop 72 data = take 8 (drop 72 data)" "drop 40 data = take 32 (drop 40 data) @ drop 72 data"
    "drop 8 data = take 32 (drop 8 data) @ drop 40 data" "drop 4 data = take 4 (drop 4 data) @ drop 8 data"
    using l append_take_drop_id [of 32 "drop 40 data"] append_take_drop_id [of 32 "drop 8 data"]
      append_take_drop_id [of 4 "drop 4 data"] by simp_all
  then show ?thesis using append_take_drop_id [of 4 data] by (simp add: get_slice_def)
qed

lemma nonce_iff:
  "DecodeNonceState data = Inr s \<longleftrightarrow>
     length (Authority s) = 32 \<and> length (Blockhash s) = 32 \<and> EncodeNonceState s = Inr data"
proof
  assume a: "DecodeNonceState data = Inr s"
  then have l: "length data = 80" by (simp add: DecodeNonceState_def split: if_splits)
  have small: "\<not> (NonceVersion s > 1 \<or> NonceStatus s > 1)" and
    s: "s = \<lparr>NonceVersion = le_word (get_slice 0 4 data), NonceStatus = le_word (get_slice 4 4 data),
      Authority = get_slice 8 32 data, Blockhash = get_slice 40 32 data, LamportsPerSignature = le_word (get_slice 72 8 data)\<rparr>"
    using a by (auto simp: DecodeNonceState_def Let_def split: if_splits)
  have k: "length (Authority s) = 32" "length (Blockhash s) = 32" using l by (simp_all add: s)
  moreover have "le_bytes 4 (NonceVersion s) @ le_bytes 4 (NonceStatus s) @ Authority s @ Blockhash s @
    le_bytes 8 (LamportsPerSignature s) = data"
    using nonce_pieces [OF l] l by (simp add: s codec_simps)
  ultimately show "length (Authority s) = 32 \<and> length (Blockhash s) = 32 \<and> EncodeNonceState s = Inr data"
    using EncodeNonceState_eq [OF k small] by simp
next
  assume a: "length (Authority s) = 32 \<and> length (Blockhash s) = 32 \<and> EncodeNonceState s = Inr data"
  then have small: "\<not> (NonceVersion s > 1 \<or> NonceStatus s > 1)" by (auto simp: EncodeNonceState_def split: if_splits)
  have data: "data = le_bytes 4 (NonceVersion s) @ le_bytes 4 (NonceStatus s) @ Authority s @ Blockhash s @
    le_bytes 8 (LamportsPerSignature s)"
    using a EncodeNonceState_eq [of s] small by simp
  show "DecodeNonceState data = Inr s"
    using a small by (simp add: DecodeNonceState_def data slice_simps)
qed

end
