(* ===== verification/SdkClaims.thy ===== *)
theory SdkClaims
  imports SdkSystemFacts
begin

text \<open>
  Addresses of \<open>src/sdk\<close>, their text and their derivation, and the instructions of the System Program.
\<close>

text \<open>
  C21.  Base58 text is canonical.  \<open>ParsePubkey\<close> accepts a text with result \<open>p\<close> exactly when \<open>p\<close> is an
  address and \<open>String\<close> prints it as that text: printing and parsing are inverse, and no address has
  two texts, leading zero bytes and the limit of 44 characters included.
\<close>

theorem ParsePubkey_iff_String:
  "ParsePubkey text = Inr p \<longleftrightarrow> length p = 32 \<and> Pubkey_String p = text"
  using parse_of_string string_of_parse by blast

lemma hash_seeds_eq:
  "hash_seeds h seeds =
     (if \<exists>seed \<in> set seeds. length seed > 32 then Inl ErrMaxSeedLength else Inr (h @ concat seeds))"
  by (induction seeds arbitrary: h) auto

text \<open>The candidate address of some seeds.\<close>

definition candidate :: "bytes list \<Rightarrow> pubkey \<Rightarrow> pubkey" where
  "candidate seeds programID = Sum256 (concat seeds @ programID @ pdaMarker)"

lemma CreateProgramAddress_eq:
  "CreateProgramAddress seeds programID =
     (if length seeds > 16 then Inl ErrTooManySeeds
      else if \<exists>seed \<in> set seeds. length seed > 32 then Inl ErrMaxSeedLength
      else if IsOnCurve (candidate seeds programID) then Inl ErrInvalidSeeds
      else Inr (candidate seeds programID))"
  by (simp add: CreateProgramAddress_def hash_seeds_eq PubkeyFromBytes_def candidate_def)

lemma find_bump_spec:
  assumes "length seeds < 16" and "\<not> (\<exists>seed \<in> set seeds. length seed > 32)"
  shows "n \<le> 256 \<Longrightarrow>
    (case find_bump seeds programID n of
       Inr (address, bump) \<Rightarrow> unat bump < n \<and> address = candidate (seeds @ [[bump]]) programID \<and>
         \<not> IsOnCurve address \<and> (\<forall>b. bump < b \<and> unat b < n \<longrightarrow> IsOnCurve (candidate (seeds @ [[b]]) programID))
     | Inl e \<Rightarrow> e = ErrNoProgramAddress \<and> (\<forall>b. unat b < n \<longrightarrow> IsOnCurve (candidate (seeds @ [[b]]) programID)))"
proof (induction n)
  case (Suc n)
  have u: "unat (of_nat n :: u8) = n" using Suc.prems by (simp add: unat_of_nat)
  have created: "CreateProgramAddress (seeds @ [[of_nat n]]) programID =
    (if IsOnCurve (candidate (seeds @ [[of_nat n]]) programID) then Inl ErrInvalidSeeds
     else Inr (candidate (seeds @ [[of_nat n]]) programID))"
    using assms by (simp add: CreateProgramAddress_eq)
  have top: "unat b < Suc n \<longleftrightarrow> unat b < n \<or> b = of_nat n" for b :: u8
    using u by (auto simp: less_Suc_eq word_unat_eq_iff)
  show ?case
  proof (cases "IsOnCurve (candidate (seeds @ [[of_nat n]]) programID)")
    case True
    then show ?thesis using Suc.IH Suc.prems top
      by (auto simp: created split: sum.splits prod.splits)
  next
    case False
    then show ?thesis using u by (auto simp: created word_less_nat_alt)
  qed
qed simp

text \<open>
  C22.  The search for a program address tries the bumps from 255 down to 0 and always ends: with
  the first bump whose address is off the curve, every larger bump's address being on it; or with
  \<open>ErrNoProgramAddress\<close> when all 256 are on it; or with the error that names a seed list that is too
  long or has too long a seed, and then nothing is hashed.
\<close>

theorem FindProgramAddress_spec:
  "case FindProgramAddress seeds programID of
     Inr (address, bump) \<Rightarrow> CreateProgramAddress (seeds @ [[bump]]) programID = Inr address \<and>
       length address = 32 \<and> \<not> IsOnCurve address \<and>
       {b. bump < b} \<subseteq> {b. CreateProgramAddress (seeds @ [[b]]) programID = Inl ErrInvalidSeeds}
   | Inl ErrNoProgramAddress \<Rightarrow>
       {b. CreateProgramAddress (seeds @ [[b]]) programID = Inl ErrInvalidSeeds} = UNIV
   | Inl ErrTooManySeeds \<Rightarrow> length seeds \<ge> 16
   | Inl ErrMaxSeedLength \<Rightarrow> length seeds < 16 \<and> (\<exists>seed \<in> set seeds. length seed > 32)
   | Inl _ \<Rightarrow> False"
proof (cases "length seeds < 16 \<and> \<not> (\<exists>seed \<in> set seeds. length seed > 32)")
  case True
  have u: "unat b < 256" for b :: u8 by (rule unat_u8_less)
  have created: "CreateProgramAddress (seeds @ [[b]]) programID =
    (if IsOnCurve (candidate (seeds @ [[b]]) programID) then Inl ErrInvalidSeeds
     else Inr (candidate (seeds @ [[b]]) programID))" for b
    using True by (simp add: CreateProgramAddress_eq)
  have found: "FindProgramAddress seeds programID = find_bump seeds programID 256"
    using True by (simp add: FindProgramAddress_def)
  have len: "length (candidate x y) = 32" for x y by (simp add: candidate_def)
  show ?thesis
    using find_bump_spec [of seeds 256 programID] True u
    by (auto simp: found created len split: sum.splits prod.splits)
next
  case False
  then show ?thesis by (auto simp: FindProgramAddress_def)
qed

text \<open>
  C23.  The decoder of System Program instructions implements the byte layout exactly: some bytes
  decode to \<open>d\<close> if and only if \<open>d\<close> has a known kind, keys of 32 bytes, a valid seed of at most 32 bytes
  and nothing in the fields its kind does not have, and the bytes are the layout of \<open>d\<close>.  So every
  instruction has one encoding and truncated, overlong or malformed data is refused.
\<close>

theorem DecodeInstructionData_iff_layout:
  "DecodeInstructionData data = Inr d \<longleftrightarrow> system_fields d \<and> system_layout d = data"
  using decode_layout layout_decode by metis

text \<open>
  C24.  Every builder of a System Program instruction writes data that decodes to its kind and its
  arguments; the builders that take a seed refuse exactly the seeds that are not UTF-8 or are longer than
  32 bytes, each with its own error.
\<close>

theorem builders_decode:
  assumes "length owner = 32" and "length base = 32"
  shows "decodes_to (CreateAccount a b lamports space owner)
      (decoded_zero 0\<lparr>Lamports := lamports, Space := space, Owner := owner\<rparr>) \<and>
    decodes_to (Assign a owner) (decoded_zero 1\<lparr>Owner := owner\<rparr>) \<and>
    decodes_to (Transfer a b lamports) (decoded_zero 2\<lparr>Lamports := lamports\<rparr>) \<and>
    seeded_result seed (CreateAccountWithSeed a b base seed lamports space owner)
      (decoded_zero 3\<lparr>Base := base, Seed := seed, Lamports := lamports, Space := space, Owner := owner\<rparr>) \<and>
    decodes_to (AdvanceNonceAccount a b) (decoded_zero 4) \<and>
    decodes_to (WithdrawNonceAccount a b c lamports) (decoded_zero 5\<lparr>Lamports := lamports\<rparr>) \<and>
    decodes_to (InitializeNonceAccount a owner) (decoded_zero 6\<lparr>NewAuthority := owner\<rparr>) \<and>
    decodes_to (AuthorizeNonceAccount a b owner) (decoded_zero 7\<lparr>NewAuthority := owner\<rparr>) \<and>
    decodes_to (Allocate a space) (decoded_zero 8\<lparr>Space := space\<rparr>) \<and>
    seeded_result seed (AllocateWithSeed a base seed space owner)
      (decoded_zero 9\<lparr>Base := base, Seed := seed, Space := space, Owner := owner\<rparr>) \<and>
    seeded_result seed (AssignWithSeed a base seed owner) (decoded_zero 10\<lparr>Base := base, Seed := seed, Owner := owner\<rparr>) \<and>
    seeded_result seed (TransferWithSeed a b c seed owner lamports)
      (decoded_zero 11\<lparr>Lamports := lamports, Seed := seed, Owner := owner\<rparr>) \<and>
    decodes_to (UpgradeNonceAccount a) (decoded_zero 12) \<and>
    decodes_to (CreateAccountAllowPrefund a payer lamports space owner)
      (decoded_zero 13\<lparr>Lamports := lamports, Space := space, Owner := owner\<rparr>)"
  by (intro conjI plain_builders [OF assms(1)] seeded_builders [OF assms])

theorem builders_decode_witness:
  "length zero_pubkey = 32 \<and>
   decodes_to (Assign zero_pubkey zero_pubkey) (decoded_zero 1\<lparr>Owner := zero_pubkey\<rparr>) \<and>
   seeded_result [65] (AssignWithSeed zero_pubkey zero_pubkey [65] zero_pubkey)
     (decoded_zero 10\<lparr>Base := zero_pubkey, Seed := [65], Owner := zero_pubkey\<rparr>)"
  using builders_decode [of zero_pubkey zero_pubkey zero_pubkey zero_pubkey 0 0 "[65]" zero_pubkey None] by simp

text \<open>
  Nonce accounts: decoding accepts exactly the encodings of the states with a known version and
  status, and gives the state back.
\<close>

lemma NonceState_roundtrip:
  "DecodeNonceState data = Inr s \<longleftrightarrow>
     length (Authority s) = 32 \<and> length (Blockhash s) = 32 \<and> EncodeNonceState s = Inr data"
  by (rule nonce_iff)

end
