(* ===== verification/SdkToken.thy ===== *)
theory SdkToken
  imports SdkSystem
begin

text \<open>
  \<open>src/sdk/token\<close>: instructions and account states of the classic SPL Token program.

  \<open>build\<close> panics when its instruction does not encode; its result is then \<open>None\<close>.
\<close>

datatype token_error = ErrInvalidState | ErrInvalidTokenInstruction | ErrInvalidSigners | ErrIncorrectProgramID

abbreviation (input) MintSize :: nat where "MintSize \<equiv> 82"
abbreviation (input) AccountSize :: nat where "AccountSize \<equiv> 165"
abbreviation (input) MultisigSize :: nat where "MultisigSize \<equiv> 355"
abbreviation (input) MinSigners :: nat where "MinSigners \<equiv> 1"
abbreviation (input) MaxSigners :: nat where "MaxSigners \<equiv> 11"

definition TokenProgramID :: pubkey where
  "TokenProgramID = the (MustParsePubkey (string_bytes ''TokenkegQfeZyiNwAJbNbGKPFXCWuBvf9Ss623VQ5DA''))"

record OptionalPubkey =
  KeySet :: bool
  KeyValue :: pubkey

definition SomePubkey :: "pubkey \<Rightarrow> OptionalPubkey" where
  "SomePubkey v = \<lparr>KeySet = True, KeyValue = v\<rparr>"

definition NoPubkey :: OptionalPubkey where
  "NoPubkey = \<lparr>KeySet = False, KeyValue = zero_pubkey\<rparr>"

record OptionalU64 =
  U64Set :: bool
  U64Value :: u64

definition SomeU64 :: "u64 \<Rightarrow> OptionalU64" where
  "SomeU64 v = \<lparr>U64Set = True, U64Value = v\<rparr>"

definition NoU64 :: OptionalU64 where
  "NoU64 = \<lparr>U64Set = False, U64Value = 0\<rparr>"

type_synonym TokenKind = u8

abbreviation (input) InitializeMintKind :: TokenKind where "InitializeMintKind \<equiv> 0"
abbreviation (input) InitializeAccountKind :: TokenKind where "InitializeAccountKind \<equiv> 1"
abbreviation (input) InitializeMultisigKind :: TokenKind where "InitializeMultisigKind \<equiv> 2"
abbreviation (input) TokenTransferKind :: TokenKind where "TokenTransferKind \<equiv> 3"
abbreviation (input) ApproveKind :: TokenKind where "ApproveKind \<equiv> 4"
abbreviation (input) RevokeKind :: TokenKind where "RevokeKind \<equiv> 5"
abbreviation (input) SetAuthorityKind :: TokenKind where "SetAuthorityKind \<equiv> 6"
abbreviation (input) MintToKind :: TokenKind where "MintToKind \<equiv> 7"
abbreviation (input) BurnKind :: TokenKind where "BurnKind \<equiv> 8"
abbreviation (input) CloseAccountKind :: TokenKind where "CloseAccountKind \<equiv> 9"
abbreviation (input) FreezeAccountKind :: TokenKind where "FreezeAccountKind \<equiv> 10"
abbreviation (input) ThawAccountKind :: TokenKind where "ThawAccountKind \<equiv> 11"
abbreviation (input) TransferCheckedKind :: TokenKind where "TransferCheckedKind \<equiv> 12"
abbreviation (input) ApproveCheckedKind :: TokenKind where "ApproveCheckedKind \<equiv> 13"
abbreviation (input) MintToCheckedKind :: TokenKind where "MintToCheckedKind \<equiv> 14"
abbreviation (input) BurnCheckedKind :: TokenKind where "BurnCheckedKind \<equiv> 15"
abbreviation (input) InitializeAccount2Kind :: TokenKind where "InitializeAccount2Kind \<equiv> 16"
abbreviation (input) SyncNativeKind :: TokenKind where "SyncNativeKind \<equiv> 17"
abbreviation (input) InitializeAccount3Kind :: TokenKind where "InitializeAccount3Kind \<equiv> 18"
abbreviation (input) InitializeMultisig2Kind :: TokenKind where "InitializeMultisig2Kind \<equiv> 19"
abbreviation (input) InitializeMint2Kind :: TokenKind where "InitializeMint2Kind \<equiv> 20"
abbreviation (input) GetAccountDataSizeKind :: TokenKind where "GetAccountDataSizeKind \<equiv> 21"
abbreviation (input) InitializeImmutableOwnerKind :: TokenKind where "InitializeImmutableOwnerKind \<equiv> 22"
abbreviation (input) AmountToUIAmountKind :: TokenKind where "AmountToUIAmountKind \<equiv> 23"
abbreviation (input) UIAmountToAmountKind :: TokenKind where "UIAmountToAmountKind \<equiv> 24"
abbreviation (input) WithdrawExcessLamportsKind :: TokenKind where "WithdrawExcessLamportsKind \<equiv> 38"
abbreviation (input) UnwrapLamportsKind :: TokenKind where "UnwrapLamportsKind \<equiv> 45"
abbreviation (input) BatchKind :: TokenKind where "BatchKind \<equiv> 255"

abbreviation (input) AuthorityCloseAccount :: u8 where "AuthorityCloseAccount \<equiv> 3"

record InstructionData =
  TKind :: TokenKind
  Decimals :: u8
  M :: u8
  Amount :: u64
  MintAuthority :: pubkey
  FreezeAuthority :: OptionalPubkey
  AuthorityType :: u8
  NewTokenAuthority :: OptionalPubkey
  TokenOwner :: pubkey
  OptionalAmount :: OptionalU64
  UIAmount :: bytes
  BatchData :: bytes

text \<open>The value with only its kind set.\<close>

definition kind_only :: "TokenKind \<Rightarrow> InstructionData" where
  "kind_only kind =
     \<lparr>TKind = kind, Decimals = 0, M = 0, Amount = 0, MintAuthority = zero_pubkey, FreezeAuthority = NoPubkey,
      AuthorityType = 0, NewTokenAuthority = NoPubkey, TokenOwner = zero_pubkey, OptionalAmount = NoU64,
      UIAmount = [], BatchData = []\<rparr>"

section \<open>Instruction data\<close>

definition amountInstructionData :: "TokenKind \<Rightarrow> u64 \<Rightarrow> bytes" where
  "amountInstructionData kind amount = put_u64 1 amount ((replicate 9 0)[0 := kind])"

definition appendInstructionPubkeyOption :: "bytes \<Rightarrow> OptionalPubkey \<Rightarrow> bytes" where
  "appendInstructionPubkeyOption data v = (if \<not> KeySet v then data @ [0] else (data @ [1]) @ KeyValue v)"

definition consumeInstructionPubkeyOption :: "bytes \<Rightarrow> token_error + (OptionalPubkey \<times> bytes)" where
  "consumeInstructionPubkeyOption data =
     (if length data < 1 then Inl ErrInvalidTokenInstruction
      else if data ! 0 = 0 then Inr (NoPubkey, drop 1 data)
      else if data ! 0 = 1 then
        (if length data < 33 then Inl ErrInvalidTokenInstruction
         else Inr (SomePubkey (get_slice 1 32 data), drop 33 data))
      else Inl ErrInvalidTokenInstruction)"

definition kind_alone :: "TokenKind \<Rightarrow> bool" where
  "kind_alone k \<longleftrightarrow> k \<in> {InitializeAccountKind, RevokeKind, CloseAccountKind, FreezeAccountKind, ThawAccountKind,
     SyncNativeKind, GetAccountDataSizeKind, InitializeImmutableOwnerKind, WithdrawExcessLamportsKind}"

definition kind_amount :: "TokenKind \<Rightarrow> bool" where
  "kind_amount k \<longleftrightarrow> k \<in> {TokenTransferKind, ApproveKind, MintToKind, BurnKind, AmountToUIAmountKind}"

definition kind_checked :: "TokenKind \<Rightarrow> bool" where
  "kind_checked k \<longleftrightarrow> k \<in> {TransferCheckedKind, ApproveCheckedKind, MintToCheckedKind, BurnCheckedKind}"

definition EncodeTokenInstruction :: "InstructionData \<Rightarrow> token_error + bytes" where
  "EncodeTokenInstruction v =
     (let k = TKind v in
      if k = InitializeMintKind \<or> k = InitializeMint2Kind then
        Inr (appendInstructionPubkeyOption ([k, Decimals v] @ MintAuthority v) (FreezeAuthority v))
      else if kind_alone k then Inr [k]
      else if k = InitializeMultisigKind \<or> k = InitializeMultisig2Kind then Inr [k, M v]
      else if kind_amount k then Inr (amountInstructionData k (Amount v))
      else if k = SetAuthorityKind then
        (if AuthorityType v > AuthorityCloseAccount then Inl ErrInvalidTokenInstruction
         else Inr (appendInstructionPubkeyOption [k, AuthorityType v] (NewTokenAuthority v)))
      else if kind_checked k then Inr (amountInstructionData k (Amount v) @ [Decimals v])
      else if k = InitializeAccount2Kind \<or> k = InitializeAccount3Kind then Inr ([k] @ TokenOwner v)
      else if k = UIAmountToAmountKind then
        (if \<not> ValidString (UIAmount v) then Inl ErrInvalidTokenInstruction else Inr ([k] @ UIAmount v))
      else if k = UnwrapLamportsKind then
        (if \<not> U64Set (OptionalAmount v) then Inr ([k] @ [0])
         else Inr (([k] @ [1]) @ le_bytes 8 (U64Value (OptionalAmount v))))
      else if k = BatchKind then Inr ([k] @ BatchData v)
      else Inl ErrInvalidTokenInstruction)"

definition finish_decode :: "InstructionData \<times> bytes \<Rightarrow> token_error + InstructionData" where
  "finish_decode vr = (if length (snd vr) \<noteq> 0 then Inl ErrInvalidTokenInstruction else Inr (fst vr))"

definition decode_fields :: "TokenKind \<Rightarrow> bytes \<Rightarrow> token_error + (InstructionData \<times> bytes)" where
  "decode_fields k rest =
     (let v = kind_only k in
      if k = InitializeMintKind \<or> k = InitializeMint2Kind then
        (if length rest < 34 then Inl ErrInvalidTokenInstruction
         else and_then (consumeInstructionPubkeyOption (drop 33 rest)) (\<lambda>(freeze, rest').
           Inr (v\<lparr>Decimals := rest ! 0, MintAuthority := get_slice 1 32 rest, FreezeAuthority := freeze\<rparr>, rest')))
      else if kind_alone k then Inr (v, rest)
      else if k = InitializeMultisigKind \<or> k = InitializeMultisig2Kind then
        (if length rest \<noteq> 1 then Inl ErrInvalidTokenInstruction else Inr (v\<lparr>M := rest ! 0\<rparr>, drop 1 rest))
      else if kind_amount k then
        (if length rest \<noteq> 8 then Inl ErrInvalidTokenInstruction else Inr (v\<lparr>Amount := le_word rest\<rparr>, drop 8 rest))
      else if k = SetAuthorityKind then
        (if length rest < 2 \<or> rest ! 0 > AuthorityCloseAccount then Inl ErrInvalidTokenInstruction
         else and_then (consumeInstructionPubkeyOption (drop 1 rest)) (\<lambda>(authority, rest').
           Inr (v\<lparr>AuthorityType := rest ! 0, NewTokenAuthority := authority\<rparr>, rest')))
      else if kind_checked k then
        (if length rest \<noteq> 9 then Inl ErrInvalidTokenInstruction
         else Inr (v\<lparr>Amount := le_word (take 8 rest), Decimals := rest ! 8\<rparr>, drop 9 rest))
      else if k = InitializeAccount2Kind \<or> k = InitializeAccount3Kind then
        (if length rest \<noteq> 32 then Inl ErrInvalidTokenInstruction else Inr (v\<lparr>TokenOwner := rest\<rparr>, drop 32 rest))
      else if k = UIAmountToAmountKind then
        (if \<not> ValidString rest then Inl ErrInvalidTokenInstruction else Inr (v\<lparr>UIAmount := rest\<rparr>, []))
      else if k = UnwrapLamportsKind then
        (if length rest = 1 \<and> rest ! 0 = 0 then Inr (v, drop 1 rest)
         else if length rest = 9 \<and> rest ! 0 = 1 then
           Inr (v\<lparr>OptionalAmount := SomeU64 (le_word (drop 1 rest))\<rparr>, drop 9 rest)
         else Inl ErrInvalidTokenInstruction)
      else if k = BatchKind then Inr (v\<lparr>BatchData := rest\<rparr>, [])
      else Inl ErrInvalidTokenInstruction)"

definition DecodeTokenInstruction :: "bytes \<Rightarrow> token_error + InstructionData" where
  "DecodeTokenInstruction data =
     (if length data = 0 then Inl ErrInvalidTokenInstruction
      else and_then (decode_fields (data ! 0) (drop 1 data)) finish_decode)"

section \<open>The instructions\<close>

definition build :: "InstructionData \<Rightarrow> AccountMeta list \<Rightarrow> Instruction option" where
  "build v accounts =
     (case EncodeTokenInstruction v of
        Inl e \<Rightarrow> None
      | Inr data \<Rightarrow> Some \<lparr>ProgramID = TokenProgramID, Accounts = accounts, Data = data\<rparr>)"

definition buildResult :: "InstructionData \<Rightarrow> token_error + AccountMeta list \<Rightarrow> token_error + Instruction" where
  "buildResult v accounts =
     and_then accounts (\<lambda>accounts.
     and_then (EncodeTokenInstruction v) (\<lambda>data.
       Inr \<lparr>ProgramID = TokenProgramID, Accounts = accounts, Data = data\<rparr>))"

definition withAuthority :: "AccountMeta list \<Rightarrow> pubkey \<Rightarrow> pubkey list \<Rightarrow> token_error + AccountMeta list" where
  "withAuthority accounts authority signers =
     (if length signers > MaxSigners then Inl ErrInvalidSigners
      else Inr (accounts @ [Readonly authority (length signers = 0)] @ map (\<lambda>signer. Readonly signer True) signers))"

definition initializeMultisig ::
  "TokenKind \<Rightarrow> pubkey \<Rightarrow> pubkey list \<Rightarrow> u8 \<Rightarrow> bool \<Rightarrow> token_error + Instruction option" where
  "initializeMultisig kind multisig signers m includeRent =
     (if length signers < MinSigners \<or> length signers > MaxSigners \<or> unat m < MinSigners \<or> unat m > length signers
        then Inl ErrInvalidSigners
      else Inr (build (kind_only kind\<lparr>M := m\<rparr>)
        ([Writable multisig False] @ (if includeRent then [Readonly RentSysvar False] else []) @
         map (\<lambda>signer. Readonly signer False) signers)))"

definition InitializeMint :: "pubkey \<Rightarrow> pubkey \<Rightarrow> OptionalPubkey \<Rightarrow> u8 \<Rightarrow> Instruction option" where
  "InitializeMint mint mintAuthority freezeAuthority decimals =
     build (kind_only InitializeMintKind\<lparr>Decimals := decimals, MintAuthority := mintAuthority, FreezeAuthority := freezeAuthority\<rparr>)
       [Writable mint False, Readonly RentSysvar False]"

definition InitializeMint2 :: "pubkey \<Rightarrow> pubkey \<Rightarrow> OptionalPubkey \<Rightarrow> u8 \<Rightarrow> Instruction option" where
  "InitializeMint2 mint mintAuthority freezeAuthority decimals =
     build (kind_only InitializeMint2Kind\<lparr>Decimals := decimals, MintAuthority := mintAuthority, FreezeAuthority := freezeAuthority\<rparr>)
       [Writable mint False]"

definition InitializeAccount :: "pubkey \<Rightarrow> pubkey \<Rightarrow> pubkey \<Rightarrow> Instruction option" where
  "InitializeAccount account mint owner =
     build (kind_only InitializeAccountKind)
       [Writable account False, Readonly mint False, Readonly owner False, Readonly RentSysvar False]"

definition InitializeAccount2 :: "pubkey \<Rightarrow> pubkey \<Rightarrow> pubkey \<Rightarrow> Instruction option" where
  "InitializeAccount2 account mint owner =
     build (kind_only InitializeAccount2Kind\<lparr>TokenOwner := owner\<rparr>)
       [Writable account False, Readonly mint False, Readonly RentSysvar False]"

definition InitializeAccount3 :: "pubkey \<Rightarrow> pubkey \<Rightarrow> pubkey \<Rightarrow> Instruction option" where
  "InitializeAccount3 account mint owner =
     build (kind_only InitializeAccount3Kind\<lparr>TokenOwner := owner\<rparr>) [Writable account False, Readonly mint False]"

definition InitializeMultisig :: "pubkey \<Rightarrow> pubkey list \<Rightarrow> u8 \<Rightarrow> token_error + Instruction option" where
  "InitializeMultisig multisig signers m = initializeMultisig InitializeMultisigKind multisig signers m True"

definition InitializeMultisig2 :: "pubkey \<Rightarrow> pubkey list \<Rightarrow> u8 \<Rightarrow> token_error + Instruction option" where
  "InitializeMultisig2 multisig signers m = initializeMultisig InitializeMultisig2Kind multisig signers m False"

definition TokenTransfer :: "pubkey \<Rightarrow> pubkey \<Rightarrow> pubkey \<Rightarrow> pubkey list \<Rightarrow> u64 \<Rightarrow> token_error + Instruction" where
  "TokenTransfer source destination authority signers amount =
     buildResult (kind_only TokenTransferKind\<lparr>Amount := amount\<rparr>)
       (withAuthority [Writable source False, Writable destination False] authority signers)"

definition Approve :: "pubkey \<Rightarrow> pubkey \<Rightarrow> pubkey \<Rightarrow> pubkey list \<Rightarrow> u64 \<Rightarrow> token_error + Instruction" where
  "Approve source delegate owner signers amount =
     buildResult (kind_only ApproveKind\<lparr>Amount := amount\<rparr>)
       (withAuthority [Writable source False, Readonly delegate False] owner signers)"

definition Revoke :: "pubkey \<Rightarrow> pubkey \<Rightarrow> pubkey list \<Rightarrow> token_error + Instruction" where
  "Revoke source owner signers = buildResult (kind_only RevokeKind) (withAuthority [Writable source False] owner signers)"

definition SetAuthority ::
  "pubkey \<Rightarrow> pubkey \<Rightarrow> pubkey list \<Rightarrow> u8 \<Rightarrow> OptionalPubkey \<Rightarrow> token_error + Instruction" where
  "SetAuthority owned currentAuthority signers authorityType newAuthority =
     (if authorityType > AuthorityCloseAccount then Inl ErrInvalidTokenInstruction
      else buildResult (kind_only SetAuthorityKind\<lparr>AuthorityType := authorityType, NewTokenAuthority := newAuthority\<rparr>)
        (withAuthority [Writable owned False] currentAuthority signers))"

definition MintTo :: "pubkey \<Rightarrow> pubkey \<Rightarrow> pubkey \<Rightarrow> pubkey list \<Rightarrow> u64 \<Rightarrow> token_error + Instruction" where
  "MintTo mint account authority signers amount =
     buildResult (kind_only MintToKind\<lparr>Amount := amount\<rparr>)
       (withAuthority [Writable mint False, Writable account False] authority signers)"

definition Burn :: "pubkey \<Rightarrow> pubkey \<Rightarrow> pubkey \<Rightarrow> pubkey list \<Rightarrow> u64 \<Rightarrow> token_error + Instruction" where
  "Burn account mint authority signers amount =
     buildResult (kind_only BurnKind\<lparr>Amount := amount\<rparr>)
       (withAuthority [Writable account False, Writable mint False] authority signers)"

definition CloseAccount :: "pubkey \<Rightarrow> pubkey \<Rightarrow> pubkey \<Rightarrow> pubkey list \<Rightarrow> token_error + Instruction" where
  "CloseAccount account destination authority signers =
     buildResult (kind_only CloseAccountKind)
       (withAuthority [Writable account False, Writable destination False] authority signers)"

definition FreezeAccount :: "pubkey \<Rightarrow> pubkey \<Rightarrow> pubkey \<Rightarrow> pubkey list \<Rightarrow> token_error + Instruction" where
  "FreezeAccount account mint authority signers =
     buildResult (kind_only FreezeAccountKind)
       (withAuthority [Writable account False, Readonly mint False] authority signers)"

definition ThawAccount :: "pubkey \<Rightarrow> pubkey \<Rightarrow> pubkey \<Rightarrow> pubkey list \<Rightarrow> token_error + Instruction" where
  "ThawAccount account mint authority signers =
     buildResult (kind_only ThawAccountKind)
       (withAuthority [Writable account False, Readonly mint False] authority signers)"

definition TransferChecked ::
  "pubkey \<Rightarrow> pubkey \<Rightarrow> pubkey \<Rightarrow> pubkey \<Rightarrow> pubkey list \<Rightarrow> u64 \<Rightarrow> u8 \<Rightarrow> token_error + Instruction" where
  "TransferChecked source mint destination authority signers amount decimals =
     buildResult (kind_only TransferCheckedKind\<lparr>Amount := amount, Decimals := decimals\<rparr>)
       (withAuthority [Writable source False, Readonly mint False, Writable destination False] authority signers)"

definition ApproveChecked ::
  "pubkey \<Rightarrow> pubkey \<Rightarrow> pubkey \<Rightarrow> pubkey \<Rightarrow> pubkey list \<Rightarrow> u64 \<Rightarrow> u8 \<Rightarrow> token_error + Instruction" where
  "ApproveChecked source mint delegate owner signers amount decimals =
     buildResult (kind_only ApproveCheckedKind\<lparr>Amount := amount, Decimals := decimals\<rparr>)
       (withAuthority [Writable source False, Readonly mint False, Readonly delegate False] owner signers)"

definition MintToChecked ::
  "pubkey \<Rightarrow> pubkey \<Rightarrow> pubkey \<Rightarrow> pubkey list \<Rightarrow> u64 \<Rightarrow> u8 \<Rightarrow> token_error + Instruction" where
  "MintToChecked mint account authority signers amount decimals =
     buildResult (kind_only MintToCheckedKind\<lparr>Amount := amount, Decimals := decimals\<rparr>)
       (withAuthority [Writable mint False, Writable account False] authority signers)"

definition BurnChecked ::
  "pubkey \<Rightarrow> pubkey \<Rightarrow> pubkey \<Rightarrow> pubkey list \<Rightarrow> u64 \<Rightarrow> u8 \<Rightarrow> token_error + Instruction" where
  "BurnChecked account mint authority signers amount decimals =
     buildResult (kind_only BurnCheckedKind\<lparr>Amount := amount, Decimals := decimals\<rparr>)
       (withAuthority [Writable account False, Writable mint False] authority signers)"

definition SyncNative :: "pubkey \<Rightarrow> Instruction option" where
  "SyncNative account = build (kind_only SyncNativeKind) [Writable account False]"

definition SyncNativeWithRentSysvar :: "pubkey \<Rightarrow> Instruction option" where
  "SyncNativeWithRentSysvar account = build (kind_only SyncNativeKind) [Writable account False, Readonly RentSysvar False]"

definition GetAccountDataSize :: "pubkey \<Rightarrow> Instruction option" where
  "GetAccountDataSize mint = build (kind_only GetAccountDataSizeKind) [Readonly mint False]"

definition InitializeImmutableOwner :: "pubkey \<Rightarrow> Instruction option" where
  "InitializeImmutableOwner account = build (kind_only InitializeImmutableOwnerKind) [Writable account False]"

definition AmountToUIAmount :: "pubkey \<Rightarrow> u64 \<Rightarrow> Instruction option" where
  "AmountToUIAmount mint amount = build (kind_only AmountToUIAmountKind\<lparr>Amount := amount\<rparr>) [Readonly mint False]"

definition UIAmountToAmount :: "pubkey \<Rightarrow> bytes \<Rightarrow> token_error + Instruction option" where
  "UIAmountToAmount mint uiAmount =
     (if \<not> ValidString uiAmount then Inl ErrInvalidTokenInstruction
      else Inr (build (kind_only UIAmountToAmountKind\<lparr>UIAmount := uiAmount\<rparr>) [Readonly mint False]))"

definition WithdrawExcessLamports :: "pubkey \<Rightarrow> pubkey \<Rightarrow> pubkey \<Rightarrow> pubkey list \<Rightarrow> token_error + Instruction" where
  "WithdrawExcessLamports account destination authority signers =
     buildResult (kind_only WithdrawExcessLamportsKind)
       (withAuthority [Writable account False, Writable destination False] authority signers)"

definition UnwrapLamports ::
  "pubkey \<Rightarrow> pubkey \<Rightarrow> pubkey \<Rightarrow> pubkey list \<Rightarrow> OptionalU64 \<Rightarrow> token_error + Instruction" where
  "UnwrapLamports account destination authority signers amount =
     buildResult (kind_only UnwrapLamportsKind\<lparr>OptionalAmount := amount\<rparr>)
       (withAuthority [Writable account False, Writable destination False] authority signers)"

fun batch_children :: "bytes \<Rightarrow> AccountMeta list \<Rightarrow> Instruction list \<Rightarrow> token_error + (bytes \<times> AccountMeta list)" where
  "batch_children data accounts [] = Inr (data, accounts)"
| "batch_children data accounts (child # rest) =
     (if ProgramID child \<noteq> TokenProgramID then Inl ErrIncorrectProgramID
      else if length (Accounts child) > 255 \<or> length (Data child) > 255 \<or>
          length (Data child) > 0 \<and> Data child ! 0 = BatchKind
        then Inl ErrInvalidTokenInstruction
      else batch_children (data @ [of_nat (length (Accounts child)), of_nat (length (Data child))] @ Data child)
        (accounts @ Accounts child) rest)"

definition Batch :: "Instruction list \<Rightarrow> token_error + Instruction" where
  "Batch instructions =
     and_then (batch_children [BatchKind] [] instructions) (\<lambda>(data, accounts).
       Inr \<lparr>ProgramID = TokenProgramID, Accounts = accounts, Data = data\<rparr>)"

section \<open>Account states\<close>

record Mint =
  MMintAuthority :: OptionalPubkey
  Supply :: u64
  MDecimals :: u8
  Initialized :: bool
  MFreezeAuthority :: OptionalPubkey

record TokenAccount =
  AMint :: pubkey
  AOwner :: pubkey
  AAmount :: u64
  Delegate :: OptionalPubkey
  State :: u8
  IsNative :: OptionalU64
  DelegatedAmount :: u64
  CloseAuthority :: OptionalPubkey

record Multisig =
  MsM :: u8
  MsN :: u8
  MsInitialized :: bool
  Signers :: "pubkey list"

abbreviation (input) AccountFrozen :: u8 where "AccountFrozen \<equiv> 2"

definition decodeBool :: "u8 \<Rightarrow> token_error + bool" where
  "decodeBool v = (if v = 0 then Inr False else if v = 1 then Inr True else Inl ErrInvalidState)"

definition decodeOptionalPubkeyState :: "bytes \<Rightarrow> token_error + OptionalPubkey" where
  "decodeOptionalPubkeyState data =
     (if length data \<noteq> 36 then Inl ErrInvalidState
      else
        let tag = (le_word (take 4 data) :: u32) in
        if tag > 1 then Inl ErrInvalidState
        else Inr (if tag = 1 then SomePubkey (drop 4 data) else NoPubkey))"

definition decodeOptionalU64State :: "bytes \<Rightarrow> token_error + OptionalU64" where
  "decodeOptionalU64State data =
     (if length data \<noteq> 12 then Inl ErrInvalidState
      else
        let tag = (le_word (take 4 data) :: u32) in
        if tag > 1 then Inl ErrInvalidState
        else if tag = 0 then Inr NoU64
        else Inr (SomeU64 (le_word (drop 4 data))))"

text \<open>The encoders write into the slice they are given.\<close>

definition encodeOptionalPubkeyState :: "OptionalPubkey \<Rightarrow> bytes \<Rightarrow> token_error + bytes" where
  "encodeOptionalPubkeyState v data =
     (if length data \<noteq> 36 then Inl ErrInvalidState
      else Inr (if KeySet v then put_slice 4 (KeyValue v) (put_slice 0 (le_bytes 4 (1 :: u32)) data) else data))"

definition encodeOptionalU64State :: "OptionalU64 \<Rightarrow> bytes \<Rightarrow> token_error + bytes" where
  "encodeOptionalU64State v data =
     (if length data \<noteq> 12 then Inl ErrInvalidState
      else Inr (if U64Set v then put_u64 4 (U64Value v) (put_slice 0 (le_bytes 4 (1 :: u32)) data) else data))"

definition write_through :: "nat \<Rightarrow> nat \<Rightarrow> (bytes \<Rightarrow> 'e + bytes) \<Rightarrow> bytes \<Rightarrow> 'e + bytes" where
  "write_through off len f data = and_then (f (get_slice off len data)) (\<lambda>part. Inr (put_slice off part data))"

definition DecodeMint :: "bytes \<Rightarrow> token_error + Mint" where
  "DecodeMint data =
     (if length data \<noteq> MintSize then Inl ErrInvalidState
      else
        and_then (decodeOptionalPubkeyState (get_slice 0 36 data)) (\<lambda>mintAuthority.
        and_then (decodeBool (data ! 45)) (\<lambda>initialized.
        and_then (decodeOptionalPubkeyState (get_slice 46 36 data)) (\<lambda>freezeAuthority.
          Inr \<lparr>MMintAuthority = mintAuthority, Supply = le_word (get_slice 36 8 data), MDecimals = data ! 44,
            Initialized = initialized, MFreezeAuthority = freezeAuthority\<rparr>))))"

definition EncodeMint :: "Mint \<Rightarrow> token_error + bytes" where
  "EncodeMint mint =
     and_then (write_through 0 36 (encodeOptionalPubkeyState (MMintAuthority mint)) (replicate MintSize 0)) (\<lambda>data.
       let data = put_u64 36 (Supply mint) data;
           data = data[44 := MDecimals mint];
           data = (if Initialized mint then data[45 := 1] else data) in
       write_through 46 36 (encodeOptionalPubkeyState (MFreezeAuthority mint)) data)"

definition DecodeAccount :: "bytes \<Rightarrow> token_error + TokenAccount" where
  "DecodeAccount data =
     (if length data \<noteq> AccountSize then Inl ErrInvalidState
      else
        and_then (decodeOptionalPubkeyState (get_slice 72 36 data)) (\<lambda>delegate.
        if data ! 108 > AccountFrozen then Inl ErrInvalidState
        else
          and_then (decodeOptionalU64State (get_slice 109 12 data)) (\<lambda>isNative.
          and_then (decodeOptionalPubkeyState (get_slice 129 36 data)) (\<lambda>closeAuthority.
            Inr \<lparr>AMint = get_slice 0 32 data, AOwner = get_slice 32 32 data, AAmount = le_word (get_slice 64 8 data),
              Delegate = delegate, State = data ! 108, IsNative = isNative,
              DelegatedAmount = le_word (get_slice 121 8 data), CloseAuthority = closeAuthority\<rparr>))))"

definition EncodeAccount :: "TokenAccount \<Rightarrow> token_error + bytes" where
  "EncodeAccount account =
     (if State account > AccountFrozen then Inl ErrInvalidState
      else
        let data = replicate AccountSize 0;
            data = put_slice 0 (AMint account) data;
            data = put_slice 32 (AOwner account) data;
            data = put_u64 64 (AAmount account) data in
        and_then (write_through 72 36 (encodeOptionalPubkeyState (Delegate account)) data) (\<lambda>data.
          let data = data[108 := State account] in
          and_then (write_through 109 12 (encodeOptionalU64State (IsNative account)) data) (\<lambda>data.
            let data = put_u64 121 (DelegatedAmount account) data in
            write_through 129 36 (encodeOptionalPubkeyState (CloseAuthority account)) data)))"

definition DecodeMultisig :: "bytes \<Rightarrow> token_error + Multisig" where
  "DecodeMultisig data =
     (if length data \<noteq> MultisigSize then Inl ErrInvalidState
      else
        and_then (decodeBool (data ! 2)) (\<lambda>initialized.
          Inr \<lparr>MsM = data ! 0, MsN = data ! 1, MsInitialized = initialized,
            Signers = map (\<lambda>i. get_slice (3 + i * 32) 32 data) [0..<MaxSigners]\<rparr>))"

definition EncodeMultisig :: "Multisig \<Rightarrow> token_error + bytes" where
  "EncodeMultisig state =
     (let data = (replicate MultisigSize 0)[0 := MsM state, 1 := MsN state];
          data = (if MsInitialized state then data[2 := 1] else data) in
      Inr (fold (\<lambda>i data. put_slice (3 + i * 32) (Signers state ! i) data) [0..<MaxSigners] data))"

end
