(* ===== verification/SdkTokenFacts.thy ===== *)
theory SdkTokenFacts
  imports SdkToken SdkSystemFacts
begin

text \<open>
  Round trips of the classic SPL Token encodings of \<open>src/sdk/token\<close>.
\<close>

section \<open>Optional keys\<close>

definition key_option :: "OptionalPubkey \<Rightarrow> bool" where
  "key_option o' \<longleftrightarrow> o' = NoPubkey \<or> (KeySet o' \<and> length (KeyValue o') = 32)"

definition key_option_bytes :: "OptionalPubkey \<Rightarrow> bytes" where
  "key_option_bytes o' = (if KeySet o' then 1 # KeyValue o' else [0])"

lemma key_options [simp]:
  "KeySet NoPubkey = False" "KeySet (SomePubkey v) = True" "KeyValue (SomePubkey v) = v" "key_option NoPubkey"
  "key_option (SomePubkey v) \<longleftrightarrow> length v = 32"
  by (simp_all add: NoPubkey_def SomePubkey_def key_option_def)

lemma key_option_cases:
  assumes "key_option x"
  obtains "x = NoPubkey" | v where "x = SomePubkey v" "length v = 32"
proof (cases "KeySet x")
  case True
  then have "x = SomePubkey (KeyValue x)" by (simp add: SomePubkey_def)
  then show thesis using that(2) [of "KeyValue x"] assms True by (auto simp: key_option_def)
next
  case False
  then show thesis using that(1) assms by (auto simp: key_option_def)
qed

lemma append_option_eq: "appendInstructionPubkeyOption data x = data @ key_option_bytes x"
  by (simp add: appendInstructionPubkeyOption_def key_option_bytes_def)

lemma consume_option_iff:
  "consumeInstructionPubkeyOption data = Inr (x, rest) \<longleftrightarrow> key_option x \<and> data = key_option_bytes x @ rest"
proof
  assume c: "consumeInstructionPubkeyOption data = Inr (x, rest)"
  then obtain b bs where data: "data = b # bs" by (cases data) (simp_all add: consumeInstructionPubkeyOption_def)
  show "key_option x \<and> data = key_option_bytes x @ rest"
    using c by (auto simp: consumeInstructionPubkeyOption_def data key_option_bytes_def get_slice_def split: if_splits)
next
  assume "key_option x \<and> data = key_option_bytes x @ rest"
  then show "consumeInstructionPubkeyOption data = Inr (x, rest)"
    by (auto elim!: key_option_cases simp: consumeInstructionPubkeyOption_def key_option_bytes_def get_slice_def)
qed

section \<open>Instructions\<close>

lemma amount_data_eq: "amountInstructionData k v = k # le_bytes 8 v"
proof -
  have "(replicate 9 0)[0 := k] = [k] @ replicate 8 0" by (simp add: numeral_eq_Suc)
  then show ?thesis by (simp add: amountInstructionData_def put_u64_def put_slice_Cons put_slice_all)
qed

definition u64_option :: "OptionalU64 \<Rightarrow> bool" where
  "u64_option x \<longleftrightarrow> x = NoU64 \<or> U64Set x"

lemma u64_options [simp]:
  "U64Set NoU64 = False" "U64Set (SomeU64 v) = True" "U64Value (SomeU64 v) = v" "u64_option NoU64" "u64_option (SomeU64 v)"
  by (simp_all add: NoU64_def SomeU64_def u64_option_def)

lemma u64_option_cases:
  assumes "u64_option x"
  obtains "x = NoU64" | v where "x = SomeU64 v"
proof (cases "U64Set x")
  case True
  then have "x = SomeU64 (U64Value x)" by (simp add: SomeU64_def)
  then show thesis using that(2) [of "U64Value x"] assms True by auto
next
  case False
  then show thesis using that(1) assms by (auto simp: u64_option_def)
qed

text \<open>The fields a kind does not have are zero, an absent option has no value, keys have 32 bytes.\<close>

definition token_fields :: "InstructionData \<Rightarrow> bool" where
  "token_fields v \<longleftrightarrow>
     (let k = TKind v; z = kind_only k in
      length (MintAuthority v) = 32 \<and> length (TokenOwner v) = 32 \<and> key_option (FreezeAuthority v) \<and>
      key_option (NewTokenAuthority v) \<and> u64_option (OptionalAmount v) \<and>
      v = (if k = 0 \<or> k = 20 then
             z\<lparr>Decimals := Decimals v, MintAuthority := MintAuthority v, FreezeAuthority := FreezeAuthority v\<rparr>
           else if k = 2 \<or> k = 19 then z\<lparr>M := M v\<rparr>
           else if kind_amount k then z\<lparr>Amount := Amount v\<rparr>
           else if k = 6 then z\<lparr>AuthorityType := AuthorityType v, NewTokenAuthority := NewTokenAuthority v\<rparr>
           else if kind_checked k then z\<lparr>Amount := Amount v, Decimals := Decimals v\<rparr>
           else if k = 16 \<or> k = 18 then z\<lparr>TokenOwner := TokenOwner v\<rparr>
           else if k = 24 then z\<lparr>UIAmount := UIAmount v\<rparr>
           else if k = 45 then z\<lparr>OptionalAmount := OptionalAmount v\<rparr>
           else if k = 255 then z\<lparr>BatchData := BatchData v\<rparr>
           else z))"

lemma kind_only_fields [simp]:
  "TKind (kind_only k) = k" "Decimals (kind_only k) = 0" "M (kind_only k) = 0" "Amount (kind_only k) = 0"
  "MintAuthority (kind_only k) = zero_pubkey" "FreezeAuthority (kind_only k) = NoPubkey" "AuthorityType (kind_only k) = 0"
  "NewTokenAuthority (kind_only k) = NoPubkey" "TokenOwner (kind_only k) = zero_pubkey"
  "OptionalAmount (kind_only k) = NoU64" "UIAmount (kind_only k) = []" "BatchData (kind_only k) = []"
  by (simp_all add: kind_only_def)

lemma kind_classes [simp]:
  "\<not> kind_alone 0" "\<not> kind_alone 20" "\<not> kind_alone 2" "\<not> kind_alone 19" "\<not> kind_alone 6" "\<not> kind_alone 16"
  "\<not> kind_alone 18" "\<not> kind_alone 24" "\<not> kind_alone 45" "\<not> kind_alone 255"
  "\<not> kind_amount 0" "\<not> kind_amount 20" "\<not> kind_amount 2" "\<not> kind_amount 19" "\<not> kind_amount 6" "\<not> kind_amount 16"
  "\<not> kind_amount 18" "\<not> kind_amount 24" "\<not> kind_amount 45" "\<not> kind_amount 255"
  "\<not> kind_checked 0" "\<not> kind_checked 20" "\<not> kind_checked 2" "\<not> kind_checked 19" "\<not> kind_checked 6" "\<not> kind_checked 16"
  "\<not> kind_checked 18" "\<not> kind_checked 24" "\<not> kind_checked 45" "\<not> kind_checked 255"
  by (simp_all add: kind_alone_def kind_amount_def kind_checked_def)

lemma kind_exclusive:
  "kind_alone k \<Longrightarrow> \<not> kind_amount k \<and> \<not> kind_checked k \<and> k \<notin> {0, 20, 2, 19, 6, 16, 18, 24, 45, 255}"
  "kind_amount k \<Longrightarrow> \<not> kind_alone k \<and> \<not> kind_checked k \<and> k \<notin> {0, 20, 2, 19, 6, 16, 18, 24, 45, 255}"
  "kind_checked k \<Longrightarrow> \<not> kind_alone k \<and> \<not> kind_amount k \<and> k \<notin> {0, 20, 2, 19, 6, 16, 18, 24, 45, 255}"
  by (auto simp: kind_alone_def kind_amount_def kind_checked_def)

lemma length_options [simp]: "key_option x \<Longrightarrow> length (key_option_bytes x) = (if KeySet x then 33 else 1)"
  by (auto elim!: key_option_cases simp: key_option_bytes_def)

definition token_kind :: "TokenKind \<Rightarrow> bool" where
  "token_kind k \<longleftrightarrow> kind_alone k \<or> kind_amount k \<or> kind_checked k \<or> k \<in> {0, 20, 2, 19, 6, 16, 18, 24, 45, 255}"

lemma token_kind_cases:
  assumes "token_kind k"
  obtains (mint) "k = 0 \<or> k = 20" | (alone) "kind_alone k" | (multisig) "k = 2 \<or> k = 19" | (amount) "kind_amount k"
    | (authority) "k = 6" | (checked) "kind_checked k" | (account) "k = 16 \<or> k = 18" | (ui) "k = 24"
    | (unwrap) "k = 45" | (batch) "k = 255"
  using assms unfolding token_kind_def by blast

lemma decode_known: "decode_fields k rest = Inr vr \<Longrightarrow> token_kind k"
  unfolding token_kind_def decode_fields_def Let_def by (rule ccontr) simp

lemma encode_known: "EncodeTokenInstruction v = Inr data \<Longrightarrow> token_kind (TKind v)"
  unfolding token_kind_def EncodeTokenInstruction_def Let_def by (rule ccontr) simp

lemma list9: "length xs = 9 \<Longrightarrow> take 8 xs @ [xs ! 8] = xs"
  using take_Suc_conv_app_nth [of 8 xs] by simp

lemma list1: "length xs = Suc 0 \<Longrightarrow> [xs ! 0] = xs"
  by (cases xs) simp_all

lemma mint_pieces:
  assumes "34 \<le> length rest" and "drop 33 rest = tail"
  shows "rest = (rest ! 0) # get_slice 1 32 rest @ tail"
proof -
  obtain b bs where r: "rest = b # bs" using assms(1) by (cases rest) auto
  then have "take 32 bs @ drop 32 bs = bs" by simp
  then show ?thesis using assms(2) by (auto simp: r get_slice_def)
qed

lemma decode_encode:
  assumes d: "decode_fields k rest = Inr (v, [])"
  shows "token_fields v \<and> TKind v = k \<and> EncodeTokenInstruction v = Inr (k # rest)"
  using decode_known [OF d]
proof (cases rule: token_kind_cases)
  case mint
  then obtain fr where c: "consumeInstructionPubkeyOption (drop 33 rest) = Inr (fr, [])" and l: "34 \<le> length rest"
    and v: "v = kind_only k\<lparr>Decimals := rest ! 0, MintAuthority := get_slice 1 32 rest, FreezeAuthority := fr\<rparr>"
    using d by (elim disjE; simp add: decode_fields_def and_then_Inr_conv split: if_split_asm prod.split_asm) fastforce+
  have o': "key_option fr" "drop 33 rest = key_option_bytes fr" using c by (simp_all add: consume_option_iff)
  have "rest = rest ! 0 # get_slice 1 32 rest @ key_option_bytes fr" by (rule mint_pieces [OF l o'(2)])
  then show ?thesis
    using mint o'(1) l by (elim disjE; simp add: v token_fields_def Let_def EncodeTokenInstruction_def append_option_eq)
next
  case alone
  then show ?thesis using d kind_exclusive(1) [OF alone]
    by (auto simp: decode_fields_def token_fields_def Let_def EncodeTokenInstruction_def)
next
  case multisig
  then have l: "length rest = 1" and v: "v = kind_only k\<lparr>M := rest ! 0\<rparr>"
    using d by (elim disjE; simp add: decode_fields_def split: if_split_asm)+
  show ?thesis using multisig l list1 [of rest]
    by (elim disjE; simp add: v token_fields_def Let_def EncodeTokenInstruction_def)
next
  case amount
  then have l: "length rest = 8" and v: "v = kind_only k\<lparr>Amount := le_word rest\<rparr>"
    using d kind_exclusive(2) [OF amount] by (auto simp: decode_fields_def split: if_splits)
  show ?thesis using amount l kind_exclusive(2) [OF amount]
    by (auto simp: v token_fields_def Let_def EncodeTokenInstruction_def amount_data_eq codec_simps)
next
  case authority
  then obtain na where c: "consumeInstructionPubkeyOption (drop 1 rest) = Inr (na, [])"
    and l: "\<not> length rest < 2" "\<not> rest ! 0 > 3"
    and v: "v = kind_only k\<lparr>AuthorityType := rest ! 0, NewTokenAuthority := na\<rparr>"
    using d by (simp add: decode_fields_def and_then_Inr_conv split: if_split_asm prod.split_asm) fastforce
  obtain b bs where rest: "rest = b # bs" using l(1) by (cases rest) auto
  show ?thesis using authority l c
    by (auto simp: v rest token_fields_def Let_def EncodeTokenInstruction_def append_option_eq consume_option_iff)
next
  case checked
  then have l: "length rest = 9" and v: "v = kind_only k\<lparr>Amount := le_word (take 8 rest), Decimals := rest ! 8\<rparr>"
    using d kind_exclusive(3) [OF checked] by (auto simp: decode_fields_def split: if_splits)
  show ?thesis using checked l kind_exclusive(3) [OF checked] list9 [OF l]
    by (auto simp: v token_fields_def Let_def EncodeTokenInstruction_def amount_data_eq codec_simps)
next
  case account
  then have l: "length rest = 32" and v: "v = kind_only k\<lparr>TokenOwner := rest\<rparr>"
    using d by (elim disjE; simp add: decode_fields_def split: if_split_asm)+
  show ?thesis using account l by (elim disjE; simp add: v token_fields_def Let_def EncodeTokenInstruction_def)
next
  case ui
  then have l: "ValidString rest" and v: "v = kind_only k\<lparr>UIAmount := rest\<rparr>"
    using d by (simp_all add: decode_fields_def split: if_split_asm)
  show ?thesis using ui l by (simp add: v token_fields_def Let_def EncodeTokenInstruction_def)
next
  case unwrap
  then have "length rest = 1 \<and> rest ! 0 = 0 \<and> v = kind_only k \<or>
      length rest = 9 \<and> rest ! 0 = 1 \<and> v = kind_only k\<lparr>OptionalAmount := SomeU64 (le_word (drop 1 rest))\<rparr>"
    using d by (simp add: decode_fields_def Let_def split: if_split_asm)
  then consider "rest = [0]" "v = kind_only k"
    | "length rest = 9" "rest ! 0 = 1" "v = kind_only k\<lparr>OptionalAmount := SomeU64 (le_word (drop 1 rest))\<rparr>"
    by (cases rest) auto
  then show ?thesis
  proof cases
    case 1
    then show ?thesis using unwrap by (simp add: token_fields_def Let_def EncodeTokenInstruction_def)
  next
    case 2
    obtain b bs where rest: "rest = b # bs" using 2(1) by (cases rest) auto
    show ?thesis using unwrap 2 by (auto simp: rest token_fields_def Let_def EncodeTokenInstruction_def codec_simps)
  qed
next
  case batch
  then show ?thesis using d by (auto simp: decode_fields_def token_fields_def Let_def EncodeTokenInstruction_def)
qed

lemma encode_decode:
  assumes f: "token_fields v" and e: "EncodeTokenInstruction v = Inr data"
  shows "data = TKind v # tl data \<and> decode_fields (TKind v) (tl data) = Inr (v, [])"
proof -
  define k where "k = TKind v"
  have ok: "length (MintAuthority v) = 32" "length (TokenOwner v) = 32" "key_option (FreezeAuthority v)"
      "key_option (NewTokenAuthority v)" "u64_option (OptionalAmount v)"
    and veq: "v = (if k = 0 \<or> k = 20 then
             kind_only k\<lparr>Decimals := Decimals v, MintAuthority := MintAuthority v, FreezeAuthority := FreezeAuthority v\<rparr>
           else if k = 2 \<or> k = 19 then kind_only k\<lparr>M := M v\<rparr>
           else if kind_amount k then kind_only k\<lparr>Amount := Amount v\<rparr>
           else if k = 6 then kind_only k\<lparr>AuthorityType := AuthorityType v, NewTokenAuthority := NewTokenAuthority v\<rparr>
           else if kind_checked k then kind_only k\<lparr>Amount := Amount v, Decimals := Decimals v\<rparr>
           else if k = 16 \<or> k = 18 then kind_only k\<lparr>TokenOwner := TokenOwner v\<rparr>
           else if k = 24 then kind_only k\<lparr>UIAmount := UIAmount v\<rparr>
           else if k = 45 then kind_only k\<lparr>OptionalAmount := OptionalAmount v\<rparr>
           else if k = 255 then kind_only k\<lparr>BatchData := BatchData v\<rparr>
           else kind_only k)"
    using f unfolding token_fields_def Let_def k_def [symmetric] by blast+
  note v = veq [symmetric]
  have consume: "consumeInstructionPubkeyOption (key_option_bytes x) = Inr (x, [])" if "key_option x" for x
    using that by (simp add: consume_option_iff)
  have finish: ?thesis if "data = k # rest" "decode_fields k rest = Inr (v, [])" for rest
    using that by (simp add: k_def)
  note enc = EncodeTokenInstruction_def Let_def k_def [symmetric]
  have known: "token_kind k" unfolding k_def by (rule encode_known [OF e])
  show ?thesis
    using known
  proof (cases rule: token_kind_cases)
    case mint
    show ?thesis
    proof (rule finish)
      show "data = k # Decimals v # MintAuthority v @ key_option_bytes (FreezeAuthority v)"
        using mint e ok by (elim disjE; simp add: enc append_option_eq)
      show "decode_fields k (Decimals v # MintAuthority v @ key_option_bytes (FreezeAuthority v)) = Inr (v, [])"
        using mint v ok consume [OF ok(3)] by (elim disjE; simp add: decode_fields_def get_slice_def)
    qed
  next
    case alone
    then show ?thesis using e v kind_exclusive(1) [OF alone] by (intro finish [of "[]"]; simp add: enc decode_fields_def)
  next
    case multisig
    then show ?thesis using e v by (intro finish [of "[M v]"]; elim disjE; simp add: enc decode_fields_def)
  next
    case amount
    then show ?thesis using e v kind_exclusive(2) [OF amount]
      by (intro finish [of "le_bytes 8 (Amount v)"]; simp add: enc decode_fields_def amount_data_eq codec_simps)
  next
    case authority
    then show ?thesis using e v ok consume [OF ok(4)]
      by (intro finish [of "AuthorityType v # key_option_bytes (NewTokenAuthority v)"];
          simp add: enc decode_fields_def append_option_eq split: if_split_asm)
  next
    case checked
    then show ?thesis using e v kind_exclusive(3) [OF checked]
      by (intro finish [of "le_bytes 8 (Amount v) @ [Decimals v]"];
          simp add: enc decode_fields_def amount_data_eq codec_simps nth_append)
  next
    case account
    then show ?thesis using e v ok by (intro finish [of "TokenOwner v"]; elim disjE; simp add: enc decode_fields_def)
  next
    case ui
    then show ?thesis using e v
      by (intro finish [of "UIAmount v"]; simp add: enc decode_fields_def split: if_split_asm)
  next
    case unwrap
    show ?thesis using ok(5)
    proof (cases rule: u64_option_cases)
      case 1
      then show ?thesis using e v unwrap by (intro finish [of "[0]"]; simp add: enc decode_fields_def kind_only_def)
    next
      case (2 w)
      then show ?thesis using e v unwrap
        by (intro finish [of "1 # le_bytes 8 w"]; simp add: enc decode_fields_def codec_simps)
    qed
  next
    case batch
    then show ?thesis using e v by (intro finish [of "BatchData v"]; simp add: enc decode_fields_def)
  qed
qed

lemma token_instruction_iff:
  "DecodeTokenInstruction data = Inr v \<longleftrightarrow> token_fields v \<and> EncodeTokenInstruction v = Inr data"
proof
  assume "DecodeTokenInstruction data = Inr v"
  then obtain k rest where data: "data = k # rest" and d: "decode_fields k rest = Inr (v, [])"
    by (cases data) (auto simp: DecodeTokenInstruction_def finish_decode_def and_then_Inr_conv split: if_splits)
  show "token_fields v \<and> EncodeTokenInstruction v = Inr data" using decode_encode [OF d] data by simp
next
  assume "token_fields v \<and> EncodeTokenInstruction v = Inr data"
  then have d: "data = TKind v # tl data" "decode_fields (TKind v) (tl data) = Inr (v, [])"
    using encode_decode by blast+
  show "DecodeTokenInstruction data = Inr v"
    by (subst d(1)) (simp add: DecodeTokenInstruction_def finish_decode_def d(2))
qed

end
