(* ===== verification/SdkTokenClaims.thy ===== *)
theory SdkTokenClaims
  imports SdkTokenFacts
begin

text \<open>
  What the classic SPL Token client of \<open>src/sdk/token\<close> promises: one encoding per instruction, account
  states that survive encoding, and the accounts a builder lists.
\<close>

section \<open>Account states\<close>

definition state_key_bytes :: "OptionalPubkey \<Rightarrow> bytes" where
  "state_key_bytes x = (if KeySet x then le_bytes 4 (1 :: u32) @ KeyValue x else replicate 36 0)"

definition state_u64_bytes :: "OptionalU64 \<Rightarrow> bytes" where
  "state_u64_bytes x = (if U64Set x then le_bytes 4 (1 :: u32) @ le_bytes 8 (U64Value x) else replicate 12 0)"

lemma zeros_36: "replicate 36 (0 :: u8) = replicate 4 0 @ replicate 32 0"
  by (simp flip: replicate_add)

lemma zeros_12: "replicate 12 (0 :: u8) = replicate 4 0 @ replicate 8 0"
  by (simp flip: replicate_add)

lemma le_word_zeros [simp]: "le_word (replicate n 0) = 0"
  by (induction n) simp_all

lemma get_slice_Cons: "0 < off \<Longrightarrow> get_slice off n (x # xs) = get_slice (off - 1) n xs"
  by (cases off) (simp_all add: get_slice_def)

lemma length_state_bytes [simp]:
  "key_option x \<Longrightarrow> length (state_key_bytes x) = 36" "length (state_u64_bytes y) = 12"
  by (auto elim!: key_option_cases simp: state_key_bytes_def state_u64_bytes_def)

lemma encode_state_options:
  "key_option x \<Longrightarrow> encodeOptionalPubkeyState x (replicate 36 0) = Inr (state_key_bytes x)"
  "encodeOptionalU64State y (replicate 12 0) = Inr (state_u64_bytes y)"
  by (auto elim!: key_option_cases simp: encodeOptionalPubkeyState_def encodeOptionalU64State_def state_key_bytes_def
      state_u64_bytes_def zeros_36 zeros_12 put_head put_slice_right put_slice_all put_u64_def)

lemma decode_state_options:
  "key_option x \<Longrightarrow> decodeOptionalPubkeyState (state_key_bytes x) = Inr x"
  "u64_option y \<Longrightarrow> decodeOptionalU64State (state_u64_bytes y) = Inr y"
  by (auto elim!: key_option_cases u64_option_cases simp: decodeOptionalPubkeyState_def decodeOptionalU64State_def
      state_key_bytes_def state_u64_bytes_def codec_simps Let_def zeros_36 zeros_12)

lemma write_through_parts:
  assumes "length pre = off" and "length part = len" and "f part = Inr part'" and "length part' = len"
  shows "write_through off len f (pre @ part @ post) = Inr (pre @ part' @ post)"
  using assms by (simp add: write_through_def get_slice_right get_slice_left get_slice_all put_slice_right put_slice_left
      put_slice_all)

definition mint_ok :: "Mint \<Rightarrow> bool" where
  "mint_ok m \<longleftrightarrow> key_option (MMintAuthority m) \<and> key_option (MFreezeAuthority m)"

definition account_ok :: "TokenAccount \<Rightarrow> bool" where
  "account_ok a \<longleftrightarrow> length (AMint a) = 32 \<and> length (AOwner a) = 32 \<and> key_option (Delegate a) \<and>
     u64_option (IsNative a) \<and> key_option (CloseAuthority a)"

definition multisig_ok :: "Multisig \<Rightarrow> bool" where
  "multisig_ok s \<longleftrightarrow> length (Signers s) = 11 \<and> (\<forall>k \<in> set (Signers s). length k = 32)"

lemma EncodeMint_eq:
  assumes "mint_ok m"
  shows "EncodeMint m = Inr (state_key_bytes (MMintAuthority m) @ le_bytes 8 (Supply m) @
    [MDecimals m, of_bool (Initialized m)] @ state_key_bytes (MFreezeAuthority m))"
proof -
  have z: "replicate 82 (0 :: u8) = [] @ replicate 36 0 @ (replicate 8 0 @ [0, 0] @ replicate 36 0)"
    by (simp flip: replicate_add replicate_Suc)
  have ok: "key_option (MMintAuthority m)" "key_option (MFreezeAuthority m)" using assms by (simp_all add: mint_ok_def)
  let ?a = "state_key_bytes (MMintAuthority m)"
  let ?d = "?a @ le_bytes 8 (Supply m) @ [MDecimals m, of_bool (Initialized m)]"
  have "EncodeMint m = write_through 46 36 (encodeOptionalPubkeyState (MFreezeAuthority m)) (?d @ replicate 36 0 @ [])"
    unfolding EncodeMint_def z
    by (subst write_through_parts [where part' = ?a])
      (simp_all add: ok encode_state_options Let_def put_u64_def put_slice_right put_head list_update_append)
  also have "\<dots> = Inr (?d @ state_key_bytes (MFreezeAuthority m) @ [])"
    by (rule write_through_parts) (simp_all add: ok encode_state_options)
  finally show ?thesis by simp
qed

lemma decode_encode_mint:
  assumes "mint_ok m"
  shows "and_then (EncodeMint m) DecodeMint = Inr m"
proof -
  have ok: "key_option (MMintAuthority m)" "key_option (MFreezeAuthority m)" using assms by (simp_all add: mint_ok_def)
  show ?thesis
    by (simp add: EncodeMint_eq [OF assms] DecodeMint_def ok get_slice_left get_slice_right get_slice_all
        get_slice_Cons decode_state_options nth_append decodeBool_def codec_simps)
qed

lemma EncodeAccount_eq:
  assumes ok: "account_ok a" and small: "\<not> State a > 2"
  shows "EncodeAccount a = Inr (AMint a @ AOwner a @ le_bytes 8 (AAmount a) @ state_key_bytes (Delegate a) @ [State a] @
    state_u64_bytes (IsNative a) @ le_bytes 8 (DelegatedAmount a) @ state_key_bytes (CloseAuthority a))"
proof -
  have l: "length (AMint a) = 32" "length (AOwner a) = 32" "key_option (Delegate a)" "key_option (CloseAuthority a)"
    using ok by (simp_all add: account_ok_def)
  let ?head = "AMint a @ AOwner a @ le_bytes 8 (AAmount a)"
  let ?tail = "[0] @ replicate 12 0 @ replicate 8 0 @ replicate 36 0"
  have z: "replicate 165 (0 :: u8) = replicate 32 0 @ replicate 32 0 @ replicate 8 0 @ replicate 36 0 @ ?tail"
    by (simp flip: replicate_add replicate_Suc)
  have h: "put_u64 64 (AAmount a) (put_slice 32 (AOwner a) (put_slice 0 (AMint a) (replicate 165 0))) =
    ?head @ replicate 36 0 @ ?tail"
    unfolding z by (simp add: l put_u64_def put_slice_right put_head)
  let ?d = "?head @ state_key_bytes (Delegate a)"
  have 1: "write_through 72 36 (encodeOptionalPubkeyState (Delegate a)) (?head @ replicate 36 0 @ ?tail) = Inr (?d @ ?tail)"
    by (subst write_through_parts [where part' = "state_key_bytes (Delegate a)"]) (simp_all add: l encode_state_options)
  have 2: "(?d @ ?tail)[108 := State a] = (?d @ [State a]) @ replicate 12 0 @ replicate 8 0 @ replicate 36 0"
    by (simp add: l list_update_append)
  let ?n = "(?d @ [State a]) @ state_u64_bytes (IsNative a)"
  have 3: "write_through 109 12 (encodeOptionalU64State (IsNative a)) ((?d @ [State a]) @ replicate 12 0 @ replicate 8 0 @ replicate 36 0)
      = Inr (?n @ replicate 8 0 @ replicate 36 0)"
    by (subst write_through_parts [where part' = "state_u64_bytes (IsNative a)"]) (simp_all add: l encode_state_options)
  have 4: "put_u64 121 (DelegatedAmount a) (?n @ replicate 8 0 @ replicate 36 0) =
      (?n @ le_bytes 8 (DelegatedAmount a)) @ replicate 36 0 @ []"
    by (simp add: l put_u64_def put_slice_right put_slice_Cons put_head)
  have 5: "write_through 129 36 (encodeOptionalPubkeyState (CloseAuthority a))
      ((?n @ le_bytes 8 (DelegatedAmount a)) @ replicate 36 0 @ []) =
      Inr ((?n @ le_bytes 8 (DelegatedAmount a)) @ state_key_bytes (CloseAuthority a) @ [])"
    by (rule write_through_parts) (simp_all add: l encode_state_options)
  have "EncodeAccount a = Inr ((?n @ le_bytes 8 (DelegatedAmount a)) @ state_key_bytes (CloseAuthority a) @ [])"
    using small unfolding EncodeAccount_def Let_def h by (simp only: 1 2 3 4 5 and_then_simps if_False)
  then show ?thesis by simp
qed

lemma decode_encode_account:
  assumes "account_ok a"
  shows "and_then (EncodeAccount a) DecodeAccount = (if State a > 2 then Inl ErrInvalidState else Inr a)"
proof (cases "State a > 2")
  case True
  then show ?thesis by (simp add: EncodeAccount_def)
next
  case False
  have ok: "length (AMint a) = 32" "length (AOwner a) = 32" "key_option (Delegate a)" "key_option (CloseAuthority a)"
    "u64_option (IsNative a)"
    using assms by (simp_all add: account_ok_def)
  show ?thesis using False
    by (simp add: EncodeAccount_eq [OF assms False] DecodeAccount_def ok get_slice_left get_slice_right get_slice_all
        get_slice_Cons decode_state_options nth_append codec_simps)
qed

lemma length_concat_32: "\<forall>k \<in> set ks. length k = 32 \<Longrightarrow> length (concat ks) = length ks * 32"
  by (induction ks) simp_all

lemma put_signers:
  fixes ks :: "bytes list"
  assumes "\<forall>k \<in> set ks. length k = 32" and "length pre = p"
  shows "n \<le> length ks \<Longrightarrow> fold (\<lambda>i data. put_slice (p + i * 32) (ks ! i) data) [0..<n] (pre @ replicate (length ks * 32) 0) =
    pre @ concat (take n ks) @ replicate ((length ks - n) * 32) 0"
proof (induction n)
  case (Suc n)
  have len: "length (concat (take n ks)) = n * 32"
    using length_concat_32 [of "take n ks"] assms(1) Suc.prems by (auto dest: in_set_takeD)
  have z: "replicate ((length ks - n) * 32) (0 :: u8) = replicate 32 0 @ replicate ((length ks - Suc n) * 32) 0"
    using Suc.prems by (simp add: Suc_diff_le algebra_simps flip: replicate_add)
  have k: "length (ks ! n) = 32" using assms(1) Suc.prems by simp
  let ?pre = "pre @ concat (take n ks)"
  have "fold (\<lambda>i data. put_slice (p + i * 32) (ks ! i) data) [0..<Suc n] (pre @ replicate (length ks * 32) 0) =
      put_slice (p + n * 32) (ks ! n) (?pre @ replicate 32 0 @ replicate ((length ks - Suc n) * 32) 0)"
    using Suc.IH Suc.prems unfolding z [symmetric] by simp
  also have "\<dots> = ?pre @ put_slice 0 (ks ! n) (replicate 32 0 @ replicate ((length ks - Suc n) * 32) 0)"
    by (subst put_slice_right) (simp_all add: len assms(2))
  also have "\<dots> = ?pre @ ks ! n @ replicate ((length ks - Suc n) * 32) 0"
    by (subst put_head) (simp_all add: k)
  finally show ?case using Suc.prems by (simp add: take_Suc_conv_app_nth)
qed simp

lemma get_signers:
  "\<forall>k \<in> set ks. length k = 32 \<Longrightarrow> map (\<lambda>i. get_slice (i * 32) 32 (concat ks)) [0..<length ks] = ks"
proof (induction ks)
  case (Cons k ks)
  have "map (\<lambda>i. get_slice (i * 32) 32 (concat (k # ks))) [0..<length (k # ks)] =
    get_slice 0 32 (k @ concat ks) # map (\<lambda>i. get_slice (i * 32) 32 (concat ks)) [0..<length ks]"
    using Cons.prems by (simp add: upt_conv_Cons map_Suc_upt [symmetric] get_slice_right del: upt_Suc)
  then show ?case using Cons by (simp add: get_slice_left get_slice_all)
qed simp


lemma EncodeMultisig_eq:
  assumes "multisig_ok s"
  shows "EncodeMultisig s = Inr ([MsM s, MsN s, of_bool (MsInitialized s)] @ concat (Signers s))"
proof -
  have ok: "\<forall>k \<in> set (Signers s). length k = 32" and n: "length (Signers s) = 11"
    using assms by (simp_all add: multisig_ok_def)
  let ?pre = "[MsM s, MsN s, of_bool (MsInitialized s)]"
  have z: "replicate 355 (0 :: u8) = [0, 0, 0] @ replicate (11 * 32) 0"
    by (simp flip: replicate_Suc)
  have start: "(let data = (replicate 355 0)[0 := MsM s, 1 := MsN s] in
      if MsInitialized s then data[2 := 1] else data) = ?pre @ replicate (11 * 32) 0"
    unfolding z by simp
  have "EncodeMultisig s = Inr (fold (\<lambda>i data. put_slice (3 + i * 32) (Signers s ! i) data) [0..<11] (?pre @ replicate (11 * 32) 0))"
    unfolding EncodeMultisig_def start [symmetric] Let_def ..
  also have "\<dots> = Inr (?pre @ concat (Signers s))"
    using put_signers [OF ok, of ?pre 3 11] by (simp add: n)
  finally show ?thesis .
qed

lemma decode_encode_multisig:
  assumes "multisig_ok s"
  shows "and_then (EncodeMultisig s) DecodeMultisig = Inr s"
proof -
  have ok: "\<forall>k \<in> set (Signers s). length k = 32" and n: "length (Signers s) = 11"
    using assms by (simp_all add: multisig_ok_def)
  have "get_slice (3 + i * 32) 32 (a # b # c # concat (Signers s)) = get_slice (i * 32) 32 (concat (Signers s))" for a b c i
    by (simp add: get_slice_def numeral_3_eq_3)
  then have signers: "map (\<lambda>i. get_slice (3 + i * 32) 32 (a # b # c # concat (Signers s))) [0..<11] = Signers s" for a b c
    using get_signers [OF ok] by (simp add: n)
  show ?thesis
    unfolding EncodeMultisig_eq [OF assms] and_then_simps DecodeMultisig_def append_Cons append_Nil signers
    by (simp add: length_concat_32 [OF ok] n decodeBool_def)
qed

text \<open>
  C25.  Every instruction of the SPL Token program has exactly one encoding: some bytes decode to \<open>v\<close> if and
  only if \<open>v\<close> is well formed (keys of 32 bytes, nothing in the fields its kind does not have) and those bytes are what
  the encoder writes for \<open>v\<close>.  Truncated, overlong or malformed data, unknown kinds, unknown authority types
  and text that is not UTF-8 are refused.
\<close>

theorem DecodeTokenInstruction_iff_Encode:
  "DecodeTokenInstruction data = Inr v \<longleftrightarrow> token_fields v \<and> EncodeTokenInstruction v = Inr data"
  by (rule token_instruction_iff)

text \<open>
  C26.  The states of the SPL Token program survive encoding: a mint, an account and a multisignature decode
  from their own encoding to themselves; the only state the encoders refuse is an account whose state tag is
  above \<open>AccountFrozen\<close>.
\<close>

theorem token_states_roundtrip:
  assumes "mint_ok m" and "account_ok a" and "multisig_ok s"
  shows "and_then (EncodeMint m) DecodeMint = Inr m \<and>
    and_then (EncodeAccount a) DecodeAccount = (if State a > 2 then Inl ErrInvalidState else Inr a) \<and>
    and_then (EncodeMultisig s) DecodeMultisig = Inr s"
  using decode_encode_mint decode_encode_account decode_encode_multisig assms by blast

theorem token_states_roundtrip_witness:
  "and_then (EncodeMint \<lparr>MMintAuthority = SomePubkey (replicate 32 7), Supply = 5, MDecimals = 9, Initialized = True,
      MFreezeAuthority = NoPubkey\<rparr>) DecodeMint =
    Inr \<lparr>MMintAuthority = SomePubkey (replicate 32 7), Supply = 5, MDecimals = 9, Initialized = True,
      MFreezeAuthority = NoPubkey\<rparr>"
  using token_states_roundtrip
    [of "\<lparr>MMintAuthority = SomePubkey (replicate 32 7), Supply = 5, MDecimals = 9, Initialized = True, MFreezeAuthority = NoPubkey\<rparr>"
      "\<lparr>AMint = replicate 32 1, AOwner = replicate 32 2, AAmount = 3, Delegate = NoPubkey, State = 1, IsNative = SomeU64 4,
        DelegatedAmount = 0, CloseAuthority = NoPubkey\<rparr>"
      "\<lparr>MsM = 1, MsN = 2, MsInitialized = True, Signers = replicate 11 (replicate 32 3)\<rparr>"]
  by (simp add: mint_ok_def account_ok_def multisig_ok_def)

end
