(* ===== verification/SdkToken2022.thy ===== *)
theory SdkToken2022
  imports SdkToken
begin

text \<open>
  \<open>src/sdk/token2022\<close>: account states, the list of extensions behind them and the transfer-fee extension.

  The base states are types of their own, converted to and from those of \<open>src/sdk/token\<close>.  A list of extensions is read from
  the part of the buffer that is left (\<open>tlv[offset:]\<close>); \<open>bits.Mul64\<close> and \<open>bits.Div64\<close> are written out on numbers.
\<close>

datatype token22_error =
    ErrInvalidState22 | ErrInvalidExtension | ErrExtensionBase | ErrDuplicateExtension | ErrVariableLength
  | ErrInvalidInstruction22 | ErrInvalidSigners22 | ErrClassic token_error

definition Token2022ProgramID :: pubkey where
  "Token2022ProgramID = the (MustParsePubkey (string_bytes ''TokenzQdBNbLqP5VEhdkAS6EPFLC1PHnBqCXEpPxuEb''))"

definition NativeMintID :: pubkey where
  "NativeMintID = the (MustParsePubkey (string_bytes ''9pan9bMn5HatX4EJdBwg9VgCa7Uz5HL8N1m5D3NdXejP''))"

record OptionalPubkey22 =
  KeySet22 :: bool
  KeyValue22 :: pubkey

definition SomePubkey22 :: "pubkey \<Rightarrow> OptionalPubkey22" where
  "SomePubkey22 v = \<lparr>KeySet22 = True, KeyValue22 = v\<rparr>"

definition NoPubkey22 :: OptionalPubkey22 where
  "NoPubkey22 = \<lparr>KeySet22 = False, KeyValue22 = zero_pubkey\<rparr>"

record OptionalU64_22 =
  U64Set22 :: bool
  U64Value22 :: u64

section \<open>Base states\<close>

record Mint22 =
  MMintAuthority22 :: OptionalPubkey22
  Supply22 :: u64
  MDecimals22 :: u8
  Initialized22 :: bool
  MFreezeAuthority22 :: OptionalPubkey22

record Account22 =
  AMint22 :: pubkey
  AOwner22 :: pubkey
  AAmount22 :: u64
  Delegate22 :: OptionalPubkey22
  State22 :: u8
  IsNative22 :: OptionalU64_22
  DelegatedAmount22 :: u64
  CloseAuthority22 :: OptionalPubkey22

record Multisig22 =
  MsM22 :: u8
  MsN22 :: u8
  MsInitialized22 :: bool
  Signers22 :: "pubkey list"

definition optionFromClassic :: "OptionalPubkey \<Rightarrow> OptionalPubkey22" where
  "optionFromClassic v = \<lparr>KeySet22 = KeySet v, KeyValue22 = KeyValue v\<rparr>"

definition classicOption :: "OptionalPubkey22 \<Rightarrow> OptionalPubkey" where
  "classicOption v = \<lparr>KeySet = KeySet22 v, KeyValue = KeyValue22 v\<rparr>"

definition mintFromClassic :: "Mint \<Rightarrow> Mint22" where
  "mintFromClassic v =
     \<lparr>MMintAuthority22 = optionFromClassic (MMintAuthority v), Supply22 = Supply v, MDecimals22 = MDecimals v,
      Initialized22 = Initialized v, MFreezeAuthority22 = optionFromClassic (MFreezeAuthority v)\<rparr>"

definition classicMint :: "Mint22 \<Rightarrow> Mint" where
  "classicMint v =
     \<lparr>MMintAuthority = classicOption (MMintAuthority22 v), Supply = Supply22 v, MDecimals = MDecimals22 v,
      Initialized = Initialized22 v, MFreezeAuthority = classicOption (MFreezeAuthority22 v)\<rparr>"

definition accountFromClassic :: "TokenAccount \<Rightarrow> Account22" where
  "accountFromClassic v =
     \<lparr>AMint22 = AMint v, AOwner22 = AOwner v, AAmount22 = AAmount v, Delegate22 = optionFromClassic (Delegate v),
      State22 = State v, IsNative22 = \<lparr>U64Set22 = U64Set (IsNative v), U64Value22 = U64Value (IsNative v)\<rparr>,
      DelegatedAmount22 = DelegatedAmount v, CloseAuthority22 = optionFromClassic (CloseAuthority v)\<rparr>"

definition classicAccount :: "Account22 \<Rightarrow> TokenAccount" where
  "classicAccount v =
     \<lparr>AMint = AMint22 v, AOwner = AOwner22 v, AAmount = AAmount22 v, Delegate = classicOption (Delegate22 v),
      State = State22 v, IsNative = \<lparr>U64Set = U64Set22 (IsNative22 v), U64Value = U64Value22 (IsNative22 v)\<rparr>,
      DelegatedAmount = DelegatedAmount22 v, CloseAuthority = classicOption (CloseAuthority22 v)\<rparr>"

text \<open>Every error of the classic codec becomes \<open>ErrInvalidState\<close>.\<close>

definition invalid_state :: "token_error + 'a \<Rightarrow> token22_error + 'a" where
  "invalid_state r = (case r of Inl e \<Rightarrow> Inl ErrInvalidState22 | Inr x \<Rightarrow> Inr x)"

definition DecodeMint22 :: "bytes \<Rightarrow> token22_error + Mint22" where
  "DecodeMint22 data = and_then (invalid_state (DecodeMint data)) (\<lambda>base. Inr (mintFromClassic base))"

definition EncodeMint22 :: "Mint22 \<Rightarrow> token22_error + bytes" where
  "EncodeMint22 mint = invalid_state (EncodeMint (classicMint mint))"

definition DecodeAccount22 :: "bytes \<Rightarrow> token22_error + Account22" where
  "DecodeAccount22 data = and_then (invalid_state (DecodeAccount data)) (\<lambda>base. Inr (accountFromClassic base))"

definition EncodeAccount22 :: "Account22 \<Rightarrow> token22_error + bytes" where
  "EncodeAccount22 account = invalid_state (EncodeAccount (classicAccount account))"

definition DecodeMultisig22 :: "bytes \<Rightarrow> token22_error + Multisig22" where
  "DecodeMultisig22 data =
     and_then (invalid_state (DecodeMultisig data)) (\<lambda>base.
       Inr \<lparr>MsM22 = MsM base, MsN22 = MsN base, MsInitialized22 = MsInitialized base, Signers22 = Signers base\<rparr>)"

definition EncodeMultisig22 :: "Multisig22 \<Rightarrow> token22_error + bytes" where
  "EncodeMultisig22 m =
     invalid_state (EncodeMultisig
       \<lparr>MsM = MsM22 m, MsN = MsN22 m, MsInitialized = MsInitialized22 m, Signers = Signers22 m\<rparr>)"

section \<open>Extensions\<close>

abbreviation (input) extensionAccountHeaderSize :: nat where "extensionAccountHeaderSize \<equiv> 166"

type_synonym BaseAccountType = u8

abbreviation (input) BaseUninitialized :: BaseAccountType where "BaseUninitialized \<equiv> 0"
abbreviation (input) BaseMint :: BaseAccountType where "BaseMint \<equiv> 1"
abbreviation (input) BaseAccount :: BaseAccountType where "BaseAccount \<equiv> 2"

type_synonym ExtensionType = u16

abbreviation (input) ExtensionUninitialized :: ExtensionType where "ExtensionUninitialized \<equiv> 0"
abbreviation (input) ExtensionTransferFeeConfig :: ExtensionType where "ExtensionTransferFeeConfig \<equiv> 1"
abbreviation (input) ExtensionTransferFeeAmount :: ExtensionType where "ExtensionTransferFeeAmount \<equiv> 2"
abbreviation (input) ExtensionMintCloseAuthority :: ExtensionType where "ExtensionMintCloseAuthority \<equiv> 3"
abbreviation (input) ExtensionConfidentialTransferMint :: ExtensionType where "ExtensionConfidentialTransferMint \<equiv> 4"
abbreviation (input) ExtensionConfidentialTransferAccount :: ExtensionType where "ExtensionConfidentialTransferAccount \<equiv> 5"
abbreviation (input) ExtensionDefaultAccountState :: ExtensionType where "ExtensionDefaultAccountState \<equiv> 6"
abbreviation (input) ExtensionImmutableOwner :: ExtensionType where "ExtensionImmutableOwner \<equiv> 7"
abbreviation (input) ExtensionMemoTransfer :: ExtensionType where "ExtensionMemoTransfer \<equiv> 8"
abbreviation (input) ExtensionNonTransferable :: ExtensionType where "ExtensionNonTransferable \<equiv> 9"
abbreviation (input) ExtensionInterestBearingConfig :: ExtensionType where "ExtensionInterestBearingConfig \<equiv> 10"
abbreviation (input) ExtensionCPIGuard :: ExtensionType where "ExtensionCPIGuard \<equiv> 11"
abbreviation (input) ExtensionPermanentDelegate :: ExtensionType where "ExtensionPermanentDelegate \<equiv> 12"
abbreviation (input) ExtensionNonTransferableAccount :: ExtensionType where "ExtensionNonTransferableAccount \<equiv> 13"
abbreviation (input) ExtensionTransferHook :: ExtensionType where "ExtensionTransferHook \<equiv> 14"
abbreviation (input) ExtensionTransferHookAccount :: ExtensionType where "ExtensionTransferHookAccount \<equiv> 15"
abbreviation (input) ExtensionConfidentialTransferFeeConfig :: ExtensionType where "ExtensionConfidentialTransferFeeConfig \<equiv> 16"
abbreviation (input) ExtensionConfidentialTransferFeeAmount :: ExtensionType where "ExtensionConfidentialTransferFeeAmount \<equiv> 17"
abbreviation (input) ExtensionMetadataPointer :: ExtensionType where "ExtensionMetadataPointer \<equiv> 18"
abbreviation (input) ExtensionTokenMetadata :: ExtensionType where "ExtensionTokenMetadata \<equiv> 19"
abbreviation (input) ExtensionGroupPointer :: ExtensionType where "ExtensionGroupPointer \<equiv> 20"
abbreviation (input) ExtensionTokenGroup :: ExtensionType where "ExtensionTokenGroup \<equiv> 21"
abbreviation (input) ExtensionGroupMemberPointer :: ExtensionType where "ExtensionGroupMemberPointer \<equiv> 22"
abbreviation (input) ExtensionTokenGroupMember :: ExtensionType where "ExtensionTokenGroupMember \<equiv> 23"
abbreviation (input) ExtensionConfidentialMintBurn :: ExtensionType where "ExtensionConfidentialMintBurn \<equiv> 24"
abbreviation (input) ExtensionScaledUIAmount :: ExtensionType where "ExtensionScaledUIAmount \<equiv> 25"
abbreviation (input) ExtensionPausable :: ExtensionType where "ExtensionPausable \<equiv> 26"
abbreviation (input) ExtensionPausableAccount :: ExtensionType where "ExtensionPausableAccount \<equiv> 27"
abbreviation (input) ExtensionPermissionedBurn :: ExtensionType where "ExtensionPermissionedBurn \<equiv> 28"
abbreviation (input) maxExtensionType :: ExtensionType where "maxExtensionType \<equiv> 28"

record Extension =
  EType :: ExtensionType
  EData :: bytes

record MintWithExtensions =
  MintBase :: Mint22
  MintExtensions :: "Extension list"

record AccountWithExtensions =
  AccountBase :: Account22
  AccountExtensions :: "Extension list"

definition BaseType :: "ExtensionType \<Rightarrow> token22_error + BaseAccountType" where
  "BaseType t =
     (if t \<in> {ExtensionTransferFeeConfig, ExtensionMintCloseAuthority, ExtensionConfidentialTransferMint,
        ExtensionDefaultAccountState, ExtensionNonTransferable, ExtensionInterestBearingConfig, ExtensionPermanentDelegate,
        ExtensionTransferHook, ExtensionConfidentialTransferFeeConfig, ExtensionMetadataPointer, ExtensionTokenMetadata,
        ExtensionGroupPointer, ExtensionTokenGroup, ExtensionGroupMemberPointer, ExtensionTokenGroupMember,
        ExtensionConfidentialMintBurn, ExtensionScaledUIAmount, ExtensionPausable, ExtensionPermissionedBurn}
      then Inr BaseMint
      else if t \<in> {ExtensionTransferFeeAmount, ExtensionConfidentialTransferAccount, ExtensionImmutableOwner,
        ExtensionMemoTransfer, ExtensionCPIGuard, ExtensionNonTransferableAccount, ExtensionTransferHookAccount,
        ExtensionConfidentialTransferFeeAmount, ExtensionPausableAccount}
      then Inr BaseAccount
      else Inl ErrInvalidExtension)"

definition FixedValueLength :: "ExtensionType \<Rightarrow> nat option" where
  "FixedValueLength t =
     (if t = ExtensionTransferFeeConfig then Some 108
      else if t = ExtensionTransferFeeAmount then Some 8
      else if t = ExtensionConfidentialTransferMint then Some 65
      else if t = ExtensionConfidentialTransferAccount then Some 295
      else if t \<in> {ExtensionMintCloseAuthority, ExtensionPermanentDelegate, ExtensionPermissionedBurn} then Some 32
      else if t \<in> {ExtensionDefaultAccountState, ExtensionMemoTransfer, ExtensionCPIGuard, ExtensionTransferHookAccount}
        then Some 1
      else if t \<in> {ExtensionImmutableOwner, ExtensionNonTransferable, ExtensionNonTransferableAccount, ExtensionPausableAccount}
        then Some 0
      else if t = ExtensionInterestBearingConfig then Some 52
      else if t \<in> {ExtensionTransferHook, ExtensionMetadataPointer, ExtensionGroupPointer, ExtensionGroupMemberPointer}
        then Some 64
      else if t = ExtensionConfidentialTransferFeeConfig then Some 129
      else if t = ExtensionConfidentialTransferFeeAmount then Some 64
      else if t = ExtensionTokenGroup then Some 80
      else if t = ExtensionTokenGroupMember then Some 72
      else if t = ExtensionConfidentialMintBurn then Some 196
      else if t = ExtensionScaledUIAmount then Some 56
      else if t = ExtensionPausable then Some 33
      else None)"

definition has_base :: "BaseAccountType \<Rightarrow> ExtensionType \<Rightarrow> bool" where
  "has_base base t \<longleftrightarrow> (case BaseType t of Inl e \<Rightarrow> False | Inr got \<Rightarrow> got = base)"

definition fits_fixed :: "ExtensionType \<Rightarrow> nat \<Rightarrow> bool" where
  "fits_fixed t n \<longleftrightarrow> (case FixedValueLength t of None \<Rightarrow> True | Some fixed \<Rightarrow> fixed = n)"

text \<open>The lengths are Go's \<open>int\<close>, at most \<open>2^63 - 1\<close>.\<close>

fun sum_lengths :: "BaseAccountType \<Rightarrow> ExtensionType set \<Rightarrow> nat \<Rightarrow> ExtensionType list \<Rightarrow> token22_error + nat" where
  "sum_lengths base seen so_far [] = Inr so_far"
| "sum_lengths base seen so_far (t # ts) =
     (if t \<in> seen then sum_lengths base seen so_far ts
      else if \<not> has_base base t then Inl ErrExtensionBase
      else
        case FixedValueLength t of
          None \<Rightarrow> Inl ErrVariableLength
        | Some len \<Rightarrow>
            if int so_far > 0x7fffffffffffffff - 4 - int len then Inl ErrInvalidExtension
            else sum_lengths base (insert t seen) (so_far + (4 + len)) ts)"

definition avoid_multisig :: "nat \<Rightarrow> nat" where
  "avoid_multisig so_far = (if so_far = MultisigSize then so_far + 2 else so_far)"

definition calculateLen :: "BaseAccountType \<Rightarrow> nat \<Rightarrow> ExtensionType list \<Rightarrow> token22_error + nat" where
  "calculateLen base baseSize types =
     (if length types = 0 then Inr baseSize
      else and_then (sum_lengths base {} extensionAccountHeaderSize types) (\<lambda>so_far. Inr (avoid_multisig so_far)))"

definition CalculateMintLen :: "ExtensionType list \<Rightarrow> token22_error + nat" where
  "CalculateMintLen types = calculateLen BaseMint MintSize types"

definition CalculateAccountLen :: "ExtensionType list \<Rightarrow> token22_error + nat" where
  "CalculateAccountLen types = calculateLen BaseAccount AccountSize types"

text \<open>The types already in the result are the ones seen.\<close>

definition appendType :: "ExtensionType \<Rightarrow> ExtensionType list \<Rightarrow> ExtensionType list" where
  "appendType t result = (if t \<in> set result then result else result @ [t])"

fun required_extensions :: "ExtensionType list \<Rightarrow> ExtensionType list \<Rightarrow> token22_error + ExtensionType list" where
  "required_extensions result [] = Inr result"
| "required_extensions result (t # ts) =
     (if \<not> has_base BaseMint t then Inl ErrExtensionBase
      else
        required_extensions
          (if t = ExtensionTransferFeeConfig then appendType ExtensionTransferFeeAmount result
           else if t = ExtensionNonTransferable then
             appendType ExtensionImmutableOwner (appendType ExtensionNonTransferableAccount result)
           else if t = ExtensionTransferHook then appendType ExtensionTransferHookAccount result
           else if t = ExtensionPausable then appendType ExtensionPausableAccount result
           else result) ts)"

definition RequiredAccountExtensions :: "ExtensionType list \<Rightarrow> token22_error + ExtensionType list" where
  "RequiredAccountExtensions mintTypes = required_extensions [] mintTypes"

function (sequential) decode_tlv ::
  "BaseAccountType \<Rightarrow> ExtensionType set \<Rightarrow> Extension list \<Rightarrow> bytes \<Rightarrow> token22_error + Extension list" where
  "decode_tlv base seen extensions tlv =
     (if length tlv < 2 then Inr extensions
      else
        let t = le_word (take 2 tlv) in
        if t = ExtensionUninitialized then Inr extensions
        else if t > maxExtensionType \<or> length tlv < 4 then Inl ErrInvalidExtension
        else if \<not> has_base base t then Inl ErrExtensionBase
        else if t \<in> seen then Inl ErrDuplicateExtension
        else
          let len = unat (le_word (get_slice 2 2 tlv) :: u16) in
          if len > length tlv - 4 then Inl ErrInvalidExtension
          else if \<not> fits_fixed t len then Inl ErrInvalidExtension
          else decode_tlv base (insert t seen) (extensions @ [\<lparr>EType = t, EData = get_slice 4 len tlv\<rparr>]) (drop (4 + len) tlv))"
  by pat_completeness auto
termination by (relation "measure (\<lambda>(base, seen, extensions, tlv). length tlv)") auto

declare decode_tlv.simps [simp del]

definition decodeExtensions :: "BaseAccountType \<Rightarrow> bytes \<Rightarrow> token22_error + Extension list" where
  "decodeExtensions base rest =
     (if length rest = 0 then Inr []
      else if base \<noteq> BaseMint \<and> base \<noteq> BaseAccount then Inl ErrExtensionBase
      else
        let padding = (if base = BaseMint then AccountSize - MintSize else AccountSize - AccountSize) in
        if length rest < padding + 1 then Inl ErrInvalidExtension
        else if \<exists>b \<in> set (take padding rest). b \<noteq> 0 then Inl ErrInvalidExtension
        else if rest ! padding \<noteq> base then Inl ErrExtensionBase
        else decode_tlv base {} [] (drop (padding + 1) rest))"

fun check_extensions :: "BaseAccountType \<Rightarrow> ExtensionType set \<Rightarrow> nat \<Rightarrow> Extension list \<Rightarrow> token22_error + nat" where
  "check_extensions base seen so_far [] = Inr so_far"
| "check_extensions base seen so_far (e # es) =
     (if \<not> has_base base (EType e) then Inl ErrExtensionBase
      else if EType e \<in> seen then Inl ErrDuplicateExtension
      else if length (EData e) > 0xffff then Inl ErrInvalidExtension
      else if \<not> fits_fixed (EType e) (length (EData e)) then Inl ErrInvalidExtension
      else check_extensions base (insert (EType e) seen) (so_far + (4 + length (EData e))) es)"

fun write_extensions :: "nat \<Rightarrow> bytes \<Rightarrow> Extension list \<Rightarrow> bytes" where
  "write_extensions off data [] = data"
| "write_extensions off data (e # es) =
     (let data = put_slice off (le_bytes 2 (EType e)) data;
          data = put_slice (off + 2) (le_bytes 2 (of_nat (length (EData e)) :: u16)) data;
          data = put_slice (off + 4) (EData e) data in
      write_extensions (off + (4 + length (EData e))) data es)"

definition encodeExtensions :: "bytes \<Rightarrow> BaseAccountType \<Rightarrow> Extension list \<Rightarrow> token22_error + bytes" where
  "encodeExtensions base baseType extensions =
     (if length extensions = 0 then Inr base
      else
        and_then (check_extensions baseType {} extensionAccountHeaderSize extensions) (\<lambda>so_far.
          let data = replicate (avoid_multisig so_far) 0;
              data = put_slice 0 base data;
              data = data[AccountSize := baseType] in
          Inr (write_extensions extensionAccountHeaderSize data extensions)))"

definition DecodeMintWithExtensions :: "bytes \<Rightarrow> token22_error + MintWithExtensions" where
  "DecodeMintWithExtensions data =
     (if length data < MintSize \<or> length data = MultisigSize then Inl ErrInvalidState22
      else
        and_then (DecodeMint22 (take MintSize data)) (\<lambda>base.
        and_then (decodeExtensions BaseMint (drop MintSize data)) (\<lambda>extensions.
          Inr \<lparr>MintBase = base, MintExtensions = extensions\<rparr>)))"

definition EncodeMintWithExtensions :: "MintWithExtensions \<Rightarrow> token22_error + bytes" where
  "EncodeMintWithExtensions state =
     and_then (EncodeMint22 (MintBase state)) (\<lambda>base. encodeExtensions base BaseMint (MintExtensions state))"

definition DecodeAccountWithExtensions :: "bytes \<Rightarrow> token22_error + AccountWithExtensions" where
  "DecodeAccountWithExtensions data =
     (if length data < AccountSize \<or> length data = MultisigSize then Inl ErrInvalidState22
      else
        and_then (DecodeAccount22 (take AccountSize data)) (\<lambda>base.
        and_then (decodeExtensions BaseAccount (drop AccountSize data)) (\<lambda>extensions.
          Inr \<lparr>AccountBase = base, AccountExtensions = extensions\<rparr>)))"

definition EncodeAccountWithExtensions :: "AccountWithExtensions \<Rightarrow> token22_error + bytes" where
  "EncodeAccountWithExtensions state =
     and_then (EncodeAccount22 (AccountBase state)) (\<lambda>base. encodeExtensions base BaseAccount (AccountExtensions state))"

section \<open>Transfer fees\<close>

abbreviation (input) MaximumFeeBasisPoints :: nat where "MaximumFeeBasisPoints \<equiv> 10000"
abbreviation (input) TransferFeeSize :: nat where "TransferFeeSize \<equiv> 18"
abbreviation (input) TransferFeeConfigSize :: nat where "TransferFeeConfigSize \<equiv> 108"
abbreviation (input) TransferFeeAmountSize :: nat where "TransferFeeAmountSize \<equiv> 8"

record TransferFee =
  FeeEpoch :: u64
  MaximumFee :: u64
  BasisPoints :: u16

record TransferFeeConfig =
  ConfigAuthority :: OptionalPubkey22
  WithdrawAuthority :: OptionalPubkey22
  ConfigWithheldAmount :: u64
  Older :: TransferFee
  Newer :: TransferFee

record TransferFeeAmount =
  WithheldAmount :: u64

definition EncodeTransferFee :: "TransferFee \<Rightarrow> bytes" where
  "EncodeTransferFee v =
     (let data = replicate TransferFeeSize 0;
          data = put_u64 0 (FeeEpoch v) data;
          data = put_u64 8 (MaximumFee v) data in
      put_slice 16 (le_bytes 2 (BasisPoints v)) data)"

definition DecodeTransferFee :: "bytes \<Rightarrow> token22_error + TransferFee" where
  "DecodeTransferFee data =
     (if length data \<noteq> TransferFeeSize then Inl ErrInvalidExtension
      else Inr \<lparr>FeeEpoch = le_word (get_slice 0 8 data), MaximumFee = le_word (get_slice 8 8 data),
        BasisPoints = le_word (get_slice 16 2 data)\<rparr>)"

text \<open>\<open>putMaybeNullPubkey\<close> writes into the slice it is given.\<close>

definition putMaybeNullPubkey :: "OptionalPubkey22 \<Rightarrow> bytes \<Rightarrow> token22_error + bytes" where
  "putMaybeNullPubkey v destination =
     (if length destination \<noteq> PubkeySize then Inl ErrInvalidExtension
      else if \<not> KeySet22 v then Inr (replicate (length destination) 0)
      else if KeyValue22 v = zero_pubkey then Inl ErrInvalidExtension
      else Inr (put_slice 0 (KeyValue22 v) destination))"

definition decodeMaybeNullPubkey :: "bytes \<Rightarrow> OptionalPubkey22" where
  "decodeMaybeNullPubkey data =
     (let v = put_slice 0 (take PubkeySize data) zero_pubkey in if v = zero_pubkey then NoPubkey22 else SomePubkey22 v)"

definition EncodeTransferFeeConfig :: "TransferFeeConfig \<Rightarrow> token22_error + bytes" where
  "EncodeTransferFeeConfig v =
     and_then (write_through 0 32 (putMaybeNullPubkey (ConfigAuthority v)) (replicate TransferFeeConfigSize 0)) (\<lambda>data.
     and_then (write_through 32 32 (putMaybeNullPubkey (WithdrawAuthority v)) data) (\<lambda>data.
       let data = put_u64 64 (ConfigWithheldAmount v) data;
           data = put_slice 72 (EncodeTransferFee (Older v)) data in
       Inr (put_slice 90 (EncodeTransferFee (Newer v)) data)))"

definition DecodeTransferFeeConfig :: "bytes \<Rightarrow> token22_error + TransferFeeConfig" where
  "DecodeTransferFeeConfig data =
     (if length data \<noteq> TransferFeeConfigSize then Inl ErrInvalidExtension
      else
        and_then (DecodeTransferFee (get_slice 72 18 data)) (\<lambda>older.
        and_then (DecodeTransferFee (get_slice 90 18 data)) (\<lambda>newer.
          Inr \<lparr>ConfigAuthority = decodeMaybeNullPubkey (get_slice 0 32 data),
            WithdrawAuthority = decodeMaybeNullPubkey (get_slice 32 32 data),
            ConfigWithheldAmount = le_word (get_slice 64 8 data), Older = older, Newer = newer\<rparr>)))"

definition EncodeTransferFeeAmount :: "TransferFeeAmount \<Rightarrow> bytes" where
  "EncodeTransferFeeAmount v = put_u64 0 (WithheldAmount v) (replicate TransferFeeAmountSize 0)"

definition DecodeTransferFeeAmount :: "bytes \<Rightarrow> token22_error + TransferFeeAmount" where
  "DecodeTransferFeeAmount data =
     (if length data \<noteq> TransferFeeAmountSize then Inl ErrInvalidExtension else Inr \<lparr>WithheldAmount = le_word data\<rparr>)"

definition FeeForEpoch :: "TransferFeeConfig \<Rightarrow> u64 \<Rightarrow> TransferFee" where
  "FeeForEpoch v epoch = (if epoch \<ge> FeeEpoch (Newer v) then Newer v else Older v)"

text \<open>The product in two words, and the quotient of two words by one.  \<open>Div64\<close> panics unless \<open>hi < y\<close>.\<close>

definition Mul64 :: "u64 \<Rightarrow> u64 \<Rightarrow> u64 \<times> u64" where
  "Mul64 x y = (let p = unat x * unat y in (of_nat (p div 2 ^ 64), of_nat p))"

definition Div64 :: "u64 \<Rightarrow> u64 \<Rightarrow> u64 \<Rightarrow> u64 \<times> u64" where
  "Div64 hi lo y = (let p = unat hi * 2 ^ 64 + unat lo in (of_nat (p div unat y), of_nat (p mod unat y)))"

definition CalculateFee :: "TransferFee \<Rightarrow> u64 \<Rightarrow> u64 \<times> bool" where
  "CalculateFee v preFeeAmount =
     (if BasisPoints v = 0 \<or> preFeeAmount = 0 then (0, True)
      else
        let (hi, lo) = Mul64 preFeeAmount (ucast (BasisPoints v)) in
        if hi \<ge> of_nat MaximumFeeBasisPoints then (0, False)
        else
          let (fee, remainder) = Div64 hi lo (of_nat MaximumFeeBasisPoints);
              fee = (if remainder \<noteq> 0 then fee + 1 else fee) in
          (if fee > MaximumFee v then MaximumFee v else fee, True))"

end
