(* ===== verification/SdkToken2022Build.thy ===== *)
theory SdkToken2022Build
  imports SdkToken2022
begin

text \<open>
  \<open>src/sdk/token2022/instruction.go\<close>: the instruction builders of Token-2022.

  Where a builder wraps one of \<open>src/sdk/token\<close> that panics, the result is \<open>None\<close> here as it is there.
\<close>

type_synonym AuthorityType22 = u8

abbreviation (input) AuthorityPermissionedBurn :: AuthorityType22 where "AuthorityPermissionedBurn \<equiv> 17"

definition asToken2022 :: "Instruction \<Rightarrow> Instruction" where
  "asToken2022 i = i\<lparr>ProgramID := Token2022ProgramID\<rparr>"

definition convert_error :: "token_error \<Rightarrow> token22_error" where
  "convert_error e =
     (if e = ErrInvalidSigners then ErrInvalidSigners22
      else if e = ErrInvalidTokenInstruction then ErrInvalidInstruction22
      else ErrClassic e)"

definition convertResult :: "token_error + Instruction \<Rightarrow> token22_error + Instruction" where
  "convertResult r = (case r of Inl e \<Rightarrow> Inl (convert_error e) | Inr i \<Rightarrow> Inr (asToken2022 i))"

definition convertPanicking :: "token_error + Instruction option \<Rightarrow> token22_error + Instruction option" where
  "convertPanicking r = (case r of Inl e \<Rightarrow> Inl (convert_error e) | Inr i \<Rightarrow> Inr (map_option asToken2022 i))"

definition instruction22 :: "bytes \<Rightarrow> AccountMeta list \<Rightarrow> Instruction" where
  "instruction22 data accounts = \<lparr>ProgramID = Token2022ProgramID, Accounts = accounts, Data = data\<rparr>"

definition appendPubkeyOption :: "bytes \<Rightarrow> OptionalPubkey22 \<Rightarrow> bytes" where
  "appendPubkeyOption data v = (if \<not> KeySet22 v then data @ [0] else (data @ [1]) @ KeyValue22 v)"

definition authorityAccounts :: "AccountMeta list \<Rightarrow> pubkey \<Rightarrow> pubkey list \<Rightarrow> token22_error + AccountMeta list" where
  "authorityAccounts accounts authority signers =
     (if length signers > MaxSigners then Inl ErrInvalidInstruction22
      else Inr (accounts @ [Readonly authority (length signers = 0)] @ map (\<lambda>signer. Readonly signer True) signers))"

section \<open>Builders over the classic ones\<close>

definition InitializeMint22 :: "pubkey \<Rightarrow> pubkey \<Rightarrow> OptionalPubkey22 \<Rightarrow> u8 \<Rightarrow> Instruction option" where
  "InitializeMint22 mint mintAuthority freezeAuthority decimals =
     map_option asToken2022 (InitializeMint mint mintAuthority (classicOption freezeAuthority) decimals)"

definition InitializeMint2_22 :: "pubkey \<Rightarrow> pubkey \<Rightarrow> OptionalPubkey22 \<Rightarrow> u8 \<Rightarrow> Instruction option" where
  "InitializeMint2_22 mint mintAuthority freezeAuthority decimals =
     map_option asToken2022 (InitializeMint2 mint mintAuthority (classicOption freezeAuthority) decimals)"

definition InitializeAccount22 :: "pubkey \<Rightarrow> pubkey \<Rightarrow> pubkey \<Rightarrow> Instruction option" where
  "InitializeAccount22 account mint owner = map_option asToken2022 (InitializeAccount account mint owner)"

definition InitializeAccount2_22 :: "pubkey \<Rightarrow> pubkey \<Rightarrow> pubkey \<Rightarrow> Instruction option" where
  "InitializeAccount2_22 account mint owner = map_option asToken2022 (InitializeAccount2 account mint owner)"

definition InitializeAccount3_22 :: "pubkey \<Rightarrow> pubkey \<Rightarrow> pubkey \<Rightarrow> Instruction option" where
  "InitializeAccount3_22 account mint owner = map_option asToken2022 (InitializeAccount3 account mint owner)"

definition InitializeMultisig22 :: "pubkey \<Rightarrow> pubkey list \<Rightarrow> u8 \<Rightarrow> token22_error + Instruction option" where
  "InitializeMultisig22 multisig signers m = convertPanicking (InitializeMultisig multisig signers m)"

definition InitializeMultisig2_22 :: "pubkey \<Rightarrow> pubkey list \<Rightarrow> u8 \<Rightarrow> token22_error + Instruction option" where
  "InitializeMultisig2_22 multisig signers m = convertPanicking (InitializeMultisig2 multisig signers m)"

definition Transfer22 :: "pubkey \<Rightarrow> pubkey \<Rightarrow> pubkey \<Rightarrow> pubkey list \<Rightarrow> u64 \<Rightarrow> token22_error + Instruction" where
  "Transfer22 source destination authority signers amount =
     convertResult (TokenTransfer source destination authority signers amount)"

definition Approve22 :: "pubkey \<Rightarrow> pubkey \<Rightarrow> pubkey \<Rightarrow> pubkey list \<Rightarrow> u64 \<Rightarrow> token22_error + Instruction" where
  "Approve22 source delegate owner signers amount = convertResult (Approve source delegate owner signers amount)"

definition Revoke22 :: "pubkey \<Rightarrow> pubkey \<Rightarrow> pubkey list \<Rightarrow> token22_error + Instruction" where
  "Revoke22 source owner signers = convertResult (Revoke source owner signers)"

definition MintTo22 :: "pubkey \<Rightarrow> pubkey \<Rightarrow> pubkey \<Rightarrow> pubkey list \<Rightarrow> u64 \<Rightarrow> token22_error + Instruction" where
  "MintTo22 mint account authority signers amount = convertResult (MintTo mint account authority signers amount)"

definition Burn22 :: "pubkey \<Rightarrow> pubkey \<Rightarrow> pubkey \<Rightarrow> pubkey list \<Rightarrow> u64 \<Rightarrow> token22_error + Instruction" where
  "Burn22 account mint authority signers amount = convertResult (Burn account mint authority signers amount)"

definition CloseAccount22 :: "pubkey \<Rightarrow> pubkey \<Rightarrow> pubkey \<Rightarrow> pubkey list \<Rightarrow> token22_error + Instruction" where
  "CloseAccount22 account destination authority signers = convertResult (CloseAccount account destination authority signers)"

definition FreezeAccount22 :: "pubkey \<Rightarrow> pubkey \<Rightarrow> pubkey \<Rightarrow> pubkey list \<Rightarrow> token22_error + Instruction" where
  "FreezeAccount22 account mint authority signers = convertResult (FreezeAccount account mint authority signers)"

definition ThawAccount22 :: "pubkey \<Rightarrow> pubkey \<Rightarrow> pubkey \<Rightarrow> pubkey list \<Rightarrow> token22_error + Instruction" where
  "ThawAccount22 account mint authority signers = convertResult (ThawAccount account mint authority signers)"

definition TransferChecked22 ::
  "pubkey \<Rightarrow> pubkey \<Rightarrow> pubkey \<Rightarrow> pubkey \<Rightarrow> pubkey list \<Rightarrow> u64 \<Rightarrow> u8 \<Rightarrow> token22_error + Instruction" where
  "TransferChecked22 source mint destination authority signers amount decimals =
     convertResult (TransferChecked source mint destination authority signers amount decimals)"

definition ApproveChecked22 ::
  "pubkey \<Rightarrow> pubkey \<Rightarrow> pubkey \<Rightarrow> pubkey \<Rightarrow> pubkey list \<Rightarrow> u64 \<Rightarrow> u8 \<Rightarrow> token22_error + Instruction" where
  "ApproveChecked22 source mint delegate owner signers amount decimals =
     convertResult (ApproveChecked source mint delegate owner signers amount decimals)"

definition MintToChecked22 ::
  "pubkey \<Rightarrow> pubkey \<Rightarrow> pubkey \<Rightarrow> pubkey list \<Rightarrow> u64 \<Rightarrow> u8 \<Rightarrow> token22_error + Instruction" where
  "MintToChecked22 mint account authority signers amount decimals =
     convertResult (MintToChecked mint account authority signers amount decimals)"

definition BurnChecked22 ::
  "pubkey \<Rightarrow> pubkey \<Rightarrow> pubkey \<Rightarrow> pubkey list \<Rightarrow> u64 \<Rightarrow> u8 \<Rightarrow> token22_error + Instruction" where
  "BurnChecked22 account mint authority signers amount decimals =
     convertResult (BurnChecked account mint authority signers amount decimals)"

definition SyncNative22 :: "pubkey \<Rightarrow> Instruction option" where
  "SyncNative22 account = map_option asToken2022 (SyncNative account)"

definition SyncNativeWithRentSysvar22 :: "pubkey \<Rightarrow> Instruction option" where
  "SyncNativeWithRentSysvar22 account = map_option asToken2022 (SyncNativeWithRentSysvar account)"

definition AmountToUIAmount22 :: "pubkey \<Rightarrow> u64 \<Rightarrow> Instruction option" where
  "AmountToUIAmount22 mint amount = map_option asToken2022 (AmountToUIAmount mint amount)"

definition UIAmountToAmount22 :: "pubkey \<Rightarrow> bytes \<Rightarrow> token22_error + Instruction option" where
  "UIAmountToAmount22 mint uiAmount = convertPanicking (UIAmountToAmount mint uiAmount)"

definition WithdrawExcessLamports22 :: "pubkey \<Rightarrow> pubkey \<Rightarrow> pubkey \<Rightarrow> pubkey list \<Rightarrow> token22_error + Instruction" where
  "WithdrawExcessLamports22 account destination authority signers =
     convertResult (WithdrawExcessLamports account destination authority signers)"

definition UnwrapLamports22 ::
  "pubkey \<Rightarrow> pubkey \<Rightarrow> pubkey \<Rightarrow> pubkey list \<Rightarrow> OptionalU64_22 \<Rightarrow> token22_error + Instruction" where
  "UnwrapLamports22 account destination authority signers amount =
     convertResult (UnwrapLamports account destination authority signers
       \<lparr>U64Set = U64Set22 amount, U64Value = U64Value22 amount\<rparr>)"

section \<open>Builders of its own\<close>

definition SetAuthority22 ::
  "pubkey \<Rightarrow> pubkey \<Rightarrow> pubkey list \<Rightarrow> AuthorityType22 \<Rightarrow> OptionalPubkey22 \<Rightarrow> token22_error + Instruction" where
  "SetAuthority22 owned currentAuthority signers authorityType newAuthority =
     (if authorityType > AuthorityPermissionedBurn then Inl ErrInvalidInstruction22
      else
        and_then (authorityAccounts [Writable owned False] currentAuthority signers) (\<lambda>accounts.
          Inr \<lparr>ProgramID = Token2022ProgramID, Accounts = accounts, Data = appendPubkeyOption [6, authorityType] newAuthority\<rparr>))"

fun append_types :: "(ExtensionType \<Rightarrow> token22_error option) \<Rightarrow> bytes \<Rightarrow> ExtensionType list \<Rightarrow> token22_error + bytes" where
  "append_types check data [] = Inr data"
| "append_types check data (t # ts) =
     (case check t of Some e \<Rightarrow> Inl e | None \<Rightarrow> append_types check (data @ le_bytes 2 t) ts)"

definition GetAccountDataSize22 :: "pubkey \<Rightarrow> ExtensionType list \<Rightarrow> token22_error + Instruction" where
  "GetAccountDataSize22 mint extensionTypes =
     and_then (append_types
       (\<lambda>t. if t = ExtensionUninitialized \<or> t > maxExtensionType then Some ErrInvalidInstruction22 else None)
       [21] extensionTypes) (\<lambda>data. Inr (instruction22 data [Readonly mint False]))"

definition InitializeImmutableOwner22 :: "pubkey \<Rightarrow> Instruction" where
  "InitializeImmutableOwner22 account = instruction22 [22] [Writable account False]"

definition InitializeMintCloseAuthority :: "pubkey \<Rightarrow> OptionalPubkey22 \<Rightarrow> Instruction" where
  "InitializeMintCloseAuthority mint authority =
     instruction22 (appendPubkeyOption [25] authority) [Writable mint False]"

definition Reallocate ::
  "pubkey \<Rightarrow> pubkey \<Rightarrow> pubkey \<Rightarrow> pubkey list \<Rightarrow> ExtensionType list \<Rightarrow> token22_error + Instruction" where
  "Reallocate account payer owner signers extensionTypes =
     (if length signers > MaxSigners then Inl ErrInvalidInstruction22
      else
        and_then (append_types (\<lambda>t. if \<not> has_base BaseAccount t then Some ErrExtensionBase else None) [29] extensionTypes)
          (\<lambda>data. Inr \<lparr>ProgramID = Token2022ProgramID,
            Accounts = [Writable account False, Writable payer True, Readonly SystemProgramID False,
              Readonly owner (length signers = 0)] @ map (\<lambda>signer. Readonly signer True) signers,
            Data = data\<rparr>))"

definition CreateNativeMint :: "pubkey \<Rightarrow> Instruction" where
  "CreateNativeMint payer =
     instruction22 [31] [Writable payer True, Writable NativeMintID False, Readonly SystemProgramID False]"

definition InitializeNonTransferableMint :: "pubkey \<Rightarrow> Instruction" where
  "InitializeNonTransferableMint mint = instruction22 [32] [Writable mint False]"

definition InitializePermanentDelegate :: "pubkey \<Rightarrow> pubkey \<Rightarrow> Instruction" where
  "InitializePermanentDelegate mint delegate = instruction22 ([35] @ delegate) [Writable mint False]"

definition InitializeTransferFeeConfig ::
  "pubkey \<Rightarrow> OptionalPubkey22 \<Rightarrow> OptionalPubkey22 \<Rightarrow> u16 \<Rightarrow> u64 \<Rightarrow> Instruction" where
  "InitializeTransferFeeConfig mint configAuthority withdrawAuthority basisPoints maximumFee =
     (let data = appendPubkeyOption [26, 0] configAuthority;
          data = appendPubkeyOption data withdrawAuthority;
          data = data @ le_bytes 2 basisPoints;
          data = data @ le_bytes 8 maximumFee in
      instruction22 data [Writable mint False])"

definition TransferCheckedWithFee ::
  "pubkey \<Rightarrow> pubkey \<Rightarrow> pubkey \<Rightarrow> pubkey \<Rightarrow> pubkey list \<Rightarrow> u64 \<Rightarrow> u8 \<Rightarrow> u64 \<Rightarrow> token22_error + Instruction" where
  "TransferCheckedWithFee source mint destination authority signers amount decimals fee =
     and_then (authorityAccounts [Writable source False, Readonly mint False, Writable destination False] authority signers)
       (\<lambda>accounts. Inr \<lparr>ProgramID = Token2022ProgramID, Accounts = accounts,
          Data = (([26, 1] @ le_bytes 8 amount) @ [decimals]) @ le_bytes 8 fee\<rparr>)"

definition WithdrawWithheldTokensFromMint ::
  "pubkey \<Rightarrow> pubkey \<Rightarrow> pubkey \<Rightarrow> pubkey list \<Rightarrow> token22_error + Instruction" where
  "WithdrawWithheldTokensFromMint mint destination authority signers =
     and_then (authorityAccounts [Writable mint False, Writable destination False] authority signers) (\<lambda>accounts.
       Inr \<lparr>ProgramID = Token2022ProgramID, Accounts = accounts, Data = [26, 2]\<rparr>)"

definition WithdrawWithheldTokensFromAccounts ::
  "pubkey \<Rightarrow> pubkey \<Rightarrow> pubkey \<Rightarrow> pubkey list \<Rightarrow> pubkey list \<Rightarrow> token22_error + Instruction" where
  "WithdrawWithheldTokensFromAccounts mint destination authority signers sources =
     (if length sources > 255 then Inl ErrInvalidInstruction22
      else
        and_then (authorityAccounts [Readonly mint False, Writable destination False] authority signers) (\<lambda>accounts.
          Inr \<lparr>ProgramID = Token2022ProgramID, Accounts = accounts @ map (\<lambda>source. Writable source False) sources,
            Data = [26, 3, of_nat (length sources)]\<rparr>))"

definition HarvestWithheldTokensToMint :: "pubkey \<Rightarrow> pubkey list \<Rightarrow> Instruction" where
  "HarvestWithheldTokensToMint mint sources =
     \<lparr>ProgramID = Token2022ProgramID, Accounts = [Writable mint False] @ map (\<lambda>source. Writable source False) sources,
      Data = [26, 4]\<rparr>"

definition SetTransferFee :: "pubkey \<Rightarrow> pubkey \<Rightarrow> pubkey list \<Rightarrow> u16 \<Rightarrow> u64 \<Rightarrow> token22_error + Instruction" where
  "SetTransferFee mint authority signers basisPoints maximumFee =
     and_then (authorityAccounts [Writable mint False] authority signers) (\<lambda>accounts.
       Inr \<lparr>ProgramID = Token2022ProgramID, Accounts = accounts,
         Data = ([26, 5] @ le_bytes 2 basisPoints) @ le_bytes 8 maximumFee\<rparr>)"

fun batch22_children :: "bytes \<Rightarrow> AccountMeta list \<Rightarrow> Instruction list \<Rightarrow> token22_error + (bytes \<times> AccountMeta list)" where
  "batch22_children data accounts [] = Inr (data, accounts)"
| "batch22_children data accounts (child # rest) =
     (if ProgramID child \<noteq> Token2022ProgramID \<or> length (Accounts child) > 255 \<or> length (Data child) > 255 \<or>
         length (Data child) > 0 \<and> Data child ! 0 = 255
        then Inl ErrInvalidInstruction22
      else batch22_children ((data @ [of_nat (length (Accounts child)), of_nat (length (Data child))]) @ Data child)
        (accounts @ Accounts child) rest)"

definition Batch22 :: "Instruction list \<Rightarrow> token22_error + Instruction" where
  "Batch22 instructions =
     and_then (batch22_children [255] [] instructions) (\<lambda>(data, accounts).
       Inr \<lparr>ProgramID = Token2022ProgramID, Accounts = accounts, Data = data\<rparr>)"

end
