(* ===== verification/SdkToken2022Facts.thy ===== *)
theory SdkToken2022Facts
  imports SdkToken2022Build SdkTokenClaims
begin

text \<open>
  What the Token-2022 client of \<open>src/sdk/token2022\<close> promises: states with extensions survive encoding, their sizes are the
  computed ones, and transfer fees are rounded up.
\<close>

section \<open>Lists of extensions\<close>

text \<open>Known types of the base, each at most once, with data of the fixed length where there is one.\<close>

definition extension_ok :: "BaseAccountType \<Rightarrow> Extension \<Rightarrow> bool" where
  "extension_ok base e \<longleftrightarrow>
     has_base base (EType e) \<and> length (EData e) \<le> 0xffff \<and> fits_fixed (EType e) (length (EData e))"

definition extensions_ok :: "BaseAccountType \<Rightarrow> Extension list \<Rightarrow> bool" where
  "extensions_ok base es \<longleftrightarrow> distinct (map EType es) \<and> (\<forall>e \<in> set es. extension_ok base e)"

definition ext_size :: "Extension \<Rightarrow> nat" where
  "ext_size e = 4 + length (EData e)"

definition ext_bytes :: "Extension \<Rightarrow> bytes" where
  "ext_bytes e = le_bytes 2 (EType e) @ le_bytes 2 (of_nat (length (EData e)) :: u16) @ EData e"

lemma length_ext_bytes [simp]: "length (ext_bytes e) = ext_size e"
  by (simp add: ext_bytes_def ext_size_def)

lemma length_ext_list [simp]: "length (concat (map ext_bytes es)) = sum_list (map ext_size es)"
  by (induction es) simp_all

lemma has_base_known: "has_base base t \<Longrightarrow> t \<noteq> ExtensionUninitialized \<and> \<not> t > maxExtensionType"
  by (auto simp: has_base_def BaseType_def split: if_splits)

lemma check_extensions_Inr:
  "check_extensions base seen n es = Inr m \<longleftrightarrow>
     extensions_ok base es \<and> EType ` set es \<inter> seen = {} \<and> m = n + sum_list (map ext_size es)"
  by (induction base seen n es rule: check_extensions.induct)
    (auto simp: extensions_ok_def extension_ok_def ext_size_def)

lemma write_extensions_eq:
  "length pre = off \<Longrightarrow> length mid = sum_list (map ext_size es) \<Longrightarrow>
     write_extensions off (pre @ mid @ post) es = pre @ concat (map ext_bytes es) @ post"
proof (induction es arbitrary: off pre mid)
  case (Cons e es)
  obtain a b where mid: "mid = a @ b" and a: "length a = ext_size e" and b: "length b = sum_list (map ext_size es)"
    using Cons.prems(2) by (intro that [of "take (ext_size e) mid" "drop (ext_size e) mid"]) simp_all
  obtain t n d where split: "a = t @ n @ d" and l: "length t = 2" "length n = 2" "length d = length (EData e)"
    using a by (intro that [of "take 2 a" "take 2 (drop 2 a)" "drop 4 a"]) (simp_all add: ext_size_def flip: append_assoc take_add)
  have "write_extensions off (pre @ mid @ post) (e # es) =
      write_extensions (off + ext_size e) ((pre @ ext_bytes e) @ b @ post) es"
    using Cons.prems(1) l
    by (simp add: mid split ext_bytes_def ext_size_def Let_def put_slice_right put_slice_left put_head put_slice_all)
  also have "\<dots> = (pre @ ext_bytes e) @ concat (map ext_bytes es) @ post"
    using Cons.prems(1) by (intro Cons.IH b) simp
  finally show ?case by simp
qed simp

lemma decode_tlv_zeros: "decode_tlv base seen acc (replicate k 0) = Inr acc"
  by (subst decode_tlv.simps) simp

lemma decode_tlv_written:
  "extensions_ok base es \<Longrightarrow> EType ` set es \<inter> seen = {} \<Longrightarrow>
     decode_tlv base seen acc (concat (map ext_bytes es) @ replicate k 0) = Inr (acc @ es)"
proof (induction es arbitrary: seen acc)
  case (Cons e es)
  have ok: "extension_ok base e" "extensions_ok base es" "EType e \<notin> EType ` set es" "EType e \<notin> seen"
    using Cons.prems by (auto simp: extensions_ok_def)
  have e: "\<lparr>EType = EType e, EData = EData e\<rparr> = e" by simp
  have n: "unat (of_nat (length (EData e)) :: u16) = length (EData e)"
    using ok(1) by (simp add: extension_ok_def unat_of_nat)
  have "decode_tlv base seen acc (concat (map ext_bytes (e # es)) @ replicate k 0) =
      decode_tlv base (insert (EType e) seen) (acc @ [e]) (concat (map ext_bytes es) @ replicate k 0)"
    using ok has_base_known [of base "EType e"]
    by (subst decode_tlv.simps)
      (simp add: e ext_bytes_def extension_ok_def Let_def n codec_simps get_slice_left get_slice_right get_slice_all)
  also have "\<dots> = Inr ((acc @ [e]) @ es)" using ok Cons.prems by (intro Cons.IH) auto
  finally show ?case by simp
qed (simp add: decode_tlv_zeros)

lemma decode_tlv_ok:
  "decode_tlv base seen acc tlv = Inr r \<Longrightarrow>
     \<exists>es. r = acc @ es \<and> extensions_ok base es \<and> EType ` set es \<inter> seen = {}"
proof (induction base seen acc tlv arbitrary: r rule: decode_tlv.induct)
  case (1 base seen acc tlv)
  define t :: u16 where "t = le_word (take 2 tlv)"
  define n where "n = unat (le_word (get_slice 2 2 tlv) :: u16)"
  show ?case
  proof (cases "length tlv < 2 \<or> t = 0")
    case True
    then have "r = acc" using "1.prems" unfolding decode_tlv.simps [of base seen acc tlv] t_def [symmetric] Let_def by (auto split: if_splits)
    then show ?thesis by (intro exI [of _ "[]"]) (simp add: extensions_ok_def)
  next
    case False
    define e where "e = \<lparr>EType = t, EData = get_slice 4 n tlv\<rparr>"
    have c: "\<not> t > 28" "\<not> length tlv < 4" "has_base base t" "t \<notin> seen" "\<not> n > length tlv - 4" "fits_fixed t n"
      and rest: "decode_tlv base (insert t seen) (acc @ [e]) (drop (4 + n) tlv) = Inr r"
      using "1.prems" False unfolding decode_tlv.simps [of base seen acc tlv] t_def [symmetric] n_def [symmetric] e_def Let_def
      by (auto split: if_splits)
    have "\<exists>es. r = (acc @ [e]) @ es \<and> extensions_ok base es \<and> EType ` set es \<inter> insert t seen = {}"
      using "1.IH" False c rest unfolding t_def n_def e_def by blast
    then obtain es where es: "r = (acc @ [e]) @ es" "extensions_ok base es" "EType ` set es \<inter> insert t seen = {}" by blast
    have "n \<le> 0xffff" using unsigned_less [of "le_word (get_slice 2 2 tlv) :: u16", where ?'a = nat] by (simp add: n_def)
    then have "extension_ok base e" using c by (simp add: extension_ok_def e_def)
    then have "extensions_ok base (e # es)" using es by (auto simp: extensions_ok_def e_def)
    then show ?thesis using es c(4) by (intro exI [of _ "e # es"]) (auto simp: e_def)
  qed
qed

section \<open>Base and extensions\<close>

text \<open>The bytes behind the base state: padding to the account size, the base type, the extensions, two zeros where the total
  would be that of a multisignature.\<close>

definition tail_bytes22 :: "nat \<Rightarrow> BaseAccountType \<Rightarrow> Extension list \<Rightarrow> bytes" where
  "tail_bytes22 padding base es =
     (let n = 166 + sum_list (map ext_size es) in
      replicate padding 0 @ [base] @ concat (map ext_bytes es) @ replicate (avoid_multisig n - n) 0)"

lemma avoid_multisig_ge: "n \<le> avoid_multisig n" "avoid_multisig n \<noteq> 355"
  by (simp_all add: avoid_multisig_def)

lemma encodeExtensions_Inr:
  assumes "es \<noteq> []" and "length b + padding = 165"
  shows "encodeExtensions b base es = Inr data \<longleftrightarrow> extensions_ok base es \<and> data = b @ tail_bytes22 padding base es"
proof -
  let ?s = "sum_list (map ext_size es)"
  let ?k = "avoid_multisig (166 + ?s) - (166 + ?s)"
  have z: "replicate (avoid_multisig (166 + ?s)) (0 :: u8) =
      replicate (length b) 0 @ replicate padding 0 @ [0] @ replicate ?s 0 @ replicate ?k 0"
    using assms(2) avoid_multisig_ge(1) [of "166 + ?s"] by (simp flip: replicate_add replicate_Suc)
  have "(put_slice 0 b (replicate (avoid_multisig (166 + ?s)) 0))[165 := base] =
      (b @ replicate padding 0 @ [base]) @ replicate ?s 0 @ replicate ?k 0"
  proof -
    have "165 = length (b @ replicate padding 0)" using assms(2) by simp
    then have "(b @ replicate padding 0 @ [0] @ r)[165 := base] = (b @ replicate padding 0 @ [base]) @ r" for r
      using list_update_length [of "b @ replicate padding 0" 0 r base] by (simp only: append_assoc append_Cons append_Nil)
    then show ?thesis unfolding z by (simp add: put_head)
  qed
  then have "write_extensions 166 ((put_slice 0 b (replicate (avoid_multisig (166 + ?s)) 0))[165 := base]) es =
      (b @ replicate padding 0 @ [base]) @ concat (map ext_bytes es) @ replicate ?k 0"
    using write_extensions_eq [of "b @ replicate padding 0 @ [base]" 166 "replicate ?s 0" es] assms(2) by simp
  then show ?thesis
    using assms(1) by (auto simp: encodeExtensions_def and_then_Inr_conv check_extensions_Inr Let_def tail_bytes22_def)
qed

lemma decodeExtensions_written:
  assumes "base = BaseMint \<and> padding = 83 \<or> base = BaseAccount \<and> padding = 0" and "extensions_ok base es"
  shows "decodeExtensions base (tail_bytes22 padding base es) = Inr es"
  using assms decode_tlv_written [of base es "{}" "[]"]
  by (auto simp: decodeExtensions_def tail_bytes22_def Let_def nth_append)

lemma decodeExtensions_ok:
  assumes "decodeExtensions base rest = Inr es"
  shows "extensions_ok base es"
  using assms decode_tlv_ok [of base "{}" "[]"]
  by (auto simp: decodeExtensions_def Let_def extensions_ok_def split: if_splits)

lemma sum_lengths_Inr:
  "sum_lengths base seen n (map EType es) = Inr m \<Longrightarrow> extensions_ok base es \<Longrightarrow> EType ` set es \<inter> seen = {} \<Longrightarrow>
     m = n + sum_list (map ext_size es)"
proof (induction es arbitrary: seen n)
  case (Cons e es)
  have "EType e \<notin> seen" "has_base base (EType e)" "extensions_ok base es" "EType ` set es \<inter> insert (EType e) seen = {}"
    and f: "fits_fixed (EType e) (length (EData e))"
    using Cons.prems by (auto simp: extensions_ok_def extension_ok_def)
  moreover obtain len where "FixedValueLength (EType e) = Some len"
    and "sum_lengths base (insert (EType e) seen) (n + (4 + len)) (map EType es) = Inr m"
    using Cons.prems(1) calculation by (auto split: option.splits if_splits)
  ultimately show ?case using Cons.IH [of "insert (EType e) seen" "n + (4 + len)"] by (simp add: fits_fixed_def ext_size_def)
qed simp

lemma calculateLen_written:
  assumes "calculateLen base baseSize (map EType es) = Inr n" and "extensions_ok base es" and "length b = baseSize"
    and "encodeExtensions b base es = Inr data" and "length b + padding = 165"
  shows "length data = n"
proof (cases "es = []")
  case True
  then show ?thesis using assms by (simp add: calculateLen_def encodeExtensions_def)
next
  case False
  then obtain m where "sum_lengths base {} 166 (map EType es) = Inr m" "n = avoid_multisig m"
    using assms(1) by (auto simp: calculateLen_def and_then_Inr_conv)
  then have n: "n = avoid_multisig (166 + sum_list (map ext_size es))" using sum_lengths_Inr assms(2) by fastforce
  show ?thesis
    using encodeExtensions_Inr [OF False assms(5)] assms(4,5) n avoid_multisig_ge(1) [of "166 + sum_list (map ext_size es)"]
    by (auto simp: tail_bytes22_def Let_def)
qed

end
