(* ===== verification/SdkToken2022Claims.thy ===== *)
theory SdkToken2022Claims
  imports SdkToken2022Facts
begin

text \<open>
  The properties of the Token-2022 client of \<open>src/sdk/token2022\<close>.
\<close>

section \<open>States with extensions\<close>

definition mint22_ok :: "Mint22 \<Rightarrow> bool" where
  "mint22_ok m \<longleftrightarrow> mint_ok (classicMint m)"

definition account22_ok :: "Account22 \<Rightarrow> bool" where
  "account22_ok a \<longleftrightarrow> account_ok (classicAccount a)"

lemma from_classic [simp]: "mintFromClassic (classicMint m) = m" "accountFromClassic (classicAccount a) = a"
  "classicMint (mintFromClassic c) = c" "classicAccount (accountFromClassic d) = d"
  by (simp_all add: mintFromClassic_def classicMint_def accountFromClassic_def classicAccount_def optionFromClassic_def
      classicOption_def)

lemma invalid_state_simps [simp]: "invalid_state (Inr x) = Inr x" "invalid_state (Inl e) = Inl ErrInvalidState22"
  by (simp_all add: invalid_state_def)

lemma invalid_state_Inr: "invalid_state r = Inr x \<longleftrightarrow> r = Inr x"
  by (cases r) simp_all

lemma encode_mint22:
  assumes "mint22_ok m"
  obtains b where "EncodeMint22 m = Inr b" "length b = 82" "DecodeMint22 b = Inr m"
proof -
  have ok: "mint_ok (classicMint m)" using assms by (simp add: mint22_ok_def)
  obtain b where b: "EncodeMint (classicMint m) = Inr b" "length b = 82"
    using ok by (auto simp: EncodeMint_eq mint_ok_def)
  then show thesis using decode_encode_mint [OF ok] by (intro that [of b]) (simp_all add: EncodeMint22_def DecodeMint22_def)
qed

lemma encode_account22:
  assumes "account22_ok a" and "\<not> State22 a > 2"
  obtains b where "EncodeAccount22 a = Inr b" "length b = 165" "DecodeAccount22 b = Inr a"
proof -
  have ok: "account_ok (classicAccount a)" and small: "\<not> State (classicAccount a) > 2"
    using assms by (simp_all add: account22_ok_def classicAccount_def)
  obtain b where b: "EncodeAccount (classicAccount a) = Inr b" "length b = 165"
    using ok by (auto simp: EncodeAccount_eq [OF ok small] account_ok_def)
  then show thesis using decode_encode_account [OF ok] small
    by (intro that [of b]) (simp_all add: EncodeAccount22_def DecodeAccount22_def)
qed

lemma encode_account22_refused: "State22 a > 2 \<Longrightarrow> EncodeAccount22 a = Inl ErrInvalidState22"
  by (simp add: EncodeAccount22_def EncodeAccount_def classicAccount_def)

lemma decoded_option: "decodeOptionalPubkeyState d = Inr x \<Longrightarrow> key_option x"
  by (auto simp: decodeOptionalPubkeyState_def Let_def split: if_splits)

lemma decoded_u64: "decodeOptionalU64State d = Inr x \<Longrightarrow> u64_option x"
  by (auto simp: decodeOptionalU64State_def Let_def split: if_splits)

lemma decode_mint22_ok: "DecodeMint22 data = Inr m \<Longrightarrow> mint22_ok m"
  by (auto simp: DecodeMint22_def DecodeMint_def and_then_Inr_conv invalid_state_Inr mint22_ok_def mint_ok_def
      intro: decoded_option split: if_splits)

lemma state_from_classic: "State22 (accountFromClassic a) = State a"
  by (simp add: accountFromClassic_def)

lemma decode_account22_ok: "DecodeAccount22 data = Inr a \<Longrightarrow> account22_ok a \<and> \<not> State22 a > 2"
  by (auto simp: DecodeAccount22_def DecodeAccount_def and_then_Inr_conv invalid_state_Inr account22_ok_def account_ok_def
      state_from_classic
      intro: decoded_option decoded_u64 split: if_splits)

text \<open>Base bytes followed by extensions, for the length of either base.\<close>

lemma with_extensions:
  fixes padding :: nat
  assumes "base = BaseMint \<and> length b = 82 \<and> padding = 83 \<or> base = BaseAccount \<and> length b = 165 \<and> padding = 0"
  shows "encodeExtensions b base es = Inr data \<Longrightarrow>
      extensions_ok base es \<and> take (length b) data = b \<and> decodeExtensions base (drop (length b) data) = Inr es \<and>
      length b \<le> length data \<and> length data \<noteq> 355"
    "extensions_ok base es \<Longrightarrow> \<exists>data. encodeExtensions b base es = Inr data"
proof -
  have l: "length b + padding = 165" using assms by auto
  have p: "base = BaseMint \<and> padding = 83 \<or> base = BaseAccount \<and> padding = 0" using assms by auto
  show "\<exists>data. encodeExtensions b base es = Inr data" if "extensions_ok base es"
    using encodeExtensions_Inr [OF _ l, of es base] that by (cases "es = []") (auto simp: encodeExtensions_def)
  assume e: "encodeExtensions b base es = Inr data"
  show "extensions_ok base es \<and> take (length b) data = b \<and> decodeExtensions base (drop (length b) data) = Inr es \<and>
      length b \<le> length data \<and> length data \<noteq> 355"
  proof (cases "es = []")
    case True
    then have "data = b" using e by (simp add: encodeExtensions_def)
    then show ?thesis using assms True by (auto simp: extensions_ok_def decodeExtensions_def)
  next
    case False
    have ok: "extensions_ok base es" and d: "data = b @ tail_bytes22 padding base es"
      using e encodeExtensions_Inr [OF False l] by auto
    have "length data = avoid_multisig (166 + sum_list (map ext_size es))"
      using l avoid_multisig_ge(1) [of "166 + sum_list (map ext_size es)"] by (simp add: d tail_bytes22_def Let_def)
    then show ?thesis using ok d decodeExtensions_written [OF p ok] avoid_multisig_ge(2) by simp
  qed
qed

lemma mint_extensions:
  assumes "mint22_ok (MintBase s)"
  shows "(\<exists>data. EncodeMintWithExtensions s = Inr data) \<longleftrightarrow> extensions_ok BaseMint (MintExtensions s)"
    "EncodeMintWithExtensions s = Inr data \<Longrightarrow> DecodeMintWithExtensions data = Inr s"
    "EncodeMintWithExtensions s = Inr data \<Longrightarrow> CalculateMintLen (map EType (MintExtensions s)) = Inr n \<Longrightarrow> length data = n"
proof -
  obtain b where b: "EncodeMint22 (MintBase s) = Inr b" "length b = 82" "DecodeMint22 b = Inr (MintBase s)"
    by (rule encode_mint22 [OF assms])
  have c: "BaseMint = BaseMint \<and> length b = 82 \<and> (83 :: nat) = 83 \<or> BaseMint = BaseAccount \<and> length b = 165 \<and> (83 :: nat) = 0"
    using b by simp
  have e: "EncodeMintWithExtensions s = encodeExtensions b BaseMint (MintExtensions s)"
    by (simp add: EncodeMintWithExtensions_def b)
  show "(\<exists>data. EncodeMintWithExtensions s = Inr data) \<longleftrightarrow> extensions_ok BaseMint (MintExtensions s)"
    unfolding e using with_extensions [OF c] by blast
  assume d: "EncodeMintWithExtensions s = Inr data"
  note w = with_extensions(1) [OF c d [unfolded e]]
  show "DecodeMintWithExtensions data = Inr s" using w b by (simp add: DecodeMintWithExtensions_def not_less)
  show "length data = n" if "CalculateMintLen (map EType (MintExtensions s)) = Inr n"
    using calculateLen_written [of BaseMint 82 "MintExtensions s" n b data 83] that w b(2) d e by (simp add: CalculateMintLen_def)
qed

lemma account_extensions:
  assumes "account22_ok (AccountBase s)"
  shows "(\<exists>data. EncodeAccountWithExtensions s = Inr data) \<longleftrightarrow>
      \<not> State22 (AccountBase s) > 2 \<and> extensions_ok BaseAccount (AccountExtensions s)"
    "EncodeAccountWithExtensions s = Inr data \<Longrightarrow> DecodeAccountWithExtensions data = Inr s"
    "EncodeAccountWithExtensions s = Inr data \<Longrightarrow>
      CalculateAccountLen (map EType (AccountExtensions s)) = Inr n \<Longrightarrow> length data = n"
proof -
  have refused: "State22 (AccountBase s) > 2 \<Longrightarrow> EncodeAccountWithExtensions s = Inl ErrInvalidState22"
    by (simp add: EncodeAccountWithExtensions_def encode_account22_refused)
  have all: "((\<exists>data. EncodeAccountWithExtensions s = Inr data) \<longleftrightarrow> extensions_ok BaseAccount (AccountExtensions s)) \<and>
    (\<forall>data. EncodeAccountWithExtensions s = Inr data \<longrightarrow> DecodeAccountWithExtensions data = Inr s \<and>
      (\<forall>n. CalculateAccountLen (map EType (AccountExtensions s)) = Inr n \<longrightarrow> length data = n))"
    if small: "\<not> State22 (AccountBase s) > 2"
  proof -
    obtain b where b: "EncodeAccount22 (AccountBase s) = Inr b" "length b = 165" "DecodeAccount22 b = Inr (AccountBase s)"
      by (rule encode_account22 [OF assms small])
    have c: "BaseAccount = BaseMint \<and> length b = 82 \<and> (0 :: nat) = 83 \<or> BaseAccount = BaseAccount \<and> length b = 165 \<and> (0 :: nat) = 0"
      using b by simp
    have e: "EncodeAccountWithExtensions s = encodeExtensions b BaseAccount (AccountExtensions s)"
      by (simp add: EncodeAccountWithExtensions_def b)
    have "DecodeAccountWithExtensions data = Inr s \<and>
        (\<forall>n. CalculateAccountLen (map EType (AccountExtensions s)) = Inr n \<longrightarrow> length data = n)"
      if d: "EncodeAccountWithExtensions s = Inr data" for data
    proof -
      note w = with_extensions(1) [OF c d [unfolded e]]
      show ?thesis using w b calculateLen_written [of BaseAccount 165 "AccountExtensions s" _ b data 0] d e
        by (simp add: DecodeAccountWithExtensions_def CalculateAccountLen_def not_less)
    qed
    then show ?thesis unfolding e using with_extensions [OF c] by blast
  qed
  show "(\<exists>data. EncodeAccountWithExtensions s = Inr data) \<longleftrightarrow>
      \<not> State22 (AccountBase s) > 2 \<and> extensions_ok BaseAccount (AccountExtensions s)"
    using all refused by (cases "State22 (AccountBase s) > 2") simp_all
  show "EncodeAccountWithExtensions s = Inr data \<Longrightarrow> DecodeAccountWithExtensions data = Inr s"
    "EncodeAccountWithExtensions s = Inr data \<Longrightarrow>
      CalculateAccountLen (map EType (AccountExtensions s)) = Inr n \<Longrightarrow> length data = n"
    using all refused by (cases "State22 (AccountBase s) > 2"; simp)+
qed

lemma decoded_mint_ok:
  "DecodeMintWithExtensions data = Inr s \<Longrightarrow> mint22_ok (MintBase s) \<and> extensions_ok BaseMint (MintExtensions s)"
  by (auto simp: DecodeMintWithExtensions_def and_then_Inr_conv dest: decode_mint22_ok decodeExtensions_ok split: if_splits)

lemma decoded_account_ok:
  "DecodeAccountWithExtensions data = Inr s \<Longrightarrow>
    account22_ok (AccountBase s) \<and> \<not> State22 (AccountBase s) > 2 \<and> extensions_ok BaseAccount (AccountExtensions s)"
  by (auto simp: DecodeAccountWithExtensions_def and_then_Inr_conv dest: decode_account22_ok decodeExtensions_ok split: if_splits)

section \<open>Transfer fees\<close>

lemma unat_u64: "unat (w :: u64) < 2 ^ 64"
  using unsigned_less [of w, where ?'a = nat] by simp

lemma unat_ucast_u16: "unat (ucast (w :: u16) :: u64) = unat w"
  by transfer simp

lemma Mul64_value: "Mul64 x y = (hi, lo) \<Longrightarrow> unat hi * 2 ^ 64 + unat lo = unat x * unat y"
proof -
  assume m: "Mul64 x y = (hi, lo)"
  have "unat x * unat y < 2 ^ 64 * 2 ^ 64" by (intro mult_strict_mono unat_u64) simp_all
  then have "unat x * unat y div 2 ^ 64 < 2 ^ 64" by (simp add: div_less_iff_less_mult)
  then have "unat hi = unat x * unat y div 2 ^ 64" "unat lo = unat x * unat y mod 2 ^ 64"
    using m by (auto simp: Mul64_def Let_def unsigned_of_nat take_bit_nat_eq_self take_bit_eq_mod simp del: of_nat_mult)
  then show ?thesis by (simp only: div_mult_mod_eq)
qed

lemma ceiling_div: "(n + 9999) div 10000 = n div 10000 + (if n mod 10000 = 0 then 0 else 1)" for n :: nat
proof (cases "n mod 10000 = 0")
  case True
  then obtain q where "n = 10000 * q" by (auto elim: dvdE)
  then show ?thesis by simp
next
  case False
  define q r where "q = n div 10000" and "r = n mod 10000 - 1"
  have r: "n mod 10000 = r + 1" "r < 10000" using False mod_less_divisor [of 10000 n] by (auto simp: r_def)
  have "n = q * 10000 + n mod 10000" unfolding q_def by (rule div_mult_mod_eq [symmetric])
  then have "n = q * 10000 + (r + 1)" by (simp only: r(1))
  then have "n + 9999 = 10000 * (q + 1) + r" by simp
  then have "(n + 9999) div 10000 = q + 1" using r(2) by simp
  then show ?thesis using False by (simp add: q_def)
qed

text \<open>What the code computes for every basis-point value.\<close>

lemma CalculateFee_eq:
  "CalculateFee v amount =
     (let p = unat amount * unat (BasisPoints v) in
      if 10000 * 2 ^ 64 \<le> p then (0, False)
      else (min (of_nat ((p + 9999) div 10000)) (MaximumFee v), True))"
proof -
  define p where "p = unat amount * unat (BasisPoints v)"
  show ?thesis
  proof (cases "BasisPoints v = 0 \<or> amount = 0")
    case True
    then have "p = 0" by (auto simp: p_def)
    then show ?thesis using True by (simp add: CalculateFee_def p_def [symmetric] Let_def min_def)
  next
    case False
    obtain hi lo where m: "Mul64 amount (ucast (BasisPoints v)) = (hi, lo)" by (cases "Mul64 amount (ucast (BasisPoints v))")
    have "unat (ucast (BasisPoints v) :: u64) = unat (BasisPoints v)" by (rule unat_ucast_u16)
    then have hl: "unat hi * 2 ^ 64 + unat lo = p" using Mul64_value [OF m] by (simp add: p_def)
    have big: "hi \<ge> 10000 \<longleftrightarrow> 10000 * 2 ^ 64 \<le> p"
      using hl unat_u64 [of lo] by (simp add: word_le_nat_alt) linarith
    have "Div64 hi lo 10000 = (of_nat (p div 10000), of_nat (p mod 10000))" using hl by (simp add: Div64_def Let_def)
    moreover have "(of_nat (p mod 10000) :: u64) = 0 \<longleftrightarrow> p mod 10000 = 0"
    proof -
      have "p mod 10000 < 2 ^ 64" by (rule less_le_trans [OF mod_less_divisor]) simp_all
      then have "unat (of_nat (p mod 10000) :: u64) = p mod 10000" by (simp add: unsigned_of_nat take_bit_nat_eq_self)
      then show ?thesis by (metis unat_eq_zero)
    qed
    moreover have "(if fee > cap then cap else fee) = min fee cap" for fee cap :: u64 by (auto simp: min_def)
    ultimately show ?thesis
      using False big by (simp add: CalculateFee_def m p_def [symmetric] Let_def ceiling_div)
  qed
qed

text \<open>
  C38.  A mint or account with extensions survives encoding.  The encoder succeeds exactly when every extension type is known,
  belongs to the base and occurs once, and its data has the fixed length of its type, or fits a 16-bit length where the type has
  none (and the account state is known); what it writes decodes to the same base and extensions, and has the length that
  \<open>CalculateMintLen\<close> or \<open>CalculateAccountLen\<close> computes from the types, also where the total would be that of a multisignature.
\<close>

theorem extensions_roundtrip:
  assumes "mint22_ok (MintBase m)" and "account22_ok (AccountBase a)"
  shows "((\<exists>data. EncodeMintWithExtensions m = Inr data) \<longleftrightarrow> extensions_ok BaseMint (MintExtensions m)) \<and>
    (EncodeMintWithExtensions m = Inr data \<longrightarrow> DecodeMintWithExtensions data = Inr m \<and>
      (\<forall>n. CalculateMintLen (map EType (MintExtensions m)) = Inr n \<longrightarrow> length data = n)) \<and>
    ((\<exists>data. EncodeAccountWithExtensions a = Inr data) \<longleftrightarrow>
      \<not> State22 (AccountBase a) > 2 \<and> extensions_ok BaseAccount (AccountExtensions a)) \<and>
    (EncodeAccountWithExtensions a = Inr data \<longrightarrow> DecodeAccountWithExtensions data = Inr a \<and>
      (\<forall>n. CalculateAccountLen (map EType (AccountExtensions a)) = Inr n \<longrightarrow> length data = n))"
  using mint_extensions [OF assms(1)] account_extensions [OF assms(2)] by blast

definition sample_mint :: MintWithExtensions where
  "sample_mint = \<lparr>MintBase = \<lparr>MMintAuthority22 = SomePubkey22 (replicate 32 7), Supply22 = 5, MDecimals22 = 9,
      Initialized22 = True, MFreezeAuthority22 = NoPubkey22\<rparr>,
    MintExtensions = [\<lparr>EType = 3, EData = replicate 32 1\<rparr>, \<lparr>EType = 19, EData = [1, 2, 3]\<rparr>]\<rparr>"

definition sample_account :: AccountWithExtensions where
  "sample_account = \<lparr>AccountBase = \<lparr>AMint22 = replicate 32 1, AOwner22 = replicate 32 2, AAmount22 = 3,
      Delegate22 = NoPubkey22, State22 = 1, IsNative22 = \<lparr>U64Set22 = True, U64Value22 = 4\<rparr>, DelegatedAmount22 = 0,
      CloseAuthority22 = NoPubkey22\<rparr>,
    AccountExtensions = [\<lparr>EType = 2, EData = replicate 8 0\<rparr>, \<lparr>EType = 7, EData = []\<rparr>]\<rparr>"

theorem extensions_roundtrip_witness:
  "\<exists>data. EncodeMintWithExtensions sample_mint = Inr data \<and> DecodeMintWithExtensions data = Inr sample_mint"
proof -
  have m: "mint22_ok (MintBase sample_mint)"
    by (simp add: mint22_ok_def sample_mint_def classicMint_def classicOption_def mint_ok_def key_option_def SomePubkey22_def
        NoPubkey22_def NoPubkey_def)
  have a: "account22_ok (AccountBase sample_account)"
    by (simp add: account22_ok_def sample_account_def classicAccount_def classicOption_def account_ok_def key_option_def
        u64_option_def NoPubkey22_def NoPubkey_def)
  have e: "extensions_ok BaseMint (MintExtensions sample_mint)"
    by (simp add: sample_mint_def extensions_ok_def extension_ok_def has_base_def BaseType_def fits_fixed_def FixedValueLength_def)
  show ?thesis using extensions_roundtrip [OF m a] e by blast
qed

text \<open>
  C39.  A transfer fee of at most 100 percent is the amount times the basis points, divided by 10000 and rounded up, but not more
  than the maximum; it is always computed and never exceeds the amount.
\<close>

theorem CalculateFee_rounds_up:
  assumes "unat (BasisPoints v) \<le> 10000"
  shows "\<exists>fee. CalculateFee v amount = (fee, True) \<and>
    unat fee = min ((unat amount * unat (BasisPoints v) + 9999) div 10000) (unat (MaximumFee v)) \<and> fee \<le> amount"
proof -
  define p where "p = unat amount * unat (BasisPoints v)"
  define c where "c = (p + 9999) div 10000"
  have "p \<le> unat amount * 10000" using assms by (simp add: p_def)
  then have "c \<le> (unat amount * 10000 + 9999) div 10000" unfolding c_def by (intro div_le_mono) simp
  then have c: "c \<le> unat amount" by simp
  then have small: "c < 2 ^ 64" using unat_u64 [of amount] by linarith
  then have u: "unat (of_nat c :: u64) = c" by (simp add: unsigned_of_nat take_bit_nat_eq_self)
  have "\<not> 10000 * 2 ^ 64 \<le> p" using \<open>p \<le> unat amount * 10000\<close> unat_u64 [of amount] by linarith
  then have "CalculateFee v amount = (min (of_nat c) (MaximumFee v), True)"
    by (simp add: CalculateFee_eq p_def [symmetric] c_def [symmetric] Let_def)
  moreover have "unat (min (of_nat c) (MaximumFee v)) = min c (unat (MaximumFee v))"
    using u by (simp add: min_def word_le_nat_alt)
  ultimately show ?thesis using c by (auto simp: p_def c_def word_le_nat_alt)
qed

theorem CalculateFee_rounds_up_witness:
  "\<exists>fee. CalculateFee \<lparr>FeeEpoch = 0, MaximumFee = 1000, BasisPoints = 25\<rparr> 401 = (fee, True) \<and> unat fee = 2"
  using CalculateFee_rounds_up [of "\<lparr>FeeEpoch = 0, MaximumFee = 1000, BasisPoints = 25\<rparr>" 401] by auto

text \<open>
  For more than 100 percent the rounding can wrap: there is a fee and an amount whose exact fee is \<open>2^64\<close>, where the
  code reports success with the fee 0; only a quotient of at least \<open>2^64\<close> is reported as an overflow.
\<close>

lemma CalculateFee_wraps:
  "CalculateFee \<lparr>FeeEpoch = 0, MaximumFee = - 1, BasisPoints = 10001\<rparr> 18444899583751176498 = (0, True) \<and>
    (18444899583751176498 * 10001 + 9999) div 10000 = (2 :: nat) ^ 64 \<and>
    (snd (CalculateFee v amount) \<longleftrightarrow> unat amount * unat (BasisPoints v) div 10000 < 2 ^ 64)"
proof (intro conjI)
  show "CalculateFee \<lparr>FeeEpoch = 0, MaximumFee = - 1, BasisPoints = 10001\<rparr> 18444899583751176498 = (0, True)"
    by (simp add: CalculateFee_eq min_def)
  show "(18444899583751176498 * 10001 + 9999) div 10000 = (2 :: nat) ^ 64" by simp
  show "snd (CalculateFee v amount) \<longleftrightarrow> unat amount * unat (BasisPoints v) div 10000 < 2 ^ 64"
    by (simp add: CalculateFee_eq Let_def div_less_iff_less_mult not_le)
qed

section \<open>The transfer-fee configuration\<close>

definition maybe_null_ok :: "OptionalPubkey22 \<Rightarrow> bool" where
  "maybe_null_ok x \<longleftrightarrow> x = NoPubkey22 \<or> (KeySet22 x \<and> length (KeyValue22 x) = 32)"

definition maybe_null_bytes :: "OptionalPubkey22 \<Rightarrow> bytes" where
  "maybe_null_bytes x = (if KeySet22 x then KeyValue22 x else zero_pubkey)"

lemma put_maybe_null:
  "maybe_null_ok x \<Longrightarrow> length d = 32 \<Longrightarrow>
     putMaybeNullPubkey x d = (if x = SomePubkey22 zero_pubkey then Inl ErrInvalidExtension else Inr (maybe_null_bytes x))"
  by (cases x) (auto simp: putMaybeNullPubkey_def maybe_null_ok_def maybe_null_bytes_def SomePubkey22_def NoPubkey22_def
      zero_pubkey_def put_slice_all)

lemma decode_maybe_null:
  "maybe_null_ok x \<Longrightarrow> x \<noteq> SomePubkey22 zero_pubkey \<Longrightarrow> decodeMaybeNullPubkey (maybe_null_bytes x) = x"
  by (cases x) (auto simp: decodeMaybeNullPubkey_def maybe_null_ok_def maybe_null_bytes_def SomePubkey22_def NoPubkey22_def
      Let_def put_slice_all)

lemma length_maybe_null [simp]: "maybe_null_ok x \<Longrightarrow> length (maybe_null_bytes x) = 32"
  by (auto simp: maybe_null_ok_def maybe_null_bytes_def NoPubkey22_def)

lemma EncodeTransferFee_eq: "EncodeTransferFee v = le_bytes 8 (FeeEpoch v) @ le_bytes 8 (MaximumFee v) @ le_bytes 2 (BasisPoints v)"
proof -
  have z: "replicate 18 (0 :: u8) = replicate 8 0 @ replicate 8 0 @ replicate 2 0" by (simp flip: replicate_add)
  show ?thesis unfolding EncodeTransferFee_def Let_def z by (simp add: put_u64_def put_head put_slice_right put_slice_all)
qed

lemma decode_transfer_fee: "DecodeTransferFee (EncodeTransferFee v) = Inr v"
  by (simp add: DecodeTransferFee_def EncodeTransferFee_eq get_slice_left get_slice_right get_slice_all codec_simps)

text \<open>The configuration decodes from its encoding; only an authority that is set to the zero key is refused.\<close>

lemma transfer_fee_config_roundtrip:
  assumes "maybe_null_ok (ConfigAuthority c)" and "maybe_null_ok (WithdrawAuthority c)"
  shows "and_then (EncodeTransferFeeConfig c) DecodeTransferFeeConfig =
    (if ConfigAuthority c = SomePubkey22 zero_pubkey \<or> WithdrawAuthority c = SomePubkey22 zero_pubkey
     then Inl ErrInvalidExtension else Inr c)"
proof -
  let ?a = "ConfigAuthority c" and ?w = "WithdrawAuthority c"
  have z: "replicate 108 (0 :: u8) = [] @ replicate 32 0 @ (replicate 32 0 @ replicate 8 0 @ replicate 18 0 @ replicate 18 0)"
    by (simp flip: replicate_add)
  have l: "length (EncodeTransferFee f) = 18" for f by (simp add: EncodeTransferFee_eq)
  have 1: "write_through 0 32 (putMaybeNullPubkey ?a) (replicate 108 0) =
      (if ?a = SomePubkey22 zero_pubkey then Inl ErrInvalidExtension
       else Inr (maybe_null_bytes ?a @ replicate 32 0 @ replicate 8 0 @ replicate 18 0 @ replicate 18 0))"
    unfolding z by (simp add: write_through_def get_slice_left get_slice_all put_head put_maybe_null assms)
  have 2: "write_through 32 32 (putMaybeNullPubkey ?w) (maybe_null_bytes ?a @ replicate 32 0 @ t) =
      (if ?w = SomePubkey22 zero_pubkey then Inl ErrInvalidExtension else Inr (maybe_null_bytes ?a @ maybe_null_bytes ?w @ t))" for t
    by (simp add: write_through_def get_slice_right get_slice_left get_slice_all put_slice_right put_head put_maybe_null assms)
  have refused: "write_through 32 32 (putMaybeNullPubkey (SomePubkey22 zero_pubkey)) (maybe_null_bytes ?a @ replicate 32 0 @ t) =
      Inl ErrInvalidExtension" if "?w = SomePubkey22 zero_pubkey" for t
    using 2 [of t] that by simp
  have 3: "put_slice 90 (EncodeTransferFee (Newer c)) (put_slice 72 (EncodeTransferFee (Older c))
      (put_u64 64 (ConfigWithheldAmount c) (maybe_null_bytes ?a @ maybe_null_bytes ?w @ replicate 8 0 @ replicate 18 0 @ replicate 18 0))) =
      maybe_null_bytes ?a @ maybe_null_bytes ?w @ le_bytes 8 (ConfigWithheldAmount c) @ EncodeTransferFee (Older c) @ EncodeTransferFee (Newer c)"
    by (simp add: put_u64_def put_slice_right put_head put_slice_all l assms)
  show ?thesis
    unfolding EncodeTransferFeeConfig_def 1
    by (simp add: 2 refused 3 DecodeTransferFeeConfig_def l assms get_slice_left get_slice_right get_slice_all decode_transfer_fee
        decode_maybe_null codec_simps)
qed

end
