(* ===== verification/SdkPrograms.thy ===== *)
theory SdkPrograms
  imports SdkSystemFacts
begin

text \<open>
  \<open>src/sdk/loader\<close>, \<open>src/sdk/associatedtoken\<close> and \<open>src/sdk/metaplex\<close>: clients of the upgradeable loader, the Associated
  Token Account program and the Token Metadata program.

  A Go \<open>int\<close> argument is an integer; strings are byte lists.
\<close>

section \<open>The upgradeable loader\<close>

abbreviation (input) BufferMetadataSize :: int where "BufferMetadataSize \<equiv> 37"
abbreviation (input) ProgramMetadataSize :: u64 where "ProgramMetadataSize \<equiv> 36"
abbreviation (input) ProgramDataMetadataSize :: nat where "ProgramDataMetadataSize \<equiv> 45"

datatype loader_error = ErrTooLarge | ErrTruncatedProgramData nat | ErrNotProgramData | ErrLoaderSdk sdk_error

definition LoaderProgramID :: pubkey where
  "LoaderProgramID = the (MustParsePubkey (string_bytes ''BPFLoaderUpgradeab1e11111111111111111111111''))"

definition ClockSysvar :: pubkey where
  "ClockSysvar = the (MustParsePubkey (string_bytes ''SysvarC1ock11111111111111111111111111111111''))"

definition from_sdk :: "sdk_error + 'a \<Rightarrow> loader_error + 'a" where
  "from_sdk r = (case r of Inl e \<Rightarrow> Inl (ErrLoaderSdk e) | Inr x \<Rightarrow> Inr x)"

definition ProgramDataAddress :: "pubkey \<Rightarrow> sdk_error + pubkey" where
  "ProgramDataAddress programID = and_then (FindProgramAddress [programID] LoaderProgramID) (\<lambda>(address, _). Inr address)"

text \<open>\<open>uint64(programLen) > math.MaxUint64 - size\<close> never holds of an \<open>int\<close> that is not negative; it is kept as written.\<close>

definition CreateBuffer :: "pubkey \<Rightarrow> pubkey \<Rightarrow> pubkey \<Rightarrow> u64 \<Rightarrow> int \<Rightarrow> loader_error + Instruction list" where
  "CreateBuffer payer buffer authority lamports programLen =
     (if programLen < 0 \<or> (word_of_int programLen :: u64) > - 1 - word_of_int BufferMetadataSize then Inl ErrTooLarge
      else
        let create = CreateAccount payer buffer lamports (word_of_int (BufferMetadataSize + programLen)) LoaderProgramID;
            initialize = \<lparr>ProgramID = LoaderProgramID, Accounts = [Writable buffer False, Readonly authority False],
              Data = [0, 0, 0, 0]\<rparr> in
        Inr [create, initialize])"

definition loader_Write :: "pubkey \<Rightarrow> pubkey \<Rightarrow> u32 \<Rightarrow> bytes \<Rightarrow> Instruction" where
  "loader_Write buffer authority off bs =
     (let data = replicate (4 + 4 + 8 + length bs) 0;
          data = put_slice 0 (le_bytes 4 (1 :: u32)) data;
          data = put_slice 4 (le_bytes 4 off) data;
          data = put_u64 8 (of_nat (length bs)) data;
          data = put_slice 16 bs data in
      \<lparr>ProgramID = LoaderProgramID, Accounts = [Writable buffer False, Readonly authority True], Data = data\<rparr>)"

definition Upgrade :: "pubkey \<Rightarrow> pubkey \<Rightarrow> pubkey \<Rightarrow> pubkey \<Rightarrow> sdk_error + Instruction" where
  "Upgrade program buffer authority spill =
     and_then (ProgramDataAddress program) (\<lambda>programData.
       Inr \<lparr>ProgramID = LoaderProgramID,
         Accounts = [Writable programData False, Writable program False, Writable buffer False, Writable spill False,
           Readonly RentSysvar False, Readonly ClockSysvar False, Readonly authority True],
         Data = put_slice 0 (le_bytes 4 (3 :: u32)) (replicate 4 0)\<rparr>)"

record ProgramDataState =
  Slot :: u64
  HasAuthority :: bool
  PAuthority :: pubkey
  ProgramBytes :: bytes

definition DecodeProgramDataAccount :: "bytes \<Rightarrow> loader_error + ProgramDataState" where
  "DecodeProgramDataAccount data =
     (if length data < ProgramDataMetadataSize then Inl (ErrTruncatedProgramData (length data))
      else if (le_word (take 4 data) :: u32) \<noteq> 3 then Inl ErrNotProgramData
      else Inr \<lparr>Slot = le_word (get_slice 4 8 data), HasAuthority = (data ! 12 = 1),
        PAuthority = get_slice 13 (ProgramDataMetadataSize - 13) data, ProgramBytes = drop ProgramDataMetadataSize data\<rparr>)"

definition DeployWithMaxDataLen ::
  "pubkey \<Rightarrow> pubkey \<Rightarrow> pubkey \<Rightarrow> pubkey \<Rightarrow> u64 \<Rightarrow> int \<Rightarrow> loader_error + Instruction list" where
  "DeployWithMaxDataLen payer program buffer authority programLamports maxDataLen =
     (if maxDataLen < 0 \<or> (word_of_int maxDataLen :: u64) > - 1 - of_nat ProgramDataMetadataSize then Inl ErrTooLarge
      else
        and_then (from_sdk (ProgramDataAddress program)) (\<lambda>programData.
          let create = CreateAccount payer program programLamports ProgramMetadataSize LoaderProgramID;
              data = replicate 12 0;
              data = put_slice 0 (le_bytes 4 (2 :: u32)) data;
              data = put_u64 4 (word_of_int maxDataLen) data;
              deploy = \<lparr>ProgramID = LoaderProgramID,
                Accounts = [Writable payer True, Writable programData False, Writable program False, Writable buffer False,
                  Readonly RentSysvar False, Readonly ClockSysvar False, Readonly SystemProgramID False,
                  Readonly authority True],
                Data = data\<rparr> in
          Inr [create, deploy]))"

section \<open>Associated token accounts\<close>

definition AssociatedTokenProgramID :: pubkey where
  "AssociatedTokenProgramID = the (MustParsePubkey (string_bytes ''ATokenGPvbdGVxr1b2hvZbsiqW5xWH25efTNsLJA8knL''))"

definition Derive :: "pubkey \<Rightarrow> pubkey \<Rightarrow> pubkey \<Rightarrow> sdk_error + (pubkey \<times> u8)" where
  "Derive owner mint tokenProgramID = FindProgramAddress [owner, tokenProgramID, mint] AssociatedTokenProgramID"

definition build_associated :: "pubkey \<Rightarrow> pubkey \<Rightarrow> pubkey \<Rightarrow> pubkey \<Rightarrow> u8 \<Rightarrow> sdk_error + (Instruction \<times> pubkey)" where
  "build_associated payer owner mint tokenProgramID discriminator =
     and_then (Derive owner mint tokenProgramID) (\<lambda>(associatedAccount, _).
       Inr (\<lparr>ProgramID = AssociatedTokenProgramID,
         Accounts = [Writable payer True, Writable associatedAccount False, Readonly owner False, Readonly mint False,
           Readonly SystemProgramID False, Readonly tokenProgramID False],
         Data = [discriminator]\<rparr>, associatedAccount))"

definition CreateAssociated :: "pubkey \<Rightarrow> pubkey \<Rightarrow> pubkey \<Rightarrow> pubkey \<Rightarrow> sdk_error + (Instruction \<times> pubkey)" where
  "CreateAssociated payer owner mint tokenProgramID = build_associated payer owner mint tokenProgramID 0"

definition CreateIdempotent :: "pubkey \<Rightarrow> pubkey \<Rightarrow> pubkey \<Rightarrow> pubkey \<Rightarrow> sdk_error + (Instruction \<times> pubkey)" where
  "CreateIdempotent payer owner mint tokenProgramID = build_associated payer owner mint tokenProgramID 1"

section \<open>Token metadata\<close>

abbreviation (input) createDiscriminator :: u8 where "createDiscriminator \<equiv> 42"

datatype metaplex_error = ErrStringTooLong | ErrSellerFee u16 | ErrMetaplexSdk sdk_error

definition MetaplexProgramID :: pubkey where
  "MetaplexProgramID = the (MustParsePubkey (string_bytes ''metaqbxxUerdq28cj1RbAWkYQm3ybzjb6a8bt518x1s''))"

definition SysvarInstructionsID :: pubkey where
  "SysvarInstructionsID = the (MustParsePubkey (string_bytes ''Sysvar1nstructions1111111111111111111111111''))"

definition metaplex_sdk :: "sdk_error + 'a \<Rightarrow> metaplex_error + 'a" where
  "metaplex_sdk r = (case r of Inl e \<Rightarrow> Inl (ErrMetaplexSdk e) | Inr x \<Rightarrow> Inr x)"

definition DeriveMetadataAddress :: "pubkey \<Rightarrow> sdk_error + (pubkey \<times> u8)" where
  "DeriveMetadataAddress mint = FindProgramAddress [string_bytes ''metadata'', MetaplexProgramID, mint] MetaplexProgramID"

definition DeriveMasterEditionAddress :: "pubkey \<Rightarrow> sdk_error + (pubkey \<times> u8)" where
  "DeriveMasterEditionAddress mint =
     FindProgramAddress [string_bytes ''metadata'', MetaplexProgramID, mint, string_bytes ''edition''] MetaplexProgramID"

definition tokenStandardByte :: "u8 \<Rightarrow> u8" where
  "tokenStandardByte decimals = (if decimals = 0 then 1 else 2)"

definition metadata_boolByte :: "bool \<Rightarrow> u8" where
  "metadata_boolByte v = (if v then 1 else 0)"

definition appendBorshString :: "bytes \<Rightarrow> bytes \<Rightarrow> metaplex_error + bytes" where
  "appendBorshString dst v =
     (if length v > 0xffffffff then Inl ErrStringTooLong
      else Inr ((dst @ le_bytes 4 (of_nat (length v) :: u32)) @ v))"

text \<open>The two tags and the three strings both builders start with.\<close>

definition create_strings :: "bytes \<Rightarrow> bytes \<Rightarrow> bytes \<Rightarrow> metaplex_error + bytes" where
  "create_strings name symbol uri =
     and_then (appendBorshString [createDiscriminator, 0] name) (\<lambda>data.
     and_then (appendBorshString data symbol) (\<lambda>data. appendBorshString data uri))"

definition CreateV1 ::
  "pubkey \<Rightarrow> pubkey \<Rightarrow> pubkey \<Rightarrow> pubkey \<Rightarrow> pubkey \<Rightarrow> bool \<Rightarrow> bytes \<Rightarrow> bytes \<Rightarrow> bytes \<Rightarrow> u8 \<Rightarrow> bool \<Rightarrow>
     metaplex_error + (Instruction \<times> pubkey)" where
  "CreateV1 mint mintAuthority payer updateAuthority tokenProgramID updateAuthoritySigner name symbol uri decimals isMutable =
     and_then (metaplex_sdk (DeriveMetadataAddress mint)) (\<lambda>(metadataAddress, _).
     and_then (create_strings name symbol uri) (\<lambda>data.
       let data = data @ le_bytes 2 (0 :: u16);
           data = data @ [0];
           data = data @ [0];
           data = data @ [metadata_boolByte isMutable];
           data = data @ [tokenStandardByte decimals];
           data = data @ [0];
           data = data @ [0];
           data = data @ [0];
           data = data @ [0];
           data = data @ [1, decimals];
           data = data @ [0] in
       Inr (\<lparr>ProgramID = MetaplexProgramID,
         Accounts = [Writable metadataAddress False, Readonly MetaplexProgramID False, Writable mint False,
           Readonly mintAuthority True, Writable payer True, Readonly updateAuthority updateAuthoritySigner,
           Readonly SystemProgramID False, Readonly SysvarInstructionsID False, Readonly tokenProgramID False],
         Data = data\<rparr>, metadataAddress)))"

definition CreateNFTV1 ::
  "pubkey \<Rightarrow> pubkey \<Rightarrow> pubkey \<Rightarrow> pubkey \<Rightarrow> pubkey \<Rightarrow> bool \<Rightarrow> bytes \<Rightarrow> bytes \<Rightarrow> bytes \<Rightarrow> bool \<Rightarrow> u16 \<Rightarrow>
     metaplex_error + (Instruction \<times> pubkey \<times> pubkey)" where
  "CreateNFTV1 mint mintAuthority payer updateAuthority tokenProgramID updateAuthoritySigner name symbol uri isMutable
      sellerFeeBasisPoints =
     (if sellerFeeBasisPoints > 10000 then Inl (ErrSellerFee sellerFeeBasisPoints)
      else
        and_then (metaplex_sdk (DeriveMetadataAddress mint)) (\<lambda>(metadataAddress, _).
        and_then (metaplex_sdk (DeriveMasterEditionAddress mint)) (\<lambda>(masterEditionAddress, _).
        and_then (create_strings name symbol uri) (\<lambda>data.
          let data = data @ le_bytes 2 sellerFeeBasisPoints;
              data = (if sellerFeeBasisPoints > 0
                then ((((data @ [1]) @ le_bytes 4 (1 :: u32)) @ updateAuthority) @ [1]) @ [100]
                else data @ [0]);
              data = data @ [0];
              data = data @ [metadata_boolByte isMutable];
              data = data @ [0];
              data = data @ [0];
              data = data @ [0];
              data = data @ [0];
              data = data @ [0];
              data = data @ [1, 0];
              data = data @ [1, 0] in
          Inr (\<lparr>ProgramID = MetaplexProgramID,
            Accounts = [Writable metadataAddress False, Writable masterEditionAddress False, Writable mint False,
              Readonly mintAuthority True, Writable payer True, Readonly updateAuthority updateAuthoritySigner,
              Readonly SystemProgramID False, Readonly SysvarInstructionsID False, Readonly tokenProgramID False],
            Data = data\<rparr>, metadataAddress, masterEditionAddress)))))"

section \<open>Facts\<close>

lemma loader_Write_eq:
  "Data (loader_Write buffer authority off bs) =
     le_bytes 4 (1 :: u32) @ le_bytes 4 off @ le_bytes 8 (of_nat (length bs) :: u64) @ bs"
proof -
  have z: "replicate (4 + 4 + 8 + length bs) (0 :: u8) = replicate 4 0 @ replicate 4 0 @ replicate 8 0 @ replicate (length bs) 0"
    by (simp only: replicate_add append_assoc)
  show ?thesis unfolding loader_Write_def Let_def z by (simp add: put_u64_def put_head put_slice_right put_slice_all)
qed

end
