(* ===== verification/SbpfCodec.thy ===== *)
theory SbpfCodec
  imports SbpfInstruction
begin

text \<open>
  \<open>src/sbpf/encoder.go\<close> and \<open>src/sbpf/decoder.go\<close>: the 8-byte slot format.  An instruction is one
  slot, except \<open>LD_DW_IMM\<close>, whose second slot carries the high half of its immediate and nothing
  else.

  The main result is that \<open>Encode\<close> and \<open>Decode\<close> are inverse to each other on what they accept, in
  both directions: an accepted byte string has one decoding and that decoding encodes to the same
  bytes, so bytecode is canonical.
\<close>

section \<open>Encoding\<close>

definition encodeSlot ::
  "opcode \<Rightarrow> register \<Rightarrow> register \<Rightarrow> u16 \<Rightarrow> u32 \<Rightarrow> bytes" where
  "encodeSlot op destination source off imm =
     [op, push_bit 4 source OR destination] @ le_bytes 2 off @ le_bytes 4 imm"

definition encode_valid :: "instruction \<Rightarrow> bytes" where
  "encode_valid ins =
     encodeSlot (Op ins) (Dst ins) (Src ins) (Offset ins) (ucast (Immediate ins)) @
     (if Op ins = LD_DW_IMM
      then [0, 0, 0, 0] @ le_bytes 4 (ucast (drop_bit 32 (Immediate ins)) :: u32) else [])"

definition EncodeInstruction :: "instruction \<Rightarrow> sbpf_error + bytes" where
  "EncodeInstruction ins =
     (case ValidateInstruction ins of Some e \<Rightarrow> Inl e | None \<Rightarrow> Inr (encode_valid ins))"

fun encode_loop :: "instruction list \<Rightarrow> sbpf_error + bytes" where
  "encode_loop [] = Inr []"
| "encode_loop (ins # rest) =
     and_then (EncodeInstruction ins) (\<lambda>b. and_then (encode_loop rest) (\<lambda>bs. Inr (b @ bs)))"

definition Encode :: "instruction list \<Rightarrow> sbpf_error + bytes" where
  "Encode p = (case ValidateProgram p of Some e \<Rightarrow> Inl e | None \<Rightarrow> encode_loop p)"

section \<open>Decoding\<close>

definition decodeSlot :: "bytes \<Rightarrow> instruction" where
  "decodeSlot slot =
     \<lparr>Op = slot ! 0, Dst = slot ! 1 AND 0x0f, Src = drop_bit 4 (slot ! 1),
      Offset = le_word (get_slice 2 2 slot),
      Immediate = scast (le_word (get_slice 4 4 slot) :: u32)\<rparr>"

definition join_immediate :: "instruction \<Rightarrow> bytes \<Rightarrow> instruction" where
  "join_immediate ins continuation =
     (let low = (ucast (ucast (Immediate ins) :: u32) :: u64);
          high = push_bit 32 (ucast (le_word (get_slice 4 4 continuation) :: u32))
      in ins\<lparr>Immediate := high OR low\<rparr>)"

text \<open>The loop over slots; \<open>bytecode\<close> is what is left to read.\<close>

function decode_loop :: "bytes \<Rightarrow> sbpf_error + instruction list" where
  "decode_loop bytecode =
    (if length bytecode < InstructionSize then Inr []
     else
       let ins = decodeSlot (take InstructionSize bytecode); rest = drop InstructionSize bytecode in
       if Op ins = LD_DW_IMM then
         (if length rest < InstructionSize then Inl ErrMalformedBytecode
          else let continuation = take InstructionSize rest in
            if continuation ! 0 \<noteq> 0 then Inl ErrMalformedBytecode
            else if continuation ! 1 \<noteq> 0 \<or> continuation ! 2 \<noteq> 0 \<or> continuation ! 3 \<noteq> 0
              then Inl ErrMalformedBytecode
            else and_then (decode_loop (drop InstructionSize rest))
                   (\<lambda>p. Inr (join_immediate ins continuation # p)))
       else and_then (decode_loop rest) (\<lambda>p. Inr (ins # p)))"
  by pat_completeness auto
termination
  by (relation "measure length") (auto simp: Let_def)

declare decode_loop.simps [simp del]

definition Decode :: "bytes \<Rightarrow> sbpf_error + instruction list" where
  "Decode bytecode =
    (if length bytecode = 0 then Inl ErrEmptyProgram
     else if length bytecode mod InstructionSize \<noteq> 0 then Inl ErrMalformedBytecode
     else if int (length bytecode div InstructionSize) > MaxProgramInstructions
       then Inl ErrProgramTooLarge
     else and_then (decode_loop bytecode)
       (\<lambda>p. case ValidateProgram p of Some e \<Rightarrow> Inl e | None \<Rightarrow> Inr p))"

definition DecodeInstruction :: "bytes \<Rightarrow> sbpf_error + instruction" where
  "DecodeInstruction bytecode =
     and_then (Decode bytecode)
       (\<lambda>p. if length p \<noteq> 1 then Inl ErrMalformedBytecode else Inr (p ! 0))"

section \<open>Fields\<close>

lemma nibbles_split:
  fixes d s :: u8
  assumes "d < 16" and "s < 16"
  shows "(push_bit 4 s OR d) AND 0x0f = d" and "drop_bit 4 (push_bit 4 s OR d) = s"
proof -
  have small: "bit w j \<Longrightarrow> j < 4" if "w < 16" for w :: u8 and j
  proof (rule ccontr)
    assume b: "bit w j" and "\<not> j < 4"
    have "unat w < 16" using that by (simp add: word_less_nat_alt)
    then have "take_bit 4 (unat w) = unat w" by (simp add: take_bit_nat_eq_self)
    then have "take_bit 4 w = w"
      by (simp add: word_eq_iff_unsigned [where ?'a = nat] unsigned_take_bit_eq)
    with b \<open>\<not> j < 4\<close> show False by (metis bit_take_bit_iff)
  qed
  have fifteen: "(0x0f :: u8) = mask 4" by (simp add: mask_eq_exp_minus_1)
  show "(push_bit 4 s OR d) AND 0x0f = d"
    unfolding fifteen by (rule bit_word_eqI) (auto simp: bit_simps dest: small [OF assms(1)])
  show "drop_bit 4 (push_bit 4 s OR d) = s"
    by (rule bit_word_eqI)
      (auto simp: bit_simps dest: small [OF assms(1)] small [OF assms(2)])
qed

lemma nibbles_join: "push_bit 4 (drop_bit 4 b) OR (b AND 0x0f) = (b :: u8)"
proof -
  have fifteen: "(0x0f :: u8) = mask 4" by (simp add: mask_eq_exp_minus_1)
  show ?thesis
    unfolding fifteen by (rule bit_word_eqI) (auto simp: bit_simps)
qed

lemma scast_ucast_fits:
  "fits_i32 imm \<Longrightarrow> scast (ucast imm :: u32) = imm"
proof -
  assume fits: "fits_i32 imm"
  have "sint (ucast imm :: u32) = signed_take_bit 31 (uint imm)"
    by (simp add: signed_ucast_eq)
  also have "\<dots> = signed_take_bit 31 (sint imm)"
    by (rule bit_eqI) (auto simp: bit_simps)
  also have "\<dots> = sint imm"
    using fits by (simp add: fits_i32_def signed_take_bit_int_eq_self)
  finally show ?thesis by (metis of_int_sint scast_id)
qed

lemma ucast_scast_u32: "ucast (scast (w :: u32) :: u64) = w"
  by (rule bit_word_eqI) (auto simp: bit_simps)

lemma split_immediate:
  "push_bit 32 (ucast (ucast (drop_bit 32 imm) :: u32)) OR ucast (ucast imm :: u32) = (imm :: u64)"
  by (rule bit_word_eqI) (auto simp: bit_simps)

section \<open>One slot\<close>

lemma length_encodeSlot [simp]: "length (encodeSlot op d s off imm) = 8"
  by (simp add: encodeSlot_def)

lemma encodeSlot_nth:
  "encodeSlot op d s off imm ! 0 = op"
  "encodeSlot op d s off imm ! Suc 0 = push_bit 4 s OR d"
  by (simp_all add: encodeSlot_def)

lemma encodeSlot_slices:
  "get_slice 2 2 (encodeSlot op d s off imm) = le_bytes 2 off"
  "get_slice 4 4 (encodeSlot op d s off imm) = le_bytes 4 imm"
  by (simp_all add: encodeSlot_def get_slice_def)

lemma decodeSlot_encodeSlot:
  assumes "d < 16" and "s < 16"
  shows "decodeSlot (encodeSlot op d s off imm) =
    \<lparr>Op = op, Dst = d, Src = s, Offset = off, Immediate = scast imm\<rparr>"
  using nibbles_split [OF assms]
  by (simp add: decodeSlot_def encodeSlot_slices encodeSlot_nth codec_simps del: drop_bit_or)

lemma list8_split:
  assumes "length xs = 8"
  shows "xs = [xs ! 0, xs ! 1] @ get_slice 2 2 xs @ get_slice 4 4 xs"
proof -
  have "xs = take 2 xs @ take 2 (drop 2 xs) @ drop 4 xs"
    using append_take_drop_id [of 2 xs] append_take_drop_id [of 2 "drop 2 xs"] by (simp add: numeral_eq_Suc)
  moreover have "take 2 xs = [xs ! 0, xs ! 1]"
    using assms by (simp add: numeral_eq_Suc take_Suc_conv_app_nth)
  moreover have "drop 4 xs = take 4 (drop 4 xs)" using assms by simp
  ultimately show ?thesis unfolding get_slice_def by metis
qed

lemma encodeSlot_decodeSlot:
  assumes "length slot = 8"
  shows "encodeSlot (Op (decodeSlot slot)) (Dst (decodeSlot slot)) (Src (decodeSlot slot))
     (Offset (decodeSlot slot)) (ucast (Immediate (decodeSlot slot))) = slot"
proof -
  have "length (get_slice 2 2 slot) = 2" "length (get_slice 4 4 slot) = 4"
    using assms by simp_all
  then show ?thesis
    using list8_split [OF assms]
    by (simp add: decodeSlot_def encodeSlot_def nibbles_join ucast_scast_u32 le_bytes_le_word)
qed

section \<open>Whole programs\<close>

lemma length_encode_valid: "length (encode_valid ins) = nat (8 * Slots ins)"
  by (simp add: encode_valid_def Slots_def)

lemma length_encode_concat: "int (length (concat (map encode_valid p))) = 8 * slot_sum p"
proof (induction p)
  case Nil
  then show ?case by simp
next
  case (Cons ins p)
  then show ?case using Slots_pos [of ins] by (simp add: length_encode_valid)
qed

lemma ValidateInstruction_nibbles:
  assumes "ValidateInstruction ins = None"
  shows "Dst ins < 16" and "Src ins < 16"
proof -
  have "(11 :: u8) < 16" by simp
  then show "Dst ins < 16" "Src ins < 16"
    using ValidateInstruction_NoneD(2,3) [OF assms] by (auto intro: less_trans)
qed

lemma decode_loop_step:
  assumes ok: "ValidateInstruction ins = None"
  shows "decode_loop (encode_valid ins @ rest) =
    and_then (decode_loop rest) (\<lambda>p. Inr (ins # p))"
proof -
  note nib = ValidateInstruction_nibbles [OF ok]
  let ?slot = "encodeSlot (Op ins) (Dst ins) (Src ins) (Offset ins) (ucast (Immediate ins))"
  have slot: "decodeSlot ?slot = ins\<lparr>Immediate := scast (ucast (Immediate ins) :: u32)\<rparr>"
    by (simp add: decodeSlot_encodeSlot [OF nib])
  show ?thesis
  proof (cases "Op ins = LD_DW_IMM")
    case True
    define cont where "cont = [0, 0, 0, 0] @ le_bytes 4 (ucast (drop_bit 32 (Immediate ins)) :: u32)"
    define slot where "slot = ?slot"
    have bytes: "encode_valid ins @ rest = slot @ (cont @ rest)"
      by (simp add: encode_valid_def True cont_def slot_def)
    have len: "length slot = 8" "length cont = 8"
      by (simp_all add: slot_def cont_def)
    have nth: "cont ! 0 = 0" "cont ! Suc 0 = 0" "cont ! 2 = 0" "cont ! 3 = 0"
      by (simp_all add: cont_def numeral_eq_Suc)
    have slice: "get_slice 4 4 cont = le_bytes 4 (ucast (drop_bit 32 (Immediate ins)) :: u32)"
      by (simp add: cont_def get_slice_def)
    have join: "join_immediate (decodeSlot slot) cont = ins"
      unfolding join_immediate_def Let_def slice
      by (simp add: slot_def slot ucast_scast_u32 le_word_le_bytes_full split_immediate)
    have op: "Op (decodeSlot slot) = LD_DW_IMM"
      unfolding slot_def slot using True by simp
    show ?thesis
      unfolding bytes by (subst decode_loop.simps) (simp add: len nth join op)
  next
    case False
    have imm: "scast (ucast (Immediate ins) :: u32) = Immediate ins"
      using ValidateInstruction_NoneD(5) [OF ok False] by (rule scast_ucast_fits)
    have bytes: "encode_valid ins @ rest = ?slot @ rest"
      by (simp add: encode_valid_def False)
    show ?thesis
      unfolding bytes by (subst decode_loop.simps) (simp add: slot False imm)
  qed
qed

lemma encode_loop_valid:
  "\<forall>ins \<in> set p. ValidateInstruction ins = None \<Longrightarrow> encode_loop p = Inr (concat (map encode_valid p))"
  by (induction p) (simp_all add: EncodeInstruction_def)

lemma decode_loop_encoded:
  "\<forall>ins \<in> set p. ValidateInstruction ins = None \<Longrightarrow> decode_loop (concat (map encode_valid p)) = Inr p"
proof (induction p)
  case Nil
  then show ?case by (simp add: decode_loop.simps)
next
  case (Cons ins p)
  then show ?case by (simp add: decode_loop_step)
qed

lemma ValidateProgram_instructions:
  "ValidateProgram p = None \<Longrightarrow> \<forall>ins \<in> set p. ValidateInstruction ins = None"
  by (auto simp: ValidateProgram_iff program_ok_def in_set_conv_nth)

lemma Encode_eq:
  "Encode p = (case ValidateProgram p of Some e \<Rightarrow> Inl e
     | None \<Rightarrow> Inr (concat (map encode_valid p)))"
  by (auto simp: Encode_def encode_loop_valid dest: ValidateProgram_instructions split: option.split)

text \<open>Decoding loses nothing: the slots re-encode to the bytes they were read from.\<close>

lemma encode_join_immediate:
  assumes len: "length slot = 8" "length cont = 8" and op: "Op (decodeSlot slot) = LD_DW_IMM"
    and z: "cont ! 0 = 0" "cont ! 1 = 0" "cont ! 2 = 0" "cont ! 3 = 0"
  shows "encode_valid (join_immediate (decodeSlot slot) cont) = slot @ cont"
proof -
  let ?i = "decodeSlot slot" and ?j = "join_immediate (decodeSlot slot) cont"
  have low: "(ucast (Immediate ?j) :: u32) = ucast (Immediate ?i)"
    by (rule bit_word_eqI) (auto simp: join_immediate_def Let_def bit_simps)
  have high: "(ucast (drop_bit 32 (Immediate ?j)) :: u32) = le_word (get_slice 4 4 cont)"
    by (rule bit_word_eqI) (auto simp: join_immediate_def Let_def bit_simps)
  have fields: "Op ?j = LD_DW_IMM" "Dst ?j = Dst ?i" "Src ?j = Src ?i" "Offset ?j = Offset ?i"
    using op by (simp_all add: join_immediate_def Let_def)
  have "get_slice 2 2 cont = [cont ! 2, cont ! 3]"
    using len(2) by (auto simp: get_slice_def numeral_eq_Suc take_Suc_conv_app_nth)
  then have "cont = [0, 0, 0, 0] @ get_slice 4 4 cont"
    using list8_split [OF len(2)] z by simp
  moreover have "le_bytes 4 (le_word (get_slice 4 4 cont) :: u32) = get_slice 4 4 cont"
    using len(2) by (simp add: le_bytes_le_word)
  moreover have "encodeSlot LD_DW_IMM (Dst ?i) (Src ?i) (Offset ?i) (ucast (Immediate ?i)) = slot"
    using encodeSlot_decodeSlot [OF len(1)] op by simp
  ultimately show ?thesis
    unfolding encode_valid_def fields low high by simp
qed

lemma encode_decode_loop:
  "length bs mod 8 = 0 \<Longrightarrow> decode_loop bs = Inr p \<Longrightarrow> concat (map encode_valid p) = bs"
proof (induction bs arbitrary: p rule: decode_loop.induct)
  case (1 bs)
  show ?case
  proof (cases "length bs < 8")
    case True
    with "1.prems" show ?thesis by (auto simp: decode_loop.simps)
  next
    case False
    let ?slot = "take 8 bs" and ?rest = "drop 8 bs"
    have mod: "length ?rest mod 8 = 0" using "1.prems"(1) False by (simp add: mod_if)
    show ?thesis
    proof (cases "Op (decodeSlot ?slot) = LD_DW_IMM")
      case ld: True
      let ?cont = "take 8 ?rest"
      from "1.prems"(2) False ld obtain q where
        len: "\<not> length ?rest < 8" and z: "?cont ! 0 = 0" "?cont ! 1 = 0" "?cont ! 2 = 0" "?cont ! 3 = 0"
        and q: "decode_loop (drop 8 ?rest) = Inr q" and p: "p = join_immediate (decodeSlot ?slot) ?cont # q"
        by (subst (asm) decode_loop.simps)
          (auto simp: Let_def and_then_Inr_conv simp del: drop_drop length_drop split: if_splits)
      have "concat (map encode_valid q) = drop 8 ?rest"
        by (rule "1.IH"(1) [OF False refl refl ld len refl _ _ _ q])
          (use z mod len in \<open>simp_all del: drop_drop add: mod_if\<close>)
      moreover have "encode_valid (join_immediate (decodeSlot ?slot) ?cont) = ?slot @ ?cont"
        using False len z ld by (intro encode_join_immediate) simp_all
      ultimately show ?thesis
        unfolding p using append_take_drop_id [of 8 bs] append_take_drop_id [of 8 ?rest] by simp
    next
      case ld: False
      from "1.prems"(2) False ld obtain q where
        q: "decode_loop ?rest = Inr q" and p: "p = decodeSlot ?slot # q"
        by (subst (asm) decode_loop.simps) (auto simp: Let_def and_then_Inr_conv)
      have "concat (map encode_valid q) = ?rest"
        using mod q by (intro "1.IH"(2) [OF False refl refl ld])
      moreover have "encode_valid (decodeSlot ?slot) = ?slot"
        using False ld by (simp add: encode_valid_def encodeSlot_decodeSlot)
      ultimately show ?thesis unfolding p by simp
    qed
  qed
qed

section \<open>Encode and Decode are inverse\<close>

lemma Decode_InrD:
  assumes "Decode bs = Inr p"
  shows "length bs mod 8 = 0" and "decode_loop bs = Inr p" and "ValidateProgram p = None"
  using assms by (auto simp: Decode_def and_then_Inr_conv split: if_splits option.splits)

lemma slot_sum_bounds:
  assumes "ValidateProgram p = None"
  shows "0 < slot_sum p \<and> slot_sum p \<le> MaxProgramInstructions"
proof -
  have "p \<noteq> []" and "slot_sum p \<le> MaxProgramInstructions"
    using assms by (auto simp: ValidateProgram_iff program_ok_def)
  moreover from this(1) have "0 < int (length p)" by simp
  ultimately show ?thesis using slot_sum_ge_length [of p] by linarith
qed

text \<open>
  C4. Bytecode is canonical: \<open>Decode\<close> accepts a byte string with result \<open>p\<close> exactly when
  \<open>Encode\<close> accepts \<open>p\<close> with that byte string as its result.  So decoding after encoding gives the
  program back, encoding after decoding gives the bytes back (the reserved bytes of a wide
  immediate's second slot included), and no two byte strings decode to the same program.
\<close>

theorem Decode_iff_Encode: "Decode bs = Inr p \<longleftrightarrow> Encode p = Inr bs"
proof
  assume "Decode bs = Inr p"
  note d = Decode_InrD [OF this]
  show "Encode p = Inr bs"
    using encode_decode_loop [OF d(1,2)] by (simp add: Encode_eq d(3))
next
  assume "Encode p = Inr bs"
  then have v: "ValidateProgram p = None" and bs: "bs = concat (map encode_valid p)"
    by (auto simp: Encode_eq split: option.splits)
  have len: "int (length bs) = 8 * slot_sum p" by (simp only: bs length_encode_concat)
  have "length bs mod 8 = 0" and "int (length bs div 8) = slot_sum p" and "length bs \<noteq> 0"
    using len slot_sum_bounds [OF v] by presburger+
  moreover have "decode_loop bs = Inr p"
    unfolding bs by (rule decode_loop_encoded [OF ValidateProgram_instructions [OF v]])
  ultimately show "Decode bs = Inr p"
    using slot_sum_bounds [OF v] by (simp add: Decode_def v)
qed

text \<open>
  \<open>Encode\<close> fails only on a program the validator refuses, with the validator's own error, and
  otherwise emits eight bytes per slot, within the decoder's size limit.
\<close>

lemma Encode_total:
  "(case Encode p of
      Inl e \<Rightarrow> ValidateProgram p = Some e
    | Inr bs \<Rightarrow> ValidateProgram p = None \<and> length bs = 8 * nat (sum_list (map Slots p)) \<and>
        length bs \<le> 8 * nat MaxProgramInstructions)"
proof (cases "ValidateProgram p")
  case None
  have "int (length (concat (map encode_valid p))) = 8 * slot_sum p"
    by (rule length_encode_concat)
  with slot_sum_bounds [OF None] show ?thesis
    by (simp add: Encode_eq None slot_sum_def)
qed (simp add: Encode_eq)

end
