(* ===== verification/SbpfDisassembler.thy ===== *)
theory SbpfDisassembler
  imports SbpfCodec Numerals
begin

text \<open>
  \<open>src/sbpf/disassembler.go\<close>: the listing of a program.  A listing determines the program it was made from.
\<close>

section \<open>The listing\<close>

definition Register_String :: "register \<Rightarrow> string" where
  "Register_String r = ''r'' @ decimal (unat r)"

definition signedOffset :: "u16 \<Rightarrow> string" where
  "signedOffset off = (if sint off \<ge> 0 then ''+'' @ signed_decimal (sint off) else signed_decimal (sint off))"

definition formatInstruction :: "instruction \<Rightarrow> int \<Rightarrow> string" where
  "formatInstruction ins pc =
     (let op = Op ins; name = Opcode_String op; dst = Register_String (Dst ins); src = Register_String (Src ins);
          off = signedOffset (Offset ins); imm = Immediate ins; target = pc + 1 + sint (Offset ins) in
      if op = LD_DW_IMM then name @ '' '' @ dst @ '', 0x'' @ padded_hex 16 (unat imm)
      else if isMemoryLoad op then name @ '' '' @ dst @ '', ['' @ src @ off @ '']''
      else if isMemoryStore op then name @ '' ['' @ dst @ off @ ''], '' @ src
      else if isALUImmediate op then name @ '' '' @ dst @ '', '' @ signed_decimal (sint imm)
      else if isALURegister op then name @ '' '' @ dst @ '', '' @ src
      else if op = NEG32 \<or> op = NEG64 then name @ '' '' @ dst
      else if op = JA then name @ '' '' @ off @ '' (-> '' @ padded_decimal 4 target @ '')''
      else if isJumpImmediate op then
        name @ '' '' @ dst @ '', '' @ signed_decimal (sint imm) @ '', '' @ off @ '' (-> '' @ padded_decimal 4 target @ '')''
      else if isJumpRegister op then
        name @ '' '' @ dst @ '', '' @ src @ '', '' @ off @ '' (-> '' @ padded_decimal 4 target @ '')''
      else if op = CALL_IMM then
        (if Src ins = 1 then
           name @ '' internal '' @ plus_decimal (sint imm) @ '' (-> '' @ padded_decimal 4 (pc + 1 + sint imm) @ '')''
         else name @ '' syscall 0x'' @ padded_hex 8 (unat (ucast imm :: u32)))
      else if op = EXIT then name
      else ''UNKNOWN 0x'' @ padded_hex 2 (unat op))"

fun listing :: "(int \<times> instruction) list \<Rightarrow> string" where
  "listing [] = ''''"
| "listing ((pc, ins) # rest) =
     padded_decimal 4 pc @ '': '' @ formatInstruction ins pc @
     (if rest = [] then '''' else [CHR 0x0A] @ listing rest)"

definition Disassemble :: "instruction list \<Rightarrow> sbpf_error + string" where
  "Disassemble p =
     (case ValidateProgram p of Some e \<Rightarrow> Inl e
      | None \<Rightarrow> let (pcs, _) = PhysicalPCs p in Inr (listing (zip pcs p)))"

definition DisassembleBytes :: "bytes \<Rightarrow> sbpf_error + string" where
  "DisassembleBytes bytecode = and_then (Decode bytecode) Disassemble"

section \<open>Reading a line\<close>

text \<open>The parts of a line contain none of the separators.\<close>

definition separator :: "char \<Rightarrow> bool" where
  "separator c \<longleftrightarrow> List.member '' ,():[]>'' c \<or> c = CHR 0x0A"

definition plain_text :: "string \<Rightarrow> bool" where
  "plain_text s \<longleftrightarrow> list_all (\<lambda>c. \<not> separator c) s"

lemma plain_texts [simp]:
  "plain_text []" "plain_text (c # s) \<longleftrightarrow> \<not> separator c \<and> plain_text s" "plain_text (s @ t) \<longleftrightarrow> plain_text s \<and> plain_text t"
  by (simp_all add: plain_text_def)

lemma separator_chars [simp]:
  "separator (CHR '' '')" "separator (CHR '','')" "separator (CHR ''('')" "separator (CHR '')'')" "separator (CHR '':'')"
  "separator (CHR ''['')" "separator (CHR '']'')" "separator (CHR ''>'')" "separator (CHR 0x0A)"
  "\<not> separator (CHR ''-'')" "\<not> separator (CHR ''+'')" "\<not> separator (CHR ''r'')" "\<not> separator (CHR ''x'')"
  by (simp_all add: separator_def)

lemma digit_no_separator: "is_digit c \<Longrightarrow> \<not> separator c"
  using no_digits by (auto simp: separator_def)

lemma plain_digits: "list_all is_digit s \<Longrightarrow> plain_text s"
  by (auto simp: plain_text_def list_all_iff dest: digit_no_separator)

lemma plain_numbers [simp]:
  "plain_text (decimal n)" "plain_text (padded_hex w n)" "plain_text (signed_decimal v)" "plain_text (plus_decimal v)"
  "plain_text (padded_decimal w v)" "plain_text (Register_String r)" "plain_text (signedOffset off)"
proof -
  show d: "plain_text (decimal n)" for n by (rule plain_digits [OF number_texts(1)])
  show "plain_text (padded_hex w n)" by (rule plain_digits [OF number_texts(2)])
  have "plain_text (pad_zeros w (decimal n))" for w n by (rule plain_digits [OF pad_zeros_digits [OF number_texts(1)]])
  then show "plain_text (padded_decimal w v)" by (simp add: padded_decimal_def)
  show "plain_text (Register_String r)" by (simp add: Register_String_def d)
  show s: "plain_text (signed_decimal v)" for v by (simp add: signed_decimal_def d)
  show "plain_text (plus_decimal v)" by (simp add: plus_decimal_def d)
  show "plain_text (signedOffset off)" by (simp add: signedOffset_def s)
qed

lemma split_plain:
  "plain_text xs \<Longrightarrow> plain_text ys \<Longrightarrow> separator c \<Longrightarrow> xs @ c # us = ys @ c # vs \<longleftrightarrow> xs = ys \<and> us = vs"
  by (rule separated) (auto simp: plain_text_def list_all_iff)

lemma Register_String_inj [simp]: "Register_String r = Register_String s \<longleftrightarrow> r = s"
  by (simp add: Register_String_def word_unat_eq_iff)

lemma signedOffset_sign: "signedOffset off = (if sint off < 0 then CHR ''-'' else CHR ''+'') # decimal (nat \<bar>sint off\<bar>)"
  by (simp add: signedOffset_def signed_decimal_def)

lemma signedOffset_inj [simp]: "signedOffset off = signedOffset off' \<longleftrightarrow> off = off'"
proof -
  have "signedOffset off = signedOffset off' \<Longrightarrow> sint off = sint off'" by (auto simp: signedOffset_sign split: if_splits)
  then show ?thesis by (auto simp: signed_word_eqI)
qed

text \<open>A register followed by an offset.\<close>

lemma register_offset [simp]:
  "Register_String r @ signedOffset off = Register_String s @ signedOffset off' \<longleftrightarrow> r = s \<and> off = off'"
proof
  assume e: "Register_String r @ signedOffset off = Register_String s @ signedOffset off'"
  have t: "takeWhile (\<lambda>c. c \<noteq> CHR ''+'' \<and> c \<noteq> CHR ''-'') (decimal n @ signedOffset o') = decimal n" for n o'
    using number_texts(1) [of n] no_digits by (subst takeWhile_append2) (auto simp: list_all_iff signedOffset_sign)
  have "decimal (unat r) @ signedOffset off = decimal (unat s) @ signedOffset off'" using e by (simp add: Register_String_def)
  then have "decimal (unat r) = decimal (unat s)" using t by metis
  then have "r = s" by (simp add: word_unat_eq_iff)
  then show "r = s \<and> off = off'" using e by simp
qed simp

lemma name_inj: "Opcode_valid op \<Longrightarrow> Opcode_valid op' \<Longrightarrow> Opcode_String op = Opcode_String op' \<longleftrightarrow> op = op'"
proof -
  assume v: "Opcode_valid op" "Opcode_valid op'"
  have "op = op'" if "Opcode_String op = Opcode_String op'"
  proof -
    obtain a b where m: "map_of opcodeNames op = Some a" "map_of opcodeNames op' = Some b"
      using v by (auto simp: Opcode_valid_def)
    then have "(op, a) \<in> set opcodeNames" "(op', a) \<in> set opcodeNames"
      using that by (auto simp: Opcode_String_def dest: map_of_SomeD)
    then show ?thesis using distinct_opcode_names by (fastforce simp: distinct_map inj_on_def)
  qed
  then show ?thesis by blast
qed

lemma name_plain: "Opcode_valid op \<Longrightarrow> plain_text (Opcode_String op)"
proof -
  assume "Opcode_valid op"
  then obtain a where m: "map_of opcodeNames op = Some a" by (auto simp: Opcode_valid_def)
  have "\<forall>a \<in> set (map snd opcodeNames). plain_text a" unfolding opcodeNames_def by (simp add: separator_def)
  moreover have "a \<in> set (map snd opcodeNames)" using map_of_SomeD [OF m] by force
  ultimately show ?thesis by (auto simp: Opcode_String_def m)
qed

section \<open>A line determines its instruction\<close>

lemma load_form [simp]:
  "Register_String r @ signedOffset off @ t = Register_String s @ signedOffset off' @ t \<longleftrightarrow> r = s \<and> off = off'"
  by (metis append.assoc append_same_eq register_offset)

lemma store_form [simp]:
  "Register_String r @ signedOffset off @ CHR '']'' # t = Register_String s @ signedOffset off' @ CHR '']'' # t' \<longleftrightarrow>
     r = s \<and> off = off' \<and> t = t'"
  using split_plain [of "Register_String r @ signedOffset off" "Register_String s @ signedOffset off'" "CHR '']''" t t']
  by simp

lemma cut_at:
  assumes "xs @ c # us = ys @ c # vs" and "separator c" and "plain_text xs" and "plain_text ys"
  shows "xs = ys" "us = vs"
  using split_plain [of xs ys c us vs] assms by blast+

lemma formatInstruction_name:
  assumes "Opcode_valid (Op ins)"
  shows "\<exists>t. formatInstruction ins pc = Opcode_String (Op ins) @ t \<and> (t = [] \<or> hd t = CHR '' '')"
  using assms by (auto simp: formatInstruction_def Let_def Opcode_valid_classes)

lemma same_name:
  assumes "Opcode_valid op" and "Opcode_valid op'" and "t = [] \<or> hd t = CHR '' ''" and "t' = [] \<or> hd t' = CHR '' ''"
    and e: "Opcode_String op @ t = Opcode_String op' @ t'"
  shows "op = op'"
proof -
  have w: "takeWhile (\<lambda>c. c \<noteq> CHR '' '') (Opcode_String o' @ u) = Opcode_String o'"
    if "Opcode_valid o'" "u = [] \<or> hd u = CHR '' ''" for o' u
  proof -
    have "\<forall>c \<in> set (Opcode_String o'). c \<noteq> CHR '' ''"
      using name_plain [OF that(1)] by (auto simp: plain_text_def list_all_iff)
    then show ?thesis using that(2) by (cases u) (auto simp: takeWhile_append2)
  qed
  have "Opcode_String op = Opcode_String op'" using w assms by metis
  then show ?thesis using name_inj assms(1,2) by blast
qed

lemma sint_eq [simp]: "sint v = sint w \<longleftrightarrow> v = (w :: 'a :: len word)"
  by (auto intro: signed_word_eqI)

lemma small_immediate:
  assumes "fits_i32 v" and "fits_i32 w" and "(ucast v :: u32) = ucast w"
  shows "v = w"
proof -
  have "scast (ucast v :: u32) = v" "scast (ucast w :: u32) = w"
    using assms(1,2) by (simp_all add: scast_ucast_fits)
  then show ?thesis using assms(3) by metis
qed

text \<open>The order of the tests of \<open>formatInstruction\<close> and \<open>ValidateInstruction\<close>.\<close>

lemma class_order:
  assumes "Opcode_valid op"
  obtains "op = LD_DW_IMM"
    | "op \<noteq> LD_DW_IMM" "isMemoryLoad op"
    | "op \<noteq> LD_DW_IMM" "\<not> isMemoryLoad op" "isMemoryStore op"
    | "op \<noteq> LD_DW_IMM" "\<not> isMemoryLoad op" "\<not> isMemoryStore op" "isALUImmediate op"
    | "op \<noteq> LD_DW_IMM" "\<not> isMemoryLoad op" "\<not> isMemoryStore op" "\<not> isALUImmediate op" "isALURegister op"
    | "op \<noteq> LD_DW_IMM" "\<not> isMemoryLoad op" "\<not> isMemoryStore op" "\<not> isALUImmediate op" "\<not> isALURegister op"
      "op = NEG32 \<or> op = NEG64"
    | "op = JA"
    | "op \<noteq> LD_DW_IMM" "\<not> isMemoryLoad op" "\<not> isMemoryStore op" "\<not> isALUImmediate op" "\<not> isALURegister op"
      "\<not> (op = NEG32 \<or> op = NEG64)" "op \<noteq> JA" "isJumpImmediate op"
    | "op \<noteq> LD_DW_IMM" "\<not> isMemoryLoad op" "\<not> isMemoryStore op" "\<not> isALUImmediate op" "\<not> isALURegister op"
      "\<not> (op = NEG32 \<or> op = NEG64)" "op \<noteq> JA" "\<not> isJumpImmediate op" "isJumpRegister op"
    | "op = CALL_IMM"
    | "op = EXIT"
  using assms unfolding Opcode_valid_classes by blast

lemma single_classes [simp]:
  "\<not> isMemoryLoad JA" "\<not> isMemoryStore JA" "\<not> isALUImmediate JA" "\<not> isALURegister JA"
  "\<not> isMemoryLoad CALL_IMM" "\<not> isMemoryStore CALL_IMM" "\<not> isALUImmediate CALL_IMM" "\<not> isALURegister CALL_IMM"
  "\<not> isJumpImmediate CALL_IMM" "\<not> isJumpRegister CALL_IMM"
  "\<not> isMemoryLoad EXIT" "\<not> isMemoryStore EXIT" "\<not> isALUImmediate EXIT" "\<not> isALURegister EXIT"
  "\<not> isJumpImmediate EXIT" "\<not> isJumpRegister EXIT"
  by (simp_all add: opcode_class_defs)

lemma formatInstruction_inj:
  assumes a: "ValidateInstruction a = None" and b: "ValidateInstruction b = None"
    and e: "formatInstruction a pc = formatInstruction b pc"
  shows "a = b"
proof -
  have v: "Opcode_valid (Op a)" "Opcode_valid (Op b)" "operands_ok a = None" "operands_ok b = None"
    and imm: "Op a \<noteq> LD_DW_IMM \<Longrightarrow> fits_i32 (Immediate a)" "Op b \<noteq> LD_DW_IMM \<Longrightarrow> fits_i32 (Immediate b)"
    using a b by (auto simp: ValidateInstruction_def split: if_splits)
  have op: "Op b = Op a"
    using formatInstruction_name [OF v(1), of pc] formatInstruction_name [OF v(2), of pc] same_name [OF v(2,1)] e by metis
  have eq: "a = b" if "Dst a = Dst b" "Src a = Src b" "Offset a = Offset b" "Immediate a = Immediate b"
    using that op by simp
  note fmt = e [unfolded formatInstruction_def op Let_def] and ok = v(3,4) [unfolded operands_ok_def op Let_def]
  show ?thesis
    using v(1)
  proof (cases rule: class_order)
    case 1
    then show ?thesis using fmt ok by (intro eq) (auto simp: split_plain word_unat_eq_iff split: if_splits)
  next
    case 2
    then show ?thesis using fmt ok by (intro eq) (auto simp: split_plain split: if_splits)
  next
    case 3
    then show ?thesis using fmt ok by (intro eq) (auto simp: split_plain split: if_splits)
  next
    case 4
    then show ?thesis using fmt ok by (intro eq) (auto simp: split_plain split: if_splits)
  next
    case 5
    then show ?thesis using fmt ok by (intro eq) (auto simp: split_plain split: if_splits)
  next
    case 6
    then show ?thesis using fmt ok by (intro eq) (auto simp: split_plain split: if_splits)
  next
    case 7
    then show ?thesis using fmt ok by (intro eq) (auto simp: split_plain split: if_splits)
  next
    case 8
    then show ?thesis using fmt ok by (intro eq) (auto simp: split_plain split: if_splits)
  next
    case 9
    then show ?thesis using fmt ok by (intro eq) (auto simp: split_plain split: if_splits)
  next
    case 10
    then show ?thesis using fmt ok small_immediate imm op by (intro eq) (auto simp: split_plain word_unat_eq_iff [symmetric] split: if_splits)
  next
    case 11
    then show ?thesis using ok by (intro eq) (auto split: if_splits)
  qed
qed

section \<open>A listing determines its program\<close>

lemma plain_no_newline: "plain_text s \<Longrightarrow> CHR 0x0A \<notin> set s"
  by (auto simp: plain_text_def list_all_iff)

lemma formatInstruction_line: "CHR 0x0A \<notin> set (formatInstruction ins pc)"
proof -
  have "CHR 0x0A \<notin> set (Opcode_String op)" for op
  proof (cases "Opcode_valid op")
    case False
    then show ?thesis by (simp add: Opcode_String_def Opcode_valid_def)
  qed (simp add: name_plain plain_no_newline)
  moreover have "CHR 0x0A \<notin> set (padded_decimal w v)" "CHR 0x0A \<notin> set (signedOffset off)" "CHR 0x0A \<notin> set (Register_String r)"
    "CHR 0x0A \<notin> set (signed_decimal v)" "CHR 0x0A \<notin> set (plus_decimal v)" "CHR 0x0A \<notin> set (padded_hex w n)" for w v off r n
    by (rule plain_no_newline, simp)+
  ultimately show ?thesis by (simp add: formatInstruction_def Let_def)
qed

lemma first_line:
  assumes "CHR 0x0A \<notin> set xs" and "CHR 0x0A \<notin> set ys" and "r = [] \<or> hd r = CHR 0x0A" and "r' = [] \<or> hd r' = CHR 0x0A"
    and "xs @ r = ys @ r'"
  shows "xs = ys \<and> r = r'"
proof -
  have t: "takeWhile (\<lambda>c. c \<noteq> CHR 0x0A) (zs @ u) = zs" if "CHR 0x0A \<notin> set zs" "u = [] \<or> hd u = CHR 0x0A" for zs u
  proof -
    have "\<forall>c \<in> set zs. c \<noteq> CHR 0x0A" using that(1) by auto
    then show ?thesis using that(2) by (cases u) (auto simp: takeWhile_append2)
  qed
  have "xs = ys" using t assms by metis
  then show ?thesis using assms(5) by simp
qed

lemma listing_inj:
  "\<forall>i \<in> set p. ValidateInstruction i = None \<Longrightarrow> \<forall>i \<in> set q. ValidateInstruction i = None \<Longrightarrow>
     p \<noteq> [] \<Longrightarrow> q \<noteq> [] \<Longrightarrow>
     listing (zip (fst (pcs_from pc p)) p) = listing (zip (fst (pcs_from pc q)) q) \<Longrightarrow> p = q"
proof (induction p arbitrary: q pc)
  case (Cons a p)
  obtain b q' where q: "q = b # q'" using Cons.prems(4) by (cases q) auto
  define rest where "rest pc r = (if r = [] then [] else CHR 0x0A # listing (zip (fst (pcs_from pc r)) r))" for pc r
  have l: "listing (zip (fst (pcs_from pc (i # r))) (i # r)) =
      (padded_decimal 4 pc @ '': '' @ formatInstruction i pc) @ rest (pc + Slots i) r" for i r
    by (cases r) (simp_all add: rest_def split_beta)
  have line: "CHR 0x0A \<notin> set (padded_decimal 4 pc @ '': '' @ formatInstruction i pc)" for i
    using formatInstruction_line [of i pc] plain_no_newline [of "padded_decimal 4 pc"] by simp
  have f: "padded_decimal 4 pc @ '': '' @ formatInstruction a pc = padded_decimal 4 pc @ '': '' @ formatInstruction b pc \<and>
      rest (pc + Slots a) p = rest (pc + Slots b) q'"
    using Cons.prems(5) unfolding q l by (intro first_line line) (simp_all add: rest_def)
  then have ab: "a = b" using formatInstruction_inj [of a b pc] Cons.prems(1,2) q by simp
  have "p = q'"
  proof (cases "p = [] \<or> q' = []")
    case True
    then show ?thesis using f by (auto simp: rest_def split: if_splits)
  next
    case False
    then have "listing (zip (fst (pcs_from (pc + Slots a) p)) p) = listing (zip (fst (pcs_from (pc + Slots a) q')) q')"
      using f by (simp add: rest_def ab)
    then show ?thesis using Cons.IH [of q' "pc + Slots a"] Cons.prems(1,2) False q by simp
  qed
  then show ?case by (simp add: q ab)
qed simp

lemma Disassemble_Inr:
  "Disassemble p = Inr s \<longleftrightarrow> ValidateProgram p = None \<and> s = listing (zip (fst (PhysicalPCs p)) p)"
  by (auto simp: Disassemble_def split_beta split: option.splits)

lemma Disassemble_inj:
  assumes "Disassemble p = Inr s" and "Disassemble q = Inr s"
  shows "p = q"
proof -
  have v: "ValidateProgram p = None" "ValidateProgram q = None" using assms by (simp_all add: Disassemble_Inr)
  show ?thesis
  proof (rule listing_inj [where pc = 0])
    show "\<forall>i \<in> set p. ValidateInstruction i = None" "\<forall>i \<in> set q. ValidateInstruction i = None"
      using ValidateProgram_instructions v by blast+
    show "p \<noteq> []" "q \<noteq> []" using v by (auto simp: ValidateProgram_def)
    show "listing (zip (fst (pcs_from 0 p)) p) = listing (zip (fst (pcs_from 0 q)) q)"
      using assms by (simp add: Disassemble_Inr PhysicalPCs_def)
  qed
qed

text \<open>
  C40.  A listing loses nothing: bytecode is listed exactly when \<open>Decode\<close> accepts it, and two byte strings with the same
  listing are the same byte string.
\<close>

theorem DisassembleBytes_faithful:
  "{b. \<exists>s. DisassembleBytes b = Inr s} = {b. \<exists>p. Decode b = Inr p} \<and>
    inj_on DisassembleBytes {b. \<exists>p. Decode b = Inr p}"
proof
  have total: "\<exists>s. Disassemble p = Inr s" if "Decode b = Inr p" for b p
    using Decode_InrD [OF that] by (simp add: Disassemble_Inr)
  then show "{b. \<exists>s. DisassembleBytes b = Inr s} = {b. \<exists>p. Decode b = Inr p}"
    by (auto simp: DisassembleBytes_def and_then_Inr_conv)
  show "inj_on DisassembleBytes {b. \<exists>p. Decode b = Inr p}"
  proof (rule inj_onI, clarsimp)
    fix b b' p q
    assume e: "DisassembleBytes b = DisassembleBytes b'" and d: "Decode b = Inr p" "Decode b' = Inr q"
    obtain s where s: "Disassemble p = Inr s" using total [OF d(1)] by blast
    then have "Disassemble q = Inr s" using e d by (simp add: DisassembleBytes_def)
    then have pq: "p = q" using Disassemble_inj [OF s] by blast
    have enc: "Encode r = Inr x" if "Decode x = Inr r" for x r
      using encode_decode_loop [OF Decode_InrD(1,2) [OF that]] Decode_InrD(3) [OF that] by (simp add: Encode_eq)
    show "b = b'" using enc [OF d(1)] enc [OF d(2)] pq by simp
  qed
qed

end
