(* ===== verification/SerialCodec.thy ===== *)
theory SerialCodec
  imports Prelude
begin

text \<open>
  \<open>src/serialization/codec.go\<close>: the encoder and decoder for explicit layouts.

  A \<open>*Encoder\<close> or \<open>*Decoder\<close> is an option, \<open>None\<close> the nil pointer, and every method returns the
  receiver it leaves.  A callback is a function on the receiver and on the state its closure writes.
  A nil slice and an empty one are the same list.  Go's \<open>int32\<close> and \<open>int64\<close> are words, so the
  conversions of \<open>I32\<close> and \<open>I64\<close> are identities.
\<close>

datatype codec_error =
    ErrInvalidBool | ErrInvalidOption | ErrLengthExceeded | ErrTrailingData | ErrUnexpectedEnd
  | ErrInvalidArgument | ErrCallback string

section \<open>The encoder\<close>

record Encoder =
  enc_buf :: bytes
  enc_err :: "codec_error option"

type_synonym encoder = "Encoder option"

text \<open>The capacity hint has no effect on what is encoded.\<close>

definition NewEncoder :: "int \<Rightarrow> encoder" where
  "NewEncoder capacity = Some \<lparr>enc_buf = [], enc_err = None\<rparr>"

definition Encoder_Err :: "encoder \<Rightarrow> codec_error option" where
  "Encoder_Err e = (case e of None \<Rightarrow> Some ErrInvalidArgument | Some r \<Rightarrow> enc_err r)"

definition Encoder_Bytes :: "encoder \<Rightarrow> bytes" where
  "Encoder_Bytes e = (case e of None \<Rightarrow> [] | Some r \<Rightarrow> enc_buf r)"

text \<open>The guard all writers share, and the append behind it.\<close>

definition encoder_ready :: "encoder \<Rightarrow> bool" where
  "encoder_ready e \<longleftrightarrow> e \<noteq> None \<and> enc_err (the e) = None"

definition put_bytes :: "bytes \<Rightarrow> encoder \<Rightarrow> encoder" where
  "put_bytes bs e =
     (if \<not> encoder_ready e then e else Some ((the e)\<lparr>enc_buf := enc_buf (the e) @ bs\<rparr>))"

definition encoder_fail :: "codec_error \<Rightarrow> encoder \<Rightarrow> encoder" where
  "encoder_fail err e = map_option (\<lambda>r. r\<lparr>enc_err := Some err\<rparr>) e"

definition Encoder_U8 :: "u8 \<Rightarrow> encoder \<Rightarrow> encoder" where
  "Encoder_U8 v e = put_bytes [v] e"

definition Encoder_Bool :: "bool \<Rightarrow> encoder \<Rightarrow> encoder" where
  "Encoder_Bool v e = (if v then Encoder_U8 1 e else Encoder_U8 0 e)"

definition Encoder_U16 :: "u16 \<Rightarrow> encoder \<Rightarrow> encoder" where
  "Encoder_U16 v e = put_bytes (le_bytes 2 v) e"

definition Encoder_U32 :: "u32 \<Rightarrow> encoder \<Rightarrow> encoder" where
  "Encoder_U32 v e = put_bytes (le_bytes 4 v) e"

definition Encoder_I32 :: "u32 \<Rightarrow> encoder \<Rightarrow> encoder" where
  "Encoder_I32 v e = Encoder_U32 v e"

definition Encoder_U64 :: "u64 \<Rightarrow> encoder \<Rightarrow> encoder" where
  "Encoder_U64 v e = put_bytes (le_bytes 8 v) e"

definition Encoder_I64 :: "u64 \<Rightarrow> encoder \<Rightarrow> encoder" where
  "Encoder_I64 v e = Encoder_U64 v e"

definition Encoder_Fixed :: "bytes \<Rightarrow> encoder \<Rightarrow> encoder" where
  "Encoder_Fixed v e = put_bytes v e"

definition Encoder_BytesU32 :: "bytes \<Rightarrow> u32 \<Rightarrow> encoder \<Rightarrow> encoder" where
  "Encoder_BytesU32 v max_len e =
     (if \<not> encoder_ready e then e
      else if length v > unat max_len \<or> length v > 0xffffffff then encoder_fail ErrLengthExceeded e
      else Encoder_Fixed v (Encoder_U32 (of_nat (length v)) e))"

type_synonym encode_callback = "encoder \<Rightarrow> codec_error option \<times> encoder"

definition Encoder_Option :: "bool \<Rightarrow> encode_callback option \<Rightarrow> encoder \<Rightarrow> encoder" where
  "Encoder_Option present encode e =
     (if \<not> encoder_ready e then e
      else
        let e1 = Encoder_Bool present e in
        if \<not> present then e1
        else
          (case encode of
             None \<Rightarrow> encoder_fail ErrInvalidArgument e1
           | Some f \<Rightarrow>
               (case f e1 of (Some err, e2) \<Rightarrow> encoder_fail err e2 | (None, e2) \<Rightarrow> e2)))"

definition Marshal :: "encode_callback option \<Rightarrow> codec_error + bytes" where
  "Marshal value =
     (case value of
        None \<Rightarrow> Inl ErrInvalidArgument
      | Some encode_to \<Rightarrow>
          (case encode_to (NewEncoder 0) of
             (Some err, e) \<Rightarrow> Inl err
           | (None, e) \<Rightarrow>
               (case Encoder_Err e of Some err \<Rightarrow> Inl err | None \<Rightarrow> Inr (Encoder_Bytes e))))"

section \<open>The decoder\<close>

record Decoder =
  dec_data :: bytes
  dec_offset :: nat
  dec_err :: "codec_error option"

type_synonym decoder = "Decoder option"

definition NewDecoder :: "bytes \<Rightarrow> decoder" where
  "NewDecoder data = Some \<lparr>dec_data = data, dec_offset = 0, dec_err = None\<rparr>"

definition Decoder_Err :: "decoder \<Rightarrow> codec_error option" where
  "Decoder_Err d = (case d of None \<Rightarrow> Some ErrInvalidArgument | Some r \<Rightarrow> dec_err r)"

definition Decoder_Offset :: "decoder \<Rightarrow> nat" where
  "Decoder_Offset d = (case d of None \<Rightarrow> 0 | Some r \<Rightarrow> dec_offset r)"

definition Decoder_Remaining :: "decoder \<Rightarrow> nat" where
  "Decoder_Remaining d =
     (case d of None \<Rightarrow> 0
      | Some r \<Rightarrow> if dec_offset r > length (dec_data r) then 0 else length (dec_data r) - dec_offset r)"

definition decoder_fail :: "codec_error \<Rightarrow> decoder \<Rightarrow> decoder" where
  "decoder_fail err d = map_option (\<lambda>r. r\<lparr>dec_err := Some err\<rparr>) d"

definition Decoder_take :: "int \<Rightarrow> decoder \<Rightarrow> bytes option \<times> decoder" where
  "Decoder_take width d =
     (case d of
        None \<Rightarrow> (None, d)
      | Some r \<Rightarrow>
          if dec_err r \<noteq> None then (None, d)
          else if width < 0 \<or> width > int (length (dec_data r)) - int (dec_offset r)
            then (None, Some (r\<lparr>dec_err := Some ErrUnexpectedEnd\<rparr>))
          else (Some (get_slice (dec_offset r) (nat width) (dec_data r)),
                Some (r\<lparr>dec_offset := dec_offset r + nat width\<rparr>)))"

text \<open>A fixed-width read: the zero value when nothing could be taken.\<close>

definition take_as :: "int \<Rightarrow> (bytes \<Rightarrow> 'a::zero) \<Rightarrow> decoder \<Rightarrow> 'a \<times> decoder" where
  "take_as width read d =
     (case Decoder_take width d of (None, d') \<Rightarrow> (0, d') | (Some bs, d') \<Rightarrow> (read bs, d'))"

definition Decoder_U8 :: "decoder \<Rightarrow> u8 \<times> decoder" where
  "Decoder_U8 d = take_as 1 (\<lambda>bs. bs ! 0) d"

definition Decoder_Bool :: "decoder \<Rightarrow> bool \<times> decoder" where
  "Decoder_Bool d =
     (let (v, d1) = Decoder_U8 d in
      if Decoder_Err d1 \<noteq> None then (False, d1)
      else if v = 0 then (False, d1)
      else if v = 1 then (True, d1)
      else (False, decoder_fail ErrInvalidBool d1))"

definition Decoder_U16 :: "decoder \<Rightarrow> u16 \<times> decoder" where
  "Decoder_U16 d = take_as 2 le_word d"

definition Decoder_U32 :: "decoder \<Rightarrow> u32 \<times> decoder" where
  "Decoder_U32 d = take_as 4 le_word d"

definition Decoder_I32 :: "decoder \<Rightarrow> u32 \<times> decoder" where
  "Decoder_I32 d = Decoder_U32 d"

definition Decoder_U64 :: "decoder \<Rightarrow> u64 \<times> decoder" where
  "Decoder_U64 d = take_as 8 le_word d"

definition Decoder_I64 :: "decoder \<Rightarrow> u64 \<times> decoder" where
  "Decoder_I64 d = Decoder_U64 d"

definition Decoder_Fixed :: "int \<Rightarrow> decoder \<Rightarrow> bytes \<times> decoder" where
  "Decoder_Fixed width d =
     (case Decoder_take width d of (None, d') \<Rightarrow> ([], d') | (Some bs, d') \<Rightarrow> (bs, d'))"

definition Decoder_BytesU32 :: "u32 \<Rightarrow> decoder \<Rightarrow> bytes \<times> decoder" where
  "Decoder_BytesU32 max_len d =
     (let (len, d1) = Decoder_U32 d in
      if Decoder_Err d1 \<noteq> None then ([], d1)
      else if len > max_len then ([], decoder_fail ErrLengthExceeded d1)
      else Decoder_Fixed (uint len) d1)"

text \<open>The callback also takes and returns the variables its closure captures.\<close>

type_synonym 'a decode_callback = "'a \<Rightarrow> decoder \<Rightarrow> codec_error option \<times> 'a \<times> decoder"

definition Decoder_Option :: "'a decode_callback option \<Rightarrow> 'a \<Rightarrow> decoder \<Rightarrow> bool \<times> 'a \<times> decoder" where
  "Decoder_Option decode captured d =
     (let (tag, d1) = Decoder_U8 d in
      if Decoder_Err d1 \<noteq> None then (False, captured, d1)
      else if tag = 0 then (False, captured, d1)
      else if tag = 1 then
        (case decode of
           None \<Rightarrow> (False, captured, decoder_fail ErrInvalidArgument d1)
         | Some f \<Rightarrow>
             (case f captured d1 of
                (Some err, captured', d2) \<Rightarrow> (False, captured', decoder_fail err d2)
              | (None, captured', d2) \<Rightarrow> (Decoder_Err d2 = None, captured', d2)))
      else (False, captured, decoder_fail ErrInvalidOption d1))"

definition Decoder_Finish :: "decoder \<Rightarrow> codec_error option" where
  "Decoder_Finish d =
     (case Decoder_Err d of
        Some err \<Rightarrow> Some err
      | None \<Rightarrow> if Decoder_Remaining d \<noteq> 0 then Some ErrTrailingData else None)"

definition Unmarshal :: "bytes \<Rightarrow> 'a decode_callback option \<Rightarrow> 'a \<Rightarrow> codec_error option \<times> 'a" where
  "Unmarshal data value captured =
     (case value of
        None \<Rightarrow> (Some ErrInvalidArgument, captured)
      | Some decode_from \<Rightarrow>
          (case decode_from captured (NewDecoder data) of
             (Some err, captured', d) \<Rightarrow> (Some err, captured')
           | (None, captured', d) \<Rightarrow> (Decoder_Finish d, captured')))"

end
