(* ===== verification/SerialFacts.thy ===== *)
theory SerialFacts
  imports SerialCodec "HOL-Library.Code_Target_Nat"
begin

text \<open>
  What every field codec of \<open>src/serialization\<close> promises, as a locale; the codecs of the package and
  their compositions provide it, and the round trip of whole layouts follows from it.
\<close>

section \<open>Receivers that can go on\<close>

definition decoder_ready :: "decoder \<Rightarrow> bool" where
  "decoder_ready d \<longleftrightarrow> (case d of None \<Rightarrow> False
     | Some r \<Rightarrow> dec_err r = None \<and> dec_offset r \<le> length (dec_data r))"

definition unread :: "decoder \<Rightarrow> bytes" where
  "unread d = (case d of None \<Rightarrow> [] | Some r \<Rightarrow> drop (dec_offset r) (dec_data r))"

definition skip_bytes :: "nat \<Rightarrow> decoder \<Rightarrow> decoder" where
  "skip_bytes n d = map_option (\<lambda>r. r\<lparr>dec_offset := dec_offset r + n\<rparr>) d"

lemma decoder_ready_Some:
  assumes "decoder_ready d"
  obtains r where "d = Some r" and "dec_err r = None" and "dec_offset r \<le> length (dec_data r)"
  using assms by (auto simp: decoder_ready_def split: option.splits)

lemma encoder_ready_Some:
  assumes "encoder_ready e"
  obtains r where "e = Some r" and "enc_err r = None"
  using assms by (auto simp: encoder_ready_def)

lemma put_bytes_ready [simp]: "encoder_ready e \<Longrightarrow> encoder_ready (put_bytes bs e)"
  by (auto simp: put_bytes_def encoder_ready_def)

lemma encoder_ready_Err: "encoder_ready e \<Longrightarrow> Encoder_Err e = None"
  by (auto simp: Encoder_Err_def encoder_ready_def)

lemma put_bytes_append: "put_bytes ys (put_bytes xs e) = put_bytes (xs @ ys) e"
  by (auto simp: put_bytes_def encoder_ready_def)

lemma put_bytes_Nil [simp]: "put_bytes [] e = e"
  by (cases e) (auto simp: put_bytes_def encoder_ready_def)

lemma put_bytes_stuck: "\<not> encoder_ready e \<Longrightarrow> put_bytes bs e = e"
  by (simp add: put_bytes_def)

lemma skip_bytes_zero [simp]: "skip_bytes 0 d = d"
  by (cases d) (simp_all add: skip_bytes_def)

lemma skip_skip: "skip_bytes m (skip_bytes n d) = skip_bytes (n + m) d"
  by (cases d) (simp_all add: skip_bytes_def add.assoc)

lemma skip_ready: "decoder_ready d \<Longrightarrow> n \<le> length (unread d) \<Longrightarrow> decoder_ready (skip_bytes n d)"
  by (elim decoder_ready_Some) (simp add: decoder_ready_def skip_bytes_def unread_def)

lemma unread_skip: "unread (skip_bytes n d) = drop n (unread d)"
  by (cases d) (simp_all add: unread_def skip_bytes_def add.commute)

lemma ready_Err: "decoder_ready d \<Longrightarrow> Decoder_Err d = None"
  by (elim decoder_ready_Some) (simp add: Decoder_Err_def)

section \<open>Taking bytes\<close>

lemma Decoder_take_ready:
  assumes "decoder_ready d"
  shows "Decoder_take width d =
    (if 0 \<le> width \<and> nat width \<le> length (unread d)
     then (Some (take (nat width) (unread d)), skip_bytes (nat width) d)
     else (None, decoder_fail ErrUnexpectedEnd d))"
  using assms
  by (elim decoder_ready_Some)
    (auto simp: Decoder_take_def unread_def skip_bytes_def decoder_fail_def get_slice_def)

lemma Decoder_take_stuck: "Decoder_Err d \<noteq> None \<Longrightarrow> Decoder_take width d = (None, d)"
  by (auto simp: Decoder_take_def Decoder_Err_def split: option.splits)

lemma fail_not_ready [simp]: "\<not> decoder_ready (decoder_fail err d)"
  by (cases d) (auto simp: decoder_ready_def decoder_fail_def)

section \<open>Clients\<close>

text \<open>
  The bodies of \<open>EncodeTo\<close> and \<open>DecodeFrom\<close> of a type with one field codec: write or read the
  fields, then return the error the receiver retains.
\<close>

definition encode_with :: "('a \<Rightarrow> encoder \<Rightarrow> encoder) \<Rightarrow> 'a \<Rightarrow> encode_callback" where
  "encode_with put v e = (let e' = put v e in (Encoder_Err e', e'))"

definition decode_with :: "(decoder \<Rightarrow> 'a \<times> decoder) \<Rightarrow> 'a decode_callback" where
  "decode_with get captured d = (let (v, d') = get d in (Decoder_Err d', v, d'))"

section \<open>The contract of a field codec\<close>

locale field_codec =
  fixes put :: "'a \<Rightarrow> encoder \<Rightarrow> encoder"
    and get :: "decoder \<Rightarrow> 'a \<times> decoder"
    and repr :: "'a \<Rightarrow> bytes"
    and valid :: "'a \<Rightarrow> bool"
  assumes put_ready: "valid v \<Longrightarrow> encoder_ready e \<Longrightarrow> put v e = put_bytes (repr v) e"
    and put_stuck: "\<not> encoder_ready e \<Longrightarrow> put v e = e"
    and get_stuck: "Decoder_Err d \<noteq> None \<Longrightarrow> snd (get d) = d"
    and get_repr: "decoder_ready d \<Longrightarrow> valid v \<Longrightarrow> unread d = repr v @ r \<Longrightarrow>
      get d = (v, skip_bytes (length (repr v)) d)"
    and get_ready: "decoder_ready d \<Longrightarrow> get d = (v, d') \<Longrightarrow> Decoder_Err d' = None \<Longrightarrow>
      valid v \<and> unread d = repr v @ unread d' \<and> d' = skip_bytes (length (repr v)) d"
begin

lemma marshal_valid: "valid v \<Longrightarrow> Marshal (Some (encode_with put v)) = Inr (repr v)"
proof -
  assume v: "valid v"
  have e: "encoder_ready (NewEncoder 0)" by (simp add: NewEncoder_def encoder_ready_def)
  have "put v (NewEncoder 0) = Some \<lparr>enc_buf = repr v, enc_err = None\<rparr>"
    using put_ready [OF v e] by (simp add: NewEncoder_def put_bytes_def encoder_ready_def)
  then show ?thesis
    by (simp add: Marshal_def encode_with_def Encoder_Err_def Encoder_Bytes_def)
qed

lemma unmarshal_iff:
  "Unmarshal data (Some (decode_with get)) captured = (None, v) \<longleftrightarrow> valid v \<and> data = repr v"
proof -
  let ?d = "NewDecoder data"
  have d: "decoder_ready ?d" "unread ?d = data"
    by (simp_all add: NewDecoder_def decoder_ready_def unread_def)
  have fin: "Decoder_Finish d' = None \<longleftrightarrow> Decoder_Err d' = None \<and> unread d' = []"
    if "d' = skip_bytes n ?d" for d' n
    using that by (auto simp: Decoder_Finish_def Decoder_Err_def Decoder_Remaining_def unread_def
        NewDecoder_def skip_bytes_def)
  show ?thesis
  proof
    assume u: "Unmarshal data (Some (decode_with get)) captured = (None, v)"
    obtain w d' where get: "get ?d = (w, d')" by (cases "get ?d")
    with u have g: "get ?d = (v, d')" "Decoder_Err d' = None" "Decoder_Finish d' = None"
      by (simp_all add: Unmarshal_def decode_with_def split: option.splits)
    note r = get_ready [OF d(1) g(1,2), unfolded d(2)]
    have u: "unread d' = []" using fin g(3) r by blast
    from r have "valid v" "data = repr v @ unread d'" by blast+
    then show "valid v \<and> data = repr v" unfolding u append_Nil2 ..
  next
    assume v: "valid v \<and> data = repr v"
    then have g: "get ?d = (v, skip_bytes (length (repr v)) ?d)"
      using get_repr [OF d(1), of v "[]"] d(2) by simp
    have "Decoder_Err (skip_bytes (length (repr v)) ?d) = None" "unread (skip_bytes (length (repr v)) ?d) = []"
      by (simp add: Decoder_Err_def skip_bytes_def NewDecoder_def, simp only: unread_skip d(2), simp add: v)
    then show "Unmarshal data (Some (decode_with get)) captured = (None, v)"
      using fin by (simp add: Unmarshal_def decode_with_def g)
  qed
qed

text \<open>So a layout is canonical: what is read back is what was written, and there is one way to write it.\<close>

lemma unmarshal_marshal:
  assumes "valid v"
  shows "Unmarshal data (Some (decode_with get)) captured = (None, v) \<longleftrightarrow>
    Marshal (Some (encode_with put v)) = Inr data"
  using unmarshal_iff [of data captured v] marshal_valid [OF assms] assms by auto

end

section \<open>Fixed-width fields\<close>

lemma put_bytes_codec:
  assumes "\<And>v. valid v \<Longrightarrow> length (repr v) = n" and "\<And>v. valid v \<Longrightarrow> read (repr v) = v"
    and "\<And>bs. length bs = n \<Longrightarrow> valid (read bs) \<and> repr (read bs) = bs"
    and "\<And>v e. put v e = put_bytes (repr v) e"
    and "\<And>d. get d = (case Decoder_take (int n) d of (None, d') \<Rightarrow> (zero, d') | (Some bs, d') \<Rightarrow> (read bs, d'))"
  shows "field_codec put get repr valid"
proof
  fix v e
  show "valid v \<Longrightarrow> encoder_ready e \<Longrightarrow> put v e = put_bytes (repr v) e" by (rule assms(4))
  show "\<not> encoder_ready e \<Longrightarrow> put v e = e" by (simp add: assms(4) put_bytes_stuck)
next
  fix d
  show "Decoder_Err d \<noteq> None \<Longrightarrow> snd (get d) = d" by (simp add: assms(5) Decoder_take_stuck)
next
  fix d v r
  assume "decoder_ready d" "valid v" "unread d = repr v @ r"
  then show "get d = (v, skip_bytes (length (repr v)) d)"
    using assms(1,2) by (simp add: assms(5) Decoder_take_ready)
next
  fix d v d'
  assume d: "decoder_ready d" and g: "get d = (v, d')" and e: "Decoder_Err d' = None"
  show "valid v \<and> unread d = repr v @ unread d' \<and> d' = skip_bytes (length (repr v)) d"
  proof (cases "n \<le> length (unread d)")
    case True
    then have v: "v = read (take n (unread d))" "d' = skip_bytes n d"
      using g by (simp_all add: assms(5) Decoder_take_ready [OF d])
    note r = assms(3) [of "take n (unread d)"]
    show ?thesis using r True by (simp add: v unread_skip)
  next
    case False
    then have "d' = decoder_fail ErrUnexpectedEnd d"
      using g by (simp add: assms(5) Decoder_take_ready [OF d])
    then show ?thesis using e d by (auto simp: decoder_fail_def Decoder_Err_def decoder_ready_def split: option.splits)
  qed
qed

lemma take_as_cases:
  "take_as width read d = (case Decoder_take width d of (None, d') \<Rightarrow> (0, d') | (Some bs, d') \<Rightarrow> (read bs, d'))"
  by (simp add: take_as_def)

interpretation u8: field_codec Encoder_U8 Decoder_U8 "\<lambda>v. [v]" "\<lambda>_. True"
  by (rule put_bytes_codec [of _ _ 1 "\<lambda>bs. bs ! 0" _ _ 0])
    (auto simp: Encoder_U8_def Decoder_U8_def take_as_def length_Suc_conv)

interpretation u16: field_codec Encoder_U16 Decoder_U16 "le_bytes 2" "\<lambda>_. True"
  by (rule put_bytes_codec [of _ _ 2 le_word _ _ 0])
    (simp_all add: Encoder_U16_def Decoder_U16_def take_as_def codec_simps)

interpretation u32: field_codec Encoder_U32 Decoder_U32 "le_bytes 4" "\<lambda>_. True"
  by (rule put_bytes_codec [of _ _ 4 le_word _ _ 0])
    (simp_all add: Encoder_U32_def Decoder_U32_def take_as_def codec_simps)

interpretation u64: field_codec Encoder_U64 Decoder_U64 "le_bytes 8" "\<lambda>_. True"
  by (rule put_bytes_codec [of _ _ 8 le_word _ _ 0])
    (simp_all add: Encoder_U64_def Decoder_U64_def take_as_def codec_simps)

interpretation i32: field_codec Encoder_I32 Decoder_I32 "le_bytes 4" "\<lambda>_. True"
  unfolding Encoder_I32_def Decoder_I32_def by (rule u32.field_codec_axioms)

interpretation i64: field_codec Encoder_I64 Decoder_I64 "le_bytes 8" "\<lambda>_. True"
  unfolding Encoder_I64_def Decoder_I64_def by (rule u64.field_codec_axioms)

lemma fixed_codec: "field_codec Encoder_Fixed (Decoder_Fixed (int n)) (\<lambda>v. v) (\<lambda>v. length v = n)"
  by (rule put_bytes_codec [of _ _ n "\<lambda>bs. bs" _ _ "[]"]) (simp_all add: Encoder_Fixed_def Decoder_Fixed_def)


section \<open>Booleans, byte strings and options\<close>

lemma Decoder_U8_cases:
  assumes "decoder_ready d"
  shows "Decoder_U8 d = (case unread d of [] \<Rightarrow> (0, decoder_fail ErrUnexpectedEnd d) | b # bs \<Rightarrow> (b, skip_bytes 1 d))"
  using assms by (cases "unread d") (simp_all add: Decoder_U8_def take_as_def Decoder_take_ready)

lemma Decoder_Err_fail: "decoder_ready d \<Longrightarrow> Decoder_Err (decoder_fail err d) = Some err"
  by (elim decoder_ready_Some) (simp add: Decoder_Err_def decoder_fail_def)

lemma tag_ready:
  assumes "decoder_ready d" and "unread d = b # r"
  shows "decoder_ready (skip_bytes (Suc 0) d)" and "unread (skip_bytes (Suc 0) d) = r"
    and "Decoder_Err (skip_bytes (Suc 0) d) = None"
  using assms skip_ready [OF assms(1), of "Suc 0"] by (simp_all add: unread_skip ready_Err)

lemma U8_stuck: "Decoder_Err d \<noteq> None \<Longrightarrow> Decoder_U8 d = (0, d)"
  by (simp add: Decoder_U8_def take_as_def Decoder_take_stuck)

definition bool_byte :: "bool \<Rightarrow> bytes" where
  "bool_byte b = [if b then 1 else 0]"

interpretation bool: field_codec Encoder_Bool Decoder_Bool bool_byte "\<lambda>_. True"
proof
  fix v e
  show "encoder_ready e \<Longrightarrow> Encoder_Bool v e = put_bytes (bool_byte v) e"
    by (simp add: Encoder_Bool_def Encoder_U8_def bool_byte_def)
  show "\<not> encoder_ready e \<Longrightarrow> Encoder_Bool v e = e"
    by (simp add: Encoder_Bool_def Encoder_U8_def put_bytes_stuck)
next
  fix d
  show "Decoder_Err d \<noteq> None \<Longrightarrow> snd (Decoder_Bool d) = d"
    by (simp add: Decoder_Bool_def U8_stuck)
next
  fix d v r
  assume d: "decoder_ready d" and u: "unread d = bool_byte v @ r"
  then have u': "unread d = (if v then 1 else 0) # r" by (simp add: bool_byte_def)
  show "Decoder_Bool d = (v, skip_bytes (length (bool_byte v)) d)"
    using tag_ready(3) [OF d u'] by (simp add: Decoder_Bool_def Decoder_U8_cases [OF d] u' bool_byte_def)
next
  fix d v d'
  assume d: "decoder_ready d" and g: "Decoder_Bool d = (v, d')" and e: "Decoder_Err d' = None"
  show "True \<and> unread d = bool_byte v @ unread d' \<and> d' = skip_bytes (length (bool_byte v)) d"
  proof (cases "unread d")
    case Nil
    then show ?thesis using g e by (auto simp: Decoder_Bool_def Decoder_U8_cases [OF d] Decoder_Err_fail [OF d])
  next
    case (Cons b r)
    note t = tag_ready [OF d Cons]
    show ?thesis
      using g e t by (auto simp: Decoder_Bool_def Decoder_U8_cases [OF d] Cons bool_byte_def
          Decoder_Err_fail [OF t(1)] split: if_splits)
  qed
qed

text \<open>A byte string has a 32-bit length in front and is limited by the caller.\<close>

definition counted :: "bytes \<Rightarrow> bytes" where
  "counted bs = le_bytes 4 (of_nat (length bs) :: u32) @ bs"

lemma bytes_codec:
  "field_codec (\<lambda>v. Encoder_BytesU32 v max_len) (Decoder_BytesU32 max_len) counted (\<lambda>v. length v \<le> unat max_len)"
proof
  fix v :: bytes and e
  assume "length v \<le> unat max_len" and e: "encoder_ready e"
  moreover have "unat max_len \<le> 0xffffffff" using unsigned_less [of max_len, where ?'a = nat] by simp
  ultimately show "Encoder_BytesU32 v max_len e = put_bytes (counted v) e"
    by (simp add: Encoder_BytesU32_def Encoder_Fixed_def Encoder_U32_def put_bytes_append counted_def)
next
  fix v e
  show "\<not> encoder_ready e \<Longrightarrow> Encoder_BytesU32 v max_len e = e" by (simp add: Encoder_BytesU32_def)
next
  fix d
  show "Decoder_Err d \<noteq> None \<Longrightarrow> snd (Decoder_BytesU32 max_len d) = d"
    using u32.get_stuck [of d] by (auto simp: Decoder_BytesU32_def split: prod.split)
next
  fix d and v r :: bytes
  assume d: "decoder_ready d" and v: "length v \<le> unat max_len" and u: "unread d = counted v @ r"
  have len: "unat (of_nat (length v) :: u32) = length v"
    using v unsigned_less [of max_len, where ?'a = nat] by (simp add: unat_of_nat)
  have n: "Decoder_U32 d = (of_nat (length v), skip_bytes 4 d)"
    using u32.get_repr [OF d, of "of_nat (length v)" "v @ r"] u by (simp add: counted_def)
  have d1: "decoder_ready (skip_bytes 4 d)" "unread (skip_bytes 4 d) = v @ r"
    using skip_ready [OF d, of 4] u by (simp_all add: counted_def unread_skip)
  have "Decoder_Fixed (int (length v)) (skip_bytes 4 d) = (v, skip_bytes (length v) (skip_bytes 4 d))"
    using field_codec.get_repr [OF fixed_codec d1(1) refl d1(2)] .
  moreover have "uint (of_nat (length v) :: u32) = int (length v)"
    using len by (simp only: uint_nat)
  moreover have "\<not> of_nat (length v) > max_len" using v len by (simp add: word_less_nat_alt)
  ultimately show "Decoder_BytesU32 max_len d = (v, skip_bytes (length (counted v)) d)"
    by (simp add: Decoder_BytesU32_def n ready_Err [OF d1(1)] skip_skip counted_def)
next
  fix d v d'
  assume d: "decoder_ready d" and g: "Decoder_BytesU32 max_len d = (v, d')" and e: "Decoder_Err d' = None"
  obtain n d1 where n: "Decoder_U32 d = (n, d1)" by (cases "Decoder_U32 d")
  show "length v \<le> unat max_len \<and> unread d = counted v @ unread d' \<and> d' = skip_bytes (length (counted v)) d"
  proof (cases "Decoder_Err d1 = None")
    case True
    note r = u32.get_ready [OF d n True]
    have le: "4 \<le> length (unread d)" using r by (metis le_add1 length_append length_le_bytes)
    have d1: "decoder_ready d1" using skip_ready [OF d le] r by simp
    have small: "n \<le> max_len"
      using g e Decoder_Err_fail [OF d1, of ErrLengthExceeded]
      by (auto simp: Decoder_BytesU32_def n True not_less split: if_splits)
    then have "\<not> max_len < n" by simp
    then have f: "Decoder_Fixed (int (unat n)) d1 = (v, d')"
      using g by (simp add: Decoder_BytesU32_def n True)
    note q = field_codec.get_ready [OF fixed_codec d1 f e]
    have nn: "n = of_nat (length v)" using q by simp
    have "unread d = le_bytes 4 n @ v @ unread d'" using r q by simp
    moreover have "d' = skip_bytes (4 + length v) d" using r q by (simp add: skip_skip)
    moreover have "length v \<le> unat max_len" using small q by (simp add: word_le_nat_alt)
    ultimately show ?thesis using nn by (simp add: counted_def)
  next
    case False
    then show ?thesis using g e by (simp add: Decoder_BytesU32_def n)
  qed
qed


text \<open>An optional field has a tag in front; its payload is written and read by callbacks.\<close>

definition put_option :: "('a \<Rightarrow> encoder \<Rightarrow> encoder) \<Rightarrow> 'a option \<Rightarrow> encoder \<Rightarrow> encoder" where
  "put_option put v e =
     (case v of None \<Rightarrow> Encoder_Option False None e
      | Some x \<Rightarrow> Encoder_Option True (Some (encode_with put x)) e)"

definition get_option :: "(decoder \<Rightarrow> 'a \<times> decoder) \<Rightarrow> 'a \<Rightarrow> decoder \<Rightarrow> 'a option \<times> decoder" where
  "get_option get init d =
     (let (present, x, d') = Decoder_Option (Some (decode_with get)) init d in
      (if present then Some x else None, d'))"

definition option_bytes :: "('a \<Rightarrow> bytes) \<Rightarrow> 'a option \<Rightarrow> bytes" where
  "option_bytes repr v = (case v of None \<Rightarrow> [0] | Some x \<Rightarrow> 1 # repr x)"

lemma option_codec:
  assumes "field_codec put get repr valid"
  shows "field_codec (put_option put) (get_option get init) (option_bytes repr) (\<lambda>v. case v of None \<Rightarrow> True | Some x \<Rightarrow> valid x)"
proof -
  note put_ready = field_codec.put_ready [OF assms] and get_repr = field_codec.get_repr [OF assms]
    and get_ready = field_codec.get_ready [OF assms] and get_stuck = field_codec.get_stuck [OF assms]
  show ?thesis
  proof
    fix v :: "'a option" and e
    assume v: "case v of None \<Rightarrow> True | Some x \<Rightarrow> valid x" and e: "encoder_ready e"
    have tag: "Encoder_Bool b e = put_bytes (bool_byte b) e" for b by (rule bool.put_ready [OF TrueI e])
    show "put_option put v e = put_bytes (option_bytes repr v) e"
    proof (cases v)
      case None
      then show ?thesis using e by (simp add: put_option_def Encoder_Option_def tag bool_byte_def option_bytes_def)
    next
      case (Some x)
      have r: "encoder_ready (put_bytes (bool_byte True) e)" using e by simp
      have "put x (put_bytes (bool_byte True) e) = put_bytes (1 # repr x) e"
        using put_ready [OF _ r] v Some by (simp add: put_bytes_append bool_byte_def)
      moreover have "Encoder_Err (put_bytes (1 # repr x) e) = None"
        by (rule encoder_ready_Err [OF put_bytes_ready [OF e]])
      ultimately show ?thesis
        using e Some by (simp add: put_option_def Encoder_Option_def tag encode_with_def option_bytes_def Let_def)
    qed
  next
    fix v :: "'a option" and e
    show "\<not> encoder_ready e \<Longrightarrow> put_option put v e = e"
      by (simp add: put_option_def Encoder_Option_def split: option.split)
  next
    fix d
    show "Decoder_Err d \<noteq> None \<Longrightarrow> snd (get_option get init d) = d"
      by (simp add: get_option_def Decoder_Option_def U8_stuck)
  next
    fix d and v :: "'a option" and r
    assume d: "decoder_ready d" and v: "case v of None \<Rightarrow> True | Some x \<Rightarrow> valid x"
      and u: "unread d = option_bytes repr v @ r"
    show "get_option get init d = (v, skip_bytes (length (option_bytes repr v)) d)"
    proof (cases v)
      case None
      then have u': "unread d = 0 # r" using u by (simp add: option_bytes_def)
      show ?thesis using tag_ready [OF d u']
        by (simp add: get_option_def Decoder_Option_def Decoder_U8_cases [OF d] u' None option_bytes_def)
    next
      case (Some x)
      then have u': "unread d = 1 # repr x @ r" using u by (simp add: option_bytes_def)
      note t = tag_ready [OF d u']
      have g: "get (skip_bytes (Suc 0) d) = (x, skip_bytes (Suc (length (repr x))) d)"
        using get_repr [OF t(1) _ t(2)] v Some by (simp add: skip_skip)
      have "decoder_ready (skip_bytes (Suc (length (repr x))) d)"
        using skip_ready [OF t(1), of "length (repr x)"] t(2) by (simp add: skip_skip)
      then show ?thesis using t(3)
        by (simp add: get_option_def Decoder_Option_def Decoder_U8_cases [OF d] u' Some option_bytes_def
            decode_with_def g ready_Err)
    qed
  next
    fix d and v :: "'a option" and d'
    assume d: "decoder_ready d" and g: "get_option get init d = (v, d')" and e: "Decoder_Err d' = None"
    show "(case v of None \<Rightarrow> True | Some x \<Rightarrow> valid x) \<and> unread d = option_bytes repr v @ unread d' \<and>
        d' = skip_bytes (length (option_bytes repr v)) d"
    proof (cases "unread d")
      case Nil
      then show ?thesis
        using g e by (auto simp: get_option_def Decoder_Option_def Decoder_U8_cases [OF d] Decoder_Err_fail [OF d])
    next
      case (Cons b r)
      note t = tag_ready [OF d Cons]
      obtain x d2 where x: "get (skip_bytes (Suc 0) d) = (x, d2)" by (cases "get (skip_bytes (Suc 0) d)")
      consider "b = 0" | "b = 1" | "b \<noteq> 0" "b \<noteq> 1" by blast
      then show ?thesis
      proof cases
        case 1
        then show ?thesis using g t
          by (auto simp: get_option_def Decoder_Option_def Decoder_U8_cases [OF d] Cons option_bytes_def)
      next
        case 2
        then have two: "v = Some x" "d' = d2" "Decoder_Err d2 = None"
          using g e t(3)
          by (auto simp: get_option_def Decoder_Option_def Decoder_U8_cases [OF d] Cons decode_with_def x
              Decoder_Err_def decoder_fail_def split: option.splits if_splits)
        show ?thesis
          using get_ready [OF t(1) x two(3)] t(2) two 2 Cons by (simp add: option_bytes_def skip_skip)
      next
        case 3
        then show ?thesis using g e t(3)
          by (auto simp: get_option_def Decoder_Option_def Decoder_U8_cases [OF d] Cons Decoder_Err_fail [OF t(1)])
      qed
    qed
  qed
qed


section \<open>Layouts\<close>

text \<open>
  A layout is a list of field kinds.  Its \<open>EncodeTo\<close> writes the fields in turn and its
  \<open>DecodeFrom\<close> reads them in turn; the payload of an option is a layout again.
\<close>

datatype kind =
    KBool | KU8 | KU16 | KU32 | KI32 | KU64 | KI64 | KFixed nat | KBytes u32 | KOption "kind list"

datatype field =
    FBool bool | FU8 u8 | FU16 u16 | FU32 u32 | FI32 u32 | FU64 u64 | FI64 u64
  | FFixed bytes | FBytes bytes | FOption "field list option"

fun put_list :: "('a \<Rightarrow> encoder \<Rightarrow> encoder) list \<Rightarrow> 'a list \<Rightarrow> encoder \<Rightarrow> encoder" where
  "put_list (p # ps) (v # vs) e = put_list ps vs (p v e)"
| "put_list _ _ e = e"

fun get_list :: "(decoder \<Rightarrow> 'a \<times> decoder) list \<Rightarrow> decoder \<Rightarrow> 'a list \<times> decoder" where
  "get_list [] d = ([], d)"
| "get_list (g # gs) d = (let (v, d1) = g d; (vs, d2) = get_list gs d1 in (v # vs, d2))"

fun valid_list :: "('a \<Rightarrow> bool) list \<Rightarrow> 'a list \<Rightarrow> bool" where
  "valid_list [] [] \<longleftrightarrow> True"
| "valid_list (t # ts) (v # vs) \<longleftrightarrow> t v \<and> valid_list ts vs"
| "valid_list _ _ \<longleftrightarrow> False"

primrec put_field :: "kind \<Rightarrow> field \<Rightarrow> encoder \<Rightarrow> encoder" where
  "put_field KBool = (\<lambda>v e. case v of FBool b \<Rightarrow> Encoder_Bool b e | _ \<Rightarrow> e)"
| "put_field KU8 = (\<lambda>v e. case v of FU8 w \<Rightarrow> Encoder_U8 w e | _ \<Rightarrow> e)"
| "put_field KU16 = (\<lambda>v e. case v of FU16 w \<Rightarrow> Encoder_U16 w e | _ \<Rightarrow> e)"
| "put_field KU32 = (\<lambda>v e. case v of FU32 w \<Rightarrow> Encoder_U32 w e | _ \<Rightarrow> e)"
| "put_field KI32 = (\<lambda>v e. case v of FI32 w \<Rightarrow> Encoder_I32 w e | _ \<Rightarrow> e)"
| "put_field KU64 = (\<lambda>v e. case v of FU64 w \<Rightarrow> Encoder_U64 w e | _ \<Rightarrow> e)"
| "put_field KI64 = (\<lambda>v e. case v of FI64 w \<Rightarrow> Encoder_I64 w e | _ \<Rightarrow> e)"
| "put_field (KFixed n) = (\<lambda>v e. case v of FFixed bs \<Rightarrow> Encoder_Fixed bs e | _ \<Rightarrow> e)"
| "put_field (KBytes m) = (\<lambda>v e. case v of FBytes bs \<Rightarrow> Encoder_BytesU32 bs m e | _ \<Rightarrow> e)"
| "put_field (KOption ks) =
     (\<lambda>v e. case v of FOption vs \<Rightarrow> put_option (put_list (map put_field ks)) vs e | _ \<Rightarrow> e)"

primrec get_field :: "kind \<Rightarrow> decoder \<Rightarrow> field \<times> decoder" where
  "get_field KBool = (\<lambda>d. map_prod FBool id (Decoder_Bool d))"
| "get_field KU8 = (\<lambda>d. map_prod FU8 id (Decoder_U8 d))"
| "get_field KU16 = (\<lambda>d. map_prod FU16 id (Decoder_U16 d))"
| "get_field KU32 = (\<lambda>d. map_prod FU32 id (Decoder_U32 d))"
| "get_field KI32 = (\<lambda>d. map_prod FI32 id (Decoder_I32 d))"
| "get_field KU64 = (\<lambda>d. map_prod FU64 id (Decoder_U64 d))"
| "get_field KI64 = (\<lambda>d. map_prod FI64 id (Decoder_I64 d))"
| "get_field (KFixed n) = (\<lambda>d. map_prod FFixed id (Decoder_Fixed (int n) d))"
| "get_field (KBytes m) = (\<lambda>d. map_prod FBytes id (Decoder_BytesU32 m d))"
| "get_field (KOption ks) = (\<lambda>d. map_prod FOption id (get_option (get_list (map get_field ks)) [] d))"

primrec field_bytes :: "field \<Rightarrow> bytes" where
  "field_bytes (FBool b) = bool_byte b"
| "field_bytes (FU8 w) = [w]"
| "field_bytes (FU16 w) = le_bytes 2 w"
| "field_bytes (FU32 w) = le_bytes 4 w"
| "field_bytes (FI32 w) = le_bytes 4 w"
| "field_bytes (FU64 w) = le_bytes 8 w"
| "field_bytes (FI64 w) = le_bytes 8 w"
| "field_bytes (FFixed bs) = bs"
| "field_bytes (FBytes bs) = counted bs"
| "field_bytes (FOption vs) = option_bytes concat (map_option (map field_bytes) vs)"

primrec typed :: "kind \<Rightarrow> field \<Rightarrow> bool" where
  "typed KBool = (\<lambda>v. case v of FBool b \<Rightarrow> True | _ \<Rightarrow> False)"
| "typed KU8 = (\<lambda>v. case v of FU8 w \<Rightarrow> True | _ \<Rightarrow> False)"
| "typed KU16 = (\<lambda>v. case v of FU16 w \<Rightarrow> True | _ \<Rightarrow> False)"
| "typed KU32 = (\<lambda>v. case v of FU32 w \<Rightarrow> True | _ \<Rightarrow> False)"
| "typed KI32 = (\<lambda>v. case v of FI32 w \<Rightarrow> True | _ \<Rightarrow> False)"
| "typed KU64 = (\<lambda>v. case v of FU64 w \<Rightarrow> True | _ \<Rightarrow> False)"
| "typed KI64 = (\<lambda>v. case v of FI64 w \<Rightarrow> True | _ \<Rightarrow> False)"
| "typed (KFixed n) = (\<lambda>v. case v of FFixed bs \<Rightarrow> length bs = n | _ \<Rightarrow> False)"
| "typed (KBytes m) = (\<lambda>v. case v of FBytes bs \<Rightarrow> length bs \<le> unat m | _ \<Rightarrow> False)"
| "typed (KOption ks) = (\<lambda>v. case v of FOption vs \<Rightarrow>
     (case vs of None \<Rightarrow> True | Some ws \<Rightarrow> valid_list (map typed ks) ws) | _ \<Rightarrow> False)"

abbreviation fields_bytes :: "field list \<Rightarrow> bytes" where
  "fields_bytes vs \<equiv> concat (map field_bytes vs)"

text \<open>The methods of a type with the given layout.\<close>

definition EncodeTo :: "kind list \<Rightarrow> field list \<Rightarrow> encode_callback" where
  "EncodeTo ks = encode_with (put_list (map put_field ks))"

definition DecodeFrom :: "kind list \<Rightarrow> field list decode_callback" where
  "DecodeFrom ks = decode_with (get_list (map get_field ks))"

lemma mapped_codec:
  assumes "field_codec put get repr valid"
    and "\<And>x e. put' (C x) e = put x e"
    and "\<And>v e. \<not> encoder_ready e \<Longrightarrow> (\<forall>x. v \<noteq> C x) \<Longrightarrow> put' v e = e"
    and "\<And>d. get' d = map_prod C id (get d)"
    and "\<And>x. valid x \<Longrightarrow> repr' (C x) = repr x"
    and "\<And>v. valid' v \<longleftrightarrow> (\<exists>x. v = C x \<and> valid x)"
  shows "field_codec put' get' repr' valid'"
proof -
  note put_ready = field_codec.put_ready [OF assms(1)] and put_stuck = field_codec.put_stuck [OF assms(1)]
    and get_repr = field_codec.get_repr [OF assms(1)] and get_ready = field_codec.get_ready [OF assms(1)]
    and get_stuck = field_codec.get_stuck [OF assms(1)]
  show ?thesis
  proof
    fix v e
    show "valid' v \<Longrightarrow> encoder_ready e \<Longrightarrow> put' v e = put_bytes (repr' v) e"
      using put_ready assms(2,5,6) by auto
    show "\<not> encoder_ready e \<Longrightarrow> put' v e = e"
      using put_stuck assms(2,3) by metis
  next
    fix d
    show "Decoder_Err d \<noteq> None \<Longrightarrow> snd (get' d) = d" using get_stuck by (simp add: assms(4))
  next
    fix d v r
    assume "decoder_ready d" "valid' v" "unread d = repr' v @ r"
    then show "get' d = (v, skip_bytes (length (repr' v)) d)"
      using get_repr [of d] by (auto simp: assms(4-6))
  next
    fix d v d'
    assume d: "decoder_ready d" and g: "get' d = (v, d')" and e: "Decoder_Err d' = None"
    obtain x where x: "get d = (x, d')" "v = C x" using g by (cases "get d") (simp add: assms(4))
    show "valid' v \<and> unread d = repr' v @ unread d' \<and> d' = skip_bytes (length (repr' v)) d"
      using get_ready [OF d x(1) e] x(2) assms(5,6) by auto
  qed
qed

lemma nil_codec: "field_codec (put_list []) (get_list []) fields_bytes (valid_list [])"
proof
  fix v :: "field list"
  show "put_list [] v e = put_bytes (fields_bytes v) e" if "valid_list [] v" "encoder_ready e" for e
    using that by (cases v) simp_all
  show "get_list [] d = (v, skip_bytes (length (fields_bytes v)) d)" if "valid_list [] v" for d
    using that by (cases v) simp_all
qed auto

lemma cons_codec:
  assumes "field_codec p g field_bytes t" and "field_codec (put_list ps) (get_list gs) fields_bytes (valid_list ts)"
    and "\<And>e vs. \<not> encoder_ready e \<Longrightarrow> put_list (p # ps) vs e = e"
  shows "field_codec (put_list (p # ps)) (get_list (g # gs)) fields_bytes (valid_list (t # ts))"
proof
  fix vs e
  assume "valid_list (t # ts) vs" and e: "encoder_ready e"
  then obtain w ws where vs: "vs = w # ws" "t w" "valid_list ts ws" by (cases vs) simp_all
  then show "put_list (p # ps) vs e = put_bytes (fields_bytes vs) e"
    using field_codec.put_ready [OF assms(1) vs(2) e] field_codec.put_ready [OF assms(2) vs(3) put_bytes_ready [OF e]]
    by (simp add: put_bytes_append)
next
  fix vs e
  show "\<not> encoder_ready e \<Longrightarrow> put_list (p # ps) vs e = e" by (rule assms(3))
next
  fix d
  assume e: "Decoder_Err d \<noteq> None"
  show "snd (get_list (g # gs) d) = d"
    using field_codec.get_stuck [OF assms(1) e] field_codec.get_stuck [OF assms(2) e]
    by (auto split: prod.split)
next
  fix d vs r
  assume d: "decoder_ready d" and "valid_list (t # ts) vs" and u: "unread d = fields_bytes vs @ r"
  then obtain w ws where vs: "vs = w # ws" "t w" "valid_list ts ws" by (cases vs) simp_all
  have u': "unread d = field_bytes w @ fields_bytes ws @ r" using u vs by simp
  have d1: "decoder_ready (skip_bytes (length (field_bytes w)) d)"
    "unread (skip_bytes (length (field_bytes w)) d) = fields_bytes ws @ r"
    using skip_ready [OF d] u' by (simp_all add: unread_skip)
  show "get_list (g # gs) d = (vs, skip_bytes (length (fields_bytes vs)) d)"
    using field_codec.get_repr [OF assms(1) d vs(2) u'] field_codec.get_repr [OF assms(2) d1(1) vs(3) d1(2)] vs(1)
    by (simp add: skip_skip)
next
  fix d vs d'
  assume d: "decoder_ready d" and g: "get_list (g # gs) d = (vs, d')" and e: "Decoder_Err d' = None"
  obtain w d1 where w: "g d = (w, d1)" by (cases "g d")
  obtain ws d2 where ws: "get_list gs d1 = (ws, d2)" by (cases "get_list gs d1")
  have vs: "vs = w # ws" "d' = d2" using g w ws by simp_all
  have e1: "Decoder_Err d1 = None"
  proof (rule ccontr)
    assume "Decoder_Err d1 \<noteq> None"
    then show False using field_codec.get_stuck [OF assms(2), of d1] ws vs e by simp
  qed
  note one = field_codec.get_ready [OF assms(1) d w e1]
  have d1: "decoder_ready d1" using skip_ready [OF d, of "length (field_bytes w)"] one by simp
  note two = field_codec.get_ready [OF assms(2) d1 ws e [unfolded vs]]
  show "valid_list (t # ts) vs \<and> unread d = fields_bytes vs @ unread d' \<and> d' = skip_bytes (length (fields_bytes vs)) d"
    using one two vs by (simp add: skip_skip)
qed


abbreviation kind_codec :: "kind \<Rightarrow> bool" where
  "kind_codec k \<equiv> field_codec (put_field k) (get_field k) field_bytes (typed k)"

abbreviation layout_codec :: "kind list \<Rightarrow> bool" where
  "layout_codec ks \<equiv>
     field_codec (put_list (map put_field ks)) (get_list (map get_field ks)) fields_bytes (valid_list (map typed ks))"

lemma list_codec: "(\<And>k. k \<in> set ks \<Longrightarrow> kind_codec k) \<Longrightarrow> layout_codec ks"
proof (induction ks)
  case Nil
  show ?case unfolding list.map by (rule nil_codec)
next
  case (Cons k ks)
  have k: "kind_codec k" and ks: "layout_codec ks" using Cons by simp_all
  have "put_list (put_field k # map put_field ks) vs e = e" if "\<not> encoder_ready e" for vs e
    using field_codec.put_stuck [OF k that] field_codec.put_stuck [OF ks that] by (cases vs) simp_all
  then show ?case unfolding list.map by (rule cons_codec [OF k ks])
qed

lemma kind_codec: "kind_codec k"
proof (induction k)
  case KBool
  show ?case by (rule mapped_codec [OF bool.field_codec_axioms, of _ FBool]) (auto split: field.splits)
next
  case KU8
  show ?case by (rule mapped_codec [OF u8.field_codec_axioms, of _ FU8]) (auto split: field.splits)
next
  case KU16
  show ?case by (rule mapped_codec [OF u16.field_codec_axioms, of _ FU16]) (auto split: field.splits)
next
  case KU32
  show ?case by (rule mapped_codec [OF u32.field_codec_axioms, of _ FU32]) (auto split: field.splits)
next
  case KI32
  show ?case by (rule mapped_codec [OF i32.field_codec_axioms, of _ FI32]) (auto split: field.splits)
next
  case KU64
  show ?case by (rule mapped_codec [OF u64.field_codec_axioms, of _ FU64]) (auto split: field.splits)
next
  case KI64
  show ?case by (rule mapped_codec [OF i64.field_codec_axioms, of _ FI64]) (auto split: field.splits)
next
  case (KFixed n)
  show ?case by (rule mapped_codec [OF fixed_codec, of _ FFixed]) (auto split: field.splits)
next
  case (KBytes m)
  show ?case by (rule mapped_codec [OF bytes_codec, of _ FBytes]) (auto split: field.splits)
next
  case (KOption ks)
  note layout = list_codec [OF KOption]
  show ?case
    by (rule mapped_codec [where C = FOption, OF option_codec [OF layout, where init = "[]"]])
      (auto split: field.splits option.splits simp: option_bytes_def)
qed

lemma layout_codec: "layout_codec ks"
  by (rule list_codec [OF kind_codec])

section \<open>Readers keep the decoder well formed\<close>

text \<open>Nothing changes a decoder that has failed, the input is never changed, and the offset stays in it.\<close>

definition decoder_step :: "decoder \<Rightarrow> decoder \<Rightarrow> bool" where
  "decoder_step d d' \<longleftrightarrow>
     (case (d, d') of
        (Some r, Some r') \<Rightarrow> dec_data r' = dec_data r \<and> dec_offset r \<le> dec_offset r' \<and>
          (dec_offset r \<le> length (dec_data r) \<longrightarrow> dec_offset r' \<le> length (dec_data r)) \<and>
          (dec_err r \<noteq> None \<longrightarrow> r' = r)
      | (None, None) \<Rightarrow> True
      | _ \<Rightarrow> False)"

lemma decoder_step_refl [simp, intro]: "decoder_step d d"
  by (simp add: decoder_step_def split: option.split)

lemma decoder_step_trans [trans]: "decoder_step a b \<Longrightarrow> decoder_step b c \<Longrightarrow> decoder_step a c"
  by (auto simp: decoder_step_def split: option.splits)

lemma decoder_step_fail [intro]: "Decoder_Err d = None \<Longrightarrow> decoder_step d (decoder_fail err d)"
  by (auto simp: decoder_step_def decoder_fail_def Decoder_Err_def split: option.splits)

lemma Decoder_take_step: "decoder_step d (snd (Decoder_take width d))"
  by (auto simp: decoder_step_def Decoder_take_def split: option.splits)

lemma take_as_step: "decoder_step d (snd (take_as width read d))"
  using Decoder_take_step [of d width] by (auto simp: take_as_def split: prod.split option.split)

lemma Decoder_Fixed_step: "decoder_step d (snd (Decoder_Fixed width d))"
  using Decoder_take_step [of d width] by (auto simp: Decoder_Fixed_def split: prod.split option.split)

lemma Decoder_Bool_step: "decoder_step d (snd (Decoder_Bool d))"
proof -
  have u: "decoder_step d (snd (Decoder_U8 d))" unfolding Decoder_U8_def by (rule take_as_step)
  show ?thesis
  proof (cases "Decoder_Err (snd (Decoder_U8 d)) = None")
    case True
    then show ?thesis using u decoder_step_trans [OF u decoder_step_fail [OF True]]
      by (auto simp: Decoder_Bool_def split: prod.split)
  next
    case False
    then show ?thesis using u by (auto simp: Decoder_Bool_def split: prod.splits)
  qed
qed

lemma Decoder_BytesU32_step: "decoder_step d (snd (Decoder_BytesU32 max_len d))"
proof -
  have u: "decoder_step d (snd (Decoder_U32 d))" unfolding Decoder_U32_def by (rule take_as_step)
  note fixed = decoder_step_trans [OF u Decoder_Fixed_step]
  show ?thesis
  proof (cases "Decoder_Err (snd (Decoder_U32 d)) = None")
    case True
    then show ?thesis using u fixed decoder_step_trans [OF u decoder_step_fail [OF True]]
      by (auto simp: Decoder_BytesU32_def split: prod.split)
  next
    case False
    then show ?thesis using u by (auto simp: Decoder_BytesU32_def split: prod.splits)
  qed
qed


lemma Decoder_Option_step:
  assumes "\<And>d'. decoder_step d' (snd (snd (f captured d')))"
  shows "decoder_step d (snd (snd (Decoder_Option (Some f) captured d)))"
proof -
  have u: "decoder_step d (snd (Decoder_U8 d))" unfolding Decoder_U8_def by (rule take_as_step)
  obtain t d1 where d1: "Decoder_U8 d = (t, d1)" by (cases "Decoder_U8 d")
  obtain err c d2 where d2: "f captured d1 = (err, c, d2)" by (cases "f captured d1")
  have s1: "decoder_step d d1" using u d1 by simp
  have s2: "decoder_step d1 d2" using assms [of d1] d2 by simp
  show ?thesis
  proof (cases "Decoder_Err d1 = None")
    case True
    have e2: "decoder_step d1 (decoder_fail err' d2)" for err'
      using s2 True by (auto simp: decoder_step_def decoder_fail_def Decoder_Err_def split: option.splits)
    show ?thesis
      using s1 decoder_step_trans [OF s1 s2] decoder_step_trans [OF s1 e2] decoder_step_trans [OF s1 decoder_step_fail [OF True]]
      by (auto simp: Decoder_Option_def d1 d2 True split: option.split)
  next
    case False
    then show ?thesis using s1 by (auto simp: Decoder_Option_def d1)
  qed
qed

lemma get_list_step: "(\<And>g d. g \<in> set gs \<Longrightarrow> decoder_step d (snd (g d))) \<Longrightarrow> decoder_step d (snd (get_list gs d))"
proof (induction gs arbitrary: d)
  case Nil
  show ?case by simp
next
  case (Cons g gs)
  have "decoder_step d (snd (g d))" using Cons.prems by simp
  moreover have "decoder_step (snd (g d)) (snd (get_list gs (snd (g d))))" by (rule Cons.IH) (simp add: Cons.prems)
  ultimately show ?case by (auto split: prod.split dest: decoder_step_trans)
qed

lemma get_field_step: "decoder_step d (snd (get_field k d))"
proof (induction k arbitrary: d)
  case (KOption ks)
  have "decoder_step d' (snd (get_list (map get_field ks) d'))" for d'
    by (rule get_list_step) (use KOption in auto)
  then have "decoder_step d' (snd (snd (decode_with (get_list (map get_field ks)) c d')))" for c d'
    by (simp add: decode_with_def split: prod.split) (metis snd_conv)
  note o = Decoder_Option_step [where f = "decode_with (get_list (map get_field ks))", OF this]
  show ?case using o [of d "[]"] by (auto simp: get_option_def split: prod.split)
qed (simp_all add: Decoder_Bool_step Decoder_U8_def Decoder_U16_def Decoder_U32_def Decoder_I32_def
    Decoder_U64_def Decoder_I64_def take_as_step Decoder_Fixed_step Decoder_BytesU32_step)

lemma layout_step: "decoder_step d (snd (snd (DecodeFrom ks captured d)))"
proof -
  have "decoder_step d (snd (get_list (map get_field ks) d))"
    by (rule get_list_step) (auto simp: get_field_step)
  then show ?thesis by (auto simp: DecodeFrom_def decode_with_def split: prod.split)
qed

section \<open>What the codec promises\<close>


text \<open>
  What the codec of \<open>src/serialization/codec.go\<close> promises for every layout built from its fields.
\<close>

text \<open>
  C10.  The codec is canonical.  For every layout, \<open>Unmarshal\<close> accepts some bytes and yields the
  values \<open>vs\<close> exactly when \<open>vs\<close> are values of the layout and \<open>Marshal\<close> turns them into these bytes:
  what was written is read back, nothing else is accepted, no value has two encodings, and trailing,
  missing or malformed bytes are errors.
\<close>

theorem Unmarshal_iff_Marshal:
  "Unmarshal data (Some (DecodeFrom ks)) captured = (None, vs) \<longleftrightarrow>
     valid_list (map typed ks) vs \<and> Marshal (Some (EncodeTo ks vs)) = Inr data"
  using field_codec.unmarshal_iff [OF layout_codec [of ks], where data = data and captured = captured and v = vs]
    field_codec.marshal_valid [OF layout_codec [of ks], where v = vs]
  unfolding EncodeTo_def DecodeFrom_def by auto

text \<open>
  A reader never changes the input, never moves backwards, never leaves the offset beyond
  the end of the input, and does nothing at all to a decoder that holds an error.
\<close>

theorem DecodeFrom_keeps_decoder: "decoder_step d (snd (snd (DecodeFrom ks captured d)))"
  by (rule layout_step)

lemma BytesU32_limits:
  fixes max_len :: u32 and len :: u32
  shows "Marshal (Some (EncodeTo [KBytes max_len] [FBytes bs])) =
      (if length bs \<le> unat max_len then Inr (le_bytes 4 (of_nat (length bs) :: u32) @ bs) else Inl ErrLengthExceeded)"
    and "fst (Unmarshal (le_bytes 4 len @ rest) (Some (DecodeFrom [KBytes max_len])) captured) =
      (if len > max_len then Some ErrLengthExceeded
       else if length rest < unat len then Some ErrUnexpectedEnd
       else if length rest > unat len then Some ErrTrailingData else None)"
proof -
  have ready: "encoder_ready (NewEncoder 0)" by (simp add: NewEncoder_def encoder_ready_def)
  show "Marshal (Some (EncodeTo [KBytes max_len] [FBytes bs])) =
      (if length bs \<le> unat max_len then Inr (le_bytes 4 (of_nat (length bs) :: u32) @ bs) else Inl ErrLengthExceeded)"
  proof (cases "length bs \<le> unat max_len")
    case True
    then show ?thesis
      using field_codec.marshal_valid [OF layout_codec [of "[KBytes max_len]"], where v = "[FBytes bs]"]
      by (simp add: EncodeTo_def counted_def)
  next
    case False
    then show ?thesis using ready
      by (simp add: EncodeTo_def encode_with_def Encoder_BytesU32_def Marshal_def NewEncoder_def encoder_fail_def Encoder_Err_def)
  qed
next
  let ?d = "NewDecoder (le_bytes 4 len @ rest)"
  have d: "decoder_ready ?d" "unread ?d = le_bytes 4 len @ rest"
    by (simp_all add: NewDecoder_def decoder_ready_def unread_def)
  have n: "Decoder_U32 ?d = (len, skip_bytes 4 ?d)" using u32.get_repr [OF d(1) TrueI d(2)] by simp
  have d1: "decoder_ready (skip_bytes 4 ?d)" "unread (skip_bytes 4 ?d) = rest"
    using skip_ready [OF d(1), of 4] d(2) by (simp_all add: unread_skip)
  have fin: "Decoder_Finish (skip_bytes (unat len) (skip_bytes 4 ?d)) =
      (if length rest > unat len then Some ErrTrailingData else None)"
    by (simp add: Decoder_Finish_def Decoder_Err_def Decoder_Remaining_def skip_bytes_def NewDecoder_def)
  have small: "Decoder_Err (skip_bytes (unat len) (skip_bytes 4 ?d)) = None"
    by (simp add: Decoder_Err_def skip_bytes_def NewDecoder_def)
  have fixed: "Decoder_Fixed (uint len) (skip_bytes 4 ?d) =
      (if unat len \<le> length rest then (take (unat len) rest, skip_bytes (unat len) (skip_bytes 4 ?d))
       else ([], decoder_fail ErrUnexpectedEnd (skip_bytes 4 ?d)))"
    using Decoder_take_ready [OF d1(1), of "uint len"] by (simp add: Decoder_Fixed_def d1(2) unat_eq_nat_uint [symmetric])
  show "fst (Unmarshal (le_bytes 4 len @ rest) (Some (DecodeFrom [KBytes max_len])) captured) =
      (if len > max_len then Some ErrLengthExceeded
       else if length rest < unat len then Some ErrUnexpectedEnd
       else if length rest > unat len then Some ErrTrailingData else None)"
    using ready_Err [OF d1(1)] small fin
    by (auto simp: Unmarshal_def DecodeFrom_def decode_with_def Decoder_BytesU32_def n fixed Decoder_Err_fail [OF d1(1)])
qed

text \<open>
  A byte string is limited on both sides: \<open>BytesU32\<close> with a limit writes and accepts exactly
  the strings within it and answers \<open>ErrLengthExceeded\<close> for any other, whatever follows the length.
\<close>

lemma BytesU32_limit:
  fixes max_len :: u32 and len :: u32
  shows "Marshal (Some (EncodeTo [KBytes max_len] [FBytes bs])) =
      (if length bs \<le> unat max_len then Inr (le_bytes 4 (of_nat (length bs) :: u32) @ bs) else Inl ErrLengthExceeded) \<and>
    fst (Unmarshal (le_bytes 4 len @ rest) (Some (DecodeFrom [KBytes max_len])) captured) =
      (if len > max_len then Some ErrLengthExceeded
       else if length rest < unat len then Some ErrUnexpectedEnd
       else if length rest > unat len then Some ErrTrailingData else None)"
  by (rule conjI [OF BytesU32_limits])

text \<open>
  A malformed boolean is refused, but its byte is already consumed: the offset is not where it was before the failed read.
\<close>

lemma malformed_byte_is_consumed:
  "\<exists>d. Decoder_Bool (NewDecoder (b # rest)) = (b = 1, d) \<and>
     Decoder_Err d = (if b = 0 \<or> b = 1 then None else Some ErrInvalidBool) \<and> Decoder_Offset d = 1"
  by (auto simp: Decoder_Bool_def Decoder_U8_def take_as_def Decoder_take_def NewDecoder_def Decoder_Err_def
      Decoder_Offset_def decoder_fail_def get_slice_def Let_def)

end
