(* ===== verification/ElfWriter.thy ===== *)
theory ElfWriter
  imports SbpfCodec SbpfSyscall
begin

text \<open>
  \<open>src/elf/elf.go\<close>: the strict ELF64 container of an sBPFv3 program, its writer and its reader.

  Lengths and offsets are words of 64 bits where the Go code converts them, \<open>len\<close> being at most
  \<open>2 ^ 63 - 1\<close>.  A slice whose bounds lie outside the file is the error \<open>ElfPanic\<close>: Go panics, or, up to
  the capacity, reads what happens to be behind the slice.
\<close>

datatype elf_error = ErrInvalidELF | ErrInvalidEntry | ErrSbpf sbpf_error | ElfPanic

abbreviation (input) Class64 :: u8 where "Class64 \<equiv> 2"
abbreviation (input) DataLittle :: u8 where "DataLittle \<equiv> 1"
abbreviation (input) ElfVersion :: "'a::numeral" where "ElfVersion \<equiv> 1"
abbreviation (input) OSABINone :: u8 where "OSABINone \<equiv> 0"
abbreviation (input) TypeDynamic :: u16 where "TypeDynamic \<equiv> 3"
abbreviation (input) MachineBPF :: u16 where "MachineBPF \<equiv> 247"
abbreviation (input) SBPFVersion3 :: u32 where "SBPFVersion3 \<equiv> 3"
abbreviation (input) ProgramLoad :: u32 where "ProgramLoad \<equiv> 1"
abbreviation (input) FlagExecute :: u32 where "FlagExecute \<equiv> 1"
abbreviation (input) FlagRead :: u32 where "FlagRead \<equiv> 4"
abbreviation (input) SectionProgramBits :: u32 where "SectionProgramBits \<equiv> 1"
abbreviation (input) SectionSymbolTable :: u32 where "SectionSymbolTable \<equiv> 2"
abbreviation (input) SectionStringTable :: u32 where "SectionStringTable \<equiv> 3"
abbreviation (input) SectionFlagAlloc :: u64 where "SectionFlagAlloc \<equiv> 2"
abbreviation (input) SectionFlagExec :: u64 where "SectionFlagExec \<equiv> 4"
abbreviation (input) HeaderSize :: "'a::numeral" where "HeaderSize \<equiv> 64"
abbreviation (input) ProgramHeaderSize :: "'a::numeral" where "ProgramHeaderSize \<equiv> 56"
abbreviation (input) SectionHeaderSize :: "'a::numeral" where "SectionHeaderSize \<equiv> 64"
abbreviation (input) SymbolSize :: "'a::numeral" where "SymbolSize \<equiv> 24"
abbreviation (input) RegionSize :: u64 where "RegionSize \<equiv> 0x100000000"
abbreviation (input) BytecodeStart :: u64 where "BytecodeStart \<equiv> 0x100000000"

record elf_image =
  ImageVersion :: u32
  EntryPC :: u64
  ImageText :: bytes

section \<open>Fields\<close>

definition put16 :: "nat \<Rightarrow> u16 \<Rightarrow> bytes \<Rightarrow> bytes" where
  "put16 off v data = put_slice off (le_bytes 2 v) data"

definition put32 :: "nat \<Rightarrow> u32 \<Rightarrow> bytes \<Rightarrow> bytes" where
  "put32 off v data = put_slice off (le_bytes 4 v) data"

definition put64 :: "nat \<Rightarrow> u64 \<Rightarrow> bytes \<Rightarrow> bytes" where
  "put64 off v data = put_slice off (le_bytes 8 v) data"

definition get16 :: "bytes \<Rightarrow> nat \<Rightarrow> u16" where
  "get16 data off = le_word (get_slice off 2 data)"

definition get32 :: "bytes \<Rightarrow> nat \<Rightarrow> u32" where
  "get32 data off = le_word (get_slice off 4 data)"

definition get64 :: "bytes \<Rightarrow> nat \<Rightarrow> u64" where
  "get64 data off = le_word (get_slice off 8 data)"

text \<open>Writing through the sub-slice \<open>data[off:off+len]\<close>.\<close>

definition through :: "nat \<Rightarrow> nat \<Rightarrow> (bytes \<Rightarrow> bytes) \<Rightarrow> bytes \<Rightarrow> bytes" where
  "through off len f data = put_slice off (f (get_slice off len data)) data"

definition byte_slice :: "bytes \<Rightarrow> u64 \<Rightarrow> u64 \<Rightarrow> elf_error + bytes" where
  "byte_slice data lo hi =
     (if lo \<le> hi \<and> unat hi \<le> length data then Inr (get_slice (unat lo) (unat hi - unat lo) data) else Inl ElfPanic)"

definition data_len :: "bytes \<Rightarrow> u64" where
  "data_len data = of_nat (length data)"

definition align_up :: "nat \<Rightarrow> nat \<Rightarrow> nat" where
  "align_up v alignment = nat ((int v + int alignment - 1) AND NOT (int alignment - 1))"

definition allZero :: "bytes \<Rightarrow> bool" where
  "allZero data \<longleftrightarrow> list_all (\<lambda>b. b = 0) data"

definition isInstructionStart :: "instruction list \<Rightarrow> int \<Rightarrow> bool" where
  "isInstructionStart p pc \<longleftrightarrow> list_ex (\<lambda>candidate. candidate = pc) (fst (PhysicalPCs p))"

definition rangesOverlap :: "u64 \<Rightarrow> u64 \<Rightarrow> u64 \<Rightarrow> u64 \<Rightarrow> bool" where
  "rangesOverlap firstStart firstEnd secondStart secondEnd \<longleftrightarrow> firstStart < secondEnd \<and> secondStart < firstEnd"

section \<open>The strict parser\<close>

definition validLoadSegment :: "bytes \<Rightarrow> u32 \<Rightarrow> u64 \<Rightarrow> u64 \<Rightarrow> bytes \<Rightarrow> bool" where
  "validLoadSegment header flags virtualAddress off data \<longleftrightarrow>
     (let fileSize = get64 header 32; memorySize = get64 header 40 in
      get32 header 0 = ProgramLoad \<and>
      get32 header 4 = flags \<and>
      get64 header 8 = off \<and>
      off < data_len data \<and>
      off mod 8 = 0 \<and>
      get64 header 16 = virtualAddress \<and>
      get64 header 24 = virtualAddress \<and>
      fileSize = memorySize \<and>
      fileSize \<le> data_len data - off \<and>
      fileSize mod 8 = 0 \<and>
      memorySize < RegionSize)"

definition section_bytes :: "bytes \<Rightarrow> bytes \<Rightarrow> u64 \<Rightarrow> elf_error + bytes" where
  "section_bytes data header alignment =
     (let off = get64 header 24; size = get64 header 32 in
      if alignment > 1 \<and> off mod alignment \<noteq> 0 then Inl ErrInvalidELF
      else if off > data_len data \<or> size > data_len data - off then Inl ErrInvalidELF
      else byte_slice data off (off + size))"

text \<open>The bytes in front of the first zero among the first \<open>limit\<close> ones.\<close>

fun read_until_zero :: "nat \<Rightarrow> bytes \<Rightarrow> bytes option" where
  "read_until_zero 0 bs = None"
| "read_until_zero (Suc limit) bs =
     (case bs of [] \<Rightarrow> None
      | b # rest \<Rightarrow> if b = 0 then Some [] else map_option ((#) b) (read_until_zero limit rest))"

definition read_string :: "bytes \<Rightarrow> u32 \<Rightarrow> nat \<Rightarrow> elf_error + bytes" where
  "read_string table off maximum =
     (let start = unat off in
      if start \<ge> length table then Inl ErrInvalidELF
      else
        (case read_until_zero (min (length table - start) maximum) (drop start table) of
           Some s \<Rightarrow> Inr s | None \<Rightarrow> Inl ErrInvalidELF))"

definition section_at :: "bytes \<Rightarrow> u64 \<Rightarrow> u64 \<Rightarrow> elf_error + bytes" where
  "section_at data sectionOffset index =
     (let off = sectionOffset + index * SectionHeaderSize in byte_slice data off (off + SectionHeaderSize))"

text \<open>The headers named \<open>.strtab\<close> and \<open>.symtab\<close>; the last of several counts.\<close>

fun find_tables :: "bytes \<Rightarrow> u64 \<Rightarrow> bytes \<Rightarrow> u64 list \<Rightarrow> bytes option \<times> bytes option \<Rightarrow>
    elf_error + (bytes option \<times> bytes option)" where
  "find_tables data sectionOffset names [] found = Inr found"
| "find_tables data sectionOffset names (index # rest) found =
     and_then (section_at data sectionOffset index) (\<lambda>header.
     and_then (read_string names (get32 header 0) 64) (\<lambda>name.
       find_tables data sectionOffset names rest
         (if name = string_bytes ''.strtab'' then (Some header, snd found)
          else if name = string_bytes ''.symtab'' then (fst found, Some header)
          else found)))"

definition symbol_target :: "bytes \<Rightarrow> u64" where
  "symbol_target symbol = (get64 symbol 8 - min (get64 symbol 8) BytecodeStart) div 8"

fun check_symbols :: "bytes \<Rightarrow> (u32 \<rightharpoonup> u64) \<Rightarrow> bytes list \<Rightarrow> elf_error + unit" where
  "check_symbols names functionTargets [] = Inr ()"
| "check_symbols names functionTargets (symbol # rest) =
     (if symbol ! 4 AND 2 = 0 then check_symbols names functionTargets rest
      else
        and_then (read_string names (get32 symbol 0) 255) (\<lambda>name.
          let targetPC = symbol_target symbol; hash = HashBytes name in
          if functionTargets hash \<noteq> None \<and> functionTargets hash \<noteq> Some targetPC then Inl ErrInvalidELF
          else check_symbols names (functionTargets(hash \<mapsto> targetPC)) rest))"

definition symbol_list :: "bytes \<Rightarrow> bytes list" where
  "symbol_list symbols = map (\<lambda>i. get_slice (i * SymbolSize) SymbolSize symbols) [0..<length symbols div SymbolSize]"

definition check_symbol_tables :: "bytes \<Rightarrow> bytes option \<times> bytes option \<Rightarrow> elf_error + unit" where
  "check_symbol_tables data found =
     (case found of
        (None, None) \<Rightarrow> Inr ()
      | (Some symbolNamesHeader, Some symbolTableHeader) \<Rightarrow>
          if get32 symbolNamesHeader 4 \<noteq> SectionStringTable then Inl ErrInvalidELF
          else
            and_then (section_bytes data symbolNamesHeader 1) (\<lambda>symbolNames.
            and_then (section_bytes data symbolTableHeader 8) (\<lambda>symbols.
              if length symbols mod SymbolSize \<noteq> 0 then Inl ErrInvalidELF
              else check_symbols symbolNames Map.empty (symbol_list symbols)))
      | _ \<Rightarrow> Inl ErrInvalidELF)"

definition validateStrictLabelSections :: "bytes \<Rightarrow> u64 \<Rightarrow> u64 \<Rightarrow> elf_error + unit" where
  "validateStrictLabelSections data programHeaderOffset programHeaderTableSize =
     (let sectionOffset = get64 data 40;
          sectionCount = (ucast (get16 data 60) :: u64);
          sectionNamesIndex = (ucast (get16 data 62) :: u64);
          sectionTableSize = sectionCount * SectionHeaderSize;
          sectionEnd = sectionOffset + sectionTableSize;
          programHeaderEnd = programHeaderOffset + programHeaderTableSize in
      if sectionCount = 0 \<or> sectionNamesIndex = 0 \<or> sectionNamesIndex \<ge> sectionCount \<or> sectionOffset mod 8 \<noteq> 0
        then Inl ErrInvalidELF
      else if sectionTableSize div SectionHeaderSize \<noteq> sectionCount \<or> sectionOffset > data_len data \<or>
          sectionTableSize > data_len data - sectionOffset
        then Inl ErrInvalidELF
      else if rangesOverlap sectionOffset sectionEnd 0 HeaderSize \<or>
          rangesOverlap sectionOffset sectionEnd programHeaderOffset programHeaderEnd
        then Inl ErrInvalidELF
      else
        and_then (section_at data sectionOffset sectionNamesIndex) (\<lambda>namesHeader.
        and_then (section_bytes data namesHeader 1) (\<lambda>sectionNames.
          if get32 namesHeader 4 \<noteq> SectionStringTable then Inl ErrInvalidELF
          else
            and_then (find_tables data sectionOffset sectionNames
                (map of_nat [0..<unat sectionCount]) (None, None))
              (check_symbol_tables data))))"

definition program_header :: "bytes \<Rightarrow> u64 \<Rightarrow> u64 \<Rightarrow> elf_error + bytes" where
  "program_header data programHeaderOffset index =
     (let off = programHeaderOffset + index * ProgramHeaderSize in byte_slice data off (off + ProgramHeaderSize))"

definition header_ok :: "bytes \<Rightarrow> bool" where
  "header_ok data \<longleftrightarrow>
     take 4 data = 0x7f # string_bytes ''ELF'' \<and> data ! 4 = Class64 \<and> data ! 5 = DataLittle \<and>
     data ! 6 = ElfVersion \<and> data ! 7 = OSABINone \<and> allZero (get_slice 8 8 data) \<and>
     get16 data 16 = TypeDynamic \<and> get16 data 18 = MachineBPF \<and> get32 data 20 = ElfVersion \<and>
     get32 data 48 = SBPFVersion3"

text \<open>The executable segment's header, which may follow one read-only segment.\<close>

definition find_text_header :: "bytes \<Rightarrow> u64 \<Rightarrow> u64 \<Rightarrow> u64 \<Rightarrow> elf_error + (bytes \<times> u64)" where
  "find_text_header data programHeaderOffset programHeaderCount programHeaderTableEnd =
     and_then (program_header data programHeaderOffset 0) (\<lambda>first.
       if get32 first 4 = FlagRead then
         if programHeaderCount < 2 \<or> \<not> validLoadSegment first FlagRead 0 programHeaderTableEnd data
           then Inl ErrInvalidELF
         else and_then (program_header data programHeaderOffset 1)
           (\<lambda>textHeader. Inr (textHeader, programHeaderTableEnd + get64 first 32))
       else Inr (first, programHeaderTableEnd))"

definition ParseStrictV3 :: "bytes \<Rightarrow> elf_error + elf_image" where
  "ParseStrictV3 data =
     (if length data < HeaderSize + ProgramHeaderSize then Inl ErrInvalidELF
      else if \<not> header_ok data then Inl ErrInvalidELF
      else
        let programHeaderOffset = get64 data 32;
            programHeaderCount = (ucast (get16 data 56) :: u64);
            programHeaderTableSize = programHeaderCount * ProgramHeaderSize;
            programHeaderTableEnd = programHeaderOffset + programHeaderTableSize in
        if programHeaderOffset \<noteq> HeaderSize \<or> get16 data 52 \<noteq> HeaderSize \<or>
            get16 data 54 \<noteq> ProgramHeaderSize \<or> programHeaderCount = 0
          then Inl ErrInvalidELF
        else if programHeaderTableSize div ProgramHeaderSize \<noteq> programHeaderCount \<or>
            programHeaderOffset > data_len data \<or> programHeaderTableSize > data_len data - programHeaderOffset
          then Inl ErrInvalidELF
        else
          and_then (find_text_header data programHeaderOffset programHeaderCount programHeaderTableEnd)
            (\<lambda>(textHeader, expectedTextOffset).
          if \<not> validLoadSegment textHeader FlagExecute BytecodeStart expectedTextOffset data then Inl ErrInvalidELF
          else
            let textOffset = get64 textHeader 8; textSize = get64 textHeader 32; entry = get64 data 24 in
            if textSize = 0 \<or> textSize mod 8 \<noteq> 0 \<or> textSize \<ge> RegionSize \<or>
                textOffset > data_len data \<or> textSize > data_len data - textOffset
              then Inl ErrInvalidELF
            else if entry < BytecodeStart \<or> entry mod 8 \<noteq> 0 \<or> entry - BytecodeStart \<ge> textSize
              then Inl ErrInvalidEntry
            else
              and_then (byte_slice data textOffset (textOffset + textSize)) (\<lambda>text.
              and_then (validateStrictLabelSections data programHeaderOffset programHeaderTableSize) (\<lambda>_.
                (case Decode text of
                   Inl err \<Rightarrow> Inl ErrInvalidELF
                 | Inr p \<Rightarrow>
                     let entryPC = (entry - BytecodeStart) div 8 in
                     if \<not> isInstructionStart p (sint entryPC) then Inl ErrInvalidEntry
                     else Inr \<lparr>ImageVersion = SBPFVersion3, EntryPC = entryPC, ImageText = text\<rparr>)))))"

section \<open>The writer\<close>

record sectionHeader =
  sh_name :: u32
  sh_kind :: u32
  sh_flags :: u64
  sh_address :: u64
  sh_offset :: nat
  sh_size :: nat
  sh_link :: u32
  sh_info :: u32
  sh_align :: u64
  sh_entrySize :: u64

definition write_section_fields :: "sectionHeader \<Rightarrow> bytes \<Rightarrow> bytes" where
  "write_section_fields s dst =
     (let dst = put32 0 (sh_name s) dst;
          dst = put32 4 (sh_kind s) dst;
          dst = put64 8 (sh_flags s) dst;
          dst = put64 16 (sh_address s) dst;
          dst = put64 24 (of_nat (sh_offset s)) dst;
          dst = put64 32 (of_nat (sh_size s)) dst;
          dst = put32 40 (sh_link s) dst;
          dst = put32 44 (sh_info s) dst;
          dst = put64 48 (sh_align s) dst in
      put64 56 (sh_entrySize s) dst)"

definition writeSection :: "nat \<Rightarrow> sectionHeader \<Rightarrow> bytes \<Rightarrow> bytes" where
  "writeSection off s data = through off SectionHeaderSize (write_section_fields s) data"

definition shstrtab :: bytes where
  "shstrtab = [0] @ string_bytes ''.text'' @ [0] @ string_bytes ''.symtab'' @ [0] @
     string_bytes ''.strtab'' @ [0] @ string_bytes ''.shstrtab'' @ [0]"

definition strtab :: bytes where
  "strtab = [0] @ string_bytes ''entrypoint'' @ [0]"

definition text_offset :: nat where
  "text_offset = HeaderSize + ProgramHeaderSize"

definition strtab_offset :: "bytes \<Rightarrow> nat" where
  "strtab_offset text = align_up (text_offset + length text) 8"

definition symtab_offset :: "bytes \<Rightarrow> nat" where
  "symtab_offset text = align_up (strtab_offset text + length strtab) 8"

definition symtab_size :: nat where
  "symtab_size = 2 * SymbolSize"

definition shstrtab_offset :: "bytes \<Rightarrow> nat" where
  "shstrtab_offset text = symtab_offset text + symtab_size"

definition section_offset :: "bytes \<Rightarrow> nat" where
  "section_offset text = align_up (shstrtab_offset text + length shstrtab) 8"

definition total_size :: "bytes \<Rightarrow> nat" where
  "total_size text = section_offset text + 5 * SectionHeaderSize"

definition elf_ident :: bytes where
  "elf_ident = 0x7f # string_bytes ''ELF'' @ [Class64, DataLittle, ElfVersion, OSABINone]"

definition write_elf_header :: "u64 \<Rightarrow> nat \<Rightarrow> bytes \<Rightarrow> bytes" where
  "write_elf_header entryPC sectionOffset result =
     (let result = put_slice 0 elf_ident result;
          result = put16 16 TypeDynamic result;
          result = put16 18 MachineBPF result;
          result = put32 20 ElfVersion result;
          result = put64 24 (BytecodeStart + entryPC * 8) result;
          result = put64 32 HeaderSize result;
          result = put64 40 (of_nat sectionOffset) result;
          result = put32 48 SBPFVersion3 result;
          result = put16 52 HeaderSize result;
          result = put16 54 ProgramHeaderSize result;
          result = put16 56 1 result;
          result = put16 58 SectionHeaderSize result;
          result = put16 60 5 result in
      put16 62 4 result)"

definition write_program_header :: "nat \<Rightarrow> bytes \<Rightarrow> bytes" where
  "write_program_header textLen ph =
     (let ph = put32 0 ProgramLoad ph;
          ph = put32 4 FlagExecute ph;
          ph = put64 8 (of_nat text_offset) ph;
          ph = put64 16 BytecodeStart ph;
          ph = put64 24 BytecodeStart ph;
          ph = put64 32 (of_nat textLen) ph;
          ph = put64 40 (of_nat textLen) ph in
      put64 48 8 ph)"

definition write_symbol :: "u64 \<Rightarrow> nat \<Rightarrow> bytes \<Rightarrow> bytes" where
  "write_symbol entryPC textLen symbol =
     (let symbol = put32 0 1 symbol;
          symbol = symbol[4 := 0x12];
          symbol = put16 6 1 symbol;
          symbol = put64 8 (BytecodeStart + entryPC * 8) symbol in
      put64 16 (of_nat textLen - entryPC * 8) symbol)"

definition text_section :: "bytes \<Rightarrow> sectionHeader" where
  "text_section text =
     \<lparr>sh_name = 1, sh_kind = SectionProgramBits, sh_flags = SectionFlagAlloc OR SectionFlagExec,
      sh_address = BytecodeStart, sh_offset = text_offset, sh_size = length text,
      sh_link = 0, sh_info = 0, sh_align = 8, sh_entrySize = 0\<rparr>"

definition strtab_section :: "bytes \<Rightarrow> sectionHeader" where
  "strtab_section text =
     \<lparr>sh_name = 15, sh_kind = SectionStringTable, sh_flags = 0, sh_address = 0,
      sh_offset = strtab_offset text, sh_size = length strtab,
      sh_link = 0, sh_info = 0, sh_align = 1, sh_entrySize = 0\<rparr>"

definition symtab_section :: "bytes \<Rightarrow> sectionHeader" where
  "symtab_section text =
     \<lparr>sh_name = 7, sh_kind = SectionSymbolTable, sh_flags = 0, sh_address = 0,
      sh_offset = symtab_offset text, sh_size = symtab_size,
      sh_link = 2, sh_info = 1, sh_align = 8, sh_entrySize = SymbolSize\<rparr>"

definition shstrtab_section :: "bytes \<Rightarrow> sectionHeader" where
  "shstrtab_section text =
     \<lparr>sh_name = 23, sh_kind = SectionStringTable, sh_flags = 0, sh_address = 0,
      sh_offset = shstrtab_offset text, sh_size = length shstrtab,
      sh_link = 0, sh_info = 0, sh_align = 1, sh_entrySize = 0\<rparr>"

definition write_image :: "bytes \<Rightarrow> u64 \<Rightarrow> bytes" where
  "write_image text entryPC =
     (let sectionOffset = section_offset text;
          result = replicate (total_size text) 0;
          result = write_elf_header entryPC sectionOffset result;
          result = through HeaderSize ProgramHeaderSize (write_program_header (length text)) result;
          result = put_slice text_offset text result;
          result = put_slice (strtab_offset text) strtab result;
          result = put_slice (shstrtab_offset text) shstrtab result;
          result = through (symtab_offset text + SymbolSize) SymbolSize (write_symbol entryPC (length text)) result;
          result = writeSection (sectionOffset + SectionHeaderSize) (text_section text) result;
          result = writeSection (sectionOffset + 2 * SectionHeaderSize) (strtab_section text) result;
          result = writeSection (sectionOffset + 3 * SectionHeaderSize) (symtab_section text) result in
      writeSection (sectionOffset + 4 * SectionHeaderSize) (shstrtab_section text) result)"

definition BuildV3 :: "bytes \<Rightarrow> u64 \<Rightarrow> elf_error + bytes" where
  "BuildV3 text entryPC =
     (case Decode text of
        Inl err \<Rightarrow> Inl (ErrSbpf err)
      | Inr p \<Rightarrow>
          if entryPC \<ge> of_int (snd (PhysicalPCs p)) \<or> \<not> isInstructionStart p (sint entryPC) then Inl ErrInvalidEntry
          else
            let result = write_image text entryPC in
            (case ParseStrictV3 result of Inl err \<Rightarrow> Inl err | Inr parsed \<Rightarrow> Inr result))"

end
