(* ===== verification/ElfFacts.thy ===== *)
theory ElfFacts
  imports ElfWriter Slices "HOL-Library.Code_Target_Nat"
begin

text \<open>
  The image \<open>BuildV3\<close> writes, part by part, and what the strict parser of \<open>src/elf/elf.go\<close> reads
  back from it.
\<close>

section \<open>Fields of appended parts\<close>

lemma get_fields [codec_simps]:
  "get16 (le_bytes 2 v @ ys) 0 = v" "get32 (le_bytes 4 w @ ys) 0 = w" "get64 (le_bytes 8 x @ ys) 0 = x"
  by (simp_all add: get16_def get32_def get64_def get_slice_def codec_simps)

lemma get_skip:
  "length xs \<le> off \<Longrightarrow> get16 (xs @ ys) off = get16 ys (off - length xs)"
  "length xs \<le> off \<Longrightarrow> get32 (xs @ ys) off = get32 ys (off - length xs)"
  "length xs \<le> off \<Longrightarrow> get64 (xs @ ys) off = get64 ys (off - length xs)"
  by (simp_all add: get16_def get32_def get64_def get_slice_right)

lemma get_end:
  "get16 (le_bytes 2 v) 0 = v" "get32 (le_bytes 4 w) 0 = w" "get64 (le_bytes 8 x) 0 = x"
  by (simp_all add: get16_def get32_def get64_def get_slice_all codec_simps)

section \<open>Alignment\<close>

lemma align_up_8: "align_up n 8 = (n + 7) div 8 * 8"
proof -
  have seven: "(7 :: int) = mask 3" by (simp add: mask_eq_exp_minus_1)
  have "(int n + 7) AND NOT 7 = push_bit 3 (drop_bit 3 (int n + 7))"
    unfolding seven by (rule bit_eqI) (auto simp: bit_simps)
  then have "(int n + 7) AND NOT 7 = int ((n + 7) div 8 * 8)"
    by (simp only: push_bit_eq_mult drop_bit_eq_div) (simp add: zdiv_int)
  moreover have "int n + int 8 - 1 = int n + 7" "int 8 - 1 = 7" by simp_all
  ultimately show ?thesis by (simp only: align_up_def nat_int)
qed

section \<open>The parts of the image\<close>

lemma length_ident [simp]: "length elf_ident = 8"
  by (simp add: elf_ident_def string_bytes_def)

definition elf_header_bytes :: "u64 \<Rightarrow> nat \<Rightarrow> bytes" where
  "elf_header_bytes entryPC sectionOffset =
     elf_ident @ replicate 8 0 @
     le_bytes 2 TypeDynamic @ le_bytes 2 MachineBPF @ le_bytes 4 (ElfVersion :: u32) @
     le_bytes 8 (BytecodeStart + entryPC * 8) @ le_bytes 8 (HeaderSize :: u64) @
     le_bytes 8 (of_nat sectionOffset :: u64) @ le_bytes 4 SBPFVersion3 @ le_bytes 2 (HeaderSize :: u16) @
     le_bytes 2 (ProgramHeaderSize :: u16) @ le_bytes 2 (1 :: u16) @ le_bytes 2 (SectionHeaderSize :: u16) @
     le_bytes 2 (5 :: u16) @ le_bytes 2 (4 :: u16)"

definition program_header_bytes :: "nat \<Rightarrow> bytes" where
  "program_header_bytes textLen =
     le_bytes 4 ProgramLoad @ le_bytes 4 FlagExecute @ le_bytes 8 (of_nat text_offset :: u64) @
     le_bytes 8 BytecodeStart @ le_bytes 8 BytecodeStart @ le_bytes 8 (of_nat textLen :: u64) @
     le_bytes 8 (of_nat textLen :: u64) @ le_bytes 8 (8 :: u64)"

definition symbol_bytes :: "u64 \<Rightarrow> nat \<Rightarrow> bytes" where
  "symbol_bytes entryPC textLen =
     le_bytes 4 (1 :: u32) @ [0x12, 0] @ le_bytes 2 (1 :: u16) @ le_bytes 8 (BytecodeStart + entryPC * 8) @
     le_bytes 8 (of_nat textLen - entryPC * 8 :: u64)"

definition section_header_bytes :: "sectionHeader \<Rightarrow> bytes" where
  "section_header_bytes s =
     le_bytes 4 (sh_name s) @ le_bytes 4 (sh_kind s) @ le_bytes 8 (sh_flags s) @ le_bytes 8 (sh_address s) @
     le_bytes 8 (of_nat (sh_offset s) :: u64) @ le_bytes 8 (of_nat (sh_size s) :: u64) @ le_bytes 4 (sh_link s) @
     le_bytes 4 (sh_info s) @ le_bytes 8 (sh_align s) @ le_bytes 8 (sh_entrySize s)"

lemma length_parts [simp]:
  "length (elf_header_bytes pc soff) = 64" "length (program_header_bytes n) = 56"
  "length (symbol_bytes pc n) = 24" "length (section_header_bytes s) = 64"
  by (simp_all add: elf_header_bytes_def program_header_bytes_def symbol_bytes_def section_header_bytes_def)

text \<open>A cleared area, cut where the fields are, takes the fields one after the other.\<close>

lemma cut_header:
  "replicate 64 (0 :: u8) = replicate 8 0 @ replicate 8 0 @ replicate 2 0 @ replicate 2 0 @ replicate 4 0 @
     replicate 8 0 @ replicate 8 0 @ replicate 8 0 @ replicate 4 0 @ replicate 2 0 @ replicate 2 0 @
     replicate 2 0 @ replicate 2 0 @ replicate 2 0 @ replicate 2 0"
  by (simp flip: replicate_add)

lemma write_elf_header_fills:
  "write_elf_header pc soff (replicate 64 0 @ rest) = elf_header_bytes pc soff @ rest"
  unfolding cut_header append_assoc
  by (simp add: write_elf_header_def put16_def put32_def put64_def put_head put_slice_right elf_header_bytes_def)

lemma cut_program_header:
  "replicate 56 (0 :: u8) = replicate 4 0 @ replicate 4 0 @ replicate 8 0 @ replicate 8 0 @ replicate 8 0 @
     replicate 8 0 @ replicate 8 0 @ replicate 8 0"
  by (simp flip: replicate_add)

lemma write_program_header_fills: "write_program_header n (replicate 56 0) = program_header_bytes n"
  unfolding cut_program_header
  by (simp add: write_program_header_def put32_def put64_def put_head put_slice_right put_slice_all program_header_bytes_def)

lemma cut_symbol:
  "replicate 24 (0 :: u8) = replicate 4 0 @ [0, 0] @ replicate 2 0 @ replicate 8 0 @ replicate 8 0"
  by (simp flip: replicate_add) (simp add: numeral_eq_Suc)

lemma write_symbol_fills: "write_symbol pc n (replicate 24 0) = symbol_bytes pc n"
proof -
  have "(le_bytes 4 (1 :: u32) @ 0 # 0 # ys)[4 := 0x12] = le_bytes 4 (1 :: u32) @ 0x12 # 0 # ys" for ys
    by (simp add: list_update_append)
  then show ?thesis
    unfolding cut_symbol
    by (simp add: write_symbol_def put16_def put32_def put64_def put_head put_slice_right put_slice_Cons put_slice_all symbol_bytes_def)
qed

lemma cut_section:
  "replicate 64 (0 :: u8) = replicate 4 0 @ replicate 4 0 @ replicate 8 0 @ replicate 8 0 @ replicate 8 0 @
     replicate 8 0 @ replicate 4 0 @ replicate 4 0 @ replicate 8 0 @ replicate 8 0"
  by (simp flip: replicate_add)

lemma write_section_fills: "write_section_fields s (replicate 64 0) = section_header_bytes s"
  unfolding cut_section
  by (simp add: write_section_fields_def put32_def put64_def put_head put_slice_right put_slice_all section_header_bytes_def)

section \<open>The whole image\<close>

definition padding :: "nat \<Rightarrow> nat" where
  "padding n = (n + 7) div 8 * 8 - n"

lemma align_padding: "align_up n 8 = n + padding n"
  by (simp add: align_up_8 padding_def)

definition image_bytes :: "bytes \<Rightarrow> u64 \<Rightarrow> bytes" where
  "image_bytes text pc =
     elf_header_bytes pc (section_offset text) @ program_header_bytes (length text) @ text @
     replicate (padding (text_offset + length text)) 0 @ strtab @
     replicate (padding (strtab_offset text + length strtab)) 0 @ replicate 24 0 @
     symbol_bytes pc (length text) @ shstrtab @
     replicate (padding (shstrtab_offset text + length shstrtab)) 0 @ replicate 64 0 @
     section_header_bytes (text_section text) @ section_header_bytes (strtab_section text) @
     section_header_bytes (symtab_section text) @ section_header_bytes (shstrtab_section text)"

lemma length_tables [simp]: "length strtab = 12" "length shstrtab = 33"
  by (simp_all add: strtab_def shstrtab_def string_bytes_def)

lemmas offsets = text_offset_def strtab_offset_def symtab_offset_def symtab_size_def shstrtab_offset_def
  section_offset_def total_size_def align_padding

lemma cut_image:
  "replicate (total_size text) (0 :: u8) =
     replicate 64 0 @ replicate 56 0 @ replicate (length text) 0 @
     replicate (padding (text_offset + length text)) 0 @ replicate 12 0 @
     replicate (padding (strtab_offset text + length strtab)) 0 @ replicate 24 0 @
     replicate 24 0 @ replicate 33 0 @
     replicate (padding (shstrtab_offset text + length shstrtab)) 0 @ replicate 64 0 @
     replicate 64 0 @ replicate 64 0 @ replicate 64 0 @ replicate 64 0"
  by (simp add: offsets flip: replicate_add)

lemma through_right:
  "length xs \<le> off \<Longrightarrow> through off n f (xs @ ys) = xs @ through (off - length xs) n f ys"
  by (simp add: through_def get_slice_right put_slice_right)

lemma through_head:
  "length old = n \<Longrightarrow> length (f old) = n \<Longrightarrow> through 0 n f (old @ ys) = f old @ ys"
  by (simp add: through_def get_slice_def put_slice_def)

lemma through_all: "length old = n \<Longrightarrow> length (f old) = n \<Longrightarrow> through 0 n f old = f old"
  by (simp add: through_def get_slice_def put_slice_def)

lemma write_image_eq: "write_image text pc = image_bytes text pc"
  unfolding write_image_def Let_def cut_image write_elf_header_fills writeSection_def
  by (simp add: offsets through_right through_head through_all put_slice_right put_head
      write_program_header_fills write_symbol_fills write_section_fills image_bytes_def)

section \<open>Lengths as words\<close>

lemma unat_data_len: "length data < 2 ^ 64 \<Longrightarrow> unat (data_len data) = length data"
  by (simp add: data_len_def unat_of_nat)

section \<open>Reading the parts\<close>

lemma get_left:
  "off + 2 \<le> length xs \<Longrightarrow> get16 (xs @ ys) off = get16 xs off"
  "off + 4 \<le> length xs \<Longrightarrow> get32 (xs @ ys) off = get32 xs off"
  "off + 8 \<le> length xs \<Longrightarrow> get64 (xs @ ys) off = get64 xs off"
  by (simp_all add: get16_def get32_def get64_def get_slice_left)

lemma elf_header_fields:
  "get16 (elf_header_bytes pc soff) 16 = TypeDynamic" "get16 (elf_header_bytes pc soff) 18 = MachineBPF"
  "get32 (elf_header_bytes pc soff) 20 = ElfVersion" "get64 (elf_header_bytes pc soff) 24 = BytecodeStart + pc * 8"
  "get64 (elf_header_bytes pc soff) 32 = HeaderSize" "get64 (elf_header_bytes pc soff) 40 = of_nat soff"
  "get32 (elf_header_bytes pc soff) 48 = SBPFVersion3" "get16 (elf_header_bytes pc soff) 52 = HeaderSize"
  "get16 (elf_header_bytes pc soff) 54 = ProgramHeaderSize" "get16 (elf_header_bytes pc soff) 56 = 1"
  "get16 (elf_header_bytes pc soff) 60 = 5" "get16 (elf_header_bytes pc soff) 62 = 4"
  by (simp_all add: elf_header_bytes_def get_skip get_fields get_end)

lemma elf_ident_bytes:
  "take 4 (elf_header_bytes pc soff) = 0x7f # string_bytes ''ELF''" "elf_header_bytes pc soff ! 4 = Class64"
  "elf_header_bytes pc soff ! 5 = DataLittle" "elf_header_bytes pc soff ! 6 = ElfVersion"
  "elf_header_bytes pc soff ! 7 = OSABINone" "get_slice 8 8 (elf_header_bytes pc soff) = replicate 8 0"
  by (simp_all add: elf_header_bytes_def elf_ident_def string_bytes_def get_slice_def)

lemma program_header_fields:
  "get32 (program_header_bytes n) 0 = ProgramLoad" "get32 (program_header_bytes n) 4 = FlagExecute"
  "get64 (program_header_bytes n) 8 = 120" "get64 (program_header_bytes n) 16 = BytecodeStart"
  "get64 (program_header_bytes n) 24 = BytecodeStart" "get64 (program_header_bytes n) 32 = of_nat n"
  "get64 (program_header_bytes n) 40 = of_nat n"
  by (simp_all add: program_header_bytes_def get_skip get_fields get_end text_offset_def)

lemma section_header_fields:
  "get32 (section_header_bytes s) 0 = sh_name s" "get32 (section_header_bytes s) 4 = sh_kind s"
  "get64 (section_header_bytes s) 24 = of_nat (sh_offset s)" "get64 (section_header_bytes s) 32 = of_nat (sh_size s)"
  by (simp_all add: section_header_bytes_def get_skip get_fields get_end)

lemma symbol_fields:
  "get32 (symbol_bytes pc n) 0 = 1" "symbol_bytes pc n ! 4 = 0x12" 
  by (simp_all add: symbol_bytes_def get_skip get_fields get_end nth_append)

section \<open>Finding the parts\<close>

lemma byte_slice_part:
  assumes "unat lo = length pre" and "unat hi = length pre + length mid"
  shows "byte_slice (pre @ mid @ post) lo hi = Inr mid"
  using assms by (simp add: byte_slice_def word_le_nat_alt get_slice_def)

definition image_body :: "bytes \<Rightarrow> u64 \<Rightarrow> bytes" where
  "image_body text pc =
     elf_header_bytes pc (section_offset text) @ program_header_bytes (length text) @ text @
     replicate (padding (text_offset + length text)) 0 @ strtab @
     replicate (padding (strtab_offset text + length strtab)) 0 @ (replicate 24 0 @
     symbol_bytes pc (length text)) @ shstrtab @
     replicate (padding (shstrtab_offset text + length shstrtab)) 0"

definition image_sections :: "bytes \<Rightarrow> bytes" where
  "image_sections text =
     replicate 64 0 @ section_header_bytes (text_section text) @ section_header_bytes (strtab_section text) @
     section_header_bytes (symtab_section text) @ section_header_bytes (shstrtab_section text)"

lemma image_split: "image_bytes text pc = image_body text pc @ image_sections text"
  by (simp add: image_bytes_def image_body_def image_sections_def)

lemma length_image_body: "length (image_body text pc) = section_offset text"
  by (simp add: image_body_def offsets)

lemma length_image: "length (image_bytes text pc) = total_size text"
  by (simp add: image_split length_image_body image_sections_def total_size_def)

lemma total_size_bound: "total_size text \<le> length text + 600"
  by (simp add: offsets padding_def)

lemma section_offset_bounds: "120 + length text \<le> section_offset text" "section_offset text mod 8 = 0"
proof -
  show "120 + length text \<le> section_offset text" by (simp add: offsets)
  show "section_offset text mod 8 = 0" by (simp add: section_offset_def align_up_8)
qed

lemma section_at_image:
  assumes n: "length text \<le> 2 ^ 20" and cut: "image_sections text = pre @ mid @ post"
    and len: "length pre = 64 * i" "length mid = 64"
  shows "section_at (image_bytes text pc) (of_nat (section_offset text)) (of_nat i) = Inr mid"
proof -
  have "section_offset text \<le> 2 ^ 21" using total_size_bound [of "text"] n by (simp add: total_size_def)
  moreover have "length (image_sections text) = 320" by (simp add: image_sections_def)
  then have "i < 5" using cut len by simp
  ultimately have lo: "unat (of_nat (section_offset text) + of_nat i * 64 :: u64) = section_offset text + 64 * i"
    and hi: "unat (of_nat (section_offset text) + of_nat i * 64 + 64 :: u64) = section_offset text + 64 * i + 64"
    using of_nat_u64(6) [of "section_offset text + 64 * i" 0] of_nat_u64(6) [of "section_offset text + 64 * i + 64" 0]
    by (simp_all add: algebra_simps)
  have "image_bytes text pc = (image_body text pc @ pre) @ mid @ post" by (simp add: image_split cut)
  then show ?thesis
    unfolding section_at_def Let_def
    using byte_slice_part [of _ "image_body text pc @ pre" _ mid post] lo hi len by (simp add: length_image_body)
qed

lemma section_bytes_image:
  assumes n: "length text \<le> 2 ^ 20" and cut: "image_bytes text pc = pre @ mid @ post"
    and len: "length pre = sh_offset s" "length mid = sh_size s"
    and al: "alignment = 1 \<or> alignment = 8 \<and> sh_offset s mod 8 = 0"
  shows "section_bytes (image_bytes text pc) (section_header_bytes s) alignment = Inr mid"
proof -
  have L: "length (image_bytes text pc) < 2 ^ 22" using total_size_bound [of "text"] n by (simp add: length_image)
  have le: "sh_offset s + sh_size s \<le> length (image_bytes text pc)" using cut len by simp
  have b: "sh_offset s < 2 ^ 64" "sh_size s < 2 ^ 64" "length (image_bytes text pc) < 2 ^ 64"
    using L le by simp_all
  have lo: "unat (of_nat (sh_offset s) :: u64) = length pre" using of_nat_u64(6) [OF b(1) b(1)] len by simp
  have hi: "unat (of_nat (sh_offset s) + of_nat (sh_size s) :: u64) = length pre + length mid"
    using of_nat_u64(6) [of "sh_offset s + sh_size s" 0] L le len by simp
  have "\<not> (alignment > 1 \<and> (of_nat (sh_offset s) :: u64) mod alignment \<noteq> 0)"
    using al of_nat_u64(4) [OF b(1), of 8] by auto
  moreover have "\<not> (of_nat (sh_offset s) :: u64) > data_len (image_bytes text pc)"
    using le of_nat_u64(2) [OF b(3,1)] by (simp add: data_len_def)
  moreover have "\<not> (of_nat (sh_size s) :: u64) > data_len (image_bytes text pc) - of_nat (sh_offset s)"
  proof -
    have "data_len (image_bytes text pc) - of_nat (sh_offset s) = of_nat (length (image_bytes text pc) - sh_offset s)"
      using le by (simp add: data_len_def of_nat_diff)
    then show ?thesis using of_nat_u64(2) [of "length (image_bytes text pc) - sh_offset s" "sh_size s"] le b by simp
  qed
  ultimately show ?thesis
    unfolding section_bytes_def section_header_fields Let_def
    using byte_slice_part [OF lo hi, of post] cut by simp
qed

section \<open>The label tables\<close>

lemma section_names:
  "read_string shstrtab 0 64 = Inr []" "read_string shstrtab 1 64 = Inr (string_bytes ''.text'')"
  "read_string shstrtab 15 64 = Inr (string_bytes ''.strtab'')"
  "read_string shstrtab 7 64 = Inr (string_bytes ''.symtab'')"
  "read_string shstrtab 23 64 = Inr (string_bytes ''.shstrtab'')"
  "read_string strtab 1 255 = Inr (string_bytes ''entrypoint'')"
  by code_simp+

lemma table_names_differ:
  "string_bytes ''.text'' \<noteq> string_bytes ''.strtab''" "string_bytes ''.text'' \<noteq> string_bytes ''.symtab''"
  "string_bytes ''.symtab'' \<noteq> string_bytes ''.strtab''" "string_bytes ''.shstrtab'' \<noteq> string_bytes ''.strtab''"
  "string_bytes ''.shstrtab'' \<noteq> string_bytes ''.symtab''" "[] \<noteq> string_bytes ''.strtab''" "[] \<noteq> string_bytes ''.symtab''"
  by (simp_all add: string_bytes_def)

lemma symbol_list_image: "symbol_list (replicate 24 0 @ symbol_bytes pc n) = [replicate 24 0, symbol_bytes pc n]"
  by (simp add: symbol_list_def get_slice_right get_slice_left get_slice_all upt_rec)

lemma symbols_image: "check_symbols strtab Map.empty [replicate 24 0, symbol_bytes pc n] = Inr ()"
  by (simp add: symbol_fields section_names)

lemma sections_image:
  assumes n: "length text \<le> 2 ^ 20"
  shows "section_at (image_bytes text pc) (of_nat (section_offset text)) 0 = Inr (replicate 64 0)"
    "section_at (image_bytes text pc) (of_nat (section_offset text)) 1 = Inr (section_header_bytes (text_section text))"
    "section_at (image_bytes text pc) (of_nat (section_offset text)) 2 = Inr (section_header_bytes (strtab_section text))"
    "section_at (image_bytes text pc) (of_nat (section_offset text)) 3 = Inr (section_header_bytes (symtab_section text))"
    "section_at (image_bytes text pc) (of_nat (section_offset text)) 4 = Inr (section_header_bytes (shstrtab_section text))"
  using section_at_image [OF n, of "[]" "replicate 64 0" _ 0 pc]
    section_at_image [OF n, of "replicate 64 0" "section_header_bytes (text_section text)" _ 1 pc]
    section_at_image [OF n, of "replicate 64 0 @ section_header_bytes (text_section text)"
      "section_header_bytes (strtab_section text)" _ 2 pc]
    section_at_image [OF n, of "replicate 64 0 @ section_header_bytes (text_section text) @ section_header_bytes (strtab_section text)"
      "section_header_bytes (symtab_section text)" _ 3 pc]
    section_at_image [OF n, of "replicate 64 0 @ section_header_bytes (text_section text) @
        section_header_bytes (strtab_section text) @ section_header_bytes (symtab_section text)"
      "section_header_bytes (shstrtab_section text)" "[]" 4 pc]
  by (simp_all add: image_sections_def)

lemma tables_image:
  assumes n: "length text \<le> 2 ^ 20"
  shows "section_bytes (image_bytes text pc) (section_header_bytes (shstrtab_section text)) 1 = Inr shstrtab"
    and "section_bytes (image_bytes text pc) (section_header_bytes (strtab_section text)) 1 = Inr strtab"
    and "section_bytes (image_bytes text pc) (section_header_bytes (symtab_section text)) 8 =
      Inr (replicate 24 0 @ symbol_bytes pc (length text))"
proof -
  let ?front = "elf_header_bytes pc (section_offset text) @ program_header_bytes (length text) @ text @
     replicate (padding (text_offset + length text)) 0"
  let ?symbols = "?front @ strtab @ replicate (padding (strtab_offset text + length strtab)) 0"
  let ?names = "?symbols @ replicate 24 0 @ symbol_bytes pc (length text)"
  show "section_bytes (image_bytes text pc) (section_header_bytes (shstrtab_section text)) 1 = Inr shstrtab"
    by (rule section_bytes_image [OF n, of _ ?names _ "replicate (padding (shstrtab_offset text + length shstrtab)) 0 @ image_sections text"])
      (simp_all add: image_split image_body_def shstrtab_section_def offsets)
  show "section_bytes (image_bytes text pc) (section_header_bytes (strtab_section text)) 1 = Inr strtab"
    by (rule section_bytes_image [OF n, of _ ?front _ "replicate (padding (strtab_offset text + length strtab)) 0 @
          (replicate 24 0 @ symbol_bytes pc (length text)) @ shstrtab @
          replicate (padding (shstrtab_offset text + length shstrtab)) 0 @ image_sections text"])
      (simp_all add: image_split image_body_def strtab_section_def offsets)
  have "symtab_offset text mod 8 = 0" by (simp add: symtab_offset_def align_up_8)
  then show "section_bytes (image_bytes text pc) (section_header_bytes (symtab_section text)) 8 =
      Inr (replicate 24 0 @ symbol_bytes pc (length text))"
    by (intro section_bytes_image [OF n, of _ ?symbols _ "shstrtab @
          replicate (padding (shstrtab_offset text + length shstrtab)) 0 @ image_sections text"])
      (simp_all add: image_split image_body_def symtab_section_def offsets)
qed

lemma find_tables_image:
  assumes "length text \<le> 2 ^ 20"
  shows "find_tables (image_bytes text pc) (of_nat (section_offset text)) shstrtab [0, 1, 2, 3, 4] (None, None) =
    Inr (Some (section_header_bytes (strtab_section text)), Some (section_header_bytes (symtab_section text)))"
proof -
  have "get32 (replicate 64 0) 0 = 0" by code_simp
  then show ?thesis
    using table_names_differ
    by (simp add: sections_image [OF assms] section_header_fields section_names text_section_def strtab_section_def
        symtab_section_def shstrtab_section_def)
qed

section \<open>Reading the image back\<close>

lemma image_header:
  "image_bytes text pc = elf_header_bytes pc (section_offset text) @ program_header_bytes (length text) @ text @
     drop (120 + length text) (image_bytes text pc)"
  by (simp add: image_bytes_def)

lemma image_fields:
  "get16 (image_bytes text pc) 52 = HeaderSize" "get16 (image_bytes text pc) 54 = ProgramHeaderSize"
  "get16 (image_bytes text pc) 56 = 1" "get16 (image_bytes text pc) 60 = 5" "get16 (image_bytes text pc) 62 = 4"
  "get64 (image_bytes text pc) 24 = BytecodeStart + pc * 8" "get64 (image_bytes text pc) 32 = HeaderSize"
  "get64 (image_bytes text pc) 40 = of_nat (section_offset text)"
  by (simp_all add: image_bytes_def get_left elf_header_fields)

lemma image_ident: "header_ok (image_bytes text pc)"
proof -
  have "get_slice 8 8 (image_bytes text pc) = replicate 8 0"
    unfolding image_bytes_def using elf_ident_bytes(6) by (subst get_slice_left) simp_all
  then show ?thesis
    using elf_ident_bytes(1-5) [of pc "section_offset text"]
    by (simp add: header_ok_def allZero_def)
      (simp add: image_bytes_def get_left elf_header_fields nth_append list_all_iff)
qed

lemma section_kinds:
  "sh_kind (strtab_section text) = SectionStringTable" "sh_kind (shstrtab_section text) = SectionStringTable"
  by (simp_all add: strtab_section_def shstrtab_section_def)

lemma labels_image:
  assumes n: "length text \<le> 2 ^ 20"
  shows "validateStrictLabelSections (image_bytes text pc) 64 56 = Inr ()"
proof -
  let ?soff = "section_offset text" and ?L = "length (image_bytes text pc)"
  have L: "?L = ?soff + 320" by (simp add: length_image total_size_def)
  have b: "?soff + 320 < 2 ^ 64" using total_size_bound [of "text"] n by (simp add: total_size_def)
  have soff: "(of_nat ?soff :: u64) mod 8 = 0"
    using of_nat_u64(4) [of ?soff 8] b section_offset_bounds(2) [of "text"] by simp
  have len: "data_len (image_bytes text pc) = of_nat (?soff + 320)" by (simp add: data_len_def L)
  have rest: "data_len (image_bytes text pc) - of_nat ?soff = 320" by (simp add: len)
  have le: "\<not> (of_nat ?soff :: u64) > data_len (image_bytes text pc)"
    unfolding len using of_nat_u64(2) [of "?soff + 320" ?soff] b by simp
  have over: "\<not> rangesOverlap (of_nat ?soff) (of_nat ?soff + 320) 0 64"
    "\<not> rangesOverlap (of_nat ?soff) (of_nat ?soff + 320) 64 120"
    using of_nat_u64(2) [of ?soff 64] of_nat_u64(2) [of ?soff 120] b section_offset_bounds(1) [of "text"]
    by (simp_all add: rangesOverlap_def)
  have indices: "map of_nat [0..<5] = [0, 1, 2, 3, 4 :: u64]" by (simp add: upt_rec)
  note tables = tables_image [OF n] and sections = sections_image [OF n] and found = find_tables_image [OF n]
  have symbols: "check_symbol_tables (image_bytes text pc)
      (Some (section_header_bytes (strtab_section text)), Some (section_header_bytes (symtab_section text))) = Inr ()"
    unfolding check_symbol_tables_def
    by (simp add: section_header_fields section_kinds tables
        symbol_list_image symbols_image del: check_symbols.simps)
  show ?thesis
    unfolding validateStrictLabelSections_def Let_def image_fields
    using soff rest le over
    by (simp add: indices sections tables found symbols section_header_fields section_kinds
        del: find_tables.simps)
qed

lemma loadable_image:
  assumes n: "length text \<le> 2 ^ 20" and m: "length text mod 8 = 0"
  shows "validLoadSegment (program_header_bytes (length text)) FlagExecute BytecodeStart 120 (image_bytes text pc)"
proof -
  let ?n = "length text" and ?L = "length (image_bytes text pc)"
  have L: "?L = section_offset text + 320" by (simp add: length_image total_size_def)
  have b: "?L < 2 ^ 64" "?n < 2 ^ 64" "?L - 120 < 2 ^ 64" using total_size_bound [of "text"] n by (simp_all add: length_image)
  have len: "data_len (image_bytes text pc) = of_nat ?L" by (simp add: data_len_def)
  have "120 \<le> ?L" using L by simp
  then have "data_len (image_bytes text pc) - 120 = of_nat (?L - 120)" by (simp add: len of_nat_diff)
  moreover have "(of_nat ?n :: u64) \<le> of_nat (?L - 120)"
    using of_nat_u64(1) [OF b(2,3)] section_offset_bounds(1) [of "text"] L by simp
  moreover have "(120 :: u64) < of_nat ?L" using of_nat_u64(2) [of 120 ?L] b section_offset_bounds(1) [of "text"] L by simp
  moreover have "(of_nat ?n :: u64) mod 8 = 0" using of_nat_u64(4) [of ?n 8] b m by simp
  moreover have "(of_nat ?n :: u64) < RegionSize" using of_nat_u64(2) [of ?n "2 ^ 32"] n b by simp
  ultimately show ?thesis
    by (simp add: validLoadSegment_def program_header_fields len)
qed

lemma text_header_image:
  "find_text_header (image_bytes text pc) 64 1 120 = Inr (program_header_bytes (length text), 120)"
proof -
  have "program_header (image_bytes text pc) 64 0 = Inr (program_header_bytes (length text))"
    unfolding program_header_def Let_def
    by (subst image_header, rule byte_slice_part) simp_all
  then show ?thesis by (simp add: find_text_header_def program_header_fields)
qed

lemma Decode_text:
  assumes "Decode text = Inr p"
  shows "length text = 8 * nat (slot_sum p)" "0 < slot_sum p" "slot_sum p \<le> 65536"
    "snd (PhysicalPCs p) = slot_sum p"
proof -
  note d = Decode_InrD [OF assms]
  have bytes: "concat (map encode_valid p) = text" by (rule encode_decode_loop [OF d(1,2)])
  have "int (length text) = 8 * slot_sum p" using length_encode_concat [of p] unfolding bytes .
  then show "length text = 8 * nat (slot_sum p)" by simp
  show "0 < slot_sum p" "slot_sum p \<le> 65536" using slot_sum_bounds [OF d(3)] by simp_all
  show "snd (PhysicalPCs p) = slot_sum p" by (rule PhysicalPCs_total)
qed

lemma isInstructionStart_iff: "isInstructionStart p pc \<longleftrightarrow> pc \<in> set (fst (PhysicalPCs p))"
  by (auto simp: isInstructionStart_def list_ex_iff)

lemma parse_image:
  assumes d: "Decode text = Inr p" and start: "uint pc \<in> set (fst (PhysicalPCs p))"
  shows "ParseStrictV3 (image_bytes text pc) = Inr \<lparr>ImageVersion = SBPFVersion3, EntryPC = pc, ImageText = text\<rparr>"
proof -
  note t = Decode_text [OF d]
  let ?n = "length text" and ?L = "length (image_bytes text pc)"
  have n: "?n \<le> 2 ^ 20" and m: "?n mod 8 = 0" and pos: "0 < ?n" using t by simp_all
  have "uint pc < slot_sum p" using PhysicalPCs_range [OF start] t(4) by simp
  then have "nat (uint pc) < nat (slot_sum p)" using t(2) by (simp only: nat_mono_iff)
  then have pc: "unat pc < ?n div 8" using t(1) by simp
  have b: "?n < 2 ^ 64" "?L < 2 ^ 64" "?L - 120 < 2 ^ 64" using n total_size_bound [of "text"] by (simp_all add: length_image)
  have L: "?L = section_offset text + 320" "120 + ?n \<le> section_offset text"
    using section_offset_bounds(1) [of "text"] by (simp_all add: length_image total_size_def)
  have offset: "pc * 8 = of_nat (unat pc * 8)" by simp
  have slot: "unat pc * 8 < 2 ^ 64" "unat pc * 8 < ?n" using pc n by simp_all
  have entry: "\<not> BytecodeStart + pc * 8 < BytecodeStart" "(BytecodeStart + pc * 8) mod 8 = 0"
    "\<not> of_nat ?n \<le> pc * 8" "pc * 8 div 8 = pc"
  proof -
    have e: "BytecodeStart + pc * 8 = of_nat (2 ^ 32 + unat pc * 8)" by simp
    have small: "2 ^ 32 + unat pc * 8 < 2 ^ 64" using slot n by simp
    show "\<not> BytecodeStart + pc * 8 < BytecodeStart"
      unfolding e using of_nat_u64(2) [OF small, of "2 ^ 32"] by simp
    show "(BytecodeStart + pc * 8) mod 8 = 0"
      unfolding e using of_nat_u64(4) [OF small, of 8] by simp
    show "\<not> of_nat ?n \<le> pc * 8" unfolding offset using of_nat_u64(1) [OF b(1) slot(1)] slot by simp
    show "pc * 8 div 8 = pc" unfolding offset using of_nat_u64(5) [OF slot(1), of 8] by simp
  qed
  have size: "(of_nat ?n :: u64) \<noteq> 0" "(of_nat ?n :: u64) mod 8 = 0" "\<not> RegionSize \<le> of_nat ?n"
    using of_nat_u64(3) [OF b(1), of 0] of_nat_u64(4) [OF b(1), of 8] of_nat_u64(1) [of "2 ^ 32" ?n] pos m n by simp_all
  have inside: "\<not> (120 :: u64) > data_len (image_bytes text pc)" "\<not> of_nat ?n > data_len (image_bytes text pc) - 120"
    "\<not> (64 :: u64) > data_len (image_bytes text pc)" "\<not> (56 :: u64) > data_len (image_bytes text pc) - 64"
  proof -
    have "data_len (image_bytes text pc) - 120 = of_nat (?L - 120)" "data_len (image_bytes text pc) - 64 = of_nat (?L - 64)"
      using L by (simp_all add: data_len_def of_nat_diff)
    then show "\<not> of_nat ?n > data_len (image_bytes text pc) - 120" "\<not> (56 :: u64) > data_len (image_bytes text pc) - 64"
      using of_nat_u64(2) [OF b(3,1)] of_nat_u64(2) [of "?L - 64" 56] L b by simp_all
    show "\<not> (120 :: u64) > data_len (image_bytes text pc)" "\<not> (64 :: u64) > data_len (image_bytes text pc)"
      using of_nat_u64(2) [OF b(2), of 120] of_nat_u64(2) [OF b(2), of 64] L by (simp_all add: data_len_def)
  qed
  have body: "byte_slice (image_bytes text pc) 120 (120 + of_nat ?n) = Inr text"
  proof -
    have "unat (120 + of_nat ?n :: u64) = 120 + ?n" using of_nat_u64(6) [of "120 + ?n" 0] n by simp
    then show ?thesis
      using byte_slice_part [of 120 "elf_header_bytes pc (section_offset text) @ program_header_bytes ?n" _ "text"
          "drop (120 + ?n) (image_bytes text pc)"] image_header [of "text" pc] by simp
  qed
  have pc_int: "sint pc = uint pc" by (rule sint_small) (use pc n in simp)
  have long: "\<not> ?L < 64 + 56" using L by simp
  show ?thesis
    unfolding ParseStrictV3_def Let_def image_fields
    using long image_ident [of "text" pc] inside entry size
    by (simp add: text_header_image loadable_image [OF n m] program_header_fields body labels_image [OF n] d
        pc_int isInstructionStart_iff start)
qed

section \<open>The parser on any input\<close>

text \<open>No slice of a strict parse leaves the file, whatever the file holds.\<close>

definition clean :: "elf_error + 'a \<Rightarrow> bool" where
  "clean r \<longleftrightarrow> (case r of Inl e \<Rightarrow> e = ErrInvalidELF \<or> e = ErrInvalidEntry | Inr _ \<Rightarrow> True)"

lemma clean_simps [simp]: "clean (Inr x)" "clean (Inl ErrInvalidELF)" "clean (Inl ErrInvalidEntry)"
  by (simp_all add: clean_def)

lemma clean_and_then [intro]: "clean r \<Longrightarrow> (\<And>x. r = Inr x \<Longrightarrow> clean (f x)) \<Longrightarrow> clean (and_then r f)"
  by (cases r) (auto simp: clean_def)

lemma clean_if: "(c \<Longrightarrow> clean a) \<Longrightarrow> (\<not> c \<Longrightarrow> clean b) \<Longrightarrow> clean (if c then a else b)"
  by simp

lemma byte_slice_nat:
  assumes "unat lo + k \<le> length data" and "length data < 2 ^ 63"
  shows "byte_slice data lo (lo + of_nat k) = Inr (get_slice (unat lo) k data)"
proof -
  have "unat lo + k < 2 ^ 64" using assms by simp
  then have hi: "unat (lo + of_nat k) = unat lo + k"
    using of_nat_u64(6) [of "unat lo + k" 0] by simp
  show ?thesis using assms hi by (simp add: byte_slice_def word_le_nat_alt)
qed

lemma fits_nat:
  assumes "\<not> off > data_len data" and "\<not> sz > data_len data - off" and "length data < 2 ^ 63"
  shows "unat off + unat sz \<le> length data"
proof -
  have L: "unat (data_len data) = length data" using unat_data_len assms(3) by simp
  have "unat off \<le> length data" using assms(1) L by (simp add: not_less word_le_nat_alt)
  moreover have "unat (data_len data - off) = length data - unat off"
    using assms(1) L by (simp add: unat_sub not_less)
  then have "unat sz \<le> length data - unat off" using assms(2) by (simp add: not_less word_le_nat_alt)
  ultimately show ?thesis by simp
qed

lemma byte_slice_fits:
  assumes "\<not> off > data_len data" and "\<not> sz > data_len data - off" and "length data < 2 ^ 63"
  shows "byte_slice data off (off + sz) = Inr (get_slice (unat off) (unat sz) data)"
  using byte_slice_nat [OF fits_nat [OF assms] assms(3)] by simp

text \<open>An entry of a table of \<open>n\<close> entries of \<open>k\<close> bytes that lies in the file.\<close>

lemma table_entry:
  assumes fits: "\<not> off > data_len data" "\<not> of_nat n * of_nat k > data_len data - off" "length data < 2 ^ 63"
    and i: "i < n" and small: "n < 2 ^ 16" "k < 2 ^ 16"
  shows "byte_slice data (off + of_nat i * of_nat k) (off + of_nat i * of_nat k + of_nat k) =
    Inr (get_slice (unat off + i * k) k data)"
proof -
  have "n * k < 2 ^ 16 * 2 ^ 16" using small by (intro mult_strict_mono) simp_all
  then have "unat (of_nat n * of_nat k :: u64) = n * k" using of_nat_u64(6) [of "n * k" 0] by simp
  then have room: "unat off + n * k \<le> length data" using fits_nat [OF fits] by simp
  have "Suc i * k \<le> n * k" using i by (intro mult_le_mono1) simp
  then have le: "unat off + i * k + k \<le> length data" using room by simp
  have "unat off + i * k < 2 ^ 64" using le fits(3) by simp
  then have "unat (off + of_nat i * of_nat k) = unat off + i * k"
    using of_nat_u64(6) [of "unat off + i * k" 0] by simp
  then show ?thesis using byte_slice_nat [of "off + of_nat i * of_nat k" k data] le fits(3) by simp
qed

lemma clean_section_bytes: "length data < 2 ^ 63 \<Longrightarrow> clean (section_bytes data header alignment)"
  by (auto simp: section_bytes_def Let_def byte_slice_fits)

lemma clean_read_string: "clean (read_string table off maximum)"
  by (simp add: read_string_def Let_def split: option.split)

lemma clean_find_tables:
  "(\<And>index. index \<in> set indices \<Longrightarrow> clean (section_at data sectionOffset index)) \<Longrightarrow>
     clean (find_tables data sectionOffset names indices found)"
proof (induction indices arbitrary: found)
  case (Cons index rest)
  show ?case
    unfolding find_tables.simps
    by (intro clean_and_then clean_read_string Cons.IH Cons.prems) simp_all
qed simp

lemma clean_check_symbols: "clean (check_symbols names targets symbols)"
proof (induction symbols arbitrary: targets)
  case (Cons symbol rest)
  then show ?case by (auto simp: Let_def intro!: clean_and_then clean_read_string)
qed simp

lemma clean_check_symbol_tables: "length data < 2 ^ 63 \<Longrightarrow> clean (check_symbol_tables data found)"
  by (cases found; cases "fst found"; cases "snd found")
    (auto simp: check_symbol_tables_def clean_check_symbols clean_section_bytes intro!: clean_and_then)

lemma clean_labels:
  assumes L: "length data < 2 ^ 63"
  shows "clean (validateStrictLabelSections data pho phs)"
proof -
  let ?soff = "get64 data 40" and ?n = "unat (get16 data 60)" and ?names = "unat (get16 data 62)"
  have n: "?n < 2 ^ 16" using unsigned_less [of "get16 data 60", where ?'a = nat] by simp
  have count: "(ucast (get16 data 60) :: u64) = of_nat ?n" "(ucast (get16 data 62) :: u64) = of_nat ?names" by simp_all
  have unat_count: "unat (ucast (get16 data 60) :: u64) = ?n"
    unfolding count using of_nat_u64(6) [of ?n 0] n by simp
  have at: "clean (section_at data ?soff (of_nat i))"
    if "\<not> ?soff > data_len data" "\<not> of_nat ?n * 64 > data_len data - ?soff" "i < ?n" for i
    using table_entry [of data ?soff ?n 64 i] that L n by (simp add: section_at_def Let_def)
  have below: "?names < ?n" if "\<not> (of_nat ?names :: u64) \<ge> of_nat ?n"
  proof -
    have "?names < 2 ^ 16" using unsigned_less [of "get16 data 62", where ?'a = nat] by simp
    then show ?thesis using that of_nat_u64(1) [of ?n ?names] n by simp
  qed
  show ?thesis
    unfolding validateStrictLabelSections_def Let_def unat_count unfolding count
  proof (intro clean_if clean_simps clean_and_then)
    assume "\<not> (of_nat ?n = (0 :: u64) \<or> of_nat ?names = (0 :: u64) \<or> of_nat ?n \<le> (of_nat ?names :: u64) \<or> ?soff mod 8 \<noteq> 0)"
      and f: "\<not> (of_nat ?n * 64 div 64 \<noteq> (of_nat ?n :: u64) \<or> data_len data < ?soff \<or> data_len data - ?soff < of_nat ?n * 64)"
    then have i: "?names < ?n" using below by blast
    show "clean (section_at data ?soff (of_nat ?names))" using at [OF _ _ i] f by blast
    show "clean (section_bytes data namesHeader 1)" for namesHeader by (rule clean_section_bytes [OF L])
    show "clean (find_tables data ?soff sectionNames (map of_nat [0..<?n]) (None, None))" for sectionNames
      by (rule clean_find_tables) (use at f in auto)
    show "clean (check_symbol_tables data found)" for found by (rule clean_check_symbol_tables [OF L])
  qed
qed

lemma clean_text_header:
  assumes L: "length data < 2 ^ 63" and pos: "n \<noteq> 0" and small: "n < 2 ^ 16"
    and fits: "\<not> pho > data_len data" "\<not> of_nat n * 56 > data_len data - pho"
  shows "clean (find_text_header data pho (of_nat n) e)"
proof -
  have at: "clean (program_header data pho (of_nat i))" if "i < n" for i
    using table_entry [of data pho n 56 i] that fits L small by (simp add: program_header_def Let_def)
  have two: "\<not> (of_nat n :: u64) < 2 \<Longrightarrow> 1 < n" using of_nat_u64(2) [of n 2] small by simp
  show ?thesis
    unfolding find_text_header_def
    using at [of 0] at [of 1] pos two by (auto intro!: clean_and_then clean_if)
qed

lemma sint_slot: "sint ((x :: u64) div 8) = uint (x div 8)"
proof (rule sint_small)
  have "unat (x div 8) = unat x div 8" by (simp add: unat_div)
  moreover have "unat x < 2 ^ 64" using unsigned_less [of x, where ?'a = nat] by simp
  ultimately show "unat (x div 8) < 2 ^ 63" by simp
qed

lemma case_Inr_conv: "(case s of Inl e \<Rightarrow> Inl a | Inr p \<Rightarrow> f p) = Inr y \<longleftrightarrow> (\<exists>p. s = Inr p \<and> f p = Inr y)"
  by (cases s) auto

text \<open>What a successful parse has established.\<close>

lemma ParseStrictV3_InrD:
  assumes L: "length data < 2 ^ 63" and "ParseStrictV3 data = Inr img"
  obtains p off where "Decode (ImageText img) = Inr p" "uint (EntryPC img) \<in> set (fst (PhysicalPCs p))"
    "ImageText img = get_slice off (length (ImageText img)) data" "ImageVersion img = SBPFVersion3"
proof -
  from assms(2) obtain textHeader p where
    bounds: "\<not> get64 textHeader 8 > data_len data" "\<not> get64 textHeader 32 > data_len data - get64 textHeader 8"
    and slice: "byte_slice data (get64 textHeader 8) (get64 textHeader 8 + get64 textHeader 32) = Inr (ImageText img)"
    and p: "Decode (ImageText img) = Inr p" and start: "isInstructionStart p (sint (EntryPC img))"
    and pc: "EntryPC img = (get64 data 24 - BytecodeStart) div 8" and v: "ImageVersion img = SBPFVersion3"
    by (auto simp: ParseStrictV3_def Let_def and_then_Inr_conv case_Inr_conv split: if_split_asm)
  have "ImageText img = get_slice (unat (get64 textHeader 8)) (unat (get64 textHeader 32)) data"
    using byte_slice_fits [OF bounds L] slice by simp
  moreover have "unat (get64 textHeader 8) + unat (get64 textHeader 32) \<le> length data"
    by (rule fits_nat [OF bounds L])
  ultimately have "ImageText img = get_slice (unat (get64 textHeader 8)) (length (ImageText img)) data" by simp
  moreover have "uint (EntryPC img) \<in> set (fst (PhysicalPCs p))"
    using start by (simp add: pc sint_slot isInstructionStart_iff)
  ultimately show thesis using that p v by blast
qed

lemma clean_parse:
  assumes L: "length data < 2 ^ 63"
  shows "clean (ParseStrictV3 data)"
proof -
  let ?n = "unat (get16 data 56)"
  have n: "?n < 2 ^ 16" using unsigned_less [of "get16 data 56", where ?'a = nat] by simp
  have count: "(ucast (get16 data 56) :: u64) = of_nat ?n" by simp
  show ?thesis
    unfolding ParseStrictV3_def Let_def count
  proof (intro clean_if clean_simps clean_and_then)
    assume pos: "\<not> (get64 data 32 \<noteq> 64 \<or> get16 data 52 \<noteq> 64 \<or> get16 data 54 \<noteq> 56 \<or> (of_nat ?n :: u64) = 0)"
      and f: "\<not> (of_nat ?n * 56 div 56 \<noteq> (of_nat ?n :: u64) \<or> data_len data < get64 data 32 \<or>
        data_len data - get64 data 32 < of_nat ?n * 56)"
    have "(of_nat ?n :: u64) \<noteq> 0" using pos by blast
    moreover have "of_nat m = (0 :: u64)" if "m = 0" for m :: nat using that by simp
    ultimately have "?n \<noteq> 0" by (rule contrapos_nn)
    then show "clean (find_text_header data (get64 data 32) (of_nat ?n) (get64 data 32 + of_nat ?n * 56))"
      using f by (intro clean_text_header [OF L _ n]) blast+
  next
    fix found
    show "clean (case found of (textHeader, expectedTextOffset) \<Rightarrow>
      if \<not> validLoadSegment textHeader FlagExecute BytecodeStart expectedTextOffset data then Inl ErrInvalidELF
      else if get64 textHeader 32 = 0 \<or> get64 textHeader 32 mod 8 \<noteq> 0 \<or> RegionSize \<le> get64 textHeader 32 \<or>
          data_len data < get64 textHeader 8 \<or> data_len data - get64 textHeader 8 < get64 textHeader 32
        then Inl ErrInvalidELF
      else if get64 data 24 < BytecodeStart \<or> get64 data 24 mod 8 \<noteq> 0 \<or>
          get64 textHeader 32 \<le> get64 data 24 - BytecodeStart
        then Inl ErrInvalidEntry
      else and_then (byte_slice data (get64 textHeader 8) (get64 textHeader 8 + get64 textHeader 32)) (\<lambda>code.
        and_then (validateStrictLabelSections data (get64 data 32) (of_nat ?n * 56)) (\<lambda>_.
          case Decode code of Inl err \<Rightarrow> Inl ErrInvalidELF
          | Inr p \<Rightarrow> if \<not> isInstructionStart p (sint ((get64 data 24 - BytecodeStart) div 8)) then Inl ErrInvalidEntry
             else Inr \<lparr>ImageVersion = SBPFVersion3, EntryPC = (get64 data 24 - BytecodeStart) div 8, ImageText = code\<rparr>)))"
      by (cases found) (auto simp: byte_slice_fits [OF _ _ L] intro!: clean_and_then clean_labels [OF L] split: sum.split)
  qed
qed

text \<open>The self-check of the writer never fires.\<close>

lemma BuildV3_eq:
  "BuildV3 text pc =
     (case Decode text of Inl e \<Rightarrow> Inl (ErrSbpf e)
      | Inr p \<Rightarrow> if uint pc \<in> set (fst (PhysicalPCs p)) then Inr (image_bytes text pc) else Inl ErrInvalidEntry)"
proof (cases "Decode text")
  case (Inr p)
  note t = Decode_text [OF Inr]
  have slots: "pc < of_int (slot_sum p) \<longleftrightarrow> uint pc < slot_sum p"
    using t(2,3) by (simp add: word_less_def uint_word_of_int)
  have small: "sint pc = uint pc" if "uint pc < slot_sum p"
  proof (rule sint_small)
    have "nat (uint pc) < nat (slot_sum p)" using that t(2) by (simp only: nat_mono_iff)
    then have "unat pc < nat (slot_sum p)" by simp
    moreover have "nat (slot_sum p) \<le> 65536" using t(3) by simp
    ultimately show "unat pc < 2 ^ 63" by simp
  qed
  have range: "uint pc \<in> set (fst (PhysicalPCs p)) \<Longrightarrow> uint pc < slot_sum p"
    using PhysicalPCs_range t(4) by metis
  show ?thesis
  proof (cases "uint pc \<in> set (fst (PhysicalPCs p))")
    case True
    then show ?thesis using range small slots
      by (simp add: BuildV3_def Inr t(4) isInstructionStart_iff write_image_eq parse_image [OF Inr True] not_le)
  next
    case False
    then show ?thesis using small slots
      by (auto simp: BuildV3_def Inr t(4) isInstructionStart_iff not_le)
  qed
qed (simp add: BuildV3_def)

section \<open>What the container guarantees\<close>


text \<open>
  What the ELF container of \<open>src/elf/elf.go\<close> guarantees.
\<close>

text \<open>
  C8.  The writer and the strict parser agree, for every program text and every entry point.
  \<open>BuildV3\<close> succeeds exactly when the text decodes and the entry point is the start of one of its
  instructions; then the strict parser accepts the image and returns that text and that entry point.
  Otherwise the error names the input that is wrong: the "internal ELF writer" failure of the
  self-check cannot happen, and nothing is read or written out of bounds.
\<close>

theorem BuildV3_parses:
  "case BuildV3 text pc of
     Inr file \<Rightarrow> ParseStrictV3 file = Inr \<lparr>ImageVersion = 3, EntryPC = pc, ImageText = text\<rparr> \<and>
       (\<exists>p. Decode text = Inr p \<and> uint pc \<in> set (fst (PhysicalPCs p)))
   | Inl (ErrSbpf e) \<Rightarrow> Decode text = Inl e
   | Inl ErrInvalidEntry \<Rightarrow> (\<exists>p. Decode text = Inr p \<and> uint pc \<notin> set (fst (PhysicalPCs p)))
   | Inl _ \<Rightarrow> False"
  by (auto simp: BuildV3_eq parse_image split: sum.split)

text \<open>
  C9.  The strict parser is safe on any file of any content: no slice it takes lies outside the
  file, it fails only with the two errors of the package, and what it accepts is a run of the file's
  bytes that the bytecode verifier accepts, with an entry point at the start of an instruction.
\<close>

theorem ParseStrictV3_sound:
  assumes "length data < 2 ^ 63"
  shows "case ParseStrictV3 data of
      Inl e \<Rightarrow> e = ErrInvalidELF \<or> e = ErrInvalidEntry
    | Inr img \<Rightarrow> ImageVersion img = 3 \<and>
        (\<exists>off. ImageText img = get_slice off (length (ImageText img)) data) \<and>
        (\<exists>p. Decode (ImageText img) = Inr p \<and> uint (EntryPC img) \<in> set (fst (PhysicalPCs p)))"
proof (cases "ParseStrictV3 data")
  case (Inl e)
  then show ?thesis using clean_parse [OF assms] by (simp add: clean_def)
next
  case (Inr img)
  obtain p off where "Decode (ImageText img) = Inr p" "uint (EntryPC img) \<in> set (fst (PhysicalPCs p))"
    "ImageText img = get_slice off (length (ImageText img)) data" "ImageVersion img = 3"
    by (rule ParseStrictV3_InrD [OF assms Inr])
  then show ?thesis unfolding Inr sum.case by blast
qed

definition exit_text :: bytes where
  "exit_text = encode_valid Return"

lemma exit_text_decodes: "Decode exit_text = Inr [Return]"
  by code_simp

lemma exit_file:
  "ParseStrictV3 (image_bytes exit_text 0) = Inr \<lparr>ImageVersion = 3, EntryPC = 0, ImageText = exit_text\<rparr>"
  "length (image_bytes exit_text 0) = 552"
proof -
  have "fst (PhysicalPCs [Return]) = [0]" by code_simp
  then show "ParseStrictV3 (image_bytes exit_text 0) = Inr \<lparr>ImageVersion = 3, EntryPC = 0, ImageText = exit_text\<rparr>"
    by (intro parse_image [OF exit_text_decodes]) simp
  have "length exit_text = 8" by code_simp
  then show "length (image_bytes exit_text 0) = 552" by (simp add: length_image offsets padding_def)
qed

theorem ParseStrictV3_sound_witness:
  "length (image_bytes exit_text 0) = 552 \<and>
   (\<exists>off. exit_text = get_slice off (length exit_text) (image_bytes exit_text 0)) \<and> (\<exists>p. Decode exit_text = Inr p)"
  using ParseStrictV3_sound [of "image_bytes exit_text 0"] exit_file by auto

end
