(* ===== verification/VmMemory.thy ===== *)
theory VmMemory
  imports SbpfInstruction
begin

text \<open>
  \<open>src/vm/memory.go\<close> and the memory accessors of \<open>src/vm/vm.go\<close>: the region table given to
  \<open>RunWithMemory\<close>, its validation, address translation, loads and stores.

  A Go slice of a region or of the stack is a reference (which buffer, which offset) into the run
  state, so that a store through it changes the buffer.  Lengths are natural numbers: \<open>uint64(len(x))\<close>
  is exact in Go, where a length is a non-negative \<open>int\<close>, so the overflow guard
  \<open>address > MaxUint64 - length\<close> reads \<open>address + length > MaxUint64\<close> on naturals.  \<open>sort.Slice\<close> is \<open>sort_key\<close>: it is not
  stable in Go, but regions with equal start addresses are rejected as overlapping right after.
\<close>

section \<open>Errors of the interpreter\<close>

text \<open>
  \<open>ErrProgram\<close> carries an error of the verifier or decoder through the constructors; \<open>GoPanic\<close> is
  a Go run-time panic (an index out of range), which \<open>VmSafety\<close> shows never happens.
\<close>

datatype vm_error =
    ErrInstructionLimit
  | ErrVmDivisionByZero
  | ErrInvalidMemory
  | ErrStackOverflow
  | ErrUnsupportedCall
  | ErrUnsupportedOpcode
  | ErrExecutionOverrun
  | ErrTooManyArguments
  | ErrInvalidVMConfig
  | ErrReadOnlyMemory
  | ErrInvalidMemoryMap
  | ErrOverlappingMemory
  | ErrProgram sbpf_error
  | GoPanic

section \<open>Regions\<close>

type_synonym permissions = u8

abbreviation (input) MemoryRead :: permissions where "MemoryRead \<equiv> 1"
abbreviation (input) MemoryWrite :: permissions where "MemoryWrite \<equiv> 2"
abbreviation (input) MemoryReadOnly :: permissions where "MemoryReadOnly \<equiv> 1"
abbreviation (input) MemoryReadWrite :: permissions where "MemoryReadWrite \<equiv> 3"

record MemoryRegion =
  VMAddress :: u64
  Data :: bytes
  Permission :: permissions
  Name :: string

definition ReadOnlyRegion :: "u64 \<Rightarrow> bytes \<Rightarrow> MemoryRegion" where
  "ReadOnlyRegion address data =
     \<lparr>VMAddress = address, Data = data, Permission = MemoryReadOnly, Name = ''''\<rparr>"

definition WritableRegion :: "u64 \<Rightarrow> bytes \<Rightarrow> MemoryRegion" where
  "WritableRegion address data =
     \<lparr>VMAddress = address, Data = data, Permission = MemoryReadWrite, Name = ''''\<rparr>"

definition check_region :: "MemoryRegion \<Rightarrow> vm_error option" where
  "check_region r =
    (let len = length (Data r) in
     if len = 0 then Some ErrInvalidMemoryMap
     else if Permission r \<noteq> MemoryReadOnly \<and> Permission r \<noteq> MemoryReadWrite
       then Some ErrInvalidMemoryMap
     else if unat (VMAddress r) + len > 2 ^ 64 - 1 then Some ErrInvalidMemoryMap
     else let last = VMAddress r + of_nat len - 1 in
       if VMAddress r div MMRegionSize \<noteq> last div MMRegionSize then Some ErrInvalidMemoryMap
       else if VMAddress r div MMRegionSize = MMStackStart div MMRegionSize
         then Some ErrInvalidMemoryMap
       else None)"

fun check_regions :: "MemoryRegion list \<Rightarrow> vm_error option" where
  "check_regions [] = None"
| "check_regions (r # rs) =
     (case check_region r of Some e \<Rightarrow> Some e | None \<Rightarrow> check_regions rs)"

fun check_overlap :: "MemoryRegion list \<Rightarrow> vm_error option" where
  "check_overlap (previous # r # rs) =
     (if VMAddress r < VMAddress previous + of_nat (length (Data previous))
      then Some ErrOverlappingMemory else check_overlap (r # rs))"
| "check_overlap _ = None"

definition validateMemoryRegions :: "MemoryRegion list \<Rightarrow> vm_error + MemoryRegion list" where
  "validateMemoryRegions given =
     (case check_regions given of
        Some e \<Rightarrow> Inl e
      | None \<Rightarrow>
          let validated = sort_key VMAddress given in
          (case check_overlap validated of Some e \<Rightarrow> Inl e | None \<Rightarrow> Inr validated))"

section \<open>The run state\<close>

record callFrame =
  returnPC :: int
  framePointer :: u64
  calleeSaved :: "u64 list"

record runState =
  registers :: "register \<Rightarrow> u64"
  stack :: bytes
  regions :: "MemoryRegion list"
  state_pc :: int
  steps :: int
  frames :: "callFrame list"

section \<open>Translation\<close>

datatype mem_ref = StackRef nat | RegionRef nat nat

fun find_region ::
  "nat \<Rightarrow> MemoryRegion list \<Rightarrow> u64 \<Rightarrow> u64 \<Rightarrow> bool \<Rightarrow> vm_error + mem_ref" where
  "find_region index [] address width write = Inl ErrInvalidMemory"
| "find_region index (region # rest) address width write =
     (if address < VMAddress region then Inl ErrInvalidMemory
      else let offset = address - VMAddress region in
        if unat offset > length (Data region) \<or> unat width > length (Data region) - unat offset
          then find_region (Suc index) rest address width write
        else if Permission region AND MemoryRead = 0 then Inl ErrInvalidMemory
        else if write \<and> Permission region AND MemoryWrite = 0 then Inl ErrReadOnlyMemory
        else Inr (RegionRef index (unat offset)))"

definition memoryRange :: "runState \<Rightarrow> u64 \<Rightarrow> u64 \<Rightarrow> bool \<Rightarrow> vm_error + mem_ref" where
  "memoryRange s address width write =
     (if width = 0 \<or> address > - 1 - width then Inl ErrInvalidMemory
      else if address \<ge> MMStackStart \<and>
          unat (address - MMStackStart) \<le> length (stack s) \<and>
          unat width \<le> length (stack s) - unat (address - MMStackStart)
        then Inr (StackRef (unat (address - MMStackStart)))
      else find_region 0 (regions s) address width write)"

fun read_ref :: "runState \<Rightarrow> mem_ref \<Rightarrow> nat \<Rightarrow> bytes" where
  "read_ref s (StackRef offset) width = get_slice offset width (stack s)"
| "read_ref s (RegionRef index offset) width = get_slice offset width (Data (regions s ! index))"

fun write_ref :: "runState \<Rightarrow> mem_ref \<Rightarrow> bytes \<Rightarrow> runState" where
  "write_ref s (StackRef offset) bs = s\<lparr>stack := put_slice offset bs (stack s)\<rparr>"
| "write_ref s (RegionRef index offset) bs =
     s\<lparr>regions := (regions s)[index := (regions s ! index)
         \<lparr>Data := put_slice offset bs (Data (regions s ! index))\<rparr>]\<rparr>"

section \<open>Loads and stores\<close>

definition loadMemory :: "runState \<Rightarrow> u64 \<Rightarrow> memory_type \<Rightarrow> vm_error + u64" where
  "loadMemory s address kind =
     and_then (memoryRange s address (MemoryType_Bytes kind) False)
       (\<lambda>ref. let memory = read_ref s ref (unat (MemoryType_Bytes kind)) in
          case kind of
            MemoryByte \<Rightarrow> Inr (ucast (memory ! 0))
          | MemoryHalf \<Rightarrow> Inr (ucast (le_word memory :: u16))
          | MemoryWord \<Rightarrow> Inr (ucast (le_word memory :: u32))
          | MemoryDoubleWord \<Rightarrow> Inr (le_word memory)
          | MemoryInvalid \<Rightarrow> Inl ErrInvalidMemory)"

definition storeMemory :: "runState \<Rightarrow> u64 \<Rightarrow> u64 \<Rightarrow> memory_type \<Rightarrow> vm_error + runState" where
  "storeMemory s address v kind =
     and_then (memoryRange s address (MemoryType_Bytes kind) True)
       (\<lambda>ref. case kind of
            MemoryByte \<Rightarrow> Inr (write_ref s ref [ucast v])
          | MemoryHalf \<Rightarrow> Inr (write_ref s ref (le_bytes 2 (ucast v :: u16)))
          | MemoryWord \<Rightarrow> Inr (write_ref s ref (le_bytes 4 (ucast v :: u32)))
          | MemoryDoubleWord \<Rightarrow> Inr (write_ref s ref (le_bytes 8 v))
          | MemoryInvalid \<Rightarrow> Inl ErrInvalidMemory)"

section \<open>Facts about references\<close>

fun store_bytes :: "memory_type \<Rightarrow> u64 \<Rightarrow> bytes" where
  "store_bytes MemoryByte v = [ucast v]"
| "store_bytes MemoryHalf v = le_bytes 2 (ucast v :: u16)"
| "store_bytes MemoryWord v = le_bytes 4 (ucast v :: u32)"
| "store_bytes MemoryDoubleWord v = le_bytes 8 v"
| "store_bytes MemoryInvalid v = []"

lemma length_store_bytes [simp]: "length (store_bytes kind v) = unat (MemoryType_Bytes kind)"
  by (cases kind) simp_all

lemma storeMemory_write_ref:
  assumes "storeMemory s address v kind = Inr s'"
  obtains ref where "memoryRange s address (MemoryType_Bytes kind) True = Inr ref"
    and "s' = write_ref s ref (store_bytes kind v)"
  using assms by (cases kind) (auto simp: storeMemory_def and_then_Inr_conv)

lemma write_ref_frame [simp]:
  "steps (write_ref s ref bs) = steps s"
  "registers (write_ref s ref bs) = registers s"
  "frames (write_ref s ref bs) = frames s"
  "state_pc (write_ref s ref bs) = state_pc s"
  by (cases ref; simp)+

end
