(* ===== verification/VmMachine.thy ===== *)
theory VmMachine
  imports VmMemory SbpfCodec
begin

text \<open>
  \<open>src/vm/vm.go\<close>: the reference interpreter.  \<open>New\<close> validates a program and builds the table from
  physical program counters to instructions; \<open>execute\<close> runs it.

  The Go \<open>switch\<close> of \<open>execute\<close> is cut at the groups of its cases: \<open>alu32\<close>, \<open>alu64\<close>, \<open>jump32\<close>,
  \<open>jump64\<close>, the memory cases, \<open>do_call\<close> and \<open>do_exit\<close>; each returns \<open>None\<close> for an opcode that is not
  a case of its group.  \<open>step\<close> is one turn of the loop and \<open>execute\<close> the loop; it stops because
  each turn that goes on increments \<open>steps\<close>, which the guard bounds, so it needs no fuel.
  A run returns its Go results together with the final state, since the caller of \<open>RunWithMemory\<close>
  sees the writes to its regions.
\<close>

section \<open>Configuration and construction\<close>

record Config =
  MaxInstructions :: int
  MaxCallDepth :: int
  StackFrameSize :: int

abbreviation (input) MaxArguments :: nat where "MaxArguments \<equiv> 5"

definition DefaultConfig :: Config where
  "DefaultConfig = \<lparr>MaxInstructions = 1000000, MaxCallDepth = 64, StackFrameSize = 4096\<rparr>"

record VM =
  vm_program :: "instruction list"
  vm_byPC :: "int \<Rightarrow> nat option"
  vm_slots :: int
  vm_config :: Config
  vm_initErr :: "vm_error option"

definition validateConfig :: "Config \<Rightarrow> vm_error option" where
  "validateConfig c =
     (if MaxInstructions c \<le> 0 then Some ErrInvalidVMConfig
      else if MaxCallDepth c < 1 then Some ErrInvalidVMConfig
      else if StackFrameSize c \<le> 0 \<or> StackFrameSize c > (2 ^ 63 - 1) div MaxCallDepth c
        then Some ErrInvalidVMConfig
      else None)"

definition NewWithConfig :: "instruction list \<Rightarrow> Config \<Rightarrow> vm_error + VM" where
  "NewWithConfig p c =
     (case validateConfig c of
        Some e \<Rightarrow> Inl e
      | None \<Rightarrow>
         (case ValidateProgram p of
            Some e \<Rightarrow> Inl (ErrProgram e)
          | None \<Rightarrow>
             let (pcs, slots) = PhysicalPCs p in
             Inr \<lparr>vm_program = p, vm_byPC = map_of (zip pcs [0..<length p]), vm_slots = slots,
                  vm_config = c, vm_initErr = None\<rparr>))"

definition New :: "instruction list \<Rightarrow> vm_error + VM" where
  "New p = NewWithConfig p DefaultConfig"

definition NewVM :: "instruction list \<Rightarrow> VM" where
  "NewVM p =
     (case New p of
        Inl e \<Rightarrow> \<lparr>vm_program = [], vm_byPC = Map.empty, vm_slots = 0,
                  vm_config = DefaultConfig, vm_initErr = Some e\<rparr>
      | Inr m \<Rightarrow> m)"

definition NewBytesWithConfig :: "bytes \<Rightarrow> Config \<Rightarrow> vm_error + VM" where
  "NewBytesWithConfig bytecode c =
     (case Decode bytecode of Inl e \<Rightarrow> Inl (ErrProgram e) | Inr p \<Rightarrow> NewWithConfig p c)"

definition NewBytes :: "bytes \<Rightarrow> vm_error + VM" where
  "NewBytes bytecode = NewBytesWithConfig bytecode DefaultConfig"

section \<open>Arithmetic\<close>

definition addSignedOffset :: "u64 \<Rightarrow> u16 \<Rightarrow> u64" where
  "addSignedOffset base off = base + scast off"

definition signExtend32 :: "u32 \<Rightarrow> u64" where
  "signExtend32 v = scast v"

text \<open>
  \<open>low v\<close> is Go's \<open>uint32(v)\<close>.  A shift by a Go \<open>uint32\<close> count uses the count as it is: shifting by
  the width or more gives 0 (or the sign), which \<open>push_bit\<close>, \<open>drop_bit\<close> and \<open>signed_drop_bit\<close> do too.
\<close>

definition low :: "u64 \<Rightarrow> u32" where
  "low v = ucast v"

definition div_or_err :: "('a::len) word \<Rightarrow> 'a word \<Rightarrow> vm_error + 'a word" where
  "div_or_err a b = (if b = 0 then Inl ErrVmDivisionByZero else Inr (a div b))"

definition mod_or_err :: "('a::len) word \<Rightarrow> 'a word \<Rightarrow> vm_error + 'a word" where
  "mod_or_err a b = (if b = 0 then Inl ErrVmDivisionByZero else Inr (a mod b))"

definition widen :: "vm_error + u32 \<Rightarrow> vm_error + u64" where
  "widen r = and_then r (\<lambda>v. Inr (ucast v))"

text \<open>The 32-bit cases: the new value of the destination register, or the error.\<close>

definition alu32 :: "opcode \<Rightarrow> u64 \<Rightarrow> u64 \<Rightarrow> u64 \<Rightarrow> (vm_error + u64) option" where
  "alu32 op dst src imm =
    (if op = MOV32_IMM then Some (Inr (ucast (low imm)))
     else if op = MOV32_REG then Some (Inr (ucast (low src)))
     else if op = ADD32_IMM then Some (Inr (signExtend32 (low dst + low imm)))
     else if op = ADD32_REG then Some (Inr (signExtend32 (low dst + low src)))
     else if op = SUB32_IMM then Some (Inr (signExtend32 (low dst - low imm)))
     else if op = SUB32_REG then Some (Inr (signExtend32 (low dst - low src)))
     else if op = MUL32_IMM then Some (Inr (signExtend32 (low dst * low imm)))
     else if op = MUL32_REG then Some (Inr (signExtend32 (low dst * low src)))
     else if op = DIV32_IMM then Some (widen (div_or_err (low dst) (low imm)))
     else if op = DIV32_REG then Some (widen (div_or_err (low dst) (low src)))
     else if op = MOD32_IMM then Some (widen (mod_or_err (low dst) (low imm)))
     else if op = MOD32_REG then Some (widen (mod_or_err (low dst) (low src)))
     else if op = LSH32_IMM then Some (Inr (ucast (push_bit (unat (low imm)) (low dst))))
     else if op = LSH32_REG then Some (Inr (ucast (push_bit (unat (low src AND 31)) (low dst))))
     else if op = RSH32_IMM then Some (Inr (ucast (drop_bit (unat (low imm)) (low dst))))
     else if op = RSH32_REG then Some (Inr (ucast (drop_bit (unat (low src AND 31)) (low dst))))
     else if op = ARSH32_IMM then Some (Inr (ucast (signed_drop_bit (unat (low imm)) (low dst))))
     else if op = ARSH32_REG then Some (Inr (ucast (signed_drop_bit (unat (low src AND 31)) (low dst))))
     else if op = NEG32 then Some (Inr (ucast (- low dst)))
     else if op = XOR32_IMM then Some (Inr (ucast (low dst XOR low imm)))
     else if op = XOR32_REG then Some (Inr (ucast (low dst XOR low src)))
     else None)"

text \<open>The 64-bit cases, with the wide constant load.\<close>

definition alu64 :: "opcode \<Rightarrow> u64 \<Rightarrow> u64 \<Rightarrow> u64 \<Rightarrow> (vm_error + u64) option" where
  "alu64 op dst src imm =
    (if op = LD_DW_IMM then Some (Inr imm)
     else if op = MOV64_IMM then Some (Inr imm)
     else if op = MOV64_REG then Some (Inr src)
     else if op = ADD64_IMM then Some (Inr (dst + imm))
     else if op = ADD64_REG then Some (Inr (dst + src))
     else if op = SUB64_IMM then Some (Inr (dst - imm))
     else if op = SUB64_REG then Some (Inr (dst - src))
     else if op = MUL64_IMM then Some (Inr (dst * imm))
     else if op = MUL64_REG then Some (Inr (dst * src))
     else if op = DIV64_IMM then Some (div_or_err dst imm)
     else if op = DIV64_REG then Some (div_or_err dst src)
     else if op = MOD64_IMM then Some (mod_or_err dst imm)
     else if op = MOD64_REG then Some (mod_or_err dst src)
     else if op = LSH64_IMM then Some (Inr (push_bit (unat (low imm)) dst))
     else if op = LSH64_REG then Some (Inr (push_bit (unat (low src AND 63)) dst))
     else if op = RSH64_IMM then Some (Inr (drop_bit (unat (low imm)) dst))
     else if op = RSH64_REG then Some (Inr (drop_bit (unat (low src AND 63)) dst))
     else if op = ARSH64_IMM then Some (Inr (signed_drop_bit (unat (low imm)) dst))
     else if op = ARSH64_REG then Some (Inr (signed_drop_bit (unat (low src AND 63)) dst))
     else if op = NEG64 then Some (Inr (0 - dst))
     else if op = XOR64_IMM then Some (Inr (dst XOR imm))
     else if op = XOR64_REG then Some (Inr (dst XOR src))
     else None)"

section \<open>Conditions\<close>

text \<open>The conditions of the 32-bit conditional jumps; a signed comparison reads two's complement.\<close>

definition jump32 :: "opcode \<Rightarrow> u64 \<Rightarrow> u64 \<Rightarrow> u64 \<Rightarrow> bool option" where
  "jump32 op dst src imm =
    (if op = JEQ32_IMM then Some (low dst = low imm)
     else if op = JEQ32_REG then Some (low dst = low src)
     else if op = JNE32_IMM then Some (low dst \<noteq> low imm)
     else if op = JNE32_REG then Some (low dst \<noteq> low src)
     else if op = JGT32_IMM then Some (low dst > low imm)
     else if op = JGT32_REG then Some (low dst > low src)
     else if op = JGE32_IMM then Some (low dst \<ge> low imm)
     else if op = JGE32_REG then Some (low dst \<ge> low src)
     else if op = JLT32_IMM then Some (low dst < low imm)
     else if op = JLT32_REG then Some (low dst < low src)
     else if op = JLE32_IMM then Some (low dst \<le> low imm)
     else if op = JLE32_REG then Some (low dst \<le> low src)
     else if op = JSGT32_IMM then Some (sint (low dst) > sint (low imm))
     else if op = JSGT32_REG then Some (sint (low dst) > sint (low src))
     else if op = JSGE32_IMM then Some (sint (low dst) \<ge> sint (low imm))
     else if op = JSGE32_REG then Some (sint (low dst) \<ge> sint (low src))
     else if op = JSLT32_IMM then Some (sint (low dst) < sint (low imm))
     else if op = JSLT32_REG then Some (sint (low dst) < sint (low src))
     else if op = JSLE32_IMM then Some (sint (low dst) \<le> sint (low imm))
     else if op = JSLE32_REG then Some (sint (low dst) \<le> sint (low src))
     else None)"

text \<open>The unconditional jump and the conditions of the 64-bit conditional jumps.\<close>

definition jump64 :: "opcode \<Rightarrow> u64 \<Rightarrow> u64 \<Rightarrow> u64 \<Rightarrow> bool option" where
  "jump64 op dst src imm =
    (if op = JA then Some True
     else if op = JEQ64_IMM then Some (dst = imm)
     else if op = JEQ64_REG then Some (dst = src)
     else if op = JNE64_IMM then Some (dst \<noteq> imm)
     else if op = JNE64_REG then Some (dst \<noteq> src)
     else if op = JGT64_IMM then Some (dst > imm)
     else if op = JGT64_REG then Some (dst > src)
     else if op = JGE64_IMM then Some (dst \<ge> imm)
     else if op = JGE64_REG then Some (dst \<ge> src)
     else if op = JLT64_IMM then Some (dst < imm)
     else if op = JLT64_REG then Some (dst < src)
     else if op = JLE64_IMM then Some (dst \<le> imm)
     else if op = JLE64_REG then Some (dst \<le> src)
     else if op = JSGT64_IMM then Some (sint dst > sint imm)
     else if op = JSGT64_REG then Some (sint dst > sint src)
     else if op = JSGE64_IMM then Some (sint dst \<ge> sint imm)
     else if op = JSGE64_REG then Some (sint dst \<ge> sint src)
     else if op = JSLT64_IMM then Some (sint dst < sint imm)
     else if op = JSLT64_REG then Some (sint dst < sint src)
     else if op = JSLE64_IMM then Some (sint dst \<le> sint imm)
     else if op = JSLE64_REG then Some (sint dst \<le> sint src)
     else None)"

section \<open>One instruction\<close>

text \<open>
  Where the \<open>switch\<close> leaves control: the run is over, or goes on at a program counter that the rest
  of the loop body still has to check.
\<close>

datatype outcome = Halt "vm_error + u64" runState | Continue int runState

definition set_reg :: "register \<Rightarrow> u64 \<Rightarrow> runState \<Rightarrow> runState" where
  "set_reg r v s = s\<lparr>registers := (registers s)(r := v)\<rparr>"

definition do_load :: "instruction \<Rightarrow> int \<Rightarrow> runState \<Rightarrow> outcome" where
  "do_load ins nextPC s =
     (case loadMemory s (addSignedOffset (registers s (Src ins)) (Offset ins))
             (Instruction_MemoryType ins) of
        Inl e \<Rightarrow> Halt (Inl e) s
      | Inr v \<Rightarrow> Continue nextPC (set_reg (Dst ins) v s))"

definition do_store :: "instruction \<Rightarrow> int \<Rightarrow> runState \<Rightarrow> outcome" where
  "do_store ins nextPC s =
     (case storeMemory s (addSignedOffset (registers s (Dst ins)) (Offset ins))
             (registers s (Src ins)) (Instruction_MemoryType ins) of
        Inl e \<Rightarrow> Halt (Inl e) s
      | Inr s' \<Rightarrow> Continue nextPC s')"

definition do_call :: "Config \<Rightarrow> instruction \<Rightarrow> runState \<Rightarrow> outcome" where
  "do_call c ins s =
     (if Src ins \<noteq> 1 then Halt (Inl ErrUnsupportedCall) s
      else if int (length (frames s)) + 1 \<ge> MaxCallDepth c then Halt (Inl ErrStackOverflow) s
      else
        let frame = \<lparr>returnPC = state_pc s + 1, framePointer = registers s FramePointer,
                     calleeSaved = map (registers s) [R6, R7, R8, R9]\<rparr>
        in Continue (state_pc s + 1 + sint (Immediate ins))
             (s\<lparr>frames := frames s @ [frame],
                registers := (registers s)
                  (FramePointer := registers s FramePointer + word_of_int (StackFrameSize c))\<rparr>))"

definition do_exit :: "runState \<Rightarrow> outcome" where
  "do_exit s =
     (if frames s = [] then Halt (Inr (registers s R0)) s
      else
        let frame = last (frames s) in
        Continue (returnPC frame)
          (s\<lparr>frames := butlast (frames s),
             registers := (registers s)
               (FramePointer := framePointer frame,
                R6 := calleeSaved frame ! 0, R7 := calleeSaved frame ! 1,
                R8 := calleeSaved frame ! 2, R9 := calleeSaved frame ! 3)\<rparr>))"

definition do_alu :: "instruction \<Rightarrow> vm_error + u64 \<Rightarrow> int \<Rightarrow> runState \<Rightarrow> outcome" where
  "do_alu ins r nextPC s =
     (case r of Inl e \<Rightarrow> Halt (Inl e) s | Inr v \<Rightarrow> Continue nextPC (set_reg (Dst ins) v s))"

definition do_jump :: "instruction \<Rightarrow> bool \<Rightarrow> int \<Rightarrow> runState \<Rightarrow> outcome" where
  "do_jump ins taken nextPC s =
     Continue (if taken then state_pc s + 1 + sint (Offset ins) else nextPC) s"

definition exec_instruction :: "Config \<Rightarrow> instruction \<Rightarrow> int \<Rightarrow> runState \<Rightarrow> outcome" where
  "exec_instruction c ins nextPC s =
    (let op = Op ins; dst = registers s (Dst ins); src = registers s (Src ins); imm = Immediate ins in
     case alu64 op dst src imm of
       Some r \<Rightarrow> do_alu ins r nextPC s
     | None \<Rightarrow>
       if isMemoryLoad op then do_load ins nextPC s
       else if isMemoryStore op then do_store ins nextPC s
       else
         (case alu32 op dst src imm of
            Some r \<Rightarrow> do_alu ins r nextPC s
          | None \<Rightarrow>
            (case jump32 op dst src imm of
               Some taken \<Rightarrow> do_jump ins taken nextPC s
             | None \<Rightarrow>
               (case jump64 op dst src imm of
                  Some taken \<Rightarrow> do_jump ins taken nextPC s
                | None \<Rightarrow>
                  if op = CALL_IMM then do_call c ins s
                  else if op = EXIT then do_exit s
                  else Halt (Inl ErrUnsupportedOpcode) s))))"

section \<open>The loop\<close>

datatype turn = Done "vm_error + u64" runState | Next runState

definition step :: "VM \<Rightarrow> runState \<Rightarrow> turn" where
  "step m s =
    (case vm_byPC m (state_pc s) of
       None \<Rightarrow> Done (Inl ErrExecutionOverrun) s
     | Some i \<Rightarrow>
       let ins = vm_program m ! i;
           s1 = s\<lparr>steps := steps s + 1\<rparr>
       in if \<not> (Register_valid (Dst ins) \<and> Register_valid (Src ins)) then Done (Inl GoPanic) s1
          else
            (case exec_instruction (vm_config m) ins (state_pc s + Slots ins) s1 of
               Halt r s2 \<Rightarrow> Done r s2
             | Continue nextPC s2 \<Rightarrow>
                 if nextPC < 0 \<or> nextPC \<ge> vm_slots m then Done (Inl ErrExecutionOverrun) s2
                 else if vm_byPC m nextPC = None then Done (Inl ErrExecutionOverrun) s2
                 else Next (s2\<lparr>state_pc := nextPC\<rparr>)))"

lemma exec_instruction_steps:
  "exec_instruction c ins n s = Continue n' s' \<Longrightarrow> steps s' = steps s"
  by (auto simp: exec_instruction_def do_alu_def do_load_def do_store_def do_jump_def do_call_def
      do_exit_def set_reg_def Let_def split: option.splits if_splits sum.splits
      elim!: storeMemory_write_ref)

lemma step_steps: "step m s = Next s' \<Longrightarrow> steps s' = steps s + 1"
  by (auto simp: step_def Let_def split: option.splits if_splits outcome.splits
      dest!: exec_instruction_steps)

function execute :: "VM \<Rightarrow> runState \<Rightarrow> (vm_error + u64) \<times> runState" where
  "execute m s =
     (if steps s \<ge> MaxInstructions (vm_config m) then (Inl ErrInstructionLimit, s)
      else case step m s of Done r s' \<Rightarrow> (r, s') | Next s' \<Rightarrow> execute m s')"
  by pat_completeness auto
termination
  by (relation "measure (\<lambda>(m, s). nat (MaxInstructions (vm_config m) - steps s))")
    (auto dest: step_steps)

declare execute.simps [simp del]

definition initial_state :: "Config \<Rightarrow> MemoryRegion list \<Rightarrow> u64 list \<Rightarrow> runState" where
  "initial_state c mem args =
     \<lparr>registers = (\<lambda>r. if 1 \<le> unat r \<and> unat r \<le> length args then args ! (unat r - 1)
                        else if r = FramePointer then MMStackStart + word_of_int (StackFrameSize c)
                        else 0),
      stack = replicate (nat (StackFrameSize c * MaxCallDepth c)) 0,
      regions = mem, state_pc = 0, steps = 0, frames = []\<rparr>"

definition run_with :: "VM \<Rightarrow> MemoryRegion list \<Rightarrow> u64 list \<Rightarrow> (vm_error + u64) \<times> runState" where
  "run_with m mem args =
     (case vm_initErr m of
        Some e \<Rightarrow> (Inl e, initial_state (vm_config m) mem [])
      | None \<Rightarrow>
          if length args > MaxArguments
          then (Inl ErrTooManyArguments, initial_state (vm_config m) mem [])
          else execute m (initial_state (vm_config m) mem args))"

definition Run :: "VM \<Rightarrow> u64 list \<Rightarrow> (vm_error + u64) \<times> runState" where
  "Run m args = run_with m [] args"

definition RunWithMemory ::
  "VM \<Rightarrow> MemoryRegion list \<Rightarrow> u64 list \<Rightarrow> (vm_error + u64) \<times> runState" where
  "RunWithMemory m mem args =
     (case validateMemoryRegions mem of
        Inl e \<Rightarrow> (Inl e, initial_state (vm_config m) mem [])
      | Inr validated \<Rightarrow> run_with m validated args)"

end
