(* ===== verification/VmMemoryFacts.thy ===== *)
theory VmMemoryFacts
  imports VmMemory MemoryInterface "HOL-Library.Multiset"
begin

text \<open>
  What the region table and the accessors of \<open>VmMemory\<close> guarantee: an accepted table is sorted and
  disjoint, translation finds a mapping exactly when one exists, and loads and stores behave as a
  byte-addressed memory (a load after a store, a load beside a store).
\<close>

section \<open>Accepted tables\<close>

definition region_end :: "MemoryRegion \<Rightarrow> nat" where
  "region_end r = unat (VMAddress r) + length (Data r)"

definition regions_ok :: "MemoryRegion list \<Rightarrow> bool" where
  "regions_ok rs \<longleftrightarrow>
     (\<forall>r \<in> set rs. check_region r = None) \<and>
     sorted_wrt (\<lambda>r r'. region_end r \<le> unat (VMAddress r')) rs"

lemma check_regions_None: "check_regions rs = None \<longleftrightarrow> (\<forall>r \<in> set rs. check_region r = None)"
  by (induction rs) (auto split: option.splits)

lemma check_region_NoneD:
  assumes "check_region r = None"
  shows "Data r \<noteq> []" and "Permission r = MemoryReadOnly \<or> Permission r = MemoryReadWrite"
    and "region_end r < 2 ^ 64"
    and "unat (VMAddress r) div 2 ^ 32 = (region_end r - 1) div 2 ^ 32"
    and "unat (VMAddress r) div 2 ^ 32 \<noteq> 2"
proof -
  let ?a = "VMAddress r" and ?n = "length (Data r)"
  from assms have n: "?n \<noteq> 0" and p: "Permission r = MemoryReadOnly \<or> Permission r = MemoryReadWrite"
    and b: "\<not> unat ?a + ?n > 2 ^ 64 - 1"
    and d: "?a div MMRegionSize = (?a + of_nat ?n - 1) div MMRegionSize"
    and s: "?a div MMRegionSize \<noteq> MMStackStart div MMRegionSize"
    by (auto simp: check_region_def Let_def split: if_splits)
  show "Data r \<noteq> []" using n by auto
  show "Permission r = MemoryReadOnly \<or> Permission r = MemoryReadWrite" by (rule p)
  have lt: "unat ?a < 2 ^ 64" using unsigned_less [of ?a, where ?'a = nat] by simp
  show e: "region_end r < 2 ^ 64"
    using b lt n by (simp add: region_end_def)
  have m: "unat (w div 0x100000000) = unat w div 2 ^ 32" for w :: u64
    by (simp add: unat_div)
  have "unat (?a + of_nat (?n - 1)) = unat ?a + (?n - 1)"
    using e by (simp add: region_end_def unat_word_ariths unat_of_nat)
  moreover have "?a + of_nat ?n - 1 = ?a + of_nat (?n - 1)"
    using n by (cases ?n) simp_all
  ultimately have "unat (?a + of_nat ?n - 1) = unat ?a + (?n - 1)" by (simp only:)
  then have last: "unat (?a + of_nat ?n - 1) = region_end r - 1"
    using n by (simp only: region_end_def)
  show "unat ?a div 2 ^ 32 = (region_end r - 1) div 2 ^ 32"
    using arg_cong [OF d, of unat] unfolding m last .
  show "unat ?a div 2 ^ 32 \<noteq> 2"
  proof
    assume "unat ?a div 2 ^ 32 = 2"
    then have "unat (?a div 0x100000000) = unat (2 :: u64)" unfolding m by simp
    then have "?a div 0x100000000 = 2" by (rule unsigned_word_eqI)
    then show False using s by simp
  qed
qed

lemma check_overlap_None:
  assumes "\<forall>r \<in> set rs. check_region r = None" and "check_overlap rs = None"
  shows "sorted_wrt (\<lambda>r r'. region_end r \<le> unat (VMAddress r')) rs"
  using assms
proof (induction rs rule: check_overlap.induct)
  case (1 p r rs)
  note e = check_region_NoneD(3)
  have ep: "region_end p < 2 ^ 64" by (rule e) (use "1.prems" in simp)
  have "unat (VMAddress p + of_nat (length (Data p))) = region_end p"
    using ep by (simp add: region_end_def unat_word_ariths unat_of_nat)
  with "1.prems"(2) have pr: "region_end p \<le> unat (VMAddress r)"
    by (auto simp: word_less_nat_alt split: if_splits)
  have rest: "sorted_wrt (\<lambda>r r'. region_end r \<le> unat (VMAddress r')) (r # rs)"
    using "1.IH" "1.prems" by (simp split: if_splits)
  have "region_end p \<le> unat (VMAddress r')" if "r' \<in> set rs" for r'
  proof -
    from rest that have "region_end r \<le> unat (VMAddress r')" by simp
    moreover have "unat (VMAddress r) \<le> region_end r" by (simp add: region_end_def)
    ultimately show ?thesis using pr by linarith
  qed
  with pr rest show ?case by simp
qed simp_all

lemma validateMemoryRegions_ok:
  assumes "validateMemoryRegions given = Inr validated"
  shows "regions_ok validated" and "mset validated = mset given"
proof -
  from assms have c: "check_regions given = None" and v: "validated = sort_key VMAddress given"
    and o: "check_overlap validated = None"
    by (auto simp: validateMemoryRegions_def Let_def split: option.splits)
  show "mset validated = mset given" by (simp add: v)
  have "\<forall>r \<in> set validated. check_region r = None"
    using c by (simp add: v check_regions_None)
  with o show "regions_ok validated"
    by (simp add: regions_ok_def check_overlap_None)
qed

section \<open>Translation\<close>

text \<open>\<open>ref_at s ref a n\<close>: the reference is inside its buffer and stands for the addresses from \<open>a\<close>.\<close>

fun ref_at :: "runState \<Rightarrow> mem_ref \<Rightarrow> u64 \<Rightarrow> nat \<Rightarrow> bool" where
  "ref_at s (StackRef off) a n \<longleftrightarrow>
     MMStackStart \<le> a \<and> off = unat (a - MMStackStart) \<and> off + n \<le> length (stack s)"
| "ref_at s (RegionRef i off) a n \<longleftrightarrow>
     i < length (regions s) \<and> VMAddress (regions s ! i) \<le> a \<and>
     off = unat (a - VMAddress (regions s ! i)) \<and> off + n \<le> length (Data (regions s ! i))"

fun ref_writable :: "runState \<Rightarrow> mem_ref \<Rightarrow> bool" where
  "ref_writable s (StackRef off) \<longleftrightarrow> True"
| "ref_writable s (RegionRef i off) \<longleftrightarrow> Permission (regions s ! i) AND MemoryWrite \<noteq> 0"

lemma find_region_Inr:
  assumes "find_region k rs a w wr = Inr ref"
  shows "\<exists>i < length rs. ref = RegionRef (k + i) (unat (a - VMAddress (rs ! i))) \<and>
    VMAddress (rs ! i) \<le> a \<and> unat (a - VMAddress (rs ! i)) + unat w \<le> length (Data (rs ! i)) \<and>
    (wr \<longrightarrow> Permission (rs ! i) AND MemoryWrite \<noteq> 0)"
  using assms
proof (induction k rs a w wr rule: find_region.induct)
  case (1 k a w wr)
  then show ?case by simp
next
  case (2 k r rest a w wr)
  show ?case
  proof (cases "unat (a - VMAddress r) > length (Data r) \<or> unat w > length (Data r) - unat (a - VMAddress r)")
    case True
    with "2.prems" have lt: "\<not> a < VMAddress r" and rec: "find_region (Suc k) rest a w wr = Inr ref"
      by (auto simp: Let_def split: if_splits)
    from "2.IH" [OF lt refl True rec] obtain i where "i < length rest" and
      "ref = RegionRef (Suc k + i) (unat (a - VMAddress (rest ! i))) \<and>
       VMAddress (rest ! i) \<le> a \<and> unat (a - VMAddress (rest ! i)) + unat w \<le> length (Data (rest ! i)) \<and>
       (wr \<longrightarrow> Permission (rest ! i) AND MemoryWrite \<noteq> 0)" by blast
    then show ?thesis by (intro exI [of _ "Suc i"]) simp
  next
    case False
    with "2.prems" show ?thesis
      by (intro exI [of _ 0]) (auto simp: Let_def not_less split: if_splits)
  qed
qed

lemma memoryRange_ref_at:
  assumes "memoryRange s a w wr = Inr ref"
  shows "ref_at s ref a (unat w)" and "wr \<Longrightarrow> ref_writable s ref" and "w \<noteq> 0"
  using assms by (auto simp: memoryRange_def split: if_splits dest!: find_region_Inr)

text \<open>Permission to write includes permission to read, and translation only looks at the shape.\<close>

lemma find_region_mono:
  "find_region k rs a w True = Inr ref \<Longrightarrow> find_region k rs a w False = Inr ref"
  by (induction k rs a w True rule: find_region.induct) (auto simp: Let_def split: if_splits)

lemma memoryRange_mono: "memoryRange s a w True = Inr ref \<Longrightarrow> memoryRange s a w False = Inr ref"
  by (auto simp: memoryRange_def find_region_mono split: if_splits)

definition region_shape :: "MemoryRegion \<Rightarrow> u64 \<times> nat \<times> permissions \<times> string" where
  "region_shape r = (VMAddress r, length (Data r), Permission r, Name r)"

definition mem_shape :: "runState \<Rightarrow> nat \<times> (u64 \<times> nat \<times> permissions \<times> string) list" where
  "mem_shape s = (length (stack s), map region_shape (regions s))"

lemma find_region_shape:
  "map region_shape rs = map region_shape rs' \<Longrightarrow> find_region k rs a w wr = find_region k rs' a w wr"
proof (induction rs arbitrary: rs' k)
  case Nil
  then show ?case by simp
next
  case (Cons r rs)
  then obtain r' rest where rs': "rs' = r' # rest" and "region_shape r = region_shape r'"
    and rest: "map region_shape rs = map region_shape rest"
    by (cases rs') auto
  then have "VMAddress r = VMAddress r'" "length (Data r) = length (Data r')"
    "Permission r = Permission r'" by (simp_all add: region_shape_def)
  moreover have "find_region (Suc k) rs a w wr = find_region (Suc k) rest a w wr"
    by (rule Cons.IH [OF rest])
  ultimately show ?case by (simp add: rs' Let_def)
qed

lemma memoryRange_shape: "mem_shape s = mem_shape s' \<Longrightarrow> memoryRange s a w wr = memoryRange s' a w wr"
  by (auto simp: memoryRange_def mem_shape_def dest: find_region_shape)

lemma write_ref_shape:
  assumes "ref_at s ref a (length bs)"
  shows "mem_shape (write_ref s ref bs) = mem_shape s"
proof (cases ref)
  case (StackRef off)
  with assms show ?thesis by (simp add: mem_shape_def)
next
  case (RegionRef i off)
  with assms show ?thesis
    by (auto simp: mem_shape_def region_shape_def intro!: nth_equalityI simp: nth_list_update)
qed

section \<open>Reading what was written\<close>

lemma read_write_same:
  assumes "ref_at s ref a (length bs)" and "n = length bs"
  shows "read_ref (write_ref s ref bs) ref n = bs"
  using assms by (cases ref) simp_all

lemma read_write_apart:
  assumes r: "ref_at s ref a (length bs)" and r': "ref_at s ref' b m" and ap: "apart a (length bs) b m"
  shows "read_ref (write_ref s ref bs) ref' m = read_ref s ref' m"
proof -
  have off: "apart_off x + length bs \<le> apart_off y \<or> apart_off y + m \<le> apart_off x"
    if "x = a - c" "y = b - c" "c \<le> a" "c \<le> b" "apart_off = unat" for x y c :: u64 and apart_off
    using that ap by (auto simp: apart_def unat_sub word_le_nat_alt)
  show ?thesis
  proof (cases ref)
    case ref: (StackRef o1)
    then show ?thesis
    proof (cases ref')
      case (StackRef o2)
      with ref r r' off [OF refl refl _ _ refl, of MMStackStart] show ?thesis
        by (auto intro!: get_put_slice_disjoint)
    qed simp
  next
    case ref: (RegionRef i o1)
    then show ?thesis
    proof (cases ref')
      case (RegionRef j o2)
      show ?thesis
      proof (cases "i = j")
        case True
        with ref RegionRef r r' off [OF refl refl _ _ refl, of "VMAddress (regions s ! i)"]
        show ?thesis by (auto intro!: get_put_slice_disjoint)
      next
        case False
        with ref RegionRef r' show ?thesis by simp
      qed
    qed simp
  qed
qed

text \<open>What a load of each width reads: the low bytes, zero-extended.\<close>

fun truncate_to :: "memory_type \<Rightarrow> u64 \<Rightarrow> u64" where
  "truncate_to MemoryByte v = take_bit 8 v"
| "truncate_to MemoryHalf v = take_bit 16 v"
| "truncate_to MemoryWord v = take_bit 32 v"
| "truncate_to MemoryDoubleWord v = v"
| "truncate_to MemoryInvalid v = 0"

abbreviation kind_bytes :: "memory_type \<Rightarrow> nat" where
  "kind_bytes kind \<equiv> unat (MemoryType_Bytes kind)"

lemma ucast_ucast_take:
  "(ucast (ucast (v :: u64) :: u8) :: u64) = take_bit 8 v"
  "(ucast (ucast (v :: u64) :: u16) :: u64) = take_bit 16 v"
  "(ucast (ucast (v :: u64) :: u32) :: u64) = take_bit 32 v"
  by (rule bit_word_eqI; auto simp: bit_simps)+

lemma loadMemory_read:
  assumes "memoryRange s a (MemoryType_Bytes kind) False = Inr ref"
  shows "loadMemory s a kind =
    (case kind of
       MemoryByte \<Rightarrow> Inr (ucast (read_ref s ref 1 ! 0))
     | MemoryHalf \<Rightarrow> Inr (ucast (le_word (read_ref s ref 2) :: u16))
     | MemoryWord \<Rightarrow> Inr (ucast (le_word (read_ref s ref 4) :: u32))
     | MemoryDoubleWord \<Rightarrow> Inr (le_word (read_ref s ref 8))
     | MemoryInvalid \<Rightarrow> Inl ErrInvalidMemory)"
  using assms by (cases kind) (simp_all add: loadMemory_def)

lemma load_after_store:
  assumes "storeMemory s a v kind = Inr s'"
  shows "loadMemory s' a kind = Inr (truncate_to kind v)"
proof -
  from assms obtain ref where w: "memoryRange s a (MemoryType_Bytes kind) True = Inr ref"
    and s': "s' = write_ref s ref (store_bytes kind v)"
    by (rule storeMemory_write_ref)
  have at: "ref_at s ref a (length (store_bytes kind v))"
    using memoryRange_ref_at(1) [OF w] by simp
  have "memoryRange s' a (MemoryType_Bytes kind) False = Inr ref"
    using memoryRange_mono [OF w] memoryRange_shape [OF write_ref_shape [OF at]] by (simp add: s')
  moreover have "read_ref s' ref (kind_bytes kind) = store_bytes kind v"
    unfolding s' by (rule read_write_same [OF at]) simp
  moreover have "MemoryType_Bytes kind \<noteq> 0" by (rule memoryRange_ref_at(3) [OF w])
  ultimately show ?thesis
    by (cases kind) (simp_all add: loadMemory_read le_word_le_bytes_full ucast_ucast_take)
qed

lemma load_beside_store:
  assumes "storeMemory s a v kind = Inr s'" and ap: "apart a (kind_bytes kind) b (kind_bytes kind')"
  shows "loadMemory s' b kind' = loadMemory s b kind'"
proof -
  from assms(1) obtain ref where w: "memoryRange s a (MemoryType_Bytes kind) True = Inr ref"
    and s': "s' = write_ref s ref (store_bytes kind v)"
    by (rule storeMemory_write_ref)
  have at: "ref_at s ref a (length (store_bytes kind v))"
    using memoryRange_ref_at(1) [OF w] by simp
  have same: "memoryRange s' b (MemoryType_Bytes kind') False = memoryRange s b (MemoryType_Bytes kind') False"
    unfolding s' by (rule memoryRange_shape [OF write_ref_shape [OF at]])
  show ?thesis
  proof (cases "memoryRange s b (MemoryType_Bytes kind') False")
    case (Inl e)
    then show ?thesis by (simp add: loadMemory_def same)
  next
    case (Inr ref')
    have "read_ref s' ref' (kind_bytes kind') = read_ref s ref' (kind_bytes kind')"
      unfolding s' using at memoryRange_ref_at(1) [OF Inr] ap
      by (intro read_write_apart) simp_all
    with Inr show ?thesis by (simp add: loadMemory_def same)
  qed
qed

lemma store_keeps_shape: "storeMemory s a v kind = Inr s' \<Longrightarrow> mem_shape s' = mem_shape s"
  by (elim storeMemory_write_ref)
    (use memoryRange_ref_at(1) in \<open>fastforce intro: write_ref_shape\<close>)

text \<open>Whether an access succeeds depends on the shape of memory and on the permission only.\<close>

definition mapped :: "runState \<Rightarrow> u64 \<Rightarrow> memory_type \<Rightarrow> bool \<Rightarrow> bool" where
  "mapped s a kind wr \<longleftrightarrow> (\<exists>ref. memoryRange s a (MemoryType_Bytes kind) wr = Inr ref)"

lemma load_succeeds_iff: "(\<exists>v. loadMemory s a kind = Inr v) \<longleftrightarrow> mapped s a kind False"
proof
  assume "mapped s a kind False"
  then obtain ref where r: "memoryRange s a (MemoryType_Bytes kind) False = Inr ref"
    by (auto simp: mapped_def)
  have "MemoryType_Bytes kind \<noteq> 0" by (rule memoryRange_ref_at(3) [OF r])
  with r show "\<exists>v. loadMemory s a kind = Inr v" by (cases kind) (auto simp: loadMemory_read)
qed (auto simp: mapped_def loadMemory_def and_then_Inr_conv)

lemma store_succeeds_iff: "(\<exists>s'. storeMemory s a v kind = Inr s') \<longleftrightarrow> mapped s a kind True"
proof
  assume "mapped s a kind True"
  then obtain ref where r: "memoryRange s a (MemoryType_Bytes kind) True = Inr ref"
    by (auto simp: mapped_def)
  have "MemoryType_Bytes kind \<noteq> 0" by (rule memoryRange_ref_at(3) [OF r])
  with r show "\<exists>s'. storeMemory s a v kind = Inr s'" by (cases kind) (auto simp: storeMemory_def)
qed (auto simp: mapped_def storeMemory_def and_then_Inr_conv)

section \<open>Translation is complete\<close>

text \<open>
  The search stops at the first region that starts above the address.  On an accepted table that
  never hides a mapping: a region that holds the whole range is found, with its permissions.
\<close>

lemma find_region_complete:
  assumes "sorted_wrt (\<lambda>r r'. region_end r \<le> unat (VMAddress r')) rs"
    and "\<forall>r \<in> set rs. Permission r = MemoryReadOnly \<or> Permission r = MemoryReadWrite"
    and "i < length rs" and "VMAddress (rs ! i) \<le> a" and "w \<noteq> 0"
    and "unat (a - VMAddress (rs ! i)) + unat w \<le> length (Data (rs ! i))"
  shows "find_region k rs a w wr =
    (if wr \<and> Permission (rs ! i) = MemoryReadOnly then Inl ErrReadOnlyMemory
     else Inr (RegionRef (k + i) (unat (a - VMAddress (rs ! i)))))"
  using assms
proof (induction rs arbitrary: k i)
  case Nil
  then show ?case by simp
next
  case (Cons r rs)
  have w: "unat w \<noteq> 0" using Cons.prems(5) by (simp add: unat_eq_0)
  show ?case
  proof (cases i)
    case 0
    with Cons.prems show ?thesis by (auto simp: Let_def)
  next
    case (Suc j)
    then have j: "j < length rs" using Cons.prems(3) by simp
    then have e: "region_end r \<le> unat (VMAddress (rs ! j))" using Cons.prems(1) by simp
    have ja: "VMAddress (rs ! j) \<le> a" using Cons.prems(4) Suc by simp
    have ra: "\<not> a < VMAddress r"
      using e ja by (simp add: region_end_def word_le_nat_alt word_less_nat_alt)
    then have "unat (a - VMAddress r) = unat a - unat (VMAddress r)"
      by (simp add: unat_sub not_less)
    then have skip: "unat w > length (Data r) - unat (a - VMAddress r)"
      using e ja w by (simp add: region_end_def word_le_nat_alt)
    have "find_region (Suc k) rs a w wr =
      (if wr \<and> Permission (rs ! j) = MemoryReadOnly then Inl ErrReadOnlyMemory
       else Inr (RegionRef (Suc k + j) (unat (a - VMAddress (rs ! j)))))"
      using Cons.prems Suc j by (intro Cons.IH) auto
    with ra skip Suc show ?thesis by (simp add: Let_def)
  qed
qed

lemma region_address:
  assumes "check_region r = None" and "VMAddress r \<le> a"
    and "unat (a - VMAddress r) < length (Data r)"
  shows "unat a div 2 ^ 32 \<noteq> 2" and "unat a < region_end r"
proof -
  have ua: "unat a = unat (VMAddress r) + unat (a - VMAddress r)"
    using assms(2) by (simp add: unat_sub word_le_nat_alt)
  then show lt: "unat a < region_end r" using assms(3) by (simp add: region_end_def)
  have "unat (VMAddress r) div 2 ^ 32 \<le> unat a div 2 ^ 32"
    using ua by (intro div_le_mono) simp
  moreover have "unat a div 2 ^ 32 \<le> (region_end r - 1) div 2 ^ 32"
    using lt by (intro div_le_mono) simp
  ultimately show "unat a div 2 ^ 32 \<noteq> 2"
    using check_region_NoneD(4,5) [OF assms(1)] by linarith
qed

lemma memoryRange_complete:
  assumes ok: "regions_ok (regions s)" and st: "length (stack s) \<le> 2 ^ 32" and w: "w \<noteq> 0"
    and at: "ref_at s ref a (unat w)" and wr: "wr \<longrightarrow> ref_writable s ref"
  shows "memoryRange s a w wr = Inr ref"
proof -
  have w1: "unat w \<ge> 1" using w by (simp add: Suc_le_eq unat_gt_0)
  have fits: "\<not> a > - 1 - w" if "unat a + unat w < 2 ^ 64"
  proof -
    have "unat (- 1 - w :: u64) = 2 ^ 64 - 1 - unat w"
    proof -
      have "w \<le> - 1" by simp
      then have "unat (- 1 - w) = unat (- 1 :: u64) - unat w"
        by (simp only: unat_sub word_le_nat_alt)
      then show ?thesis by (simp add: unsigned_minus_1_eq_mask mask_eq_exp_minus_1)
    qed
    then show ?thesis using that by (simp add: word_less_nat_alt)
  qed
  show ?thesis
  proof (cases ref)
    case (StackRef off)
    have "unat a = unat (MMStackStart :: u64) + off"
      using at StackRef by (simp add: unat_sub word_le_nat_alt)
    then have "unat a + unat w < 2 ^ 64" using at StackRef st by simp
    with fits at StackRef w show ?thesis by (auto simp: memoryRange_def)
  next
    case (RegionRef i off)
    let ?r = "regions s ! i"
    have i: "i < length (regions s)" and le: "VMAddress ?r \<le> a"
      and off: "off = unat (a - VMAddress ?r)" and b: "off + unat w \<le> length (Data ?r)"
      using at RegionRef by simp_all
    have c: "check_region ?r = None" using ok i by (simp add: regions_ok_def)
    have "unat a = unat (VMAddress ?r) + off"
      using le off by (simp add: unat_sub word_le_nat_alt)
    then have "unat a + unat w < 2 ^ 64"
      using b check_region_NoneD(3) [OF c] by (simp add: region_end_def)
    note guard = fits [OF this]
    have "unat a div 2 ^ 32 \<noteq> 2"
      using region_address(1) [OF c le] off b w1 by simp
    then have nostack: "\<not> (a \<ge> MMStackStart \<and> unat (a - MMStackStart) \<le> length (stack s) \<and>
        unat w \<le> length (stack s) - unat (a - MMStackStart))"
      using st w1 by (auto simp: unat_sub word_le_nat_alt)
    have sorted: "sorted_wrt (\<lambda>r r'. region_end r \<le> unat (VMAddress r')) (regions s)"
      and perms: "\<forall>r \<in> set (regions s). Permission r = MemoryReadOnly \<or> Permission r = MemoryReadWrite"
      using ok check_region_NoneD(2) by (auto simp: regions_ok_def)
    have ro: "\<not> (wr \<and> Permission ?r = MemoryReadOnly)"
      using wr RegionRef by auto
    have "find_region 0 (regions s) a w wr = Inr ref"
      using find_region_complete [OF sorted perms i le w, of 0 wr] b off ro RegionRef by simp
    with guard nostack w show ?thesis by (auto simp: memoryRange_def)
  qed
qed

text \<open>
  C12. On an accepted region table and a stack that fits its 4 GiB window, translation
  succeeds with a reference exactly when that reference denotes the requested addresses, lies
  wholly inside its buffer and carries the requested permission; so it is also unique.
\<close>

theorem memoryRange_iff:
  assumes "regions_ok (regions s)" and "length (stack s) \<le> 2 ^ 32"
  shows "memoryRange s a w wr = Inr ref \<longleftrightarrow>
    w \<noteq> 0 \<and> ref_at s ref a (unat w) \<and> (\<not> wr \<or> ref_writable s ref)"
  using memoryRange_ref_at [of s a w wr ref] memoryRange_complete [OF assms, of w ref a wr] by blast

section \<open>The interpreter's memory is a guest memory\<close>

interpretation vm_mem: guest_memory loadMemory storeMemory kind_bytes truncate_to
  "\<lambda>s a k. mapped s a k True"
proof unfold_locales
  fix s s' :: runState and a b v :: u64 and k k' :: memory_type
  show "storeMemory s a v k = Inr s' \<Longrightarrow> loadMemory s' a k = Inr (truncate_to k v)"
    by (rule load_after_store)
  show "storeMemory s a v k = Inr s' \<Longrightarrow> apart a (kind_bytes k) b (kind_bytes k') \<Longrightarrow>
      loadMemory s' b k' = loadMemory s b k'"
    by (rule load_beside_store)
  show "(\<exists>s'. storeMemory s a v k = Inr s') = mapped s a k True"
    by (rule store_succeeds_iff)
  show "storeMemory s a v k = Inr s' \<Longrightarrow> mapped s' b k' True = mapped s b k' True"
    by (simp add: mapped_def memoryRange_shape [OF store_keeps_shape])
qed

section \<open>Which tables are accepted\<close>

definition disjoint_regions :: "MemoryRegion \<Rightarrow> MemoryRegion \<Rightarrow> bool" where
  "disjoint_regions r r' \<longleftrightarrow>
     region_end r \<le> unat (VMAddress r') \<or> region_end r' \<le> unat (VMAddress r)"

lemma sorted_wrt_sym_perm:
  assumes sym: "\<And>x y. D x y \<Longrightarrow> D y x" and "mset xs = mset ys" and "sorted_wrt D xs"
  shows "sorted_wrt D ys"
  using assms(2,3)
proof (induction xs arbitrary: ys)
  case Nil
  then show ?case by simp
next
  case (Cons x xs)
  have "x \<in> set ys" using mset_eq_setD [OF Cons.prems(1)] by auto
  then obtain as bs where ys: "ys = as @ x # bs" by (meson split_list)
  then have m: "mset xs = mset (as @ bs)" using Cons.prems(1) by simp
  then have "sorted_wrt D (as @ bs)" using Cons.IH [OF m] Cons.prems(2) by simp
  moreover have "\<forall>y \<in> set (as @ bs). D x y"
    using Cons.prems(2) mset_eq_setD [OF m] by simp
  ultimately show ?case unfolding ys by (auto simp: sorted_wrt_append intro: sym)
qed

lemma check_overlap_complete:
  assumes "\<forall>r \<in> set rs. check_region r = None" and "sorted (map VMAddress rs)"
    and "sorted_wrt disjoint_regions rs"
  shows "check_overlap rs = None"
  using assms
proof (induction rs rule: check_overlap.induct)
  case (1 p r rs)
  have p: "check_region p = None" and r: "check_region r = None" using "1.prems"(1) by simp_all
  have "unat (VMAddress p + of_nat (length (Data p))) = region_end p"
    using check_region_NoneD(3) [OF p] by (simp add: region_end_def unat_word_ariths unat_of_nat)
  moreover have "region_end p \<le> unat (VMAddress r)"
  proof -
    have "unat (VMAddress p) \<le> unat (VMAddress r)"
      using "1.prems"(2) by (simp add: word_le_nat_alt)
    moreover have "unat (VMAddress r) < region_end r"
      using check_region_NoneD(1) [OF r] by (simp add: region_end_def)
    ultimately show ?thesis using "1.prems"(3) by (auto simp: disjoint_regions_def)
  qed
  ultimately have "\<not> VMAddress r < VMAddress p + of_nat (length (Data p))"
    by (simp add: word_less_nat_alt)
  then show ?case using "1.IH" "1.prems" by simp
qed simp_all

lemma validateMemoryRegions_Inr:
  "validateMemoryRegions given = Inr validated \<longleftrightarrow>
     validated = sort_key VMAddress given \<and> check_regions given = None \<and>
     check_overlap (sort_key VMAddress given) = None"
  by (auto simp: validateMemoryRegions_def Let_def split: option.splits)

text \<open>
  A table of regions is accepted exactly when every region is well formed on its own and no
  two regions share a byte, and then it is handed to the interpreter sorted by address.  The order in which
  the caller lists the regions does not matter, and only neighbours need to be compared.
\<close>

theorem validateMemoryRegions_iff:
  "validateMemoryRegions given = Inr validated \<longleftrightarrow>
     validated = sort_key VMAddress given \<and>
     (\<forall>r \<in> set given. check_region r = None) \<and> sorted_wrt disjoint_regions given"
proof -
  let ?v = "sort_key VMAddress given"
  have sym: "disjoint_regions y x" if "disjoint_regions x y" for x y
    using that by (auto simp: disjoint_regions_def)
  have "check_overlap ?v = None \<longleftrightarrow> sorted_wrt disjoint_regions given"
    if ok: "\<forall>r \<in> set given. check_region r = None"
  proof
    have ok': "\<forall>r \<in> set ?v. check_region r = None" using ok by simp
    {
      assume "check_overlap ?v = None"
      from check_overlap_None [OF ok' this] have "sorted_wrt disjoint_regions ?v"
        by (rule sorted_wrt_mono_rel [rotated]) (simp add: disjoint_regions_def)
      then show "sorted_wrt disjoint_regions given"
        by (rule sorted_wrt_sym_perm [rotated 2]) (simp_all add: sym)
    }
    assume "sorted_wrt disjoint_regions given"
    then have "sorted_wrt disjoint_regions ?v"
      by (rule sorted_wrt_sym_perm [rotated 2]) (simp_all add: sym)
    with ok' show "check_overlap ?v = None" by (intro check_overlap_complete) simp_all
  qed
  then show ?thesis by (auto simp: validateMemoryRegions_Inr check_regions_None)
qed

text \<open>A table of two regions for the examples: read-only input and a writable heap.\<close>

definition demo_regions :: "MemoryRegion list" where
  "demo_regions = [WritableRegion MMHeapStart [1, 2, 3, 4, 5, 6, 7, 8, 9, 10, 11, 12],
     ReadOnlyRegion MMInputStart [7, 7]]"

definition demo_state :: runState where
  "demo_state = \<lparr>registers = \<lambda>_. 0, stack = replicate 16 0, regions = demo_regions,
     state_pc = 0, steps = 0, frames = []\<rparr>"

lemma demo_regions_accepted: "validateMemoryRegions demo_regions = Inr demo_regions"
  by (simp add: demo_regions_def WritableRegion_def ReadOnlyRegion_def validateMemoryRegions_def
      check_region_def Let_def)

lemma demo_regions_ok: "regions_ok (regions demo_state)"
  using validateMemoryRegions_ok(1) [OF demo_regions_accepted] by (simp add: demo_state_def)

theorem validateMemoryRegions_iff_witness:
  "map check_region demo_regions = [None, None] \<and> sorted_wrt disjoint_regions demo_regions"
  using validateMemoryRegions_iff [of demo_regions demo_regions] demo_regions_accepted
  by (simp add: demo_regions_def)

theorem memoryRange_iff_witness:
  "memoryRange demo_state (MMHeapStart + 3) 4 True = Inr (RegionRef 0 3)"
proof -
  have "length (stack demo_state) \<le> 2 ^ 32" by (simp add: demo_state_def)
  from memoryRange_iff [OF demo_regions_ok this] show ?thesis
    by (simp add: demo_state_def demo_regions_def WritableRegion_def)
qed



end
