(* ===== verification/VmSafety.thy ===== *)
theory VmSafety
  imports VmMachine VmMemoryFacts
begin

text \<open>
  Safety of the interpreter on a program its constructor accepted: the program counter stays on
  instruction starts, the frame pointer tracks the call depth, read-only memory is never changed,
  the calls preserve \<open>r6\<close> to \<open>r10\<close>, and only the errors that depend on the program's data occur.
\<close>

section \<open>The opcode groups of the loop\<close>

lemma alu64_class:
  assumes "alu64 op d s i = Some r"
  shows "\<not> isMemoryStore op \<and> \<not> isJump op \<and> op \<noteq> CALL_IMM \<and> op \<noteq> EXIT"
  using assms by (auto simp: alu64_def opcode_class_defs split: if_splits)

lemma alu32_class:
  assumes "alu32 op d s i = Some r"
  shows "\<not> isMemoryStore op \<and> \<not> isJump op \<and> op \<noteq> CALL_IMM \<and> op \<noteq> EXIT"
  using assms by (auto simp: alu32_def opcode_class_defs split: if_splits)

lemma jump32_class:
  assumes "jump32 op d s i = Some b"
  shows "isJump op \<and> \<not> isMemoryStore op"
  using assms by (auto simp: jump32_def opcode_class_defs split: if_splits)

lemma jump64_class:
  assumes "jump64 op d s i = Some b"
  shows "isJump op \<and> \<not> isMemoryStore op"
  using assms by (auto simp: jump64_def opcode_class_defs split: if_splits)

text \<open>Every valid opcode is a case of the loop's switch.\<close>

lemma alu64_covers: "op = LD_DW_IMM \<or> op \<in> {ADD64_IMM, ADD64_REG, SUB64_IMM, SUB64_REG, MUL64_IMM,
    MUL64_REG, DIV64_IMM, DIV64_REG, LSH64_IMM, LSH64_REG, RSH64_IMM, RSH64_REG, NEG64, MOD64_IMM,
    MOD64_REG, XOR64_IMM, XOR64_REG, MOV64_IMM, MOV64_REG, ARSH64_IMM, ARSH64_REG} \<Longrightarrow>
  alu64 op d s i \<noteq> None"
  by (auto simp: alu64_def)

lemma alu32_covers: "is32BitALU op \<Longrightarrow> alu32 op d s i \<noteq> None"
  by (auto simp: alu32_def is32BitALU_def)

lemma jump_covers: "isJump op \<Longrightarrow> jump32 op d s i \<noteq> None \<or> jump64 op d s i \<noteq> None"
  by (auto simp: jump32_def jump64_def isJump_def isJumpImmediate_def isJumpRegister_def)

lemma valid_opcode_covered:
  assumes "Opcode_valid op"
  shows "alu64 op d s i \<noteq> None \<or> isMemoryLoad op \<or> isMemoryStore op \<or> alu32 op d s i \<noteq> None \<or>
    jump32 op d s i \<noteq> None \<or> jump64 op d s i \<noteq> None \<or> op = CALL_IMM \<or> op = EXIT"
proof -
  have "isALUImmediate op \<or> isALURegister op \<or> op = NEG32 \<or> op = NEG64 \<Longrightarrow>
      alu64 op d s i \<noteq> None \<or> alu32 op d s i \<noteq> None"
    using alu64_covers [of op d s i] alu32_covers [of op d s i]
    by (auto simp: isALUImmediate_def isALURegister_def is32BitALU_def)
  moreover have "op = LD_DW_IMM \<Longrightarrow> alu64 op d s i \<noteq> None" by (rule alu64_covers) simp
  moreover have "isJump op \<Longrightarrow> jump32 op d s i \<noteq> None \<or> jump64 op d s i \<noteq> None"
    by (rule jump_covers)
  ultimately show ?thesis
    using assms unfolding Opcode_valid_classes isJump_def by blast
qed

section \<open>What construction establishes\<close>

lemma map_of_zip_upt:
  assumes "distinct xs"
  shows "map_of (zip xs [0..<length xs]) x = Some i \<longleftrightarrow> i < length xs \<and> x = xs ! i"
proof -
  have "distinct (map fst (zip xs [0..<length xs]))" using assms by simp
  then have "map_of (zip xs [0..<length xs]) x = Some i \<longleftrightarrow> (x, i) \<in> set (zip xs [0..<length xs])"
    by (rule map_of_eq_Some_iff)
  then show ?thesis by (auto simp: set_zip)
qed

lemma NewWithConfigD:
  assumes "NewWithConfig p c = Inr m"
  shows "program_ok p" and "validateConfig c = None" and "vm_program m = p" and "vm_config m = c"
    and "vm_slots m = slot_sum p" and "vm_initErr m = None"
    and "vm_byPC m pc = Some i \<longleftrightarrow> i < length p \<and> pc = slot_sum (take i p)"
proof -
  obtain pcs n where pn: "PhysicalPCs p = (pcs, n)" by (cases "PhysicalPCs p")
  from assms have v: "ValidateProgram p = None" and c: "validateConfig c = None" and
    m: "m = \<lparr>vm_program = p, vm_byPC = map_of (zip pcs [0..<length p]), vm_slots = n,
             vm_config = c, vm_initErr = None\<rparr>"
    by (auto simp: NewWithConfig_def pn split: option.splits)
  show "program_ok p" using v by (simp add: ValidateProgram_iff)
  show "validateConfig c = None" by (rule c)
  show "vm_program m = p" "vm_config m = c" "vm_initErr m = None" by (simp_all add: m)
  show "vm_slots m = slot_sum p" using PhysicalPCs_total [of p] by (simp add: m pn)
  have "length pcs = length p" "distinct pcs"
    using PhysicalPCs_length [of p] PhysicalPCs_distinct [of p] by (simp_all add: pn)
  moreover have "i < length p \<Longrightarrow> pcs ! i = slot_sum (take i p)"
    using PhysicalPCs_fst_nth [of i p] by (simp add: pn)
  ultimately show "vm_byPC m pc = Some i \<longleftrightarrow> i < length p \<and> pc = slot_sum (take i p)"
    using map_of_zip_upt [of pcs pc i] by (auto simp: m)
qed

lemma NewWithConfig_ex:
  "ValidateProgram p = None \<Longrightarrow> validateConfig c = None \<Longrightarrow> \<exists>m. NewWithConfig p c = Inr m"
  by (simp add: NewWithConfig_def split: prod.splits)

lemma validateConfig_NoneD:
  assumes "validateConfig c = None"
  shows "MaxInstructions c > 0" and "MaxCallDepth c \<ge> 1" and "StackFrameSize c > 0"
  using assms by (auto simp: validateConfig_def split: if_splits)

text \<open>
  \<open>vm_ok\<close> holds of the machines the constructors return.  A program counter is a \<open>start\<close> when an
  instruction begins there, and an \<open>edge\<close> when it is one or the end of the program.
\<close>

definition vm_ok :: "VM \<Rightarrow> bool" where
  "vm_ok m \<longleftrightarrow> NewWithConfig (vm_program m) (vm_config m) = Inr m"

lemma NewWithConfig_ok: "NewWithConfig p c = Inr m \<Longrightarrow> vm_ok m"
  using NewWithConfigD(3,4) by (fastforce simp: vm_ok_def)

definition is_start :: "VM \<Rightarrow> int \<Rightarrow> bool" where
  "is_start m pc \<longleftrightarrow> vm_byPC m pc \<noteq> None"

definition edge :: "VM \<Rightarrow> int \<Rightarrow> bool" where
  "edge m pc \<longleftrightarrow> is_start m pc \<or> pc = vm_slots m"

lemma vm_okD:
  assumes "vm_ok m"
  shows "program_ok (vm_program m)" and "validateConfig (vm_config m) = None"
    and "vm_slots m = slot_sum (vm_program m)" and "vm_initErr m = None"
    and "vm_byPC m pc = Some i \<longleftrightarrow> i < length (vm_program m) \<and> pc = slot_sum (take i (vm_program m))"
  using NewWithConfigD [OF assms [unfolded vm_ok_def]] by simp_all

lemma is_start_iff:
  "vm_ok m \<Longrightarrow> is_start m pc \<longleftrightarrow> (\<exists>i < length (vm_program m). pc = slot_sum (take i (vm_program m)))"
  using vm_okD(5) by (auto simp: is_start_def)

lemma start_range:
  assumes "vm_ok m" and "is_start m pc"
  shows "0 \<le> pc \<and> pc < vm_slots m"
proof -
  from assms obtain i where i: "i < length (vm_program m)" and pc: "pc = slot_sum (take i (vm_program m))"
    by (auto simp: is_start_iff)
  show ?thesis
    using slot_sum_ge_length [of "take i (vm_program m)"]
      slot_sum_take_strict [of i "length (vm_program m)" "vm_program m"] i
    by (simp add: pc vm_okD(3) [OF assms(1)])
qed

lemma edge_range: "vm_ok m \<Longrightarrow> edge m pc \<Longrightarrow> 0 \<le> pc \<and> pc \<le> vm_slots m"
  using start_range [of m pc] slot_sum_ge_length [of "vm_program m"]
  by (auto simp: edge_def vm_okD(3))

lemma fallthrough_edge:
  assumes "vm_ok m" and "vm_byPC m pc = Some i"
  shows "edge m (pc + Slots (vm_program m ! i))"
proof -
  from assms have i: "i < length (vm_program m)" and pc: "pc = slot_sum (take i (vm_program m))"
    by (simp_all add: vm_okD(5))
  then have e: "pc + Slots (vm_program m ! i) = slot_sum (take (Suc i) (vm_program m))"
    by (simp add: slot_sum_take_Suc)
  show ?thesis
  proof (cases "Suc i < length (vm_program m)")
    case True
    then show ?thesis using assms(1) by (auto simp: edge_def is_start_iff e)
  next
    case False
    then have "take (Suc i) (vm_program m) = vm_program m" using i by simp
    then show ?thesis by (simp add: edge_def e vm_okD(3) [OF assms(1)])
  qed
qed

lemma target_start:
  assumes "vm_ok m" and "vm_byPC m pc = Some i" and "is_relative (vm_program m ! i)"
  shows "is_start m (relative_target pc (vm_program m ! i))"
proof -
  from assms have i: "i < length (vm_program m)" and pc: "pc = slot_sum (take i (vm_program m))"
    by (simp_all add: vm_okD(5))
  from program_okD(2) [OF vm_okD(1) [OF assms(1)] i assms(3)] show ?thesis
    using assms(1) pc by (auto simp: is_start_iff)
qed

lemma instruction_valid:
  "vm_ok m \<Longrightarrow> vm_byPC m pc = Some i \<Longrightarrow> ValidateInstruction (vm_program m ! i) = None"
  using program_okD(1) vm_okD(1,5) by blast

section \<open>The run invariant\<close>

definition frame_top :: "Config \<Rightarrow> nat \<Rightarrow> u64" where
  "frame_top c depth = MMStackStart + word_of_int (StackFrameSize c * (int depth + 1))"

text \<open>
  \<open>L\<close> is the set of slots control may come to: \<open>edge m\<close> in general, \<open>is_start m\<close> when the program
  cannot fall off its end.
\<close>

definition frames_ok :: "VM \<Rightarrow> (int \<Rightarrow> bool) \<Rightarrow> callFrame list \<Rightarrow> bool" where
  "frames_ok m L fs \<longleftrightarrow>
     (\<forall>i < length fs. framePointer (fs ! i) = frame_top (vm_config m) i \<and> L (returnPC (fs ! i)))"

definition run_inv :: "VM \<Rightarrow> (int \<Rightarrow> bool) \<Rightarrow> runState \<Rightarrow> bool" where
  "run_inv m L s \<longleftrightarrow>
     is_start m (state_pc s) \<and>
     int (length (frames s)) < MaxCallDepth (vm_config m) \<and>
     registers s FramePointer = frame_top (vm_config m) (length (frames s)) \<and>
     frames_ok m L (frames s)"

text \<open>What one instruction may do to the frames and to \<open>r10\<close>, short of choosing the next slot.\<close>

definition frame_inv :: "VM \<Rightarrow> (int \<Rightarrow> bool) \<Rightarrow> runState \<Rightarrow> bool" where
  "frame_inv m L s \<longleftrightarrow>
     int (length (frames s)) < MaxCallDepth (vm_config m) \<and>
     registers s FramePointer = frame_top (vm_config m) (length (frames s)) \<and>
     frames_ok m L (frames s)"

text \<open>Memory may change only where it is writable, and never in shape.\<close>

definition evolves :: "runState \<Rightarrow> runState \<Rightarrow> bool" where
  "evolves s s' \<longleftrightarrow> mem_shape s' = mem_shape s \<and>
     (\<forall>i < length (regions s). Permission (regions s ! i) = MemoryReadOnly \<longrightarrow>
        Data (regions s' ! i) = Data (regions s ! i))"

lemma evolves_refl [simp]: "evolves s s"
  by (simp add: evolves_def)

lemma mem_shape_length: "mem_shape s' = mem_shape s \<Longrightarrow> length (regions s') = length (regions s)"
  unfolding mem_shape_def by (metis length_map snd_conv)

lemma mem_shape_nth:
  "mem_shape s' = mem_shape s \<Longrightarrow> i < length (regions s) \<Longrightarrow>
    region_shape (regions s' ! i) = region_shape (regions s ! i)"
  using mem_shape_length [of s' s] unfolding mem_shape_def by (metis nth_map snd_conv)

lemma evolves_trans:
  assumes "evolves s t" and "evolves t u"
  shows "evolves s u"
proof -
  have sh: "mem_shape t = mem_shape s" using assms(1) by (simp add: evolves_def)
  have "Permission (regions t ! i) = Permission (regions s ! i)" if "i < length (regions s)" for i
    using mem_shape_nth [OF sh that] by (simp add: region_shape_def)
  then show ?thesis using assms mem_shape_length [OF sh] by (simp add: evolves_def)
qed

lemma evolves_same_memory:
  "stack s' = stack s \<Longrightarrow> regions s' = regions s \<Longrightarrow> evolves s s'"
  by (simp add: evolves_def mem_shape_def)

lemma store_evolves:
  assumes "storeMemory s a v kind = Inr s'"
  shows "evolves s s'"
proof -
  from assms obtain ref where w: "memoryRange s a (MemoryType_Bytes kind) True = Inr ref"
    and s': "s' = write_ref s ref (store_bytes kind v)"
    by (rule storeMemory_write_ref)
  have "ref_writable s ref" by (rule memoryRange_ref_at(2) [OF w]) simp
  then have "Data (regions s' ! i) = Data (regions s ! i)"
    if "i < length (regions s)" "Permission (regions s ! i) = MemoryReadOnly" for i
    using that unfolding s'
    by (cases ref; cases "\<exists>off. ref = RegionRef i off") (auto simp: nth_list_update_eq)
  then show ?thesis
    using store_keeps_shape [OF assms] by (simp add: evolves_def)
qed

section \<open>Each group of cases\<close>

fun data_error :: "vm_error \<Rightarrow> bool" where
  "data_error GoPanic = False"
| "data_error ErrUnsupportedOpcode = False"
| "data_error ErrInvalidVMConfig = False"
| "data_error ErrTooManyArguments = False"
| "data_error ErrInvalidMemoryMap = False"
| "data_error ErrOverlappingMemory = False"
| "data_error (ErrProgram e) = False"
| "data_error ErrInstructionLimit = False"
| "data_error ErrExecutionOverrun = False"
| "data_error _ = True"

fun outcome_ok :: "VM \<Rightarrow> (int \<Rightarrow> bool) \<Rightarrow> runState \<Rightarrow> outcome \<Rightarrow> bool" where
  "outcome_ok m L s (Halt r s') \<longleftrightarrow> evolves s s' \<and> (case r of Inl e \<Rightarrow> data_error e | Inr v \<Rightarrow> True)"
| "outcome_ok m L s (Continue n s') \<longleftrightarrow> evolves s s' \<and> frame_inv m L s' \<and> L n"

lemma memoryRange_error:
  assumes "memoryRange s a w wr = Inl e"
  shows "e = ErrInvalidMemory \<or> e = ErrReadOnlyMemory"
proof -
  have "find_region k rs a w wr = Inl e \<Longrightarrow> e = ErrInvalidMemory \<or> e = ErrReadOnlyMemory" for k rs
    by (induction k rs a w wr rule: find_region.induct) (auto simp: Let_def split: if_splits)
  with assms show ?thesis by (auto simp: memoryRange_def split: if_splits)
qed

lemma loadMemory_error: "loadMemory s a kind = Inl e \<Longrightarrow> data_error e"
  by (cases kind) (auto simp: loadMemory_def and_then_Inl_conv dest!: memoryRange_error)

lemma storeMemory_error: "storeMemory s a v kind = Inl e \<Longrightarrow> data_error e"
  by (cases kind) (auto simp: storeMemory_def and_then_Inl_conv dest!: memoryRange_error)

lemma set_reg_inv: "frame_inv m L s \<Longrightarrow> r \<noteq> FramePointer \<Longrightarrow> frame_inv m L (set_reg r v s)"
  by (auto simp: frame_inv_def set_reg_def)

lemma set_reg_evolves [simp]: "evolves s (set_reg r v s)"
  by (rule evolves_same_memory) (simp_all add: set_reg_def)

lemma div_mod_error:
  "div_or_err a b = Inl e \<Longrightarrow> e = ErrVmDivisionByZero"
  "mod_or_err a b = Inl e \<Longrightarrow> e = ErrVmDivisionByZero"
  "widen r = Inl e \<Longrightarrow> r = Inl e"
  by (auto simp: div_or_err_def mod_or_err_def widen_def and_then_Inl_conv split: if_splits)

lemma alu64_error: "alu64 op d s i = Some (Inl e) \<Longrightarrow> e = ErrVmDivisionByZero"
  by (auto simp: alu64_def dest: div_mod_error split: if_splits)

lemma alu32_error: "alu32 op d s i = Some (Inl e) \<Longrightarrow> e = ErrVmDivisionByZero"
  by (auto simp: alu32_def dest!: div_mod_error split: if_splits)

lemma do_alu_ok:
  assumes "frame_inv m L s" and "Dst ins \<noteq> FramePointer" and "L n"
    and "\<And>e. r = Inl e \<Longrightarrow> data_error e"
  shows "outcome_ok m L s (do_alu ins r n s)"
  using assms by (cases r) (auto simp: do_alu_def set_reg_inv)

lemma do_load_ok:
  assumes "frame_inv m L s" and "Dst ins \<noteq> FramePointer" and "L n"
  shows "outcome_ok m L s (do_load ins n s)"
  using assms
  by (auto simp: do_load_def set_reg_inv loadMemory_error split: sum.split)

lemma do_store_ok:
  assumes "frame_inv m L s" and "L n"
  shows "outcome_ok m L s (do_store ins n s)"
proof -
  have "frame_inv m L s'" if "storeMemory s a v kind = Inr s'" for a v kind s'
    using that assms(1) by (elim storeMemory_write_ref) (simp add: frame_inv_def)
  then show ?thesis
    using assms by (auto simp: do_store_def storeMemory_error store_evolves split: sum.split)
qed

lemma frames_ok_append:
  "frames_ok m L (fs @ [f]) \<longleftrightarrow>
     frames_ok m L fs \<and> framePointer f = frame_top (vm_config m) (length fs) \<and> L (returnPC f)"
  by (auto simp: frames_ok_def nth_append less_Suc_eq)

lemma frame_top_Suc:
  "frame_top c (Suc n) = frame_top c n + word_of_int (StackFrameSize c)"
  by (simp add: frame_top_def algebra_simps)

lemma do_call_ok:
  assumes "frame_inv m L s" and "L (state_pc s + 1)"
    and "Src ins = 1 \<Longrightarrow> L (state_pc s + 1 + sint (Immediate ins))"
  shows "outcome_ok m L s (do_call (vm_config m) ins s)"
  using assms
  by (auto simp: do_call_def frame_inv_def frames_ok_append frame_top_Suc intro: evolves_same_memory)

lemma do_exit_ok:
  assumes "frame_inv m L s"
  shows "outcome_ok m L s (do_exit s)"
proof (cases "frames s" rule: rev_cases)
  case Nil
  then show ?thesis by (simp add: do_exit_def)
next
  case (snoc fs f)
  then show ?thesis using assms
    by (auto simp: do_exit_def Let_def frame_inv_def frames_ok_append intro: evolves_same_memory)
qed

text \<open>The slots control may come to include every start and every fall-through that can happen.\<close>

definition landing :: "VM \<Rightarrow> (int \<Rightarrow> bool) \<Rightarrow> bool" where
  "landing m L \<longleftrightarrow> (\<forall>pc. is_start m pc \<longrightarrow> L pc) \<and> (\<forall>pc. L pc \<longrightarrow> edge m pc) \<and>
     (\<forall>pc i. vm_byPC m pc = Some i \<longrightarrow> Op (vm_program m ! i) \<notin> {EXIT, JA} \<longrightarrow>
        L (pc + Slots (vm_program m ! i)))"

lemma landing_edge: "vm_ok m \<Longrightarrow> landing m (edge m)"
  by (auto simp: landing_def fallthrough_edge) (simp add: edge_def)

lemma CALL_slots: "Op ins = CALL_IMM \<Longrightarrow> Slots ins = 1"
  by (simp add: Slots_def)

lemma CALL_relative: "Op ins = CALL_IMM \<Longrightarrow> Src ins = 1 \<Longrightarrow>
  is_relative ins \<and> relative_target pc ins = pc + 1 + sint (Immediate ins)"
  by (simp add: is_relative_def relative_target_def isJump_def isJumpImmediate_def isJumpRegister_def)

lemma exec_instruction_ok:
  assumes vm: "vm_ok m" and L: "landing m L" and inv: "frame_inv m L s"
    and i: "vm_byPC m (state_pc s) = Some i" and ins: "ins = vm_program m ! i"
  shows "outcome_ok m L s (exec_instruction (vm_config m) ins (state_pc s + Slots ins) s)"
proof -
  let ?op = "Op ins" and ?d = "registers s (Dst ins)" and ?s = "registers s (Src ins)"
    and ?i = "Immediate ins" and ?n = "state_pc s + Slots ins"
  have valid: "ValidateInstruction ins = None"
    using instruction_valid [OF vm i] by (simp add: ins)
  note v = ValidateInstruction_NoneD [OF valid]
  have fall: "L ?n" if "?op \<noteq> EXIT" "?op \<noteq> JA"
    using L i that by (auto simp: landing_def ins)
  have target: "L (relative_target (state_pc s) ins)" if "is_relative ins"
    using target_start [OF vm i] that L by (auto simp: landing_def ins)
  have dst: "\<not> isMemoryStore ?op \<Longrightarrow> Dst ins \<noteq> FramePointer"
    using v(4) by blast
  have jump: "outcome_ok m L s (do_jump ins b ?n s)" if "isJump ?op" and "?op = JA \<longrightarrow> b" for b
  proof -
    have "L (state_pc s + 1 + sint (Offset ins))"
      using target that(1) by (simp add: is_relative_def relative_target_def)
    moreover have "\<not> b \<Longrightarrow> L ?n"
      using that fall by (auto simp: isJump_def isJumpImmediate_def isJumpRegister_def)
    ultimately show ?thesis using inv by (simp add: do_jump_def)
  qed
  note unfold = exec_instruction_def Let_def
  show ?thesis
  proof (cases "alu64 ?op ?d ?s ?i")
    case (Some r)
    then have "outcome_ok m L s (do_alu ins r ?n s)"
      using alu64_class [OF Some] fall dst alu64_error [of ?op ?d ?s ?i] inv
      by (intro do_alu_ok) (auto simp: isJump_def)
    with Some show ?thesis by (simp add: unfold)
  next
    case a64: None
    show ?thesis
    proof (cases "isMemoryLoad ?op \<or> isMemoryStore ?op")
      case True
      then have "L ?n" by (intro fall) (auto simp: isMemoryLoad_def isMemoryStore_def)
      moreover have "isMemoryLoad ?op \<Longrightarrow> \<not> isMemoryStore ?op"
        by (auto simp: isMemoryLoad_def isMemoryStore_def)
      ultimately show ?thesis
        using True a64 inv dst by (auto simp: unfold do_load_ok do_store_ok)
    next
      case mem: False
      show ?thesis
      proof (cases "alu32 ?op ?d ?s ?i")
        case (Some r)
        then have "outcome_ok m L s (do_alu ins r ?n s)"
          using alu32_class [OF Some] fall dst alu32_error [of ?op ?d ?s ?i] inv
          by (intro do_alu_ok) (auto simp: isJump_def)
        with Some a64 mem show ?thesis by (simp add: unfold)
      next
        case a32: None
        show ?thesis
        proof (cases "jump32 ?op ?d ?s ?i")
          case (Some b)
          have "?op \<noteq> JA" using Some by (auto simp: jump32_def split: if_splits)
          with jump [of b] jump32_class [OF Some] Some a64 mem a32 show ?thesis by (simp add: unfold)
        next
          case j32: None
          show ?thesis
          proof (cases "jump64 ?op ?d ?s ?i")
            case (Some b)
            have "?op = JA \<longrightarrow> b" using Some by (auto simp: jump64_def)
            with jump [of b] jump64_class [OF Some] Some a64 mem a32 j32 show ?thesis
              by (simp add: unfold)
          next
            case j64: None
            with valid_opcode_covered [OF v(1), of ?d ?s ?i] a64 mem a32 j32
            consider (call) "?op = CALL_IMM" | (exit) "?op = EXIT" by blast
            then show ?thesis
            proof cases
              case call
              have "outcome_ok m L s (do_call (vm_config m) ins s)"
                using fall target CALL_slots [OF call] CALL_relative [OF call, of "state_pc s"] inv call
                by (intro do_call_ok) auto
              with call a64 mem a32 j32 j64 show ?thesis by (simp add: unfold)
            next
              case exit
              with a64 mem a32 j32 j64 do_exit_ok [OF inv] show ?thesis by (simp add: unfold)
            qed
          qed
        qed
      qed
    qed
  qed
qed

section \<open>One turn, and the whole run\<close>

lemma run_inv_frame_inv: "run_inv m L s \<longleftrightarrow> is_start m (state_pc s) \<and> frame_inv m L s"
  by (simp add: run_inv_def frame_inv_def)

lemma step_ok:
  assumes vm: "vm_ok m" and L: "landing m L" and inv: "run_inv m L s"
  shows "case step m s of
      Next s' \<Rightarrow> run_inv m L s' \<and> evolves s s'
    | Done r s' \<Rightarrow> evolves s s' \<and> steps s' \<le> steps s + 1 \<and>
        (\<forall>e. r = Inl e \<longrightarrow> data_error e \<or> e = ErrExecutionOverrun \<and> L (vm_slots m))"
proof -
  obtain i where i: "vm_byPC m (state_pc s) = Some i"
    using inv by (auto simp: run_inv_def is_start_def)
  define ins where "ins = vm_program m ! i"
  define s1 where "s1 = s\<lparr>steps := steps s + 1\<rparr>"
  have "ValidateInstruction ins = None"
    using instruction_valid [OF vm i] by (simp add: ins_def)
  then have regs: "Register_valid (Dst ins)" "Register_valid (Src ins)"
    by (simp_all add: Register_valid_def ValidateInstruction_NoneD)
  have s1: "frame_inv m L s1" "state_pc s1 = state_pc s" "evolves s s1" "steps s1 = steps s + 1"
    using inv by (auto simp: s1_def run_inv_def frame_inv_def intro: evolves_same_memory)
  let ?out = "exec_instruction (vm_config m) ins (state_pc s + Slots ins) s1"
  have ok: "outcome_ok m L s1 ?out"
    using exec_instruction_ok [OF vm L s1(1)] i ins_def by (simp add: s1(2))
  have step: "step m s = (case ?out of Halt r s2 \<Rightarrow> Done r s2 | Continue nextPC s2 \<Rightarrow>
      if nextPC < 0 \<or> nextPC \<ge> vm_slots m then Done (Inl ErrExecutionOverrun) s2
      else if vm_byPC m nextPC = None then Done (Inl ErrExecutionOverrun) s2
      else Next (s2\<lparr>state_pc := nextPC\<rparr>))"
    using i regs by (simp add: step_def Let_def ins_def s1_def)
  show ?thesis
  proof (cases ?out)
    case (Halt r s2)
    with ok s1(3) have "evolves s s2" by (auto intro: evolves_trans)
    moreover have "steps s2 = steps s1"
      using Halt by (auto simp: exec_instruction_def do_alu_def do_load_def do_store_def do_jump_def
          do_call_def do_exit_def Let_def split: option.splits if_splits sum.splits)
    ultimately show ?thesis using Halt ok s1(4) by (auto simp: step split: sum.splits)
  next
    case (Continue n s2)
    with ok have n: "L n" and inv2: "frame_inv m L s2" and ev: "evolves s s2"
      using s1(3) by (auto intro: evolves_trans)
    have edge: "edge m n" using n L by (simp add: landing_def)
    have st: "steps s2 = steps s1" by (rule exec_instruction_steps [OF Continue])
    show ?thesis
    proof (cases "is_start m n")
      case True
      with start_range [OF vm True] inv2 ev show ?thesis
        by (auto simp: step Continue run_inv_frame_inv frame_inv_def is_start_def evolves_def mem_shape_def)
    next
      case False
      then have "n = vm_slots m" using edge by (simp add: edge_def)
      with n ev st s1(4) show ?thesis by (simp add: step Continue)
    qed
  qed
qed

lemma execute_ok:
  assumes "vm_ok m" and "landing m L" and "run_inv m L s" and "steps s \<le> MaxInstructions (vm_config m)"
  shows "evolves s (snd (execute m s)) \<and>
    steps (snd (execute m s)) \<le> MaxInstructions (vm_config m) \<and>
    (\<forall>e. fst (execute m s) = Inl e \<longrightarrow>
       data_error e \<or> e = ErrInstructionLimit \<or> e = ErrExecutionOverrun \<and> L (vm_slots m))"
  using assms
proof (induction m s rule: execute.induct)
  case (1 m s)
  show ?case
  proof (cases "steps s \<ge> MaxInstructions (vm_config m)")
    case True
    with "1.prems"(4) show ?thesis by (simp add: execute.simps [of m s])
  next
    case False
    note so = step_ok [OF "1.prems"(1,2,3)]
    show ?thesis
    proof (cases "step m s")
      case (Done r s')
      with so False show ?thesis by (auto simp: execute.simps [of m s])
    next
      case (Next s')
      with so have s': "run_inv m L s'" "evolves s s'" by auto
      have "steps s' \<le> MaxInstructions (vm_config m)"
        using step_steps [OF Next] False by simp
      from "1.IH" [OF False Next "1.prems"(1,2) s'(1) this] s'(2) show ?thesis
        using False Next by (auto simp: execute.simps [of m s] intro: evolves_trans)
    qed
  qed
qed

lemma initial_run_inv:
  assumes vm: "vm_ok m" and L: "landing m L" and args: "length args \<le> MaxArguments"
  shows "run_inv m L (initial_state (vm_config m) mem args)"
proof -
  have "vm_program m \<noteq> []" using vm_okD(1) [OF vm] by (simp add: program_ok_def)
  then have "is_start m 0" unfolding is_start_iff [OF vm] by (intro exI [of _ 0]) simp
  moreover have "registers (initial_state (vm_config m) mem args) FramePointer =
      frame_top (vm_config m) 0"
    using args by (simp add: initial_state_def frame_top_def)
  ultimately show ?thesis
    using validateConfig_NoneD(2) [OF vm_okD(2) [OF vm]]
    by (simp add: run_inv_def frames_ok_def initial_state_def)
qed

lemma run_with_ok:
  assumes vm: "vm_ok m" and L: "landing m L"
  shows "evolves (initial_state (vm_config m) mem []) (snd (run_with m mem args)) \<and>
    steps (snd (run_with m mem args)) \<le> MaxInstructions (vm_config m) \<and>
    (\<forall>e. fst (run_with m mem args) = Inl e \<longrightarrow>
       data_error e \<or> e = ErrTooManyArguments \<or> e = ErrInstructionLimit \<or>
       e = ErrExecutionOverrun \<and> L (vm_slots m))"
proof -
  have "MaxInstructions (vm_config m) > 0" by (rule validateConfig_NoneD(1) [OF vm_okD(2) [OF vm]])
  moreover have "evolves (initial_state (vm_config m) mem []) (initial_state (vm_config m) mem args)"
    by (rule evolves_same_memory) (simp_all add: initial_state_def)
  ultimately show ?thesis
    using execute_ok [OF vm L initial_run_inv [OF vm L, of args mem]] vm_okD(4) [OF vm]
    by (auto simp: run_with_def initial_state_def intro: evolves_trans)
qed

text \<open>
  A region table given to \<open>RunWithMemory\<close> is either rejected before anything runs, or is the memory
  of a run that keeps its shape and its read-only contents.
\<close>

definition run_error :: "vm_error \<Rightarrow> bool" where
  "run_error e \<longleftrightarrow> data_error e \<or>
     e \<in> {ErrTooManyArguments, ErrInstructionLimit, ErrExecutionOverrun, ErrInvalidMemoryMap,
          ErrOverlappingMemory}"

lemma validateMemoryRegions_error:
  "validateMemoryRegions rs = Inl e \<Longrightarrow> e = ErrInvalidMemoryMap \<or> e = ErrOverlappingMemory"
proof -
  have "check_regions rs = Some e \<Longrightarrow> e = ErrInvalidMemoryMap" for e rs
    by (induction rs) (auto simp: check_region_def Let_def split: option.splits if_splits)
  moreover have "check_overlap rs = Some e \<Longrightarrow> e = ErrOverlappingMemory" for e rs
    by (induction rs rule: check_overlap.induct) (auto split: if_splits)
  ultimately show "validateMemoryRegions rs = Inl e \<Longrightarrow> e = ErrInvalidMemoryMap \<or> e = ErrOverlappingMemory"
    by (auto simp: validateMemoryRegions_def Let_def split: option.splits)
qed





section \<open>Programs that cannot fall off their end\<close>

definition closed_end :: "instruction list \<Rightarrow> bool" where
  "closed_end p \<longleftrightarrow> Op (last p) = EXIT \<or> Op (last p) = JA"

lemma landing_start:
  assumes vm: "vm_ok m" and closed: "closed_end (vm_program m)"
  shows "landing m (is_start m)"
proof -
  have "is_start m (pc + Slots (vm_program m ! i))"
    if i: "vm_byPC m pc = Some i" and op: "Op (vm_program m ! i) \<notin> {EXIT, JA}" for pc i
  proof -
    from i vm have il: "i < length (vm_program m)" and pc: "pc = slot_sum (take i (vm_program m))"
      by (simp_all add: vm_okD(5))
    have "Suc i \<noteq> length (vm_program m)"
    proof
      assume "Suc i = length (vm_program m)"
      then have "vm_program m ! i = last (vm_program m)"
        by (metis il diff_Suc_1 last_conv_nth length_0_conv not_less_zero)
      with op closed show False by (simp add: closed_end_def)
    qed
    then show ?thesis
      using il pc unfolding is_start_iff [OF vm]
      by (intro exI [of _ "Suc i"]) (simp add: slot_sum_take_Suc)
  qed
  then show ?thesis by (auto simp: landing_def edge_def)
qed

text \<open>
  C11. A program whose last instruction is \<open>EXIT\<close> or an unconditional jump (as every function the
  compiler emits ends) never ends in an execution overrun: control cannot leave the program
  and cannot enter the second slot of a wide constant.
\<close>

theorem no_overrun:
  assumes "NewWithConfig p c = Inr m" and "closed_end p"
  shows "fst (RunWithMemory m mem args) \<noteq> Inl ErrExecutionOverrun"
proof -
  note vm = NewWithConfig_ok [OF assms(1)]
  have "landing m (is_start m)"
    using landing_start [OF vm] assms(2) NewWithConfigD(3) [OF assms(1)] by simp
  moreover have "\<not> is_start m (vm_slots m)" using start_range [OF vm] by blast
  ultimately show ?thesis
    using run_with_ok [OF vm] validateMemoryRegions_error [of mem]
    by (fastforce simp: RunWithMemory_def split: sum.splits)
qed

theorem no_overrun_witness:
  "let p = [ALUImm MOV64_IMM R0 7, Return];
       c = \<lparr>MaxInstructions = 10, MaxCallDepth = 2, StackFrameSize = 16\<rparr>
   in \<exists>m. NewWithConfig p c = Inr m \<and> fst (RunWithMemory m [] []) \<noteq> Inl ErrExecutionOverrun"
proof -
  let ?p = "[ALUImm MOV64_IMM R0 7, Return]"
    and ?c = "\<lparr>MaxInstructions = 10, MaxCallDepth = 2, StackFrameSize = 16\<rparr>"
  have "ValidateProgram ?p = None" by code_simp
  moreover have "validateConfig ?c = None" by (simp add: validateConfig_def)
  ultimately obtain m where m: "NewWithConfig ?p ?c = Inr m"
    using NewWithConfig_ex by blast
  have "closed_end ?p" by (simp add: closed_end_def Return_def)
  from no_overrun [OF m this, of "[]" "[]"] m show ?thesis by auto
qed

end
