(* ===== verification/VmCalls.thy ===== *)
theory VmCalls
  imports VmSafety
begin

text \<open>
  The calling convention the interpreter implements: the registers \<open>r6\<close> to \<open>r9\<close> and the frame
  pointer of a caller come back unchanged from a call, whatever the callee does, and control
  returns to the slot after the call.  The compiler keeps every value that lives across a call in
  those registers or in the caller's frame.
\<close>

text \<open>\<open>deeper m d s t\<close>: the machine goes from \<open>s\<close> to \<open>t\<close> with more than \<open>d\<close> frames all the way.\<close>

inductive deeper :: "VM \<Rightarrow> nat \<Rightarrow> runState \<Rightarrow> runState \<Rightarrow> bool" for m d where
  here: "d < length (frames s) \<Longrightarrow> deeper m d s s"
| more: "deeper m d s t \<Longrightarrow> step m t = Next u \<Longrightarrow> d < length (frames u) \<Longrightarrow> deeper m d s u"

inductive_cases deeper_cases: "deeper m d s t"

text \<open>An instruction pushes a frame (a call), pops one (a return) or leaves the frames alone.\<close>

definition pushed_frame :: "runState \<Rightarrow> callFrame" where
  "pushed_frame s = \<lparr>returnPC = state_pc s + 1, framePointer = registers s FramePointer,
     calleeSaved = map (registers s) [R6, R7, R8, R9]\<rparr>"

lemma exec_instruction_frames:
  assumes "exec_instruction c ins n s = Continue n' s'"
  shows "frames s' = frames s \<or> frames s' = frames s @ [pushed_frame s] \<or>
    (frames s \<noteq> [] \<and> do_exit s = Continue n' s')"
  using assms
  by (auto simp: exec_instruction_def do_alu_def do_load_def do_store_def do_jump_def do_call_def
      set_reg_def pushed_frame_def Let_def do_exit_def elim!: storeMemory_write_ref
      split: option.splits if_splits sum.splits)

lemma step_frames:
  assumes "step m s = Next s'"
  shows "frames s' = frames s \<or> frames s' = frames s @ [pushed_frame s] \<or>
    (\<exists>fs f. frames s = fs @ [f] \<and> frames s' = fs \<and> state_pc s' = returnPC f \<and>
       registers s' FramePointer = framePointer f \<and>
       map (registers s') [R6, R7, R8, R9] = map ((!) (calleeSaved f)) [0, 1, 2, 3])"
proof -
  from assms obtain i n' s2 where
    e: "exec_instruction (vm_config m) (vm_program m ! i) (state_pc s + Slots (vm_program m ! i))
          (s\<lparr>steps := steps s + 1\<rparr>) = Continue n' s2"
    and s': "s' = s2\<lparr>state_pc := n'\<rparr>"
    by (auto simp: step_def Let_def split: option.splits if_splits outcome.splits)
  have pf: "pushed_frame (s\<lparr>steps := steps s + 1\<rparr>) = pushed_frame s"
    by (simp add: pushed_frame_def)
  from exec_instruction_frames [OF e] consider
    (same) "frames s' = frames s" | (push) "frames s' = frames s @ [pushed_frame s]"
    | (pop) "frames s \<noteq> []" "do_exit (s\<lparr>steps := steps s + 1\<rparr>) = Continue n' s2"
    by (auto simp: s' pf)
  then show ?thesis
  proof cases
    case pop
    then obtain fs f where "frames s = fs @ [f]" by (metis rev_exhaust)
    with pop show ?thesis by (auto simp: do_exit_def Let_def s')
  qed simp_all
qed

lemma deeper_prefix:
  assumes "deeper m d s t"
  shows "d < length (frames t)" and "take (Suc d) (frames t) = take (Suc d) (frames s)"
proof -
  have "d < length (frames t) \<and> take (Suc d) (frames t) = take (Suc d) (frames s)"
    using assms
  proof (induction rule: deeper.induct)
    case (here s)
    then show ?case by simp
  next
    case (more s t u)
    from step_frames [OF more.hyps(2)] more.hyps(3) more.IH show ?case by auto
  qed
  then show "d < length (frames t)" "take (Suc d) (frames t) = take (Suc d) (frames s)" by simp_all
qed

text \<open>
  C6. When a call returns (the first turn that brings the depth back to the caller's), the caller's
  frames, \<open>r6\<close> to \<open>r9\<close> and its frame pointer are exactly what they were at the call, and
  execution continues at the slot after the call.
\<close>

theorem call_returns:
  assumes call: "step m s = Next s1" "length (frames s1) = Suc (length (frames s))"
    and body: "deeper m (length (frames s)) s1 t"
    and ret: "step m t = Next u" "length (frames u) = length (frames s)"
  shows "frames u = frames s \<and> state_pc u = state_pc s + 1 \<and>
    registers u FramePointer = registers s FramePointer \<and>
    map (registers u) [R6, R7, R8, R9] = map (registers s) [R6, R7, R8, R9]"
proof -
  have s1: "frames s1 = frames s @ [pushed_frame s]"
    using step_frames [OF call(1)] call(2) by auto
  note d = deeper_prefix [OF body]
  obtain fs f where t: "frames t = fs @ [f]" and u: "frames u = fs" "state_pc u = returnPC f"
    "registers u FramePointer = framePointer f"
    "map (registers u) [R6, R7, R8, R9] = map ((!) (calleeSaved f)) [0, 1, 2, 3]"
    using step_frames [OF ret(1)] ret(2) d(1) by auto
  have "length (frames t) = Suc (length (frames s))" using t u(1) ret(2) by simp
  then have "fs @ [f] = frames s @ [pushed_frame s]"
    using d(2) s1 t by simp
  then have "fs = frames s" "f = pushed_frame s" by simp_all
  with u show ?thesis by (simp add: pushed_frame_def)
qed

text \<open>A callee that overwrites \<open>r6\<close>: one call, one move, one return.\<close>

definition demo_vm :: VM where
  "demo_vm = \<lparr>vm_program = [CallRelative 1, Return, ALUImm MOV64_IMM R6 9, Return],
     vm_byPC = map_of [(0, 0), (1, 1), (2, 2), (3, 3)], vm_slots = 4,
     vm_config = \<lparr>MaxInstructions = 10, MaxCallDepth = 2, StackFrameSize = 16\<rparr>,
     vm_initErr = None\<rparr>"

theorem call_returns_witness:
  "\<exists>s s1 t u. step demo_vm s = Next s1 \<and> registers t R6 = 9 \<and> step demo_vm t = Next u \<and>
     map (registers u) [R6, R7, R8, R9] = map (registers s) [R6, R7, R8, R9]"
proof -
  let ?s = "initial_state (vm_config demo_vm) [] []"
  obtain s1 where s1: "step demo_vm ?s = Next s1" "length (frames s1) = Suc (length (frames ?s))"
    "state_pc s1 = 2"
    by (auto simp: demo_vm_def step_def initial_state_def exec_instruction_def CallRelative_def
        alu64_def alu32_def jump32_def jump64_def isMemoryLoad_def isMemoryStore_def do_call_def
        Register_valid_def)
  obtain t where t: "step demo_vm s1 = Next t" "frames t = frames s1" "state_pc t = 3"
    "registers t R6 = 9"
    using s1(3)
    by (auto simp: demo_vm_def step_def exec_instruction_def ALUImm_def Slots_def
        alu64_def do_alu_def set_reg_def Register_valid_def)
  have d: "deeper demo_vm (length (frames ?s)) s1 t"
    using s1(2) t(2) by (intro deeper.more [OF deeper.here t(1)]) simp_all
  have "frames ?s = []" by (simp add: initial_state_def)
  then obtain f where f: "frames t = [f]"
    using s1(2) t(2) by (auto simp: length_Suc_conv)
  moreover have "f = pushed_frame ?s"
    using step_frames [OF s1(1)] s1(2) f t(2) \<open>frames ?s = []\<close> by auto
  ultimately obtain u where u: "step demo_vm t = Next u" "length (frames u) = length (frames ?s)"
    using t(3)
    by (auto simp: demo_vm_def step_def initial_state_def exec_instruction_def Return_def
        alu64_def alu32_def jump32_def jump64_def isMemoryLoad_def isMemoryStore_def do_exit_def
        Register_valid_def pushed_frame_def)
  from call_returns [OF s1(1,2) d u] s1 t u show ?thesis by blast
qed

end
