(* ===== verification/AddressLifetime.thy ===== *)
theory AddressLifetime
  imports CompilerIr
begin

text \<open>
  \<open>src/compiler/address_lifetime.go\<close>: the data-flow analysis that keeps addresses of a stack frame
  from outliving it.

  Sets of store effects (Go maps with empty values) are lists without repetition.  A Go \<open>range\<close> over
  such a map visits the entries in an unspecified order; every definition that does so takes the
  order as its argument \<open>ord\<close>.  \<open>LifetimePanic\<close> is a Go index or nil panic, which \<open>Validate\<close> rules
  out by checking every identifier before it starts the analysis; value and object indices use the
  list accessor under the same guarantee.
\<close>

section \<open>Origins, locations, values\<close>

record addressOrigins =
  origin_local :: bool
  origin_parameters :: u8
  origin_memory :: u8

definition no_origins :: addressOrigins where
  "no_origins = \<lparr>origin_local = False, origin_parameters = 0, origin_memory = 0\<rparr>"

definition origins_empty :: "addressOrigins \<Rightarrow> bool" where
  "origins_empty o' \<longleftrightarrow> \<not> origin_local o' \<and> origin_parameters o' = 0 \<and> origin_memory o' = 0"

definition origins_add :: "addressOrigins \<Rightarrow> addressOrigins \<Rightarrow> addressOrigins" where
  "origins_add a b =
     \<lparr>origin_local = (origin_local a \<or> origin_local b),
      origin_parameters = origin_parameters a OR origin_parameters b,
      origin_memory = origin_memory a OR origin_memory b\<rparr>"

definition withoutLocal :: "addressOrigins \<Rightarrow> addressOrigins" where
  "withoutLocal o' = o'\<lparr>origin_local := False\<rparr>"

datatype location_kind = addressLocationUnknown | addressLocationObject | addressLocationParameter

record addressLocation =
  loc_kind :: location_kind
  loc_object :: object_id
  loc_parameter :: u8
  loc_offset :: u64

definition no_location :: addressLocation where
  "no_location = \<lparr>loc_kind = addressLocationUnknown, loc_object = 0, loc_parameter = 0, loc_offset = 0\<rparr>"

record addressValue =
  av_origins :: addressOrigins
  av_location :: addressLocation
  av_constant :: u64
  av_known :: bool

definition no_value :: addressValue where
  "no_value = \<lparr>av_origins = no_origins, av_location = no_location, av_constant = 0, av_known = False\<rparr>"

definition joinAddressValue :: "addressValue \<Rightarrow> addressValue \<Rightarrow> addressValue" where
  "joinAddressValue d s =
     (let keep = av_known d \<and> av_known s \<and> av_constant d = av_constant s in
      \<lparr>av_origins = origins_add (av_origins d) (av_origins s),
       av_location = (if av_location d \<noteq> av_location s then no_location else av_location d),
       av_constant = (if keep then av_constant d else 0),
       av_known = keep\<rparr>)"

section \<open>Abstract states\<close>

record addressState =
  as_values :: "addressValue list"
  as_objects :: "addressOrigins list"
  as_parameters :: "addressOrigins list"

definition canCarryGuestAddress :: "ir_type \<Rightarrow> bool" where
  "canCarryGuestAddress t \<longleftrightarrow> snd (PointerElement t) \<or> integer t"

definition carriesFullGuestAddress :: "ir_type \<Rightarrow> bool" where
  "carriesFullGuestAddress t \<longleftrightarrow> snd (PointerElement t) \<or> type_bits t = 64"

fun parameter_state ::
  "ir_function \<Rightarrow> nat \<Rightarrow> value_id list \<Rightarrow> addressState \<Rightarrow> addressState" where
  "parameter_state f index [] s = s"
| "parameter_state f index (i # ids) s =
     (let t = value_Type (fst (Function_Value f i)); b = push_bit index 1 in
      parameter_state f (Suc index) ids
       (if \<not> canCarryGuestAddress t then s
        else s\<lparr>as_values := (as_values s)[unat i :=
                 no_value\<lparr>av_origins := no_origins\<lparr>origin_parameters := b\<rparr>,
                   av_location := no_location\<lparr>loc_kind := addressLocationParameter,
                     loc_parameter := of_nat index\<rparr>\<rparr>],
               as_parameters := (as_parameters s)[index := no_origins\<lparr>origin_memory := b\<rparr>]\<rparr>))"

definition newAddressState :: "ir_function \<Rightarrow> addressState" where
  "newAddressState f = parameter_state f 0 (fn_Params f)
     \<lparr>as_values = replicate (length (fn_Values f)) no_value,
      as_objects = replicate (length (fn_Memory f)) no_origins,
      as_parameters = replicate 5 no_origins\<rparr>"

text \<open>Joining element by element; the second component says whether an element changed.\<close>

fun join_list :: "('a \<Rightarrow> 'a \<Rightarrow> 'a) \<Rightarrow> 'a list \<Rightarrow> 'a list \<Rightarrow> 'a list \<times> bool" where
  "join_list j (d # ds) (s # ss) =
     (let e = j d s; (es, changed) = join_list j ds ss in (e # es, e \<noteq> d \<or> changed))"
| "join_list j ds ss = (ds, False)"

definition join_states :: "addressState \<Rightarrow> addressState \<Rightarrow> addressState \<times> bool" where
  "join_states d s =
     (let (vs, c1) = join_list joinAddressValue (as_values d) (as_values s);
          (os, c2) = join_list origins_add (as_objects d) (as_objects s);
          (ps, c3) = join_list origins_add (as_parameters d) (as_parameters s)
      in (\<lparr>as_values = vs, as_objects = os, as_parameters = ps\<rparr>, c1 \<or> c2 \<or> c3))"

fun add_selected :: "u8 \<Rightarrow> nat \<Rightarrow> addressOrigins list \<Rightarrow> addressOrigins \<Rightarrow> addressOrigins" where
  "add_selected mask' index [] acc = acc"
| "add_selected mask' index (m # ms) acc =
     add_selected mask' (Suc index) ms
       (if mask' AND push_bit index 1 \<noteq> 0 then origins_add acc m else acc)"

definition memoryAt :: "addressState \<Rightarrow> addressValue \<Rightarrow> addressOrigins" where
  "memoryAt s address =
     (let r1 =
        (if loc_kind (av_location address) = addressLocationObject then
           (if unat (loc_object (av_location address)) < length (as_objects s)
            then origins_add no_origins (as_objects s ! unat (loc_object (av_location address)))
            else no_origins)
         else if origin_local (av_origins address) then foldl origins_add no_origins (as_objects s)
         else no_origins);
        r2 = add_selected (origin_parameters (av_origins address)) 0 (as_parameters s) r1
      in r2\<lparr>origin_memory := origin_memory r2 OR origin_memory (av_origins address)\<rparr>)"

section \<open>Summaries\<close>

record addressStoreEffect =
  effect_value :: addressOrigins
  effect_destination :: addressValue
  effect_width :: u32

record addressLifetimeSummary =
  summary_returned :: addressOrigins
  summary_stores :: "addressStoreEffect list"

abbreviation (input) maxAddressLifetimeIterations :: nat where "maxAddressLifetimeIterations \<equiv> 256"
abbreviation (input) maxAddressLifetimeEffects :: nat where "maxAddressLifetimeEffects \<equiv> 4096"

definition newAddressLifetimeSummary :: addressLifetimeSummary where
  "newAddressLifetimeSummary = \<lparr>summary_returned = no_origins, summary_stores = []\<rparr>"

definition insert_effect :: "addressStoreEffect \<Rightarrow> addressStoreEffect list \<Rightarrow> addressStoreEffect list" where
  "insert_effect e es = (if e \<in> set es then es else es @ [e])"

definition merge_summary ::
  "addressLifetimeSummary \<Rightarrow> addressLifetimeSummary \<Rightarrow> addressLifetimeSummary \<times> bool" where
  "merge_summary d s =
     (let r = origins_add (summary_returned d) (summary_returned s);
          es = foldl (\<lambda>es e. insert_effect e es) (summary_stores d) (summary_stores s)
      in (\<lparr>summary_returned = r, summary_stores = es\<rparr>,
          r \<noteq> summary_returned d \<or> es \<noteq> summary_stores d))"

datatype lifetime_error =
    ReturnEscapes | RetainedOutside | TooManyEffects | NotConverged | LifetimePanic

type_synonym order_of_effects = "addressStoreEffect list \<Rightarrow> addressStoreEffect list"
type_synonym summaries = "string \<Rightarrow> addressLifetimeSummary option"

section \<open>Address arithmetic\<close>

text \<open>The Go function takes a nil function when the bounds of objects are not to be checked.\<close>

definition adjustAddressLocation ::
  "ir_function option \<Rightarrow> addressLocation \<Rightarrow> u64 \<Rightarrow> bool \<Rightarrow> addressLocation" where
  "adjustAddressLocation f loc delta subtract =
     (if loc_kind loc = addressLocationUnknown then no_location
      else if subtract \<and> delta > loc_offset loc then no_location
      else if \<not> subtract \<and> delta > - 1 - loc_offset loc then no_location
      else
        let loc' = loc\<lparr>loc_offset := (if subtract then loc_offset loc - delta else loc_offset loc + delta)\<rparr> in
        (case f of
           Some g \<Rightarrow>
             if loc_kind loc = addressLocationObject then
               (case Function_MemoryObject g (loc_object loc) of
                  None \<Rightarrow> no_location
                | Some object \<Rightarrow>
                    if loc_offset loc' > ucast (object_Size object) then no_location else loc')
             else loc'
         | None \<Rightarrow> loc'))"

definition arithmeticAddressLocation ::
  "ir_function \<Rightarrow> ir_op \<Rightarrow> addressValue \<Rightarrow> addressValue \<Rightarrow> addressLocation" where
  "arithmeticAddressLocation f operation x y =
     (if operation = OpAdd then
        (if loc_kind (av_location x) \<noteq> addressLocationUnknown \<and> av_known y \<and> origins_empty (av_origins y)
         then adjustAddressLocation (Some f) (av_location x) (av_constant y) False
         else if loc_kind (av_location y) \<noteq> addressLocationUnknown \<and> av_known x \<and> origins_empty (av_origins x)
         then adjustAddressLocation (Some f) (av_location y) (av_constant x) False
         else no_location)
      else if operation = OpSub then
        (if loc_kind (av_location x) \<noteq> addressLocationUnknown \<and> av_known y \<and> origins_empty (av_origins y)
         then adjustAddressLocation (Some f) (av_location x) (av_constant y) True
         else no_location)
      else no_location)"

definition normalizeAddressConstant :: "ir_type \<Rightarrow> u64 \<Rightarrow> u64" where
  "normalizeAddressConstant t v =
     (if type_bits t = 8 then v AND 0xff else if type_bits t = 32 then v AND 0xffffffff else v)"

definition foldAddressConstant :: "ir_type \<Rightarrow> ir_op \<Rightarrow> u64 \<Rightarrow> u64 \<Rightarrow> u64 option" where
  "foldAddressConstant t operation x y =
     (case operation of
        OpAdd \<Rightarrow> Some (normalizeAddressConstant t (x + y))
      | OpSub \<Rightarrow> Some (normalizeAddressConstant t (x - y))
      | OpMul \<Rightarrow> Some (normalizeAddressConstant t (x * y))
      | OpDiv \<Rightarrow> (if y = 0 \<or> signed_type t then None else Some (normalizeAddressConstant t (x div y)))
      | OpMod \<Rightarrow> (if y = 0 \<or> signed_type t then None else Some (normalizeAddressConstant t (x mod y)))
      | _ \<Rightarrow> None)"

definition addressCopyWidth :: "addressValue \<Rightarrow> u32 \<times> bool" where
  "addressCopyWidth len =
     (if av_known len \<and> av_constant len \<le> 0xffffffff then (ucast (av_constant len), True) else (0, False))"

section \<open>Stores and calls\<close>

definition destinationIsCurrentObject :: "ir_function \<Rightarrow> addressValue \<Rightarrow> u32 \<Rightarrow> bool" where
  "destinationIsCurrentObject f destination width =
     (if width = 0 \<or> loc_kind (av_location destination) \<noteq> addressLocationObject \<or>
         \<not> origin_local (av_origins destination) \<or> origin_parameters (av_origins destination) \<noteq> 0 \<or>
         origin_memory (av_origins destination) \<noteq> 0 then False
      else
        (case Function_MemoryObject f (loc_object (av_location destination)) of
           None \<Rightarrow> False
         | Some object \<Rightarrow>
             if loc_offset (av_location destination) > ucast (object_Size object) then False
             else ucast width \<le> (ucast (object_Size object) :: u64) - loc_offset (av_location destination)))"

definition add_object :: "object_id \<Rightarrow> addressOrigins \<Rightarrow> addressState \<Rightarrow> addressState" where
  "add_object i o' s =
     s\<lparr>as_objects := (as_objects s)[unat i := origins_add (as_objects s ! unat i) o']\<rparr>"

fun add_parameters ::
  "u8 \<Rightarrow> nat \<Rightarrow> addressOrigins \<Rightarrow> addressOrigins list \<Rightarrow> addressOrigins list" where
  "add_parameters mask' index o' [] = []"
| "add_parameters mask' index o' (m # ms) =
     (if mask' AND push_bit index 1 \<noteq> 0 then origins_add m o' else m) #
       add_parameters mask' (Suc index) o' ms"

definition applyAddressStore ::
  "ir_function \<Rightarrow> addressStoreEffect \<Rightarrow> addressState \<times> addressLifetimeSummary \<Rightarrow>
     lifetime_error + addressState \<times> addressLifetimeSummary" where
  "applyAddressStore f effect st =
     (let s = fst st; observed = snd st; v = effect_value effect; d = effect_destination effect;
          object = loc_object (av_location d) in
      if origins_empty v then Inr st
      else if destinationIsCurrentObject f d (effect_width effect)
        then Inr (add_object object v s, observed)
      else
        let s1 = (if loc_kind (av_location d) = addressLocationObject then add_object object v s
                  else if origin_local (av_origins d)
                    then s\<lparr>as_objects := map (\<lambda>m. origins_add m v) (as_objects s)\<rparr>
                  else s);
            s2 = s1\<lparr>as_parameters :=
                   add_parameters (origin_parameters (av_origins d)) 0 v (as_parameters s1)\<rparr>
        in if origin_local v then Inl RetainedOutside
           else
             let outward = withoutLocal v in
             if origins_empty outward then Inr (s2, observed)
             else
               let d1 = d\<lparr>av_origins := withoutLocal (av_origins d)\<rparr>;
                   d2 = (if loc_kind (av_location d1) = addressLocationObject
                         then d1\<lparr>av_location := no_location\<rparr> else d1)
               in Inr (s2, observed\<lparr>summary_stores := insert_effect
                    \<lparr>effect_value = outward, effect_destination = d2, effect_width = effect_width effect\<rparr>
                    (summary_stores observed)\<rparr>))"

fun substitute_from ::
  "addressOrigins \<Rightarrow> nat \<Rightarrow> addressValue list \<Rightarrow> addressState \<Rightarrow> addressOrigins \<Rightarrow> addressOrigins" where
  "substitute_from e index [] s acc = acc"
| "substitute_from e index (a # as) s acc =
     (let acc1 = (if origin_parameters e AND push_bit index 1 \<noteq> 0
                  then origins_add acc (av_origins a) else acc);
          acc2 = (if origin_memory e AND push_bit index 1 \<noteq> 0
                  then origins_add acc1 (memoryAt s a) else acc1)
      in substitute_from e (Suc index) as s acc2)"

definition substituteAddressOrigins ::
  "addressOrigins \<Rightarrow> addressValue list \<Rightarrow> addressState \<Rightarrow> addressOrigins" where
  "substituteAddressOrigins e as s =
     substitute_from e 0 as s (no_origins\<lparr>origin_local := origin_local e\<rparr>)"

definition substituteAddressValue ::
  "addressValue \<Rightarrow> addressValue list \<Rightarrow> addressState \<Rightarrow> addressValue" where
  "substituteAddressValue e as s =
     (let result = no_value\<lparr>av_origins := substituteAddressOrigins (av_origins e) as s\<rparr> in
      if loc_kind (av_location e) \<noteq> addressLocationParameter \<or>
         unat (loc_parameter (av_location e)) \<ge> length as then result
      else result\<lparr>av_location := adjustAddressLocation None
             (av_location (as ! unat (loc_parameter (av_location e)))) (loc_offset (av_location e)) False\<rparr>)"

fun apply_effects ::
  "ir_function \<Rightarrow> addressValue list \<Rightarrow> addressStoreEffect list \<Rightarrow>
     addressState \<times> addressLifetimeSummary \<Rightarrow> lifetime_error + addressState \<times> addressLifetimeSummary" where
  "apply_effects f as [] st = Inr st"
| "apply_effects f as (e # es) st =
     and_then (applyAddressStore f
        \<lparr>effect_value = substituteAddressOrigins (effect_value e) as (fst st),
         effect_destination = substituteAddressValue (effect_destination e) as (fst st),
         effect_width = effect_width e\<rparr> st)
       (apply_effects f as es)"

section \<open>The transfer function\<close>

definition set_address :: "value_id \<Rightarrow> addressValue \<Rightarrow> addressState \<Rightarrow> addressState" where
  "set_address i v s = (if i \<noteq> NoValue then s\<lparr>as_values := (as_values s)[unat i := v]\<rparr> else s)"

definition transfer_copy ::
  "ir_function \<Rightarrow> addressValue \<Rightarrow> addressStoreEffect \<Rightarrow> addressState \<times> addressLifetimeSummary \<Rightarrow>
     lifetime_error + addressState \<times> addressLifetimeSummary" where
  "transfer_copy f len effect st =
     (let (width, known) = addressCopyWidth len in
      if \<not> known \<or> width \<noteq> 0 then applyAddressStore f (effect\<lparr>effect_width := width\<rparr>) st else Inr st)"

definition transferAddressInstruction ::
  "order_of_effects \<Rightarrow> ir_function \<Rightarrow> summaries \<Rightarrow> ir_instruction \<Rightarrow>
     addressState \<times> addressLifetimeSummary \<Rightarrow> lifetime_error + addressState \<times> addressLifetimeSummary" where
  "transferAddressInstruction ord f summaries ins st =
     (let s = fst st; observed = snd st; val = (\<lambda>i. as_values s ! unat i);
          typ = (\<lambda>i. value_Type (fst (Function_Value f i)));
          dest = ins_Dest ins; x = val (ins_X ins); y = val (ins_Y ins); as = map val (ins_Args ins);
          ret = (\<lambda>v. Inr (set_address dest v s, observed)) in
      case ins_Op ins of
        OpConst \<Rightarrow> ret (no_value\<lparr>av_constant := ins_Imm ins, av_known := True\<rparr>)
      | OpMove \<Rightarrow>
          let n1 = (if \<not> carriesFullGuestAddress (typ dest) \<or> \<not> carriesFullGuestAddress (typ (ins_X ins))
                    then x\<lparr>av_location := no_location\<rparr> else x);
              n2 = (if av_known n1
                    then n1\<lparr>av_constant := normalizeAddressConstant (typ dest) (av_constant n1)\<rparr> else n1)
          in ret n2
      | OpCall \<Rightarrow>
          (case summaries (ins_Callee ins) of
             None \<Rightarrow> Inl LifetimePanic
           | Some callee \<Rightarrow>
               let s1 = (if dest \<noteq> NoValue
                         then set_address dest (no_value\<lparr>av_origins :=
                                substituteAddressOrigins (summary_returned callee) as s\<rparr>) s
                         else s)
               in apply_effects f as (ord (summary_stores callee)) (s1, observed))
      | OpSyscall \<Rightarrow>
          and_then
            (if ins_Callee ins = ''sol_memcpy_'' \<or> ins_Callee ins = ''sol_memmove_''
             then transfer_copy f (as ! 2) \<lparr>effect_value = memoryAt s (as ! 1),
                    effect_destination = as ! 0, effect_width = 0\<rparr> st
             else if ins_Callee ins = ''sol_memset_''
             then transfer_copy f (as ! 2) \<lparr>effect_value = av_origins (as ! 1),
                    effect_destination = as ! 0, effect_width = 0\<rparr> st
             else Inr st)
            (\<lambda>(s', observed'). Inr (set_address dest no_value s', observed'))
      | OpAddress \<Rightarrow>
          ret (no_value\<lparr>av_origins := no_origins\<lparr>origin_local := True\<rparr>,
                 av_location := no_location\<lparr>loc_kind := addressLocationObject, loc_object := ins_Object ins\<rparr>\<rparr>)
      | OpPointerAddress \<Rightarrow> ret x
      | OpLoad \<Rightarrow> ret (no_value\<lparr>av_origins := memoryAt s x\<rparr>)
      | OpStore \<Rightarrow>
          applyAddressStore f \<lparr>effect_value = av_origins y, effect_destination = x,
              effect_width = IrMemory_Bytes (ins_Memory ins)\<rparr> st
      | OpPointerAdd \<Rightarrow>
          let scale = ucast (ins_Scale ins) in
          ret (no_value\<lparr>av_origins := av_origins x,
                 av_location := (if av_known y \<and> av_constant y \<le> (- 1) div scale
                   then adjustAddressLocation (Some f) (av_location x) (av_constant y * scale) False
                   else no_location)\<rparr>)
      | OpZeroMemory \<Rightarrow>
          Inr (s\<lparr>as_objects := (as_objects s)[unat (ins_Object ins) := no_origins]\<rparr>, observed)
      | OpCopyMemory \<Rightarrow>
          Inr (s\<lparr>as_objects := (as_objects s)
                   [unat (ins_Object ins) := as_objects s ! unat (ins_SourceObject ins)]\<rparr>, observed)
      | OpBoundsCheck \<Rightarrow> Inr st
      | OpInvalid \<Rightarrow> Inr st
      | operation \<Rightarrow>
          if operation \<in> {OpAdd, OpSub, OpMul, OpDiv, OpMod} then
            let folded = (if av_known x \<and> av_known y
                  then foldAddressConstant (typ dest) operation (av_constant x) (av_constant y) else None)
            in ret \<lparr>av_origins = origins_add (av_origins x) (av_origins y),
                    av_location = arithmeticAddressLocation f operation x y,
                    av_constant = (case folded of Some c \<Rightarrow> c | None \<Rightarrow> 0),
                    av_known = (folded \<noteq> None)\<rparr>
          else ret no_value)"

fun transfer_all ::
  "order_of_effects \<Rightarrow> ir_function \<Rightarrow> summaries \<Rightarrow> ir_instruction list \<Rightarrow>
     addressState \<times> addressLifetimeSummary \<Rightarrow> lifetime_error + addressState \<times> addressLifetimeSummary" where
  "transfer_all ord f summaries [] st = Inr st"
| "transfer_all ord f summaries (ins # rest) st =
     and_then (transferAddressInstruction ord f summaries ins st) (transfer_all ord f summaries rest)"

section \<open>The work list\<close>

record worklist =
  wl_inputs :: "addressState option list"
  wl_queued :: "bool list"
  wl_queue :: "block_id list"
  wl_result :: addressLifetimeSummary

definition enqueueAddressSuccessor ::
  "block_id \<Rightarrow> addressState \<Rightarrow> worklist \<Rightarrow> lifetime_error + worklist" where
  "enqueueAddressSuccessor b s w =
     (if unat b \<ge> length (wl_inputs w) \<or> unat b \<ge> length (wl_queued w) then Inl LifetimePanic
      else
        let (input, changed) =
          (case wl_inputs w ! unat b of None \<Rightarrow> (s, True) | Some old \<Rightarrow> join_states old s);
          w1 = w\<lparr>wl_inputs := (wl_inputs w)[unat b := Some input]\<rparr>
        in if changed \<and> \<not> wl_queued w1 ! unat b
           then Inr (w1\<lparr>wl_queued := (wl_queued w1)[unat b := True], wl_queue := wl_queue w1 @ [b]\<rparr>)
           else Inr w1)"

definition lifetime_terminator ::
  "terminator \<Rightarrow> addressState \<Rightarrow> worklist \<Rightarrow> lifetime_error + worklist" where
  "lifetime_terminator t s w =
     (case term_Kind t of
        TermReturn \<Rightarrow>
          if term_Result t = NoValue then Inr w
          else
            let returned = av_origins (as_values s ! unat (term_Result t)) in
            if origin_local returned then Inl ReturnEscapes
            else Inr (w\<lparr>wl_result := (wl_result w)
                  \<lparr>summary_returned := origins_add (summary_returned (wl_result w)) returned\<rparr>\<rparr>)
      | TermJump \<Rightarrow> enqueueAddressSuccessor (term_Target t) s w
      | TermBranch \<Rightarrow>
          and_then (enqueueAddressSuccessor (term_True t) s w) (enqueueAddressSuccessor (term_False t) s)
      | TermInvalid \<Rightarrow> Inr w)"

text \<open>One turn of the loop: the block at the head of the queue.\<close>

definition lifetime_turn ::
  "order_of_effects \<Rightarrow> ir_function \<Rightarrow> summaries \<Rightarrow> worklist \<Rightarrow> lifetime_error + worklist" where
  "lifetime_turn ord f summaries w =
     (let b = hd (wl_queue w);
          w1 = w\<lparr>wl_queue := tl (wl_queue w), wl_queued := (wl_queued w)[unat b := False]\<rparr> in
      case Function_Block f b of
        None \<Rightarrow> Inl LifetimePanic
      | Some block \<Rightarrow>
          if unat b \<ge> length (wl_inputs w1) then Inl LifetimePanic
          else
            (case wl_inputs w1 ! unat b of
               None \<Rightarrow> Inl LifetimePanic
             | Some input \<Rightarrow>
                 and_then (transfer_all ord f summaries (block_Instructions block) (input, wl_result w1))
                   (\<lambda>(s, result). lifetime_terminator (block_Terminator block) s
                      (w1\<lparr>wl_result := result\<rparr>))))"

section \<open>The loop ends\<close>

text \<open>
  Joining only adds origins, forgets constants and forgets locations, so the height below drops
  with every change; a first visit fills an empty input, and any other turn shortens the queue.
\<close>

definition origins_height :: "addressOrigins \<Rightarrow> nat" where
  "origins_height a =
     (if origin_local a then 0 else 1) + unat (NOT (origin_parameters a)) + unat (NOT (origin_memory a))"

definition value_height :: "addressValue \<Rightarrow> nat" where
  "value_height v = origins_height (av_origins v) + (if av_known v then 1 else 0) +
     (if av_constant v = 0 then 0 else 1) + (if av_location v = no_location then 0 else 1)"

definition state_height :: "addressState \<Rightarrow> nat" where
  "state_height s = sum_list (map value_height (as_values s)) +
     sum_list (map origins_height (as_objects s)) + sum_list (map origins_height (as_parameters s))"

lemma word_or_height:
  fixes a b :: "'a::len word"
  shows "unat (NOT (a OR b)) \<le> unat (NOT a)"
    and "a OR b \<noteq> a \<Longrightarrow> unat (NOT (a OR b)) < unat (NOT a)"
proof -
  have "NOT a AND NOT b \<le> NOT a" by (rule word_and_le2)
  then show le: "unat (NOT (a OR b)) \<le> unat (NOT a)" by (simp add: word_le_nat_alt)
  assume "a OR b \<noteq> a"
  then have "NOT (a OR b) \<noteq> NOT a" by (metis bit.double_compl)
  then have "unat (NOT (a OR b)) \<noteq> unat (NOT a)" by (simp only: word_unat_eq_iff not_False_eq_True)
  with le show "unat (NOT (a OR b)) < unat (NOT a)" by linarith
qed

lemma origins_add_height:
  "origins_height (origins_add a b) \<le> origins_height a"
  "origins_add a b \<noteq> a \<Longrightarrow> origins_height (origins_add a b) < origins_height a"
proof -
  let ?p = "unat (NOT (origin_parameters a OR origin_parameters b))" and ?p' = "unat (NOT (origin_parameters a))"
  let ?m = "unat (NOT (origin_memory a OR origin_memory b))" and ?m' = "unat (NOT (origin_memory a))"
  have p: "?p \<le> ?p'" and m: "?m \<le> ?m'" by (simp_all only: word_or_height(1))
  have h: "origins_height (origins_add a b) =
      (if origin_local a \<or> origin_local b then 0 else 1) + ?p + ?m"
    by (simp add: origins_height_def origins_add_def)
  show "origins_height (origins_add a b) \<le> origins_height a"
    using p m unfolding h unfolding origins_height_def [of a] by (simp del: unsigned_not_eq bit.de_Morgan_disj)
  assume "origins_add a b \<noteq> a"
  then consider "\<not> origin_local a" "origin_local b" | "?p < ?p'" | "?m < ?m'"
    using word_or_height(2) [of "origin_parameters a" "origin_parameters b"]
      word_or_height(2) [of "origin_memory a" "origin_memory b"]
    by (cases a) (auto simp: origins_add_def)
  then show "origins_height (origins_add a b) < origins_height a"
    unfolding h unfolding origins_height_def [of a]
    by cases (use p m in \<open>simp_all del: bit.de_Morgan_disj\<close>)
qed

lemma joinAddressValue_height:
  "value_height (joinAddressValue d s) \<le> value_height d"
  "joinAddressValue d s \<noteq> d \<Longrightarrow> value_height (joinAddressValue d s) < value_height d"
proof -
  let ?o = "origins_add (av_origins d) (av_origins s)"
  note o = origins_add_height [of "av_origins d" "av_origins s"]
  show "value_height (joinAddressValue d s) \<le> value_height d"
    using o(1) by (auto simp: joinAddressValue_def value_height_def Let_def)
  assume ne: "joinAddressValue d s \<noteq> d"
  show "value_height (joinAddressValue d s) < value_height d"
  proof (cases "?o = av_origins d")
    case False
    then show ?thesis
      using o(2) by (auto simp: joinAddressValue_def value_height_def Let_def)
  next
    case True
    with ne show ?thesis
      by (cases d) (auto simp: joinAddressValue_def value_height_def Let_def split: if_splits)
  qed
qed

lemma join_list_height:
  assumes le: "\<And>d s. h (j d s) \<le> h d" and less: "\<And>d s. j d s \<noteq> d \<Longrightarrow> h (j d s) < (h d :: nat)"
  shows "sum_list (map h (fst (join_list j ds ss))) \<le> sum_list (map h ds) \<and>
    (snd (join_list j ds ss) \<longrightarrow> sum_list (map h (fst (join_list j ds ss))) < sum_list (map h ds))"
proof (induction ds ss rule: list_induct2')
  case (4 d ds s ss)
  then show ?case
    using le [of d s] less [of d s] by (auto simp: Let_def split_beta)
qed simp_all

lemma join_states_height:
  "state_height (fst (join_states d s)) \<le> state_height d"
  "snd (join_states d s) \<Longrightarrow> state_height (fst (join_states d s)) < state_height d"
proof -
  note v = join_list_height [of value_height joinAddressValue, OF joinAddressValue_height]
  note o' = join_list_height [of origins_height origins_add, OF origins_add_height]
  note parts = v [of "as_values d" "as_values s"] o' [of "as_objects d" "as_objects s"]
    o' [of "as_parameters d" "as_parameters s"]
  show "state_height (fst (join_states d s)) \<le> state_height d"
    using parts by (simp add: join_states_def state_height_def split_beta Let_def)
  assume "snd (join_states d s)"
  then show "state_height (fst (join_states d s)) < state_height d"
    using parts by (auto simp: join_states_def state_height_def split_beta Let_def)
qed

text \<open>Inputs not reached yet, then the height of those reached, then the length of the queue.\<close>

definition unreached :: "worklist \<Rightarrow> nat" where
  "unreached w = length (filter (\<lambda>i. i = None) (wl_inputs w))"

definition inputs_height :: "worklist \<Rightarrow> nat" where
  "inputs_height w = sum_list (map (case_option 0 state_height) (wl_inputs w))"

definition worklist_order :: "(worklist \<times> worklist) set" where
  "worklist_order = measures [unreached, inputs_height, length \<circ> wl_queue]"

lemma wf_worklist_order: "wf worklist_order"
  by (simp add: worklist_order_def)

lemma sum_list_map_update:
  fixes h :: "'a \<Rightarrow> nat"
  assumes "i < length xs"
  shows "sum_list (map h (xs[i := x])) + h (xs ! i) = sum_list (map h xs) + h x"
  using assms
proof (induction xs arbitrary: i)
  case (Cons y ys)
  then show ?case by (cases i) (auto simp: algebra_simps)
qed simp

lemma length_filter_sum: "length (filter P xs) = sum_list (map (\<lambda>x. if P x then 1 else 0) xs)"
  by (induction xs) simp_all

text \<open>Filling an input never raises the first two measures; if it queues its block, it lowers one.\<close>

lemma enqueue_measure:
  assumes "enqueueAddressSuccessor b s w = Inr w'"
  shows "(unreached w', inputs_height w') = (unreached w, inputs_height w) \<and>
      length (wl_queue w') = length (wl_queue w) \<or>
    unreached w' < unreached w \<or> unreached w' = unreached w \<and> inputs_height w' < inputs_height w"
proof -
  have i: "unat b < length (wl_inputs w)"
    using assms by (auto simp: enqueueAddressSuccessor_def split: if_splits)
  have un: "unreached (w\<lparr>wl_inputs := (wl_inputs w)[unat b := Some x]\<rparr>) +
      (if wl_inputs w ! unat b = None then 1 else 0) = unreached w" for x
    using sum_list_map_update [OF i, of "\<lambda>i. if i = None then 1 else 0" "Some x"]
    by (simp add: unreached_def length_filter_sum)
  have hi: "inputs_height (w\<lparr>wl_inputs := (wl_inputs w)[unat b := Some x]\<rparr>) +
      case_option 0 state_height (wl_inputs w ! unat b) = inputs_height w + state_height x" for x
    using sum_list_map_update [OF i, of "case_option 0 state_height" "Some x"]
    by (simp add: inputs_height_def)
  have frame: "unreached (v\<lparr>wl_queued := q, wl_queue := r\<rparr>) = unreached v"
    "inputs_height (v\<lparr>wl_queued := q, wl_queue := r\<rparr>) = inputs_height v" for v q r
    by (simp_all add: unreached_def inputs_height_def)
  show ?thesis
  proof (cases "wl_inputs w ! unat b")
    case None
    with assms un show ?thesis
      by (auto simp: enqueueAddressSuccessor_def Let_def frame split: if_splits)
        (metis Suc_eq_plus1 lessI)+
  next
    case (Some old)
    let ?j = "join_states old s" and ?w = "\<lambda>x. w\<lparr>wl_inputs := (wl_inputs w)[unat b := Some x]\<rparr>"
    have u: "unreached (?w (fst ?j)) = unreached w" using un [of "fst ?j"] Some by simp
    have h: "inputs_height (?w (fst ?j)) + state_height old = inputs_height w + state_height (fst ?j)"
      using hi [of "fst ?j"] Some by simp
    show ?thesis
    proof (cases "snd ?j")
      case True
      have "unreached w' = unreached (?w (fst ?j)) \<and> inputs_height w' = inputs_height (?w (fst ?j))"
        using assms Some
        by (auto simp: enqueueAddressSuccessor_def Let_def split_beta frame split: if_splits)
      then show ?thesis using u h join_states_height(2) [OF True] by linarith
    next
      case False
      then have w': "w' = ?w (fst ?j)"
        using assms Some by (auto simp: enqueueAddressSuccessor_def Let_def split_beta split: if_splits)
      have "inputs_height w' \<le> inputs_height w"
        using h join_states_height(1) [of old s] unfolding w' by linarith
      moreover have "length (wl_queue w') = length (wl_queue w)" unfolding w' by simp
      ultimately show ?thesis using u unfolding w' by auto
    qed
  qed
qed

definition below :: "worklist \<Rightarrow> worklist \<Rightarrow> bool" where
  "below w' w \<longleftrightarrow> unreached w' < unreached w \<or>
     unreached w' = unreached w \<and> (inputs_height w' < inputs_height w \<or>
       inputs_height w' = inputs_height w \<and> length (wl_queue w') \<le> length (wl_queue w))"

lemma below_refl: "below w w"
  by (simp add: below_def)

lemma below_trans: "below w2 w1 \<Longrightarrow> below w1 w \<Longrightarrow> below w2 w"
  by (auto simp: below_def)

lemma enqueue_below: "enqueueAddressSuccessor b s w = Inr w' \<Longrightarrow> below w' w"
  using enqueue_measure [of b s w w'] by (auto simp: below_def)

lemma lifetime_terminator_below: "lifetime_terminator t s w = Inr w' \<Longrightarrow> below w' w"
  by (cases "term_Kind t")
    (auto simp: lifetime_terminator_def and_then_Inr_conv Let_def below_refl
      below_def [of "w\<lparr>wl_result := r\<rparr>" w for r] unreached_def inputs_height_def
      dest!: enqueue_below intro: below_trans split: if_splits)

lemma lifetime_turn_decreases:
  assumes "wl_queue w \<noteq> []" and "lifetime_turn ord f summaries w = Inr w'"
  shows "(w', w) \<in> worklist_order"
proof -
  from assms(2) obtain r t s where
    t: "lifetime_terminator t s (w\<lparr>wl_queue := tl (wl_queue w),
          wl_queued := (wl_queued w)[unat (hd (wl_queue w)) := False], wl_result := r\<rparr>) = Inr w'"
    by (auto simp: lifetime_turn_def Let_def and_then_Inr_conv split: option.splits if_splits prod.splits)
  have "length (tl (wl_queue w)) < length (wl_queue w)" using assms(1) by simp
  with lifetime_terminator_below [OF t] show ?thesis
    by (auto simp: worklist_order_def below_def unreached_def inputs_height_def)
qed

function analyze_loop ::
  "order_of_effects \<Rightarrow> ir_function \<Rightarrow> summaries \<Rightarrow> worklist \<Rightarrow> lifetime_error + worklist" where
  "analyze_loop ord f summaries w =
     (if wl_queue w = [] then Inr w
      else and_then (lifetime_turn ord f summaries w) (\<lambda>w'. analyze_loop ord f summaries w'))"
  by pat_completeness auto
termination
  by (relation "inv_image worklist_order (\<lambda>(ord, f, summaries, w). w)")
    (auto simp: wf_worklist_order lifetime_turn_decreases)

declare analyze_loop.simps [simp del]

definition analyzeStackAddressLifetime ::
  "order_of_effects \<Rightarrow> ir_function \<Rightarrow> summaries \<Rightarrow> lifetime_error + addressLifetimeSummary" where
  "analyzeStackAddressLifetime ord f summaries =
     (let n = length (fn_Blocks f) in
      and_then
        (analyze_loop ord f summaries
          \<lparr>wl_inputs = (replicate n None)[unat (fn_Entry f) := Some (newAddressState f)],
           wl_queued = (replicate n False)[unat (fn_Entry f) := True],
           wl_queue = [fn_Entry f], wl_result = newAddressLifetimeSummary\<rparr>)
        (\<lambda>w. Inr (wl_result w)))"

section \<open>The whole program\<close>

definition programUsesPointerAddress :: "ir_program \<Rightarrow> bool" where
  "programUsesPointerAddress p \<longleftrightarrow>
     (\<exists>f \<in> set (prog_Functions p). \<exists>b \<in> set (fn_Blocks f). \<exists>i \<in> set (block_Instructions b).
        ins_Op i = OpPointerAddress)"

text \<open>One pass over the functions: the new summaries and whether one changed.\<close>

fun lifetime_pass ::
  "order_of_effects \<Rightarrow> ir_function list \<Rightarrow> summaries \<Rightarrow> bool \<Rightarrow> lifetime_error + summaries \<times> bool" where
  "lifetime_pass ord [] summaries changed = Inr (summaries, changed)"
| "lifetime_pass ord (f # fs) summaries changed =
     and_then (analyzeStackAddressLifetime ord f summaries)
       (\<lambda>observed.
          case summaries (fn_Name f) of
            None \<Rightarrow> Inl LifetimePanic
          | Some old \<Rightarrow>
              let (new, c) = merge_summary old observed in
              if length (summary_stores new) > maxAddressLifetimeEffects then Inl TooManyEffects
              else lifetime_pass ord fs (summaries(fn_Name f \<mapsto> new)) (c \<or> changed))"

fun lifetime_iterate ::
  "nat \<Rightarrow> order_of_effects \<Rightarrow> ir_function list \<Rightarrow> summaries \<Rightarrow> lifetime_error option" where
  "lifetime_iterate 0 ord fs summaries = Some NotConverged"
| "lifetime_iterate (Suc n) ord fs summaries =
     (case lifetime_pass ord fs summaries False of
        Inl e \<Rightarrow> Some e
      | Inr (summaries', changed) \<Rightarrow>
          if \<not> changed then None else lifetime_iterate n ord fs summaries')"

definition initial_summaries :: "ir_function list \<Rightarrow> summaries" where
  "initial_summaries fs = map_of (map (\<lambda>f. (fn_Name f, newAddressLifetimeSummary)) fs)"

definition validateStackAddressLifetimes :: "order_of_effects \<Rightarrow> ir_program \<Rightarrow> lifetime_error option" where
  "validateStackAddressLifetimes ord p =
     (if \<not> programUsesPointerAddress p then None
      else lifetime_iterate maxAddressLifetimeIterations ord (prog_Functions p)
             (initial_summaries (prog_Functions p)))"

end
