(* ===== verification/IrValidate.thy ===== *)
theory IrValidate
  imports AddressLifetime
begin

text \<open>
  \<open>Program.Validate\<close> of \<open>src/compiler/ir.go\<close>: the invariants instruction selection relies on.  The
  switch of \<open>validateInstruction\<close> is one definition per group of operations.  A Go \<open>error\<close> is an
  option; the constructors stand for the messages.
\<close>

datatype ir_error =
    IrPackageEmpty | IrFunctionNameEmpty | IrDuplicateFunction string
  | IrResultType | IrPointerResult | IrTooManyParameters
  | IrValueTable | IrValueType | IrValueKind | IrParameter
  | IrMemoryTable | IrMemoryType | IrMemorySize
  | IrEntryBlock | IrBlockTable
  | IrInvalidValue | IrOperands | IrDestination | IrCallee | IrSyscall | IrMemoryObject | IrOpcode
  | IrTerminator
  | IrLifetime lifetime_error

abbreviation (input) stackFrameSize :: nat where "stackFrameSize \<equiv> 4096"

section \<open>Instructions\<close>

definition with_value :: "ir_function \<Rightarrow> value_id \<Rightarrow> (ir_value \<Rightarrow> ir_error option) \<Rightarrow> ir_error option" where
  "with_value f i k = (case Function_Value f i of (v, ok) \<Rightarrow> if ok then k v else Some IrInvalidValue)"

definition may_lack_dest :: "ir_op \<Rightarrow> bool" where
  "may_lack_dest op \<longleftrightarrow> op = OpCall \<or> op = OpSyscall \<or> op = OpStore \<or> op = OpBoundsCheck \<or>
     op = OpZeroMemory \<or> op = OpCopyMemory"

definition validate_const :: "ir_instruction \<Rightarrow> ir_value \<Rightarrow> ir_error option" where
  "validate_const ins dest =
     also_check (ensure (\<not> (value_Type dest = TypeBool \<and> ins_Imm ins > 1)) IrOperands)
       (ensure (\<not> (is_pointer (value_Type dest) \<and> ins_Imm ins \<noteq> 0)) IrOperands)"

definition validate_move :: "ir_function \<Rightarrow> ir_instruction \<Rightarrow> ir_value \<Rightarrow> ir_error option" where
  "validate_move f ins dest =
     with_value f (ins_X ins) (\<lambda>source.
       ensure (\<not> ((value_Type source = TypeBool \<or> value_Type dest = TypeBool \<or>
           is_pointer (value_Type source) \<or> is_pointer (value_Type dest)) \<and>
           value_Type source \<noteq> value_Type dest)) IrOperands)"

definition validate_arithmetic :: "ir_function \<Rightarrow> ir_instruction \<Rightarrow> ir_value \<Rightarrow> ir_error option" where
  "validate_arithmetic f ins dest =
     with_value f (ins_X ins) (\<lambda>x. with_value f (ins_Y ins) (\<lambda>y.
       ensure (integer (value_Type dest) \<and> value_Type x = value_Type dest \<and>
         value_Type y = value_Type dest) IrOperands))"

definition validate_comparison :: "ir_function \<Rightarrow> ir_instruction \<Rightarrow> ir_value \<Rightarrow> ir_error option" where
  "validate_comparison f ins dest =
     with_value f (ins_X ins) (\<lambda>x. with_value f (ins_Y ins) (\<lambda>y.
       also_check (ensure (value_Type dest = TypeBool \<and> value_Type x = value_Type y) IrOperands)
         (ensure (\<not> (ins_Op ins \<noteq> OpEqual \<and> ins_Op ins \<noteq> OpNotEqual \<and> \<not> integer (value_Type x)))
           IrOperands)))"

fun validate_arguments ::
  "ir_function \<Rightarrow> value_id list \<Rightarrow> ir_type list \<Rightarrow> ir_error option" where
  "validate_arguments f (a # as) (t # ts) =
     with_value f a (\<lambda>v.
       also_check (ensure (value_Type v = t) IrOperands) (validate_arguments f as ts))"
| "validate_arguments f as ts = None"

definition validate_result ::
  "ir_instruction \<Rightarrow> ir_value \<Rightarrow> ir_type \<Rightarrow> ir_error option" where
  "validate_result ins dest result =
     (if result = TypeVoid then ensure (ins_Dest ins = NoValue) IrDestination
      else ensure (\<not> (ins_Dest ins = NoValue \<or> value_Type dest \<noteq> result)) IrDestination)"

definition validate_call ::
  "ir_function \<Rightarrow> (string \<Rightarrow> ir_function option) \<Rightarrow> ir_instruction \<Rightarrow> ir_value \<Rightarrow> ir_error option" where
  "validate_call f functions ins dest =
     (case functions (ins_Callee ins) of
        None \<Rightarrow> Some IrCallee
      | Some callee \<Rightarrow>
          also_check (ensure (length (ins_Args ins) = length (fn_Params callee)) IrCallee)
            (also_check
              (validate_arguments f (ins_Args ins)
                (map (\<lambda>i. value_Type (fst (Function_Value callee i))) (fn_Params callee)))
              (validate_result ins dest (fn_Result callee))))"

definition validate_syscall :: "ir_function \<Rightarrow> ir_instruction \<Rightarrow> ir_value \<Rightarrow> ir_error option" where
  "validate_syscall f ins dest =
     (case lookupSyscallBySymbol (ins_Callee ins) of
        None \<Rightarrow> Some IrSyscall
      | Some i \<Rightarrow>
          also_check
            (ensure (\<not> (ins_X ins \<noteq> NoValue \<or> ins_Y ins \<noteq> NoValue \<or> ins_Imm ins \<noteq> 0 \<or>
               ins_Object ins \<noteq> NoMemoryObject \<or> ins_SourceObject ins \<noteq> NoMemoryObject \<or>
               ins_Memory ins \<noteq> IrMemInvalid \<or> ins_Scale ins \<noteq> 0)) IrSyscall)
            (also_check (ensure (ins_SyscallID ins = sys_ID i) IrSyscall)
            (also_check (ensure (length (ins_Args ins) = sys_ParamCount i) IrSyscall)
            (also_check (validate_arguments f (ins_Args ins) (sys_Parameters i))
              (validate_result ins dest (sys_Result i))))))"

definition validate_address :: "ir_function \<Rightarrow> ir_instruction \<Rightarrow> ir_value \<Rightarrow> ir_error option" where
  "validate_address f ins dest =
     (let (element, pointer) = PointerElement (value_Type dest) in
      case Function_MemoryObject f (ins_Object ins) of
        None \<Rightarrow> Some IrMemoryObject
      | Some object \<Rightarrow> ensure (pointer \<and> element = object_Element object) IrMemoryObject)"

definition validate_pointer_address :: "ir_function \<Rightarrow> ir_instruction \<Rightarrow> ir_value \<Rightarrow> ir_error option" where
  "validate_pointer_address f ins dest =
     with_value f (ins_X ins) (\<lambda>pointer.
       let (element, ok) = PointerElement (value_Type pointer) in
       ensure (ok \<and> element = TypeUint64 \<and> value_Type dest = TypeUint64) IrOperands)"

text \<open>Loads and stores agree on pointer, value and memory type; an integer address is explicit.\<close>

definition access_ok :: "ir_value \<Rightarrow> ir_type \<Rightarrow> ir_memory \<Rightarrow> bool" where
  "access_ok pointer t memory =
     (let (element, ok) = PointerElement (value_Type pointer);
          explicitAddress = (value_Type pointer = TypeUint64)
      in \<not> ((\<not> ok \<and> \<not> explicitAddress) \<or> (ok \<and> element \<noteq> t) \<or> ValueType memory \<noteq> t))"

definition validate_load :: "ir_function \<Rightarrow> ir_instruction \<Rightarrow> ir_value \<Rightarrow> ir_error option" where
  "validate_load f ins dest =
     with_value f (ins_X ins)
       (\<lambda>pointer. ensure (access_ok pointer (value_Type dest) (ins_Memory ins)) IrOperands)"

definition validate_store :: "ir_function \<Rightarrow> ir_instruction \<Rightarrow> ir_error option" where
  "validate_store f ins =
     also_check (ensure (ins_Dest ins = NoValue) IrDestination)
       (with_value f (ins_X ins) (\<lambda>pointer. with_value f (ins_Y ins)
         (\<lambda>stored. ensure (access_ok pointer (value_Type stored) (ins_Memory ins)) IrOperands)))"

definition validate_pointer_add :: "ir_function \<Rightarrow> ir_instruction \<Rightarrow> ir_value \<Rightarrow> ir_error option" where
  "validate_pointer_add f ins dest =
     with_value f (ins_X ins) (\<lambda>base. with_value f (ins_Y ins) (\<lambda>index.
       let (element, pointer) = PointerElement (value_Type base) in
       ensure (pointer \<and> value_Type dest = value_Type base \<and> integer (value_Type index) \<and>
         ins_Scale ins = memoryBytes element) IrOperands))"

definition validate_bounds_check :: "ir_function \<Rightarrow> ir_instruction \<Rightarrow> ir_error option" where
  "validate_bounds_check f ins =
     also_check (ensure (ins_Dest ins = NoValue) IrDestination)
       (with_value f (ins_X ins)
         (\<lambda>index. ensure (integer (value_Type index) \<and> ins_Imm ins \<noteq> 0) IrOperands))"

definition validate_zero :: "ir_function \<Rightarrow> ir_instruction \<Rightarrow> ir_error option" where
  "validate_zero f ins =
     also_check (ensure (ins_Dest ins = NoValue) IrDestination)
       (ensure (Function_MemoryObject f (ins_Object ins) \<noteq> None) IrMemoryObject)"

definition validate_copy :: "ir_function \<Rightarrow> ir_instruction \<Rightarrow> ir_error option" where
  "validate_copy f ins =
     also_check (ensure (ins_Dest ins = NoValue) IrDestination)
       (case (Function_MemoryObject f (ins_Object ins), Function_MemoryObject f (ins_SourceObject ins)) of
          (Some destination, Some source) \<Rightarrow>
            ensure (object_Element destination = object_Element source \<and>
              object_Length destination = object_Length source) IrMemoryObject
        | _ \<Rightarrow> Some IrMemoryObject)"

definition validateInstruction ::
  "ir_function \<Rightarrow> (string \<Rightarrow> ir_function option) \<Rightarrow> ir_instruction \<Rightarrow> ir_error option" where
  "validateInstruction f functions ins =
     (let (dest, ok) = Function_Value f (ins_Dest ins) in
      if \<not> ok \<and> \<not> (may_lack_dest (ins_Op ins) \<and> ins_Dest ins = NoValue) then Some IrInvalidValue
      else
        (case ins_Op ins of
           OpConst \<Rightarrow> validate_const ins dest
         | OpMove \<Rightarrow> validate_move f ins dest
         | OpAdd \<Rightarrow> validate_arithmetic f ins dest
         | OpSub \<Rightarrow> validate_arithmetic f ins dest
         | OpMul \<Rightarrow> validate_arithmetic f ins dest
         | OpDiv \<Rightarrow> validate_arithmetic f ins dest
         | OpMod \<Rightarrow> validate_arithmetic f ins dest
         | OpEqual \<Rightarrow> validate_comparison f ins dest
         | OpNotEqual \<Rightarrow> validate_comparison f ins dest
         | OpLess \<Rightarrow> validate_comparison f ins dest
         | OpLessEqual \<Rightarrow> validate_comparison f ins dest
         | OpGreater \<Rightarrow> validate_comparison f ins dest
         | OpGreaterEqual \<Rightarrow> validate_comparison f ins dest
         | OpCall \<Rightarrow> validate_call f functions ins dest
         | OpSyscall \<Rightarrow> validate_syscall f ins dest
         | OpAddress \<Rightarrow> validate_address f ins dest
         | OpPointerAddress \<Rightarrow> validate_pointer_address f ins dest
         | OpLoad \<Rightarrow> validate_load f ins dest
         | OpStore \<Rightarrow> validate_store f ins
         | OpPointerAdd \<Rightarrow> validate_pointer_add f ins dest
         | OpBoundsCheck \<Rightarrow> validate_bounds_check f ins
         | OpZeroMemory \<Rightarrow> validate_zero f ins
         | OpCopyMemory \<Rightarrow> validate_copy f ins
         | OpInvalid \<Rightarrow> Some IrOpcode))"

section \<open>Functions\<close>

definition validateTerminator :: "ir_function \<Rightarrow> terminator \<Rightarrow> ir_error option" where
  "validateTerminator f t =
     (case term_Kind t of
        TermJump \<Rightarrow> ensure (Function_Block f (term_Target t) \<noteq> None) IrTerminator
      | TermBranch \<Rightarrow>
          (case Function_Value f (term_Cond t) of (condition, ok) \<Rightarrow>
             also_check (ensure (\<not> (\<not> ok \<or> value_Type condition \<noteq> TypeBool)) IrTerminator)
               (ensure (Function_Block f (term_True t) \<noteq> None \<and>
                  Function_Block f (term_False t) \<noteq> None) IrTerminator))
      | TermReturn \<Rightarrow>
          (if fn_Result f = TypeVoid then ensure (term_Result t = NoValue) IrTerminator
           else (case Function_Value f (term_Result t) of (result, ok) \<Rightarrow>
             ensure (\<not> (\<not> ok \<or> value_Type result \<noteq> fn_Result f)) IrTerminator))
      | TermInvalid \<Rightarrow> Some IrTerminator)"

definition validate_value :: "nat \<Rightarrow> ir_value \<Rightarrow> ir_error option" where
  "validate_value index v =
     also_check (ensure (value_ID v = of_nat index) IrValueTable)
     (also_check (ensure (scalar (value_Type v)) IrValueType)
       (ensure (value_Kind v \<noteq> ValueInvalid) IrValueKind))"

definition validate_parameter :: "ir_function \<Rightarrow> nat \<Rightarrow> value_id \<Rightarrow> ir_error option" where
  "validate_parameter f index i =
     (case Function_Value f i of (v, ok) \<Rightarrow>
        ensure (\<not> (\<not> ok \<or> value_Kind v \<noteq> ValueParameter)) IrParameter)"

definition validate_object :: "nat \<Rightarrow> memory_object \<Rightarrow> ir_error option" where
  "validate_object index object =
     also_check (ensure (object_ID object = of_nat index) IrMemoryTable)
     (also_check (ensure (memoryScalar (object_Element object) \<and> object_Length object \<noteq> 0 \<and>
          object_Size object \<noteq> 0) IrMemoryType)
       (ensure (object_Size object \<le> of_nat stackFrameSize) IrMemorySize))"

definition validate_block ::
  "ir_function \<Rightarrow> (string \<Rightarrow> ir_function option) \<Rightarrow> nat \<Rightarrow> basic_block \<Rightarrow> ir_error option" where
  "validate_block f functions index b =
     also_check (ensure (block_ID b = of_nat index) IrBlockTable)
     (also_check (check_each (\<lambda>i. validateInstruction f functions) 0 (block_Instructions b))
       (validateTerminator f (block_Terminator b)))"

definition validateFunction ::
  "ir_function \<Rightarrow> (string \<Rightarrow> ir_function option) \<Rightarrow> ir_error option" where
  "validateFunction f functions =
     also_check (ensure (fn_Result f = TypeVoid \<or> scalar (fn_Result f)) IrResultType)
     (also_check (ensure (\<not> is_pointer (fn_Result f)) IrPointerResult)
     (also_check (ensure (length (fn_Params f) \<le> 5) IrTooManyParameters)
     (also_check (check_each validate_value 0 (fn_Values f))
     (also_check (check_each (validate_parameter f) 0 (fn_Params f))
     (also_check (check_each validate_object 0 (fn_Memory f))
     (also_check (ensure (Function_Block f (fn_Entry f) \<noteq> None) IrEntryBlock)
       (check_each (validate_block f functions) 0 (fn_Blocks f))))))))"

section \<open>Programs\<close>

fun register_functions ::
  "ir_function list \<Rightarrow> (string \<Rightarrow> ir_function option) \<Rightarrow>
     ir_error + (string \<Rightarrow> ir_function option)" where
  "register_functions [] functions = Inr functions"
| "register_functions (f # fs) functions =
     (if fn_Name f = '''' then Inl IrFunctionNameEmpty
      else if functions (fn_Name f) \<noteq> None then Inl (IrDuplicateFunction (fn_Name f))
      else register_functions fs (functions(fn_Name f \<mapsto> f)))"

definition Program_Validate :: "order_of_effects \<Rightarrow> ir_program \<Rightarrow> ir_error option" where
  "Program_Validate ord p =
     (if prog_Package p = '''' then Some IrPackageEmpty
      else
        (case register_functions (prog_Functions p) (\<lambda>_. None) of
           Inl e \<Rightarrow> Some e
         | Inr functions \<Rightarrow>
             also_check (check_each (\<lambda>i f. validateFunction f functions) 0 (prog_Functions p))
               (map_option IrLifetime (validateStackAddressLifetimes ord p))))"

end
