(* ===== verification/RegisterAllocation.thy ===== *)
theory RegisterAllocation
  imports IrValidate
begin

text \<open>
  \<open>src/compiler/registers.go\<close>: the physical home of every virtual register and the stack offset of
  every addressable local.  Go maps keyed by identifiers are partial functions, a set is a list;
  stack sizes are Go \<open>int\<close>s below 8192 and are integers, offsets are \<open>int16\<close> bit patterns.
\<close>

abbreviation (input) spillSlotSize :: int where "spillSlotSize \<equiv> 8"

record valueLocation =
  vl_reg :: register
  vl_offset :: u16
  vl_stack :: bool

definition registerLocation :: "register \<Rightarrow> valueLocation" where
  "registerLocation r = \<lparr>vl_reg = r, vl_offset = 0, vl_stack = False\<rparr>"

definition stackLocation :: "u16 \<Rightarrow> valueLocation" where
  "stackLocation off = \<lparr>vl_reg = 0, vl_offset = off, vl_stack = True\<rparr>"

definition location_equal :: "valueLocation \<Rightarrow> valueLocation \<Rightarrow> bool" where
  "location_equal l l' =
     (if vl_stack l \<noteq> vl_stack l' then False
      else if vl_stack l then vl_offset l = vl_offset l' else vl_reg l = vl_reg l')"

record registerAllocation =
  ra_homes :: "value_id \<Rightarrow> valueLocation option"
  ra_objects :: "object_id \<Rightarrow> u16 option"

text \<open>The one way allocation fails: the frame is too small for the locals or the spill slots.\<close>

datatype allocation_error = FrameTooSmall

definition alignStack :: "int \<Rightarrow> int \<Rightarrow> int" where
  "alignStack value alignment =
     (if alignment \<le> 1 then value else (value + alignment - 1) AND NOT (alignment - 1))"

definition functionHasCall :: "ir_function \<Rightarrow> bool" where
  "functionHasCall f \<longleftrightarrow>
     (\<exists>b \<in> set (fn_Blocks f). \<exists>i \<in> set (block_Instructions b). ins_Op i = OpCall \<or> ins_Op i = OpSyscall)"

section \<open>Values returned directly\<close>

definition instruction_uses :: "ir_instruction \<Rightarrow> value_id list" where
  "instruction_uses ins =
     (let op = ins_Op ins in
      if op \<in> {OpMove, OpPointerAddress} then [ins_X ins]
      else if op \<in> {OpAdd, OpSub, OpMul, OpDiv, OpMod, OpEqual, OpNotEqual,
          OpLess, OpLessEqual, OpGreater, OpGreaterEqual} then [ins_X ins, ins_Y ins]
      else if op \<in> {OpCall, OpSyscall} then ins_Args ins
      else if op = OpLoad then [ins_X ins]
      else if op \<in> {OpStore, OpPointerAdd} then [ins_X ins, ins_Y ins]
      else if op = OpBoundsCheck then [ins_X ins]
      else [])"

definition terminator_uses :: "terminator \<Rightarrow> value_id list" where
  "terminator_uses t =
     (case term_Kind t of
        TermBranch \<Rightarrow> [term_Cond t]
      | TermReturn \<Rightarrow> (if term_Result t \<noteq> NoValue then [term_Result t] else [])
      | _ \<Rightarrow> [])"

definition function_uses :: "ir_function \<Rightarrow> value_id list" where
  "function_uses f = concat (map (\<lambda>b.
     concat (map instruction_uses (block_Instructions b)) @ terminator_uses (block_Terminator b))
     (fn_Blocks f))"

definition function_definitions :: "ir_function \<Rightarrow> value_id list" where
  "function_definitions f = filter (\<lambda>i. i \<noteq> NoValue)
     (concat (map (\<lambda>b. map ins_Dest (block_Instructions b)) (fn_Blocks f)))"

definition returned_directly :: "ir_function \<Rightarrow> basic_block \<Rightarrow> value_id option" where
  "returned_directly f b =
     (let t = block_Terminator b in
      if term_Kind t \<noteq> TermReturn \<or> term_Result t = NoValue \<or> block_Instructions b = [] then None
      else
        let lst = last (block_Instructions b); i = term_Result t in
        (case Function_Value f i of (v, ok) \<Rightarrow>
           if ok \<and> value_Kind v = ValueTemporary \<and> ins_Dest lst = i \<and>
              count_list (function_uses f) i = 1 \<and> count_list (function_definitions f) i = 1
           then Some i else None))"

definition directReturnValues :: "ir_function \<Rightarrow> value_id list" where
  "directReturnValues f = List.map_filter (returned_directly f) (fn_Blocks f)"

section \<open>Allocation\<close>

fun allocate_objects ::
  "memory_object list \<Rightarrow> int \<Rightarrow> (object_id \<Rightarrow> u16 option) \<Rightarrow>
     allocation_error + int \<times> (object_id \<Rightarrow> u16 option)" where
  "allocate_objects [] used m = Inr (used, m)"
| "allocate_objects (object # rest) used m =
     (let a = uint (memoryBytes (object_Element object));
          alignment = (if a > spillSlotSize then spillSlotSize else a);
          used' = alignStack used alignment + uint (object_Size object) in
      if used' > int stackFrameSize then Inl FrameTooSmall
      else allocate_objects rest used' (m(object_ID object \<mapsto> word_of_int (- used'))))"

definition preserved :: "register list" where
  "preserved = [R6, R7, R8, R9]"

text \<open>The closure \<open>assignPersistent\<close>; its captured variables are the state that is threaded.\<close>

definition assignPersistent ::
  "value_id list \<Rightarrow> value_id \<Rightarrow> nat \<times> int \<times> (value_id \<Rightarrow> valueLocation option) \<Rightarrow>
     allocation_error + nat \<times> int \<times> (value_id \<Rightarrow> valueLocation option)" where
  "assignPersistent fastReturns i st =
     (case st of (nextPreserved, usedStack, homes) \<Rightarrow>
        if i \<in> set fastReturns then Inr (nextPreserved, usedStack, homes(i \<mapsto> registerLocation R0))
        else if nextPreserved < length preserved then
          Inr (nextPreserved + 1, usedStack, homes(i \<mapsto> registerLocation (preserved ! nextPreserved)))
        else
          let usedStack' = usedStack + spillSlotSize in
          if usedStack' > int stackFrameSize then Inl FrameTooSmall
          else Inr (nextPreserved, usedStack', homes(i \<mapsto> stackLocation (word_of_int (- usedStack')))))"

definition parameterIndex :: "ir_function \<Rightarrow> value_id \<Rightarrow> nat option" where
  "parameterIndex f = map_of (rev (zip (fn_Params f) [0..<length (fn_Params f)]))"

fun assign_values ::
  "ir_function \<Rightarrow> ir_value list \<Rightarrow> nat \<times> int \<times> (value_id \<Rightarrow> valueLocation option) \<Rightarrow>
     allocation_error + nat \<times> int \<times> (value_id \<Rightarrow> valueLocation option)" where
  "assign_values f [] st = Inr st"
| "assign_values f (v # vs) st =
     and_then
       (case parameterIndex f (value_ID v) of
          Some index \<Rightarrow>
            if \<not> functionHasCall f \<and> index < 3 then
              (case st of (nextPreserved, usedStack, homes) \<Rightarrow>
                 Inr (nextPreserved, usedStack,
                   homes(value_ID v \<mapsto> registerLocation (of_nat (index + 1)))))
            else assignPersistent (directReturnValues f) (value_ID v) st
        | None \<Rightarrow> assignPersistent (directReturnValues f) (value_ID v) st)
       (assign_values f vs)"

definition allocateRegisters :: "ir_function \<Rightarrow> allocation_error + registerAllocation" where
  "allocateRegisters f =
     and_then (allocate_objects (fn_Memory f) 0 (\<lambda>_. None))
       (\<lambda>(used, objects).
          and_then (assign_values f (fn_Values f) (0, alignStack used spillSlotSize, \<lambda>_. None))
            (\<lambda>(_, _, homes). Inr \<lparr>ra_homes = homes, ra_objects = objects\<rparr>))"

section \<open>Stack depths\<close>

text \<open>An offset below the frame pointer is read as a depth: slot \<open>-d\<close> covers the bytes \<open>d - 8 .. d\<close>.\<close>

definition depth :: "u16 \<Rightarrow> int" where
  "depth off = - sint off"

lemma depth_of_int: "0 \<le> d \<Longrightarrow> d \<le> 4096 \<Longrightarrow> depth (word_of_int (- d)) = d"
  unfolding depth_def signed_of_int by (simp add: signed_take_bit_int_eq_self del: of_int_minus)

lemma alignStack_eq:
  assumes "a = 1 \<or> a = 4 \<or> a = 8"
  shows "alignStack v a = (v + a - 1) div a * a"
proof -
  have "(v + a - 1) AND NOT (a - 1) = (v + a - 1) div a * a" if "a = 2 ^ n" for n
  proof -
    have "(v + a - 1) AND NOT (a - 1) = (v + a - 1) AND NOT (mask n)"
      by (simp add: that mask_eq_exp_minus_1)
    also have "\<dots> = push_bit n (drop_bit n (v + a - 1))"
      by (rule bit_eqI) (auto simp: bit_simps)
    also have "\<dots> = (v + a - 1) div a * a"
      by (simp add: that push_bit_eq_mult drop_bit_eq_div)
    finally show ?thesis .
  qed
  from this [of 2] this [of 3] assms show ?thesis by (auto simp: alignStack_def)
qed

lemma alignStack_ge:
  assumes "a = 1 \<or> a = 4 \<or> a = 8"
  shows "v \<le> alignStack v a" and "alignStack v a mod a = 0" and "alignStack v a < v + a"
  using assms unfolding alignStack_eq [OF assms] by auto

end
