(* ===== verification/Backend.thy ===== *)
theory Backend
  imports RegisterAllocation SbpfCodec
begin

text \<open>
  \<open>src/compiler/backend.go\<close>: instruction selection from validated IR to sBPF, and the patching of
  jumps and calls.

  The selector's emitters only append to its program, so the ones that emit no jump or call between
  blocks are functions from the IR to the list of instructions they append; the current function
  and its allocation, fields of the Go selector, are their arguments.  The emitters that record a fixup,
  and everything above them, pass the selector state.  A failed emitter makes \<open>Generate\<close> return
  its error, so what it had appended before does not matter.
\<close>

section \<open>Errors and state\<close>

datatype backend_error =
    BadIr ir_error | NoFunctions | NoEntry | BadFrame
  | NoHome | BadNormalize | BadComparison | BadMemoryType | BadObject | BadAccess sbpf_error
  | BadOpcode | BadTerminator
  | UnknownBlock | JumpTooFar | UnknownFunction | CallTooFar
  | BadProgram sbpf_error
  | HandlerMissing | HandlerParameters | HandlerResult

datatype fixupKind = fixupJump | fixupCall

record codeFixup =
  fix_kind :: fixupKind
  fix_index :: nat
  fix_sourcePC :: int
  fix_function :: string
  fix_block :: block_id
  fix_owner :: string

record selector =
  sel_program :: "instruction list"
  sel_pc :: int
  sel_functions :: "string \<Rightarrow> int option"
  sel_blocks :: "string \<Rightarrow> (block_id \<Rightarrow> int option) option"
  sel_fixups :: "codeFixup list"

record Executable =
  exe_Entry :: string
  exe_Instructions :: "instruction list"
  exe_Bytecode :: bytes
  exe_Functions :: "string \<Rightarrow> int option"

type_synonym code = "backend_error + instruction list"

definition emit :: "instruction \<Rightarrow> selector \<Rightarrow> selector" where
  "emit ins s = s\<lparr>sel_program := sel_program s @ [ins], sel_pc := sel_pc s + Slots ins\<rparr>"

definition emit_code :: "instruction list \<Rightarrow> selector \<Rightarrow> selector" where
  "emit_code code s = foldl (\<lambda>s ins. emit ins s) s code"

section \<open>Reading and writing homes\<close>

text \<open>A missing map entry is the zero location, register \<open>r0\<close>.\<close>

definition home :: "registerAllocation \<Rightarrow> value_id \<Rightarrow> valueLocation" where
  "home a i = (case ra_homes a i of Some l \<Rightarrow> l | None \<Rightarrow> \<lparr>vl_reg = R0, vl_offset = 0, vl_stack = False\<rparr>)"

definition home_target :: "valueLocation \<Rightarrow> register" where
  "home_target l = (if \<not> vl_stack l then vl_reg l else R0)"

definition load_slot :: "register \<Rightarrow> u16 \<Rightarrow> instruction" where
  "load_slot r off = plain LD_DW_REG r R10 off 0"

definition store_slot :: "register \<Rightarrow> u16 \<Rightarrow> instruction" where
  "store_slot r off = plain ST_DW_REG R10 r off 0"

definition store_home :: "valueLocation \<Rightarrow> register \<Rightarrow> instruction list" where
  "store_home l target = (if vl_stack l then [store_slot target (vl_offset l)] else [])"

definition readValue :: "registerAllocation \<Rightarrow> value_id \<Rightarrow> register \<Rightarrow> code" where
  "readValue a i target =
     (case ra_homes a i of
        None \<Rightarrow> Inl NoHome
      | Some l \<Rightarrow>
          Inr (if vl_stack l then [load_slot target (vl_offset l)]
               else if vl_reg l \<noteq> target then [ALUReg MOV64_REG target (vl_reg l)] else []))"

definition writeValue :: "registerAllocation \<Rightarrow> value_id \<Rightarrow> register \<Rightarrow> code" where
  "writeValue a i source =
     (case ra_homes a i of
        None \<Rightarrow> Inl NoHome
      | Some l \<Rightarrow>
          Inr (if vl_stack l then [store_slot source (vl_offset l)]
               else if vl_reg l \<noteq> source then [ALUReg MOV64_REG (vl_reg l) source] else []))"

definition normalizeRegister :: "ir_type \<Rightarrow> register \<Rightarrow> code" where
  "normalizeRegister t r =
     (if t = TypeUint8 then
        Inr [ALUReg MOV32_REG r r, ALUImm LSH32_IMM r 24, ALUImm RSH32_IMM r 24]
      else if t = TypeUint32 then Inr [ALUReg MOV32_REG r r]
      else if t = TypeInt32 then
        Inr [ALUReg MOV32_REG r r, ALUImm LSH64_IMM r 32, ALUImm ARSH64_IMM r 32]
      else if t = TypeUint64 \<or> t = TypeInt64 \<or> t = TypeBool then Inr []
      else if snd (PointerElement t) then Inr [] else Inl BadNormalize)"

definition value_type :: "ir_function \<Rightarrow> value_id \<Rightarrow> ir_type" where
  "value_type f i = value_Type (fst (Function_Value f i))"

section \<open>Straight-line operations\<close>

definition emitConstant :: "ir_function \<Rightarrow> registerAllocation \<Rightarrow> value_id \<Rightarrow> u64 \<Rightarrow> code" where
  "emitConstant f a destination v =
     (case ra_homes a destination of
        None \<Rightarrow> Inl NoHome
      | Some l \<Rightarrow>
          let target = home_target l;
              load = (if v = scast (ucast v :: u32) then ALUImm MOV64_IMM target (ucast v)
                      else LoadImm64 target v)
          in and_then (normalizeRegister (value_type f destination) target)
               (\<lambda>n. Inr (load # n @ store_home l target)))"

definition moveValue :: "ir_function \<Rightarrow> registerAllocation \<Rightarrow> value_id \<Rightarrow> value_id \<Rightarrow> code" where
  "moveValue f a destination source =
     (case (ra_homes a destination, ra_homes a source) of
        (Some l, Some l') \<Rightarrow>
          if location_equal l l' \<and> value_type f destination = value_type f source then Inr []
          else
            let target = home_target l in
            and_then (readValue a source target)
              (\<lambda>r. and_then (normalizeRegister (value_type f destination) target)
                (\<lambda>n. Inr (r @ n @ store_home l target)))
      | _ \<Rightarrow> Inl NoHome)"

definition opcode64 :: "ir_op \<Rightarrow> opcode" where
  "opcode64 op = (case op of OpAdd \<Rightarrow> ADD64_REG | OpSub \<Rightarrow> SUB64_REG | OpMul \<Rightarrow> MUL64_REG
     | OpDiv \<Rightarrow> DIV64_REG | OpMod \<Rightarrow> MOD64_REG | _ \<Rightarrow> 0)"

definition opcode32 :: "ir_op \<Rightarrow> opcode" where
  "opcode32 op = (case op of OpAdd \<Rightarrow> ADD32_REG | OpSub \<Rightarrow> SUB32_REG | OpMul \<Rightarrow> MUL32_REG
     | OpDiv \<Rightarrow> DIV32_REG | OpMod \<Rightarrow> MOD32_REG | _ \<Rightarrow> 0)"

text \<open>A type of at most 32 bits.\<close>

definition narrow :: "ir_type \<Rightarrow> bool" where
  "narrow t \<longleftrightarrow> type_bits t \<noteq> 0 \<and> type_bits t \<le> 32"

definition emitArithmetic :: "ir_function \<Rightarrow> registerAllocation \<Rightarrow> ir_instruction \<Rightarrow> code" where
  "emitArithmetic f a ins =
     (let destination = home a (ins_Dest ins); x = home a (ins_X ins); y = home a (ins_Y ins);
          target = home_target destination;
          (ycode, yRegister) =
            (if \<not> vl_stack y then
               (if vl_reg y = target \<and> \<not> location_equal x destination
                then ([ALUReg MOV64_REG R4 (vl_reg y)], R4) else ([], vl_reg y))
             else ([load_slot R4 (vl_offset y)], R4));
          xcode = (if vl_stack x then [load_slot target (vl_offset x)]
                   else if vl_reg x \<noteq> target then [ALUReg MOV64_REG target (vl_reg x)] else []);
          t = value_type f (ins_Dest ins);
          opcode = (if narrow t then opcode32 (ins_Op ins) else opcode64 (ins_Op ins))
      in and_then (normalizeRegister t target)
           (\<lambda>n. Inr (ycode @ xcode @ [ALUReg opcode target yRegister] @ n @ store_home destination target)))"

definition division_code :: "ir_op \<Rightarrow> bool \<Rightarrow> instruction list" where
  "division_code op bits32 =
     (let negativeJump = (if bits32 then JSLT32_IMM else JSLT64_IMM);
          nonnegativeJump = (if bits32 then JSGE32_IMM else JSGE64_IMM);
          negate = (if bits32 then NEG32 else NEG64);
          divide = (if bits32 then DIV32_REG else DIV64_REG);
          remainder = (if bits32 then MOD32_REG else MOD64_REG)
      in [ALUReg MOV64_REG R5 R0] @
         (if op = OpDiv then [ALUReg (if bits32 then XOR32_REG else XOR64_REG) R5 R4] else []) @
         [JumpImm nonnegativeJump R0 0 1, plain negate R0 0 0 0,
          JumpImm nonnegativeJump R4 0 1, plain negate R4 0 0 0,
          ALUReg (if op = OpMod then remainder else divide) R0 R4,
          JumpImm negativeJump R5 0 1, Jump 1, plain negate R0 0 0 0])"

definition emitSignedDivisionOrRemainder ::
  "ir_function \<Rightarrow> registerAllocation \<Rightarrow> ir_instruction \<Rightarrow> code" where
  "emitSignedDivisionOrRemainder f a ins =
     and_then (readValue a (ins_X ins) R0) (\<lambda>cx. and_then (readValue a (ins_Y ins) R4) (\<lambda>cy.
       let t = value_type f (ins_Dest ins); bits32 = (type_bits t = 32) in
       and_then (normalizeRegister t R0) (\<lambda>n. and_then (writeValue a (ins_Dest ins) R0) (\<lambda>w.
         Inr (cx @ cy @ division_code (ins_Op ins) bits32 @ n @ w)))))"

definition comparisonOpcode :: "ir_op \<Rightarrow> ir_type \<Rightarrow> backend_error + opcode" where
  "comparisonOpcode operation t =
     (let signed = signed_type t; bits32 = narrow t in
      case operation of
        OpEqual \<Rightarrow> Inr (if bits32 then JEQ32_REG else JEQ64_REG)
      | OpNotEqual \<Rightarrow> Inr (if bits32 then JNE32_REG else JNE64_REG)
      | OpLess \<Rightarrow> Inr (if bits32 \<and> signed then JSLT32_REG else if bits32 then JLT32_REG
                       else if signed then JSLT64_REG else JLT64_REG)
      | OpLessEqual \<Rightarrow> Inr (if bits32 \<and> signed then JSLE32_REG else if bits32 then JLE32_REG
                       else if signed then JSLE64_REG else JLE64_REG)
      | OpGreater \<Rightarrow> Inr (if bits32 \<and> signed then JSGT32_REG else if bits32 then JGT32_REG
                       else if signed then JSGT64_REG else JGT64_REG)
      | OpGreaterEqual \<Rightarrow> Inr (if bits32 \<and> signed then JSGE32_REG else if bits32 then JGE32_REG
                       else if signed then JSGE64_REG else JGE64_REG)
      | _ \<Rightarrow> Inl BadComparison)"

definition comparison_code :: "opcode \<Rightarrow> instruction list" where
  "comparison_code opcode =
     [ALUImm MOV64_IMM R5 0, JumpReg opcode R0 R4 1, Jump 1, ALUImm MOV64_IMM R5 1]"

definition emitComparison :: "ir_function \<Rightarrow> registerAllocation \<Rightarrow> ir_instruction \<Rightarrow> code" where
  "emitComparison f a ins =
     and_then (readValue a (ins_X ins) R0) (\<lambda>cx. and_then (readValue a (ins_Y ins) R4) (\<lambda>cy.
       and_then (comparisonOpcode (ins_Op ins) (value_type f (ins_X ins))) (\<lambda>opcode.
       and_then (writeValue a (ins_Dest ins) R5) (\<lambda>w.
         Inr (cx @ cy @ comparison_code opcode @ w)))))"

section \<open>Memory\<close>

fun sbpfMemoryType :: "ir_memory \<Rightarrow> backend_error + memory_type" where
  "sbpfMemoryType IrMemBool = Inr MemoryByte"
| "sbpfMemoryType IrMemUint8 = Inr MemoryByte"
| "sbpfMemoryType IrMemByte = Inr MemoryByte"
| "sbpfMemoryType IrMemUint16 = Inr MemoryHalf"
| "sbpfMemoryType IrMemUint32 = Inr MemoryWord"
| "sbpfMemoryType IrMemInt32 = Inr MemoryWord"
| "sbpfMemoryType IrMemUint64 = Inr MemoryDoubleWord"
| "sbpfMemoryType IrMemInt64 = Inr MemoryDoubleWord"
| "sbpfMemoryType IrMemInvalid = Inl BadMemoryType"

definition access :: "sbpf_error + instruction \<Rightarrow> backend_error + instruction" where
  "access r = (case r of Inl e \<Rightarrow> Inl (BadAccess e) | Inr i \<Rightarrow> Inr i)"

definition emitAddress :: "registerAllocation \<Rightarrow> ir_instruction \<Rightarrow> code" where
  "emitAddress a ins =
     (case ra_objects a (ins_Object ins) of
        None \<Rightarrow> Inl BadObject
      | Some off \<Rightarrow>
          let l = home a (ins_Dest ins); target = home_target l in
          Inr ([ALUReg MOV64_REG target R10] @
               (if off \<noteq> 0 then [ALUImm ADD64_IMM target (scast off)] else []) @
               store_home l target))"

definition emitLoad :: "ir_function \<Rightarrow> registerAllocation \<Rightarrow> ir_instruction \<Rightarrow> code" where
  "emitLoad f a ins =
     and_then (readValue a (ins_X ins) R4) (\<lambda>cx.
       let l = home a (ins_Dest ins); target = home_target l; t = value_type f (ins_Dest ins) in
       and_then (sbpfMemoryType (ins_Memory ins)) (\<lambda>kind.
       and_then (access (LoadMemory kind target R4 0)) (\<lambda>ld.
       and_then (normalizeRegister t target) (\<lambda>n.
         Inr (cx @ [ld] @ n @
           (if t = TypeBool then [JumpImm JEQ64_IMM target 0 1, ALUImm MOV64_IMM target 1] else []) @
           store_home l target)))))"

definition emitStore :: "registerAllocation \<Rightarrow> ir_instruction \<Rightarrow> code" where
  "emitStore a ins =
     and_then (readValue a (ins_X ins) R4) (\<lambda>cx. and_then (readValue a (ins_Y ins) R5) (\<lambda>cy.
       and_then (sbpfMemoryType (ins_Memory ins)) (\<lambda>kind.
       and_then (access (StoreMemory kind R4 R5 0)) (\<lambda>st. Inr (cx @ cy @ [st])))))"

definition emitPointerAdd :: "registerAllocation \<Rightarrow> ir_instruction \<Rightarrow> code" where
  "emitPointerAdd a ins =
     and_then (readValue a (ins_X ins) R0) (\<lambda>cx. and_then (readValue a (ins_Y ins) R4) (\<lambda>cy.
       and_then (writeValue a (ins_Dest ins) R0) (\<lambda>w.
         Inr (cx @ cy @
           (if ins_Scale ins \<noteq> 1 then [ALUImm MUL64_IMM R4 (ins_Scale ins)] else []) @
           [ALUReg ADD64_REG R0 R4] @ w))))"

definition bounds_code :: "ir_type \<Rightarrow> u64 \<Rightarrow> instruction list" where
  "bounds_code t imm =
     (let unsignedLess = (if narrow t then JLT32_REG else JLT64_REG);
          signedLessZero = (if narrow t then JSLT32_IMM else JSLT64_IMM)
      in [if imm \<le> 0x7fffffff then ALUImm MOV64_IMM R4 (ucast imm) else LoadImm64 R4 imm] @
         (if signed_type t then [JumpImm signedLessZero R0 0 1] else []) @
         [JumpReg unsignedLess R0 R4 2, ALUImm MOV64_IMM R5 0, ALUReg DIV64_REG R5 R5])"

definition emitBoundsCheck :: "ir_function \<Rightarrow> registerAllocation \<Rightarrow> ir_instruction \<Rightarrow> code" where
  "emitBoundsCheck f a ins =
     and_then (readValue a (ins_X ins) R0) (\<lambda>cx.
       Inr (cx @ bounds_code (value_type f (ins_X ins)) (ins_Imm ins)))"

text \<open>The offsets \<open>for offset := 0; offset < size; offset += width\<close>; the width is at least one.\<close>

function offsets_from :: "nat \<Rightarrow> nat \<Rightarrow> nat \<Rightarrow> nat list" where
  "offsets_from offset limit width =
     (if width = 0 \<or> offset \<ge> limit then [] else offset # offsets_from (offset + width) limit width)"
  by pat_completeness auto
termination by (relation "measure (\<lambda>(offset, limit, width). limit - offset)") auto

declare offsets_from.simps [simp del]

fun collect :: "('e + 'a) list \<Rightarrow> 'e + 'a list" where
  "collect [] = Inr []"
| "collect (r # rs) = and_then r (\<lambda>x. and_then (collect rs) (\<lambda>xs. Inr (x # xs)))"

definition emitZeroMemory :: "ir_function \<Rightarrow> registerAllocation \<Rightarrow> ir_instruction \<Rightarrow> code" where
  "emitZeroMemory f a ins =
     (case (Function_MemoryObject f (ins_Object ins), ra_objects a (ins_Object ins)) of
        (Some object, Some base) \<Rightarrow>
          and_then (sbpfMemoryType (memoryTypeFor (object_Element object))) (\<lambda>kind.
          and_then (collect (map (\<lambda>offset. access (StoreMemory kind R10 R0 (base + of_nat offset)))
              (offsets_from 0 (unat (object_Size object)) (unat (MemoryType_Bytes kind)))))
            (\<lambda>stores. Inr (ALUImm MOV64_IMM R0 0 # stores)))
      | _ \<Rightarrow> Inl BadObject)"

definition emitCopyMemory :: "ir_function \<Rightarrow> registerAllocation \<Rightarrow> ir_instruction \<Rightarrow> code" where
  "emitCopyMemory f a ins =
     (case (Function_MemoryObject f (ins_Object ins), Function_MemoryObject f (ins_SourceObject ins)) of
        (Some destination, Some source) \<Rightarrow>
          if object_Element destination \<noteq> object_Element source \<or>
             object_Length destination \<noteq> object_Length source then Inl BadObject
          else
            (case (ra_objects a (ins_Object ins), ra_objects a (ins_SourceObject ins)) of
               (Some destinationBase, Some sourceBase) \<Rightarrow>
                 and_then (sbpfMemoryType (memoryTypeFor (object_Element destination))) (\<lambda>kind.
                 and_then (collect (map (\<lambda>offset.
                     and_then (access (LoadMemory kind R0 R10 (sourceBase + of_nat offset))) (\<lambda>ld.
                     and_then (access (StoreMemory kind R10 R0 (destinationBase + of_nat offset))) (\<lambda>st.
                       Inr [ld, st])))
                     (offsets_from 0 (unat (object_Size destination)) (unat (MemoryType_Bytes kind)))))
                   (\<lambda>pairs. Inr (concat pairs)))
             | _ \<Rightarrow> Inl BadObject)
      | _ \<Rightarrow> Inl BadObject)"

section \<open>One IR instruction\<close>

text \<open>\<open>readValue(argument, index + 1)\<close> for each argument in turn.\<close>

fun read_arguments :: "registerAllocation \<Rightarrow> nat \<Rightarrow> value_id list \<Rightarrow> code" where
  "read_arguments a index [] = Inr []"
| "read_arguments a index (i # is) =
     and_then (readValue a i (of_nat (index + 1))) (\<lambda>c.
       and_then (read_arguments a (Suc index) is) (\<lambda>cs. Inr (c @ cs)))"

definition write_result :: "registerAllocation \<Rightarrow> value_id \<Rightarrow> code" where
  "write_result a i = (if i \<noteq> NoValue then writeValue a i R0 else Inr [])"

definition append_code :: "code \<Rightarrow> selector \<Rightarrow> backend_error + selector" where
  "append_code c s = and_then c (\<lambda>code. Inr (emit_code code s))"

definition emit_call ::
  "ir_function \<Rightarrow> registerAllocation \<Rightarrow> ir_instruction \<Rightarrow> selector \<Rightarrow> backend_error + selector" where
  "emit_call f a ins s =
     and_then (append_code (read_arguments a 0 (ins_Args ins)) s) (\<lambda>s.
       let index = length (sel_program s);
           s1 = emit (CallRelative 0) s;
           s2 = s1\<lparr>sel_fixups := sel_fixups s1 @
             [\<lparr>fix_kind = fixupCall, fix_index = index, fix_sourcePC = sel_pc s1 - 1,
               fix_function = ins_Callee ins, fix_block = 0, fix_owner = fn_Name f\<rparr>]\<rparr>
       in append_code (write_result a (ins_Dest ins)) s2)"

definition instruction_code :: "ir_function \<Rightarrow> registerAllocation \<Rightarrow> ir_instruction \<Rightarrow> code" where
  "instruction_code f a ins =
     (case ins_Op ins of
        OpConst \<Rightarrow> emitConstant f a (ins_Dest ins) (ins_Imm ins)
      | OpMove \<Rightarrow> moveValue f a (ins_Dest ins) (ins_X ins)
      | OpAdd \<Rightarrow> emitArithmetic f a ins
      | OpSub \<Rightarrow> emitArithmetic f a ins
      | OpMul \<Rightarrow> emitArithmetic f a ins
      | OpDiv \<Rightarrow> (if signed_type (value_type f (ins_Dest ins))
                 then emitSignedDivisionOrRemainder f a ins else emitArithmetic f a ins)
      | OpMod \<Rightarrow> (if signed_type (value_type f (ins_Dest ins))
                 then emitSignedDivisionOrRemainder f a ins else emitArithmetic f a ins)
      | OpEqual \<Rightarrow> emitComparison f a ins
      | OpNotEqual \<Rightarrow> emitComparison f a ins
      | OpLess \<Rightarrow> emitComparison f a ins
      | OpLessEqual \<Rightarrow> emitComparison f a ins
      | OpGreater \<Rightarrow> emitComparison f a ins
      | OpGreaterEqual \<Rightarrow> emitComparison f a ins
      | OpSyscall \<Rightarrow>
          and_then (read_arguments a 0 (ins_Args ins)) (\<lambda>args.
          and_then (write_result a (ins_Dest ins)) (\<lambda>w.
            Inr (args @ [StaticSyscall (ins_SyscallID ins)] @ w)))
      | OpAddress \<Rightarrow> emitAddress a ins
      | OpPointerAddress \<Rightarrow> moveValue f a (ins_Dest ins) (ins_X ins)
      | OpLoad \<Rightarrow> emitLoad f a ins
      | OpStore \<Rightarrow> emitStore a ins
      | OpPointerAdd \<Rightarrow> emitPointerAdd a ins
      | OpBoundsCheck \<Rightarrow> emitBoundsCheck f a ins
      | OpZeroMemory \<Rightarrow> emitZeroMemory f a ins
      | OpCopyMemory \<Rightarrow> emitCopyMemory f a ins
      | _ \<Rightarrow> Inl BadOpcode)"

definition emitIRInstruction ::
  "ir_function \<Rightarrow> registerAllocation \<Rightarrow> ir_instruction \<Rightarrow> selector \<Rightarrow> backend_error + selector" where
  "emitIRInstruction f a ins s =
     (if ins_Op ins = OpCall then emit_call f a ins s else append_code (instruction_code f a ins) s)"

section \<open>Blocks and functions\<close>

definition emitBlockJump :: "ir_function \<Rightarrow> instruction \<Rightarrow> block_id \<Rightarrow> selector \<Rightarrow> selector" where
  "emitBlockJump f ins target s =
     (let sourcePC = sel_pc s; index = length (sel_program s); s1 = emit ins s in
      s1\<lparr>sel_fixups := sel_fixups s1 @
        [\<lparr>fix_kind = fixupJump, fix_index = index, fix_sourcePC = sourcePC,
          fix_function = '''', fix_block = target, fix_owner = fn_Name f\<rparr>]\<rparr>)"

definition emitTerminator ::
  "ir_function \<Rightarrow> registerAllocation \<Rightarrow> terminator \<Rightarrow> selector \<Rightarrow> backend_error + selector" where
  "emitTerminator f a t s =
     (case term_Kind t of
        TermJump \<Rightarrow> Inr (emitBlockJump f (Jump 0) (term_Target t) s)
      | TermBranch \<Rightarrow>
          let condition = home a (term_Cond t);
              conditionRegister = (if vl_stack condition then R0 else vl_reg condition);
              s1 = (if vl_stack condition then emit (load_slot R0 (vl_offset condition)) s else s)
          in Inr (emitBlockJump f (Jump 0) (term_False t)
               (emitBlockJump f (JumpImm JNE64_IMM conditionRegister 0 0) (term_True t) s1))
      | TermReturn \<Rightarrow>
          and_then (append_code
              (if term_Result t = NoValue then Inr [ALUImm MOV64_IMM R0 0]
               else readValue a (term_Result t) R0) s)
            (\<lambda>s1. Inr (emit Return s1))
      | TermInvalid \<Rightarrow> Inl BadTerminator)"

fun emit_instructions ::
  "ir_function \<Rightarrow> registerAllocation \<Rightarrow> ir_instruction list \<Rightarrow> selector \<Rightarrow> backend_error + selector" where
  "emit_instructions f a [] s = Inr s"
| "emit_instructions f a (ins # rest) s =
     and_then (emitIRInstruction f a ins s) (emit_instructions f a rest)"

definition emit_block ::
  "ir_function \<Rightarrow> registerAllocation \<Rightarrow> basic_block \<Rightarrow> selector \<Rightarrow> backend_error + selector" where
  "emit_block f a b s =
     (let placed = (case sel_blocks s (fn_Name f) of None \<Rightarrow> (\<lambda>_. None) | Some m \<Rightarrow> m);
          s1 = s\<lparr>sel_blocks := (sel_blocks s)(fn_Name f \<mapsto> placed(block_ID b \<mapsto> sel_pc s))\<rparr> in
      and_then (emit_instructions f a (block_Instructions b) s1)
        (emitTerminator f a (block_Terminator b)))"

fun emit_blocks ::
  "ir_function \<Rightarrow> registerAllocation \<Rightarrow> basic_block list \<Rightarrow> selector \<Rightarrow> backend_error + selector" where
  "emit_blocks f a [] s = Inr s"
| "emit_blocks f a (b # bs) s = and_then (emit_block f a b s) (emit_blocks f a bs)"

text \<open>Each ABI parameter is normalised in its argument register and moved to its home.\<close>

fun parameter_code :: "ir_function \<Rightarrow> registerAllocation \<Rightarrow> nat \<Rightarrow> value_id list \<Rightarrow> code" where
  "parameter_code f a index [] = Inr []"
| "parameter_code f a index (i # is) =
     and_then (normalizeRegister (value_type f i) (of_nat (index + 1))) (\<lambda>n.
     and_then (writeValue a i (of_nat (index + 1))) (\<lambda>w.
     and_then (parameter_code f a (Suc index) is) (\<lambda>c. Inr (n @ w @ c))))"

definition block_order :: "ir_function \<Rightarrow> basic_block list" where
  "block_order f =
     (case Function_Block f (fn_Entry f) of None \<Rightarrow> [] | Some entry \<Rightarrow> [entry]) @
     filter (\<lambda>b. block_ID b \<noteq> fn_Entry f) (fn_Blocks f)"

definition emitFunction :: "ir_function \<Rightarrow> selector \<Rightarrow> backend_error + selector" where
  "emitFunction f s =
     (case allocateRegisters f of
        Inl e \<Rightarrow> Inl BadFrame
      | Inr a \<Rightarrow>
          let s1 = s\<lparr>sel_blocks := (sel_blocks s)(fn_Name f \<mapsto> (\<lambda>_. None)),
                     sel_functions := (sel_functions s)(fn_Name f \<mapsto> sel_pc s)\<rparr>
          in and_then (append_code (parameter_code f a 0 (fn_Params f)) s1)
               (emit_blocks f a (block_order f)))"

fun emit_functions :: "ir_function list \<Rightarrow> selector \<Rightarrow> backend_error + selector" where
  "emit_functions [] s = Inr s"
| "emit_functions (f # fs) s = and_then (emitFunction f s) (emit_functions fs)"

section \<open>Fixups\<close>

definition patch_one :: "selector \<Rightarrow> codeFixup \<Rightarrow> instruction list \<Rightarrow> backend_error + instruction list" where
  "patch_one s fixup p =
     (let ins = p ! fix_index fixup in
      case fix_kind fixup of
        fixupJump \<Rightarrow>
          (case (case sel_blocks s (fix_owner fixup) of None \<Rightarrow> None | Some m \<Rightarrow> m (fix_block fixup)) of
             None \<Rightarrow> Inl UnknownBlock
           | Some targetPC \<Rightarrow>
               (case RelativeOffset (fix_sourcePC fixup) targetPC of
                  Inl e \<Rightarrow> Inl JumpTooFar
                | Inr offset \<Rightarrow>
                    if sint offset < - (2 ^ 15) \<or> sint offset > 2 ^ 15 - 1 then Inl JumpTooFar
                    else Inr (p[fix_index fixup := ins\<lparr>Offset := ucast offset\<rparr>])))
      | fixupCall \<Rightarrow>
          (case sel_functions s (fix_function fixup) of
             None \<Rightarrow> Inl UnknownFunction
           | Some targetPC \<Rightarrow>
               (case RelativeOffset (fix_sourcePC fixup) targetPC of
                  Inl e \<Rightarrow> Inl CallTooFar
                | Inr offset \<Rightarrow> Inr (p[fix_index fixup := ins\<lparr>Immediate := scast offset\<rparr>]))))"

fun patch_all :: "selector \<Rightarrow> codeFixup list \<Rightarrow> instruction list \<Rightarrow> backend_error + instruction list" where
  "patch_all s [] p = Inr p"
| "patch_all s (fixup # rest) p = and_then (patch_one s fixup p) (patch_all s rest)"

definition patchFixups :: "selector \<Rightarrow> backend_error + selector" where
  "patchFixups s =
     and_then (patch_all s (sel_fixups s) (sel_program s)) (\<lambda>p. Inr (s\<lparr>sel_program := p\<rparr>))"

section \<open>Programs\<close>

definition called_functions :: "ir_function \<Rightarrow> string list" where
  "called_functions f =
     concat (map (\<lambda>b. map ins_Callee (filter (\<lambda>i. ins_Op i = OpCall) (block_Instructions b))) (fn_Blocks f))"

text \<open>
  The recursive closure \<open>visit\<close>, with its call stack as a list of names still to visit: depth first
  and in the order of the calls.
\<close>

function visit :: "ir_program \<Rightarrow> string list \<Rightarrow> string list \<Rightarrow> string list" where
  "visit p seen [] = seen"
| "visit p seen (name # rest) =
     (case Program_Function p name of
        None \<Rightarrow> visit p seen rest
      | Some f \<Rightarrow>
          if name \<in> set seen then visit p seen rest
          else visit p (name # seen) (called_functions f @ rest))"
  by pat_completeness auto
termination
proof (relation "measures [\<lambda>(p, seen, todo). card (fn_Name ` set (prog_Functions p) - set seen),
    \<lambda>(p, seen, todo). length todo]", goal_cases)
  case (4 p seen name rest f)
  then have "name \<in> fn_Name ` set (prog_Functions p) - set seen"
    by (auto simp: Program_Function_def dest: find_function_Some)
  then have "fn_Name ` set (prog_Functions p) - set (name # seen) \<subset>
      fn_Name ` set (prog_Functions p) - set seen" by auto
  then have "card (fn_Name ` set (prog_Functions p) - set (name # seen)) <
      card (fn_Name ` set (prog_Functions p) - set seen)" by (intro psubset_card_mono) auto
  then show ?case by simp
qed auto

definition reachableFunctions :: "ir_program \<Rightarrow> ir_function \<Rightarrow> string list" where
  "reachableFunctions p entry = visit p [] [fn_Name entry]"

definition empty_selector :: selector where
  "empty_selector = \<lparr>sel_program = [], sel_pc = 0, sel_functions = (\<lambda>_. None),
     sel_blocks = (\<lambda>_. None), sel_fixups = []\<rparr>"

definition function_order :: "ir_program \<Rightarrow> ir_function \<Rightarrow> ir_function list" where
  "function_order p entry =
     entry # filter (\<lambda>f. fn_Name f \<noteq> fn_Name entry \<and> fn_Name f \<in> set (reachableFunctions p entry))
       (prog_Functions p)"

definition generate_code :: "ir_program \<Rightarrow> ir_function \<Rightarrow> backend_error + selector" where
  "generate_code p entry =
     and_then (emit_functions (function_order p entry) empty_selector) patchFixups"

definition Generate :: "order_of_effects \<Rightarrow> ir_program \<Rightarrow> string \<Rightarrow> backend_error + Executable" where
  "Generate ord p entry =
     (case Program_Validate ord p of
        Some e \<Rightarrow> Inl (BadIr e)
      | None \<Rightarrow>
          if entry = '''' \<and> prog_Functions p = [] then Inl NoFunctions
          else
            let name = (if entry = '''' then fn_Name (hd (prog_Functions p)) else entry) in
            (case Program_Function p name of
               None \<Rightarrow> Inl NoEntry
             | Some entryFunction \<Rightarrow>
                 and_then (generate_code p entryFunction) (\<lambda>s.
                   (case Encode (sel_program s) of
                      Inl e \<Rightarrow> Inl (BadProgram e)
                    | Inr bytecode \<Rightarrow>
                        Inr \<lparr>exe_Entry = name, exe_Instructions = sel_program s,
                          exe_Bytecode = bytecode, exe_Functions = sel_functions s\<rparr>))))"

section \<open>The Solana entrypoint\<close>

definition handler_ok :: "ir_function \<Rightarrow> backend_error option" where
  "handler_ok f =
     (if length (fn_Params f) \<noteq> 2 then Some HandlerParameters
      else if \<exists>i \<in> set (fn_Params f). \<not> (snd (Function_Value f i) \<and>
          value_Type (fst (Function_Value f i)) = TypeUint64) then Some HandlerParameters
      else if fn_Result f \<noteq> TypeUint64 then Some HandlerResult else None)"

definition GenerateSolanaEntrypoint ::
  "order_of_effects \<Rightarrow> ir_program \<Rightarrow> string \<Rightarrow> backend_error + Executable" where
  "GenerateSolanaEntrypoint ord p handler =
     (let name = (if handler = '''' then ''Program'' else handler) in
      case Program_Function p name of
        None \<Rightarrow> Inl HandlerMissing
      | Some f \<Rightarrow>
          (case handler_ok f of
             Some e \<Rightarrow> Inl e
           | None \<Rightarrow>
               and_then (Generate ord p name) (\<lambda>exe.
                 let instructions = [CallRelative 1, Return] @ exe_Instructions exe in
                 (case Encode instructions of
                    Inl e \<Rightarrow> Inl (BadProgram e)
                  | Inr bytecode \<Rightarrow>
                      Inr \<lparr>exe_Entry = ''entrypoint'', exe_Instructions = instructions,
                        exe_Bytecode = bytecode,
                        exe_Functions = (\<lambda>n. case exe_Functions exe n of
                          Some pc \<Rightarrow> Some (pc + 2)
                        | None \<Rightarrow> [''entrypoint'' \<mapsto> 0] n)\<rparr>))))"

end
