(* ===== verification/VmFragment.thy ===== *)
theory VmFragment
  imports VmSafety
begin

text \<open>
  Running a piece of straight-line code with local forward jumps inside a larger program.  \<open>frag\<close>
  runs the piece on its own, with relative displacements in place of program counters; \<open>frag_runs\<close>
  shows that the interpreter, started at the piece, does the same and leaves it at its end.  What the
  compiler emits for one IR operation is such a piece.
\<close>

section \<open>Several steps\<close>

fun advance :: "nat \<Rightarrow> VM \<Rightarrow> runState \<Rightarrow> turn" where
  "advance 0 m s = Next s"
| "advance (Suc n) m s = (case step m s of Done r t \<Rightarrow> Done r t | Next t \<Rightarrow> advance n m t)"

lemma advance_add: "advance n m s = Next t \<Longrightarrow> advance (n + k) m s = advance k m t"
  by (induction n arbitrary: s) (auto split: turn.splits)

text \<open>As long as the instruction limit allows them, these are the steps of \<open>execute\<close>.\<close>

lemma execute_advance:
  assumes "advance n m s = Next t" and "steps s + int n \<le> MaxInstructions (vm_config m)"
  shows "execute m s = execute m t"
  using assms
proof (induction n arbitrary: s)
  case (Suc n)
  then obtain u where u: "step m s = Next u" "advance n m u = Next t"
    by (auto split: turn.splits)
  then have "execute m u = execute m t" using Suc by (simp add: step_steps)
  then show ?case using u Suc.prems(2) by (subst execute.simps) simp
qed simp

lemma execute_done:
  assumes "advance n m s = Done r t" and "steps s + int n \<le> MaxInstructions (vm_config m)"
  shows "execute m s = (r, t)"
  using assms
proof (induction n arbitrary: s)
  case (Suc n)
  show ?case
  proof (cases "step m s")
    case (Done r' t')
    then show ?thesis using Suc.prems by (subst execute.simps) simp
  next
    case (Next u)
    then have "execute m u = (r, t)" using Suc by (simp add: step_steps)
    then show ?thesis using Next Suc.prems(2) by (subst execute.simps) simp
  qed
qed simp

section \<open>Fragments\<close>

text \<open>The state without its counters; a fragment looks at nothing else.\<close>

definition core :: "runState \<Rightarrow> runState" where
  "core s = s\<lparr>state_pc := 0, steps := 0\<rparr>"

definition at_counters :: "int \<Rightarrow> int \<Rightarrow> runState \<Rightarrow> runState" where
  "at_counters pc n s = s\<lparr>state_pc := pc, steps := n\<rparr>"

lemma core_at_counters: "at_counters (state_pc s) (steps s) (core s) = s"
  by (simp add: core_def at_counters_def)

fun skip_slots :: "int \<Rightarrow> instruction list \<Rightarrow> instruction list" where
  "skip_slots k [] = []"
| "skip_slots k (i # is) = (if k \<le> 0 then i # is else skip_slots (k - Slots i) is)"

lemma length_skip_slots: "length (skip_slots k is) \<le> length is"
  by (induction k "is" rule: skip_slots.induct) auto

lemma skip_slots_take: "skip_slots (slot_sum (take k is)) is = drop k is"
proof (induction k arbitrary: "is")
  case 0
  then show ?case by (cases "is") simp_all
next
  case (Suc k)
  show ?case
  proof (cases "is")
    case (Cons i is')
    have "0 \<le> slot_sum (take k is')" using slot_sum_ge_length [of "take k is'"] by simp
    then have "0 < Slots i + slot_sum (take k is')" using Slots_pos(1) [of i] by linarith
    with Suc.IH [of is'] Cons show ?thesis by simp
  qed simp
qed

function frag :: "Config \<Rightarrow> instruction list \<Rightarrow> runState \<Rightarrow> vm_error + runState" where
  "frag c [] s = Inr s"
| "frag c (i # is) s =
     (case exec_instruction c i (Slots i) s of
        Halt (Inl e) t \<Rightarrow> Inl e
      | Halt (Inr v) t \<Rightarrow> Inl GoPanic
      | Continue n t \<Rightarrow> frag c (skip_slots (n - Slots i) is) t)"
  by pat_completeness auto
termination
  by (relation "measure (\<lambda>(c, is, s). length is)") (auto simp: less_Suc_eq_le length_skip_slots)

text \<open>Jumps stay inside the fragment and go forward; calls and returns are not fragments.\<close>

fun local_code :: "instruction list \<Rightarrow> bool" where
  "local_code [] \<longleftrightarrow> True"
| "local_code (i # is) \<longleftrightarrow>
     local_code is \<and> Op i \<noteq> CALL_IMM \<and> Op i \<noteq> EXIT \<and>
     (isJump (Op i) \<longrightarrow> (\<exists>k \<in> set [0..<Suc (length is)]. sint (Offset i) = slot_sum (take k is)))"

lemma local_code_append:
  "local_code xs \<Longrightarrow> local_code ys \<Longrightarrow> local_code (xs @ ys)"
proof (induction xs)
  case (Cons i xs)
  then have "\<exists>k \<in> set [0..<Suc (length xs + length ys)]. sint (Offset i) = slot_sum (take k (xs @ ys))"
    if "isJump (Op i)"
  proof -
    from Cons.prems(1) that obtain k
      where "k \<in> set [0..<Suc (length xs)]" "sint (Offset i) = slot_sum (take k xs)"
      unfolding local_code.simps by blast
    then show ?thesis by (intro bexI [of _ k]) auto
  qed
  with Cons show ?case by simp
qed simp

lemma local_code_drop: "local_code is \<Longrightarrow> local_code (drop k is)"
proof (induction k arbitrary: "is")
  case (Suc k)
  then show ?case by (cases "is") simp_all
qed simp

text \<open>Outside calls and returns an instruction ignores the counters, apart from moving control.\<close>

definition move_outcome :: "int \<Rightarrow> int \<Rightarrow> outcome \<Rightarrow> outcome" where
  "move_outcome pc n r =
     (case r of Halt v t \<Rightarrow> Halt v (at_counters pc n t)
      | Continue k t \<Rightarrow> Continue (pc + k) (at_counters pc n t))"

lemma memory_at_counters:
  "memoryRange (at_counters pc n s) a w wr = memoryRange s a w wr"
  "read_ref (at_counters pc n s) ref k = read_ref s ref k"
  "write_ref (at_counters pc n s) ref bs = at_counters pc n (write_ref s ref bs)"
  by (simp_all add: memoryRange_def at_counters_def) (cases ref; simp add: at_counters_def)+

lemma load_at_counters: "loadMemory (at_counters pc n s) a k = loadMemory s a k"
  by (simp add: loadMemory_def memory_at_counters)

lemma store_at_counters:
  "storeMemory (at_counters pc n s) a v k =
    (case storeMemory s a v k of Inl e \<Rightarrow> Inl e | Inr t \<Rightarrow> Inr (at_counters pc n t))"
  by (cases k; cases "memoryRange s a (MemoryType_Bytes k) True")
    (simp_all add: storeMemory_def memory_at_counters)

lemma registers_at_counters [simp]: "registers (at_counters pc n s) = registers s"
  by (simp add: at_counters_def)

lemma set_reg_at_counters: "set_reg r v (at_counters pc n s) = at_counters pc n (set_reg r v s)"
  by (simp add: set_reg_def at_counters_def)

lemma exec_at_counters:
  assumes "Op i \<noteq> CALL_IMM" and "Op i \<noteq> EXIT" and "state_pc s = 0"
  shows "exec_instruction c i (pc + k) (at_counters pc n s) = move_outcome pc n (exec_instruction c i k s)"
proof -
  have alu: "do_alu i r (pc + k) (at_counters pc n s) = move_outcome pc n (do_alu i r k s)" for r
    by (cases r) (simp_all add: do_alu_def move_outcome_def set_reg_at_counters)
  have load: "do_load i (pc + k) (at_counters pc n s) = move_outcome pc n (do_load i k s)"
    by (simp add: do_load_def move_outcome_def load_at_counters set_reg_at_counters split: sum.split)
  have store: "do_store i (pc + k) (at_counters pc n s) = move_outcome pc n (do_store i k s)"
    by (simp add: do_store_def move_outcome_def store_at_counters split: sum.split)
  have jump: "do_jump i b (pc + k) (at_counters pc n s) = move_outcome pc n (do_jump i b k s)" for b
    using assms(3) by (simp add: do_jump_def move_outcome_def at_counters_def)
  show ?thesis
    using assms(1,2)
    by (simp add: exec_instruction_def Let_def alu load store jump split: option.split)
      (simp add: move_outcome_def)
qed

text \<open>Where control can go from an instruction of a fragment.\<close>

lemma jump_is_jump:
  "jump32 op d s i = Some b \<Longrightarrow> isJump op" "jump64 op d s i = Some b \<Longrightarrow> isJump op"
  by (auto simp: jump32_def jump64_def isJump_def isJumpImmediate_def isJumpRegister_def split: if_splits)

lemma exec_displacement:
  assumes "exec_instruction c i k s = Continue n t" and "Op i \<noteq> CALL_IMM" and "Op i \<noteq> EXIT"
    and "state_pc s = 0"
  shows "(n = k \<or> isJump (Op i) \<and> n = 1 + sint (Offset i)) \<and> state_pc t = 0"
  using assms
  by (auto simp: exec_instruction_def Let_def do_alu_def do_load_def do_store_def do_jump_def set_reg_def
      split: option.splits sum.splits if_splits elim!: storeMemory_write_ref intro: jump_is_jump)

lemma jump_slots: "isJump (Op i) \<Longrightarrow> Slots i = 1"
  by (auto simp: Slots_def isJump_def isJumpImmediate_def isJumpRegister_def)

section \<open>Adequacy\<close>

text \<open>The piece of code \<open>is\<close> stands at the program counter of \<open>s\<close>, with something after it.\<close>

definition code_at :: "VM \<Rightarrow> int \<Rightarrow> instruction list \<Rightarrow> bool" where
  "code_at m pc code \<longleftrightarrow>
     (\<exists>pre post. vm_program m = pre @ code @ post \<and> pc = slot_sum pre \<and> post \<noteq> [])"

lemma code_at_drop:
  assumes "code_at m pc code"
  shows "code_at m (pc + slot_sum (take k code)) (drop k code)"
proof -
  from assms obtain pre post where "vm_program m = pre @ code @ post" "pc = slot_sum pre" "post \<noteq> []"
    by (auto simp: code_at_def)
  then show ?thesis
    unfolding code_at_def
    by (intro exI [of _ "pre @ take k code"] exI [of _ post]) simp
qed

lemma code_at_append:
  assumes "code_at m pc (xs @ ys)"
  shows "code_at m (pc + slot_sum xs) ys"
  using code_at_drop [OF assms, of "length xs"] by simp

lemma code_at_prefix:
  assumes "code_at m pc (xs @ ys)"
  shows "code_at m pc xs"
proof -
  from assms obtain pre post where "vm_program m = pre @ (xs @ ys) @ post" "pc = slot_sum pre" "post \<noteq> []"
    by (auto simp: code_at_def)
  then show ?thesis unfolding code_at_def by (intro exI [of _ pre] exI [of _ "ys @ post"]) simp
qed

lemma code_at_start:
  assumes "vm_ok m" and "code_at m pc code"
  shows "is_start m pc" and "0 \<le> pc \<and> pc < vm_slots m"
proof -
  from assms(2) obtain pre post where p: "vm_program m = pre @ code @ post" "pc = slot_sum pre" "post \<noteq> []"
    by (auto simp: code_at_def)
  then have "length pre < length (vm_program m)" "take (length pre) (vm_program m) = pre"
    by (cases post; simp)+
  with p(2) show "is_start m pc" unfolding is_start_iff [OF assms(1)] by metis
  then show "0 \<le> pc \<and> pc < vm_slots m" by (rule start_range [OF assms(1)])
qed

lemma code_at_fetch:
  assumes "vm_ok m" and "code_at m pc (i # code)"
  shows "\<exists>k. vm_byPC m pc = Some k \<and> vm_program m ! k = i"
proof -
  from assms(2) obtain pre post where p: "vm_program m = pre @ (i # code) @ post" "pc = slot_sum pre"
    by (auto simp: code_at_def)
  then have "vm_byPC m pc = Some (length pre)" by (simp add: vm_okD(5) [OF assms(1)])
  moreover have "vm_program m ! length pre = i" by (simp add: p(1))
  ultimately show ?thesis by blast
qed

lemma step_fragment:
  assumes ok: "vm_ok m" and at: "code_at m pc (i # code)"
    and op: "Op i \<noteq> CALL_IMM" "Op i \<noteq> EXIT" and s: "state_pc s = 0"
  shows "step m (at_counters pc n s) =
    (case exec_instruction (vm_config m) i (Slots i) s of
       Halt r t \<Rightarrow> Done r (at_counters pc (n + 1) t)
     | Continue k t \<Rightarrow>
         if is_start m (pc + k) then Next (at_counters (pc + k) (n + 1) t)
         else Done (Inl ErrExecutionOverrun) (at_counters pc (n + 1) t))"
proof -
  obtain k where k: "vm_byPC m pc = Some k" "vm_program m ! k = i"
    using code_at_fetch [OF ok at] by blast
  have regs: "Register_valid (Dst i)" "Register_valid (Src i)"
    using ValidateInstruction_NoneD [OF instruction_valid [OF ok k(1), unfolded k(2)]]
    by (auto simp: Register_valid_def order.strict_trans2)
  have e: "exec_instruction (vm_config m) i (pc + Slots i) (at_counters pc (n + 1) s) =
      move_outcome pc (n + 1) (exec_instruction (vm_config m) i (Slots i) s)"
    by (rule exec_at_counters [OF op s])
  have st: "at_counters pc n s\<lparr>steps := n + 1\<rparr> = at_counters pc (n + 1) s" by (simp add: at_counters_def)
  have pc: "state_pc (at_counters pc n s) = pc" "steps (at_counters pc n s) = n" by (simp_all add: at_counters_def)
  have mv: "at_counters a b t\<lparr>state_pc := d\<rparr> = at_counters d b t" for a b d t
    by (simp add: at_counters_def)
  have range: "is_start m d \<longleftrightarrow> 0 \<le> d \<and> d < vm_slots m \<and> vm_byPC m d \<noteq> None" for d
    using start_range [OF ok, of d] by (auto simp: is_start_def)
  show ?thesis
    unfolding step_def pc k Let_def st option.case regs e
    by (cases "exec_instruction (vm_config m) i (Slots i) s")
      (auto simp: move_outcome_def range mv regs)
qed

theorem frag_runs:
  assumes "vm_ok m" and "code_at m pc code" and "local_code code" and "state_pc s = 0"
  shows "(case frag (vm_config m) code s of
      Inl e \<Rightarrow> (\<exists>k t. k \<le> length code \<and> advance k m (at_counters pc n s) = Done (Inl e) t)
    | Inr s' \<Rightarrow> state_pc s' = 0 \<and> (\<exists>k. k \<le> length code \<and>
        advance k m (at_counters pc n s) = Next (at_counters (pc + slot_sum code) (n + int k) s')))"
  using assms(2-4)
proof (induction code arbitrary: pc n s rule: length_induct)
  case (1 code)
  note ok = assms(1)
  show ?case
  proof (cases code)
    case Nil
    then show ?thesis using "1.prems"(3) by (auto intro: exI [of _ 0])
  next
    case (Cons i rest)
    have op: "Op i \<noteq> CALL_IMM" "Op i \<noteq> EXIT" and loc: "local_code rest" using "1.prems"(2) Cons by auto
    note st = step_fragment [OF ok "1.prems"(1) [unfolded Cons] op "1.prems"(3), of n]
    show ?thesis
    proof (cases "exec_instruction (vm_config m) i (Slots i) s")
      case (Halt r t)
      have "r \<noteq> Inr v" for v
        using Halt op
        by (auto simp: exec_instruction_def Let_def do_alu_def do_load_def do_store_def do_jump_def
            split: option.splits sum.splits if_splits)
      then obtain e where "r = Inl e" by (cases r) auto
      with Halt st Cons show ?thesis by (auto intro!: exI [of _ 1] simp: eval_nat_numeral)
    next
      case (Continue d t)
      have disp: "d = Slots i \<or> isJump (Op i) \<and> d = 1 + sint (Offset i)" and t0: "state_pc t = 0"
        using exec_displacement [OF Continue op "1.prems"(3)] by simp_all
      obtain j where j: "j \<le> length rest" "d = Slots i + slot_sum (take j rest)"
        using disp
      proof
        assume "d = Slots i"
        then show thesis using that [of 0] by simp
      next
        assume jmp: "isJump (Op i) \<and> d = 1 + sint (Offset i)"
        then obtain j where "j \<in> set [0..<Suc (length rest)]" "sint (Offset i) = slot_sum (take j rest)"
          using "1.prems"(2) unfolding Cons local_code.simps by blast
        then show thesis using that [of j] jmp jump_slots by auto
      qed
      have skip: "skip_slots (d - Slots i) rest = drop j rest" using j(2) skip_slots_take by simp
      have at: "code_at m (pc + d) (drop j rest)"
        using code_at_drop [OF "1.prems"(1) [unfolded Cons], of "Suc j"] j(2) by simp
      have s1: "step m (at_counters pc n s) = Next (at_counters (pc + d) (n + 1) t)"
        using st Continue code_at_start(1) [OF ok at] by simp
      have sum: "d + slot_sum (drop j rest) = slot_sum code"
        using j(2) Cons slot_sum_simps(3) [of "take j rest" "drop j rest"] by simp
      have ih: "(case frag (vm_config m) (drop j rest) t of
          Inl e \<Rightarrow> (\<exists>k u. k \<le> length (drop j rest) \<and>
            advance k m (at_counters (pc + d) (n + 1) t) = Done (Inl e) u)
        | Inr s' \<Rightarrow> state_pc s' = 0 \<and> (\<exists>k. k \<le> length (drop j rest) \<and>
            advance k m (at_counters (pc + d) (n + 1) t) =
              Next (at_counters (pc + d + slot_sum (drop j rest)) (n + 1 + int k) s')))"
        using "1.IH" Cons at local_code_drop [OF loc] t0 by simp
      have fr: "frag (vm_config m) code s = frag (vm_config m) (drop j rest) t"
        by (simp add: Cons Continue skip)
      show ?thesis
      proof (cases "frag (vm_config m) (drop j rest) t")
        case (Inl e)
        then obtain k u where k: "k \<le> length (drop j rest)"
          and run: "advance k m (at_counters (pc + d) (n + 1) t) = Done (Inl e) u"
          using ih by (simp only: sum.case) blast
        have "advance (Suc k) m (at_counters pc n s) = Done (Inl e) u" by (simp add: s1 run)
        moreover have "Suc k \<le> length code" using k Cons by simp
        ultimately show ?thesis unfolding fr Inl sum.case by blast
      next
        case (Inr s')
        then obtain k where k: "k \<le> length (drop j rest)" and z: "state_pc s' = 0"
          and run: "advance k m (at_counters (pc + d) (n + 1) t) =
            Next (at_counters (pc + d + slot_sum (drop j rest)) (n + 1 + int k) s')"
          using ih by (simp only: sum.case) blast
        have "pc + d + slot_sum (drop j rest) = pc + slot_sum code" "n + 1 + int k = n + int (Suc k)"
          using sum by simp_all
        then have "advance (Suc k) m (at_counters pc n s) =
            Next (at_counters (pc + slot_sum code) (n + int (Suc k)) s')"
          unfolding advance.simps s1 turn.case run by (simp only:)
        moreover have "Suc k \<le> length code" using k Cons by simp
        ultimately show ?thesis using z unfolding fr Inr sum.case by blast
      qed
    qed
  qed
qed

end
