(* ===== verification/CodeFacts.thy ===== *)
theory CodeFacts
  imports Backend VmFragment "HOL-Library.Signed_Division"
begin

text \<open>
  What the code sequences of the backend compute on the interpreter: normalisation to a type's
  register form, the signed division emulation, comparisons and bounds checks.
\<close>

section \<open>One instruction of a fragment\<close>

lemma skip_zero [simp]: "skip_slots 0 is = is"
  by (cases "is") simp_all

lemma frag_alu64:
  "alu64 (Op i) (registers s (Dst i)) (registers s (Src i)) (Immediate i) = Some (Inr v) \<Longrightarrow>
     frag c (i # is) s = frag c is (set_reg (Dst i) v s)"
  by (simp add: exec_instruction_def Let_def do_alu_def)

lemma frag_alu64_error:
  "alu64 (Op i) (registers s (Dst i)) (registers s (Src i)) (Immediate i) = Some (Inl e) \<Longrightarrow>
     frag c (i # is) s = Inl e"
  by (simp add: exec_instruction_def Let_def do_alu_def)

lemma alu32_domain:
  "alu32 op d s i = Some r \<Longrightarrow> op \<in> {MOV32_IMM, MOV32_REG, ADD32_IMM, ADD32_REG, SUB32_IMM, SUB32_REG,
     MUL32_IMM, MUL32_REG, DIV32_IMM, DIV32_REG, MOD32_IMM, MOD32_REG, LSH32_IMM, LSH32_REG, RSH32_IMM,
     RSH32_REG, ARSH32_IMM, ARSH32_REG, NEG32, XOR32_IMM, XOR32_REG}"
  by (rule ccontr) (simp add: alu32_def)

lemma alu32_only:
  assumes "alu32 op d s i = Some r"
  shows "alu64 op d s i = None \<and> \<not> isMemoryLoad op \<and> \<not> isMemoryStore op"
  using alu32_domain [OF assms] unfolding insert_iff
  by (elim disjE) (simp_all add: alu64_def isMemoryLoad_def isMemoryStore_def)

lemma frag_alu32:
  "alu32 (Op i) (registers s (Dst i)) (registers s (Src i)) (Immediate i) = Some (Inr v) \<Longrightarrow>
     frag c (i # is) s = frag c is (set_reg (Dst i) v s)"
  using alu32_only by (fastforce simp: exec_instruction_def Let_def do_alu_def)

lemma frag_alu32_error:
  "alu32 (Op i) (registers s (Dst i)) (registers s (Src i)) (Immediate i) = Some (Inl e) \<Longrightarrow>
     frag c (i # is) s = Inl e"
  using alu32_only by (fastforce simp: exec_instruction_def Let_def do_alu_def)

lemma jump32_domain:
  "jump32 op d s i = Some b \<Longrightarrow> op \<in> {JEQ32_IMM, JEQ32_REG, JNE32_IMM, JNE32_REG, JGT32_IMM, JGT32_REG,
     JGE32_IMM, JGE32_REG, JLT32_IMM, JLT32_REG, JLE32_IMM, JLE32_REG, JSGT32_IMM, JSGT32_REG,
     JSGE32_IMM, JSGE32_REG, JSLT32_IMM, JSLT32_REG, JSLE32_IMM, JSLE32_REG}"
  by (rule ccontr) (simp add: jump32_def)

lemma jump32_only:
  assumes "jump32 op d s i = Some b"
  shows "alu64 op d s i = None \<and> \<not> isMemoryLoad op \<and> \<not> isMemoryStore op \<and>
     alu32 op d s i = None \<and> op \<noteq> LD_DW_IMM"
  using jump32_domain [OF assms] unfolding insert_iff
  by (elim disjE) (simp_all add: alu64_def alu32_def isMemoryLoad_def isMemoryStore_def)

lemma jump64_domain:
  "jump64 op d s i = Some b \<Longrightarrow> op \<in> {JA, JEQ64_IMM, JEQ64_REG, JNE64_IMM, JNE64_REG, JGT64_IMM, JGT64_REG,
     JGE64_IMM, JGE64_REG, JLT64_IMM, JLT64_REG, JLE64_IMM, JLE64_REG, JSGT64_IMM, JSGT64_REG,
     JSGE64_IMM, JSGE64_REG, JSLT64_IMM, JSLT64_REG, JSLE64_IMM, JSLE64_REG}"
  by (rule ccontr) (simp add: jump64_def)

lemma jump64_only:
  assumes "jump64 op d s i = Some b"
  shows "alu64 op d s i = None \<and> \<not> isMemoryLoad op \<and> \<not> isMemoryStore op \<and>
     alu32 op d s i = None \<and> jump32 op d s i = None \<and> op \<noteq> LD_DW_IMM"
  using jump64_domain [OF assms] unfolding insert_iff
  by (elim disjE) (simp_all add: alu64_def alu32_def jump32_def isMemoryLoad_def isMemoryStore_def)

lemma frag_jump32:
  "jump32 (Op i) (registers s (Dst i)) (registers s (Src i)) (Immediate i) = Some b \<Longrightarrow> state_pc s = 0 \<Longrightarrow>
     frag c (i # is) s = frag c (if b then skip_slots (sint (Offset i)) is else is) s"
  using jump32_only [of "Op i" "registers s (Dst i)" "registers s (Src i)" "Immediate i" b]
  by (simp add: exec_instruction_def Let_def do_jump_def Slots_def)

lemma frag_jump64:
  "jump64 (Op i) (registers s (Dst i)) (registers s (Src i)) (Immediate i) = Some b \<Longrightarrow> state_pc s = 0 \<Longrightarrow>
     frag c (i # is) s = frag c (if b then skip_slots (sint (Offset i)) is else is) s"
  using jump64_only [of "Op i" "registers s (Dst i)" "registers s (Src i)" "Immediate i" b]
  by (simp add: exec_instruction_def Let_def do_jump_def Slots_def)

declare frag.simps(2) [simp del]

text \<open>The sign-extended 32-bit immediates the emitters use.\<close>

lemma immediates:
  "scast (0 :: u32) = (0 :: u64)" "scast (1 :: u32) = (1 :: u64)" "scast (24 :: u32) = (24 :: u64)"
  "scast (32 :: u32) = (32 :: u64)" "low 24 = 24" "low 32 = 32" "low 0 = 0"
  by (simp_all add: low_def)

section \<open>Reading back what was written\<close>

lemma set_reg_same [simp]: "registers (set_reg r v s) r = v"
  by (simp add: set_reg_def)

lemma set_reg_other: "r' \<noteq> r \<Longrightarrow> registers (set_reg r v s) r' = registers s r'"
  by (simp add: set_reg_def)

lemma set_reg_twice [simp]: "set_reg r v (set_reg r w s) = set_reg r v s"
  by (simp add: set_reg_def)

lemma set_reg_id [simp]: "set_reg r (registers s r) s = s"
  by (simp add: set_reg_def)

lemma set_reg_pc [simp]: "state_pc (set_reg r v s) = state_pc s"
  by (simp add: set_reg_def)

lemma set_reg_registers:
  "registers (set_reg r v s) r' = (if r' = r then v else registers s r')"
  by (simp add: set_reg_def)

section \<open>Register forms\<close>

text \<open>The 64-bit register form of a value of a type: how the ABI and the homes hold it.\<close>

definition register_form :: "ir_type \<Rightarrow> u64 \<Rightarrow> u64" where
  "register_form t v =
     (if t = TypeUint8 then take_bit 8 v else if t = TypeUint32 then take_bit 32 v
      else if t = TypeInt32 then scast (low v) else v)"

lemma low_ucast [simp]: "low (ucast w) = w"
  by (simp add: low_def) (rule bit_word_eqI, auto simp: bit_simps)

lemma low_scast [simp]: "low (scast w) = w"
  by (simp add: low_def ucast_scast_u32)

lemma low_register_form:
  "low (register_form t v) = (if t = TypeUint8 then take_bit 8 (low v) else low v)"
  unfolding register_form_def low_def by (auto intro!: bit_word_eqI simp: bit_simps)

lemma register_form_idem [simp]: "register_form t (register_form t v) = register_form t v"
  using low_register_form [of t v] by (simp add: register_form_def)

lemma shift_byte: "ucast (drop_bit 24 (push_bit 24 w) :: u32) = (ucast (take_bit 8 w) :: u64)"
  by (rule bit_word_eqI) (auto simp: bit_simps)

lemma take_low: "(ucast (take_bit 8 (low v)) :: u64) = take_bit 8 v" "ucast (low v) = (take_bit 32 v :: u64)"
  by (rule bit_word_eqI; auto simp: bit_simps low_def)+

lemma sign_extend_low: "signed_drop_bit 32 (push_bit 32 (ucast w :: u64)) = scast (w :: u32)"
  by (rule bit_word_eqI) (auto simp: bit_simps)

lemma frag_mov32: "frag c (ALUReg MOV32_REG d r # is) s = frag c is (set_reg d (take_bit 32 (registers s r)) s)"
  by (subst frag_alu32 [where v = "take_bit 32 (registers s r)"]) (simp_all add: ALUReg_def alu32_def take_low)

lemma frag_mov64: "frag c (ALUReg MOV64_REG d r # is) s = frag c is (set_reg d (registers s r) s)"
  by (subst frag_alu64 [where v = "registers s r"]) (simp_all add: ALUReg_def alu64_def)

lemma frag_mov64_imm: "frag c (ALUImm MOV64_IMM d k # is) s = frag c is (set_reg d (scast k) s)"
  by (subst frag_alu64 [where v = "scast k"]) (simp_all add: ALUImm_def alu64_def)

lemma frag_load_imm: "frag c (LoadImm64 d v # is) s = frag c is (set_reg d v s)"
  by (subst frag_alu64 [where v = v]) (simp_all add: LoadImm64_def alu64_def)

lemma frag_lsh32:
  "frag c (ALUImm LSH32_IMM d 24 # is) s = frag c is (set_reg d (ucast (push_bit 24 (low (registers s d)))) s)"
  by (subst frag_alu32 [where v = "ucast (push_bit 24 (low (registers s d)))"])
    (simp_all add: ALUImm_def alu32_def immediates)

lemma frag_rsh32:
  "frag c (ALUImm RSH32_IMM d 24 # is) s = frag c is (set_reg d (ucast (drop_bit 24 (low (registers s d)))) s)"
  by (subst frag_alu32 [where v = "ucast (drop_bit 24 (low (registers s d)))"])
    (simp_all add: ALUImm_def alu32_def immediates)

lemma frag_lsh64:
  "frag c (ALUImm LSH64_IMM d 32 # is) s = frag c is (set_reg d (push_bit 32 (registers s d)) s)"
  by (subst frag_alu64 [where v = "push_bit 32 (registers s d)"])
    (simp_all add: ALUImm_def alu64_def immediates)

lemma frag_arsh64:
  "frag c (ALUImm ARSH64_IMM d 32 # is) s = frag c is (set_reg d (signed_drop_bit 32 (registers s d)) s)"
  by (subst frag_alu64 [where v = "signed_drop_bit 32 (registers s d)"])
    (simp_all add: ALUImm_def alu64_def immediates)

lemmas frag_shifts = frag_lsh32 frag_rsh32 frag_lsh64 frag_arsh64

text \<open>\<open>normalizeRegister\<close> brings any 64-bit pattern into the register form of the type.\<close>

lemma normalize_frag:
  assumes "normalizeRegister t r = Inr code"
  shows "frag c (code @ is) s = frag c is (set_reg r (register_form t (registers s r)) s)"
proof -
  have ld: "low (take_bit 32 v) = low v" for v
    by (simp add: low_def) (rule bit_word_eqI, auto simp: bit_simps)
  consider "t = TypeUint8" | "t = TypeUint32" | "t = TypeInt32"
    | "code = []" "t \<noteq> TypeUint8" "t \<noteq> TypeUint32" "t \<noteq> TypeInt32"
    using assms by (auto simp: normalizeRegister_def split: if_splits)
  then show ?thesis
  proof cases
    case 1
    then show ?thesis
      using assms by (auto simp: normalizeRegister_def frag_mov32 frag_shifts ld shift_byte take_low register_form_def)
  next
    case 2
    then show ?thesis using assms by (auto simp: normalizeRegister_def frag_mov32 register_form_def)
  next
    case 3
    have "signed_drop_bit 32 (push_bit 32 (take_bit 32 v)) = scast (low v)" for v :: u64
      using sign_extend_low [of "low v"] by (simp add: take_low)
    with 3 show ?thesis using assms by (auto simp: normalizeRegister_def frag_mov32 frag_shifts register_form_def)
  next
    case 4
    then show ?thesis by (simp add: register_form_def)
  qed
qed

lemma normalize_total: "scalar t \<Longrightarrow> \<exists>code. normalizeRegister t r = Inr code"
  by (auto simp: normalizeRegister_def scalar_def)

section \<open>Signed division\<close>

text \<open>Two's-complement magnitude.\<close>

definition magnitude :: "'a::len word \<Rightarrow> 'a word" where
  "magnitude w = (if sint w < 0 then - w else w)"

lemma sint_uint_cases:
  fixes w :: "'a::len word"
  shows "sint w < 0 \<Longrightarrow> uint w = sint w + 2 ^ LENGTH('a)" and "\<not> sint w < 0 \<Longrightarrow> uint w = sint w"
proof -
  have u: "uint w = sint w mod 2 ^ LENGTH('a)"
    by (simp add: uint_sint take_bit_eq_mod)
  have "- (2 ^ (LENGTH('a) - 1)) \<le> sint w" "sint w < 2 ^ (LENGTH('a) - 1)"
    using sint_ge [of w] sint_lt [of w] by simp_all
  moreover have "(2 :: int) ^ LENGTH('a) = 2 * 2 ^ (LENGTH('a) - 1)"
    by (metis len_gt_0 power_eq_if zero_less_iff_neq_zero)
  moreover have "(0 :: int) < 2 ^ (LENGTH('a) - 1)" by simp
  ultimately have b: "- (2 ^ LENGTH('a)) < sint w" "sint w < 2 ^ LENGTH('a)" by linarith+
  show "\<not> sint w < 0 \<Longrightarrow> uint w = sint w" using u b by (simp add: mod_pos_pos_trivial)
  assume "sint w < 0"
  then have "(sint w + 2 ^ LENGTH('a)) mod 2 ^ LENGTH('a) = sint w + 2 ^ LENGTH('a)"
    using b by (intro mod_pos_pos_trivial) linarith+
  then show "uint w = sint w + 2 ^ LENGTH('a)" using u by simp
qed

lemma uint_magnitude: "uint (magnitude w) = \<bar>sint w\<bar>"
proof (cases "sint w < 0")
  case True
  have "uint w < 2 ^ LENGTH('a)" by (rule uint_lt2p)
  have "w \<noteq> 0" using True by auto
  then have "uint w mod 2 ^ LENGTH('a) = uint w" "uint w \<noteq> 0"
    using \<open>uint w < 2 ^ LENGTH('a)\<close> by (simp_all add: unsigned_eq_0_iff)
  then have "uint (- w) = 2 ^ LENGTH('a) - uint w"
    by (simp add: uint_word_ariths(4) zmod_zminus1_eq_if)
  then show ?thesis using sint_uint_cases(1) [OF True] True by (simp add: magnitude_def)
next
  case False
  then show ?thesis using sint_uint_cases(2) [OF False] by (simp add: magnitude_def)
qed

lemma sint_xor_neg: "sint (x XOR y) < 0 \<longleftrightarrow> (sint x < 0) \<noteq> (sint y < 0)" for x y :: "'a::len word"
proof -
  have "sint w < 0 \<longleftrightarrow> bit w (LENGTH('a) - 1)" for w :: "'a word"
    by (simp add: sint_uint signed_take_bit_negative_iff bit_uint_iff)
  then show ?thesis by (simp add: bit_xor_iff)
qed

text \<open>Unsigned division of the magnitudes with the sign put back is Go's truncated division.\<close>

lemma truncated_division:
  "(if sint (x XOR y) < 0 then - (magnitude x div magnitude y) else magnitude x div magnitude y) =
     (word_of_int (sint x sdiv sint y) :: 'a::len word)"
proof -
  have q: "magnitude x div magnitude y = (word_of_int (\<bar>sint x\<bar> div \<bar>sint y\<bar>) :: 'a word)"
    by (metis uint_div uint_magnitude word_of_int_uint)
  show ?thesis
    unfolding sint_xor_neg q by (auto simp: signed_divide_int_def sgn_if)
qed

lemma truncated_remainder:
  "(if sint x < 0 then - (magnitude x mod magnitude y) else magnitude x mod magnitude y) =
     (word_of_int (sint x smod sint y) :: 'a::len word)"
proof -
  have q: "magnitude x mod magnitude y = (word_of_int (\<bar>sint x\<bar> mod \<bar>sint y\<bar>) :: 'a word)"
    by (metis uint_mod uint_magnitude word_of_int_uint)
  show ?thesis
    unfolding q by (auto simp: signed_modulo_int_def sgn_if)
qed

lemma magnitude_zero [simp]: "magnitude w = 0 \<longleftrightarrow> w = 0"
  by (simp add: magnitude_def)

lemma skip_one [simp]: "Op i \<noteq> LD_DW_IMM \<Longrightarrow> skip_slots 1 (i # is) = is"
  by (simp add: Slots_def)

lemma skip_two [simp]: "Op i \<noteq> LD_DW_IMM \<Longrightarrow> skip_slots 2 (i # j # is) = skip_slots 1 (j # is)"
  by (simp add: Slots_def)

declare skip_slots.simps(2) [simp del]

lemma built_opcodes [simp]:
  "Op (ALUReg op d r) = op" "Op (ALUImm op d k) = op" "Op (JumpReg op d r off) = op"
  "Op (JumpImm op d k off) = op" "Op (Jump off) = JA"
  by (simp_all add: ALUReg_def ALUImm_def JumpReg_def JumpImm_def Jump_def)

lemma frag_jump: "state_pc s = 0 \<Longrightarrow> frag c (Jump 1 # is) s = frag c (skip_slots 1 is) s"
  by (subst frag_jump64 [where b = True]) (simp_all add: Jump_def jump64_def)

lemma frag_negate64: "frag c (plain NEG64 r 0 0 0 # is) s = frag c is (set_reg r (- registers s r) s)"
  by (subst frag_alu64 [where v = "- registers s r"]) (simp_all add: alu64_def)

lemma frag_negate32:
  "frag c (plain NEG32 r 0 0 0 # is) s = frag c is (set_reg r (ucast (- low (registers s r))) s)"
  by (subst frag_alu32 [where v = "ucast (- low (registers s r))"]) (simp_all add: alu32_def)

text \<open>Skip the negation of a non-negative register, and negate when \<open>r5\<close> is negative.\<close>

lemma frag_magnitude64:
  "state_pc s = 0 \<Longrightarrow> frag c (JumpImm JSGE64_IMM r 0 1 # plain NEG64 r 0 0 0 # is) s =
     frag c is (set_reg r (magnitude (registers s r)) s)"
  by (subst frag_jump64 [where b = "0 \<le> sint (registers s r)"])
    (simp_all add: JumpImm_def jump64_def immediates frag_negate64 magnitude_def not_less)

definition magnitude32 :: "u64 \<Rightarrow> u64" where
  "magnitude32 v = (if sint (low v) < 0 then ucast (- low v) else v)"

lemma low_magnitude32 [simp]: "low (magnitude32 v) = magnitude (low v)"
  by (simp add: magnitude32_def magnitude_def)

lemma frag_magnitude32:
  "state_pc s = 0 \<Longrightarrow> frag c (JumpImm JSGE32_IMM r 0 1 # plain NEG32 r 0 0 0 # is) s =
     frag c is (set_reg r (magnitude32 (registers s r)) s)"
  by (subst frag_jump32 [where b = "0 \<le> sint (low (registers s r))"])
    (simp_all add: JumpImm_def jump32_def immediates frag_negate32 magnitude32_def not_less)

lemma frag_sign64:
  "state_pc s = 0 \<Longrightarrow>
     frag c (JumpImm JSLT64_IMM R5 0 1 # Jump 1 # plain NEG64 R0 0 0 0 # is) s =
     frag c is (set_reg R0 (if sint (registers s R5) < 0 then - registers s R0 else registers s R0) s)"
  by (subst frag_jump64 [where b = "sint (registers s R5) < 0"])
    (simp_all add: JumpImm_def jump64_def immediates frag_negate64 frag_jump)

lemma frag_sign32:
  "state_pc s = 0 \<Longrightarrow>
     frag c (JumpImm JSLT32_IMM R5 0 1 # Jump 1 # plain NEG32 R0 0 0 0 # is) s =
     frag c is (set_reg R0 (if sint (low (registers s R5)) < 0 then ucast (- low (registers s R0))
       else registers s R0) s)"
  by (subst frag_jump32 [where b = "sint (low (registers s R5)) < 0"])
    (simp_all add: JumpImm_def jump32_def immediates frag_negate32 frag_jump)

lemma frag_xor:
  "frag c (ALUReg XOR64_REG d r # is) s = frag c is (set_reg d (registers s d XOR registers s r) s)"
  "frag c (ALUReg XOR32_REG d r # is) s =
     frag c is (set_reg d (ucast (low (registers s d) XOR low (registers s r))) s)"
  by (subst frag_alu64 [where v = "registers s d XOR registers s r"]; simp add: ALUReg_def alu64_def)
    (subst frag_alu32 [where v = "ucast (low (registers s d) XOR low (registers s r))"];
      simp add: ALUReg_def alu32_def)

text \<open>The two-register operations of \<open>emitArithmetic\<close> and the division step, by width.\<close>

definition wide_op :: "ir_op \<Rightarrow> u64 \<Rightarrow> u64 \<Rightarrow> vm_error + u64" where
  "wide_op op x y =
     (case op of OpAdd \<Rightarrow> Inr (x + y) | OpSub \<Rightarrow> Inr (x - y) | OpMul \<Rightarrow> Inr (x * y)
      | OpDiv \<Rightarrow> div_or_err x y | _ \<Rightarrow> mod_or_err x y)"

definition narrow_op :: "ir_op \<Rightarrow> u64 \<Rightarrow> u64 \<Rightarrow> vm_error + u64" where
  "narrow_op op x y =
     (case op of OpAdd \<Rightarrow> Inr (scast (low x + low y)) | OpSub \<Rightarrow> Inr (scast (low x - low y))
      | OpMul \<Rightarrow> Inr (scast (low x * low y))
      | OpDiv \<Rightarrow> widen (div_or_err (low x) (low y)) | _ \<Rightarrow> widen (mod_or_err (low x) (low y)))"

definition arithmetic :: "ir_op \<Rightarrow> bool" where
  "arithmetic op \<longleftrightarrow> op \<in> {OpAdd, OpSub, OpMul, OpDiv, OpMod}"

lemma frag_wide_op:
  assumes "arithmetic op"
  shows "frag c (ALUReg (opcode64 op) d r # is) s =
    (case wide_op op (registers s d) (registers s r) of
       Inl e \<Rightarrow> Inl e | Inr v \<Rightarrow> frag c is (set_reg d v s))"
proof -
  have a: "alu64 (opcode64 op) (registers s d) (registers s r) 0 =
      Some (wide_op op (registers s d) (registers s r))"
    using assms by (auto simp: arithmetic_def opcode64_def alu64_def wide_op_def)
  show ?thesis
    using frag_alu64 [of "ALUReg (opcode64 op) d r" s] frag_alu64_error [of "ALUReg (opcode64 op) d r" s] a
    by (cases "wide_op op (registers s d) (registers s r)") (simp_all add: ALUReg_def)
qed

lemma frag_narrow_op:
  assumes "arithmetic op"
  shows "frag c (ALUReg (opcode32 op) d r # is) s =
    (case narrow_op op (registers s d) (registers s r) of
       Inl e \<Rightarrow> Inl e | Inr v \<Rightarrow> frag c is (set_reg d v s))"
proof -
  have a: "alu32 (opcode32 op) (registers s d) (registers s r) 0 =
      Some (narrow_op op (registers s d) (registers s r))"
    using assms by (auto simp: arithmetic_def opcode32_def alu32_def narrow_op_def signExtend32_def)
  show ?thesis
    using frag_alu32 [of "ALUReg (opcode32 op) d r" s] frag_alu32_error [of "ALUReg (opcode32 op) d r" s] a
    by (cases "narrow_op op (registers s d) (registers s r)") (simp_all add: ALUReg_def)
qed

text \<open>Go's division and remainder at the two widths of signed integers.\<close>

definition truncated :: "ir_op \<Rightarrow> 'a::len word \<Rightarrow> 'a word \<Rightarrow> 'a word" where
  "truncated op x y =
     word_of_int (if op = OpDiv then sint x sdiv sint y else sint x smod sint y)"

lemma division64_frag:
  assumes "op = OpDiv \<or> op = OpMod" and "state_pc s = 0"
  shows "frag c (division_code op False @ is) s =
    (if registers s R4 = 0 then Inl ErrVmDivisionByZero
     else frag c is (set_reg R0 (truncated op (registers s R0) (registers s R4))
       (set_reg R4 (magnitude (registers s R4))
         (set_reg R5 (if op = OpDiv then registers s R0 XOR registers s R4 else registers s R0) s))))"
proof -
  let ?x = "registers s R0" and ?y = "registers s R4"
  define s3 where "s3 = set_reg R4 (magnitude ?y) (set_reg R0 (magnitude ?x)
    (set_reg R5 (if op = OpDiv then ?x XOR ?y else ?x) s))"
  have ar: "arithmetic op" using assms(1) by (auto simp: arithmetic_def)
  have opc: "(if op = OpMod then MOD64_REG else DIV64_REG) = opcode64 op"
    using assms(1) by (auto simp: opcode64_def)
  have "frag c (division_code op False @ is) s =
      frag c (ALUReg (opcode64 op) R0 R4 # JumpImm JSLT64_IMM R5 0 1 # Jump 1 # plain NEG64 R0 0 0 0 # is) s3"
    using assms by (auto simp: division_code_def Let_def frag_mov64 frag_xor frag_magnitude64 s3_def
        set_reg_registers opcode64_def)
  also have "\<dots> = (if ?y = 0 then Inl ErrVmDivisionByZero
      else frag c is (set_reg R0 (truncated op ?x ?y) s3))"
    unfolding frag_wide_op [OF ar]
    using assms truncated_division [of ?x ?y] truncated_remainder [of ?x ?y]
    by (auto simp: s3_def wide_op_def div_or_err_def mod_or_err_def set_reg_registers frag_sign64 truncated_def)
  also have "set_reg R0 (truncated op ?x ?y) s3 = set_reg R0 (truncated op ?x ?y)
      (set_reg R4 (magnitude ?y) (set_reg R5 (if op = OpDiv then ?x XOR ?y else ?x) s))"
    by (simp add: s3_def set_reg_def fun_eq_iff)
  finally show ?thesis .
qed

lemma division32_frag:
  assumes "op = OpDiv \<or> op = OpMod" and "state_pc s = 0"
  shows "\<exists>v w. frag c (division_code op True @ is) s =
    (if low (registers s R4) = 0 then Inl ErrVmDivisionByZero
     else frag c is (set_reg R0 (ucast (truncated op (low (registers s R0)) (low (registers s R4))))
       (set_reg R4 v (set_reg R5 w s))))"
proof -
  let ?x = "registers s R0" and ?y = "registers s R4"
  define w where "w = (if op = OpDiv then ucast (low ?x XOR low ?y) else ?x)"
  define s3 where "s3 = set_reg R4 (magnitude32 ?y) (set_reg R0 (magnitude32 ?x) (set_reg R5 w s))"
  have ar: "arithmetic op" using assms(1) by (auto simp: arithmetic_def)
  have opc: "(if op = OpMod then MOD32_REG else DIV32_REG) = opcode32 op"
    using assms(1) by (auto simp: opcode32_def)
  have "frag c (division_code op True @ is) s =
      frag c (ALUReg (opcode32 op) R0 R4 # JumpImm JSLT32_IMM R5 0 1 # Jump 1 # plain NEG32 R0 0 0 0 # is) s3"
    using assms by (auto simp: division_code_def Let_def frag_mov64 frag_xor frag_magnitude32 s3_def w_def
        set_reg_registers opcode32_def)
  also have "\<dots> = (if low ?y = 0 then Inl ErrVmDivisionByZero
      else frag c is (set_reg R0 (ucast (truncated op (low ?x) (low ?y))) s3))"
    unfolding frag_narrow_op [OF ar]
    using assms truncated_division [of "low ?x" "low ?y"] truncated_remainder [of "low ?x" "low ?y"]
    by (auto simp: s3_def w_def narrow_op_def widen_def div_or_err_def mod_or_err_def set_reg_registers
        frag_sign32 truncated_def)
  also have "set_reg R0 (ucast (truncated op (low ?x) (low ?y))) s3 =
      set_reg R0 (ucast (truncated op (low ?x) (low ?y))) (set_reg R4 (magnitude32 ?y) (set_reg R5 w s))"
    by (simp add: s3_def set_reg_def fun_eq_iff)
  finally show ?thesis by blast
qed

section \<open>Comparisons\<close>

text \<open>What a comparison means on values in register form.\<close>

definition compare_values :: "ir_op \<Rightarrow> ir_type \<Rightarrow> u64 \<Rightarrow> u64 \<Rightarrow> bool" where
  "compare_values op t x y =
     (case op of
        OpEqual \<Rightarrow> x = y
      | OpNotEqual \<Rightarrow> x \<noteq> y
      | OpLess \<Rightarrow> (if signed_type t then sint x < sint y else x < y)
      | OpLessEqual \<Rightarrow> (if signed_type t then sint x \<le> sint y else x \<le> y)
      | OpGreater \<Rightarrow> (if signed_type t then sint x > sint y else x > y)
      | _ \<Rightarrow> (if signed_type t then sint x \<ge> sint y else x \<ge> y))"

definition canonical :: "ir_type \<Rightarrow> u64 \<Rightarrow> bool" where
  "canonical t v \<longleftrightarrow> register_form t v = v"

lemma canonical_register_form [simp]: "canonical t (register_form t v)"
  by (simp add: canonical_def)

lemma low_order:
  assumes "take_bit 32 x = x" and "take_bit 32 y = y"
  shows "low x = low y \<longleftrightarrow> x = y" and "low x < low y \<longleftrightarrow> x < y" and "low x \<le> low y \<longleftrightarrow> x \<le> y"
proof -
  have "x = ucast (low x)" "y = ucast (low y)" using take_low(2) [of x] take_low(2) [of y] assms by simp_all
  then show "low x = low y \<longleftrightarrow> x = y" by metis
  have u: "unat (low w) = unat w" if "take_bit 32 w = w" for w
    using that unsigned_take_bit_eq [of 32 w, where ?'a = nat] by (simp add: low_def unsigned_ucast_eq)
  show "low x < low y \<longleftrightarrow> x < y" "low x \<le> low y \<longleftrightarrow> x \<le> y"
    by (simp_all add: word_less_nat_alt word_le_nat_alt u assms)
qed

lemma take_bit_byte:
  assumes "take_bit 8 x = (x :: u64)"
  shows "take_bit 32 x = x"
proof -
  have "take_bit 32 (take_bit 8 x) = take_bit 8 x" by simp
  then show ?thesis by (simp only: assms)
qed

lemma uint_low: "uint (low x) = take_bit 32 (uint x)"
  by (simp add: low_def unsigned_ucast_eq)

lemma canonical_narrow:
  assumes "canonical t x" and "narrow t"
  shows "\<not> signed_type t \<Longrightarrow> take_bit 32 x = x" and "signed_type t \<Longrightarrow> scast (low x) = x"
proof -
  have t: "t = TypeUint8 \<or> t = TypeUint32 \<or> t = TypeInt32"
    using assms(2) by (auto simp: narrow_def type_bits_def split: if_splits)
  show "\<not> signed_type t \<Longrightarrow> take_bit 32 x = x"
    using assms(1) t take_bit_byte [of x]
    by (auto simp: canonical_def register_form_def signed_type_def)
  show "signed_type t \<Longrightarrow> scast (low x) = x"
    using assms(1) t by (auto simp: canonical_def register_form_def signed_type_def)
qed

lemma scast_low_order:
  assumes "scast (low x) = x" and "scast (low y) = y"
  shows "low x = low y \<longleftrightarrow> x = y" and "sint (low x) = sint x"
proof -
  show "low x = low y \<longleftrightarrow> x = y" using assms by metis
  have "sint (scast (low x) :: u64) = sint (low x)" by (rule sint_up_scast) (simp add: is_up)
  then show "sint (low x) = sint x" by (simp add: assms(1))
qed

lemma jump32_registers:
  "jump32 JEQ32_REG x y i = Some (low x = low y)"
  "jump32 JNE32_REG x y i = Some (low x \<noteq> low y)"
  "jump32 JGT32_REG x y i = Some (low x > low y)"
  "jump32 JGE32_REG x y i = Some (low x \<ge> low y)"
  "jump32 JLT32_REG x y i = Some (low x < low y)"
  "jump32 JLE32_REG x y i = Some (low x \<le> low y)"
  "jump32 JSGT32_REG x y i = Some (sint (low x) > sint (low y))"
  "jump32 JSGE32_REG x y i = Some (sint (low x) \<ge> sint (low y))"
  "jump32 JSLT32_REG x y i = Some (sint (low x) < sint (low y))"
  "jump32 JSLE32_REG x y i = Some (sint (low x) \<le> sint (low y))"
  by (simp_all add: jump32_def)

lemma jump64_registers:
  "jump32 JEQ64_REG x y i = None" "jump64 JEQ64_REG x y i = Some (x = y)"
  "jump32 JNE64_REG x y i = None" "jump64 JNE64_REG x y i = Some (x \<noteq> y)"
  "jump32 JGT64_REG x y i = None" "jump64 JGT64_REG x y i = Some (x > y)"
  "jump32 JGE64_REG x y i = None" "jump64 JGE64_REG x y i = Some (x \<ge> y)"
  "jump32 JLT64_REG x y i = None" "jump64 JLT64_REG x y i = Some (x < y)"
  "jump32 JLE64_REG x y i = None" "jump64 JLE64_REG x y i = Some (x \<le> y)"
  "jump32 JSGT64_REG x y i = None" "jump64 JSGT64_REG x y i = Some (sint x > sint y)"
  "jump32 JSGE64_REG x y i = None" "jump64 JSGE64_REG x y i = Some (sint x \<ge> sint y)"
  "jump32 JSLT64_REG x y i = None" "jump64 JSLT64_REG x y i = Some (sint x < sint y)"
  "jump32 JSLE64_REG x y i = None" "jump64 JSLE64_REG x y i = Some (sint x \<le> sint y)"
  by (simp_all add: jump32_def jump64_def)

definition comparison :: "ir_op \<Rightarrow> bool" where
  "comparison op \<longleftrightarrow> op \<in> {OpEqual, OpNotEqual, OpLess, OpLessEqual, OpGreater, OpGreaterEqual}"

lemma comparisonOpcode_comparison: "comparisonOpcode op t = Inr oc \<Longrightarrow> comparison op"
  by (cases op) (simp_all add: comparisonOpcode_def comparison_def Let_def)

lemma comparison_cases:
  assumes "comparison op"
  obtains "op = OpEqual" | "op = OpNotEqual" | "op = OpLess" | "op = OpLessEqual" | "op = OpGreater"
    | "op = OpGreaterEqual"
  using assms by (auto simp: comparison_def)

lemma comparison_jump:
  assumes "comparisonOpcode op t = Inr oc" and "canonical t x" and "canonical t y"
  shows "jump32 oc x y 0 = Some (compare_values op t x y) \<or>
    jump32 oc x y 0 = None \<and> jump64 oc x y 0 = Some (compare_values op t x y)"
proof (cases "narrow t")
  case False
  from comparisonOpcode_comparison [OF assms(1)] show ?thesis
    by (cases rule: comparison_cases; cases "signed_type t")
      (use False assms(1) in
        \<open>auto simp add: comparisonOpcode_def Let_def compare_values_def jump64_registers\<close>)
next
  case nar: True
  show ?thesis
  proof (cases "signed_type t")
    case True
    note x = canonical_narrow(2) [OF assms(2) nar True] and y = canonical_narrow(2) [OF assms(3) nar True]
    from comparisonOpcode_comparison [OF assms(1)] show ?thesis
      by (cases rule: comparison_cases)
        (use True nar assms(1) scast_low_order [OF x y] scast_low_order(2) [OF y x] in
          \<open>auto simp add: comparisonOpcode_def Let_def compare_values_def jump32_registers\<close>)
  next
    case False
    note x = canonical_narrow(1) [OF assms(2) nar False] and y = canonical_narrow(1) [OF assms(3) nar False]
    from comparisonOpcode_comparison [OF assms(1)] show ?thesis
      by (cases rule: comparison_cases)
        (use False nar assms(1) low_order [OF x y] low_order [OF y x] in
          \<open>auto simp add: comparisonOpcode_def Let_def compare_values_def jump32_registers\<close>)
  qed
qed

lemma comparison_frag:
  assumes oc: "comparisonOpcode op t = Inr oc" and "canonical t (registers s R0)"
    and "canonical t (registers s R4)" and pc: "state_pc s = 0"
  shows "frag c (comparison_code oc @ is) s =
    frag c is (set_reg R5 (if compare_values op t (registers s R0) (registers s R4) then 1 else 0) s)"
proof -
  let ?b = "compare_values op t (registers s R0) (registers s R4)"
  let ?rest = "Jump 1 # ALUImm MOV64_IMM R5 1 # is"
  define s1 where "s1 = set_reg R5 0 s"
  have r: "registers s1 R0 = registers s R0" "registers s1 R4 = registers s R4" "state_pc s1 = 0"
    by (simp_all add: s1_def set_reg_registers pc)
  have "frag c (JumpReg oc R0 R4 1 # ?rest) s1 = frag c (if ?b then skip_slots 1 ?rest else ?rest) s1"
    using comparison_jump [OF assms(1-3)]
      frag_jump32 [of "JumpReg oc R0 R4 1" s1 ?b c ?rest] frag_jump64 [of "JumpReg oc R0 R4 1" s1 ?b c ?rest]
    by (auto simp: JumpReg_def r)
  then have "frag c (JumpReg oc R0 R4 1 # ?rest) s1 = frag c is (set_reg R5 (if ?b then 1 else 0) s)"
    using frag_jump [of s1 c "ALUImm MOV64_IMM R5 1 # is"] r(3)
    by (simp add: s1_def frag_mov64_imm immediates)
  then show ?thesis
    by (simp add: comparison_code_def frag_mov64_imm immediates s1_def)
qed

section \<open>Bounds checks\<close>

definition in_bounds :: "ir_type \<Rightarrow> u64 \<Rightarrow> u64 \<Rightarrow> bool" where
  "in_bounds t x imm \<longleftrightarrow> (signed_type t \<longrightarrow> 0 \<le> sint x) \<and> x < imm"

lemma frag_trap: "frag c (ALUImm MOV64_IMM R5 0 # ALUReg DIV64_REG R5 R5 # is) s = Inl ErrVmDivisionByZero"
  using frag_wide_op [of OpDiv c R5 R5 "is" "set_reg R5 0 s"]
  by (simp add: frag_mov64_imm immediates arithmetic_def opcode64_def wide_op_def div_or_err_def)

lemma frag_less:
  assumes "state_pc s = 0"
  shows "frag c (JumpReg (if n then JLT32_REG else JLT64_REG) R0 R4 2 #
      ALUImm MOV64_IMM R5 0 # ALUReg DIV64_REG R5 R5 # is) s =
    (if (if n then low (registers s R0) < low (registers s R4) else registers s R0 < registers s R4)
     then frag c is s else Inl ErrVmDivisionByZero)"
proof (cases n)
  case True
  then show ?thesis
    by (subst frag_jump32 [where b = "low (registers s R0) < low (registers s R4)"])
      (simp_all add: JumpReg_def jump32_def assms frag_trap)
next
  case False
  then show ?thesis
    by (subst frag_jump64 [where b = "registers s R0 < registers s R4"])
      (simp_all add: JumpReg_def jump64_def assms frag_trap)
qed

lemma frag_negative_index:
  assumes "state_pc s = 0"
  shows "frag c (JumpImm (if n then JSLT32_IMM else JSLT64_IMM) R0 0 1 #
      JumpReg (if n then JLT32_REG else JLT64_REG) R0 R4 2 #
      ALUImm MOV64_IMM R5 0 # ALUReg DIV64_REG R5 R5 # is) s =
    (if (if n then sint (low (registers s R0)) < 0 else sint (registers s R0) < 0)
     then Inl ErrVmDivisionByZero
     else frag c (JumpReg (if n then JLT32_REG else JLT64_REG) R0 R4 2 #
      ALUImm MOV64_IMM R5 0 # ALUReg DIV64_REG R5 R5 # is) s)"
proof (cases n)
  case True
  then show ?thesis
    by (subst frag_jump32 [where b = "sint (low (registers s R0)) < 0"])
      (simp_all add: JumpImm_def jump32_def assms immediates frag_trap)
next
  case False
  then show ?thesis
    by (subst frag_jump64 [where b = "sint (registers s R0) < 0"])
      (simp_all add: JumpImm_def jump64_def assms immediates frag_trap)
qed

lemma frag_bound_constant:
  "frag c ((if imm \<le> 0x7fffffff then ALUImm MOV64_IMM R4 (ucast imm) else LoadImm64 R4 imm) # is) s =
     frag c is (set_reg R4 imm s)"
proof (cases "imm \<le> 0x7fffffff")
  case True
  then have u: "uint imm < 2 ^ 31" by (simp add: word_le_def)
  have "\<not> sint imm < 0"
  proof
    assume "sint imm < 0"
    from sint_uint_cases(1) [OF this] sint_ge [of imm] u show False by simp
  qed
  then have "sint imm = uint imm" using sint_uint_cases(2) [of imm] by simp
  then have "fits_i32 imm"
    using u uint_ge_0 [of imm] unfolding fits_i32_def by linarith
  then have "scast (ucast imm :: u32) = imm" by (rule scast_ucast_fits)
  with True show ?thesis by (simp add: frag_mov64_imm)
qed (simp add: frag_load_imm)

lemma bounds_frag:
  assumes x: "canonical t (registers s R0)" and pc: "state_pc s = 0"
    and imm: "narrow t \<Longrightarrow> imm \<le> 0xffffffff"
  shows "frag c (bounds_code t imm @ is) s =
    (if in_bounds t (registers s R0) imm then frag c is (set_reg R4 imm s) else Inl ErrVmDivisionByZero)"
proof -
  let ?x = "registers s R0"
  define s1 where "s1 = set_reg R4 imm s"
  have r: "registers s1 R0 = ?x" "registers s1 R4 = imm" "state_pc s1 = 0"
    by (simp_all add: s1_def set_reg_registers pc)
  let ?neg = "signed_type t \<and> (if narrow t then sint (low ?x) < 0 else sint ?x < 0)"
  let ?lt = "if narrow t then low ?x < low imm else ?x < imm"
  have "frag c (bounds_code t imm @ is) s =
      (if ?neg then Inl ErrVmDivisionByZero else if ?lt then frag c is s1 else Inl ErrVmDivisionByZero)"
    using frag_less [of s1 c True "is"] frag_less [of s1 c False "is"]
      frag_negative_index [of s1 c True "is"] frag_negative_index [of s1 c False "is"]
    by (cases "narrow t"; cases "signed_type t")
      (simp_all add: bounds_code_def Let_def frag_bound_constant r s1_def [symmetric])
  moreover have "(\<not> ?neg \<and> ?lt) = in_bounds t ?x imm"
  proof (cases "narrow t")
    case nar: True
    have i: "take_bit 32 imm = imm"
    proof -
      have "unat imm < 2 ^ 32" using imm [OF nar] by (simp add: word_le_nat_alt)
      then show ?thesis by (simp add: word_eq_iff_unsigned [where ?'a = nat] unsigned_take_bit_eq take_bit_nat_eq_self)
    qed
    show ?thesis
    proof (cases "signed_type t")
      case True
      note sc = canonical_narrow(2) [OF x nar True]
      have s: "sint (low ?x) = sint ?x" by (rule scast_low_order(2) [OF sc sc])
      have "take_bit 32 ?x = ?x" if "\<not> sint ?x < 0"
      proof -
        have "uint (low ?x) = sint (low ?x)" using sint_uint_cases(2) [of "low ?x"] s that by simp
        moreover have "uint ?x = sint ?x" by (rule sint_uint_cases(2) [OF that])
        ultimately have "uint (low ?x) = uint ?x" using s by simp
        then have "uint (take_bit 32 ?x) = uint ?x"
          by (simp only: uint_low unsigned_take_bit_eq)
        then have "take_bit 32 ?x = ?x" by (rule unsigned_word_eqI)
        then show ?thesis by simp
      qed
      with nar True s show ?thesis using low_order(2) [OF _ i] by (auto simp: in_bounds_def)
    next
      case False
      with nar show ?thesis using low_order(2) [OF canonical_narrow(1) [OF x nar False] i]
        by (simp add: in_bounds_def)
    qed
  next
    case False
    then show ?thesis by (auto simp: in_bounds_def)
  qed
  ultimately show ?thesis by (auto simp: s1_def)
qed

end
