(* ===== verification/IrFacts.thy ===== *)
theory IrFacts
  imports IrValidate
begin

text \<open>What a successful \<open>Validate\<close> gives the later stages, table by table.\<close>

lemma with_value_None:
  "with_value f i k = None \<longleftrightarrow> snd (Function_Value f i) \<and> k (fst (Function_Value f i)) = None"
  by (auto simp: with_value_def split_beta)

lemma register_functions_Inr:
  assumes "register_functions fs m = Inr m'"
  shows "distinct (map fn_Name fs) \<and> (\<forall>f \<in> set fs. fn_Name f \<noteq> '''' \<and> m (fn_Name f) = None) \<and>
    m' = (\<lambda>name. case find_function fs name of Some f \<Rightarrow> Some f | None \<Rightarrow> m name)"
  using assms
proof (induction fs arbitrary: m)
  case Nil
  then show ?case by auto
next
  case (Cons f fs)
  then have f: "fn_Name f \<noteq> ''''" "m (fn_Name f) = None"
    and r: "register_functions fs (m(fn_Name f \<mapsto> f)) = Inr m'"
    by (auto split: if_splits)
  note ih = Cons.IH [OF r]
  then have "fn_Name f \<notin> fn_Name ` set fs" by (auto split: if_splits)
  moreover have "find_function fs (fn_Name f) = None"
    using find_function_Some [of fs "fn_Name f"] calculation by (metis image_eqI option.exhaust)
  ultimately show ?case using ih f by (auto simp: fun_eq_iff split: option.splits if_splits)
qed

lemma Program_Validate_functions:
  assumes "Program_Validate ord p = None"
  shows "distinct (map fn_Name (prog_Functions p))"
    and "f \<in> set (prog_Functions p) \<Longrightarrow> validateFunction f (Program_Function p) = None"
    and "f \<in> set (prog_Functions p) \<Longrightarrow> Program_Function p (fn_Name f) = Some f"
proof -
  from assms obtain m where r: "register_functions (prog_Functions p) (\<lambda>_. None) = Inr m"
    and c: "check_each (\<lambda>i f. validateFunction f m) 0 (prog_Functions p) = None"
    by (auto simp: Program_Validate_def split: if_splits sum.splits)
  note reg = register_functions_Inr [OF r]
  then show d: "distinct (map fn_Name (prog_Functions p))" by blast
  have "m = (\<lambda>name. case find_function (prog_Functions p) name of Some f \<Rightarrow> Some f | None \<Rightarrow> None)"
    using reg by blast
  then have m: "m = Program_Function p"
    by (auto simp: Program_Function_def fun_eq_iff split: option.splits)
  show "f \<in> set (prog_Functions p) \<Longrightarrow> validateFunction f (Program_Function p) = None"
    using c by (auto simp: check_each_None m in_set_conv_nth)
  show "f \<in> set (prog_Functions p) \<Longrightarrow> Program_Function p (fn_Name f) = Some f"
    by (simp add: Program_Function_def find_function_member [OF d])
qed

lemma validateFunctionD:
  assumes "validateFunction f fns = None"
  shows "length (fn_Params f) \<le> 5"
    and "i < length (fn_Values f) \<Longrightarrow> value_ID (fn_Values f ! i) = of_nat i \<and>
      scalar (value_Type (fn_Values f ! i))"
    and "p \<in> set (fn_Params f) \<Longrightarrow> snd (Function_Value f p) \<and>
      value_Kind (fst (Function_Value f p)) = ValueParameter"
    and "i < length (fn_Memory f) \<Longrightarrow> object_ID (fn_Memory f ! i) = of_nat i \<and>
      memoryScalar (object_Element (fn_Memory f ! i)) \<and> object_Size (fn_Memory f ! i) \<noteq> 0 \<and>
      object_Size (fn_Memory f ! i) \<le> 4096"
    and "Function_Block f (fn_Entry f) \<noteq> None"
    and "i < length (fn_Blocks f) \<Longrightarrow> validate_block f fns i (fn_Blocks f ! i) = None"
  using assms
  by (auto simp: validateFunction_def check_each_None validate_value_def validate_object_def
      validate_parameter_def split_beta in_set_conv_nth)

lemma validate_blockD:
  assumes "validate_block f fns i b = None"
  shows "block_ID b = of_nat i" and "validateTerminator f (block_Terminator b) = None"
    and "ins \<in> set (block_Instructions b) \<Longrightarrow> validateInstruction f fns ins = None"
  using assms by (auto simp: validate_block_def check_each_None in_set_conv_nth)

lemma of_nat_u32_inj:
  assumes "i < 2 ^ 32" and "j < 2 ^ 32" and "(of_nat i :: u32) = of_nat j"
  shows "i = j"
proof -
  have "unat (of_nat i :: u32) = unat (of_nat j :: u32)" by (simp only: assms(3))
  then show ?thesis using assms(1,2) by (simp add: unat_of_nat)
qed

lemma distinct_map_of_nat:
  assumes "\<And>i. i < length xs \<Longrightarrow> g (xs ! i) = (of_nat i :: u32)" and "length xs \<le> 2 ^ 32"
  shows "distinct (map g xs)"
  using assms by (auto simp: distinct_conv_nth dest: of_nat_u32_inj [rotated 2])

lemma Function_Value_in:
  "snd (Function_Value f i) \<Longrightarrow> fst (Function_Value f i) \<in> set (fn_Values f) \<and>
     value_ID (fst (Function_Value f i)) = i"
  by (auto simp: Function_Value_def Let_def)

end
