(* ===== verification/RegisterFacts.thy ===== *)
theory RegisterFacts
  imports RegisterAllocation IrFacts
begin

text \<open>
  What register allocation guarantees on a validated function: every value and every addressable
  local gets a place inside its frame, and no two of them share one, the one exception being the
  values that are returned by the instruction that computes them, which all live in \<open>r0\<close>.
\<close>

section \<open>Addressable locals\<close>

definition object_alignment :: "memory_object \<Rightarrow> int" where
  "object_alignment object = uint (memoryBytes (object_Element object))"

lemma object_alignment_cases:
  "memoryScalar (object_Element object) \<Longrightarrow>
     object_alignment object = 1 \<or> object_alignment object = 4 \<or> object_alignment object = 8"
  by (auto simp: memoryScalar_def object_alignment_def memoryBytes_def)

lemma object_Size_aligned:
  assumes "memoryScalar (object_Element object)"
  shows "uint (object_Size object) mod object_alignment object = 0"
proof -
  have m: "uint (of_nat n * w :: u32) mod int n = 0" if n: "n = 1 \<or> n = 4 \<or> n = 8" for n and w :: u32
  proof -
    have "uint (of_nat n * w :: u32) = (int n * uint w) mod 2 ^ 32"
      using n by (auto simp: uint_word_ariths)
    moreover have "(int n * uint w) mod 2 ^ 32 mod int n = (int n * uint w) mod int n"
      using n by (intro mod_mod_cancel) auto
    ultimately show ?thesis by simp
  qed
  show ?thesis
    using assms m [of 1 "object_Length object"] m [of 4 "object_Length object"] m [of 8 "object_Length object"]
    by (auto simp: memoryScalar_def object_alignment_def memoryBytes_def object_Size_def)
qed

definition object_depth :: "(object_id \<Rightarrow> u16 option) \<Rightarrow> memory_object \<Rightarrow> int" where
  "object_depth m object = depth (the (m (object_ID object)))"

lemma allocate_objects_spec:
  assumes "allocate_objects os used m = Inr (used', m')"
    and "\<forall>object \<in> set os. memoryScalar (object_Element object)"
    and "0 \<le> used" and "used \<le> 4096" and "distinct (map object_ID os)"
  shows "used \<le> used' \<and> used' \<le> 4096 \<and> (\<forall>i. i \<notin> object_ID ` set os \<longrightarrow> m' i = m i) \<and>
    (\<forall>object \<in> set os. m' (object_ID object) \<noteq> None \<and>
       used \<le> object_depth m' object - uint (object_Size object) \<and> object_depth m' object \<le> used' \<and>
       object_depth m' object mod object_alignment object = 0) \<and>
    sorted_wrt (\<lambda>x y. object_depth m' x \<le> object_depth m' y - uint (object_Size y)) os"
  using assms
proof (induction os arbitrary: used m)
  case Nil
  then show ?case by simp
next
  case (Cons x os)
  let ?a = "object_alignment x"
  have ms: "memoryScalar (object_Element x)" using Cons.prems(2) by simp
  note a = object_alignment_cases [OF ms]
  define u where "u = alignStack used ?a + uint (object_Size x)"
  have al: "(if ?a > 8 then 8 else ?a) = ?a" using a by auto
  from Cons.prems(1) have u4: "u \<le> 4096"
    and rest: "allocate_objects os u (m(object_ID x \<mapsto> word_of_int (- u))) = Inr (used', m')"
    unfolding allocate_objects.simps Let_def object_alignment_def [symmetric] al u_def [symmetric]
    by (auto split: if_splits)
  have ge: "used \<le> alignStack used ?a" "alignStack used ?a mod ?a = 0"
    using alignStack_ge(1,2) [OF a] by blast+
  have u0: "used \<le> u - uint (object_Size x)" "0 \<le> u"
    using ge(1) Cons.prems(3) by (simp_all add: u_def)
  have umod: "u mod ?a = 0"
    using dvd_add [of ?a "alignStack used ?a" "uint (object_Size x)"] ge(2) object_Size_aligned [OF ms]
    unfolding u_def by (simp only: dvd_eq_mod_eq_0)
  have "used' \<le> 4096 \<and> u \<le> used' \<and>
      (\<forall>i. i \<notin> object_ID ` set os \<longrightarrow> m' i = (m(object_ID x \<mapsto> word_of_int (- u))) i) \<and>
      (\<forall>object \<in> set os. m' (object_ID object) \<noteq> None \<and>
         u \<le> object_depth m' object - uint (object_Size object) \<and> object_depth m' object \<le> used' \<and>
         object_depth m' object mod object_alignment object = 0) \<and>
      sorted_wrt (\<lambda>x y. object_depth m' x \<le> object_depth m' y - uint (object_Size y)) os"
    using Cons.IH [OF rest _ u0(2) u4] Cons.prems(2,5) by simp
  moreover from this have "object_depth m' x = u"
    using Cons.prems(5) u0(2) u4 depth_of_int [of u]
    by (simp add: object_depth_def del: of_int_minus)
  moreover have "m' (object_ID x) \<noteq> None" using calculation(1) Cons.prems(5) by simp
  moreover have "used \<le> u" using u0(1) uint_ge_0 [of "object_Size x"] by linarith
  ultimately show ?case using u0 umod Cons.prems(5)
    by (simp del: fun_upd_apply) (intro conjI ballI allI impI; (fastforce | linarith))
qed

section \<open>Values\<close>

lemma parameterIndex_Some:
  "parameterIndex f i = Some k \<Longrightarrow> k < length (fn_Params f) \<and> fn_Params f ! k = i"
  unfolding parameterIndex_def by (drule map_of_SomeD) (auto simp: set_zip)

definition param_home :: "nat \<Rightarrow> valueLocation" where
  "param_home k = registerLocation (of_nat (k + 1))"

definition spill_home :: "int \<Rightarrow> valueLocation" where
  "spill_home d = stackLocation (word_of_int (- d))"

text \<open>The possible homes, given how many preserved registers and how much stack are in use.\<close>

inductive home_class :: "ir_function \<Rightarrow> nat \<Rightarrow> int \<Rightarrow> int \<Rightarrow> value_id \<Rightarrow> valueLocation \<Rightarrow> bool"
  for f n base used i where
  result: "i \<in> set (directReturnValues f) \<Longrightarrow> home_class f n base used i (registerLocation R0)"
| param: "parameterIndex f i = Some k \<Longrightarrow> k < 3 \<Longrightarrow> \<not> functionHasCall f \<Longrightarrow>
    home_class f n base used i (param_home k)"
| saved: "k < n \<Longrightarrow> home_class f n base used i (registerLocation (preserved ! k))"
| spill: "base < d \<Longrightarrow> d \<le> used \<Longrightarrow> d mod 8 = 0 \<Longrightarrow>
    home_class f n base used i (spill_home d)"

lemma home_class_mono:
  "home_class f n base used i l \<Longrightarrow> n \<le> n' \<Longrightarrow> used \<le> used' \<Longrightarrow> home_class f n' base used' i l"
  by (induction rule: home_class.induct) (auto intro: home_class.intros)

definition assigned ::
  "ir_function \<Rightarrow> int \<Rightarrow> value_id set \<Rightarrow> nat \<times> int \<times> (value_id \<Rightarrow> valueLocation option) \<Rightarrow> bool" where
  "assigned f base ids st \<longleftrightarrow>
     (case st of (n, used, homes) \<Rightarrow>
        n \<le> 4 \<and> base \<le> used \<and> used \<le> 4096 \<and> used mod 8 = 0 \<and>
        (\<forall>i \<in> ids. \<exists>l. homes i = Some l \<and> home_class f n base used i l) \<and>
        (\<forall>i \<in> ids. \<forall>j \<in> ids. i \<noteq> j \<and> homes i = homes j \<longrightarrow> homes i = Some (registerLocation R0)))"

lemma registerLocation_inject [simp]: "registerLocation r = registerLocation r' \<longleftrightarrow> r = r'"
  by (simp add: registerLocation_def)

lemma location_kinds [simp]:
  "registerLocation r \<noteq> spill_home d" "spill_home d \<noteq> registerLocation r"
  "param_home k \<noteq> spill_home d" "spill_home d \<noteq> param_home k"
  by (simp_all add: registerLocation_def stackLocation_def spill_home_def param_home_def)

lemma spill_home_inject:
  assumes "0 \<le> d" "d \<le> 4096" "0 \<le> e" "e \<le> 4096" and "spill_home d = spill_home e"
  shows "d = e"
proof -
  from assms(5) have "depth (word_of_int (- d)) = depth (word_of_int (- e))"
    unfolding spill_home_def stackLocation_def by (metis valueLocation.ext_inject)
  then show ?thesis using depth_of_int assms(1-4) by metis
qed

lemma less_3_4:
  "k < 3 \<longleftrightarrow> k = 0 \<or> k = Suc 0 \<or> k = (2::nat)" "k < 4 \<longleftrightarrow> k = 0 \<or> k = Suc 0 \<or> k = (2::nat) \<or> k = 3"
  by auto

lemma home_registers:
  "k < 3 \<Longrightarrow> param_home k \<noteq> registerLocation R0"
  "k < 3 \<Longrightarrow> k' < 4 \<Longrightarrow> param_home k \<noteq> registerLocation (preserved ! k')"
  "k' < 4 \<Longrightarrow> preserved ! k' \<noteq> R0"
  "k < 3 \<Longrightarrow> j < 3 \<Longrightarrow> param_home k = param_home j \<Longrightarrow> k = j"
  "k < 4 \<Longrightarrow> j < 4 \<Longrightarrow> preserved ! k = preserved ! j \<Longrightarrow> k = j"
  by (auto simp: less_3_4 preserved_def param_home_def)

text \<open>Adding a home that none of the earlier values has.\<close>

lemma assigned_insert:
  assumes st: "assigned f base ids (n, used, homes)" and i: "i \<notin> ids"
    and n: "n \<le> n'" "n' \<le> 4" and u: "used \<le> used'" "used' \<le> 4096" "used' mod 8 = 0"
    and l: "home_class f n' base used' i l"
    and fresh: "\<And>j. j \<in> ids \<Longrightarrow> home_class f n base used j l \<Longrightarrow> l = registerLocation R0"
  shows "assigned f base (insert i ids) (n', used', homes(i \<mapsto> l))"
proof -
  from st have base: "base \<le> used"
    and old: "\<forall>j \<in> ids. \<exists>l. homes j = Some l \<and> home_class f n base used j l"
    and inj: "\<forall>i \<in> ids. \<forall>j \<in> ids. i \<noteq> j \<and> homes i = homes j \<longrightarrow> homes i = Some (registerLocation R0)"
    by (auto simp: assigned_def)
  have ne: "j \<noteq> i" if "j \<in> ids" for j using i that by blast
  have new: "\<forall>j \<in> ids. \<exists>l. homes j = Some l \<and> home_class f n' base used' j l"
    using old home_class_mono [OF _ n(1) u(1)] by blast
  have other: "homes j = Some l \<longrightarrow> l = registerLocation R0" if "j \<in> ids" for j
    using old that fresh [OF that] by (metis option.inject)
  show ?thesis
    unfolding assigned_def prod.case
  proof (intro conjI ballI impI)
    show "\<exists>m. (homes(i \<mapsto> l)) j = Some m \<and> home_class f n' base used' j m" if "j \<in> insert i ids" for j
      using that new ne l by (cases "j = i") auto
    fix j k
    assume jk: "j \<in> insert i ids" "k \<in> insert i ids" "j \<noteq> k \<and> (homes(i \<mapsto> l)) j = (homes(i \<mapsto> l)) k"
    consider "j = i" "k \<in> ids" "homes k = Some l" | "k = i" "j \<in> ids" "homes j = Some l"
      | "j \<in> ids" "k \<in> ids" "j \<noteq> i" "homes j = homes k"
      using jk ne by (cases "j = i"; cases "k = i") auto
    then show "(homes(i \<mapsto> l)) j = Some (registerLocation R0)"
    proof cases
      case 3
      then have "homes j = Some (registerLocation R0)" using inj jk(3) by blast
      with 3(3) show ?thesis by simp
    qed (use other in simp_all)
  qed (use n u base in linarith)+
qed

lemma assignPersistent_assigned:
  assumes st: "assigned f base ids (n, used, homes)" and i: "i \<notin> ids" and base: "0 \<le> base"
    and a: "assignPersistent (directReturnValues f) i (n, used, homes) = Inr st'"
  shows "assigned f base (insert i ids) st'"
proof -
  have b: "n \<le> 4" "base \<le> used" "used \<le> 4096" "used mod 8 = 0"
    using st by (auto simp: assigned_def)
  consider (fast) "i \<in> set (directReturnValues f)" "st' = (n, used, homes(i \<mapsto> registerLocation R0))"
    | (reg) "n < 4" "st' = (n + 1, used, homes(i \<mapsto> registerLocation (preserved ! n)))"
    | (spill) "used + 8 \<le> 4096" "st' = (n, used + 8, homes(i \<mapsto> spill_home (used + 8)))"
    using a by (auto simp: assignPersistent_def Let_def preserved_def spill_home_def split: if_splits)
  then show ?thesis
  proof cases
    case fast
    show ?thesis
      unfolding fast(2)
      by (rule assigned_insert [OF st i]) (use fast(1) b in \<open>auto intro: home_class.intros\<close>)
  next
    case reg
    show ?thesis
      unfolding reg(2)
    proof (rule assigned_insert [OF st i])
      fix j assume "home_class f n base used j (registerLocation (preserved ! n))"
      then show "registerLocation (preserved ! n) = registerLocation R0"
      proof (cases rule: home_class.cases)
        case (param k)
        then show ?thesis using home_registers(2) [of k n] reg(1) by simp
      next
        case (saved k)
        then show ?thesis using home_registers(5) [of k n] reg(1) by simp
      qed simp_all
    qed (use reg(1) b in \<open>auto intro: home_class.saved\<close>)
  next
    case spill
    show ?thesis
      unfolding spill(2)
    proof (rule assigned_insert [OF st i])
      fix j assume "home_class f n base used j (spill_home (used + 8))"
      then show "spill_home (used + 8) = registerLocation R0"
      proof (cases rule: home_class.cases)
        case (spill d)
        then have "used + 8 = d"
          using \<open>used + 8 \<le> 4096\<close> b base by (intro spill_home_inject) simp_all
        with spill show ?thesis by simp
      qed simp_all
    next
      show "home_class f n base (used + 8) i (spill_home (used + 8))"
        by (rule home_class.spill) (use b in \<open>simp_all\<close>)
    qed (use spill(1) b in \<open>auto\<close>)
  qed
qed

lemma assign_values_assigned:
  assumes "assign_values f vs st = Inr st'" and "assigned f base ids st" and "0 \<le> base"
    and "distinct (map value_ID vs)" and "value_ID ` set vs \<inter> ids = {}"
  shows "assigned f base (value_ID ` set vs \<union> ids) st'"
  using assms
proof (induction vs arbitrary: st ids)
  case Nil
  then show ?case by simp
next
  case (Cons v vs)
  obtain n used homes where st: "st = (n, used, homes)" by (cases st)
  have v: "value_ID v \<notin> ids" using Cons.prems(5) by simp
  have b: "n \<le> 4" "used \<le> 4096" "used mod 8 = 0" using Cons.prems(2) by (auto simp: st assigned_def)
  from Cons.prems(1) obtain st1 where rest: "assign_values f vs st1 = Inr st'" and one:
    "(\<exists>k. parameterIndex f (value_ID v) = Some k \<and> \<not> functionHasCall f \<and> k < 3 \<and>
        st1 = (n, used, homes(value_ID v \<mapsto> param_home k))) \<or>
     assignPersistent (directReturnValues f) (value_ID v) st = Inr st1"
    by (fastforce simp: st and_then_Inr_conv param_home_def split: option.splits if_splits)
  from one have "assigned f base (insert (value_ID v) ids) st1"
  proof (elim disjE exE conjE)
    fix k assume k: "parameterIndex f (value_ID v) = Some k" "\<not> functionHasCall f" "k < 3"
      and st1: "st1 = (n, used, homes(value_ID v \<mapsto> param_home k))"
    show ?thesis
      unfolding st1
    proof (rule assigned_insert [OF Cons.prems(2) [unfolded st] v])
      fix j assume j: "j \<in> ids" and "home_class f n base used j (param_home k)"
      from this(2) show "param_home k = registerLocation R0"
      proof (cases rule: home_class.cases)
        case (param k')
        then have "k' = k" using home_registers(4) [OF k(3)] by force
        then have "j = value_ID v" using param(2) k(1) parameterIndex_Some by blast
        with j v show ?thesis by simp
      next
        case (saved k')
        then show ?thesis using home_registers(2) [OF k(3), of k'] b(1) by simp
      qed simp_all
    qed (use k b in \<open>auto intro: home_class.param\<close>)
  qed (use Cons.prems(2,3) v in \<open>auto simp: st intro: assignPersistent_assigned\<close>)
  then have "assigned f base (value_ID ` set vs \<union> insert (value_ID v) ids) st'"
    using Cons.prems(3,4,5) by (intro Cons.IH [OF rest]) auto
  then show ?case by simp
qed

section \<open>The frame\<close>

definition object_range :: "registerAllocation \<Rightarrow> memory_object \<Rightarrow> int \<times> int" where
  "object_range a object =
     (let d = depth (the (ra_objects a (object_ID object))) in (d - uint (object_Size object), d))"

definition spilled :: "registerAllocation \<Rightarrow> ir_value \<Rightarrow> bool" where
  "spilled a v \<longleftrightarrow> (case ra_homes a (value_ID v) of Some l \<Rightarrow> vl_stack l | None \<Rightarrow> False)"

definition spill_range :: "registerAllocation \<Rightarrow> ir_value \<Rightarrow> int \<times> int" where
  "spill_range a v = (let d = depth (vl_offset (the (ra_homes a (value_ID v)))) in (d - 8, d))"

text \<open>The byte ranges in use, as depths below the frame pointer: locals, then spill slots.\<close>

definition frame_ranges :: "ir_function \<Rightarrow> registerAllocation \<Rightarrow> (int \<times> int) list" where
  "frame_ranges f a =
     map (object_range a) (fn_Memory f) @ map (spill_range a) (filter (spilled a) (fn_Values f))"

definition home_register_ok :: "ir_function \<Rightarrow> value_id \<Rightarrow> valueLocation \<Rightarrow> bool" where
  "home_register_ok f i l \<longleftrightarrow> vl_stack l \<or> vl_reg l \<in> {R6, R7, R8, R9} \<or>
     vl_reg l = R0 \<and> i \<in> set (directReturnValues f) \<or>
     vl_reg l \<in> {R1, R2, R3} \<and> \<not> functionHasCall f \<and> i \<in> set (fn_Params f)"

lemma home_class_facts:
  assumes "home_class f n base used i l" and "n \<le> 4" and "0 \<le> base" and "used \<le> 4096"
  shows "home_register_ok f i l"
    and "vl_stack l \<Longrightarrow> l = spill_home (depth (vl_offset l)) \<and>
      base < depth (vl_offset l) \<and> depth (vl_offset l) \<le> used \<and> depth (vl_offset l) mod 8 = 0"
proof -
  show "home_register_ok f i l"
    using assms
  proof (cases rule: home_class.cases)
    case result
    then show ?thesis by (simp add: home_register_ok_def registerLocation_def)
  next
    case (param k)
    moreover have "i \<in> set (fn_Params f)"
      using parameterIndex_Some [OF param(2)] by (metis nth_mem)
    ultimately show ?thesis
      by (auto simp: home_register_ok_def less_3_4 param_home_def registerLocation_def)
  next
    case (saved k)
    then have "k < 4" using assms(2) by simp
    then have "preserved ! k \<in> set preserved" by (intro nth_mem) (simp add: preserved_def)
    then show ?thesis
      unfolding home_register_ok_def saved(1) registerLocation_def preserved_def by auto
  next
    case (spill d)
    then show ?thesis by (simp add: home_register_ok_def spill_home_def stackLocation_def)
  qed
  assume st: "vl_stack l"
  show "l = spill_home (depth (vl_offset l)) \<and>
      base < depth (vl_offset l) \<and> depth (vl_offset l) \<le> used \<and> depth (vl_offset l) mod 8 = 0"
    using assms(1)
  proof (cases rule: home_class.cases)
    case (spill d)
    have "depth (word_of_int (- d)) = d" using spill assms(3,4) by (intro depth_of_int) simp_all
    then have "depth (vl_offset l) = d"
      unfolding spill(1) spill_home_def stackLocation_def by simp
    with spill show ?thesis by simp
  qed (use st in \<open>simp_all add: registerLocation_def param_home_def\<close>)
qed

lemma uint_positive: "w \<noteq> 0 \<Longrightarrow> 1 \<le> uint (w :: 'a::len word)"
  using uint_ge_0 [of w] unsigned_eq_0_iff [of w, where ?'a = int] by linarith

lemma allocateRegisters_parts:
  assumes v: "validateFunction f fns = None" and n: "length (fn_Values f) \<le> 2 ^ 32"
    and a: "allocateRegisters f = Inr a"
  obtains used n' used' where
    "allocate_objects (fn_Memory f) 0 (\<lambda>_. None) = Inr (used, ra_objects a)"
    "0 \<le> used" "used \<le> alignStack used 8"
    "assigned f (alignStack used 8) (value_ID ` set (fn_Values f)) (n', used', ra_homes a)"
    "\<forall>object \<in> set (fn_Memory f). memoryScalar (object_Element object)"
    "used \<le> 4096" "distinct (map object_ID (fn_Memory f))" "distinct (map value_ID (fn_Values f))"
proof -
  from a obtain used n' used' where o': "allocate_objects (fn_Memory f) 0 (\<lambda>_. None) = Inr (used, ra_objects a)"
    and vals: "assign_values f (fn_Values f) (0, alignStack used 8, \<lambda>_. None) = Inr (n', used', ra_homes a)"
    by (auto simp: allocateRegisters_def and_then_Inr_conv)
  have ms: "\<forall>object \<in> set (fn_Memory f). memoryScalar (object_Element object)"
    using validateFunctionD(4) [OF v] by (auto simp: in_set_conv_nth)
  have bound: "int (length os) \<le> used - u" if "allocate_objects os u m = Inr (used, m')" and
    "\<forall>object \<in> set os. memoryScalar (object_Element object) \<and> object_Size object \<noteq> 0" for os u m m'
    using that
  proof (induction os arbitrary: u m)
    case (Cons x os)
    let ?a = "object_alignment x"
    have "?a = 1 \<or> ?a = 4 \<or> ?a = 8" using Cons.prems(2) by (intro object_alignment_cases) simp
    then have al: "(if ?a > 8 then 8 else ?a) = ?a" and ge: "u \<le> alignStack u ?a"
      using alignStack_ge(1) by auto
    have "uint (object_Size x) \<ge> 1"
      using Cons.prems(2) by (intro uint_positive) simp
    moreover have "int (length os) \<le> used - (alignStack u ?a + uint (object_Size x))"
      using Cons.prems unfolding allocate_objects.simps Let_def object_alignment_def [symmetric] al
      by (intro Cons.IH) (auto split: if_splits)
    ultimately show ?case using ge by simp
  qed simp
  have used4: "used \<le> 4096" if "allocate_objects os u m = Inr (used, m')" "u \<le> 4096" for os u m m'
    using that by (induction os arbitrary: u m) (auto simp: Let_def split: if_splits)
  have "int (length (fn_Memory f)) \<le> 4096"
    using bound [OF o'] used4 [OF o'] validateFunctionD(4) [OF v] by (force simp: in_set_conv_nth)
  then have dobj: "distinct (map object_ID (fn_Memory f))"
    using validateFunctionD(4) [OF v] by (intro distinct_map_of_nat) simp_all
  have dval: "distinct (map value_ID (fn_Values f))"
    using validateFunctionD(2) [OF v] n by (intro distinct_map_of_nat) simp_all
  have spec: "0 \<le> used" "used \<le> 4096"
    using allocate_objects_spec [OF o' ms _ _ dobj] by simp_all
  note al = alignStack_ge [of 8 used]
  have "alignStack used 8 \<le> 4096"
    using al(2,3) spec(2) by presburger
  then have "assigned f (alignStack used 8) {} (0, alignStack used 8, \<lambda>_. None)"
    using al(2) by (simp add: assigned_def)
  from assign_values_assigned [OF vals this _ dval] al(1) spec(1)
  have "assigned f (alignStack used 8) (value_ID ` set (fn_Values f)) (n', used', ra_homes a)"
    by simp
  with that [OF o' spec(1) _ _ ms spec(2) dobj dval] al(1) show ?thesis by simp
qed

lemma sorted_wrt_pairwise:
  "distinct xs \<Longrightarrow> (\<And>x y. x \<in> set xs \<Longrightarrow> y \<in> set xs \<Longrightarrow> x \<noteq> y \<Longrightarrow> P x y) \<Longrightarrow> sorted_wrt P xs"
  by (induction xs) auto

text \<open>Every value has a home of the expected kind, and two values share one only in \<open>r0\<close>.\<close>

lemma home_facts:
  assumes "validateFunction f fns = None" and "length (fn_Values f) \<le> 2 ^ 32"
    and "allocateRegisters f = Inr a" and "v \<in> set (fn_Values f)"
  shows "\<exists>l. ra_homes a (value_ID v) = Some l \<and> home_register_ok f (value_ID v) l \<and>
    (vl_stack l \<longrightarrow> l = spill_home (depth (vl_offset l)) \<and> 8 \<le> depth (vl_offset l) \<and>
       depth (vl_offset l) \<le> 4096 \<and> depth (vl_offset l) mod 8 = 0)"
    and "w \<in> set (fn_Values f) \<Longrightarrow> value_ID v \<noteq> value_ID w \<Longrightarrow>
      ra_homes a (value_ID v) = ra_homes a (value_ID w) \<Longrightarrow>
      ra_homes a (value_ID v) = Some (registerLocation R0)"
proof -
  obtain n' used' used where as:
    "assigned f (alignStack used 8) (value_ID ` set (fn_Values f)) (n', used', ra_homes a)"
    and u: "0 \<le> used" "used \<le> alignStack used 8"
    by (rule allocateRegisters_parts [OF assms(1-3)]) blast
  from as have b: "n' \<le> 4" "used' \<le> 4096" by (auto simp: assigned_def)
  have base: "0 \<le> alignStack used 8" using u by simp
  from as assms(4) obtain l where l: "ra_homes a (value_ID v) = Some l"
    and c: "home_class f n' (alignStack used 8) used' (value_ID v) l"
    by (auto simp: assigned_def)
  have "8 \<le> depth (vl_offset l)" if "vl_stack l"
  proof -
    have "alignStack used 8 < depth (vl_offset l)" "depth (vl_offset l) mod 8 = 0"
      using home_class_facts(2) [OF c b(1) base b(2) that] by simp_all
    then show ?thesis using base by presburger
  qed
  then show "\<exists>l. ra_homes a (value_ID v) = Some l \<and> home_register_ok f (value_ID v) l \<and>
    (vl_stack l \<longrightarrow> l = spill_home (depth (vl_offset l)) \<and> 8 \<le> depth (vl_offset l) \<and>
       depth (vl_offset l) \<le> 4096 \<and> depth (vl_offset l) mod 8 = 0)"
    using l home_class_facts [OF c b(1) base b(2)] b(2) by (intro exI [of _ l]) auto
  show "w \<in> set (fn_Values f) \<Longrightarrow> value_ID v \<noteq> value_ID w \<Longrightarrow>
      ra_homes a (value_ID v) = ra_homes a (value_ID w) \<Longrightarrow>
      ra_homes a (value_ID v) = Some (registerLocation R0)"
    using as assms(4) by (auto simp: assigned_def)
qed

text \<open>
  C14. On a validated function, allocation either reports that the frame is too small or gives every
  value a home: a preserved register \<open>r6\<close> to \<open>r9\<close>, an argument register the function never
  clobbers, \<open>r0\<close> for a value returned by the instruction that computes it, or a spill slot.  Two values
  share a home only when both live in \<open>r0\<close>.  The scratch registers \<open>r4\<close> and \<open>r5\<close> and the frame
  pointer are never homes.
\<close>

theorem allocateRegisters_homes:
  assumes "validateFunction f fns = None" and "length (fn_Values f) \<le> 2 ^ 32"
    and "allocateRegisters f = Inr a"
  shows "(\<forall>v \<in> set (fn_Values f). \<exists>l. ra_homes a (value_ID v) = Some l \<and>
      home_register_ok f (value_ID v) l) \<and>
    (\<forall>v \<in> set (fn_Values f). \<forall>w \<in> set (fn_Values f).
      value_ID v \<noteq> value_ID w \<and> ra_homes a (value_ID v) = ra_homes a (value_ID w) \<longrightarrow>
      ra_homes a (value_ID v) = Some (registerLocation R0))"
  using home_facts [OF assms] by blast

lemma multiples_of_8_apart:
  "p mod 8 = 0 \<Longrightarrow> q mod 8 = 0 \<Longrightarrow> p \<noteq> q \<Longrightarrow> p + 8 \<le> q \<or> q + 8 \<le> (p :: int)"
  by presburger

lemma frame_ranges_ok:
  assumes "validateFunction f fns = None" and "length (fn_Values f) \<le> 2 ^ 32"
    and "allocateRegisters f = Inr a"
  shows "(\<forall>(lo, hi) \<in> set (frame_ranges f a). 0 \<le> lo \<and> lo < hi \<and> hi \<le> 4096) \<and>
    sorted_wrt (\<lambda>(a, b) (c, d). b \<le> c \<or> d \<le> a) (frame_ranges f a)"
proof -
  obtain n' used' used where o': "allocate_objects (fn_Memory f) 0 (\<lambda>_. None) = Inr (used, ra_objects a)"
    and as: "assigned f (alignStack used 8) (value_ID ` set (fn_Values f)) (n', used', ra_homes a)"
    and u: "0 \<le> used" "used \<le> alignStack used 8" "used \<le> 4096"
    and ms: "\<forall>object \<in> set (fn_Memory f). memoryScalar (object_Element object)"
    and d: "distinct (map object_ID (fn_Memory f))" "distinct (map value_ID (fn_Values f))"
    by (rule allocateRegisters_parts [OF assms]) blast
  let ?base = "alignStack used 8"
  from as have b: "n' \<le> 4" "used' \<le> 4096" and base: "0 \<le> ?base" using u by (auto simp: assigned_def)
  have obj: "used \<le> 4096 \<and> (\<forall>x \<in> set (fn_Memory f). 0 \<le> object_depth (ra_objects a) x - uint (object_Size x) \<and>
        object_depth (ra_objects a) x \<le> used) \<and>
      sorted_wrt (\<lambda>x y. object_depth (ra_objects a) x \<le> object_depth (ra_objects a) y - uint (object_Size y))
        (fn_Memory f)"
    using allocate_objects_spec [OF o' ms _ _ d(1)] by simp
  have size: "0 < uint (object_Size x)" if "x \<in> set (fn_Memory f)" for x
  proof -
    have "object_Size x \<noteq> 0"
      using that validateFunctionD(4) [OF assms(1)] by (auto simp: in_set_conv_nth)
    then show ?thesis using uint_positive [of "object_Size x"] by linarith
  qed
  have spill: "?base \<le> fst (spill_range a v) \<and> snd (spill_range a v) = fst (spill_range a v) + 8 \<and>
      snd (spill_range a v) \<le> 4096 \<and> snd (spill_range a v) mod 8 = 0 \<and>
      ra_homes a (value_ID v) = Some (spill_home (snd (spill_range a v)))"
    if v: "v \<in> set (filter (spilled a) (fn_Values f))" for v
  proof -
    from v as obtain l where l: "ra_homes a (value_ID v) = Some l" "vl_stack l"
      and c: "home_class f n' ?base used' (value_ID v) l"
      by (auto simp: spilled_def assigned_def split: option.splits)
    have dd: "l = spill_home (depth (vl_offset l))" "?base < depth (vl_offset l)"
      "depth (vl_offset l) \<le> used'" "depth (vl_offset l) mod 8 = 0"
      using home_class_facts(2) [OF c b(1) base b(2) l(2)] by blast+
    have "?base mod 8 = 0" using alignStack_ge(2) [of 8 used] by simp
    then have "?base + 8 \<le> depth (vl_offset l)" using dd(2,4) by presburger
    with l dd b show ?thesis by (simp add: spill_range_def Let_def)
  qed
  have apart: "snd (spill_range a v) \<le> fst (spill_range a w) \<or> snd (spill_range a w) \<le> fst (spill_range a v)"
    if v: "v \<in> set (filter (spilled a) (fn_Values f))" and w: "w \<in> set (filter (spilled a) (fn_Values f))"
      and ne: "v \<noteq> w" for v w
  proof -
    have "value_ID v \<noteq> value_ID w"
      using d(2) v w ne by (auto simp: distinct_map inj_on_def)
    moreover have "ra_homes a (value_ID v) \<noteq> Some (registerLocation R0)" using spill [OF v] by simp
    ultimately have "ra_homes a (value_ID v) \<noteq> ra_homes a (value_ID w)"
      using as v w by (auto simp: assigned_def)
    then have "snd (spill_range a v) \<noteq> snd (spill_range a w)" using spill [OF v] spill [OF w] by auto
    then have "snd (spill_range a v) + 8 \<le> snd (spill_range a w) \<or>
        snd (spill_range a w) + 8 \<le> snd (spill_range a v)"
      using spill [OF v] spill [OF w] by (intro multiples_of_8_apart) blast+
    then show ?thesis using spill [OF v] spill [OF w] by linarith
  qed
  have dist: "distinct (filter (spilled a) (fn_Values f))" using d(2) by (simp add: distinct_map)
  show ?thesis
  proof (intro conjI)
    show "\<forall>(lo, hi) \<in> set (frame_ranges f a). 0 \<le> lo \<and> lo < hi \<and> hi \<le> 4096"
    proof -
      have "0 \<le> fst (object_range a x) \<and> fst (object_range a x) < snd (object_range a x) \<and>
          snd (object_range a x) \<le> 4096" if "x \<in> set (fn_Memory f)" for x
        using bspec [OF obj [THEN conjunct2, THEN conjunct1] that] size [OF that] u(3)
        by (simp add: object_range_def object_depth_def Let_def)
      moreover have "0 \<le> fst (spill_range a v) \<and> fst (spill_range a v) < snd (spill_range a v) \<and>
          snd (spill_range a v) \<le> 4096" if "v \<in> set (filter (spilled a) (fn_Values f))" for v
        using spill [OF that] base by linarith
      ultimately show ?thesis by (simp add: frame_ranges_def split_beta ball_Un)
    qed
    have 1: "sorted_wrt (\<lambda>(a, b) (c, d). b \<le> c \<or> d \<le> a) (map (object_range a) (fn_Memory f))"
      unfolding sorted_wrt_map
      by (rule sorted_wrt_mono_rel [OF _ obj [THEN conjunct2, THEN conjunct2]])
        (simp add: object_range_def object_depth_def Let_def)
    have 2: "sorted_wrt (\<lambda>(a, b) (c, d). b \<le> c \<or> d \<le> a)
        (map (spill_range a) (filter (spilled a) (fn_Values f)))"
      unfolding sorted_wrt_map by (rule sorted_wrt_pairwise [OF dist]) (use apart in \<open>auto simp: split_beta\<close>)
    have 3: "snd (object_range a x) \<le> fst (spill_range a v)"
      if "x \<in> set (fn_Memory f)" "v \<in> set (filter (spilled a) (fn_Values f))" for x v
      using bspec [OF obj [THEN conjunct2, THEN conjunct1] that(1)] spill [OF that(2)] u(2)
      by (simp add: object_range_def object_depth_def Let_def)
    show "sorted_wrt (\<lambda>(a, b) (c, d). b \<le> c \<or> d \<le> a) (frame_ranges f a)"
      unfolding frame_ranges_def sorted_wrt_append using 1 2 3 by (auto simp: split_beta)
  qed
qed

lemma object_aligned:
  assumes "validateFunction f fns = None" and "length (fn_Values f) \<le> 2 ^ 32"
    and "allocateRegisters f = Inr a" and "object \<in> set (fn_Memory f)"
  shows "snd (object_range a object) mod object_alignment object = 0"
proof -
  obtain used where o': "allocate_objects (fn_Memory f) 0 (\<lambda>_. None) = Inr (used, ra_objects a)"
    and ms: "\<forall>object \<in> set (fn_Memory f). memoryScalar (object_Element object)"
    and d: "distinct (map object_ID (fn_Memory f))"
    by (rule allocateRegisters_parts [OF assms(1-3)]) blast
  show ?thesis
    using allocate_objects_spec [OF o' ms _ _ d] assms(4)
    by (simp add: object_range_def object_depth_def Let_def)
qed

text \<open>
  C15. The addressable locals and the spill slots of a validated function lie inside its 4096-byte
  frame, no two of them overlap, and every local is aligned to its element size (relative to the
  frame pointer, a multiple of 4096).
\<close>

theorem frame_layout:
  assumes "validateFunction f fns = None" and "length (fn_Values f) \<le> 2 ^ 32"
    and "allocateRegisters f = Inr a"
  shows "(\<forall>(lo, hi) \<in> set (frame_ranges f a). 0 \<le> lo \<and> lo < hi \<and> hi \<le> 4096) \<and>
    sorted_wrt (\<lambda>(a, b) (c, d). b \<le> c \<or> d \<le> a) (frame_ranges f a) \<and>
    (\<forall>object \<in> set (fn_Memory f). snd (object_range a object) mod object_alignment object = 0)"
  using frame_ranges_ok [OF assms] object_aligned [OF assms] by blast

text \<open>One parameter, six locals (so two of them spill) and two addressable locals.\<close>

definition no_position :: SourcePosition where
  "no_position = \<lparr>Filename = '''', Line = 0, Column = 0\<rparr>"

definition plain_ins :: ir_instruction where
  "plain_ins = \<lparr>ins_Op = OpInvalid, ins_Dest = NoValue, ins_X = NoValue, ins_Y = NoValue, ins_Imm = 0,
     ins_Callee = '''', ins_Args = [], ins_SyscallID = 0, ins_Object = NoMemoryObject,
     ins_SourceObject = NoMemoryObject, ins_Memory = IrMemInvalid, ins_Scale = 0, ins_Pos = no_position\<rparr>"

definition plain_term :: terminator where
  "plain_term = \<lparr>term_Kind = TermReturn, term_Target = 0, term_True = 0, term_False = 0,
     term_Cond = NoValue, term_Result = NoValue, term_Pos = no_position\<rparr>"

definition demo_value :: "value_id \<Rightarrow> value_kind \<Rightarrow> ir_value" where
  "demo_value i k = \<lparr>value_ID = i, value_Name = ''v'', value_Type = TypeUint64, value_Kind = k\<rparr>"

definition demo_fn :: ir_function where
  "demo_fn = \<lparr>fn_Name = ''f'', fn_Params = [0], fn_Result = TypeUint64,
     fn_Values = [demo_value 0 ValueParameter, demo_value 1 ValueLocal, demo_value 2 ValueLocal,
       demo_value 3 ValueLocal, demo_value 4 ValueLocal, demo_value 5 ValueLocal, demo_value 6 ValueLocal],
     fn_Memory = [\<lparr>object_ID = 0, object_Name = ''b'', object_Element = TypeUint8, object_Length = 3\<rparr>,
       \<lparr>object_ID = 1, object_Name = ''w'', object_Element = TypeUint64, object_Length = 2\<rparr>],
     fn_Blocks = [\<lparr>block_ID = 0, block_Name = ''entry'',
       block_Instructions = [plain_ins\<lparr>ins_Op := OpAdd, ins_Dest := 6, ins_X := 0, ins_Y := 5\<rparr>],
       block_Terminator = plain_term\<lparr>term_Result := 6\<rparr>\<rparr>],
     fn_Entry = 0\<rparr>"

lemma demo_fn_valid: "validateFunction demo_fn (\<lambda>_. None) = None"
  by (simp add: validateFunction_def demo_fn_def demo_value_def scalar_def is_pointer_def
      PointerElement_def validate_value_def validate_parameter_def validate_object_def Function_Value_def
      memoryScalar_def object_Size_def memoryBytes_def validate_block_def validateTerminator_def
      Function_Block_def validateInstruction_def validate_arithmetic_def with_value_def integer_def
      plain_ins_def plain_term_def)

lemma demo_fn_allocated: "\<exists>a. allocateRegisters demo_fn = Inr a"
proof -
  have "(case allocateRegisters demo_fn of Inl e \<Rightarrow> False | Inr a \<Rightarrow> True)" by code_simp
  then show ?thesis by (cases "allocateRegisters demo_fn") auto
qed

theorem allocateRegisters_homes_witness:
  "\<exists>a. allocateRegisters demo_fn = Inr a \<and> ra_homes a 4 \<noteq> ra_homes a 5"
proof -
  obtain a where a: "allocateRegisters demo_fn = Inr a" using demo_fn_allocated by blast
  have n: "length (fn_Values demo_fn) \<le> 2 ^ 32" by (simp add: demo_fn_def)
  have "ra_homes a 4 \<noteq> Some (registerLocation R0)"
  proof -
    have "(case allocateRegisters demo_fn of Inl e \<Rightarrow> False
        | Inr a \<Rightarrow> map_option vl_reg (ra_homes a 4) = Some R9)" by code_simp
    then show ?thesis by (auto simp: a registerLocation_def)
  qed
  moreover have "demo_value 4 ValueLocal \<in> set (fn_Values demo_fn)"
    "demo_value 5 ValueLocal \<in> set (fn_Values demo_fn)"
    "value_ID (demo_value 4 ValueLocal) = 4" "value_ID (demo_value 5 ValueLocal) = 5"
    by (simp_all add: demo_fn_def demo_value_def)
  moreover have "ra_homes a (value_ID v) = Some (registerLocation R0)"
    if "v \<in> set (fn_Values demo_fn)" "w \<in> set (fn_Values demo_fn)" "value_ID v \<noteq> value_ID w"
      "ra_homes a (value_ID v) = ra_homes a (value_ID w)" for v w
    using allocateRegisters_homes [OF demo_fn_valid n a] that by blast
  ultimately have "ra_homes a 4 \<noteq> ra_homes a 5" by force
  then show ?thesis using a by blast
qed

theorem frame_layout_witness:
  "\<exists>a. allocateRegisters demo_fn = Inr a \<and>
     sorted_wrt (\<lambda>(a, b) (c, d). b \<le> c \<or> d \<le> a) (frame_ranges demo_fn a)"
proof -
  obtain a where a: "allocateRegisters demo_fn = Inr a" using demo_fn_allocated by blast
  have n: "length (fn_Values demo_fn) \<le> 2 ^ 32" by (simp add: demo_fn_def)
  from frame_layout [OF demo_fn_valid n a] a show ?thesis by blast
qed

end
