(* ===== verification/BackendFacts.thy ===== *)
theory BackendFacts
  imports CodeFacts RegisterFacts
begin

text \<open>
  Instruction selection is correct: the code emitted for an IR operation, run by the interpreter on
  a state whose registers and spill slots hold the values of the IR, leaves a state that holds the
  values after the operation.  The IR operations are given their meaning as Go operations on
  integers, wrapped to the type.
\<close>

section \<open>The meaning of the operations\<close>

text \<open>The integer a register form stands for, and the operations of Go on such integers.\<close>

definition type_value :: "ir_type \<Rightarrow> u64 \<Rightarrow> int" where
  "type_value t v = (if signed_type t then sint v else uint v)"

definition int_operation :: "ir_op \<Rightarrow> int \<Rightarrow> int \<Rightarrow> int" where
  "int_operation op x y =
     (case op of OpAdd \<Rightarrow> x + y | OpSub \<Rightarrow> x - y | OpMul \<Rightarrow> x * y | OpDiv \<Rightarrow> x sdiv y | _ \<Rightarrow> x smod y)"

definition int_comparison :: "ir_op \<Rightarrow> int \<Rightarrow> int \<Rightarrow> bool" where
  "int_comparison op x y =
     (case op of OpEqual \<Rightarrow> x = y | OpNotEqual \<Rightarrow> x \<noteq> y | OpLess \<Rightarrow> x < y | OpLessEqual \<Rightarrow> x \<le> y
      | OpGreater \<Rightarrow> x > y | _ \<Rightarrow> x \<ge> y)"

text \<open>The values of the IR registers after an operation that touches no memory, or its trap.\<close>

definition ir_effect ::
  "ir_function \<Rightarrow> ir_instruction \<Rightarrow> (value_id \<Rightarrow> u64) \<Rightarrow> vm_error + (value_id \<Rightarrow> u64)" where
  "ir_effect f ins env =
     (let dest = ins_Dest ins; t = value_type f dest; tx = value_type f (ins_X ins);
          x = env (ins_X ins); y = env (ins_Y ins);
          ret = (\<lambda>v. Inr (env(dest := register_form t v))) in
      if ins_Op ins = OpConst then ret (ins_Imm ins)
      else if ins_Op ins = OpMove \<or> ins_Op ins = OpPointerAddress then ret x
      else if arithmetic (ins_Op ins) then
        (if (ins_Op ins = OpDiv \<or> ins_Op ins = OpMod) \<and> y = 0 then Inl ErrVmDivisionByZero
         else ret (word_of_int (int_operation (ins_Op ins) (type_value t x) (type_value t y))))
      else if comparison (ins_Op ins) then
        ret (if int_comparison (ins_Op ins) (type_value tx x) (type_value tx y) then 1 else 0)
      else if ins_Op ins = OpPointerAdd then ret (x + y * ucast (ins_Scale ins))
      else
        (if 0 \<le> type_value tx x \<and> type_value tx x < uint (ins_Imm ins) then Inr env
         else Inl ErrVmDivisionByZero))"

definition register_operation :: "ir_op \<Rightarrow> bool" where
  "register_operation op \<longleftrightarrow> op = OpConst \<or> op = OpMove \<or> op = OpPointerAddress \<or> arithmetic op \<or>
     comparison op \<or> op = OpPointerAdd \<or> op = OpBoundsCheck"

section \<open>Arithmetic at the width of the type\<close>

lemma word_of_type_value [simp]: "word_of_int (type_value t v) = v"
  by (simp add: type_value_def)

lemma type_value_inject: "type_value t x = type_value t y \<longleftrightarrow> x = y"
  by (metis word_of_type_value)

lemma compare_values_int:
  "comparison op \<Longrightarrow> compare_values op t x y = int_comparison op (type_value t x) (type_value t y)"
  by (cases rule: comparison_cases, assumption)
    (auto simp: compare_values_def int_comparison_def type_value_inject, 
      auto simp: type_value_def word_less_def word_le_def)

lemma in_bounds_int:
  "in_bounds t x imm \<longleftrightarrow> 0 \<le> type_value t x \<and> type_value t x < uint imm"
  using sint_uint_cases(2) [of x] by (auto simp: in_bounds_def type_value_def word_less_def)

lemma register_form_low: "narrow t \<Longrightarrow> low v = low w \<Longrightarrow> register_form t v = register_form t w"
proof -
  assume n: "narrow t" and l: "low v = low w"
  then have t: "t = TypeUint8 \<or> t = TypeUint32 \<or> t = TypeInt32"
    by (auto simp: narrow_def type_bits_def split: if_splits)
  have "take_bit 32 v = take_bit 32 w" using l take_low(2) by metis
  moreover have "take_bit 8 v = take_bit 8 w" using l take_low(1) by metis
  ultimately show ?thesis using t l by (auto simp: register_form_def)
qed

lemma low_of_int: "low (word_of_int k) = word_of_int k"
  by (rule bit_word_eqI) (auto simp: low_def bit_simps)

lemma low_add: "low (x + y) = low x + low y" "low (x - y) = low x - low y" "low (x * y) = low x * low y"
proof -
  show "low (x + y) = low x + low y"
    using low_of_int [of "uint x + uint y"] low_of_int [of "uint x"] low_of_int [of "uint y"] by simp
  show "low (x - y) = low x - low y"
    using low_of_int [of "uint x - uint y"] low_of_int [of "uint x"] low_of_int [of "uint y"] by simp
  show "low (x * y) = low x * low y"
    using low_of_int [of "uint x * uint y"] low_of_int [of "uint x"] low_of_int [of "uint y"] by simp
qed

lemma unsigned_division:
  "word_of_int (uint x sdiv uint y) = (x div y :: 'a::len word)"
  "word_of_int (uint x smod uint y) = (x mod y :: 'a::len word)"
proof -
  have "uint x sdiv uint y = uint x div uint y"
    by (cases "x = 0"; cases "y = 0")
      (simp_all add: signed_divide_int_def sgn_if unsigned_eq_0_iff order.strict_iff_order)
  then show "word_of_int (uint x sdiv uint y) = x div y" by (simp add: word_div_def)
  have "uint x smod uint y = uint x mod uint y"
    by (cases "x = 0") (simp_all add: signed_modulo_int_def sgn_if unsigned_eq_0_iff order.strict_iff_order)
  then show "word_of_int (uint x smod uint y) = x mod y" by (simp add: word_mod_def)
qed

lemma arithmetic_cases:
  assumes "arithmetic op"
  obtains "op = OpAdd" | "op = OpSub" | "op = OpMul" | "op = OpDiv" | "op = OpMod"
  using assms by (auto simp: arithmetic_def)

lemma wide_value:
  assumes "arithmetic op" and "op = OpDiv \<or> op = OpMod \<longrightarrow> \<not> signed_type t"
  shows "wide_op op x y =
    (if (op = OpDiv \<or> op = OpMod) \<and> y = 0 then Inl ErrVmDivisionByZero
     else Inr (word_of_int (int_operation op (type_value t x) (type_value t y))))"
  using assms(1)
  by (cases rule: arithmetic_cases)
    (use assms(2) in \<open>auto simp: wide_op_def int_operation_def div_or_err_def mod_or_err_def
      type_value_def unsigned_division\<close>)

lemma canonical_narrow_value:
  assumes "canonical t x" and "narrow t"
  shows "type_value t x = (if signed_type t then sint (low x) else uint (low x))" and "low x = 0 \<longleftrightarrow> x = 0"
proof -
  show "type_value t x = (if signed_type t then sint (low x) else uint (low x))"
  proof (cases "signed_type t")
    case True
    note c = canonical_narrow(2) [OF assms True]
    from scast_low_order(2) [OF c c] True show ?thesis by (simp add: type_value_def)
  next
    case False
    from canonical_narrow(1) [OF assms False] have "uint x = uint (take_bit 32 x)" by simp
    then have "uint x = uint (low x)" by (simp only: uint_low unsigned_take_bit_eq)
    with False show ?thesis by (simp add: type_value_def)
  qed
  show "low x = 0 \<longleftrightarrow> x = 0"
  proof
    assume "low x = 0"
    then have "scast (low x) = (0 :: u64)" "take_bit 32 x = 0" using take_low(2) [of x] by simp_all
    then show "x = 0" using canonical_narrow [OF assms] by (cases "signed_type t") simp_all
  qed (simp add: low_def)
qed

lemma narrow_value:
  assumes "arithmetic op" and "op = OpDiv \<or> op = OpMod \<longrightarrow> \<not> signed_type t"
    and "canonical t x" and "canonical t y" and "narrow t"
  shows "(case narrow_op op x y of
      Inl e \<Rightarrow> (op = OpDiv \<or> op = OpMod) \<and> y = 0 \<and> e = ErrVmDivisionByZero
    | Inr v \<Rightarrow> \<not> ((op = OpDiv \<or> op = OpMod) \<and> y = 0) \<and>
        low v = low (word_of_int (int_operation op (type_value t x) (type_value t y))))"
proof -
  note zero = canonical_narrow_value(2) [OF assms(4,5)]
  have lin: "low (word_of_int (int_operation op (type_value t x) (type_value t y))) =
      (case op of OpAdd \<Rightarrow> low x + low y | OpSub \<Rightarrow> low x - low y | _ \<Rightarrow> low x * low y)"
    if "op = OpAdd \<or> op = OpSub \<or> op = OpMul"
    using that low_add [of x y] by (auto simp: int_operation_def)
  have quot: "low (word_of_int (int_operation op (type_value t x) (type_value t y))) =
      (case op of OpDiv \<Rightarrow> low x div low y | _ \<Rightarrow> low x mod low y)" if "op = OpDiv \<or> op = OpMod"
    using that assms(2) canonical_narrow_value(1) [OF assms(3,5)] canonical_narrow_value(1) [OF assms(4,5)]
      unsigned_division [of "low x" "low y"]
    by (auto simp: int_operation_def low_of_int simp del: of_int_eq_iff)
  show ?thesis
    using assms(1)
    by (cases rule: arithmetic_cases)
      (use lin quot zero in \<open>auto simp: narrow_op_def widen_def div_or_err_def mod_or_err_def\<close>)
qed

lemma truncated_value:
  assumes "op = OpDiv \<or> op = OpMod" and "signed_type t"
  shows "truncated op x y = word_of_int (int_operation op (type_value t x) (type_value t y))"
    and "canonical t x \<Longrightarrow> canonical t y \<Longrightarrow> narrow t \<Longrightarrow>
      truncated op (low x) (low y) = low (word_of_int (int_operation op (type_value t x) (type_value t y)))"
  using assms canonical_narrow_value(1) [of t x] canonical_narrow_value(1) [of t y]
  by (auto simp: truncated_def int_operation_def type_value_def low_of_int)

section \<open>Homes and the values they hold\<close>

definition allocated :: "ir_function \<Rightarrow> registerAllocation \<Rightarrow> bool" where
  "allocated f a \<longleftrightarrow> (\<exists>fns. validateFunction f fns = None) \<and> length (fn_Values f) \<le> 2 ^ 32 \<and>
     allocateRegisters f = Inr a"

definition known :: "ir_function \<Rightarrow> value_id \<Rightarrow> bool" where
  "known f i \<longleftrightarrow> snd (Function_Value f i)"

definition slot_address :: "runState \<Rightarrow> u16 \<Rightarrow> u64" where
  "slot_address s off = addSignedOffset (registers s R10) off"

definition home_value :: "registerAllocation \<Rightarrow> value_id \<Rightarrow> runState \<Rightarrow> vm_error + u64" where
  "home_value a i s =
     (let l = home a i in
      if vl_stack l then loadMemory s (slot_address s (vl_offset l)) MemoryDoubleWord
      else Inr (registers s (vl_reg l)))"

text \<open>
  The values of a function in a run state: every value, short of those that live in \<open>r0\<close> from the
  instruction that computes them to the return right after it.
\<close>

definition holds :: "ir_function \<Rightarrow> registerAllocation \<Rightarrow> (value_id \<Rightarrow> u64) \<Rightarrow> runState \<Rightarrow> bool" where
  "holds f a env s \<longleftrightarrow>
     (\<forall>i. known f i \<and> i \<notin> set (directReturnValues f) \<longrightarrow> home_value a i s = Inr (env i))"

definition canonical_env :: "ir_function \<Rightarrow> (value_id \<Rightarrow> u64) \<Rightarrow> bool" where
  "canonical_env f env \<longleftrightarrow> (\<forall>i. known f i \<longrightarrow> canonical (value_type f i) (env i))"

text \<open>The current frame: 4096 bytes below the frame pointer, mapped and writable slot by slot.\<close>

definition frame_ready :: "runState \<Rightarrow> bool" where
  "frame_ready s \<longleftrightarrow> 4096 \<le> unat (registers s R10) \<and> state_pc s = 0 \<and>
     (\<forall>d. 8 \<le> d \<and> d \<le> 4096 \<longrightarrow> mapped s (registers s R10 - of_nat d) MemoryDoubleWord True)"

lemma known_value:
  assumes "known f i"
  obtains v where "v \<in> set (fn_Values f)" "value_ID v = i" "fst (Function_Value f i) = v"
  using Function_Value_in assms unfolding known_def by blast

lemma home_known:
  assumes "allocated f a" and "known f i"
  shows "ra_homes a i = Some (home a i)" and "home_register_ok f i (home a i)"
    and "vl_stack (home a i) \<Longrightarrow> home a i = spill_home (depth (vl_offset (home a i))) \<and>
      8 \<le> depth (vl_offset (home a i)) \<and> depth (vl_offset (home a i)) \<le> 4096 \<and>
      depth (vl_offset (home a i)) mod 8 = 0"
proof -
  from assms(1) obtain fns where al: "validateFunction f fns = None" "length (fn_Values f) \<le> 2 ^ 32"
    "allocateRegisters f = Inr a" by (auto simp: allocated_def)
  from assms(2) obtain v where v: "v \<in> set (fn_Values f)" "value_ID v = i" by (rule known_value)
  from home_facts(1) [OF al v(1)] obtain l where l: "ra_homes a i = Some l \<and> home_register_ok f i l \<and>
    (vl_stack l \<longrightarrow> l = spill_home (depth (vl_offset l)) \<and> 8 \<le> depth (vl_offset l) \<and>
       depth (vl_offset l) \<le> 4096 \<and> depth (vl_offset l) mod 8 = 0)"
    unfolding v(2) ..
  then have h: "home a i = l" by (simp add: home_def)
  show "ra_homes a i = Some (home a i)" "home_register_ok f i (home a i)"
    unfolding h by (rule l [THEN conjunct1], rule l [THEN conjunct2, THEN conjunct1])
  show "vl_stack (home a i) \<Longrightarrow> home a i = spill_home (depth (vl_offset (home a i))) \<and>
      8 \<le> depth (vl_offset (home a i)) \<and> depth (vl_offset (home a i)) \<le> 4096 \<and>
      depth (vl_offset (home a i)) mod 8 = 0"
    unfolding h by (rule l [THEN conjunct2, THEN conjunct2, THEN mp])
qed

lemma home_is_register:
  assumes "allocated f a" and "known f i" and "\<not> vl_stack (home a i)"
  shows "home a i = registerLocation (vl_reg (home a i))"
proof -
  from assms(1) obtain fns where al: "validateFunction f fns = None" "length (fn_Values f) \<le> 2 ^ 32"
    "allocateRegisters f = Inr a" by (auto simp: allocated_def)
  from assms(2) obtain v where v: "v \<in> set (fn_Values f)" "value_ID v = i" by (rule known_value)
  obtain n' used' used where
    as: "assigned f (alignStack used 8) (value_ID ` set (fn_Values f)) (n', used', ra_homes a)"
    by (rule allocateRegisters_parts [OF al]) blast
  with v obtain l where l: "ra_homes a i = Some l" "home_class f n' (alignStack used 8) used' i l"
    by (auto simp: assigned_def)
  then have h: "home a i = l" by (simp add: home_def)
  from l(2) show ?thesis
    unfolding h using assms(3) [unfolded h]
    by (cases rule: home_class.cases)
      (simp_all add: registerLocation_def param_home_def spill_home_def stackLocation_def)
qed

lemma home_distinct:
  assumes "allocated f a" and "known f i" and "known f j" and "i \<noteq> j" and "home a i = home a j"
  shows "home a i = registerLocation R0"
proof -
  from assms(1) obtain fns where al: "validateFunction f fns = None" "length (fn_Values f) \<le> 2 ^ 32"
    "allocateRegisters f = Inr a" by (auto simp: allocated_def)
  from assms(2) obtain v where v: "v \<in> set (fn_Values f)" "value_ID v = i" by (rule known_value)
  from assms(3) obtain w where w: "w \<in> set (fn_Values f)" "value_ID w = j" by (rule known_value)
  show ?thesis
    using home_facts(2) [OF al v(1) w(1)] home_known(1) [OF assms(1,2)] home_known(1) [OF assms(1,3)]
      v(2) w(2) assms(4,5) by simp
qed

lemma parameter_not_direct:
  assumes "validateFunction f fns = None" and "i \<in> set (fn_Params f)"
  shows "i \<notin> set (directReturnValues f)"
proof
  assume "i \<in> set (directReturnValues f)"
  then have "value_Kind (fst (Function_Value f i)) = ValueTemporary"
    by (auto simp: directReturnValues_def List.map_filter_def returned_directly_def Let_def split_beta
        split: if_splits)
  then show False using validateFunctionD(3) [OF assms] by simp
qed

text \<open>A register home of a value that is not returned directly is none of the scratch registers.\<close>

lemma home_not_scratch:
  assumes "allocated f a" and "known f i" and "i \<notin> set (directReturnValues f)"
    and "\<not> vl_stack (home a i)"
  shows "vl_reg (home a i) \<notin> {R0, R4, R5, R10}"
  using home_known(2) [OF assms(1,2)] assms(3,4) by (auto simp: home_register_ok_def)

end
