(* ===== verification/SelectionFacts.thy ===== *)
theory SelectionFacts
  imports BackendFacts
begin

text \<open>
  The two ways the emitted code touches a home, reading it into a register and writing it, and what
  they leave alone: a write changes no other home, and the scratch registers \<open>r0\<close>, \<open>r4\<close> and \<open>r5\<close>
  hold no value between operations.
\<close>

section \<open>Slots\<close>

lemma slot_address_home:
  assumes "allocated f a" and "known f i" and "vl_stack (home a i)"
  obtains d where "home a i = spill_home (int d)" and "8 \<le> d" and "d \<le> 4096" and "d mod 8 = 0"
    and "\<And>s. slot_address s (vl_offset (home a i)) = registers s R10 - of_nat d"
proof -
  obtain k where k: "k = depth (vl_offset (home a i))" by simp
  note h = home_known(3) [OF assms, folded k]
  have s: "scast (vl_offset (home a i)) = (- word_of_int k :: u64)"
    by (simp add: k depth_def)
  have at: "slot_address s (vl_offset (home a i)) = registers s R10 - of_nat (nat k)" for s
    unfolding slot_address_def addSignedOffset_def s using h by (simp add: of_nat_nat)
  have m: "nat k mod 8 = 0" using h nat_mod_distrib [of k 8] by simp
  have e: "home a i = spill_home (int (nat k))" using h by simp
  have "8 \<le> k \<and> k \<le> 4096" using h by blast
  then have "8 \<le> nat k" "nat k \<le> 4096" by arith+
  then show thesis by (rule that [OF e _ _ m at])
qed

lemma unat_below:
  assumes "d \<le> 4096" and "4096 \<le> unat (b :: u64)"
  shows "unat (b - of_nat d) = unat b - d"
proof -
  have "d < 2 ^ 64" using assms(1) by simp
  then have "unat (of_nat d :: u64) = d" by (simp add: unat_of_nat)
  moreover have "of_nat d \<le> b" using assms calculation by (simp add: word_le_nat_alt)
  ultimately show ?thesis by (simp add: unat_sub)
qed

lemma slots_apart:
  assumes "d \<le> 4096" "e \<le> 4096" "d mod 8 = 0" "e mod 8 = 0" "d \<noteq> e" "4096 \<le> unat (b :: u64)"
  shows "apart (b - of_nat d) 8 (b - of_nat e) 8"
proof -
  have "d + 8 \<le> e \<or> e + 8 \<le> d" using assms(3-5) by presburger
  then show ?thesis
    using assms by (auto simp: apart_def unat_below)
qed

section \<open>Memory does not depend on the registers\<close>

lemma memoryRange_registers [simp]: "memoryRange (s\<lparr>registers := rg\<rparr>) a w wr = memoryRange s a w wr"
  by (simp add: memoryRange_def)

lemma loadMemory_registers [simp]: "loadMemory (s\<lparr>registers := rg\<rparr>) a k = loadMemory s a k"
proof -
  have "read_ref (s\<lparr>registers := rg\<rparr>) ref w = read_ref s ref w" for ref w by (cases ref) simp_all
  then show ?thesis by (simp add: loadMemory_def)
qed

lemma mapped_registers [simp]: "mapped (s\<lparr>registers := rg\<rparr>) a k wr = mapped s a k wr"
  by (simp add: mapped_def)

lemma loadMemory_set_reg [simp]: "loadMemory (set_reg r v s) a k = loadMemory s a k"
  by (simp add: set_reg_def)

lemma mapped_set_reg [simp]: "mapped (set_reg r v s) a k wr = mapped s a k wr"
  by (simp add: set_reg_def)

lemma slot_address_set_reg [simp]: "r \<noteq> R10 \<Longrightarrow> slot_address (set_reg r v s) off = slot_address s off"
  by (simp add: slot_address_def set_reg_registers)

section \<open>Putting a value into its home\<close>

definition put_home :: "registerAllocation \<Rightarrow> value_id \<Rightarrow> u64 \<Rightarrow> runState \<Rightarrow> runState" where
  "put_home a i v s =
     (let l = home a i in
      if vl_stack l then
        (case storeMemory s (slot_address s (vl_offset l)) v MemoryDoubleWord of Inl e \<Rightarrow> s | Inr t \<Rightarrow> t)
      else set_reg (vl_reg l) v s)"

lemma put_home_stack:
  assumes "allocated f a" and "known f i" and "frame_ready s" and "vl_stack (home a i)"
  shows "storeMemory s (slot_address s (vl_offset (home a i))) v MemoryDoubleWord = Inr (put_home a i v s)"
proof -
  obtain d where d: "8 \<le> d" "d \<le> 4096"
    "\<And>s. slot_address s (vl_offset (home a i)) = registers s R10 - of_nat d"
    using slot_address_home [OF assms(1,2,4)] by metis
  have "mapped s (slot_address s (vl_offset (home a i))) MemoryDoubleWord True"
    using assms(3) d by (simp add: frame_ready_def)
  then obtain t where "storeMemory s (slot_address s (vl_offset (home a i))) v MemoryDoubleWord = Inr t"
    using store_succeeds_iff by blast
  then show ?thesis by (simp add: put_home_def assms(4))
qed

lemma put_home_frame:
  assumes "allocated f a" and "known f i" and "frame_ready s"
  shows "frame_ready (put_home a i v s)" and "registers (put_home a i v s) R10 = registers s R10"
    and "frames (put_home a i v s) = frames s" and "steps (put_home a i v s) = steps s"
proof -
  have *: "frame_ready (put_home a i v s) \<and> registers (put_home a i v s) R10 = registers s R10 \<and>
      frames (put_home a i v s) = frames s \<and> steps (put_home a i v s) = steps s"
  proof (cases "vl_stack (home a i)")
    case True
    note st = put_home_stack [OF assms True, of v]
    have regs: "registers (put_home a i v s) = registers s" "state_pc (put_home a i v s) = state_pc s"
      "frames (put_home a i v s) = frames s" "steps (put_home a i v s) = steps s"
      using storeMemory_write_ref [OF st] by (metis write_ref_frame)+
    have "mapped (put_home a i v s) b k True = mapped s b k True" for b k
      using vm_mem.accepts_stable [OF st] by simp
    then show ?thesis using assms(3) regs by (simp add: frame_ready_def)
  next
    case False
    have "vl_reg (home a i) \<noteq> R10"
      using home_known(2) [OF assms(1,2)] False by (auto simp: home_register_ok_def)
    then show ?thesis
      using assms(3) False by (simp add: put_home_def frame_ready_def set_reg_registers) (simp add: set_reg_def)
  qed
  from * show "frame_ready (put_home a i v s)" "registers (put_home a i v s) R10 = registers s R10"
    "frames (put_home a i v s) = frames s" "steps (put_home a i v s) = steps s" by blast+
qed

lemma home_value_put_same:
  assumes "allocated f a" and "known f i" and "frame_ready s"
  shows "home_value a i (put_home a i v s) = Inr v"
proof (cases "vl_stack (home a i)")
  case True
  have "slot_address (put_home a i v s) off = slot_address s off" for off
    by (simp add: slot_address_def put_home_frame(2) [OF assms])
  then show ?thesis
    using vm_mem.load_stored [OF put_home_stack [OF assms True, of v]] True
    by (simp add: home_value_def Let_def)
next
  case False
  then show ?thesis by (simp add: home_value_def Let_def put_home_def)
qed

lemma home_value_put_other:
  assumes "allocated f a" and "known f i" and "frame_ready s"
    and "known f j" and "i \<noteq> j" and "j \<notin> set (directReturnValues f)"
  shows "home_value a j (put_home a i v s) = home_value a j s"
proof -
  have ne: "home a i \<noteq> home a j"
  proof
    assume eq: "home a i = home a j"
    then have "home a j = registerLocation R0" using home_distinct [OF assms(1,2,4,5) eq] by simp
    then show False
      using home_not_scratch [OF assms(1,4,6)] by (simp add: registerLocation_def)
  qed
  have slot: "slot_address (put_home a i v s) off = slot_address s off" for off
    by (simp add: slot_address_def put_home_frame(2) [OF assms(1-3)])
  show ?thesis
  proof (cases "vl_stack (home a i)")
    case st: True
    note put = put_home_stack [OF assms(1-3) st, of v]
    have regs: "registers (put_home a i v s) = registers s"
      using storeMemory_write_ref [OF put] by (metis write_ref_frame(2))
    show ?thesis
    proof (cases "vl_stack (home a j)")
      case True
      obtain d where d: "home a i = spill_home (int d)" "d \<le> 4096" "d mod 8 = 0"
        "\<And>s. slot_address s (vl_offset (home a i)) = registers s R10 - of_nat d"
        using slot_address_home [OF assms(1,2) st] by metis
      obtain e where e: "home a j = spill_home (int e)" "e \<le> 4096" "e mod 8 = 0"
        "\<And>s. slot_address s (vl_offset (home a j)) = registers s R10 - of_nat e"
        using slot_address_home [OF assms(1,4) True] by metis
      have "d \<noteq> e" using ne d(1) e(1) by metis
      then have "apart (registers s R10 - of_nat d) 8 (registers s R10 - of_nat e) 8"
        using d(2,3) e(2,3) assms(3) by (intro slots_apart) (auto simp: frame_ready_def)
      then have "loadMemory (put_home a i v s) (registers s R10 - of_nat e) MemoryDoubleWord =
          loadMemory s (registers s R10 - of_nat e) MemoryDoubleWord"
        using vm_mem.load_apart [OF put [unfolded d(4)], of "registers s R10 - of_nat e" MemoryDoubleWord]
        by simp
      then show ?thesis using True by (simp add: home_value_def Let_def slot e(4) put_home_frame(2) [OF assms(1-3)])
    next
      case False
      then show ?thesis by (simp add: home_value_def Let_def regs)
    qed
  next
    case reg: False
    show ?thesis
    proof (cases "vl_stack (home a j)")
      case True
      then show ?thesis using reg by (simp add: home_value_def Let_def slot) (simp add: put_home_def)
    next
      case False
      have "vl_reg (home a i) \<noteq> vl_reg (home a j)"
        using ne home_is_register [OF assms(1,2) reg] home_is_register [OF assms(1,4) False] by metis
      then show ?thesis using reg False
        by (simp add: home_value_def Let_def put_home_def set_reg_registers)
    qed
  qed
qed

section \<open>Scratch registers\<close>

definition scratch_eq :: "runState \<Rightarrow> runState \<Rightarrow> bool" where
  "scratch_eq s t \<longleftrightarrow>
     (\<exists>rg. t = s\<lparr>registers := rg\<rparr> \<and> (\<forall>r. r \<notin> {R0, R4, R5} \<longrightarrow> rg r = registers s r))"

lemma scratch_eq_refl [simp]: "scratch_eq s s"
  unfolding scratch_eq_def by (intro exI [of _ "registers s"]) simp

lemma scratch_eq_set_reg:
  assumes "scratch_eq s t" and "r \<in> {R0, R4, R5}"
  shows "scratch_eq s (set_reg r v t)"
proof -
  from assms(1) obtain rg where rg: "t = s\<lparr>registers := rg\<rparr>" "\<forall>r. r \<notin> {R0, R4, R5} \<longrightarrow> rg r = registers s r"
    by (auto simp: scratch_eq_def)
  have "set_reg r v t = s\<lparr>registers := rg(r := v)\<rparr>" by (simp add: set_reg_def rg(1))
  moreover have "\<forall>q. q \<notin> {R0, R4, R5} \<longrightarrow> (rg(r := v)) q = registers s q"
    using rg(2) assms(2) by auto
  ultimately show ?thesis unfolding scratch_eq_def by blast
qed

lemma scratch_eq_frame:
  assumes "scratch_eq s t"
  shows "frame_ready t = frame_ready s" and "registers t R10 = registers s R10"
    and "frames t = frames s" and "steps t = steps s" and "state_pc t = state_pc s"
    and "loadMemory t = loadMemory s"
proof -
  from assms obtain rg where rg: "t = s\<lparr>registers := rg\<rparr>" "\<forall>r. r \<notin> {R0, R4, R5} \<longrightarrow> rg r = registers s r"
    by (auto simp: scratch_eq_def)
  then have "rg R10 = registers s R10" by simp
  then show "frame_ready t = frame_ready s" "registers t R10 = registers s R10"
    "frames t = frames s" "steps t = steps s" "state_pc t = state_pc s" "loadMemory t = loadMemory s"
    by (simp_all add: rg(1) frame_ready_def fun_eq_iff)
qed

lemma home_value_scratch:
  assumes "scratch_eq s t" and "allocated f a" and "known f i" and "i \<notin> set (directReturnValues f)"
  shows "home_value a i t = home_value a i s"
proof -
  from assms(1) obtain rg where rg: "t = s\<lparr>registers := rg\<rparr>" "\<forall>r. r \<notin> {R0, R4, R5} \<longrightarrow> rg r = registers s r"
    by (auto simp: scratch_eq_def)
  then show ?thesis
    using home_not_scratch [OF assms(2-4)]
    by (auto simp: home_value_def Let_def slot_address_def)
qed

lemma holds_scratch:
  "holds f a env s \<Longrightarrow> allocated f a \<Longrightarrow> scratch_eq s t \<Longrightarrow> holds f a env t"
  by (simp add: holds_def home_value_scratch)

lemma holds_put:
  assumes "allocated f a" and "known f d" and "frame_ready s" and "holds f a env s"
  shows "holds f a (env(d := v)) (put_home a d v s)"
  using assms home_value_put_same [OF assms(1-3)] home_value_put_other [OF assms(1-3)]
  by (auto simp: holds_def)

section \<open>A value returned directly is used by its return only\<close>

lemma count_concat_two:
  assumes "x \<in> set bs" and "y \<in> set bs"
  shows "count_list (g x) i \<le> count_list (concat (map g bs)) i"
    and "x \<noteq> y \<Longrightarrow> count_list (g x) i + count_list (g y) i \<le> count_list (concat (map g bs)) i"
proof -
  have one: "z \<in> set bs \<Longrightarrow> count_list (g z) i \<le> count_list (concat (map g bs)) i" for z
    by (induction bs) auto
  then show "count_list (g x) i \<le> count_list (concat (map g bs)) i" using assms(1) by blast
  show "x \<noteq> y \<Longrightarrow> count_list (g x) i + count_list (g y) i \<le> count_list (concat (map g bs)) i"
    using assms
  proof (induction bs)
    case (Cons b bs)
    have one: "z \<in> set bs \<Longrightarrow> count_list (g z) i \<le> count_list (concat (map g bs)) i" for z
      by (induction bs) auto
    from Cons one [of x] one [of y] show ?case by auto
  qed simp
qed

lemma direct_unused:
  assumes "i \<in> set (directReturnValues f)" and "b \<in> set (fn_Blocks f)"
    and "ins \<in> set (block_Instructions b)"
  shows "i \<notin> set (instruction_uses ins)"
proof
  assume use: "i \<in> set (instruction_uses ins)"
  let ?g = "\<lambda>b. concat (map instruction_uses (block_Instructions b)) @ terminator_uses (block_Terminator b)"
  from assms(1) obtain r where r: "r \<in> set (fn_Blocks f)" "term_Kind (block_Terminator r) = TermReturn"
    "term_Result (block_Terminator r) = i" "i \<noteq> NoValue" "count_list (function_uses f) i = 1"
    by (auto simp: directReturnValues_def List.map_filter_def returned_directly_def Let_def split_beta
        split: if_splits)
  have t: "count_list (terminator_uses (block_Terminator r)) i = 1"
    using r(2-4) by (simp add: terminator_uses_def)
  have "count_list (instruction_uses ins) i \<noteq> 0" using use by (simp add: count_list_0_iff)
  moreover have "count_list (instruction_uses ins) i \<le>
      count_list (concat (map instruction_uses (block_Instructions b))) i"
    by (rule count_concat_two(1) [OF assms(3,3)])
  ultimately have u: "count_list (concat (map instruction_uses (block_Instructions b))) i \<ge> 1" by linarith
  have "count_list (concat (map ?g (fn_Blocks f))) i = 1" using r(5) by (simp add: function_uses_def)
  then show False
    using t u count_concat_two(1) [OF r(1) r(1), of ?g i] count_concat_two(2) [OF r(1) assms(2), of ?g i]
    by (cases "r = b") auto
qed

section \<open>Reading and writing homes in emitted code\<close>

lemma frag_load_slot:
  "frag c (load_slot r off # is) s =
     (case loadMemory s (slot_address s off) MemoryDoubleWord of
        Inl e \<Rightarrow> Inl e | Inr v \<Rightarrow> frag c is (set_reg r v s))"
  by (simp add: frag.simps load_slot_def exec_instruction_def alu64_def isMemoryLoad_def do_load_def
      slot_address_def Instruction_MemoryType_def Let_def split: sum.split)

lemma frag_store_slot:
  "frag c (store_slot r off # is) s =
     (case storeMemory s (slot_address s off) (registers s r) MemoryDoubleWord of
        Inl e \<Rightarrow> Inl e | Inr t \<Rightarrow> frag c is t)"
  by (simp add: frag.simps store_slot_def exec_instruction_def alu64_def isMemoryLoad_def isMemoryStore_def
      do_store_def slot_address_def Instruction_MemoryType_def Let_def split: sum.split)

text \<open>\<open>read_home\<close> is what \<open>readValue\<close> emits for a value that has a home.\<close>

definition read_home :: "valueLocation \<Rightarrow> register \<Rightarrow> instruction list" where
  "read_home l target =
     (if vl_stack l then [load_slot target (vl_offset l)]
      else if vl_reg l \<noteq> target then [ALUReg MOV64_REG target (vl_reg l)] else [])"

definition write_home :: "valueLocation \<Rightarrow> register \<Rightarrow> instruction list" where
  "write_home l source =
     (if vl_stack l then [store_slot source (vl_offset l)]
      else if vl_reg l \<noteq> source then [ALUReg MOV64_REG (vl_reg l) source] else [])"

lemma readValue_home: "allocated f a \<Longrightarrow> known f i \<Longrightarrow> readValue a i r = Inr (read_home (home a i) r)"
  using home_known(1) [of f a i] by (simp add: readValue_def read_home_def)

lemma writeValue_home: "allocated f a \<Longrightarrow> known f i \<Longrightarrow> writeValue a i r = Inr (write_home (home a i) r)"
  using home_known(1) [of f a i] by (simp add: writeValue_def write_home_def)

lemma read_home_frag:
  assumes "home_value a i s = Inr v"
  shows "frag c (read_home (home a i) r @ is) s = frag c is (set_reg r v s)"
  using assms set_reg_id [of r s]
  by (auto simp: home_value_def read_home_def Let_def frag_load_slot frag_mov64 split: if_splits)

lemma write_home_frag:
  assumes "allocated f a" and "known f i" and "frame_ready s"
  shows "frag c (write_home (home a i) r @ is) s = frag c is (put_home a i (registers s r) s)"
proof (cases "vl_stack (home a i)")
  case True
  then show ?thesis
    using put_home_stack [OF assms True] by (simp add: write_home_def frag_store_slot)
next
  case False
  then show ?thesis
    using set_reg_id [of r s] by (auto simp: write_home_def put_home_def frag_mov64)
qed

text \<open>
  An emitter that computes into the target of a home and then stores it if the home is a slot leaves
  the value in the home.
\<close>

lemma store_home_frag:
  assumes "allocated f a" and "known f d" and "frame_ready s" and "scratch_eq s t"
  obtains u where "scratch_eq s u" and
    "\<And>c is. frag c (store_home (home a d) (home_target (home a d)) @ is) (set_reg (home_target (home a d)) v t) =
      frag c is (put_home a d v u)"
proof (cases "vl_stack (home a d)")
  case True
  define u where "u = set_reg R0 v t"
  have u: "scratch_eq s u" unfolding u_def by (rule scratch_eq_set_reg [OF assms(4)]) simp
  then have "frame_ready u" using scratch_eq_frame(1) assms(3) by blast
  then have "frag c (store_slot R0 (vl_offset (home a d)) # is) u = frag c is (put_home a d v u)" for c "is"
    using put_home_stack [OF assms(1,2) _ True, of u v] by (simp add: frag_store_slot u_def)
  then show ?thesis
    using that [OF u] True by (simp add: store_home_def home_target_def u_def)
next
  case False
  then show ?thesis
    using that [OF assms(4)] by (simp add: store_home_def home_target_def put_home_def)
qed

lemma target_not_scratch:
  assumes "allocated f a" and "known f d"
  shows "home_target (home a d) \<notin> {R4, R5, R10}"
  using home_known(2) [OF assms] by (auto simp: home_target_def home_register_ok_def)

lemma location_equal_home:
  assumes "allocated f a" and "known f i" and "known f j"
  shows "location_equal (home a i) (home a j) \<longleftrightarrow> home a i = home a j"
proof
  assume eq: "location_equal (home a i) (home a j)"
  show "home a i = home a j"
  proof (cases "vl_stack (home a i)")
    case True
    then have "vl_stack (home a j)" "vl_offset (home a i) = vl_offset (home a j)"
      using eq by (auto simp: location_equal_def split: if_splits)
    then show ?thesis
      using home_known(3) [OF assms(1,2) True] home_known(3) [OF assms(1,3)] by metis
  next
    case False
    then have "\<not> vl_stack (home a j)" "vl_reg (home a i) = vl_reg (home a j)"
      using eq by (auto simp: location_equal_def split: if_splits)
    then show ?thesis
      using home_is_register [OF assms(1,2) False] home_is_register [OF assms(1,3)] by metis
  qed
qed (simp add: location_equal_def)

section \<open>What an operation leaves\<close>

text \<open>
  The code runs through and leaves the given values in their homes, in a frame that is ready for the
  next operation; the value it computes is in its home even when that is \<open>r0\<close>.
\<close>

definition computes ::
  "ir_function \<Rightarrow> registerAllocation \<Rightarrow> Config \<Rightarrow> instruction list \<Rightarrow> runState \<Rightarrow>
     (value_id \<Rightarrow> u64) \<Rightarrow> value_id \<Rightarrow> bool" where
  "computes f a c code s env d \<longleftrightarrow>
     (\<exists>t. frag c code s = Inr t \<and> holds f a env t \<and> frame_ready t \<and>
        registers t R10 = registers s R10 \<and> frames t = frames s \<and>
        (known f d \<longrightarrow> home_value a d t = Inr (env d)))"

lemma computes_put:
  assumes "allocated f a" and "known f d" and "frame_ready s" and "holds f a env s"
    and "scratch_eq s u" and "frag c code s = Inr (put_home a d v u)"
  shows "computes f a c code s (env(d := v)) d"
proof -
  have u: "frame_ready u" "holds f a env u"
    using scratch_eq_frame(1) [OF assms(5)] assms(3) holds_scratch [OF assms(4,1,5)] by simp_all
  show ?thesis
    unfolding computes_def
    using assms(6) holds_put [OF assms(1,2) u] put_home_frame [OF assms(1,2) u(1), of v]
      home_value_put_same [OF assms(1,2) u(1), of v] scratch_eq_frame(2,3) [OF assms(5)]
    by simp
qed

lemma frame_ready_pc: "frame_ready s \<Longrightarrow> state_pc s = 0"
  by (simp add: frame_ready_def)

text \<open>The common end of the emitters that compute into the target: normalise, then store.\<close>

lemma normalize_store:
  assumes "allocated f a" and "known f d" and "frame_ready s" and "holds f a env s" and "scratch_eq s t"
    and "normalizeRegister (value_type f d) (home_target (home a d)) = Inr n"
    and "frag c code s = frag c (n @ store_home (home a d) (home_target (home a d)))
      (set_reg (home_target (home a d)) v t)"
  shows "computes f a c code s (env(d := register_form (value_type f d) v)) d"
proof -
  obtain u where u: "scratch_eq s u" "\<And>c is. frag c (store_home (home a d) (home_target (home a d)) @ is)
      (set_reg (home_target (home a d)) (register_form (value_type f d) v) t) =
      frag c is (put_home a d (register_form (value_type f d) v) u)"
    using store_home_frag [OF assms(1,2,3,5)] by metis
  have "frag c code s = Inr (put_home a d (register_form (value_type f d) v) u)"
    using assms(7) normalize_frag [OF assms(6), of c "store_home (home a d) (home_target (home a d))"]
      u(2) [of c "[]"] by simp
  then show ?thesis by (rule computes_put [OF assms(1-4) u(1)])
qed

section \<open>The operations\<close>

lemma constant_correct:
  assumes "allocated f a" and "known f d" and "frame_ready s" and "holds f a env s"
    and "emitConstant f a d v = Inr code"
  shows "computes f a c code s (env(d := register_form (value_type f d) v)) d"
proof -
  let ?T = "home_target (home a d)"
  obtain n where n: "normalizeRegister (value_type f d) ?T = Inr n"
    and code: "code = (if v = scast (ucast v :: u32) then ALUImm MOV64_IMM ?T (ucast v)
      else LoadImm64 ?T v) # n @ store_home (home a d) ?T"
    using assms(5) home_known(1) [OF assms(1,2)] by (auto simp: emitConstant_def Let_def and_then_Inr_conv)
  have "frag c code s = frag c (n @ store_home (home a d) ?T) (set_reg ?T v s)"
    by (simp add: code frag_mov64_imm frag_load_imm)
  then show ?thesis by (rule normalize_store [OF assms(1-4) scratch_eq_refl n])
qed

lemma move_correct:
  assumes "allocated f a" and "known f d" and "frame_ready s" and "holds f a env s"
    and "known f x" and "x \<notin> set (directReturnValues f)" and "canonical (value_type f x) (env x)"
    and "moveValue f a d x = Inr code"
  shows "computes f a c code s (env(d := register_form (value_type f d) (env x))) d"
proof -
  let ?T = "home_target (home a d)"
  have hx: "home_value a x s = Inr (env x)" using assms(4,5,6) by (simp add: holds_def)
  have homes: "ra_homes a d = Some (home a d)" "ra_homes a x = Some (home a x)"
    using home_known(1) [OF assms(1)] assms(2,5) by blast+
  show ?thesis
  proof (cases "location_equal (home a d) (home a x) \<and> value_type f d = value_type f x")
    case True
    then have code: "code = []" using assms(8) homes by (simp add: moveValue_def)
    have "d = x"
    proof (rule ccontr)
      assume "d \<noteq> x"
      moreover have "home a d = home a x"
        using True location_equal_home [OF assms(1,2,5)] by simp
      ultimately have "home a x = registerLocation R0"
        using home_distinct [OF assms(1,2,5)] by simp
      then show False using home_not_scratch [OF assms(1,5,6)] by (simp add: registerLocation_def)
    qed
    then have "env(d := register_form (value_type f d) (env x)) = env"
      using assms(7) by (simp add: canonical_def)
    then show ?thesis using assms(3,4) hx \<open>d = x\<close> by (simp add: computes_def code)
  next
    case False
    then obtain n where n: "normalizeRegister (value_type f d) ?T = Inr n"
      and code: "code = read_home (home a x) ?T @ n @ store_home (home a d) ?T"
      using assms(8) homes readValue_home [OF assms(1,5)]
      by (auto simp: moveValue_def Let_def and_then_Inr_conv)
    have "frag c code s = frag c (n @ store_home (home a d) ?T) (set_reg ?T (env x) s)"
      by (simp add: code read_home_frag [OF hx])
    then show ?thesis by (rule normalize_store [OF assms(1-4) scratch_eq_refl n])
  qed
qed

lemma operand_value:
  "holds f a env s \<Longrightarrow> known f x \<Longrightarrow> x \<notin> set (directReturnValues f) \<Longrightarrow> home_value a x s = Inr (env x)"
  by (simp add: holds_def)

text \<open>Where \<open>emitArithmetic\<close> finds its second operand, after it has loaded the first into the target.\<close>

lemma arithmetic_operands:
  assumes al: "allocated f a" and d: "known f d" and fr: "frame_ready s" and h: "holds f a env s"
    and x: "known f x" "x \<notin> set (directReturnValues f)" and y: "known f y" "y \<notin> set (directReturnValues f)"
    and T: "T = home_target (home a d)"
    and yc: "(ycode, r) = (if \<not> vl_stack (home a y) then
               (if vl_reg (home a y) = T \<and> \<not> location_equal (home a x) (home a d)
                then ([ALUReg MOV64_REG R4 (vl_reg (home a y))], R4) else ([], vl_reg (home a y)))
             else ([load_slot R4 (vl_offset (home a y))], R4))"
  obtains t where "scratch_eq s t" and "registers (set_reg T (env x) t) r = env y"
    and "\<And>c is. frag c (ycode @ read_home (home a x) T @ is) s = frag c is (set_reg T (env x) t)"
proof -
  note vx = operand_value [OF h x] and vy = operand_value [OF h y]
  have T4: "T \<noteq> R4" using target_not_scratch [OF al d] T by simp
  show thesis
  proof (cases "r = R4 \<and> ycode \<noteq> []")
    case True
    define t where "t = set_reg R4 (env y) s"
    have t: "scratch_eq s t" unfolding t_def by (rule scratch_eq_set_reg) simp_all
    have "frag c (ycode @ is) s = frag c is t" for c "is"
      using yc True vy by (auto simp: t_def home_value_def Let_def frag_load_slot frag_mov64 split: if_splits)
    moreover have "home_value a x t = Inr (env x)" using home_value_scratch [OF t al x] vx by simp
    ultimately show thesis
      using that [OF t] True T4 by (simp add: read_home_frag set_reg_registers t_def)
  next
    case False
    then have st: "\<not> vl_stack (home a y)" and code: "ycode = []" "r = vl_reg (home a y)"
      and shared: "r = T \<longrightarrow> location_equal (home a x) (home a d)"
      using yc by (auto split: if_splits)
    have ry: "registers s r = env y" using vy st code by (simp add: home_value_def)
    have "env x = env y" if "r = T"
    proof -
      have "home a y = registerLocation r" using home_is_register [OF al y(1) st] code by simp
      moreover have "r \<noteq> R0" using home_not_scratch [OF al y st] code by simp
      moreover have "\<not> vl_stack (home a d)" using that T \<open>r \<noteq> R0\<close> by (auto simp: home_target_def)
      then have "home a d = registerLocation T"
        using home_is_register [OF al d] T by (simp add: home_target_def)
      moreover have "home a x = home a d" using shared that location_equal_home [OF al x(1) d] by simp
      ultimately have "home a x = home a y" "home a x \<noteq> registerLocation R0"
        using that by (simp_all add: registerLocation_def)
      then have "x = y" using home_distinct [OF al x(1) y(1)] by blast
      then show ?thesis by simp
    qed
    then have "registers (set_reg T (env x) s) r = env y" using ry by (simp add: set_reg_registers)
    then show thesis
      using that [OF scratch_eq_refl] by (simp add: code(1) read_home_frag [OF vx])
  qed
qed

lemma emitArithmetic_form:
  assumes "emitArithmetic f a ins = Inr code"
  obtains ycode r n where "(ycode, r) = (if \<not> vl_stack (home a (ins_Y ins)) then
               (if vl_reg (home a (ins_Y ins)) = home_target (home a (ins_Dest ins)) \<and>
                   \<not> location_equal (home a (ins_X ins)) (home a (ins_Dest ins))
                then ([ALUReg MOV64_REG R4 (vl_reg (home a (ins_Y ins)))], R4)
                else ([], vl_reg (home a (ins_Y ins))))
             else ([load_slot R4 (vl_offset (home a (ins_Y ins)))], R4))"
    and "normalizeRegister (value_type f (ins_Dest ins)) (home_target (home a (ins_Dest ins))) = Inr n"
    and "code = ycode @ read_home (home a (ins_X ins)) (home_target (home a (ins_Dest ins))) @
      ALUReg (if narrow (value_type f (ins_Dest ins)) then opcode32 (ins_Op ins) else opcode64 (ins_Op ins))
        (home_target (home a (ins_Dest ins))) r # n @
      store_home (home a (ins_Dest ins)) (home_target (home a (ins_Dest ins)))"
proof -
  obtain ycode r where yc: "(ycode, r) = (if \<not> vl_stack (home a (ins_Y ins)) then
               (if vl_reg (home a (ins_Y ins)) = home_target (home a (ins_Dest ins)) \<and>
                   \<not> location_equal (home a (ins_X ins)) (home a (ins_Dest ins))
                then ([ALUReg MOV64_REG R4 (vl_reg (home a (ins_Y ins)))], R4)
                else ([], vl_reg (home a (ins_Y ins))))
             else ([load_slot R4 (vl_offset (home a (ins_Y ins)))], R4))" by (metis surj_pair)
  from assms yc [symmetric] that [OF yc] show thesis
    by (auto simp: emitArithmetic_def Let_def and_then_Inr_conv read_home_def split_beta split: prod.splits)
qed

lemma arithmetic_correct:
  assumes al: "allocated f a" and d: "known f d" and fr: "frame_ready s" and h: "holds f a env s"
    and x: "known f x" "x \<notin> set (directReturnValues f)" and y: "known f y" "y \<notin> set (directReturnValues f)"
    and can: "canonical (value_type f d) (env x)" "canonical (value_type f d) (env y)"
    and op: "arithmetic (ins_Op ins)"
      "ins_Op ins = OpDiv \<or> ins_Op ins = OpMod \<longrightarrow> \<not> signed_type (value_type f d)"
    and ins: "ins_Dest ins = d" "ins_X ins = x" "ins_Y ins = y"
    and code: "emitArithmetic f a ins = Inr code"
  shows "if (ins_Op ins = OpDiv \<or> ins_Op ins = OpMod) \<and> env y = 0
    then frag c code s = Inl ErrVmDivisionByZero
    else computes f a c code s (env(d := register_form (value_type f d) (word_of_int
      (int_operation (ins_Op ins) (type_value (value_type f d) (env x)) (type_value (value_type f d) (env y)))))) d"
proof -
  let ?t = "value_type f d" and ?T = "home_target (home a d)" and ?op = "ins_Op ins"
  let ?v = "word_of_int (int_operation ?op (type_value ?t (env x)) (type_value ?t (env y))) :: u64"
  let ?zero = "(?op = OpDiv \<or> ?op = OpMod) \<and> env y = 0"
  obtain ycode r n where yc: "(ycode, r) = (if \<not> vl_stack (home a y) then
               (if vl_reg (home a y) = ?T \<and> \<not> location_equal (home a x) (home a d)
                then ([ALUReg MOV64_REG R4 (vl_reg (home a y))], R4) else ([], vl_reg (home a y)))
             else ([load_slot R4 (vl_offset (home a y))], R4))"
    and n: "normalizeRegister ?t ?T = Inr n"
    and code': "code = ycode @ read_home (home a x) ?T @
      ALUReg (if narrow ?t then opcode32 ?op else opcode64 ?op) ?T r # n @ store_home (home a d) ?T"
    using emitArithmetic_form [OF code, unfolded ins] by blast
  obtain t where t: "scratch_eq s t" "registers (set_reg ?T (env x) t) r = env y"
    "\<And>c is. frag c (ycode @ read_home (home a x) ?T @ is) s = frag c is (set_reg ?T (env x) t)"
    using arithmetic_operands [OF al d fr h x y refl yc] by metis
  let ?rest = "n @ store_home (home a d) ?T"
  obtain w where w: "frag c code s = (if ?zero then Inl ErrVmDivisionByZero else frag c ?rest (set_reg ?T w t))"
    "\<not> ?zero \<longrightarrow> register_form ?t w = register_form ?t ?v"
  proof (cases "narrow ?t")
    case False
    then have "frag c code s = (if ?zero then Inl ErrVmDivisionByZero else frag c ?rest (set_reg ?T ?v t))"
      unfolding code' using wide_value [OF op, of "env x" "env y"]
      by (simp add: t frag_wide_op [OF op(1)] del: of_int_eq_iff)
    then show thesis by (rule that) simp
  next
    case True
    note nv = narrow_value [OF op can True]
    have run: "frag c code s = (case narrow_op ?op (env x) (env y) of
        Inl e \<Rightarrow> Inl e | Inr v \<Rightarrow> frag c ?rest (set_reg ?T v t))"
      unfolding code' using True by (simp add: t frag_narrow_op [OF op(1)] split: sum.split)
    show thesis
    proof (cases "narrow_op ?op (env x) (env y)")
      case (Inl e)
      then show thesis using nv run by (intro that [of 0]) simp_all
    next
      case (Inr v)
      have z: "\<not> ?zero" and l: "low v = low ?v" using nv unfolding Inr sum.case by blast+
      have "frag c code s = frag c ?rest (set_reg ?T v t)" using run by (simp add: Inr)
      with z show thesis using register_form_low [OF True l] by (intro that [of v]) auto
    qed
  qed
  show ?thesis
  proof (cases ?zero)
    case False
    have "computes f a c code s (env(d := register_form ?t w)) d"
      using w(1) [unfolded if_not_P [OF False]] by (rule normalize_store [OF al d fr h t(1) n])
    then show ?thesis unfolding if_not_P [OF False] w(2) [rule_format, OF False] .
  qed (simp add: w(1))
qed

text \<open>The other binary operations bring their operands into \<open>r0\<close> and \<open>r4\<close>.\<close>

lemma two_operands:
  assumes "allocated f a" and "frame_ready s" and "holds f a env s"
    and "known f x" "x \<notin> set (directReturnValues f)" and "known f y" "y \<notin> set (directReturnValues f)"
  obtains t where "scratch_eq s t" and "registers t R0 = env x" and "registers t R4 = env y"
    and "state_pc t = 0"
    and "\<And>c is. frag c (read_home (home a x) R0 @ read_home (home a y) R4 @ is) s = frag c is t"
proof -
  define t1 where "t1 = set_reg R0 (env x) s"
  have t1: "scratch_eq s t1" unfolding t1_def by (rule scratch_eq_set_reg) simp_all
  define t where "t = set_reg R4 (env y) t1"
  have t: "scratch_eq s t" unfolding t_def by (rule scratch_eq_set_reg [OF t1]) simp
  note vx = operand_value [OF assms(3-5)]
  have vy: "home_value a y t1 = Inr (env y)"
    using home_value_scratch [OF t1 assms(1,6,7)] operand_value [OF assms(3,6,7)] by simp
  have "frag c (read_home (home a x) R0 @ read_home (home a y) R4 @ is) s = frag c is t" for c "is"
    by (simp add: read_home_frag [OF vx] read_home_frag [OF vy] t1_def [symmetric] t_def [symmetric])
  moreover have "state_pc t = 0" using scratch_eq_frame(5) [OF t] frame_ready_pc [OF assms(2)] by simp
  ultimately show thesis
    using that [OF t] by (simp add: t_def t1_def set_reg_registers)
qed

lemma computes_write:
  assumes "allocated f a" and "known f d" and "frame_ready s" and "holds f a env s" and "scratch_eq s u"
    and "frag c code s = frag c (write_home (home a d) r) u" and "registers u r = v"
  shows "computes f a c code s (env(d := v)) d"
proof -
  have "frame_ready u" using scratch_eq_frame(1) [OF assms(5)] assms(3) by simp
  from write_home_frag [OF assms(1,2) this, of c r "[]"]
  have "frag c code s = Inr (put_home a d v u)" using assms(6,7) by simp
  then show ?thesis by (rule computes_put [OF assms(1-5)])
qed

lemma signed_narrow: "signed_type t \<Longrightarrow> (type_bits t = 32) = narrow t"
  by (auto simp: signed_type_def narrow_def type_bits_def)

lemma division_correct:
  assumes al: "allocated f a" and d: "known f d" and fr: "frame_ready s" and h: "holds f a env s"
    and x: "known f x" "x \<notin> set (directReturnValues f)" and y: "known f y" "y \<notin> set (directReturnValues f)"
    and can: "canonical (value_type f d) (env x)" "canonical (value_type f d) (env y)"
    and op: "ins_Op ins = OpDiv \<or> ins_Op ins = OpMod" and sg: "signed_type (value_type f d)"
    and ins: "ins_Dest ins = d" "ins_X ins = x" "ins_Y ins = y"
    and code: "emitSignedDivisionOrRemainder f a ins = Inr code"
  shows "if env y = 0 then frag c code s = Inl ErrVmDivisionByZero
    else computes f a c code s (env(d := register_form (value_type f d) (word_of_int
      (int_operation (ins_Op ins) (type_value (value_type f d) (env x)) (type_value (value_type f d) (env y)))))) d"
proof -
  let ?t = "value_type f d" and ?op = "ins_Op ins"
  let ?v = "word_of_int (int_operation ?op (type_value ?t (env x)) (type_value ?t (env y))) :: u64"
  obtain n where n: "normalizeRegister ?t R0 = Inr n"
    and code': "code = read_home (home a x) R0 @ read_home (home a y) R4 @
      division_code ?op (narrow ?t) @ n @ write_home (home a d) R0"
    using code unfolding emitSignedDivisionOrRemainder_def ins Let_def and_then_Inr_conv signed_narrow [OF sg]
      readValue_home [OF al x(1)] readValue_home [OF al y(1)] writeValue_home [OF al d]
    by blast
  let ?rest = "n @ write_home (home a d) R0"
  obtain t where t: "scratch_eq s t" "registers t R0 = env x" "registers t R4 = env y" "state_pc t = 0"
    "\<And>c is. frag c (read_home (home a x) R0 @ read_home (home a y) R4 @ is) s = frag c is t"
    using two_operands [OF al fr h x y] by metis
  obtain w v4 v5 where w: "frag c code s = (if env y = 0 then Inl ErrVmDivisionByZero
      else frag c ?rest (set_reg R0 w (set_reg R4 v4 (set_reg R5 v5 t))))"
    "env y \<noteq> 0 \<Longrightarrow> register_form ?t w = register_form ?t ?v"
  proof (cases "narrow ?t")
    case False
    then have nf: "narrow ?t = False" by simp
    have "frag c code s = (if env y = 0 then Inl ErrVmDivisionByZero
      else frag c ?rest (set_reg R0 ?v (set_reg R4 (magnitude (env y))
        (set_reg R5 (if ?op = OpDiv then env x XOR env y else env x) t))))"
      unfolding code' t(5) nf division64_frag [OF op t(4)] t(2,3) truncated_value(1) [OF op sg] ..
    then show thesis by (rule that) (rule refl)
  next
    case True
    obtain v4 v5 where r: "frag c (division_code ?op True @ ?rest) t =
      (if low (env y) = 0 then Inl ErrVmDivisionByZero
       else frag c ?rest (set_reg R0 (ucast (truncated ?op (low (env x)) (low (env y))))
         (set_reg R4 v4 (set_reg R5 v5 t))))"
      using division32_frag [OF op t(4), of c ?rest] unfolding t by blast
    have "register_form ?t (ucast (truncated ?op (low (env x)) (low (env y)))) = register_form ?t ?v"
      using truncated_value(2) [OF op sg can True] by (intro register_form_low [OF True]) simp
    moreover have nt: "narrow ?t = True" using True by simp
    have "frag c code s = (if env y = 0 then Inl ErrVmDivisionByZero
      else frag c ?rest (set_reg R0 (ucast (truncated ?op (low (env x)) (low (env y))))
         (set_reg R4 v4 (set_reg R5 v5 t))))"
      unfolding code' t(5) nt r canonical_narrow_value(2) [OF can(2) True] ..
    ultimately show thesis by (intro that)
  qed
  show ?thesis
  proof (cases "env y = 0")
    case False
    let ?u = "set_reg R0 (register_form ?t w) (set_reg R4 v4 (set_reg R5 v5 t))"
    have u: "scratch_eq s ?u" by (intro scratch_eq_set_reg t(1)) simp_all
    have "frag c code s = frag c (write_home (home a d) R0) ?u"
      using w(1) False normalize_frag [OF n, of c "write_home (home a d) R0"] by simp
    then show ?thesis
      using computes_write [OF al d fr h u] w(2) [OF False] False by simp
  qed (simp add: w(1))
qed

lemma comparison_correct:
  assumes al: "allocated f a" and d: "known f d" and fr: "frame_ready s" and h: "holds f a env s"
    and x: "known f x" "x \<notin> set (directReturnValues f)" and y: "known f y" "y \<notin> set (directReturnValues f)"
    and can: "canonical (value_type f x) (env x)" "canonical (value_type f x) (env y)"
    and ins: "ins_Dest ins = d" "ins_X ins = x" "ins_Y ins = y"
    and code: "emitComparison f a ins = Inr code"
  shows "computes f a c code s (env(d := if int_comparison (ins_Op ins) (type_value (value_type f x) (env x))
    (type_value (value_type f x) (env y)) then 1 else 0)) d"
proof -
  obtain oc where oc: "comparisonOpcode (ins_Op ins) (value_type f x) = Inr oc"
    and code': "code = read_home (home a x) R0 @ read_home (home a y) R4 @ comparison_code oc @
      write_home (home a d) R5"
    using code by (auto simp: emitComparison_def ins and_then_Inr_conv readValue_home [OF al x(1)]
        readValue_home [OF al y(1)] writeValue_home [OF al d])
  obtain t where t: "scratch_eq s t" "registers t R0 = env x" "registers t R4 = env y" "state_pc t = 0"
    "\<And>c is. frag c (read_home (home a x) R0 @ read_home (home a y) R4 @ is) s = frag c is t"
    using two_operands [OF al fr h x y] by metis
  let ?b = "int_comparison (ins_Op ins) (type_value (value_type f x) (env x)) (type_value (value_type f x) (env y))"
  let ?u = "set_reg R5 (if ?b then 1 else 0) t"
  have "frag c code s = frag c (write_home (home a d) R5) ?u"
    unfolding code' t(5)
    using comparison_frag [OF oc, of t c "write_home (home a d) R5"] can t(2-4)
      compare_values_int [OF comparisonOpcode_comparison [OF oc], of "value_type f x" "env x" "env y"] by simp
  moreover have "scratch_eq s ?u" by (intro scratch_eq_set_reg t(1)) simp
  ultimately show ?thesis by (intro computes_write [OF al d fr h _ _ set_reg_same])
qed


lemma scale_value:
  assumes "memoryScalar e"
  shows "scast (memoryBytes e) = (ucast (memoryBytes e) :: u64)"
  using assms by (auto simp: memoryScalar_def memoryBytes_def)

lemma frag_mul_imm:
  "frag c (ALUImm MUL64_IMM d k # is) s = frag c is (set_reg d (registers s d * scast k) s)"
  by (subst frag_alu64 [where v = "registers s d * scast k"]) (simp_all add: ALUImm_def alu64_def)

lemma frag_add:
  "frag c (ALUReg ADD64_REG d r # is) s = frag c is (set_reg d (registers s d + registers s r) s)"
  by (subst frag_alu64 [where v = "registers s d + registers s r"]) (simp_all add: ALUReg_def alu64_def)

lemma pointer_add_correct:
  assumes al: "allocated f a" and d: "known f d" and fr: "frame_ready s" and h: "holds f a env s"
    and x: "known f x" "x \<notin> set (directReturnValues f)" and y: "known f y" "y \<notin> set (directReturnValues f)"
    and ins: "ins_Dest ins = d" "ins_X ins = x" "ins_Y ins = y"
    and scale: "ins_Scale ins = memoryBytes e" "memoryScalar e"
    and code: "emitPointerAdd a ins = Inr code"
  shows "computes f a c code s (env(d := env x + env y * ucast (ins_Scale ins))) d"
proof -
  have code': "code = read_home (home a x) R0 @ read_home (home a y) R4 @
      (if ins_Scale ins \<noteq> 1 then [ALUImm MUL64_IMM R4 (ins_Scale ins)] else []) @
      [ALUReg ADD64_REG R0 R4] @ write_home (home a d) R0"
    using code by (simp add: emitPointerAdd_def ins readValue_home [OF al x(1)]
        readValue_home [OF al y(1)] writeValue_home [OF al d])
  obtain t where t: "scratch_eq s t" "registers t R0 = env x" "registers t R4 = env y" "state_pc t = 0"
    "\<And>c is. frag c (read_home (home a x) R0 @ read_home (home a y) R4 @ is) s = frag c is t"
    using two_operands [OF al fr h x y] by metis
  define t1 where "t1 = set_reg R4 (env y * ucast (ins_Scale ins)) t"
  have "frag c ((if ins_Scale ins \<noteq> 1 then [ALUImm MUL64_IMM R4 (ins_Scale ins)] else []) @ is) t =
      frag c is t1" for "is"
    using scale_value [OF scale(2)] set_reg_id [of R4 t] t(3)
    by (simp add: frag_mul_imm scale(1) t1_def)
  then have "frag c code s = frag c (write_home (home a d) R0)
      (set_reg R0 (env x + env y * ucast (ins_Scale ins)) t1)"
    by (simp add: code' t frag_add t1_def set_reg_registers)
  moreover have "scratch_eq s (set_reg R0 (env x + env y * ucast (ins_Scale ins)) t1)"
    unfolding t1_def by (intro scratch_eq_set_reg t(1)) simp_all
  ultimately show ?thesis by (intro computes_write [OF al d fr h _ _ set_reg_same])
qed

lemma NoValue_not_direct: "NoValue \<notin> set (directReturnValues f)"
  by (auto simp: directReturnValues_def List.map_filter_def returned_directly_def Let_def split_beta
      split: if_splits)

lemma bounds_correct:
  assumes al: "allocated f a" and fr: "frame_ready s" and h: "holds f a env s"
    and x: "known f x" "x \<notin> set (directReturnValues f)" and can: "canonical (value_type f x) (env x)"
    and imm: "narrow (value_type f x) \<Longrightarrow> ins_Imm ins \<le> 0xffffffff"
    and ins: "ins_Dest ins = NoValue" "ins_X ins = x"
    and code: "emitBoundsCheck f a ins = Inr code"
  shows "if in_bounds (value_type f x) (env x) (ins_Imm ins) then computes f a c code s env NoValue
    else frag c code s = Inl ErrVmDivisionByZero"
proof -
  have code': "code = read_home (home a x) R0 @ bounds_code (value_type f x) (ins_Imm ins) @ []"
    using code by (simp add: emitBoundsCheck_def ins readValue_home [OF al x(1)])
  define t where "t = set_reg R0 (env x) s"
  define u where "u = set_reg R4 (ins_Imm ins) t"
  have t: "registers t R0 = env x" "state_pc t = 0" using frame_ready_pc [OF fr] by (simp_all add: t_def)
  have u: "scratch_eq s u" unfolding u_def t_def by (intro scratch_eq_set_reg) simp_all
  have "frag c code s = (if in_bounds (value_type f x) (env x) (ins_Imm ins) then Inr u
      else Inl ErrVmDivisionByZero)"
    unfolding code' read_home_frag [OF operand_value [OF h x]] t_def [symmetric]
    using bounds_frag [of "value_type f x" t "ins_Imm ins" c "[]", OF _ t(2) imm] can t(1)
    by (simp add: u_def)
  moreover have "computes f a c code s env NoValue" if "frag c code s = Inr u"
    using that holds_scratch [OF h al u] scratch_eq_frame(1-3) [OF u] fr NoValue_not_direct [of f]
    by (auto simp: computes_def holds_def)
  ultimately show ?thesis by auto
qed


section \<open>Instruction selection\<close>

lemma allocated_valid:
  assumes "allocated f a" and "b \<in> set (fn_Blocks f)" and "ins \<in> set (block_Instructions b)"
  obtains fns where "validateInstruction f fns ins = None"
proof -
  from assms(1) obtain fns where v: "validateFunction f fns = None" by (auto simp: allocated_def)
  from assms(2) obtain i where "i < length (fn_Blocks f)" "fn_Blocks f ! i = b"
    by (auto simp: in_set_conv_nth)
  then have "validate_block f fns i b = None" using validateFunctionD(6) [OF v, of i] by simp
  from validate_blockD(3) [OF this assms(3)] show thesis by (rule that)
qed

lemma value_type_of: "value_type f i = value_Type (fst (Function_Value f i))"
  by (simp add: value_type_def)

lemma PointerElement_scalar: "snd (PointerElement t) \<Longrightarrow> memoryScalar (fst (PointerElement t))"
  by (simp add: PointerElement_def Let_def split: if_splits)

text \<open>What validation says of the operations on registers, in terms of the value table.\<close>

lemma validate_register_operation:
  assumes "validateInstruction f fns ins = None"
  shows "ins_Op ins \<noteq> OpBoundsCheck \<Longrightarrow> register_operation (ins_Op ins) \<Longrightarrow> known f (ins_Dest ins)"
    and "ins_Op ins = OpMove \<Longrightarrow> known f (ins_X ins)"
    and "ins_Op ins = OpPointerAddress \<Longrightarrow> known f (ins_X ins)"
    and "arithmetic (ins_Op ins) \<Longrightarrow> known f (ins_X ins) \<and> known f (ins_Y ins) \<and>
      value_type f (ins_X ins) = value_type f (ins_Dest ins) \<and>
      value_type f (ins_Y ins) = value_type f (ins_Dest ins)"
    and "comparison (ins_Op ins) \<Longrightarrow> known f (ins_X ins) \<and> known f (ins_Y ins) \<and>
      value_type f (ins_Dest ins) = TypeBool \<and> value_type f (ins_Y ins) = value_type f (ins_X ins)"
    and "ins_Op ins = OpPointerAdd \<Longrightarrow> known f (ins_X ins) \<and> known f (ins_Y ins) \<and>
      is_pointer (value_type f (ins_Dest ins)) \<and>
      (\<exists>e. memoryScalar e \<and> ins_Scale ins = memoryBytes e)"
    and "ins_Op ins = OpBoundsCheck \<Longrightarrow> known f (ins_X ins) \<and> ins_Dest ins = NoValue"
proof -
  show "ins_Op ins \<noteq> OpBoundsCheck \<Longrightarrow> register_operation (ins_Op ins) \<Longrightarrow> known f (ins_Dest ins)"
    using assms
    by (auto simp: validateInstruction_def known_def split_beta Let_def register_operation_def may_lack_dest_def
        arithmetic_def comparison_def split: if_splits)
  show "ins_Op ins = OpMove \<Longrightarrow> known f (ins_X ins)"
    using assms
    by (auto simp: validateInstruction_def known_def split_beta Let_def validate_move_def with_value_None
        split: if_splits)
  show "ins_Op ins = OpPointerAddress \<Longrightarrow> known f (ins_X ins)"
    using assms
    by (auto simp: validateInstruction_def known_def split_beta Let_def validate_pointer_address_def
        with_value_None split: if_splits)
  show "arithmetic (ins_Op ins) \<Longrightarrow> known f (ins_X ins) \<and> known f (ins_Y ins) \<and>
      value_type f (ins_X ins) = value_type f (ins_Dest ins) \<and>
      value_type f (ins_Y ins) = value_type f (ins_Dest ins)"
    using assms
    by (elim arithmetic_cases)
      (auto simp: validateInstruction_def known_def split_beta Let_def validate_arithmetic_def
        with_value_None value_type_of split: if_splits)
  show "comparison (ins_Op ins) \<Longrightarrow> known f (ins_X ins) \<and> known f (ins_Y ins) \<and>
      value_type f (ins_Dest ins) = TypeBool \<and> value_type f (ins_Y ins) = value_type f (ins_X ins)"
    using assms
    by (elim comparison_cases)
      (auto simp: validateInstruction_def known_def split_beta Let_def validate_comparison_def
        with_value_None value_type_of split: if_splits)
  show "ins_Op ins = OpPointerAdd \<Longrightarrow> known f (ins_X ins) \<and> known f (ins_Y ins) \<and>
      is_pointer (value_type f (ins_Dest ins)) \<and>
      (\<exists>e. memoryScalar e \<and> ins_Scale ins = memoryBytes e)"
    using assms PointerElement_scalar [of "value_type f (ins_X ins)"]
    by (auto simp: validateInstruction_def known_def split_beta Let_def validate_pointer_add_def
        with_value_None value_type_of is_pointer_def split: if_splits)
  show "ins_Op ins = OpBoundsCheck \<Longrightarrow> known f (ins_X ins) \<and> ins_Dest ins = NoValue"
    using assms
    by (auto simp: validateInstruction_def known_def split_beta Let_def validate_bounds_check_def
        with_value_None split: if_splits)
qed

lemma register_form_pointer: "is_pointer t \<Longrightarrow> register_form t v = v"
  by (auto simp: is_pointer_def PointerElement_def register_form_def split: if_splits)

lemma canonical_env_update:
  "canonical_env f env \<Longrightarrow> canonical_env f (env(d := register_form (value_type f d) v))"
  by (auto simp: canonical_env_def)

lemma comparison_only:
  "comparison op \<Longrightarrow> op \<noteq> OpConst \<and> op \<noteq> OpMove \<and> op \<noteq> OpPointerAddress \<and> \<not> arithmetic op"
  by (auto simp: comparison_def arithmetic_def)

lemma arithmetic_only:
  "arithmetic op \<Longrightarrow> op \<noteq> OpConst \<and> op \<noteq> OpMove \<and> op \<noteq> OpPointerAddress"
  by (auto simp: arithmetic_def)

lemma register_operation_cases:
  assumes "register_operation op"
  obtains (const) "op = OpConst" | (move) "op = OpMove \<or> op = OpPointerAddress"
    | (arith) "arithmetic op" | (compare) "comparison op" | (add) "op = OpPointerAdd"
    | (bounds) "op = OpBoundsCheck"
  using assms by (auto simp: register_operation_def)

lemma instruction_code_cases:
  "op = OpMove \<or> op = OpPointerAddress \<Longrightarrow> ins_Op ins = op \<Longrightarrow>
     instruction_code f a ins = moveValue f a (ins_Dest ins) (ins_X ins)"
  "arithmetic (ins_Op ins) \<Longrightarrow> instruction_code f a ins =
     (if (ins_Op ins = OpDiv \<or> ins_Op ins = OpMod) \<and> signed_type (value_type f (ins_Dest ins))
      then emitSignedDivisionOrRemainder f a ins else emitArithmetic f a ins)"
  "comparison (ins_Op ins) \<Longrightarrow> instruction_code f a ins = emitComparison f a ins"
  by (auto simp: instruction_code_def arithmetic_def comparison_def)

lemma instruction_uses_cases:
  "op = OpMove \<or> op = OpPointerAddress \<Longrightarrow> ins_Op ins = op \<Longrightarrow> ins_X ins \<in> set (instruction_uses ins)"
  "arithmetic (ins_Op ins) \<Longrightarrow> {ins_X ins, ins_Y ins} \<subseteq> set (instruction_uses ins)"
  "comparison (ins_Op ins) \<Longrightarrow> {ins_X ins, ins_Y ins} \<subseteq> set (instruction_uses ins)"
  "ins_Op ins = OpPointerAdd \<Longrightarrow> {ins_X ins, ins_Y ins} \<subseteq> set (instruction_uses ins)"
  "ins_Op ins = OpBoundsCheck \<Longrightarrow> ins_X ins \<in> set (instruction_uses ins)"
  by (auto simp: instruction_uses_def arithmetic_def comparison_def Let_def)


text \<open>The bound of a check on an index of at most 32 bits has to fit 32 bits too.\<close>

definition bound_fits :: "ir_function \<Rightarrow> ir_instruction \<Rightarrow> bool" where
  "bound_fits f ins \<longleftrightarrow>
     (ins_Op ins = OpBoundsCheck \<and> narrow (value_type f (ins_X ins)) \<longrightarrow> ins_Imm ins \<le> 0xffffffff)"

theorem instruction_correct:
  assumes al: "allocated f a" and b: "b \<in> set (fn_Blocks f)" "ins \<in> set (block_Instructions b)"
    and op: "register_operation (ins_Op ins)" and code: "instruction_code f a ins = Inr code"
    and bound: "bound_fits f ins"
    and h: "holds f a env s" and can: "canonical_env f env" and fr: "frame_ready s"
  shows "case ir_effect f ins env of Inl e \<Rightarrow> frag c code s = Inl e
    | Inr env' \<Rightarrow> computes f a c code s env' (ins_Dest ins) \<and> canonical_env f env'"
proof -
  obtain fns where v: "validateInstruction f fns ins = None" by (rule allocated_valid [OF al b])
  note val = validate_register_operation [OF v] and unused = direct_unused [OF _ b]
  have can': "known f i \<Longrightarrow> canonical (value_type f i) (env i)" for i
    using can by (simp add: canonical_env_def)
  let ?d = "ins_Dest ins" and ?x = "ins_X ins" and ?y = "ins_Y ins"
  let ?t = "value_type f ?d"
  from op show ?thesis
  proof (cases rule: register_operation_cases)
    case const
    have "emitConstant f a ?d (ins_Imm ins) = Inr code" using code const by (simp add: instruction_code_def)
    moreover have "known f ?d" using val(1) op const by simp
    ultimately show ?thesis
      using constant_correct [OF al _ fr h, of ?d "ins_Imm ins" code c] canonical_env_update [OF can]
      by (simp add: ir_effect_def const Let_def)
  next
    case move
    have "known f ?d" "known f ?x" using val(1-3) op move by auto
    moreover have "?x \<notin> set (directReturnValues f)" using instruction_uses_cases(1) [OF move refl] unused by blast
    moreover have "moveValue f a ?d ?x = Inr code" using code instruction_code_cases(1) [OF move refl] by simp
    moreover have "ir_effect f ins env = Inr (env(?d := register_form ?t (env ?x)))"
      using move by (auto simp: ir_effect_def Let_def)
    ultimately show ?thesis
      using move_correct [OF al _ fr h _ _ can'] canonical_env_update [OF can] by simp
  next
    case arith
    have k: "known f ?d" "known f ?x" "known f ?y" using val(1) val(4) [OF arith] op arith
      by (auto simp: arithmetic_def)
    have u: "?x \<notin> set (directReturnValues f)" "?y \<notin> set (directReturnValues f)"
      using instruction_uses_cases(2) [OF arith] unused by blast+
    have c: "canonical ?t (env ?x)" "canonical ?t (env ?y)"
      using can' [OF k(2)] can' [OF k(3)] val(4) [OF arith] by simp_all
    let ?div = "ins_Op ins = OpDiv \<or> ins_Op ins = OpMod"
    let ?env = "env(?d := register_form ?t (word_of_int
      (int_operation (ins_Op ins) (type_value ?t (env ?x)) (type_value ?t (env ?y)))))"
    have eff: "ir_effect f ins env = (if ?div \<and> env ?y = 0 then Inl ErrVmDivisionByZero else Inr ?env)"
      using arithmetic_only [OF arith] arith by (simp only: ir_effect_def Let_def if_False if_True simp_thms)
    have "if ?div \<and> env ?y = 0 then frag c code s = Inl ErrVmDivisionByZero
        else computes f a c code s ?env ?d"
    proof (cases "?div \<and> signed_type ?t")
      case True
      then have "emitSignedDivisionOrRemainder f a ins = Inr code"
        using code instruction_code_cases(2) [OF arith, of f a] by simp
      note r = division_correct [OF al k(1) fr h k(2) u(1) k(3) u(2) c conjunct1 [OF True] conjunct2 [OF True]
        refl refl refl this]
      have "(?div \<and> env ?y = 0) = (env ?y = 0)" using True by blast
      then show ?thesis by (simp only:) (rule r)
    next
      case False
      then have "emitArithmetic f a ins = Inr code"
        using code instruction_code_cases(2) [OF arith, of f a] by auto
      moreover have "?div \<longrightarrow> \<not> signed_type ?t" using False by blast
      ultimately show ?thesis
        by (intro arithmetic_correct [OF al k(1) fr h k(2) u(1) k(3) u(2) c arith _ refl refl refl])
    qed
    then show ?thesis unfolding eff using canonical_env_update [OF can] by (simp split: if_splits)
  next
    case compare
    note vc = val(5) [OF compare]
    have k: "known f ?d" "known f ?x" "known f ?y" using val(1) vc op compare
      by (auto simp: comparison_def)
    have u: "?x \<notin> set (directReturnValues f)" "?y \<notin> set (directReturnValues f)"
      using instruction_uses_cases(3) [OF compare] unused by blast+
    have c: "canonical (value_type f ?x) (env ?x)" "canonical (value_type f ?x) (env ?y)"
      using can' [OF k(2)] can' [OF k(3)] vc by simp_all
    let ?r = "if int_comparison (ins_Op ins) (type_value (value_type f ?x) (env ?x))
      (type_value (value_type f ?x) (env ?y)) then 1 else 0 :: u64"
    have t: "register_form ?t ?r = ?r" using vc by (simp add: register_form_def)
    have eff: "ir_effect f ins env = Inr (env(?d := register_form ?t ?r))"
      using comparison_only [OF compare] compare by (simp only: ir_effect_def Let_def if_False if_True simp_thms)
    have "emitComparison f a ins = Inr code" using code instruction_code_cases(3) [OF compare] by simp
    note r = comparison_correct [OF al k(1) fr h k(2) u(1) k(3) u(2) c refl refl refl this]
    show ?thesis
      unfolding eff t sum.case by (rule conjI [OF r canonical_env_update [OF can, of ?d ?r, unfolded t]])
  next
    case add
    obtain e where k: "known f ?d" "known f ?x" "known f ?y" and p: "is_pointer ?t"
      and e: "memoryScalar e" "ins_Scale ins = memoryBytes e" using val(1) val(6) [OF add] op add by auto
    have u: "?x \<notin> set (directReturnValues f)" "?y \<notin> set (directReturnValues f)"
      using instruction_uses_cases(4) [OF add] unused by blast+
    note t = register_form_pointer [OF p]
    let ?r = "env ?x + env ?y * ucast (ins_Scale ins)"
    have eff: "ir_effect f ins env = Inr (env(?d := register_form ?t ?r))"
      by (simp add: ir_effect_def Let_def add arithmetic_def comparison_def)
    have "emitPointerAdd a ins = Inr code" using code add by (simp add: instruction_code_def)
    note r = pointer_add_correct [OF al k(1) fr h k(2) u(1) k(3) u(2) refl refl refl e(2,1) this]
    show ?thesis
      unfolding eff t sum.case by (rule conjI [OF r canonical_env_update [OF can, of ?d ?r, unfolded t]])
  next
    case bounds
    note k = val(7) [OF bounds]
    have u: "?x \<notin> set (directReturnValues f)" using instruction_uses_cases(5) [OF bounds] unused by blast
    have code': "emitBoundsCheck f a ins = Inr code" using code bounds by (simp add: instruction_code_def)
    have eff: "ir_effect f ins env = (if in_bounds (value_type f ?x) (env ?x) (ins_Imm ins)
        then Inr env else Inl ErrVmDivisionByZero)"
      by (simp add: ir_effect_def Let_def bounds arithmetic_def comparison_def in_bounds_int)
    have "narrow (value_type f ?x) \<Longrightarrow> ins_Imm ins \<le> 0xffffffff"
      using bound bounds by (simp add: bound_fits_def)
    from bounds_correct [OF al fr h conjunct1 [OF k] u can' [OF conjunct1 [OF k]] this conjunct2 [OF k] refl code', of c]
    show ?thesis unfolding eff using can conjunct2 [OF k] by (simp split: if_splits)
  qed
qed


section \<open>The emitted code stays in place\<close>

text \<open>An instruction that neither jumps nor calls nor returns.\<close>

definition straight :: "instruction \<Rightarrow> bool" where
  "straight i \<longleftrightarrow> \<not> isJump (Op i) \<and> Op i \<noteq> CALL_IMM \<and> Op i \<noteq> EXIT"

lemma local_code_straight: "list_all straight code \<Longrightarrow> local_code code"
  by (induction code) (auto simp: straight_def)

lemma straight_instructions:
  "op \<in> {MOV64_REG, MOV32_REG, XOR64_REG, XOR32_REG, ADD64_REG, SUB64_REG, MUL64_REG, DIV64_REG, MOD64_REG,
     ADD32_REG, SUB32_REG, MUL32_REG, DIV32_REG, MOD32_REG} \<Longrightarrow> straight (ALUReg op d r)"
  "op \<in> {MOV64_IMM, LSH32_IMM, RSH32_IMM, LSH64_IMM, ARSH64_IMM, MUL64_IMM} \<Longrightarrow> straight (ALUImm op d k)"
  "straight (LoadImm64 d v)" "straight (load_slot d off)" "straight (store_slot d off)"
  "op = NEG32 \<or> op = NEG64 \<Longrightarrow> straight (plain op d 0 0 0)"
proof -
  have reg: "isJump op = False \<and> op \<noteq> CALL_IMM \<and> op \<noteq> EXIT"
    if "op \<in> {MOV64_REG, MOV32_REG, XOR64_REG, XOR32_REG, ADD64_REG, SUB64_REG, MUL64_REG, DIV64_REG,
      MOD64_REG, ADD32_REG, SUB32_REG, MUL32_REG, DIV32_REG, MOD32_REG, MOV64_IMM, LSH32_IMM, RSH32_IMM,
      LSH64_IMM, ARSH64_IMM, MUL64_IMM, LD_DW_IMM, LD_DW_REG, ST_DW_REG, NEG32, NEG64}" for op
    using that unfolding insert_iff
    by (elim disjE) (simp_all add: isJump_def isJumpImmediate_def isJumpRegister_def)
  show "op \<in> {MOV64_REG, MOV32_REG, XOR64_REG, XOR32_REG, ADD64_REG, SUB64_REG, MUL64_REG, DIV64_REG, MOD64_REG,
     ADD32_REG, SUB32_REG, MUL32_REG, DIV32_REG, MOD32_REG} \<Longrightarrow> straight (ALUReg op d r)"
    unfolding straight_def built_opcodes using reg [of op] by blast
  show "op \<in> {MOV64_IMM, LSH32_IMM, RSH32_IMM, LSH64_IMM, ARSH64_IMM, MUL64_IMM} \<Longrightarrow> straight (ALUImm op d k)"
    unfolding straight_def built_opcodes using reg [of op] by blast
  show "straight (LoadImm64 d v)" "straight (load_slot d off)" "straight (store_slot d off)"
    using reg [of LD_DW_IMM] reg [of LD_DW_REG] reg [of ST_DW_REG]
    by (simp_all add: straight_def LoadImm64_def load_slot_def store_slot_def)
  show "op = NEG32 \<or> op = NEG64 \<Longrightarrow> straight (plain op d 0 0 0)"
    using reg [of op] by (simp add: straight_def)
qed

lemma local_code_one: "straight i \<Longrightarrow> local_code [i]"
  by (rule local_code_straight) simp

lemma straight_pieces:
  "list_all straight (read_home l r)" "list_all straight (write_home l r)" "list_all straight (store_home l r)"
  "normalizeRegister t r = Inr n \<Longrightarrow> list_all straight n"
  by (auto simp: read_home_def write_home_def store_home_def normalizeRegister_def straight_instructions
      split: if_splits)

lemmas local_code_pieces = straight_pieces [THEN local_code_straight]

declare local_code.simps(2) [simp del]

text \<open>A forward jump over one instruction, or over two of one slot each.\<close>

lemma local_code_skip1:
  assumes "local_code (i # is)" and "Op j \<noteq> CALL_IMM" and "Op j \<noteq> EXIT" and "Offset j = 1" and "Slots i = 1"
  shows "local_code (j # i # is)"
proof (subst local_code.simps(2), intro conjI impI bexI [of _ 1] assms(1-3))
  show "1 \<in> set [0..<Suc (length (i # is))]" by (simp del: upt_Suc)
qed (simp add: assms(4,5))

lemma local_code_skip2:
  assumes "local_code (i # k # is)" and "Op j \<noteq> CALL_IMM" and "Op j \<noteq> EXIT" and "Offset j = 2"
    and "Slots i = 1" and "Slots k = 1"
  shows "local_code (j # i # k # is)"
proof (subst local_code.simps(2), intro conjI impI bexI [of _ 2] assms(1-3))
  show "2 \<in> set [0..<Suc (length (i # k # is))]" by (simp del: upt_Suc)
qed (simp add: assms(4-6) numeral_2_eq_2)

lemma built_offsets [simp]:
  "Offset (JumpImm op d k off) = off" "Offset (JumpReg op d r off) = off" "Offset (Jump off) = off"
  by (simp_all add: JumpImm_def JumpReg_def Jump_def)

lemma built_slots:
  "Slots (ALUReg op d r) = (if op = LD_DW_IMM then 2 else 1)" "Slots (ALUImm op d k) = (if op = LD_DW_IMM then 2 else 1)"
  "Slots (JumpReg op d r off) = (if op = LD_DW_IMM then 2 else 1)"
  "Slots (JumpImm op d k off) = (if op = LD_DW_IMM then 2 else 1)" "Slots (Jump off) = 1"
  "Slots (plain op d r 0 0) = (if op = LD_DW_IMM then 2 else 1)"
  by (simp_all add: Slots_def)

lemma local_comparison_code:
  assumes "comparisonOpcode op t = Inr oc"
  shows "local_code (comparison_code oc)"
proof -
  have oc: "oc \<noteq> CALL_IMM" "oc \<noteq> EXIT" "oc \<noteq> LD_DW_IMM"
    using assms comparisonOpcode_comparison [OF assms]
    by (cases op; auto simp: comparisonOpcode_def Let_def comparison_def split: if_splits)+
  have "local_code [JumpReg oc R0 R4 1, Jump 1, ALUImm MOV64_IMM R5 1]"
    by (intro local_code_skip1 local_code_one straight_instructions)
      (simp_all add: oc built_slots)
  then show ?thesis
    using local_code_append [OF local_code_one [OF straight_instructions(2) [of MOV64_IMM R5 0]]]
    by (simp add: comparison_code_def)
qed

lemma local_bounds_code: "local_code (bounds_code t imm)"
proof -
  have tail: "local_code [JumpReg (if narrow t then JLT32_REG else JLT64_REG) R0 R4 2,
      ALUImm MOV64_IMM R5 0, ALUReg DIV64_REG R5 R5]"
    by (intro local_code_skip2 local_code_straight) (simp_all add: straight_instructions built_slots)
  have "local_code (JumpImm (if narrow t then JSLT32_IMM else JSLT64_IMM) R0 0 1 #
      [JumpReg (if narrow t then JLT32_REG else JLT64_REG) R0 R4 2, ALUImm MOV64_IMM R5 0, ALUReg DIV64_REG R5 R5])"
    by (rule local_code_skip1 [OF tail]) (simp_all add: built_slots)
  with tail have "local_code ((if signed_type t then [JumpImm (if narrow t then JSLT32_IMM else JSLT64_IMM) R0 0 1]
      else []) @ [JumpReg (if narrow t then JLT32_REG else JLT64_REG) R0 R4 2, ALUImm MOV64_IMM R5 0,
        ALUReg DIV64_REG R5 R5])" by simp
  from local_code_append [OF _ this,
      of "[if imm \<le> 0x7fffffff then ALUImm MOV64_IMM R4 (ucast imm) else LoadImm64 R4 imm]"]
  show ?thesis by (simp add: bounds_code_def Let_def local_code_one straight_instructions)
qed


lemma local_division_code:
  assumes "op = OpDiv \<or> op = OpMod"
  shows "local_code (division_code op bits32)"
proof -
  let ?nn = "if bits32 then JSGE32_IMM else JSGE64_IMM" and ?ng = "if bits32 then JSLT32_IMM else JSLT64_IMM"
    and ?neg = "if bits32 then NEG32 else NEG64"
    and ?op = "if op = OpMod then if bits32 then MOD32_REG else MOD64_REG else if bits32 then DIV32_REG else DIV64_REG"
  have neg: "straight (plain ?neg r 0 0 0)" for r by (rule straight_instructions) simp
  have step: "straight (ALUReg ?op R0 R4)" by (rule straight_instructions) simp
  have "local_code [Jump 1, plain ?neg R0 0 0 0]"
    by (rule local_code_skip1 [OF local_code_one [OF neg]]) (simp_all add: built_slots)
  then have sign: "local_code [JumpImm ?ng R5 0 1, Jump 1, plain ?neg R0 0 0 0]"
    by (rule local_code_skip1) (simp_all add: built_slots)
  have guard: "local_code [JumpImm ?nn r 0 1, plain ?neg r 0 0 0]" for r
    by (rule local_code_skip1 [OF local_code_one [OF neg]]) (simp_all add: built_slots)
  have pre: "local_code (ALUReg MOV64_REG R5 R0 #
      (if op = OpDiv then [ALUReg (if bits32 then XOR32_REG else XOR64_REG) R5 R4] else []))"
    by (rule local_code_straight) (simp add: straight_instructions)
  have "local_code ((ALUReg MOV64_REG R5 R0 #
      (if op = OpDiv then [ALUReg (if bits32 then XOR32_REG else XOR64_REG) R5 R4] else [])) @
      [JumpImm ?nn R0 0 1, plain ?neg R0 0 0 0] @ [JumpImm ?nn R4 0 1, plain ?neg R4 0 0 0] @
      [ALUReg ?op R0 R4] @ [JumpImm ?ng R5 0 1, Jump 1, plain ?neg R0 0 0 0])"
    by (intro local_code_append pre guard sign local_code_one [OF step])
  then show ?thesis by (simp only: division_code_def Let_def append_Cons append_Nil)
qed

lemma local_instruction_code:
  assumes al: "allocated f a" and b: "b \<in> set (fn_Blocks f)" "ins \<in> set (block_Instructions b)"
    and op: "register_operation (ins_Op ins)" and code: "instruction_code f a ins = Inr code"
  shows "local_code code"
proof -
  obtain fns where v: "validateInstruction f fns ins = None" by (rule allocated_valid [OF al b])
  note val = validate_register_operation [OF v]
  note pieces = local_code_pieces local_code_append local_code_one straight_instructions
  let ?d = "ins_Dest ins" and ?x = "ins_X ins" and ?y = "ins_Y ins"
  from op show ?thesis
  proof (cases rule: register_operation_cases)
    case const
    then have "emitConstant f a ?d (ins_Imm ins) = Inr code" using code by (simp add: instruction_code_def)
    then obtain n where n: "normalizeRegister (value_type f ?d) (home_target (home a ?d)) = Inr n"
      and c: "code = [if ins_Imm ins = scast (ucast (ins_Imm ins) :: u32)
          then ALUImm MOV64_IMM (home_target (home a ?d)) (ucast (ins_Imm ins))
          else LoadImm64 (home_target (home a ?d)) (ins_Imm ins)] @ n @
        store_home (home a ?d) (home_target (home a ?d))"
      by (auto simp: emitConstant_def Let_def and_then_Inr_conv home_def split: option.splits)
    have "straight (if ins_Imm ins = scast (ucast (ins_Imm ins) :: u32)
          then ALUImm MOV64_IMM (home_target (home a ?d)) (ucast (ins_Imm ins))
          else LoadImm64 (home_target (home a ?d)) (ins_Imm ins))" by (simp add: straight_instructions)
    then show ?thesis unfolding c by (intro local_code_append local_code_one local_code_pieces(1-3) local_code_pieces(4) [OF n])
  next
    case move
    then have "moveValue f a ?d ?x = Inr code" using code instruction_code_cases(1) [OF move refl] by simp
    moreover have "readValue a ?x r = Inr (read_home (home a ?x) r)" for r
      using readValue_home [OF al] val(2,3) move by blast
    ultimately have "code = [] \<or> (\<exists>n. normalizeRegister (value_type f ?d) (home_target (home a ?d)) = Inr n \<and>
        code = read_home (home a ?x) (home_target (home a ?d)) @ n @
          store_home (home a ?d) (home_target (home a ?d)))"
      by (auto simp: moveValue_def Let_def and_then_Inr_conv home_def split: option.splits if_splits)
    then show ?thesis
      by (elim disjE exE conjE) (simp_all add: local_code_append local_code_pieces)
  next
    case arith
    have k: "known f ?d" "known f ?x" "known f ?y" using val(1) val(4) [OF arith] op arith
      by (auto simp: arithmetic_def)
    show ?thesis
    proof (cases "(ins_Op ins = OpDiv \<or> ins_Op ins = OpMod) \<and> signed_type (value_type f ?d)")
      case True
      then have "emitSignedDivisionOrRemainder f a ins = Inr code"
        using code instruction_code_cases(2) [OF arith, of f a] by simp
      then obtain n where n: "normalizeRegister (value_type f ?d) R0 = Inr n"
        and c: "code = read_home (home a ?x) R0 @ read_home (home a ?y) R4 @
          division_code (ins_Op ins) (type_bits (value_type f ?d) = 32) @ n @ write_home (home a ?d) R0"
        unfolding emitSignedDivisionOrRemainder_def Let_def and_then_Inr_conv
          readValue_home [OF al k(2)] readValue_home [OF al k(3)] writeValue_home [OF al k(1)] by blast
      show ?thesis
        unfolding c by (intro local_code_append local_code_pieces(1-3) local_code_pieces(4) [OF n] local_division_code conjunct1 [OF True])
    next
      case False
      let ?T = "home_target (home a ?d)"
      have "emitArithmetic f a ins = Inr code"
        using False code instruction_code_cases(2) [OF arith, of f a] by auto
      then show ?thesis
      proof (rule emitArithmetic_form)
        fix y r n
        let ?oc = "if narrow (value_type f ?d) then opcode32 (ins_Op ins) else opcode64 (ins_Op ins)"
        assume y: "(y, r) = (if \<not> vl_stack (home a ?y) then
               (if vl_reg (home a ?y) = ?T \<and> \<not> location_equal (home a ?x) (home a ?d)
                then ([ALUReg MOV64_REG R4 (vl_reg (home a ?y))], R4) else ([], vl_reg (home a ?y)))
             else ([load_slot R4 (vl_offset (home a ?y))], R4))"
          and n: "normalizeRegister (value_type f ?d) ?T = Inr n"
          and c: "code = y @ read_home (home a ?x) ?T @ ALUReg ?oc ?T r # n @ store_home (home a ?d) ?T"
        have oc: "straight (ALUReg ?oc ?T r)"
          using arith by (intro straight_instructions) (auto simp: arithmetic_def opcode32_def opcode64_def)
        have "list_all straight y" using y by (auto simp: straight_instructions split: if_splits)
        then have "local_code (y @ read_home (home a ?x) ?T @ [ALUReg ?oc ?T r] @ n @ store_home (home a ?d) ?T)"
          by (intro local_code_append local_code_pieces(1-3) local_code_pieces(4) [OF n] local_code_one [OF oc]
              local_code_straight)
        then show "local_code code" by (simp add: c)
      qed
    qed
  next
    case compare
    have k: "known f ?d" "known f ?x" "known f ?y" using val(1) val(5) [OF compare] op compare
      by (auto simp: comparison_def)
    have "emitComparison f a ins = Inr code" using code instruction_code_cases(3) [OF compare] by simp
    then obtain oc where oc: "comparisonOpcode (ins_Op ins) (value_type f ?x) = Inr oc"
      and c: "code = read_home (home a ?x) R0 @ read_home (home a ?y) R4 @ comparison_code oc @
        write_home (home a ?d) R5"
      unfolding emitComparison_def and_then_Inr_conv
        readValue_home [OF al k(2)] readValue_home [OF al k(3)] writeValue_home [OF al k(1)] by blast
    show ?thesis unfolding c by (intro local_code_append local_code_pieces local_comparison_code [OF oc])
  next
    case add
    have k: "known f ?d" "known f ?x" "known f ?y" using val(1) val(6) [OF add] op add by auto
    have "emitPointerAdd a ins = Inr code" using code add by (simp add: instruction_code_def)
    then have c: "code = read_home (home a ?x) R0 @ read_home (home a ?y) R4 @
        ((if ins_Scale ins \<noteq> 1 then [ALUImm MUL64_IMM R4 (ins_Scale ins)] else []) @
        [ALUReg ADD64_REG R0 R4]) @ write_home (home a ?d) R0"
      by (simp add: emitPointerAdd_def readValue_home [OF al k(2)] readValue_home [OF al k(3)]
          writeValue_home [OF al k(1)])
    have "list_all straight ((if ins_Scale ins \<noteq> 1 then [ALUImm MUL64_IMM R4 (ins_Scale ins)] else []) @
        [ALUReg ADD64_REG R0 R4])" by (simp add: straight_instructions)
    then show ?thesis unfolding c by (intro local_code_append local_code_pieces local_code_straight)
  next
    case bounds
    then have "emitBoundsCheck f a ins = Inr code" using code by (simp add: instruction_code_def)
    then have "code = read_home (home a ?x) R0 @ bounds_code (value_type f ?x) (ins_Imm ins)"
      using val(7) [OF bounds] by (simp add: emitBoundsCheck_def readValue_home [OF al])
    then show ?thesis by (simp add: local_code_append local_code_pieces local_bounds_code)
  qed
qed

end
