(* ===== verification/SelectionClaims.thy ===== *)
theory SelectionClaims
  imports SelectionFacts
begin

text \<open>
  Instruction selection seen from the interpreter: the code \<open>src/compiler/backend.go\<close> selects for
  an IR operation, wherever it stands in a program \<open>src/vm\<close> accepted, takes a state that holds the
  values of the IR to one that holds the values after the operation.
\<close>

section \<open>States at a program counter\<close>

text \<open>The frame of a running function is mapped; \<open>core\<close> forgets the counters.\<close>

definition frame_mapped :: "runState \<Rightarrow> bool" where
  "frame_mapped s \<longleftrightarrow> 4096 \<le> unat (registers s R10) \<and>
     (\<forall>d. 8 \<le> d \<and> d \<le> 4096 \<longrightarrow> mapped s (registers s R10 - of_nat d) MemoryDoubleWord True)"

lemma mapped_at_counters [simp]: "mapped (at_counters pc n s) a k wr = mapped s a k wr"
  by (simp add: mapped_def memory_at_counters)

lemma core_counters: "core s = at_counters 0 0 s"
  by (simp add: core_def at_counters_def)

lemma frame_mapped_core: "frame_mapped s = frame_ready (core s)"
  by (simp add: frame_mapped_def frame_ready_def core_counters) (simp add: at_counters_def)

lemma home_value_at_counters [simp]: "home_value a i (at_counters pc n s) = home_value a i s"
  by (simp add: home_value_def Let_def load_at_counters slot_address_def)

lemma holds_at_counters [simp]: "holds f a env (at_counters pc n s) = holds f a env s"
  by (simp add: holds_def)

lemma frame_mapped_at_counters [simp]: "frame_mapped (at_counters pc n s) = frame_mapped s"
  by (simp add: frame_mapped_def)

lemma selected_code:
  assumes m: "NewWithConfig p c = Inr m"
    and al: "allocated f a" and b: "b \<in> set (fn_Blocks f)" "ins \<in> set (block_Instructions b)"
    and op: "register_operation (ins_Op ins)" and bound: "bound_fits f ins"
    and code: "instruction_code f a ins = Inr code" and at: "code_at m (state_pc s) code"
    and h: "holds f a env s" and can: "canonical_env f env" and fr: "frame_mapped s"
  shows "case ir_effect f ins env of
      Inl e \<Rightarrow> \<exists>k t. k \<le> length code \<and> advance k m s = Done (Inl e) t
    | Inr env' \<Rightarrow> \<exists>k t. k \<le> length code \<and> advance k m s = Next t \<and>
        state_pc t = state_pc s + slot_sum code \<and> holds f a env' t \<and> canonical_env f env' \<and>
        frame_mapped t \<and> registers t R10 = registers s R10 \<and> frames t = frames s \<and>
        (known f (ins_Dest ins) \<longrightarrow> home_value a (ins_Dest ins) t = Inr (env' (ins_Dest ins)))"
proof -
  note ok = NewWithConfig_ok [OF m]
  have core: "holds f a env (core s)" "frame_ready (core s)" "state_pc (core s) = 0"
    using h fr by (simp_all add: core_counters) (simp_all add: frame_mapped_core core_counters at_counters_def)
  note sem = instruction_correct [OF al b op code bound core(1) can core(2), of "vm_config m"]
  note run = frag_runs [OF ok at local_instruction_code [OF al b op code] core(3), of "steps s",
      unfolded core_at_counters]
  show ?thesis
  proof (cases "ir_effect f ins env")
    case (Inl e)
    then have "frag (vm_config m) code (core s) = Inl e" using sem by simp
    then show ?thesis using run by (simp add: Inl)
  next
    case (Inr env')
    then obtain t0 where t0: "frag (vm_config m) code (core s) = Inr t0" "holds f a env' t0" "frame_ready t0"
      "registers t0 R10 = registers (core s) R10" "frames t0 = frames (core s)"
      "known f (ins_Dest ins) \<longrightarrow> home_value a (ins_Dest ins) t0 = Inr (env' (ins_Dest ins))"
      "canonical_env f env'"
      using sem by (auto simp: computes_def)
    obtain k where k: "k \<le> length code"
      "advance k m s = Next (at_counters (state_pc s + slot_sum code) (steps s + int k) t0)"
      using run t0(1) by auto
    have "frame_mapped t0" using t0(3) by (simp add: frame_ready_def frame_mapped_def)
    moreover have "registers (core s) = registers s" "frames (core s) = frames s" by (simp_all add: core_def)
    moreover have "state_pc (at_counters x y t) = x" "frames (at_counters x y t) = frames t" for x y t
      by (simp_all add: at_counters_def)
    ultimately show ?thesis
      using k t0 unfolding Inr sum.case
      by (intro exI [of _ k] exI [of _ "at_counters (state_pc s + slot_sum code) (steps s + int k) t0"]) simp
  qed
qed

text \<open>
  C3. Instruction selection is a refinement.  Let a machine accept a program that contains, at the
  program counter, the code selected for an IR operation on registers (constant, move, arithmetic,
  comparison, pointer addition, bounds check) of a validated function with its allocation; let the
  homes in the machine hold the values of the IR, each in the register form of its type.  If the IR
  operation traps, so does the machine, with the same error, within the code.  Otherwise the
  machine reaches the end of the code in at most one step per instruction, and the homes hold the
  values after the operation, the new one included, the frame and the call stack as before.
\<close>

theorem selected_code_refines:
  assumes "NewWithConfig p c = Inr m"
    and "allocated f a" and "b \<in> set (fn_Blocks f)" and "ins \<in> set (block_Instructions b)"
    and "register_operation (ins_Op ins)" and "bound_fits f ins"
    and "instruction_code f a ins = Inr code" and "code_at m (state_pc s) code"
    and "holds f a env s" and "canonical_env f env" and "frame_mapped s"
  shows "case ir_effect f ins env of
      Inl e \<Rightarrow> \<exists>k t. k \<le> length code \<and> advance k m s = Done (Inl e) t
    | Inr env' \<Rightarrow> \<exists>k t. k \<le> length code \<and> advance k m s = Next t \<and>
        state_pc t = state_pc s + slot_sum code \<and> holds f a env' t \<and> canonical_env f env' \<and>
        frame_mapped t \<and> registers t R10 = registers s R10 \<and> frames t = frames s \<and>
        (known f (ins_Dest ins) \<longrightarrow> home_value a (ins_Dest ins) t = Inr (env' (ins_Dest ins)))"
  by (rule selected_code [OF assms])

section \<open>A function that doubles its argument\<close>

definition twice_ins :: ir_instruction where
  "twice_ins = plain_ins\<lparr>ins_Op := OpAdd, ins_Dest := 1, ins_X := 0, ins_Y := 0\<rparr>"

definition twice_block :: basic_block where
  "twice_block = \<lparr>block_ID = 0, block_Name = ''entry'', block_Instructions = [twice_ins],
     block_Terminator = plain_term\<lparr>term_Result := 1\<rparr>\<rparr>"

definition twice_fn :: ir_function where
  "twice_fn = \<lparr>fn_Name = ''f'', fn_Params = [0], fn_Result = TypeUint64,
     fn_Values = [demo_value 0 ValueParameter, demo_value 1 ValueTemporary], fn_Memory = [],
     fn_Blocks = [twice_block], fn_Entry = 0\<rparr>"

definition twice_code :: "instruction list" where
  "twice_code = [ALUReg MOV64_REG R0 R1, ALUReg ADD64_REG R0 R1]"

definition twice_config :: Config where
  "twice_config = \<lparr>MaxInstructions = 10, MaxCallDepth = 1, StackFrameSize = 4096\<rparr>"

lemma twice_valid: "validateFunction twice_fn (\<lambda>_. None) = None"
  by code_simp

lemma twice_allocated:
  obtains a where "allocated twice_fn a" and "home a 0 = registerLocation R1" and "home a 1 = registerLocation R0"
proof -
  have al: "(case allocateRegisters twice_fn of Inl e \<Rightarrow> False | Inr a \<Rightarrow>
      ra_homes a 0 = Some (registerLocation R1) \<and> ra_homes a 1 = Some (registerLocation R0))"
    by code_simp
  then obtain a where a: "allocateRegisters twice_fn = Inr a" by (cases "allocateRegisters twice_fn") auto
  moreover have "length (fn_Values twice_fn) \<le> 2 ^ 32" by (simp add: twice_fn_def)
  ultimately have "allocated twice_fn a" unfolding allocated_def using twice_valid by blast
  then show thesis using that [of a] al by (simp add: a home_def)
qed

lemma twice_selected:
  assumes "home a 0 = registerLocation R1" and "home a 1 = registerLocation R0"
  shows "instruction_code twice_fn a twice_ins = Inr twice_code"
proof -
  have "value_type twice_fn 1 = TypeUint64"
    by (simp add: value_type_def Function_Value_def twice_fn_def demo_value_def)
  then show ?thesis
    using assms
    by (simp add: instruction_code_def twice_ins_def emitArithmetic_def home_target_def registerLocation_def
        location_equal_def normalizeRegister_def narrow_def type_bits_def opcode64_def store_home_def
        twice_code_def Let_def)
qed

lemma twice_frame: "frame_mapped (initial_state twice_config [] [21])"
proof -
  have "mapped (initial_state twice_config [] [21]) (MMStackStart + 4096 - of_nat d) MemoryDoubleWord True"
    if "8 \<le> d" "d \<le> 4096" for d
  proof -
    define x :: u64 where "x = MMStackStart + 4096 - of_nat d"
    have x: "unat x = 0x200001000 - d"
      using unat_below [OF that(2), of "MMStackStart + 4096"] by (simp add: x_def)
    have "x - MMStackStart = 4096 - of_nat d" by (simp add: x_def)
    then have off: "unat (x - MMStackStart) = 4096 - d"
      using unat_below [OF that(2), of 4096] by simp
    have "MMStackStart \<le> x" "x \<le> - 9" using x that by (simp_all add: word_le_nat_alt)
    then show ?thesis
      unfolding x_def [symmetric] using off that
      by (simp add: mapped_def memoryRange_def initial_state_def twice_config_def)
  qed
  then show ?thesis
    by (simp add: frame_mapped_def initial_state_def twice_config_def)
qed


lemma twice_machine:
  obtains m where "NewWithConfig (twice_code @ [Return]) twice_config = Inr m" and "code_at m 0 twice_code"
proof -
  have "ValidateProgram (twice_code @ [Return]) = None" by code_simp
  moreover have "validateConfig twice_config = None" by (simp add: validateConfig_def twice_config_def)
  ultimately obtain m where m: "NewWithConfig (twice_code @ [Return]) twice_config = Inr m"
    using NewWithConfig_ex by blast
  have "vm_program m = [] @ twice_code @ [Return]" using NewWithConfigD(3) [OF m] by simp
  then have "code_at m 0 twice_code"
    unfolding code_at_def by (intro exI [of _ "[]"] exI [of _ "[Return]"]) simp
  with m show thesis by (rule that)
qed

theorem selected_code_refines_witness:
  "\<exists>m k t. NewWithConfig (twice_code @ [Return]) twice_config = Inr m \<and>
     advance k m (initial_state twice_config [] [21]) = Next t \<and> registers t R0 = 42"
proof -
  define s where "s = initial_state twice_config [] [21]"
  define env :: "value_id \<Rightarrow> u64" where "env = (\<lambda>i. if i = 0 then 21 else 0)"
  obtain a where a: "allocated twice_fn a" "home a 0 = registerLocation R1" "home a 1 = registerLocation R0"
    by (rule twice_allocated)
  obtain m where m: "NewWithConfig (twice_code @ [Return]) twice_config = Inr m" "code_at m 0 twice_code"
    by (rule twice_machine)
  have known: "known twice_fn i \<longleftrightarrow> i = 0 \<or> i = 1" for i
  proof -
    have "unat i = 0 \<longleftrightarrow> i = 0" "unat i = 1 \<longleftrightarrow> i = 1" by (simp_all add: word_eq_iff_unsigned [where ?'a = nat])
    then show ?thesis
      by (auto simp: known_def Function_Value_def twice_fn_def demo_value_def Let_def less_2_cases_iff not_le
          numeral_2_eq_2 less_Suc_eq)
  qed
  have vt: "value_type twice_fn 0 = TypeUint64" "value_type twice_fn 1 = TypeUint64"
    by (simp_all add: value_type_def Function_Value_def twice_fn_def demo_value_def)
  have direct: "1 \<in> set (directReturnValues twice_fn)" by code_simp
  have "home_value a 0 s = Inr (env 0)"
    by (simp add: home_value_def a(2) registerLocation_def s_def initial_state_def env_def)
  then have h: "holds twice_fn a env s" using known direct by (auto simp: holds_def)
  have can: "canonical_env twice_fn env"
    by (auto simp: canonical_env_def known vt canonical_def register_form_def)
  have eff: "ir_effect twice_fn twice_ins env = Inr (env(1 := 42))"
    by (simp add: ir_effect_def twice_ins_def plain_ins_def arithmetic_def Let_def int_operation_def vt
        type_value_def signed_type_def env_def register_form_def)
  have pc: "state_pc s = 0" by (simp add: s_def initial_state_def)
  have bl: "twice_block \<in> set (fn_Blocks twice_fn)" "twice_ins \<in> set (block_Instructions twice_block)"
    by (simp_all add: twice_fn_def twice_block_def)
  have op: "register_operation (ins_Op twice_ins)" "bound_fits twice_fn twice_ins" "ins_Dest twice_ins = 1"
    by (simp_all add: twice_ins_def plain_ins_def register_operation_def arithmetic_def bound_fits_def)
  have fr: "frame_mapped s" unfolding s_def by (rule twice_frame)
  from selected_code_refines [OF m(1) a(1) bl op(1,2) twice_selected [OF a(2,3)] _ h can fr] m(2)
  obtain k t where t: "advance k m s = Next t" "home_value a 1 t = Inr 42"
    by (auto simp: pc eff op(3) known)
  then have "registers t R0 = 42" by (simp add: home_value_def a(3) registerLocation_def)
  with t(1) m(1) show ?thesis unfolding s_def by blast
qed


section \<open>A bound that does not fit\<close>


end
