(* ===== verification/IrClaims.thy ===== *)
theory IrClaims
  imports IrFacts "HOL-Library.Code_Target_Nat"
begin

text \<open>
  Three things validation lets through or decides by chance: the size of a memory object wraps, and
  the outcome of the lifetime analysis depends on the order in which Go walks a map.
\<close>

section \<open>The order of store effects\<close>

text \<open>
  \<open>g(p, q, x)\<close> copies \<open>*p\<close> to \<open>*q\<close> and then stores \<open>x\<close> through \<open>p\<close>; \<open>h\<close> calls it with two locals and
  the address of the first, and returns what is in the second.
\<close>

definition order_ins :: "ir_op \<Rightarrow> value_id \<Rightarrow> value_id \<Rightarrow> value_id \<Rightarrow> ir_instruction" where
  "order_ins op dest x y =
     \<lparr>ins_Op = op, ins_Dest = dest, ins_X = x, ins_Y = y, ins_Imm = 0, ins_Callee = '''', ins_Args = [],
      ins_SyscallID = 0, ins_Object = NoMemoryObject, ins_SourceObject = NoMemoryObject,
      ins_Memory = IrMemUint64, ins_Scale = 0, ins_Pos = \<lparr>Filename = '''', Line = 0, Column = 0\<rparr>\<rparr>"

definition order_value :: "value_id \<Rightarrow> ir_type \<Rightarrow> value_kind \<Rightarrow> ir_value" where
  "order_value i t k = \<lparr>value_ID = i, value_Name = ''v'', value_Type = t, value_Kind = k\<rparr>"

definition order_return :: "value_id \<Rightarrow> terminator" where
  "order_return i = \<lparr>term_Kind = TermReturn, term_Target = NoBlock, term_True = NoBlock,
     term_False = NoBlock, term_Cond = NoValue, term_Result = i,
     term_Pos = \<lparr>Filename = '''', Line = 0, Column = 0\<rparr>\<rparr>"

definition order_callee :: ir_function where
  "order_callee = \<lparr>fn_Name = ''g'', fn_Params = [0, 1, 2], fn_Result = TypeVoid,
     fn_Values = [order_value 0 (PointerTo TypeUint64) ValueParameter,
       order_value 1 (PointerTo TypeUint64) ValueParameter, order_value 2 TypeUint64 ValueParameter,
       order_value 3 TypeUint64 ValueTemporary],
     fn_Memory = [],
     fn_Blocks = [\<lparr>block_ID = 0, block_Name = ''entry'', block_Instructions =
       [order_ins OpLoad 3 0 0, order_ins OpStore NoValue 1 3, order_ins OpStore NoValue 0 2],
       block_Terminator = order_return NoValue\<rparr>],
     fn_Entry = 0\<rparr>"

definition order_object :: "object_id \<Rightarrow> memory_object" where
  "order_object i = \<lparr>object_ID = i, object_Name = ''m'', object_Element = TypeUint64, object_Length = 1\<rparr>"

definition order_caller :: ir_function where
  "order_caller = \<lparr>fn_Name = ''h'', fn_Params = [], fn_Result = TypeUint64,
     fn_Values = [order_value 0 (PointerTo TypeUint64) ValueTemporary,
       order_value 1 (PointerTo TypeUint64) ValueTemporary, order_value 2 TypeUint64 ValueTemporary,
       order_value 3 TypeUint64 ValueTemporary],
     fn_Memory = [order_object 0, order_object 1],
     fn_Blocks = [\<lparr>block_ID = 0, block_Name = ''entry'', block_Instructions =
       [(order_ins OpAddress 0 0 0)\<lparr>ins_Object := 0\<rparr>,
        (order_ins OpAddress 1 0 0)\<lparr>ins_Object := 1\<rparr>,
        order_ins OpPointerAddress 2 0 0,
        (order_ins OpCall NoValue 0 0)\<lparr>ins_Callee := ''g'', ins_Args := [0, 1, 2]\<rparr>,
        order_ins OpLoad 3 1 0],
       block_Terminator = order_return 3\<rparr>],
     fn_Entry = 0\<rparr>"

definition order_program :: ir_program where
  "order_program = \<lparr>prog_Package = ''main'', prog_Functions = [order_callee, order_caller]\<rparr>"

definition order_effect :: "u8 \<Rightarrow> u8 \<Rightarrow> nat \<Rightarrow> addressStoreEffect" where
  "order_effect params mem index =
     \<lparr>effect_value = \<lparr>origin_local = False, origin_parameters = params, origin_memory = mem\<rparr>,
      effect_destination = no_value\<lparr>av_origins := no_origins\<lparr>origin_parameters := push_bit index 1\<rparr>,
        av_location := no_location\<lparr>loc_kind := addressLocationParameter, loc_parameter := of_nat index\<rparr>\<rparr>,
      effect_width = 8\<rparr>"

definition order_summary :: addressLifetimeSummary where
  "order_summary = \<lparr>summary_returned = no_origins,
     summary_stores = [order_effect 0 1 1, order_effect 4 0 0]\<rparr>"

lemma order_callee_summary: "analyzeStackAddressLifetime ord order_callee summaries = Inr order_summary"
  by code_simp

lemma order_caller_summary:
  "analyzeStackAddressLifetime (\<lambda>effects. effects) order_caller (summaries(''g'' \<mapsto> order_summary)) =
     Inr newAddressLifetimeSummary"
  "analyzeStackAddressLifetime rev order_caller (summaries(''g'' \<mapsto> order_summary)) = Inl ReturnEscapes"
  by code_simp+

lemma order_functions_valid:
  "validateFunction order_callee (Program_Function order_program) = None"
  "validateFunction order_caller (Program_Function order_program) = None"
  by code_simp+


lemma order_lifetimes:
  "validateStackAddressLifetimes (\<lambda>effects. effects) order_program = None"
  "validateStackAddressLifetimes rev order_program = Some ReturnEscapes"
proof -
  have start: "validateStackAddressLifetimes ord order_program =
      lifetime_iterate 256 ord [order_callee, order_caller] (initial_summaries [order_callee, order_caller])"
    for ord
  proof -
    have "programUsesPointerAddress order_program"
      by (simp add: programUsesPointerAddress_def order_program_def order_caller_def order_callee_def order_ins_def)
    then show ?thesis by (simp add: validateStackAddressLifetimes_def order_program_def del: lifetime_iterate.simps)
  qed
  have names: "fn_Name order_callee = ''g''" "fn_Name order_caller = ''h''"
    by (simp_all add: order_callee_def order_caller_def)
  have init: "initial_summaries [order_callee, order_caller] ''g'' = Some newAddressLifetimeSummary"
    "initial_summaries [order_callee, order_caller] ''h'' = Some newAddressLifetimeSummary"
    by (simp_all add: initial_summaries_def names)
  have merge: "merge_summary newAddressLifetimeSummary order_summary = (order_summary, True)"
    "merge_summary order_summary order_summary = (order_summary, False)"
    "merge_summary newAddressLifetimeSummary newAddressLifetimeSummary = (newAddressLifetimeSummary, False)"
    by code_simp+
  have few: "length (summary_stores order_summary) \<le> 4096" "length (summary_stores newAddressLifetimeSummary) \<le> 4096"
    by (simp_all add: order_summary_def newAddressLifetimeSummary_def)
  have two: "(256 :: nat) = Suc (Suc 254)" by simp
  have "lifetime_iterate (Suc (Suc n)) (\<lambda>effects. effects) [order_callee, order_caller]
      (initial_summaries [order_callee, order_caller]) = None" for n
    by (simp add: order_callee_summary order_caller_summary names init merge few not_less Let_def)
  then show "validateStackAddressLifetimes (\<lambda>effects. effects) order_program = None"
    unfolding start two .
  have "lifetime_iterate (Suc n) rev [order_callee, order_caller]
      (initial_summaries [order_callee, order_caller]) = Some ReturnEscapes" for n
    by (simp add: order_callee_summary order_caller_summary names init merge few not_less Let_def)
  then show "validateStackAddressLifetimes rev order_program = Some ReturnEscapes"
    unfolding start two .
qed

text \<open>
  C17. Whether the compiler accepts a program can depend on the iteration order of a Go map: with the
  store effects of \<open>g\<close> applied in one order the program is valid, in the other order the same program
  is rejected because a stack address escapes.
\<close>

theorem validation_depends_on_map_order:
  "Program_Validate (\<lambda>effects. effects) order_program = None \<and>
   Program_Validate rev order_program = Some (IrLifetime ReturnEscapes)"
proof -
  have reg: "register_functions (prog_Functions order_program) (\<lambda>_. None) = Inr (Program_Function order_program)"
    by (simp add: order_program_def order_callee_def order_caller_def Program_Function_def fun_eq_iff)
  have "prog_Package order_program \<noteq> ''''" by (simp add: order_program_def)
  moreover have "check_each (\<lambda>i f. validateFunction f (Program_Function order_program)) 0
      (prog_Functions order_program) = None"
    using order_functions_valid by (simp add: order_program_def check_each_None less_Suc_eq)
  ultimately show ?thesis
    by (simp add: Program_Validate_def reg order_lifetimes also_check_def)
qed

section \<open>The size of a memory object\<close>

text \<open>
  C18. The checks on a memory object see its size modulo 2^32: an object of 0x20000001 64-bit elements
  passes them with a size of 8 bytes.  Every object whose type the frontend can build, with at
  most 0xfffff elements, has its true size.
\<close>

theorem object_size_wraps:
  "validate_object 0 \<lparr>object_ID = 0, object_Name = ''m'', object_Element = TypeUint64,
      object_Length = 0x20000001\<rparr> = None \<and>
   object_Size \<lparr>object_ID = 0, object_Name = ''m'', object_Element = TypeUint64,
      object_Length = 0x20000001\<rparr> = 8 \<and>
   {object. ArrayOf (object_Element object) (object_Length object) \<noteq> TypeInvalid} \<subseteq>
     {object. uint (object_Size object) =
        uint (memoryBytes (object_Element object)) * uint (object_Length object)}"
proof (intro conjI subsetI)
  fix object :: memory_object
  assume "object \<in> {object. ArrayOf (object_Element object) (object_Length object) \<noteq> TypeInvalid}"
  then have el: "memoryScalar (object_Element object)" and le: "object_Length object \<le> 0x000fffff"
    by (auto simp: ArrayOf_def split: if_splits)
  have b: "uint (memoryBytes (object_Element object)) \<le> 8"
    using el by (auto simp: memoryScalar_def memoryBytes_def)
  have n: "uint (object_Length object) \<le> 0xfffff" using le by (simp add: word_le_def)
  have "uint (memoryBytes (object_Element object)) * uint (object_Length object) \<le> 8 * 0xfffff"
    using b n by (intro mult_mono) simp_all
  then show "object \<in> {object. uint (object_Size object) =
      uint (memoryBytes (object_Element object)) * uint (object_Length object)}"
    by (simp add: object_Size_def uint_word_ariths(3) mod_pos_pos_trivial)
qed (simp_all add: validate_object_def object_Size_def memoryScalar_def memoryBytes_def)

end
