(* ===== verification/GoSyntax.thy ===== *)
theory GoSyntax
  imports Numerals
begin

text \<open>
  What the frontend in \<open>src/compiler\<close> sees of the Go standard library: the syntax trees of
  \<open>go/ast\<close>, the tokens of \<open>go/token\<close>, the types, objects and tables of \<open>go/types\<close> and the constants
  of \<open>go/constant\<close>.

  The frontend tells nodes and objects apart by their address.  A syntax node carries a key that
  stands for its address, with the results of \<open>Pos\<close> and \<open>End\<close>; a variable and a function carry such
  a key too.  A table of \<open>go/types\<close> is a map on keys.  The nodes that \<open>validateSyntax\<close> refuses
  without entering them are leaves here: no later pass sees a tree that has one.
\<close>

section \<open>Positions and tokens\<close>

type_synonym token_pos = int

abbreviation (input) NoPos :: token_pos where "NoPos \<equiv> 0"

record node =
  node_Key :: nat
  node_Pos :: token_pos
  node_End :: token_pos

datatype go_token =
    tokADD | tokSUB | tokMUL | tokQUO | tokREM | tokAND
  | tokEQL | tokNEQ | tokLSS | tokLEQ | tokGTR | tokGEQ
  | tokASSIGN | tokDEFINE | tokADD_ASSIGN | tokSUB_ASSIGN | tokMUL_ASSIGN | tokQUO_ASSIGN | tokREM_ASSIGN
  | tokINC | tokDEC | tokVAR | tokINT | tokOther string

fun Token_String :: "go_token \<Rightarrow> string" where
  "Token_String tokADD = ''+''"
| "Token_String tokSUB = ''-''"
| "Token_String tokMUL = ''*''"
| "Token_String tokQUO = ''/''"
| "Token_String tokREM = ''%''"
| "Token_String tokAND = ''&''"
| "Token_String tokEQL = ''==''"
| "Token_String tokNEQ = ''!=''"
| "Token_String tokLSS = ''<''"
| "Token_String tokLEQ = ''<=''"
| "Token_String tokGTR = ''>''"
| "Token_String tokGEQ = ''>=''"
| "Token_String tokASSIGN = ''=''"
| "Token_String tokDEFINE = '':=''"
| "Token_String tokADD_ASSIGN = ''+=''"
| "Token_String tokSUB_ASSIGN = ''-=''"
| "Token_String tokMUL_ASSIGN = ''*=''"
| "Token_String tokQUO_ASSIGN = ''/=''"
| "Token_String tokREM_ASSIGN = ''%=''"
| "Token_String tokINC = ''++''"
| "Token_String tokDEC = ''--''"
| "Token_String tokVAR = ''var''"
| "Token_String tokINT = ''INT''"
| "Token_String (tokOther s) = s"

section \<open>Syntax trees\<close>

datatype refused_expr =
    FuncLit | SelectorExpr | IndexListExpr | SliceExpr | TypeAssertExpr | MapType | ChanType
  | InterfaceType | StructType | BadExpr | EllipsisExpr | FuncType

datatype expr =
    Ident node string
  | BasicLit node go_token
  | CompositeLit node "expr option" "expr list"
  | ParenExpr node expr
  | IndexExpr node expr expr
  | StarExpr node expr
  | UnaryExpr node go_token expr
  | BinaryExpr node expr go_token expr
  | CallExpr node expr "expr list" token_pos
  | KeyValueExpr node expr expr
  | ArrayType node "expr option" expr
  | RefusedExpr node refused_expr

type_synonym ident = "node \<times> string"

datatype spec = ValueSpec node "ident list" "expr option" "expr list" | OtherSpec node string

datatype local_decl = GenDecl node go_token "spec list" | BadDecl node

datatype refused_stmt =
    BranchStmt go_token | GoStmt | DeferStmt | SendStmt | RangeStmt | SwitchStmt | TypeSwitchStmt
  | SelectStmt | LabeledStmt | BadStmt

datatype stmt =
    BlockStmt node "stmt list"
  | EmptyStmt node
  | ReturnStmt node "expr list"
  | AssignStmt node "expr list" go_token "expr list"
  | DeclStmt node local_decl
  | IncDecStmt node expr go_token
  | ExprStmt node expr
  | IfStmt node "stmt option" expr node "stmt list" "stmt option"
  | ForStmt node "stmt option" "expr option" "stmt option" node "stmt list"
  | RefusedStmt node refused_stmt

record ast_field =
  field_Node :: node
  field_Names :: "ident list"

record func_decl =
  decl_Node :: node
  decl_Recv :: "node option"
  decl_Name :: ident
  decl_TypeParams :: "node option"
  decl_Params :: node
  decl_Results :: "(node \<times> ast_field list) option"
  decl_Body :: "(node \<times> stmt list) option"

datatype top_decl = FuncDecl func_decl | OtherDecl node

record source_file =
  file_Node :: node
  file_Name :: string
  file_Imports :: "node list"
  file_Decls :: "top_decl list"

fun expr_node :: "expr \<Rightarrow> node" where
  "expr_node (Ident n s) = n"
| "expr_node (BasicLit n k) = n"
| "expr_node (CompositeLit n t es) = n"
| "expr_node (ParenExpr n x) = n"
| "expr_node (IndexExpr n x i) = n"
| "expr_node (StarExpr n x) = n"
| "expr_node (UnaryExpr n op x) = n"
| "expr_node (BinaryExpr n x op y) = n"
| "expr_node (CallExpr n f es e) = n"
| "expr_node (KeyValueExpr n k v) = n"
| "expr_node (ArrayType n l e) = n"
| "expr_node (RefusedExpr n k) = n"

fun stmt_node :: "stmt \<Rightarrow> node" where
  "stmt_node (BlockStmt n ss) = n"
| "stmt_node (EmptyStmt n) = n"
| "stmt_node (ReturnStmt n es) = n"
| "stmt_node (AssignStmt n ls tok rs) = n"
| "stmt_node (DeclStmt n d) = n"
| "stmt_node (IncDecStmt n x tok) = n"
| "stmt_node (ExprStmt n x) = n"
| "stmt_node (IfStmt n i c bn b e) = n"
| "stmt_node (ForStmt n i c p bn b) = n"
| "stmt_node (RefusedStmt n k) = n"

fun spec_node :: "spec \<Rightarrow> node" where
  "spec_node (ValueSpec n names t vs) = n"
| "spec_node (OtherSpec n k) = n"

fun local_decl_node :: "local_decl \<Rightarrow> node" where
  "local_decl_node (GenDecl n tok specs) = n"
| "local_decl_node (BadDecl n) = n"

fun top_decl_node :: "top_decl \<Rightarrow> node" where
  "top_decl_node (FuncDecl d) = decl_Node d"
| "top_decl_node (OtherDecl n) = n"

text \<open>The name \<open>%T\<close> prints for a node.\<close>

fun refused_expr_name :: "refused_expr \<Rightarrow> string" where
  "refused_expr_name FuncLit = ''*ast.FuncLit''"
| "refused_expr_name SelectorExpr = ''*ast.SelectorExpr''"
| "refused_expr_name IndexListExpr = ''*ast.IndexListExpr''"
| "refused_expr_name SliceExpr = ''*ast.SliceExpr''"
| "refused_expr_name TypeAssertExpr = ''*ast.TypeAssertExpr''"
| "refused_expr_name MapType = ''*ast.MapType''"
| "refused_expr_name ChanType = ''*ast.ChanType''"
| "refused_expr_name InterfaceType = ''*ast.InterfaceType''"
| "refused_expr_name StructType = ''*ast.StructType''"
| "refused_expr_name BadExpr = ''*ast.BadExpr''"
| "refused_expr_name EllipsisExpr = ''*ast.Ellipsis''"
| "refused_expr_name FuncType = ''*ast.FuncType''"

fun expr_name :: "expr \<Rightarrow> string" where
  "expr_name (Ident n s) = ''*ast.Ident''"
| "expr_name (BasicLit n k) = ''*ast.BasicLit''"
| "expr_name (CompositeLit n t es) = ''*ast.CompositeLit''"
| "expr_name (ParenExpr n x) = ''*ast.ParenExpr''"
| "expr_name (IndexExpr n x i) = ''*ast.IndexExpr''"
| "expr_name (StarExpr n x) = ''*ast.StarExpr''"
| "expr_name (UnaryExpr n op x) = ''*ast.UnaryExpr''"
| "expr_name (BinaryExpr n x op y) = ''*ast.BinaryExpr''"
| "expr_name (CallExpr n f es e) = ''*ast.CallExpr''"
| "expr_name (KeyValueExpr n k v) = ''*ast.KeyValueExpr''"
| "expr_name (ArrayType n l e) = ''*ast.ArrayType''"
| "expr_name (RefusedExpr n k) = refused_expr_name k"

fun refused_stmt_name :: "refused_stmt \<Rightarrow> string" where
  "refused_stmt_name (BranchStmt tok) = ''*ast.BranchStmt''"
| "refused_stmt_name GoStmt = ''*ast.GoStmt''"
| "refused_stmt_name DeferStmt = ''*ast.DeferStmt''"
| "refused_stmt_name SendStmt = ''*ast.SendStmt''"
| "refused_stmt_name RangeStmt = ''*ast.RangeStmt''"
| "refused_stmt_name SwitchStmt = ''*ast.SwitchStmt''"
| "refused_stmt_name TypeSwitchStmt = ''*ast.TypeSwitchStmt''"
| "refused_stmt_name SelectStmt = ''*ast.SelectStmt''"
| "refused_stmt_name LabeledStmt = ''*ast.LabeledStmt''"
| "refused_stmt_name BadStmt = ''*ast.BadStmt''"

section \<open>Walking a tree\<close>

text \<open>
  The expressions \<open>ast.Inspect\<close> visits when its function always returns true, in its order: a node
  before its children, the children in the order of the syntax.
\<close>

fun inspect :: "expr \<Rightarrow> expr list" where
  "inspect (Ident n s) = [Ident n s]"
| "inspect (BasicLit n k) = [BasicLit n k]"
| "inspect (CompositeLit n t es) =
     CompositeLit n t es # (case t of None \<Rightarrow> [] | Some t \<Rightarrow> inspect t) @ concat (map inspect es)"
| "inspect (ParenExpr n x) = ParenExpr n x # inspect x"
| "inspect (IndexExpr n x i) = IndexExpr n x i # inspect x @ inspect i"
| "inspect (StarExpr n x) = StarExpr n x # inspect x"
| "inspect (UnaryExpr n op x) = UnaryExpr n op x # inspect x"
| "inspect (BinaryExpr n x op y) = BinaryExpr n x op y # inspect x @ inspect y"
| "inspect (CallExpr n f es e) = CallExpr n f es e # inspect f @ concat (map inspect es)"
| "inspect (KeyValueExpr n k v) = KeyValueExpr n k v # inspect k @ inspect v"
| "inspect (ArrayType n l e) =
     ArrayType n l e # (case l of None \<Rightarrow> [] | Some l \<Rightarrow> inspect l) @ inspect e"
| "inspect (RefusedExpr n k) = [RefusedExpr n k]"

definition inspect_all :: "expr list \<Rightarrow> expr list" where
  "inspect_all es = concat (map inspect es)"

definition inspect_maybe :: "expr option \<Rightarrow> expr list" where
  "inspect_maybe e = (case e of None \<Rightarrow> [] | Some e \<Rightarrow> inspect e)"

fun inspect_spec :: "spec \<Rightarrow> expr list" where
  "inspect_spec (ValueSpec n names t vs) =
     map (\<lambda>(n, s). Ident n s) names @ inspect_maybe t @ inspect_all vs"
| "inspect_spec (OtherSpec n k) = []"

fun inspect_decl :: "local_decl \<Rightarrow> expr list" where
  "inspect_decl (GenDecl n tok specs) = concat (map inspect_spec specs)"
| "inspect_decl (BadDecl n) = []"

fun inspect_stmt :: "stmt \<Rightarrow> expr list" where
  "inspect_stmt (BlockStmt n ss) = concat (map inspect_stmt ss)"
| "inspect_stmt (EmptyStmt n) = []"
| "inspect_stmt (ReturnStmt n es) = inspect_all es"
| "inspect_stmt (AssignStmt n ls tok rs) = inspect_all ls @ inspect_all rs"
| "inspect_stmt (DeclStmt n d) = inspect_decl d"
| "inspect_stmt (IncDecStmt n x tok) = inspect x"
| "inspect_stmt (ExprStmt n x) = inspect x"
| "inspect_stmt (IfStmt n i c bn b e) =
     (case i of None \<Rightarrow> [] | Some i \<Rightarrow> inspect_stmt i) @ inspect c @ concat (map inspect_stmt b) @
     (case e of None \<Rightarrow> [] | Some e \<Rightarrow> inspect_stmt e)"
| "inspect_stmt (ForStmt n i c p bn b) =
     (case i of None \<Rightarrow> [] | Some i \<Rightarrow> inspect_stmt i) @ inspect_maybe c @
     (case p of None \<Rightarrow> [] | Some p \<Rightarrow> inspect_stmt p) @ concat (map inspect_stmt b)"
| "inspect_stmt (RefusedStmt n k) = []"

section \<open>Types, objects and constants\<close>

datatype basic_kind =
    KindUint64 | KindInt64 | KindUint32 | KindInt32 | KindUint8 | KindBool
  | KindUntypedBool | KindUntypedInt | KindUntypedRune | KindOther

text \<open>A basic type carries its name; a named type its name and its underlying type.\<close>

datatype go_type =
    GoBasic basic_kind string
  | GoPointer go_type
  | GoArray go_type int
  | GoNamed string go_type
  | GoSignature "(nat \<times> string \<times> go_type) list" "go_type list"
  | GoOther string

fun Underlying :: "go_type \<Rightarrow> go_type" where
  "Underlying (GoNamed name t) = Underlying t"
| "Underlying t = t"

text \<open>\<open>strings.Join\<close>.\<close>

fun joined :: "string \<Rightarrow> string list \<Rightarrow> string" where
  "joined sep [] = []"
| "joined sep [s] = s"
| "joined sep (s # t # ss) = s @ sep @ joined sep (t # ss)"

text \<open>The text \<open>%s\<close> prints for a type.\<close>

fun GoType_String :: "go_type \<Rightarrow> string" where
  "GoType_String (GoBasic k name) = name"
| "GoType_String (GoPointer t) = CHR ''*'' # GoType_String t"
| "GoType_String (GoArray t len) = ''['' @ signed_decimal len @ '']'' @ GoType_String t"
| "GoType_String (GoNamed name t) = name"
| "GoType_String (GoSignature ps rs) =
     ''func('' @ joined '', ''
       (map (\<lambda>(key, name, t). if name = '''' then GoType_String t else name @ '' '' @ GoType_String t) ps) @ '')'' @
     (case rs of [] \<Rightarrow> '''' | [r] \<Rightarrow> '' '' @ GoType_String r
      | _ \<Rightarrow> '' ('' @ joined '', '' (map GoType_String rs) @ '')'')"
| "GoType_String (GoOther name) = name"

text \<open>
  A constant is a truth value, an integer, or another constant with the integer \<open>constant.ToInt\<close>
  makes of it, if any, and its exact text.
\<close>

datatype const_value = ConstBool bool | ConstInt int | ConstOther "int option" string

fun ToInt :: "const_value \<Rightarrow> int option" where
  "ToInt (ConstBool b) = None"
| "ToInt (ConstInt k) = Some k"
| "ToInt (ConstOther k s) = k"

fun ExactString :: "const_value \<Rightarrow> string" where
  "ExactString (ConstBool b) = (if b then ''true'' else ''false'')"
| "ExactString (ConstInt k) = signed_decimal k"
| "ExactString (ConstOther k s) = s"

text \<open>\<open>Uint64Val\<close> and \<open>Int64Val\<close> of an integer: the value and whether it is exact.\<close>

definition Uint64Val :: "int \<Rightarrow> u64 \<times> bool" where
  "Uint64Val k = (word_of_int k, 0 \<le> k \<and> k < 2 ^ 64)"

definition Int64Val :: "int \<Rightarrow> int \<times> bool" where
  "Int64Val k = (sint (word_of_int k :: u64), - (2 ^ 63) \<le> k \<and> k < 2 ^ 63)"

datatype go_object =
    VarObject nat string go_type
  | FuncObject nat string "nat option" go_type
  | TypeNameObject string go_type
  | BuiltinObject string
  | OtherObject go_type

fun object_Type :: "go_object \<Rightarrow> go_type" where
  "object_Type (VarObject key name t) = t"
| "object_Type (FuncObject key name pkg t) = t"
| "object_Type (TypeNameObject name t) = t"
| "object_Type (BuiltinObject name) = GoOther ''invalid type''"
| "object_Type (OtherObject t) = t"

record type_and_value =
  tv_Type :: go_type
  tv_Value :: "const_value option"

record go_info =
  info_Types :: "nat \<Rightarrow> type_and_value option"
  info_Defs :: "nat \<Rightarrow> go_object option"
  info_Uses :: "nat \<Rightarrow> go_object option"

record go_package =
  pkg_Key :: nat
  pkg_Name :: string

abbreviation Types_at :: "go_info \<Rightarrow> expr \<Rightarrow> type_and_value option" where
  "Types_at info e \<equiv> info_Types info (node_Key (expr_node e))"

text \<open>\<open>Info.TypeOf\<close>: the recorded type, for an identifier without one the type of its object.\<close>

definition TypeOf :: "go_info \<Rightarrow> expr \<Rightarrow> go_type option" where
  "TypeOf info e =
     (case Types_at info e of
        Some tv \<Rightarrow> Some (tv_Type tv)
      | None \<Rightarrow>
          (case e of
             Ident n name \<Rightarrow>
               (case info_Defs info (node_Key n) of
                  Some object \<Rightarrow> Some (object_Type object)
                | None \<Rightarrow> map_option object_Type (info_Uses info (node_Key n)))
           | _ \<Rightarrow> None))"

section \<open>Facts\<close>

lemma inspect_self: "e \<in> set (inspect e)"
  by (cases e) simp_all

end
