(* ===== verification/Checker.thy ===== *)
theory Checker
  imports GoSyntax IrValidate
begin

text \<open>
  The checker of \<open>src/compiler/checker.go\<close> and the diagnostics of \<open>src/compiler/diagnostic.go\<close>:
  what of Go the compiler accepts.  \<open>validateSyntax\<close> walks the syntax, the type checker of the
  standard library is a parameter of \<open>Check\<close>, and \<open>validateTypes\<close> looks at what it found.
\<close>

section \<open>Diagnostics\<close>

definition zero_position :: SourcePosition where
  "zero_position = \<lparr>Filename = '''', Line = 0, Column = 0\<rparr>"

definition SourcePosition_String :: "SourcePosition \<Rightarrow> string" where
  "SourcePosition_String p =
     (if Filename p \<noteq> '''' \<and> Line p > 0
      then Filename p @ '':'' @ signed_decimal (Line p) @ '':'' @ signed_decimal (Column p)
      else if Filename p \<noteq> '''' then Filename p
      else if Line p > 0 then signed_decimal (Line p) @ '':'' @ signed_decimal (Column p)
      else '''')"

record Diagnostic =
  Phase :: string
  Position :: SourcePosition
  Message :: string

definition Diagnostic_String :: "Diagnostic \<Rightarrow> string" where
  "Diagnostic_String d =
     (let pos = SourcePosition_String (Position d);
          prefix = (if pos \<noteq> '''' then (if Phase d \<noteq> '''' then Phase d @ '' '' else Phase d) @ pos else Phase d)
      in if prefix = '''' then Message d else prefix @ '': '' @ Message d)"

definition DiagnosticError_Error :: "Diagnostic list \<Rightarrow> string" where
  "DiagnosticError_Error ds =
     (if ds = [] then ''compiler error'' else joined [CHR 0x0A] (map Diagnostic_String ds))"

text \<open>
  The errors of the frontend: the diagnostics of a phase, another error with its text, an error of
  \<open>Program.Validate\<close>, and a nil dereference or failed type assertion of the code.
\<close>

datatype frontend_error =
    DiagnosticError "Diagnostic list"
  | FrontendError string
  | GeneratedInvalidIR ir_error
  | FrontendPanic

definition diagnosticsError :: "Diagnostic list \<Rightarrow> frontend_error option" where
  "diagnosticsError ds = (if ds = [] then None else Some (DiagnosticError ds))"

section \<open>Parsed and checked packages\<close>

text \<open>A file set answers with a position; \<open>Base\<close> is where the next file goes.\<close>

record file_set =
  fs_Base :: int
  fs_Position :: "token_pos \<Rightarrow> SourcePosition"

record ParsedPackage =
  Filenames :: "string list"
  FileSet :: "file_set option"
  Files :: "source_file list"

definition sourcePosition :: "file_set option \<Rightarrow> token_pos \<Rightarrow> SourcePosition" where
  "sourcePosition fileSet position =
     (case fileSet of
        None \<Rightarrow> zero_position
      | Some fs \<Rightarrow> if position = NoPos then zero_position else fs_Position fs position)"

record memory_intrinsic =
  mi_Memory :: ir_memory
  mi_Store :: bool
  mi_Address :: bool

abbreviation (input) loads :: "ir_memory \<Rightarrow> memory_intrinsic" where
  "loads t \<equiv> \<lparr>mi_Memory = t, mi_Store = False, mi_Address = False\<rparr>"

abbreviation (input) stores :: "ir_memory \<Rightarrow> memory_intrinsic" where
  "stores t \<equiv> \<lparr>mi_Memory = t, mi_Store = True, mi_Address = False\<rparr>"

definition memoryIntrinsics :: "(string \<times> memory_intrinsic) list" where
  "memoryIntrinsics =
    [(''LoadUint8'', loads IrMemUint8), (''StoreUint8'', stores IrMemUint8),
     (''LoadUint16'', loads IrMemUint16), (''StoreUint16'', stores IrMemUint16),
     (''LoadUint32'', loads IrMemUint32), (''StoreUint32'', stores IrMemUint32),
     (''LoadInt32'', loads IrMemInt32), (''StoreInt32'', stores IrMemInt32),
     (''LoadUint64'', loads IrMemUint64), (''StoreUint64'', stores IrMemUint64),
     (''LoadInt64'', loads IrMemInt64), (''StoreInt64'', stores IrMemInt64),
     (''LoadBool'', loads IrMemBool), (''StoreBool'', stores IrMemBool),
     (''AddressUint64'', \<lparr>mi_Memory = IrMemUint64, mi_Store = False, mi_Address = True\<rparr>)]"

record account_field_intrinsic =
  af_Offset :: u64
  af_Memory :: ir_memory
  af_Address :: bool

definition accountFieldIntrinsics :: "(string \<times> account_field_intrinsic) list" where
  "accountFieldIntrinsics =
    [(''AccountIsSigner'', \<lparr>af_Offset = 1, af_Memory = IrMemBool, af_Address = False\<rparr>),
     (''AccountIsWritable'', \<lparr>af_Offset = 2, af_Memory = IrMemBool, af_Address = False\<rparr>),
     (''AccountIsExecutable'', \<lparr>af_Offset = 3, af_Memory = IrMemBool, af_Address = False\<rparr>),
     (''AccountKeyAddress'', \<lparr>af_Offset = 8, af_Memory = IrMemInvalid, af_Address = True\<rparr>),
     (''AccountOwnerAddress'', \<lparr>af_Offset = 40, af_Memory = IrMemInvalid, af_Address = True\<rparr>),
     (''AccountLamportsAddress'', \<lparr>af_Offset = 72, af_Memory = IrMemInvalid, af_Address = True\<rparr>),
     (''AccountDataLen'', \<lparr>af_Offset = 80, af_Memory = IrMemUint64, af_Address = False\<rparr>),
     (''AccountDataAddress'', \<lparr>af_Offset = 88, af_Memory = IrMemInvalid, af_Address = True\<rparr>)]"

record CheckedPackage =
  Parsed :: ParsedPackage
  Checked_Package :: go_package
  Info :: go_info
  Intrinsics :: "nat \<Rightarrow> memory_intrinsic option"
  Syscalls :: "nat \<Rightarrow> syscall_intrinsic option"
  AccountField :: "nat \<Rightarrow> account_field_intrinsic option"

section \<open>Types of the language\<close>

lemma size_Underlying: "size (Underlying t) \<le> size t"
  by (induction t rule: Underlying.induct) simp_all

function strictIRType :: "go_type \<Rightarrow> string + ir_type" where
  "strictIRType goType =
     (case Underlying goType of
        GoBasic kind name \<Rightarrow>
          (case kind of
             KindUint64 \<Rightarrow> Inr TypeUint64
           | KindInt64 \<Rightarrow> Inr TypeInt64
           | KindUint32 \<Rightarrow> Inr TypeUint32
           | KindInt32 \<Rightarrow> Inr TypeInt32
           | KindUint8 \<Rightarrow> Inr TypeUint8
           | KindBool \<Rightarrow> Inr TypeBool
           | _ \<Rightarrow> Inl (''type '' @ GoType_String goType @
               '' is not supported; use uint64, int64, uint32, int32, uint8, bool, pointers, or fixed arrays''))
      | GoPointer elem \<Rightarrow>
          (case strictIRType elem of
             Inr element \<Rightarrow>
               if memoryScalar element then Inr (PointerTo element)
               else Inl (''pointer element type '' @ GoType_String elem @ '' is not a supported explicit memory type'')
           | Inl e \<Rightarrow> Inl (''pointer element type '' @ GoType_String elem @ '' is not a supported explicit memory type''))
      | GoArray elem len \<Rightarrow>
          (case strictIRType elem of
             Inl e \<Rightarrow> Inl (''array element type '' @ GoType_String elem @ '' is not a supported explicit memory type'')
           | Inr element \<Rightarrow>
               if \<not> memoryScalar element
               then Inl (''array element type '' @ GoType_String elem @ '' is not a supported explicit memory type'')
               else if len \<le> 0 \<or> len > 0x000fffff
               then Inl (''array length '' @ signed_decimal len @ '' is outside the supported range'')
               else if ucast (memoryBytes element) * (word_of_int len :: u64) > of_nat stackFrameSize
               then Inl (''array '' @ GoType_String goType @ '' exceeds the '' @ decimal stackFrameSize @ ''-byte sBPF frame'')
               else Inr (ArrayOf element (word_of_int len)))
      | _ \<Rightarrow> Inl (''type '' @ GoType_String goType @
          '' is not supported; use explicit fixed-width scalars, pointers, or fixed arrays''))"
  by pat_completeness auto
termination
proof (relation "measure size", goal_cases)
  case (2 goType elem)
  then show ?case using size_Underlying [of goType] by simp
next
  case (3 goType elem len)
  then show ?case using size_Underlying [of goType] by simp
qed simp

declare strictIRType.simps [simp del]

definition signature_of :: "go_type \<Rightarrow> ((nat \<times> string \<times> go_type) list \<times> go_type list) option" where
  "signature_of t = (case t of GoSignature ps rs \<Rightarrow> Some (ps, rs) | _ \<Rightarrow> None)"

definition parameter_type :: "nat \<times> string \<times> go_type \<Rightarrow> go_type" where
  "parameter_type p = snd (snd p)"

text \<open>\<open>got, err := strictIRType(t)\<close> with \<open>err == nil && got == want\<close>.\<close>

definition is_strictly :: "go_type \<Rightarrow> ir_type \<Rightarrow> bool" where
  "is_strictly t want \<longleftrightarrow> strictIRType t = Inr want"

section \<open>Syntax\<close>

definition check_diagnostic :: "file_set option \<Rightarrow> node \<Rightarrow> string \<Rightarrow> Diagnostic" where
  "check_diagnostic fs n message =
     \<lparr>Phase = ''check'', Position = sourcePosition fs (node_Pos n), Message = message\<rparr>"

fun refused_expr_message :: "refused_expr \<Rightarrow> string" where
  "refused_expr_message FuncLit = ''closures are not supported''"
| "refused_expr_message SelectorExpr = ''selectors, imported packages, and methods are not supported''"
| "refused_expr_message IndexListExpr = ''generic indexing and slices are not supported''"
| "refused_expr_message SliceExpr = ''generic indexing and slices are not supported''"
| "refused_expr_message TypeAssertExpr = ''interfaces and type assertions are not supported''"
| "refused_expr_message MapType = ''maps are not supported''"
| "refused_expr_message ChanType = ''channels are not supported''"
| "refused_expr_message InterfaceType = ''interfaces are not supported''"
| "refused_expr_message StructType = ''structs are not supported''"
| "refused_expr_message k = ''syntax node '' @ refused_expr_name k @ '' is not supported''"

fun refused_stmt_message :: "refused_stmt \<Rightarrow> string" where
  "refused_stmt_message (BranchStmt tok) = Token_String tok @ '' statements are not supported''"
| "refused_stmt_message GoStmt = ''goroutines are not supported''"
| "refused_stmt_message DeferStmt = ''defer is not supported''"
| "refused_stmt_message SendStmt = ''channel sends are not supported''"
| "refused_stmt_message RangeStmt = ''range loops are not supported; use a three-clause for loop''"
| "refused_stmt_message LabeledStmt = ''labels are not supported''"
| "refused_stmt_message BadStmt = ''syntax node *ast.BadStmt is not supported''"
| "refused_stmt_message k = refused_stmt_name k @ '' control flow is not supported''"

definition binary_operator :: "go_token \<Rightarrow> bool" where
  "binary_operator op \<longleftrightarrow> op = tokADD \<or> op = tokSUB \<or> op = tokMUL \<or> op = tokQUO \<or> op = tokREM \<or>
     op = tokEQL \<or> op = tokNEQ \<or> op = tokLSS \<or> op = tokLEQ \<or> op = tokGTR \<or> op = tokGEQ"

definition assignment_operator :: "go_token \<Rightarrow> bool" where
  "assignment_operator tok \<longleftrightarrow> tok = tokASSIGN \<or> tok = tokDEFINE \<or> tok = tokADD_ASSIGN \<or>
     tok = tokSUB_ASSIGN \<or> tok = tokMUL_ASSIGN \<or> tok = tokQUO_ASSIGN \<or> tok = tokREM_ASSIGN"

text \<open>
  The function \<open>validateSyntax\<close> passes to \<open>ast.Inspect\<close>, with the walk: the diagnostics for a node,
  then those of its children when the function returns true.  \<open>add\<close> makes a diagnostic.
\<close>

fun syntax_expr :: "(node \<Rightarrow> string \<Rightarrow> Diagnostic) \<Rightarrow> expr \<Rightarrow> Diagnostic list" where
  "syntax_expr add (Ident n name) = []"
| "syntax_expr add (BasicLit n kind) =
     (if kind \<noteq> tokINT then [add n (Token_String kind @ '' literals are not supported'')] else [])"
| "syntax_expr add (CompositeLit n t elts) =
     (case t of None \<Rightarrow> [] | Some t \<Rightarrow> syntax_expr add t) @ concat (map (syntax_expr add) elts)"
| "syntax_expr add (ParenExpr n x) = syntax_expr add x"
| "syntax_expr add (IndexExpr n x i) = syntax_expr add x @ syntax_expr add i"
| "syntax_expr add (StarExpr n x) = syntax_expr add x"
| "syntax_expr add (UnaryExpr n op x) =
     (if op \<noteq> tokADD \<and> op \<noteq> tokSUB \<and> op \<noteq> tokAND
      then [add n (''unary operator '' @ Token_String op @ '' is not supported'')] else []) @
     syntax_expr add x"
| "syntax_expr add (BinaryExpr n x op y) =
     (if binary_operator op then []
      else [add n (''binary operator '' @ Token_String op @ '' is not supported'')]) @
     syntax_expr add x @ syntax_expr add y"
| "syntax_expr add (CallExpr n f args ellipsis) =
     (if ellipsis \<noteq> NoPos then [add n ''variadic calls are not supported''] else []) @
     syntax_expr add f @ concat (map (syntax_expr add) args)"
| "syntax_expr add (KeyValueExpr n k v) = syntax_expr add k @ syntax_expr add v"
| "syntax_expr add (ArrayType n len elt) =
     (if len = None then [add n ''slices are not supported; use a fixed-length array''] else []) @
     (case len of None \<Rightarrow> [] | Some l \<Rightarrow> syntax_expr add l) @ syntax_expr add elt"
| "syntax_expr add (RefusedExpr n k) = [add n (refused_expr_message k)]"

definition syntax_all :: "(node \<Rightarrow> string \<Rightarrow> Diagnostic) \<Rightarrow> expr list \<Rightarrow> Diagnostic list" where
  "syntax_all add es = concat (map (syntax_expr add) es)"

definition syntax_maybe :: "(node \<Rightarrow> string \<Rightarrow> Diagnostic) \<Rightarrow> expr option \<Rightarrow> Diagnostic list" where
  "syntax_maybe add e = (case e of None \<Rightarrow> [] | Some e \<Rightarrow> syntax_expr add e)"

fun syntax_spec :: "(node \<Rightarrow> string \<Rightarrow> Diagnostic) \<Rightarrow> spec \<Rightarrow> Diagnostic list" where
  "syntax_spec add (ValueSpec n names t values) = syntax_maybe add t @ syntax_all add values"
| "syntax_spec add (OtherSpec n kind) = [add n (''syntax node '' @ kind @ '' is not supported'')]"

fun syntax_decl :: "(node \<Rightarrow> string \<Rightarrow> Diagnostic) \<Rightarrow> local_decl \<Rightarrow> Diagnostic list" where
  "syntax_decl add (GenDecl n tok specs) =
     (if tok \<noteq> tokVAR
      then [add n (Token_String tok @ '' declarations are not supported; use local var declarations'')]
      else concat (map (syntax_spec add) specs))"
| "syntax_decl add (BadDecl n) = [add n ''syntax node *ast.BadDecl is not supported'']"

definition syntax_target :: "(node \<Rightarrow> string \<Rightarrow> Diagnostic) \<Rightarrow> expr \<Rightarrow> Diagnostic list" where
  "syntax_target add left =
     (case left of
        Ident n name \<Rightarrow> if name = ''_'' then [add n ''blank assignment targets are not supported''] else []
      | IndexExpr n x i \<Rightarrow> []
      | StarExpr n x \<Rightarrow> []
      | _ \<Rightarrow> [add (expr_node left)
          ''assignment target must be a local variable, fixed-array element, or pointer dereference''])"

fun syntax_stmt :: "(node \<Rightarrow> string \<Rightarrow> Diagnostic) \<Rightarrow> stmt \<Rightarrow> Diagnostic list" where
  "syntax_stmt add (BlockStmt n ss) = concat (map (syntax_stmt add) ss)"
| "syntax_stmt add (EmptyStmt n) = []"
| "syntax_stmt add (ReturnStmt n results) = syntax_all add results"
| "syntax_stmt add (AssignStmt n lhs tok rhs) =
     (if assignment_operator tok then []
      else [add n (''assignment operator '' @ Token_String tok @ '' is not supported'')]) @
     concat (map (syntax_target add) lhs) @ syntax_all add lhs @ syntax_all add rhs"
| "syntax_stmt add (DeclStmt n d) = syntax_decl add d"
| "syntax_stmt add (IncDecStmt n x tok) =
     (case x of Ident _ _ \<Rightarrow> [] | IndexExpr _ _ _ \<Rightarrow> [] | StarExpr _ _ \<Rightarrow> []
      | _ \<Rightarrow> [add (expr_node x) ''increment and decrement require an assignable integer'']) @
     syntax_expr add x"
| "syntax_stmt add (ExprStmt n x) =
     (case x of CallExpr _ _ _ _ \<Rightarrow> []
      | _ \<Rightarrow> [add n ''only function calls may be used as expression statements'']) @ syntax_expr add x"
| "syntax_stmt add (IfStmt n init cond bn body els) =
     (case init of None \<Rightarrow> [] | Some s \<Rightarrow> syntax_stmt add s) @ syntax_expr add cond @
     concat (map (syntax_stmt add) body) @ (case els of None \<Rightarrow> [] | Some s \<Rightarrow> syntax_stmt add s)"
| "syntax_stmt add (ForStmt n init cond post bn body) =
     (case init of None \<Rightarrow> [] | Some s \<Rightarrow> syntax_stmt add s) @ syntax_maybe add cond @
     (case post of None \<Rightarrow> [] | Some s \<Rightarrow> syntax_stmt add s) @ concat (map (syntax_stmt add) body)"
| "syntax_stmt add (RefusedStmt n k) = [add n (refused_stmt_message k)]"

definition has_key :: "(string \<times> 'a) list \<Rightarrow> string \<Rightarrow> bool" where
  "has_key table name \<longleftrightarrow> map_of table name \<noteq> None"

definition result_count :: "ast_field list \<Rightarrow> nat" where
  "result_count flds =
     sum_list (map (\<lambda>f. if field_Names f = [] then 1 else length (field_Names f)) flds)"

definition syntax_results ::
  "(node \<Rightarrow> string \<Rightarrow> Diagnostic) \<Rightarrow> (node \<times> ast_field list) option \<Rightarrow> Diagnostic list" where
  "syntax_results add results =
     (case results of
        None \<Rightarrow> []
      | Some (n, flds) \<Rightarrow>
          concat (map (\<lambda>f. if field_Names f \<noteq> []
            then [add (field_Node f) ''named result parameters are not supported; return an explicit value'']
            else []) flds) @
          (if result_count flds > 1 then [add n ''multiple return values are not supported''] else []))"

definition syntax_function ::
  "(node \<Rightarrow> string \<Rightarrow> Diagnostic) \<Rightarrow> func_decl \<Rightarrow> Diagnostic list" where
  "syntax_function add d =
     (let name = snd (decl_Name d);
          reserved = (\<lambda>kind. [add (decl_Node d) (kind @ '' name '' @ name @
            '' is reserved and must be a bodyless declaration with its exact signature'')])
      in
      (case decl_Recv d of None \<Rightarrow> [] | Some n \<Rightarrow> [add n ''methods are not supported'']) @
      (case decl_TypeParams d of None \<Rightarrow> [] | Some n \<Rightarrow> [add n ''generic functions are not supported'']) @
      (case decl_Body d of
         None \<Rightarrow>
           (if \<not> has_key memoryIntrinsics name \<and> \<not> has_key syscallIntrinsics name \<and>
               \<not> has_key accountFieldIntrinsics name
            then [add (decl_Node d) (''functions without a body are not supported; only explicit '' @
              ''guest-memory, Solana syscall, and account-field intrinsics may omit a body'')]
            else [])
       | Some (n, body) \<Rightarrow>
           (if has_key syscallIntrinsics name then reserved ''Solana syscall intrinsic'' else []) @
           (case map_of memoryIntrinsics name of
              Some intrinsic \<Rightarrow> if mi_Address intrinsic then reserved ''guest-address intrinsic'' else []
            | None \<Rightarrow> []) @
           (if has_key accountFieldIntrinsics name then reserved ''account-field intrinsic'' else []) @
           syntax_results add (decl_Results d) @
           syntax_stmt add (BlockStmt n body)))"

definition syntax_file :: "(node \<Rightarrow> string \<Rightarrow> Diagnostic) \<Rightarrow> source_file \<Rightarrow> Diagnostic list" where
  "syntax_file add file =
     map (\<lambda>n. add n ''imports and the standard library are not supported'') (file_Imports file) @
     concat (map (\<lambda>d. case d of
         FuncDecl d \<Rightarrow> syntax_function add d
       | OtherDecl n \<Rightarrow>
           [add n ''package-level declarations are not supported; only functions are allowed''])
       (file_Decls file))"

definition validateSyntax :: "ParsedPackage \<Rightarrow> Diagnostic list" where
  "validateSyntax parsed =
     concat (map (syntax_file (check_diagnostic (FileSet parsed))) (Files parsed))"

section \<open>Signatures and calls\<close>

definition signature :: "syscall_intrinsic \<Rightarrow> string \<Rightarrow> string" where
  "signature intrinsic name =
     ''func '' @ name @ ''('' @ joined '', '' (map Type_String (parameterTypes intrinsic)) @ '')'' @
     (if sys_Result intrinsic \<noteq> TypeVoid then '' '' @ Type_String (sys_Result intrinsic) else [])"

definition validateSyscallIntrinsicSignature ::
  "(node \<Rightarrow> string \<Rightarrow> Diagnostic) \<Rightarrow> func_decl \<Rightarrow> (nat \<times> string \<times> go_type) list \<Rightarrow> go_type list \<Rightarrow>
     syscall_intrinsic \<Rightarrow> Diagnostic list" where
  "validateSyscallIntrinsicSignature add d ps rs intrinsic =
     (let params = (length ps = sys_ParamCount intrinsic \<and>
            list_all (\<lambda>(p, want). is_strictly (parameter_type p) want) (zip ps (parameterTypes intrinsic)));
          results = (if sys_Result intrinsic = TypeVoid then rs = []
            else length rs = 1 \<and> is_strictly (hd rs) (sys_Result intrinsic))
      in if params \<and> results then []
         else [add (decl_Node d) (snd (decl_Name d) @ '' intrinsic for '' @ sys_Symbol intrinsic @
           '' must have signature '' @ signature intrinsic (snd (decl_Name d)))])"

definition validateMemoryIntrinsicSignature ::
  "(node \<Rightarrow> string \<Rightarrow> Diagnostic) \<Rightarrow> func_decl \<Rightarrow> (nat \<times> string \<times> go_type) list \<Rightarrow> go_type list \<Rightarrow>
     memory_intrinsic \<Rightarrow> Diagnostic list" where
  "validateMemoryIntrinsicSignature add d ps rs intrinsic =
     (let wantValue = ValueType (mi_Memory intrinsic); name = snd (decl_Name d) in
      if mi_Address intrinsic then
        (if length ps = 1 \<and> length rs = 1 \<and> is_strictly (parameter_type (hd ps)) (PointerTo wantValue) \<and>
            is_strictly (hd rs) TypeUint64
         then []
         else [add (decl_Node d) (name @ '' intrinsic must have signature func(pointer *'' @
           Type_String wantValue @ '') uint64'')])
      else
        let params = (length ps = (if mi_Store intrinsic then 2 else 1) \<and>
              is_strictly (parameter_type (hd ps)) TypeUint64);
            valid = (params \<and>
              (if mi_Store intrinsic then is_strictly (parameter_type (ps ! 1)) wantValue \<and> rs = []
               else length rs = 1 \<and> is_strictly (hd rs) wantValue))
        in if valid then []
           else if mi_Store intrinsic
           then [add (decl_Node d) (name @ '' intrinsic must have signature func(address uint64, value '' @
             Type_String wantValue @ '')'')]
           else [add (decl_Node d) (name @ '' intrinsic must have signature func(address uint64) '' @
             Type_String wantValue)])"

definition validateAccountFieldIntrinsicSignature ::
  "(node \<Rightarrow> string \<Rightarrow> Diagnostic) \<Rightarrow> func_decl \<Rightarrow> (nat \<times> string \<times> go_type) list \<Rightarrow> go_type list \<Rightarrow>
     account_field_intrinsic \<Rightarrow> Diagnostic list" where
  "validateAccountFieldIntrinsicSignature add d ps rs intrinsic =
     (let wantResult = (if af_Address intrinsic then TypeUint64 else ValueType (af_Memory intrinsic)) in
      if length ps = 1 \<and> length rs = 1 \<and> is_strictly (parameter_type (hd ps)) TypeUint64 \<and>
         is_strictly (hd rs) wantResult
      then []
      else [add (decl_Node d) (snd (decl_Name d) @ '' intrinsic must have signature func(record uint64) '' @
        Type_String wantResult)])"

definition conversion_name :: "string \<Rightarrow> bool" where
  "conversion_name name \<longleftrightarrow> name = ''uint64'' \<or> name = ''int64'' \<or> name = ''uint32'' \<or>
     name = ''int32'' \<or> name = ''uint8''"

definition validateCall ::
  "CheckedPackage \<Rightarrow> (node \<Rightarrow> string \<Rightarrow> Diagnostic) \<Rightarrow> node \<Rightarrow> expr \<Rightarrow> expr list \<Rightarrow> Diagnostic list" where
  "validateCall checked add call f args =
     (case f of
        Ident n name \<Rightarrow>
          (case info_Uses (Info checked) (node_Key n) of
             Some (FuncObject key fname pkg t) \<Rightarrow>
               (if pkg \<noteq> Some (pkg_Key (Checked_Package checked))
                then [add n ''calls to external functions are not supported'']
                else if length args > 5
                then [add call (''call to '' @ name @ '' has '' @ decimal (length args) @
                  '' arguments; sBPF calls support at most 5'')]
                else [])
           | Some (TypeNameObject tname t) \<Rightarrow>
               (if \<not> conversion_name name
                then [add n ''only uint64, int64, uint32, int32, and uint8 scalar conversions are supported'']
                else []) @
               (if length args \<noteq> 1 then [add call ''scalar conversion requires exactly one argument''] else []) @
               (case strictIRType t of Inl e \<Rightarrow> [add n (''conversion target: '' @ e)] | Inr _ \<Rightarrow> [])
           | Some (BuiltinObject bname) \<Rightarrow>
               [add n (''builtin function '' @ bname @ '' is not supported'')]
           | _ \<Rightarrow> [add n (''call target '' @ name @ '' is not a supported internal function'')])
      | _ \<Rightarrow> [add (expr_node f) ''call target must be an internal function name or scalar type conversion''])"

section \<open>Types\<close>

definition check_parameter ::
  "(node \<Rightarrow> string \<Rightarrow> Diagnostic) \<Rightarrow> func_decl \<Rightarrow> nat \<times> string \<times> go_type \<Rightarrow> Diagnostic list" where
  "check_parameter add d p =
     (case p of (key, name, t) \<Rightarrow>
        (case strictIRType t of
           Inl e \<Rightarrow> [add (decl_Params d) (''parameter '' @ name @ '': '' @ e)]
         | Inr pt \<Rightarrow>
             if snd (snd (ArrayElement pt))
             then [add (decl_Params d) (''parameter '' @ name @
               '': fixed arrays cannot cross the sBPF register ABI; pass a pointer to an element'')]
             else []))"

text \<open>
  A signature with a result comes from a declaration with a result list; without one the position
  of a nil list is a nil dereference.
\<close>

definition check_result ::
  "(node \<Rightarrow> string \<Rightarrow> Diagnostic) \<Rightarrow> func_decl \<Rightarrow> go_type list \<Rightarrow> Diagnostic list option" where
  "check_result add d rs =
     (let at_results = (\<lambda>message. case decl_Results d of
            None \<Rightarrow> None | Some (n, _) \<Rightarrow> Some [add n message])
      in if length rs > 1 then at_results ''multiple return values are not supported''
         else if length rs = 1 then
           (case strictIRType (hd rs) of
              Inl e \<Rightarrow> at_results (''result: '' @ e)
            | Inr rt \<Rightarrow>
                if is_pointer rt
                then at_results ''pointer results are not supported; sBPF stack addresses must not escape a call frame''
                else if snd (snd (ArrayElement rt))
                then at_results ''fixed-array results cannot cross the sBPF register ABI''
                else Some [])
         else Some [])"

definition check_visited ::
  "CheckedPackage \<Rightarrow> (node \<Rightarrow> string \<Rightarrow> Diagnostic) \<Rightarrow> expr \<Rightarrow> Diagnostic list" where
  "check_visited checked add e =
     (case e of
        CallExpr n f args ellipsis \<Rightarrow> validateCall checked add n f args
      | Ident n name \<Rightarrow>
          (case info_Defs (Info checked) (node_Key n) of
             Some (VarObject key vname t) \<Rightarrow>
               (case strictIRType t of
                  Inl e \<Rightarrow> [add n (''variable '' @ name @ '': '' @ e)]
                | Inr _ \<Rightarrow> [])
           | _ \<Rightarrow> [])
      | _ \<Rightarrow> [])"

definition check_body ::
  "CheckedPackage \<Rightarrow> (node \<Rightarrow> string \<Rightarrow> Diagnostic) \<Rightarrow> func_decl \<Rightarrow>
     (nat \<times> string \<times> go_type) list \<Rightarrow> go_type list \<Rightarrow> stmt list \<Rightarrow> Diagnostic list option" where
  "check_body checked add d ps rs body =
     (case check_result add d rs of
        None \<Rightarrow> None
      | Some results \<Rightarrow> Some
          ((if length ps > 5
            then [add (decl_Params d) (''function '' @ snd (decl_Name d) @ '' has '' @ decimal (length ps) @
              '' parameters; sBPF calls support at most 5'')]
            else []) @
           concat (map (check_parameter add d) ps) @ results @
           concat (map (check_visited checked add) (concat (map inspect_stmt body)))))"

definition check_function ::
  "CheckedPackage \<Rightarrow> (node \<Rightarrow> string \<Rightarrow> Diagnostic) \<Rightarrow> func_decl \<Rightarrow> Diagnostic list option" where
  "check_function checked add d =
     (let name = fst (decl_Name d) in
      case info_Defs (Info checked) (node_Key name) of
        Some (FuncObject key fname pkg t) \<Rightarrow>
          (case signature_of t of
             None \<Rightarrow> Some [add name ''function has an invalid type'']
           | Some (ps, rs) \<Rightarrow>
               (case decl_Body d of
                  None \<Rightarrow>
                    (case Intrinsics checked key of
                       Some intrinsic \<Rightarrow> Some (validateMemoryIntrinsicSignature add d ps rs intrinsic)
                     | None \<Rightarrow>
                    (case Syscalls checked key of
                       Some intrinsic \<Rightarrow> Some (validateSyscallIntrinsicSignature add d ps rs intrinsic)
                     | None \<Rightarrow>
                    (case AccountField checked key of
                       Some intrinsic \<Rightarrow> Some (validateAccountFieldIntrinsicSignature add d ps rs intrinsic)
                     | None \<Rightarrow> Some [add (decl_Node d) ''invalid bodyless function declaration''])))
                | Some (n, body) \<Rightarrow> check_body checked add d ps rs body))
      | _ \<Rightarrow> Some [add name ''cannot resolve function declaration''])"

text \<open>\<open>None\<close> is the panic of the type assertion on a declaration that is not a function.\<close>

definition check_decl ::
  "CheckedPackage \<Rightarrow> (node \<Rightarrow> string \<Rightarrow> Diagnostic) \<Rightarrow> top_decl \<Rightarrow> Diagnostic list option" where
  "check_decl checked add d =
     (case d of FuncDecl d \<Rightarrow> check_function checked add d | OtherDecl n \<Rightarrow> None)"

fun concat_options :: "'a list option list \<Rightarrow> 'a list option" where
  "concat_options [] = Some []"
| "concat_options (None # xs) = None"
| "concat_options (Some x # xs) = map_option ((@) x) (concat_options xs)"

definition all_decls :: "ParsedPackage \<Rightarrow> top_decl list" where
  "all_decls parsed = concat (map file_Decls (Files parsed))"

definition validateTypes :: "CheckedPackage \<Rightarrow> Diagnostic list option" where
  "validateTypes checked =
     concat_options (map (check_decl checked (check_diagnostic (FileSet (Parsed checked))))
       (all_decls (Parsed checked)))"

section \<open>The check\<close>

text \<open>
  \<open>types.Config.Check\<close> is a parameter: given a path, a file set and the files, it reports errors to
  the callback, each with its position when it is a \<open>types.Error\<close>, fills the tables, and returns the
  package and an error.
\<close>

datatype type_error = TypesError token_pos string | OtherTypeError string

record typecheck_result =
  tc_Errors :: "type_error list"
  tc_Package :: go_package
  tc_Info :: go_info
  tc_Err :: "string option"

type_synonym type_checker = "string \<Rightarrow> file_set option \<Rightarrow> source_file list \<Rightarrow> typecheck_result"

definition typecheck_diagnostic :: "file_set option \<Rightarrow> type_error \<Rightarrow> Diagnostic" where
  "typecheck_diagnostic fs e =
     (case e of
        TypesError pos message \<Rightarrow>
          \<lparr>Phase = ''typecheck'', Position = sourcePosition fs pos, Message = message\<rparr>
      | OtherTypeError message \<Rightarrow>
          \<lparr>Phase = ''typecheck'', Position = zero_position, Message = message\<rparr>)"

text \<open>The tables of intrinsics: bodyless declarations with a known name, by their function.\<close>

definition register_intrinsic ::
  "go_info \<Rightarrow> (string \<times> 'a) list \<Rightarrow> (nat \<Rightarrow> 'a option) \<Rightarrow> top_decl \<Rightarrow> nat \<Rightarrow> 'a option" where
  "register_intrinsic info table known d =
     (case d of
        OtherDecl n \<Rightarrow> known
      | FuncDecl d \<Rightarrow>
          if decl_Body d \<noteq> None then known
          else
            (case map_of table (snd (decl_Name d)) of
               None \<Rightarrow> known
             | Some intrinsic \<Rightarrow>
                 (case info_Defs info (node_Key (fst (decl_Name d))) of
                    Some (FuncObject key name pkg t) \<Rightarrow> known(key \<mapsto> intrinsic)
                  | _ \<Rightarrow> known)))"

definition checked_package :: "ParsedPackage \<Rightarrow> go_package \<Rightarrow> go_info \<Rightarrow> CheckedPackage" where
  "checked_package parsed package info =
     \<lparr>Parsed = parsed, Checked_Package = package, Info = info,
      Intrinsics = foldl (register_intrinsic info memoryIntrinsics) (\<lambda>_. None) (all_decls parsed),
      Syscalls = foldl (register_intrinsic info syscallIntrinsics) (\<lambda>_. None) (all_decls parsed),
      AccountField = foldl (register_intrinsic info accountFieldIntrinsics) (\<lambda>_. None) (all_decls parsed)\<rparr>"

definition Check :: "type_checker \<Rightarrow> ParsedPackage option \<Rightarrow> frontend_error + CheckedPackage" where
  "Check typecheck parsed =
     (case parsed of
        None \<Rightarrow> Inl (FrontendError ''check: nil or incomplete parsed package'')
      | Some parsed \<Rightarrow>
          if Files parsed = [] \<or> FileSet parsed = None
          then Inl (FrontendError ''check: nil or incomplete parsed package'')
          else if validateSyntax parsed \<noteq> [] then Inl (DiagnosticError (validateSyntax parsed))
          else
            (let r = typecheck (file_Name (hd (Files parsed))) (FileSet parsed) (Files parsed);
                 diagnostics = map (typecheck_diagnostic (FileSet parsed)) (tc_Errors r)
             in if diagnostics \<noteq> [] then Inl (DiagnosticError diagnostics)
                else case tc_Err r of
                  Some e \<Rightarrow> Inl (FrontendError (''typecheck: '' @ e))
                | None \<Rightarrow>
                    (let result = checked_package parsed (tc_Package r) (tc_Info r) in
                     case validateTypes result of
                       None \<Rightarrow> Inl FrontendPanic
                     | Some ds \<Rightarrow> if ds \<noteq> [] then Inl (DiagnosticError ds) else Inr result)))"

end
