(* ===== verification/Lowering.thy ===== *)
theory Lowering
  imports Checker
begin

text \<open>
  The state of the lowering of \<open>src/compiler/lower.go\<close> and its expressions.

  The lowerer of a function is the state of a computation that may fail: \<open>bindl\<close> runs one
  computation after another, an error ends it.  A basic block the code holds by pointer is its index
  in the function.  A dereference of a nil current block and a failed type assertion are
  \<open>FrontendPanic\<close>.  A definition that lowers a subexpression takes the computation of the
  subexpression as an argument, a function of the expected type; \<open>lowerExpression\<close> supplies it.
\<close>

section \<open>The lowerer\<close>

record lower_context =
  lc_Checked :: CheckedPackage
  lc_AddressTaken :: "nat \<Rightarrow> bool"

record lower_state =
  low_Function :: ir_function
  low_Current :: "nat option"
  low_Variables :: "nat \<Rightarrow> value_id option"
  low_MemoryVariables :: "nat \<Rightarrow> object_id option"
  low_Temporary :: u32

type_synonym 'a lowering = "lower_state \<Rightarrow> frontend_error + 'a \<times> lower_state"

definition returnl :: "'a \<Rightarrow> 'a lowering" where
  "returnl x = (\<lambda>s. Inr (x, s))"

definition faill :: "frontend_error \<Rightarrow> 'a lowering" where
  "faill e = (\<lambda>s. Inl e)"

definition bindl :: "'a lowering \<Rightarrow> ('a \<Rightarrow> 'b lowering) \<Rightarrow> 'b lowering" where
  "bindl m f = (\<lambda>s. case m s of Inl e \<Rightarrow> Inl e | Inr (x, t) \<Rightarrow> f x t)"

definition thenl :: "'a lowering \<Rightarrow> 'b lowering \<Rightarrow> 'b lowering" where
  "thenl m k = bindl m (\<lambda>_. k)"

definition liftl :: "frontend_error + 'a \<Rightarrow> 'a lowering" where
  "liftl r = (case r of Inl e \<Rightarrow> faill e | Inr x \<Rightarrow> returnl x)"

definition readl :: "(lower_state \<Rightarrow> 'a) \<Rightarrow> 'a lowering" where
  "readl f = (\<lambda>s. Inr (f s, s))"

definition updatel :: "(lower_state \<Rightarrow> lower_state) \<Rightarrow> unit lowering" where
  "updatel f = (\<lambda>s. Inr ((), f s))"

abbreviation info_of :: "lower_context \<Rightarrow> go_info" where
  "info_of C \<equiv> Info (lc_Checked C)"

definition position :: "lower_context \<Rightarrow> token_pos \<Rightarrow> SourcePosition" where
  "position C pos = sourcePosition (FileSet (Parsed (lc_Checked C))) pos"

definition lowerDiagnostic :: "CheckedPackage \<Rightarrow> node option \<Rightarrow> string \<Rightarrow> frontend_error" where
  "lowerDiagnostic checked n message =
     DiagnosticError [\<lparr>Phase = ''lower'',
       Position = (case n of None \<Rightarrow> zero_position
         | Some n \<Rightarrow> sourcePosition (FileSet (Parsed checked)) (node_Pos n)),
       Message = message\<rparr>]"

definition errorAt :: "lower_context \<Rightarrow> node \<Rightarrow> string \<Rightarrow> frontend_error" where
  "errorAt C n message = lowerDiagnostic (lc_Checked C) (Some n) message"

section \<open>Values, blocks and instructions\<close>

definition zero_instruction :: ir_instruction where
  "zero_instruction =
     \<lparr>ins_Op = OpInvalid, ins_Dest = 0, ins_X = 0, ins_Y = 0, ins_Imm = 0, ins_Callee = '''', ins_Args = [],
      ins_SyscallID = 0, ins_Object = 0, ins_SourceObject = 0, ins_Memory = IrMemInvalid, ins_Scale = 0,
      ins_Pos = zero_position\<rparr>"

definition zero_terminator :: terminator where
  "zero_terminator =
     \<lparr>term_Kind = TermInvalid, term_Target = 0, term_True = 0, term_False = 0, term_Cond = 0,
      term_Result = 0, term_Pos = zero_position\<rparr>"

definition newValue :: "string \<Rightarrow> ir_type \<Rightarrow> value_kind \<Rightarrow> value_id lowering" where
  "newValue name t kind = (\<lambda>s.
     let f = low_Function s; i = of_nat (length (fn_Values f)) in
     Inr (i, s\<lparr>low_Function := f\<lparr>fn_Values := fn_Values f @
       [\<lparr>value_ID = i, value_Name = name, value_Type = t, value_Kind = kind\<rparr>]\<rparr>\<rparr>))"

definition newTemporary :: "ir_type \<Rightarrow> value_id lowering" where
  "newTemporary t =
     thenl (updatel (\<lambda>s. s\<lparr>low_Temporary := low_Temporary s + 1\<rparr>))
       (bindl (readl low_Temporary) (\<lambda>k. newValue (CHR ''t'' # decimal (unat k)) t ValueTemporary))"

definition newBlock :: "string \<Rightarrow> nat lowering" where
  "newBlock name = (\<lambda>s.
     let f = low_Function s; i = of_nat (length (fn_Blocks f)) :: block_id in
     Inr (length (fn_Blocks f), s\<lparr>low_Function := f\<lparr>fn_Blocks := fn_Blocks f @
       [\<lparr>block_ID = i, block_Name = name @ ''.'' @ decimal (unat i), block_Instructions = [],
         block_Terminator = zero_terminator\<rparr>]\<rparr>\<rparr>))"

text \<open>The identifier of the block at an index, as \<open>newBlock\<close> gave it.\<close>

definition blockID :: "nat \<Rightarrow> block_id" where
  "blockID i = of_nat i"

definition lower_emit :: "ir_instruction \<Rightarrow> unit lowering" where
  "lower_emit ins = (\<lambda>s.
     case low_Current s of
       None \<Rightarrow> Inl FrontendPanic
     | Some i \<Rightarrow>
         (let f = low_Function s; b = fn_Blocks f ! i in
          Inr ((), s\<lparr>low_Function := f\<lparr>fn_Blocks := (fn_Blocks f)[i :=
            b\<lparr>block_Instructions := block_Instructions b @ [ins]\<rparr>]\<rparr>\<rparr>)))"

definition terminate_block :: "nat option \<Rightarrow> terminator \<Rightarrow> unit lowering" where
  "terminate_block block t = (\<lambda>s.
     case block of
       None \<Rightarrow> Inl FrontendPanic
     | Some i \<Rightarrow>
         (let f = low_Function s; b = fn_Blocks f ! i in
          Inr ((), s\<lparr>low_Function := f\<lparr>fn_Blocks := (fn_Blocks f)[i := b\<lparr>block_Terminator := t\<rparr>]\<rparr>\<rparr>)))"

definition set_current :: "nat option \<Rightarrow> unit lowering" where
  "set_current block = updatel (\<lambda>s. s\<lparr>low_Current := block\<rparr>)"

definition jump_to :: "lower_context \<Rightarrow> nat \<Rightarrow> token_pos \<Rightarrow> terminator" where
  "jump_to C target pos = zero_terminator\<lparr>term_Kind := TermJump, term_Target := blockID target,
     term_Result := NoValue, term_Pos := position C pos\<rparr>"

definition branch_to :: "lower_context \<Rightarrow> value_id \<Rightarrow> nat \<Rightarrow> nat \<Rightarrow> token_pos \<Rightarrow> terminator" where
  "branch_to C cond yes no pos = zero_terminator\<lparr>term_Kind := TermBranch, term_Cond := cond,
     term_True := blockID yes, term_False := blockID no, term_Pos := position C pos\<rparr>"

definition return_with :: "lower_context \<Rightarrow> value_id \<Rightarrow> token_pos \<Rightarrow> terminator" where
  "return_with C result pos = zero_terminator\<lparr>term_Kind := TermReturn, term_Result := result,
     term_Pos := position C pos\<rparr>"

text \<open>An object table entry; the callers that ignore a failed lookup see the zero object.\<close>

definition zero_object :: memory_object where
  "zero_object = \<lparr>object_ID = 0, object_Name = '''', object_Element = TypeInvalid, object_Length = 0\<rparr>"

definition object_at :: "lower_state \<Rightarrow> object_id \<Rightarrow> memory_object" where
  "object_at s i = (case Function_MemoryObject (low_Function s) i of Some m \<Rightarrow> m | None \<Rightarrow> zero_object)"

definition emitObjectAddress :: "object_id \<Rightarrow> value_id lowering" where
  "emitObjectAddress i =
     bindl (readl (\<lambda>s. object_at s i)) (\<lambda>object.
     bindl (newTemporary (PointerTo (object_Element object))) (\<lambda>destination.
     thenl (lower_emit (zero_instruction\<lparr>ins_Op := OpAddress, ins_Dest := destination, ins_Object := i\<rparr>))
       (returnl destination)))"

definition lower_load :: "lower_context \<Rightarrow> value_id \<Rightarrow> ir_type \<Rightarrow> token_pos \<Rightarrow> value_id lowering" where
  "lower_load C address t pos =
     bindl (newTemporary t) (\<lambda>destination.
     thenl (lower_emit (zero_instruction\<lparr>ins_Op := OpLoad, ins_Dest := destination, ins_X := address,
         ins_Memory := memoryTypeFor t, ins_Pos := position C pos\<rparr>))
       (returnl destination))"

definition emit_constant :: "lower_context \<Rightarrow> ir_type \<Rightarrow> u64 \<Rightarrow> token_pos \<Rightarrow> value_id lowering" where
  "emit_constant C t bits pos =
     bindl (newTemporary t) (\<lambda>destination.
     thenl (lower_emit (zero_instruction\<lparr>ins_Op := OpConst, ins_Dest := destination, ins_Imm := bits,
         ins_Pos := position C pos\<rparr>))
       (returnl destination))"

definition emit_binary :: "lower_context \<Rightarrow> ir_op \<Rightarrow> ir_type \<Rightarrow> value_id \<Rightarrow> value_id \<Rightarrow> token_pos \<Rightarrow>
    value_id lowering" where
  "emit_binary C op t x y pos =
     bindl (newTemporary t) (\<lambda>destination.
     thenl (lower_emit (zero_instruction\<lparr>ins_Op := op, ins_Dest := destination, ins_X := x, ins_Y := y,
         ins_Pos := position C pos\<rparr>))
       (returnl destination))"

definition emit_move :: "lower_context \<Rightarrow> value_id \<Rightarrow> value_id \<Rightarrow> token_pos \<Rightarrow> unit lowering" where
  "emit_move C destination x pos =
     lower_emit (zero_instruction\<lparr>ins_Op := OpMove, ins_Dest := destination, ins_X := x, ins_Pos := position C pos\<rparr>)"

definition emit_store :: "lower_context \<Rightarrow> value_id \<Rightarrow> value_id \<Rightarrow> ir_memory \<Rightarrow> token_pos \<Rightarrow> unit lowering" where
  "emit_store C address v memory pos =
     lower_emit (zero_instruction\<lparr>ins_Op := OpStore, ins_Dest := NoValue, ins_X := address, ins_Y := v,
       ins_Memory := memory, ins_Pos := position C pos\<rparr>)"

definition newMemoryVariable :: "string \<Rightarrow> ir_type \<Rightarrow> (string + object_id) lowering" where
  "newMemoryVariable name t = (\<lambda>s.
     let (element, len, array) = ArrayElement t;
         element = (if array then element else t); len = (if array then len else 1);
         f = low_Function s; i = of_nat (length (fn_Memory f))
     in if \<not> memoryScalar element \<or> len = 0
        then Inr (Inl (''type '' @ Type_String t @ '' is not addressable in explicit sBPF memory''), s)
        else Inr (Inr i, s\<lparr>low_Function := f\<lparr>fn_Memory := fn_Memory f @
          [\<lparr>object_ID = i, object_Name = name, object_Element = element, object_Length = len\<rparr>]\<rparr>\<rparr>))"

section \<open>Operators, types and constants\<close>

definition mapBinaryOp :: "go_token \<Rightarrow> ir_op" where
  "mapBinaryOp operator =
     (case operator of
        tokADD \<Rightarrow> OpAdd | tokSUB \<Rightarrow> OpSub | tokMUL \<Rightarrow> OpMul | tokQUO \<Rightarrow> OpDiv | tokREM \<Rightarrow> OpMod
      | tokEQL \<Rightarrow> OpEqual | tokNEQ \<Rightarrow> OpNotEqual | tokLSS \<Rightarrow> OpLess | tokLEQ \<Rightarrow> OpLessEqual
      | tokGTR \<Rightarrow> OpGreater | tokGEQ \<Rightarrow> OpGreaterEqual | _ \<Rightarrow> OpInvalid)"

definition mapAssignmentOp :: "go_token \<Rightarrow> ir_op" where
  "mapAssignmentOp operator =
     (case operator of
        tokADD_ASSIGN \<Rightarrow> OpAdd | tokSUB_ASSIGN \<Rightarrow> OpSub | tokMUL_ASSIGN \<Rightarrow> OpMul
      | tokQUO_ASSIGN \<Rightarrow> OpDiv | tokREM_ASSIGN \<Rightarrow> OpMod | _ \<Rightarrow> OpInvalid)"

definition comparison_op :: "ir_op \<Rightarrow> bool" where
  "comparison_op op \<longleftrightarrow> op = OpEqual \<or> op = OpNotEqual \<or> op = OpLess \<or> op = OpLessEqual \<or>
     op = OpGreater \<or> op = OpGreaterEqual"

text \<open>An error of \<open>strictIRType\<close> reported at a node; asking for the type of a nil type panics.\<close>

definition strict_at :: "lower_context \<Rightarrow> node \<Rightarrow> string \<Rightarrow> go_type \<Rightarrow> frontend_error + ir_type" where
  "strict_at C n prefix t =
     (case strictIRType t of Inl e \<Rightarrow> Inl (errorAt C n (prefix @ e)) | Inr r \<Rightarrow> Inr r)"

definition strict_type_of :: "lower_context \<Rightarrow> expr \<Rightarrow> frontend_error + (string + ir_type)" where
  "strict_type_of C e =
     (case TypeOf (info_of C) e of None \<Rightarrow> Inl FrontendPanic | Some t \<Rightarrow> Inr (strictIRType t))"

definition expression_fallback :: "lower_context \<Rightarrow> expr \<Rightarrow> ir_type \<Rightarrow> frontend_error + ir_type" where
  "expression_fallback C e expected =
     (if scalar expected then Inr expected
      else Inl (errorAt C (expr_node e) (''expression has unsupported type '' @
        (case TypeOf (info_of C) e of None \<Rightarrow> ''<nil>'' | Some t \<Rightarrow> GoType_String t))))"

definition effectiveExpressionType :: "lower_context \<Rightarrow> expr \<Rightarrow> ir_type \<Rightarrow> frontend_error + ir_type" where
  "effectiveExpressionType C e expected =
     (case TypeOf (info_of C) e of
        None \<Rightarrow> expression_fallback C e expected
      | Some t \<Rightarrow>
          (case strictIRType t of
             Inr r \<Rightarrow> Inr r
           | Inl _ \<Rightarrow>
               (case Underlying t of
                  GoBasic kind name \<Rightarrow>
                    if kind = KindUntypedBool then Inr TypeBool
                    else if (kind = KindUntypedInt \<or> kind = KindUntypedRune) \<and> integer expected
                    then Inr expected
                    else expression_fallback C e expected
                | _ \<Rightarrow> expression_fallback C e expected)))"

definition binaryOperandType :: "lower_context \<Rightarrow> node \<Rightarrow> expr \<Rightarrow> go_token \<Rightarrow> expr \<Rightarrow> frontend_error + ir_type" where
  "binaryOperandType C n x op y =
     (if op \<noteq> tokEQL \<and> op \<noteq> tokNEQ \<and> op \<noteq> tokLSS \<and> op \<noteq> tokLEQ \<and> op \<noteq> tokGTR \<and> op \<noteq> tokGEQ
      then effectiveExpressionType C (BinaryExpr n x op y) TypeInvalid
      else and_then (strict_type_of C x) (\<lambda>tx. case tx of
        Inr t \<Rightarrow> Inr t
      | Inl _ \<Rightarrow> and_then (strict_type_of C y) (\<lambda>ty. case ty of
          Inr t \<Rightarrow> Inr t
        | Inl _ \<Rightarrow> Inl (errorAt C n ''comparison operands do not have a supported scalar type''))))"

definition constant_unsigned :: "const_value \<Rightarrow> string \<Rightarrow> u64 \<Rightarrow> string + u64" where
  "constant_unsigned v name maximum =
     (case ToInt v of
        None \<Rightarrow> Inl (''constant '' @ ExactString v @ '' is not an integer'')
      | Some k \<Rightarrow>
          (case Uint64Val k of (result, exact) \<Rightarrow>
             if \<not> exact \<or> result > maximum
             then Inl (''constant '' @ ExactString v @ '' does not fit '' @ name)
             else Inr result))"

definition constantBits :: "const_value \<Rightarrow> ir_type \<Rightarrow> string + u64" where
  "constantBits v t =
     (if t = TypeBool then
        (case v of
           ConstBool b \<Rightarrow> Inr (if b then 1 else 0)
         | _ \<Rightarrow> Inl (''constant '' @ ExactString v @ '' is not bool''))
      else if t = TypeUint64 then constant_unsigned v ''uint64'' (-1)
      else if t = TypeUint32 then constant_unsigned v ''uint32'' 0xffffffff
      else if t = TypeUint8 then constant_unsigned v ''uint8'' 0xff
      else if t = TypeInt64 then
        (case ToInt v of
           None \<Rightarrow> Inl (''constant '' @ ExactString v @ '' is not an integer'')
         | Some k \<Rightarrow>
             (case Int64Val k of (result, exact) \<Rightarrow>
                if \<not> exact then Inl (''constant '' @ ExactString v @ '' does not fit int64'')
                else Inr (word_of_int result)))
      else if t = TypeInt32 then
        (case ToInt v of
           None \<Rightarrow> Inl (''constant '' @ ExactString v @ '' is not an integer'')
         | Some k \<Rightarrow>
             (case Int64Val k of (result, exact) \<Rightarrow>
                if \<not> exact \<or> result < - (2 ^ 31) \<or> result > 2 ^ 31 - 1
                then Inl (''constant '' @ ExactString v @ '' does not fit int32'')
                else Inr (scast (word_of_int result :: 32 word))))
      else if is_pointer t then Inl ''pointer constants are not supported''
      else Inl (''constant has unsupported type '' @ Type_String t))"

section \<open>Expressions\<close>

text \<open>A lowered argument: the expression and the computation that lowers it at a type.\<close>

type_synonym lowered = "expr \<times> (ir_type \<Rightarrow> value_id lowering)"

text \<open>The first part of \<open>lowerExpression\<close>: an expression with a constant value needs no code but the constant.\<close>

definition lower_constant ::
  "lower_context \<Rightarrow> expr \<Rightarrow> ir_type \<Rightarrow> value_id lowering \<Rightarrow> value_id lowering" where
  "lower_constant C e expected rest =
     (case Option.bind (Types_at (info_of C) e) tv_Value of
        None \<Rightarrow> rest
      | Some v \<Rightarrow>
          bindl (liftl (effectiveExpressionType C e expected)) (\<lambda>effective.
            case constantBits v effective of
              Inl err \<Rightarrow> faill (errorAt C (expr_node e) err)
            | Inr bits \<Rightarrow> emit_constant C effective bits (node_Pos (expr_node e))))"

definition lower_variable ::
  "lower_context \<Rightarrow> node \<Rightarrow> string \<Rightarrow> nat \<Rightarrow> ir_type \<Rightarrow> value_id lowering" where
  "lower_variable C n name key expected =
     bindl (readl (\<lambda>s. low_Variables s key)) (\<lambda>entry. case entry of
       None \<Rightarrow> faill (errorAt C n (''variable '' @ name @ '' is not available in this function''))
     | Some i \<Rightarrow>
         bindl (readl (\<lambda>s. value_Type (fst (Function_Value (low_Function s) i)))) (\<lambda>t.
           if scalar expected \<and> t \<noteq> expected
           then faill (errorAt C n (''variable '' @ name @ '' has type '' @ Type_String t @ '', want '' @
             Type_String expected))
           else returnl i))"

definition lower_memory_variable ::
  "lower_context \<Rightarrow> node \<Rightarrow> string \<Rightarrow> go_type \<Rightarrow> object_id \<Rightarrow> value_id lowering" where
  "lower_memory_variable C n name goType i =
     bindl (liftl (strict_at C n [] goType)) (\<lambda>t.
       if snd (snd (ArrayElement t))
       then faill (errorAt C n (''fixed array '' @ name @ '' must be indexed; arrays are not register values''))
       else bindl (emitObjectAddress i) (\<lambda>address. lower_load C address t (node_Pos n)))"

definition lower_identifier :: "lower_context \<Rightarrow> node \<Rightarrow> string \<Rightarrow> ir_type \<Rightarrow> value_id lowering" where
  "lower_identifier C n name expected =
     (if name = ''nil'' then
        (if \<not> is_pointer expected then faill (errorAt C n ''nil requires an explicit pointer context'')
         else emit_constant C expected 0 (node_Pos n))
      else
        (case info_Uses (info_of C) (node_Key n) of
           Some (VarObject key vname t) \<Rightarrow>
             bindl (readl (\<lambda>s. low_MemoryVariables s key)) (\<lambda>entry. case entry of
               Some i \<Rightarrow> lower_memory_variable C n name t i
             | None \<Rightarrow> lower_variable C n name key expected)
         | _ \<Rightarrow> faill (errorAt C n (''identifier '' @ name @ '' is not a local variable''))))"

definition lowerUnary ::
  "lower_context \<Rightarrow> node \<Rightarrow> go_token \<Rightarrow> expr \<Rightarrow> ir_type \<Rightarrow> (ir_type \<Rightarrow> value_id lowering) \<Rightarrow>
     (value_id \<times> ir_type) lowering \<Rightarrow> value_id lowering" where
  "lowerUnary C n op x expected lower_x address_x =
     (if op = tokAND then
        bindl address_x (\<lambda>(address, element).
          if scalar expected \<and> expected \<noteq> PointerTo element
          then faill (errorAt C n (''address has type '' @ Type_String (PointerTo element) @ '', want '' @
            Type_String expected))
          else returnl address)
      else
        bindl (liftl (effectiveExpressionType C (UnaryExpr n op x) expected)) (\<lambda>effective.
        bindl (lower_x effective) (\<lambda>v.
          if op = tokADD then returnl v
          else if op \<noteq> tokSUB \<or> \<not> integer effective
          then faill (errorAt C n (''unary operator '' @ Token_String op @ '' is not supported for '' @
            Type_String effective))
          else bindl (emit_constant C effective 0 (node_Pos n)) (\<lambda>zero.
            emit_binary C OpSub effective zero v (node_Pos n)))))"

definition lowerBinary ::
  "lower_context \<Rightarrow> node \<Rightarrow> expr \<Rightarrow> go_token \<Rightarrow> expr \<Rightarrow> (ir_type \<Rightarrow> value_id lowering) \<Rightarrow>
     (ir_type \<Rightarrow> value_id lowering) \<Rightarrow> value_id lowering" where
  "lowerBinary C n x op y lower_x lower_y =
     (if mapBinaryOp op = OpInvalid
      then faill (errorAt C n (''binary operator '' @ Token_String op @ '' is not supported''))
      else
        bindl (liftl (binaryOperandType C n x op y)) (\<lambda>operandType.
        bindl (lower_x operandType) (\<lambda>left.
        bindl (lower_y operandType) (\<lambda>right.
          emit_binary C (mapBinaryOp op) (if comparison_op (mapBinaryOp op) then TypeBool else operandType)
            left right (node_Pos n)))))"

definition lowerPointerDereference ::
  "lower_context \<Rightarrow> node \<Rightarrow> expr \<Rightarrow> (ir_type \<Rightarrow> value_id lowering) \<Rightarrow> (value_id \<times> ir_type) lowering" where
  "lowerPointerDereference C n x lower_x =
     bindl (liftl (strict_type_of C x)) (\<lambda>t. case t of
       Inl err \<Rightarrow> faill (errorAt C n (''pointer expression: '' @ err))
     | Inr pointerType \<Rightarrow>
         (case PointerElement pointerType of (element, ok) \<Rightarrow>
            if \<not> ok
            then faill (errorAt C n (''cannot dereference non-pointer type '' @ Type_String pointerType))
            else bindl (lower_x pointerType) (\<lambda>address. returnl (address, element))))"

fun unparenthesized :: "expr \<Rightarrow> expr" where
  "unparenthesized (ParenExpr n x) = unparenthesized x"
| "unparenthesized x = x"

text \<open>The index of an array element, checked and added to the address of the object.\<close>

definition lower_element ::
  "lower_context \<Rightarrow> node \<Rightarrow> expr \<Rightarrow> (ir_type \<Rightarrow> value_id lowering) \<Rightarrow> ir_type \<Rightarrow> u32 \<Rightarrow> object_id \<Rightarrow>
     (value_id \<times> ir_type) lowering" where
  "lower_element C n i lower_i element len object =
     (let bad = errorAt C (expr_node i) ''array index must use uint64, int64, uint32, int32, or uint8'' in
      case effectiveExpressionType C i TypeUint64 of
        Inl _ \<Rightarrow> faill bad
      | Inr indexType \<Rightarrow>
          if \<not> integer indexType then faill bad
          else
            bindl (lower_i indexType) (\<lambda>index.
            thenl (lower_emit (zero_instruction\<lparr>ins_Op := OpBoundsCheck, ins_Dest := NoValue, ins_X := index,
                ins_Imm := ucast len, ins_Pos := position C (node_Pos (expr_node i))\<rparr>))
              (bindl (emitObjectAddress object) (\<lambda>base.
               bindl (newTemporary (PointerTo element)) (\<lambda>address.
               thenl (lower_emit (zero_instruction\<lparr>ins_Op := OpPointerAdd, ins_Dest := address, ins_X := base,
                   ins_Y := index, ins_Scale := memoryBytes element, ins_Pos := position C (node_Pos n)\<rparr>))
                 (returnl (address, element)))))))"

definition lowerArrayElementAddress ::
  "lower_context \<Rightarrow> node \<Rightarrow> expr \<Rightarrow> expr \<Rightarrow> (ir_type \<Rightarrow> value_id lowering) \<Rightarrow>
     (value_id \<times> ir_type) lowering" where
  "lowerArrayElementAddress C n x i lower_i =
     (case unparenthesized x of
        Ident m name \<Rightarrow>
          (case info_Uses (info_of C) (node_Key m) of
             Some (VarObject key vname t) \<Rightarrow>
               bindl (liftl (strict_at C m [] t)) (\<lambda>arrayType.
                 case ArrayElement arrayType of (element, len, array) \<Rightarrow>
                   if \<not> array
                   then faill (errorAt C m (name @ '' has type '' @ Type_String arrayType @ '', not a fixed array''))
                   else
                     bindl (readl (\<lambda>s. low_MemoryVariables s key)) (\<lambda>entry. case entry of
                       None \<Rightarrow> faill (errorAt C m (''fixed array '' @ name @
                         '' is not available in this function''))
                     | Some object \<Rightarrow> lower_element C n i lower_i element len object))
           | _ \<Rightarrow> faill (errorAt C m (name @ '' is not a fixed array'')))
      | _ \<Rightarrow> faill (errorAt C (expr_node x) ''only named fixed arrays may be indexed''))"

definition address_of_identifier ::
  "lower_context \<Rightarrow> node \<Rightarrow> string \<Rightarrow> (value_id \<times> ir_type) lowering" where
  "address_of_identifier C n name =
     (case info_Uses (info_of C) (node_Key n) of
        Some (VarObject key vname goType) \<Rightarrow>
          bindl (readl (\<lambda>s. low_MemoryVariables s key)) (\<lambda>entry. case entry of
            None \<Rightarrow> faill (errorAt C n (''variable '' @ name @ '' was not allocated in sBPF memory''))
          | Some object \<Rightarrow>
              (case strictIRType goType of
                 Inl err \<Rightarrow> faill (FrontendError err)
               | Inr t \<Rightarrow>
                   if snd (snd (ArrayElement t))
                   then faill (errorAt C n ''take the address of an array element, not the whole fixed array'')
                   else bindl (emitObjectAddress object) (\<lambda>address. returnl (address, t))))
      | _ \<Rightarrow> faill (errorAt C n ''address operand must be a local variable''))"

section \<open>Calls\<close>

fun lower_at_types :: "lowered list \<Rightarrow> ir_type list \<Rightarrow> value_id list lowering" where
  "lower_at_types ((e, lower_e) # es) (t # ts) =
     bindl (lower_e t) (\<lambda>v. bindl (lower_at_types es ts) (\<lambda>vs. returnl (v # vs)))"
| "lower_at_types es ts = returnl []"

definition lowerSyscallIntrinsic ::
  "lower_context \<Rightarrow> node \<Rightarrow> lowered list \<Rightarrow> syscall_intrinsic \<Rightarrow> value_id lowering" where
  "lowerSyscallIntrinsic C n args intrinsic =
     (if length args \<noteq> sys_ParamCount intrinsic
      then faill (errorAt C n (''Solana syscall intrinsic '' @ sys_Symbol intrinsic @ '' requires '' @
        decimal (sys_ParamCount intrinsic) @ '' arguments''))
      else
        bindl (lower_at_types args (sys_Parameters intrinsic)) (\<lambda>arguments.
        bindl (if sys_Result intrinsic \<noteq> TypeVoid then newTemporary (sys_Result intrinsic) else returnl NoValue)
          (\<lambda>destination.
        thenl (lower_emit (zero_instruction\<lparr>ins_Op := OpSyscall, ins_Dest := destination, ins_X := NoValue,
            ins_Y := NoValue, ins_Callee := sys_Symbol intrinsic, ins_Args := arguments,
            ins_SyscallID := sys_ID intrinsic, ins_Object := NoMemoryObject,
            ins_SourceObject := NoMemoryObject, ins_Pos := position C (node_Pos n)\<rparr>))
          (returnl destination))))"

definition lowerMemoryIntrinsic ::
  "lower_context \<Rightarrow> node \<Rightarrow> lowered list \<Rightarrow> memory_intrinsic \<Rightarrow> value_id lowering" where
  "lowerMemoryIntrinsic C n args intrinsic =
     (let pos = position C (node_Pos n); t = ValueType (mi_Memory intrinsic);
          want = (if mi_Store intrinsic then 2 else 1)
      in
      if mi_Address intrinsic then
        (if length args \<noteq> 1 then faill (errorAt C n ''guest-address intrinsic requires 1 argument'')
         else
           bindl (snd (hd args) (PointerTo t)) (\<lambda>pointer.
           bindl (newTemporary TypeUint64) (\<lambda>destination.
           thenl (lower_emit (zero_instruction\<lparr>ins_Op := OpPointerAddress, ins_Dest := destination, ins_X := pointer,
               ins_Pos := pos\<rparr>))
             (returnl destination))))
      else if length args \<noteq> want
      then faill (errorAt C n (''guest-memory intrinsic requires '' @ decimal want @ '' arguments''))
      else
        bindl (snd (args ! 0) TypeUint64) (\<lambda>address.
          if mi_Store intrinsic then
            bindl (snd (args ! 1) t) (\<lambda>v.
            thenl (emit_store C address v (mi_Memory intrinsic) (node_Pos n)) (returnl NoValue))
          else
            bindl (newTemporary t) (\<lambda>destination.
            thenl (lower_emit (zero_instruction\<lparr>ins_Op := OpLoad, ins_Dest := destination, ins_X := address,
                ins_Memory := mi_Memory intrinsic, ins_Pos := pos\<rparr>))
              (returnl destination))))"

definition lowerAccountFieldIntrinsic ::
  "lower_context \<Rightarrow> node \<Rightarrow> lowered list \<Rightarrow> account_field_intrinsic \<Rightarrow> value_id lowering" where
  "lowerAccountFieldIntrinsic C n args intrinsic =
     (if length args \<noteq> 1 then faill (errorAt C n ''account-field intrinsic requires 1 argument'')
      else
        bindl (snd (hd args) TypeUint64) (\<lambda>rec.
        bindl (emit_constant C TypeUint64 (af_Offset intrinsic) (node_Pos n)) (\<lambda>offset.
        bindl (emit_binary C OpAdd TypeUint64 rec offset (node_Pos n)) (\<lambda>address.
          if af_Address intrinsic then returnl address
          else
            bindl (newTemporary (ValueType (af_Memory intrinsic))) (\<lambda>destination.
            thenl (lower_emit (zero_instruction\<lparr>ins_Op := OpLoad, ins_Dest := destination, ins_X := address,
                ins_Memory := af_Memory intrinsic, ins_Pos := position C (node_Pos n)\<rparr>))
              (returnl destination))))))"

definition lower_conversion ::
  "lower_context \<Rightarrow> node \<Rightarrow> node \<Rightarrow> go_type \<Rightarrow> lowered list \<Rightarrow> value_id lowering" where
  "lower_conversion C n fn t args =
     (if length args \<noteq> 1 then faill (errorAt C n ''scalar conversion requires exactly one argument'')
      else
        (let bad = errorAt C fn (''conversion target '' @ GoType_String t @ '' is not supported'') in
         case strictIRType t of
           Inl _ \<Rightarrow> faill bad
         | Inr targetType \<Rightarrow>
             if \<not> integer targetType then faill bad
             else
               bindl (liftl (effectiveExpressionType C (fst (hd args)) TypeInvalid)) (\<lambda>sourceType.
               bindl (snd (hd args) sourceType) (\<lambda>v.
               bindl (newTemporary targetType) (\<lambda>destination.
               thenl (emit_move C destination v (node_Pos n)) (returnl destination))))))"

fun lower_arguments ::
  "lower_context \<Rightarrow> nat \<Rightarrow> lowered list \<Rightarrow> (nat \<times> string \<times> go_type) list \<Rightarrow> value_id list lowering" where
  "lower_arguments C index ((e, lower_e) # es) (p # ps) =
     bindl (liftl (strict_at C (expr_node e) (''call argument '' @ decimal (index + 1) @ '': '') (parameter_type p)))
       (\<lambda>t. bindl (lower_e t) (\<lambda>v.
         bindl (lower_arguments C (index + 1) es ps) (\<lambda>vs. returnl (v # vs))))"
| "lower_arguments C index es ps = returnl []"

definition lower_internal_call ::
  "lower_context \<Rightarrow> node \<Rightarrow> string \<Rightarrow> string \<Rightarrow> (nat \<times> string \<times> go_type) list \<Rightarrow> go_type list \<Rightarrow>
     lowered list \<Rightarrow> value_id lowering" where
  "lower_internal_call C n name callee ps rs args =
     (if length args \<noteq> length ps
      then faill (errorAt C n (''call to '' @ name @ '' has '' @ decimal (length args) @
        '' arguments, want '' @ decimal (length ps)))
      else
        bindl (lower_arguments C 0 args ps) (\<lambda>arguments.
        bindl (if length rs = 1
            then bindl (liftl (strict_at C n ''call result: '' (hd rs))) newTemporary
            else returnl NoValue) (\<lambda>destination.
        thenl (lower_emit (zero_instruction\<lparr>ins_Op := OpCall, ins_Dest := destination, ins_Callee := callee,
            ins_Args := arguments, ins_Pos := position C (node_Pos n)\<rparr>))
          (returnl destination))))"

definition lowerCall :: "lower_context \<Rightarrow> node \<Rightarrow> expr \<Rightarrow> lowered list \<Rightarrow> value_id lowering" where
  "lowerCall C n f args =
     (let checked = lc_Checked C in
      case f of
        Ident fn name \<Rightarrow>
          (case info_Uses (info_of C) (node_Key fn) of
             Some (TypeNameObject tname t) \<Rightarrow> lower_conversion C n fn t args
           | Some (FuncObject key fname pkg t) \<Rightarrow>
               (case Intrinsics checked key of
                  Some intrinsic \<Rightarrow> lowerMemoryIntrinsic C n args intrinsic
                | None \<Rightarrow>
               (case Syscalls checked key of
                  Some intrinsic \<Rightarrow> lowerSyscallIntrinsic C n args intrinsic
                | None \<Rightarrow>
               (case AccountField checked key of
                  Some intrinsic \<Rightarrow> lowerAccountFieldIntrinsic C n args intrinsic
                | None \<Rightarrow>
                    if pkg \<noteq> Some (pkg_Key (Checked_Package checked))
                    then faill (errorAt C fn ''external function calls are not supported'')
                    else
                      (case signature_of t of
                         None \<Rightarrow> faill FrontendPanic
                       | Some (ps, rs) \<Rightarrow> lower_internal_call C n name fname ps rs args))))
           | _ \<Rightarrow> faill (errorAt C fn (''call target '' @ name @ '' is not supported'')))
      | _ \<Rightarrow> faill (errorAt C (expr_node f)
          ''call target must be an internal function name or scalar type conversion''))"

section \<open>The recursion over expressions\<close>

text \<open>The load of a dereferenced pointer or an array element, with its check of the type.\<close>

definition load_element ::
  "lower_context \<Rightarrow> node \<Rightarrow> string \<Rightarrow> ir_type \<Rightarrow> (value_id \<times> ir_type) lowering \<Rightarrow> value_id lowering" where
  "load_element C n what expected address_of =
     bindl address_of (\<lambda>(address, element).
       if scalar expected \<and> expected \<noteq> element
       then faill (errorAt C n (what @ '' has type '' @ Type_String element @ '', want '' @ Type_String expected))
       else lower_load C address element (node_Pos n))"

definition unsupported_expression :: "lower_context \<Rightarrow> expr \<Rightarrow> value_id lowering" where
  "unsupported_expression C e =
     faill (errorAt C (expr_node e) (''expression '' @ expr_name e @ '' is not supported''))"

fun lowerExpression :: "lower_context \<Rightarrow> expr \<Rightarrow> ir_type \<Rightarrow> value_id lowering"
and lowerAddressExpression :: "lower_context \<Rightarrow> expr \<Rightarrow> (value_id \<times> ir_type) lowering" where
  "lowerExpression C (ParenExpr n x) expected =
     lower_constant C (ParenExpr n x) expected (lowerExpression C x expected)"
| "lowerExpression C (Ident n name) expected =
     lower_constant C (Ident n name) expected (lower_identifier C n name expected)"
| "lowerExpression C (UnaryExpr n op x) expected =
     lower_constant C (UnaryExpr n op x) expected
       (lowerUnary C n op x expected (\<lambda>t. lowerExpression C x t) (lowerAddressExpression C x))"
| "lowerExpression C (StarExpr n x) expected =
     lower_constant C (StarExpr n x) expected
       (load_element C n ''pointer dereference'' expected
         (lowerPointerDereference C n x (\<lambda>t. lowerExpression C x t)))"
| "lowerExpression C (IndexExpr n x i) expected =
     lower_constant C (IndexExpr n x i) expected
       (load_element C n ''array element'' expected
         (lowerArrayElementAddress C n x i (\<lambda>t. lowerExpression C i t)))"
| "lowerExpression C (BinaryExpr n x op y) expected =
     lower_constant C (BinaryExpr n x op y) expected
       (lowerBinary C n x op y (\<lambda>t. lowerExpression C x t) (\<lambda>t. lowerExpression C y t))"
| "lowerExpression C (CallExpr n f args ellipsis) expected =
     lower_constant C (CallExpr n f args ellipsis) expected
       (lowerCall C n f (map (\<lambda>a. (a, \<lambda>t. lowerExpression C a t)) args))"
| "lowerExpression C (BasicLit n k) expected =
     lower_constant C (BasicLit n k) expected (unsupported_expression C (BasicLit n k))"
| "lowerExpression C (CompositeLit n t elts) expected =
     lower_constant C (CompositeLit n t elts) expected (unsupported_expression C (CompositeLit n t elts))"
| "lowerExpression C (KeyValueExpr n k v) expected =
     lower_constant C (KeyValueExpr n k v) expected (unsupported_expression C (KeyValueExpr n k v))"
| "lowerExpression C (ArrayType n len elt) expected =
     lower_constant C (ArrayType n len elt) expected (unsupported_expression C (ArrayType n len elt))"
| "lowerExpression C (RefusedExpr n k) expected =
     lower_constant C (RefusedExpr n k) expected (unsupported_expression C (RefusedExpr n k))"
| "lowerAddressExpression C (Ident n name) = address_of_identifier C n name"
| "lowerAddressExpression C (IndexExpr n x i) =
     lowerArrayElementAddress C n x i (\<lambda>t. lowerExpression C i t)"
| "lowerAddressExpression C (StarExpr n x) = lowerPointerDereference C n x (\<lambda>t. lowerExpression C x t)"
| "lowerAddressExpression C e =
     faill (errorAt C (expr_node e)
       ''address operand must be a local variable, array element, or pointer dereference'')"

end
