(* ===== verification/LowerStatements.thy ===== *)
theory LowerStatements
  imports Lowering
begin

text \<open>
  The lowering of statements, functions and packages of \<open>src/compiler/lower.go\<close>, and the drivers of
  \<open>src/compiler/parser.go\<close> and \<open>src/compiler/compiler.go\<close>.  The parser of the standard library, the
  type checker and the files on disk are parameters of the drivers.
\<close>

section \<open>Assignment targets\<close>

record assignment_target =
  tgt_Direct :: value_id
  tgt_Address :: value_id
  tgt_Object :: object_id
  tgt_Type :: ir_type
  tgt_Fresh :: bool

definition no_target :: assignment_target where
  "no_target = \<lparr>tgt_Direct = NoValue, tgt_Address = NoValue, tgt_Object = NoMemoryObject,
     tgt_Type = TypeInvalid, tgt_Fresh = False\<rparr>"

definition is_array :: "ir_type \<Rightarrow> bool" where
  "is_array t \<longleftrightarrow> snd (snd (ArrayElement t))"

definition object_of_identifier :: "lower_context \<Rightarrow> node \<Rightarrow> bool \<Rightarrow> go_object option" where
  "object_of_identifier C n defining =
     (case if defining then info_Defs (info_of C) (node_Key n) else None of
        Some object \<Rightarrow> Some object
      | None \<Rightarrow> info_Uses (info_of C) (node_Key n))"

definition declare_memory ::
  "lower_context \<Rightarrow> node \<Rightarrow> string \<Rightarrow> nat \<Rightarrow> ir_type \<Rightarrow> object_id lowering" where
  "declare_memory C n name key t =
     bindl (newMemoryVariable name t) (\<lambda>r. case r of
       Inl err \<Rightarrow> faill (errorAt C n (''variable '' @ name @ '': '' @ err))
     | Inr i \<Rightarrow>
         thenl (updatel (\<lambda>s. s\<lparr>low_MemoryVariables := (low_MemoryVariables s)(key \<mapsto> i)\<rparr>)) (returnl i))"

definition memory_target ::
  "lower_context \<Rightarrow> node \<Rightarrow> string \<Rightarrow> nat \<Rightarrow> ir_type \<Rightarrow> bool \<Rightarrow> assignment_target lowering" where
  "memory_target C n name key t defining =
     bindl (readl (\<lambda>s. low_MemoryVariables s key)) (\<lambda>entry.
     bindl (case entry of
         Some i \<Rightarrow> returnl (i, False)
       | None \<Rightarrow>
           if \<not> defining then faill (errorAt C n (''variable '' @ name @ '' has not been declared''))
           else bindl (declare_memory C n name key t) (\<lambda>i. returnl (i, True))) (\<lambda>(i, fresh).
     bindl (if is_array t then returnl NoValue else emitObjectAddress i) (\<lambda>address.
       returnl (no_target\<lparr>tgt_Address := address, tgt_Object := i, tgt_Type := t, tgt_Fresh := fresh\<rparr>))))"

definition register_target ::
  "lower_context \<Rightarrow> node \<Rightarrow> string \<Rightarrow> nat \<Rightarrow> ir_type \<Rightarrow> bool \<Rightarrow> assignment_target lowering" where
  "register_target C n name key t defining =
     bindl (readl (\<lambda>s. low_Variables s key)) (\<lambda>entry. case entry of
       Some i \<Rightarrow> returnl (no_target\<lparr>tgt_Direct := i, tgt_Type := t\<rparr>)
     | None \<Rightarrow>
         if \<not> defining then faill (errorAt C n (''variable '' @ name @ '' has not been declared''))
         else
           bindl (newValue name t ValueLocal) (\<lambda>i.
           thenl (updatel (\<lambda>s. s\<lparr>low_Variables := (low_Variables s)(key \<mapsto> i)\<rparr>))
             (returnl (no_target\<lparr>tgt_Direct := i, tgt_Type := t, tgt_Fresh := True\<rparr>))))"

definition identifier_target ::
  "lower_context \<Rightarrow> node \<Rightarrow> string \<Rightarrow> bool \<Rightarrow> assignment_target lowering" where
  "identifier_target C n name defining =
     (let bad = faill (errorAt C n (name @ '' is not a named local variable'')) in
      case object_of_identifier C n defining of
        Some (VarObject key vname goType) \<Rightarrow>
          if name = ''_'' then bad
          else
            bindl (liftl (strict_at C n (''variable '' @ name @ '': '') goType)) (\<lambda>t.
              if is_array t \<or> lc_AddressTaken C key then memory_target C n name key t defining
              else register_target C n name key t defining)
      | _ \<Rightarrow> bad)"

text \<open>The same for a variable in a register, in a helper the lowering no longer calls.\<close>

definition variableForIdentifier :: "lower_context \<Rightarrow> node \<Rightarrow> string \<Rightarrow> bool \<Rightarrow> value_id lowering" where
  "variableForIdentifier C n name defining =
     (let bad = faill (errorAt C n (name @ '' is not a named local variable'')) in
      case object_of_identifier C n defining of
        Some (VarObject key vname goType) \<Rightarrow>
          if name = ''_'' then bad
          else
            bindl (readl (\<lambda>s. low_Variables s key)) (\<lambda>entry. case entry of
              Some i \<Rightarrow> returnl i
            | None \<Rightarrow>
                if \<not> defining then faill (errorAt C n (''variable '' @ name @ '' has not been declared''))
                else
                  bindl (liftl (strict_at C n (''variable '' @ name @ '': '') goType)) (\<lambda>t.
                  bindl (newValue name t ValueLocal) (\<lambda>i.
                  thenl (updatel (\<lambda>s. s\<lparr>low_Variables := (low_Variables s)(key \<mapsto> i)\<rparr>)) (returnl i))))
      | _ \<Rightarrow> bad)"

definition address_target :: "(value_id \<times> ir_type) lowering \<Rightarrow> assignment_target lowering" where
  "address_target address_of =
     bindl address_of (\<lambda>(address, element).
       returnl (no_target\<lparr>tgt_Address := address, tgt_Type := element\<rparr>))"

definition lowerAssignmentTarget ::
  "lower_context \<Rightarrow> expr \<Rightarrow> bool \<Rightarrow> assignment_target lowering" where
  "lowerAssignmentTarget C e defining =
     (case e of
        Ident n name \<Rightarrow> identifier_target C n name defining
      | IndexExpr n x i \<Rightarrow>
          if defining then faill (errorAt C n ''short declaration requires named variables'')
          else address_target (lowerArrayElementAddress C n x i (lowerExpression C i))
      | StarExpr n x \<Rightarrow>
          if defining then faill (errorAt C n ''short declaration requires named variables'')
          else address_target (lowerPointerDereference C n x (lowerExpression C x))
      | _ \<Rightarrow> faill (errorAt C (expr_node e)
          ''assignment target must be a local variable, fixed-array element, or pointer dereference''))"

definition readAssignmentTarget :: "lower_context \<Rightarrow> assignment_target \<Rightarrow> value_id lowering" where
  "readAssignmentTarget C target =
     (if tgt_Direct target \<noteq> NoValue then returnl (tgt_Direct target)
      else if tgt_Address target \<noteq> NoValue
      then lower_load C (tgt_Address target) (tgt_Type target) NoPos
      else faill (FrontendError ''lower: fixed arrays are not scalar assignment targets''))"

definition writeAssignmentTarget ::
  "lower_context \<Rightarrow> assignment_target \<Rightarrow> value_id \<Rightarrow> token_pos \<Rightarrow> unit lowering" where
  "writeAssignmentTarget C target v pos =
     (if tgt_Direct target \<noteq> NoValue then emit_move C (tgt_Direct target) v pos
      else if tgt_Address target \<noteq> NoValue
      then emit_store C (tgt_Address target) v (memoryTypeFor (tgt_Type target)) pos
      else faill (lowerDiagnostic (lc_Checked C) None ''fixed arrays cannot be assigned as register values''))"

fun lower_targets :: "lower_context \<Rightarrow> expr list \<Rightarrow> bool \<Rightarrow> assignment_target list lowering" where
  "lower_targets C [] defining = returnl []"
| "lower_targets C (e # es) defining =
     bindl (lowerAssignmentTarget C e defining) (\<lambda>t.
     bindl (lower_targets C es defining) (\<lambda>ts. returnl (t # ts)))"

text \<open>Every right-hand side goes to a temporary before any target is written.\<close>

fun snapshot_values :: "lower_context \<Rightarrow> assignment_target list \<Rightarrow> expr list \<Rightarrow> value_id list lowering" where
  "snapshot_values C (t # ts) (e # es) =
     bindl (lowerExpression C e (tgt_Type t)) (\<lambda>v.
     bindl (newTemporary (tgt_Type t)) (\<lambda>snapshot.
     thenl (emit_move C snapshot v (node_Pos (expr_node e)))
       (bindl (snapshot_values C ts es) (\<lambda>vs. returnl (snapshot # vs)))))"
| "snapshot_values C ts es = returnl []"

fun write_targets ::
  "lower_context \<Rightarrow> assignment_target list \<Rightarrow> value_id list \<Rightarrow> token_pos \<Rightarrow> unit lowering" where
  "write_targets C (t # ts) (v # vs) pos =
     thenl (writeAssignmentTarget C t v pos) (write_targets C ts vs pos)"
| "write_targets C ts vs pos = returnl ()"

definition assignValues ::
  "lower_context \<Rightarrow> assignment_target list \<Rightarrow> expr list \<Rightarrow> token_pos \<Rightarrow> unit lowering" where
  "assignValues C targets es pos =
     bindl (snapshot_values C targets es) (\<lambda>vs. write_targets C targets vs pos)"

section \<open>Fixed arrays\<close>

definition invalid_object :: "object_id \<Rightarrow> frontend_error" where
  "invalid_object i = FrontendError (''lower: invalid memory object '' @ decimal (unat i))"

definition zeroMemoryObject :: "lower_context \<Rightarrow> object_id \<Rightarrow> token_pos \<Rightarrow> unit lowering" where
  "zeroMemoryObject C i pos =
     bindl (readl (\<lambda>s. Function_MemoryObject (low_Function s) i)) (\<lambda>object. case object of
       None \<Rightarrow> faill (invalid_object i)
     | Some _ \<Rightarrow> lower_emit (zero_instruction\<lparr>ins_Op := OpZeroMemory, ins_Dest := NoValue, ins_Object := i,
         ins_Pos := position C pos\<rparr>))"

definition emitConstantElementAddress ::
  "lower_context \<Rightarrow> object_id \<Rightarrow> u32 \<Rightarrow> token_pos \<Rightarrow> value_id lowering" where
  "emitConstantElementAddress C i index pos =
     bindl (readl (\<lambda>s. object_at s i)) (\<lambda>object.
     bindl (emitObjectAddress i) (\<lambda>base.
     bindl (emit_constant C TypeUint64 (ucast index) pos) (\<lambda>indexValue.
     bindl (newTemporary (PointerTo (object_Element object))) (\<lambda>address.
     thenl (lower_emit (zero_instruction\<lparr>ins_Op := OpPointerAdd, ins_Dest := address, ins_X := base,
         ins_Y := indexValue, ins_Scale := memoryBytes (object_Element object), ins_Pos := position C pos\<rparr>))
       (returnl address)))))"

definition copy_objects :: "lower_context \<Rightarrow> object_id \<Rightarrow> object_id \<Rightarrow> token_pos \<Rightarrow> unit lowering" where
  "copy_objects C destination source pos =
     lower_emit (zero_instruction\<lparr>ins_Op := OpCopyMemory, ins_Dest := NoValue, ins_Object := destination,
       ins_SourceObject := source, ins_Pos := position C pos\<rparr>)"

text \<open>The index and the value of an item of a composite literal; \<open>following\<close> is the index after the last one.\<close>

definition element_index ::
  "lower_context \<Rightarrow> expr \<Rightarrow> u64 \<Rightarrow> frontend_error + u64 \<times> expr" where
  "element_index C item following =
     (case item of
        KeyValueExpr n k v \<Rightarrow>
          (case Option.bind (Types_at (info_of C) k) tv_Value of
             None \<Rightarrow> Inl (errorAt C (expr_node k) ''array initializer index must be constant'')
           | Some c \<Rightarrow>
               (case ToInt c of
                  None \<Rightarrow> Inl (errorAt C (expr_node k) ''array initializer index is invalid'')
                | Some i \<Rightarrow>
                    (case Uint64Val i of (resolved, exact) \<Rightarrow>
                       if \<not> exact then Inl (errorAt C (expr_node k) ''array initializer index is invalid'')
                       else Inr (resolved, v))))
      | _ \<Rightarrow> Inr (following, item))"

fun lower_elements ::
  "lower_context \<Rightarrow> memory_object \<Rightarrow> object_id \<Rightarrow> expr list \<Rightarrow> u64 \<Rightarrow> unit lowering" where
  "lower_elements C object i [] following = returnl ()"
| "lower_elements C object i (item # items) following =
     bindl (liftl (element_index C item following)) (\<lambda>(index, e).
       if index \<ge> ucast (object_Length object)
       then faill (errorAt C (expr_node item) (''array initializer index '' @ decimal (unat index) @
         '' is outside [0,'' @ decimal (unat (object_Length object)) @ '')''))
       else
         bindl (emitConstantElementAddress C i (ucast index) (node_Pos (expr_node item))) (\<lambda>address.
         bindl (lowerExpression C e (object_Element object)) (\<lambda>v.
         thenl (emit_store C address v (memoryTypeFor (object_Element object)) (node_Pos (expr_node item)))
           (lower_elements C object i items (index + 1)))))"

definition copy_array ::
  "lower_context \<Rightarrow> object_id \<Rightarrow> memory_object \<Rightarrow> node \<Rightarrow> string \<Rightarrow> token_pos \<Rightarrow> unit lowering" where
  "copy_array C i object m name pos =
     (case info_Uses (info_of C) (node_Key m) of
        Some (VarObject key vname t) \<Rightarrow>
          bindl (readl (\<lambda>s. low_MemoryVariables s key)) (\<lambda>sourceID.
          bindl (readl (\<lambda>s. Option.bind sourceID (Function_MemoryObject (low_Function s)))) (\<lambda>source.
            case (sourceID, source) of
              (Some j, Some src) \<Rightarrow>
                if object_Element src \<noteq> object_Element object \<or> object_Length src \<noteq> object_Length object
                then faill (errorAt C m (''array '' @ name @ '' does not match ['' @
                  decimal (unat (object_Length object)) @ '']'' @ Type_String (object_Element object)))
                else copy_objects C i j pos
            | _ \<Rightarrow> faill (errorAt C m (''array '' @ name @ '' does not match ['' @
                decimal (unat (object_Length object)) @ '']'' @ Type_String (object_Element object)))))
      | _ \<Rightarrow> faill (errorAt C m (name @ '' is not a fixed array'')))"

definition initialize_composite ::
  "lower_context \<Rightarrow> object_id \<Rightarrow> memory_object \<Rightarrow> node \<Rightarrow> expr list \<Rightarrow> ir_type \<Rightarrow> bool \<Rightarrow> unit lowering" where
  "initialize_composite C i object n elts arrayType fresh =
     (case ArrayElement arrayType of (element, len, array) \<Rightarrow>
        if \<not> array \<or> element \<noteq> object_Element object \<or> len \<noteq> object_Length object
        then faill (errorAt C n (''array initializer type '' @ Type_String arrayType @ '' does not match ['' @
          decimal (unat (object_Length object)) @ '']'' @ Type_String (object_Element object)))
        else
          bindl (if fresh then returnl (Inr i) else newMemoryVariable ''$array.literal'' arrayType) (\<lambda>r.
            case r of
              Inl err \<Rightarrow> faill (errorAt C n (''array literal temporary: '' @ err))
            | Inr target \<Rightarrow>
                thenl (zeroMemoryObject C target (node_Pos n))
                (thenl (lower_elements C object target elts 0)
                  (if target \<noteq> i then copy_objects C i target (node_Pos n) else returnl ()))))"

definition initializeArray :: "lower_context \<Rightarrow> object_id \<Rightarrow> expr \<Rightarrow> bool \<Rightarrow> unit lowering" where
  "initializeArray C i e fresh =
     bindl (readl (\<lambda>s. Function_MemoryObject (low_Function s) i)) (\<lambda>object. case object of
       None \<Rightarrow> faill (invalid_object i)
     | Some object \<Rightarrow>
         (case unparenthesized e of
            Ident m name \<Rightarrow> copy_array C i object m name (node_Pos (expr_node e))
          | CompositeLit n t elts \<Rightarrow>
              bindl (liftl (strict_type_of C (CompositeLit n t elts))) (\<lambda>r. case r of
                Inl err \<Rightarrow> faill (errorAt C n err)
              | Inr arrayType \<Rightarrow> initialize_composite C i object n elts arrayType fresh)
          | _ \<Rightarrow> faill (errorAt C (expr_node e)
              ''fixed arrays currently require a fixed-array composite literal initializer'')))"

section \<open>Simple statements\<close>

text \<open>The first array among the targets decides; an assignment to it stands alone.\<close>

fun first_array :: "assignment_target list \<Rightarrow> expr list \<Rightarrow> (assignment_target \<times> expr) option" where
  "first_array (t # ts) (e # es) = (if is_array (tgt_Type t) then Some (t, e) else first_array ts es)"
| "first_array ts es = None"

definition compound_tok :: "go_token \<Rightarrow> bool" where
  "compound_tok tok \<longleftrightarrow> tok = tokADD_ASSIGN \<or> tok = tokSUB_ASSIGN \<or> tok = tokMUL_ASSIGN \<or>
     tok = tokQUO_ASSIGN \<or> tok = tokREM_ASSIGN"

definition lowerCompoundAssignment ::
  "lower_context \<Rightarrow> node \<Rightarrow> expr list \<Rightarrow> go_token \<Rightarrow> expr list \<Rightarrow> unit lowering" where
  "lowerCompoundAssignment C n lhs tok rhs =
     (if length lhs \<noteq> 1 \<or> length rhs \<noteq> 1
      then faill (errorAt C n ''compound assignment requires one variable and one value'')
      else
        bindl (lowerAssignmentTarget C (hd lhs) False) (\<lambda>target.
          if \<not> integer (tgt_Type target)
          then faill (errorAt C (expr_node (hd lhs)) ''compound arithmetic assignment requires an integer variable'')
          else
            bindl (readAssignmentTarget C target) (\<lambda>left.
            bindl (lowerExpression C (hd rhs) (tgt_Type target)) (\<lambda>right.
            bindl (emit_binary C (mapAssignmentOp tok) (tgt_Type target) left right (node_Pos n)) (\<lambda>computed.
              writeAssignmentTarget C target computed (node_Pos n))))))"

definition lowerAssignment ::
  "lower_context \<Rightarrow> node \<Rightarrow> expr list \<Rightarrow> go_token \<Rightarrow> expr list \<Rightarrow> unit lowering" where
  "lowerAssignment C n lhs tok rhs =
     (if compound_tok tok then lowerCompoundAssignment C n lhs tok rhs
      else if tok \<noteq> tokASSIGN \<and> tok \<noteq> tokDEFINE
      then faill (errorAt C n (''assignment operator '' @ Token_String tok @ '' is not supported''))
      else if length lhs \<noteq> length rhs
      then faill (errorAt C n ''multiple-result assignments are not supported'')
      else
        bindl (lower_targets C lhs (tok = tokDEFINE)) (\<lambda>targets.
          case first_array targets rhs of
            Some (target, e) \<Rightarrow>
              if length targets \<noteq> 1
              then faill (errorAt C n ''fixed-array initialization cannot be mixed with parallel assignment'')
              else initializeArray C (tgt_Object target) e (tgt_Fresh target)
          | None \<Rightarrow> assignValues C targets rhs (node_Pos n)))"

fun zero_targets :: "lower_context \<Rightarrow> assignment_target list \<Rightarrow> token_pos \<Rightarrow> unit lowering" where
  "zero_targets C [] pos = returnl ()"
| "zero_targets C (t # ts) pos =
     thenl
       (if is_array (tgt_Type t) then zeroMemoryObject C (tgt_Object t) pos
        else bindl (emit_constant C (tgt_Type t) 0 pos) (\<lambda>zero. writeAssignmentTarget C t zero pos))
       (zero_targets C ts pos)"

fun initialize_arrays ::
  "lower_context \<Rightarrow> node \<Rightarrow> nat \<Rightarrow> assignment_target list \<Rightarrow> expr list \<Rightarrow> unit lowering" where
  "initialize_arrays C n count (t # ts) (e # es) =
     thenl
       (if is_array (tgt_Type t) then
          (if count \<noteq> 1
           then faill (errorAt C n ''fixed-array initialization cannot be mixed with parallel declaration'')
           else initializeArray C (tgt_Object t) e (tgt_Fresh t))
        else returnl ())
       (initialize_arrays C n count ts es)"
| "initialize_arrays C n count ts es = returnl ()"

definition lower_spec :: "lower_context \<Rightarrow> spec \<Rightarrow> unit lowering" where
  "lower_spec C spec =
     (case spec of
        OtherSpec n kind \<Rightarrow> faill (errorAt C n (''declaration '' @ kind @ '' is not supported''))
      | ValueSpec n names t values \<Rightarrow>
          bindl (lower_targets C (map (\<lambda>(n, s). Ident n s) names) True) (\<lambda>targets.
            if values = [] then zero_targets C targets (node_Pos n)
            else if length targets \<noteq> length values
            then faill (errorAt C n ''multiple-result variable initialization is not supported'')
            else
              thenl (initialize_arrays C n (length targets) targets values)
                (if \<not> is_array (tgt_Type (hd targets)) then assignValues C targets values (node_Pos n)
                 else returnl ())))"

fun lower_specs :: "lower_context \<Rightarrow> spec list \<Rightarrow> unit lowering" where
  "lower_specs C [] = returnl ()"
| "lower_specs C (spec # specs) = thenl (lower_spec C spec) (lower_specs C specs)"

definition lowerDeclaration :: "lower_context \<Rightarrow> node \<Rightarrow> local_decl \<Rightarrow> unit lowering" where
  "lowerDeclaration C n d =
     (case d of
        GenDecl m tok specs \<Rightarrow>
          if tok \<noteq> tokVAR then faill (errorAt C n ''only local var declarations are supported'')
          else lower_specs C specs
      | BadDecl m \<Rightarrow> faill (errorAt C n ''only local var declarations are supported''))"

definition lowerIncDec :: "lower_context \<Rightarrow> node \<Rightarrow> expr \<Rightarrow> go_token \<Rightarrow> unit lowering" where
  "lowerIncDec C n x tok =
     bindl (lowerAssignmentTarget C x False) (\<lambda>target.
       if \<not> integer (tgt_Type target)
       then faill (errorAt C (expr_node x) ''increment and decrement require an integer variable'')
       else
         bindl (readAssignmentTarget C target) (\<lambda>current.
         bindl (emit_constant C (tgt_Type target) 1 (node_Pos n)) (\<lambda>one.
         bindl (emit_binary C (if tok = tokDEC then OpSub else OpAdd) (tgt_Type target) current one (node_Pos n))
           (\<lambda>computed. writeAssignmentTarget C target computed (node_Pos n)))))"

definition lowerReturn :: "lower_context \<Rightarrow> node \<Rightarrow> expr list \<Rightarrow> unit lowering" where
  "lowerReturn C n results =
     bindl (readl (\<lambda>s. fn_Result (low_Function s))) (\<lambda>t.
       if t = TypeVoid then
         (if results \<noteq> [] then faill (errorAt C n ''void function cannot return a value'')
          else
            bindl (readl low_Current) (\<lambda>block.
            thenl (terminate_block block (return_with C NoValue (node_Pos n))) (set_current None)))
       else if length results \<noteq> 1
       then faill (errorAt C n (''function must return exactly one '' @ Type_String t @ '' value''))
       else
         bindl (lowerExpression C (hd results) t) (\<lambda>result.
         bindl (readl low_Current) (\<lambda>block.
         thenl (terminate_block block (return_with C result (node_Pos n))) (set_current None))))"

definition lower_expression_statement :: "lower_context \<Rightarrow> node \<Rightarrow> expr \<Rightarrow> unit lowering" where
  "lower_expression_statement C n x =
     (case x of
        CallExpr m f args ellipsis \<Rightarrow>
          bindl (lowerCall C m f (map (\<lambda>a. (a, lowerExpression C a)) args)) (\<lambda>_. returnl ())
      | _ \<Rightarrow> faill (errorAt C n ''only calls may be expression statements''))"

section \<open>Control flow\<close>

text \<open>
  The lowering of a nested statement is an argument.  A join block exists only when one of the
  branches reaches its end; an endless loop has no block after it.
\<close>

definition lowerIf ::
  "lower_context \<Rightarrow> node \<Rightarrow> unit lowering option \<Rightarrow> expr \<Rightarrow> unit lowering \<Rightarrow> unit lowering option \<Rightarrow>
     unit lowering" where
  "lowerIf C n init cond body els =
     thenl (case init of None \<Rightarrow> returnl () | Some m \<Rightarrow> m)
     (bindl (lowerExpression C cond TypeBool) (\<lambda>condition.
      bindl (readl low_Current) (\<lambda>branch.
      bindl (newBlock ''if.then'') (\<lambda>thenBlock.
      bindl (newBlock ''if.else'') (\<lambda>elseBlock.
      thenl (terminate_block branch (branch_to C condition thenBlock elseBlock (node_Pos n)))
      (thenl (set_current (Some thenBlock))
      (thenl body
      (bindl (readl low_Current) (\<lambda>thenEnd.
       thenl (set_current (Some elseBlock))
       (thenl (case els of None \<Rightarrow> returnl () | Some m \<Rightarrow> m)
       (bindl (readl low_Current) (\<lambda>elseEnd.
          if thenEnd = None \<and> elseEnd = None then set_current None
          else
            bindl (newBlock ''if.join'') (\<lambda>join.
            thenl (if thenEnd \<noteq> None then terminate_block thenEnd (jump_to C join (node_End n)) else returnl ())
            (thenl (if elseEnd \<noteq> None then terminate_block elseEnd (jump_to C join (node_End n)) else returnl ())
              (set_current (Some join))))))))))))))))"

definition lower_for_condition ::
  "lower_context \<Rightarrow> node \<Rightarrow> expr option \<Rightarrow> nat \<Rightarrow> nat \<Rightarrow> nat option lowering" where
  "lower_for_condition C n cond conditionBlock bodyBlock =
     (case cond of
        None \<Rightarrow>
          thenl (terminate_block (Some conditionBlock) (jump_to C bodyBlock (node_Pos n))) (returnl None)
      | Some e \<Rightarrow>
          bindl (lowerExpression C e TypeBool) (\<lambda>condition.
          bindl (newBlock ''for.exit'') (\<lambda>exitBlock.
          thenl (terminate_block (Some conditionBlock)
              (branch_to C condition bodyBlock exitBlock (node_Pos (expr_node e))))
            (returnl (Some exitBlock)))))"

definition lower_for_post ::
  "lower_context \<Rightarrow> (token_pos \<times> unit lowering) option \<Rightarrow> unit lowering" where
  "lower_for_post C post =
     (case post of
        None \<Rightarrow> returnl ()
      | Some (pos, m) \<Rightarrow>
          bindl (newBlock ''for.post'') (\<lambda>postBlock.
          bindl (readl low_Current) (\<lambda>block.
          thenl (terminate_block block (jump_to C postBlock pos))
          (thenl (set_current (Some postBlock)) m))))"

definition lowerFor ::
  "lower_context \<Rightarrow> node \<Rightarrow> unit lowering option \<Rightarrow> expr option \<Rightarrow> (token_pos \<times> unit lowering) option \<Rightarrow>
     unit lowering \<Rightarrow> unit lowering" where
  "lowerFor C n init cond post body =
     thenl (case init of None \<Rightarrow> returnl () | Some m \<Rightarrow> m)
     (bindl (readl low_Current) (\<lambda>preheader.
      bindl (newBlock ''for.cond'') (\<lambda>conditionBlock.
      bindl (newBlock ''for.body'') (\<lambda>bodyBlock.
      thenl (terminate_block preheader (jump_to C conditionBlock (node_Pos n)))
      (thenl (set_current (Some conditionBlock))
      (bindl (lower_for_condition C n cond conditionBlock bodyBlock) (\<lambda>exitBlock.
       thenl (set_current (Some bodyBlock))
       (thenl body
       (bindl (readl low_Current) (\<lambda>bodyEnd.
        thenl
          (if bodyEnd = None then returnl ()
           else
             thenl (lower_for_post C post)
             (bindl (readl low_Current) (\<lambda>end_block.
                if end_block = None then returnl ()
                else terminate_block end_block (jump_to C conditionBlock (node_End n)))))
          (set_current exitBlock)))))))))))"

text \<open>The statements of a block, up to the first one that nothing reaches.\<close>

definition lower_if_reached :: "unit lowering \<Rightarrow> unit lowering \<Rightarrow> unit lowering" where
  "lower_if_reached m rest =
     bindl (readl low_Current) (\<lambda>block. if block = None then returnl () else thenl m rest)"

fun lowerStatement :: "lower_context \<Rightarrow> stmt \<Rightarrow> unit lowering"
and lowerBlock :: "lower_context \<Rightarrow> stmt list \<Rightarrow> unit lowering" where
  "lowerStatement C (BlockStmt n ss) = lowerBlock C ss"
| "lowerStatement C (EmptyStmt n) = returnl ()"
| "lowerStatement C (ReturnStmt n results) = lowerReturn C n results"
| "lowerStatement C (AssignStmt n lhs tok rhs) = lowerAssignment C n lhs tok rhs"
| "lowerStatement C (DeclStmt n d) = lowerDeclaration C n d"
| "lowerStatement C (IncDecStmt n x tok) = lowerIncDec C n x tok"
| "lowerStatement C (ExprStmt n x) = lower_expression_statement C n x"
| "lowerStatement C (IfStmt n init cond bn body els) =
     lowerIf C n (map_option (lowerStatement C) init) cond (lowerBlock C body)
       (map_option (lowerStatement C) els)"
| "lowerStatement C (ForStmt n init cond post bn body) =
     lowerFor C n (map_option (lowerStatement C) init) cond
       (map_option (\<lambda>p. (node_Pos (stmt_node p), lowerStatement C p)) post) (lowerBlock C body)"
| "lowerStatement C (RefusedStmt n k) =
     faill (errorAt C n (''statement '' @ refused_stmt_name k @ '' is not supported''))"
| "lowerBlock C [] = returnl ()"
| "lowerBlock C (s # ss) = lower_if_reached (lowerStatement C s) (lowerBlock C ss)"

section \<open>Functions\<close>

text \<open>The variables whose address is taken, by the \<open>&\<close> on a plain identifier.\<close>

definition address_taken_by :: "go_info \<Rightarrow> expr \<Rightarrow> nat list" where
  "address_taken_by info e =
     (case e of
        UnaryExpr n op (Ident m name) \<Rightarrow>
          if op \<noteq> tokAND then []
          else
            (case (case info_Uses info (node_Key m) of Some object \<Rightarrow> Some object
                   | None \<Rightarrow> info_Defs info (node_Key m)) of
               Some (VarObject key vname t) \<Rightarrow> [key]
             | _ \<Rightarrow> [])
      | _ \<Rightarrow> [])"

definition findAddressTakenVariables :: "go_info \<Rightarrow> stmt list \<Rightarrow> nat list" where
  "findAddressTakenVariables info body =
     concat (map (address_taken_by info) (concat (map inspect_stmt body)))"

definition lower_parameter ::
  "lower_context \<Rightarrow> func_decl \<Rightarrow> nat \<Rightarrow> nat \<times> string \<times> go_type \<Rightarrow> value_id lowering" where
  "lower_parameter C d index p =
     (case p of (key, pname, goType) \<Rightarrow>
        (let n = decl_Params d;
             name = (if pname = '''' \<or> pname = ''_'' then ''arg'' @ decimal (index + 1) else pname)
         in
         bindl (liftl (strict_at C n (''parameter '' @ decimal (index + 1) @ '': '') goType)) (\<lambda>t.
         bindl (newValue name t ValueParameter) (\<lambda>i.
         thenl (updatel (\<lambda>s. s\<lparr>low_Function := (low_Function s)\<lparr>fn_Params := fn_Params (low_Function s) @ [i]\<rparr>\<rparr>))
         (thenl
           (if lc_AddressTaken C key then
              bindl (newMemoryVariable name t) (\<lambda>r. case r of
                Inl err \<Rightarrow> faill (errorAt C n (''parameter '' @ name @ '': '' @ err))
              | Inr object \<Rightarrow>
                  updatel (\<lambda>s. s\<lparr>low_MemoryVariables := (low_MemoryVariables s)(key \<mapsto> object)\<rparr>))
            else updatel (\<lambda>s. s\<lparr>low_Variables := (low_Variables s)(key \<mapsto> i)\<rparr>))
           (returnl i))))))"

fun lower_parameters ::
  "lower_context \<Rightarrow> func_decl \<Rightarrow> nat \<Rightarrow> (nat \<times> string \<times> go_type) list \<Rightarrow> value_id list lowering" where
  "lower_parameters C d index [] = returnl []"
| "lower_parameters C d index (p # ps) =
     bindl (lower_parameter C d index p) (\<lambda>i.
     bindl (lower_parameters C d (index + 1) ps) (\<lambda>is. returnl (i # is)))"

text \<open>The parameters whose address is taken are stored into their objects on entry.\<close>

fun store_parameters ::
  "lower_context \<Rightarrow> func_decl \<Rightarrow> (nat \<times> string \<times> go_type) list \<Rightarrow> value_id list \<Rightarrow> unit lowering" where
  "store_parameters C d ((key, pname, goType) # ps) (i # is) =
     bindl (readl (\<lambda>s. low_MemoryVariables s key)) (\<lambda>entry.
     thenl
       (case entry of
          None \<Rightarrow> returnl ()
        | Some object \<Rightarrow>
            bindl (emitObjectAddress object) (\<lambda>address.
              emit_store C address i
                (memoryTypeFor (case strictIRType goType of Inr t \<Rightarrow> t | Inl _ \<Rightarrow> TypeInvalid))
                (node_Pos (decl_Node d))))
       (store_parameters C d ps is))"
| "store_parameters C d ps is = returnl ()"

text \<open>
  Without a result list the error about the result type has no position: a nil dereference.
\<close>

definition lower_result_type :: "lower_context \<Rightarrow> func_decl \<Rightarrow> go_type list \<Rightarrow> frontend_error + ir_type" where
  "lower_result_type C d rs =
     (if length rs = 1 then
        (case decl_Results d of
           Some (n, _) \<Rightarrow> strict_at C n [] (hd rs)
         | None \<Rightarrow> (case strictIRType (hd rs) of Inl _ \<Rightarrow> Inl FrontendPanic | Inr t \<Rightarrow> Inr t))
      else Inr TypeVoid)"

definition lower_body ::
  "lower_context \<Rightarrow> func_decl \<Rightarrow> (nat \<times> string \<times> go_type) list \<Rightarrow> node \<Rightarrow> stmt list \<Rightarrow> ir_function lowering" where
  "lower_body C d ps bn body =
     bindl (lower_parameters C d 0 ps) (\<lambda>params.
     bindl (newBlock ''entry'') (\<lambda>entry.
     thenl (updatel (\<lambda>s. s\<lparr>low_Function := (low_Function s)\<lparr>fn_Entry := blockID entry\<rparr>\<rparr>))
     (thenl (set_current (Some entry))
     (thenl (store_parameters C d ps params)
     (thenl (lowerBlock C body)
     (bindl (readl low_Current) (\<lambda>block.
      thenl
        (if block = None then returnl ()
         else
           bindl (readl (\<lambda>s. fn_Result (low_Function s))) (\<lambda>t.
             if t \<noteq> TypeVoid
             then faill (errorAt C bn (''function '' @ snd (decl_Name d) @
               '' can reach its end without returning '' @ Type_String t))
             else terminate_block block (return_with C NoValue (node_End bn))))
        (readl low_Function))))))))"

definition start_state :: "string \<Rightarrow> ir_type \<Rightarrow> lower_state" where
  "start_state name result =
     \<lparr>low_Function = \<lparr>fn_Name = name, fn_Params = [], fn_Result = result, fn_Values = [], fn_Memory = [],
        fn_Blocks = [], fn_Entry = NoBlock\<rparr>,
      low_Current = None, low_Variables = (\<lambda>_. None), low_MemoryVariables = (\<lambda>_. None), low_Temporary = 0\<rparr>"

definition lowerFunction ::
  "lower_context \<Rightarrow> func_decl \<Rightarrow> node \<Rightarrow> stmt list \<Rightarrow> frontend_error + ir_function" where
  "lowerFunction C d bn body =
     (let name = fst (decl_Name d) in
      case info_Defs (info_of C) (node_Key name) of
        Some (FuncObject key fname pkg t) \<Rightarrow>
          (case signature_of t of
             None \<Rightarrow> Inl (errorAt C name ''function has an invalid signature'')
           | Some (ps, rs) \<Rightarrow>
               and_then (lower_result_type C d rs) (\<lambda>result.
               and_then (lower_body C d ps bn body (start_state (snd (decl_Name d)) result))
                 (\<lambda>(f, s). Inr f)))
      | _ \<Rightarrow> Inl (errorAt C name ''cannot resolve function declaration''))"

section \<open>Packages\<close>

definition lower_declaration :: "CheckedPackage \<Rightarrow> top_decl \<Rightarrow> frontend_error + ir_function option" where
  "lower_declaration checked d =
     (case d of
        OtherDecl n \<Rightarrow> Inl (lowerDiagnostic checked (Some n) ''unexpected non-function declaration'')
      | FuncDecl d \<Rightarrow>
          (case decl_Body d of
             None \<Rightarrow> Inr None
           | Some (bn, body) \<Rightarrow>
               (let taken = findAddressTakenVariables (Info checked) body;
                    C = \<lparr>lc_Checked = checked, lc_AddressTaken = (\<lambda>key. key \<in> set taken)\<rparr>
                in and_then (lowerFunction C d bn body) (\<lambda>f. Inr (Some f)))))"

fun lower_declarations :: "CheckedPackage \<Rightarrow> top_decl list \<Rightarrow> frontend_error + ir_function list" where
  "lower_declarations checked [] = Inr []"
| "lower_declarations checked (d # ds) =
     and_then (lower_declaration checked d) (\<lambda>f.
     and_then (lower_declarations checked ds) (\<lambda>fs.
       Inr (case f of None \<Rightarrow> fs | Some f \<Rightarrow> f # fs)))"

definition Lower :: "order_of_effects \<Rightarrow> CheckedPackage option \<Rightarrow> frontend_error + ir_program" where
  "Lower ord checked =
     (case checked of
        None \<Rightarrow> Inl (FrontendError ''lower: nil or incomplete checked package'')
      | Some checked \<Rightarrow>
          and_then (lower_declarations checked (all_decls (Parsed checked))) (\<lambda>fs.
            if fs = [] then
              (case Files (Parsed checked) of
                 [] \<Rightarrow> Inl FrontendPanic
               | file # _ \<Rightarrow>
                   Inl (lowerDiagnostic checked (Some (file_Node file)) ''source file declares no functions''))
            else
              (let program = \<lparr>prog_Package = pkg_Name (Checked_Package checked), prog_Functions = fs\<rparr> in
               case Program_Validate ord program of
                 Some e \<Rightarrow> Inl (GeneratedInvalidIR e)
               | None \<Rightarrow> Inr program)))"

section \<open>The drivers\<close>

text \<open>\<open>parser.ParseFile\<close> adds the file to the file set; it returns an error, a nil file or a file.\<close>

type_synonym file_parser =
  "file_set \<Rightarrow> string \<Rightarrow> bytes \<Rightarrow> (string + source_file option) \<times> file_set"

definition NewFileSet :: file_set where
  "NewFileSet = \<lparr>fs_Base = 1, fs_Position = (\<lambda>_. zero_position)\<rparr>"

fun parse_files ::
  "file_parser \<Rightarrow> nat \<Rightarrow> string list \<Rightarrow> bytes list \<Rightarrow> file_set \<Rightarrow>
     frontend_error + string list \<times> source_file list \<times> file_set" where
  "parse_files parse index (filename # filenames) (source # sources) fs =
     (let name = (if filename = '''' then ''input'' @ decimal index @ ''.go'' else filename) in
      case parse fs name source of
        (Inl e, fs') \<Rightarrow> Inl (FrontendError (''parse: '' @ e))
      | (Inr None, fs') \<Rightarrow> Inl (FrontendError (''parse '' @ name @ '': parser returned no syntax tree''))
      | (Inr (Some file), fs') \<Rightarrow>
          and_then (parse_files parse (index + 1) filenames sources fs') (\<lambda>(names, files, fs'').
            Inr (name # names, file # files, fs'')))"
| "parse_files parse index filenames sources fs = Inr ([], [], fs)"

definition ParseFiles :: "file_parser \<Rightarrow> string list \<Rightarrow> bytes list \<Rightarrow> frontend_error + ParsedPackage" where
  "ParseFiles parse filenames sources =
     (if filenames = [] then Inl (FrontendError ''parse: at least one source file is required'')
      else if length filenames \<noteq> length sources
      then Inl (FrontendError (''parse: '' @ decimal (length filenames) @ '' filenames but '' @
        decimal (length sources) @ '' sources''))
      else and_then (parse_files parse 0 filenames sources NewFileSet) (\<lambda>(names, files, fs).
        Inr \<lparr>Filenames = names, FileSet = Some fs, Files = files\<rparr>))"

definition ParseFile :: "file_parser \<Rightarrow> string \<Rightarrow> bytes \<Rightarrow> frontend_error + ParsedPackage" where
  "ParseFile parse filename source =
     ParseFiles parse [if filename = '''' then ''input.go'' else filename] [source]"

definition CompileSources ::
  "file_parser \<Rightarrow> type_checker \<Rightarrow> order_of_effects \<Rightarrow> string list \<Rightarrow> bytes list \<Rightarrow>
     frontend_error + ir_program" where
  "CompileSources parse typecheck ord filenames sources =
     and_then (ParseFiles parse filenames sources) (\<lambda>parsed.
     and_then (Check typecheck (Some parsed)) (\<lambda>checked. Lower ord (Some checked)))"

definition CompileSource ::
  "file_parser \<Rightarrow> type_checker \<Rightarrow> order_of_effects \<Rightarrow> string \<Rightarrow> bytes \<Rightarrow> frontend_error + ir_program" where
  "CompileSource parse typecheck ord filename source =
     CompileSources parse typecheck ord [filename] [source]"

text \<open>\<open>os.ReadFile\<close> is a parameter: the contents of a file or an error.\<close>

fun read_files :: "(string \<Rightarrow> string + bytes) \<Rightarrow> string list \<Rightarrow> frontend_error + bytes list" where
  "read_files readFile [] = Inr []"
| "read_files readFile (filename # filenames) =
     (case readFile filename of
        Inl e \<Rightarrow> Inl (FrontendError (''read '' @ filename @ '': '' @ e))
      | Inr source \<Rightarrow> and_then (read_files readFile filenames) (\<lambda>sources. Inr (source # sources)))"

definition CompileFiles ::
  "(string \<Rightarrow> string + bytes) \<Rightarrow> file_parser \<Rightarrow> type_checker \<Rightarrow> order_of_effects \<Rightarrow> string list \<Rightarrow>
     frontend_error + ir_program" where
  "CompileFiles readFile parse typecheck ord filenames =
     and_then (read_files readFile filenames)
       (\<lambda>sources. CompileSources parse typecheck ord filenames sources)"

definition CompileFile ::
  "(string \<Rightarrow> string + bytes) \<Rightarrow> file_parser \<Rightarrow> type_checker \<Rightarrow> order_of_effects \<Rightarrow> string \<Rightarrow>
     frontend_error + ir_program" where
  "CompileFile readFile parse typecheck ord filename =
     CompileFiles readFile parse typecheck ord [filename]"

end
