(* ===== verification/LowerFacts.thy ===== *)
theory LowerFacts
  imports LowerStatements "HOL-Library.Sublist"
begin

text \<open>
  What the lowering leaves behind, for any syntax tree and any tables of the type checker: a
  computation on a lowerer only adds to the function.  \<open>extends\<close> is the contract of the parts that stay
  in the current block, \<open>flows\<close> that of a statement, which may close the current block and open others.
\<close>

section \<open>Running computations\<close>

named_theorems lower_steps \<open>computations that extend the function in the current block\<close>

lemma bindl_Inr:
  "bindl m f s = Inr r \<longleftrightarrow> (\<exists>x t. m s = Inr (x, t) \<and> f x t = Inr r)"
  by (auto simp: bindl_def split: sum.splits)

lemma thenl_Inr: "thenl m k s = Inr r \<longleftrightarrow> (\<exists>x t. m s = Inr (x, t) \<and> k t = Inr r)"
  by (simp add: thenl_def bindl_Inr)

lemma liftl_Inr: "liftl r s = Inr (x, t) \<longleftrightarrow> r = Inr x \<and> t = s"
  by (cases r) (auto simp: liftl_def faill_def returnl_def)

lemma returnl_Inr: "returnl y s = Inr (x, t) \<longleftrightarrow> x = y \<and> t = s"
  by (auto simp: returnl_def)

lemma readl_Inr: "readl g s = Inr (x, t) \<longleftrightarrow> x = g s \<and> t = s"
  by (auto simp: readl_def)

lemma updatel_Inr: "updatel g s = Inr (x, t) \<longleftrightarrow> t = g s"
  by (auto simp: updatel_def)

lemma faill_Inr [simp]: "faill e s \<noteq> Inr r"
  by (simp add: faill_def)

lemmas lower_runs = bindl_Inr thenl_Inr liftl_Inr returnl_Inr readl_Inr updatel_Inr

section \<open>Computations that stay in the current block\<close>

definition numbered :: "ir_function \<Rightarrow> bool" where
  "numbered f \<longleftrightarrow>
     (\<forall>i < length (fn_Values f). value_ID (fn_Values f ! i) = of_nat i) \<and>
     (\<forall>i < length (fn_Memory f). object_ID (fn_Memory f ! i) = of_nat i) \<and>
     (\<forall>i < length (fn_Blocks f). block_ID (fn_Blocks f ! i) = of_nat i)"

definition with_code :: "nat option \<Rightarrow> ir_instruction list \<Rightarrow> basic_block list \<Rightarrow> basic_block list" where
  "with_code block code bs =
     (case block of
        None \<Rightarrow> bs
      | Some c \<Rightarrow> bs[c := (bs ! c)\<lparr>block_Instructions := block_Instructions (bs ! c) @ code\<rparr>])"

definition emits :: "ir_instruction list \<Rightarrow> lower_state \<Rightarrow> lower_state \<Rightarrow> bool" where
  "emits code s t \<longleftrightarrow>
     low_Current t = low_Current s \<and>
     fn_Name (low_Function t) = fn_Name (low_Function s) \<and>
     fn_Params (low_Function t) = fn_Params (low_Function s) \<and>
     fn_Result (low_Function t) = fn_Result (low_Function s) \<and>
     fn_Entry (low_Function t) = fn_Entry (low_Function s) \<and>
     prefix (fn_Values (low_Function s)) (fn_Values (low_Function t)) \<and>
     prefix (fn_Memory (low_Function s)) (fn_Memory (low_Function t)) \<and>
     fn_Blocks (low_Function t) = with_code (low_Current s) code (fn_Blocks (low_Function s)) \<and>
     low_Variables s \<subseteq>\<^sub>m low_Variables t \<and>
     (numbered (low_Function s) \<longrightarrow> numbered (low_Function t))"

lemma with_code_nil [simp]: "with_code c [] bs = bs"
  by (cases c) (simp_all add: with_code_def)

lemma with_code_twice: "with_code c d (with_code c e bs) = with_code c (e @ d) bs"
proof (cases c)
  case (Some i)
  then show ?thesis by (cases "i < length bs") (simp_all add: with_code_def list_update_beyond)
qed (simp add: with_code_def)

lemma length_with_code [simp]: "length (with_code c code bs) = length bs"
  by (cases c) (simp_all add: with_code_def)

lemma with_code_nth:
  "i < length bs \<Longrightarrow> with_code c code bs ! i =
     (if c = Some i then (bs ! i)\<lparr>block_Instructions := block_Instructions (bs ! i) @ code\<rparr> else bs ! i)"
  by (cases c) (auto simp: with_code_def nth_list_update)

lemma emits_refl: "emits [] s s"
  by (simp add: emits_def)

lemma emits_trans: "emits c s t \<Longrightarrow> emits d t u \<Longrightarrow> emits (c @ d) s u"
  by (auto simp: emits_def with_code_twice intro: map_le_trans prefix_order.trans)

definition extends :: "'a lowering \<Rightarrow> bool" where
  "extends m \<longleftrightarrow> (\<forall>s x t. m s = Inr (x, t) \<longrightarrow> (\<exists>code. emits code s t))"

lemma extendsI: "(\<And>s x t. m s = Inr (x, t) \<Longrightarrow> \<exists>code. emits code s t) \<Longrightarrow> extends m"
  by (simp add: extends_def)

lemma extendsD: "extends m \<Longrightarrow> m s = Inr (x, t) \<Longrightarrow> \<exists>code. emits code s t"
  by (auto simp: extends_def)

lemma extends_bindl [lower_steps]: "extends m \<Longrightarrow> (\<And>x. extends (f x)) \<Longrightarrow> extends (bindl m f)"
  by (rule extendsI) (auto simp: bindl_Inr dest!: extendsD, meson emits_trans extendsD)

lemma extends_thenl [lower_steps]: "extends m \<Longrightarrow> extends k \<Longrightarrow> extends (thenl m k)"
  unfolding thenl_def by (rule extends_bindl)

lemma extends_pure [lower_steps]:
  "extends (returnl x)" "extends (faill e)" "extends (liftl r)" "extends (readl g)"
  by (rule extendsI, auto simp: lower_runs intro: emits_refl)+

lemma extends_if [lower_steps]: "extends m \<Longrightarrow> extends k \<Longrightarrow> extends (if b then m else k)"
  by simp

lemma extends_updatel:
  "(\<And>s. low_Function (g s) = low_Function s \<and> low_Current (g s) = low_Current s \<and>
      low_Variables s \<subseteq>\<^sub>m low_Variables (g s)) \<Longrightarrow> extends (updatel g)"
  by (rule extendsI) (auto simp: lower_runs emits_def intro!: exI [of _ "[]"])

lemma numbered_simps:
  "numbered (f\<lparr>fn_Values := vs\<rparr>) \<longleftrightarrow> (\<forall>i < length vs. value_ID (vs ! i) = of_nat i) \<and>
     (\<forall>i < length (fn_Memory f). object_ID (fn_Memory f ! i) = of_nat i) \<and>
     (\<forall>i < length (fn_Blocks f). block_ID (fn_Blocks f ! i) = of_nat i)"
  "numbered (f\<lparr>fn_Memory := ms\<rparr>) \<longleftrightarrow> (\<forall>i < length ms. object_ID (ms ! i) = of_nat i) \<and>
     (\<forall>i < length (fn_Values f). value_ID (fn_Values f ! i) = of_nat i) \<and>
     (\<forall>i < length (fn_Blocks f). block_ID (fn_Blocks f ! i) = of_nat i)"
  "numbered (f\<lparr>fn_Blocks := bs\<rparr>) \<longleftrightarrow> (\<forall>i < length bs. block_ID (bs ! i) = of_nat i) \<and>
     (\<forall>i < length (fn_Values f). value_ID (fn_Values f ! i) = of_nat i) \<and>
     (\<forall>i < length (fn_Memory f). object_ID (fn_Memory f ! i) = of_nat i)"
  by (auto simp: numbered_def)

lemma extends_newValue [lower_steps]: "extends (newValue name t kind)"
  by (rule extendsI, rule exI [of _ "[]"])
    (auto simp: newValue_def Let_def emits_def numbered_simps numbered_def nth_append less_Suc_eq)

lemma extends_newTemporary [lower_steps]: "extends (newTemporary t)"
  unfolding newTemporary_def
  by (intro extends_thenl extends_bindl extends_updatel extends_pure extends_newValue) simp

lemma extends_newMemoryVariable [lower_steps]: "extends (newMemoryVariable name t)"
proof (rule extendsI, rule exI [of _ "[]"])
  fix s x u assume "newMemoryVariable name t s = Inr (x, u)"
  then show "emits [] s u"
    by (auto simp: newMemoryVariable_def Let_def emits_def numbered_simps numbered_def nth_append less_Suc_eq
        split: prod.splits if_splits)
qed

lemma same_IDs: "block_ID b = block_ID (bs ! c) \<Longrightarrow> block_ID (bs[c := b] ! i) = block_ID (bs ! i)"
  by (cases "c < length bs"; cases "c = i") (simp_all add: list_update_beyond)

lemma emit_emits: "lower_emit ins s = Inr (x, t) \<Longrightarrow> emits [ins] s t"
  by (auto simp: lower_emit_def Let_def emits_def with_code_def numbered_simps numbered_def same_IDs
      split: option.splits)

lemma extends_emit [lower_steps]: "extends (lower_emit ins)"
  using emit_emits by (intro extendsI) blast

lemma extends_emitters [lower_steps]:
  "extends (emitObjectAddress i)" "extends (lower_load C address t pos)" "extends (emit_constant C t bits pos)"
  "extends (emit_binary C op t x y pos)" "extends (emit_move C d x pos)" "extends (emit_store C address v memory pos)"
  unfolding emitObjectAddress_def lower_load_def emit_constant_def emit_binary_def emit_move_def emit_store_def
  by (intro lower_steps)+


lemma extends_cases [lower_steps]:
  "(\<And>e. r = Inl e \<Longrightarrow> extends (g e)) \<Longrightarrow> (\<And>x. r = Inr x \<Longrightarrow> extends (h x)) \<Longrightarrow>
     extends (case r of Inl e \<Rightarrow> g e | Inr x \<Rightarrow> h x)"
  "(q = None \<Longrightarrow> extends m) \<Longrightarrow> (\<And>y. q = Some y \<Longrightarrow> extends (k y)) \<Longrightarrow>
     extends (case q of None \<Rightarrow> m | Some y \<Rightarrow> k y)"
  "(\<And>a b. p = (a, b) \<Longrightarrow> extends (j a b)) \<Longrightarrow> extends (case p of (a, b) \<Rightarrow> j a b)"
  by (auto split: sum.split option.split prod.split)

lemma extends_let [lower_steps]: "extends (f x) \<Longrightarrow> extends (let y = x in f y)"
  by simp

subsection \<open>Expressions\<close>

lemma extends_lower_constant [lower_steps]: "extends m \<Longrightarrow> extends (lower_constant C e t m)"
  unfolding lower_constant_def by (intro lower_steps)

lemma extends_lower_identifier [lower_steps]: "extends (lower_identifier C n name t)"
  unfolding lower_identifier_def lower_variable_def lower_memory_variable_def
  by (auto intro!: lower_steps split: option.splits go_object.splits)

lemma extends_lowerUnary [lower_steps]:
  "(\<And>t. extends (lx t)) \<Longrightarrow> extends ax \<Longrightarrow> extends (lowerUnary C n op x t lx ax)"
  unfolding lowerUnary_def by (intro lower_steps)

lemma extends_lowerBinary [lower_steps]:
  "(\<And>t. extends (lx t)) \<Longrightarrow> (\<And>t. extends (ly t)) \<Longrightarrow> extends (lowerBinary C n x op y lx ly)"
  unfolding lowerBinary_def by (intro lower_steps)

lemma extends_lowerPointerDereference [lower_steps]:
  "(\<And>t. extends (lx t)) \<Longrightarrow> extends (lowerPointerDereference C n x lx)"
  unfolding lowerPointerDereference_def by (intro lower_steps)

lemma extends_lower_element [lower_steps]:
  "(\<And>t. extends (li t)) \<Longrightarrow> extends (lower_element C n i li element len object)"
  unfolding lower_element_def Let_def by (intro lower_steps)

lemma extends_lowerArrayElementAddress [lower_steps]:
  "(\<And>t. extends (li t)) \<Longrightarrow> extends (lowerArrayElementAddress C n x i li)"
  unfolding lowerArrayElementAddress_def
  by (auto intro!: lower_steps split: expr.splits option.splits go_object.splits)

lemma extends_address_of_identifier [lower_steps]: "extends (address_of_identifier C n name)"
  unfolding address_of_identifier_def by (auto intro!: lower_steps split: option.splits go_object.splits)

lemma extends_lower_at_types [lower_steps]:
  "(\<And>e m t. (e, m) \<in> set args \<Longrightarrow> extends (m t)) \<Longrightarrow> extends (lower_at_types args ts)"
  by (induction args ts rule: lower_at_types.induct) (auto intro!: lower_steps)

lemma extends_lower_arguments [lower_steps]:
  "(\<And>e m t. (e, m) \<in> set args \<Longrightarrow> extends (m t)) \<Longrightarrow> extends (lower_arguments C index args ps)"
  by (induction C index args ps rule: lower_arguments.induct) (auto intro!: lower_steps)

lemma member_hd: "length args = 1 \<Longrightarrow> (fst (hd args), snd (hd args)) \<in> set args"
  by (cases args) simp_all

lemma member_nth: "i < length args \<Longrightarrow> (fst (args ! i), snd (args ! i)) \<in> set args"
  by simp

lemma extends_lowerCall [lower_steps]:
  assumes "\<And>e m t. (e, m) \<in> set args \<Longrightarrow> extends (m t)"
  shows "extends (lowerCall C n f args)"
proof -
  have one: "length args = 1 \<Longrightarrow> extends (snd (hd args) t)" for t
    using assms member_hd by blast
  have nth: "i < length args \<Longrightarrow> extends (snd (args ! i) t)" for i t
    using assms member_nth by blast
  have "extends (lowerMemoryIntrinsic C n args i)" for i
    unfolding lowerMemoryIntrinsic_def Let_def by (auto intro!: lower_steps one nth split: if_splits)
  moreover have "extends (lowerSyscallIntrinsic C n args i)" for i
    unfolding lowerSyscallIntrinsic_def by (intro lower_steps; erule assms)
  moreover have "extends (lowerAccountFieldIntrinsic C n args i)" for i
    unfolding lowerAccountFieldIntrinsic_def by (auto intro!: lower_steps one)
  moreover have "extends (lower_conversion C n fn t args)" for fn t
    unfolding lower_conversion_def Let_def by (auto intro!: lower_steps one split: sum.splits)
  moreover have "extends (lower_internal_call C n name callee ps rs args)" for name callee ps rs
    unfolding lower_internal_call_def by (intro lower_steps; erule assms)
  ultimately show ?thesis
    unfolding lowerCall_def Let_def by (auto intro!: lower_steps split: expr.splits option.splits go_object.splits)
qed

lemma extends_lowerExpression [lower_steps]:
  "extends (lowerExpression C e t)" "extends (lowerAddressExpression C e)"
  by (induction C e t and C e rule: lowerExpression_lowerAddressExpression.induct)
    (auto intro!: lower_steps simp: unsupported_expression_def load_element_def)


subsection \<open>Simple statements\<close>

lemma register_target_vars:
  "register_target C n name key t defining s = Inr (x, u) \<Longrightarrow> low_Variables s \<subseteq>\<^sub>m low_Variables u"
  by (auto simp: register_target_def lower_runs newValue_def Let_def map_le_def split: option.splits if_splits)

lemma extends_register_target [lower_steps]: "extends (register_target C n name key t defining)"
proof (rule extendsI, rule exI [of _ "[]"])
  fix s x u assume r: "register_target C n name key t defining s = Inr (x, u)"
  from this register_target_vars [OF r] show "emits [] s u"
    by (auto simp: register_target_def lower_runs newValue_def Let_def emits_def numbered_simps numbered_def
        nth_append less_Suc_eq split: option.splits if_splits)
qed

lemma extends_memory_target [lower_steps]: "extends (memory_target C n name key t defining)"
  unfolding memory_target_def declare_memory_def by (intro lower_steps extends_updatel) simp

lemma extends_lowerAssignmentTarget [lower_steps]: "extends (lowerAssignmentTarget C e defining)"
  unfolding lowerAssignmentTarget_def identifier_target_def Let_def address_target_def
  by (auto intro!: lower_steps split: expr.splits option.splits go_object.splits)

lemma extends_targets [lower_steps]:
  "extends (readAssignmentTarget C target)" "extends (writeAssignmentTarget C target v pos)"
  unfolding readAssignmentTarget_def writeAssignmentTarget_def by (intro lower_steps)+

lemma extends_lists [lower_steps]:
  "extends (lower_targets C es defining)" "extends (snapshot_values C ts es)" "extends (write_targets C ts vs pos)"
proof -
  show "extends (lower_targets C es defining)" by (induction es) (auto intro!: lower_steps)
  show "extends (snapshot_values C ts es)"
    by (induction C ts es rule: snapshot_values.induct) (auto intro!: lower_steps)
  show "extends (write_targets C ts vs pos)"
    by (induction C ts vs pos rule: write_targets.induct) (auto intro!: lower_steps)
qed

lemma extends_assignValues [lower_steps]: "extends (assignValues C targets es pos)"
  unfolding assignValues_def by (intro lower_steps)

lemma extends_arrays [lower_steps]:
  "extends (zeroMemoryObject C i pos)" "extends (emitConstantElementAddress C i index pos)"
  "extends (copy_objects C i j pos)"
  unfolding zeroMemoryObject_def emitConstantElementAddress_def copy_objects_def by (intro lower_steps)+

lemma extends_lower_elements [lower_steps]: "extends (lower_elements C object i items following)"
  by (induction items arbitrary: following) (auto intro!: lower_steps split: prod.splits)

lemma extends_initializeArray [lower_steps]: "extends (initializeArray C i e fresh)"
  unfolding initializeArray_def copy_array_def initialize_composite_def
  by (auto intro!: lower_steps split: expr.splits option.splits go_object.splits prod.splits)

lemma extends_lowerAssignment [lower_steps]: "extends (lowerAssignment C n lhs tok rhs)"
  unfolding lowerAssignment_def lowerCompoundAssignment_def by (intro lower_steps)

lemma extends_declarations [lower_steps]:
  "extends (zero_targets C ts pos)" "extends (initialize_arrays C n count ts es)" "extends (lower_spec C spec)"
  "extends (lower_specs C specs)"
proof -
  show z: "extends (zero_targets C ts pos)" for ts pos by (induction ts) (auto intro!: lower_steps)
  show i: "extends (initialize_arrays C n count ts es)" for n count ts es
    by (induction C n count ts es rule: initialize_arrays.induct) (auto intro!: lower_steps)
  show s: "extends (lower_spec C spec)" for spec
    unfolding lower_spec_def by (cases spec) (auto intro!: lower_steps z i)
  show "extends (lower_specs C specs)" by (induction specs) (auto intro!: lower_steps s)
qed

lemma extends_simple [lower_steps]:
  "extends (lowerDeclaration C n d)" "extends (lowerIncDec C n x tok)" "extends (lower_expression_statement C n x)"
proof -
  show "extends (lowerDeclaration C n d)"
    unfolding lowerDeclaration_def by (cases d) (auto intro!: lower_steps)
  show "extends (lowerIncDec C n x tok)" unfolding lowerIncDec_def by (intro lower_steps)
  show "extends (lower_expression_statement C n x)"
    unfolding lower_expression_statement_def by (cases x) (auto intro!: lower_steps)
qed

section \<open>Control flow\<close>

text \<open>A terminator that leads to blocks of the function, or back to the caller.\<close>

definition leads :: "nat \<Rightarrow> terminator \<Rightarrow> bool" where
  "leads count t \<longleftrightarrow>
     (case term_Kind t of
        TermInvalid \<Rightarrow> False
      | TermJump \<Rightarrow> unat (term_Target t) < count
      | TermBranch \<Rightarrow> unat (term_True t) < count \<and> unat (term_False t) < count
      | TermReturn \<Rightarrow> True)"

definition ended :: "ir_function \<Rightarrow> nat \<Rightarrow> bool" where
  "ended f i \<longleftrightarrow> leads (length (fn_Blocks f)) (block_Terminator (fn_Blocks f ! i))"

text \<open>
  A function grows into another: outside the open blocks nothing changes, an open block only gets
  more instructions.
\<close>

definition grows :: "nat set \<Rightarrow> ir_function \<Rightarrow> ir_function \<Rightarrow> bool" where
  "grows P f g \<longleftrightarrow>
     fn_Name g = fn_Name f \<and> fn_Params g = fn_Params f \<and> fn_Result g = fn_Result f \<and> fn_Entry g = fn_Entry f \<and>
     prefix (fn_Values f) (fn_Values g) \<and> prefix (fn_Memory f) (fn_Memory g) \<and>
     length (fn_Blocks f) \<le> length (fn_Blocks g) \<and>
     (\<forall>i < length (fn_Blocks f).
        if i \<in> P then prefix (block_Instructions (fn_Blocks f ! i)) (block_Instructions (fn_Blocks g ! i))
        else fn_Blocks g ! i = fn_Blocks f ! i) \<and>
     (numbered f \<longrightarrow> numbered g)"

text \<open>From an open block: the blocks still open are listed, every other new block is ended.\<close>

definition develops :: "nat \<Rightarrow> ir_function \<Rightarrow> nat set \<Rightarrow> ir_function \<Rightarrow> bool" where
  "develops c f P g \<longleftrightarrow>
     grows {c} f g \<and> c < length (fn_Blocks f) \<and>
     P \<subseteq> {i. i < length (fn_Blocks g) \<and> (i = c \<or> length (fn_Blocks f) \<le> i)} \<and>
     (\<forall>i < length (fn_Blocks g). (i = c \<or> length (fn_Blocks f) \<le> i) \<and> i \<notin> P \<longrightarrow> ended g i)"

lemma leads_mono: "leads m t \<Longrightarrow> m \<le> n \<Longrightarrow> leads n t"
  by (auto simp: leads_def split: terminator_kind.splits)

lemma grows_refl: "grows P f f"
  by (simp add: grows_def)

lemma grows_trans:
  assumes "grows P f g" and "grows Q g h" and "\<And>i. i < length (fn_Blocks f) \<Longrightarrow> i \<in> P \<or> i \<in> Q \<Longrightarrow> i \<in> R"
  shows "grows R f h"
proof -
  have "if i \<in> R then prefix (block_Instructions (fn_Blocks f ! i)) (block_Instructions (fn_Blocks h ! i))
      else fn_Blocks h ! i = fn_Blocks f ! i" if i: "i < length (fn_Blocks f)" for i
  proof -
    have gi: "i < length (fn_Blocks g)" using assms(1) i by (auto simp: grows_def)
    have "if i \<in> P then prefix (block_Instructions (fn_Blocks f ! i)) (block_Instructions (fn_Blocks g ! i))
        else fn_Blocks g ! i = fn_Blocks f ! i" using assms(1) i unfolding grows_def by blast
    moreover have "if i \<in> Q then prefix (block_Instructions (fn_Blocks g ! i)) (block_Instructions (fn_Blocks h ! i))
        else fn_Blocks h ! i = fn_Blocks g ! i" using assms(2) gi unfolding grows_def by blast
    ultimately show ?thesis
      using assms(3) [OF i] by (auto split: if_splits intro: prefix_order.trans)
  qed
  then show ?thesis
    using assms(1,2) unfolding grows_def by (auto intro: prefix_order.trans)
qed

lemma develops_refl: "c < length (fn_Blocks f) \<Longrightarrow> develops c f {c} f"
  by (auto simp: develops_def grows_refl)

lemma develops_bound: "develops c f P g \<Longrightarrow> p \<in> P \<Longrightarrow> p < length (fn_Blocks g)"
  by (auto simp: develops_def)

lemma develops_inside:
  assumes d: "develops c f P g" and p: "p \<in> P" and e: "develops p g Q h"
  shows "develops c f (P - {p} \<union> Q) h"
proof -
  have g: "grows {c} f h"
    by (rule grows_trans [of "{c}" f g "{p}"]) (use d e p in \<open>auto simp: develops_def\<close>)
  have len: "length (fn_Blocks f) \<le> length (fn_Blocks g)" "length (fn_Blocks g) \<le> length (fn_Blocks h)"
    using d e by (auto simp: develops_def grows_def)
  have same: "fn_Blocks h ! i = fn_Blocks g ! i" if "i < length (fn_Blocks g)" "i \<noteq> p" for i
    using e that unfolding develops_def grows_def by auto
  have "ended h i" if i: "i < length (fn_Blocks h)" "i = c \<or> length (fn_Blocks f) \<le> i" "i \<notin> P - {p} \<union> Q" for i
  proof (cases "i = p \<or> length (fn_Blocks g) \<le> i")
    case True
    then show ?thesis using e i by (auto simp: develops_def)
  next
    case False
    then have "ended g i" using d i by (auto simp: develops_def)
    then show ?thesis using same [of i] False len by (auto simp: ended_def intro: leads_mono)
  qed
  moreover have "P - {p} \<union> Q \<subseteq> {i. i < length (fn_Blocks h) \<and> (i = c \<or> length (fn_Blocks f) \<le> i)}"
    using d e p len unfolding develops_def by fastforce
  ultimately show ?thesis using g d by (simp add: develops_def)
qed

lemma develops_emits:
  assumes "develops c f P (low_Function s)" and "emits code s t" and "low_Current s = Some p" and "p \<in> P"
  shows "develops c f P (low_Function t)"
proof -
  have "p < length (fn_Blocks (low_Function s))" using develops_bound assms by blast
  then have "develops p (low_Function s) {p} (low_Function t)"
    using assms(2,3) by (auto simp: develops_def grows_def emits_def with_code_nth)
  from develops_inside [OF assms(1) assms(4) this] show ?thesis
    using assms(4) by (simp add: insert_absorb)
qed

lemma develops_newBlock:
  assumes d: "develops c f P (low_Function s)" and n: "newBlock name s = Inr (i, t)"
  shows "i = length (fn_Blocks (low_Function s))"
    and "length (fn_Blocks (low_Function t)) = Suc i"
    and "low_Current t = low_Current s" and "low_Variables t = low_Variables s"
    and "develops c f (insert i P) (low_Function t)" and "i \<notin> P"
proof -
  show i: "i = length (fn_Blocks (low_Function s))" "length (fn_Blocks (low_Function t)) = Suc i"
    "low_Current t = low_Current s" "low_Variables t = low_Variables s"
    using n by (auto simp: newBlock_def Let_def)
  have t: "fn_Blocks (low_Function t) ! j = fn_Blocks (low_Function s) ! j" if "j < i" for j
    using n that by (auto simp: newBlock_def Let_def nth_append)
  have "grows {} (low_Function s) (low_Function t)"
    using n by (auto simp: newBlock_def Let_def grows_def numbered_simps numbered_def nth_append less_Suc_eq)
  then have "grows {c} f (low_Function t)"
    using d by (auto simp: develops_def intro: grows_trans)
  moreover have "ended (low_Function t) j"
    if "j < Suc i" "j = c \<or> length (fn_Blocks f) \<le> j" "j \<notin> insert i P" for j
  proof -
    have "ended (low_Function s) j" "j < i" using d that i by (auto simp: develops_def)
    then show ?thesis using t i by (auto simp: ended_def intro: leads_mono)
  qed
  ultimately show "develops c f (insert i P) (low_Function t)"
    using d i unfolding develops_def grows_def by auto
  show "i \<notin> P" using d i by (auto simp: develops_def)
qed

lemma develops_terminate:
  assumes d: "develops c f P (low_Function s)" and t: "terminate_block block term s = Inr (x, t)"
    and p: "\<And>b. block = Some b \<Longrightarrow> b \<in> P" and l: "leads (length (fn_Blocks (low_Function s))) term"
  shows "\<exists>b. block = Some b \<and> b < length (fn_Blocks (low_Function s)) \<and>
      develops c f (P - {b}) (low_Function t) \<and>
      fn_Blocks (low_Function t) = (fn_Blocks (low_Function s))
        [b := (fn_Blocks (low_Function s) ! b)\<lparr>block_Terminator := term\<rparr>]"
    and "low_Current t = low_Current s" and "low_Variables t = low_Variables s"
    and "length (fn_Blocks (low_Function t)) = length (fn_Blocks (low_Function s))"
proof -
  obtain b where b: "block = Some b" using t by (cases block) (auto simp: terminate_block_def)
  have lt: "b < length (fn_Blocks (low_Function s))" using develops_bound [OF d] p b by blast
  have blocks: "fn_Blocks (low_Function t) = (fn_Blocks (low_Function s))
      [b := (fn_Blocks (low_Function s) ! b)\<lparr>block_Terminator := term\<rparr>]"
    using t b by (auto simp: terminate_block_def Let_def)
  have "develops b (low_Function s) {} (low_Function t)"
    using t b lt l
    by (auto simp: terminate_block_def Let_def develops_def grows_def ended_def nth_list_update numbered_simps
        numbered_def)
  from develops_inside [OF d p [OF b] this] b lt blocks
  show "\<exists>b. block = Some b \<and> b < length (fn_Blocks (low_Function s)) \<and>
      develops c f (P - {b}) (low_Function t) \<and>
      fn_Blocks (low_Function t) = (fn_Blocks (low_Function s))
        [b := (fn_Blocks (low_Function s) ! b)\<lparr>block_Terminator := term\<rparr>]" by simp
  show "low_Current t = low_Current s" "low_Variables t = low_Variables s"
    using t b by (auto simp: terminate_block_def Let_def)
  show "length (fn_Blocks (low_Function t)) = length (fn_Blocks (low_Function s))" using blocks by simp
qed

lemma unat_blockID: "unat (blockID i) \<le> i"
  by (simp add: blockID_def unat_of_nat)

lemma leads_built:
  "j < count \<Longrightarrow> leads count (jump_to C j pos)"
  "j < count \<Longrightarrow> k < count \<Longrightarrow> leads count (branch_to C cond j k pos)"
  "leads count (return_with C r pos)"
  using unat_blockID [of j] unat_blockID [of k]
  by (auto simp: leads_def jump_to_def branch_to_def return_with_def zero_terminator_def)

end
