(* ===== verification/LowerFlow.thy ===== *)
theory LowerFlow
  imports LowerFacts
begin

text \<open>
  The control flow the lowering builds: a statement that starts in an open block leaves at most one
  block open, the current one, and ends every other block it made.  From this the shape of every
  function the frontend lowers.
\<close>

section \<open>Statements\<close>

definition flow :: "nat \<Rightarrow> lower_state \<Rightarrow> lower_state \<Rightarrow> bool" where
  "flow c s t \<longleftrightarrow> low_Current s = Some c \<and> low_Variables s \<subseteq>\<^sub>m low_Variables t \<and>
     develops c (low_Function s) (set_option (low_Current t)) (low_Function t)"

definition flows :: "unit lowering \<Rightarrow> bool" where
  "flows m \<longleftrightarrow> (\<forall>s u t c. m s = Inr (u, t) \<longrightarrow> low_Current s = Some c \<longrightarrow>
     c < length (fn_Blocks (low_Function s)) \<longrightarrow> flow c s t)"

lemma flowsD:
  "flows m \<Longrightarrow> m s = Inr (u, t) \<Longrightarrow> low_Current s = Some c \<Longrightarrow>
     c < length (fn_Blocks (low_Function s)) \<Longrightarrow> flow c s t"
  by (auto simp: flows_def)

lemma flow_refl:
  "low_Current s = Some c \<Longrightarrow> c < length (fn_Blocks (low_Function s)) \<Longrightarrow> flow c s s"
  by (simp add: flow_def develops_refl)

lemma flow_open: "flow c s t \<Longrightarrow> low_Current t = Some d \<Longrightarrow> d < length (fn_Blocks (low_Function t))"
  by (auto simp: flow_def dest: develops_bound)

lemma flow_place:
  "flow c s t \<Longrightarrow> low_Current t = Some d \<Longrightarrow> d = c \<or> length (fn_Blocks (low_Function s)) \<le> d"
  by (auto simp: flow_def develops_def)

lemma flow_trans:
  assumes "flow c s t" and "low_Current t = Some d" and "flow d t u"
  shows "flow c s u"
  using assms develops_inside [of c "low_Function s" "{d}" "low_Function t" d "set_option (low_Current u)"]
  by (auto simp: flow_def intro: map_le_trans)

lemma emits_flow:
  assumes "emits code s t" and "low_Current s = Some c" and "c < length (fn_Blocks (low_Function s))"
  shows "flow c s t"
proof -
  have "develops c (low_Function s) {c} (low_Function t)"
    by (rule develops_emits [OF develops_refl [OF assms(3)] assms(1,2)]) simp
  then show ?thesis using assms by (simp add: flow_def emits_def)
qed

lemma extends_flows: "extends m \<Longrightarrow> flows m"
  by (auto simp: flows_def dest!: extendsD intro: emits_flow)

lemma flows_returnl: "flows (returnl ())"
  by (rule extends_flows, rule extends_pure)

text \<open>Starting another open block changes nothing.\<close>

abbreviation at_block :: "nat option \<Rightarrow> lower_state \<Rightarrow> lower_state" where
  "at_block b s \<equiv> s\<lparr>low_Current := b\<rparr>"

lemma terminate_None: "terminate_block None t s = Inr r \<longleftrightarrow> False"
  by (simp add: terminate_block_def)

definition optional :: "unit lowering option \<Rightarrow> unit lowering" where
  "optional m = (case m of None \<Rightarrow> returnl () | Some m \<Rightarrow> m)"

lemma flows_optional: "(\<And>k. m = Some k \<Longrightarrow> flows k) \<Longrightarrow> flows (optional m)"
  by (cases m) (simp_all add: optional_def flows_returnl)

lemma flows_return: "flows (lowerReturn C n results)"
  unfolding flows_def
proof (intro allI impI)
  fix s u t c
  assume r: "lowerReturn C n results s = Inr (u, t)" and cur: "low_Current s = Some c"
    and c: "c < length (fn_Blocks (low_Function s))"
  obtain s1 result where s1:
    "flow c s s1" "low_Current s1 = Some c"
    "thenl (terminate_block (Some c) (return_with C result (node_Pos n))) (set_current None) s1 = Inr (u, t)"
  proof (cases "fn_Result (low_Function s) = TypeVoid")
    case True
    then have "thenl (terminate_block (Some c) (return_with C NoValue (node_Pos n))) (set_current None) s = Inr (u, t)"
      using r cur by (auto simp: lowerReturn_def lower_runs split: if_splits)
    then show ?thesis using that [of s NoValue] flow_refl cur c by blast
  next
    case False
    then obtain v s1 where e: "lowerExpression C (hd results) (fn_Result (low_Function s)) s = Inr (v, s1)"
      and rest: "thenl (terminate_block (low_Current s1) (return_with C v (node_Pos n))) (set_current None) s1 = Inr (u, t)"
      using r by (auto simp: lowerReturn_def lower_runs split: if_splits)
    obtain code where em: "emits code s s1" using extendsD [OF extends_lowerExpression(1) e] by blast
    then have "low_Current s1 = Some c" using cur by (simp add: emits_def)
    moreover have "flow c s s1" using emits_flow em cur c by blast
    ultimately show ?thesis using that [of s1 v] rest by simp
  qed
  obtain s2 where s2: "terminate_block (Some c) (return_with C result (node_Pos n)) s1 = Inr ((), s2)"
    "t = at_block None s2"
    using s1(3) by (auto simp: lower_runs set_current_def)
  have d: "develops c (low_Function s) {c} (low_Function s1)" using s1(1,2) by (simp add: flow_def)
  from develops_terminate [OF d s2(1) _ leads_built(3)] s1(1) s2(2) cur
  show "flow c s t" by (auto simp: flow_def)
qed


section \<open>If\<close>

text \<open>The states a lowering of an if statement goes through; \<open>join_steps\<close> closes the branches.\<close>

definition join_steps :: "lower_context \<Rightarrow> node \<Rightarrow> nat option \<Rightarrow> nat option \<Rightarrow> unit lowering" where
  "join_steps C n thenEnd elseEnd =
     (if thenEnd = None \<and> elseEnd = None then set_current None
      else
        bindl (newBlock ''if.join'') (\<lambda>join.
        thenl (if thenEnd \<noteq> None then terminate_block thenEnd (jump_to C join (node_End n)) else returnl ())
        (thenl (if elseEnd \<noteq> None then terminate_block elseEnd (jump_to C join (node_End n)) else returnl ())
          (set_current (Some join)))))"

lemma lowerIfE:
  assumes "lowerIf C n init cond body els s = Inr (u, t)"
  obtains s1 v s2 T s3 E s4 s5 s7 s9 u1 u5 u7 u9 where
    "optional init s = Inr (u1, s1)" "lowerExpression C cond TypeBool s1 = Inr (v, s2)"
    "newBlock ''if.then'' s2 = Inr (T, s3)" "newBlock ''if.else'' s3 = Inr (E, s4)"
    "terminate_block (low_Current s2) (branch_to C v T E (node_Pos n)) s4 = Inr (u5, s5)"
    "body (at_block (Some T) s5) = Inr (u7, s7)"
    "optional els (at_block (Some E) s7) = Inr (u9, s9)"
    "join_steps C n (low_Current s7) (low_Current s9) s9 = Inr (u, t)"
  using assms unfolding lowerIf_def optional_def [symmetric] join_steps_def [symmetric]
  unfolding lower_runs set_current_def by auto

lemma join_develops:
  assumes d: "develops c f P (low_Function s)" and P: "P = set_option a \<union> set_option b"
    and ab: "\<And>i. a = Some i \<Longrightarrow> b \<noteq> Some i" and j: "join_steps C n a b s = Inr (u, t)"
  shows "develops c f (set_option (low_Current t)) (low_Function t)" and "low_Variables t = low_Variables s"
proof -
  have "develops c f (set_option (low_Current t)) (low_Function t) \<and> low_Variables t = low_Variables s"
  proof (cases "a = None \<and> b = None")
    case True
    then show ?thesis using j d P by (auto simp: join_steps_def lower_runs set_current_def)
  next
    case False
    let ?jump = "\<lambda>J. jump_to C J (node_End n)"
    obtain J s1 s2 s3 x y where n: "newBlock ''if.join'' s = Inr (J, s1)"
      and x: "(if a \<noteq> None then terminate_block a (?jump J) else returnl ()) s1 = Inr (x, s2)"
      and y: "(if b \<noteq> None then terminate_block b (?jump J) else returnl ()) s2 = Inr (y, s3)"
      and t: "t = at_block (Some J) s3"
      using j unfolding join_steps_def if_not_P [OF False] lower_runs set_current_def by blast
    note b1 = develops_newBlock [OF d n]
    have J: "J < length (fn_Blocks (low_Function s1))" using b1(2) by simp
    have a2: "develops c f (insert J (set_option b)) (low_Function s2) \<and> low_Variables s2 = low_Variables s \<and>
        length (fn_Blocks (low_Function s2)) = length (fn_Blocks (low_Function s1))"
    proof (cases a)
      case None
      then show ?thesis using x b1 P by (simp add: lower_runs)
    next
      case (Some i)
      then have "terminate_block (Some i) (?jump J) s1 = Inr (x, s2)" using x by simp
      note tr = develops_terminate [OF b1(5) this _ leads_built(1) [OF J]]
      have "insert J P - {i} = insert J (set_option b)" using Some ab [OF Some] P b1(6) by auto
      then show ?thesis using tr Some P b1(4) by auto
    qed
    have "develops c f {J} (low_Function s3) \<and> low_Variables s3 = low_Variables s"
    proof (cases b)
      case None
      then show ?thesis using y a2 by (simp add: lower_runs)
    next
      case (Some i)
      then have "terminate_block (Some i) (?jump J) s2 = Inr (y, s3)" using y by simp
      moreover have "develops c f (insert J {i}) (low_Function s2)" using a2 Some by simp
      moreover have "J < length (fn_Blocks (low_Function s2))" using a2 J by simp
      ultimately have tr: "develops c f (insert J {i} - {i}) (low_Function s3)" "low_Variables s3 = low_Variables s2"
        using develops_terminate(1) [of c f "insert J {i}" s2 "Some i" "?jump J" y s3]
          develops_terminate(3) [of c f "insert J {i}" s2 "Some i" "?jump J" y s3] leads_built(1) by auto
      have "insert J {i} - {i} = {J}" using b1(6) Some P by auto
      then show ?thesis using tr a2 by simp
    qed
    then show ?thesis by (simp add: t)
  qed
  then show "develops c f (set_option (low_Current t)) (low_Function t)" "low_Variables t = low_Variables s"
    by simp_all
qed

text \<open>An expression after an optional statement, then the terminator of the current block.\<close>

lemma condition_flow:
  assumes s1: "optional init s = Inr (u1, s1)" and fi: "flows (optional init)"
    and cur: "low_Current s = Some c" "c < length (fn_Blocks (low_Function s))"
    and e: "lowerExpression C cond TypeBool s1 = Inr (v, s2)" and open_block: "low_Current s2 \<noteq> None"
  obtains d code where "flow c s s1" "low_Current s1 = Some d" "emits code s1 s2" "low_Current s2 = Some d"
    "flow c s s2"
proof -
  have f1: "flow c s s1" by (rule flowsD [OF fi s1 cur])
  obtain code where em: "emits code s1 s2" using extendsD [OF extends_lowerExpression(1) e] by blast
  obtain d where d: "low_Current s2 = Some d" using open_block by auto
  then have d1: "low_Current s1 = Some d" using em by (simp add: emits_def)
  have "flow d s1 s2" by (rule emits_flow [OF em d1 flow_open [OF f1 d1]])
  then have "flow c s s2" by (rule flow_trans [OF f1 d1])
  with f1 d1 em d show ?thesis by (rule that)
qed

lemma flows_lowerIf:
  assumes fi: "flows (optional init)" and fb: "flows body" and fe: "flows (optional els)"
  shows "flows (lowerIf C n init cond body els)"
  unfolding flows_def
proof (intro allI impI)
  fix s u t c
  assume r: "lowerIf C n init cond body els s = Inr (u, t)"
    and cur: "low_Current s = Some c" "c < length (fn_Blocks (low_Function s))"
  from r show "flow c s t"
  proof (rule lowerIfE)
    fix s1 v s2 T s3 E s4 s5 s7 s9 u1 u5 u7 u9
    assume s1: "optional init s = Inr (u1, s1)" and e: "lowerExpression C cond TypeBool s1 = Inr (v, s2)"
      and s3: "newBlock ''if.then'' s2 = Inr (T, s3)" and s4: "newBlock ''if.else'' s3 = Inr (E, s4)"
      and s5: "terminate_block (low_Current s2) (branch_to C v T E (node_Pos n)) s4 = Inr (u5, s5)"
      and s7: "body (at_block (Some T) s5) = Inr (u7, s7)"
      and s9: "optional els (at_block (Some E) s7) = Inr (u9, s9)"
      and t: "join_steps C n (low_Current s7) (low_Current s9) s9 = Inr (u, t)"
    have "low_Current s2 \<noteq> None" using s5 terminate_None by metis
    from condition_flow [OF s1 fi cur e this] obtain d where d: "low_Current s2 = Some d" "flow c s s2" by metis
    have d2: "develops c (low_Function s) {d} (low_Function s2)" using d by (simp add: flow_def)
    note b3 = develops_newBlock [OF d2 s3]
    note b4 = develops_newBlock [OF b3(5) s4]
    have TE: "T < length (fn_Blocks (low_Function s4))" "E < length (fn_Blocks (low_Function s4))" "T \<noteq> E"
      using b3(2) b4(1,2) by auto
    have T: "T < length (fn_Blocks (low_Function s5))" "E < length (fn_Blocks (low_Function s5))"
      and v5: "low_Variables s5 = low_Variables s4" and d5: "develops c (low_Function s) {T, E} (low_Function s5)"
    proof -
      note tr = develops_terminate [OF b4(5) s5 _ leads_built(2) [OF TE(1,2)]]
      have "insert E (insert T {d}) - {d} = {T, E}" using b3(6) b4(6) by auto
      then show "develops c (low_Function s) {T, E} (low_Function s5)" "T < length (fn_Blocks (low_Function s5))"
        "E < length (fn_Blocks (low_Function s5))" "low_Variables s5 = low_Variables s4"
        using tr d(1) TE by auto
    qed
    have f7: "flow T (at_block (Some T) s5) s7" by (rule flowsD [OF fb s7]) (use T in simp_all)
    then have d7: "develops c (low_Function s) ({T, E} - {T} \<union> set_option (low_Current s7)) (low_Function s7)"
      using develops_inside [OF d5, of T] by (simp add: flow_def)
    have E7: "E \<notin> set_option (low_Current s7)" using flow_place [OF f7] TE T by fastforce
    then have P7: "{T, E} - {T} \<union> set_option (low_Current s7) = insert E (set_option (low_Current s7))"
      using TE by auto
    have "E < length (fn_Blocks (low_Function s7))" using develops_bound [OF d7] TE(3) by simp
    then have f9: "flow E (at_block (Some E) s7) s9" by (intro flowsD [OF fe s9]) simp_all
    then have "develops c (low_Function s)
        (insert E (set_option (low_Current s7)) - {E} \<union> set_option (low_Current s9)) (low_Function s9)"
      using develops_inside [OF d7, of E] P7 TE(3) by (simp add: flow_def)
    moreover have "insert E (set_option (low_Current s7)) - {E} \<union> set_option (low_Current s9) =
        set_option (low_Current s7) \<union> set_option (low_Current s9)" using E7 by auto
    ultimately have d9: "develops c (low_Function s)
        (set_option (low_Current s7) \<union> set_option (low_Current s9)) (low_Function s9)" by simp
    have apart: "low_Current s9 \<noteq> Some i" if i: "low_Current s7 = Some i" for i
    proof
      assume "low_Current s9 = Some i"
      then have "i = E \<or> length (fn_Blocks (low_Function s7)) \<le> i" using flow_place [OF f9] by simp
      moreover have "i < length (fn_Blocks (low_Function s7))" using flow_open [OF f7 i] .
      ultimately show False using i E7 by auto
    qed
    have v: "low_Variables s \<subseteq>\<^sub>m low_Variables s9"
    proof -
      have "low_Variables s \<subseteq>\<^sub>m low_Variables s5" using d(2) v5 b3(4) b4(4) by (simp add: flow_def)
      moreover have "low_Variables s5 \<subseteq>\<^sub>m low_Variables s7" using f7 by (simp add: flow_def)
      moreover have "low_Variables s7 \<subseteq>\<^sub>m low_Variables s9" using f9 by (simp add: flow_def)
      ultimately show ?thesis by (meson map_le_trans)
    qed
    from join_develops [OF d9 refl apart t] v cur show "flow c s t" by (simp add: flow_def)
  qed
qed


section \<open>For\<close>

text \<open>The end of a loop body: the optional post statement in a block of its own, then the jump back.\<close>

definition loop_end ::
  "lower_context \<Rightarrow> node \<Rightarrow> nat \<Rightarrow> (token_pos \<times> unit lowering) option \<Rightarrow> nat option \<Rightarrow> unit lowering" where
  "loop_end C n conditionBlock post bodyEnd =
     (if bodyEnd = None then returnl ()
      else
        thenl (lower_for_post C post)
        (bindl (readl low_Current) (\<lambda>end_block.
           if end_block = None then returnl ()
           else terminate_block end_block (jump_to C conditionBlock (node_End n)))))"

lemma lowerForE:
  assumes "lowerFor C n init cond post body s = Inr (u, t)"
  obtains s1 c1 K s2 B s3 s4 X s5 s7 s8 u1 u4 u7 u8 where
    "optional init s = Inr (u1, s1)" "low_Current s1 = Some c1"
    "newBlock ''for.cond'' s1 = Inr (K, s2)" "newBlock ''for.body'' s2 = Inr (B, s3)"
    "terminate_block (Some c1) (jump_to C K (node_Pos n)) s3 = Inr (u4, s4)"
    "lower_for_condition C n cond K B (at_block (Some K) s4) = Inr (X, s5)"
    "body (at_block (Some B) s5) = Inr (u7, s7)"
    "loop_end C n K post (low_Current s7) s7 = Inr (u8, s8)"
    "t = at_block X s8"
proof -
  from assms obtain s1 K s2 B s3 s4 X s5 s7 s8 where r:
    "optional init s = Inr ((), s1)" "newBlock ''for.cond'' s1 = Inr (K, s2)"
    "newBlock ''for.body'' s2 = Inr (B, s3)"
    "terminate_block (low_Current s1) (jump_to C K (node_Pos n)) s3 = Inr ((), s4)"
    "lower_for_condition C n cond K B (at_block (Some K) s4) = Inr (X, s5)"
    "body (at_block (Some B) s5) = Inr ((), s7)"
    "loop_end C n K post (low_Current s7) s7 = Inr ((), s8)" "t = at_block X s8"
    unfolding lowerFor_def optional_def [symmetric] loop_end_def [symmetric]
    unfolding lower_runs set_current_def by auto
  moreover obtain c1 where "low_Current s1 = Some c1" using r(4) terminate_None by fastforce
  ultimately show thesis using that by metis
qed

lemma post_steps:
  assumes d: "develops c f (insert b R) (low_Function s)" and b: "low_Current s = Some b" "b \<notin> R"
    and p: "lower_for_post C post s = Inr (u, t)" and fp: "\<forall>pos m. post = Some (pos, m) \<longrightarrow> flows m"
  shows "develops c f (set_option (low_Current t) \<union> R) (low_Function t)" and "low_Variables s \<subseteq>\<^sub>m low_Variables t"
    and "\<And>e. low_Current t = Some e \<Longrightarrow> e \<notin> R"
proof -
  have "develops c f (set_option (low_Current t) \<union> R) (low_Function t) \<and> low_Variables s \<subseteq>\<^sub>m low_Variables t \<and>
      (\<forall>e. low_Current t = Some e \<longrightarrow> e \<notin> R)"
  proof (cases post)
    case None
    then show ?thesis using p d b by (auto simp: lower_for_post_def lower_runs)
  next
    case (Some q)
    obtain pos m where q: "post = Some (pos, m)" using Some by (cases q) simp
    obtain P s1 s2 x where n: "newBlock ''for.post'' s = Inr (P, s1)"
      and x: "terminate_block (low_Current s1) (jump_to C P pos) s1 = Inr (x, s2)"
      and m: "m (at_block (Some P) s2) = Inr (u, t)"
      using p unfolding lower_for_post_def q option.case prod.case lower_runs set_current_def by blast
    note b1 = develops_newBlock [OF d n]
    have P: "P < length (fn_Blocks (low_Function s1))" using b1(2) by simp
    note tr = develops_terminate [OF b1(5) x _ leads_built(1) [OF P]]
    have "insert P (insert b R) - {b} = insert P R" using b1(6) b(2) by auto
    then have d2: "develops c f (insert P R) (low_Function s2)"
      and P2: "P < length (fn_Blocks (low_Function s2))" and v2: "low_Variables s2 = low_Variables s"
      using tr b1(3,4) b P by auto
    have ft: "flow P (at_block (Some P) s2) t" by (rule flowsD [OF fp [rule_format, OF q] m]) (use P2 in simp_all)
    then have "develops c f (insert P R - {P} \<union> set_option (low_Current t)) (low_Function t)"
      using develops_inside [OF d2, of P] by (simp add: flow_def)
    moreover have "insert P R - {P} \<union> set_option (low_Current t) = set_option (low_Current t) \<union> R"
      using b1(6) by auto
    moreover have "e \<notin> R" if "low_Current t = Some e" for e
    proof
      assume "e \<in> R"
      then have "e < length (fn_Blocks (low_Function s2))" using develops_bound [OF d2] by simp
      moreover have "e = P \<or> length (fn_Blocks (low_Function s2)) \<le> e" using flow_place [OF ft that] by simp
      ultimately show False using \<open>e \<in> R\<close> b1(6) by auto
    qed
    ultimately show ?thesis using ft v2 by (simp add: flow_def)
  qed
  then show "develops c f (set_option (low_Current t) \<union> R) (low_Function t)" "low_Variables s \<subseteq>\<^sub>m low_Variables t"
    "\<And>e. low_Current t = Some e \<Longrightarrow> e \<notin> R" by blast+
qed

lemma loop_end_develops:
  assumes d: "develops c f (set_option (low_Current s) \<union> R) (low_Function s)"
    and b: "\<And>e. low_Current s = Some e \<Longrightarrow> e \<notin> R" and K: "K < length (fn_Blocks (low_Function s))"
    and r: "loop_end C n K post (low_Current s) s = Inr (u, t)" and fp: "\<forall>pos m. post = Some (pos, m) \<longrightarrow> flows m"
  shows "develops c f R (low_Function t)" and "low_Variables s \<subseteq>\<^sub>m low_Variables t"
proof -
  have "develops c f R (low_Function t) \<and> low_Variables s \<subseteq>\<^sub>m low_Variables t"
  proof (cases "low_Current s")
    case None
    then show ?thesis using d r by (simp add: loop_end_def lower_runs)
  next
    case (Some e)
    obtain s1 x where p: "lower_for_post C post s = Inr (x, s1)"
      and x: "(if low_Current s1 = None then returnl ()
        else terminate_block (low_Current s1) (jump_to C K (node_End n))) s1 = Inr (u, t)"
      using r Some by (auto simp: loop_end_def lower_runs)
    have d': "develops c f (insert e R) (low_Function s)" using d Some by simp
    note ps = post_steps [OF d' Some b [OF Some] p fp]
    have K1: "K < length (fn_Blocks (low_Function s1))"
    proof (cases post)
      case None
      then show ?thesis using p K by (simp add: lower_for_post_def lower_runs)
    next
      case (Some q)
      obtain pos m where q: "post = Some (pos, m)" using Some by (cases q) simp
      obtain P s2 s3 y where n: "newBlock ''for.post'' s = Inr (P, s2)"
        and y: "terminate_block (low_Current s2) (jump_to C P pos) s2 = Inr (y, s3)"
        and m: "m (at_block (Some P) s3) = Inr (x, s1)"
        using p unfolding lower_for_post_def q option.case prod.case lower_runs set_current_def by blast
      have "length (fn_Blocks (low_Function s3)) = Suc (length (fn_Blocks (low_Function s)))"
        "P = length (fn_Blocks (low_Function s))"
        using n y by (auto simp: newBlock_def Let_def terminate_block_def split: option.splits)
      then show ?thesis
        using flowsD [OF fp [rule_format, OF q] m] K by (auto simp: flow_def develops_def grows_def)
    qed
    show ?thesis
    proof (cases "low_Current s1")
      case None
      then show ?thesis using x ps by (simp add: lower_runs)
    next
      case (Some e1)
      then have tb: "terminate_block (Some e1) (jump_to C K (node_End n)) s1 = Inr (u, t)" using x by simp
      have "develops c f (insert e1 R) (low_Function s1)" using ps(1) Some by simp
      note tr = develops_terminate [OF this tb _ leads_built(1) [OF K1]]
      have "insert e1 R - {e1} = R" using ps(3) [OF Some] by simp
      then show ?thesis using tr ps(2) by auto
    qed
  qed
  then show "develops c f R (low_Function t)" "low_Variables s \<subseteq>\<^sub>m low_Variables t" by simp_all
qed

lemma for_condition_develops:
  assumes d: "develops c f {K, B} (low_Function s)" and K: "low_Current s = Some K" "K \<noteq> B"
    and r: "lower_for_condition C n cond K B s = Inr (X, t)"
  shows "develops c f (insert B (set_option X)) (low_Function t)" and "low_Variables s \<subseteq>\<^sub>m low_Variables t"
    and "\<And>x. X = Some x \<Longrightarrow> length (fn_Blocks (low_Function s)) \<le> x"
    and "length (fn_Blocks (low_Function s)) \<le> length (fn_Blocks (low_Function t))"
proof -
  have B: "B < length (fn_Blocks (low_Function s))" using develops_bound [OF d] by simp
  have "develops c f (insert B (set_option X)) (low_Function t) \<and> low_Variables s \<subseteq>\<^sub>m low_Variables t \<and>
      (\<forall>x. X = Some x \<longrightarrow> length (fn_Blocks (low_Function s)) \<le> x) \<and>
      length (fn_Blocks (low_Function s)) \<le> length (fn_Blocks (low_Function t))"
  proof (cases cond)
    case None
    then obtain x where x: "terminate_block (Some K) (jump_to C B (node_Pos n)) s = Inr (x, t)" and X: "X = None"
      using r by (auto simp: lower_for_condition_def lower_runs)
    note tr = develops_terminate [OF d x _ leads_built(1) [OF B]]
    have "{K, B} - {K} = {B}" using K by auto
    then show ?thesis using tr X by auto
  next
    case (Some e)
    obtain v s1 E s2 x where e: "lowerExpression C e TypeBool s = Inr (v, s1)"
      and n: "newBlock ''for.exit'' s1 = Inr (E, s2)"
      and x: "terminate_block (Some K) (branch_to C v B E (node_Pos (expr_node e))) s2 = Inr (x, t)"
      and X: "X = Some E"
      using r Some by (auto simp: lower_for_condition_def lower_runs)
    obtain code where em: "emits code s s1" using extendsD [OF extends_lowerExpression(1) e] by blast
    have d1: "develops c f {K, B} (low_Function s1)" by (rule develops_emits [OF d em K(1)]) simp
    have len: "length (fn_Blocks (low_Function s1)) = length (fn_Blocks (low_Function s))"
      using em by (simp add: emits_def)
    note b1 = develops_newBlock [OF d1 n]
    have l: "B < length (fn_Blocks (low_Function s2))" "E < length (fn_Blocks (low_Function s2))"
      using B len b1(1,2) by simp_all
    note tr = develops_terminate [OF b1(5) x _ leads_built(2) [OF l]]
    have "insert E {K, B} - {K} = {B, E}" using K b1(6) by auto
    moreover have "low_Variables s \<subseteq>\<^sub>m low_Variables s1" using em by (simp add: emits_def)
    ultimately show ?thesis using tr X b1(1,2,4) len by auto
  qed
  then show "develops c f (insert B (set_option X)) (low_Function t)" "low_Variables s \<subseteq>\<^sub>m low_Variables t"
    "\<And>x. X = Some x \<Longrightarrow> length (fn_Blocks (low_Function s)) \<le> x"
    "length (fn_Blocks (low_Function s)) \<le> length (fn_Blocks (low_Function t))" by blast+
qed

lemma flows_lowerFor:
  assumes fi: "flows (optional init)" and fb: "flows body" and fp: "\<forall>pos m. post = Some (pos, m) \<longrightarrow> flows m"
  shows "flows (lowerFor C n init cond post body)"
  unfolding flows_def
proof (intro allI impI)
  fix s u t c
  assume r: "lowerFor C n init cond post body s = Inr (u, t)"
    and cur: "low_Current s = Some c" "c < length (fn_Blocks (low_Function s))"
  from r show "flow c s t"
  proof (rule lowerForE)
    fix s1 c1 K s2 B s3 s4 X s5 s7 s8 u1 u4 u7 u8
    assume s1: "optional init s = Inr (u1, s1)" and c1: "low_Current s1 = Some c1"
      and s2: "newBlock ''for.cond'' s1 = Inr (K, s2)" and s3: "newBlock ''for.body'' s2 = Inr (B, s3)"
      and s4: "terminate_block (Some c1) (jump_to C K (node_Pos n)) s3 = Inr (u4, s4)"
      and s5: "lower_for_condition C n cond K B (at_block (Some K) s4) = Inr (X, s5)"
      and s7: "body (at_block (Some B) s5) = Inr (u7, s7)"
      and s8: "loop_end C n K post (low_Current s7) s7 = Inr (u8, s8)" and t: "t = at_block X s8"
    have f1: "flow c s s1" by (rule flowsD [OF fi s1 cur])
    then have d1: "develops c (low_Function s) {c1} (low_Function s1)" using c1 by (simp add: flow_def)
    note b2 = develops_newBlock [OF d1 s2]
    note b3 = develops_newBlock [OF b2(5) s3]
    have KB: "K < length (fn_Blocks (low_Function s3))" "K < B" "B < length (fn_Blocks (low_Function s3))"
      using b2(2) b3(1,2) by simp_all
    note tr = develops_terminate [OF b3(5) s4 _ leads_built(1) [OF KB(1)]]
    have "insert B (insert K {c1}) - {c1} = {K, B}" using b2(6) b3(6) by auto
    then have d4: "develops c (low_Function s) {K, B} (low_Function (at_block (Some K) s4))"
      and l4: "length (fn_Blocks (low_Function s4)) = length (fn_Blocks (low_Function s3))" using tr by auto
    have v4: "low_Variables s \<subseteq>\<^sub>m low_Variables s4" using f1 b2(4) b3(4) tr by (simp add: flow_def)
    note fc = for_condition_develops [OF d4 _ _ s5]
    have d5: "develops c (low_Function s) (insert B (set_option X)) (low_Function s5)"
      and v5: "low_Variables s4 \<subseteq>\<^sub>m low_Variables s5" using fc KB(2) by simp_all
    have X: "B \<notin> set_option X" "length (fn_Blocks (low_Function s4)) \<le> length (fn_Blocks (low_Function s5))"
      using fc(3,4) KB l4 by fastforce+
    have B5: "B < length (fn_Blocks (low_Function s5))" using develops_bound [OF d5] by simp
    have f7: "flow B (at_block (Some B) s5) s7" by (rule flowsD [OF fb s7]) (use B5 in simp_all)
    then have "develops c (low_Function s) (insert B (set_option X) - {B} \<union> set_option (low_Current s7)) (low_Function s7)"
      using develops_inside [OF d5, of B] by (simp add: flow_def)
    then have d7: "develops c (low_Function s) (set_option (low_Current s7) \<union> set_option X) (low_Function s7)"
      using X by (simp add: Un_commute)
    have apart: "e \<notin> set_option X" if "low_Current s7 = Some e" for e
    proof
      assume x: "e \<in> set_option X"
      then have "e < length (fn_Blocks (low_Function s5))" using develops_bound [OF d5] by simp
      then show False using flow_place [OF f7 that] x X(1) by auto
    qed
    have "length (fn_Blocks (low_Function s5)) \<le> length (fn_Blocks (low_Function s7))"
      using f7 by (simp add: flow_def develops_def grows_def)
    then have K7: "K < length (fn_Blocks (low_Function s7))" using KB X l4 by linarith
    note le = loop_end_develops [OF d7 apart K7 s8 fp]
    have v7: "low_Variables s5 \<subseteq>\<^sub>m low_Variables s7" using f7 by (simp add: flow_def)
    have "low_Variables s \<subseteq>\<^sub>m low_Variables s8" using v4 v5 v7 le(2) by (meson map_le_trans)
    then show "flow c s t" using le(1) cur t by (simp add: flow_def)
  qed
qed

section \<open>All statements\<close>

lemma lowerBlock_unreached: "low_Current s = None \<Longrightarrow> lowerBlock C ss s = Inr ((), s)"
  by (cases ss) (simp_all add: lower_if_reached_def bindl_def readl_def returnl_def)

lemma flows_statement: "flows (lowerStatement C st)" "flows (lowerBlock C ss)"
proof (induction C st and C ss rule: lowerStatement_lowerBlock.induct)
  case (8 C n init cond bn body els)
  then show ?case by (auto intro!: flows_lowerIf flows_optional)
next
  case (9 C n init cond post bn body)
  then show ?case by (auto intro!: flows_lowerFor flows_optional)
next
  case (12 C st ss)
  show ?case unfolding flows_def
  proof (intro allI impI)
    fix s u t c
    assume "lowerBlock C (st # ss) s = Inr (u, t)" and c: "low_Current s = Some c" "c < length (fn_Blocks (low_Function s))"
    then obtain s1 where s1: "lowerStatement C st s = Inr ((), s1)" "lowerBlock C ss s1 = Inr (u, t)"
      by (auto simp: lower_if_reached_def lower_runs)
    have f1: "flow c s s1" by (rule flowsD [OF 12(1) s1(1) c])
    show "flow c s t"
    proof (cases "low_Current s1")
      case None
      then show ?thesis using lowerBlock_unreached s1(2) f1 by fastforce
    next
      case (Some d)
      have "flow d s1 t" by (rule flowsD [OF 12(2) s1(2) Some flow_open [OF f1 Some]])
      then show ?thesis by (rule flow_trans [OF f1 Some])
    qed
  qed
qed (auto intro!: flows_returnl flows_return extends_flows lower_steps)

section \<open>Functions\<close>

text \<open>
  The shape of a function: tables numbered by position, an entry, and every block ends in a jump or a
  branch to blocks of the function, or in a return.
\<close>

definition shaped :: "ir_function \<Rightarrow> bool" where
  "shaped f \<longleftrightarrow> numbered f \<and> fn_Entry f = 0 \<and> fn_Blocks f \<noteq> [] \<and>
     (\<forall>b \<in> set (fn_Blocks f). leads (length (fn_Blocks f)) (block_Terminator b))"

lemma newMemoryVariable_state:
  assumes "newMemoryVariable name t s = Inr (r, u)"
  shows "fn_Blocks (low_Function u) = fn_Blocks (low_Function s)" "low_Current u = low_Current s"
    "fn_Result (low_Function u) = fn_Result (low_Function s)" "fn_Entry (low_Function u) = fn_Entry (low_Function s)"
  using assms by (auto simp: newMemoryVariable_def Let_def split: prod.splits if_splits)

lemma numbered_Params: "numbered (f\<lparr>fn_Params := ps\<rparr>) = numbered f" "numbered (f\<lparr>fn_Entry := e\<rparr>) = numbered f"
  by (simp_all add: numbered_def)

text \<open>The lowering of the parameters fills tables and makes no block.\<close>

definition tabulates :: "'a lowering \<Rightarrow> bool" where
  "tabulates m \<longleftrightarrow> (\<forall>s x t. m s = Inr (x, t) \<longrightarrow>
     fn_Blocks (low_Function t) = fn_Blocks (low_Function s) \<and> low_Current t = low_Current s \<and>
     fn_Result (low_Function t) = fn_Result (low_Function s) \<and>
     (numbered (low_Function s) \<longrightarrow> numbered (low_Function t)))"

lemma tabulates_bindl: "tabulates m \<Longrightarrow> (\<And>x. tabulates (k x)) \<Longrightarrow> tabulates (bindl m k)"
  unfolding tabulates_def by (fastforce simp: lower_runs)

lemma tabulates_steps:
  "tabulates m \<Longrightarrow> tabulates k \<Longrightarrow> tabulates (thenl m k)"
  "tabulates (returnl y)" "tabulates (faill e)" "tabulates (liftl q)" "tabulates (readl g)"
  "(\<And>s. low_Function (h s) = low_Function s \<and> low_Current (h s) = low_Current s) \<Longrightarrow> tabulates (updatel h)"
  by (simp add: thenl_def tabulates_bindl) (auto simp: tabulates_def lower_runs)

lemma tabulates_values:
  "tabulates (newValue name t kind)" "tabulates (newMemoryVariable name t)"
  "tabulates (updatel (\<lambda>s. s\<lparr>low_Function := (low_Function s)\<lparr>fn_Params := ps s\<rparr>\<rparr>))"
proof -
  show "tabulates (newValue name t kind)"
    using extendsD [OF extends_newValue] by (fastforce simp: tabulates_def newValue_def Let_def emits_def)
  show "tabulates (newMemoryVariable name t)"
    using extendsD [OF extends_newMemoryVariable] newMemoryVariable_state
    by (fastforce simp: tabulates_def emits_def)
  show "tabulates (updatel (\<lambda>s. s\<lparr>low_Function := (low_Function s)\<lparr>fn_Params := ps s\<rparr>\<rparr>))"
    by (auto simp: tabulates_def lower_runs numbered_Params)
qed

lemma tabulates_parameters: "tabulates (lower_parameters C d index ps)"
proof (induction ps arbitrary: index)
  case (Cons p ps)
  have "tabulates (lower_parameter C d index p)"
    unfolding lower_parameter_def Let_def
    by (cases p) (auto intro!: tabulates_bindl tabulates_steps tabulates_values split: sum.split)
  then show ?case by (auto intro!: tabulates_bindl tabulates_steps Cons)
qed (simp add: tabulates_steps)

lemma lower_parameters_state:
  "lower_parameters C d index ps s = Inr (is, t) \<Longrightarrow>
     fn_Blocks (low_Function t) = fn_Blocks (low_Function s) \<and> low_Current t = low_Current s \<and>
     (numbered (low_Function s) \<longrightarrow> numbered (low_Function t)) \<and>
     fn_Result (low_Function t) = fn_Result (low_Function s)"
  using tabulates_parameters [of C d index ps] by (auto simp: tabulates_def)

lemma extends_store_parameters [lower_steps]: "extends (store_parameters C d ps is)"
  by (induction C d ps "is" rule: store_parameters.induct) (auto intro!: lower_steps)

text \<open>The states the lowering of a function goes through.\<close>

lemma lower_bodyE:
  assumes "lower_body C d ps bn body s = Inr (f, u)"
  obtains params s1 s2 s3 s4 x where
    "lower_parameters C d 0 ps s = Inr (params, s1)" "newBlock ''entry'' s1 = Inr (length (fn_Blocks (low_Function s1)), s2)"
    "store_parameters C d ps params
       (s2\<lparr>low_Function := (low_Function s2)\<lparr>fn_Entry := blockID (length (fn_Blocks (low_Function s1)))\<rparr>,
           low_Current := Some (length (fn_Blocks (low_Function s1)))\<rparr>) = Inr (x, s3)"
    "lowerBlock C body s3 = Inr ((), s4)"
    "if low_Current s4 = None then u = s4
     else fn_Result (low_Function s4) = TypeVoid \<and>
       terminate_block (low_Current s4) (return_with C NoValue (node_End bn)) s4 = Inr ((), u)"
    "f = low_Function u"
proof -
  from assms obtain params s1 entry s2 s3 s4 where r:
    "lower_parameters C d 0 ps s = Inr (params, s1)" "newBlock ''entry'' s1 = Inr (entry, s2)"
    "store_parameters C d ps params
       (s2\<lparr>low_Function := (low_Function s2)\<lparr>fn_Entry := blockID entry\<rparr>, low_Current := Some entry\<rparr>) = Inr ((), s3)"
    "lowerBlock C body s3 = Inr ((), s4)" "f = low_Function u"
    and e: "(if low_Current s4 = None then returnl () else
      bindl (readl (\<lambda>s. fn_Result (low_Function s))) (\<lambda>t.
        if t \<noteq> TypeVoid then faill (errorAt C bn (''function '' @ snd (decl_Name d) @
          '' can reach its end without returning '' @ Type_String t))
        else terminate_block (low_Current s4) (return_with C NoValue (node_End bn)))) s4 = Inr ((), u)"
    unfolding lower_body_def lower_runs set_current_def by auto
  have entry: "entry = length (fn_Blocks (low_Function s1))" using r(2) by (auto simp: newBlock_def Let_def)
  have "if low_Current s4 = None then u = s4
     else fn_Result (low_Function s4) = TypeVoid \<and>
       terminate_block (low_Current s4) (return_with C NoValue (node_End bn)) s4 = Inr ((), u)"
    using e by (auto simp: lower_runs split: if_splits)
  with r show thesis unfolding entry by (intro that [of params s1 s2 "()" s3 s4]) simp_all
qed

lemma lower_body_shaped:
  assumes "lower_body C d ps bn body (start_state name result) = Inr (f, u)"
  shows "shaped f"
  using assms
proof (rule lower_bodyE)
  fix params x and s1 s2 s3 s4 :: lower_state
  let ?n = "length (fn_Blocks (low_Function s1))"
  let ?s = "s2\<lparr>low_Function := (low_Function s2)\<lparr>fn_Entry := blockID ?n\<rparr>, low_Current := Some ?n\<rparr>"
  assume p: "lower_parameters C d 0 ps (start_state name result) = Inr (params, s1)"
    and n: "newBlock ''entry'' s1 = Inr (?n, s2)" and st: "store_parameters C d ps params ?s = Inr (x, s3)"
    and b: "lowerBlock C body s3 = Inr ((), s4)"
    and e: "if low_Current s4 = None then u = s4
      else fn_Result (low_Function s4) = TypeVoid \<and>
        terminate_block (low_Current s4) (return_with C NoValue (node_End bn)) s4 = Inr ((), u)"
    and f: "f = low_Function u"
  have s1: "fn_Blocks (low_Function s1) = []" "numbered (low_Function s1)"
    using lower_parameters_state [OF p] by (simp_all add: start_state_def numbered_def)
  then have s2: "length (fn_Blocks (low_Function s2)) = 1" "numbered (low_Function s2)"
    using n by (auto simp: newBlock_def Let_def numbered_simps numbered_def)
  obtain code where em: "emits code ?s s3" using extendsD [OF extends_store_parameters st] by blast
  have 0: "flow 0 ?s s3" by (rule emits_flow [OF em]) (use s1 s2 in simp_all)
  have c3: "low_Current s3 = Some 0" using em s1 by (simp add: emits_def)
  have "flow 0 s3 s4" by (rule flowsD [OF flows_statement(2) b c3 flow_open [OF 0 c3]])
  then have "flow 0 ?s s4" by (rule flow_trans [OF 0 c3])
  then have d: "develops 0 (low_Function ?s) (set_option (low_Current s4)) (low_Function s4)"
    unfolding flow_def by blast
  have "develops 0 (low_Function ?s) {} (low_Function u)"
  proof (cases "low_Current s4")
    case None
    then show ?thesis using d e by simp
  next
    case (Some c)
    then have "terminate_block (Some c) (return_with C NoValue (node_End bn)) s4 = Inr ((), u)" using e by simp
    from develops_terminate [OF d this _ leads_built(3)] Some show ?thesis by auto
  qed
  then have u: "develops 0 (low_Function ?s) {} f" by (simp add: f)
  have "ended f i" if "i < length (fn_Blocks f)" for i
    using u that s2(1) by (cases i) (auto simp: develops_def)
  moreover have "fn_Blocks f \<noteq> []" "fn_Entry f = 0" "numbered f"
    using u s1 s2 by (auto simp: develops_def grows_def blockID_def numbered_Params)
  ultimately show "shaped f" by (auto simp: shaped_def ended_def in_set_conv_nth)
qed

lemma lowerFunction_shaped: "lowerFunction C d bn body = Inr f \<Longrightarrow> shaped f"
  by (auto simp: lowerFunction_def and_then_Inr_conv Let_def intro: lower_body_shaped
      split: option.splits go_object.splits prod.splits)

lemma lower_declarations_shaped: "lower_declarations checked ds = Inr fs \<Longrightarrow> \<forall>f \<in> set fs. shaped f"
proof (induction ds arbitrary: fs)
  case (Cons d ds)
  then obtain q gs where d: "lower_declaration checked d = Inr q" and gs: "lower_declarations checked ds = Inr gs"
    and fs: "fs = (case q of None \<Rightarrow> gs | Some f \<Rightarrow> f # gs)" by (auto simp: and_then_Inr_conv)
  have "shaped f" if "q = Some f" for f
    using d that by (auto simp: lower_declaration_def and_then_Inr_conv Let_def intro: lowerFunction_shaped
        split: top_decl.splits option.splits)
  then show ?case using Cons.IH [OF gs] fs by (auto split: option.splits)
qed simp

text \<open>The check that \<open>Lower\<close> makes of its own result cannot find a broken table.\<close>

definition table_errors :: "ir_error set" where
  "table_errors = {IrValueTable, IrMemoryTable, IrBlockTable, IrEntryBlock}"

lemma check_each_Some:
  "check_each c i xs = Some e \<Longrightarrow> \<exists>j < length xs. c (i + j) (xs ! j) = Some e"
proof (induction xs arbitrary: i)
  case (Cons x xs)
  show ?case
  proof (cases "c i x")
    case None
    then have "check_each c (Suc i) xs = Some e" using Cons.prems by (simp add: also_check_def)
    from Cons.IH [OF this] obtain j where "j < length xs" "c (Suc i + j) (xs ! j) = Some e" by blast
    then show ?thesis by (intro exI [of _ "Suc j"]) simp
  next
    case (Some e')
    then show ?thesis using Cons.prems by (intro exI [of _ 0]) (simp add: also_check_def)
  qed
qed simp

lemma also_check_Some: "also_check a b = Some e \<longleftrightarrow> a = Some e \<or> a = None \<and> b = Some e"
  by (auto simp: also_check_def split: option.splits)

lemma ensure_Some: "ensure b e = Some e' \<longleftrightarrow> \<not> b \<and> e' = e"
  by (auto simp: ensure_def)

lemma with_value_Some: "with_value f i k = Some e \<Longrightarrow> e = IrInvalidValue \<or> (\<exists>v. k v = Some e)"
  by (auto simp: with_value_def split: prod.splits if_splits)

lemma validate_arguments_error: "validate_arguments f as ts = Some e \<Longrightarrow> e \<notin> table_errors"
  by (induction f as ts rule: validate_arguments.induct)
    (auto simp: also_check_Some ensure_Some table_errors_def dest!: with_value_Some)

lemma validate_operands_error:
  "validate_const ins dest = Some e \<Longrightarrow> e \<notin> table_errors" "validate_move f ins dest = Some e \<Longrightarrow> e \<notin> table_errors"
  "validate_arithmetic f ins dest = Some e \<Longrightarrow> e \<notin> table_errors"
  "validate_comparison f ins dest = Some e \<Longrightarrow> e \<notin> table_errors"
  "validate_address f ins dest = Some e \<Longrightarrow> e \<notin> table_errors"
  "validate_pointer_address f ins dest = Some e \<Longrightarrow> e \<notin> table_errors"
  "validate_load f ins dest = Some e \<Longrightarrow> e \<notin> table_errors" "validate_store f ins = Some e \<Longrightarrow> e \<notin> table_errors"
  "validate_pointer_add f ins dest = Some e \<Longrightarrow> e \<notin> table_errors"
  "validate_bounds_check f ins = Some e \<Longrightarrow> e \<notin> table_errors" "validate_zero f ins = Some e \<Longrightarrow> e \<notin> table_errors"
  "validate_copy f ins = Some e \<Longrightarrow> e \<notin> table_errors"
  by (auto simp: validate_const_def validate_move_def validate_arithmetic_def validate_comparison_def
      validate_address_def validate_pointer_address_def validate_load_def validate_store_def
      validate_pointer_add_def validate_bounds_check_def validate_zero_def validate_copy_def
      also_check_Some ensure_Some table_errors_def Let_def dest!: with_value_Some
      split: prod.splits option.splits)

lemma validate_calls_error:
  "validate_call f fns ins dest = Some e \<Longrightarrow> e \<notin> table_errors"
  "validate_syscall f ins dest = Some e \<Longrightarrow> e \<notin> table_errors"
  using validate_arguments_error [of f _ _ e]
  by (auto simp: validate_call_def validate_syscall_def validate_result_def also_check_Some ensure_Some
      table_errors_def split: option.splits if_splits)

lemma validateInstruction_error: "validateInstruction f fns ins = Some e \<Longrightarrow> e \<notin> table_errors"
  unfolding validateInstruction_def
  by (auto simp: Let_def table_errors_def split: prod.splits if_splits ir_op.splits
      dest: validate_operands_error [unfolded table_errors_def] validate_calls_error [unfolded table_errors_def])

lemma validateTerminator_error: "validateTerminator f t = Some e \<Longrightarrow> e \<notin> table_errors"
  by (auto simp: validateTerminator_def also_check_Some ensure_Some table_errors_def
      split: terminator_kind.splits prod.splits if_splits)

lemma validateFunction_shaped:
  assumes "shaped f" and "validateFunction f fns = Some e"
  shows "e \<notin> table_errors"
proof -
  have n: "numbered f" and entry: "Function_Block f (fn_Entry f) \<noteq> None"
    using assms(1) by (auto simp: shaped_def numbered_def Function_Block_def Let_def)
  have v: "validate_value i (fn_Values f ! i) = Some e \<Longrightarrow> i < length (fn_Values f) \<Longrightarrow> e \<notin> table_errors" for i
    using n by (auto simp: numbered_def validate_value_def also_check_Some ensure_Some table_errors_def)
  have o: "validate_object i (fn_Memory f ! i) = Some e \<Longrightarrow> i < length (fn_Memory f) \<Longrightarrow> e \<notin> table_errors" for i
    using n by (auto simp: numbered_def validate_object_def also_check_Some ensure_Some table_errors_def)
  have b: "validate_block f fns i (fn_Blocks f ! i) = Some e \<Longrightarrow> i < length (fn_Blocks f) \<Longrightarrow> e \<notin> table_errors" for i
    using n validateInstruction_error [of f fns _ e] validateTerminator_error [of f _ e]
    by (auto simp: numbered_def validate_block_def also_check_Some ensure_Some table_errors_def dest!: check_each_Some)
  have p: "validate_parameter f i x = Some e \<Longrightarrow> e \<notin> table_errors" for i x
    by (auto simp: validate_parameter_def ensure_Some table_errors_def split: prod.splits)
  from assms(2) entry v o b p show ?thesis
    by (auto simp: validateFunction_def also_check_Some ensure_Some dest!: check_each_Some)
      (auto simp: table_errors_def)
qed

lemma register_functions_error:
  "register_functions fs fns = Inl e \<Longrightarrow> e \<notin> table_errors"
  by (induction fs fns rule: register_functions.induct) (auto simp: table_errors_def split: if_splits)

lemma Program_Validate_shaped:
  assumes "\<forall>f \<in> set (prog_Functions p). shaped f" and "Program_Validate ord p = Some e"
  shows "e \<notin> table_errors"
proof -
  consider "e = IrPackageEmpty" | "register_functions (prog_Functions p) (\<lambda>_. None) = Inl e"
    | fns i where "i < length (prog_Functions p)" "validateFunction (prog_Functions p ! i) fns = Some e"
    | l where "e = IrLifetime l"
    using assms(2)
    by (auto simp: Program_Validate_def also_check_Some split: if_splits sum.splits dest!: check_each_Some)
  then show ?thesis
  proof cases
    case 3
    then show ?thesis using validateFunction_shaped assms(1) nth_mem by blast
  qed (auto simp: table_errors_def dest: register_functions_error [unfolded table_errors_def])
qed

end
