(* ===== verification/GoSemantics.thy ===== *)
theory GoSemantics
  imports LowerFlow BackendFacts
begin

text \<open>
  The meaning of the part of Go whose variables are scalars in registers, and the meaning of the
  control flow graph it is lowered to.

  On the source side a variable holds an integer (a truth value is 0 or 1) and every operation is the
  integer operation, wrapped to its type as the Go specification says; a division by zero is a panic.
  \<open>well_typed\<close> states what the type checker of Go guarantees of the tables it fills, for the statements of
  this part: the types of operands, the scopes of variables, that a constant fits its type.
  On the target side \<open>ir_effect\<close> gives the operations their meaning, and a terminator selects the next
  block.
\<close>

section \<open>Values\<close>

definition go_wrap :: "ir_type \<Rightarrow> int \<Rightarrow> int" where
  "go_wrap t k =
     (if t = TypeUint8 then k mod 2 ^ 8
      else if t = TypeUint32 then k mod 2 ^ 32
      else if t = TypeInt32 then (k + 2 ^ 31) mod 2 ^ 32 - 2 ^ 31
      else if t = TypeUint64 then k mod 2 ^ 64
      else if t = TypeInt64 then (k + 2 ^ 63) mod 2 ^ 64 - 2 ^ 63
      else k)"

definition in_range :: "ir_type \<Rightarrow> int \<Rightarrow> bool" where
  "in_range t k \<longleftrightarrow> (if t = TypeBool then k = 0 \<or> k = 1 else integer t \<and> go_wrap t k = k)"

text \<open>A scalar that lives in a register: an integer or a truth value.\<close>

definition plain_scalar :: "ir_type \<Rightarrow> bool" where
  "plain_scalar t \<longleftrightarrow> integer t \<or> t = TypeBool"

type_synonym go_store = "nat \<Rightarrow> int"

definition go_arithmetic :: "go_token \<Rightarrow> int \<Rightarrow> int \<Rightarrow> int option" where
  "go_arithmetic op x y =
     (case op of
        tokADD \<Rightarrow> Some (x + y) | tokSUB \<Rightarrow> Some (x - y) | tokMUL \<Rightarrow> Some (x * y)
      | tokQUO \<Rightarrow> if y = 0 then None else Some (x sdiv y)
      | tokREM \<Rightarrow> if y = 0 then None else Some (x smod y)
      | _ \<Rightarrow> None)"

definition go_compare :: "go_token \<Rightarrow> int \<Rightarrow> int \<Rightarrow> bool" where
  "go_compare op x y =
     (case op of tokEQL \<Rightarrow> x = y | tokNEQ \<Rightarrow> x \<noteq> y | tokLSS \<Rightarrow> x < y | tokLEQ \<Rightarrow> x \<le> y
      | tokGTR \<Rightarrow> x > y | _ \<Rightarrow> x \<ge> y)"

definition arithmetic_token :: "go_token \<Rightarrow> bool" where
  "arithmetic_token op \<longleftrightarrow> op = tokADD \<or> op = tokSUB \<or> op = tokMUL \<or> op = tokQUO \<or> op = tokREM"

definition comparison_token :: "go_token \<Rightarrow> bool" where
  "comparison_token op \<longleftrightarrow>
     op = tokEQL \<or> op = tokNEQ \<or> op = tokLSS \<or> op = tokLEQ \<or> op = tokGTR \<or> op = tokGEQ"

text \<open>The type of an expression that is not an untyped constant, and the value of a constant.\<close>

definition static_type :: "go_info \<Rightarrow> expr \<Rightarrow> ir_type" where
  "static_type info e =
     (case TypeOf info e of None \<Rightarrow> TypeInvalid
      | Some t \<Rightarrow> (case strictIRType t of Inl _ \<Rightarrow> TypeInvalid | Inr r \<Rightarrow> r))"

definition constant_of :: "go_info \<Rightarrow> expr \<Rightarrow> const_value option" where
  "constant_of info e = Option.bind (Types_at info e) tv_Value"

fun const_int :: "const_value \<Rightarrow> int" where
  "const_int (ConstBool b) = (if b then 1 else 0)"
| "const_int (ConstInt k) = k"
| "const_int (ConstOther k s) = (case k of None \<Rightarrow> 0 | Some k \<Rightarrow> k)"

section \<open>Expressions\<close>

text \<open>\<open>None\<close> is a run-time panic.\<close>

definition or_constant :: "go_info \<Rightarrow> expr \<Rightarrow> int option \<Rightarrow> int option" where
  "or_constant info e v = (case constant_of info e of Some c \<Rightarrow> Some (const_int c) | None \<Rightarrow> v)"

fun go_eval :: "go_info \<Rightarrow> go_store \<Rightarrow> expr \<Rightarrow> int option" where
  "go_eval info \<sigma> (ParenExpr n x) = or_constant info (ParenExpr n x) (go_eval info \<sigma> x)"
| "go_eval info \<sigma> (Ident n name) = or_constant info (Ident n name)
     (case info_Uses info (node_Key n) of Some (VarObject key vname t) \<Rightarrow> Some (\<sigma> key) | _ \<Rightarrow> None)"
| "go_eval info \<sigma> (UnaryExpr n op x) = or_constant info (UnaryExpr n op x)
     (map_option (\<lambda>v. if op = tokSUB then go_wrap (static_type info (UnaryExpr n op x)) (- v) else v)
       (go_eval info \<sigma> x))"
| "go_eval info \<sigma> (BinaryExpr n x op y) = or_constant info (BinaryExpr n x op y)
     (Option.bind (go_eval info \<sigma> x) (\<lambda>v. Option.bind (go_eval info \<sigma> y) (\<lambda>w.
       if comparison_token op then Some (if go_compare op v w then 1 else 0)
       else map_option (go_wrap (static_type info (BinaryExpr n x op y))) (go_arithmetic op v w))))"
| "go_eval info \<sigma> (CallExpr n f [x] ellipsis) = or_constant info (CallExpr n f [x] ellipsis)
     (case f of
        Ident fn name \<Rightarrow>
          (case info_Uses info (node_Key fn) of
             Some (TypeNameObject tname t) \<Rightarrow>
               (case strictIRType t of
                  Inr r \<Rightarrow> map_option (go_wrap r) (go_eval info \<sigma> x)
                | Inl _ \<Rightarrow> None)
           | _ \<Rightarrow> None)
      | _ \<Rightarrow> None)"
| "go_eval info \<sigma> e = or_constant info e None"

text \<open>An expression has a type: its own, or for an untyped one the type it is used at.\<close>

definition has_type :: "go_info \<Rightarrow> expr \<Rightarrow> ir_type \<Rightarrow> bool" where
  "has_type info e t \<longleftrightarrow>
     (case TypeOf info e of
        None \<Rightarrow> False
      | Some goType \<Rightarrow>
          (case strictIRType goType of
             Inr r \<Rightarrow> r = t
           | Inl _ \<Rightarrow>
               (case Underlying goType of
                  GoBasic kind name \<Rightarrow>
                    kind = KindUntypedBool \<and> t = TypeBool \<or>
                    (kind = KindUntypedInt \<or> kind = KindUntypedRune) \<and> integer t
                | _ \<Rightarrow> False)))"

definition constant_typed :: "const_value \<Rightarrow> ir_type \<Rightarrow> bool" where
  "constant_typed v t \<longleftrightarrow>
     (if t = TypeBool then (case v of ConstBool b \<Rightarrow> True | _ \<Rightarrow> False)
      else (case ToInt v of Some k \<Rightarrow> integer t \<and> go_wrap t k = k | None \<Rightarrow> False))"

definition typed_or_constant :: "go_info \<Rightarrow> expr \<Rightarrow> ir_type \<Rightarrow> bool \<Rightarrow> bool" where
  "typed_or_constant info e t b \<longleftrightarrow>
     has_type info e t \<and> (case constant_of info e of Some c \<Rightarrow> constant_typed c t | None \<Rightarrow> b)"

text \<open>The type of the operands of a comparison: that of the first one with a type of its own.\<close>

definition operand_type :: "go_info \<Rightarrow> expr \<Rightarrow> expr \<Rightarrow> ir_type" where
  "operand_type info x y =
     (case map_option strictIRType (TypeOf info x) of
        Some (Inr r) \<Rightarrow> r
      | _ \<Rightarrow> static_type info y)"

text \<open>
  \<open>\<tau>\<close> is the type of every variable and \<open>scope\<close> lists the variables in scope.
\<close>

fun well_typed :: "go_info \<Rightarrow> (nat \<Rightarrow> ir_type) \<Rightarrow> nat list \<Rightarrow> expr \<Rightarrow> ir_type \<Rightarrow> bool" where
  "well_typed info \<tau> scope (ParenExpr n x) t \<longleftrightarrow>
     typed_or_constant info (ParenExpr n x) t (well_typed info \<tau> scope x t)"
| "well_typed info \<tau> scope (Ident n name) t \<longleftrightarrow> typed_or_constant info (Ident n name) t
     (name \<noteq> ''nil'' \<and>
      (case info_Uses info (node_Key n) of
         Some (VarObject key vname goType) \<Rightarrow> key \<in> set scope \<and> \<tau> key = t
       | _ \<Rightarrow> False))"
| "well_typed info \<tau> scope (UnaryExpr n op x) t \<longleftrightarrow> typed_or_constant info (UnaryExpr n op x) t
     ((op = tokADD \<or> op = tokSUB) \<and> integer t \<and> static_type info (UnaryExpr n op x) = t \<and>
      well_typed info \<tau> scope x t)"
| "well_typed info \<tau> scope (BinaryExpr n x op y) t \<longleftrightarrow> typed_or_constant info (BinaryExpr n x op y) t
     (if comparison_token op then
        t = TypeBool \<and> (let r = operand_type info x y in plain_scalar r \<and>
          (op = tokEQL \<or> op = tokNEQ \<or> integer r) \<and>
          well_typed info \<tau> scope x r \<and> well_typed info \<tau> scope y r)
      else
        arithmetic_token op \<and> integer t \<and> static_type info (BinaryExpr n x op y) = t \<and>
        well_typed info \<tau> scope x t \<and> well_typed info \<tau> scope y t)"
| "well_typed info \<tau> scope (CallExpr n f [x] ellipsis) t \<longleftrightarrow> typed_or_constant info (CallExpr n f [x] ellipsis) t
     (case f of
        Ident fn name \<Rightarrow>
          (case info_Uses info (node_Key fn) of
             Some (TypeNameObject tname goType) \<Rightarrow>
               strictIRType goType = Inr t \<and> integer t \<and> integer (static_type info x) \<and>
               well_typed info \<tau> scope x (static_type info x)
           | _ \<Rightarrow> False)
      | _ \<Rightarrow> False)"
| "well_typed info \<tau> scope e t \<longleftrightarrow> typed_or_constant info e t False"

section \<open>Statements\<close>

datatype go_outcome = Continues go_store | Returns "int option" | Panics

text \<open>The variable an identifier on the left of an assignment stands for.\<close>

definition target_key :: "go_info \<Rightarrow> bool \<Rightarrow> expr \<Rightarrow> nat" where
  "target_key info defining e =
     (case e of
        Ident n name \<Rightarrow>
          (case (case if defining then info_Defs info (node_Key n) else None of
                   Some object \<Rightarrow> Some object | None \<Rightarrow> info_Uses info (node_Key n)) of
             Some (VarObject key vname t) \<Rightarrow> key
           | _ \<Rightarrow> 0)
      | _ \<Rightarrow> 0)"

fun go_eval_all :: "go_info \<Rightarrow> go_store \<Rightarrow> expr list \<Rightarrow> int list option" where
  "go_eval_all info \<sigma> [] = Some []"
| "go_eval_all info \<sigma> (e # es) =
     Option.bind (go_eval info \<sigma> e) (\<lambda>v. map_option ((#) v) (go_eval_all info \<sigma> es))"

fun go_assign :: "go_store \<Rightarrow> nat list \<Rightarrow> int list \<Rightarrow> go_store" where
  "go_assign \<sigma> (key # keys) (v # vs) = go_assign (\<sigma>(key := v)) keys vs"
| "go_assign \<sigma> keys vs = \<sigma>"

definition compound_token :: "go_token \<Rightarrow> go_token" where
  "compound_token tok =
     (case tok of tokADD_ASSIGN \<Rightarrow> tokADD | tokSUB_ASSIGN \<Rightarrow> tokSUB | tokMUL_ASSIGN \<Rightarrow> tokMUL
      | tokQUO_ASSIGN \<Rightarrow> tokQUO | _ \<Rightarrow> tokREM)"

definition go_update :: "(nat \<Rightarrow> ir_type) \<Rightarrow> go_store \<Rightarrow> nat \<Rightarrow> go_token \<Rightarrow> int \<Rightarrow> go_outcome" where
  "go_update \<tau> \<sigma> key op v =
     (case go_arithmetic op (\<sigma> key) v of
        None \<Rightarrow> Panics
      | Some w \<Rightarrow> Continues (\<sigma>(key := go_wrap (\<tau> key) w)))"

definition go_assignment ::
  "go_info \<Rightarrow> (nat \<Rightarrow> ir_type) \<Rightarrow> go_store \<Rightarrow> expr list \<Rightarrow> go_token \<Rightarrow> expr list \<Rightarrow> go_outcome" where
  "go_assignment info \<tau> \<sigma> lhs tok rhs =
     (case go_eval_all info \<sigma> rhs of
        None \<Rightarrow> Panics
      | Some vs \<Rightarrow>
          if compound_tok tok then go_update \<tau> \<sigma> (target_key info False (hd lhs)) (compound_token tok) (hd vs)
          else Continues (go_assign \<sigma> (map (target_key info (tok = tokDEFINE)) lhs) vs))"

definition go_declare :: "go_info \<Rightarrow> go_store \<Rightarrow> ident list \<Rightarrow> expr list \<Rightarrow> go_outcome" where
  "go_declare info \<sigma> names values =
     (let keys = map (\<lambda>(n, s). target_key info True (Ident n s)) names in
      if values = [] then Continues (go_assign \<sigma> keys (replicate (length keys) 0))
      else (case go_eval_all info \<sigma> values of
              None \<Rightarrow> Panics
            | Some vs \<Rightarrow> Continues (go_assign \<sigma> keys vs)))"

fun go_declarations :: "go_info \<Rightarrow> go_store \<Rightarrow> spec list \<Rightarrow> go_outcome" where
  "go_declarations info \<sigma> [] = Continues \<sigma>"
| "go_declarations info \<sigma> (ValueSpec n names t values # specs) =
     (case go_declare info \<sigma> names values of
        Continues \<sigma>' \<Rightarrow> go_declarations info \<sigma>' specs
      | outcome \<Rightarrow> outcome)"
| "go_declarations info \<sigma> (OtherSpec n k # specs) = Panics"


text \<open>A statement continues, returns or panics; \<open>None\<close> is a run that needs more turns of a loop.\<close>

definition continue_with ::
  "go_outcome option \<Rightarrow> (go_store \<Rightarrow> go_outcome option) \<Rightarrow> go_outcome option" where
  "continue_with r k = (case r of Some (Continues \<sigma>) \<Rightarrow> k \<sigma> | _ \<Rightarrow> r)"

definition go_condition :: "go_info \<Rightarrow> go_store \<Rightarrow> expr option \<Rightarrow> int option" where
  "go_condition info \<sigma> cond = (case cond of None \<Rightarrow> Some 1 | Some e \<Rightarrow> go_eval info \<sigma> e)"

fun go_exec :: "nat \<Rightarrow> go_info \<Rightarrow> (nat \<Rightarrow> ir_type) \<Rightarrow> go_store \<Rightarrow> stmt \<Rightarrow> go_outcome option"
and go_block :: "nat \<Rightarrow> go_info \<Rightarrow> (nat \<Rightarrow> ir_type) \<Rightarrow> go_store \<Rightarrow> stmt list \<Rightarrow> go_outcome option"
and go_loop :: "nat \<Rightarrow> go_info \<Rightarrow> (nat \<Rightarrow> ir_type) \<Rightarrow> go_store \<Rightarrow> expr option \<Rightarrow> stmt option \<Rightarrow> stmt list \<Rightarrow>
    go_outcome option" where
  "go_exec turns info \<tau> \<sigma> (BlockStmt n ss) = go_block turns info \<tau> \<sigma> ss"
| "go_exec turns info \<tau> \<sigma> (EmptyStmt n) = Some (Continues \<sigma>)"
| "go_exec turns info \<tau> \<sigma> (ReturnStmt n results) =
     (case results of
        [] \<Rightarrow> Some (Returns None)
      | e # _ \<Rightarrow> (case go_eval info \<sigma> e of None \<Rightarrow> Some Panics | Some v \<Rightarrow> Some (Returns (Some v))))"
| "go_exec turns info \<tau> \<sigma> (AssignStmt n lhs tok rhs) = Some (go_assignment info \<tau> \<sigma> lhs tok rhs)"
| "go_exec turns info \<tau> \<sigma> (DeclStmt n (GenDecl m tok specs)) = Some (go_declarations info \<sigma> specs)"
| "go_exec turns info \<tau> \<sigma> (DeclStmt n (BadDecl m)) = Some Panics"
| "go_exec turns info \<tau> \<sigma> (IncDecStmt n x tok) =
     Some (go_update \<tau> \<sigma> (target_key info False x) (if tok = tokDEC then tokSUB else tokADD) 1)"
| "go_exec turns info \<tau> \<sigma> (ExprStmt n x) = Some Panics"
| "go_exec turns info \<tau> \<sigma> (RefusedStmt n k) = Some Panics"
| "go_exec turns info \<tau> \<sigma> (IfStmt n init cond bn body els) =
     continue_with (case init of None \<Rightarrow> Some (Continues \<sigma>) | Some i \<Rightarrow> go_exec turns info \<tau> \<sigma> i) (\<lambda>\<sigma>.
       case go_eval info \<sigma> cond of
         None \<Rightarrow> Some Panics
       | Some v \<Rightarrow>
           if v \<noteq> 0 then go_block turns info \<tau> \<sigma> body
           else (case els of None \<Rightarrow> Some (Continues \<sigma>) | Some e \<Rightarrow> go_exec turns info \<tau> \<sigma> e))"
| "go_exec turns info \<tau> \<sigma> (ForStmt n init cond post bn body) =
     continue_with (case init of None \<Rightarrow> Some (Continues \<sigma>) | Some i \<Rightarrow> go_exec turns info \<tau> \<sigma> i)
       (\<lambda>\<sigma>. go_loop turns info \<tau> \<sigma> cond post body)"
| "go_block turns info \<tau> \<sigma> [] = Some (Continues \<sigma>)"
| "go_block turns info \<tau> \<sigma> (s # ss) =
     continue_with (go_exec turns info \<tau> \<sigma> s) (\<lambda>\<sigma>. go_block turns info \<tau> \<sigma> ss)"
| "go_loop 0 info \<tau> \<sigma> cond post body = None"
| "go_loop (Suc turns) info \<tau> \<sigma> cond post body =
     (case go_condition info \<sigma> cond of
        None \<Rightarrow> Some Panics
      | Some v \<Rightarrow>
          if v = 0 then Some (Continues \<sigma>)
          else
            continue_with (go_block turns info \<tau> \<sigma> body) (\<lambda>\<sigma>.
            continue_with
              (case post of None \<Rightarrow> Some (Continues \<sigma>) | Some p \<Rightarrow> go_exec turns info \<tau> \<sigma> p)
              (\<lambda>\<sigma>. go_loop turns info \<tau> \<sigma> cond post body)))"

text \<open>
  \<open>typed_stmt\<close> is the scope after a well-typed statement.  The targets of an assignment are plain
  identifiers of scalar variables.
\<close>

definition typed_target :: "go_info \<Rightarrow> (nat \<Rightarrow> ir_type) \<Rightarrow> nat list \<Rightarrow> bool \<Rightarrow> expr \<Rightarrow> bool" where
  "typed_target info \<tau> scope defining e \<longleftrightarrow>
     (case e of
        Ident n name \<Rightarrow> name \<noteq> ''_'' \<and>
          (case (case if defining then info_Defs info (node_Key n) else None of
                   Some object \<Rightarrow> Some object | None \<Rightarrow> info_Uses info (node_Key n)) of
             Some (VarObject key vname t) \<Rightarrow>
               strictIRType t = Inr (\<tau> key) \<and> plain_scalar (\<tau> key) \<and> (defining \<or> key \<in> set scope)
           | _ \<Rightarrow> False)
      | _ \<Rightarrow> False)"

definition typed_assignment ::
  "go_info \<Rightarrow> (nat \<Rightarrow> ir_type) \<Rightarrow> nat list \<Rightarrow> expr list \<Rightarrow> go_token \<Rightarrow> expr list \<Rightarrow> nat list option" where
  "typed_assignment info \<tau> scope lhs tok rhs =
     (let defining = (tok = tokDEFINE); keys = map (target_key info defining) lhs in
      if (tok = tokASSIGN \<or> tok = tokDEFINE \<or>
          compound_tok tok \<and> length lhs = 1 \<and> list_all (\<lambda>key. integer (\<tau> key)) keys) \<and>
         lhs \<noteq> [] \<and> list_all (typed_target info \<tau> scope defining) lhs \<and>
         list_all2 (\<lambda>key e. well_typed info \<tau> scope e (\<tau> key)) keys rhs
      then Some (if defining then keys @ scope else scope) else None)"

definition typed_declare ::
  "go_info \<Rightarrow> (nat \<Rightarrow> ir_type) \<Rightarrow> nat list \<Rightarrow> ident list \<Rightarrow> expr list \<Rightarrow> nat list option" where
  "typed_declare info \<tau> scope names values =
     (let lhs = map (\<lambda>(n, s). Ident n s) names; keys = map (target_key info True) lhs in
      if lhs \<noteq> [] \<and> list_all (typed_target info \<tau> scope True) lhs \<and>
         (values = [] \<or> list_all2 (\<lambda>key e. well_typed info \<tau> scope e (\<tau> key)) keys values)
      then Some (keys @ scope) else None)"

fun typed_specs :: "go_info \<Rightarrow> (nat \<Rightarrow> ir_type) \<Rightarrow> nat list \<Rightarrow> spec list \<Rightarrow> nat list option" where
  "typed_specs info \<tau> scope [] = Some scope"
| "typed_specs info \<tau> scope (ValueSpec n names t values # specs) =
     Option.bind (typed_declare info \<tau> scope names values) (\<lambda>scope. typed_specs info \<tau> scope specs)"
| "typed_specs info \<tau> scope (OtherSpec n k # specs) = None"

definition typed_return ::
  "go_info \<Rightarrow> (nat \<Rightarrow> ir_type) \<Rightarrow> ir_type \<Rightarrow> nat list \<Rightarrow> expr list \<Rightarrow> bool" where
  "typed_return info \<tau> result scope results \<longleftrightarrow>
     (if result = TypeVoid then results = []
      else plain_scalar result \<and> length results = 1 \<and> well_typed info \<tau> scope (hd results) result)"

fun typed_stmt :: "go_info \<Rightarrow> (nat \<Rightarrow> ir_type) \<Rightarrow> ir_type \<Rightarrow> nat list \<Rightarrow> stmt \<Rightarrow> nat list option"
and typed_block :: "go_info \<Rightarrow> (nat \<Rightarrow> ir_type) \<Rightarrow> ir_type \<Rightarrow> nat list \<Rightarrow> stmt list \<Rightarrow> nat list option" where
  "typed_stmt info \<tau> result scope (BlockStmt n ss) =
     map_option (\<lambda>_. scope) (typed_block info \<tau> result scope ss)"
| "typed_stmt info \<tau> result scope (EmptyStmt n) = Some scope"
| "typed_stmt info \<tau> result scope (ReturnStmt n results) =
     (if typed_return info \<tau> result scope results then Some scope else None)"
| "typed_stmt info \<tau> result scope (AssignStmt n lhs tok rhs) = typed_assignment info \<tau> scope lhs tok rhs"
| "typed_stmt info \<tau> result scope (DeclStmt n (GenDecl m tok specs)) =
     (if tok = tokVAR then typed_specs info \<tau> scope specs else None)"
| "typed_stmt info \<tau> result scope (DeclStmt n (BadDecl m)) = None"
| "typed_stmt info \<tau> result scope (IncDecStmt n x tok) =
     (if typed_target info \<tau> scope False x \<and> integer (\<tau> (target_key info False x)) then Some scope else None)"
| "typed_stmt info \<tau> result scope (ExprStmt n x) = None"
| "typed_stmt info \<tau> result scope (RefusedStmt n k) = None"
| "typed_stmt info \<tau> result scope (IfStmt n init cond bn body els) =
     Option.bind (case init of None \<Rightarrow> Some scope | Some i \<Rightarrow> typed_stmt info \<tau> result scope i) (\<lambda>inner.
       if well_typed info \<tau> inner cond TypeBool \<and> typed_block info \<tau> result inner body \<noteq> None \<and>
         (case els of None \<Rightarrow> True | Some e \<Rightarrow> typed_stmt info \<tau> result inner e \<noteq> None)
       then Some scope else None)"
| "typed_stmt info \<tau> result scope (ForStmt n init cond post bn body) =
     Option.bind (case init of None \<Rightarrow> Some scope | Some i \<Rightarrow> typed_stmt info \<tau> result scope i) (\<lambda>inner.
       if (case cond of None \<Rightarrow> True | Some e \<Rightarrow> well_typed info \<tau> inner e TypeBool) \<and>
         typed_block info \<tau> result inner body \<noteq> None \<and>
         (case post of None \<Rightarrow> True | Some p \<Rightarrow> typed_stmt info \<tau> result inner p \<noteq> None)
       then Some scope else None)"
| "typed_block info \<tau> result scope [] = Some scope"
| "typed_block info \<tau> result scope (s # ss) =
     Option.bind (typed_stmt info \<tau> result scope s) (\<lambda>scope. typed_block info \<tau> result scope ss)"

section \<open>Control flow graphs\<close>

type_synonym ir_env = "value_id \<Rightarrow> u64"

text \<open>A place in a function with the values of its registers.  A run ends with a trap or a result.\<close>

type_synonym ir_place = "nat \<times> nat \<times> ir_env"

definition ir_step :: "ir_function \<Rightarrow> ir_place \<Rightarrow> (vm_error + u64 option) + ir_place" where
  "ir_step f place =
     (case place of (b, p, env) \<Rightarrow>
        (let instructions = block_Instructions (fn_Blocks f ! b); t = block_Terminator (fn_Blocks f ! b) in
         if p < length instructions then
           (case ir_effect f (instructions ! p) env of Inl e \<Rightarrow> Inl (Inl e) | Inr env' \<Rightarrow> Inr (b, p + 1, env'))
         else
           (case term_Kind t of
              TermJump \<Rightarrow> Inr (unat (term_Target t), 0, env)
            | TermBranch \<Rightarrow> Inr (unat (if env (term_Cond t) \<noteq> 0 then term_True t else term_False t), 0, env)
            | TermReturn \<Rightarrow> Inl (Inr (if fn_Result f = TypeVoid then None else Some (env (term_Result t))))
            | TermInvalid \<Rightarrow> Inl (Inl ErrExecutionOverrun))))"

fun ir_run :: "nat \<Rightarrow> ir_function \<Rightarrow> ir_place \<Rightarrow> (vm_error + u64 option) option" where
  "ir_run 0 f place = None"
| "ir_run (Suc n) f place = (case ir_step f place of Inl r \<Rightarrow> Some r | Inr next_place \<Rightarrow> ir_run n f next_place)"

fun ir_code :: "ir_function \<Rightarrow> ir_instruction list \<Rightarrow> ir_env \<Rightarrow> vm_error + ir_env" where
  "ir_code f [] env = Inr env"
| "ir_code f (ins # code) env = and_then (ir_effect f ins env) (ir_code f code)"

definition reaches :: "ir_function \<Rightarrow> ir_place \<Rightarrow> ir_place \<Rightarrow> bool" where
  "reaches f a b \<longleftrightarrow> (\<exists>k. \<forall>n. ir_run (k + n) f a = ir_run n f b)"

definition ends_with :: "ir_function \<Rightarrow> ir_place \<Rightarrow> vm_error + u64 option \<Rightarrow> bool" where
  "ends_with f a r \<longleftrightarrow> (\<exists>n. ir_run n f a = Some r)"

text \<open>What the graph does when the source has an outcome.\<close>

fun ir_outcome :: "go_outcome \<Rightarrow> vm_error + u64 option" where
  "ir_outcome (Continues \<sigma>) = Inr None"
| "ir_outcome (Returns v) = Inr (map_option word_of_int v)"
| "ir_outcome Panics = Inl ErrVmDivisionByZero"

end
