(* ===== verification/ExprFacts.thy ===== *)
theory ExprFacts
  imports GoSemantics
begin

text \<open>
  The lowering of an expression is correct: the code it emits leaves the value of the expression, as
  Go computes it on integers, in the register it returns, or traps where Go panics.
\<close>

section \<open>Wrapping\<close>

lemma go_wrap_signed:
  "(k + 2 ^ 31) mod 2 ^ 32 - 2 ^ 31 = signed_take_bit 31 (k :: int)"
  "(k + 2 ^ 63) mod 2 ^ 64 - 2 ^ 63 = signed_take_bit 63 (k :: int)"
  by (simp_all add: signed_take_bit_eq_take_bit_shift take_bit_eq_mod)

lemma uint_take_bit_of_int:
  assumes "n \<le> 64"
  shows "uint (take_bit n (word_of_int k :: u64)) = k mod 2 ^ n"
proof -
  have "uint (word_of_int k :: u64) = k mod 2 ^ 64" by (simp add: uint_word_of_int)
  then have "uint (take_bit n (word_of_int k :: u64)) = k mod 2 ^ 64 mod 2 ^ n"
    unfolding unsigned_take_bit_eq by (simp only: take_bit_eq_mod)
  also have "\<dots> = k mod 2 ^ n" using assms by (intro mod_mod_cancel le_imp_power_dvd)
  finally show ?thesis .
qed

lemma register_form_of_int:
  assumes "integer t"
  shows "type_value t (register_form t (word_of_int k)) = go_wrap t k"
proof -
  consider "t = TypeUint64" | "t = TypeInt64" | "t = TypeUint32" | "t = TypeInt32" | "t = TypeUint8"
    using assms by (auto simp: integer_def)
  then show ?thesis
  proof cases
    case 1
    then show ?thesis by (simp add: type_value_def register_form_def go_wrap_def signed_type_def uint_word_of_int)
  next
    case 2
    then show ?thesis
      by (simp add: type_value_def register_form_def go_wrap_def signed_type_def go_wrap_signed [symmetric] sint_sbintrunc')
  next
    case 3
    then show ?thesis
      using uint_take_bit_of_int [of 32 k] by (simp add: type_value_def register_form_def go_wrap_def signed_type_def)
  next
    case 4
    then show ?thesis
      by (simp add: type_value_def register_form_def go_wrap_def signed_type_def go_wrap_signed [symmetric] low_of_int
          signed_scast_eq sint_sbintrunc')
  next
    case 5
    then show ?thesis
      using uint_take_bit_of_int [of 8 k] by (simp add: type_value_def register_form_def go_wrap_def signed_type_def)
  qed
qed


lemma wrapped_word: "integer t \<Longrightarrow> register_form t (word_of_int k) = word_of_int (go_wrap t k)"
  using register_form_of_int [of t k] word_of_type_value by metis

lemma go_wrap_idem: "integer t \<Longrightarrow> go_wrap t (go_wrap t k) = go_wrap t k"
  using register_form_of_int [of t "go_wrap t k"] register_form_of_int [of t k] wrapped_word [of t k]
    register_form_idem [of t "word_of_int k"] by metis

lemma in_range_wrap: "integer t \<Longrightarrow> in_range t (go_wrap t k)"
  by (auto simp: in_range_def go_wrap_idem integer_def)

lemma in_range_plain: "in_range t k \<Longrightarrow> plain_scalar t"
  by (auto simp: in_range_def plain_scalar_def split: if_splits)

lemma in_range_bool: "in_range TypeBool k \<longleftrightarrow> k = 0 \<or> k = 1"
  by (simp add: in_range_def)

lemma in_range_form:
  assumes "in_range t k"
  shows "register_form t (word_of_int k) = word_of_int k" and "type_value t (word_of_int k) = k"
proof -
  have "register_form t (word_of_int k) = word_of_int k \<and> type_value t (word_of_int k) = k"
  proof (cases "t = TypeBool")
    case True
    then show ?thesis using assms by (auto simp: in_range_def register_form_def type_value_def signed_type_def)
  next
    case False
    then have "integer t" "go_wrap t k = k" using assms by (auto simp: in_range_def)
    then show ?thesis using wrapped_word [of t k] register_form_of_int [of t k] by simp
  qed
  then show "register_form t (word_of_int k) = word_of_int k" "type_value t (word_of_int k) = k" by simp_all
qed

section \<open>The state of the lowering\<close>

abbreviation values_of :: "lower_state \<Rightarrow> ir_value list" where
  "values_of s \<equiv> fn_Values (low_Function s)"

text \<open>No variable lives in memory, every variable has a register of its own, of the type of the variable.\<close>

definition sound :: "(nat \<Rightarrow> ir_type) \<Rightarrow> lower_state \<Rightarrow> bool" where
  "sound \<tau> s \<longleftrightarrow> low_MemoryVariables s = Map.empty \<and>
     (\<forall>key i. low_Variables s key = Some i \<longrightarrow>
        unat i < length (values_of s) \<and> value_Type (values_of s ! unat i) = \<tau> key) \<and>
     (\<forall>key key' i. low_Variables s key = Some i \<longrightarrow> low_Variables s key' = Some i \<longrightarrow> key = key')"

text \<open>The registers of the variables in scope hold their values.\<close>

definition store_held :: "(nat \<Rightarrow> ir_type) \<Rightarrow> nat list \<Rightarrow> lower_state \<Rightarrow> go_store \<Rightarrow> ir_env \<Rightarrow> bool" where
  "store_held \<tau> scope s \<sigma> env \<longleftrightarrow>
     (\<forall>key \<in> set scope. \<exists>i. low_Variables s key = Some i \<and> env i = word_of_int (\<sigma> key) \<and> in_range (\<tau> key) (\<sigma> key))"

definition same_maps :: "lower_state \<Rightarrow> lower_state \<Rightarrow> bool" where
  "same_maps s t \<longleftrightarrow> low_Variables t = low_Variables s \<and> low_MemoryVariables t = low_MemoryVariables s"

definition agree :: "nat \<Rightarrow> ir_env \<Rightarrow> ir_env \<Rightarrow> bool" where
  "agree n env env' \<longleftrightarrow> (\<forall>i. unat i < n \<longrightarrow> env' i = env i)"

lemma agree_refl [simp]: "agree n env env"
  by (simp add: agree_def)

lemma agree_trans: "agree m env env' \<Longrightarrow> agree n env' env'' \<Longrightarrow> m \<le> n \<Longrightarrow> agree m env env''"
  by (simp add: agree_def)

lemma agree_fresh: "n \<le> unat d \<Longrightarrow> agree n env (env(d := v))"
  by (auto simp: agree_def)

lemma sound_mono: "sound \<tau> s \<Longrightarrow> same_maps s t \<Longrightarrow> prefix (values_of s) (values_of t) \<Longrightarrow> sound \<tau> t"
  unfolding sound_def same_maps_def prefix_def by (fastforce simp: nth_append)

lemma store_held_mono:
  assumes "store_held \<tau> scope s \<sigma> env" and "sound \<tau> s" and "agree (length (values_of s)) env env'"
    and "low_Variables s \<subseteq>\<^sub>m low_Variables t"
  shows "store_held \<tau> scope t \<sigma> env'"
  unfolding store_held_def
proof
  fix key assume "key \<in> set scope"
  then obtain i where i: "low_Variables s key = Some i" "env i = word_of_int (\<sigma> key)" "in_range (\<tau> key) (\<sigma> key)"
    using assms(1) by (auto simp: store_held_def)
  have "unat i < length (values_of s)" using assms(2) i(1) by (auto simp: sound_def)
  then have "env' i = word_of_int (\<sigma> key)" using assms(3) i(2) by (simp add: agree_def)
  moreover have "low_Variables t key = Some i" using assms(4) i(1) by (metis domI map_le_def)
  ultimately show "\<exists>i. low_Variables t key = Some i \<and> env' i = word_of_int (\<sigma> key) \<and> in_range (\<tau> key) (\<sigma> key)"
    using i(3) by blast
qed

lemma value_type_prefix:
  assumes "prefix (values_of s) (fn_Values F)" and "unat i < length (values_of s)"
  shows "value_type F i = value_Type (values_of s ! unat i)"
  using assms by (auto simp: value_type_def Function_Value_def Let_def prefix_def nth_append)

lemma keeps_emits: "emits code s t \<Longrightarrow> prefix (values_of s) (values_of t)"
  by (simp add: emits_def)

section \<open>Emitting an operation\<close>

lemma newTemporary_Inr:
  assumes "newTemporary t s = Inr (d, u)" and "length (values_of u) \<le> 2 ^ 32"
  shows "emits [] s u" and "same_maps s u" and "unat d = length (values_of s)"
    and "length (values_of u) = Suc (length (values_of s))" and "value_Type (values_of u ! unat d) = t"
proof -
  show e: "emits [] s u"
    using assms(1) unfolding newTemporary_def
    by (auto simp: lower_runs newValue_def Let_def emits_def numbered_simps numbered_def nth_append less_Suc_eq)
  have d: "d = of_nat (length (values_of s))"
    and v: "\<exists>k. values_of u = values_of s @ [\<lparr>value_ID = d, value_Name = k, value_Type = t, value_Kind = ValueTemporary\<rparr>]"
    using assms(1) unfolding newTemporary_def by (auto simp: lower_runs newValue_def Let_def)
  then show l: "length (values_of u) = Suc (length (values_of s))" by auto
  show "same_maps s u" using assms(1) by (auto simp: newTemporary_def lower_runs newValue_def Let_def same_maps_def)
  have "length (values_of s) < 2 ^ LENGTH(32)" using l assms(2) by simp
  then show u: "unat d = length (values_of s)" unfolding d by (simp add: unat_of_nat take_bit_nat_eq_self)
  show "value_Type (values_of u ! unat d) = t" using v u by auto
qed

lemma emit_Inr:
  assumes "lower_emit ins s = Inr (x, u)"
  shows "emits [ins] s u" and "same_maps s u" and "values_of u = values_of s"
  using emit_emits [OF assms] assms by (auto simp: lower_emit_def Let_def same_maps_def split: option.splits)

text \<open>A new temporary and the operation that computes it.\<close>

lemma emit_fresh:
  assumes "bindl (newTemporary t) (\<lambda>d. thenl (lower_emit (ins d)) (returnl d)) s = Inr (v, u)"
    and "length (values_of u) \<le> 2 ^ 32"
  shows "emits [ins v] s u" and "same_maps s u" and "unat v = length (values_of s)"
    and "length (values_of u) = Suc (length (values_of s))" and "value_Type (values_of u ! unat v) = t"
proof -
  obtain s1 x where n: "newTemporary t s = Inr (v, s1)" and e: "lower_emit (ins v) s1 = Inr (x, u)"
    using assms(1) by (auto simp: lower_runs)
  note e = emit_Inr [OF e]
  have "length (values_of s1) \<le> 2 ^ 32" using assms(2) e(3) by simp
  note n = newTemporary_Inr [OF n this]
  show "emits [ins v] s u" using emits_trans [OF n(1) e(1)] by simp
  show "same_maps s u" using n(2) e(2) by (simp add: same_maps_def)
  show "unat v = length (values_of s)" "length (values_of u) = Suc (length (values_of s))"
    "value_Type (values_of u ! unat v) = t"
    using n e(3) by simp_all
qed

lemma ir_code_append: "ir_code f (c @ d) env = and_then (ir_code f c env) (ir_code f d)"
  by (induction c arbitrary: env) (simp_all add: and_then_assoc and_then_def split: sum.splits)


section \<open>The effect of the operations\<close>

lemma zero_in_range: "in_range t b \<Longrightarrow> word_of_int b = (0 :: u64) \<longleftrightarrow> b = 0"
  using in_range_form(2) [of t b] by (auto simp: type_value_def split: if_splits)

lemma effect_constant:
  "ir_effect F (zero_instruction\<lparr>ins_Op := OpConst, ins_Dest := d, ins_Imm := bits, ins_Pos := p\<rparr>) env =
     Inr (env(d := register_form (value_type F d) bits))"
  by (simp add: ir_effect_def)

lemma effect_move:
  "ir_effect F (zero_instruction\<lparr>ins_Op := OpMove, ins_Dest := d, ins_X := x, ins_Pos := p\<rparr>) env =
     Inr (env(d := register_form (value_type F d) (env x)))"
  by (simp add: ir_effect_def zero_instruction_def)

lemma effect_arithmetic:
  assumes op: "arithmetic_token op"
    and t: "integer t" "value_type F d = t"
    and xy: "env x = word_of_int a" "in_range t a" "env y = word_of_int b" "in_range t b"
  shows "ir_effect F (zero_instruction\<lparr>ins_Op := mapBinaryOp op, ins_Dest := d, ins_X := x, ins_Y := y, ins_Pos := p\<rparr>) env =
    (case go_arithmetic op a b of
       None \<Rightarrow> Inl ErrVmDivisionByZero
     | Some k \<Rightarrow> Inr (env(d := word_of_int (go_wrap t k))))"
proof -
  have v: "type_value t (env x) = a" "type_value t (env y) = b" "env y = 0 \<longleftrightarrow> b = 0"
    using in_range_form(2) [OF xy(2)] in_range_form(2) [OF xy(4)] zero_in_range [OF xy(4)] xy(1,3) by simp_all
  let ?op = "mapBinaryOp op"
  let ?ins = "zero_instruction\<lparr>ins_Op := ?op, ins_Dest := d, ins_X := x, ins_Y := y, ins_Pos := p\<rparr>"
  have parts: "ins_Op ?ins = ?op" "ins_Dest ?ins = d" "ins_X ?ins = x" "ins_Y ?ins = y" by simp_all
  have eff: "ir_effect F ?ins env =
      (if (?op = OpDiv \<or> ?op = OpMod) \<and> env y = 0 then Inl ErrVmDivisionByZero
       else Inr (env(d := register_form t (word_of_int (int_operation ?op (type_value t (env x)) (type_value t (env y)))))))"
    if "?op \<in> {OpAdd, OpSub, OpMul, OpDiv, OpMod}"
    using that t unfolding ir_effect_def Let_def parts
    by (auto simp only: arithmetic_def ir_op.distinct if_True if_False simp_thms insert_iff empty_iff)
  note w = wrapped_word [OF t(1), symmetric]
  consider "op = tokADD" | "op = tokSUB" | "op = tokMUL" | "op = tokQUO" | "op = tokREM"
    using op by (auto simp: arithmetic_token_def)
  then show ?thesis
  proof cases
    case 1
    then show ?thesis using eff t v by (simp add: mapBinaryOp_def go_arithmetic_def int_operation_def w)
  next
    case 2
    then show ?thesis using eff t v by (simp add: mapBinaryOp_def go_arithmetic_def int_operation_def w)
  next
    case 3
    then show ?thesis using eff t v by (simp add: mapBinaryOp_def go_arithmetic_def int_operation_def w)
  next
    case 4
    then show ?thesis using eff t v by (simp add: mapBinaryOp_def go_arithmetic_def int_operation_def w)
  next
    case 5
    then show ?thesis using eff t v by (simp add: mapBinaryOp_def go_arithmetic_def int_operation_def w)
  qed
qed

lemma effect_comparison:
  assumes op: "comparison_token op" and d: "value_type F d = TypeBool" "value_type F x = t"
    and xy: "env x = word_of_int a" "in_range t a" "env y = word_of_int b" "in_range t b"
  shows "ir_effect F (zero_instruction\<lparr>ins_Op := mapBinaryOp op, ins_Dest := d, ins_X := x, ins_Y := y, ins_Pos := p\<rparr>) env =
    Inr (env(d := word_of_int (if go_compare op a b then 1 else 0)))"
proof -
  have v: "type_value t (env x) = a" "type_value t (env y) = b"
    using in_range_form(2) [OF xy(2)] in_range_form(2) [OF xy(4)] xy(1,3) by simp_all
  let ?op = "mapBinaryOp op"
  have cmp: "?op \<in> {OpEqual, OpNotEqual, OpLess, OpLessEqual, OpGreater, OpGreaterEqual}"
    and c: "int_comparison ?op a b = go_compare op a b"
    using op by (auto simp: comparison_token_def mapBinaryOp_def int_comparison_def go_compare_def)
  let ?ins = "zero_instruction\<lparr>ins_Op := ?op, ins_Dest := d, ins_X := x, ins_Y := y, ins_Pos := p\<rparr>"
  have parts: "ins_Op ?ins = ?op" "ins_Dest ?ins = d" "ins_X ?ins = x" "ins_Y ?ins = y" by simp_all
  have "ir_effect F ?ins env = Inr (env(d := register_form TypeBool (if int_comparison ?op (type_value t (env x)) (type_value t (env y)) then 1 else 0)))"
    using cmp d unfolding ir_effect_def Let_def parts
    by (auto simp only: arithmetic_def comparison_def ir_op.distinct if_True if_False simp_thms insert_iff empty_iff)
  then show ?thesis by (simp add: v c register_form_def)
qed

section \<open>Expressions\<close>

definition evaluates ::
  "ir_function \<Rightarrow> ir_instruction list \<Rightarrow> ir_env \<Rightarrow> value_id \<Rightarrow> nat \<Rightarrow> ir_type \<Rightarrow> int option \<Rightarrow> bool" where
  "evaluates F code env v n t r \<longleftrightarrow>
     (case r of
        None \<Rightarrow> ir_code F code env = Inl ErrVmDivisionByZero
      | Some k \<Rightarrow> in_range t k \<and>
          (\<exists>env'. ir_code F code env = Inr env' \<and> env' v = word_of_int k \<and> agree n env env'))"

definition lowers_to ::
  "(nat \<Rightarrow> ir_type) \<Rightarrow> nat list \<Rightarrow> lower_state \<Rightarrow> value_id \<Rightarrow> ir_type \<Rightarrow> (go_store \<Rightarrow> int option) \<Rightarrow> lower_state \<Rightarrow> bool" where
  "lowers_to \<tau> scope s v t ev u \<longleftrightarrow>
     (\<exists>code. emits code s u \<and> same_maps s u \<and> unat v < length (values_of u) \<and>
        value_Type (values_of u ! unat v) = t \<and>
        (\<forall>F \<sigma> env. prefix (values_of u) (fn_Values F) \<longrightarrow> store_held \<tau> scope s \<sigma> env \<longrightarrow>
           evaluates F code env v (length (values_of s)) t (ev \<sigma>)))"

lemma lowers_toI:
  assumes "emits code s u" "same_maps s u" "unat v < length (values_of u)" "value_Type (values_of u ! unat v) = t"
    and "\<And>(F :: ir_function) \<sigma> env. prefix (values_of u) (fn_Values F) \<Longrightarrow> store_held \<tau> scope s \<sigma> env \<Longrightarrow>
      evaluates F code env v (length (values_of s)) t (ev \<sigma>)"
  shows "lowers_to \<tau> scope s v t ev u"
  using assms unfolding lowers_to_def by blast

text \<open>One operand, then code that depends on its value.\<close>

lemma lowers_after:
  assumes x: "lowers_to \<tau> scope s x t ev s1" and s: "sound \<tau> s"
    and c: "emits code s1 u" "same_maps s1 u" "unat v < length (values_of u)" "value_Type (values_of u ! unat v) = r"
    and e: "\<And>(F :: ir_function) (env :: ir_env) a. prefix (values_of u) (fn_Values F) \<Longrightarrow> env x = word_of_int a \<Longrightarrow> in_range t a \<Longrightarrow>
      evaluates F code env v (length (values_of s1)) r (g a)"
  shows "lowers_to \<tau> scope s v r (\<lambda>\<sigma>. Option.bind (ev \<sigma>) g) u"
proof -
  obtain c1 where c1: "emits c1 s s1" "same_maps s s1"
    "\<And>(F :: ir_function) \<sigma> env. prefix (values_of s1) (fn_Values F) \<Longrightarrow> store_held \<tau> scope s \<sigma> env \<Longrightarrow>
      evaluates F c1 env x (length (values_of s)) t (ev \<sigma>)"
    using x unfolding lowers_to_def by blast
  note pre = keeps_emits [OF c1(1)] keeps_emits [OF c(1)]
  show ?thesis
  proof (rule lowers_toI [OF emits_trans [OF c1(1) c(1)] _ c(3,4)])
    show "same_maps s u" using c1(2) c(2) by (simp add: same_maps_def)
    fix F :: ir_function and \<sigma> env assume F: "prefix (values_of u) (fn_Values F)" and h: "store_held \<tau> scope s \<sigma> env"
    have e1: "evaluates F c1 env x (length (values_of s)) t (ev \<sigma>)"
      by (rule c1(3) [OF _ h]) (use F pre in \<open>auto intro: prefix_order.trans\<close>)
    have len: "length (values_of s) \<le> length (values_of s1)" using pre(1) by (simp add: prefix_length_le)
    show "evaluates F (c1 @ code) env v (length (values_of s)) r (Option.bind (ev \<sigma>) g)"
    proof (cases "ev \<sigma>")
      case None
      then show ?thesis using e1 by (simp add: evaluates_def ir_code_append)
    next
      case (Some a)
      then obtain env1 where env1: "ir_code F c1 env = Inr env1" "env1 x = word_of_int a" "in_range t a"
        "agree (length (values_of s)) env env1" using e1 by (auto simp: evaluates_def)
      from e [of F env1 a, OF F env1(2,3)] show ?thesis
        using env1 len by (auto simp: evaluates_def ir_code_append Some split: option.splits intro: agree_trans)
    qed
  qed
qed

text \<open>Two operands, then an operation on both.\<close>

lemma lowers_both:
  assumes x: "lowers_to \<tau> scope s x t ev s1" and y: "lowers_to \<tau> scope s1 y t ew s2" and s: "sound \<tau> s"
    and c: "emits code s2 u" "same_maps s2 u" "unat v < length (values_of u)" "value_Type (values_of u ! unat v) = r"
    and e: "\<And>(F :: ir_function) (env :: ir_env) a b. prefix (values_of u) (fn_Values F) \<Longrightarrow> value_type F x = t \<Longrightarrow> env x = word_of_int a \<Longrightarrow> in_range t a \<Longrightarrow>
      env y = word_of_int b \<Longrightarrow> in_range t b \<Longrightarrow> evaluates F code env v (length (values_of s2)) r (g a b)"
  shows "lowers_to \<tau> scope s v r (\<lambda>\<sigma>. Option.bind (ev \<sigma>) (\<lambda>a. Option.bind (ew \<sigma>) (g a))) u"
proof -
  obtain c1 where c1: "emits c1 s s1" "same_maps s s1" "unat x < length (values_of s1)" "value_Type (values_of s1 ! unat x) = t"
    "\<And>(F :: ir_function) \<sigma> env. prefix (values_of s1) (fn_Values F) \<Longrightarrow> store_held \<tau> scope s \<sigma> env \<Longrightarrow>
      evaluates F c1 env x (length (values_of s)) t (ev \<sigma>)"
    using x unfolding lowers_to_def by blast
  obtain c2 where c2: "emits c2 s1 s2" "same_maps s1 s2"
    "\<And>(F :: ir_function) \<sigma> env. prefix (values_of s2) (fn_Values F) \<Longrightarrow> store_held \<tau> scope s1 \<sigma> env \<Longrightarrow>
      evaluates F c2 env y (length (values_of s1)) t (ew \<sigma>)"
    using y unfolding lowers_to_def by blast
  note pre = keeps_emits [OF c1(1)] keeps_emits [OF c2(1)] keeps_emits [OF c(1)]
  have len: "length (values_of s) \<le> length (values_of s1)" "length (values_of s1) \<le> length (values_of s2)"
    using pre by (simp_all add: prefix_length_le)
  show ?thesis
  proof (rule lowers_toI [OF emits_trans [OF emits_trans [OF c1(1) c2(1)] c(1)] _ c(3,4)])
    show "same_maps s u" using c1(2) c2(2) c(2) by (simp add: same_maps_def)
    fix F :: ir_function and \<sigma> env assume F: "prefix (values_of u) (fn_Values F)" and h: "store_held \<tau> scope s \<sigma> env"
    have F2: "prefix (values_of s2) (fn_Values F)" using F pre(3) by (rule prefix_order.trans [rotated])
    have F1: "prefix (values_of s1) (fn_Values F)" using F2 pre(2) by (rule prefix_order.trans [rotated])
    note e1 = c1(5) [OF F1 h]
    show "evaluates F ((c1 @ c2) @ code) env v (length (values_of s)) r
        (Option.bind (ev \<sigma>) (\<lambda>a. Option.bind (ew \<sigma>) (g a)))"
    proof (cases "ev \<sigma>")
      case None
      then show ?thesis using e1 by (simp add: evaluates_def ir_code_append)
    next
      case (Some a)
      then obtain env1 where env1: "ir_code F c1 env = Inr env1" "env1 x = word_of_int a" "in_range t a"
        "agree (length (values_of s)) env env1" using e1 by (auto simp: evaluates_def)
      have "low_Variables s \<subseteq>\<^sub>m low_Variables s1" using c1(2) by (simp add: same_maps_def)
      note e2 = c2(3) [OF F2 store_held_mono [OF h s env1(4) this]]
      show ?thesis
      proof (cases "ew \<sigma>")
        case None
        then show ?thesis using e2 env1(1) by (simp add: evaluates_def ir_code_append Some)
      next
        case (Some b)
        then obtain env2 where env2: "ir_code F c2 env1 = Inr env2" "env2 y = word_of_int b" "in_range t b"
          "agree (length (values_of s1)) env1 env2" using e2 by (auto simp: evaluates_def)
        have x2: "env2 x = word_of_int a" using env1(2) env2(4) c1(3) by (simp add: agree_def)
        have "value_type F x = t" using value_type_prefix [OF F1 c1(3)] c1(4) by simp
        note e3 = e [of F env2 a b, OF F this x2 env1(3) env2(2,3)]
        have ag: "agree (length (values_of s)) env env2" using agree_trans [OF env1(4) env2(4) len(1)] .
        have "length (values_of s) \<le> length (values_of s2)" using len by simp
        then show ?thesis
          using e3 env1(1) env2(1) ag \<open>ev \<sigma> = Some a\<close> Some
          by (auto simp: evaluates_def ir_code_append split: option.splits intro: agree_trans)
      qed
    qed
  qed
qed


lemma evaluates_one:
  assumes "ir_effect F ins env = Inr (env(v := word_of_int k))" and "in_range t k" and "unat v = n"
  shows "evaluates F [ins] env v n t (Some k)"
  using assms by (auto simp: evaluates_def agree_fresh)

section \<open>Constants\<close>

lemma strict_has_type: "has_type info e t \<Longrightarrow> effectiveExpressionType C e t = Inr t" if "info_of C = info"
  using that
  by (auto simp: has_type_def effectiveExpressionType_def split: option.splits sum.splits go_type.splits)

lemma static_effective:
  "static_type (info_of C) e = t \<Longrightarrow> t \<noteq> TypeInvalid \<Longrightarrow> effectiveExpressionType C e expected = Inr t"
  by (auto simp: static_type_def effectiveExpressionType_def split: option.splits sum.splits)

lemma mod_fixed: "(m :: int) > 0 \<Longrightarrow> k mod m = k \<longleftrightarrow> 0 \<le> k \<and> k < m"
  by (metis mod_pos_pos_trivial pos_mod_bound pos_mod_sign)

lemma mod_shift_fixed: "(m :: int) > 0 \<Longrightarrow> (k + h) mod m - h = k \<longleftrightarrow> - h \<le> k \<and> k < m - h"
  using mod_fixed [of m "k + h"] by linarith

lemma go_wrap_fixed:
  "go_wrap TypeUint64 k = k \<longleftrightarrow> 0 \<le> k \<and> k < 2 ^ 64" "go_wrap TypeUint32 k = k \<longleftrightarrow> 0 \<le> k \<and> k < 2 ^ 32"
  "go_wrap TypeUint8 k = k \<longleftrightarrow> 0 \<le> k \<and> k < 2 ^ 8" "go_wrap TypeInt64 k = k \<longleftrightarrow> - (2 ^ 63) \<le> k \<and> k < 2 ^ 63"
  "go_wrap TypeInt32 k = k \<longleftrightarrow> - (2 ^ 31) \<le> k \<and> k < 2 ^ 31"
  using mod_fixed [of "2 ^ 64" k] mod_fixed [of "2 ^ 32" k] mod_fixed [of "2 ^ 8" k]
    mod_shift_fixed [of "2 ^ 64" k "2 ^ 63"] mod_shift_fixed [of "2 ^ 32" k "2 ^ 31"]
  by (simp_all add: go_wrap_def)

lemma constantBits_value:
  assumes "constant_typed c t" and "constantBits c t = Inr bits"
  shows "bits = word_of_int (const_int c)" and "in_range t (const_int c)"
proof -
  have "bits = word_of_int (const_int c) \<and> in_range t (const_int c)"
  proof (cases "t = TypeBool")
    case True
    then show ?thesis using assms
      by (cases c) (auto simp: constant_typed_def constantBits_def in_range_def split: if_splits)
  next
    case False
    then obtain k where k: "ToInt c = Some k" "integer t" "go_wrap t k = k"
      using assms(1) by (auto simp: constant_typed_def split: option.splits)
    have ck: "const_int c = k" using k(1) by (cases c) auto
    consider "t = TypeUint64" | "t = TypeInt64" | "t = TypeUint32" | "t = TypeInt32" | "t = TypeUint8"
      using k(2) by (auto simp: integer_def)
    then have "bits = word_of_int k"
    proof cases
      case 4
      have r: "- (2 ^ 31) \<le> k" "k < 2 ^ 31" using k(3) go_wrap_fixed(5) [of k] 4 by simp_all
      have "sint (word_of_int k :: u64) = k"
        using in_range_form(2) [of TypeInt64 k] go_wrap_fixed(4) [of k] r
        by (simp add: in_range_def integer_def type_value_def signed_type_def)
      then have "bits = scast (word_of_int k :: 32 word)"
        using assms(2) k(1) 4 by (auto simp: constantBits_def Int64Val_def split: if_splits)
      also have "\<dots> = register_form TypeInt32 (word_of_int k)" by (simp add: register_form_def low_of_int)
      also have "\<dots> = word_of_int k" using in_range_form(1) [of TypeInt32 k] k 4 by (simp add: in_range_def)
      finally show ?thesis .
    qed (use assms(2) k(1) in \<open>auto simp: constantBits_def constant_unsigned_def Uint64Val_def Int64Val_def split: if_splits\<close>)
    then show ?thesis using ck k False by (simp add: in_range_def)
  qed
  then show "bits = word_of_int (const_int c)" "in_range t (const_int c)" by simp_all
qed

lemma lower_constant_correct:
  assumes r: "lower_constant C e t rest s = Inr (v, u)" and ty: "typed_or_constant (info_of C) e t b"
    and fits: "length (values_of u) \<le> 2 ^ 32"
    and rest: "constant_of (info_of C) e = None \<Longrightarrow> b \<Longrightarrow> rest s = Inr (v, u) \<Longrightarrow> lowers_to \<tau> scope s v t ev u"
  shows "lowers_to \<tau> scope s v t (\<lambda>\<sigma>. or_constant (info_of C) e (ev \<sigma>)) u"
proof (cases "constant_of (info_of C) e")
  case None
  then have "rest s = Inr (v, u)" using r by (simp add: lower_constant_def constant_of_def)
  moreover have b using ty None by (simp add: typed_or_constant_def)
  ultimately show ?thesis using rest None by (simp add: or_constant_def)
next
  case (Some c)
  have ht: "has_type (info_of C) e t" and ct: "constant_typed c t" using ty Some by (simp_all add: typed_or_constant_def)
  have "bindl (liftl (effectiveExpressionType C e t)) (\<lambda>effective.
      case constantBits c effective of
        Inl err \<Rightarrow> faill (errorAt C (expr_node e) err)
      | Inr bits \<Rightarrow> emit_constant C effective bits (node_Pos (expr_node e))) s = Inr (v, u)"
    using r Some by (simp add: lower_constant_def constant_of_def)
  then obtain bits where bits: "constantBits c t = Inr bits"
    and em: "emit_constant C t bits (node_Pos (expr_node e)) s = Inr (v, u)"
    unfolding strict_has_type [OF refl ht] by (auto simp: lower_runs split: sum.splits)
  note f = emit_fresh [OF em [unfolded emit_constant_def] fits]
  note cb = constantBits_value [OF ct bits]
  show ?thesis
  proof (rule lowers_toI [OF f(1,2) _ f(5)])
    show v: "unat v < length (values_of u)" using f(3,4) by simp
    fix F :: ir_function and \<sigma> env assume F: "prefix (values_of u) (fn_Values F)"
    have "value_type F v = t" using value_type_prefix [OF F v] f(5) by simp
    then show "evaluates F [zero_instruction\<lparr>ins_Op := OpConst, ins_Dest := v, ins_Imm := bits,
        ins_Pos := position C (node_Pos (expr_node e))\<rparr>] env v (length (values_of s)) t (or_constant (info_of C) e (ev \<sigma>))"
      using cb in_range_form(1) [OF cb(2)] f(3)
      by (simp add: or_constant_def Some) (intro evaluates_one, simp_all add: effect_constant)
  qed
qed


section \<open>The recursion\<close>

definition expression_correct ::
  "lower_context \<Rightarrow> (nat \<Rightarrow> ir_type) \<Rightarrow> nat list \<Rightarrow> expr \<Rightarrow> ir_type \<Rightarrow> bool" where
  "expression_correct C \<tau> scope e t \<longleftrightarrow>
     (\<forall>s v u. lowerExpression C e t s = Inr (v, u) \<longrightarrow> well_typed (info_of C) \<tau> scope e t \<longrightarrow> sound \<tau> s \<longrightarrow>
        length (values_of u) \<le> 2 ^ 32 \<longrightarrow> lowers_to \<tau> scope s v t (\<lambda>\<sigma>. go_eval (info_of C) \<sigma> e) u)"

lemma expression_correctI:
  assumes "\<And>s v u. lowerExpression C e t s = Inr (v, u) \<Longrightarrow> well_typed (info_of C) \<tau> scope e t \<Longrightarrow> sound \<tau> s \<Longrightarrow>
      length (values_of u) \<le> 2 ^ 32 \<Longrightarrow> lowers_to \<tau> scope s v t (\<lambda>\<sigma>. go_eval (info_of C) \<sigma> e) u"
  shows "expression_correct C \<tau> scope e t"
  using assms by (auto simp: expression_correct_def)

lemma expression_correctD:
  "expression_correct C \<tau> scope e t \<Longrightarrow> lowerExpression C e t s = Inr (v, u) \<Longrightarrow>
     well_typed (info_of C) \<tau> scope e t \<Longrightarrow> sound \<tau> s \<Longrightarrow> length (values_of u) \<le> 2 ^ 32 \<Longrightarrow>
     lowers_to \<tau> scope s v t (\<lambda>\<sigma>. go_eval (info_of C) \<sigma> e) u"
  by (auto simp: expression_correct_def)

lemma untyped_correct:
  assumes "\<And>s. lowerExpression C e t s = lower_constant C e t rest s"
    and "well_typed (info_of C) \<tau> scope e t \<longleftrightarrow> typed_or_constant (info_of C) e t False"
    and "\<And>\<sigma>. go_eval (info_of C) \<sigma> e = or_constant (info_of C) e None"
  shows "expression_correct C \<tau> scope e t"
  unfolding expression_correct_def assms
  by (intro allI impI, rule lower_constant_correct [where b = False]) simp_all

lemma identifier_correct:
  assumes r: "lower_identifier C n name t s = Inr (v, u)" and s: "sound \<tau> s" and nil: "name \<noteq> ''nil''"
    and o: "info_Uses (info_of C) (node_Key n) = Some (VarObject key vname goType)" "key \<in> set scope" "\<tau> key = t"
  shows "lowers_to \<tau> scope s v t (\<lambda>\<sigma>. Some (\<sigma> key)) u"
proof -
  have "low_MemoryVariables s key = None" using s by (simp add: sound_def)
  then have "lower_variable C n name key t s = Inr (v, u)"
    using r nil o(1) by (simp add: lower_identifier_def lower_runs)
  then have v: "low_Variables s key = Some v" and u: "u = s"
    by (auto simp: lower_variable_def lower_runs split: option.splits if_splits)
  have vt: "unat v < length (values_of s)" "value_Type (values_of s ! unat v) = t"
    using s v o(3) by (auto simp: sound_def)
  show ?thesis unfolding u
  proof (rule lowers_toI [OF emits_refl _ vt])
    fix F :: ir_function and \<sigma> env assume "store_held \<tau> scope s \<sigma> env"
    then show "evaluates F [] env v (length (values_of s)) t (Some (\<sigma> key))"
      using v o(2,3) by (auto simp: store_held_def evaluates_def)
  qed (simp add: same_maps_def)
qed

lemma prefix_fits: "prefix xs ys \<Longrightarrow> length ys \<le> n \<Longrightarrow> length xs \<le> n"
  by (auto dest: prefix_length_le)

lemma lowers_to_fits: "lowers_to \<tau> scope s v t ev u \<Longrightarrow> length (values_of s) \<le> length (values_of u)"
  by (auto simp: lowers_to_def emits_def dest: prefix_length_le)

lemma lowers_to_sound: "lowers_to \<tau> scope s v t ev u \<Longrightarrow> sound \<tau> s \<Longrightarrow> sound \<tau> u"
  by (auto simp: lowers_to_def emits_def intro: sound_mono)

lemma fresh_fits:
  "bindl (newTemporary t) (\<lambda>d. thenl (lower_emit (ins d)) (returnl d)) s = Inr (v, u) \<Longrightarrow>
     length (values_of u) = Suc (length (values_of s))"
  by (auto simp: lower_runs newTemporary_def newValue_def Let_def lower_emit_def split: option.splits)

lemma negation_correct:
  assumes x: "lowers_to \<tau> scope s x t ev s1" and s: "sound \<tau> s" and t: "integer t"
    and z: "emit_constant C t 0 pos s1 = Inr (z, s2)" and d: "emit_binary C OpSub t z x pos s2 = Inr (v, u)"
    and fits: "length (values_of u) \<le> 2 ^ 32"
  shows "lowers_to \<tau> scope s v t (\<lambda>\<sigma>. Option.bind (ev \<sigma>) (\<lambda>a. Some (go_wrap t (- a)))) u"
proof -
  have l: "length (values_of s2) \<le> 2 ^ 32" using fresh_fits [OF d [unfolded emit_binary_def]] fits by simp
  note z = emit_fresh [OF z [unfolded emit_constant_def] l]
  note d = emit_fresh [OF d [unfolded emit_binary_def] fits]
  have x1: "unat x < length (values_of s1)" using x by (auto simp: lowers_to_def)
  have tz: "value_type F z = t" "value_type F v = t" if F: "prefix (values_of u) (fn_Values F)" for F :: ir_function
  proof -
    have "prefix (values_of s2) (fn_Values F)" using keeps_emits [OF d(1)] F by (rule prefix_order.trans)
    then show "value_type F z = t" using value_type_prefix z(3-5) by fastforce
    show "value_type F v = t" using value_type_prefix [OF F] d(3-5) by fastforce
  qed
  show ?thesis
  proof (rule lowers_after [OF x s emits_trans [OF z(1) d(1)] _ _ d(5)])
    show "same_maps s1 u" using z(2) d(2) by (simp add: same_maps_def)
    show "unat v < length (values_of u)" using d(3,4) by simp
    fix F :: ir_function and env :: ir_env and a
    assume F: "prefix (values_of u) (fn_Values F)" and a: "env x = word_of_int a" "in_range t a"
    let ?env = "env(z := word_of_int 0)"
    have nx: "?env x = word_of_int a" using a x1 z(3) by auto
    have r0: "in_range t 0" using t by (auto simp: in_range_def go_wrap_def)
    have e1: "ir_effect F (zero_instruction\<lparr>ins_Op := OpConst, ins_Dest := z, ins_Imm := 0, ins_Pos := position C pos\<rparr>) env =
        Inr ?env"
      using in_range_form(1) [OF r0] tz(1) [OF F] by (simp add: effect_constant)
    have "arithmetic_token tokSUB" by (simp add: arithmetic_token_def)
    note e2 = effect_arithmetic [OF this t tz(2) [OF F], of ?env z 0 x a, OF _ r0 nx a(2)]
    have e2: "ir_effect F (zero_instruction\<lparr>ins_Op := OpSub, ins_Dest := v, ins_X := z, ins_Y := x,
        ins_Pos := position C pos\<rparr>) ?env = Inr (?env(v := word_of_int (go_wrap t (- a))))"
      using e2 by (simp add: mapBinaryOp_def go_arithmetic_def)
    have "agree (length (values_of s1)) env (?env(v := word_of_int (go_wrap t (- a))))"
      using z(3,4) d(3) by (auto simp: agree_def)
    then show "evaluates F ([zero_instruction\<lparr>ins_Op := OpConst, ins_Dest := z, ins_Imm := 0, ins_Pos := position C pos\<rparr>] @
        [zero_instruction\<lparr>ins_Op := OpSub, ins_Dest := v, ins_X := z, ins_Y := x, ins_Pos := position C pos\<rparr>])
        env v (length (values_of s1)) t (Some (go_wrap t (- a)))"
      using e1 e2 in_range_wrap [OF t] by (simp add: evaluates_def)
  qed
qed

lemma conversion_correct:
  assumes x: "lowers_to \<tau> scope s x t ev s1" and s: "sound \<tau> s" and r: "integer r"
    and m: "bindl (newTemporary r) (\<lambda>d. thenl (emit_move C d x pos) (returnl d)) s1 = Inr (v, u)"
    and fits: "length (values_of u) \<le> 2 ^ 32"
  shows "lowers_to \<tau> scope s v r (\<lambda>\<sigma>. Option.bind (ev \<sigma>) (\<lambda>a. Some (go_wrap r a))) u"
proof -
  note d = emit_fresh [OF m [unfolded emit_move_def] fits]
  show ?thesis
  proof (rule lowers_after [OF x s d(1,2) _ d(5)])
    show v: "unat v < length (values_of u)" using d(3,4) by simp
    fix F :: ir_function and env :: ir_env and a
    assume F: "prefix (values_of u) (fn_Values F)" and a: "env x = word_of_int a"
    have "value_type F v = r" using value_type_prefix [OF F v] d(5) by simp
    then show "evaluates F [zero_instruction\<lparr>ins_Op := OpMove, ins_Dest := v, ins_X := x, ins_Pos := position C pos\<rparr>]
        env v (length (values_of s1)) r (Some (go_wrap r a))"
      using a wrapped_word [OF r, of a] in_range_wrap [OF r] d(3) by (intro evaluates_one) (simp_all add: effect_move)
  qed
qed

lemma binary_correct:
  assumes x: "lowers_to \<tau> scope s x t ev s1" and y: "lowers_to \<tau> scope s1 y t ew s2" and s: "sound \<tau> s"
    and d: "emit_binary C (mapBinaryOp op) (if comparison_token op then TypeBool else t) x y pos s2 = Inr (v, u)"
    and op: "comparison_token op \<or> arithmetic_token op \<and> integer t" and fits: "length (values_of u) \<le> 2 ^ 32"
  shows "lowers_to \<tau> scope s v (if comparison_token op then TypeBool else t)
    (\<lambda>\<sigma>. Option.bind (ev \<sigma>) (\<lambda>a. Option.bind (ew \<sigma>) (\<lambda>b.
      if comparison_token op then Some (if go_compare op a b then 1 else 0)
      else map_option (go_wrap t) (go_arithmetic op a b)))) u"
proof -
  note d = emit_fresh [OF d [unfolded emit_binary_def] fits]
  show ?thesis
  proof (rule lowers_both [OF x y s d(1,2) _ d(5)])
    show v: "unat v < length (values_of u)" using d(3,4) by simp
    fix F :: ir_function and env :: ir_env and a b
    assume F: "prefix (values_of u) (fn_Values F)" and tx: "value_type F x = t"
      and ab: "env x = word_of_int a" "in_range t a" "env y = word_of_int b" "in_range t b"
    have tv: "value_type F v = (if comparison_token op then TypeBool else t)"
      using value_type_prefix [OF F v] d(5) by simp
    show "evaluates F [zero_instruction\<lparr>ins_Op := mapBinaryOp op, ins_Dest := v, ins_X := x, ins_Y := y,
        ins_Pos := position C pos\<rparr>] env v (length (values_of s2)) (if comparison_token op then TypeBool else t)
      (if comparison_token op then Some (if go_compare op a b then 1 else 0)
       else map_option (go_wrap t) (go_arithmetic op a b))"
    proof (cases "comparison_token op")
      case True
      then show ?thesis
        using effect_comparison [OF True _ tx ab, of v] tv d(3)
        by (simp only: if_True) (intro evaluates_one, auto simp: in_range_bool)
    next
      case False
      then have at: "arithmetic_token op" "integer t" using op by auto
      note e = effect_arithmetic [OF at _ ab, of F v "position C pos"]
      show ?thesis
      proof (cases "go_arithmetic op a b")
        case None
        then show ?thesis using e tv False by (simp add: evaluates_def)
      next
        case (Some k)
        then show ?thesis
          using e tv False d(3) in_range_wrap [OF at(2)]
          by (simp add: if_not_P del: of_int_eq_iff) (intro evaluates_one, simp_all)
      qed
    qed
  qed
qed


lemma operand_type_lowered:
  assumes "binaryOperandType C n x op y = Inr t" and "comparison_token op"
  shows "t = operand_type (info_of C) x y"
  using assms
  by (auto simp: binaryOperandType_def comparison_token_def operand_type_def static_type_def strict_type_of_def
      split: option.splits sum.splits)

lemma arithmetic_type_lowered:
  assumes "arithmetic_token op" and "static_type (info_of C) (BinaryExpr n x op y) = t" and "integer t"
  shows "binaryOperandType C n x op y = Inr t"
proof -
  have "t \<noteq> TypeInvalid" using assms(3) by (auto simp: integer_def)
  moreover have "op \<noteq> tokEQL \<and> op \<noteq> tokNEQ \<and> op \<noteq> tokLSS \<and> op \<noteq> tokLEQ \<and> op \<noteq> tokGTR \<and> op \<noteq> tokGEQ"
    using assms(1) by (auto simp: arithmetic_token_def)
  ultimately show ?thesis using static_effective [OF assms(2)] by (simp add: binaryOperandType_def)
qed

lemma comparison_op_token: "mapBinaryOp op \<noteq> OpInvalid \<Longrightarrow> comparison_op (mapBinaryOp op) = comparison_token op"
  by (auto simp: comparison_op_def mapBinaryOp_def comparison_token_def split: go_token.splits)

lemma bind_map_option: "Option.bind r (\<lambda>a. Some (g a)) = map_option g r"
  by (cases r) simp_all

lemma lowerExpression_correct: "expression_correct C \<tau> scope e t"
proof (induction "info_of C" \<tau> scope e t rule: well_typed.induct)
  case (1 \<tau> scope n x t)
  show ?case
  proof (rule expression_correctI)
    fix s v u
    assume r: "lowerExpression C (ParenExpr n x) t s = Inr (v, u)" and s: "sound \<tau> s"
      and w: "well_typed (info_of C) \<tau> scope (ParenExpr n x) t" and l: "length (values_of u) \<le> 2 ^ 32"
    show "lowers_to \<tau> scope s v t (\<lambda>\<sigma>. go_eval (info_of C) \<sigma> (ParenExpr n x)) u"
      using lower_constant_correct [OF r [simplified] w [simplified] l] expression_correctD [OF 1 _ _ s l] by simp
  qed
next
  case (2 \<tau> scope n name t)
  show ?case
  proof (rule expression_correctI)
    fix s v u
    assume r: "lowerExpression C (Ident n name) t s = Inr (v, u)" and s: "sound \<tau> s"
      and w: "well_typed (info_of C) \<tau> scope (Ident n name) t" and l: "length (values_of u) \<le> 2 ^ 32"
    let ?ev = "\<lambda>\<sigma>. case info_Uses (info_of C) (node_Key n) of Some (VarObject key vname t) \<Rightarrow> Some (\<sigma> key) | _ \<Rightarrow> None"
    have "lowers_to \<tau> scope s v t (\<lambda>\<sigma>. or_constant (info_of C) (Ident n name) (?ev \<sigma>)) u"
    proof (rule lower_constant_correct [OF r [simplified] w [simplified] l])
      assume b: "name \<noteq> ''nil'' \<and> (case info_Uses (info_of C) (node_Key n) of
          Some (VarObject key vname goType) \<Rightarrow> key \<in> set scope \<and> \<tau> key = t | _ \<Rightarrow> False)"
        and i: "lower_identifier C n name t s = Inr (v, u)"
      then obtain key vname goType where "info_Uses (info_of C) (node_Key n) = Some (VarObject key vname goType)"
        "key \<in> set scope" "\<tau> key = t" by (auto split: option.splits go_object.splits)
      with identifier_correct [OF i s _ this] b show "lowers_to \<tau> scope s v t ?ev u" by simp
    qed
    then show "lowers_to \<tau> scope s v t (\<lambda>\<sigma>. go_eval (info_of C) \<sigma> (Ident n name)) u" by simp
  qed
next
  case (3 \<tau> scope n op x t)
  show ?case
  proof (rule expression_correctI)
    fix s v u
    let ?e = "UnaryExpr n op x"
    assume r: "lowerExpression C ?e t s = Inr (v, u)" and s: "sound \<tau> s"
      and w: "well_typed (info_of C) \<tau> scope ?e t" and l: "length (values_of u) \<le> 2 ^ 32"
    let ?g = "\<lambda>v. if op = tokSUB then go_wrap (static_type (info_of C) ?e) (- v) else v"
    have "lowers_to \<tau> scope s v t (\<lambda>\<sigma>. or_constant (info_of C) ?e (map_option ?g (go_eval (info_of C) \<sigma> x))) u"
    proof (rule lower_constant_correct [OF r [simplified] w [simplified] l])
      assume b: "(op = tokADD \<or> op = tokSUB) \<and> integer t \<and> static_type (info_of C) ?e = t \<and> well_typed (info_of C) \<tau> scope x t"
        and un: "lowerUnary C n op x t (lowerExpression C x) (lowerAddressExpression C x) s = Inr (v, u)"
      have "t \<noteq> TypeInvalid" using b by (auto simp: integer_def)
      then have eff: "effectiveExpressionType C ?e t = Inr t" using static_effective b by blast
      obtain v1 s1 where x: "lowerExpression C x t s = Inr (v1, s1)"
        and rest: "if op = tokADD then v1 = v \<and> s1 = u else
          \<exists>z s2. emit_constant C t 0 (node_Pos n) s1 = Inr (z, s2) \<and>
            emit_binary C OpSub t z v1 (node_Pos n) s2 = Inr (v, u)"
        using un eff b by (auto simp: lowerUnary_def lower_runs split: if_splits)
      show "lowers_to \<tau> scope s v t (\<lambda>\<sigma>. map_option ?g (go_eval (info_of C) \<sigma> x)) u"
      proof (cases "op = tokADD")
        case True
        then show ?thesis using expression_correctD [OF 3 _ _ s l] x rest b by (simp add: option.map_ident)
      next
        case False
        then obtain z s2 where z: "emit_constant C t 0 (node_Pos n) s1 = Inr (z, s2)"
          and d: "emit_binary C OpSub t z v1 (node_Pos n) s2 = Inr (v, u)" using rest by auto
        have "length (values_of s1) \<le> 2 ^ 32"
          using fresh_fits [OF d [unfolded emit_binary_def]] fresh_fits [OF z [unfolded emit_constant_def]] l by simp
        then have "lowers_to \<tau> scope s v1 t (\<lambda>\<sigma>. go_eval (info_of C) \<sigma> x) s1"
          using expression_correctD [OF 3 x _ s] b by simp
        have "op = tokSUB" "integer t" "static_type (info_of C) ?e = t" using b False by auto
        then show ?thesis
          using negation_correct [OF \<open>lowers_to \<tau> scope s v1 t _ s1\<close> s _ z d l] by (simp add: bind_map_option)
      qed
    qed
    then show "lowers_to \<tau> scope s v t (\<lambda>\<sigma>. go_eval (info_of C) \<sigma> ?e) u" by simp
  qed
next
  case (4 \<tau> scope n x op y t)
  show ?case
  proof (rule expression_correctI)
    fix s v u
    let ?e = "BinaryExpr n x op y"
    assume r: "lowerExpression C ?e t s = Inr (v, u)" and s: "sound \<tau> s"
      and w: "well_typed (info_of C) \<tau> scope ?e t" and l: "length (values_of u) \<le> 2 ^ 32"
    let ?g = "\<lambda>T a b. if comparison_token op then Some (if go_compare op a b then 1 else 0)
       else map_option (go_wrap T) (go_arithmetic op a b)"
    let ?ev = "\<lambda>\<sigma>. Option.bind (go_eval (info_of C) \<sigma> x) (\<lambda>a. Option.bind (go_eval (info_of C) \<sigma> y)
        (?g (static_type (info_of C) ?e) a))"
    have "lowers_to \<tau> scope s v t (\<lambda>\<sigma>. or_constant (info_of C) ?e (?ev \<sigma>)) u"
    proof (rule lower_constant_correct [OF r [simplified] w [simplified] l])
      assume b: "if comparison_token op then
          t = TypeBool \<and> (let r = operand_type (info_of C) x y in plain_scalar r \<and>
            (op = tokEQL \<or> op = tokNEQ \<or> integer r) \<and>
            well_typed (info_of C) \<tau> scope x r \<and> well_typed (info_of C) \<tau> scope y r)
        else
          arithmetic_token op \<and> integer t \<and> static_type (info_of C) ?e = t \<and>
          well_typed (info_of C) \<tau> scope x t \<and> well_typed (info_of C) \<tau> scope y t"
        and bin: "lowerBinary C n x op y (lowerExpression C x) (lowerExpression C y) s = Inr (v, u)"
      obtain T v1 s1 v2 s2 where T: "binaryOperandType C n x op y = Inr T"
        and x: "lowerExpression C x T s = Inr (v1, s1)" and y: "lowerExpression C y T s1 = Inr (v2, s2)"
        and op: "mapBinaryOp op \<noteq> OpInvalid"
        and d: "emit_binary C (mapBinaryOp op) (if comparison_op (mapBinaryOp op) then TypeBool else T) v1 v2 (node_Pos n) s2 = Inr (v, u)"
        using bin unfolding lowerBinary_def by (auto simp: lower_runs split: if_splits)
      have t: "t = (if comparison_token op then TypeBool else T)"
        and wxy: "well_typed (info_of C) \<tau> scope x T" "well_typed (info_of C) \<tau> scope y T"
        and ok: "comparison_token op \<or> arithmetic_token op \<and> integer T"
        and T': "\<not> comparison_token op \<Longrightarrow> static_type (info_of C) ?e = T"
        using b operand_type_lowered [OF T] arithmetic_type_lowered [of op C n x y t] T
        by (auto simp: Let_def split: if_splits)
      have l2: "length (values_of s2) \<le> 2 ^ 32" using fresh_fits [OF d [unfolded emit_binary_def]] l by simp
      obtain code where "emits code s1 s2" using extendsD [OF extends_lowerExpression(1) y] by blast
      then have l1: "length (values_of s1) \<le> 2 ^ 32" using prefix_fits [OF _ l2] keeps_emits by blast
      have IH: "expression_correct C \<tau> scope x T" "expression_correct C \<tau> scope y T"
        using 4 t b T operand_type_lowered [OF T] by (cases "comparison_token op"; auto simp: Let_def)+
      note cx = expression_correctD [OF IH(1) x wxy(1) s l1]
      note cy = expression_correctD [OF IH(2) y wxy(2) lowers_to_sound [OF cx s] l2]
      have eq: "?g (static_type (info_of C) ?e) a = ?g T a" for a using T' by auto
      show "lowers_to \<tau> scope s v t ?ev u"
        unfolding eq t using binary_correct [OF cx cy s d [unfolded comparison_op_token [OF op]] ok l] .
    qed
    then show "lowers_to \<tau> scope s v t (\<lambda>\<sigma>. go_eval (info_of C) \<sigma> ?e) u" by simp
  qed
next
  case (5 \<tau> scope n f x ellipsis t)
  show ?case
  proof (rule expression_correctI)
    fix s v u
    let ?e = "CallExpr n f [x] ellipsis"
    assume r: "lowerExpression C ?e t s = Inr (v, u)" and s: "sound \<tau> s"
      and w: "well_typed (info_of C) \<tau> scope ?e t" and l: "length (values_of u) \<le> 2 ^ 32"
    have "well_typed (info_of C) \<tau> scope ?e t" using w .
    have "lowers_to \<tau> scope s v t (\<lambda>\<sigma>. or_constant (info_of C) ?e
      (case f of
        Ident fn name \<Rightarrow>
          (case info_Uses (info_of C) (node_Key fn) of
             Some (TypeNameObject tname t) \<Rightarrow>
               (case strictIRType t of
                  Inr r \<Rightarrow> map_option (go_wrap r) (go_eval (info_of C) \<sigma> x)
                | Inl _ \<Rightarrow> None)
           | _ \<Rightarrow> None)
      | _ \<Rightarrow> None)) u"
    proof (rule lower_constant_correct [OF r [simplified] w [simplified] l])
      assume b: "case f of
        Ident fn name \<Rightarrow>
          (case info_Uses (info_of C) (node_Key fn) of
             Some (TypeNameObject tname goType) \<Rightarrow>
               strictIRType goType = Inr t \<and> integer t \<and> integer (static_type (info_of C) x) \<and>
               well_typed (info_of C) \<tau> scope x (static_type (info_of C) x)
           | _ \<Rightarrow> False)
        | _ \<Rightarrow> False"
        and call: "lowerCall C n f [(x, lowerExpression C x)] s = Inr (v, u)"
      then obtain fn name tname goType where f: "f = Ident fn name"
        and o: "info_Uses (info_of C) (node_Key fn) = Some (TypeNameObject tname goType)"
        and ty: "strictIRType goType = Inr t" "integer t" "integer (static_type (info_of C) x)"
          "well_typed (info_of C) \<tau> scope x (static_type (info_of C) x)"
        by (auto split: expr.splits option.splits go_object.splits)
      let ?T = "static_type (info_of C) x"
      have "?T \<noteq> TypeInvalid" using ty(3) by (auto simp: integer_def)
      note eff = static_effective [OF refl this]
      obtain v1 s1 where x: "lowerExpression C x ?T s = Inr (v1, s1)"
        and m: "bindl (newTemporary t) (\<lambda>d. thenl (emit_move C d v1 (node_Pos n)) (returnl d)) s1 = Inr (v, u)"
        using call f o ty(1,2) eff by (auto simp: lowerCall_def lower_conversion_def Let_def bindl_Inr liftl_Inr)
      have "length (values_of s1) \<le> 2 ^ 32" using fresh_fits [OF m [unfolded emit_move_def]] l by simp
      then have "lowers_to \<tau> scope s v1 ?T (\<lambda>\<sigma>. go_eval (info_of C) \<sigma> x) s1"
        using expression_correctD [OF 5 [OF f o] x ty(4) s] by blast
      from conversion_correct [OF this s ty(2) m l]
      show "lowers_to \<tau> scope s v t (\<lambda>\<sigma>. case f of
        Ident fn name \<Rightarrow>
          (case info_Uses (info_of C) (node_Key fn) of
             Some (TypeNameObject tname t) \<Rightarrow>
               (case strictIRType t of
                  Inr r \<Rightarrow> map_option (go_wrap r) (go_eval (info_of C) \<sigma> x)
                | Inl _ \<Rightarrow> None)
           | _ \<Rightarrow> None)
      | _ \<Rightarrow> None) u"
        by (simp add: f o ty(1) bind_map_option)
    qed
    then show "lowers_to \<tau> scope s v t (\<lambda>\<sigma>. go_eval (info_of C) \<sigma> ?e) u" by simp
  qed
qed (rule untyped_correct, simp_all)+

end
