(* ===== verification/StatementFacts.thy ===== *)
theory StatementFacts
  imports ExprFacts
begin

text \<open>
  The lowering of assignments and declarations is correct: the code it emits in the current block
  takes registers that hold the variables to registers that hold the variables the statement leaves,
  or traps where Go panics.
\<close>

section \<open>Code for a statement\<close>

definition outcome_reached ::
  "(nat \<Rightarrow> ir_type) \<Rightarrow> nat list \<Rightarrow> lower_state \<Rightarrow> vm_error + ir_env \<Rightarrow> go_outcome \<Rightarrow> bool" where
  "outcome_reached \<tau> scope t r out \<longleftrightarrow>
     (case out of
        Continues \<sigma> \<Rightarrow> \<exists>env. r = Inr env \<and> store_held \<tau> scope t \<sigma> env
      | Panics \<Rightarrow> r = Inl ErrVmDivisionByZero
      | Returns v \<Rightarrow> False)"

lemma outcome_reached_simps [simp]:
  "outcome_reached \<tau> scope t r (Continues \<sigma>) \<longleftrightarrow> (\<exists>env. r = Inr env \<and> store_held \<tau> scope t \<sigma> env)"
  "outcome_reached \<tau> scope t r Panics \<longleftrightarrow> r = Inl ErrVmDivisionByZero"
  "\<not> outcome_reached \<tau> scope t r (Returns v)"
  by (simp_all add: outcome_reached_def)

definition carries_out ::
  "(nat \<Rightarrow> ir_type) \<Rightarrow> nat list \<Rightarrow> nat list \<Rightarrow> lower_state \<Rightarrow> lower_state \<Rightarrow> (go_store \<Rightarrow> go_outcome) \<Rightarrow> bool" where
  "carries_out \<tau> scope scope' s t ex \<longleftrightarrow>
     sound \<tau> t \<and>
     (\<exists>code. emits code s t \<and>
        (\<forall>F \<sigma> env. prefix (values_of t) (fn_Values F) \<longrightarrow> store_held \<tau> scope s \<sigma> env \<longrightarrow>
           outcome_reached \<tau> scope' t (ir_code F code env) (ex \<sigma>)))"

lemma carries_outI:
  assumes "sound \<tau> t" "emits code s t"
    and "\<And>(F :: ir_function) \<sigma> env. prefix (values_of t) (fn_Values F) \<Longrightarrow> store_held \<tau> scope s \<sigma> env \<Longrightarrow>
      outcome_reached \<tau> scope' t (ir_code F code env) (ex \<sigma>)"
  shows "carries_out \<tau> scope scope' s t ex"
  using assms unfolding carries_out_def by blast

lemma carries_out_trans:
  assumes s: "carries_out \<tau> scope scope' s t ex" and t: "carries_out \<tau> scope' scope'' t u ey"
  shows "carries_out \<tau> scope scope'' s u (\<lambda>\<sigma>. case ex \<sigma> of Continues \<sigma>' \<Rightarrow> ey \<sigma>' | out \<Rightarrow> out)"
proof -
  obtain c where c: "emits c s t"
    "\<And>(F :: ir_function) \<sigma> env. prefix (values_of t) (fn_Values F) \<Longrightarrow> store_held \<tau> scope s \<sigma> env \<Longrightarrow>
       outcome_reached \<tau> scope' t (ir_code F c env) (ex \<sigma>)"
    using s unfolding carries_out_def by blast
  obtain d where d: "emits d t u" "sound \<tau> u"
    "\<And>(F :: ir_function) \<sigma> env. prefix (values_of u) (fn_Values F) \<Longrightarrow> store_held \<tau> scope' t \<sigma> env \<Longrightarrow>
       outcome_reached \<tau> scope'' u (ir_code F d env) (ey \<sigma>)"
    using t unfolding carries_out_def by blast
  show ?thesis
  proof (rule carries_outI [OF d(2) emits_trans [OF c(1) d(1)]])
    fix F :: ir_function and \<sigma> env
    assume F: "prefix (values_of u) (fn_Values F)" and h: "store_held \<tau> scope s \<sigma> env"
    have "prefix (values_of t) (fn_Values F)" using keeps_emits [OF d(1)] F by (rule prefix_order.trans)
    from c(2) [OF this h] show "outcome_reached \<tau> scope'' u (ir_code F (c @ d) env)
        (case ex \<sigma> of Continues \<sigma>' \<Rightarrow> ey \<sigma>' | out \<Rightarrow> out)"
      using d(3) [OF F] by (cases "ex \<sigma>") (auto simp: ir_code_append)
  qed
qed

lemma store_held_subset:
  "store_held \<tau> scope s \<sigma> env \<Longrightarrow> set scope' \<subseteq> set scope \<Longrightarrow> store_held \<tau> scope' s \<sigma> env"
  by (auto simp: store_held_def)

lemma store_held_vars:
  "store_held \<tau> scope s \<sigma> env \<Longrightarrow> low_Variables s \<subseteq>\<^sub>m low_Variables t \<Longrightarrow> store_held \<tau> scope t \<sigma> env"
  unfolding store_held_def map_le_def by (metis domI)

section \<open>Targets\<close>

definition target_ready :: "(nat \<Rightarrow> ir_type) \<Rightarrow> lower_state \<Rightarrow> nat \<Rightarrow> assignment_target \<Rightarrow> bool" where
  "target_ready \<tau> s key target \<longleftrightarrow>
     low_Variables s key = Some (tgt_Direct target) \<and> tgt_Direct target \<noteq> NoValue \<and>
     tgt_Type target = \<tau> key \<and> plain_scalar (\<tau> key)"

lemma target_ready_mono:
  "target_ready \<tau> s key target \<Longrightarrow> low_Variables s \<subseteq>\<^sub>m low_Variables t \<Longrightarrow> target_ready \<tau> t key target"
  by (auto simp: target_ready_def map_le_def) (metis domI)

lemma small_not_NoValue:
  assumes "unat i < n" and "n < 2 ^ 32"
  shows "(i :: value_id) \<noteq> NoValue"
  using assms by auto

lemma emits_nothing:
  "emits code s t \<Longrightarrow> fn_Blocks (low_Function t) = fn_Blocks (low_Function s) \<Longrightarrow> emits [] s t"
  by (simp add: emits_def)

lemma plain_not_array: "plain_scalar t \<Longrightarrow> \<not> is_array t"
  by (auto simp: plain_scalar_def integer_def is_array_def ArrayElement_def Let_def)

lemma register_target_ready:
  assumes r: "register_target C n name key t defining s = Inr (target, u)"
    and s: "sound \<tau> s" and t: "\<tau> key = t" "plain_scalar t" and fits: "length (values_of u) < 2 ^ 32"
  shows "emits [] s u" and "sound \<tau> u" and "target_ready \<tau> u key target"
proof -
  obtain code where em: "emits code s u" using extendsD [OF extends_register_target r] by blast
  have "sound \<tau> u \<and> target_ready \<tau> u key target \<and> fn_Blocks (low_Function u) = fn_Blocks (low_Function s)"
  proof (cases "low_Variables s key")
    case (Some i)
    then have u: "u = s" "target = no_target\<lparr>tgt_Direct := i, tgt_Type := t\<rparr>"
      using r by (auto simp: register_target_def lower_runs)
    have "unat i < length (values_of s)" using s Some by (auto simp: sound_def)
    then have "i \<noteq> NoValue" using small_not_NoValue fits u by blast
    then show ?thesis using u s t Some by (simp add: target_ready_def)
  next
    case None
    let ?n = "length (values_of s)"
    have u: "low_Variables u = (low_Variables s)(key \<mapsto> of_nat ?n)"
      "low_MemoryVariables u = low_MemoryVariables s"
      "values_of u = values_of s @ [\<lparr>value_ID = of_nat ?n, value_Name = name, value_Type = t, value_Kind = ValueLocal\<rparr>]"
      "fn_Blocks (low_Function u) = fn_Blocks (low_Function s)"
      "tgt_Direct target = of_nat ?n" "tgt_Type target = t"
      using r None by (auto simp: register_target_def lower_runs newValue_def Let_def split: if_splits)
    have "?n < 2 ^ LENGTH(32)" using fits u(3) by simp
    then have i: "unat (of_nat ?n :: value_id) = ?n" by (simp add: unat_of_nat take_bit_nat_eq_self)
    then have nv: "(of_nat ?n :: value_id) \<noteq> NoValue" using small_not_NoValue [of _ "Suc ?n"] fits u(3) by simp
    have old: "unat i < ?n" if "low_Variables s k = Some i" for k i using s that by (auto simp: sound_def)
    have fresh: "low_Variables s k \<noteq> Some (of_nat ?n)" for k using old [of k "of_nat ?n"] i by auto
    have "sound \<tau> u"
      unfolding sound_def u(1-3)
      using s t i fresh by (auto simp: sound_def nth_append less_Suc_eq)
    then show ?thesis using u t nv by (simp add: target_ready_def)
  qed
  then show "emits [] s u" "sound \<tau> u" "target_ready \<tau> u key target" using emits_nothing [OF em] by simp_all
qed

lemma target_lowered:
  assumes r: "lowerAssignmentTarget C e defining s = Inr (target, u)"
    and ty: "typed_target (info_of C) \<tau> scope defining e" and free: "\<And>key. \<not> lc_AddressTaken C key"
    and s: "sound \<tau> s" and fits: "length (values_of u) < 2 ^ 32"
  shows "emits [] s u" and "sound \<tau> u" and "target_ready \<tau> u (target_key (info_of C) defining e) target"
proof -
  obtain n name key vname t where e: "e = Ident n name" "name \<noteq> ''_''"
    and o: "(case if defining then info_Defs (info_of C) (node_Key n) else None of
        Some object \<Rightarrow> Some object | None \<Rightarrow> info_Uses (info_of C) (node_Key n)) = Some (VarObject key vname t)"
    and t: "strictIRType t = Inr (\<tau> key)" "plain_scalar (\<tau> key)"
    using ty by (auto simp: typed_target_def split: expr.splits option.splits go_object.splits)
  have "register_target C n name key (\<tau> key) defining s = Inr (target, u)"
    using r e t free plain_not_array [OF t(2)]
    by (simp add: lowerAssignmentTarget_def identifier_target_def object_of_identifier_def o strict_at_def lower_runs)
  note register_target_ready [OF this s refl t(2) fits]
  moreover have "target_key (info_of C) defining e = key" by (simp add: target_key_def e o)
  ultimately show "emits [] s u" "sound \<tau> u" "target_ready \<tau> u (target_key (info_of C) defining e) target" by simp_all
qed

lemma targets_lowered:
  assumes "lower_targets C es defining s = Inr (ts, u)"
    and "list_all (typed_target (info_of C) \<tau> scope defining) es" and free: "\<And>key. \<not> lc_AddressTaken C key"
    and "sound \<tau> s" and "length (values_of u) < 2 ^ 32"
  shows "emits [] s u \<and> sound \<tau> u \<and>
    list_all2 (target_ready \<tau> u) (map (target_key (info_of C) defining) es) ts"
  using assms
proof (induction es arbitrary: s ts)
  case Nil
  then show ?case by (simp add: lower_runs emits_refl)
next
  case (Cons e es)
  obtain t s1 ts' where t: "lowerAssignmentTarget C e defining s = Inr (t, s1)"
    and ts: "lower_targets C es defining s1 = Inr (ts', u)" "ts = t # ts'"
    using Cons.prems(1) by (auto simp: lower_runs)
  obtain code where em: "emits code s1 u" using extendsD [OF extends_lists(1) ts(1)] by blast
  have "length (values_of s1) < 2 ^ 32"
    using Cons.prems(5) keeps_emits [OF em] by (auto dest: prefix_length_le)
  note one = target_lowered [OF t _ free Cons.prems(4) this]
  have ty: "typed_target (info_of C) \<tau> scope defining e" using Cons.prems(2) by simp
  note one = one [OF ty]
  have rest: "emits [] s1 u \<and> sound \<tau> u \<and>
      list_all2 (target_ready \<tau> u) (map (target_key (info_of C) defining) es) ts'"
    by (rule Cons.IH [OF ts(1) _ free one(2) Cons.prems(5)]) (use Cons.prems(2) in simp)
  have "low_Variables s1 \<subseteq>\<^sub>m low_Variables u" using em by (simp add: emits_def)
  then have "target_ready \<tau> u (target_key (info_of C) defining e) t" by (rule target_ready_mono [OF one(3)])
  moreover have "emits [] s u" using emits_trans [OF one(1)] rest by fastforce
  ultimately show ?case using rest ts(2) by simp
qed

section \<open>Values and writes\<close>

lemma go_move_correct:
  assumes x: "lowers_to \<tau> scope s x t ev s1" and s: "sound \<tau> s"
    and m: "bindl (newTemporary t) (\<lambda>d. thenl (emit_move C d x pos) (returnl d)) s1 = Inr (v, u)"
    and fits: "length (values_of u) \<le> 2 ^ 32"
  shows "lowers_to \<tau> scope s v t ev u"
proof -
  note d = emit_fresh [OF m [unfolded emit_move_def] fits]
  have "lowers_to \<tau> scope s v t (\<lambda>\<sigma>. Option.bind (ev \<sigma>) Some) u"
  proof (rule lowers_after [OF x s d(1,2) _ d(5)])
    show v: "unat v < length (values_of u)" using d(3,4) by simp
    fix F :: ir_function and env :: ir_env and a
    assume F: "prefix (values_of u) (fn_Values F)" and a: "env x = word_of_int a" "in_range t a"
    have "value_type F v = t" using value_type_prefix [OF F v] d(5) by simp
    then show "evaluates F [zero_instruction\<lparr>ins_Op := OpMove, ins_Dest := v, ins_X := x, ins_Pos := position C pos\<rparr>]
        env v (length (values_of s1)) t (Some a)"
      using a in_range_form(1) [OF a(2)] d(3) by (intro evaluates_one) (simp_all add: effect_move)
  qed
  then show ?thesis by simp
qed

text \<open>The snapshots of the right-hand sides.\<close>

definition snapshots ::
  "go_info \<Rightarrow> (nat \<Rightarrow> ir_type) \<Rightarrow> nat list \<Rightarrow> nat list \<Rightarrow> expr list \<Rightarrow> lower_state \<Rightarrow> value_id list \<Rightarrow> lower_state \<Rightarrow> bool" where
  "snapshots info \<tau> scope keys es s vs u \<longleftrightarrow>
     sound \<tau> u \<and> same_maps s u \<and> list_all (\<lambda>v. length (values_of s) \<le> unat v \<and> unat v < length (values_of u)) vs \<and>
     (\<exists>code. emits code s u \<and>
        (\<forall>F \<sigma> env. prefix (values_of u) (fn_Values F) \<longrightarrow> store_held \<tau> scope s \<sigma> env \<longrightarrow>
           (case go_eval_all info \<sigma> es of
              None \<Rightarrow> ir_code F code env = Inl ErrVmDivisionByZero
            | Some ks \<Rightarrow> list_all2 (\<lambda>key. in_range (\<tau> key)) keys ks \<and>
                (\<exists>env'. ir_code F code env = Inr env' \<and> agree (length (values_of s)) env env' \<and>
                   list_all2 (\<lambda>v k. env' v = word_of_int k) vs ks))))"

lemma snapshots_lowered:
  assumes "snapshot_values C ts es s = Inr (vs, u)" and "map tgt_Type ts = map \<tau> keys"
    and "list_all2 (\<lambda>key e. well_typed (info_of C) \<tau> scope e (\<tau> key)) keys es"
    and "sound \<tau> s" and "length (values_of u) \<le> 2 ^ 32"
  shows "snapshots (info_of C) \<tau> scope keys es s vs u"
  using assms
proof (induction es arbitrary: s ts keys vs)
  case Nil
  then show ?case by (auto simp: snapshots_def lower_runs same_maps_def intro!: exI [of _ "[]"] emits_refl)
next
  case (Cons e es)
  obtain key keys' where keys: "keys = key # keys'" and w: "well_typed (info_of C) \<tau> scope e (\<tau> key)"
    and ws: "list_all2 (\<lambda>key e. well_typed (info_of C) \<tau> scope e (\<tau> key)) keys' es"
    using Cons.prems(3) by (auto simp: list_all2_Cons2)
  obtain t ts' where ts: "ts = t # ts'" "tgt_Type t = \<tau> key" "map tgt_Type ts' = map \<tau> keys'"
    using Cons.prems(2) keys by auto
  obtain v s1 d sa s2 vs' where v: "lowerExpression C e (\<tau> key) s = Inr (v, s1)"
    and d: "newTemporary (\<tau> key) s1 = Inr (d, sa)" "emit_move C d v (node_Pos (expr_node e)) sa = Inr ((), s2)"
    and rest: "snapshot_values C ts' es s2 = Inr (vs', u)" and vs: "vs = d # vs'"
    using Cons.prems(1) ts by (auto simp: lower_runs)
  have m: "bindl (newTemporary (\<tau> key)) (\<lambda>d. thenl (emit_move C d v (node_Pos (expr_node e))) (returnl d)) s1 = Inr (d, s2)"
    using d by (simp add: lower_runs)
  obtain cr where cr: "emits cr s2 u" using extendsD [OF extends_lists(2) rest] by blast
  obtain c1 where c1: "emits c1 s s1" using extendsD [OF extends_lowerExpression(1) v] by blast
  have fits2: "length (values_of s2) \<le> 2 ^ 32"
    using Cons.prems(5) keeps_emits [OF cr] by (auto dest: prefix_length_le)
  then have fits1: "length (values_of s1) \<le> 2 ^ 32" using fresh_fits [OF m [unfolded emit_move_def]] by simp
  have l1: "lowers_to \<tau> scope s v (\<tau> key) (\<lambda>\<sigma>. go_eval (info_of C) \<sigma> e) s1"
    by (rule expression_correctD [OF lowerExpression_correct v w Cons.prems(4) fits1])
  note l2 = go_move_correct [OF l1 Cons.prems(4) m fits2]
  have s2: "sound \<tau> s2" by (rule lowers_to_sound [OF l2 Cons.prems(4)])
  have ih: "snapshots (info_of C) \<tau> scope keys' es s2 vs' u"
    by (rule Cons.IH [OF rest ts(3) ws s2 Cons.prems(5)])
  obtain c2 where c2: "emits c2 s s2" "same_maps s s2" "unat d < length (values_of s2)"
    "\<And>(F :: ir_function) \<sigma> env. prefix (values_of s2) (fn_Values F) \<Longrightarrow> store_held \<tau> scope s \<sigma> env \<Longrightarrow>
       evaluates F c2 env d (length (values_of s)) (\<tau> key) (go_eval (info_of C) \<sigma> e)"
    using l2 unfolding lowers_to_def by blast
  obtain c3 where c3: "emits c3 s2 u" "same_maps s2 u" "sound \<tau> u"
    "list_all (\<lambda>v. length (values_of s2) \<le> unat v \<and> unat v < length (values_of u)) vs'"
    "\<And>(F :: ir_function) \<sigma> env. prefix (values_of u) (fn_Values F) \<Longrightarrow> store_held \<tau> scope s2 \<sigma> env \<Longrightarrow>
       (case go_eval_all (info_of C) \<sigma> es of
          None \<Rightarrow> ir_code F c3 env = Inl ErrVmDivisionByZero
        | Some ks \<Rightarrow> list_all2 (\<lambda>key. in_range (\<tau> key)) keys' ks \<and>
            (\<exists>env'. ir_code F c3 env = Inr env' \<and> agree (length (values_of s2)) env env' \<and>
               list_all2 (\<lambda>v k. env' v = word_of_int k) vs' ks))"
    using ih unfolding snapshots_def by blast
  have len: "length (values_of s) \<le> length (values_of s2)" "length (values_of s2) \<le> length (values_of u)"
    using keeps_emits [OF c2(1)] keeps_emits [OF c3(1)] by (simp_all add: prefix_length_le)
  have dlow: "length (values_of s) \<le> unat d"
    using emit_fresh(3) [OF m [unfolded emit_move_def] fits2] keeps_emits [OF c1] by (simp add: prefix_length_le)
  show ?case unfolding snapshots_def
  proof (intro conjI exI [of _ "c2 @ c3"] allI impI)
    show "sound \<tau> u" by fact
    show "same_maps s u" using c2(2) c3(2) by (simp add: same_maps_def)
    show "emits (c2 @ c3) s u" by (rule emits_trans [OF c2(1) c3(1)])
    show "list_all (\<lambda>v. length (values_of s) \<le> unat v \<and> unat v < length (values_of u)) vs"
      using c3(4) c2(3) dlow len vs by (auto simp: list_all_iff)
    fix F :: ir_function and \<sigma> env
    assume F: "prefix (values_of u) (fn_Values F)" and h: "store_held \<tau> scope s \<sigma> env"
    have F2: "prefix (values_of s2) (fn_Values F)" using keeps_emits [OF c3(1)] F by (rule prefix_order.trans)
    note e1 = c2(4) [OF F2 h]
    show "case go_eval_all (info_of C) \<sigma> (e # es) of
          None \<Rightarrow> ir_code F (c2 @ c3) env = Inl ErrVmDivisionByZero
        | Some ks \<Rightarrow> list_all2 (\<lambda>key. in_range (\<tau> key)) keys ks \<and>
            (\<exists>env'. ir_code F (c2 @ c3) env = Inr env' \<and> agree (length (values_of s)) env env' \<and>
               list_all2 (\<lambda>v k. env' v = word_of_int k) vs ks)"
    proof (cases "go_eval (info_of C) \<sigma> e")
      case None
      then show ?thesis using e1 by (simp add: evaluates_def ir_code_append)
    next
      case (Some k)
      then obtain env1 where env1: "ir_code F c2 env = Inr env1" "env1 d = word_of_int k" "in_range (\<tau> key) k"
        "agree (length (values_of s)) env env1" using e1 by (auto simp: evaluates_def)
      have "low_Variables s \<subseteq>\<^sub>m low_Variables s2" using c2(1) by (simp add: emits_def)
      note e2 = c3(5) [OF F store_held_mono [OF h Cons.prems(4) env1(4) this]]
      show ?thesis
      proof (cases "go_eval_all (info_of C) \<sigma> es")
        case None
        then show ?thesis using e2 env1 Some by (simp add: ir_code_append)
      next
        case (Some ks)
        then obtain env2 where env2: "ir_code F c3 env1 = Inr env2" "agree (length (values_of s2)) env1 env2"
          "list_all2 (\<lambda>v k. env2 v = word_of_int k) vs' ks" "list_all2 (\<lambda>key. in_range (\<tau> key)) keys' ks"
          using e2 by auto
        have "env2 d = word_of_int k" using env2(2) c2(3) env1(2) by (simp add: agree_def)
        then show ?thesis
          using env1 env2 Some \<open>go_eval (info_of C) \<sigma> e = Some k\<close> agree_trans [OF env1(4) env2(2) len(1)]
          by (simp add: ir_code_append keys vs)
      qed
    qed
  qed
qed

lemma snapshots_length: "snapshot_values C ts es s = Inr (vs, u) \<Longrightarrow> length vs = min (length ts) (length es)"
proof (induction C ts es arbitrary: s vs rule: snapshot_values.induct)
  case (1 C t ts e es)
  obtain vs' s' where "snapshot_values C ts es s' = Inr (vs', u)" "length vs = Suc (length vs')"
    using 1(2) by (auto simp: lower_runs)
  then show ?case using 1(1) by simp
qed (auto simp: lower_runs)

text \<open>Writing a variable.\<close>

lemma store_written:
  assumes h: "store_held \<tau> sc s \<sigma> env" and s: "sound \<tau> s" and i: "low_Variables s key = Some i"
    and k: "in_range (\<tau> key) k"
  shows "store_held \<tau> (key # sc) s (\<sigma>(key := k)) (env(i := word_of_int k))"
  unfolding store_held_def
proof
  fix key' assume k': "key' \<in> set (key # sc)"
  show "\<exists>j. low_Variables s key' = Some j \<and> (env(i := word_of_int k)) j = word_of_int ((\<sigma>(key := k)) key') \<and>
      in_range (\<tau> key') ((\<sigma>(key := k)) key')"
  proof (cases "key' = key")
    case True
    then show ?thesis using i k by simp
  next
    case False
    then obtain j where j: "low_Variables s key' = Some j" "env j = word_of_int (\<sigma> key')" "in_range (\<tau> key') (\<sigma> key')"
      using h k' by (auto simp: store_held_def)
    have "j \<noteq> i" using s i j(1) False by (auto simp: sound_def)
    then show ?thesis using j False by simp
  qed
qed

lemma write_lowered:
  assumes "writeAssignmentTarget C t v pos s = Inr (x, u)" and ready: "target_ready \<tau> s key t" and s: "sound \<tau> s"
  shows "emits [zero_instruction\<lparr>ins_Op := OpMove, ins_Dest := tgt_Direct t, ins_X := v, ins_Pos := position C pos\<rparr>] s u"
    and "same_maps s u" and "values_of u = values_of s"
    and "\<And>(F :: ir_function) (env :: ir_env) k. prefix (values_of s) (fn_Values F) \<Longrightarrow> env v = word_of_int k \<Longrightarrow> in_range (\<tau> key) k \<Longrightarrow>
      ir_effect F (zero_instruction\<lparr>ins_Op := OpMove, ins_Dest := tgt_Direct t, ins_X := v, ins_Pos := position C pos\<rparr>) env =
        Inr (env(tgt_Direct t := word_of_int k))"
proof -
  have "emit_move C (tgt_Direct t) v pos s = Inr (x, u)"
    using assms(1) ready by (simp add: writeAssignmentTarget_def target_ready_def)
  note e = emit_Inr [OF this [unfolded emit_move_def]]
  show "emits [zero_instruction\<lparr>ins_Op := OpMove, ins_Dest := tgt_Direct t, ins_X := v, ins_Pos := position C pos\<rparr>] s u"
    "same_maps s u" "values_of u = values_of s" by (rule e)+
  fix F :: ir_function and env :: ir_env and k
  assume F: "prefix (values_of s) (fn_Values F)" and k: "env v = word_of_int k" "in_range (\<tau> key) k"
  have "unat (tgt_Direct t) < length (values_of s)" "value_Type (values_of s ! unat (tgt_Direct t)) = \<tau> key"
    using s ready by (auto simp: sound_def target_ready_def)
  then have "value_type F (tgt_Direct t) = \<tau> key" using value_type_prefix [OF F] by simp
  then show "ir_effect F (zero_instruction\<lparr>ins_Op := OpMove, ins_Dest := tgt_Direct t, ins_X := v, ins_Pos := position C pos\<rparr>) env =
      Inr (env(tgt_Direct t := word_of_int k))"
    using k in_range_form(1) [OF k(2)] by (simp add: effect_move)
qed

lemma writes_lowered:
  assumes "write_targets C ts vs pos s = Inr (x, u)" and "list_all2 (target_ready \<tau> s) keys ts" and "sound \<tau> s"
    and "length vs = length ts" and "\<And>v key. v \<in> set vs \<Longrightarrow> low_Variables s key \<noteq> Some v"
  shows "same_maps s u \<and> values_of u = values_of s \<and>
    (\<exists>code. emits code s u \<and>
       (\<forall>F \<sigma> env sc ks. prefix (values_of s) (fn_Values F) \<longrightarrow> store_held \<tau> sc s \<sigma> env \<longrightarrow>
          list_all2 (\<lambda>v k. env v = word_of_int k) vs ks \<longrightarrow> list_all2 (\<lambda>key. in_range (\<tau> key)) keys ks \<longrightarrow>
          (\<exists>env'. ir_code F code env = Inr env' \<and> store_held \<tau> (keys @ sc) s (go_assign \<sigma> keys ks) env')))"
  using assms
proof (induction ts arbitrary: s keys vs)
  case Nil
  then show ?case by (auto simp: lower_runs same_maps_def intro!: exI [of _ "[]"] emits_refl)
next
  case (Cons t ts)
  obtain key keys' where keys: "keys = key # keys'" and ready: "target_ready \<tau> s key t"
    and rs: "list_all2 (target_ready \<tau> s) keys' ts" using Cons.prems(2) by (auto simp: list_all2_Cons2)
  obtain v vs' where vs: "vs = v # vs'" using Cons.prems(4) by (cases vs) auto
  obtain s1 y where w: "writeAssignmentTarget C t v pos s = Inr (y, s1)"
    and rest: "write_targets C ts vs' pos s1 = Inr (x, u)"
    using Cons.prems(1) vs by (auto simp: lower_runs)
  note one = write_lowered [OF w ready Cons.prems(3)]
  have maps: "low_Variables s1 = low_Variables s" using one(2) by (simp add: same_maps_def)
  have s1: "sound \<tau> s1" by (rule sound_mono [OF Cons.prems(3) one(2)]) (simp add: one(3))
  have held1: "store_held \<tau> sc s1 = store_held \<tau> sc s" for sc by (simp add: store_held_def maps fun_eq_iff)
  have "target_ready \<tau> s1 = target_ready \<tau> s" by (simp add: target_ready_def maps fun_eq_iff)
  then have "list_all2 (target_ready \<tau> s1) keys' ts" using rs by simp
  from Cons.IH [OF rest this s1] obtain code where ih: "same_maps s1 u" "values_of u = values_of s1" "emits code s1 u"
    "\<And>(F :: ir_function) \<sigma> env sc ks. prefix (values_of s1) (fn_Values F) \<Longrightarrow> store_held \<tau> sc s1 \<sigma> env \<Longrightarrow>
       list_all2 (\<lambda>v k. env v = word_of_int k) vs' ks \<Longrightarrow> list_all2 (\<lambda>key. in_range (\<tau> key)) keys' ks \<Longrightarrow>
       \<exists>env'. ir_code F code env = Inr env' \<and> store_held \<tau> (keys' @ sc) s1 (go_assign \<sigma> keys' ks) env'"
    using Cons.prems(4,5) vs maps by auto
  let ?ins = "zero_instruction\<lparr>ins_Op := OpMove, ins_Dest := tgt_Direct t, ins_X := v, ins_Pos := position C pos\<rparr>"
  show ?case
  proof (intro conjI exI [of _ "[?ins] @ code"] allI impI)
    show "same_maps s u" using one(2) ih(1) by (simp add: same_maps_def)
    show "values_of u = values_of s" using ih(2) one(3) by simp
    show "emits ([?ins] @ code) s u" by (rule emits_trans [OF one(1) ih(3)])
    fix F :: ir_function and \<sigma> env sc ks
    assume F: "prefix (values_of s) (fn_Values F)" and h: "store_held \<tau> sc s \<sigma> env"
      and ks: "list_all2 (\<lambda>v k. env v = word_of_int k) vs ks" "list_all2 (\<lambda>key. in_range (\<tau> key)) keys ks"
    obtain k ks' where k: "ks = k # ks'" "env v = word_of_int k" "in_range (\<tau> key) k"
      "list_all2 (\<lambda>v k. env v = word_of_int k) vs' ks'" "list_all2 (\<lambda>key. in_range (\<tau> key)) keys' ks'"
      using ks vs keys by (auto simp: list_all2_Cons1)
    let ?i = "tgt_Direct t"
    let ?env = "env(?i := word_of_int k)"
    have i: "low_Variables s key = Some ?i" using ready by (simp add: target_ready_def)
    have h1: "store_held \<tau> (key # sc) s1 (\<sigma>(key := k)) ?env"
      unfolding held1 by (rule store_written [OF h Cons.prems(3) i k(3)])
    have direct: "?i \<notin> set vs'" using Cons.prems(5) i vs by auto
    have "list_all2 (\<lambda>v k. ?env v = word_of_int k) vs' ks'"
      using k(4) direct by (auto simp: list_all2_conv_all_nth) (metis nth_mem)
    from ih(4) [OF F [folded one(3)] h1 this k(5)] obtain env' where
      env': "ir_code F code ?env = Inr env'" "store_held \<tau> (keys' @ key # sc) s1 (go_assign (\<sigma>(key := k)) keys' ks') env'"
      by blast
    have "store_held \<tau> (keys @ sc) s (go_assign \<sigma> keys ks) env'"
      using store_held_subset [OF env'(2)] by (simp add: held1 keys k(1))
    then show "\<exists>env'. ir_code F ([?ins] @ code) env = Inr env' \<and> store_held \<tau> (keys @ sc) s (go_assign \<sigma> keys ks) env'"
      using env'(1) one(4) [of F env k, OF F k(2,3)] by simp
  qed
qed

section \<open>Assignments and declarations\<close>

lemma assignValues_correct:
  assumes r: "assignValues C ts es pos s = Inr (x, u)" and ready: "list_all2 (target_ready \<tau> s) keys ts"
    and w: "list_all2 (\<lambda>key e. well_typed (info_of C) \<tau> scope e (\<tau> key)) keys es"
    and s: "sound \<tau> s" and fits: "length (values_of u) \<le> 2 ^ 32"
  shows "carries_out \<tau> scope (keys @ scope) s u
    (\<lambda>\<sigma>. case go_eval_all (info_of C) \<sigma> es of None \<Rightarrow> Panics | Some ks \<Rightarrow> Continues (go_assign \<sigma> keys ks))"
proof -
  obtain vs s1 where vs: "snapshot_values C ts es s = Inr (vs, s1)" and wr: "write_targets C ts vs pos s1 = Inr (x, u)"
    using r by (auto simp: assignValues_def lower_runs)
  have "map tgt_Type ts = map \<tau> keys"
    using ready by (induction keys ts rule: list_all2_induct) (simp_all add: target_ready_def)
  moreover obtain cw where "emits cw s1 u" using extendsD [OF extends_lists(3) wr] by blast
  then have "length (values_of s1) \<le> 2 ^ 32" using fits keeps_emits by (fastforce dest: prefix_length_le)
  ultimately have sn: "snapshots (info_of C) \<tau> scope keys es s vs s1"
    using snapshots_lowered [OF vs _ w s] by blast
  obtain c1 where c1: "emits c1 s s1" "same_maps s s1" "sound \<tau> s1"
    "list_all (\<lambda>v. length (values_of s) \<le> unat v \<and> unat v < length (values_of s1)) vs"
    "\<And>(F :: ir_function) \<sigma> env. prefix (values_of s1) (fn_Values F) \<Longrightarrow> store_held \<tau> scope s \<sigma> env \<Longrightarrow>
       (case go_eval_all (info_of C) \<sigma> es of
          None \<Rightarrow> ir_code F c1 env = Inl ErrVmDivisionByZero
        | Some ks \<Rightarrow> list_all2 (\<lambda>key. in_range (\<tau> key)) keys ks \<and>
            (\<exists>env'. ir_code F c1 env = Inr env' \<and> agree (length (values_of s)) env env' \<and>
               list_all2 (\<lambda>v k. env' v = word_of_int k) vs ks))"
    using sn unfolding snapshots_def by blast
  have maps: "low_Variables s1 = low_Variables s" using c1(2) by (simp add: same_maps_def)
  have "target_ready \<tau> s1 = target_ready \<tau> s" by (simp add: target_ready_def maps fun_eq_iff)
  then have ready1: "list_all2 (target_ready \<tau> s1) keys ts" using ready by simp
  have len: "length vs = length ts"
    using snapshots_length [OF vs] list_all2_lengthD [OF ready] list_all2_lengthD [OF w] by simp
  have apart: "low_Variables s1 key \<noteq> Some v" if "v \<in> set vs" for v key
  proof
    assume "low_Variables s1 key = Some v"
    then have "unat v < length (values_of s)" using s maps by (auto simp: sound_def)
    then show False using c1(4) that by (auto simp: list_all_iff)
  qed
  from writes_lowered [OF wr ready1 c1(3) len apart] obtain c2 where c2: "same_maps s1 u" "values_of u = values_of s1"
    "emits c2 s1 u"
    "\<And>(F :: ir_function) \<sigma> env sc ks. prefix (values_of s1) (fn_Values F) \<Longrightarrow> store_held \<tau> sc s1 \<sigma> env \<Longrightarrow>
       list_all2 (\<lambda>v k. env v = word_of_int k) vs ks \<Longrightarrow> list_all2 (\<lambda>key. in_range (\<tau> key)) keys ks \<Longrightarrow>
       \<exists>env'. ir_code F c2 env = Inr env' \<and> store_held \<tau> (keys @ sc) s1 (go_assign \<sigma> keys ks) env'" by blast
  show ?thesis
  proof (rule carries_outI [OF _ emits_trans [OF c1(1) c2(3)]])
    show "sound \<tau> u" by (rule sound_mono [OF c1(3) c2(1)]) (simp add: c2(2))
    fix F :: ir_function and \<sigma> env
    assume F: "prefix (values_of u) (fn_Values F)" and h: "store_held \<tau> scope s \<sigma> env"
    have F1: "prefix (values_of s1) (fn_Values F)" using F c2(2) by simp
    show "outcome_reached \<tau> (keys @ scope) u (ir_code F (c1 @ c2) env)
        (case go_eval_all (info_of C) \<sigma> es of None \<Rightarrow> Panics | Some ks \<Rightarrow> Continues (go_assign \<sigma> keys ks))"
    proof (cases "go_eval_all (info_of C) \<sigma> es")
      case None
      then show ?thesis using c1(5) [OF F1 h] by (simp add: ir_code_append)
    next
      case (Some ks)
      then obtain env1 where env1: "list_all2 (\<lambda>key. in_range (\<tau> key)) keys ks" "ir_code F c1 env = Inr env1"
        "agree (length (values_of s)) env env1" "list_all2 (\<lambda>v k. env1 v = word_of_int k) vs ks"
        using c1(5) [OF F1 h] by auto
      have "store_held \<tau> scope s1 \<sigma> env1" by (rule store_held_mono [OF h s env1(3)]) (simp add: maps)
      from c2(4) [OF F1 this env1(4,1)] obtain env2 where env2: "ir_code F c2 env1 = Inr env2"
        "store_held \<tau> (keys @ scope) s1 (go_assign \<sigma> keys ks) env2" by blast
      have "store_held \<tau> (keys @ scope) u (go_assign \<sigma> keys ks) env2"
        by (rule store_held_vars [OF env2(2)]) (use c2(1) in \<open>simp add: same_maps_def\<close>)
      then show ?thesis using env1(2) env2(1) Some by (simp add: ir_code_append)
    qed
  qed
qed

text \<open>Declaring targets emits no code and keeps the store.\<close>

lemma carries_out_after_targets:
  assumes t: "emits [] s s1" and c: "carries_out \<tau> scope scope' s1 u ex"
  shows "carries_out \<tau> scope scope' s u ex"
proof -
  obtain code where code: "emits code s1 u" "sound \<tau> u"
    "\<And>(F :: ir_function) \<sigma> env. prefix (values_of u) (fn_Values F) \<Longrightarrow> store_held \<tau> scope s1 \<sigma> env \<Longrightarrow>
       outcome_reached \<tau> scope' u (ir_code F code env) (ex \<sigma>)"
    using c unfolding carries_out_def by blast
  have v: "low_Variables s \<subseteq>\<^sub>m low_Variables s1" using t by (simp add: emits_def)
  have "emits code s u" using emits_trans [OF t code(1)] by simp
  then show ?thesis using code(3) store_held_vars [OF _ v] by (intro carries_outI [OF code(2)]) blast+
qed

lemma carries_out_subset:
  assumes "carries_out \<tau> scope scope' s t ex" and "set scope'' \<subseteq> set scope'"
  shows "carries_out \<tau> scope scope'' s t ex"
proof -
  have "outcome_reached \<tau> scope' t r out \<Longrightarrow> outcome_reached \<tau> scope'' t r out" for r out
    using store_held_subset [OF _ assms(2)] by (cases out) auto
  then show ?thesis using assms(1) unfolding carries_out_def by blast
qed

text \<open>A value is computed and written to one variable.\<close>

lemma set_correct:
  assumes x: "lowers_to \<tau> scope s d (\<tau> key) ev s1" and s: "sound \<tau> s" and ready: "target_ready \<tau> s key t"
    and w: "writeAssignmentTarget C t d pos s1 = Inr (z, u)"
  shows "carries_out \<tau> scope (key # scope) s u
    (\<lambda>\<sigma>. case ev \<sigma> of None \<Rightarrow> Panics | Some k \<Rightarrow> Continues (\<sigma>(key := k)))"
proof -
  let ?i = "tgt_Direct t"
  obtain c1 where c1: "emits c1 s s1" "same_maps s s1"
    "\<And>(F :: ir_function) \<sigma> env. prefix (values_of s1) (fn_Values F) \<Longrightarrow> store_held \<tau> scope s \<sigma> env \<Longrightarrow>
       evaluates F c1 env d (length (values_of s)) (\<tau> key) (ev \<sigma>)"
    using x unfolding lowers_to_def by blast
  have s1: "sound \<tau> s1" by (rule lowers_to_sound [OF x s])
  have maps: "low_Variables s1 = low_Variables s" using c1(2) by (simp add: same_maps_def)
  have ready1: "target_ready \<tau> s1 key t" using ready by (simp add: target_ready_def maps)
  have i: "low_Variables s1 key = Some ?i" using ready1 by (simp add: target_ready_def)
  note wr = write_lowered [OF w ready1 s1]
  show ?thesis
  proof (rule carries_outI [OF _ emits_trans [OF c1(1) wr(1)]])
    show "sound \<tau> u" by (rule sound_mono [OF s1 wr(2)]) (simp add: wr(3))
    fix F :: ir_function and \<sigma> env
    assume F: "prefix (values_of u) (fn_Values F)" and h: "store_held \<tau> scope s \<sigma> env"
    have F1: "prefix (values_of s1) (fn_Values F)" using F wr(3) by simp
    note e = c1(3) [OF F1 h]
    show "outcome_reached \<tau> (key # scope) u (ir_code F (c1 @ [zero_instruction\<lparr>ins_Op := OpMove, ins_Dest := ?i,
        ins_X := d, ins_Pos := position C pos\<rparr>]) env)
        (case ev \<sigma> of None \<Rightarrow> Panics | Some k \<Rightarrow> Continues (\<sigma>(key := k)))"
    proof (cases "ev \<sigma>")
      case None
      then show ?thesis using e by (simp add: evaluates_def ir_code_append)
    next
      case (Some k)
      then obtain env1 where env1: "ir_code F c1 env = Inr env1" "env1 d = word_of_int k" "in_range (\<tau> key) k"
        "agree (length (values_of s)) env env1" using e by (auto simp: evaluates_def)
      have h1: "store_held \<tau> scope s1 \<sigma> env1" by (rule store_held_mono [OF h s env1(4)]) (simp add: maps)
      have "low_Variables s1 \<subseteq>\<^sub>m low_Variables u" using wr(2) by (simp add: same_maps_def)
      then have "store_held \<tau> (key # scope) u (\<sigma>(key := k)) (env1(?i := word_of_int k))"
        by (rule store_held_vars [OF store_written [OF h1 s1 i env1(3)]])
      then show ?thesis using Some env1(1) wr(4) [of F env1 k, OF F1 env1(2,3)] by (simp add: ir_code_append)
    qed
  qed
qed

lemma go_constant_correct:
  assumes r: "emit_constant C t (word_of_int k) pos s = Inr (v, u)" and k: "in_range t k"
    and fits: "length (values_of u) \<le> 2 ^ 32"
  shows "lowers_to \<tau> scope s v t (\<lambda>_. Some k) u"
proof -
  note f = emit_fresh [OF r [unfolded emit_constant_def] fits]
  show ?thesis
  proof (rule lowers_toI [OF f(1,2) _ f(5)])
    show v: "unat v < length (values_of u)" using f(3,4) by simp
    fix F :: ir_function and \<sigma> env assume F: "prefix (values_of u) (fn_Values F)"
    have "value_type F v = t" using value_type_prefix [OF F v] f(5) by simp
    then show "evaluates F [zero_instruction\<lparr>ins_Op := OpConst, ins_Dest := v, ins_Imm := word_of_int k,
        ins_Pos := position C pos\<rparr>] env v (length (values_of s)) t (Some k)"
      using k in_range_form(1) [OF k] f(3) by (intro evaluates_one) (simp_all add: effect_constant)
  qed
qed

lemma variable_correct:
  assumes ready: "target_ready \<tau> s key t" and s: "sound \<tau> s" and key: "key \<in> set scope"
  shows "lowers_to \<tau> scope s (tgt_Direct t) (\<tau> key) (\<lambda>\<sigma>. Some (\<sigma> key)) s"
proof (rule lowers_toI [OF emits_refl])
  have i: "low_Variables s key = Some (tgt_Direct t)" using ready by (simp add: target_ready_def)
  show "same_maps s s" by (simp add: same_maps_def)
  show "unat (tgt_Direct t) < length (values_of s)" "value_Type (values_of s ! unat (tgt_Direct t)) = \<tau> key"
    using s i by (auto simp: sound_def)
  fix F :: ir_function and \<sigma> env assume "store_held \<tau> scope s \<sigma> env"
  then show "evaluates F [] env (tgt_Direct t) (length (values_of s)) (\<tau> key) (Some (\<sigma> key))"
    using i key by (auto simp: store_held_def evaluates_def)
qed

text \<open>An update in place: read the variable, compute, write it back.\<close>

lemma update_correct:
  assumes x: "lowers_to \<tau> scope s y (\<tau> key) ew s1" and s: "sound \<tau> s" and ready: "target_ready \<tau> s key t"
    and key: "key \<in> set scope" "integer (\<tau> key)" and op: "arithmetic_token op"
    and b: "emit_binary C (mapBinaryOp op) (\<tau> key) (tgt_Direct t) y pos s1 = Inr (d, s2)"
    and w: "writeAssignmentTarget C t d pos s2 = Inr (z, u)" and fits: "length (values_of s2) \<le> 2 ^ 32"
  shows "carries_out \<tau> scope scope s u (\<lambda>\<sigma>. case ew \<sigma> of None \<Rightarrow> Panics | Some v \<Rightarrow> go_update \<tau> \<sigma> key op v)"
proof -
  have nc: "\<not> comparison_token op" using op by (auto simp: comparison_token_def arithmetic_token_def)
  then have "emit_binary C (mapBinaryOp op) (if comparison_token op then TypeBool else \<tau> key) (tgt_Direct t) y pos s1 =
      Inr (d, s2)" using b by simp
  from binary_correct [OF variable_correct [OF ready s key(1)] x s this _ fits] op key(2) nc
  have "lowers_to \<tau> scope s d (\<tau> key)
      (\<lambda>\<sigma>. Option.bind (ew \<sigma>) (\<lambda>b. map_option (go_wrap (\<tau> key)) (go_arithmetic op (\<sigma> key) b))) s2"
    by simp
  note set_correct [OF this s ready w]
  moreover have "(case Option.bind (ew \<sigma>) (\<lambda>b. map_option (go_wrap (\<tau> key)) (go_arithmetic op (\<sigma> key) b)) of
        None \<Rightarrow> Panics | Some k \<Rightarrow> Continues (\<sigma>(key := k))) =
      (case ew \<sigma> of None \<Rightarrow> Panics | Some v \<Rightarrow> go_update \<tau> \<sigma> key op v)" for \<sigma>
    by (auto simp: go_update_def split: option.splits)
  ultimately show ?thesis using carries_out_subset [of \<tau> scope "key # scope" s u _ scope] by auto
qed

section \<open>Statements in one block\<close>

lemma typed_target_scope: "typed_target info \<tau> scope False e \<Longrightarrow> target_key info False e \<in> set scope"
  by (auto simp: typed_target_def target_key_def split: expr.splits option.splits go_object.splits)

lemma compound_operation:
  assumes "compound_tok tok"
  shows "mapAssignmentOp tok = mapBinaryOp (compound_token tok)" "arithmetic_token (compound_token tok)"
  using assms by (auto simp: compound_tok_def mapAssignmentOp_def mapBinaryOp_def compound_token_def arithmetic_token_def)

lemma fits_before:
  "extends m \<Longrightarrow> m s = Inr (x, u) \<Longrightarrow> length (values_of u) \<le> n \<Longrightarrow> length (values_of s) \<le> n"
  by (auto dest!: extendsD keeps_emits prefix_length_le)

lemma compound_correct:
  assumes r: "lowerCompoundAssignment C n [e] tok [rhs] s = Inr (x, u)" and c: "compound_tok tok"
    and ty: "typed_target (info_of C) \<tau> scope False e" and free: "\<And>key. \<not> lc_AddressTaken C key"
    and key: "key = target_key (info_of C) False e" "integer (\<tau> key)"
    and w: "well_typed (info_of C) \<tau> scope rhs (\<tau> key)" and s: "sound \<tau> s" and fits: "length (values_of u) < 2 ^ 32"
  shows "carries_out \<tau> scope scope s u
    (\<lambda>\<sigma>. case go_eval (info_of C) \<sigma> rhs of None \<Rightarrow> Panics | Some v \<Rightarrow> go_update \<tau> \<sigma> key (compound_token tok) v)"
proof -
  obtain t s1 left s2 y s3 d s4 where t: "lowerAssignmentTarget C e False s = Inr (t, s1)"
    and left: "readAssignmentTarget C t s1 = Inr (left, s2)"
    and y: "lowerExpression C rhs (tgt_Type t) s2 = Inr (y, s3)"
    and d: "emit_binary C (mapAssignmentOp tok) (tgt_Type t) left y (node_Pos n) s3 = Inr (d, s4)"
    and wr: "writeAssignmentTarget C t d (node_Pos n) s4 = Inr (x, u)"
    using r by (auto simp: lowerCompoundAssignment_def lower_runs split: if_splits)
  have f: "length (values_of u) \<le> 2 ^ 32 - 1" using fits by simp
  note f4 = fits_before [OF extends_targets(2) wr f]
  note f3 = fits_before [OF extends_emitters(4) d f4]
  note f2 = fits_before [OF extends_lowerExpression(1) y f3]
  note f1 = fits_before [OF extends_targets(1) left f2]
  note t = target_lowered [OF t ty free s]
  note t = t [folded key(1)]
  have t1: "emits [] s s1" "sound \<tau> s1" "target_ready \<tau> s1 key t" using t f1 by simp_all
  then have s2: "left = tgt_Direct t" "s2 = s1" "tgt_Type t = \<tau> key"
    using left by (auto simp: readAssignmentTarget_def target_ready_def lower_runs)
  have "lowers_to \<tau> scope s1 y (\<tau> key) (\<lambda>\<sigma>. go_eval (info_of C) \<sigma> rhs) s3"
    by (rule expression_correctD [OF lowerExpression_correct _ w t1(2)]) (use y s2 f3 in simp_all)
  note up = update_correct [OF this t1(2,3) _ key(2) compound_operation(2) [OF c]]
  have "length (values_of s4) \<le> 2 ^ 32" using f4 by simp
  then show ?thesis
    by (intro carries_out_after_targets [OF t1(1)] up)
      (use ty key(1) typed_target_scope d wr s2 compound_operation(1) [OF c] in simp_all)
qed

lemma incdec_correct:
  assumes r: "lowerIncDec C n e tok s = Inr (x, u)"
    and ty: "typed_target (info_of C) \<tau> scope False e" and free: "\<And>key. \<not> lc_AddressTaken C key"
    and key: "key = target_key (info_of C) False e" "integer (\<tau> key)"
    and s: "sound \<tau> s" and fits: "length (values_of u) < 2 ^ 32"
  shows "carries_out \<tau> scope scope s u (\<lambda>\<sigma>. go_update \<tau> \<sigma> key (if tok = tokDEC then tokSUB else tokADD) 1)"
proof -
  let ?op = "if tok = tokDEC then tokSUB else tokADD"
  obtain t s1 left s2 y s3 d s4 where t: "lowerAssignmentTarget C e False s = Inr (t, s1)"
    and left: "readAssignmentTarget C t s1 = Inr (left, s2)"
    and y: "emit_constant C (tgt_Type t) 1 (node_Pos n) s2 = Inr (y, s3)"
    and d: "emit_binary C (if tok = tokDEC then OpSub else OpAdd) (tgt_Type t) left y (node_Pos n) s3 = Inr (d, s4)"
    and wr: "writeAssignmentTarget C t d (node_Pos n) s4 = Inr (x, u)"
    using r by (auto simp: lowerIncDec_def lower_runs split: if_splits)
  have f: "length (values_of u) \<le> 2 ^ 32 - 1" using fits by simp
  note f4 = fits_before [OF extends_targets(2) wr f]
  note f3 = fits_before [OF extends_emitters(4) d f4]
  note f2 = fits_before [OF extends_emitters(3) y f3]
  note f1 = fits_before [OF extends_targets(1) left f2]
  note t = target_lowered [OF t ty free s]
  note t = t [folded key(1)]
  have t1: "emits [] s s1" "sound \<tau> s1" "target_ready \<tau> s1 key t" using t f1 by simp_all
  then have s2: "left = tgt_Direct t" "s2 = s1" "tgt_Type t = \<tau> key"
    using left by (auto simp: readAssignmentTarget_def target_ready_def lower_runs)
  have one: "in_range (\<tau> key) 1" using key(2) by (auto simp: in_range_def integer_def go_wrap_def)
  have "emit_constant C (\<tau> key) (word_of_int 1) (node_Pos n) s1 = Inr (y, s3)" using y s2 by simp
  moreover have fits3: "length (values_of s3) \<le> 2 ^ 32" "length (values_of s4) \<le> 2 ^ 32" using f3 f4 by simp_all
  ultimately have l: "lowers_to \<tau> scope s1 y (\<tau> key) (\<lambda>_. Some 1) s3" using go_constant_correct [OF _ one] by blast
  have op: "arithmetic_token ?op" "mapBinaryOp ?op = (if tok = tokDEC then OpSub else OpAdd)"
    by (simp_all add: arithmetic_token_def mapBinaryOp_def)
  have d': "emit_binary C (mapBinaryOp ?op) (\<tau> key) (tgt_Direct t) y (node_Pos n) s3 = Inr (d, s4)"
    using d s2 op(2) by simp
  have "key \<in> set scope" using typed_target_scope [OF ty] key(1) by simp
  from update_correct [OF l t1(2,3) this key(2) op(1) d' wr fits3(2)]
  show ?thesis by (intro carries_out_after_targets [OF t1(1)]) simp
qed

text \<open>Plain assignments, short declarations and declarations with values.\<close>

lemma no_first_array:
  "list_all2 (target_ready \<tau> s) keys ts \<Longrightarrow> first_array ts es = None"
  by (induction ts es arbitrary: keys rule: first_array.induct)
    (auto simp: list_all2_Cons2 target_ready_def plain_not_array)

lemma no_arrays:
  "list_all2 (target_ready \<tau> s) keys ts \<Longrightarrow> initialize_arrays C n total_count ts es s' = Inr ((), s')"
  by (induction C n total_count ts es arbitrary: keys rule: initialize_arrays.induct)
    (auto simp: list_all2_Cons2 target_ready_def plain_not_array lower_runs)

lemma values_correct:
  assumes t: "lower_targets C lhs defining s = Inr (ts, s1)" and r: "assignValues C ts es pos s1 = Inr (x, u)"
    and ty: "list_all (typed_target (info_of C) \<tau> scope defining) lhs" and free: "\<And>key. \<not> lc_AddressTaken C key"
    and w: "list_all2 (\<lambda>key e. well_typed (info_of C) \<tau> scope e (\<tau> key)) (map (target_key (info_of C) defining) lhs) es"
    and s: "sound \<tau> s" and fits: "length (values_of u) < 2 ^ 32"
  shows "carries_out \<tau> scope (map (target_key (info_of C) defining) lhs @ scope) s u
    (\<lambda>\<sigma>. case go_eval_all (info_of C) \<sigma> es of None \<Rightarrow> Panics
      | Some ks \<Rightarrow> Continues (go_assign \<sigma> (map (target_key (info_of C) defining) lhs) ks))"
proof -
  have f: "length (values_of u) \<le> 2 ^ 32 - 1" "length (values_of u) \<le> 2 ^ 32" using fits by simp_all
  have "length (values_of s1) < 2 ^ 32" using fits_before [OF extends_assignValues r f(1)] by simp
  then have t1: "emits [] s s1" "sound \<tau> s1"
    "list_all2 (target_ready \<tau> s1) (map (target_key (info_of C) defining) lhs) ts"
    using targets_lowered [OF t ty free s] by blast+
  show ?thesis
    by (rule carries_out_after_targets [OF t1(1) assignValues_correct [OF r t1(3) w t1(2) f(2)]])
qed

lemma assignment_correct:
  assumes r: "lowerAssignment C n lhs tok rhs s = Inr (x, u)"
    and ty: "typed_assignment (info_of C) \<tau> scope lhs tok rhs = Some scope'"
    and free: "\<And>key. \<not> lc_AddressTaken C key" and s: "sound \<tau> s" and fits: "length (values_of u) < 2 ^ 32"
  shows "carries_out \<tau> scope scope' s u (\<lambda>\<sigma>. go_assignment (info_of C) \<tau> \<sigma> lhs tok rhs)"
proof -
  let ?def = "tok = tokDEFINE"
  let ?keys = "map (target_key (info_of C) ?def) lhs"
  have tys: "lhs \<noteq> []" "list_all (typed_target (info_of C) \<tau> scope ?def) lhs"
    "list_all2 (\<lambda>key e. well_typed (info_of C) \<tau> scope e (\<tau> key)) ?keys rhs"
    "scope' = (if ?def then ?keys @ scope else scope)"
    "tok = tokASSIGN \<or> tok = tokDEFINE \<or> compound_tok tok \<and> length lhs = 1 \<and> list_all (\<lambda>key. integer (\<tau> key)) ?keys"
    using ty by (auto simp: typed_assignment_def Let_def split: if_splits)
  show ?thesis
  proof (cases "compound_tok tok")
    case True
    then have nd: "\<not> ?def" "tok \<noteq> tokASSIGN" by (auto simp: compound_tok_def)
    then obtain e where e: "lhs = [e]" "integer (\<tau> (target_key (info_of C) False e))"
      using tys(5) by (cases lhs) auto
    then obtain rh where rh: "rhs = [rh]" using tys(3) by (auto simp: list_all2_Cons1)
    have "carries_out \<tau> scope scope s u (\<lambda>\<sigma>. case go_eval (info_of C) \<sigma> rh of None \<Rightarrow> Panics
        | Some v \<Rightarrow> go_update \<tau> \<sigma> (target_key (info_of C) False e) (compound_token tok) v)"
      by (rule compound_correct [OF _ True _ free refl e(2) _ s fits])
        (use r True e rh nd tys(2,3) in \<open>simp_all add: lowerAssignment_def\<close>)
    moreover have "go_assignment (info_of C) \<tau> \<sigma> lhs tok rhs = (case go_eval (info_of C) \<sigma> rh of None \<Rightarrow> Panics
        | Some v \<Rightarrow> go_update \<tau> \<sigma> (target_key (info_of C) False e) (compound_token tok) v)" for \<sigma>
      using True e rh by (simp add: go_assignment_def split: option.splits)
    ultimately show ?thesis using tys(4) nd by simp
  next
    case False
    have len: "length lhs = length rhs" using list_all2_lengthD [OF tys(3)] by simp
    obtain ts s1 where ts: "lower_targets C lhs ?def s = Inr (ts, s1)"
      and q: "(case first_array ts rhs of
          Some (target, e) \<Rightarrow>
            if length ts \<noteq> 1
            then faill (errorAt C n ''fixed-array initialization cannot be mixed with parallel assignment'')
            else initializeArray C (tgt_Object target) e (tgt_Fresh target)
        | None \<Rightarrow> assignValues C ts rhs (node_Pos n)) s1 = Inr (x, u)"
      using r False tys(5) len by (auto simp: lowerAssignment_def lower_runs split: if_splits)
    have m: "extends (case first_array ts rhs of
          Some (target, e) \<Rightarrow>
            if length ts \<noteq> 1
            then faill (errorAt C n ''fixed-array initialization cannot be mixed with parallel assignment'')
            else initializeArray C (tgt_Object target) e (tgt_Fresh target)
        | None \<Rightarrow> assignValues C ts rhs (node_Pos n))"
      by (auto intro!: lower_steps)
    have "length (values_of u) \<le> 2 ^ 32 - 1" using fits by simp
    note f1 = fits_before [OF m q this]
    have "list_all2 (target_ready \<tau> s1) ?keys ts"
      using targets_lowered [OF ts tys(2) free s] f1 by simp
    then have "assignValues C ts rhs (node_Pos n) s1 = Inr (x, u)" using q no_first_array by simp
    note c = values_correct [OF ts this tys(2) free tys(3) s fits]
    have go: "go_assignment (info_of C) \<tau> \<sigma> lhs tok rhs = (case go_eval_all (info_of C) \<sigma> rhs of None \<Rightarrow> Panics
        | Some ks \<Rightarrow> Continues (go_assign \<sigma> ?keys ks))" for \<sigma>
      using False by (simp add: go_assignment_def split: option.splits)
    show ?thesis unfolding go by (rule carries_out_subset [OF c]) (simp add: tys(4))
  qed
qed

lemma zeros_correct:
  assumes "zero_targets C ts pos s = Inr (x, u)" and "list_all2 (target_ready \<tau> s) keys ts" and "sound \<tau> s"
    and "length (values_of u) \<le> 2 ^ 32"
  shows "carries_out \<tau> scope (keys @ scope) s u (\<lambda>\<sigma>. Continues (go_assign \<sigma> keys (replicate (length keys) 0)))"
  using assms
proof (induction ts arbitrary: s keys scope)
  case Nil
  then show ?case
    by (auto simp: lower_runs intro!: carries_outI [where code = "[]"] emits_refl)
next
  case (Cons t ts)
  obtain key keys' where keys: "keys = key # keys'" and ready: "target_ready \<tau> s key t"
    and rs: "list_all2 (target_ready \<tau> s) keys' ts" using Cons.prems(2) by (auto simp: list_all2_Cons2)
  have arr: "\<not> is_array (tgt_Type t)" "tgt_Type t = \<tau> key" "plain_scalar (\<tau> key)"
    using ready plain_not_array by (auto simp: target_ready_def)
  obtain z s1 y s2 where z: "emit_constant C (\<tau> key) 0 pos s = Inr (z, s1)"
    and w: "writeAssignmentTarget C t z pos s1 = Inr (y, s2)" and rest: "zero_targets C ts pos s2 = Inr (x, u)"
    using Cons.prems(1) arr by (auto simp: lower_runs)
  note f2 = fits_before [OF extends_declarations(1) rest Cons.prems(4)]
  note f1 = fits_before [OF extends_targets(2) w f2]
  have zr: "in_range (\<tau> key) 0" using arr(3) by (auto simp: in_range_def plain_scalar_def integer_def go_wrap_def)
  have "emit_constant C (\<tau> key) (word_of_int 0) pos s = Inr (z, s1)" using z by simp
  note l = go_constant_correct [OF this zr f1]
  have one: "carries_out \<tau> scope (key # scope) s s2 (\<lambda>\<sigma>. Continues (\<sigma>(key := 0)))"
    using set_correct [OF l Cons.prems(3) ready w] by simp
  then have s2: "sound \<tau> s2" and v: "low_Variables s \<subseteq>\<^sub>m low_Variables s2" by (auto simp: carries_out_def emits_def)
  have "list_all2 (target_ready \<tau> s2) keys' ts"
    using rs by (rule list_all2_mono) (rule target_ready_mono [OF _ v])
  from carries_out_trans [OF one Cons.IH [OF rest this s2 Cons.prems(4)]]
  have "carries_out \<tau> scope (keys' @ key # scope) s u (\<lambda>\<sigma>. Continues (go_assign \<sigma> keys (replicate (length keys) 0)))"
    by (simp add: keys)
  then show ?case by (rule carries_out_subset) (auto simp: keys)
qed

lemma spec_correct:
  assumes r: "lower_spec C (ValueSpec n names t vals) s = Inr (x, u)"
    and ty: "typed_declare (info_of C) \<tau> scope names vals = Some scope'"
    and free: "\<And>key. \<not> lc_AddressTaken C key" and s: "sound \<tau> s" and fits: "length (values_of u) < 2 ^ 32"
  shows "carries_out \<tau> scope scope' s u (\<lambda>\<sigma>. go_declare (info_of C) \<sigma> names vals)"
proof -
  let ?lhs = "map (\<lambda>(n, s). Ident n s) names"
  let ?keys = "map (target_key (info_of C) True) ?lhs"
  have keys: "map (\<lambda>(n, s). target_key (info_of C) True (Ident n s)) names = ?keys" by auto
  have tys: "?lhs \<noteq> []" "list_all (typed_target (info_of C) \<tau> scope True) ?lhs"
    "vals = [] \<or> list_all2 (\<lambda>key e. well_typed (info_of C) \<tau> scope e (\<tau> key)) ?keys vals"
    "scope' = ?keys @ scope"
    using ty unfolding typed_declare_def Let_def by (auto split: if_splits)
  let ?rest = "\<lambda>targets. if vals = [] then zero_targets C targets (node_Pos n)
            else if length targets \<noteq> length vals
            then faill (errorAt C n ''multiple-result variable initialization is not supported'')
            else
              thenl (initialize_arrays C n (length targets) targets vals)
                (if \<not> is_array (tgt_Type (hd targets)) then assignValues C targets vals (node_Pos n)
                 else returnl ())"
  obtain ts s1 where ts: "lower_targets C ?lhs True s = Inr (ts, s1)" and q: "?rest ts s1 = Inr (x, u)"
    using r by (auto simp: lower_spec_def bindl_Inr)
  have m: "extends (?rest ts)" by (auto intro!: lower_steps)
  have "length (values_of u) \<le> 2 ^ 32 - 1" using fits by simp
  note f1 = fits_before [OF m q this]
  have t1: "emits [] s s1" "sound \<tau> s1" "list_all2 (target_ready \<tau> s1) ?keys ts"
    using targets_lowered [OF ts tys(2) free s] f1 by simp_all
  show ?thesis
  proof (cases "vals = []")
    case True
    have "zero_targets C ts (node_Pos n) s1 = Inr (x, u)" using q True by simp
    moreover have "length (values_of u) \<le> 2 ^ 32" using fits by simp
    ultimately show ?thesis
      using carries_out_after_targets [OF t1(1) zeros_correct [OF _ t1(3,2)]] True tys(4)
      by (simp add: go_declare_def keys)
  next
    case False
    then have len: "length ts = length vals" "ts \<noteq> []"
      using tys(1,3) list_all2_lengthD [OF t1(3)] list_all2_lengthD [of _ ?keys vals] by auto
    have "\<not> is_array (tgt_Type (hd ts))"
      using t1(3) len(2) by (cases ts) (auto simp: list_all2_Cons2 target_ready_def plain_not_array)
    then have "assignValues C ts vals (node_Pos n) s1 = Inr (x, u)"
      using q False len no_arrays [OF t1(3)] by (auto simp: lower_runs)
    moreover have go: "go_declare (info_of C) \<sigma> names vals = (case go_eval_all (info_of C) \<sigma> vals of None \<Rightarrow> Panics
        | Some ks \<Rightarrow> Continues (go_assign \<sigma> ?keys ks))" for \<sigma>
      using False by (simp only: go_declare_def Let_def keys if_False)
    ultimately show ?thesis
      unfolding go tys(4) using values_correct [OF ts _ tys(2) free _ s fits] tys(3) False by blast
  qed
qed

lemma specs_correct:
  assumes "lower_specs C specs s = Inr (x, u)" and "typed_specs (info_of C) \<tau> scope specs = Some scope'"
    and free: "\<And>key. \<not> lc_AddressTaken C key" and "sound \<tau> s" and "length (values_of u) < 2 ^ 32"
  shows "carries_out \<tau> scope scope' s u (\<lambda>\<sigma>. go_declarations (info_of C) \<sigma> specs)"
  using assms
proof (induction specs arbitrary: s scope)
  case Nil
  then show ?case by (auto simp: lower_runs intro!: carries_outI [where code = "[]"] emits_refl)
next
  case (Cons spec specs)
  obtain n names t vals inner where sp: "spec = ValueSpec n names t vals"
    and d: "typed_declare (info_of C) \<tau> scope names vals = Some inner"
    and ds: "typed_specs (info_of C) \<tau> inner specs = Some scope'"
    using Cons.prems(2) by (cases spec) (auto split: bind_splits)
  obtain y s1 where one: "lower_spec C spec s = Inr (y, s1)" and rest: "lower_specs C specs s1 = Inr (x, u)"
    using Cons.prems(1) by (auto simp: lower_runs)
  have "length (values_of u) \<le> 2 ^ 32 - 1" using Cons.prems(5) by simp
  then have f1: "length (values_of s1) < 2 ^ 32" using fits_before [OF extends_declarations(4) rest] by fastforce
  note c = spec_correct [OF one [unfolded sp] d free Cons.prems(4) f1]
  then have "sound \<tau> s1" by (simp add: carries_out_def)
  from carries_out_trans [OF c Cons.IH [OF rest ds free this Cons.prems(5)]]
  show ?case by (simp add: sp)
qed

end
