(* ===== verification/FlowFacts.thy ===== *)
theory FlowFacts
  imports StatementFacts
begin

text \<open>
  The lowering of control flow is correct: from a place where the registers hold the variables the
  graph reaches a place where they hold the variables the statement leaves, or ends as the source does.
  A function under construction is related to its final form by \<open>grows\<close>: the open blocks get more
  code, every other block stays as it is.
\<close>

section \<open>Runs\<close>

lemma reaches_refl: "reaches F a a"
  unfolding reaches_def by (rule exI [of _ 0]) simp

lemma reaches_trans: "reaches F a b \<Longrightarrow> reaches F b c \<Longrightarrow> reaches F a c"
  unfolding reaches_def by (metis add.assoc)

lemma reaches_ends: "reaches F a b \<Longrightarrow> ends_with F b r \<Longrightarrow> ends_with F a r"
  unfolding reaches_def ends_with_def by metis

lemma step_reaches: "ir_step F a = Inr b \<Longrightarrow> reaches F a b"
  unfolding reaches_def by (rule exI [of _ 1]) simp

lemma step_ends: "ir_step F a = Inl r \<Longrightarrow> ends_with F a r"
  unfolding ends_with_def by (rule exI [of _ 1]) simp

text \<open>A run with at least one step; and runs that have not ended after a number of steps.\<close>

definition advances :: "ir_function \<Rightarrow> ir_place \<Rightarrow> ir_place \<Rightarrow> bool" where
  "advances F a b \<longleftrightarrow> (\<exists>k. \<forall>n. ir_run (Suc k + n) F a = ir_run n F b)"

lemma advances_reaches: "advances F a b \<Longrightarrow> reaches F a b"
  unfolding advances_def reaches_def by blast

lemma step_advances: "ir_step F a = Inr b \<Longrightarrow> advances F a b"
  unfolding advances_def by (rule exI [of _ 0]) simp

lemma reaches_advances: "reaches F a b \<Longrightarrow> advances F b c \<Longrightarrow> advances F a c"
  unfolding advances_def reaches_def by (metis add.assoc add_Suc_right)

lemma ir_run_more: "ir_run n F a = Some r \<Longrightarrow> n \<le> m \<Longrightarrow> ir_run m F a = Some r"
proof (induction n arbitrary: m a)
  case (Suc n)
  then obtain m' where m: "m = Suc m'" "n \<le> m'" by (cases m) auto
  then show ?case using Suc by (auto split: sum.splits)
qed simp

lemma reaches_unfinished: "reaches F a b \<Longrightarrow> ir_run n F b = None \<Longrightarrow> ir_run n F a = None"
  unfolding reaches_def by (metis ir_run_more le_add2 not_None_eq)

lemma advances_unfinished:
  assumes "advances F a b" and "ir_run n F b = None"
  shows "ir_run (Suc n) F a = None"
proof -
  obtain k where k: "ir_run (Suc k + n) F a = None" using assms unfolding advances_def by metis
  show ?thesis
  proof (rule ccontr)
    assume "ir_run (Suc n) F a \<noteq> None"
    then obtain r where "ir_run (Suc n) F a = Some r" by blast
    from ir_run_more [OF this, of "Suc k + n"] k show False by simp
  qed
qed

abbreviation block_of :: "ir_function \<Rightarrow> nat \<Rightarrow> basic_block" where
  "block_of F i \<equiv> fn_Blocks F ! i"

lemma code_runs:
  assumes "block_Instructions (block_of F c) = pre @ code @ post"
  shows "ir_code F code env = Inr env' \<Longrightarrow> reaches F (c, length pre, env) (c, length (pre @ code), env')"
    and "ir_code F code env = Inl e \<Longrightarrow> ends_with F (c, length pre, env) (Inl e)"
proof -
  have "(ir_code F code env = Inr env' \<longrightarrow> reaches F (c, length pre, env) (c, length (pre @ code), env')) \<and>
    (ir_code F code env = Inl e \<longrightarrow> ends_with F (c, length pre, env) (Inl e))"
    using assms
  proof (induction code arbitrary: pre env)
    case Nil
    then show ?case by (auto simp: reaches_refl)
  next
    case (Cons ins code)
    have at: "length pre < length (block_Instructions (block_of F c))"
      "block_Instructions (block_of F c) ! length pre = ins" using Cons.prems by simp_all
    show ?case
    proof (cases "ir_effect F ins env")
      case (Inl e')
      then have "ir_step F (c, length pre, env) = Inl (Inl e')" using at by (simp add: ir_step_def)
      then show ?thesis using Inl by (auto dest: step_ends)
    next
      case (Inr env1)
      then have "ir_step F (c, length pre, env) = Inr (c, length (pre @ [ins]), env1)"
        using at by (simp add: ir_step_def)
      note s = step_reaches [OF this]
      have "block_Instructions (block_of F c) = (pre @ [ins]) @ code @ post" using Cons.prems by simp
      from Cons.IH [OF this, of env1] s Inr show ?thesis
        by (auto intro: reaches_trans reaches_ends)
    qed
  qed
  then show "ir_code F code env = Inr env' \<Longrightarrow> reaches F (c, length pre, env) (c, length (pre @ code), env')"
    "ir_code F code env = Inl e \<Longrightarrow> ends_with F (c, length pre, env) (Inl e)" by blast+
qed

lemma unat_block:
  assumes "i < length (fn_Blocks F)" and "length (fn_Blocks F) \<le> 2 ^ 32"
  shows "unat (blockID i) = i"
proof -
  have "i < 2 ^ LENGTH(32)" using assms by simp
  then show ?thesis unfolding blockID_def by (simp add: unat_of_nat take_bit_nat_eq_self)
qed

lemma jump_runs:
  assumes "block_of F c = b\<lparr>block_Terminator := jump_to C i pos\<rparr>" and "i < length (fn_Blocks F)"
    and "length (fn_Blocks F) \<le> 2 ^ 32"
  shows "advances F (c, length (block_Instructions b), env) (i, 0, env)"
  using unat_block [OF assms(2,3)] assms(1)
  by (intro step_advances) (simp add: ir_step_def jump_to_def)

lemma branch_runs:
  assumes "block_of F c = b\<lparr>block_Terminator := branch_to C v i j pos\<rparr>"
    and "i < length (fn_Blocks F)" "j < length (fn_Blocks F)" and "length (fn_Blocks F) \<le> 2 ^ 32"
  shows "advances F (c, length (block_Instructions b), env) (if env v \<noteq> 0 then i else j, 0, env)"
  using unat_block [OF assms(2,4)] unat_block [OF assms(3,4)] assms(1)
  by (intro step_advances) (simp add: ir_step_def branch_to_def)

lemma return_runs:
  assumes "block_of F c = b\<lparr>block_Terminator := return_with C v pos\<rparr>"
  shows "ends_with F (c, length (block_Instructions b), env)
    (Inr (if fn_Result F = TypeVoid then None else Some (env v)))"
  using assms by (intro step_ends) (simp add: ir_step_def return_with_def)

section \<open>Statements and the final function\<close>

definition completed :: "nat \<Rightarrow> lower_state \<Rightarrow> lower_state \<Rightarrow> ir_function \<Rightarrow> bool" where
  "completed c s t F \<longleftrightarrow>
     grows (set_option (low_Current t) \<union> {i. i < length (fn_Blocks (low_Function s)) \<and> i \<noteq> c}) (low_Function t) F"

definition at_end :: "nat \<Rightarrow> lower_state \<Rightarrow> ir_env \<Rightarrow> ir_place" where
  "at_end c s env = (c, length (block_Instructions (block_of (low_Function s) c)), env)"

definition simulates ::
  "nat \<Rightarrow> (nat \<Rightarrow> ir_type) \<Rightarrow> nat list \<Rightarrow> lower_state \<Rightarrow> ir_function \<Rightarrow> ir_place \<Rightarrow> go_outcome option \<Rightarrow> bool" where
  "simulates turns \<tau> scope t F place r \<longleftrightarrow>
     (case r of
        None \<Rightarrow> ir_run turns F place = None
      | Some (Continues \<sigma>) \<Rightarrow>
          \<exists>d env. low_Current t = Some d \<and> reaches F place (at_end d t env) \<and> store_held \<tau> scope t \<sigma> env
      | Some outcome \<Rightarrow> ends_with F place (ir_outcome outcome))"

lemma simulates_simps [simp]:
  "simulates turns \<tau> scope t F place None \<longleftrightarrow> ir_run turns F place = None"
  "simulates turns \<tau> scope t F place (Some (Continues \<sigma>)) \<longleftrightarrow>
     (\<exists>d env. low_Current t = Some d \<and> reaches F place (at_end d t env) \<and> store_held \<tau> scope t \<sigma> env)"
  "simulates turns \<tau> scope t F place (Some (Returns v)) \<longleftrightarrow> ends_with F place (Inr (map_option word_of_int v))"
  "simulates turns \<tau> scope t F place (Some Panics) \<longleftrightarrow> ends_with F place (Inl ErrVmDivisionByZero)"
  by (simp_all add: simulates_def)

lemma simulates_reaches:
  "reaches F a b \<Longrightarrow> simulates turns \<tau> scope t F b r \<Longrightarrow> simulates turns \<tau> scope t F a r"
  by (cases r; cases "the r") (auto intro: reaches_trans reaches_ends reaches_unfinished)

lemma simulates_advances:
  "advances F a b \<Longrightarrow> simulates turns \<tau> scope t F b r \<Longrightarrow> simulates (Suc turns) \<tau> scope t F a r"
proof (cases r)
  case None
  assume "advances F a b" and "simulates turns \<tau> scope t F b r"
  then have "ir_run turns F b = None" using None by simp
  then have "ir_run (Suc turns) F a = None" by (rule advances_unfinished [OF \<open>advances F a b\<close>])
  then show ?thesis unfolding None simulates_simps .
next
  case (Some out)
  assume a: "advances F a b" and "simulates turns \<tau> scope t F b r"
  then have "simulates turns \<tau> scope t F a r" by (rule simulates_reaches [OF advances_reaches])
  then show ?thesis using Some by (cases out) simp_all
qed

lemma simulates_then:
  assumes "simulates turns \<tau> scope s F place r"
    and "\<And>\<sigma> d env. r = Some (Continues \<sigma>) \<Longrightarrow> low_Current s = Some d \<Longrightarrow> store_held \<tau> scope s \<sigma> env \<Longrightarrow>
      simulates turns \<tau> scope' t F (at_end d s env) (k \<sigma>)"
  shows "simulates turns \<tau> scope' t F place (continue_with r k)"
proof (cases r)
  case None
  then show ?thesis using assms(1) by (simp add: continue_with_def)
next
  case (Some out)
  then show ?thesis using assms
    by (cases out) (auto simp: continue_with_def intro: simulates_reaches)
qed

text \<open>A lowering does what a statement does.\<close>

definition performs ::
  "(nat \<Rightarrow> ir_type) \<Rightarrow> ir_type \<Rightarrow> nat list \<Rightarrow> nat list \<Rightarrow> unit lowering \<Rightarrow> (nat \<Rightarrow> go_store \<Rightarrow> go_outcome option) \<Rightarrow> bool" where
  "performs \<tau> result scope scope' m ex \<longleftrightarrow>
     (\<forall>s u t c. m s = Inr (u, t) \<longrightarrow> low_Current s = Some c \<longrightarrow> c < length (fn_Blocks (low_Function s)) \<longrightarrow>
        sound \<tau> s \<longrightarrow> length (values_of t) < 2 ^ 32 \<longrightarrow> fn_Result (low_Function s) = result \<longrightarrow>
        sound \<tau> t \<and>
        (\<forall>F turns \<sigma> env. completed c s t F \<longrightarrow> length (fn_Blocks F) \<le> 2 ^ 32 \<longrightarrow> store_held \<tau> scope s \<sigma> env \<longrightarrow>
           simulates turns \<tau> scope' t F (at_end c s env) (ex turns \<sigma>)))"

lemma performsI:
  assumes "\<And>s u t c. m s = Inr (u, t) \<Longrightarrow> low_Current s = Some c \<Longrightarrow> c < length (fn_Blocks (low_Function s)) \<Longrightarrow>
        sound \<tau> s \<Longrightarrow> length (values_of t) < 2 ^ 32 \<Longrightarrow> fn_Result (low_Function s) = result \<Longrightarrow>
        sound \<tau> t \<and>
        (\<forall>F turns \<sigma> env. completed c s t F \<longrightarrow> length (fn_Blocks F) \<le> 2 ^ 32 \<longrightarrow> store_held \<tau> scope s \<sigma> env \<longrightarrow>
           simulates turns \<tau> scope' t F (at_end c s env) (ex turns \<sigma>))"
  shows "performs \<tau> result scope scope' m ex"
  using assms unfolding performs_def by blast

lemma performsD:
  assumes "performs \<tau> result scope scope' m ex" and "m s = Inr (u, t)" and "low_Current s = Some c"
    and "c < length (fn_Blocks (low_Function s))" and "sound \<tau> s" and "length (values_of t) < 2 ^ 32"
    and "fn_Result (low_Function s) = result"
  shows "sound \<tau> t"
    and "completed c s t F \<Longrightarrow> length (fn_Blocks F) \<le> 2 ^ 32 \<Longrightarrow> store_held \<tau> scope s \<sigma> env \<Longrightarrow>
      simulates turns \<tau> scope' t F (at_end c s env) (ex turns \<sigma>)"
  using assms unfolding performs_def by blast+

lemma completed_values: "completed c s t F \<Longrightarrow> prefix (values_of t) (fn_Values F)"
  by (simp add: completed_def grows_def)

lemma completed_code:
  assumes "completed c s t F" and "emits code s t" and "low_Current s = Some c" and "c < length (fn_Blocks (low_Function s))"
  obtains post where "block_Instructions (block_of F c) = block_Instructions (block_of (low_Function s) c) @ code @ post"
proof -
  have "low_Current t = Some c" "c < length (fn_Blocks (low_Function t))"
    "block_Instructions (block_of (low_Function t) c) = block_Instructions (block_of (low_Function s) c) @ code"
    using assms by (auto simp: emits_def with_code_nth)
  moreover from this have "prefix (block_Instructions (block_of (low_Function t) c)) (block_Instructions (block_of F c))"
    using assms(1) by (auto simp: completed_def grows_def)
  ultimately show thesis using that by (auto simp: prefix_def)
qed

lemma emits_at_end:
  "emits code s t \<Longrightarrow> low_Current s = Some c \<Longrightarrow> c < length (fn_Blocks (low_Function s)) \<Longrightarrow>
     at_end c t env = (c, length (block_Instructions (block_of (low_Function s) c) @ code), env)"
  by (simp add: at_end_def emits_def with_code_nth)

lemma carries_out_performs:
  assumes "\<And>s u t. m s = Inr (u, t) \<Longrightarrow> sound \<tau> s \<Longrightarrow> length (values_of t) < 2 ^ 32 \<Longrightarrow> carries_out \<tau> scope scope' s t ex"
  shows "performs \<tau> result scope scope' m (\<lambda>turns \<sigma>. Some (ex \<sigma>))"
proof (rule performsI, intro conjI allI impI)
  fix s u t c
  assume r: "m s = Inr (u, t)" "sound \<tau> s" "length (values_of t) < 2 ^ 32"
    and c: "low_Current s = Some c" "c < length (fn_Blocks (low_Function s))"
  from assms [OF r] show "sound \<tau> t" by (simp add: carries_out_def)
  fix F :: ir_function and turns \<sigma> env
  assume F: "completed c s t F" and h: "store_held \<tau> scope s \<sigma> env"
  obtain code where code: "emits code s t"
    "outcome_reached \<tau> scope' t (ir_code F code env) (ex \<sigma>)"
    using assms [OF r] completed_values [OF F] h unfolding carries_out_def by blast
  have cur: "low_Current t = Some c" using code(1) c by (simp add: emits_def)
  obtain post where "block_Instructions (block_of F c) = block_Instructions (block_of (low_Function s) c) @ code @ post"
    by (rule completed_code [OF F code(1) c])
  note run = code_runs [OF this]
  show "simulates turns \<tau> scope' t F (at_end c s env) (Some (ex \<sigma>))"
  proof (cases "ex \<sigma>")
    case (Continues \<sigma>')
    then obtain env' where "ir_code F code env = Inr env'" "store_held \<tau> scope' t \<sigma>' env'" using code(2) by auto
    then show ?thesis using Continues run(1) cur emits_at_end [OF code(1) c] by (auto simp: at_end_def)
  next
    case Panics
    then show ?thesis using code(2) run(2) by (simp add: at_end_def)
  next
    case (Returns v)
    then show ?thesis using code(2) by simp
  qed
qed

lemma performs_subset:
  assumes p: "performs \<tau> result scope inner m ex" and "set scope' \<subseteq> set inner"
  shows "performs \<tau> result scope scope' m ex"
proof -
  have "simulates turns \<tau> inner t F place r \<Longrightarrow> simulates turns \<tau> scope' t F place r" for turns t F place r
    using store_held_subset [OF _ assms(2)] by (cases r; cases "the r") (simp_all, blast)
  with p show ?thesis unfolding performs_def by (elim all_forward imp_forward conj_forward) blast+
qed

lemma performs_skip: "performs \<tau> result scope scope (returnl ()) (\<lambda>turns \<sigma>. Some (Continues \<sigma>))"
  by (rule carries_out_performs) (auto simp: lower_runs intro!: carries_outI [where code = "[]"] emits_refl)

section \<open>Blocks of statements\<close>

lemma grows_mono:
  assumes "grows P f g" and "P \<subseteq> Q"
  shows "grows Q f g"
  by (rule grows_trans [OF grows_refl [of "{}" f] assms(1)]) (use assms(2) in auto)

lemma grows_same: "grows P f g \<Longrightarrow> i < length (fn_Blocks f) \<Longrightarrow> i \<notin> P \<Longrightarrow> block_of g i = block_of f i"
  by (auto simp: grows_def)

lemma grows_length: "grows P f g \<Longrightarrow> length (fn_Blocks f) \<le> length (fn_Blocks g)"
  by (simp add: grows_def)

lemma grows_result: "grows P f g \<Longrightarrow> fn_Result g = fn_Result f"
  by (simp add: grows_def)

lemma grows_values: "grows P f g \<Longrightarrow> length (fn_Values f) \<le> length (fn_Values g)"
  by (auto simp: grows_def dest: prefix_length_le)

lemma flow_grows: "flow c s t \<Longrightarrow> grows {c} (low_Function s) (low_Function t)"
  by (simp add: flow_def develops_def)

lemma completed_first:
  assumes f1: "flow c s s1" and d: "low_Current s1 = Some d" and f2: "flow d s1 t" and F: "completed c s t F"
  shows "completed c s s1 F"
  unfolding completed_def
proof (rule grows_trans [OF flow_grows [OF f2] F [unfolded completed_def]])
  fix i assume "i < length (fn_Blocks (low_Function s1))"
    "i \<in> {d} \<or> i \<in> set_option (low_Current t) \<union> {i. i < length (fn_Blocks (low_Function s)) \<and> i \<noteq> c}"
  then show "i \<in> set_option (low_Current s1) \<union> {i. i < length (fn_Blocks (low_Function s)) \<and> i \<noteq> c}"
    using flow_place [OF f2] d by fastforce
qed

lemma completed_second:
  assumes f1: "flow c s s1" and d: "low_Current s1 = Some d" and F: "completed c s t F"
  shows "completed d s1 t F"
  unfolding completed_def
  by (rule grows_mono [OF F [unfolded completed_def]])
    (use flow_place [OF f1 d] grows_length [OF flow_grows [OF f1]] in auto)

lemma performs_sequence:
  assumes m: "performs \<tau> result scope inner m ex" "flows m"
    and k: "performs \<tau> result inner scope' (lowerBlock C ss) ey"
  shows "performs \<tau> result scope scope' (lower_if_reached m (lowerBlock C ss)) (\<lambda>turns \<sigma>. continue_with (ex turns \<sigma>) (ey turns))"
proof (rule performsI)
  fix s u t c
  assume r: "lower_if_reached m (lowerBlock C ss) s = Inr (u, t)" and c: "low_Current s = Some c" "c < length (fn_Blocks (low_Function s))"
    and s: "sound \<tau> s" and fits: "length (values_of t) < 2 ^ 32" and res: "fn_Result (low_Function s) = result"
  obtain x s1 where s1: "m s = Inr (x, s1)" "lowerBlock C ss s1 = Inr (u, t)"
    using r c(1) by (auto simp: lower_if_reached_def lower_runs)
  have f1: "flow c s s1" by (rule flowsD [OF m(2) s1(1) c])
  show "sound \<tau> t \<and>
        (\<forall>F turns \<sigma> env. completed c s t F \<longrightarrow> length (fn_Blocks F) \<le> 2 ^ 32 \<longrightarrow> store_held \<tau> scope s \<sigma> env \<longrightarrow>
           simulates turns \<tau> scope' t F (at_end c s env) (continue_with (ex turns \<sigma>) (ey turns)))"
  proof (cases "low_Current s1")
    case None
    then have t: "t = s1" using lowerBlock_unreached s1(2) by fastforce
    note p = performsD [OF m(1) s1(1) c s fits [unfolded t] res]
    show ?thesis unfolding t
      using p(1) simulates_then [OF p(2)] None by auto
  next
    case (Some d)
    have f2: "flow d s1 t" by (rule flowsD [OF flows_statement(2) s1(2) Some flow_open [OF f1 Some]])
    have "length (values_of s1) < 2 ^ 32" using grows_values [OF flow_grows [OF f2]] fits by simp
    note p = performsD [OF m(1) s1(1) c s this res]
    have "fn_Result (low_Function s1) = result" using grows_result [OF flow_grows [OF f1]] res by simp
    note q = performsD [OF k s1(2) Some flow_open [OF f1 Some] p(1) fits this]
    show ?thesis
    proof (intro conjI allI impI)
      show "sound \<tau> t" by (rule q(1))
      fix F turns \<sigma> env
      assume F: "completed c s t F" "length (fn_Blocks F) \<le> 2 ^ 32" and h: "store_held \<tau> scope s \<sigma> env"
      note F1 = completed_first [OF f1 Some f2 F(1)] and F2 = completed_second [OF f1 Some F(1)]
      show "simulates turns \<tau> scope' t F (at_end c s env) (continue_with (ex turns \<sigma>) (ey turns))"
        by (rule simulates_then [OF p(2) [OF F1 F(2) h]]) (use Some q(2) [OF F2 F(2)] in auto)
    qed
  qed
qed

section \<open>New and terminated blocks\<close>

definition same_tables :: "lower_state \<Rightarrow> lower_state \<Rightarrow> bool" where
  "same_tables s t \<longleftrightarrow> same_maps s t \<and> values_of t = values_of s"

lemma same_tables_refl: "same_tables s s"
  by (simp add: same_tables_def same_maps_def)

lemma same_tables_trans: "same_tables s t \<Longrightarrow> same_tables t u \<Longrightarrow> same_tables s u"
  by (simp add: same_tables_def same_maps_def)

lemma same_tables_sound: "same_tables s t \<Longrightarrow> sound \<tau> s \<Longrightarrow> sound \<tau> t"
  by (auto simp: same_tables_def intro: sound_mono)

lemma same_tables_vars: "same_tables s t \<Longrightarrow> low_Variables t = low_Variables s"
  by (simp add: same_tables_def same_maps_def)

lemma same_tables_held: "same_tables s t \<Longrightarrow> store_held \<tau> scope t = store_held \<tau> scope s"
  by (simp add: store_held_def same_tables_vars fun_eq_iff)

lemma same_tables_at: "same_tables s (at_block b s)" "same_tables (at_block b s) t = same_tables s t"
  by (simp_all add: same_tables_def same_maps_def)

lemma newBlock_built:
  assumes "newBlock name s = Inr (i, t)"
  shows "i = length (fn_Blocks (low_Function s))" "length (fn_Blocks (low_Function t)) = Suc i"
    "low_Current t = low_Current s" "same_tables s t" "grows {} (low_Function s) (low_Function t)"
    "block_Instructions (block_of (low_Function t) i) = []"
  using assms
  by (auto simp: newBlock_def Let_def same_tables_def same_maps_def grows_def numbered_simps numbered_def nth_append
      less_Suc_eq)

lemma terminate_built:
  assumes "terminate_block (Some b) term s = Inr (x, t)" and "b < length (fn_Blocks (low_Function s))"
  shows "length (fn_Blocks (low_Function t)) = length (fn_Blocks (low_Function s))"
    "low_Current t = low_Current s" "same_tables s t" "grows {b} (low_Function s) (low_Function t)"
    "block_of (low_Function t) b = (block_of (low_Function s) b)\<lparr>block_Terminator := term\<rparr>"
  using assms
  by (auto simp: terminate_block_def Let_def same_tables_def same_maps_def grows_def numbered_simps numbered_def
      nth_list_update)

lemma terminate_if:
  assumes r: "(if a \<noteq> None then terminate_block a term else returnl ()) s = Inr (x, t)"
    and a: "\<forall>i. a = Some i \<longrightarrow> i < length (fn_Blocks (low_Function s))"
  shows "length (fn_Blocks (low_Function t)) = length (fn_Blocks (low_Function s))" "same_tables s t"
    "grows (set_option a) (low_Function s) (low_Function t)"
    "\<And>i. a = Some i \<Longrightarrow> block_of (low_Function t) i = (block_of (low_Function s) i)\<lparr>block_Terminator := term\<rparr>"
proof -
  have "length (fn_Blocks (low_Function t)) = length (fn_Blocks (low_Function s)) \<and> same_tables s t \<and>
      grows (set_option a) (low_Function s) (low_Function t) \<and>
      (\<forall>i. a = Some i \<longrightarrow> block_of (low_Function t) i = (block_of (low_Function s) i)\<lparr>block_Terminator := term\<rparr>)"
  proof (cases a)
    case None
    then show ?thesis using r by (simp add: lower_runs same_tables_refl grows_refl)
  next
    case (Some i)
    then have "terminate_block (Some i) term s = Inr (x, t)" using r by simp
    from terminate_built [OF this a [rule_format, OF Some]] Some show ?thesis by simp
  qed
  then show "length (fn_Blocks (low_Function t)) = length (fn_Blocks (low_Function s))" "same_tables s t"
    "grows (set_option a) (low_Function s) (low_Function t)"
    "\<And>i. a = Some i \<Longrightarrow> block_of (low_Function t) i = (block_of (low_Function s) i)\<lparr>block_Terminator := term\<rparr>"
    by blast+
qed

lemma emits_grows:
  "emits code s t \<Longrightarrow> low_Current s = Some c \<Longrightarrow> c < length (fn_Blocks (low_Function s)) \<Longrightarrow>
     grows {c} (low_Function s) (low_Function t)"
  by (rule flow_grows [OF emits_flow])

text \<open>The join of two branches.\<close>

lemma join_built:
  assumes j: "join_steps C n a b s = Inr (u, t)"
    and a: "\<forall>i. a = Some i \<longrightarrow> i < length (fn_Blocks (low_Function s)) \<and> b \<noteq> Some i"
    and b: "\<forall>i. b = Some i \<longrightarrow> i < length (fn_Blocks (low_Function s))"
  shows "same_tables s t" and "grows (set_option a \<union> set_option b) (low_Function s) (low_Function t)"
    and "\<And>i. low_Current t = Some i \<Longrightarrow> length (fn_Blocks (low_Function s)) \<le> i"
    and "\<And>i. a = Some i \<or> b = Some i \<Longrightarrow> \<exists>J. low_Current t = Some J \<and> J < length (fn_Blocks (low_Function t)) \<and>
      block_Instructions (block_of (low_Function t) J) = [] \<and>
      block_of (low_Function t) i = (block_of (low_Function s) i)\<lparr>block_Terminator := jump_to C J (node_End n)\<rparr>"
proof -
  have "same_tables s t \<and> grows (set_option a \<union> set_option b) (low_Function s) (low_Function t) \<and>
    (\<forall>i. low_Current t = Some i \<longrightarrow> length (fn_Blocks (low_Function s)) \<le> i) \<and>
    (\<forall>i. a = Some i \<or> b = Some i \<longrightarrow> (\<exists>J. low_Current t = Some J \<and> J < length (fn_Blocks (low_Function t)) \<and>
      block_Instructions (block_of (low_Function t) J) = [] \<and>
      block_of (low_Function t) i = (block_of (low_Function s) i)\<lparr>block_Terminator := jump_to C J (node_End n)\<rparr>))"
  proof (cases "a = None \<and> b = None")
    case True
    then show ?thesis using j by (auto simp: join_steps_def lower_runs set_current_def same_tables_at same_tables_refl grows_refl)
  next
    case False
    let ?jump = "\<lambda>J. jump_to C J (node_End n)"
    obtain J s1 s2 s3 x y where n: "newBlock ''if.join'' s = Inr (J, s1)"
      and x: "(if a \<noteq> None then terminate_block a (?jump J) else returnl ()) s1 = Inr (x, s2)"
      and y: "(if b \<noteq> None then terminate_block b (?jump J) else returnl ()) s2 = Inr (y, s3)"
      and t: "t = at_block (Some J) s3"
      using j unfolding join_steps_def if_not_P [OF False] lower_runs set_current_def by blast
    note nb = newBlock_built [OF n]
    have old: "block_of (low_Function s1) i = block_of (low_Function s) i" if "i < J" for i
      using grows_same [OF nb(5)] that nb(1) by simp
    have "\<forall>i. a = Some i \<longrightarrow> i < length (fn_Blocks (low_Function s1))" using a nb(1,2) by fastforce
    note s2 = terminate_if [OF x this]
    have "\<forall>i. b = Some i \<longrightarrow> i < length (fn_Blocks (low_Function s2))" using b nb(1,2) s2(1) by fastforce
    note s3 = terminate_if [OF y this]
    have g: "grows (set_option a \<union> set_option b) (low_Function s) (low_Function s3)"
      by (rule grows_trans [OF nb(5) grows_trans [OF s2(3) s3(3), where R = "set_option a \<union> set_option b"]]) auto
    have J2: "block_of (low_Function s2) J = block_of (low_Function s1) J" using grows_same [OF s2(3), of J] a nb(1,2) by fastforce
    have J3: "block_of (low_Function s3) J = block_of (low_Function s2) J" using grows_same [OF s3(3), of J] b nb(1,2) s2(1) by fastforce
    have one: "block_of (low_Function s3) i = (block_of (low_Function s) i)\<lparr>block_Terminator := ?jump J\<rparr>" if i: "a = Some i" for i
      using grows_same [OF s3(3), of i] s2(1) s2(4) [OF i] a i old nb(1,2) by auto
    have two: "block_of (low_Function s3) i = (block_of (low_Function s) i)\<lparr>block_Terminator := ?jump J\<rparr>" if i: "b = Some i" for i
    proof -
      have "i \<notin> set_option a" using a i by auto
      then show ?thesis using grows_same [OF s2(3), of i] nb(1,2) s3(4) [OF i] b i old by simp
    qed
    have st: "same_tables s t"
      unfolding t by (rule same_tables_trans [OF same_tables_trans [OF same_tables_trans [OF nb(4) s2(2)] s3(2)] same_tables_at(1)])
    have empty: "block_Instructions (block_of (low_Function s3) J) = []" using J2 J3 nb(6) by simp
    show ?thesis
    proof (intro conjI allI impI)
      show "same_tables s t" by (rule st)
      show "grows (set_option a \<union> set_option b) (low_Function s) (low_Function t)" using g by (simp add: t)
    next
      fix i assume "low_Current t = Some i"
      then show "length (fn_Blocks (low_Function s)) \<le> i" using nb(1) by (simp add: t)
    next
      fix i assume "a = Some i \<or> b = Some i"
      then have "block_of (low_Function s3) i = (block_of (low_Function s) i)\<lparr>block_Terminator := ?jump J\<rparr>"
        using one two by blast
      then show "\<exists>J. low_Current t = Some J \<and> J < length (fn_Blocks (low_Function t)) \<and>
          block_Instructions (block_of (low_Function t) J) = [] \<and>
          block_of (low_Function t) i = (block_of (low_Function s) i)\<lparr>block_Terminator := ?jump J\<rparr>"
        using empty s3(1) s2(1) nb(2) by (intro exI [of _ J]) (simp add: t)
    qed
  qed
  then show "same_tables s t" "grows (set_option a \<union> set_option b) (low_Function s) (low_Function t)"
    "\<And>i. low_Current t = Some i \<Longrightarrow> length (fn_Blocks (low_Function s)) \<le> i"
    "\<And>i. a = Some i \<or> b = Some i \<Longrightarrow> \<exists>J. low_Current t = Some J \<and> J < length (fn_Blocks (low_Function t)) \<and>
      block_Instructions (block_of (low_Function t) J) = [] \<and>
      block_of (low_Function t) i = (block_of (low_Function s) i)\<lparr>block_Terminator := jump_to C J (node_End n)\<rparr>"
    by blast+
qed

section \<open>Conditions\<close>

lemma lowers_to_runs:
  assumes l: "lowers_to \<tau> scope s v t ev u" and d: "low_Current s = Some d" "d < length (fn_Blocks (low_Function s))"
    and b: "block_of F d = (block_of (low_Function u) d)\<lparr>block_Terminator := term\<rparr>"
    and F: "prefix (values_of u) (fn_Values F)" and s: "sound \<tau> s" and h: "store_held \<tau> scope s \<sigma> env"
  shows "case ev \<sigma> of
      None \<Rightarrow> ends_with F (at_end d s env) (Inl ErrVmDivisionByZero)
    | Some k \<Rightarrow> in_range t k \<and>
        (\<exists>env'. reaches F (at_end d s env) (at_end d u env') \<and> store_held \<tau> scope u \<sigma> env' \<and> env' v = word_of_int k)"
proof -
  obtain code where code: "emits code s u" "same_maps s u" "evaluates F code env v (length (values_of s)) t (ev \<sigma>)"
    using l F h unfolding lowers_to_def by blast
  have "block_Instructions (block_of (low_Function u) d) = block_Instructions (block_of (low_Function s) d) @ code"
    using code(1) d by (simp add: emits_def with_code_nth)
  then have at: "block_Instructions (block_of F d) = block_Instructions (block_of (low_Function s) d) @ code @ []"
    using b by simp
  note run = code_runs [OF at]
  show ?thesis
  proof (cases "ev \<sigma>")
    case None
    then show ?thesis using code(3) run(2) by (simp add: evaluates_def at_end_def)
  next
    case (Some k)
    then obtain env' where env': "in_range t k" "ir_code F code env = Inr env'" "env' v = word_of_int k"
      "agree (length (values_of s)) env env'" using code(3) by (auto simp: evaluates_def)
    have "store_held \<tau> scope u \<sigma> env'"
      by (rule store_held_mono [OF h s env'(4)]) (use code(2) in \<open>simp add: same_maps_def\<close>)
    then show ?thesis
      using Some env' run(1) [OF env'(2)] emits_at_end [OF code(1) d] by (auto simp: at_end_def)
  qed
qed

lemma condition_runs:
  assumes l: "lowers_to \<tau> scope s v TypeBool ev u" and d: "low_Current s = Some d" "d < length (fn_Blocks (low_Function s))"
    and b: "block_of F d = (block_of (low_Function u) d)\<lparr>block_Terminator := branch_to C v i j pos\<rparr>"
    and ij: "i < length (fn_Blocks F)" "j < length (fn_Blocks F)" "length (fn_Blocks F) \<le> 2 ^ 32"
    and F: "prefix (values_of u) (fn_Values F)" and s: "sound \<tau> s" and h: "store_held \<tau> scope s \<sigma> env"
  shows "case ev \<sigma> of
      None \<Rightarrow> ends_with F (at_end d s env) (Inl ErrVmDivisionByZero)
    | Some k \<Rightarrow> \<exists>env'. advances F (at_end d s env) (if k \<noteq> 0 then i else j, 0, env') \<and> store_held \<tau> scope u \<sigma> env'"
proof -
  note r = lowers_to_runs [OF l d b F s h]
  show ?thesis
  proof (cases "ev \<sigma>")
    case None
    then show ?thesis using r by simp
  next
    case (Some k)
    then obtain env' where env': "in_range TypeBool k" "reaches F (at_end d s env) (at_end d u env')"
      "store_held \<tau> scope u \<sigma> env'" "env' v = word_of_int k" using r by auto
    have "advances F (at_end d u env') (if k \<noteq> 0 then i else j, 0, env')"
      using branch_runs [OF b ij, of env'] env'(4) zero_in_range [OF env'(1)] by (simp add: at_end_def)
    then show ?thesis using Some env'(2,3) reaches_advances by fastforce
  qed
qed

text \<open>A lowering that ended in a block which then jumps to an empty current block.\<close>

lemma simulates_jump:
  assumes sim: "simulates turns \<tau> sc s F place r" and v: "\<forall>\<sigma> env. store_held \<tau> sc s \<sigma> env \<longrightarrow> store_held \<tau> scope t \<sigma> env"
    and F: "length (fn_Blocks F) \<le> 2 ^ 32"
    and j: "\<And>a. low_Current s = Some a \<Longrightarrow> \<exists>J C pos. block_of F a = (block_of (low_Function s) a)\<lparr>block_Terminator := jump_to C J pos\<rparr> \<and>
      low_Current t = Some J \<and> J < length (fn_Blocks F) \<and> block_Instructions (block_of (low_Function t) J) = []"
  shows "simulates turns \<tau> scope t F place r"
proof -
  have "simulates turns \<tau> scope t F place (Some (Continues \<sigma>))" if c: "r = Some (Continues \<sigma>)" for \<sigma>
  proof -
    obtain a env where a: "low_Current s = Some a" "reaches F place (at_end a s env)" "store_held \<tau> sc s \<sigma> env"
      using sim c by auto
    obtain J C pos where J: "block_of F a = (block_of (low_Function s) a)\<lparr>block_Terminator := jump_to C J pos\<rparr>"
      "low_Current t = Some J" "J < length (fn_Blocks F)" "block_Instructions (block_of (low_Function t) J) = []"
      using j [OF a(1)] by blast
    have "reaches F (at_end a s env) (at_end J t env)"
      using advances_reaches [OF jump_runs [OF J(1,3) F, of env]] J(4) by (simp add: at_end_def)
    then have "reaches F place (at_end J t env)" by (rule reaches_trans [OF a(2)])
    moreover have "store_held \<tau> scope t \<sigma> env" using v a(3) by blast
    ultimately show ?thesis using J(2) by auto
  qed
  then show ?thesis using sim by (cases r; cases "the r") auto
qed

section \<open>If\<close>

definition go_branch ::
  "go_info \<Rightarrow> expr \<Rightarrow> (nat \<Rightarrow> go_store \<Rightarrow> go_outcome option) \<Rightarrow> (nat \<Rightarrow> go_store \<Rightarrow> go_outcome option) \<Rightarrow>
     nat \<Rightarrow> go_store \<Rightarrow> go_outcome option" where
  "go_branch info cond exb exe turns \<sigma> =
     (case go_eval info \<sigma> cond of
        None \<Rightarrow> Some Panics
      | Some v \<Rightarrow> if v \<noteq> 0 then exb turns \<sigma> else exe turns \<sigma>)"

text \<open>What the lowering of an if statement leaves: the states of its parts and the blocks between them.\<close>

lemma lowerIf_layout:
  assumes r: "lowerIf C n init cond body els s = Inr (u, t)"
    and cur: "low_Current s = Some c" "c < length (fn_Blocks (low_Function s))"
    and fi: "flows (optional init)" and fb: "flows body" and fe: "flows (optional els)"
  obtains s1 d v s2 T E s5 s7 s9 u1 u7 u9 where
    "optional init s = Inr (u1, s1)" "flow c s s1" "low_Current s1 = Some d"
    "lowerExpression C cond TypeBool s1 = Inr (v, s2)"
    "same_tables s2 s5" "fn_Result (low_Function s5) = fn_Result (low_Function s)"
    "body (at_block (Some T) s5) = Inr (u7, s7)" "flow T (at_block (Some T) s5) s7"
    "optional els (at_block (Some E) s7) = Inr (u9, s9)" "flow E (at_block (Some E) s7) s9"
    "same_tables s9 t" "T < length (fn_Blocks (low_Function s5))" "E < length (fn_Blocks (low_Function s7))"
    "at_end T s5 = Pair T \<circ> Pair 0" "at_end E s7 = Pair E \<circ> Pair 0"
    "\<And>F. completed c s t F \<Longrightarrow> completed c s s1 F \<and> completed T (at_block (Some T) s5) s7 F \<and>
       completed E (at_block (Some E) s7) s9 F \<and> T < length (fn_Blocks F) \<and> E < length (fn_Blocks F) \<and>
       prefix (values_of s2) (fn_Values F) \<and>
       block_of F d = (block_of (low_Function s2) d)\<lparr>block_Terminator := branch_to C v T E (node_Pos n)\<rparr>"
    "\<And>F a. completed c s t F \<Longrightarrow> low_Current s7 = Some a \<Longrightarrow> \<exists>J C pos.
       block_of F a = (block_of (low_Function s7) a)\<lparr>block_Terminator := jump_to C J pos\<rparr> \<and>
       low_Current t = Some J \<and> J < length (fn_Blocks F) \<and> block_Instructions (block_of (low_Function t) J) = []"
    "\<And>F a. completed c s t F \<Longrightarrow> low_Current s9 = Some a \<Longrightarrow> \<exists>J C pos.
       block_of F a = (block_of (low_Function s9) a)\<lparr>block_Terminator := jump_to C J pos\<rparr> \<and>
       low_Current t = Some J \<and> J < length (fn_Blocks F) \<and> block_Instructions (block_of (low_Function t) J) = []"
  using r
proof (rule lowerIfE)
  fix s1 v s2 T s3 E s4 s5 s7 s9 u1 u5 u7 u9
  assume s1: "optional init s = Inr (u1, s1)" and e: "lowerExpression C cond TypeBool s1 = Inr (v, s2)"
    and s3: "newBlock ''if.then'' s2 = Inr (T, s3)" and s4: "newBlock ''if.else'' s3 = Inr (E, s4)"
    and s5: "terminate_block (low_Current s2) (branch_to C v T E (node_Pos n)) s4 = Inr (u5, s5)"
    and s7: "body (at_block (Some T) s5) = Inr (u7, s7)"
    and s9: "optional els (at_block (Some E) s7) = Inr (u9, s9)"
    and t: "join_steps C n (low_Current s7) (low_Current s9) s9 = Inr (u, t)"
  let ?B = "\<lambda>s. length (fn_Blocks (low_Function s))"
  have "low_Current s2 \<noteq> None" using s5 terminate_None by metis
  from condition_flow [OF s1 fi cur e this] obtain d code where f1: "flow c s s1" "low_Current s1 = Some d"
    and em: "emits code s1 s2" and d2: "low_Current s2 = Some d" by metis
  have d1: "d < ?B s1" "d = c \<or> ?B s \<le> d" using flow_open [OF f1] flow_place [OF f1] by blast+
  have g1: "grows {c} (low_Function s) (low_Function s1)" by (rule flow_grows [OF f1(1)])
  note g2 = emits_grows [OF em f1(2) d1(1)]
  have l2: "?B s2 = ?B s1" using em by (simp add: emits_def)
  note n3 = newBlock_built [OF s3] and n4 = newBlock_built [OF s4]
  have "d < ?B s4" using d1(1) l2 n3(1,2) n4(1,2) by linarith
  note n5 = terminate_built [OF s5 [unfolded d2] this]
  have T: "T = ?B s1" "E = Suc T" "?B s5 = Suc E" using l2 n3(1,2) n4(1,2) n5(1) by linarith+
  have sT: "?B s \<le> T" using grows_length [OF g1] T(1) by simp
  have f7: "flow T (at_block (Some T) s5) s7" by (rule flowsD [OF fb s7]) (use T in simp_all)
  have g7: "grows {T} (low_Function s5) (low_Function s7)" using flow_grows [OF f7] by simp
  have l7: "?B s5 \<le> ?B s7" by (rule grows_length [OF g7])
  have E7: "E < ?B s7" using T l7 by simp
  have f9: "flow E (at_block (Some E) s7) s9" by (rule flowsD [OF fe s9]) (use E7 in simp_all)
  have g9: "grows {E} (low_Function s7) (low_Function s9)" using flow_grows [OF f9] by simp
  have l9: "?B s7 \<le> ?B s9" by (rule grows_length [OF g9])
  have a: "a < ?B s7 \<and> a \<noteq> E \<and> T \<le> a" if "low_Current s7 = Some a" for a
    using flow_open [OF f7 that] flow_place [OF f7 that] T by auto
  have b: "b < ?B s9 \<and> (b = E \<or> ?B s7 \<le> b)" if "low_Current s9 = Some b" for b
    using flow_open [OF f9 that] flow_place [OF f9 that] by simp
  have ab: "\<forall>i. low_Current s7 = Some i \<longrightarrow> i < ?B s9 \<and> low_Current s9 \<noteq> Some i"
    using a b l9 by fastforce
  have "\<forall>i. low_Current s9 = Some i \<longrightarrow> i < ?B s9" using b by blast
  note jn = join_built [OF t ab this]
  have tb: "same_tables s2 s5" by (rule same_tables_trans [OF same_tables_trans [OF n3(4) n4(4)] n5(3)])
  have res: "fn_Result (low_Function s5) = fn_Result (low_Function s)"
    using grows_result [OF g1] grows_result [OF g2] grows_result [OF n3(5)] grows_result [OF n4(5)] grows_result [OF n5(4)]
    by simp
  have T0: "block_Instructions (block_of (low_Function s5) T) = []"
    using n3(6) grows_same [OF n4(5), of T] grows_same [OF n5(4), of T] n3(2) n4(1,2) d1(1) T l2 by simp
  have E0: "block_Instructions (block_of (low_Function s7) E) = []"
    using n4(6) grows_same [OF n5(4), of E] grows_same [OF g7, of E] n4(2) n5(1) d1(1) T l2 by simp
  let ?old = "{i. i < ?B s \<and> i \<noteq> c}"
  have fin: "grows (set_option (low_Current s7) \<union> set_option (low_Current s9) \<union> ?old) (low_Function s9) F"
    if F: "completed c s t F" for F
    by (rule grows_trans [OF jn(2) F [unfolded completed_def]]) (use jn(3) in fastforce)+
  show thesis
  proof (rule that [OF s1 f1(1,2) e tb res s7 f7 s9 f9])
    show "same_tables s9 t" by (rule jn(1))
    show "T < ?B s5" "E < ?B s7" using T E7 by simp_all
    show "at_end T s5 = Pair T \<circ> Pair 0" "at_end E s7 = Pair E \<circ> Pair 0" by (simp_all add: at_end_def T0 E0 fun_eq_iff)
    fix F :: ir_function assume F: "completed c s t F"
    note F9 = fin [OF F]
    have F7: "grows (insert E (set_option (low_Current s7)) \<union> ?old) (low_Function s7) F"
      by (rule grows_trans [OF g9 F9]) (use b in fastforce)
    have F5: "grows ({T, E} \<union> ?old) (low_Function s5) F"
      by (rule grows_trans [OF g7 F7]) (use a T in fastforce)
    have g25: "grows {d} (low_Function s2) (low_Function s5)"
      by (rule grows_trans [OF n3(5) grows_trans [OF n4(5) n5(4), where R = "{d}"]]) auto
    have F2: "grows (insert d ?old) (low_Function s2) F"
      by (rule grows_trans [OF g25 F5]) (use T l2 in auto)
    have c1: "completed c s s1 F"
      unfolding completed_def by (rule grows_trans [OF g2 F2]) (use f1(2) in auto)
    have c7: "completed T (at_block (Some T) s5) s7 F"
      unfolding completed_def by (rule grows_mono [OF F7]) (use T sT in auto)
    have c9: "completed E (at_block (Some E) s7) s9 F"
      unfolding completed_def by (rule grows_mono [OF F9]) (use a T sT E7 in fastforce)
    have "block_of F d = block_of (low_Function s5) d"
      by (rule grows_same [OF F5]) (use d1 T in auto)
    also have "\<dots> = (block_of (low_Function s4) d)\<lparr>block_Terminator := branch_to C v T E (node_Pos n)\<rparr>" by (rule n5(5))
    also have "block_of (low_Function s4) d = block_of (low_Function s2) d"
      using grows_same [OF n3(5), of d] grows_same [OF n4(5), of d] d1(1) l2 n3(1,2) by simp
    finally have bd: "block_of F d = (block_of (low_Function s2) d)\<lparr>block_Terminator := branch_to C v T E (node_Pos n)\<rparr>" .
    have "prefix (values_of s2) (fn_Values F)" using F2 by (simp add: grows_def)
    then show "completed c s s1 F \<and> completed T (at_block (Some T) s5) s7 F \<and>
       completed E (at_block (Some E) s7) s9 F \<and> T < length (fn_Blocks F) \<and> E < length (fn_Blocks F) \<and>
       prefix (values_of s2) (fn_Values F) \<and>
       block_of F d = (block_of (low_Function s2) d)\<lparr>block_Terminator := branch_to C v T E (node_Pos n)\<rparr>"
      using c1 c7 c9 bd grows_length [OF F5] T by simp
    have lt: "?B t \<le> length (fn_Blocks F)" using F by (simp add: completed_def grows_def)
    have jump: "\<exists>J C pos. block_of F i = (block_of (low_Function s9) i)\<lparr>block_Terminator := jump_to C J pos\<rparr> \<and>
       low_Current t = Some J \<and> J < length (fn_Blocks F) \<and> block_Instructions (block_of (low_Function t) J) = []"
      if i: "low_Current s7 = Some i \<or> low_Current s9 = Some i" for i
    proof -
      obtain J where J: "low_Current t = Some J" "J < ?B t" "block_Instructions (block_of (low_Function t) J) = []"
        "block_of (low_Function t) i = (block_of (low_Function s9) i)\<lparr>block_Terminator := jump_to C J (node_End n)\<rparr>"
        using jn(4) [OF i] by auto
      have i9: "i < ?B s9" "?B s \<le> i" using i ab b [of i] a [of i] T sT E7 by fastforce+
      have "block_of F i = block_of (low_Function t) i"
      proof (rule grows_same [OF F [unfolded completed_def]])
        show "i < ?B t" using i9 grows_length [OF jn(2)] by fastforce
        show "i \<notin> set_option (low_Current t) \<union> ?old" using i9 jn(3) by fastforce
      qed
      then show ?thesis using J lt by (intro exI [of _ J] exI [of _ C] exI [of _ "node_End n"]) simp
    qed
    fix i
    show "\<exists>J C pos. block_of F i = (block_of (low_Function s7) i)\<lparr>block_Terminator := jump_to C J pos\<rparr> \<and>
       low_Current t = Some J \<and> J < length (fn_Blocks F) \<and> block_Instructions (block_of (low_Function t) J) = []"
      if i: "low_Current s7 = Some i"
      using jump [of i] grows_same [OF g9, of i] a [OF i] i by simp
    show "\<exists>J C pos. block_of F i = (block_of (low_Function s9) i)\<lparr>block_Terminator := jump_to C J pos\<rparr> \<and>
       low_Current t = Some J \<and> J < length (fn_Blocks F) \<and> block_Instructions (block_of (low_Function t) J) = []"
      if "low_Current s9 = Some i"
      using jump [of i] that by simp
  qed
qed

lemma performs_if:
  assumes i: "performs \<tau> result scope inner (optional init) exi" "flows (optional init)"
    and w: "well_typed (info_of C) \<tau> inner cond TypeBool"
    and b: "performs \<tau> result inner sb body exb" "flows body" "set scope \<subseteq> set sb"
    and e: "performs \<tau> result inner se (optional els) exe" "flows (optional els)" "set scope \<subseteq> set se"
  shows "performs \<tau> result scope scope (lowerIf C n init cond body els)
    (\<lambda>turns \<sigma>. continue_with (exi turns \<sigma>) (go_branch (info_of C) cond exb exe turns))"
proof (rule performsI)
  fix s u t c
  assume r: "lowerIf C n init cond body els s = Inr (u, t)" and cur: "low_Current s = Some c" "c < length (fn_Blocks (low_Function s))"
    and s: "sound \<tau> s" and fits: "length (values_of t) < 2 ^ 32" and res: "fn_Result (low_Function s) = result"
  from r cur i(2) b(2) e(2) show "sound \<tau> t \<and>
        (\<forall>F turns \<sigma> env. completed c s t F \<longrightarrow> length (fn_Blocks F) \<le> 2 ^ 32 \<longrightarrow> store_held \<tau> scope s \<sigma> env \<longrightarrow>
           simulates turns \<tau> scope t F (at_end c s env) (continue_with (exi turns \<sigma>) (go_branch (info_of C) cond exb exe turns)))"
  proof (rule lowerIf_layout)
    fix s1 d v s2 T E s5 s7 s9 u1 u7 u9
    let ?at = "at_block (Some T) s5" and ?ae = "at_block (Some E) s7"
    assume s1: "optional init s = Inr (u1, s1)" and f1: "flow c s s1" "low_Current s1 = Some d"
      and ex: "lowerExpression C cond TypeBool s1 = Inr (v, s2)" and tb: "same_tables s2 s5"
      and r5: "fn_Result (low_Function s5) = fn_Result (low_Function s)"
      and s7: "body ?at = Inr (u7, s7)" "flow T ?at s7" and s9: "optional els ?ae = Inr (u9, s9)" "flow E ?ae s9"
      and t9: "same_tables s9 t" and TE: "T < length (fn_Blocks (low_Function s5))" "E < length (fn_Blocks (low_Function s7))"
      and empty: "at_end T s5 = Pair T \<circ> Pair 0" "at_end E s7 = Pair E \<circ> Pair 0"
      and F: "\<And>F. completed c s t F \<Longrightarrow> completed c s s1 F \<and> completed T ?at s7 F \<and> completed E ?ae s9 F \<and>
         T < length (fn_Blocks F) \<and> E < length (fn_Blocks F) \<and> prefix (values_of s2) (fn_Values F) \<and>
         block_of F d = (block_of (low_Function s2) d)\<lparr>block_Terminator := branch_to C v T E (node_Pos n)\<rparr>"
      and j7: "\<And>F a. completed c s t F \<Longrightarrow> low_Current s7 = Some a \<Longrightarrow> \<exists>J C pos.
         block_of F a = (block_of (low_Function s7) a)\<lparr>block_Terminator := jump_to C J pos\<rparr> \<and>
         low_Current t = Some J \<and> J < length (fn_Blocks F) \<and> block_Instructions (block_of (low_Function t) J) = []"
      and j9: "\<And>F a. completed c s t F \<Longrightarrow> low_Current s9 = Some a \<Longrightarrow> \<exists>J C pos.
         block_of F a = (block_of (low_Function s9) a)\<lparr>block_Terminator := jump_to C J pos\<rparr> \<and>
         low_Current t = Some J \<and> J < length (fn_Blocks F) \<and> block_Instructions (block_of (low_Function t) J) = []"
    have fits9: "length (values_of s9) < 2 ^ 32" using t9 fits by (simp add: same_tables_def)
    have fits7: "length (values_of s7) < 2 ^ 32" using grows_values [OF flow_grows [OF s9(2)]] fits9 by simp
    have fits2: "length (values_of s2) < 2 ^ 32"
      using grows_values [OF flow_grows [OF s7(2)]] fits7 tb by (simp add: same_tables_def)
    then have fits2': "length (values_of s2) \<le> 2 ^ 32" by simp
    have "length (values_of s1) \<le> 2 ^ 32 - 1" by (rule fits_before [OF extends_lowerExpression(1) ex]) (use fits2 in simp)
    then have fits1: "length (values_of s1) < 2 ^ 32" by simp
    note pi = performsD [OF i(1) s1 cur s fits1 res]
    note l = expression_correctD [OF lowerExpression_correct ex w pi(1) fits2']
    have "sound \<tau> s5" using same_tables_sound [OF tb] lowers_to_sound [OF l pi(1)] by blast
    then have snd5: "sound \<tau> ?at" using same_tables_sound [OF same_tables_at(1)] by blast
    note pb = performsD [OF b(1) s7(1) _ _ snd5 fits7]
    have pb: "sound \<tau> s7" "completed T ?at s7 F \<Longrightarrow> length (fn_Blocks F) \<le> 2 ^ 32 \<Longrightarrow> store_held \<tau> inner ?at \<sigma> env \<Longrightarrow>
      simulates turns \<tau> sb s7 F (at_end T ?at env) (exb turns \<sigma>)" for F \<sigma> env turns
      using pb TE r5 res by simp_all
    have snd7: "sound \<tau> ?ae" using same_tables_sound [OF same_tables_at(1) pb(1)] .
    have "fn_Result (low_Function s7) = result" using grows_result [OF flow_grows [OF s7(2)]] r5 res by simp
    then have pe: "sound \<tau> s9" "completed E ?ae s9 F \<Longrightarrow> length (fn_Blocks F) \<le> 2 ^ 32 \<Longrightarrow> store_held \<tau> inner ?ae \<sigma> env \<Longrightarrow>
      simulates turns \<tau> se s9 F (at_end E ?ae env) (exe turns \<sigma>)" for F \<sigma> env turns
      using performsD [OF e(1) s9(1) _ _ snd7 fits9] TE by simp_all
    have "low_Variables s7 \<subseteq>\<^sub>m low_Variables t"
      using s9(2) same_tables_vars [OF t9] by (simp add: flow_def)
    then have v7: "\<forall>\<sigma> env. store_held \<tau> sb s7 \<sigma> env \<longrightarrow> store_held \<tau> scope t \<sigma> env"
      using store_held_subset [OF store_held_vars b(3)] by blast
    have v9: "\<forall>\<sigma> env. store_held \<tau> se s9 \<sigma> env \<longrightarrow> store_held \<tau> scope t \<sigma> env"
      unfolding same_tables_held [OF t9] using store_held_subset [OF _ e(3)] by blast
    have v57: "low_Variables s5 \<subseteq>\<^sub>m low_Variables s7" using s7(2) by (simp add: flow_def)
    show ?thesis
    proof (intro conjI allI impI)
      show "sound \<tau> t" by (rule same_tables_sound [OF t9 pe(1)])
      fix G turns \<sigma> env
      assume G: "completed c s t G" "length (fn_Blocks G) \<le> 2 ^ 32" and h: "store_held \<tau> scope s \<sigma> env"
      note F = F [OF G(1)]
      show "simulates turns \<tau> scope t G (at_end c s env) (continue_with (exi turns \<sigma>) (go_branch (info_of C) cond exb exe turns))"
      proof (rule simulates_then [OF pi(2) [OF _ G(2) h]])
        show "completed c s s1 G" using F by blast
        fix \<sigma>1 d' env1
        assume d': "low_Current s1 = Some d'" and h1: "store_held \<tau> inner s1 \<sigma>1 env1"
        then have dd: "d' = d" using f1(2) by simp
        have "block_of G d = (block_of (low_Function s2) d)\<lparr>block_Terminator := branch_to C v T E (node_Pos n)\<rparr>"
          "T < length (fn_Blocks G)" "E < length (fn_Blocks G)" "prefix (values_of s2) (fn_Values G)" using F by blast+
        note cond = condition_runs [OF l f1(2) flow_open [OF f1] this(1-3) G(2) this(4) pi(1) h1]
        show "simulates turns \<tau> scope t G (at_end d' s1 env1) (go_branch (info_of C) cond exb exe turns \<sigma>1)"
        proof (cases "go_eval (info_of C) \<sigma>1 cond")
          case None
          then show ?thesis using cond by (simp add: go_branch_def dd)
        next
          case (Some k)
          then obtain env2 where env2: "advances G (at_end d s1 env1) (if k \<noteq> 0 then T else E, 0, env2)"
            "store_held \<tau> inner s2 \<sigma>1 env2" using cond by auto
          have h5: "store_held \<tau> inner s5 \<sigma>1 env2" using env2(2) same_tables_held [OF tb] by simp
          have h7: "store_held \<tau> inner s7 \<sigma>1 env2" by (rule store_held_vars [OF h5 v57])
          have "simulates turns \<tau> scope t G (if k \<noteq> 0 then T else E, 0, env2)
              (if k \<noteq> 0 then exb turns \<sigma>1 else exe turns \<sigma>1)"
          proof (cases "k = 0")
            case True
            have "simulates turns \<tau> se s9 G (at_end E ?ae env2) (exe turns \<sigma>1)"
              by (rule pe(2)) (use F G(2) h7 same_tables_held [OF same_tables_at(1)] in auto)
            then have "simulates turns \<tau> se s9 G (E, 0, env2) (exe turns \<sigma>1)"
              using empty(2) by (simp add: at_end_def fun_eq_iff)
            from simulates_jump [OF this v9 G(2) j9 [OF G(1)]] True show ?thesis by simp
          next
            case False
            have "simulates turns \<tau> sb s7 G (at_end T ?at env2) (exb turns \<sigma>1)"
              by (rule pb(2)) (use F G(2) h5 same_tables_held [OF same_tables_at(1)] in auto)
            then have "simulates turns \<tau> sb s7 G (T, 0, env2) (exb turns \<sigma>1)"
              using empty(1) by (simp add: at_end_def fun_eq_iff)
            from simulates_jump [OF this v7 G(2) j7 [OF G(1)]] False show ?thesis by simp
          qed
          from simulates_reaches [OF advances_reaches [OF env2(1)] this] show ?thesis by (simp add: go_branch_def Some dd)
        qed
      qed
    qed
  qed
qed

section \<open>For\<close>

lemma for_condition_built:
  assumes r: "lower_for_condition C n cond K B s = Inr (X, t)" and K: "low_Current s = Some K"
    "K < length (fn_Blocks (low_Function s))"
  shows "grows {K} (low_Function s) (low_Function t)"
    and "cond = None \<Longrightarrow> X = None \<and> same_tables s t \<and>
      block_of (low_Function t) K = (block_of (low_Function s) K)\<lparr>block_Terminator := jump_to C B (node_Pos n)\<rparr>"
    and "cond = Some e \<Longrightarrow> \<exists>v sx. lowerExpression C e TypeBool s = Inr (v, sx) \<and> same_tables sx t \<and>
      X = Some (length (fn_Blocks (low_Function s))) \<and> length (fn_Blocks (low_Function s)) < length (fn_Blocks (low_Function t)) \<and>
      block_Instructions (block_of (low_Function t) (length (fn_Blocks (low_Function s)))) = [] \<and>
      block_of (low_Function t) K = (block_of (low_Function sx) K)\<lparr>block_Terminator :=
        branch_to C v B (length (fn_Blocks (low_Function s))) (node_Pos (expr_node e))\<rparr>"
proof -
  let ?B = "\<lambda>s. length (fn_Blocks (low_Function s))"
  have "grows {K} (low_Function s) (low_Function t) \<and>
    (cond = None \<longrightarrow> X = None \<and> same_tables s t \<and>
      block_of (low_Function t) K = (block_of (low_Function s) K)\<lparr>block_Terminator := jump_to C B (node_Pos n)\<rparr>) \<and>
    (cond = Some e \<longrightarrow> (\<exists>v sx. lowerExpression C e TypeBool s = Inr (v, sx) \<and> same_tables sx t \<and>
      X = Some (?B s) \<and> ?B s < ?B t \<and> block_Instructions (block_of (low_Function t) (?B s)) = [] \<and>
      block_of (low_Function t) K = (block_of (low_Function sx) K)\<lparr>block_Terminator :=
        branch_to C v B (?B s) (node_Pos (expr_node e))\<rparr>))"
  proof (cases cond)
    case None
    then obtain x where x: "terminate_block (Some K) (jump_to C B (node_Pos n)) s = Inr (x, t)" and X: "X = None"
      using r by (auto simp: lower_for_condition_def lower_runs)
    from terminate_built [OF x K(2)] X None show ?thesis by simp
  next
    case (Some e')
    obtain v s1 E s2 x where e: "lowerExpression C e' TypeBool s = Inr (v, s1)"
      and n: "newBlock ''for.exit'' s1 = Inr (E, s2)"
      and x: "terminate_block (Some K) (branch_to C v B E (node_Pos (expr_node e'))) s2 = Inr (x, t)"
      and X: "X = Some E"
      using r Some by (auto simp: lower_for_condition_def lower_runs)
    obtain code where em: "emits code s s1" using extendsD [OF extends_lowerExpression(1) e] by blast
    have len: "?B s1 = ?B s" using em by (simp add: emits_def)
    note g1 = emits_grows [OF em K]
    note nb = newBlock_built [OF n]
    have E: "E = ?B s" "?B s2 = Suc E" using nb(1,2) len by simp_all
    have "K < ?B s2" using K(2) E by simp
    note tb = terminate_built [OF x this]
    have "grows {K} (low_Function s) (low_Function t)"
      by (rule grows_trans [OF g1 grows_trans [OF nb(5) tb(4), where R = "{K}"]]) auto
    moreover have "block_Instructions (block_of (low_Function t) E) = []"
      using nb(6) grows_same [OF tb(4), of E] E K(2) by simp
    moreover have "block_of (low_Function s2) K = block_of (low_Function s1) K"
      using grows_same [OF nb(5), of K] K(2) len by simp
    ultimately show ?thesis
      using e X E tb(1,5) same_tables_trans [OF nb(4) tb(3)] Some by auto
  qed
  then show "grows {K} (low_Function s) (low_Function t)"
    "cond = None \<Longrightarrow> X = None \<and> same_tables s t \<and>
      block_of (low_Function t) K = (block_of (low_Function s) K)\<lparr>block_Terminator := jump_to C B (node_Pos n)\<rparr>"
    "cond = Some e \<Longrightarrow> \<exists>v sx. lowerExpression C e TypeBool s = Inr (v, sx) \<and> same_tables sx t \<and>
      X = Some (?B s) \<and> ?B s < ?B t \<and> block_Instructions (block_of (low_Function t) (?B s)) = [] \<and>
      block_of (low_Function t) K = (block_of (low_Function sx) K)\<lparr>block_Terminator :=
        branch_to C v B (?B s) (node_Pos (expr_node e))\<rparr>" by blast+
qed

text \<open>The blocks between the end of the body and the condition.\<close>

lemma loop_end_built:
  assumes r: "loop_end C n K post (low_Current s) s = Inr (u, t)" and e: "low_Current s = Some e"
    "e < length (fn_Blocks (low_Function s))" and fp: "\<forall>pos m. post = Some (pos, m) \<longrightarrow> flows m"
  shows "post = None \<Longrightarrow> same_tables s t \<and> grows {e} (low_Function s) (low_Function t) \<and>
      block_of (low_Function t) e = (block_of (low_Function s) e)\<lparr>block_Terminator := jump_to C K (node_End n)\<rparr>"
    and "post = Some (pos, m) \<Longrightarrow> \<exists>P sb x sc. P = length (fn_Blocks (low_Function s)) \<and>
      length (fn_Blocks (low_Function sb)) = Suc P \<and> same_tables s sb \<and>
      grows {e} (low_Function s) (low_Function sb) \<and> block_Instructions (block_of (low_Function sb) P) = [] \<and>
      block_of (low_Function sb) e = (block_of (low_Function s) e)\<lparr>block_Terminator := jump_to C P pos\<rparr> \<and>
      m (at_block (Some P) sb) = Inr (x, sc) \<and> flow P (at_block (Some P) sb) sc \<and> same_tables sc t \<and>
      grows (set_option (low_Current sc)) (low_Function sc) (low_Function t) \<and>
      (\<forall>e'. low_Current sc = Some e' \<longrightarrow> block_of (low_Function t) e' =
         (block_of (low_Function sc) e')\<lparr>block_Terminator := jump_to C K (node_End n)\<rparr>)"
proof -
  obtain x sc where p: "lower_for_post C post s = Inr (x, sc)"
    and end_block: "(if low_Current sc \<noteq> None then terminate_block (low_Current sc) (jump_to C K (node_End n)) else returnl ()) sc =
      Inr (u, t)"
    using r e(1) by (auto simp: loop_end_def lower_runs split: if_splits)
  show "same_tables s t \<and> grows {e} (low_Function s) (low_Function t) \<and>
      block_of (low_Function t) e = (block_of (low_Function s) e)\<lparr>block_Terminator := jump_to C K (node_End n)\<rparr>"
    if "post = None"
  proof -
    have "sc = s" using p that by (simp add: lower_for_post_def lower_runs)
    then have "terminate_block (Some e) (jump_to C K (node_End n)) s = Inr (u, t)" using end_block e(1) by simp
    from terminate_built [OF this e(2)] show ?thesis by simp
  qed
  assume q: "post = Some (pos, m)"
  obtain P sa sb y where n: "newBlock ''for.post'' s = Inr (P, sa)"
    and y: "terminate_block (low_Current sa) (jump_to C P pos) sa = Inr (y, sb)"
    and m: "m (at_block (Some P) sb) = Inr (x, sc)"
    using p unfolding lower_for_post_def q option.case prod.case lower_runs set_current_def by blast
  note nb = newBlock_built [OF n]
  have ea: "e < length (fn_Blocks (low_Function sa))" using e(2) nb(1,2) by simp
  have "terminate_block (Some e) (jump_to C P pos) sa = Inr (y, sb)" using y nb(3) e(1) by simp
  note tb = terminate_built [OF this ea]
  have g: "grows {e} (low_Function s) (low_Function sb)" by (rule grows_trans [OF nb(5) tb(4)]) auto
  have P: "block_Instructions (block_of (low_Function sb) P) = []"
    using nb(6) grows_same [OF tb(4), of P] nb(1,2) e(2) by simp
  have be: "block_of (low_Function sb) e = (block_of (low_Function s) e)\<lparr>block_Terminator := jump_to C P pos\<rparr>"
    using tb(5) grows_same [OF nb(5), of e] e(2) by simp
  have f: "flow P (at_block (Some P) sb) sc"
    by (rule flowsD [OF fp [rule_format, OF q] m]) (use tb(1) nb(2) in simp_all)
  have "\<forall>i. low_Current sc = Some i \<longrightarrow> i < length (fn_Blocks (low_Function sc))" using flow_open [OF f] by blast
  note tc = terminate_if [OF end_block this]
  show "\<exists>P sb x sc. P = length (fn_Blocks (low_Function s)) \<and>
      length (fn_Blocks (low_Function sb)) = Suc P \<and> same_tables s sb \<and>
      grows {e} (low_Function s) (low_Function sb) \<and> block_Instructions (block_of (low_Function sb) P) = [] \<and>
      block_of (low_Function sb) e = (block_of (low_Function s) e)\<lparr>block_Terminator := jump_to C P pos\<rparr> \<and>
      m (at_block (Some P) sb) = Inr (x, sc) \<and> flow P (at_block (Some P) sb) sc \<and> same_tables sc t \<and>
      grows (set_option (low_Current sc)) (low_Function sc) (low_Function t) \<and>
      (\<forall>e'. low_Current sc = Some e' \<longrightarrow> block_of (low_Function t) e' =
         (block_of (low_Function sc) e')\<lparr>block_Terminator := jump_to C K (node_End n)\<rparr>)"
    by (intro exI [of _ P] exI [of _ sb] exI [of _ x] exI [of _ sc] conjI)
      (use nb tb g P be m f tc same_tables_trans [OF nb(4) tb(3)] in \<open>simp_all\<close>)
qed

text \<open>A block of the final function: a block of a state with its terminator.\<close>

abbreviation ends_in :: "ir_function \<Rightarrow> lower_state \<Rightarrow> nat \<Rightarrow> terminator \<Rightarrow> bool" where
  "ends_in F s i term \<equiv> block_of F i = (block_of (low_Function s) i)\<lparr>block_Terminator := term\<rparr>"

lemma lowerFor_layout:
  assumes r: "lowerFor C n init cond post body s = Inr (u, t)"
    and cur: "low_Current s = Some c" "c < length (fn_Blocks (low_Function s))"
    and fi: "flows (optional init)" and fb: "flows body" and fp: "\<forall>pos m. post = Some (pos, m) \<longrightarrow> flows m"
  obtains s1 c1 K B s4 X s5 s7 s8 u1 u7 u8 where
    "optional init s = Inr (u1, s1)" "flow c s s1" "low_Current s1 = Some c1"
    "same_tables s1 s4" "fn_Result (low_Function s4) = fn_Result (low_Function s)"
    "K < length (fn_Blocks (low_Function s4))" "at_end K s4 = Pair K \<circ> Pair 0"
    "lower_for_condition C n cond K B (at_block (Some K) s4) = Inr (X, s5)"
    "grows {K} (low_Function s4) (low_Function s5)" "B < length (fn_Blocks (low_Function s5))" "at_end B s5 = Pair B \<circ> Pair 0"
    "body (at_block (Some B) s5) = Inr (u7, s7)" "flow B (at_block (Some B) s5) s7"
    "loop_end C n K post (low_Current s7) s7 = Inr (u8, s8)" "t = at_block X s8"
    "\<And>F. completed c s t F \<Longrightarrow> completed c s s1 F \<and> completed B (at_block (Some B) s5) s7 F \<and>
       ends_in F s1 c1 (jump_to C K (node_Pos n)) \<and> block_of F K = block_of (low_Function s5) K \<and>
       K < length (fn_Blocks F) \<and> B < length (fn_Blocks F) \<and> prefix (values_of s5) (fn_Values F) \<and>
       (\<forall>E. X = Some E \<longrightarrow> E < length (fn_Blocks F)) \<and>
       (\<forall>E. X = Some E \<longrightarrow> block_Instructions (block_of (low_Function s8) E) = block_Instructions (block_of (low_Function s5) E))"
    "\<And>F e. completed c s t F \<Longrightarrow> low_Current s7 = Some e \<Longrightarrow> post = None \<Longrightarrow>
       ends_in F s7 e (jump_to C K (node_End n)) \<and> same_tables s7 s8"
    "\<And>F e pos m. completed c s t F \<Longrightarrow> low_Current s7 = Some e \<Longrightarrow> post = Some (pos, m) \<Longrightarrow>
       \<exists>P sb x sc. m (at_block (Some P) sb) = Inr (x, sc) \<and> P < length (fn_Blocks (low_Function sb)) \<and>
         at_end P sb = Pair P \<circ> Pair 0 \<and> same_tables s7 sb \<and> fn_Result (low_Function sb) = fn_Result (low_Function s7) \<and>
         flow P (at_block (Some P) sb) sc \<and> completed P (at_block (Some P) sb) sc F \<and> same_tables sc s8 \<and>
         P < length (fn_Blocks F) \<and> ends_in F s7 e (jump_to C P pos) \<and>
         (\<forall>e'. low_Current sc = Some e' \<longrightarrow> ends_in F sc e' (jump_to C K (node_End n)))"
  using r
proof (rule lowerForE)
  fix s1 c1 K s2 B s3 s4 X s5 s7 s8 u1 u4 u7 u8
  assume s1: "optional init s = Inr (u1, s1)" and c1: "low_Current s1 = Some c1"
    and s2: "newBlock ''for.cond'' s1 = Inr (K, s2)" and s3: "newBlock ''for.body'' s2 = Inr (B, s3)"
    and s4: "terminate_block (Some c1) (jump_to C K (node_Pos n)) s3 = Inr (u4, s4)"
    and s5: "lower_for_condition C n cond K B (at_block (Some K) s4) = Inr (X, s5)"
    and s7: "body (at_block (Some B) s5) = Inr (u7, s7)"
    and s8: "loop_end C n K post (low_Current s7) s7 = Inr (u8, s8)" and t: "t = at_block X s8"
  let ?B = "\<lambda>s. length (fn_Blocks (low_Function s))"
  have f1: "flow c s s1" by (rule flowsD [OF fi s1 cur])
  have g1: "grows {c} (low_Function s) (low_Function s1)" by (rule flow_grows [OF f1])
  have p1: "c1 < ?B s1" "c1 = c \<or> ?B s \<le> c1" using flow_open [OF f1 c1] flow_place [OF f1 c1] by blast+
  note n2 = newBlock_built [OF s2] and n3 = newBlock_built [OF s3]
  have "c1 < ?B s3" using p1(1) n2(1,2) n3(1,2) by linarith
  note n4 = terminate_built [OF s4 this]
  have KB: "K = ?B s1" "B = Suc K" "?B s4 = Suc B" using n2(1,2) n3(1,2) n4(1) by linarith+
  have sK: "?B s \<le> K" using grows_length [OF g1] KB(1) by simp
  have tb: "same_tables s1 s4" by (rule same_tables_trans [OF same_tables_trans [OF n2(4) n3(4)] n4(3)])
  have g14: "grows {c1} (low_Function s1) (low_Function s4)"
    by (rule grows_trans [OF n2(5) grows_trans [OF n3(5) n4(4), where R = "{c1}"]]) auto
  have res: "fn_Result (low_Function s4) = fn_Result (low_Function s)" using grows_result [OF g1] grows_result [OF g14] by simp
  have K0: "block_Instructions (block_of (low_Function s4) K) = []"
    using n2(6) grows_same [OF n3(5), of K] grows_same [OF n4(4), of K] n2(1,2) n3(1,2) p1(1) KB by simp
  have B4: "block_Instructions (block_of (low_Function s4) B) = []"
    using n3(6) grows_same [OF n4(4), of B] n3(2) p1(1) KB by simp
  have k4: "low_Current (at_block (Some K) s4) = Some K" "K < ?B (at_block (Some K) s4)" using KB by simp_all
  note fc = for_condition_built [OF s5 k4]
  have g5: "grows {K} (low_Function s4) (low_Function s5)" using fc(1) by simp
  have l5: "?B s4 \<le> ?B s5" by (rule grows_length [OF g5])
  have B0: "block_Instructions (block_of (low_Function s5) B) = []" using B4 grows_same [OF g5, of B] KB by simp
  have X: "E = ?B s4 \<and> E < ?B s5" if "X = Some E" for E
    using fc(2,3) that by (cases cond) auto
  have f7: "flow B (at_block (Some B) s5) s7" by (rule flowsD [OF fb s7]) (use KB l5 in simp_all)
  have g7: "grows {B} (low_Function s5) (low_Function s7)" using flow_grows [OF f7] by simp
  have l7: "?B s5 \<le> ?B s7" by (rule grows_length [OF g7])
  have e7: "e < ?B s7 \<and> (e = B \<or> ?B s5 \<le> e)" if "low_Current s7 = Some e" for e
    using flow_open [OF f7 that] flow_place [OF f7 that] by simp
  have g8: "grows (set_option (low_Current s7)) (low_Function s7) (low_Function s8)"
  proof (cases "low_Current s7")
    case None
    then have "s8 = s7" using s8 by (simp add: loop_end_def lower_runs)
    then show ?thesis by (simp add: grows_refl)
  next
    case (Some e)
    have e: "e < ?B s7" using e7 [OF Some] by simp
    note le = loop_end_built [OF s8 Some e fp]
    show ?thesis
    proof (cases post)
      case None
      then show ?thesis using le(1) Some by simp
    next
      case (Some q)
      obtain pos m where q: "post = Some (pos, m)" using Some by (cases q) simp
      from le(2) [OF q] obtain P sb x sc where P: "P = ?B s7" "?B sb = Suc P"
        "grows {e} (low_Function s7) (low_Function sb)" "flow P (at_block (Some P) sb) sc"
        "grows (set_option (low_Current sc)) (low_Function sc) (low_Function s8)" by blast
      have gc: "grows {P} (low_Function sb) (low_Function sc)" using flow_grows [OF P(4)] by simp
      have "grows (insert P (set_option (low_Current sc))) (low_Function sb) (low_Function s8)"
        by (rule grows_trans [OF gc P(5)]) auto
      from grows_trans [OF P(3) this, of "{e}"] show ?thesis
        using flow_place [OF P(4)] P(1,2) \<open>low_Current s7 = Some e\<close> by fastforce
    qed
  qed
  let ?old = "{i. i < ?B s \<and> i \<noteq> c}"
  have F8: "grows (set_option X \<union> ?old) (low_Function s8) F" if "completed c s t F" for F
    using that t by (simp add: completed_def)
  show thesis
  proof (rule that [OF s1 f1 c1 tb res _ _ s5 g5 _ _ s7 f7 s8 t])
    show "K < ?B s4" "B < ?B s5" using KB l5 by simp_all
    show "at_end K s4 = Pair K \<circ> Pair 0" "at_end B s5 = Pair B \<circ> Pair 0" by (simp_all add: at_end_def K0 B0 fun_eq_iff)
    fix F :: ir_function assume F: "completed c s t F"
    note F8 = F8 [OF F]
    have F7: "grows (set_option (low_Current s7) \<union> set_option X \<union> ?old) (low_Function s7) F"
      by (rule grows_trans [OF g8 F8]) auto
    have F5: "grows (insert B (set_option X) \<union> ?old) (low_Function s5) F"
      by (rule grows_trans [OF g7 F7]) (use e7 in fastforce)
    have F4: "grows ({K, B} \<union> ?old) (low_Function s4) F"
      by (rule grows_trans [OF g5 F5]) (use X in fastforce)
    have F1: "grows (insert c1 ?old) (low_Function s1) F"
      by (rule grows_trans [OF g14 F4]) (use KB in auto)
    have c7: "completed B (at_block (Some B) s5) s7 F"
      unfolding completed_def by (rule grows_mono [OF F7]) (use X KB sK l5 in fastforce)
    have bc: "ends_in F s1 c1 (jump_to C K (node_Pos n))"
    proof -
      have "block_of F c1 = block_of (low_Function s4) c1"
        by (rule grows_same [OF F4]) (use p1 KB in auto)
      also have "block_of (low_Function s4) c1 = (block_of (low_Function s3) c1)\<lparr>block_Terminator := jump_to C K (node_Pos n)\<rparr>"
        by (rule n4(5))
      also have "block_of (low_Function s3) c1 = block_of (low_Function s1) c1"
        using grows_same [OF n2(5), of c1] grows_same [OF n3(5), of c1] p1(1) n2(1,2) by simp
      finally show ?thesis .
    qed
    have bK: "block_of F K = block_of (low_Function s5) K"
    proof (rule grows_same [OF F5])
      show "K < ?B s5" using KB l5 by linarith
      have "K \<notin> set_option X" using X KB by fastforce
      then show "K \<notin> insert B (set_option X) \<union> ?old" using KB sK by simp
    qed
    have bX: "block_Instructions (block_of (low_Function s8) E) = block_Instructions (block_of (low_Function s5) E)"
      if "X = Some E" for E
    proof -
      have E: "E = ?B s4" "E < ?B s5" "E \<noteq> B" using X [OF that] KB by simp_all
      then have "E \<notin> set_option (low_Current s7)" using e7 by fastforce
      then show ?thesis using grows_same [OF g8, of E] grows_same [OF g7, of E] E l7 by simp
    qed
    have lF: "?B s5 \<le> length (fn_Blocks F)" by (rule grows_length [OF F5])
    have c1': "completed c s s1 F" unfolding completed_def by (rule grows_mono [OF F1]) (use c1 in auto)
    have pF: "prefix (values_of s5) (fn_Values F)" using F5 by (simp add: grows_def)
    have inF: "K < length (fn_Blocks F)" "B < length (fn_Blocks F)" using lF l5 KB by linarith+
    have XF: "\<forall>E. X = Some E \<longrightarrow> E < length (fn_Blocks F)" using X lF by fastforce
    show "completed c s s1 F \<and> completed B (at_block (Some B) s5) s7 F \<and>
       ends_in F s1 c1 (jump_to C K (node_Pos n)) \<and> block_of F K = block_of (low_Function s5) K \<and>
       K < length (fn_Blocks F) \<and> B < length (fn_Blocks F) \<and> prefix (values_of s5) (fn_Values F) \<and>
       (\<forall>E. X = Some E \<longrightarrow> E < length (fn_Blocks F)) \<and>
       (\<forall>E. X = Some E \<longrightarrow> block_Instructions (block_of (low_Function s8) E) = block_Instructions (block_of (low_Function s5) E))"
      using c1' c7 bc bK bX pF inF XF by blast
    fix e assume e: "low_Current s7 = Some e"
    have e': "e < ?B s7" using e7 [OF e] by simp
    note le = loop_end_built [OF s8 e e' fp]
    have oldX: "e \<notin> set_option X \<union> ?old" using e7 [OF e] X KB sK l5 by fastforce
    show "ends_in F s7 e (jump_to C K (node_End n)) \<and> same_tables s7 s8" if "post = None"
      using le(1) [OF that] grows_same [OF F8 _ oldX] grows_length [OF g8] e' by simp
    fix pos m assume q: "post = Some (pos, m)"
    from le(2) [OF q] obtain P sb x sc where P: "P = ?B s7" "?B sb = Suc P" "same_tables s7 sb"
      "grows {e} (low_Function s7) (low_Function sb)" "block_Instructions (block_of (low_Function sb) P) = []"
      "ends_in (low_Function sb) s7 e (jump_to C P pos)"
      "m (at_block (Some P) sb) = Inr (x, sc)" "flow P (at_block (Some P) sb) sc" "same_tables sc s8"
      "grows (set_option (low_Current sc)) (low_Function sc) (low_Function s8)"
      "\<forall>e'. low_Current sc = Some e' \<longrightarrow> ends_in (low_Function s8) sc e' (jump_to C K (node_End n))" by blast
    have gc: "grows {P} (low_Function sb) (low_Function sc)" using flow_grows [OF P(8)] by simp
    have lc: "?B sb \<le> ?B sc" by (rule grows_length [OF gc])
    have l8: "?B sc \<le> ?B s8" by (rule grows_length [OF P(10)])
    have ec: "i < ?B sc \<and> P \<le> i" if "low_Current sc = Some i" for i
      using flow_open [OF P(8) that] flow_place [OF P(8) that] P(2) by auto
    have Fc: "grows (set_option (low_Current sc) \<union> set_option X \<union> ?old) (low_Function sc) F"
      by (rule grows_trans [OF P(10) F8]) auto
    have cP: "completed P (at_block (Some P) sb) sc F"
      unfolding completed_def by (rule grows_mono [OF Fc]) (use X P(1,2) l7 l5 KB sK in fastforce)
    have "block_of F e = block_of (low_Function sc) e"
      by (rule grows_same [OF Fc]) (use oldX ec e' P(1,2) lc in fastforce)+
    also have "\<dots> = block_of (low_Function sb) e" by (rule grows_same [OF gc]) (use e' P(1,2) in auto)
    finally have be: "ends_in F s7 e (jump_to C P pos)" using P(6) by simp
    have last: "ends_in F sc i (jump_to C K (node_End n))" if i: "low_Current sc = Some i" for i
    proof -
      have "block_of F i = block_of (low_Function s8) i"
        by (rule grows_same [OF F8]) (use ec [OF i] X P(1) l7 l5 KB sK l8 in fastforce)+
      then show ?thesis using P(11) i by simp
    qed
    show "\<exists>P sb x sc. m (at_block (Some P) sb) = Inr (x, sc) \<and> P < length (fn_Blocks (low_Function sb)) \<and>
         at_end P sb = Pair P \<circ> Pair 0 \<and> same_tables s7 sb \<and> fn_Result (low_Function sb) = fn_Result (low_Function s7) \<and>
         flow P (at_block (Some P) sb) sc \<and> completed P (at_block (Some P) sb) sc F \<and> same_tables sc s8 \<and>
         P < length (fn_Blocks F) \<and> ends_in F s7 e (jump_to C P pos) \<and>
         (\<forall>e'. low_Current sc = Some e' \<longrightarrow> ends_in F sc e' (jump_to C K (node_End n)))"
    proof (intro exI conjI allI impI)
      show "m (at_block (Some P) sb) = Inr (x, sc)" by (rule P(7))
      show "P < ?B sb" using P(2) by simp
      show "at_end P sb = Pair P \<circ> Pair 0" by (simp add: at_end_def P(5) fun_eq_iff)
      show "fn_Result (low_Function sb) = fn_Result (low_Function s7)" by (rule grows_result [OF P(4)])
      show "P < length (fn_Blocks F)" using grows_length [OF Fc] P(2) lc by simp
    qed (use P cP be last in blast)+
  qed
qed

end
