(* ===== verification/LoopFacts.thy ===== *)
theory LoopFacts
  imports FlowFacts
begin

text \<open>
  Loops, returns and whole functions: the graph a function is lowered to does what the function does.
\<close>

section \<open>Loops\<close>

text \<open>The condition of a loop, from its block with the registers of the variables.\<close>

lemma store_held_back:
  assumes "store_held \<tau> inner t \<sigma> env" and "low_Variables s \<subseteq>\<^sub>m low_Variables t" and "store_held \<tau> inner s \<sigma>0 env0"
  shows "store_held \<tau> inner s \<sigma> env"
  unfolding store_held_def
proof
  fix key assume key: "key \<in> set inner"
  then obtain i where i: "low_Variables s key = Some i" using assms(3) by (auto simp: store_held_def)
  then have "low_Variables t key = Some i" using assms(2) by (auto simp: map_le_def dom_def)
  then show "\<exists>i. low_Variables s key = Some i \<and> env i = word_of_int (\<sigma> key) \<and> in_range (\<tau> key) (\<sigma> key)"
    using assms(1) key i by (auto simp: store_held_def)
qed

lemma for_condition_runs:
  assumes r: "lower_for_condition C n cond K B (at_block (Some K) s) = Inr (X, t)" and K: "K < length (fn_Blocks (low_Function s))"
    and w: "case cond of None \<Rightarrow> True | Some e \<Rightarrow> well_typed (info_of C) \<tau> inner e TypeBool"
    and s: "sound \<tau> s" and fits: "length (values_of t) \<le> 2 ^ 32"
  shows "sound \<tau> t" and "low_Variables t = low_Variables s"
    and "X = Some E \<Longrightarrow> block_Instructions (block_of (low_Function t) E) = []"
    and "block_of F K = block_of (low_Function t) K \<Longrightarrow> B < length (fn_Blocks F) \<Longrightarrow> \<forall>E. X = Some E \<longrightarrow> E < length (fn_Blocks F) \<Longrightarrow>
      length (fn_Blocks F) \<le> 2 ^ 32 \<Longrightarrow> prefix (values_of t) (fn_Values F) \<Longrightarrow> store_held \<tau> inner s \<sigma> env \<Longrightarrow>
      (case go_condition (info_of C) \<sigma> cond of
         None \<Rightarrow> ends_with F (at_end K s env) (Inl ErrVmDivisionByZero)
       | Some k \<Rightarrow> \<exists>J env'. (if k \<noteq> 0 then J = B else X = Some J) \<and> advances F (at_end K s env) (J, 0, env') \<and>
           store_held \<tau> inner t \<sigma> env')"
proof -
  let ?s = "at_block (Some K) s"
  have k: "low_Current ?s = Some K" "K < length (fn_Blocks (low_Function ?s))" using K by simp_all
  have snd: "sound \<tau> ?s" by (rule same_tables_sound [OF same_tables_at(1) s])
  note built = for_condition_built [OF r k]
  have at: "at_end K ?s = at_end K s" by (simp add: at_end_def fun_eq_iff)
  have held: "store_held \<tau> inner ?s = store_held \<tau> inner s" by (rule same_tables_held [OF same_tables_at(1)])
  have all: "sound \<tau> t \<and> low_Variables t = low_Variables s \<and>
    (X = Some E \<longrightarrow> block_Instructions (block_of (low_Function t) E) = []) \<and>
    (block_of F K = block_of (low_Function t) K \<longrightarrow> B < length (fn_Blocks F) \<longrightarrow> (\<forall>E. X = Some E \<longrightarrow> E < length (fn_Blocks F)) \<longrightarrow>
      length (fn_Blocks F) \<le> 2 ^ 32 \<longrightarrow> prefix (values_of t) (fn_Values F) \<longrightarrow> store_held \<tau> inner s \<sigma> env \<longrightarrow>
      (case go_condition (info_of C) \<sigma> cond of
         None \<Rightarrow> ends_with F (at_end K s env) (Inl ErrVmDivisionByZero)
       | Some k \<Rightarrow> \<exists>J env'. (if k \<noteq> 0 then J = B else X = Some J) \<and> advances F (at_end K s env) (J, 0, env') \<and>
           store_held \<tau> inner t \<sigma> env'))"
  proof (cases cond)
    case None
    note b = built(2) [OF None]
    have tb: "same_tables s t" using b same_tables_at(2) by blast
    have run: "advances F (at_end K s env) (B, 0, env)"
      if "block_of F K = block_of (low_Function t) K" "B < length (fn_Blocks F)" "length (fn_Blocks F) \<le> 2 ^ 32"
      using jump_runs [OF _ that(2,3)] b that(1) by (simp add: at_end_def)
    show ?thesis
      using b run same_tables_sound [OF tb s] same_tables_vars [OF tb] same_tables_held [OF tb] None
      by (auto simp: go_condition_def)
  next
    case (Some e)
    obtain v sx E' where b: "lowerExpression C e TypeBool ?s = Inr (v, sx)" "same_tables sx t" "X = Some E'"
      "block_Instructions (block_of (low_Function t) E') = []"
      "block_of (low_Function t) K = (block_of (low_Function sx) K)\<lparr>block_Terminator := branch_to C v B E' (node_Pos (expr_node e))\<rparr>"
      using built(3) [OF Some] by blast
    have w: "well_typed (info_of C) \<tau> inner e TypeBool" using w Some by simp
    have "length (values_of sx) \<le> 2 ^ 32" using fits b(2) by (simp add: same_tables_def)
    note l = expression_correctD [OF lowerExpression_correct b(1) w snd this]
    have vars: "low_Variables sx = low_Variables s"
      using lowers_to_fits [OF l] l by (auto simp: lowers_to_def same_maps_def)
    have run: "case go_eval (info_of C) \<sigma> e of
         None \<Rightarrow> ends_with F (at_end K s env) (Inl ErrVmDivisionByZero)
       | Some k \<Rightarrow> \<exists>J env'. (if k \<noteq> 0 then J = B else X = Some J) \<and> advances F (at_end K s env) (J, 0, env') \<and>
           store_held \<tau> inner t \<sigma> env'"
      if G: "block_of F K = block_of (low_Function t) K" "B < length (fn_Blocks F)" "\<forall>E. X = Some E \<longrightarrow> E < length (fn_Blocks F)"
        "length (fn_Blocks F) \<le> 2 ^ 32" "prefix (values_of t) (fn_Values F)" and h: "store_held \<tau> inner s \<sigma> env"
    proof -
      have bK: "block_of F K = (block_of (low_Function sx) K)\<lparr>block_Terminator := branch_to C v B E' (node_Pos (expr_node e))\<rparr>"
        using G(1) b(5) by simp
      have E: "E' < length (fn_Blocks F)" using G(3) b(3) by blast
      have pre: "prefix (values_of sx) (fn_Values F)" using G(5) b(2) by (simp add: same_tables_def)
      have h': "store_held \<tau> inner ?s \<sigma> env" using h held by simp
      note c = condition_runs [OF l k bK G(2) E G(4) pre snd h']
      show ?thesis
      proof (cases "go_eval (info_of C) \<sigma> e")
        case None
        then show ?thesis using c at by simp
      next
        case (Some k)
        then show ?thesis using c at b(3) same_tables_held [OF b(2)] by (cases "k = 0") auto
      qed
    qed
    have "X = Some E \<longrightarrow> block_Instructions (block_of (low_Function t) E) = []" using b(3,4) by blast
    then show ?thesis
      using b(1-3) run same_tables_sound [OF b(2) lowers_to_sound [OF l snd]] same_tables_vars [OF b(2)] vars Some
      by (simp add: go_condition_def)
  qed
  show "sound \<tau> t" "low_Variables t = low_Variables s"
    "X = Some E \<Longrightarrow> block_Instructions (block_of (low_Function t) E) = []"
    "block_of F K = block_of (low_Function t) K \<Longrightarrow> B < length (fn_Blocks F) \<Longrightarrow> \<forall>E. X = Some E \<longrightarrow> E < length (fn_Blocks F) \<Longrightarrow>
      length (fn_Blocks F) \<le> 2 ^ 32 \<Longrightarrow> prefix (values_of t) (fn_Values F) \<Longrightarrow> store_held \<tau> inner s \<sigma> env \<Longrightarrow>
      (case go_condition (info_of C) \<sigma> cond of
         None \<Rightarrow> ends_with F (at_end K s env) (Inl ErrVmDivisionByZero)
       | Some k \<Rightarrow> \<exists>J env'. (if k \<noteq> 0 then J = B else X = Some J) \<and> advances F (at_end K s env) (J, 0, env') \<and>
           store_held \<tau> inner t \<sigma> env')"
    using all by blast+
qed

text \<open>From the end of the body through the post statement back to the condition.\<close>

lemma simulates_closed: "simulates turns \<tau> scope s F place r \<Longrightarrow> low_Current s = None \<Longrightarrow> simulates turns \<tau> scope' t F place (continue_with r k)"
  by (rule simulates_then) auto

lemma continue_with_Continues: "continue_with r (\<lambda>\<sigma>. Some (Continues \<sigma>)) = r"
  by (auto simp: continue_with_def split: option.splits go_outcome.splits)

lemma loop_end_runs:
  assumes sim: "simulates turns \<tau> sb s F place r" and F: "length (fn_Blocks F) \<le> 2 ^ 32" "K < length (fn_Blocks F)"
    and K: "low_Current k = Some K" "block_Instructions (block_of (low_Function k) K) = []"
    and vars: "low_Variables k \<subseteq>\<^sub>m low_Variables s" "store_held \<tau> inner k \<sigma>0 env0" "set inner \<subseteq> set sb"
    and none: "post = None \<Longrightarrow> ex turns = (\<lambda>\<sigma>. Some (Continues \<sigma>))"
    and last: "\<And>e. low_Current s = Some e \<Longrightarrow> post = None \<Longrightarrow> ends_in F s e (jump_to C K pos)"
    and some: "\<And>e ppos m. low_Current s = Some e \<Longrightarrow> post = Some (ppos, m) \<Longrightarrow>
       \<exists>P p u. low_Current p = Some P \<and> P < length (fn_Blocks F) \<and> block_Instructions (block_of (low_Function p) P) = [] \<and>
         ends_in F s e (jump_to C P ppos) \<and> low_Variables p = low_Variables s \<and> low_Variables p \<subseteq>\<^sub>m low_Variables u \<and>
         (\<forall>\<sigma> env. store_held \<tau> inner p \<sigma> env \<longrightarrow> simulates turns \<tau> sp u F (at_end P p env) (ex turns \<sigma>)) \<and>
         set inner \<subseteq> set sp \<and> (\<forall>e. low_Current u = Some e \<longrightarrow> ends_in F u e (jump_to C K pos))"
  shows "simulates turns \<tau> inner k F place (continue_with r (ex turns))"
proof (cases "low_Current s")
  case None
  then show ?thesis by (rule simulates_closed [OF sim])
next
  case (Some e)
  show ?thesis
  proof (cases post)
    case None
    have v: "\<forall>\<sigma> env. store_held \<tau> sb s \<sigma> env \<longrightarrow> store_held \<tau> inner k \<sigma> env"
      using store_held_back [OF store_held_subset [OF _ vars(3)] vars(1,2)] by blast
    have "simulates turns \<tau> inner k F place r"
      by (rule simulates_jump [OF sim v F(1)]) (use last None K F(2) in blast)
    then show ?thesis by (simp add: none [OF None] continue_with_Continues)
  next
    case (Some q)
    obtain ppos m where q: "post = Some (ppos, m)" using Some by (cases q) simp
    obtain P p u where P: "low_Current p = Some P" "P < length (fn_Blocks F)" "block_Instructions (block_of (low_Function p) P) = []"
      "ends_in F s e (jump_to C P ppos)" "low_Variables p = low_Variables s" "low_Variables p \<subseteq>\<^sub>m low_Variables u"
      "\<forall>\<sigma> env. store_held \<tau> inner p \<sigma> env \<longrightarrow> simulates turns \<tau> sp u F (at_end P p env) (ex turns \<sigma>)"
      "set inner \<subseteq> set sp" "\<forall>e. low_Current u = Some e \<longrightarrow> ends_in F u e (jump_to C K pos)"
      using some [OF \<open>low_Current s = Some e\<close> q] by blast
    have v: "\<forall>\<sigma> env. store_held \<tau> sb s \<sigma> env \<longrightarrow> store_held \<tau> inner p \<sigma> env"
      using store_held_subset [OF _ vars(3)] P(5) by (simp add: store_held_def)
    have 1: "simulates turns \<tau> inner p F place r"
    proof (rule simulates_jump [OF sim v F(1)])
      fix a assume "low_Current s = Some a"
      then have "a = e" using \<open>low_Current s = Some e\<close> by simp
      then show "\<exists>J C pos. ends_in F s a (jump_to C J pos) \<and> low_Current p = Some J \<and> J < length (fn_Blocks F) \<and>
          block_Instructions (block_of (low_Function p) J) = []" using P(1-4) by blast
    qed
    have 2: "simulates turns \<tau> sp u F place (continue_with r (ex turns))"
      by (rule simulates_then [OF 1]) (use P(1,7) in auto)
    have "low_Variables k \<subseteq>\<^sub>m low_Variables u" using vars(1) P(5,6) by (metis map_le_trans)
    then have v': "\<forall>\<sigma> env. store_held \<tau> sp u \<sigma> env \<longrightarrow> store_held \<tau> inner k \<sigma> env"
      using store_held_back [OF store_held_subset [OF _ P(8)] _ vars(2)] by blast
    show ?thesis by (rule simulates_jump [OF 2 v' F(1)]) (use P(9) K F(2) in blast)
  qed
qed

text \<open>The end of the loop only adds to the tables of the function, and keeps them sound.\<close>

lemma loop_end_adds:
  assumes r: "loop_end C n K post (low_Current s) s = Inr (u, t)"
    and e: "\<And>e. low_Current s = Some e \<Longrightarrow> e < length (fn_Blocks (low_Function s))"
    and fp: "\<forall>pos m. post = Some (pos, m) \<longrightarrow> flows m"
  shows "length (values_of s) \<le> length (values_of t)" and "low_Variables s \<subseteq>\<^sub>m low_Variables t"
proof -
  have "length (values_of s) \<le> length (values_of t) \<and> low_Variables s \<subseteq>\<^sub>m low_Variables t"
  proof (cases "low_Current s")
    case None
    then show ?thesis using r by (simp add: loop_end_def lower_runs)
  next
    case (Some b)
    note le = loop_end_built [OF r Some e [OF Some] fp]
    show ?thesis
    proof (cases post)
      case None
      then show ?thesis using le(1) same_tables_vars by (auto simp: same_tables_def)
    next
      case (Some q)
      obtain P sb x sc where P: "same_tables s sb" "flow P (at_block (Some P) sb) sc" "same_tables sc t"
        using le(2) Some by (cases q) blast
      then show ?thesis
        using grows_values [OF flow_grows [OF P(2)]] same_tables_vars [OF P(1)] same_tables_vars [OF P(3)]
        by (simp add: flow_def same_tables_def)
    qed
  qed
  then show "length (values_of s) \<le> length (values_of t)" "low_Variables s \<subseteq>\<^sub>m low_Variables t" by blast+
qed

lemma loop_end_sound:
  assumes r: "loop_end C n K post (low_Current s) s = Inr (u, t)" and s: "sound \<tau> s"
    and e: "\<And>e. low_Current s = Some e \<Longrightarrow> e < length (fn_Blocks (low_Function s))"
    and fits: "length (values_of t) < 2 ^ 32" and res: "fn_Result (low_Function s) = result"
    and p: "\<forall>pos m. post = Some (pos, m) \<longrightarrow> performs \<tau> result inner sp m ex \<and> flows m"
  shows "sound \<tau> t"
proof (cases "low_Current s")
  case None
  then show ?thesis using r s by (simp add: loop_end_def lower_runs)
next
  case (Some b)
  have fp: "\<forall>pos m. post = Some (pos, m) \<longrightarrow> flows m" using p by blast
  note le = loop_end_built [OF r Some e [OF Some] fp]
  show ?thesis
  proof (cases post)
    case None
    then show ?thesis using le(1) same_tables_sound [OF _ s] by blast
  next
    case (Some q)
    obtain pos m where q: "post = Some (pos, m)" using Some by (cases q) simp
    obtain P sb x sc where P: "length (fn_Blocks (low_Function sb)) = Suc P" "same_tables s sb"
      "grows {b} (low_Function s) (low_Function sb)" "m (at_block (Some P) sb) = Inr (x, sc)"
      "same_tables sc t" using le(2) [OF q] by blast
    have snd: "sound \<tau> (at_block (Some P) sb)"
      by (rule same_tables_sound [OF same_tables_at(1) same_tables_sound [OF P(2) s]])
    have fc: "length (values_of sc) < 2 ^ 32" using fits P(5) by (simp add: same_tables_def)
    have m: "performs \<tau> result inner sp m ex" using p q by blast
    have "sound \<tau> sc"
      by (rule performsD(1) [OF m P(4) _ _ snd fc]) (use P(1) grows_result [OF P(3)] res in auto)
    then show ?thesis by (rule same_tables_sound [OF P(5)])
  qed
qed

lemma performs_for:
  assumes i: "performs \<tau> result scope inner (optional init) exi" "flows (optional init)" "set scope \<subseteq> set inner"
    and w: "case cond of None \<Rightarrow> True | Some e \<Rightarrow> well_typed (info_of C) \<tau> inner e TypeBool"
    and b: "performs \<tau> result inner sb body exb" "flows body" "set inner \<subseteq> set sb"
    and p: "\<forall>pos m. post = Some (pos, m) \<longrightarrow> performs \<tau> result inner sp m exp \<and> flows m" "set inner \<subseteq> set sp"
    and none: "\<And>turns. post = None \<Longrightarrow> exp turns = (\<lambda>\<sigma>. Some (Continues \<sigma>))"
    and loop: "\<And>\<sigma>. loop 0 \<sigma> = None"
      "\<And>turns \<sigma>. loop (Suc turns) \<sigma> = (case go_condition (info_of C) \<sigma> cond of
         None \<Rightarrow> Some Panics
       | Some v \<Rightarrow> if v = 0 then Some (Continues \<sigma>)
           else continue_with (continue_with (exb turns \<sigma>) (exp turns)) (loop turns))"
  shows "performs \<tau> result scope scope (lowerFor C n init cond post body) (\<lambda>turns \<sigma>. continue_with (exi turns \<sigma>) (loop turns))"
proof (rule performsI)
  fix s u t c
  assume r: "lowerFor C n init cond post body s = Inr (u, t)" and cur: "low_Current s = Some c" "c < length (fn_Blocks (low_Function s))"
    and s: "sound \<tau> s" and fits: "length (values_of t) < 2 ^ 32" and res: "fn_Result (low_Function s) = result"
  have fp: "\<forall>pos m. post = Some (pos, m) \<longrightarrow> flows m" using p by blast
  show "sound \<tau> t \<and>
        (\<forall>F turns \<sigma> env. completed c s t F \<longrightarrow> length (fn_Blocks F) \<le> 2 ^ 32 \<longrightarrow> store_held \<tau> scope s \<sigma> env \<longrightarrow>
           simulates turns \<tau> scope t F (at_end c s env) (continue_with (exi turns \<sigma>) (loop turns)))"
    using r cur i(2) b(2) fp
  proof (rule lowerFor_layout)
    fix s1 c1 K B s4 X s5 s7 s8 u1 u7 u8
    let ?k = "at_block (Some K) s4" and ?b = "at_block (Some B) s5"
    assume s1: "optional init s = Inr (u1, s1)" "flow c s s1" "low_Current s1 = Some c1"
      and s4: "same_tables s1 s4" "fn_Result (low_Function s4) = fn_Result (low_Function s)"
      "K < length (fn_Blocks (low_Function s4))" "at_end K s4 = Pair K \<circ> Pair 0"
      and s5: "lower_for_condition C n cond K B ?k = Inr (X, s5)"
      "grows {K} (low_Function s4) (low_Function s5)" "B < length (fn_Blocks (low_Function s5))" "at_end B s5 = Pair B \<circ> Pair 0"
      and s7: "body ?b = Inr (u7, s7)" "flow B ?b s7"
      and s8: "loop_end C n K post (low_Current s7) s7 = Inr (u8, s8)" and t: "t = at_block X s8"
      and F: "\<And>F. completed c s t F \<Longrightarrow> completed c s s1 F \<and> completed B ?b s7 F \<and>
       ends_in F s1 c1 (jump_to C K (node_Pos n)) \<and> block_of F K = block_of (low_Function s5) K \<and>
       K < length (fn_Blocks F) \<and> B < length (fn_Blocks F) \<and> prefix (values_of s5) (fn_Values F) \<and>
       (\<forall>E. X = Some E \<longrightarrow> E < length (fn_Blocks F)) \<and>
       (\<forall>E. X = Some E \<longrightarrow> block_Instructions (block_of (low_Function s8) E) = block_Instructions (block_of (low_Function s5) E))"
      and last: "\<And>F e. completed c s t F \<Longrightarrow> low_Current s7 = Some e \<Longrightarrow> post = None \<Longrightarrow>
       ends_in F s7 e (jump_to C K (node_End n)) \<and> same_tables s7 s8"
      and some: "\<And>F e pos m. completed c s t F \<Longrightarrow> low_Current s7 = Some e \<Longrightarrow> post = Some (pos, m) \<Longrightarrow>
       \<exists>P sb x sc. m (at_block (Some P) sb) = Inr (x, sc) \<and> P < length (fn_Blocks (low_Function sb)) \<and>
         at_end P sb = Pair P \<circ> Pair 0 \<and> same_tables s7 sb \<and> fn_Result (low_Function sb) = fn_Result (low_Function s7) \<and>
         flow P (at_block (Some P) sb) sc \<and> completed P (at_block (Some P) sb) sc F \<and> same_tables sc s8 \<and>
         P < length (fn_Blocks F) \<and> ends_in F s7 e (jump_to C P pos) \<and>
         (\<forall>e'. low_Current sc = Some e' \<longrightarrow> ends_in F sc e' (jump_to C K (node_End n)))"
    have r7: "fn_Result (low_Function s7) = result"
      using grows_result [OF flow_grows [OF s7(2)]] grows_result [OF s5(2)] s4(2) res by simp
    have fits8: "length (values_of s8) < 2 ^ 32" using fits t by simp
    have e7: "\<And>e. low_Current s7 = Some e \<Longrightarrow> e < length (fn_Blocks (low_Function s7))" by (rule flow_open [OF s7(2)])
    note adds = loop_end_adds [OF s8 e7 fp]
    have fits7: "length (values_of s7) < 2 ^ 32" using adds(1) fits8 by simp
    have fits5: "length (values_of s5) \<le> 2 ^ 32" using grows_values [OF flow_grows [OF s7(2)]] fits7 by simp
    have "length (values_of s1) \<le> length (values_of s5)" using grows_values [OF s5(2)] s4(1) by (simp add: same_tables_def)
    then have fits1: "length (values_of s1) < 2 ^ 32"
      using grows_values [OF flow_grows [OF s7(2)]] fits7 by simp
    note pi = performsD [OF i(1) s1(1) cur s fits1 res]
    have snd4: "sound \<tau> s4" by (rule same_tables_sound [OF s4(1) pi(1)])
    note fc = for_condition_runs [OF s5(1) s4(3) w snd4 fits5]
    have snd5: "sound \<tau> ?b" by (rule same_tables_sound [OF same_tables_at(1) fc(1)])
    have "fn_Result (low_Function ?b) = result" using grows_result [OF s5(2)] s4(2) res by simp
    then have pb: "sound \<tau> s7" "\<And>F turns \<sigma> env. completed B ?b s7 F \<Longrightarrow> length (fn_Blocks F) \<le> 2 ^ 32 \<Longrightarrow>
        store_held \<tau> inner ?b \<sigma> env \<Longrightarrow> simulates turns \<tau> sb s7 F (at_end B ?b env) (exb turns \<sigma>)"
      using performsD [OF b(1) s7(1) _ _ snd5 fits7] s5(3) by simp_all
    have vars: "low_Variables s4 \<subseteq>\<^sub>m low_Variables s7" using s7(2) fc(2) by (simp add: flow_def)
    have again: "simulates turns \<tau> inner ?k G place (continue_with r (exp turns))"
      if G: "completed c s t G" "length (fn_Blocks G) \<le> 2 ^ 32" and sim: "simulates turns \<tau> sb s7 G place r"
        and h: "store_held \<tau> inner s4 \<sigma>0 env0" for G place r turns \<sigma>0 env0
    proof (rule loop_end_runs [OF sim G(2)])
      show "K < length (fn_Blocks G)" using F [OF G(1)] by blast
      show "low_Current ?k = Some K" "set inner \<subseteq> set sb" "low_Variables ?k \<subseteq>\<^sub>m low_Variables s7"
        using b(3) vars by simp_all
      show "block_Instructions (block_of (low_Function ?k) K) = []" using s4(4) by (simp add: at_end_def fun_eq_iff)
      show "store_held \<tau> inner ?k \<sigma>0 env0" using h same_tables_held [OF same_tables_at(1)] by simp
      show "exp turns = (\<lambda>\<sigma>. Some (Continues \<sigma>))" if "post = None" by (rule none [OF that])
      show "ends_in G s7 e (jump_to C K (node_End n))" if "low_Current s7 = Some e" "post = None" for e
        using last [OF G(1) that] by blast
      fix e ppos m assume e: "low_Current s7 = Some e" and q: "post = Some (ppos, m)"
      obtain P p u x where P: "m (at_block (Some P) p) = Inr (x, u)" "P < length (fn_Blocks (low_Function p))"
        "at_end P p = Pair P \<circ> Pair 0" "same_tables s7 p" "fn_Result (low_Function p) = fn_Result (low_Function s7)"
        "flow P (at_block (Some P) p) u" "completed P (at_block (Some P) p) u G" "same_tables u s8"
        "P < length (fn_Blocks G)" "ends_in G s7 e (jump_to C P ppos)"
        "\<forall>e'. low_Current u = Some e' \<longrightarrow> ends_in G u e' (jump_to C K (node_End n))"
        using some [OF G(1) e q] by blast
      let ?p = "at_block (Some P) p"
      have m: "performs \<tau> result inner sp m exp" using p(1) q by blast
      have sndp: "sound \<tau> ?p" by (rule same_tables_sound [OF same_tables_at(1) same_tables_sound [OF P(4) pb(1)]])
      have "length (values_of u) < 2 ^ 32" using fits8 P(8) by (simp add: same_tables_def)
      note pm = performsD(2) [OF m P(1) _ _ sndp this]
      have sim: "simulates turns \<tau> sp u G (at_end P ?p env) (exp turns \<sigma>)" if "store_held \<tau> inner ?p \<sigma> env" for \<sigma> env
        by (rule pm) (use P(2,5) r7 G(2) P(7) that in auto)
      show "\<exists>P p u. low_Current p = Some P \<and> P < length (fn_Blocks G) \<and> block_Instructions (block_of (low_Function p) P) = [] \<and>
         ends_in G s7 e (jump_to C P ppos) \<and> low_Variables p = low_Variables s7 \<and> low_Variables p \<subseteq>\<^sub>m low_Variables u \<and>
         (\<forall>\<sigma> env. store_held \<tau> inner p \<sigma> env \<longrightarrow> simulates turns \<tau> sp u G (at_end P p env) (exp turns \<sigma>)) \<and>
         set inner \<subseteq> set sp \<and> (\<forall>e. low_Current u = Some e \<longrightarrow> ends_in G u e (jump_to C K (node_End n)))"
      proof (intro exI conjI)
        show "low_Current ?p = Some P" by simp
        show "block_Instructions (block_of (low_Function ?p) P) = []" using P(3) by (simp add: at_end_def fun_eq_iff)
        show "low_Variables ?p = low_Variables s7" using same_tables_vars [OF P(4)] by simp
        show "low_Variables ?p \<subseteq>\<^sub>m low_Variables u" using P(6) by (simp add: flow_def)
        show "\<forall>\<sigma> env. store_held \<tau> inner ?p \<sigma> env \<longrightarrow> simulates turns \<tau> sp u G (at_end P ?p env) (exp turns \<sigma>)" using sim by blast
      qed (use P p(2) in blast)+
    qed
    have snd8: "sound \<tau> s8" by (rule loop_end_sound [OF s8 pb(1) e7 fits8 r7 p(1)])
    have at: "at_end K s4 = Pair K \<circ> Pair 0" "at_end K ?k = Pair K \<circ> Pair 0" "at_end B ?b = Pair B \<circ> Pair 0"
      using s4(4) s5(4) by (simp_all add: at_end_def fun_eq_iff)
    have held: "store_held \<tau> inner ?k = store_held \<tau> inner s4" "store_held \<tau> inner ?b = store_held \<tau> inner s5"
      by (simp_all add: same_tables_held [OF same_tables_at(1)])
    have "low_Variables s5 \<subseteq>\<^sub>m low_Variables t"
      unfolding t using s7(2) map_le_trans [OF _ adds(2)] by (simp add: flow_def)
    then have out: "store_held \<tau> scope t \<sigma> env" if "store_held \<tau> inner s5 \<sigma> env" for \<sigma> env
      using store_held_vars [OF store_held_subset [OF that i(3)]] by blast
    have runs: "simulates turns \<tau> scope t G (K, 0, env) (loop turns \<sigma>)"
      if G: "completed c s t G" "length (fn_Blocks G) \<le> 2 ^ 32" and h: "store_held \<tau> inner s4 \<sigma> env" for G turns \<sigma> env
      using h
    proof (induction turns arbitrary: \<sigma> env)
      case 0
      then show ?case by (simp add: loop)
    next
      case (Suc turns)
      note F = F [OF G(1)]
      have fG: "block_of G K = block_of (low_Function s5) K" "B < length (fn_Blocks G)" "\<forall>E. X = Some E \<longrightarrow> E < length (fn_Blocks G)"
        "prefix (values_of s5) (fn_Values G)" using F by blast+
      note c = fc(4) [OF fG(1-3) G(2) fG(4) Suc.prems]
      show ?case
      proof (cases "go_condition (info_of C) \<sigma> cond")
        case None
        then show ?thesis using c at(1) by (simp add: loop(2))
      next
        case (Some v)
        then obtain J env' where J: "if v \<noteq> 0 then J = B else X = Some J" "advances G (K, 0, env) (J, 0, env')"
          "store_held \<tau> inner s5 \<sigma> env'" using c at(1) by auto
        have "simulates turns \<tau> scope t G (J, 0, env') (loop (Suc turns) \<sigma>)"
        proof (cases "v = 0")
          case True
          then have X: "X = Some J" using J(1) by simp
          then have "block_Instructions (block_of (low_Function t) J) = []" using fc(3) F by (auto simp: t)
          then have "reaches G (J, 0, env') (at_end J t env')" by (simp add: at_end_def reaches_refl)
          moreover have "low_Current t = Some J" using X t by simp
          ultimately have "simulates turns \<tau> scope t G (J, 0, env') (Some (Continues \<sigma>))" using out [OF J(3)] by auto
          then show ?thesis using Some True by (simp add: loop(2))
        next
          case False
          have "simulates turns \<tau> sb s7 G (at_end B ?b env') (exb turns \<sigma>)"
            by (rule pb(2)) (use F G(2) J(3) held(2) in auto)
          then have "simulates turns \<tau> sb s7 G (J, 0, env') (exb turns \<sigma>)" using J(1) False at(3) by simp
          note turn = again [OF G this Suc.prems]
          have "simulates turns \<tau> scope t G (J, 0, env') (continue_with (continue_with (exb turns \<sigma>) (exp turns)) (loop turns))"
            by (rule simulates_then [OF turn]) (use Suc.IH held(1) at(2) in auto)
          then show ?thesis using Some False by (simp add: loop(2))
        qed
        then show ?thesis by (rule simulates_advances [OF J(2)])
      qed
    qed
    show ?thesis
    proof (intro conjI allI impI)
      show "sound \<tau> t" unfolding t by (rule same_tables_sound [OF same_tables_at(1) snd8])
      fix G turns \<sigma> env
      assume G: "completed c s t G" "length (fn_Blocks G) \<le> 2 ^ 32" and h: "store_held \<tau> scope s \<sigma> env"
      note F = F [OF G(1)]
      show "simulates turns \<tau> scope t G (at_end c s env) (continue_with (exi turns \<sigma>) (loop turns))"
      proof (rule simulates_then [OF pi(2) [OF _ G(2) h]])
        show "completed c s s1 G" using F by blast
        fix \<sigma>1 d env1
        assume d: "low_Current s1 = Some d" and h1: "store_held \<tau> inner s1 \<sigma>1 env1"
        have j: "ends_in G s1 d (jump_to C K (node_Pos n))" "K < length (fn_Blocks G)" using F d s1(3) by auto
        have "reaches G (at_end d s1 env1) (K, 0, env1)"
          unfolding at_end_def by (rule advances_reaches [OF jump_runs [OF j(1) j(2) G(2)]])
        moreover have "store_held \<tau> inner s4 \<sigma>1 env1" using h1 same_tables_held [OF s4(1)] by simp
        ultimately show "simulates turns \<tau> scope t G (at_end d s1 env1) (loop turns \<sigma>1)"
          using runs [OF G] simulates_reaches by blast
      qed
    qed
  qed
qed

section \<open>Returns\<close>

lemma returned_block:
  assumes x: "terminate_block (Some c) term s = Inr (x, s')" and c: "c < length (fn_Blocks (low_Function s))"
    and F: "completed c0 s0 (at_block None s') F" and c0: "c = c0"
  shows "ends_in F s c term"
proof -
  note tb = terminate_built [OF x c]
  have "grows {i. i < length (fn_Blocks (low_Function s0)) \<and> i \<noteq> c0} (low_Function s') F"
    using F by (simp add: completed_def)
  then have "block_of F c = block_of (low_Function s') c"
    by (rule grows_same) (use tb(1) c c0 in simp_all)
  then show ?thesis using tb(5) by simp
qed

lemma performs_return:
  assumes w: "typed_return (info_of C) \<tau> result scope results"
  shows "performs \<tau> result scope scope' (lowerReturn C n results)
    (\<lambda>turns \<sigma>. go_exec turns (info_of C) \<tau> \<sigma> (ReturnStmt n results))"
proof (rule performsI)
  fix s u t c
  assume r: "lowerReturn C n results s = Inr (u, t)" and cur: "low_Current s = Some c" "c < length (fn_Blocks (low_Function s))"
    and s: "sound \<tau> s" and fits: "length (values_of t) < 2 ^ 32" and res: "fn_Result (low_Function s) = result"
  have R: "fn_Result F = result" if F: "completed c s t F" "fn_Result (low_Function t) = result" for F
    using grows_result F by (fastforce simp: completed_def)
  show "sound \<tau> t \<and>
        (\<forall>F turns \<sigma> env. completed c s t F \<longrightarrow> length (fn_Blocks F) \<le> 2 ^ 32 \<longrightarrow> store_held \<tau> scope s \<sigma> env \<longrightarrow>
           simulates turns \<tau> scope' t F (at_end c s env) (go_exec turns (info_of C) \<tau> \<sigma> (ReturnStmt n results)))"
  proof (cases "result = TypeVoid")
    case True
    then have rs: "results = []" using w by (simp add: typed_return_def)
    obtain x s' where x: "terminate_block (Some c) (return_with C NoValue (node_Pos n)) s = Inr (x, s')" and t: "t = at_block None s'"
      using r cur(1) res True rs by (auto simp: lowerReturn_def lower_runs set_current_def)
    note tb = terminate_built [OF x cur(2)]
    have Rt: "fn_Result (low_Function t) = result" using grows_result [OF tb(4)] res t by simp
    have "ends_with F (at_end c s env) (Inr None)" if F: "completed c s t F" for F env
      using return_runs [OF returned_block [OF x cur(2) F [unfolded t] refl]] R [OF F Rt] True by (simp add: at_end_def)
    then show ?thesis using same_tables_sound [OF tb(3) s] same_tables_sound [OF same_tables_at(1)] rs t by simp
  next
    case False
    then obtain e where e: "results = [e]" "well_typed (info_of C) \<tau> scope e result"
      using w by (cases results) (auto simp: typed_return_def)
    obtain v s1 x s' where v: "lowerExpression C e result s = Inr (v, s1)"
      and x: "terminate_block (low_Current s1) (return_with C v (node_Pos n)) s1 = Inr (x, s')" and t: "t = at_block None s'"
      using r res False e(1) by (auto simp: lowerReturn_def lower_runs set_current_def)
    obtain code where em: "emits code s s1" using extendsD [OF extends_lowerExpression(1) v] by blast
    have c1: "low_Current s1 = Some c" "c < length (fn_Blocks (low_Function s1))" using em cur by (simp_all add: emits_def)
    note x = x [unfolded c1(1)]
    note tb = terminate_built [OF x c1(2)]
    have fits1: "length (values_of s1) \<le> 2 ^ 32" using fits tb(3) t by (simp add: same_tables_def)
    note l = expression_correctD [OF lowerExpression_correct v e(2) s fits1]
    have Rt: "fn_Result (low_Function t) = result"
      using grows_result [OF tb(4)] grows_result [OF emits_grows [OF em cur]] res t by simp
    have runs: "simulates turns \<tau> scope' t F (at_end c s env) (go_exec turns (info_of C) \<tau> \<sigma> (ReturnStmt n results))"
      if F: "completed c s t F" "length (fn_Blocks F) \<le> 2 ^ 32" and h: "store_held \<tau> scope s \<sigma> env" for F turns \<sigma> env
    proof -
      have F1: "completed c s (at_block None s') F" using F(1) by (simp add: t)
      have b: "ends_in F s1 c (return_with C v (node_Pos n))" by (rule returned_block [OF x c1(2) F1 refl])
      have pre: "prefix (values_of s1) (fn_Values F)"
        using completed_values [OF F(1)] tb(3) t by (simp add: same_tables_def)
      note run = lowers_to_runs [OF l cur b pre s h]
      show ?thesis
      proof (cases "go_eval (info_of C) \<sigma> e")
        case None
        then show ?thesis using run e(1) by simp
      next
        case (Some k)
        then obtain env' where env': "reaches F (at_end c s env) (at_end c s1 env')" "env' v = word_of_int k" using run by auto
        have "ends_with F (at_end c s1 env') (Inr (Some (word_of_int k)))"
          using return_runs [OF b, of env'] R [OF F(1) Rt] False env'(2) by (simp add: at_end_def)
        from reaches_ends [OF env'(1) this] Some e(1) show ?thesis by simp
      qed
    qed
    have "sound \<tau> t" unfolding t
      by (rule same_tables_sound [OF same_tables_at(1) same_tables_sound [OF tb(3) lowers_to_sound [OF l s]]])
    then show ?thesis using runs by blast
  qed
qed

section \<open>Statements\<close>

lemma typed_specs_scope: "typed_specs info \<tau> scope specs = Some scope' \<Longrightarrow> set scope \<subseteq> set scope'"
  by (induction info \<tau> scope specs rule: typed_specs.induct)
    (fastforce simp: typed_declare_def Let_def Option.bind_eq_Some_conv split: if_splits)+

lemma typed_scope:
  "typed_stmt info \<tau> result scope st = Some scope' \<Longrightarrow> set scope \<subseteq> set scope'"
  "typed_block info \<tau> result scope ss = Some scope' \<Longrightarrow> set scope \<subseteq> set scope'"
proof (induction info \<tau> result scope st and info \<tau> result scope ss arbitrary: scope' and scope' rule: typed_stmt_typed_block.induct)
  case (4 info \<tau> result scope n lhs tok rhs)
  then show ?case by (auto simp: typed_assignment_def Let_def split: if_splits)
next
  case (5 info \<tau> result scope n m tok specs)
  then show ?case using typed_specs_scope by (simp split: if_splits)
qed (auto simp: Option.bind_eq_Some_conv split: if_splits option.splits, blast)

lemma continue_with_assoc: "continue_with (continue_with r j) k = continue_with r (\<lambda>\<sigma>. continue_with (j \<sigma>) k)"
  by (auto simp: continue_with_def split: option.splits go_outcome.splits)

abbreviation stmt_does :: "lower_context \<Rightarrow> (nat \<Rightarrow> ir_type) \<Rightarrow> ir_type \<Rightarrow> nat list \<Rightarrow> nat list \<Rightarrow> stmt \<Rightarrow> bool" where
  "stmt_does C \<tau> result scope scope' st \<equiv>
     performs \<tau> result scope scope' (lowerStatement C st) (\<lambda>turns \<sigma>. go_exec turns (info_of C) \<tau> \<sigma> st)"

lemma performs_optional:
  assumes "\<And>i. init = Some i \<Longrightarrow> stmt_does C \<tau> result scope inner i" and "init = None \<Longrightarrow> inner = scope"
  shows "performs \<tau> result scope inner (optional (map_option (lowerStatement C) init))
    (\<lambda>turns \<sigma>. case init of None \<Rightarrow> Some (Continues \<sigma>) | Some i \<Rightarrow> go_exec turns (info_of C) \<tau> \<sigma> i)"
  using assms performs_skip by (cases init) (auto simp: optional_def)

lemma flows_optional_statement: "flows (optional (map_option (lowerStatement C) init))"
  by (rule flows_optional) (auto simp: flows_statement)

lemma if_correct:
  assumes i: "\<And>i. init = Some i \<Longrightarrow> stmt_does C \<tau> result scope inner i" "init = None \<Longrightarrow> inner = scope" "set scope \<subseteq> set inner"
    and w: "well_typed (info_of C) \<tau> inner cond TypeBool"
    and b: "performs \<tau> result inner sb (lowerBlock C body) (\<lambda>turns \<sigma>. go_block turns (info_of C) \<tau> \<sigma> body)" "set inner \<subseteq> set sb"
    and e: "\<And>e. els = Some e \<Longrightarrow> stmt_does C \<tau> result inner se e" "els = None \<Longrightarrow> se = inner" "set inner \<subseteq> set se"
  shows "stmt_does C \<tau> result scope scope (IfStmt n init cond bn body els)"
proof -
  have sc: "set scope \<subseteq> set sb" "set scope \<subseteq> set se" using i(3) b(2) e(3) by blast+
  have "performs \<tau> result scope scope
      (lowerIf C n (map_option (lowerStatement C) init) cond (lowerBlock C body) (map_option (lowerStatement C) els))
      (\<lambda>turns \<sigma>. continue_with (case init of None \<Rightarrow> Some (Continues \<sigma>) | Some i \<Rightarrow> go_exec turns (info_of C) \<tau> \<sigma> i)
        (go_branch (info_of C) cond (\<lambda>turns \<sigma>. go_block turns (info_of C) \<tau> \<sigma> body)
          (\<lambda>turns \<sigma>. case els of None \<Rightarrow> Some (Continues \<sigma>) | Some e \<Rightarrow> go_exec turns (info_of C) \<tau> \<sigma> e) turns))"
    by (rule performs_if [OF performs_optional [OF i(1,2)] flows_optional_statement w b(1) flows_statement(2) sc(1)
        performs_optional [OF e(1,2)] flows_optional_statement sc(2)])
  moreover have "go_exec turns (info_of C) \<tau> \<sigma> (IfStmt n init cond bn body els) =
      continue_with (case init of None \<Rightarrow> Some (Continues \<sigma>) | Some i \<Rightarrow> go_exec turns (info_of C) \<tau> \<sigma> i)
        (go_branch (info_of C) cond (\<lambda>turns \<sigma>. go_block turns (info_of C) \<tau> \<sigma> body)
          (\<lambda>turns \<sigma>. case els of None \<Rightarrow> Some (Continues \<sigma>) | Some e \<Rightarrow> go_exec turns (info_of C) \<tau> \<sigma> e) turns)" for turns \<sigma>
    by (simp add: go_branch_def [abs_def])
  ultimately show ?thesis by simp
qed

lemma for_correct:
  assumes i: "\<And>i. init = Some i \<Longrightarrow> stmt_does C \<tau> result scope inner i" "init = None \<Longrightarrow> inner = scope" "set scope \<subseteq> set inner"
    and w: "case cond of None \<Rightarrow> True | Some e \<Rightarrow> well_typed (info_of C) \<tau> inner e TypeBool"
    and b: "performs \<tau> result inner sb (lowerBlock C body) (\<lambda>turns \<sigma>. go_block turns (info_of C) \<tau> \<sigma> body)" "set inner \<subseteq> set sb"
    and p: "\<And>p. post = Some p \<Longrightarrow> stmt_does C \<tau> result inner sp p" "set inner \<subseteq> set sp"
  shows "stmt_does C \<tau> result scope scope (ForStmt n init cond post bn body)"
proof -
  let ?post = "map_option (\<lambda>p. (node_Pos (stmt_node p), lowerStatement C p)) post"
  have q: "\<forall>pos m. ?post = Some (pos, m) \<longrightarrow> performs \<tau> result inner sp m
      (\<lambda>turns \<sigma>. case post of None \<Rightarrow> Some (Continues \<sigma>) | Some p \<Rightarrow> go_exec turns (info_of C) \<tau> \<sigma> p) \<and> flows m"
    using p(1) flows_statement by (cases post) auto
  have "performs \<tau> result scope scope
      (lowerFor C n (map_option (lowerStatement C) init) cond ?post (lowerBlock C body))
      (\<lambda>turns \<sigma>. continue_with (case init of None \<Rightarrow> Some (Continues \<sigma>) | Some i \<Rightarrow> go_exec turns (info_of C) \<tau> \<sigma> i)
        (\<lambda>\<sigma>. go_loop turns (info_of C) \<tau> \<sigma> cond post body))"
  proof (rule performs_for [OF performs_optional [OF i(1,2)] flows_optional_statement i(3) w b(1) flows_statement(2) b(2) q p(2)])
    show "go_loop 0 (info_of C) \<tau> \<sigma> cond post body = None" for \<sigma> by simp
    show "go_loop (Suc turns) (info_of C) \<tau> \<sigma> cond post body = (case go_condition (info_of C) \<sigma> cond of
        None \<Rightarrow> Some Panics
      | Some v \<Rightarrow> if v = 0 then Some (Continues \<sigma>)
          else continue_with (continue_with (go_block turns (info_of C) \<tau> \<sigma> body)
            (\<lambda>\<sigma>. case post of None \<Rightarrow> Some (Continues \<sigma>) | Some p \<Rightarrow> go_exec turns (info_of C) \<tau> \<sigma> p))
            (\<lambda>\<sigma>. go_loop turns (info_of C) \<tau> \<sigma> cond post body))" for turns \<sigma>
      by (simp only: go_loop.simps continue_with_assoc)
  qed (cases post, simp_all)
  then show ?thesis by simp
qed

lemma statement_correct:
  "(\<And>key. \<not> lc_AddressTaken C key) \<Longrightarrow> typed_stmt (info_of C) \<tau> result scope st = Some scope' \<Longrightarrow> stmt_does C \<tau> result scope scope' st"
  "(\<And>key. \<not> lc_AddressTaken C key) \<Longrightarrow> typed_block (info_of C) \<tau> result scope ss = Some scope' \<Longrightarrow>
     performs \<tau> result scope scope' (lowerBlock C ss) (\<lambda>turns \<sigma>. go_block turns (info_of C) \<tau> \<sigma> ss)"
proof (induction C st and C ss arbitrary: scope scope' and scope scope' rule: lowerStatement_lowerBlock.induct)
  case (1 C n ss)
  from 1(3) obtain inner where inner: "typed_block (info_of C) \<tau> result scope ss = Some inner" "scope' = scope"
    using typed_stmt.simps(1) by (metis map_option_eq_Some)
  from performs_subset [OF 1(1) [OF 1(2) inner(1)] typed_scope(2) [OF inner(1)]] inner(2) show ?case by simp
next
  case (2 C n)
  then show ?case using performs_skip by simp
next
  case (3 C n results)
  then show ?case using performs_return by (simp split: if_splits)
next
  case (4 C n lhs tok rhs)
  have "performs \<tau> result scope scope' (lowerAssignment C n lhs tok rhs) (\<lambda>turns \<sigma>. Some (go_assignment (info_of C) \<tau> \<sigma> lhs tok rhs))"
    by (rule carries_out_performs, rule assignment_correct) (use 4 in auto)
  then show ?case by simp
next
  case (5 C n d)
  from 5(2) obtain m specs where d: "d = GenDecl m tokVAR specs" "typed_specs (info_of C) \<tau> scope specs = Some scope'"
    by (cases d) (auto split: if_splits)
  have "performs \<tau> result scope scope' (lower_specs C specs) (\<lambda>turns \<sigma>. Some (go_declarations (info_of C) \<sigma> specs))"
    by (rule carries_out_performs, rule specs_correct) (use 5 d in auto)
  then show ?case by (simp add: d(1) lowerDeclaration_def)
next
  case (6 C n x tok)
  have "performs \<tau> result scope scope (lowerIncDec C n x tok)
      (\<lambda>turns \<sigma>. Some (go_update \<tau> \<sigma> (target_key (info_of C) False x) (if tok = tokDEC then tokSUB else tokADD) 1))"
    by (rule carries_out_performs, rule incdec_correct) (use 6 in \<open>auto split: if_splits\<close>)
  then show ?case using 6 by (simp split: if_splits)
next
  case (8 C n init cond bn body els)
  from 8(5) obtain inner where ty: "(case init of None \<Rightarrow> Some scope | Some i \<Rightarrow> typed_stmt (info_of C) \<tau> result scope i) = Some inner"
    "well_typed (info_of C) \<tau> inner cond TypeBool" "typed_block (info_of C) \<tau> result inner body \<noteq> None"
    "case els of None \<Rightarrow> True | Some e \<Rightarrow> typed_stmt (info_of C) \<tau> result inner e \<noteq> None" "scope' = scope"
    by (auto simp: Option.bind_eq_Some_conv split: if_splits)
  obtain sb where sb: "typed_block (info_of C) \<tau> result inner body = Some sb" using ty(3) by blast
  obtain se where se: "(case els of None \<Rightarrow> Some inner | Some e \<Rightarrow> typed_stmt (info_of C) \<tau> result inner e) = Some se"
    using ty(4) by (cases els) auto
  have "stmt_does C \<tau> result scope scope (IfStmt n init cond bn body els)"
  proof (rule if_correct [OF _ _ _ ty(2) 8(2) [OF 8(4) sb] typed_scope(2) [OF sb]])
    show "set scope \<subseteq> set inner" using ty(1) typed_scope(1) by (auto split: option.splits)
    show "set inner \<subseteq> set se" using se typed_scope(1) by (auto split: option.splits)
  qed (use 8 ty(1) se in \<open>auto split: option.splits\<close>)
  then show ?case using ty(5) by simp
next
  case (9 C n init cond post bn body)
  from 9(5) obtain inner where ty: "(case init of None \<Rightarrow> Some scope | Some i \<Rightarrow> typed_stmt (info_of C) \<tau> result scope i) = Some inner"
    "case cond of None \<Rightarrow> True | Some e \<Rightarrow> well_typed (info_of C) \<tau> inner e TypeBool"
    "typed_block (info_of C) \<tau> result inner body \<noteq> None"
    "case post of None \<Rightarrow> True | Some p \<Rightarrow> typed_stmt (info_of C) \<tau> result inner p \<noteq> None" "scope' = scope"
    by (auto simp: Option.bind_eq_Some_conv split: if_splits)
  obtain sb where sb: "typed_block (info_of C) \<tau> result inner body = Some sb" using ty(3) by blast
  obtain sp where sp: "(case post of None \<Rightarrow> Some inner | Some p \<Rightarrow> typed_stmt (info_of C) \<tau> result inner p) = Some sp"
    using ty(4) by (cases post) auto
  have "stmt_does C \<tau> result scope scope (ForStmt n init cond post bn body)"
  proof (rule for_correct [OF _ _ _ ty(2) _ typed_scope(2) [OF sb]])
    show "set scope \<subseteq> set inner" using ty(1) typed_scope(1) by (auto split: option.splits)
    show "set inner \<subseteq> set sp" using sp typed_scope(1) by (auto split: option.splits)
  qed (use 9 sb ty(1) sp in \<open>auto split: option.splits\<close>)
  then show ?case using ty(5) by simp
next
  case (11 C)
  then show ?case using performs_skip by simp
next
  case (12 C st ss)
  from 12(4) obtain inner where ty: "typed_stmt (info_of C) \<tau> result scope st = Some inner" "typed_block (info_of C) \<tau> result inner ss = Some scope'"
    by (auto simp: Option.bind_eq_Some_conv)
  from performs_sequence [OF 12(1) [OF 12(3) ty(1)] flows_statement(1) 12(2) [OF 12(3) ty(2)]] show ?case by simp
qed simp_all

section \<open>Functions\<close>

text \<open>
  Functions: the parameters, the body and the return at its end.  A function of the part of Go that
  \<open>typed_function\<close> describes and the graph it is lowered to end with the same results, or both run on.
\<close>

section \<open>Parameters\<close>

lemma parameter_lowered:
  assumes r: "lower_parameter C d index (key, name, goType) s = Inr (i, t)" and free: "\<not> lc_AddressTaken C key"
    and ty: "strictIRType goType = Inr (\<tau> key)"
  shows "length (values_of t) = Suc (length (values_of s))"
    and "low_Variables t = (low_Variables s)(key \<mapsto> i)" and "fn_Params (low_Function t) = fn_Params (low_Function s) @ [i]"
    and "sound \<tau> s \<Longrightarrow> length (values_of t) \<le> 2 ^ 32 \<Longrightarrow> sound \<tau> t"
proof -
  obtain v where v: "values_of t = values_of s @ [v]" "value_Type v = \<tau> key" "i = of_nat (length (values_of s))"
    "low_Variables t = (low_Variables s)(key \<mapsto> i)" "low_MemoryVariables t = low_MemoryVariables s"
    "fn_Params (low_Function t) = fn_Params (low_Function s) @ [i]"
    using r ty free by (auto simp: lower_parameter_def Let_def lower_runs strict_at_def newValue_def)
  then show l: "length (values_of t) = Suc (length (values_of s))" and "low_Variables t = (low_Variables s)(key \<mapsto> i)"
    "fn_Params (low_Function t) = fn_Params (low_Function s) @ [i]" by simp_all
  assume s: "sound \<tau> s" and fits: "length (values_of t) \<le> 2 ^ 32"
  have "length (values_of s) < 2 ^ LENGTH(32)" using l fits by simp
  then have i: "unat i = length (values_of s)" unfolding v(3) by (simp add: unat_of_nat take_bit_nat_eq_self)
  have old: "unat j < length (values_of s)" "value_Type (values_of s ! unat j) = \<tau> k" if "low_Variables s k = Some j" for k j
    using s that by (auto simp: sound_def)
  then have "low_Variables s k \<noteq> Some i" for k using i by (metis less_irrefl)
  then show "sound \<tau> t"
    using s v(1,2,4,5) i old by (auto simp: sound_def nth_append less_Suc_eq split: if_splits)
qed

lemma parameters_lowered:
  assumes "lower_parameters C d index ps s = Inr (is, t)" and "\<And>key. \<not> lc_AddressTaken C key"
    and "list_all (\<lambda>(key, name, goType). strictIRType goType = Inr (\<tau> key)) ps"
  shows "length (values_of s) \<le> length (values_of t)"
    and "fn_Params (low_Function t) = fn_Params (low_Function s) @ is"
    and "key \<notin> fst ` set ps \<Longrightarrow> low_Variables t key = low_Variables s key"
    and "distinct (map fst ps) \<Longrightarrow> map (low_Variables t) (map fst ps) = map Some is"
    and "sound \<tau> s \<Longrightarrow> length (values_of t) \<le> 2 ^ 32 \<Longrightarrow> sound \<tau> t"
proof -
  have "length (values_of s) \<le> length (values_of t) \<and> fn_Params (low_Function t) = fn_Params (low_Function s) @ is \<and>
    (\<forall>key. key \<notin> fst ` set ps \<longrightarrow> low_Variables t key = low_Variables s key) \<and>
    (distinct (map fst ps) \<longrightarrow> map (low_Variables t) (map fst ps) = map Some is) \<and>
    (sound \<tau> s \<longrightarrow> length (values_of t) \<le> 2 ^ 32 \<longrightarrow> sound \<tau> t)"
    using assms
  proof (induction ps arbitrary: index s "is")
    case Nil
    then show ?case by (simp add: lower_runs)
  next
    case (Cons p ps)
    obtain key name goType where p: "p = (key, name, goType)" by (cases p)
    obtain i s1 is' where r: "lower_parameter C d index (key, name, goType) s = Inr (i, s1)"
      "lower_parameters C d (index + 1) ps s1 = Inr (is', t)" "is = i # is'"
      using Cons.prems(1) by (auto simp: p lower_runs)
    have ty: "strictIRType goType = Inr (\<tau> key)" using Cons.prems(3) by (simp add: p)
    note one = parameter_lowered [where \<tau> = \<tau>, OF r(1) Cons.prems(2) ty]
    have "list_all (\<lambda>(key, name, goType). strictIRType goType = Inr (\<tau> key)) ps" using Cons.prems(3) by simp
    note rest = Cons.IH [OF r(2) Cons.prems(2) this]
    then show ?case using one rest by (auto simp: p r(3))
  qed
  then show "length (values_of s) \<le> length (values_of t)"
    "fn_Params (low_Function t) = fn_Params (low_Function s) @ is"
    "key \<notin> fst ` set ps \<Longrightarrow> low_Variables t key = low_Variables s key"
    "distinct (map fst ps) \<Longrightarrow> map (low_Variables t) (map fst ps) = map Some is"
    "sound \<tau> s \<Longrightarrow> length (values_of t) \<le> 2 ^ 32 \<Longrightarrow> sound \<tau> t" by blast+
qed

lemma store_parameters_nothing:
  "low_MemoryVariables s = Map.empty \<Longrightarrow> store_parameters C d ps is s = Inr (x, t) \<Longrightarrow> t = s"
  by (induction C d ps "is" rule: store_parameters.induct) (auto simp: lower_runs)

section \<open>Whole functions\<close>

definition typed_function ::
  "go_info \<Rightarrow> (nat \<Rightarrow> ir_type) \<Rightarrow> ir_type \<Rightarrow> (nat \<times> string \<times> go_type) list \<Rightarrow> stmt list \<Rightarrow> bool" where
  "typed_function info \<tau> result ps body \<longleftrightarrow>
     distinct (map fst ps) \<and> list_all (\<lambda>(key, name, goType). strictIRType goType = Inr (\<tau> key)) ps \<and>
     typed_block info \<tau> result (map fst ps) body \<noteq> None"

text \<open>A call puts the arguments into the registers of the parameters.\<close>

definition called_with ::
  "(nat \<Rightarrow> ir_type) \<Rightarrow> ir_function \<Rightarrow> (nat \<times> string \<times> go_type) list \<Rightarrow> go_store \<Rightarrow> ir_env \<Rightarrow> bool" where
  "called_with \<tau> f ps \<sigma> env \<longleftrightarrow>
     list_all2 (\<lambda>(key, name, goType) i. in_range (\<tau> key) (\<sigma> key) \<and> env i = word_of_int (\<sigma> key)) ps (fn_Params f)"

lemma called_with_held:
  assumes "called_with \<tau> f ps \<sigma> env" and "map (low_Variables s) (map fst ps) = map Some (fn_Params f)"
  shows "store_held \<tau> (map fst ps) s \<sigma> env"
  unfolding store_held_def
proof
  fix key assume "key \<in> set (map fst ps)"
  then obtain j where j: "j < length ps" "key = fst (ps ! j)" by (auto simp: in_set_conv_nth)
  have l: "length ps = length (fn_Params f)" using assms(1) by (auto simp: called_with_def dest: list_all2_lengthD)
  have "low_Variables s key = Some (fn_Params f ! j)" using arg_cong [OF assms(2), of "\<lambda>xs. xs ! j"] j l by simp
  moreover have "in_range (\<tau> key) (\<sigma> key) \<and> env (fn_Params f ! j) = word_of_int (\<sigma> key)"
    using assms(1) j by (auto simp: called_with_def dest!: list_all2_nthD split: prod.splits)
  ultimately show "\<exists>i. low_Variables s key = Some i \<and> env i = word_of_int (\<sigma> key) \<and> in_range (\<tau> key) (\<sigma> key)" by blast
qed

text \<open>The end of a function without a result returns; a function with one has no open end.\<close>

lemma function_end:
  assumes e: "if low_Current s = None then u = s
     else fn_Result (low_Function s) = TypeVoid \<and> terminate_block (low_Current s) (return_with C NoValue pos) s = Inr ((), u)"
    and c: "\<And>e. low_Current s = Some e \<Longrightarrow> e < length (fn_Blocks (low_Function s))"
  shows "grows (set_option (low_Current s)) (low_Function s) (low_Function u)"
    and "simulates turns \<tau> scope s (low_Function u) place r \<Longrightarrow>
      (case r of None \<Rightarrow> ir_run turns (low_Function u) place = None
       | Some outcome \<Rightarrow> ends_with (low_Function u) place (ir_outcome outcome))"
proof -
  have "grows (set_option (low_Current s)) (low_Function s) (low_Function u) \<and>
    (simulates turns \<tau> scope s (low_Function u) place r \<longrightarrow>
      (case r of None \<Rightarrow> ir_run turns (low_Function u) place = None
       | Some outcome \<Rightarrow> ends_with (low_Function u) place (ir_outcome outcome)))"
  proof (cases "low_Current s")
    case None
    then show ?thesis using e grows_refl by (auto simp: simulates_def split: option.splits go_outcome.splits)
  next
    case (Some b)
    then have v: "fn_Result (low_Function s) = TypeVoid" "terminate_block (Some b) (return_with C NoValue pos) s = Inr ((), u)"
      using e by auto
    note tb = terminate_built [OF v(2) c [OF Some]]
    have "ends_with (low_Function u) (at_end b s env) (Inr None)" for env
      using return_runs [OF tb(5), of env] grows_result [OF tb(4)] v(1) by (simp add: at_end_def)
    then have "ends_with (low_Function u) place (Inr None)" if "reaches (low_Function u) place (at_end b s env)" for env
      using reaches_ends that by blast
    then show ?thesis using tb(4) Some by (auto simp: simulates_def split: option.splits go_outcome.splits)
  qed
  then show "grows (set_option (low_Current s)) (low_Function s) (low_Function u)"
    "simulates turns \<tau> scope s (low_Function u) place r \<Longrightarrow>
      (case r of None \<Rightarrow> ir_run turns (low_Function u) place = None
       | Some outcome \<Rightarrow> ends_with (low_Function u) place (ir_outcome outcome))" by blast+
qed

lemma grows_params: "grows P f g \<Longrightarrow> fn_Params g = fn_Params f"
  by (simp add: grows_def)

lemma body_runs:
  assumes r: "lower_body C d ps bn body (start_state name result) = Inr (f, u)"
    and free: "\<And>key. \<not> lc_AddressTaken C key" and ty: "typed_function (info_of C) \<tau> result ps body"
    and fits: "length (fn_Values f) < 2 ^ 32" "length (fn_Blocks f) \<le> 2 ^ 32" and call: "called_with \<tau> f ps \<sigma> env"
  shows "case go_block turns (info_of C) \<tau> \<sigma> body of
      None \<Rightarrow> ir_run turns f (0, 0, env) = None
    | Some outcome \<Rightarrow> ends_with f (0, 0, env) (ir_outcome outcome)"
  using r
proof (rule lower_bodyE)
  fix params x and s1 s2 s3 s4 :: lower_state
  let ?n = "length (fn_Blocks (low_Function s1))"
  let ?s = "s2\<lparr>low_Function := (low_Function s2)\<lparr>fn_Entry := blockID ?n\<rparr>, low_Current := Some ?n\<rparr>"
  assume p: "lower_parameters C d 0 ps (start_state name result) = Inr (params, s1)"
    and n: "newBlock ''entry'' s1 = Inr (?n, s2)" and st: "store_parameters C d ps params ?s = Inr (x, s3)"
    and b: "lowerBlock C body s3 = Inr ((), s4)"
    and e: "if low_Current s4 = None then u = s4
      else fn_Result (low_Function s4) = TypeVoid \<and>
        terminate_block (low_Current s4) (return_with C NoValue (node_End bn)) s4 = Inr ((), u)"
    and f: "f = low_Function u"
  have tys: "distinct (map fst ps)" "list_all (\<lambda>(key, name, goType). strictIRType goType = Inr (\<tau> key)) ps"
    using ty by (simp_all add: typed_function_def)
  obtain inner where inner: "typed_block (info_of C) \<tau> result (map fst ps) body = Some inner"
    using ty by (auto simp: typed_function_def)
  note lp = parameters_lowered [OF p free tys(2)]
  have s1: "fn_Blocks (low_Function s1) = []" "fn_Result (low_Function s1) = result"
    using lower_parameters_state [OF p] by (simp_all add: start_state_def)
  note nb = newBlock_built [OF n]
  have one: "length (fn_Blocks (low_Function s2)) = 1" "block_Instructions (block_of (low_Function s2) 0) = []"
    using nb(2,6) s1(1) by simp_all
  have tb: "same_tables s1 ?s" using nb(4) by (simp add: same_tables_def same_maps_def)
  have s0: "sound \<tau> (start_state name result)" by (simp add: start_state_def sound_def)
  obtain code where em: "emits code ?s s3" using extendsD [OF extends_store_parameters st] by blast
  have c3: "low_Current s3 = Some 0" "0 < length (fn_Blocks (low_Function s3))"
    using em s1(1) one(1) by (simp_all add: emits_def)
  have f4: "flow 0 s3 s4" by (rule flowsD [OF flows_statement(2) b c3])
  have c4: "\<And>e. low_Current s4 = Some e \<Longrightarrow> e < length (fn_Blocks (low_Function s4))" by (rule flow_open [OF f4])
  note g = function_end [OF e c4]
  have fits4: "length (values_of s4) < 2 ^ 32" using grows_values [OF g(1)] fits(1) f by simp
  have "length (values_of s3) \<le> length (values_of s4)" by (rule grows_values [OF flow_grows [OF f4]])
  moreover have "length (values_of ?s) \<le> length (values_of s3)" using keeps_emits [OF em] by (rule prefix_length_le)
  ultimately have "length (values_of s1) \<le> 2 ^ 32" using fits4 tb by (simp add: same_tables_def)
  then have snd1: "sound \<tau> s1" by (rule lp(5) [OF s0])
  have "low_MemoryVariables ?s = Map.empty" using snd1 tb by (simp add: sound_def same_tables_def same_maps_def)
  then have s3: "s3 = ?s" using store_parameters_nothing st by blast
  have snd3: "sound \<tau> s3" unfolding s3 by (rule same_tables_sound [OF tb snd1])
  have res: "fn_Result (low_Function s3) = result" using s1(2) grows_result [OF nb(5)] by (simp add: s3)
  note run = performsD(2) [OF statement_correct(2) [OF free inner] b c3 snd3 fits4 res]
  have F: "completed 0 s3 s4 f"
    unfolding completed_def f by (rule grows_mono [OF g(1)]) (use one(1) s3 in auto)
  have "fn_Params (low_Function s1) = params" using lp(2) by (simp add: start_state_def)
  then have "fn_Params f = params"
    using grows_params [OF nb(5)] grows_params [OF flow_grows [OF f4]] grows_params [OF g(1)] by (simp add: s3 f)
  then have "map (low_Variables s3) (map fst ps) = map Some (fn_Params f)"
    using lp(4) [OF tys(1)] same_tables_vars [OF tb] s3 by simp
  note h = called_with_held [OF call this]
  have "at_end 0 s3 env = (0, 0, env)" using one(2) by (simp add: at_end_def s3)
  then have "simulates turns \<tau> inner s4 f (0, 0, env) (go_block turns (info_of C) \<tau> \<sigma> body)"
    using run [OF F fits(2) h] by simp
  then show ?thesis using g(2) f by blast
qed

lemma body_result:
  assumes "lower_body C d ps bn body (start_state name result) = Inr (f, u)"
  shows "fn_Result f = result"
  using assms
proof (rule lower_bodyE)
  fix params x and s1 s2 s3 s4 :: lower_state
  let ?n = "length (fn_Blocks (low_Function s1))"
  let ?s = "s2\<lparr>low_Function := (low_Function s2)\<lparr>fn_Entry := blockID ?n\<rparr>, low_Current := Some ?n\<rparr>"
  assume p: "lower_parameters C d 0 ps (start_state name result) = Inr (params, s1)"
    and n: "newBlock ''entry'' s1 = Inr (?n, s2)" and st: "store_parameters C d ps params ?s = Inr (x, s3)"
    and b: "lowerBlock C body s3 = Inr ((), s4)"
    and e: "if low_Current s4 = None then u = s4
      else fn_Result (low_Function s4) = TypeVoid \<and>
        terminate_block (low_Current s4) (return_with C NoValue (node_End bn)) s4 = Inr ((), u)"
    and f: "f = low_Function u"
  have s1: "fn_Blocks (low_Function s1) = []" "fn_Result (low_Function s1) = result"
    using lower_parameters_state [OF p] by (simp_all add: start_state_def)
  note nb = newBlock_built [OF n]
  obtain code where em: "emits code ?s s3" using extendsD [OF extends_store_parameters st] by blast
  have c: "low_Current ?s = Some 0" "0 < length (fn_Blocks (low_Function ?s))" using s1(1) nb(2) by simp_all
  have c3: "low_Current s3 = Some 0" "0 < length (fn_Blocks (low_Function s3))" using em c by (simp_all add: emits_def)
  have f4: "flow 0 s3 s4" by (rule flowsD [OF flows_statement(2) b c3])
  note g = function_end(1) [OF e flow_open [OF f4]]
  have "fn_Result (low_Function s3) = fn_Result (low_Function ?s)" by (rule grows_result [OF emits_grows [OF em c]])
  then show "fn_Result f = result"
    using s1(2) grows_result [OF nb(5)] grows_result [OF flow_grows [OF f4]] grows_result [OF g] by (simp add: f)
qed

lemma ends_once: "ends_with f a r \<Longrightarrow> ir_run n f a = Some r' \<Longrightarrow> r' = r"
  unfolding ends_with_def by (metis ir_run_more nle_le option.inject)

end
