(* ===== verification/LowerClaims.thy ===== *)
theory LowerClaims
  imports LoopFacts "HOL-Library.Code_Target_Nat"
begin

text \<open>
  What the lowering guarantees: the graphs it builds are closed and numbered, and a function of scalar
  variables does in the graph what it does in Go, runs without an end included.
\<close>

text \<open>
  C5.  Lowering never leaves a function half built.  Of every package \<open>Lower\<close> returns, each function has
  its values, memory objects and blocks numbered by their position, starts in block 0 and has a
  terminator at the end of every block, with targets among its blocks.  So the check of its own result
  that \<open>Lower\<close> runs last never finds one of the errors of these tables: the only reports of generated
  invalid IR concern names, types and operands.
\<close>

theorem Lower_shape:
  "(case Lower ord checked of Inl e \<Rightarrow> True
    | Inr p \<Rightarrow> prog_Functions p \<noteq> [] \<and> list_all shaped (prog_Functions p) \<and> Program_Validate ord p = None) \<and>
   (case lower_declarations package declarations of Inl e \<Rightarrow> True
    | Inr fs \<Rightarrow> list_all shaped fs \<and>
        Program_Validate ord \<lparr>prog_Package = name, prog_Functions = fs\<rparr> \<notin> Some ` table_errors)"
proof
  show "case Lower ord checked of Inl e \<Rightarrow> True
    | Inr p \<Rightarrow> prog_Functions p \<noteq> [] \<and> list_all shaped (prog_Functions p) \<and> Program_Validate ord p = None"
    using lower_declarations_shaped
    by (fastforce simp: Lower_def and_then_Inr_conv Let_def list_all_iff split: sum.split option.splits if_splits list.splits)
next
  show "case lower_declarations package declarations of Inl e \<Rightarrow> True
    | Inr fs \<Rightarrow> list_all shaped fs \<and>
        Program_Validate ord \<lparr>prog_Package = name, prog_Functions = fs\<rparr> \<notin> Some ` table_errors"
    using lower_declarations_shaped [of package declarations] Program_Validate_shaped [of "\<lparr>prog_Package = name, prog_Functions = _\<rparr>" ord]
    by (fastforce simp: list_all_iff split: sum.split)
qed

section \<open>Functions\<close>

lemma declaration_lowered:
  assumes "lower_declaration checked (FuncDecl d) = Inr (Some f)" and "decl_Body d = Some (bn, body)"
    and "info_Defs (Info checked) (node_Key (fst (decl_Name d))) = Some (FuncObject key fname pkg t)"
    and "signature_of t = Some (ps, rs)" and "findAddressTakenVariables (Info checked) body = []"
  obtains C u where "Info (lc_Checked C) = Info checked" "\<And>key. \<not> lc_AddressTaken C key"
    "lower_body C d ps bn body (start_state (snd (decl_Name d)) (fn_Result f)) = Inr (f, u)"
proof -
  let ?C = "\<lparr>lc_Checked = checked, lc_AddressTaken = (\<lambda>key. False)\<rparr>"
  obtain result u where b: "lower_body ?C d ps bn body (start_state (snd (decl_Name d)) result) = Inr (f, u)"
    using assms by (auto simp: lower_declaration_def lowerFunction_def and_then_Inr_conv Let_def)
  have "fn_Result f = result" using body_result [OF b] .
  then show thesis using b by (intro that [of ?C u]) simp_all
qed

text \<open>
  C1.  A lowered function does what the Go function does.  For a function of the part of Go whose
  variables are scalars in registers (assignments and definitions, also parallel and compound ones,
  increments, declarations, if, for, return, and all their expressions with constants, conversions,
  wrapping arithmetic, division and comparisons), called with any arguments in the range of their
  types: the graph ends with a result exactly when the Go function does, with the same result, or with
  the trap of a division by zero exactly when the Go function panics.  So it runs for ever exactly when
  the Go function does.
\<close>

theorem lowered_function_refines:
  assumes "lower_declaration checked (FuncDecl d) = Inr (Some f)" and "decl_Body d = Some (bn, body)"
    and "info_Defs (Info checked) (node_Key (fst (decl_Name d))) = Some (FuncObject key fname pkg t)"
    and "signature_of t = Some (ps, rs)" and "findAddressTakenVariables (Info checked) body = []"
    and "typed_function (Info checked) \<tau> (fn_Result f) ps body"
    and "length (fn_Values f) < 2 ^ 32" and "length (fn_Blocks f) \<le> 2 ^ 32" and "called_with \<tau> f ps \<sigma> env"
  shows "(\<exists>n. ir_run n f (unat (fn_Entry f), 0, env) = Some r) \<longleftrightarrow>
    (\<exists>turns outcome. go_block turns (Info checked) \<tau> \<sigma> body = Some outcome \<and> ir_outcome outcome = r)"
proof -
  obtain C u where C: "Info (lc_Checked C) = Info checked" "\<And>key. \<not> lc_AddressTaken C key"
    "lower_body C d ps bn body (start_state (snd (decl_Name d)) (fn_Result f)) = Inr (f, u)"
    using declaration_lowered [OF assms(1-5)] by blast
  have entry: "fn_Entry f = 0" using lower_body_shaped [OF C(3)] by (simp add: shaped_def)
  note runs = body_runs [OF C(3,2) assms(6) [folded C(1)] assms(7-9), unfolded C(1)]
  show ?thesis unfolding entry unat_0
  proof
    assume "\<exists>n. ir_run n f (0, 0, env) = Some r"
    then obtain n where n: "ir_run n f (0, 0, env) = Some r" by blast
    then obtain outcome where "go_block n (Info checked) \<tau> \<sigma> body = Some outcome"
      "ends_with f (0, 0, env) (ir_outcome outcome)" using runs [of n] by (auto split: option.splits)
    then show "\<exists>turns outcome. go_block turns (Info checked) \<tau> \<sigma> body = Some outcome \<and> ir_outcome outcome = r"
      using ends_once n by blast
  next
    assume "\<exists>turns outcome. go_block turns (Info checked) \<tau> \<sigma> body = Some outcome \<and> ir_outcome outcome = r"
    then obtain turns outcome where "go_block turns (Info checked) \<tau> \<sigma> body = Some outcome" "ir_outcome outcome = r" by blast
    then show "\<exists>n. ir_run n f (0, 0, env) = Some r" using runs [of turns] by (simp add: ends_with_def)
  qed
qed

text \<open>
  \<open>func gcd(a, b uint64) uint64 { for b != 0 { a, b = b, a % b }; return a }\<close>
\<close>

definition gcd_node :: "nat \<Rightarrow> node" where
  "gcd_node k = \<lparr>node_Key = k, node_Pos = 0, node_End = 0\<rparr>"

definition gcd_info :: go_info where
  "gcd_info = (let u = GoBasic KindUint64 ''uint64''; a = VarObject 1 ''a'' u; b = VarObject 2 ''b'' u in
     \<lparr>info_Types = map_of [(22, \<lparr>tv_Type = GoBasic KindUntypedBool ''untyped bool'', tv_Value = None\<rparr>),
        (24, \<lparr>tv_Type = u, tv_Value = Some (ConstInt 0)\<rparr>), (29, \<lparr>tv_Type = u, tv_Value = None\<rparr>)],
      info_Defs = map_of [(20, FuncObject 3 ''gcd'' None (GoSignature [(1, ''a'', u), (2, ''b'', u)] [u]))],
      info_Uses = map_of [(23, b), (26, a), (27, b), (28, b), (30, a), (31, b), (33, a)]\<rparr>)"

definition gcd_checked :: CheckedPackage where
  "gcd_checked = \<lparr>Parsed = \<lparr>Filenames = [], FileSet = None, Files = []\<rparr>,
     Checked_Package = \<lparr>pkg_Key = 0, pkg_Name = ''main''\<rparr>, Info = gcd_info,
     Intrinsics = Map.empty, Syscalls = Map.empty, AccountField = Map.empty\<rparr>"

definition gcd_body :: "stmt list" where
  "gcd_body =
     [ForStmt (gcd_node 21) None
        (Some (BinaryExpr (gcd_node 22) (Ident (gcd_node 23) ''b'') tokNEQ (BasicLit (gcd_node 24) tokINT)))
        None (gcd_node 34)
        [AssignStmt (gcd_node 25) [Ident (gcd_node 26) ''a'', Ident (gcd_node 27) ''b''] tokASSIGN
           [Ident (gcd_node 28) ''b'',
            BinaryExpr (gcd_node 29) (Ident (gcd_node 30) ''a'') tokREM (Ident (gcd_node 31) ''b'')]],
      ReturnStmt (gcd_node 32) [Ident (gcd_node 33) ''a'']]"

definition gcd_decl :: func_decl where
  "gcd_decl = \<lparr>decl_Node = gcd_node 19, decl_Recv = None, decl_Name = (gcd_node 20, ''gcd''),
     decl_TypeParams = None, decl_Params = gcd_node 18, decl_Results = Some (gcd_node 17, []),
     decl_Body = Some (gcd_node 16, gcd_body)\<rparr>"

definition gcd_ins :: "ir_op \<Rightarrow> value_id \<Rightarrow> value_id \<Rightarrow> value_id \<Rightarrow> ir_instruction" where
  "gcd_ins op dest x y = zero_instruction\<lparr>ins_Op := op, ins_Dest := dest, ins_X := x, ins_Y := y\<rparr>"

definition gcd_graph :: ir_function where
  "gcd_graph =
     \<lparr>fn_Name = ''gcd'', fn_Params = [0, 1], fn_Result = TypeUint64,
      fn_Values = map2 (\<lambda>i (name, t, kind). \<lparr>value_ID = i, value_Name = name, value_Type = t, value_Kind = kind\<rparr>)
        [0, 1, 2, 3, 4, 5, 6]
        [(''a'', TypeUint64, ValueParameter), (''b'', TypeUint64, ValueParameter),
         (''t1'', TypeUint64, ValueTemporary), (''t2'', TypeBool, ValueTemporary),
         (''t3'', TypeUint64, ValueTemporary), (''t4'', TypeUint64, ValueTemporary), (''t5'', TypeUint64, ValueTemporary)],
      fn_Memory = [],
      fn_Blocks =
        [\<lparr>block_ID = 0, block_Name = ''entry.0'', block_Instructions = [],
          block_Terminator = zero_terminator\<lparr>term_Kind := TermJump, term_Target := 1, term_Result := NoValue\<rparr>\<rparr>,
         \<lparr>block_ID = 1, block_Name = ''for.cond.1'',
          block_Instructions = [gcd_ins OpConst 2 0 0, gcd_ins OpNotEqual 3 1 2],
          block_Terminator =
            zero_terminator\<lparr>term_Kind := TermBranch, term_True := 2, term_False := 3, term_Cond := 3\<rparr>\<rparr>,
         \<lparr>block_ID = 2, block_Name = ''for.body.2'',
          block_Instructions = [gcd_ins OpMove 4 1 0, gcd_ins OpMod 5 0 1, gcd_ins OpMove 6 5 0,
            gcd_ins OpMove 0 4 0, gcd_ins OpMove 1 6 0],
          block_Terminator = zero_terminator\<lparr>term_Kind := TermJump, term_Target := 1, term_Result := NoValue\<rparr>\<rparr>,
         \<lparr>block_ID = 3, block_Name = ''for.exit.3'', block_Instructions = [],
          block_Terminator = zero_terminator\<lparr>term_Kind := TermReturn, term_Result := 0\<rparr>\<rparr>],
      fn_Entry = 0\<rparr>"

definition gcd_store :: go_store where
  "gcd_store key = (if key = 1 then 18 else 12)"

definition gcd_registers :: ir_env where
  "gcd_registers i = (if i = 0 then 18 else 12)"

lemma gcd_lowered: "lower_declaration gcd_checked (FuncDecl gcd_decl) = Inr (Some gcd_graph)"
  by code_simp

lemma gcd_typed:
  "typed_function gcd_info (\<lambda>_. TypeUint64) TypeUint64
     [(1, ''a'', GoBasic KindUint64 ''uint64''), (2, ''b'', GoBasic KindUint64 ''uint64'')] gcd_body"
  by code_simp

lemma gcd_addresses: "findAddressTakenVariables gcd_info gcd_body = []"
  by code_simp

lemma gcd_result: "map_option ir_outcome (go_block 5 gcd_info (\<lambda>_. TypeUint64) gcd_store gcd_body) = Some (Inr (Some 6))"
  by code_simp

lemma gcd_called:
  "called_with (\<lambda>_. TypeUint64) gcd_graph
     [(1, ''a'', GoBasic KindUint64 ''uint64''), (2, ''b'', GoBasic KindUint64 ''uint64'')] gcd_store gcd_registers"
  by (simp add: called_with_def gcd_graph_def gcd_store_def gcd_registers_def in_range_def go_wrap_def integer_def)

theorem lowered_function_refines_witness:
  "\<exists>n. ir_run n gcd_graph (0, 0, gcd_registers) = Some (Inr (Some 6))"
proof -
  let ?u = "GoBasic KindUint64 ''uint64''" and ?\<tau> = "\<lambda>_ :: nat. TypeUint64"
  have body: "decl_Body gcd_decl = Some (gcd_node 16, gcd_body)" by (simp add: gcd_decl_def)
  have def: "info_Defs (Info gcd_checked) (node_Key (fst (decl_Name gcd_decl))) =
      Some (FuncObject 3 ''gcd'' None (GoSignature [(1, ''a'', ?u), (2, ''b'', ?u)] [?u]))"
    by (simp add: gcd_decl_def gcd_checked_def gcd_info_def gcd_node_def Let_def)
  have sig: "signature_of (GoSignature [(1, ''a'', ?u), (2, ''b'', ?u)] [?u]) = Some ([(1, ''a'', ?u), (2, ''b'', ?u)], [?u])"
    by (simp add: signature_of_def)
  have taken: "findAddressTakenVariables (Info gcd_checked) gcd_body = []" using gcd_addresses by (simp add: gcd_checked_def)
  have ty: "typed_function (Info gcd_checked) ?\<tau> (fn_Result gcd_graph) [(1, ''a'', ?u), (2, ''b'', ?u)] gcd_body"
    using gcd_typed by (simp add: gcd_checked_def gcd_graph_def)
  have size: "length (fn_Values gcd_graph) < 2 ^ 32" "length (fn_Blocks gcd_graph) \<le> 2 ^ 32" "unat (fn_Entry gcd_graph) = 0"
    by (simp_all add: gcd_graph_def)
  have "\<exists>turns outcome. go_block turns (Info gcd_checked) ?\<tau> gcd_store gcd_body = Some outcome \<and>
      ir_outcome outcome = Inr (Some 6)" using gcd_result by (auto simp: gcd_checked_def)
  then show ?thesis
    unfolding lowered_function_refines [OF gcd_lowered body def sig taken ty size(1,2) gcd_called, unfolded size(3), symmetric] .
qed

section \<open>Parallel assignment through a pointer\<close>

text \<open>\<open>func f(p, q *uint64) { p, *p = q, 7 }\<close>\<close>

definition tuple_checked :: CheckedPackage where
  "tuple_checked = (let u = GoBasic KindUint64 ''uint64''; t = GoPointer u; p = VarObject 1 ''p'' t; q = VarObject 2 ''q'' t in
     gcd_checked\<lparr>Info :=
       \<lparr>info_Types = map_of [(28, \<lparr>tv_Type = u, tv_Value = Some (ConstInt 7)\<rparr>)],
        info_Defs = map_of [(20, FuncObject 3 ''f'' None (GoSignature [(1, ''p'', t), (2, ''q'', t)] []))],
        info_Uses = map_of [(22, p), (24, p), (26, q)]\<rparr>\<rparr>)"

definition tuple_decl :: func_decl where
  "tuple_decl = gcd_decl\<lparr>decl_Name := (gcd_node 20, ''f''), decl_Results := None,
     decl_Body := Some (gcd_node 16,
       [AssignStmt (gcd_node 21)
          [Ident (gcd_node 22) ''p'', StarExpr (gcd_node 23) (Ident (gcd_node 24) ''p'')] tokASSIGN
          [Ident (gcd_node 26) ''q'', BasicLit (gcd_node 28) tokINT]])\<rparr>"


end
