(* ===== verification/Spec2Isabelle.thy ===== *)
theory Spec2Isabelle
  imports RtInvoke RtRoundTrip RtMemoryFacts RtErrors RtSyscall SdkClaims SdkTokenClaims SdkToken2022Claims SdkPrograms SbpfDisassembler SerialFacts ElfFacts SbpfCodec SbpfSyscall VmCalls SelectionClaims IrClaims LowerClaims
begin

text \<open>
  A verification library for solanago, a toolchain that compiles a part of Go to Solana's sBPF
  bytecode, with a virtual machine, a runtime and client libraries.

  \<^bold>\<open>The program and its parts.\<close>  The compiler (\<open>src/compiler\<close>) reads Go files, has \<open>go/types\<close> check
  them, accepts a sublanguage, lowers every function to a control flow graph over virtual registers
  and memory objects, validates that graph, allocates registers and selects sBPF instructions.
  \<open>src/sbpf\<close> holds the instruction set, its validator, codec and disassembler; \<open>src/elf\<close> packs
  bytecode into the ELF file Solana loads and parses it strictly; \<open>src/vm\<close> interprets bytecode on a
  table of memory regions.  \<open>src/runtime\<close> is what a program runs against on the chain: the serialised
  input, account views, guest memory, invocations of other programs, the entrypoint and its status
  codes.  \<open>src/sdk\<close> builds and decodes the instructions and states of the system programs, and
  \<open>src/serialization\<close> is the codec of user data.

  \<^bold>\<open>The theories.\<close>  A theory of a component has the data, the state and the operations under the names
  of the source, in its order; theories named \<open>Facts\<close> hold the lemmas, \<open>Claims\<close> the properties.
  \<^item> \<open>Prelude\<close>, \<open>Slices\<close>, \<open>Numerals\<close>: words and their bytes, slices, the error sum \<open>and_then\<close>, checks in
    sequence, decimal and hexadecimal text, and the collections \<open>codec_simps\<close> and \<open>vm_simps\<close>; the collection
    \<open>lower_steps\<close> of the lowering is in \<open>LowerFacts\<close>.
  \<^item> \<open>SbpfOpcode\<close>, \<open>SbpfInstruction\<close>, \<open>SbpfCodec\<close>, \<open>SbpfSyscall\<close>, \<open>SbpfDisassembler\<close> (\<open>src/sbpf\<close>): the
    encoding of programs is canonical, the Murmur3 hash of a call is what the runtime computes, a
    listing determines the bytecode.
  \<^item> \<open>VmMemory\<close>, \<open>VmMachine\<close>, \<open>VmFragment\<close>, \<open>VmMemoryFacts\<close>, \<open>VmSafety\<close>, \<open>VmCalls\<close> (\<open>src/vm\<close>): address
    translation, the interpreter as a step function with the instruction limit as fuel (a run is total
    and its bound is the configured limit), what an accepted program cannot do, calls and returns.
  \<^item> \<open>ElfWriter\<close>, \<open>ElfFacts\<close> (\<open>src/elf\<close>): writer and strict parser are inverse.
  \<^item> \<open>CompilerTypes\<close>, \<open>CompilerIr\<close>, \<open>IrValidate\<close>, \<open>AddressLifetime\<close>, \<open>IrFacts\<close>, \<open>IrClaims\<close>
    (\<open>ir.go\<close>, \<open>address_lifetime.go\<close>, \<open>syscalls.go\<close>): type codes, graphs, \<open>Program.Validate\<close> and the
    analysis of addresses of locals.  The analysis walks Go maps; their order is the parameter
    \<open>order_of_effects\<close>.
  \<^item> \<open>GoSyntax\<close>, \<open>Checker\<close>, \<open>Lowering\<close>, \<open>LowerStatements\<close> (\<open>parser.go\<close>, \<open>checker.go\<close>, \<open>lower.go\<close>,
    \<open>compiler.go\<close>, \<open>diagnostic.go\<close>): the frontend.  \<open>go/ast\<close> trees are datatypes whose nodes carry a key in
    place of their address; \<open>go/parser\<close>, \<open>go/types\<close> and the file system are parameters.  Lowering is a
    state passing computation that may stop with an error.
  \<^item> \<open>LowerFacts\<close>, \<open>LowerFlow\<close>: how lowering extends a function: \<open>emits\<close> for code appended to the open
    block, \<open>flow\<close> for statements; every function it returns is \<open>shaped\<close>.
  \<^item> \<open>GoSemantics\<close>: the meaning of Go statements on scalar variables (integers wrapped to their type,
    a bound on the turns of loops as fuel, \<open>None\<close> when it is used up), what \<open>go/types\<close> guarantees of
    them (\<open>typed_function\<close>), and the steps of a graph.  \<open>ExprFacts\<close>, \<open>StatementFacts\<close>, \<open>FlowFacts\<close>,
    \<open>LoopFacts\<close> prove that lowering keeps that meaning; \<open>LowerClaims\<close> states it with both
    bounds removed, so that runs without an end are covered.
  \<^item> \<open>RegisterAllocation\<close>, \<open>Backend\<close>, \<open>RegisterFacts\<close>, \<open>CodeFacts\<close>, \<open>BackendFacts\<close>, \<open>SelectionFacts\<close>,
    \<open>SelectionClaims\<close> (\<open>registers.go\<close>, \<open>backend.go\<close>, \<open>solana.go\<close>): homes of values, the frame, code
    generation; the code of a register operation, run by the interpreter, computes the operation.
  \<^item> \<open>SerialCodec\<close>, \<open>SerialFacts\<close> (\<open>src/serialization\<close>): the codec is canonical.
  \<^item> \<open>MemoryInterface\<close>: the locales of the interfaces between components, interpreted where their providers
    are defined.
  \<^item> \<open>RtHeap\<close>, \<open>RtMemory\<close>, \<open>RtAccount\<close>, \<open>RtContext\<close>, \<open>RtAbi\<close>, \<open>RtAbiMapped\<close>, \<open>RtLayout\<close>, \<open>RtCpi\<close>, \<open>RtErrors\<close>,
    \<open>RtEntry\<close>, \<open>RtSyscall\<close> (\<open>src/runtime\<close>): the runtime on an explicit heap of byte arrays, since views,
    snapshots and memory maps share storage.  \<open>RtChanges\<close>, \<open>RtInvoke\<close>, \<open>RtOwnership\<close>, \<open>RtTransfer\<close>,
    \<open>RtAtomic\<close>, \<open>RtParse\<close>, \<open>RtRoundTrip\<close>, \<open>RtMemoryFacts\<close>: the permitted changes, privileges, who owns
    which bytes, transfers, rollback, the input as a round trip, translation.
  \<^item> \<open>SdkPubkey\<close>, \<open>SdkAddress\<close>, \<open>SdkSystem\<close>, \<open>SdkToken\<close>, \<open>SdkToken2022\<close>, \<open>SdkToken2022Build\<close>, \<open>SdkPrograms\<close>
    and their \<open>Facts\<close> and \<open>Claims\<close> (\<open>src/sdk\<close>): Base58, derived addresses with SHA-256 and the curve
    test, instruction codecs and builders, account states and extensions, fees.

  \<^bold>\<open>Conventions.\<close>  Go integers of a width are words, \<open>int\<close> and positions are integers, errors are values
  of a sum, a panic of Go is an error of its own, slices that are shared are references into a heap.
  Loops are structural recursion or have a bound the source has (256 bump seeds, the instruction limit).
  The executor and the policy of invocations and the processor of an entrypoint are functions the
  embedding program supplies, so parameters.

  \<^bold>\<open>What the properties cover.\<close>  The chain from Go to results: lowering a function of scalar variables
  keeps its behaviour, the graphs are closed, the code selected for an operation computes it in the
  interpreter, the interpreter stays inside its memory; bytes round trip through every codec; the
  runtime permits and restores what it promises.  Some properties state what the code does where it
  differs from what it means to do: a parallel assignment through a pointer, validation that depends
  on the order of a map, sizes and bounds that are cut to 32 bits.

  \<^bold>\<open>Not modelled.\<close>  \<open>src/svmtest\<close> runs programs in an external validator, \<open>src/deploy\<close> sends transactions and
  reads key files, \<open>src/cmd\<close> and \<open>src/web\<close> are command lines and pages around the packages above, and
  \<open>src/examples\<close> are programs to be compiled.  Of calls, pointers and arrays the lowering is modelled and
  its shape is proved, but their meaning is not part of \<open>GoSemantics\<close>.
\<close>

end
